(* ===== verification/Prelude.thy ===== *)
theory Prelude
  imports Complex_Main "HOL-Library.Word" "HOL-Library.List_Lexorder"
begin

text \<open>
  The shared vocabulary of the development: JavaScript strings as lists of UTF-16 code
  units, byte strings, JavaScript numbers and JSON values, results of fallible code as
  sums, and the list and string operations of the language that the sources use, with the
  lemmas about them that the component theories share.
\<close>

section \<open>Collections of facts\<close>

named_theorems js_defs \<open>definitions of the string operations of the language\<close>
named_theorems result_simps \<open>equations that decompose results of fallible code\<close>

section \<open>Strings, bytes, dates\<close>

text \<open>
  A JavaScript string is a sequence of UTF-16 code units, and its length, indexing, slicing
  and comparison work on code units. A string is therefore a list of code units; literals are
  written \<open>js ''abc''\<close>. The lexicographic order of \<open>HOL-Library.List_Lexorder\<close> is the order
  of the language's \<open><\<close> on strings and of its default \<open>sort\<close>.
\<close>

type_synonym jstring = "nat list"

definition js :: "string \<Rightarrow> jstring" where
  "js s = map of_char s"

lemma js_Nil [simp]: "js [] = []"
  by (simp add: js_def)

lemma js_Cons [simp]: "js (c # cs) = of_char c # js cs"
  by (simp add: js_def)

lemma length_js [simp]: "length (js s) = length s"
  by (simp add: js_def)

text \<open>A byte array is a list of 8-bit words.\<close>

type_synonym byte = "8 word"
type_synonym bytes = "byte list"

lemma unat_byte_less: "unat (b :: byte) < 256"
  using unsigned_less [of b] by simp

lemma map_unat_bytes: "\<forall>c \<in> set (map unat (bs :: bytes)). c < 256"
  by (simp add: unat_byte_less)

text \<open>
  A \<open>Date\<close> holds a time in milliseconds since the epoch, or is invalid (its time is NaN).
\<close>

type_synonym date = "int option"

text \<open>\<open>Number.MAX_SAFE_INTEGER\<close>.\<close>

definition MAX_SAFE :: int where
  "MAX_SAFE = 2 ^ 53 - 1"

section \<open>Results of fallible code\<close>

text \<open>
  Fallible code returns a sum: \<open>Inl\<close> carries the thrown error, \<open>Inr\<close> the returned value.
\<close>

definition bindE :: "'e + 'a \<Rightarrow> ('a \<Rightarrow> 'e + 'b) \<Rightarrow> 'e + 'b" where
  "bindE m f = (case m of Inl e \<Rightarrow> Inl e | Inr x \<Rightarrow> f x)"

definition catchE :: "'e + 'a \<Rightarrow> ('e \<Rightarrow> 'f + 'a) \<Rightarrow> 'f + 'a" where
  "catchE m h = (case m of Inl e \<Rightarrow> h e | Inr x \<Rightarrow> Inr x)"

definition assertE :: "bool \<Rightarrow> 'e \<Rightarrow> 'e + unit" where
  "assertE b e = (if b then Inr () else Inl e)"

lemma bindE_Inl [simp]: "bindE (Inl e) f = Inl e"
  by (simp add: bindE_def)

lemma bindE_Inr [simp]: "bindE (Inr x) f = f x"
  by (simp add: bindE_def)

lemma bindE_eq_Inr [result_simps]:
  "bindE m f = Inr y \<longleftrightarrow> (\<exists>x. m = Inr x \<and> f x = Inr y)"
  by (cases m) simp_all

lemma bindE_eq_Inl [result_simps]:
  "bindE m f = Inl e \<longleftrightarrow> m = Inl e \<or> (\<exists>x. m = Inr x \<and> f x = Inl e)"
  by (cases m) simp_all

lemma bindE_assoc: "bindE (bindE m f) g = bindE m (\<lambda>x. bindE (f x) g)"
  by (cases m) simp_all

lemma bindE_cong [fundef_cong]:
  assumes "m = n" and "\<And>x. n = Inr x \<Longrightarrow> f x = g x"
  shows "bindE m f = bindE n g"
  using assms by (cases n) simp_all

lemma catchE_Inl [simp]: "catchE (Inl e) h = h e"
  by (simp add: catchE_def)

lemma catchE_Inr [simp]: "catchE (Inr x) h = Inr x"
  by (simp add: catchE_def)

lemma catchE_eq_Inr [result_simps]:
  "catchE m h = Inr y \<longleftrightarrow> m = Inr y \<or> (\<exists>e. m = Inl e \<and> h e = Inr y)"
  by (cases m) simp_all

lemma catchE_eq_Inl [result_simps]:
  "catchE m h = Inl f \<longleftrightarrow> (\<exists>e. m = Inl e \<and> h e = Inl f)"
  by (cases m) simp_all

lemma assertE_eq_Inr [result_simps]: "assertE b e = Inr u \<longleftrightarrow> b"
  by (simp add: assertE_def)

lemma assertE_eq_Inl [result_simps]: "assertE b e = Inl f \<longleftrightarrow> \<not> b \<and> f = e"
  by (auto simp: assertE_def)

lemma assertE_simps [simp]: "assertE True e = Inr ()" "assertE False e = Inl e"
  by (simp_all add: assertE_def)

text \<open>A loop that runs a fallible body on each element, stopping at the first error.\<close>

fun mapE :: "('a \<Rightarrow> 'e + 'b) \<Rightarrow> 'a list \<Rightarrow> 'e + 'b list" where
  "mapE f [] = Inr []"
| "mapE f (x # xs) = bindE (f x) (\<lambda>y. bindE (mapE f xs) (\<lambda>ys. Inr (y # ys)))"

fun eachE :: "('a \<Rightarrow> 'e + unit) \<Rightarrow> 'a list \<Rightarrow> 'e + unit" where
  "eachE f [] = Inr ()"
| "eachE f (x # xs) = bindE (f x) (\<lambda>_. eachE f xs)"

fun foldE :: "('s \<Rightarrow> 'a \<Rightarrow> 'e + 's) \<Rightarrow> 's \<Rightarrow> 'a list \<Rightarrow> 'e + 's" where
  "foldE f s [] = Inr s"
| "foldE f s (x # xs) = bindE (f s x) (\<lambda>s'. foldE f s' xs)"

fun filterE :: "('a \<Rightarrow> 'e + bool) \<Rightarrow> 'a list \<Rightarrow> 'e + 'a list" where
  "filterE f [] = Inr []"
| "filterE f (x # xs) =
     bindE (f x) (\<lambda>b. bindE (filterE f xs) (\<lambda>ys. Inr (if b then x # ys else ys)))"

text \<open>\<open>find\<close> and \<open>some\<close> stop at the first element that satisfies the predicate.\<close>

fun findE :: "('a \<Rightarrow> 'e + bool) \<Rightarrow> 'a list \<Rightarrow> 'e + 'a option" where
  "findE f [] = Inr None"
| "findE f (x # xs) = bindE (f x) (\<lambda>b. if b then Inr (Some x) else findE f xs)"

lemma filterE_eq_Inr:
  "filterE f xs = Inr ys \<longleftrightarrow>
     (\<forall>x \<in> set xs. \<exists>b. f x = Inr b) \<and> ys = filter (\<lambda>x. f x = Inr True) xs"
proof (induction xs arbitrary: ys)
  case (Cons x xs)
  show ?case
  proof (cases "f x")
    case (Inr b)
    have "filterE f (x # xs) = Inr ys \<longleftrightarrow>
        (\<exists>zs. filterE f xs = Inr zs \<and> ys = (if b then x # zs else zs))"
      using Inr by (auto simp: result_simps)
    with Inr show ?thesis unfolding Cons.IH by (cases b) auto
  qed simp
qed auto

lemma findE_eq_Some:
  "findE f xs = Inr (Some x) \<Longrightarrow> x \<in> set xs \<and> f x = Inr True"
  by (induction xs) (auto simp: result_simps split: if_splits)

lemma findE_total: "(\<And>x. x \<in> set xs \<Longrightarrow> f x = Inr (p x)) \<Longrightarrow> findE f xs = Inr (find p xs)"
  by (induction xs) auto

lemma mapE_cong [fundef_cong]:
  assumes "xs = ys" and "\<And>x. x \<in> set ys \<Longrightarrow> f x = g x"
  shows "mapE f xs = mapE g ys"
  using assms(2) unfolding assms(1)
  by (induction ys) (auto intro!: bindE_cong)

lemma mapE_eq_Inr: "mapE f xs = Inr ys \<longleftrightarrow> list_all2 (\<lambda>x y. f x = Inr y) xs ys"
  by (induction xs arbitrary: ys) (auto simp: result_simps list_all2_Cons1)

lemma mapE_length: "mapE f xs = Inr ys \<Longrightarrow> length ys = length xs"
  by (auto simp: mapE_eq_Inr dest: list_all2_lengthD)

lemma mapE_map: "\<forall>x \<in> set xs. f x = Inr (g x) \<Longrightarrow> mapE f xs = Inr (map g xs)"
  by (induction xs) auto

lemma eachE_eq_Inr: "eachE f xs = Inr u \<longleftrightarrow> (\<forall>x \<in> set xs. f x = Inr ())"
  by (induction xs) (auto simp: result_simps)

lemma foldE_append:
  "foldE f s (xs @ ys) = bindE (foldE f s xs) (\<lambda>s'. foldE f s' ys)"
  by (induction xs arbitrary: s) (simp_all add: bindE_assoc)

text \<open>An invariant of the body is an invariant of the loop.\<close>

lemma foldE_invariant:
  assumes step: "\<And>s x s'. P s \<Longrightarrow> x \<in> set xs \<Longrightarrow> f s x = Inr s' \<Longrightarrow> P s'"
    and run: "foldE f s xs = Inr t" and init: "P s"
  shows "P t"
  using run init step
proof (induction xs arbitrary: s)
  case (Cons x xs)
  from Cons.prems(1) obtain s' where s': "f s x = Inr s'" "foldE f s' xs = Inr t"
    by (auto simp: result_simps)
  have "P s'"
    using Cons.prems(2,3) s'(1) by (meson list.set_intros(1))
  with s'(2) show ?case
    by (rule Cons.IH) (meson Cons.prems(3) list.set_intros(2))
qed simp

section \<open>String operations of the language\<close>

definition starts_with :: "jstring \<Rightarrow> jstring \<Rightarrow> bool" where
  [js_defs]: "starts_with p s \<longleftrightarrow> take (length p) s = p"

definition ends_with :: "jstring \<Rightarrow> jstring \<Rightarrow> bool" where
  [js_defs]: "ends_with p s \<longleftrightarrow> length p \<le> length s \<and> drop (length s - length p) s = p"

text \<open>\<open>indexOf\<close> of one code unit; \<open>None\<close> is the result -1.\<close>

fun index_of :: "nat \<Rightarrow> jstring \<Rightarrow> nat option" where
  "index_of c [] = None"
| "index_of c (x # xs) = (if x = c then Some 0 else map_option Suc (index_of c xs))"

text \<open>\<open>split\<close> on one code unit: always at least one piece.\<close>

fun split_on :: "nat \<Rightarrow> jstring \<Rightarrow> jstring list" where
  "split_on c [] = [[]]"
| "split_on c (x # xs) =
     (if x = c then [] # split_on c xs
      else (case split_on c xs of [] \<Rightarrow> [[x]] | p # ps \<Rightarrow> (x # p) # ps))"

fun join :: "jstring \<Rightarrow> jstring list \<Rightarrow> jstring" where
  "join sep [] = []"
| "join sep [s] = s"
| "join sep (s # t # ts) = s @ sep @ join sep (t # ts)"

lemma starts_with_append [simp]: "starts_with p (p @ s)"
  by (simp add: starts_with_def)

lemma starts_with_iff: "starts_with p s \<longleftrightarrow> (\<exists>t. s = p @ t)"
  unfolding starts_with_def by (metis append_eq_conv_conj)

lemma ends_with_iff: "ends_with p s \<longleftrightarrow> (\<exists>t. s = t @ p)"
proof
  assume "ends_with p s"
  then have "s = take (length s - length p) s @ p"
    unfolding ends_with_def by (metis append_take_drop_id)
  then show "\<exists>t. s = t @ p" ..
qed (auto simp: ends_with_def)

lemma index_of_None: "index_of c s = None \<longleftrightarrow> c \<notin> set s"
  by (induction s) auto

lemma index_of_Some_iff:
  "index_of c s = Some i \<longleftrightarrow> i < length s \<and> s ! i = c \<and> c \<notin> set (take i s)"
proof (induction s arbitrary: i)
  case (Cons x xs)
  then show ?case by (cases i) auto
qed simp

lemma index_of_append [simp]: "c \<notin> set s \<Longrightarrow> index_of c (s @ c # t) = Some (length s)"
  by (induction s) auto

lemma index_of_split:
  "index_of c s = Some i \<Longrightarrow> s = take i s @ c # drop (Suc i) s"
  by (metis index_of_Some_iff id_take_nth_drop)

lemma split_on_nonempty [simp]: "split_on c s \<noteq> []"
  by (induction s) (auto split: list.splits)

lemma split_on_no_sep: "c \<notin> set s \<Longrightarrow> split_on c s = [s]"
  by (induction s) auto

lemma split_on_append:
  "c \<notin> set s \<Longrightarrow> split_on c (s @ c # t) = s # split_on c t"
  by (induction s) auto

lemma split_on_pieces: "p \<in> set (split_on c s) \<Longrightarrow> c \<notin> set p"
  by (induction s arbitrary: p) (auto split: list.splits if_splits)

lemma split_on_trailing: "[] \<in> set (tl (split_on c (t @ [c])))"
  by (induction t) (auto split: list.splits)

lemma split_join:
  "ps \<noteq> [] \<Longrightarrow> \<forall>p \<in> set ps. c \<notin> set p \<Longrightarrow> split_on c (join [c] ps) = ps"
proof (induction "[c]" ps rule: join.induct)
  case (3 s t ts)
  then show ?case by (simp add: split_on_append)
qed (auto simp: split_on_no_sep)

lemma join_split: "join [c] (split_on c s) = s"
proof (induction s)
  case (Cons x s)
  obtain p ps where p: "split_on c s = p # ps"
    using split_on_nonempty by (meson neq_Nil_conv)
  with Cons.IH show ?case by (cases ps) auto
qed simp

lemma join_Cons: "ts \<noteq> [] \<Longrightarrow> join sep (s # ts) = s @ sep @ join sep ts"
  by (cases ts) auto

lemma set_join: "set (join sep ts) \<subseteq> \<Union> (set ` set ts) \<union> set sep"
  by (induction sep ts rule: join.induct) auto

section \<open>Characters\<close>

definition isDigit :: "nat \<Rightarrow> bool" where
  "isDigit c \<longleftrightarrow> 48 \<le> c \<and> c \<le> 57"

definition isLower :: "nat \<Rightarrow> bool" where
  "isLower c \<longleftrightarrow> 97 \<le> c \<and> c \<le> 122"

definition isUpper :: "nat \<Rightarrow> bool" where
  "isUpper c \<longleftrightarrow> 65 \<le> c \<and> c \<le> 90"

definition isAlnum :: "nat \<Rightarrow> bool" where
  "isAlnum c \<longleftrightarrow> isDigit c \<or> isLower c \<or> isUpper c"

text \<open>\<open>toLowerCase\<close> on ASCII letters; it is used where the source folds ASCII names.\<close>

definition asciiLower :: "jstring \<Rightarrow> jstring" where
  "asciiLower = map (\<lambda>c. if isUpper c then c + 32 else c)"

lemma asciiLower_idem [simp]: "asciiLower (asciiLower s) = asciiLower s"
  by (auto simp: asciiLower_def isUpper_def)

lemma asciiLower_id: "(\<And>c. c \<in> set s \<Longrightarrow> \<not> isUpper c) \<Longrightarrow> asciiLower s = s"
  by (induction s) (auto simp: asciiLower_def)

text \<open>
  Code points of a string: a surrogate pair is one code point, a lone surrogate stands for
  itself, as in iteration over a string and in a regular expression with the \<open>u\<close> flag.
\<close>

fun codePoints :: "jstring \<Rightarrow> nat list" where
  "codePoints (h # l # s) =
     (if 0xD800 \<le> h \<and> h < 0xDC00 \<and> 0xDC00 \<le> l \<and> l < 0xE000
      then (0x10000 + (h - 0xD800) * 1024 + (l - 0xDC00)) # codePoints s
      else h # codePoints (l # s))"
| "codePoints s = s"

text \<open>\<open>TextEncoder.encode\<close>: UTF-8, with lone surrogates replaced by U+FFFD.\<close>

definition utf8CodePoint :: "nat \<Rightarrow> bytes" where
  "utf8CodePoint c =
     (let c = (if 0xD800 \<le> c \<and> c < 0xE000 then 0xFFFD else c) in
      map of_nat
        (if c < 0x80 then [c]
         else if c < 0x800 then [0xC0 + c div 64, 0x80 + c mod 64]
         else if c < 0x10000 then [0xE0 + c div 4096, 0x80 + c div 64 mod 64, 0x80 + c mod 64]
         else [0xF0 + c div 262144, 0x80 + c div 4096 mod 64, 0x80 + c div 64 mod 64,
               0x80 + c mod 64]))"

definition utf8 :: "jstring \<Rightarrow> bytes" where
  "utf8 s = concat (map utf8CodePoint (codePoints s))"

definition isAscii :: "jstring \<Rightarrow> bool" where
  "isAscii s \<longleftrightarrow> (\<forall>c \<in> set s. c < 128)"

lemma codePoints_ascii: "isAscii s \<Longrightarrow> codePoints s = s"
  by (induction s rule: codePoints.induct) (auto simp: isAscii_def)

lemma utf8_ascii: "isAscii s \<Longrightarrow> utf8 s = map of_nat s"
proof -
  assume a: "isAscii s"
  then have "concat (map utf8CodePoint s) = map of_nat s"
    by (induction s) (auto simp: isAscii_def utf8CodePoint_def)
  with a show ?thesis by (simp add: utf8_def codePoints_ascii)
qed

lemma length_utf8_ascii: "isAscii s \<Longrightarrow> length (utf8 s) = length s"
  by (simp add: utf8_ascii)

lemma utf8_ascii_inj: "isAscii s \<Longrightarrow> isAscii t \<Longrightarrow> utf8 s = utf8 t \<Longrightarrow> s = t"
proof (induction s arbitrary: t)
  case (Cons c s)
  then obtain d t' where t: "t = d # t'" by (cases t) (auto simp: utf8_ascii)
  with Cons.prems have "(of_nat c :: byte) = of_nat d" "c < 128" "d < 128"
    by (auto simp: utf8_ascii isAscii_def)
  then have "c = d" by (simp add: word_of_nat_eq_iff take_bit_nat_eq_self)
  with Cons t show ?case by (auto simp: utf8_ascii isAscii_def)
qed (cases t; simp add: utf8_ascii)

text \<open>The characters \<open>trim\<close> strips: white space and line terminators of the language.\<close>

definition isWhite :: "nat \<Rightarrow> bool" where
  "isWhite c \<longleftrightarrow> c \<in> {9, 10, 11, 12, 13, 32, 0xA0, 0x1680, 0x2028, 0x2029, 0x202F, 0x205F,
     0x3000, 0xFEFF} \<or> 0x2000 \<le> c \<and> c \<le> 0x200A"

definition trim :: "jstring \<Rightarrow> jstring" where
  "trim s = rev (dropWhile isWhite (rev (dropWhile isWhite s)))"

lemma dropWhile_none: "(\<And>c. c \<in> set s \<Longrightarrow> \<not> P c) \<Longrightarrow> dropWhile P s = s"
  by (cases s) auto

lemma trim_id: "(\<And>c. c \<in> set s \<Longrightarrow> \<not> isWhite c) \<Longrightarrow> trim s = s"
  using dropWhile_none [of s isWhite] dropWhile_none [of "rev s" isWhite]
  by (simp add: trim_def)

section \<open>Codecs\<close>

text \<open>
  The contract of an encoder and its decoder on the values \<open>ok\<close>: decoding an encoding gives the
  value back. An encoding then determines its value, which is what makes a signature over an
  encoding a signature over the value.
\<close>

locale codec =
  fixes enc :: "'a \<Rightarrow> 'b" and dec :: "'b \<Rightarrow> 'e + 'a" and ok :: "'a \<Rightarrow> bool"
  assumes dec_enc: "ok x \<Longrightarrow> dec (enc x) = Inr x"
begin

lemma enc_eq_iff: "ok x \<Longrightarrow> ok y \<Longrightarrow> enc x = enc y \<longleftrightarrow> x = y"
  by (metis dec_enc sum.inject(2))

lemma enc_inj_on: "inj_on enc (Collect ok)"
  by (rule inj_onI) (simp add: enc_eq_iff)

lemma dec_enc_unique: "ok x \<Longrightarrow> dec s = Inr y \<Longrightarrow> enc x = s \<Longrightarrow> x = y"
  using dec_enc [of x] by simp

lemma map_enc_eq_iff: "\<forall>x \<in> set xs \<union> set ys. ok x \<Longrightarrow> map enc xs = map enc ys \<longleftrightarrow> xs = ys"
  by (rule inj_on_map_eq_map [OF inj_on_subset [OF enc_inj_on]]) auto

lemma mapE_dec_enc: "\<forall>x \<in> set xs. ok x \<Longrightarrow> mapE dec (map enc xs) = Inr xs"
  by (induction xs) (auto simp: dec_enc)

end

end
