(* ===== verification/Errors.thy ===== *)
theory Errors
  imports Prelude
begin

text \<open>
  The errors of the protocol package (\<open>protocol/src/errors.ts\<close>): verification codes, lifecycle
  categories, and one value per class of thrown object. A message keeps its fixed text; the
  interpolated parts and the \<open>cause\<close> chain are left out, since no code branches on them.
\<close>

datatype VerificationCode =
    DNSResolution | DNSSECFailed | RecordNotFound | RecordInvalid | SignatureInvalid
  | KeyNotFound | TLSError | HTTPError | KeyAgeExceeded | StatusUnavailable | StatusNotActive
  | LogError | CounterpartyNotAccepted

datatype LifecycleErrorCategory =
    GENESIS_REQUIRED | DUPLICATE_ISSUANCE | INVALID_ISSUANCE | TERMINAL_STATE | DOMAIN_MISMATCH
  | KEY_CONTINUITY | INVALID_REVOCATION_REASON | INVALID_MIGRATION | SNAPSHOT_EMPTY
  | SNAPSHOT_NON_PREFIX | UNSUPPORTED_EVENT | CHAIN_CONTINUITY | INVALID_EVIDENCE
  | INCOMPLETE_STREAM | LOG_ROLLBACK | LOG_FORK | LOG_INCONSISTENT | CHECKPOINT_STORE_ERROR

text \<open>
  \<open>VerificationError\<close> and its subclasses of the C2SP log package, with the class of the object
  (the subclasses are told apart by \<open>instanceof\<close>) and the HTTP status of a \<open>C2spTlogError\<close>.
\<close>

datatype error_class =
    VerificationErrorClass | C2spTlogError | C2spTlogParseError | C2spTlogVerificationError
  | C2spTlogResourceLimitError | MissingC2spConsistencyEvidenceError | C2spCheckpointConsistencyError
  | C2spCheckpointStoreError

record VerificationError =
  ve_class :: error_class
  ve_code :: VerificationCode
  ve_transient :: bool
  ve_agentState :: "jstring option"
  ve_errorCategory :: "LifecycleErrorCategory option"
  ve_verifiedGovernanceId :: "jstring option"
  ve_verifiedEntityKeyThumbprint :: "jstring option"
  ve_status :: "int option"
  ve_cancellation :: bool
  ve_message :: string

text \<open>
  The classes of thrown objects that code distinguishes: the package's own, the language's
  \<open>TypeError\<close>, \<open>RangeError\<close> and \<open>SyntaxError\<close>, a \<open>DOMException\<close> with its name, and any other
  \<open>Error\<close>.
\<close>

datatype js_error =
    ParseError string
  | ValidationError string
  | ArgumentError string
  | Verification VerificationError
  | JsTypeError string
  | JsRangeError string
  | JsSyntaxError string
  | DOMException string
  | PlainError string

text \<open>The constructor of \<open>VerificationError\<close> from an init with only a code and a transient flag.\<close>

definition verification_error :: "string \<Rightarrow> VerificationCode \<Rightarrow> bool \<Rightarrow> VerificationError" where
  "verification_error message code transient =
     \<lparr>ve_class = VerificationErrorClass, ve_code = code, ve_transient = transient, ve_agentState = None, ve_errorCategory = None,
      ve_verifiedGovernanceId = None, ve_verifiedEntityKeyThumbprint = None, ve_status = None,
      ve_cancellation = False, ve_message = message\<rparr>"

definition failWith :: "string \<Rightarrow> VerificationCode \<Rightarrow> js_error" where
  "failWith message code = Verification (verification_error message code False)"

definition failTransient :: "string \<Rightarrow> VerificationCode \<Rightarrow> js_error" where
  "failTransient message code = Verification (verification_error message code True)"

definition failCategory :: "string \<Rightarrow> VerificationCode \<Rightarrow> LifecycleErrorCategory \<Rightarrow> js_error" where
  "failCategory message code cat =
     Verification (verification_error message code False \<lparr>ve_errorCategory := Some cat\<rparr>)"

text \<open>\<open>e instanceof VerificationError && e.transient\<close>, and the code carried by an error.\<close>

fun isTransient :: "js_error \<Rightarrow> bool" where
  "isTransient (Verification v) = ve_transient v"
| "isTransient _ = False"

fun errorCode :: "js_error \<Rightarrow> VerificationCode option" where
  "errorCode (Verification v) = Some (ve_code v)"
| "errorCode _ = None"

fun errorCategoryOf :: "js_error \<Rightarrow> LifecycleErrorCategory option" where
  "errorCategoryOf (Verification v) = ve_errorCategory v"
| "errorCategoryOf _ = None"

lemma fail_simps [simp]:
  "errorCode (failWith m c) = Some c" "isTransient (failWith m c) = False"
  "errorCategoryOf (failWith m c) = None"
  "errorCode (failTransient m c) = Some c" "isTransient (failTransient m c) = True"
  "errorCategoryOf (failTransient m c) = None"
  "errorCode (failCategory m c cat) = Some c" "isTransient (failCategory m c cat) = False"
  "errorCategoryOf (failCategory m c cat) = Some cat"
  by (simp_all add: failWith_def failTransient_def failCategory_def verification_error_def)

text \<open>
  \<open>cancellationError\<close> and \<open>isCancellation\<close> of \<open>protocol/src/verification-budget.ts\<close>: the transient
  error of an aborted invocation, marked with a private symbol.
\<close>

definition cancellationError :: js_error where
  "cancellationError = Verification
     (verification_error ''verification deadline exceeded or canceled'' RecordInvalid True
        \<lparr>ve_cancellation := True\<rparr>)"

fun isCancellation :: "js_error \<Rightarrow> bool" where
  "isCancellation (Verification v) = ve_cancellation v"
| "isCancellation _ = False"

lemma cancellationError_simps [simp]:
  "isCancellation cancellationError" "isTransient cancellationError"
  "errorCode cancellationError = Some RecordInvalid"
  by (simp_all add: cancellationError_def verification_error_def)

lemma failWith_not_cancellation [simp]:
  "\<not> isCancellation (failWith m c)" "\<not> isCancellation (failTransient m c)"
  "\<not> isCancellation (failCategory m c cat)"
  by (simp_all add: failWith_def failTransient_def failCategory_def verification_error_def)

section \<open>Errors of the log package\<close>

text \<open>
  The constructors of \<open>log-c2sp-tlog/src/errors.ts\<close>: every one carries the code \<open>LogError\<close> and a
  lifecycle category, \<open>INVALID_EVIDENCE\<close> unless another is given.
\<close>

definition c2spError :: "string \<Rightarrow> bool \<Rightarrow> LifecycleErrorCategory \<Rightarrow> int option \<Rightarrow> js_error" where
  "c2spError message transient cat status = Verification
     (verification_error message LogError transient
        \<lparr>ve_class := C2spTlogError, ve_errorCategory := Some cat, ve_status := status\<rparr>)"

definition c2spParseError :: "string \<Rightarrow> js_error" where
  "c2spParseError message = Verification
     (verification_error message LogError False
        \<lparr>ve_class := C2spTlogParseError, ve_errorCategory := Some INVALID_EVIDENCE\<rparr>)"

definition c2spVerificationError :: "string \<Rightarrow> LifecycleErrorCategory \<Rightarrow> js_error" where
  "c2spVerificationError message cat = Verification
     (verification_error message LogError False
        \<lparr>ve_class := C2spTlogVerificationError, ve_errorCategory := Some cat\<rparr>)"

definition c2spResourceLimitError :: "string \<Rightarrow> js_error" where
  "c2spResourceLimitError message = Verification
     (verification_error message LogError False
        \<lparr>ve_class := C2spTlogResourceLimitError, ve_errorCategory := Some INVALID_EVIDENCE\<rparr>)"

text \<open>\<open>c2spLogError\<close>: a \<open>LogError\<close> passes, anything else is wrapped into one.\<close>

fun c2spLogError :: "string \<Rightarrow> js_error \<Rightarrow> bool \<Rightarrow> js_error" where
  "c2spLogError message (Verification v) transient =
     (if ve_code v = LogError then Verification v
      else Verification (verification_error message LogError (ve_transient v)
        \<lparr>ve_errorCategory := Some (case ve_errorCategory v of None \<Rightarrow> INVALID_EVIDENCE | Some c \<Rightarrow> c)\<rparr>))"
| "c2spLogError message e transient =
     Verification (verification_error message LogError transient
       \<lparr>ve_errorCategory := Some INVALID_EVIDENCE\<rparr>)"

lemma c2sp_fail_simps [simp]:
  "errorCode (c2spError m tr cat st) = Some LogError" "isTransient (c2spError m tr cat st) = tr"
  "errorCategoryOf (c2spError m tr cat st) = Some cat"
  "errorCode (c2spParseError m) = Some LogError" "isTransient (c2spParseError m) = False"
  "errorCategoryOf (c2spParseError m) = Some INVALID_EVIDENCE"
  "errorCode (c2spVerificationError m cat) = Some LogError"
  "isTransient (c2spVerificationError m cat) = False"
  "errorCategoryOf (c2spVerificationError m cat) = Some cat"
  "errorCode (c2spResourceLimitError m) = Some LogError"
  "isTransient (c2spResourceLimitError m) = False"
  "errorCategoryOf (c2spResourceLimitError m) = Some INVALID_EVIDENCE"
  by (simp_all add: c2spError_def c2spParseError_def c2spVerificationError_def
      c2spResourceLimitError_def verification_error_def)

lemma c2spLogError_code [simp]: "errorCode (c2spLogError m e tr) = Some LogError"
  by (cases e) (simp_all add: verification_error_def)

end
