(* ===== verification/Json.thy ===== *)
theory Json
  imports Errors
begin

text \<open>
  Values of the language as the sources handle them, and the platform. A value decoded from JSON
  is cast to an interface without a check, so code that reads a property works on arbitrary
  values: property access is total on everything but \<open>null\<close> and \<open>undefined\<close>, where it raises a
  \<open>TypeError\<close>. The WHATWG URL parser, the Unicode categories, case conversion, the \<open>Date\<close>
  constructor and the conversions between numbers and text are parameters, fields of a \<open>platform\<close>.
\<close>

section \<open>Values\<close>

text \<open>
  A number: finite, the negative zero (which only \<open>Object.is\<close> tells from zero), or one of the values
  that are not finite.
\<close>

datatype jsnum = Fin rat | NegZero | NaN | PosInf | NegInf

fun finiteNum :: "jsnum \<Rightarrow> rat option" where
  "finiteNum (Fin q) = Some q"
| "finiteNum NegZero = Some 0"
| "finiteNum _ = None"

text \<open>\<open>m === n\<close> of numbers.\<close>

definition numEq :: "jsnum \<Rightarrow> jsnum \<Rightarrow> bool" where
  "numEq m n \<longleftrightarrow> m \<noteq> NaN \<and> (m = n \<or> finiteNum m = Some 0 \<and> finiteNum n = Some 0)"

datatype json =
    JUndef
  | JNull
  | JBool bool
  | JNum jsnum
  | JStr jstring
  | JArr "json list"
  | JObj "(jstring \<times> json) list"

text \<open>\<open>v.k\<close> for a name \<open>k\<close> that no prototype of the language defines; \<open>None\<close> is the \<open>TypeError\<close>.\<close>

definition lookupProp :: "(jstring \<times> json) list \<Rightarrow> jstring \<Rightarrow> json" where
  "lookupProp o' k = (case map_of o' k of None \<Rightarrow> JUndef | Some v \<Rightarrow> v)"

fun propOf :: "json \<Rightarrow> string \<Rightarrow> json" where
  "propOf (JObj o') k = lookupProp o' (js k)"
| "propOf _ k = JUndef"

definition nullish :: "json \<Rightarrow> bool" where
  "nullish v \<longleftrightarrow> v = JUndef \<or> v = JNull"

definition getp :: "json \<Rightarrow> string \<Rightarrow> js_error + json" where
  "getp v k = (if nullish v then Inl (JsTypeError ''Cannot read properties'') else Inr (propOf v k))"

fun truthy :: "json \<Rightarrow> bool" where
  "truthy JUndef = False"
| "truthy JNull = False"
| "truthy (JBool b) = b"
| "truthy (JNum n) = (n \<noteq> Fin 0 \<and> n \<noteq> NegZero \<and> n \<noteq> NaN)"
| "truthy (JStr s) = (s \<noteq> [])"
| "truthy (JArr _) = True"
| "truthy (JObj _) = True"

text \<open>\<open>v === 'text'\<close> and the string a value holds.\<close>

definition isStr :: "json \<Rightarrow> string \<Rightarrow> bool" where
  "isStr v s \<longleftrightarrow> v = JStr (js s)"

fun strOf :: "json \<Rightarrow> jstring option" where
  "strOf (JStr s) = Some s"
| "strOf _ = None"

text \<open>
  \<open>a === b\<close>. Two values read from different documents are different objects, so objects and arrays
  are never equal.
\<close>

fun strictEq :: "json \<Rightarrow> json \<Rightarrow> bool" where
  "strictEq (JNum m) (JNum n) = numEq m n"
| "strictEq (JArr _) _ = False"
| "strictEq (JObj _) _ = False"
| "strictEq a b = (a = b)"

text \<open>\<open>typeof v === 'object'\<close> (which holds of \<open>null\<close>), and a JSON object that is no array.\<close>

fun isObjectType :: "json \<Rightarrow> bool" where
  "isObjectType JNull = True"
| "isObjectType (JArr _) = True"
| "isObjectType (JObj _) = True"
| "isObjectType _ = False"

section \<open>The platform\<close>

text \<open>The components of a parsed URL that the sources read.\<close>

record url =
  url_protocol :: jstring
  url_hostname :: jstring
  url_port :: jstring
  url_pathname :: jstring
  url_search :: jstring
  url_hash :: jstring
  url_username :: jstring
  url_password :: jstring

record platform =
  urlParse :: "jstring \<Rightarrow> url option"
  unicodeCZ :: "nat \<Rightarrow> bool"
  toLowerCase :: "jstring \<Rightarrow> jstring"
  newDate :: "json \<Rightarrow> date"
  numToString :: "jsnum \<Rightarrow> jstring"
  numFromText :: "jstring \<Rightarrow> jsnum"

text \<open>\<open>String(v)\<close>: arrays are joined by commas, with \<open>null\<close> and \<open>undefined\<close> elements empty.\<close>

fun toStr :: "platform \<Rightarrow> json \<Rightarrow> jstring" where
  "toStr P JUndef = js ''undefined''"
| "toStr P JNull = js ''null''"
| "toStr P (JBool b) = (if b then js ''true'' else js ''false'')"
| "toStr P (JNum n) = numToString P n"
| "toStr P (JStr s) = s"
| "toStr P (JArr vs) = join [44] (map (\<lambda>v. if nullish v then [] else toStr P v) vs)"
| "toStr P (JObj _) = js ''[object Object]''"

section \<open>JSON text of strings\<close>

definition hexDigit :: "nat \<Rightarrow> nat" where
  "hexDigit n = (if n < 10 then 48 + n else 87 + n)"

definition unicodeEscape :: "nat \<Rightarrow> jstring" where
  "unicodeEscape c = [92, 117, hexDigit (c div 4096 mod 16), hexDigit (c div 256 mod 16),
     hexDigit (c div 16 mod 16), hexDigit (c mod 16)]"

text \<open>\<open>JSON.stringify\<close> of one code unit: short escapes, control characters, lone surrogates.\<close>

definition quoteUnit :: "bool \<Rightarrow> nat \<Rightarrow> jstring" where
  "quoteUnit paired c =
     (if c = 34 then [92, 34] else if c = 92 then [92, 92]
      else if c = 8 then [92, 98] else if c = 9 then [92, 116] else if c = 10 then [92, 110]
      else if c = 12 then [92, 102] else if c = 13 then [92, 114]
      else if c < 32 \<or> 0xD800 \<le> c \<and> c < 0xE000 \<and> \<not> paired then unicodeEscape c
      else [c])"

fun quoteUnits :: "jstring \<Rightarrow> jstring" where
  "quoteUnits [] = []"
| "quoteUnits [c] = quoteUnit False c"
| "quoteUnits (h # l # s) =
     (if 0xD800 \<le> h \<and> h < 0xDC00 \<and> 0xDC00 \<le> l \<and> l < 0xE000
      then h # l # quoteUnits s
      else quoteUnit False h @ quoteUnits (l # s))"

definition quoteJson :: "jstring \<Rightarrow> jstring" where
  "quoteJson s = 34 # quoteUnits s @ [34]"

text \<open>
  Quoted strings are self-delimiting: no quote of a quoted string is unescaped but the last. The
  text therefore determines the string and what follows it.
\<close>

lemma hexDigit_plain: "n < 16 \<Longrightarrow> hexDigit n \<noteq> 34 \<and> hexDigit n \<noteq> 92"
  by (auto simp: hexDigit_def)

end
