(* ===== verification/Names.thy ===== *)
theory Names
  imports Json
begin

text \<open>
  Domain names and key identifiers (\<open>protocol/src/utils.ts\<close>): \<open>normalizeFQDN\<close>,
  \<open>isDomainName\<close>, \<open>parseKeyId\<close>, \<open>parseKaDuration\<close> and \<open>matchesDnsName\<close>. The WHATWG URL parser,
  the Unicode general categories C and Z, and \<open>toLowerCase\<close> are parameters of the platform.
\<close>

section \<open>The code\<close>

definition MAX_FQDN_OCTETS :: nat where "MAX_FQDN_OCTETS = 253"
definition MAX_AGENT_FQDN_OCTETS :: nat where "MAX_AGENT_FQDN_OCTETS = 246"
definition MAX_LABEL_OCTETS :: nat where "MAX_LABEL_OCTETS = 63"

text \<open>A label begins or ends with a hyphen (45).\<close>

definition hyphenEnds :: "jstring \<Rightarrow> bool" where
  "hyphenEnds label \<longleftrightarrow> starts_with [45] label \<or> ends_with [45] label"

definition isLdh :: "nat \<Rightarrow> bool" where
  "isLdh c \<longleftrightarrow> isLower c \<or> isDigit c \<or> c = 45"

text \<open>The regular expression \<open>^(?:\d+\.){3}\d+$\<close>: four dot-separated digit strings.\<close>

definition looksLikeIpv4 :: "jstring \<Rightarrow> bool" where
  "looksLikeIpv4 s \<longleftrightarrow>
     (let ps = split_on 46 s in length ps = 4 \<and> (\<forall>p \<in> set ps. p \<noteq> [] \<and> (\<forall>c \<in> set p. isDigit c)))"

text \<open>The checks on one label of the normalized name, in the order of the loop.\<close>

definition checkLabel :: "jstring \<Rightarrow> js_error + unit" where
  "checkLabel label =
     (if label = [] then Inl (ValidationError ''FQDN contains empty label'')
      else if hyphenEnds label
        then Inl (ValidationError ''DNS label may not begin or end with a hyphen'')
      else if \<not> (\<forall>c \<in> set label. isLdh c) \<or>
          take 2 (drop 2 label) = [45, 45] \<and> \<not> starts_with (js ''xn--'') label
        then Inl (ValidationError ''DNS label is not a valid LDH or A-label'')
      else if length (utf8 label) > MAX_LABEL_OCTETS
        then Inl (ValidationError ''DNS label exceeds 63 octets'')
      else Inr ())"

text \<open>The \<open>try\<close> block: every failure, its own included, becomes one \<open>ValidationError\<close>.\<close>

definition plainHost :: "platform \<Rightarrow> jstring \<Rightarrow> js_error + jstring" where
  "plainHost P host =
     (case urlParse P (js ''https://'' @ host) of
        None \<Rightarrow> Inl (ValidationError ''FQDN is not a valid domain name'')
      | Some u \<Rightarrow>
          if url_pathname u \<noteq> js ''/'' \<or> url_search u \<noteq> [] \<or> url_hash u \<noteq> [] \<or> url_port u \<noteq> [] \<or>
             url_username u \<noteq> [] \<or> url_password u \<noteq> []
          then Inl (ValidationError ''FQDN is not a valid domain name'')
          else Inr (url_hostname u))"

definition normalizeFQDN :: "platform \<Rightarrow> jstring \<Rightarrow> bool \<Rightarrow> js_error + jstring" where
  "normalizeFQDN P name agentFQDN =
     (if name = [] then Inl (ValidationError ''FQDN cannot be empty'') else
      let name' = map (\<lambda>c. if c \<in> {0x3002, 0xFF0E, 0xFF61} then 46 else c) name;
          withoutTrailingDot = (if ends_with [46] name' then butlast name' else name')
      in
      if withoutTrailingDot = []
        then Inl (ValidationError ''FQDN cannot be empty after normalization'')
      else if \<exists>c \<in> set (codePoints withoutTrailingDot).
          c \<in> {47, 92, 58, 64, 63, 35, 37} \<or> unicodeCZ P c
        then Inl (ValidationError ''FQDN contains invalid characters'')
      else if \<exists>label \<in> set (split_on 46 withoutTrailingDot). hyphenEnds label
        then Inl (ValidationError ''DNS label may not begin or end with a hyphen'')
      else
        bindE (plainHost P withoutTrailingDot) (\<lambda>normalized.
        if normalized = [] \<or> starts_with [91] normalized \<or> looksLikeIpv4 normalized
          then Inl (ValidationError ''FQDN must be a domain name, not an IP address'')
        else
          bindE (eachE checkLabel (split_on 46 normalized)) (\<lambda>_.
          let fqdnBytes = length (utf8 normalized) in
          if fqdnBytes > MAX_FQDN_OCTETS
            then Inl (ValidationError ''FQDN exceeds 253-octet DNS presentation limit'')
          else if agentFQDN \<and> fqdnBytes > MAX_AGENT_FQDN_OCTETS
            then Inl (ValidationError ''Agent FQDN exceeds 246-octet DNSid limit'')
          else Inr normalized)))"

text \<open>\<open>isDomainName\<close>: every label of the regular expression starts and ends with a letter or digit.\<close>

definition domainLabel :: "jstring \<Rightarrow> bool" where
  "domainLabel l \<longleftrightarrow> l \<noteq> [] \<and> isAlnum (hd l) \<and> isAlnum (last l) \<and> (\<forall>c \<in> set l. isAlnum c \<or> c = 45)"

definition isDomainName :: "jstring \<Rightarrow> bool" where
  "isDomainName value =
     (let v = (if ends_with [46] value then butlast value else value)
      in \<forall>l \<in> set (split_on 46 v). domainLabel l)"

definition parseKeyId :: "platform \<Rightarrow> jstring \<Rightarrow> js_error + jstring \<times> jstring" where
  "parseKeyId P keyId =
     (case index_of 35 keyId of
        None \<Rightarrow> Inl (ArgumentError ''key ID must contain '#' separator'')
      | Some hashIdx \<Rightarrow>
          let domainPart = take hashIdx keyId; kidPart = drop (Suc hashIdx) keyId in
          if domainPart = [] then Inl (ArgumentError ''key ID domain part is empty'')
          else if kidPart = [] then Inl (ArgumentError ''key ID kid part is empty'')
          else if 35 \<in> set kidPart then Inl (ArgumentError ''key ID kid part must not contain '#' '')
          else bindE
            (catchE (normalizeFQDN P domainPart False)
              (\<lambda>_. Inl (ArgumentError ''key ID domain part is not a valid FQDN'')))
            (\<lambda>domain. Inr (domain, kidPart)))"

definition parseKaDuration :: "jstring \<Rightarrow> js_error + int" where
  "parseKaDuration ka =
     (if ka = js ''24h'' then Inr (24 * 60 * 60 * 1000)
      else if ka = js ''7d'' then Inr (7 * 24 * 60 * 60 * 1000)
      else if ka = js ''30d'' then Inr (30 * 24 * 60 * 60 * 1000)
      else if ka = js ''90d'' then Inr (90 * 24 * 60 * 60 * 1000)
      else Inl (ArgumentError ''invalid ka value''))"

definition stripDot :: "jstring \<Rightarrow> jstring" where
  "stripDot s = (if ends_with [46] s then butlast s else s)"

definition matchesEntry :: "platform \<Rightarrow> jstring \<Rightarrow> jstring \<Rightarrow> bool" where
  "matchesEntry P target entry =
     (let name = toLowerCase P (stripDot entry) in
      name = target \<or>
      starts_with (js ''*.'') name \<and>
      (case index_of 46 target of
         None \<Rightarrow> False
       | Some dotIdx \<Rightarrow> 0 < dotIdx \<and> drop (Suc dotIdx) target = drop 2 name))"

definition matchesDnsName :: "platform \<Rightarrow> jstring list \<Rightarrow> jstring \<Rightarrow> bool" where
  "matchesDnsName P san fqdn =
     (let target = toLowerCase P (stripDot fqdn) in
      target \<noteq> [] \<and> (\<exists>entry \<in> set san. matchesEntry P target entry))"

section \<open>Normalized names\<close>

text \<open>What the rest of the protocol relies on: a normalized name is an LDH domain name.\<close>

definition wfLabel :: "jstring \<Rightarrow> bool" where
  "wfLabel l \<longleftrightarrow> l \<noteq> [] \<and> length l \<le> 63 \<and> (\<forall>c \<in> set l. isLdh c) \<and> \<not> hyphenEnds l \<and>
     (take 2 (drop 2 l) = [45, 45] \<longrightarrow> starts_with (js ''xn--'') l)"

definition wfFqdn :: "jstring \<Rightarrow> bool" where
  "wfFqdn d \<longleftrightarrow> (\<forall>l \<in> set (split_on 46 d). wfLabel l) \<and> length d \<le> 253 \<and> \<not> looksLikeIpv4 d"

lemma isLdh_ascii: "isLdh c \<Longrightarrow> c < 128"
  by (auto simp: isLdh_def isLower_def isDigit_def)

lemma checkLabel_iff: "checkLabel l = Inr u \<longleftrightarrow> wfLabel l"
proof (cases "\<forall>c \<in> set l. isLdh c")
  case True
  then have "length (utf8 l) = length l"
    by (intro length_utf8_ascii) (auto simp: isAscii_def isLdh_ascii)
  with True show ?thesis by (auto simp: checkLabel_def wfLabel_def MAX_LABEL_OCTETS_def)
next
  case False
  then show ?thesis by (simp add: checkLabel_def wfLabel_def)
qed

text \<open>The code units of a name all of whose labels are well formed.\<close>

lemma wfLabels_chars:
  assumes "\<forall>l \<in> set (split_on 46 d). wfLabel l" and "c \<in> set d"
  shows "isLdh c \<or> c = 46"
proof -
  have "c \<in> set (join [46] (split_on 46 d))" using assms(2) by (simp add: join_split)
  then have "c \<in> \<Union> (set ` set (split_on 46 d)) \<union> {46}" using set_join by fastforce
  with assms(1) show ?thesis by (auto simp: wfLabel_def)
qed

lemma wfLabels_ascii: "\<forall>l \<in> set (split_on 46 d). wfLabel l \<Longrightarrow> isAscii d"
  using wfLabels_chars isLdh_ascii unfolding isAscii_def by fastforce

lemma wfFqdn_ascii: "wfFqdn d \<Longrightarrow> isAscii d"
  by (simp add: wfFqdn_def wfLabels_ascii)

lemma wfFqdn_nonempty: "wfFqdn d \<Longrightarrow> d \<noteq> []"
  by (auto simp: wfFqdn_def wfLabel_def)

lemma normalizeFQDN_result:
  assumes "normalizeFQDN P n ag = Inr d"
  shows "wfFqdn d" "ag \<Longrightarrow> length d \<le> 246"
    "\<exists>host u. urlParse P (js ''https://'' @ host) = Some u \<and> d = url_hostname u"
proof -
  from assms have wf: "\<forall>l \<in> set (split_on 46 d). wfLabel l"
    and len: "length (utf8 d) \<le> 253" "ag \<Longrightarrow> length (utf8 d) \<le> 246"
    and ip: "\<not> looksLikeIpv4 d"
    and url: "\<exists>host u. urlParse P (js ''https://'' @ host) = Some u \<and> d = url_hostname u"
    by (auto simp: normalizeFQDN_def plainHost_def Let_def result_simps eachE_eq_Inr checkLabel_iff
        MAX_FQDN_OCTETS_def MAX_AGENT_FQDN_OCTETS_def split: if_splits option.splits)
  from wf have "length (utf8 d) = length d" by (intro length_utf8_ascii wfLabels_ascii)
  with wf len ip url show "wfFqdn d" "ag \<Longrightarrow> length d \<le> 246"
    "\<exists>host u. urlParse P (js ''https://'' @ host) = Some u \<and> d = url_hostname u"
    by (auto simp: wfFqdn_def)
qed

text \<open>
  A URL parser keeps a host it has produced, in a URL with no other component. This is the
  documented round trip of the WHATWG host parser and serializer.
\<close>

definition hostStable :: "platform \<Rightarrow> bool" where
  "hostStable P \<longleftrightarrow> (\<forall>s u. urlParse P s = Some u \<and> wfFqdn (url_hostname u) \<longrightarrow>
     (\<exists>v. urlParse P (js ''https://'' @ url_hostname u) = Some v \<and> url_hostname v = url_hostname u \<and>
        url_pathname v = js ''/'' \<and> url_search v = [] \<and> url_hash v = [] \<and> url_port v = [] \<and>
        url_username v = [] \<and> url_password v = []))"

text \<open>Lower-case letters, digits, hyphens and dots are in neither category C nor Z.\<close>

definition asciiCategories :: "platform \<Rightarrow> bool" where
  "asciiCategories P \<longleftrightarrow> (\<forall>c. isLdh c \<or> c = 46 \<longrightarrow> \<not> unicodeCZ P c)"

text \<open>A name the platform serializes as itself is a fixed point of the normalization.\<close>

lemma normalizeFQDN_fixed:
  assumes wf: "wfFqdn d" and ag: "ag \<longrightarrow> length d \<le> 246" and cz: "asciiCategories P"
    and url: "plainHost P d = Inr d"
  shows "normalizeFQDN P d ag = Inr d"
proof -
  note labels = wf [unfolded wfFqdn_def, THEN conjunct1]
  have chars: "isLdh c \<or> c = 46" if "c \<in> set d" for c
    using wfLabels_chars [OF labels that] .
  have nodot: "\<not> ends_with [46] d"
  proof
    assume "ends_with [46] d"
    then obtain t where t: "d = t @ [46]" by (auto simp: ends_with_iff)
    have "[] \<in> set (split_on 46 d)"
      unfolding t by (rule list.set_sel(2) [OF split_on_nonempty split_on_trailing])
    with labels show False by (auto simp: wfLabel_def)
  qed
  have "c \<notin> {0x3002, 0xFF0E, 0xFF61}" if "c \<in> set d" for c
    using chars [OF that] isLdh_ascii [of c] by auto
  then have "map (\<lambda>c. if c \<in> {0x3002, 0xFF0E, 0xFF61} then 46 else c) d = d"
    by (simp add: map_idI)
  moreover have "c \<notin> {47, 92, 58, 64, 63, 35, 37} \<and> \<not> unicodeCZ P c" if "c \<in> set d" for c
    using chars [OF that] cz [unfolded asciiCategories_def, rule_format, of c]
    by (auto simp: isLdh_def isLower_def isDigit_def)
  then have "\<not> (\<exists>c \<in> set (codePoints d). c \<in> {47, 92, 58, 64, 63, 35, 37} \<or> unicodeCZ P c)"
    unfolding codePoints_ascii [OF wfFqdn_ascii [OF wf]] by blast
  moreover have "\<not> (\<exists>l \<in> set (split_on 46 d). hyphenEnds l)"
    using labels by (auto simp: wfLabel_def)
  moreover have "eachE checkLabel (split_on 46 d) = Inr ()"
    using labels by (simp add: eachE_eq_Inr checkLabel_iff)
  moreover have "\<not> starts_with [91] d"
    using chars [of 91] by (auto simp: starts_with_iff isLdh_def isLower_def isDigit_def)
  moreover have "length (utf8 d) = length d" "length d \<le> 253" "\<not> looksLikeIpv4 d"
    using wf length_utf8_ascii wfFqdn_ascii by (auto simp: wfFqdn_def)
  ultimately show ?thesis
    using wfFqdn_nonempty [OF wf] nodot url ag
    by (simp add: normalizeFQDN_def MAX_FQDN_OCTETS_def MAX_AGENT_FQDN_OCTETS_def not_less)
qed

text \<open>
  C31. Normalization is idempotent and its results are domain names: a name \<open>normalizeFQDN\<close>
  returns consists of LDH labels of at most 63 octets with no hyphen at either end, has at most
  253 octets (246 for an agent name), is no IPv4 address, and normalizes to itself. The platform
  is assumed to keep the hosts it produces, and to put no LDH character in categories C or Z.
\<close>

theorem normalizeFQDN_idem:
  assumes "hostStable P" and "asciiCategories P" and "normalizeFQDN P n ag = Inr d"
  shows "wfFqdn d \<and> (ag \<longrightarrow> length d \<le> 246) \<and> normalizeFQDN P d ag = Inr d"
proof -
  note res = normalizeFQDN_result [OF assms(3)]
  from res(3) obtain host u where u: "urlParse P (js ''https://'' @ host) = Some u"
    "d = url_hostname u" by blast
  with assms(1) res(1) have "plainHost P d = Inr d"
    by (fastforce simp: hostStable_def plainHost_def)
  with res(1,2) assms(2) show ?thesis by (auto intro: normalizeFQDN_fixed)
qed

text \<open>The facts that evaluate the checks on concrete names.\<close>

lemmas eval_names = Let_def ends_with_def starts_with_def isAlnum_def isLower_def isUpper_def
  isDigit_def isLdh_def hyphenEnds_def checkLabel_def looksLikeIpv4_def asciiLower_def utf8_def
  utf8CodePoint_def MAX_FQDN_OCTETS_def MAX_AGENT_FQDN_OCTETS_def MAX_LABEL_OCTETS_def wfFqdn_def
  wfLabel_def

text \<open>A platform that lower-cases ASCII hosts, for concrete evaluation.\<close>

definition asciiUrl :: "jstring \<Rightarrow> url option" where
  "asciiUrl s =
     (if starts_with (js ''https://'') s then
        let rest = drop 8 s; host = takeWhile (\<lambda>c. c \<noteq> 47) rest; path = dropWhile (\<lambda>c. c \<noteq> 47) rest in
        if host \<noteq> [] \<and> (\<forall>c \<in> set host. isAlnum c \<or> c = 45 \<or> c = 46) then
          Some \<lparr>url_protocol = js ''https:'', url_hostname = asciiLower host, url_port = [],
                url_pathname = (if path = [] then js ''/'' else path), url_search = [],
                url_hash = [], url_username = [], url_password = []\<rparr>
        else None
      else None)"

definition asciiPlatform :: platform where
  "asciiPlatform = \<lparr>urlParse = asciiUrl, unicodeCZ = (\<lambda>c. c \<le> 32 \<or> c = 127), toLowerCase = asciiLower,
     newDate = (\<lambda>v. case v of JNum (Fin q) \<Rightarrow> Some \<lfloor>q\<rfloor> | _ \<Rightarrow> None), numToString = (\<lambda>_. []),
     numFromText = (\<lambda>_. NaN)\<rparr>"

lemma wfFqdn_no_upper: "wfFqdn d \<Longrightarrow> c \<in> set d \<Longrightarrow> \<not> isUpper c \<and> c \<noteq> 47 \<and> (isAlnum c \<or> c = 45 \<or> c = 46)"
  using wfLabels_chars [of d c]
  by (auto simp: wfFqdn_def isUpper_def isLdh_def isLower_def isDigit_def isAlnum_def)

lemma asciiPlatform_stable: "hostStable asciiPlatform"
proof -
  have "asciiUrl (js ''https://'' @ d) = Some \<lparr>url_protocol = js ''https:'', url_hostname = d,
      url_port = [], url_pathname = js ''/'', url_search = [], url_hash = [], url_username = [],
      url_password = []\<rparr>" if d: "wfFqdn d" for d
  proof -
    have host: "takeWhile (\<lambda>c. c \<noteq> 47) d = d" "dropWhile (\<lambda>c. c \<noteq> 47) d = []"
        "drop 8 (js ''https://'' @ d) = d"
      using wfFqdn_no_upper [OF d] by (auto simp: takeWhile_eq_all_conv)
    have "asciiLower d = d" using wfFqdn_no_upper [OF d] by (blast intro: asciiLower_id)
    then show ?thesis
      using wfFqdn_no_upper [OF d] wfFqdn_nonempty [OF d]
      by (simp add: asciiUrl_def Let_def host del: js_Cons)
  qed
  then show ?thesis by (auto simp: hostStable_def asciiPlatform_def simp del: js_Cons)
qed

lemma asciiPlatform_categories: "asciiCategories asciiPlatform"
  by (auto simp: asciiCategories_def asciiPlatform_def isLdh_def isLower_def isDigit_def)

theorem normalizeFQDN_idem_witness:
  "wfFqdn (js ''ai.example'') \<and>
   normalizeFQDN asciiPlatform (js ''ai.example'') True = Inr (js ''ai.example'')"
proof -
  have "normalizeFQDN asciiPlatform (js ''AI.Example.'') True = Inr (js ''ai.example'')"
    by (simp add: normalizeFQDN_def plainHost_def asciiPlatform_def asciiUrl_def eval_names)
  from normalizeFQDN_idem [OF asciiPlatform_stable asciiPlatform_categories this] show ?thesis by blast
qed

section \<open>Key identifiers and certificate names\<close>

text \<open>
  C21. \<open>parseKeyId\<close> inverts the compound key ID: for a domain that is its own normal form and a
  non-empty kid without \<open>#\<close>, it splits \<open>domain#kid\<close> into exactly the two parts; and whatever it
  accepts has this shape, up to normalization of the domain.
\<close>

theorem parseKeyId_iff:
  "parseKeyId P s = Inr (d, k) \<longleftrightarrow>
     (\<exists>d'. s = d' @ 35 # k \<and> 35 \<notin> set d' \<and> d' \<noteq> [] \<and> k \<noteq> [] \<and> 35 \<notin> set k \<and>
        normalizeFQDN P d' False = Inr d)"
proof
  assume p: "parseKeyId P s = Inr (d, k)"
  then obtain i where i: "index_of 35 s = Some i"
    by (auto simp: parseKeyId_def split: option.splits)
  then have "s = take i s @ 35 # drop (Suc i) s" "35 \<notin> set (take i s)"
    by (rule index_of_split) (use i index_of_Some_iff in blast)
  moreover have "take i s \<noteq> []" "drop (Suc i) s = k" "k \<noteq> []" "35 \<notin> set k"
    "normalizeFQDN P (take i s) False = Inr d"
    using p i by (auto simp: parseKeyId_def Let_def result_simps split: if_splits)
  ultimately show "\<exists>d'. s = d' @ 35 # k \<and> 35 \<notin> set d' \<and> d' \<noteq> [] \<and> k \<noteq> [] \<and> 35 \<notin> set k \<and>
      normalizeFQDN P d' False = Inr d" by metis
next
  assume "\<exists>d'. s = d' @ 35 # k \<and> 35 \<notin> set d' \<and> d' \<noteq> [] \<and> k \<noteq> [] \<and> 35 \<notin> set k \<and>
      normalizeFQDN P d' False = Inr d"
  then show "parseKeyId P s = Inr (d, k)" by (auto simp: parseKeyId_def)
qed

text \<open>
  C22. \<open>matchesDnsName\<close> accepts exactly the names equal to an entry, or with exactly one
  non-empty label in front of the suffix of a wildcard entry; a wildcard never spans two labels.
\<close>

theorem matchesDnsName_iff:
  "matchesDnsName P san fqdn \<longleftrightarrow>
     (let target = toLowerCase P (stripDot fqdn) in
      target \<noteq> [] \<and>
      (\<exists>entry \<in> set san. let name = toLowerCase P (stripDot entry) in
         target = name \<or>
         (\<exists>label suffix. name = js ''*.'' @ suffix \<and> label \<noteq> [] \<and> 46 \<notin> set label \<and>
            target = label @ 46 # suffix)))"
proof -
  have "starts_with (js ''*.'') name \<and>
      (case index_of 46 target of None \<Rightarrow> False
       | Some i \<Rightarrow> 0 < i \<and> drop (Suc i) target = drop 2 name) \<longleftrightarrow>
    (\<exists>label suffix. name = js ''*.'' @ suffix \<and> label \<noteq> [] \<and> 46 \<notin> set label \<and>
       target = label @ 46 # suffix)" (is "?l \<longleftrightarrow> ?r") for name target
  proof
    assume ?l
    then obtain i suffix where i: "index_of 46 target = Some i" "0 < i"
      and "drop (Suc i) target = suffix" "name = js ''*.'' @ suffix"
      by (auto simp: starts_with_iff split: option.splits)
    moreover from i have "target = take i target @ 46 # drop (Suc i) target"
      and "46 \<notin> set (take i target)" "i < length target"
      by (simp_all add: index_of_split index_of_Some_iff)
    moreover from this i have "take i target \<noteq> []" by auto
    ultimately show ?r by metis
  next
    assume ?r
    then show ?l by (auto simp: starts_with_iff)
  qed
  then show ?thesis
    by (simp only: matchesDnsName_def matchesEntry_def Let_def eq_commute [of "toLowerCase P (stripDot fqdn)"])
qed

end
