(* ===== verification/TxtRecord.thy ===== *)
theory TxtRecord
  imports Names
begin

text \<open>
  The \<open>_dnsid\<close> TXT record (\<open>protocol/src/txt-record.ts\<close>): parsing, validation, serialization and
  the canonical form that is signed. The record keeps the set of tags it was parsed from, since
  an optional tag with an empty value is part of the canonical form only when it was present.
\<close>

section \<open>The record\<close>

record DnsIdTxtRecord =
  r_v :: jstring
  r_gi :: jstring
  r_ek :: jstring
  r_ku :: jstring
  r_lr :: jstring
  r_su :: jstring
  r_sg :: jstring
  r_fl :: "jstring option"
  r_ka :: "jstring option"
  r_cu :: "jstring option"
  r_unknownTags :: "(jstring \<times> jstring) list"
  r_agentFQDN :: jstring
  r_parsedTags :: "jstring list"

definition emptyRecord :: DnsIdTxtRecord where
  "emptyRecord = \<lparr>r_v = [], r_gi = [], r_ek = [], r_ku = [], r_lr = [], r_su = [], r_sg = [],
     r_fl = None, r_ka = None, r_cu = None, r_unknownTags = [], r_agentFQDN = [], r_parsedTags = []\<rparr>"

definition DNSID_VERSION :: jstring where "DNSID_VERSION = js ''DNSid1''"
definition DNSID_DRAFT01_VERSION :: jstring where "DNSID_DRAFT01_VERSION = js ''dnsid-draft-01''"

definition SUPPORTED_DNSID_VERSIONS :: "jstring list" where
  "SUPPORTED_DNSID_VERSIONS = [DNSID_DRAFT01_VERSION, DNSID_VERSION]"

definition VALID_KA_VALUES :: "jstring list" where
  "VALID_KA_VALUES = [js ''24h'', js ''7d'', js ''30d'', js ''90d'']"

definition KNOWN_TAGS :: "jstring list" where
  "KNOWN_TAGS = map js [''v'', ''gi'', ''ek'', ''ku'', ''lr'', ''su'', ''sg'', ''fl'', ''ka'', ''cu'']"

text \<open>The regular expressions on tag names, tag values and log methods.\<close>

definition tagName :: "jstring \<Rightarrow> bool" where
  "tagName s \<longleftrightarrow> s \<noteq> [] \<and> (isUpper (hd s) \<or> isLower (hd s)) \<and> (\<forall>c \<in> set s. isAlnum c \<or> c = 95)"

definition tagValue :: "jstring \<Rightarrow> bool" where
  "tagValue s \<longleftrightarrow> (\<forall>c \<in> set s. 0x21 \<le> c \<and> c \<le> 0x3A \<or> 0x3C \<le> c \<and> c \<le> 0x7E)"

definition lrMethod :: "jstring \<Rightarrow> bool" where
  "lrMethod s \<longleftrightarrow> s \<noteq> [] \<and> isLower (hd s) \<and> (\<forall>c \<in> set s. isLower c \<or> isDigit c \<or> c = 45)"

section \<open>Parsing\<close>

text \<open>\<open>if (value) this.fl = value\<close>.\<close>

definition setOptional :: "jstring \<Rightarrow> jstring option \<Rightarrow> jstring option" where
  "setOptional value old = (if value = [] then old else Some value)"

definition setKnownTag :: "jstring \<Rightarrow> jstring \<Rightarrow> DnsIdTxtRecord \<Rightarrow> DnsIdTxtRecord" where
  "setKnownTag tag value r =
     (if tag = js ''v'' then r\<lparr>r_v := value\<rparr>
      else if tag = js ''gi'' then r\<lparr>r_gi := value\<rparr>
      else if tag = js ''ek'' then r\<lparr>r_ek := value\<rparr>
      else if tag = js ''ku'' then r\<lparr>r_ku := value\<rparr>
      else if tag = js ''lr'' then r\<lparr>r_lr := value\<rparr>
      else if tag = js ''su'' then r\<lparr>r_su := value\<rparr>
      else if tag = js ''sg'' then r\<lparr>r_sg := value\<rparr>
      else if tag = js ''fl'' then r\<lparr>r_fl := setOptional value (r_fl r)\<rparr>
      else if tag = js ''ka'' then r\<lparr>r_ka := setOptional value (r_ka r)\<rparr>
      else if tag = js ''cu'' then r\<lparr>r_cu := setOptional value (r_cu r)\<rparr>
      else r)"

text \<open>
  The last statements of the loop body: record the tag and its value. The tag is not yet in
  the map, so \<open>set\<close> appends it.
\<close>

definition addTag :: "DnsIdTxtRecord \<Rightarrow> jstring \<times> jstring \<Rightarrow> DnsIdTxtRecord" where
  "addTag r p =
     (let r' = r\<lparr>r_parsedTags := r_parsedTags r @ [fst p]\<rparr> in
      if fst p \<in> set KNOWN_TAGS then setKnownTag (fst p) (snd p) r'
      else r'\<lparr>r_unknownTags := r_unknownTags r' @ [p]\<rparr>)"

text \<open>The body of the loop over the pairs; \<open>n\<close> is their number and \<open>i\<close> the index.\<close>

definition tagStep ::
    "bool \<Rightarrow> nat \<Rightarrow> DnsIdTxtRecord \<Rightarrow> nat \<times> jstring \<Rightarrow> js_error + DnsIdTxtRecord" where
  "tagStep requireSignature n r ip =
     (case ip of (i, pair) \<Rightarrow>
      if pair = [] then
        (if i = n - 1 then Inr r else Inl (ParseError ''empty TXT tag element''))
      else
        let pair = (if 0 < i \<and> starts_with [32] pair then drop 1 pair else pair) in
        case index_of 61 pair of
          None \<Rightarrow> Inl (ParseError ''TXT tag element missing '=' '')
        | Some eqIdx \<Rightarrow>
            let tag = take eqIdx pair; value = drop (Suc eqIdx) pair in
            if \<not> tagName tag then Inl (ParseError ''invalid TXT tag name'')
            else if \<not> tagValue value then Inl (ParseError ''invalid TXT tag value for tag'')
            else if tag \<in> set (r_parsedTags r) then Inl (ParseError ''duplicate TXT tag'')
            else if \<not> requireSignature \<and> tag = js ''sg''
              then Inl (ParseError ''unsigned TXT record must not contain sg'')
            else Inr (addTag r (tag, value)))"

definition requiredMissing :: "bool \<Rightarrow> DnsIdTxtRecord \<Rightarrow> bool" where
  "requiredMissing requireSignature r \<longleftrightarrow>
     r_v r = [] \<or> r_gi r = [] \<or> r_ek r = [] \<or> r_ku r = [] \<or> r_lr r = [] \<or> r_su r = [] \<or>
     requireSignature \<and> r_sg r = []"

definition parseTagPairs :: "jstring \<Rightarrow> bool \<Rightarrow> bool \<Rightarrow> js_error + DnsIdTxtRecord" where
  "parseTagPairs raw requireSignature requireVFirst =
     (let pairs = split_on 59 raw;
          versionPair = (if requireVFirst then Some (hd pairs) else find (starts_with (js ''v='')) pairs)
      in case versionPair of
           None \<Rightarrow> Inl (ParseError ''unsigned TXT record missing v tag'')
         | Some vp \<Rightarrow>
             if \<not> starts_with (js ''v='') vp then Inl (ParseError ''v= tag must be first'')
             else if drop 2 vp \<notin> set SUPPORTED_DNSID_VERSIONS
               then Inl (ParseError ''unsupported DNSid TXT record profile'')
             else
               bindE (foldE (tagStep requireSignature (length pairs)) emptyRecord
                        (List.enumerate 0 pairs)) (\<lambda>record.
               if requiredMissing requireSignature record
                 then Inl (ParseError ''missing or empty required TXT tag'')
               else Inr record))"

definition parse :: "jstring \<Rightarrow> js_error + DnsIdTxtRecord" where
  "parse raw = parseTagPairs raw True True"

section \<open>Canonical form and serialization\<close>

definition encodePair :: "jstring \<times> jstring \<Rightarrow> jstring" where
  "encodePair p = fst p @ 61 # snd p"

text \<open>\<open>sort\<close> is stable and compares the names by code units.\<close>

definition canonicalJoin :: "(jstring \<times> jstring) list \<Rightarrow> jstring" where
  "canonicalJoin pairs = join [59] (map encodePair (sort_key fst pairs))"

definition requiredPair :: "string \<Rightarrow> jstring \<Rightarrow> (jstring \<times> jstring) list" where
  "requiredPair tag value = (if value \<noteq> [] then [(js tag, value)] else [])"

definition optionalPair ::
    "string \<Rightarrow> jstring option \<Rightarrow> DnsIdTxtRecord \<Rightarrow> (jstring \<times> jstring) list" where
  "optionalPair tag value r =
     (if (value \<noteq> None \<and> value \<noteq> Some []) \<or> js tag \<in> set (r_parsedTags r)
      then [(js tag, case value of None \<Rightarrow> [] | Some s \<Rightarrow> s)] else [])"

definition knownCanonicalPairs :: "DnsIdTxtRecord \<Rightarrow> (jstring \<times> jstring) list" where
  "knownCanonicalPairs r =
     requiredPair ''v'' (r_v r) @ requiredPair ''gi'' (r_gi r) @ requiredPair ''ek'' (r_ek r) @
     requiredPair ''ku'' (r_ku r) @ requiredPair ''lr'' (r_lr r) @ requiredPair ''su'' (r_su r) @
     optionalPair ''fl'' (r_fl r) r @ optionalPair ''ka'' (r_ka r) r @ optionalPair ''cu'' (r_cu r) r"

definition canonical :: "DnsIdTxtRecord \<Rightarrow> jstring" where
  "canonical r = canonicalJoin (knownCanonicalPairs r @ r_unknownTags r)"

definition knownTagsCanonical :: "DnsIdTxtRecord \<Rightarrow> jstring" where
  "knownTagsCanonical r = canonicalJoin (knownCanonicalPairs r)"

definition serializePairs :: "DnsIdTxtRecord \<Rightarrow> (jstring \<times> jstring) list" where
  "serializePairs r =
     (js ''v'', r_v r) # requiredPair ''gi'' (r_gi r) @ requiredPair ''ek'' (r_ek r) @
     requiredPair ''ku'' (r_ku r) @ requiredPair ''lr'' (r_lr r) @ requiredPair ''su'' (r_su r) @
     requiredPair ''sg'' (r_sg r) @
     optionalPair ''fl'' (r_fl r) r @ optionalPair ''ka'' (r_ka r) r @
     optionalPair ''cu'' (r_cu r) r @ r_unknownTags r"

definition serialize :: "DnsIdTxtRecord \<Rightarrow> jstring" where
  "serialize r = join [59] (map encodePair (serializePairs r))"

definition policyFlags :: "DnsIdTxtRecord \<Rightarrow> jstring set" where
  "policyFlags r =
     (case r_fl r of None \<Rightarrow> {}
      | Some fl \<Rightarrow> if fl = [] then {} else set (filter (\<lambda>n. n \<noteq> []) (map trim (split_on 44 fl))))"

section \<open>Validation\<close>

definition validateLrFormat :: "jstring \<Rightarrow> js_error + unit" where
  "validateLrFormat lr =
     (case index_of 58 lr of
        None \<Rightarrow> Inl (ValidationError ''malformed lr value (no colon)'')
      | Some colonIdx \<Rightarrow>
          if \<not> lrMethod (take colonIdx lr)
            then Inl (ValidationError ''malformed lr value (invalid method)'')
          else if drop (Suc colonIdx) lr = []
            then Inl (ValidationError ''malformed lr value (empty reference)'')
          else Inr ())"

text \<open>The prefix test \<open>^https:\/\/[^/\\]\<close>, case insensitive, and the ban on backslashes.\<close>

definition httpsPrefix :: "jstring \<Rightarrow> bool" where
  "httpsPrefix s \<longleftrightarrow> asciiLower (take 8 s) = js ''https://'' \<and>
     (case drop 8 s of [] \<Rightarrow> False | c # _ \<Rightarrow> c \<noteq> 47 \<and> c \<noteq> 92)"

definition validateHttpsUrl :: "platform \<Rightarrow> jstring \<Rightarrow> js_error + url" where
  "validateHttpsUrl P value =
     (if \<not> httpsPrefix value \<or> 92 \<in> set value
        then Inl (ValidationError ''must be a valid HTTPS URI with a host'')
      else case urlParse P value of
        None \<Rightarrow> Inl (ValidationError ''is not a valid URI'')
      | Some u \<Rightarrow>
          if url_protocol u \<noteq> js ''https:'' \<or> url_hostname u = []
            then Inl (ValidationError ''must be a valid HTTPS URI with a host'')
          else if url_username u \<noteq> [] \<or> url_password u \<noteq> []
            then Inl (ValidationError ''must not include userinfo'')
          else Inr u)"

definition validateHttpsUrlHost :: "platform \<Rightarrow> jstring \<Rightarrow> jstring \<Rightarrow> js_error + unit" where
  "validateHttpsUrlHost P value expectedHost =
     bindE (validateHttpsUrl P value) (\<lambda>u.
     if ends_with [46] (url_hostname u)
       then Inl (ValidationError ''host must equal agent FQDN'')
     else bindE (normalizeFQDN P (url_hostname u) False) (\<lambda>h.
       assertE (h = expectedHost) (ValidationError ''host must equal agent FQDN'')))"

definition validateEkHost :: "platform \<Rightarrow> jstring \<Rightarrow> jstring \<Rightarrow> js_error + unit" where
  "validateEkHost P value giDomain =
     bindE (validateHttpsUrl P value) (\<lambda>u.
     if ends_with [46] (url_hostname u)
       then Inl (ValidationError ''ek host must not end with a root dot'')
     else bindE (normalizeFQDN P (url_hostname u) False) (\<lambda>host.
       assertE (host = giDomain \<or> ends_with (46 # giDomain) host)
         (ValidationError ''ek host must equal or be beneath gi'')))"

definition validate :: "platform \<Rightarrow> DnsIdTxtRecord \<Rightarrow> js_error + unit" where
  "validate P r =
     (if r_v r \<notin> set SUPPORTED_DNSID_VERSIONS then Inl (ValidationError ''unsupported DNSid profile'')
      else if r_agentFQDN r = []
        then Inl (ValidationError ''agentFQDN must be set before calling validate()'')
      else
        bindE (normalizeFQDN P (r_agentFQDN r) True) (\<lambda>agentFQDN.
        bindE (normalizeFQDN P (r_gi r) False) (\<lambda>giDomain.
        if r_gi r \<noteq> giDomain
          then Inl (ValidationError ''gi must be lowercase ASCII A-label domain'')
        else
          bindE (validateEkHost P (r_ek r) giDomain) (\<lambda>_.
          bindE (validateHttpsUrlHost P (r_ku r) agentFQDN) (\<lambda>_.
          bindE (validateLrFormat (r_lr r)) (\<lambda>_.
          bindE (validateHttpsUrl P (r_su r)) (\<lambda>_.
          bindE (case r_cu r of
                   None \<Rightarrow> Inr ()
                 | Some cu \<Rightarrow> if cu = [] then Inr () else bindE (validateHttpsUrl P cu) (\<lambda>_. Inr ())) (\<lambda>_.
          case r_ka r of
            None \<Rightarrow> Inr ()
          | Some ka \<Rightarrow>
              assertE (ka = [] \<or> ka \<in> set VALID_KA_VALUES)
                (ValidationError ''ka must be one of: 24h, 7d, 30d, 90d'')))))))))"

definition parseUnsignedCanonical ::
    "platform \<Rightarrow> jstring \<Rightarrow> jstring option \<Rightarrow> js_error + DnsIdTxtRecord" where
  "parseUnsignedCanonical P raw agentFQDN =
     bindE (parseTagPairs raw False False) (\<lambda>record.
     if canonical record \<noteq> raw
       then Inl (ParseError ''unsigned TXT record is not in canonical form'')
     else case agentFQDN of
       None \<Rightarrow> Inr record
     | Some d \<Rightarrow>
         if d = [] then Inr record
         else let record' = record\<lparr>r_agentFQDN := d\<rparr> in
           bindE (validate P record') (\<lambda>_. Inr record'))"

definition hasStructuralGovernanceRelationship :: "platform \<Rightarrow> DnsIdTxtRecord \<Rightarrow> js_error + bool" where
  "hasStructuralGovernanceRelationship P r =
     bindE (normalizeFQDN P (r_agentFQDN r) True) (\<lambda>agentFQDN.
     bindE (normalizeFQDN P (r_gi r) False) (\<lambda>giDomain.
     Inr (agentFQDN = giDomain \<or> ends_with (46 # giDomain) agentFQDN)))"

definition signatureVerificationKeyAllowedHost :: "platform \<Rightarrow> DnsIdTxtRecord \<Rightarrow> js_error + jstring" where
  "signatureVerificationKeyAllowedHost P r = normalizeFQDN P (r_gi r) False"

definition runtimeKeyAllowedHost :: "platform \<Rightarrow> DnsIdTxtRecord \<Rightarrow> js_error + jstring" where
  "runtimeKeyAllowedHost P r = normalizeFQDN P (r_agentFQDN r) False"

section \<open>What parsing accepts\<close>

text \<open>The tag and value of an element, and the elements of a raw record.\<close>

definition splitElement :: "nat \<Rightarrow> jstring \<Rightarrow> (jstring \<times> jstring) option" where
  "splitElement i pair =
     (let pair = (if 0 < i \<and> starts_with [32] pair then drop 1 pair else pair) in
      map_option (\<lambda>k. (take k pair, drop (Suc k) pair)) (index_of 61 pair))"

definition elements :: "(nat \<times> jstring) list \<Rightarrow> (jstring \<times> jstring) list" where
  "elements es = map (\<lambda>e. the (splitElement (fst e) (snd e))) (filter (\<lambda>e. snd e \<noteq> []) es)"

definition goodTag :: "bool \<Rightarrow> jstring \<times> jstring \<Rightarrow> bool" where
  "goodTag requireSignature p \<longleftrightarrow>
     tagName (fst p) \<and> tagValue (snd p) \<and> (requireSignature \<or> fst p \<noteq> js ''sg'')"

lemma tagStep_iff:
  "tagStep req n r (i, x) = Inr r' \<longleftrightarrow>
     (if x = [] then i = n - 1 \<and> r' = r
      else \<exists>p. splitElement i x = Some p \<and> goodTag req p \<and> fst p \<notin> set (r_parsedTags r) \<and>
        r' = addTag r p)"
  by (auto simp: tagStep_def splitElement_def goodTag_def Let_def split: option.splits if_splits)

lemma parsedTags_addTag [simp]: "r_parsedTags (addTag r p) = r_parsedTags r @ [fst p]"
  by (simp add: addTag_def setKnownTag_def Let_def)

lemma foldE_tagStep:
  "foldE (tagStep req n) r es = Inr r' \<longleftrightarrow>
     (\<forall>e \<in> set es. if snd e = [] then fst e = n - 1
        else \<exists>p. splitElement (fst e) (snd e) = Some p \<and> goodTag req p) \<and>
     distinct (map fst (elements es)) \<and>
     set (map fst (elements es)) \<inter> set (r_parsedTags r) = {} \<and>
     r' = foldl addTag r (elements es)"
proof (induction es arbitrary: r)
  case Nil
  then show ?case by (auto simp: elements_def)
next
  case (Cons e es)
  obtain i x where e: "e = (i, x)" by (cases e)
  show ?case
  proof (cases "x = []")
    case True
    then show ?thesis using Cons.IH [of r] by (auto simp: e result_simps tagStep_iff elements_def)
  next
    case False
    show ?thesis
    proof (cases "splitElement i x")
      case None
      with False show ?thesis by (auto simp: e result_simps tagStep_iff)
    next
      case (Some p)
      with False have el: "elements (e # es) = p # elements es" by (simp add: e elements_def)
      have "foldE (tagStep req n) r (e # es) = Inr r' \<longleftrightarrow>
          goodTag req p \<and> fst p \<notin> set (r_parsedTags r) \<and>
          foldE (tagStep req n) (addTag r p) es = Inr r'"
        using False Some by (auto simp: e result_simps tagStep_iff)
      with Some False show ?thesis unfolding el Cons.IH by (auto simp: e)
    qed
  qed
qed

text \<open>The record of a list of distinct tags.\<close>

definition tagOf :: "(jstring \<times> jstring) list \<Rightarrow> string \<Rightarrow> jstring" where
  "tagOf ps k = (case map_of ps (js k) of None \<Rightarrow> [] | Some v \<Rightarrow> v)"

definition optTagOf :: "(jstring \<times> jstring) list \<Rightarrow> string \<Rightarrow> jstring option" where
  "optTagOf ps k = (if tagOf ps k = [] then None else Some (tagOf ps k))"

definition recordOf :: "(jstring \<times> jstring) list \<Rightarrow> DnsIdTxtRecord" where
  "recordOf ps = \<lparr>r_v = tagOf ps ''v'', r_gi = tagOf ps ''gi'', r_ek = tagOf ps ''ek'',
     r_ku = tagOf ps ''ku'', r_lr = tagOf ps ''lr'', r_su = tagOf ps ''su'', r_sg = tagOf ps ''sg'',
     r_fl = optTagOf ps ''fl'', r_ka = optTagOf ps ''ka'', r_cu = optTagOf ps ''cu'',
     r_unknownTags = filter (\<lambda>p. fst p \<notin> set KNOWN_TAGS) ps, r_agentFQDN = [],
     r_parsedTags = map fst ps\<rparr>"

lemma tagOf_snoc:
  "k \<notin> set (map fst ps) \<Longrightarrow>
   tagOf (ps @ [(k, v)]) s = (if js s = k then v else tagOf ps s)"
  by (auto simp: tagOf_def map_add_def map_of_eq_None_iff [symmetric] split: option.splits)

lemma tagOf_absent: "js s \<notin> fst ` set ps \<Longrightarrow> tagOf ps s = []"
  by (simp add: tagOf_def map_of_eq_None_iff [symmetric])

lemma addTag_recordOf:
  assumes "k \<notin> set (map fst ps)"
  shows "addTag (recordOf ps) (k, v) = recordOf (ps @ [(k, v)])"
proof -
  note snoc = tagOf_snoc [OF assms, of v]
  have opt: "optTagOf (ps @ [(k, v)]) s = (if js s = k then setOptional v (optTagOf ps s) else optTagOf ps s)"
    for s using assms tagOf_absent [of s ps] by (auto simp: optTagOf_def snoc setOptional_def)
  show ?thesis
    by (simp add: addTag_def recordOf_def snoc opt setKnownTag_def KNOWN_TAGS_def Let_def)
qed

lemma foldl_addTag:
  "distinct (map fst ps) \<Longrightarrow> foldl addTag emptyRecord ps = recordOf ps"
proof (induction ps rule: rev_induct)
  case Nil
  then show ?case by (simp add: recordOf_def emptyRecord_def tagOf_def optTagOf_def)
next
  case (snoc p ps)
  then show ?case using addTag_recordOf [of "fst p" ps "snd p"] by simp
qed

definition rawTags :: "jstring \<Rightarrow> (jstring \<times> jstring) list" where
  "rawTags raw = elements (List.enumerate 0 (split_on 59 raw))"

lemma parseTagPairs_result:
  assumes "parseTagPairs raw req vf = Inr r"
  shows "r = recordOf (rawTags raw)" "distinct (map fst (rawTags raw))"
    "\<forall>p \<in> set (rawTags raw). goodTag req p" "\<not> requiredMissing req r"
proof -
  from assms have run: "foldE (tagStep req (length (split_on 59 raw))) emptyRecord
      (List.enumerate 0 (split_on 59 raw)) = Inr r" and miss: "\<not> requiredMissing req r"
    by (auto simp: parseTagPairs_def Let_def result_simps split: option.splits if_splits)
  from run have es: "\<forall>e \<in> set (List.enumerate 0 (split_on 59 raw)). snd e \<noteq> [] \<longrightarrow>
      (\<exists>p. splitElement (fst e) (snd e) = Some p \<and> goodTag req p)"
    and d: "distinct (map fst (rawTags raw))" and r: "r = foldl addTag emptyRecord (rawTags raw)"
    unfolding foldE_tagStep rawTags_def [symmetric] by auto
  from d r show "r = recordOf (rawTags raw)" by (simp add: foldl_addTag)
  from es show "\<forall>p \<in> set (rawTags raw). goodTag req p" by (force simp: rawTags_def elements_def)
  show "distinct (map fst (rawTags raw))" "\<not> requiredMissing req r" by (fact d, fact miss)
qed

text \<open>The pairs of the canonical form of a parsed record are the pairs of the raw record.\<close>

definition canonicalPairs :: "DnsIdTxtRecord \<Rightarrow> (jstring \<times> jstring) list" where
  "canonicalPairs r = knownCanonicalPairs r @ r_unknownTags r"

lemma pairs_with_tag:
  assumes "distinct (map fst ps)"
  shows "{p \<in> set ps. fst p = k} = (case map_of ps k of None \<Rightarrow> {} | Some v \<Rightarrow> {(k, v)})"
proof (cases "map_of ps k")
  case None
  then have "{p \<in> set ps. fst p = k} = {}" by (force simp: map_of_eq_None_iff)
  with None show ?thesis by simp
next
  case (Some v)
  have "p = (k, v)" if "p \<in> set ps" "fst p = k" for p
    using map_of_is_SomeI [OF assms, of "fst p" "snd p"] that Some by (cases p) simp
  moreover have "(k, v) \<in> set ps" using Some by (rule map_of_SomeD)
  ultimately have "{p \<in> set ps. fst p = k} = {(k, v)}" by (blast intro: fst_conv)
  with Some show ?thesis by simp
qed

lemma set_requiredPair:
  assumes "distinct (map fst ps)" and "tagOf ps s \<noteq> []"
  shows "set (requiredPair s (tagOf ps s)) = {p \<in> set ps. fst p = js s}"
  using assms(2) unfolding pairs_with_tag [OF assms(1)]
  by (simp add: requiredPair_def tagOf_def split: option.splits)

lemma set_optionalPair:
  assumes "distinct (map fst ps)"
  shows "set (optionalPair s (optTagOf ps s) (recordOf ps)) = {p \<in> set ps. fst p = js s}"
proof -
  have "js s \<in> fst ` set ps \<longleftrightarrow> map_of ps (js s) \<noteq> None" by (simp add: map_of_eq_None_iff)
  moreover have "r_parsedTags (recordOf ps) = map fst ps" by (simp add: recordOf_def)
  ultimately show ?thesis
    unfolding pairs_with_tag [OF assms]
    by (cases "map_of ps (js s)") (simp_all add: optionalPair_def optTagOf_def tagOf_def)
qed

lemma set_canonicalPairs:
  assumes "distinct (map fst ps)" and "\<not> requiredMissing req (recordOf ps)"
  shows "set (canonicalPairs (recordOf ps)) = {p \<in> set ps. fst p \<noteq> js ''sg''}"
proof -
  have "set (knownCanonicalPairs (recordOf ps)) =
      {p \<in> set ps. fst p \<in> set (map js [''v'', ''gi'', ''ek'', ''ku'', ''lr'', ''su'', ''fl'', ''ka'', ''cu''])}"
    using assms(2) set_requiredPair [OF assms(1)] set_optionalPair [OF assms(1)]
    by (simp add: knownCanonicalPairs_def requiredMissing_def recordOf_def del: js_Cons) blast
  moreover have "set (r_unknownTags (recordOf ps)) = {p \<in> set ps. fst p \<notin> set KNOWN_TAGS}"
    by (simp add: recordOf_def)
  ultimately show ?thesis
    by (auto simp: canonicalPairs_def KNOWN_TAGS_def)
qed

text \<open>A tag and its value, as one element of the record.\<close>

definition decodePair :: "jstring \<Rightarrow> unit + jstring \<times> jstring" where
  "decodePair s = (case index_of 61 s of None \<Rightarrow> Inl () | Some k \<Rightarrow> Inr (take k s, drop (Suc k) s))"

interpretation tag_pair: codec encodePair decodePair "\<lambda>p. 61 \<notin> set (fst p)"
  by unfold_locales (auto simp: encodePair_def decodePair_def)

lemma goodTag_chars:
  assumes "goodTag req p"
  shows "61 \<notin> set (fst p)" "59 \<notin> set (encodePair p)"
  using assms
  by (auto simp: goodTag_def tagName_def tagValue_def encodePair_def isAlnum_def isDigit_def isLower_def
      isUpper_def)

text \<open>Joined pairs determine the list of pairs.\<close>

lemma joined_pairs_inj:
  assumes "\<forall>p \<in> set ps. goodTag req p" "\<forall>p \<in> set qs. goodTag req' p" "ps \<noteq> []" "qs \<noteq> []"
    and "join [59] (map encodePair ps) = join [59] (map encodePair qs)"
  shows "ps = qs"
proof -
  have sep: "split_on 59 (join [59] (map encodePair xs)) = map encodePair xs"
    if "\<forall>p \<in> set xs. goodTag b p" "xs \<noteq> []" for xs b
    by (rule split_join) (use that goodTag_chars(2) in auto)
  have "map encodePair ps = map encodePair qs"
    using sep [OF assms(1,3)] sep [OF assms(2,4)] unfolding assms(5) by (rule trans [OF sym])
  moreover have "\<forall>p \<in> set ps \<union> set qs. 61 \<notin> set (fst p)"
    using assms(1,2) goodTag_chars(1) by blast
  ultimately show ?thesis using tag_pair.map_enc_eq_iff by blast
qed

lemma canonicalPairs_good:
  assumes "parseTagPairs raw req vf = Inr r"
  shows "set (canonicalPairs r) = {p \<in> set (rawTags raw). fst p \<noteq> js ''sg''}"
    "\<forall>p \<in> set (canonicalPairs r). goodTag req p" "canonicalPairs r \<noteq> []"
proof -
  note res = parseTagPairs_result [OF assms]
  show set: "set (canonicalPairs r) = {p \<in> set (rawTags raw). fst p \<noteq> js ''sg''}"
    using set_canonicalPairs [OF res(2)] res(1,4) by blast
  show "\<forall>p \<in> set (canonicalPairs r). goodTag req p" using set res(3) by blast
  have "r_v r \<noteq> []" using res(4) by (simp add: requiredMissing_def)
  then show "canonicalPairs r \<noteq> []"
    by (simp add: canonicalPairs_def knownCanonicalPairs_def requiredPair_def)
qed

lemma canonical_eq_pairs:
  assumes "parseTagPairs raw req vf = Inr r" "parseTagPairs raw' req' vf' = Inr r'"
    and "canonical r = canonical r'"
  shows "set (canonicalPairs r) = set (canonicalPairs r')"
proof -
  note g = canonicalPairs_good [OF assms(1)] and g' = canonicalPairs_good [OF assms(2)]
  have "sort_key fst (canonicalPairs r) = sort_key fst (canonicalPairs r')"
    by (rule joined_pairs_inj [of _ req _ req'])
      (use g(2,3) g'(2,3) assms(3) in
        \<open>auto simp: canonical_def canonicalJoin_def simp flip: canonicalPairs_def
          dest: arg_cong [where f = length]\<close>)
  then show ?thesis by (metis set_sort)
qed

text \<open>
  C21. The signature over the canonical form covers the whole record: every tag of an accepted
  raw record other than \<open>sg\<close>, known or unknown, is in the string that is signed, and two
  accepted records with the same canonical form carry the same tags with the same values.
\<close>

theorem canonical_covers_record:
  assumes "parse raw = Inr r" and "parse raw' = Inr r'" and "canonical r = canonical r'"
  shows "{p \<in> set (rawTags raw). fst p \<noteq> js ''sg''} = {p \<in> set (rawTags raw'). fst p \<noteq> js ''sg''}"
  using canonical_eq_pairs [OF assms(1,2) [unfolded parse_def] assms(3)]
    canonicalPairs_good(1) [OF assms(1) [unfolded parse_def]]
    canonicalPairs_good(1) [OF assms(2) [unfolded parse_def]] by simp

section \<open>Round trips\<close>

lemma splitElement_encodePair: "goodTag req p \<Longrightarrow> splitElement i (encodePair p) = Some p"
proof -
  assume g: "goodTag req p"
  then have "\<not> starts_with [32] (encodePair p)" "encodePair p \<noteq> []"
    by (cases "fst p"; auto simp: goodTag_def tagName_def encodePair_def starts_with_def isUpper_def
        isLower_def)+
  moreover have "index_of 61 (encodePair p) = Some (length (fst p))"
    using goodTag_chars(1) [OF g] by (simp add: encodePair_def)
  ultimately show ?thesis by (simp add: splitElement_def encodePair_def)
qed

lemma encodePair_nonempty [simp]: "encodePair p \<noteq> []"
  by (simp add: encodePair_def)

lemma elements_encodePair:
  "\<forall>p \<in> set ps. goodTag req p \<Longrightarrow> elements (List.enumerate k (map encodePair ps)) = ps"
proof (induction ps arbitrary: k)
  case (Cons p ps)
  then show ?case using splitElement_encodePair [of req p k] by (simp add: elements_def)
qed (simp add: elements_def)

lemma split_encodePairs:
  "\<forall>p \<in> set ps. goodTag req p \<Longrightarrow> ps \<noteq> [] \<Longrightarrow>
   split_on 59 (join [59] (map encodePair ps)) = map encodePair ps"
  using goodTag_chars(2) by (intro split_join) auto

text \<open>A joined list of well-formed distinct tags with a supported version parses to its record.\<close>

lemma parseTagPairs_join:
  assumes good: "\<forall>p \<in> set ps. goodTag req p" and ne: "ps \<noteq> []"
    and dist: "distinct (map fst ps)" and miss: "\<not> requiredMissing req (recordOf ps)"
    and ver: "if vf then hd ps = (js ''v'', ver) else (js ''v'', ver) \<in> set ps"
    and sup: "ver \<in> set SUPPORTED_DNSID_VERSIONS"
  shows "parseTagPairs (join [59] (map encodePair ps)) req vf = Inr (recordOf ps)"
proof -
  let ?xs = "map encodePair ps"
  have elem: "e \<in> set (List.enumerate 0 ?xs) \<Longrightarrow>
      \<exists>p. splitElement (fst e) (snd e) = Some p \<and> goodTag req p \<and> snd e \<noteq> []" for e
  proof -
    assume "e \<in> set (List.enumerate 0 ?xs)"
    then have i: "fst e < length ps" and e: "snd e = encodePair (ps ! fst e)"
      by (auto simp: in_set_enumerate_eq)
    from i good have "goodTag req (ps ! fst e)" by simp
    with e show ?thesis using splitElement_encodePair by auto
  qed
  have "foldE (tagStep req (length ?xs)) emptyRecord (List.enumerate 0 ?xs) =
      Inr (recordOf ps)"
    unfolding foldE_tagStep elements_encodePair [OF good]
  proof (intro conjI ballI)
    fix e assume "e \<in> set (List.enumerate 0 ?xs)"
    from elem [OF this] show "if snd e = [] then fst e = length ?xs - 1
        else \<exists>p. splitElement (fst e) (snd e) = Some p \<and> goodTag req p" by auto
  qed (simp add: dist, simp add: emptyRecord_def, simp add: dist foldl_addTag)
  moreover have vp: "starts_with (js ''v='') (encodePair p) \<longleftrightarrow> fst p = js ''v''"
    if "p \<in> set ps" for p
  proof -
    have "fst p \<noteq> []" using bspec [OF good that] by (simp add: goodTag_def tagName_def)
    with goodTag_chars(1) [OF bspec [OF good that]] show ?thesis
      by (cases "fst p"; cases "tl (fst p)") (auto simp: starts_with_def encodePair_def)
  qed
  have find: "\<exists>p. find (starts_with (js ''v='')) ?xs = Some (encodePair p) \<and> p = (js ''v'', ver)" if "\<not> vf"
  proof -
    have "(js ''v'', ver) \<in> set ps" using ver that by simp
    then have "find (starts_with (js ''v='')) ?xs \<noteq> None"
      using vp [of "(js ''v'', ver)"] unfolding find_None_iff by auto
    then obtain x where f: "find (starts_with (js ''v='')) ?xs = Some x" by blast
    then obtain i where i: "i < length ps" "starts_with (js ''v='') (encodePair (ps ! i))"
      "x = encodePair (ps ! i)" unfolding find_Some_iff by auto
    then have "fst (ps ! i) = js ''v''" using vp by simp
    then have "ps ! i = (js ''v'', ver)"
      using dist i(1) \<open>(js ''v'', ver) \<in> set ps\<close>
      by (metis distinct_map fst_conv inj_onD nth_mem)
    with f i(3) show ?thesis by auto
  qed
  have hd: "hd ?xs = encodePair (js ''v'', ver)" if vf
    using ver that ne by (cases ps) auto
  have enc: "starts_with (js ''v='') (encodePair (js ''v'', ver))"
    "drop 2 (encodePair (js ''v'', ver)) = ver"
    by (simp_all add: encodePair_def starts_with_def)
  show ?thesis
    using calculation(1) miss sup hd find enc
    by (cases vf) (auto simp: parseTagPairs_def split_encodePairs [OF good ne] Let_def simp del: js_Cons)
qed

text \<open>
  A record that may be published: required tags present, optional ones absent or non-empty,
  unknown tags distinct and outside the known ones, all names and values in their alphabets.
\<close>

definition wfRecord :: "DnsIdTxtRecord \<Rightarrow> bool" where
  "wfRecord r \<longleftrightarrow>
     r_v r \<in> set SUPPORTED_DNSID_VERSIONS \<and> \<not> requiredMissing True r \<and>
     r_fl r \<noteq> Some [] \<and> r_ka r \<noteq> Some [] \<and> r_cu r \<noteq> Some [] \<and>
     distinct (map fst (r_unknownTags r)) \<and>
     (\<forall>p \<in> set (r_unknownTags r). fst p \<notin> set KNOWN_TAGS) \<and>
     (\<forall>p \<in> set (serializePairs r). goodTag True p)"

lemma requiredPair_simp [simp]: "v \<noteq> [] \<Longrightarrow> requiredPair s v = [(js s, v)]"
  by (simp add: requiredPair_def)

lemma optionalPair_cases:
  "optionalPair s v r = [] \<and> v \<in> {None, Some []} \<or>
   optionalPair s v r = [(js s, case v of None \<Rightarrow> [] | Some x \<Rightarrow> x)]"
  by (auto simp: optionalPair_def)

lemma map_of_optionalPair:
  "map_of (optionalPair s v r @ qs) k =
     (if js s = k \<and> optionalPair s v r \<noteq> [] then Some (case v of None \<Rightarrow> [] | Some x \<Rightarrow> x)
      else map_of qs k)"
  using optionalPair_cases [of s v r] by auto

lemma fst_optionalPair: "fst ` set (optionalPair s v r) \<subseteq> {js s}"
  by (auto simp: optionalPair_def)

lemma serializePairs_record:
  assumes "wfRecord r"
  shows "recordOf (serializePairs r) =
      r\<lparr>r_agentFQDN := [], r_parsedTags := map fst (serializePairs r)\<rparr>"
    and "distinct (map fst (serializePairs r))"
proof -
  from assms have req: "r_v r \<noteq> []" "r_gi r \<noteq> []" "r_ek r \<noteq> []" "r_ku r \<noteq> []" "r_lr r \<noteq> []"
      "r_su r \<noteq> []" "r_sg r \<noteq> []"
    and opt: "r_fl r \<noteq> Some []" "r_ka r \<noteq> Some []" "r_cu r \<noteq> Some []"
    and unk: "\<forall>p \<in> set (r_unknownTags r). fst p \<notin> set KNOWN_TAGS" "distinct (map fst (r_unknownTags r))"
    by (simp_all add: wfRecord_def requiredMissing_def)
  note unf = serializePairs_def requiredPair_simp [OF req(2)] requiredPair_simp [OF req(3)]
    requiredPair_simp [OF req(4)] requiredPair_simp [OF req(5)] requiredPair_simp [OF req(6)]
    requiredPair_simp [OF req(7)]
  have unk_of: "map_of (r_unknownTags r) (js k) = None" if "js k \<in> set KNOWN_TAGS" for k
    using unk(1) that by (auto simp: map_of_eq_None_iff)
  have known: "map_of (r_unknownTags r) (js ''fl'') = None" "map_of (r_unknownTags r) (js ''ka'') = None"
    "map_of (r_unknownTags r) (js ''cu'') = None"
    by (rule unk_of, simp add: KNOWN_TAGS_def)+
  have tags: "tagOf (serializePairs r) ''v'' = r_v r" "tagOf (serializePairs r) ''gi'' = r_gi r"
    "tagOf (serializePairs r) ''ek'' = r_ek r" "tagOf (serializePairs r) ''ku'' = r_ku r"
    "tagOf (serializePairs r) ''lr'' = r_lr r" "tagOf (serializePairs r) ''su'' = r_su r"
    "tagOf (serializePairs r) ''sg'' = r_sg r"
    by (simp_all add: tagOf_def unf)
  have opts: "optTagOf (serializePairs r) ''fl'' = r_fl r" "optTagOf (serializePairs r) ''ka'' = r_ka r"
    "optTagOf (serializePairs r) ''cu'' = r_cu r"
    using opt known
    by (auto simp: optTagOf_def tagOf_def unf map_of_optionalPair optionalPair_def split: option.splits)
  have "filter (\<lambda>p. fst p \<notin> set KNOWN_TAGS) (optionalPair s v r) = []" if "js s \<in> set KNOWN_TAGS" for s v
    using fst_optionalPair [of s v r] that by (auto simp: filter_empty_conv)
  then have "filter (\<lambda>p. fst p \<notin> set KNOWN_TAGS) (serializePairs r) = r_unknownTags r"
    using unk(1) by (simp add: unf KNOWN_TAGS_def filter_id_conv)
  with tags opts show "recordOf (serializePairs r) =
      r\<lparr>r_agentFQDN := [], r_parsedTags := map fst (serializePairs r)\<rparr>"
    by (simp add: recordOf_def)
  have opt_names: "map fst (optionalPair s v r) = [] \<or> map fst (optionalPair s v r) = [js s]" for s v
    by (simp add: optionalPair_def)
  have "set (map fst (r_unknownTags r)) \<inter> set KNOWN_TAGS = {}" using unk(1) by auto
  then show "distinct (map fst (serializePairs r))"
    using opt_names [of "''fl''" "r_fl r"] opt_names [of "''ka''" "r_ka r"]
      opt_names [of "''cu''" "r_cu r"] unk(2)
    by (elim disjE) (simp_all add: unf KNOWN_TAGS_def)
qed

lemma parse_serialize_wf:
  assumes "wfRecord r"
  shows "parse (serialize r) =
    Inr (r\<lparr>r_agentFQDN := [], r_parsedTags := map fst (serializePairs r)\<rparr>)"
proof -
  note rec = serializePairs_record [OF assms]
  have "parseTagPairs (join [59] (map encodePair (serializePairs r))) True True =
      Inr (recordOf (serializePairs r))"
  proof (rule parseTagPairs_join [where ver = "r_v r"])
    show "\<not> requiredMissing True (recordOf (serializePairs r))"
      unfolding rec(1) using assms by (simp add: wfRecord_def requiredMissing_def)
  qed (use assms rec(2) in \<open>simp_all add: wfRecord_def serializePairs_def\<close>)
  then show ?thesis by (simp add: parse_def serialize_def rec(1))
qed

text \<open>
  Serialization round trip: parsing the serialized form of a publishable record gives the
  record back, with the set of tags that were written as its parsed tags.
\<close>

theorem parse_serialize:
  assumes "wfRecord r"
  shows "parse (serialize r) =
    Inr (r\<lparr>r_agentFQDN := [], r_parsedTags := map fst (serializePairs r)\<rparr>)"
  by (rule parse_serialize_wf [OF assms])

text \<open>A canonical form is itself a canonical unsigned record.\<close>

lemma sort_key_fst_unique:
  assumes "distinct (map fst xs)" "distinct (map fst ys)" "set xs = set ys"
  shows "sort_key fst xs = sort_key fst (ys :: ('a :: linorder \<times> 'b) list)"
proof (rule map_sorted_distinct_set_unique)
  show "inj_on fst (set (sort_key fst xs) \<union> set (sort_key fst ys))"
    using assms by (simp add: distinct_map)
qed (use assms in \<open>simp_all add: distinct_map\<close>)

lemma tagOf_cong:
  assumes "distinct (map fst ps)" "distinct (map fst qs)"
    and "{p \<in> set ps. fst p = js s} = {p \<in> set qs. fst p = js s}"
  shows "tagOf ps s = tagOf qs s"
proof -
  have "map_of ps (js s) = map_of qs (js s)"
    using assms(3) unfolding pairs_with_tag [OF assms(1)] pairs_with_tag [OF assms(2)]
    by (simp split: option.splits)
  then show ?thesis by (simp add: tagOf_def)
qed

lemma distinct_parts:
  "list_all2 (\<lambda>k p. map fst p = [] \<or> map fst p = [k]) ks parts \<Longrightarrow> distinct ks \<Longrightarrow>
   distinct (map fst (concat parts)) \<and> set (map fst (concat parts)) \<subseteq> set ks"
proof (induction rule: list_all2_induct)
  case (Cons k ks p parts)
  then have IH: "distinct (map fst (concat parts))" "set (map fst (concat parts)) \<subseteq> set ks"
    by auto
  have step: "map fst (concat (p # parts)) = map fst p @ map fst (concat parts)" by simp
  from Cons.hyps(1) Cons.prems IH show ?case
    unfolding step by (elim disjE) (simp_all only: append.simps distinct.simps list.set, blast+)
qed simp

lemma distinct_canonicalPairs:
  assumes "distinct (map fst ps)"
  shows "distinct (map fst (canonicalPairs (recordOf ps)))"
proof -
  let ?r = "recordOf ps"
  have opt: "map fst (optionalPair s v ?r) = [] \<or> map fst (optionalPair s v ?r) = [js s]" for s v
    by (simp add: optionalPair_def)
  have req: "map fst (requiredPair s v) = [] \<or> map fst (requiredPair s v) = [js s]" for s v
    by (simp add: requiredPair_def)
  let ?ks = "map js [''v'', ''gi'', ''ek'', ''ku'', ''lr'', ''su'', ''fl'', ''ka'', ''cu'']"
  let ?parts = "[requiredPair ''v'' (r_v ?r), requiredPair ''gi'' (r_gi ?r),
    requiredPair ''ek'' (r_ek ?r), requiredPair ''ku'' (r_ku ?r), requiredPair ''lr'' (r_lr ?r),
    requiredPair ''su'' (r_su ?r), optionalPair ''fl'' (r_fl ?r) ?r, optionalPair ''ka'' (r_ka ?r) ?r,
    optionalPair ''cu'' (r_cu ?r) ?r]"
  have parts: "knownCanonicalPairs ?r = concat ?parts" by (simp add: knownCanonicalPairs_def)
  have "distinct (map fst (knownCanonicalPairs ?r)) \<and>
      set (map fst (knownCanonicalPairs ?r)) \<subseteq> set ?ks"
    unfolding parts
    by (rule distinct_parts) (simp_all only: list.map list_all2_Cons list_all2_Nil req opt simp_thms,
        simp)
  moreover have "set ?ks \<subseteq> set KNOWN_TAGS" by (simp add: KNOWN_TAGS_def)
  moreover have "set (map fst (r_unknownTags ?r)) \<inter> set KNOWN_TAGS = {}"
    "distinct (map fst (r_unknownTags ?r))"
    using assms by (auto simp: recordOf_def distinct_map_filter)
  ultimately show ?thesis unfolding canonicalPairs_def map_append distinct_append by blast
qed

lemma parse_version:
  assumes "parse raw = Inr r"
  shows "r_v r \<in> set SUPPORTED_DNSID_VERSIONS" "(js ''v'', r_v r) \<in> set (rawTags raw)"
proof -
  note res = parseTagPairs_result [OF assms [unfolded parse_def]]
  obtain x xs where x: "split_on 59 raw = x # xs"
    using split_on_nonempty by (meson neq_Nil_conv)
  with assms obtain s where s: "x = js ''v='' @ s" and sup: "s \<in> set SUPPORTED_DNSID_VERSIONS"
    by (auto simp: parse_def parseTagPairs_def Let_def starts_with_iff split: if_splits)
  have "splitElement 0 x = Some (js ''v'', s)" by (simp add: splitElement_def s)
  then have mem: "(js ''v'', s) \<in> set (rawTags raw)" using s by (simp add: rawTags_def x elements_def)
  then have "r_v r = s"
    unfolding res(1) using res(2) by (simp add: recordOf_def tagOf_def del: js_Cons)
  with sup mem show "r_v r \<in> set SUPPORTED_DNSID_VERSIONS" "(js ''v'', r_v r) \<in> set (rawTags raw)"
    by simp_all
qed

text \<open>
  The canonical form of every accepted record is accepted as an unsigned canonical record
  with the same canonical form, so the string an entity signs names one record.
\<close>

theorem parseUnsignedCanonical_canonical:
  assumes "parse raw = Inr r"
  shows "\<exists>r'. parseUnsignedCanonical P (canonical r) None = Inr r' \<and> canonical r' = canonical r \<and>
    set (canonicalPairs r') = set (canonicalPairs r) \<and> r_sg r' = []"
proof -
  note res = parseTagPairs_result [OF assms [unfolded parse_def]]
  note good = canonicalPairs_good [OF assms [unfolded parse_def]]
  define ps where "ps = sort_key fst (canonicalPairs r)"
  have set: "set ps = {p \<in> set (rawTags raw). fst p \<noteq> js ''sg''}" by (simp add: ps_def good(1))
  have dist_r: "distinct (map fst (canonicalPairs r))"
    using distinct_canonicalPairs [OF res(2)] res(1) by simp
  then have dist: "distinct (map fst ps)" by (simp add: ps_def distinct_map)
  have tag: "tagOf ps s = tagOf (rawTags raw) s" if "js s \<noteq> js ''sg''" for s
    by (rule tagOf_cong [OF dist res(2)]) (use that in \<open>auto simp: set simp del: js_Cons\<close>)
  have tags: "tagOf ps ''v'' = r_v r" "tagOf ps ''gi'' = r_gi r" "tagOf ps ''ek'' = r_ek r"
    "tagOf ps ''ku'' = r_ku r" "tagOf ps ''lr'' = r_lr r" "tagOf ps ''su'' = r_su r"
    unfolding res(1) by (simp_all add: recordOf_def tag)
  have sg: "tagOf ps ''sg'' = []" by (rule tagOf_absent) (auto simp: set simp del: js_Cons)
  have miss: "\<not> requiredMissing False (recordOf ps)"
    using res(4) tags by (simp add: requiredMissing_def recordOf_def)
  have "parseTagPairs (join [59] (map encodePair ps)) False False = Inr (recordOf ps)"
  proof (rule parseTagPairs_join [OF _ _ dist miss, where ver = "r_v r"])
    have "goodTag False p" if "goodTag True p" "fst p \<noteq> js ''sg''" for p
      using that by (simp add: goodTag_def)
    with res(3) set show "\<forall>p \<in> set ps. goodTag False p" by blast
    show "ps \<noteq> []" using good(3) by (metis ps_def set_empty set_sort)
    show "if False then hd ps = (js ''v'', r_v r) else (js ''v'', r_v r) \<in> set ps"
      unfolding set using parse_version(2) [OF assms] by simp
    show "r_v r \<in> set SUPPORTED_DNSID_VERSIONS" by (rule parse_version(1) [OF assms])
  qed
  moreover have "join [59] (map encodePair ps) = canonical r"
    by (simp add: ps_def canonical_def canonicalJoin_def canonicalPairs_def)
  moreover have cp: "set (canonicalPairs (recordOf ps)) = set ps"
    unfolding set_canonicalPairs [OF dist miss] set by blast
  moreover have "canonical (recordOf ps) = canonical r"
    using sort_key_fst_unique [OF distinct_canonicalPairs [OF dist] dist_r]
      cp by (simp add: canonical_def canonicalJoin_def ps_def flip: canonicalPairs_def)
  ultimately show ?thesis
    using sg by (simp add: parseUnsignedCanonical_def ps_def recordOf_def [of "sort_key fst _"])
qed

section \<open>Validated records\<close>

lemma validateHttpsUrl_iff:
  "validateHttpsUrl P s = Inr u \<longleftrightarrow>
     httpsPrefix s \<and> 92 \<notin> set s \<and> urlParse P s = Some u \<and> url_protocol u = js ''https:'' \<and>
     url_hostname u \<noteq> [] \<and> url_username u = [] \<and> url_password u = []"
  by (auto simp: validateHttpsUrl_def split: option.splits)

lemma validateLrFormat_iff:
  "validateLrFormat lr = Inr u \<longleftrightarrow>
     (\<exists>method ref. lr = method @ 58 # ref \<and> lrMethod method \<and> ref \<noteq> [])"
proof
  assume v: "validateLrFormat lr = Inr u"
  then obtain k where k: "index_of 58 lr = Some k" "lrMethod (take k lr)" "drop (Suc k) lr \<noteq> []"
    by (auto simp: validateLrFormat_def split: option.splits if_splits)
  then show "\<exists>method ref. lr = method @ 58 # ref \<and> lrMethod method \<and> ref \<noteq> []"
    using index_of_split [OF k(1)] by blast
next
  assume "\<exists>method ref. lr = method @ 58 # ref \<and> lrMethod method \<and> ref \<noteq> []"
  then obtain name entry where l: "lr = name @ 58 # entry" "lrMethod name" "entry \<noteq> []" by blast
  then have "58 \<notin> set name" by (auto simp: lrMethod_def isLower_def isDigit_def)
  with l show "validateLrFormat lr = Inr u" by (simp add: validateLrFormat_def)
qed

text \<open>
  C25. What a validated record guarantees: \<open>gi\<close> is a normalized domain name, the host of the
  entity key URL \<open>ek\<close> is \<open>gi\<close> or beneath it, the host of the operational key URL \<open>ku\<close> is the
  agent's own normalized name, the URLs are plain HTTPS URLs without credentials, \<open>lr\<close> has a
  method and a reference, and \<open>ka\<close> is a known duration. Nothing else makes validation fail.
\<close>

theorem validate_iff:
  "validate P r = Inr () \<longleftrightarrow>
     r_v r \<in> set SUPPORTED_DNSID_VERSIONS \<and> r_agentFQDN r \<noteq> [] \<and>
     normalizeFQDN P (r_gi r) False = Inr (r_gi r) \<and>
     (\<exists>agent. normalizeFQDN P (r_agentFQDN r) True = Inr agent \<and>
        (\<exists>u. validateHttpsUrl P (r_ku r) = Inr u \<and> \<not> ends_with [46] (url_hostname u) \<and>
           normalizeFQDN P (url_hostname u) False = Inr agent)) \<and>
     (\<exists>u host. validateHttpsUrl P (r_ek r) = Inr u \<and> \<not> ends_with [46] (url_hostname u) \<and>
        normalizeFQDN P (url_hostname u) False = Inr host \<and>
        (host = r_gi r \<or> ends_with (46 # r_gi r) host)) \<and>
     (\<exists>method ref. r_lr r = method @ 58 # ref \<and> lrMethod method \<and> ref \<noteq> []) \<and>
     (\<exists>u. validateHttpsUrl P (r_su r) = Inr u) \<and>
     (case r_cu r of None \<Rightarrow> True | Some cu \<Rightarrow> cu = [] \<or> (\<exists>u. validateHttpsUrl P cu = Inr u)) \<and>
     (case r_ka r of None \<Rightarrow> True | Some ka \<Rightarrow> ka = [] \<or> (\<exists>ms. parseKaDuration ka = Inr ms))"
proof -
  have ka: "ka = [] \<or> ka \<in> set VALID_KA_VALUES \<longleftrightarrow> ka = [] \<or> (\<exists>ms. parseKaDuration ka = Inr ms)" for ka
    by (simp add: VALID_KA_VALUES_def parseKaDuration_def)
  have ek: "validateEkHost P s d = Inr () \<longleftrightarrow>
      (\<exists>u host. validateHttpsUrl P s = Inr u \<and> \<not> ends_with [46] (url_hostname u) \<and>
        normalizeFQDN P (url_hostname u) False = Inr host \<and> (host = d \<or> ends_with (46 # d) host))" for s d
    by (auto simp: validateEkHost_def result_simps)
  have ku: "validateHttpsUrlHost P s d = Inr () \<longleftrightarrow>
      (\<exists>u. validateHttpsUrl P s = Inr u \<and> \<not> ends_with [46] (url_hostname u) \<and>
        normalizeFQDN P (url_hostname u) False = Inr d)" for s d
    by (auto simp: validateHttpsUrlHost_def result_simps)
  have cu: "(case r_cu r of None \<Rightarrow> Inr ()
      | Some cu \<Rightarrow> if cu = [] then Inr () else bindE (validateHttpsUrl P cu) (\<lambda>_. Inr ())) = Inr () \<longleftrightarrow>
      (case r_cu r of None \<Rightarrow> True | Some cu \<Rightarrow> cu = [] \<or> (\<exists>u. validateHttpsUrl P cu = Inr u))"
    by (auto simp: result_simps split: option.splits)
  have kas: "(case r_ka r of None \<Rightarrow> Inr ()
      | Some ka \<Rightarrow> assertE (ka = [] \<or> ka \<in> set VALID_KA_VALUES)
          (ValidationError ''ka must be one of: 24h, 7d, 30d, 90d'')) = Inr () \<longleftrightarrow>
      (case r_ka r of None \<Rightarrow> True | Some ka \<Rightarrow> ka = [] \<or> (\<exists>ms. parseKaDuration ka = Inr ms))"
    unfolding ka by (auto simp: result_simps split: option.splits)
  show ?thesis
    unfolding validate_def bindE_eq_Inr if_distrib [where f = "\<lambda>x. x = Inr ()"] cu kas
      validateLrFormat_iff [of _ "()", symmetric]
    by (auto simp: ek ku cu)
qed

text \<open>The facts that evaluate the parser on concrete records.\<close>

lemmas eval_record = parse_def parseTagPairs_def tagStep_def Let_def starts_with_def tagName_def
  tagValue_def isUpper_def isLower_def isAlnum_def isDigit_def addTag_def setKnownTag_def
  KNOWN_TAGS_def SUPPORTED_DNSID_VERSIONS_def DNSID_VERSION_def DNSID_DRAFT01_VERSION_def
  requiredMissing_def emptyRecord_def

definition exampleRecord :: DnsIdTxtRecord where
  "exampleRecord = emptyRecord\<lparr>r_v := js ''DNSid1'', r_gi := js ''g'', r_ek := js ''e'', r_ku := js ''k'',
    r_lr := js ''l'', r_su := js ''s'', r_sg := js ''x''\<rparr>"

lemma parse_example:
  "parse (js ''v=DNSid1;gi=g;ek=e;ku=k;lr=l;su=s;sg=x'') =
     Inr (exampleRecord\<lparr>r_parsedTags := map js [''v'', ''gi'', ''ek'', ''ku'', ''lr'', ''su'', ''sg'']\<rparr>)"
  by (simp add: eval_record exampleRecord_def)

theorem canonical_covers_record_witness:
  "let raw = js ''v=DNSid1;gi=g;ek=e;ku=k;lr=l;su=s;sg=x'';
       raw' = js ''v=DNSid1; su=s;sg=y;lr=l;ku=k;ek=e;gi=g;''
   in {p \<in> set (rawTags raw). fst p \<noteq> js ''sg''} = {p \<in> set (rawTags raw'). fst p \<noteq> js ''sg''}"
  unfolding Let_def
proof (rule canonical_covers_record)
  show "parse (js ''v=DNSid1;gi=g;ek=e;ku=k;lr=l;su=s;sg=x'') =
      Inr (exampleRecord\<lparr>r_parsedTags := map js [''v'', ''gi'', ''ek'', ''ku'', ''lr'', ''su'', ''sg'']\<rparr>)"
    by (rule parse_example)
  show "parse (js ''v=DNSid1; su=s;sg=y;lr=l;ku=k;ek=e;gi=g;'') = Inr (exampleRecord\<lparr>r_sg := js ''y'',
      r_parsedTags := map js [''v'', ''su'', ''sg'', ''lr'', ''ku'', ''ek'', ''gi'']\<rparr>)"
    by (simp add: eval_record exampleRecord_def)
  show "canonical (exampleRecord\<lparr>r_parsedTags := map js [''v'', ''gi'', ''ek'', ''ku'', ''lr'', ''su'', ''sg'']\<rparr>) =
      canonical (exampleRecord\<lparr>r_sg := js ''y'',
        r_parsedTags := map js [''v'', ''su'', ''sg'', ''lr'', ''ku'', ''ek'', ''gi'']\<rparr>)"
    by (simp add: canonical_def knownCanonicalPairs_def optionalPair_def exampleRecord_def
        emptyRecord_def)
qed

theorem parse_serialize_witness:
  "parse (serialize exampleRecord) = Inr (exampleRecord\<lparr>r_agentFQDN := [],
     r_parsedTags := map fst (serializePairs exampleRecord)\<rparr>)"
  by (rule parse_serialize)
    (simp add: wfRecord_def exampleRecord_def serializePairs_def optionalPair_def goodTag_def
      eval_record)

theorem parseUnsignedCanonical_canonical_witness:
  "\<exists>r'. parseUnsignedCanonical asciiPlatform (canonical (exampleRecord\<lparr>r_parsedTags :=
       map js [''v'', ''gi'', ''ek'', ''ku'', ''lr'', ''su'', ''sg'']\<rparr>)) None = Inr r' \<and> r_sg r' = []"
  using parseUnsignedCanonical_canonical [OF parse_example] by blast

end
