(* ===== verification/Base64.thy ===== *)
theory Base64
  imports Errors
begin

text \<open>
  Base64 as the packages use it: \<open>toBase64Url\<close> and \<open>fromBase64Url\<close> of \<open>protocol/src/utils.ts\<close>
  over the platform's \<open>btoa\<close> and \<open>atob\<close>, and the wrappers of \<open>log-c2sp-tlog/src/base64.ts\<close>.
  The round trip makes them a codec; decoding also accepts padded and non-canonical input.
\<close>

section \<open>The platform's functions\<close>

text \<open>The standard alphabet.\<close>

definition b64char :: "nat \<Rightarrow> nat" where
  "b64char i =
     (if i < 26 then 65 + i else if i < 52 then 71 + i else if i < 62 then i - 4
      else if i = 62 then 43 else 47)"

definition b64val :: "nat \<Rightarrow> nat option" where
  "b64val c =
     (if isUpper c then Some (c - 65) else if isLower c then Some (c - 71)
      else if isDigit c then Some (c + 4) else if c = 43 then Some 62
      else if c = 47 then Some 63 else None)"

text \<open>\<open>btoa\<close> of a binary string, whose code units are bytes.\<close>

fun btoa :: "jstring \<Rightarrow> jstring" where
  "btoa [] = []"
| "btoa [a] = [b64char (a div 4), b64char (a mod 4 * 16), 61, 61]"
| "btoa [a, b] =
     [b64char (a div 4), b64char (a mod 4 * 16 + b div 16), b64char (b mod 16 * 4), 61]"
| "btoa (a # b # c # s) =
     [b64char (a div 4), b64char (a mod 4 * 16 + b div 16), b64char (b mod 16 * 4 + c div 64),
      b64char (c mod 64)] @ btoa s"

text \<open>The bytes of a sequence of sextets; left-over bits are dropped.\<close>

fun sextets :: "nat list \<Rightarrow> jstring" where
  "sextets (a # b # c # d # s) =
     [a * 4 + b div 16, b mod 16 * 16 + c div 4, c mod 4 * 64 + d] @ sextets s"
| "sextets [a, b, c] = [a * 4 + b div 16, b mod 16 * 16 + c div 4]"
| "sextets [a, b] = [a * 4 + b div 16]"
| "sextets _ = []"

text \<open>
  \<open>atob\<close>, the forgiving base64 decoder: ASCII white space is removed, then up to two padding
  characters when the length is a multiple of four.
\<close>

definition stripPadding :: "jstring \<Rightarrow> jstring" where
  "stripPadding s =
     (if length s mod 4 = 0 then
        (if ends_with [61, 61] s then butlast (butlast s)
         else if ends_with [61] s then butlast s else s)
      else s)"

definition atob :: "jstring \<Rightarrow> js_error + jstring" where
  "atob s =
     (let s' = stripPadding (filter (\<lambda>c. c \<notin> {9, 10, 12, 13, 32}) s) in
      if length s' mod 4 = 1 \<or> (\<exists>c \<in> set s'. b64val c = None)
      then Inl (DOMException ''InvalidCharacterError'')
      else Inr (sextets (map (\<lambda>c. the (b64val c)) s')))"

section \<open>The code\<close>

definition toBase64Url :: "bytes \<Rightarrow> jstring" where
  "toBase64Url bs =
     filter (\<lambda>c. c \<noteq> 61)
       (map (\<lambda>c. if c = 43 then 45 else if c = 47 then 95 else c) (btoa (map unat bs)))"

definition fromBase64Url :: "jstring \<Rightarrow> js_error + bytes" where
  "fromBase64Url b64 =
     (let normalized = map (\<lambda>c. if c = 45 then 43 else if c = 95 then 47 else c) b64;
          padded = normalized @ take ((4 - length normalized mod 4) mod 4) [61, 61]
      in bindE (atob padded) (\<lambda>binary. Inr (map of_nat binary)))"

definition b64url :: "bytes \<Rightarrow> jstring" where
  "b64url = toBase64Url"

definition fromB64url :: "jstring \<Rightarrow> js_error + bytes" where
  "fromB64url = fromBase64Url"

definition fromB64 :: "jstring \<Rightarrow> js_error + bytes" where
  "fromB64 s = fromBase64Url (map (\<lambda>c. if c = 43 then 45 else if c = 47 then 95 else c) s)"

section \<open>Round trip\<close>

lemma b64val_char [simp]: "i < 64 \<Longrightarrow> b64val (b64char i) = Some i"
  by (auto simp: b64val_def b64char_def isUpper_def isLower_def isDigit_def)

lemma b64char_plain: "i < 64 \<Longrightarrow> b64char i \<notin> {61, 9, 10, 12, 13, 32, 45, 95}"
  by (auto simp: b64char_def)

text \<open>The unpadded sextets of a binary string.\<close>

fun toSextets :: "jstring \<Rightarrow> nat list" where
  "toSextets [] = []"
| "toSextets [a] = [a div 4, a mod 4 * 16]"
| "toSextets [a, b] = [a div 4, a mod 4 * 16 + b div 16, b mod 16 * 4]"
| "toSextets (a # b # c # s) =
     [a div 4, a mod 4 * 16 + b div 16, b mod 16 * 4 + c div 64, c mod 64] @ toSextets s"

lemma toSextets_less: "\<forall>c \<in> set s. c < 256 \<Longrightarrow> i \<in> set (toSextets s) \<Longrightarrow> i < 64"
  by (induction s rule: toSextets.induct) auto

lemma sextet_carry:
  fixes x y :: nat
  shows "y < 16 \<Longrightarrow> (x * 16 + y) div 16 = x" "y < 16 \<Longrightarrow> (x * 16 + y) mod 16 = y"
    "y < 4 \<Longrightarrow> (x * 4 + y) div 4 = x" "y < 4 \<Longrightarrow> (x * 4 + y) mod 4 = y"
  by simp_all

lemma sextets_toSextets: "\<forall>c \<in> set s. c < 256 \<Longrightarrow> sextets (toSextets s) = s"
proof (induction s rule: toSextets.induct)
  case (4 a b c s)
  then have "b div 16 < 16" "c div 64 < 4" by auto
  with 4 show ?case by (simp only: toSextets.simps sextets.simps append.simps sextet_carry
        div_mult_mod_eq) simp
next
  case (3 a b)
  then have "b div 16 < 16" by auto
  then show ?case by (simp only: toSextets.simps sextets.simps sextet_carry div_mult_mod_eq) simp
qed simp_all

lemma length_toSextets_mod: "length (toSextets s) mod 4 \<noteq> 1"
  by (induction s rule: toSextets.induct) auto

lemma btoa_toSextets:
  "\<forall>c \<in> set s. c < 256 \<Longrightarrow>
   btoa s = map b64char (toSextets s) @ take ((4 - length (toSextets s) mod 4) mod 4) [61, 61]"
  by (induction s rule: toSextets.induct) auto

lemma stripPadding_pad:
  assumes "61 \<notin> set s" and "length s mod 4 \<noteq> 1"
  shows "stripPadding (s @ take ((4 - length s mod 4) mod 4) [61, 61]) = s"
proof -
  have "length s mod 4 \<in> {0, 1, 2, 3}" by auto
  with assms(2) consider "length s mod 4 = 0" | "length s mod 4 = 2" | "length s mod 4 = 3" by auto
  then show ?thesis
  proof cases
    case 1
    then show ?thesis using assms(1) by (auto simp: stripPadding_def ends_with_iff)
  next
    case 2
    then have "(length s + 2) mod 4 = 0" by presburger
    with 2 show ?thesis by (simp add: stripPadding_def ends_with_iff butlast_append)
  next
    case 3
    then have "(length s + 1) mod 4 = 0" by presburger
    with 3 show ?thesis
      using assms(1) by (auto simp: stripPadding_def ends_with_iff butlast_append append_eq_append_conv2
          append_eq_Cons_conv Cons_eq_append_conv)
  qed
qed

text \<open>Decoding the unpadded sextets of either alphabet.\<close>

lemma fromBase64Url_sextets:
  assumes "\<forall>i \<in> set xs. i < 64" and "length xs mod 4 \<noteq> 1"
    and "f = id \<or> f = (\<lambda>c. if c = 43 then 45 else if c = 47 then 95 else c)"
  shows "fromBase64Url (map (\<lambda>i. f (b64char i)) xs) = Inr (map of_nat (sextets xs))"
proof -
  let ?n = "map b64char xs"
  have plain: "b64char i \<notin> {61, 9, 10, 12, 13, 32, 45, 95}" if "i \<in> set xs" for i
    using b64char_plain assms(1) that by blast
  have norm: "map (\<lambda>c. if c = 45 then 43 else if c = 95 then 47 else c)
      (map (\<lambda>i. f (b64char i)) xs) = ?n"
    using plain assms(3) by (auto simp: id_def split: if_splits)
  have "filter (\<lambda>c. c \<notin> {9, 10, 12, 13, 32}) (?n @ take m [61, 61]) = ?n @ take m [61, 61]" for m
    using plain by (auto simp: filter_id_conv dest!: in_set_takeD)
  moreover have "stripPadding (?n @ take ((4 - length ?n mod 4) mod 4) [61, 61]) = ?n"
    by (rule stripPadding_pad) (use plain assms(2) in auto)
  moreover have "map (\<lambda>c. the (b64val c)) ?n = xs"
    using assms(1) by (auto intro: map_idI)
  ultimately have "atob (?n @ take ((4 - length ?n mod 4) mod 4) [61, 61]) = Inr (sextets xs)"
    using assms(1,2) by (auto simp: atob_def Let_def)
  then show ?thesis by (simp only: fromBase64Url_def norm Let_def bindE_Inr)
qed

lemma toBase64Url_sextets:
  "toBase64Url bs = map (\<lambda>i. (\<lambda>c. if c = 43 then 45 else if c = 47 then 95 else c) (b64char i))
     (toSextets (map unat bs))"
proof -
  let ?f = "\<lambda>c :: nat. if c = 43 then 45 else if c = 47 then 95 else c"
  note b = map_unat_bytes [of bs]
  have "filter (\<lambda>c. c \<noteq> 61) (map ?f (take m [61, 61])) = []" for m
    by (auto simp: filter_empty_conv dest!: in_set_takeD)
  moreover have "filter (\<lambda>c. c \<noteq> 61) (map (\<lambda>i. ?f (b64char i)) (toSextets (map unat bs))) =
      map (\<lambda>i. ?f (b64char i)) (toSextets (map unat bs))"
    using toSextets_less [OF b] b64char_plain by (fastforce simp: filter_id_conv)
  ultimately show ?thesis
    by (simp add: toBase64Url_def btoa_toSextets [OF b] comp_def)
qed

lemma toBase64Url_roundtrip: "fromBase64Url (toBase64Url bs) = Inr bs"
proof -
  note b = map_unat_bytes [of bs]
  have "fromBase64Url (toBase64Url bs) = Inr (map of_nat (sextets (toSextets (map unat bs))))"
    unfolding toBase64Url_sextets
    by (rule fromBase64Url_sextets) (use toSextets_less [OF b] length_toSextets_mod in auto)
  then show ?thesis by (simp add: sextets_toSextets [OF b] comp_def)
qed

interpretation base64url: codec toBase64Url fromBase64Url "\<lambda>_. True"
  by unfold_locales (rule toBase64Url_roundtrip)

end
