(* ===== verification/Jwks.thy ===== *)
theory Jwks
  imports Json Base64
begin

text \<open>
  JSON Web Keys (\<open>protocol/src/jwks.ts\<close>) and signature verification with them (the end of
  \<open>protocol/src/utils.ts\<close>). Keys are values decoded from JSON. The \<open>jose\<close> package's key import and
  thumbprint and the platform's signature check are parameters, fields of a \<open>crypto\<close> record.
\<close>

section \<open>Cryptography\<close>

text \<open>
  \<open>importKey k alg\<close> tells whether \<open>importJWK\<close> resolves; \<open>subtleVerify\<close> is
  \<open>crypto.subtle.verify\<close> with the imported key, \<open>None\<close> when it rejects.
\<close>

datatype verify_algorithm = VerifyAlgorithm string string nat

record crypto =
  hash256 :: "bytes \<Rightarrow> bytes"
  importKey :: "json \<Rightarrow> jstring \<Rightarrow> bool"
  subtleVerify :: "verify_algorithm \<Rightarrow> json \<Rightarrow> bytes \<Rightarrow> bytes \<Rightarrow> bool option"
  joseThumbprint :: "json \<Rightarrow> js_error + jstring"

section \<open>Algorithms\<close>

definition SIGNING_ALGS :: "jstring list" where
  "SIGNING_ALGS = map js [''EdDSA'', ''ES256'', ''ES384'', ''ES512'', ''RS256'', ''RS384'', ''RS512'',
     ''PS256'', ''PS384'', ''PS512'']"

definition DRAFT01_SIGNING_ALGS :: "jstring list" where
  "DRAFT01_SIGNING_ALGS = map js [''EdDSA'', ''ES256'']"

definition isDraft01SigningAlg :: "jstring \<Rightarrow> bool" where
  "isDraft01SigningAlg alg \<longleftrightarrow> alg \<in> set DRAFT01_SIGNING_ALGS"

definition derivedSignatureAlg :: "json \<Rightarrow> js_error + jstring" where
  "derivedSignatureAlg key =
     (if isStr (propOf key ''kty'') ''OKP'' \<and> isStr (propOf key ''crv'') ''Ed25519'' then Inr (js ''EdDSA'')
      else if isStr (propOf key ''kty'') ''EC'' \<and> isStr (propOf key ''crv'') ''P-256'' then Inr (js ''ES256'')
      else if isStr (propOf key ''kty'') ''EC'' \<and> isStr (propOf key ''crv'') ''P-384'' then Inr (js ''ES384'')
      else if isStr (propOf key ''kty'') ''EC'' \<and> isStr (propOf key ''crv'') ''P-521'' then Inr (js ''ES512'')
      else Inl (ValidationError ''unsupported JWK signature key type''))"

definition isAlgConsistentWithKey :: "jstring \<Rightarrow> json \<Rightarrow> bool" where
  "isAlgConsistentWithKey alg key =
     (if isStr (propOf key ''kty'') ''OKP''
        then isStr (propOf key ''crv'') ''Ed25519'' \<and> alg = js ''EdDSA''
      else if isStr (propOf key ''kty'') ''EC''
        then isStr (propOf key ''crv'') ''P-256'' \<and> alg = js ''ES256'' \<or>
             isStr (propOf key ''crv'') ''P-384'' \<and> alg = js ''ES384'' \<or>
             isStr (propOf key ''crv'') ''P-521'' \<and> alg = js ''ES512''
      else if isStr (propOf key ''kty'') ''RSA''
        then alg \<in> js ` {''RS256'', ''RS384'', ''RS512'', ''PS256'', ''PS384'', ''PS512''}
      else False)"

definition jwkSignatureAlg :: "json \<Rightarrow> js_error + jstring" where
  "jwkSignatureAlg key =
     bindE (getp key ''use'') (\<lambda>use.
     if use \<noteq> JUndef \<and> \<not> isStr use ''sig'' then Inl (ValidationError ''JWK use is not valid for signing'')
     else case propOf key ''alg'' of
       JUndef \<Rightarrow> derivedSignatureAlg key
     | JStr alg \<Rightarrow>
         if alg \<notin> set SIGNING_ALGS then Inl (ValidationError ''unsupported JWK alg'')
         else if \<not> isAlgConsistentWithKey alg key
           then Inl (ValidationError ''JWK alg is inconsistent with kty/crv'')
         else Inr alg
     | _ \<Rightarrow> Inl (ValidationError ''unsupported JWK alg''))"

definition isSigningUse :: "json \<Rightarrow> js_error + bool" where
  "isSigningUse key = bindE (getp key ''use'') (\<lambda>use. Inr (use = JUndef \<or> isStr use ''sig''))"

definition isDraft01RecordSigningCandidate :: "json \<Rightarrow> js_error + bool" where
  "isDraft01RecordSigningCandidate key =
     bindE (isSigningUse key) (\<lambda>signing.
     if \<not> signing \<or> \<not> truthy (propOf key ''alg'') then Inr False
     else catchE (bindE (jwkSignatureAlg key) (\<lambda>alg. Inr (isDraft01SigningAlg alg))) (\<lambda>_. Inr False))"

definition nonEmptyString :: "json \<Rightarrow> bool" where
  "nonEmptyString v = (case v of JStr s \<Rightarrow> s \<noteq> [] | _ \<Rightarrow> False)"

definition assertPublicKeyMaterial :: "json \<Rightarrow> js_error + unit" where
  "assertPublicKeyMaterial key =
     (if isStr (propOf key ''kty'') ''EC'' then
        assertE (nonEmptyString (propOf key ''x'') \<and> nonEmptyString (propOf key ''y''))
          (ValidationError ''EC JWK missing public coordinates'')
      else if isStr (propOf key ''kty'') ''OKP'' then
        assertE (nonEmptyString (propOf key ''x'')) (ValidationError ''OKP JWK missing public key'')
      else if isStr (propOf key ''kty'') ''RSA'' then
        assertE (nonEmptyString (propOf key ''n'') \<and> nonEmptyString (propOf key ''e''))
          (ValidationError ''RSA JWK missing public parameters'')
      else Inr ())"

definition assertImportablePublicKey :: "crypto \<Rightarrow> json \<Rightarrow> js_error + unit" where
  "assertImportablePublicKey C key =
     bindE (assertPublicKeyMaterial key) (\<lambda>_.
     catchE (bindE (jwkSignatureAlg key) (\<lambda>alg. assertE (importKey C key alg) (JsTypeError ''import'')))
       (\<lambda>_. Inl (ValidationError ''record-signing JWK is not importable'')))"

section \<open>Key sets\<close>

record JWKS =
  jwks_keys :: "json list"

definition signingKeys :: "JWKS \<Rightarrow> js_error + json list" where
  "signingKeys s =
     bindE (filterE (\<lambda>k. bindE (isSigningUse k) (\<lambda>b.
        if \<not> b then Inr False
        else catchE (bindE (jwkSignatureAlg k) (\<lambda>_. Inr True)) (\<lambda>_. Inr False))) (jwks_keys s)) (\<lambda>keys.
     if keys = [] then Inl (ValidationError ''JWKS contains no signing keys'') else Inr keys)"

definition keyById :: "JWKS \<Rightarrow> jstring \<Rightarrow> js_error + json option" where
  "keyById s kid = findE (\<lambda>k. bindE (getp k ''kid'') (\<lambda>v. Inr (v = JStr kid))) (jwks_keys s)"

definition draft01RecordSigningKeyById :: "JWKS \<Rightarrow> jstring \<Rightarrow> js_error + json option" where
  "draft01RecordSigningKeyById s kid =
     findE (\<lambda>k. bindE (getp k ''kid'') (\<lambda>v.
       if v = JStr kid then isDraft01RecordSigningCandidate k else Inr False)) (jwks_keys s)"

text \<open>The number of distinct values of a \<open>Set\<close> equals the length of a list.\<close>

fun distinctValues :: "json list \<Rightarrow> bool" where
  "distinctValues [] = True"
| "distinctValues (v # vs) = ((\<forall>w \<in> set vs. \<not> strictEq v w) \<and> distinctValues vs)"

definition assertUniqueKids :: "JWKS \<Rightarrow> js_error + unit" where
  "assertUniqueKids s =
     bindE (mapE (\<lambda>k. getp k ''kid'') (jwks_keys s)) (\<lambda>kids.
     assertE (distinctValues (filter truthy kids)) (ValidationError ''JWKS contains duplicate kid values''))"

definition validateJwks :: "JWKS \<Rightarrow> js_error + unit" where
  "validateJwks s =
     bindE (eachE (\<lambda>key. bindE (getp key ''alg'') (\<lambda>alg.
        if alg \<noteq> JUndef then bindE (jwkSignatureAlg key) (\<lambda>_. Inr ()) else Inr ())) (jwks_keys s)) (\<lambda>_.
     bindE (signingKeys s) (\<lambda>signing.
     if \<not> (\<exists>k \<in> set signing. truthy (propOf k ''kid''))
       then Inl (ValidationError ''no signing key in JWKS has a kid field'')
     else assertUniqueKids s))"

definition currentDraft01SigningKey :: "JWKS \<Rightarrow> js_error + json" where
  "currentDraft01SigningKey s =
     bindE (filterE isSigningUse (jwks_keys s)) (\<lambda>signing.
     case signing of
       [key] \<Rightarrow>
         if \<not> truthy (propOf key ''kid'') then Inl (ValidationError ''draft-01 key missing kid'')
         else if \<not> truthy (propOf key ''alg'') then Inl (ValidationError ''draft-01 key missing alg'')
         else bindE (jwkSignatureAlg key) (\<lambda>alg.
           if alg \<notin> set DRAFT01_SIGNING_ALGS then Inl (ValidationError ''unsupported draft-01 key alg'')
           else Inr key)
     | _ \<Rightarrow> Inl (ValidationError ''draft-01 JWKS must contain exactly one current signing key''))"

definition validateRecordSigning :: "JWKS \<Rightarrow> js_error + unit" where
  "validateRecordSigning s =
     bindE (assertUniqueKids s) (\<lambda>_. bindE (currentDraft01SigningKey s) (\<lambda>_. Inr ()))"

definition validateRecordSigningKeyset :: "crypto \<Rightarrow> JWKS \<Rightarrow> js_error + unit" where
  "validateRecordSigningKeyset C s =
     bindE (assertUniqueKids s) (\<lambda>_.
     bindE (currentDraft01SigningKey s) (\<lambda>key. assertImportablePublicKey C key))"

definition validateOperational :: "JWKS \<Rightarrow> js_error + unit" where
  "validateOperational s =
     bindE (assertUniqueKids s) (\<lambda>_. bindE (currentDraft01SigningKey s) (\<lambda>_. Inr ()))"

definition safeThumbprint :: "crypto \<Rightarrow> json \<Rightarrow> js_error + jstring" where
  "safeThumbprint C key =
     catchE (joseThumbprint C key) (\<lambda>_.
       bindE (getp key ''kid'') (\<lambda>_.
       Inl (ValidationError ''malformed key: unable to compute RFC 7638 thumbprint'')))"

definition keySetsShareKeyMaterial :: "crypto \<Rightarrow> JWKS \<Rightarrow> JWKS \<Rightarrow> js_error + bool" where
  "keySetsShareKeyMaterial C a b =
     (if jwks_keys a = [] \<or> jwks_keys b = [] then Inr False
      else bindE (mapE (safeThumbprint C) (jwks_keys a)) (\<lambda>thumbprintsA.
        bindE (mapE (safeThumbprint C) (jwks_keys b)) (\<lambda>thumbprintsB.
        Inr (\<exists>t \<in> set thumbprintsB. t \<in> set thumbprintsA))))"

section \<open>Signature verification\<close>

definition getVerifyAlgorithm :: "jstring \<Rightarrow> js_error + verify_algorithm" where
  "getVerifyAlgorithm alg =
     (if alg = js ''ES256'' then Inr (VerifyAlgorithm ''ECDSA'' ''SHA-256'' 0)
      else if alg = js ''ES384'' then Inr (VerifyAlgorithm ''ECDSA'' ''SHA-384'' 0)
      else if alg = js ''ES512'' then Inr (VerifyAlgorithm ''ECDSA'' ''SHA-512'' 0)
      else if alg = js ''EdDSA'' then Inr (VerifyAlgorithm ''Ed25519'' '''' 0)
      else if alg = js ''RS256'' then Inr (VerifyAlgorithm ''RSASSA-PKCS1-v1_5'' ''SHA-256'' 0)
      else if alg = js ''RS384'' then Inr (VerifyAlgorithm ''RSASSA-PKCS1-v1_5'' ''SHA-384'' 0)
      else if alg = js ''RS512'' then Inr (VerifyAlgorithm ''RSASSA-PKCS1-v1_5'' ''SHA-512'' 0)
      else if alg = js ''PS256'' then Inr (VerifyAlgorithm ''RSA-PSS'' '''' 32)
      else if alg = js ''PS384'' then Inr (VerifyAlgorithm ''RSA-PSS'' '''' 48)
      else if alg = js ''PS512'' then Inr (VerifyAlgorithm ''RSA-PSS'' '''' 64)
      else Inl (ArgumentError ''unsupported algorithm for verification''))"

definition byteHex :: "byte \<Rightarrow> jstring" where
  "byteHex b = [hexDigit (unat b div 16), hexDigit (unat b mod 16)]"

definition ED25519_SMALL_ORDER :: "jstring list" where
  "ED25519_SMALL_ORDER = map js
    [''0100000000000000000000000000000000000000000000000000000000000000'',
     ''0100000000000000000000000000000000000000000000000000000000000080'',
     ''ecffffffffffffffffffffffffffffffffffffffffffffffffffffffffffff7f'',
     ''ecffffffffffffffffffffffffffffffffffffffffffffffffffffffffffffff'',
     ''0000000000000000000000000000000000000000000000000000000000000000'',
     ''0000000000000000000000000000000000000000000000000000000000000080'',
     ''26e8958fc2b227b045c3f489f2ef98f0d5dfac05d3c63339b13802886d53fc05'',
     ''26e8958fc2b227b045c3f489f2ef98f0d5dfac05d3c63339b13802886d53fc85'',
     ''c7176a703d4dd84fba3c0b760d10670f2a2053fa2c39ccc64ec7fd7792ac037a'',
     ''c7176a703d4dd84fba3c0b760d10670f2a2053fa2c39ccc64ec7fd7792ac03fa'']"

text \<open>\<open>y >= p\<close> on the 32 bytes of a key, as the code tests it.\<close>

definition yAtLeastP :: "bytes \<Rightarrow> bool" where
  "yAtLeastP x \<longleftrightarrow>
     unat (x ! 31) mod 128 = 0x7f \<and> (\<forall>b \<in> set (take 30 (drop 1 x)). b = 0xff) \<and> unat (x ! 0) \<ge> 0xed"

definition decodeCoordinate :: "json \<Rightarrow> js_error + bytes" where
  "decodeCoordinate v = (case v of JStr s \<Rightarrow> fromBase64Url s | _ \<Rightarrow> Inr [])"

definition publicKeyEncodingValid :: "json \<Rightarrow> js_error + bool" where
  "publicKeyEncodingValid key =
     (if isStr (propOf key ''kty'') ''EC'' then
        bindE (decodeCoordinate (propOf key ''x'')) (\<lambda>x.
        if length x \<noteq> 32 then Inr False
        else bindE (decodeCoordinate (propOf key ''y'')) (\<lambda>y. Inr (length y = 32)))
      else if \<not> isStr (propOf key ''kty'') ''OKP'' then Inr True
      else bindE (decodeCoordinate (propOf key ''x'')) (\<lambda>x.
        if length x \<noteq> 32 then Inr False
        else Inr (\<not> yAtLeastP x \<and> concat (map byteHex x) \<notin> set ED25519_SMALL_ORDER)))"

text \<open>The body of the \<open>try\<close>; every error, and a rejected check, is \<open>false\<close>.\<close>

definition verifyWithKey ::
    "crypto \<Rightarrow> jstring + bytes \<Rightarrow> bytes \<Rightarrow> json \<Rightarrow> jstring option \<Rightarrow> bool" where
  "verifyWithKey C signingInput signature key expectedAlg =
     (case
        bindE (jwkSignatureAlg key) (\<lambda>alg.
        if expectedAlg \<noteq> None \<and> expectedAlg \<noteq> Some alg then Inr False
        else bindE (publicKeyEncodingValid key) (\<lambda>ok.
        if \<not> ok then Inr False
        else if \<not> importKey C key alg then Inl (JsTypeError ''import'')
        else bindE (getVerifyAlgorithm alg) (\<lambda>algorithm.
        let message = (case signingInput of Inl s \<Rightarrow> utf8 s | Inr b \<Rightarrow> b) in
        case subtleVerify C algorithm key signature message of
          None \<Rightarrow> Inl (JsTypeError ''verify'')
        | Some b \<Rightarrow> Inr b)))
      of Inl _ \<Rightarrow> False | Inr b \<Rightarrow> b)"

section \<open>Algorithm binding\<close>

text \<open>The algorithms a key of a given type and curve may be used with.\<close>

definition algBinding :: "json \<Rightarrow> jstring \<Rightarrow> bool" where
  "algBinding key alg \<longleftrightarrow>
     isStr (propOf key ''kty'') ''OKP'' \<and> isStr (propOf key ''crv'') ''Ed25519'' \<and> alg = js ''EdDSA'' \<or>
     isStr (propOf key ''kty'') ''EC'' \<and> isStr (propOf key ''crv'') ''P-256'' \<and> alg = js ''ES256'' \<or>
     isStr (propOf key ''kty'') ''EC'' \<and> isStr (propOf key ''crv'') ''P-384'' \<and> alg = js ''ES384'' \<or>
     isStr (propOf key ''kty'') ''EC'' \<and> isStr (propOf key ''crv'') ''P-521'' \<and> alg = js ''ES512'' \<or>
     isStr (propOf key ''kty'') ''RSA'' \<and>
       alg \<in> js ` {''RS256'', ''RS384'', ''RS512'', ''PS256'', ''PS384'', ''PS512''}"

lemma derivedSignatureAlg_binding: "derivedSignatureAlg key = Inr alg \<Longrightarrow> algBinding key alg"
  by (auto simp: derivedSignatureAlg_def algBinding_def split: if_splits)

lemma isAlgConsistentWithKey_binding: "isAlgConsistentWithKey alg key \<Longrightarrow> algBinding key alg"
  unfolding isAlgConsistentWithKey_def algBinding_def by argo

lemma jwkSignatureAlg_use:
  "jwkSignatureAlg key = Inr alg \<Longrightarrow>
   \<not> nullish key \<and> (propOf key ''use'' = JUndef \<or> isStr (propOf key ''use'') ''sig'')"
  by (auto simp: jwkSignatureAlg_def getp_def result_simps split: if_splits)

lemma jwkSignatureAlg_binding: "jwkSignatureAlg key = Inr alg \<Longrightarrow> algBinding key alg"
  by (auto simp: jwkSignatureAlg_def result_simps intro: derivedSignatureAlg_binding
      isAlgConsistentWithKey_binding split: if_splits json.splits)

lemma jwkSignatureAlg_declared:
  "jwkSignatureAlg key = Inr alg \<Longrightarrow> propOf key ''alg'' = JUndef \<or> propOf key ''alg'' = JStr alg"
  by (auto simp: jwkSignatureAlg_def result_simps split: if_splits json.splits)

text \<open>
  C29. Key selection is unambiguous: \<open>currentDraft01SigningKey\<close> returns a key only when it is the
  one key of the set usable for signing; the key has a \<open>kid\<close> and declares the algorithm it is
  used with, which is EdDSA on Ed25519 or ES256 on P-256.
\<close>

theorem currentDraft01SigningKey_sound:
  assumes "currentDraft01SigningKey s = Inr key"
  shows "filter (\<lambda>k. isSigningUse k = Inr True) (jwks_keys s) = [key] \<and>
    truthy (propOf key ''kid'') \<and>
    (propOf key ''alg'' = JStr (js ''EdDSA'') \<and> isStr (propOf key ''kty'') ''OKP'' \<and>
       isStr (propOf key ''crv'') ''Ed25519'' \<or>
     propOf key ''alg'' = JStr (js ''ES256'') \<and> isStr (propOf key ''kty'') ''EC'' \<and>
       isStr (propOf key ''crv'') ''P-256'')"
proof -
  from assms obtain alg where sel: "filter (\<lambda>k. isSigningUse k = Inr True) (jwks_keys s) = [key]"
    and key: "truthy (propOf key ''kid'')" "truthy (propOf key ''alg'')" "jwkSignatureAlg key = Inr alg"
    and alg: "alg \<in> set DRAFT01_SIGNING_ALGS"
    by (auto simp: currentDraft01SigningKey_def result_simps filterE_eq_Inr split: list.splits if_splits)
  have decl: "propOf key ''alg'' = JStr alg"
    using jwkSignatureAlg_declared [OF key(3)] key(2) by auto
  with sel key(1) alg jwkSignatureAlg_binding [OF key(3)] show ?thesis
    by (auto simp: DRAFT01_SIGNING_ALGS_def algBinding_def)
qed

section \<open>Ed25519 key encodings\<close>

text \<open>The number a little-endian byte string stands for.\<close>

fun leValue :: "bytes \<Rightarrow> nat" where
  "leValue [] = 0"
| "leValue (b # bs) = unat b + 256 * leValue bs"

lemma leValue_bound: "leValue bs < 256 ^ length bs"
proof (induction bs)
  case (Cons b bs)
  then have "Suc (leValue bs) \<le> 256 ^ length bs" by simp
  then have "256 * leValue bs + 256 \<le> 256 * 256 ^ length bs" by linarith
  with unat_byte_less [of b] show ?case by simp
qed simp

lemma leValue_max:
  "Suc (leValue bs) = 256 ^ length bs \<longleftrightarrow> (\<forall>b \<in> set bs. b = 0xff)"
proof (induction bs)
  case (Cons b bs)
  have arith: "Suc (u + 256 * v) = 256 * n \<longleftrightarrow> u = 255 \<and> Suc v = n" if u: "u < 256" and v: "v < n" for u v n :: nat
  proof -
    obtain d where "n = v + Suc d" using less_imp_Suc_add [OF v] by auto
    with u show ?thesis by auto
  qed
  have "unat b = 255 \<longleftrightarrow> b = 0xff"
    using word_unat_eq_iff [of b "0xff"] by simp
  with Cons.IH arith [OF unat_byte_less [of b] leValue_bound [of bs]] show ?case by simp
qed simp

lemma leValue_append: "leValue (xs @ ys) = leValue xs + 256 ^ length xs * leValue ys"
  by (induction xs) (simp_all add: algebra_simps)

definition clearSign :: "bytes \<Rightarrow> bytes" where
  "clearSign x = x[31 := of_nat (unat (x ! 31) mod 128)]"

lemma yAtLeastP_iff:
  assumes "length x = 32"
  shows "yAtLeastP x \<longleftrightarrow> 2 ^ 255 - 19 \<le> leValue (clearSign x)"
proof -
  obtain b0 rest where x: "x = b0 # rest" using assms by (cases x) auto
  then have rest: "length rest = 31" using assms by simp
  obtain mid w where split: "rest = mid @ [w]" using rest by (cases rest rule: rev_cases) auto
  define top where "top = unat w mod 128"
  have mid: "length mid = 30" using rest split by simp
  have top: "top < 128" by (simp add: top_def)
  have "clearSign x = b0 # mid @ [of_nat top]"
    using split mid by (simp add: clearSign_def x top_def list_update_append nth_append)
  moreover have "unat (of_nat top :: byte) = top"
    using top by (simp add: unat_of_nat)
  ultimately have val: "leValue (clearSign x) = unat b0 + 256 * (leValue mid + 256 ^ 30 * top)"
    using mid by (simp add: leValue_append)
  have m: "leValue mid < 256 ^ 30" and full: "(\<forall>b \<in> set mid. b = 0xff) \<longleftrightarrow> leValue mid = 256 ^ 30 - 1"
    using leValue_bound [of mid] leValue_max [of mid] mid by auto
  have "2 ^ 255 - 19 \<le> unat b0 + 256 * (leValue mid + 256 ^ 30 * top) \<longleftrightarrow>
      top = 127 \<and> leValue mid = 256 ^ 30 - 1 \<and> 237 \<le> unat b0"
    using m top unat_byte_less [of b0] by simp linarith
  then show ?thesis
    unfolding val yAtLeastP_def using full mid by (simp add: x split top_def nth_append)
qed

text \<open>
  C24. \<open>verifyWithKey\<close> fails closed: it returns true only if the platform accepted the signature
  over exactly the given message, under the algorithm bound to the key's type and curve, which is
  the expected one if one is given. An Ed25519 key it accepts encodes, in 32 bytes, a coordinate
  below the field prime, and is none of the listed small-order points; an EC key has coordinates
  of exactly 32 bytes.
\<close>

theorem verifyWithKey_sound:
  assumes "verifyWithKey C input signature key expectedAlg"
  shows "\<exists>alg algorithm. jwkSignatureAlg key = Inr alg \<and> algBinding key alg \<and>
    (expectedAlg = None \<or> expectedAlg = Some alg) \<and> importKey C key alg \<and>
    getVerifyAlgorithm alg = Inr algorithm \<and>
    subtleVerify C algorithm key signature (case input of Inl s \<Rightarrow> utf8 s | Inr b \<Rightarrow> b) = Some True \<and>
    (if isStr (propOf key ''kty'') ''OKP'' then
       \<exists>s x. propOf key ''x'' = JStr s \<and> fromBase64Url s = Inr x \<and> length x = 32 \<and>
         leValue (clearSign x) < 2 ^ 255 - 19 \<and> concat (map byteHex x) \<notin> set ED25519_SMALL_ORDER
     else if isStr (propOf key ''kty'') ''EC'' then
       \<exists>sx sy x y. propOf key ''x'' = JStr sx \<and> fromBase64Url sx = Inr x \<and> length x = 32 \<and>
         propOf key ''y'' = JStr sy \<and> fromBase64Url sy = Inr y \<and> length y = 32
     else True)"
proof -
  from assms obtain alg algorithm where alg: "jwkSignatureAlg key = Inr alg"
      "expectedAlg = None \<or> expectedAlg = Some alg" "importKey C key alg"
      "getVerifyAlgorithm alg = Inr algorithm"
      "subtleVerify C algorithm key signature (case input of Inl s \<Rightarrow> utf8 s | Inr b \<Rightarrow> b) = Some True"
    and enc: "publicKeyEncodingValid key = Inr True"
    by (auto simp: verifyWithKey_def result_simps Let_def split: sum.splits if_splits option.splits)
  have coord: "\<exists>s. v = JStr s \<and> fromBase64Url s = Inr x" if "decodeCoordinate v = Inr x" "length x = 32" for v x
    using that by (auto simp: decodeCoordinate_def split: json.splits)
  have okp: "\<exists>s x. propOf key ''x'' = JStr s \<and> fromBase64Url s = Inr x \<and> length x = 32 \<and>
      leValue (clearSign x) < 2 ^ 255 - 19 \<and> concat (map byteHex x) \<notin> set ED25519_SMALL_ORDER"
    if "isStr (propOf key ''kty'') ''OKP''"
  proof -
    have "\<not> isStr (propOf key ''kty'') ''EC''" using that by (auto simp: isStr_def)
    with enc that obtain x where x: "decodeCoordinate (propOf key ''x'') = Inr x" "length x = 32"
      "\<not> yAtLeastP x" "concat (map byteHex x) \<notin> set ED25519_SMALL_ORDER"
      by (auto simp: publicKeyEncodingValid_def result_simps split: if_splits)
    with coord [OF x(1,2)] yAtLeastP_iff [OF x(2)] show ?thesis by (auto simp: not_le)
  qed
  have ec: "\<exists>sx sy x y. propOf key ''x'' = JStr sx \<and> fromBase64Url sx = Inr x \<and> length x = 32 \<and>
      propOf key ''y'' = JStr sy \<and> fromBase64Url sy = Inr y \<and> length y = 32"
    if "isStr (propOf key ''kty'') ''EC''"
  proof -
    from enc that obtain x y where x: "decodeCoordinate (propOf key ''x'') = Inr x" "length x = 32"
      and y: "decodeCoordinate (propOf key ''y'') = Inr y" "length y = 32"
      by (auto simp: publicKeyEncodingValid_def result_simps split: if_splits)
    with coord [OF x] coord [OF y] show ?thesis by blast
  qed
  from alg okp ec jwkSignatureAlg_binding [OF alg(1)] show ?thesis by auto
qed

text \<open>A key and a platform that accept, for concrete evaluation.\<close>

definition exampleCrypto :: crypto where
  "exampleCrypto = \<lparr>hash256 = (\<lambda>x. take 32 (x @ replicate 32 0)), importKey = (\<lambda>_ _. True),
     subtleVerify = (\<lambda>a k s m. Some (s = m)), joseThumbprint = (\<lambda>k. case propOf k ''x'' of JStr s \<Rightarrow> Inr s
       | _ \<Rightarrow> Inl (JsTypeError ''JWK''))\<rparr>"

definition rsaKey :: json where
  "rsaKey = JObj [(js ''kty'', JStr (js ''RSA'')), (js ''alg'', JStr (js ''RS256'')),
     (js ''kid'', JStr (js ''r''))]"

definition edKey :: "jstring \<Rightarrow> jstring \<Rightarrow> json" where
  "edKey kid x = JObj [(js ''kty'', JStr (js ''OKP'')), (js ''crv'', JStr (js ''Ed25519'')),
     (js ''alg'', JStr (js ''EdDSA'')), (js ''kid'', JStr kid), (js ''x'', JStr x)]"

lemma propOf_edKey [simp]:
  "propOf (edKey kid x) ''kty'' = JStr (js ''OKP'')" "propOf (edKey kid x) ''crv'' = JStr (js ''Ed25519'')"
  "propOf (edKey kid x) ''alg'' = JStr (js ''EdDSA'')" "propOf (edKey kid x) ''kid'' = JStr kid"
  "propOf (edKey kid x) ''x'' = JStr x" "propOf (edKey kid x) ''use'' = JUndef"
  by (simp_all add: edKey_def lookupProp_def)

lemma nullish_edKey [simp]: "\<not> nullish (edKey kid x)"
  by (simp add: edKey_def nullish_def)

lemma jwkSignatureAlg_edKey [simp]: "jwkSignatureAlg (edKey kid x) = Inr (js ''EdDSA'')"
  by (simp add: jwkSignatureAlg_def getp_def SIGNING_ALGS_def isAlgConsistentWithKey_def isStr_def)

lemma isSigningUse_edKey [simp]: "isSigningUse (edKey kid x) = Inr True"
  by (simp add: isSigningUse_def getp_def)

theorem currentDraft01SigningKey_sound_witness:
  "filter (\<lambda>k. isSigningUse k = Inr True) (jwks_keys \<lparr>jwks_keys = [edKey [107] [120]]\<rparr>) = [edKey [107] [120]]"
  using currentDraft01SigningKey_sound [of "\<lparr>jwks_keys = [edKey [107] [120]]\<rparr>" "edKey [107] [120]"]
  by (simp add: currentDraft01SigningKey_def DRAFT01_SIGNING_ALGS_def)

theorem verifyWithKey_sound_witness:
  "\<exists>alg algorithm. jwkSignatureAlg rsaKey = Inr alg \<and> algBinding rsaKey alg \<and>
     subtleVerify exampleCrypto algorithm rsaKey [1, 2] [1, 2] = Some True"
proof -
  have "verifyWithKey exampleCrypto (Inr [1, 2]) [1, 2] rsaKey None"
    by (simp add: verifyWithKey_def exampleCrypto_def rsaKey_def jwkSignatureAlg_def getp_def nullish_def
        lookupProp_def isStr_def SIGNING_ALGS_def isAlgConsistentWithKey_def publicKeyEncodingValid_def
        getVerifyAlgorithm_def)
  from verifyWithKey_sound [OF this] show ?thesis by auto
qed

text \<open>
  C18. Key separation: when \<open>keySetsShareKeyMaterial\<close> answers no, no key of one set has the
  RFC 7638 thumbprint of a key of the other; when it answers yes, some pair has.
\<close>

theorem keySetsShareKeyMaterial_iff:
  assumes "keySetsShareKeyMaterial C a b = Inr shared"
  shows "shared \<longleftrightarrow> (\<exists>k \<in> set (jwks_keys a). \<exists>l \<in> set (jwks_keys b). \<exists>t.
    joseThumbprint C k = Inr t \<and> joseThumbprint C l = Inr t)"
proof (cases "jwks_keys a = [] \<or> jwks_keys b = []")
  case True
  with assms show ?thesis by (auto simp: keySetsShareKeyMaterial_def)
next
  case False
  with assms obtain ta tb where ta: "mapE (safeThumbprint C) (jwks_keys a) = Inr ta"
    and tb: "mapE (safeThumbprint C) (jwks_keys b) = Inr tb"
    and sh: "shared \<longleftrightarrow> (\<exists>t \<in> set tb. t \<in> set ta)"
    by (auto simp: keySetsShareKeyMaterial_def result_simps)
  have safe: "safeThumbprint C k = Inr t \<longleftrightarrow> joseThumbprint C k = Inr t" for k t
    by (auto simp: safeThumbprint_def result_simps)
  have mem: "t \<in> set ts \<longleftrightarrow> (\<exists>k \<in> set ks. joseThumbprint C k = Inr t)"
    if "mapE (safeThumbprint C) ks = Inr ts" for ks ts t
    using that unfolding mapE_eq_Inr safe
    by (induction rule: list_all2_induct) auto
  show ?thesis using sh mem [OF ta] mem [OF tb] by metis
qed

theorem keySetsShareKeyMaterial_iff_witness:
  "\<not> (\<exists>k \<in> {edKey [1] [10]}. \<exists>l \<in> {edKey [1] [20]}. \<exists>t.
     joseThumbprint exampleCrypto k = Inr t \<and> joseThumbprint exampleCrypto l = Inr t)"
  using keySetsShareKeyMaterial_iff [of exampleCrypto "\<lparr>jwks_keys = [edKey [1] [10]]\<rparr>"
      "\<lparr>jwks_keys = [edKey [1] [20]]\<rparr>" False]
  by (simp add: keySetsShareKeyMaterial_def safeThumbprint_def exampleCrypto_def)

end
