(* ===== verification/AgentStatus.thy ===== *)
theory AgentStatus
  imports Json
begin

text \<open>
  The status document of an agent (\<open>protocol/src/agent-status.ts\<close>): the states and revocation
  reasons, and the validation of the JSON document fetched from the \<open>su\<close> endpoint.
\<close>

datatype AgentStatusState = PENDING | PROVISIONING | VERIFYING | ACTIVE | RETIRED | REVOKED

datatype RevocationReason = KeyCompromise | PolicyViolation | Superseded | CessationOfOperation

record AgentStatus =
  as_state :: AgentStatusState
  as_lastTransitionAt :: date
  as_revocationReason :: "RevocationReason option"

text \<open>The string constants of the two types.\<close>

definition VALID_STATES :: "(jstring \<times> AgentStatusState) list" where
  "VALID_STATES = [(js ''PENDING'', PENDING), (js ''PROVISIONING'', PROVISIONING),
     (js ''VERIFYING'', VERIFYING), (js ''ACTIVE'', ACTIVE), (js ''RETIRED'', RETIRED),
     (js ''REVOKED'', REVOKED)]"

definition VALID_REVOCATION_REASONS :: "(jstring \<times> RevocationReason) list" where
  "VALID_REVOCATION_REASONS = [(js ''keyCompromise'', KeyCompromise),
     (js ''policyViolation'', PolicyViolation), (js ''superseded'', Superseded),
     (js ''cessationOfOperation'', CessationOfOperation)]"

text \<open>\<open>new Date('0001-01-01T00:00:00Z').getTime()\<close>.\<close>

definition ZERO_TIMESTAMP_MS :: int where
  "ZERO_TIMESTAMP_MS = -62135596800000"

definition activeStatusDocument :: "date \<Rightarrow> AgentStatus" where
  "activeStatusDocument lastTransitionAt =
     \<lparr>as_state = ACTIVE, as_lastTransitionAt = lastTransitionAt, as_revocationReason = None\<rparr>"

definition normalizeStatusState :: "json \<Rightarrow> AgentStatusState option" where
  "normalizeStatusState value = (case value of JStr s \<Rightarrow> map_of VALID_STATES s | _ \<Rightarrow> None)"

definition normalizeRevocationReason :: "platform \<Rightarrow> json \<Rightarrow> RevocationReason option" where
  "normalizeRevocationReason P value =
     (if nullish value \<or> value = JStr [] then None
      else map_of VALID_REVOCATION_REASONS (toStr P value))"

definition validateAgentStatus :: "platform \<Rightarrow> json \<Rightarrow> js_error + AgentStatus" where
  "validateAgentStatus P data =
     (if \<not> isObjectType data \<or> data = JNull
        then Inl (ValidationError ''status response is not a JSON object'')
      else case normalizeStatusState (propOf data ''state'') of
        None \<Rightarrow> Inl (ValidationError ''unknown agent status state'')
      | Some state \<Rightarrow>
          if \<not> truthy (propOf data ''lastTransitionAt'')
            then Inl (ValidationError ''lastTransitionAt is required'')
          else let lastTransitionAt = newDate P (propOf data ''lastTransitionAt'') in
            if lastTransitionAt = None \<or> lastTransitionAt = Some ZERO_TIMESTAMP_MS
              then Inl (ValidationError ''lastTransitionAt is not a valid date'')
            else
              let revocationReason = normalizeRevocationReason P (propOf data ''revocationReason'') in
              if state = REVOKED \<and> revocationReason = None
                then Inl (ValidationError ''valid revocationReason is required when status is REVOKED'')
              else Inr \<lparr>as_state = state, as_lastTransitionAt = lastTransitionAt,
                        as_revocationReason = revocationReason\<rparr>)"

section \<open>Validated documents\<close>

text \<open>What holds of every validated status document.\<close>

definition wfStatus :: "AgentStatus \<Rightarrow> bool" where
  "wfStatus s \<longleftrightarrow> as_lastTransitionAt s \<noteq> None \<and>
     (as_state s = REVOKED \<longrightarrow> as_revocationReason s \<noteq> None)"

lemma validateAgentStatus_wf:
  "validateAgentStatus P data = Inr s \<Longrightarrow>
   wfStatus s \<and> (\<exists>name. propOf data ''state'' = JStr name \<and> map_of VALID_STATES name = Some (as_state s))"
  by (auto simp: validateAgentStatus_def wfStatus_def normalizeStatusState_def Let_def
      split: if_splits option.splits json.splits)

text \<open>The document is active exactly when it says so with the exact string.\<close>

lemma validateAgentStatus_active:
  "validateAgentStatus P data = Inr s \<Longrightarrow> as_state s = ACTIVE \<longleftrightarrow> propOf data ''state'' = JStr (js ''ACTIVE'')"
  using validateAgentStatus_wf [of P data s]
  by (auto simp: VALID_STATES_def split: if_splits)

end
