(* ===== verification/Lifecycle.thy ===== *)
theory Lifecycle
  imports AgentStatus Base64
begin

text \<open>
  Lifecycle events (\<open>protocol/src/log-events.ts\<close>) and the state of an identity at a point in time
  (\<open>DomainLog.snapshotAt\<close> in \<open>protocol/src/verified-domain.ts\<close>). The loop of \<open>snapshotAt\<close> is
  related to an inductive step relation on lifecycle states: the specification of which events
  may follow which, and what they do to the active key.
\<close>

section \<open>Events\<close>

record BaseLogEvent =
  ev_signingKid :: "jstring option"
  ev_sig :: "jstring option"
  ev_operationalCountersig :: "jstring option"
  ev_newOperationalProof :: "jstring option"

record IssuanceKeySlot =
  ks_jwk :: json
  ks_thumbprint :: jstring
  ks_kid :: "jstring option"
  ks_alg :: jstring

record IssuanceEvent = BaseLogEvent +
  ie_domain :: jstring
  ie_governanceId :: jstring
  ie_initialOperationalKid :: "jstring option"
  ie_initialOperationalAlg :: "jstring option"
  ie_initialOperationalPublicKey :: json
  ie_initialOperationalThumbprint :: "jstring option"
  ie_initialEntityKid :: "jstring option"
  ie_initialEntityAlg :: "jstring option"
  ie_initialEntityPublicKey :: json
  ie_initialEntityThumbprint :: "jstring option"
  ie_timestamp :: date
  ie_entityKey :: "IssuanceKeySlot option"
  ie_operationalKey :: "IssuanceKeySlot option"
  ie_entitySig :: "jstring option"
  ie_operationalSig :: "jstring option"
  ie_kid :: "jstring option"
  ie_publicKey :: json
  ie_thumbprint :: "jstring option"

record KeyRotationEvent = BaseLogEvent +
  kr_domain :: jstring
  kr_previousOperationalKid :: jstring
  kr_previousOperationalThumbprint :: jstring
  kr_newOperationalKid :: jstring
  kr_newOperationalAlg :: jstring
  kr_newOperationalThumbprint :: jstring
  kr_newOperationalPublicKey :: json
  kr_timestamp :: date

record RevocationEvent = BaseLogEvent +
  rv_domain :: jstring
  rv_timestamp :: date
  rv_reason :: jstring

record RetirementEvent = BaseLogEvent +
  rt_domain :: jstring
  rt_timestamp :: date

record MigrationEvent = BaseLogEvent +
  mg_domain :: jstring
  mg_previousLog :: jstring
  mg_newLog :: jstring
  mg_finalEntryRef :: jstring
  mg_timestamp :: date

record DelegationEvent = BaseLogEvent +
  dg_domain :: jstring
  dg_delegatee :: jstring
  dg_scope :: jstring
  dg_expiry :: date
  dg_timestamp :: date

text \<open>The last case is an object whose \<open>type\<close> is none of the union's.\<close>

datatype LogEvent =
    ISSUANCE IssuanceEvent
  | KEY_ROTATION KeyRotationEvent
  | REVOCATION RevocationEvent
  | RETIREMENT RetirementEvent
  | MIGRATION MigrationEvent
  | DELEGATION DelegationEvent
  | UnsupportedEvent jstring date

fun eventDomain :: "LogEvent \<Rightarrow> jstring" where
  "eventDomain (ISSUANCE e) = ie_domain e"
| "eventDomain (KEY_ROTATION e) = kr_domain e"
| "eventDomain (REVOCATION e) = rv_domain e"
| "eventDomain (RETIREMENT e) = rt_domain e"
| "eventDomain (MIGRATION e) = mg_domain e"
| "eventDomain (DELEGATION e) = dg_domain e"
| "eventDomain (UnsupportedEvent d t) = d"

fun eventTimestamp :: "LogEvent \<Rightarrow> date" where
  "eventTimestamp (ISSUANCE e) = ie_timestamp e"
| "eventTimestamp (KEY_ROTATION e) = kr_timestamp e"
| "eventTimestamp (REVOCATION e) = rv_timestamp e"
| "eventTimestamp (RETIREMENT e) = rt_timestamp e"
| "eventTimestamp (MIGRATION e) = mg_timestamp e"
| "eventTimestamp (DELEGATION e) = dg_timestamp e"
| "eventTimestamp (UnsupportedEvent d t) = t"

section \<open>Keys of the lifecycle\<close>

definition lifecycleError :: "string \<Rightarrow> LifecycleErrorCategory \<Rightarrow> js_error" where
  "lifecycleError message cat = failCategory message LogError cat"

text \<open>\<open>JSON.stringify\<close> of an object with string members.\<close>

definition stringifyMaterial :: "(string \<times> jstring) list \<Rightarrow> jstring" where
  "stringifyMaterial ms =
     123 # join [44] (map (\<lambda>(k, v). quoteJson (js k) @ 58 # quoteJson v) ms) @ [125]"

fun strings :: "(string \<times> json) list \<Rightarrow> (string \<times> jstring) list option" where
  "strings [] = Some []"
| "strings ((k, v) # ms) =
     (case v of JStr s \<Rightarrow> if s = [] then None else map_option (Cons (k, s)) (strings ms) | _ \<Rightarrow> None)"

definition jwkMaterial :: "json \<Rightarrow> (string \<times> json) list option" where
  "jwkMaterial key =
     (if isStr (propOf key ''kty'') ''EC'' then
        Some [(''crv'', propOf key ''crv''), (''kty'', propOf key ''kty''), (''x'', propOf key ''x''), (''y'', propOf key ''y'')]
      else if isStr (propOf key ''kty'') ''OKP'' then
        Some [(''crv'', propOf key ''crv''), (''kty'', propOf key ''kty''), (''x'', propOf key ''x'')]
      else if isStr (propOf key ''kty'') ''RSA'' then
        Some [(''e'', propOf key ''e''), (''kty'', propOf key ''kty''), (''n'', propOf key ''n'')]
      else None)"

definition synchronousJwkThumbprint ::
    "(bytes \<Rightarrow> bytes) \<Rightarrow> json \<Rightarrow> LifecycleErrorCategory \<Rightarrow> js_error + jstring" where
  "synchronousJwkThumbprint H key cat =
     (case jwkMaterial key of
        None \<Rightarrow> Inl (lifecycleError ''unsupported lifecycle JWK type'' cat)
      | Some material \<Rightarrow>
          (case strings material of
             None \<Rightarrow> Inl (lifecycleError ''lifecycle JWK is missing public key material'' cat)
           | Some ms \<Rightarrow> Inr (toBase64Url (H (utf8 (stringifyMaterial ms))))))"

definition sameJwkMaterial :: "json \<Rightarrow> json \<Rightarrow> bool" where
  "sameJwkMaterial a b =
     (let eq = (\<lambda>k. strictEq (propOf a k) (propOf b k)) in
      if \<not> eq ''kty'' then False
      else if isStr (propOf a ''kty'') ''EC'' then eq ''crv'' \<and> eq ''x'' \<and> eq ''y''
      else if isStr (propOf a ''kty'') ''OKP'' then eq ''crv'' \<and> eq ''x''
      else if isStr (propOf a ''kty'') ''RSA'' then eq ''n'' \<and> eq ''e''
      else if isStr (propOf a ''kty'') ''oct'' then (\<exists>k. propOf a ''k'' = JStr k) \<and> eq ''k''
      else False)"

section \<open>Snapshots\<close>

definition REVOCATION_REASONS :: "jstring list" where
  "REVOCATION_REASONS = map js [''keyCompromise'', ''policyViolation'', ''superseded'', ''cessationOfOperation'']"

text \<open>The variables of the loop; \<open>lc_state = None\<close> is the empty string.\<close>

record LifecycleState =
  lc_state :: "AgentStatusState option"
  lc_activeKey :: json
  lc_activeKeyThumbprint :: jstring
  lc_keyBoundAt :: date
  lc_governanceId :: jstring

definition initialState :: LifecycleState where
  "initialState = \<lparr>lc_state = None, lc_activeKey = JNull, lc_activeKeyThumbprint = [],
     lc_keyBoundAt = Some 0, lc_governanceId = []\<rparr>"

text \<open>\<open>a ?? b\<close> on values and on optional strings.\<close>

definition orElse :: "json \<Rightarrow> json \<Rightarrow> json" where
  "orElse a b = (if nullish a then b else a)"

fun orElseS :: "jstring option \<Rightarrow> jstring option \<Rightarrow> jstring option" where
  "orElseS (Some s) t = Some s"
| "orElseS None t = t"

definition slotJwk :: "IssuanceKeySlot option \<Rightarrow> json" where
  "slotJwk s = (case s of None \<Rightarrow> JUndef | Some k \<Rightarrow> ks_jwk k)"

definition issuanceEntityKey :: "IssuanceEvent \<Rightarrow> json" where
  "issuanceEntityKey e = orElse (slotJwk (ie_entityKey e)) (orElse (ie_initialEntityPublicKey e) JNull)"

definition issuanceEntityThumbprint :: "IssuanceEvent \<Rightarrow> jstring" where
  "issuanceEntityThumbprint e =
     (case orElseS (map_option ks_thumbprint (ie_entityKey e)) (ie_initialEntityThumbprint e) of
        None \<Rightarrow> [] | Some t \<Rightarrow> t)"

definition issuanceOperationalKey :: "IssuanceEvent \<Rightarrow> json" where
  "issuanceOperationalKey e =
     orElse (slotJwk (ie_operationalKey e))
       (orElse (ie_initialOperationalPublicKey e) (orElse (ie_publicKey e) JNull))"

definition issuanceOperationalThumbprint :: "IssuanceEvent \<Rightarrow> jstring" where
  "issuanceOperationalThumbprint e =
     (case orElseS (map_option ks_thumbprint (ie_operationalKey e))
             (orElseS (ie_initialOperationalThumbprint e) (ie_thumbprint e)) of
        None \<Rightarrow> [] | Some t \<Rightarrow> t)"

text \<open>The \<open>ISSUANCE\<close> case: the two keys, their thumbprints, and their separation.\<close>

definition applyIssuance ::
    "(bytes \<Rightarrow> bytes) \<Rightarrow> LifecycleState \<Rightarrow> IssuanceEvent \<Rightarrow> js_error + LifecycleState" where
  "applyIssuance H s e =
     (let entityKey = issuanceEntityKey e; entityThumbprint = issuanceEntityThumbprint e;
          activeKey = issuanceOperationalKey e; activeThumbprint = issuanceOperationalThumbprint e;
          invalid = lifecycleError ''ISSUANCE key binding is invalid'' INVALID_ISSUANCE
      in
      if \<not> truthy entityKey \<or> \<not> truthy activeKey \<or> entityThumbprint = [] \<or> activeThumbprint = []
        then Inl invalid
      else
        bindE (synchronousJwkThumbprint H entityKey INVALID_ISSUANCE) (\<lambda>te.
        if entityThumbprint \<noteq> te then Inl invalid else
        bindE (synchronousJwkThumbprint H activeKey INVALID_ISSUANCE) (\<lambda>ta.
        if activeThumbprint \<noteq> ta \<or> entityThumbprint = activeThumbprint \<or> sameJwkMaterial entityKey activeKey
          then Inl invalid
        else Inr (s\<lparr>lc_state := Some ACTIVE, lc_activeKey := activeKey,
                    lc_activeKeyThumbprint := activeThumbprint, lc_keyBoundAt := ie_timestamp e,
                    lc_governanceId := ie_governanceId e\<rparr>))))"

definition applyRotation ::
    "(bytes \<Rightarrow> bytes) \<Rightarrow> LifecycleState \<Rightarrow> KeyRotationEvent \<Rightarrow> js_error + LifecycleState" where
  "applyRotation H s e =
     (let newKey = kr_newOperationalPublicKey e; newThumbprint = kr_newOperationalThumbprint e;
          invalid = lifecycleError ''KEY_ROTATION new key is invalid'' KEY_CONTINUITY
      in
      if lc_state s \<noteq> Some ACTIVE
        then Inl (lifecycleError ''KEY_ROTATION outside an ACTIVE issuance'' KEY_CONTINUITY)
      else if kr_previousOperationalThumbprint e \<noteq> lc_activeKeyThumbprint s
        then Inl (lifecycleError ''KEY_ROTATION does not continue from the active key'' KEY_CONTINUITY)
      else if \<not> truthy newKey \<or> newThumbprint = [] then Inl invalid
      else
        bindE (synchronousJwkThumbprint H newKey KEY_CONTINUITY) (\<lambda>tn.
        if newThumbprint \<noteq> tn \<or> newThumbprint = lc_activeKeyThumbprint s \<or>
           truthy (lc_activeKey s) \<and> sameJwkMaterial (lc_activeKey s) newKey
          then Inl invalid
        else Inr (s\<lparr>lc_activeKey := newKey, lc_activeKeyThumbprint := newThumbprint,
                    lc_keyBoundAt := kr_timestamp e\<rparr>)))"

text \<open>The state checks before the \<open>switch\<close> and its cases.\<close>

definition isIssuance :: "LogEvent \<Rightarrow> bool" where
  "isIssuance e = (case e of ISSUANCE _ \<Rightarrow> True | _ \<Rightarrow> False)"

definition applyEvent ::
    "(bytes \<Rightarrow> bytes) \<Rightarrow> LifecycleState \<Rightarrow> LogEvent \<Rightarrow> js_error + LifecycleState" where
  "applyEvent H s e =
     (if lc_state s = None \<and> \<not> isIssuance e
        then Inl (lifecycleError ''first lifecycle event must be ISSUANCE'' GENESIS_REQUIRED)
      else if lc_state s = Some REVOKED \<or> lc_state s = Some RETIRED
        then Inl (lifecycleError ''event after terminal identity state'' TERMINAL_STATE)
      else case e of
        ISSUANCE i \<Rightarrow>
          if lc_state s \<noteq> None
            then Inl (lifecycleError ''duplicate ISSUANCE in one identity history'' DUPLICATE_ISSUANCE)
          else applyIssuance H s i
      | KEY_ROTATION r \<Rightarrow> applyRotation H s r
      | REVOCATION r \<Rightarrow>
          if lc_state s \<noteq> Some ACTIVE then Inl (failWith ''REVOCATION outside an ACTIVE issuance'' LogError)
          else if rv_reason r \<notin> set REVOCATION_REASONS
            then Inl (lifecycleError ''invalid REVOCATION reason'' INVALID_REVOCATION_REASON)
          else Inr (s\<lparr>lc_state := Some REVOKED\<rparr>)
      | RETIREMENT r \<Rightarrow>
          if lc_state s \<noteq> Some ACTIVE then Inl (failWith ''RETIREMENT outside an ACTIVE issuance'' LogError)
          else Inr (s\<lparr>lc_state := Some RETIRED\<rparr>)
      | MIGRATION m \<Rightarrow>
          if lc_state s \<noteq> Some ACTIVE \<or> mg_previousLog m = [] \<or> mg_newLog m = [] \<or>
             mg_previousLog m = mg_newLog m \<or> mg_finalEntryRef m = []
            then Inl (lifecycleError ''invalid MIGRATION'' INVALID_MIGRATION)
          else Inr s
      | DELEGATION d \<Rightarrow>
          if lc_state s \<noteq> Some ACTIVE then Inl (failWith ''DELEGATION outside an ACTIVE issuance'' LogError)
          else Inr s
      | UnsupportedEvent d t \<Rightarrow>
          Inl (lifecycleError ''unsupported lifecycle event type'' UNSUPPORTED_EVENT))"

text \<open>\<open>a > b\<close> on dates: false when either is invalid.\<close>

definition dateAfter :: "date \<Rightarrow> date \<Rightarrow> bool" where
  "dateAfter a b = (case (a, b) of (Some x, Some y) \<Rightarrow> x > y | _ \<Rightarrow> False)"

text \<open>The body of the loop: the lifecycle state, the events taken so far, and the boundary flag.\<close>

definition snapshotStep ::
    "(bytes \<Rightarrow> bytes) \<Rightarrow> jstring \<Rightarrow> date \<Rightarrow> LifecycleState \<times> LogEvent list \<times> bool \<Rightarrow> LogEvent
      \<Rightarrow> js_error + LifecycleState \<times> LogEvent list \<times> bool" where
  "snapshotStep H domain at' v event =
     (case v of (s, eventsUpTo, past) \<Rightarrow>
      if eventDomain event \<noteq> domain
        then Inl (lifecycleError ''lifecycle event domain mismatch'' DOMAIN_MISMATCH)
      else if eventTimestamp event = None
        then Inl (lifecycleError ''invalid lifecycle timestamp'' INVALID_EVIDENCE)
      else if dateAfter (eventTimestamp event) at' then Inr (s, eventsUpTo, True)
      else if past
        then Inl (lifecycleError ''snapshot time is not a verified lifecycle prefix'' SNAPSHOT_NON_PREFIX)
      else bindE (applyEvent H s event) (\<lambda>s'. Inr (s', eventsUpTo @ [event], False)))"

record DomainSnapshot =
  ds_domain :: jstring
  ds_historicalState :: AgentStatusState
  ds_activeKey :: json
  ds_activeKeyThumbprint :: jstring
  ds_keyBoundAt :: date
  ds_governanceId :: jstring
  ds_snapshotAt :: date
  ds_events :: "LogEvent list"

record DomainLog =
  dl_domain :: jstring
  dl_events :: "LogEvent list"

text \<open>An empty snapshot is reported with \<open>at.toISOString()\<close>, which raises on an invalid date.\<close>

definition emptySnapshot :: "string \<Rightarrow> date \<Rightarrow> js_error" where
  "emptySnapshot message at' =
     (if at' = None then JsRangeError ''Invalid time value'' else lifecycleError message SNAPSHOT_EMPTY)"

definition snapshotAt :: "(bytes \<Rightarrow> bytes) \<Rightarrow> DomainLog \<Rightarrow> date \<Rightarrow> js_error + DomainSnapshot" where
  "snapshotAt H dlog at' =
     (if dl_events dlog = [] then Inl (emptySnapshot ''no lifecycle events'' at')
      else
        bindE (foldE (snapshotStep H (dl_domain dlog) at') (initialState, [], False) (dl_events dlog))
          (\<lambda>(s, eventsUpTo, _).
           case lc_state s of
             None \<Rightarrow> Inl (emptySnapshot ''no ISSUANCE event found'' at')
           | Some st \<Rightarrow>
               if \<not> truthy (lc_activeKey s) then Inl (emptySnapshot ''no ISSUANCE event found'' at')
               else Inr \<lparr>ds_domain = dl_domain dlog, ds_historicalState = st,
                         ds_activeKey = lc_activeKey s,
                         ds_activeKeyThumbprint = lc_activeKeyThumbprint s,
                         ds_keyBoundAt = lc_keyBoundAt s, ds_governanceId = lc_governanceId s,
                         ds_snapshotAt = at', ds_events = eventsUpTo\<rparr>))"

section \<open>The lifecycle as a step relation\<close>

text \<open>A key bound to a thumbprint: the thumbprint is the key's own.\<close>

definition boundKey :: "(bytes \<Rightarrow> bytes) \<Rightarrow> json \<Rightarrow> jstring \<Rightarrow> bool" where
  "boundKey H key t \<longleftrightarrow>
     truthy key \<and> t \<noteq> [] \<and> (\<exists>ms m. jwkMaterial key = Some m \<and> strings m = Some ms \<and>
       t = toBase64Url (H (utf8 (stringifyMaterial ms))))"

lemma synchronousJwkThumbprint_bound:
  "truthy key \<Longrightarrow> t \<noteq> [] \<Longrightarrow> synchronousJwkThumbprint H key cat = Inr t \<longleftrightarrow> boundKey H key t"
  by (auto simp: synchronousJwkThumbprint_def boundKey_def split: option.splits)

inductive lifecycle :: "(bytes \<Rightarrow> bytes) \<Rightarrow> LifecycleState \<Rightarrow> LogEvent \<Rightarrow> LifecycleState \<Rightarrow> bool"
  for H where
  issue: "lc_state s = None \<Longrightarrow>
    boundKey H (issuanceEntityKey e) (issuanceEntityThumbprint e) \<Longrightarrow>
    boundKey H (issuanceOperationalKey e) (issuanceOperationalThumbprint e) \<Longrightarrow>
    issuanceEntityThumbprint e \<noteq> issuanceOperationalThumbprint e \<Longrightarrow>
    \<not> sameJwkMaterial (issuanceEntityKey e) (issuanceOperationalKey e) \<Longrightarrow>
    lifecycle H s (ISSUANCE e)
      (s\<lparr>lc_state := Some ACTIVE, lc_activeKey := issuanceOperationalKey e,
         lc_activeKeyThumbprint := issuanceOperationalThumbprint e,
         lc_keyBoundAt := ie_timestamp e, lc_governanceId := ie_governanceId e\<rparr>)"
| rotate: "lc_state s = Some ACTIVE \<Longrightarrow>
    kr_previousOperationalThumbprint e = lc_activeKeyThumbprint s \<Longrightarrow>
    boundKey H (kr_newOperationalPublicKey e) (kr_newOperationalThumbprint e) \<Longrightarrow>
    kr_newOperationalThumbprint e \<noteq> lc_activeKeyThumbprint s \<Longrightarrow>
    \<not> (truthy (lc_activeKey s) \<and> sameJwkMaterial (lc_activeKey s) (kr_newOperationalPublicKey e)) \<Longrightarrow>
    lifecycle H s (KEY_ROTATION e)
      (s\<lparr>lc_activeKey := kr_newOperationalPublicKey e,
         lc_activeKeyThumbprint := kr_newOperationalThumbprint e, lc_keyBoundAt := kr_timestamp e\<rparr>)"
| revoke: "lc_state s = Some ACTIVE \<Longrightarrow> rv_reason e \<in> set REVOCATION_REASONS \<Longrightarrow>
    lifecycle H s (REVOCATION e) (s\<lparr>lc_state := Some REVOKED\<rparr>)"
| retire: "lc_state s = Some ACTIVE \<Longrightarrow>
    lifecycle H s (RETIREMENT e) (s\<lparr>lc_state := Some RETIRED\<rparr>)"
| migrate: "lc_state s = Some ACTIVE \<Longrightarrow> mg_previousLog e \<noteq> [] \<Longrightarrow> mg_newLog e \<noteq> [] \<Longrightarrow>
    mg_previousLog e \<noteq> mg_newLog e \<Longrightarrow> mg_finalEntryRef e \<noteq> [] \<Longrightarrow>
    lifecycle H s (MIGRATION e) s"
| delegate: "lc_state s = Some ACTIVE \<Longrightarrow> lifecycle H s (DELEGATION e) s"

inductive_simps lifecycle_simps [simp]:
  "lifecycle H s (ISSUANCE e) s'" "lifecycle H s (KEY_ROTATION e) s'" "lifecycle H s (REVOCATION e) s'"
  "lifecycle H s (RETIREMENT e) s'" "lifecycle H s (MIGRATION e) s'" "lifecycle H s (DELEGATION e) s'"
  "lifecycle H s (UnsupportedEvent d t) s'"

text \<open>A history: the events in order, each one a step.\<close>

inductive history :: "(bytes \<Rightarrow> bytes) \<Rightarrow> LifecycleState \<Rightarrow> LogEvent list \<Rightarrow> LifecycleState \<Rightarrow> bool"
  for H where
  history_Nil: "history H s [] s"
| history_snoc: "history H s es s' \<Longrightarrow> lifecycle H s' e s'' \<Longrightarrow> history H s (es @ [e]) s''"

inductive_simps history_Nil_iff [simp]: "history H s [] s'"

lemma history_snoc_iff: "history H s (es @ [e]) s'' \<longleftrightarrow> (\<exists>s'. history H s es s' \<and> lifecycle H s' e s'')"
  by (auto elim: history.cases intro: history_snoc)

lemma applyIssuance_iff:
  "lc_state s = None \<Longrightarrow> applyIssuance H s e = Inr s' \<longleftrightarrow> lifecycle H s (ISSUANCE e) s'"
  using synchronousJwkThumbprint_bound [of "issuanceEntityKey e" _ H INVALID_ISSUANCE]
    synchronousJwkThumbprint_bound [of "issuanceOperationalKey e" _ H INVALID_ISSUANCE]
  by (auto simp: applyIssuance_def Let_def result_simps boundKey_def split: if_splits)

lemma applyRotation_iff:
  "applyRotation H s e = Inr s' \<longleftrightarrow> lifecycle H s (KEY_ROTATION e) s'"
  using synchronousJwkThumbprint_bound [of "kr_newOperationalPublicKey e" _ H KEY_CONTINUITY]
  by (auto simp: applyRotation_def Let_def result_simps boundKey_def split: if_splits)

text \<open>The code's transition function implements exactly the step relation.\<close>

lemma applyEvent_iff: "applyEvent H s e = Inr s' \<longleftrightarrow> lifecycle H s e s'"
proof (cases e)
  case (ISSUANCE i)
  then show ?thesis
    by (cases "lc_state s = None")
      (simp_all add: applyEvent_def isIssuance_def applyIssuance_iff del: lifecycle_simps, simp)
next
  case (KEY_ROTATION r)
  then show ?thesis
    by (auto simp: applyEvent_def isIssuance_def applyRotation_iff)
qed (auto simp: applyEvent_def isIssuance_def)

lemma lifecycle_deterministic: "lifecycle H s e s' \<Longrightarrow> lifecycle H s e s'' \<Longrightarrow> s' = s''"
  unfolding applyEvent_iff [symmetric] by simp

lemma history_append:
  "history H s (es @ fs) s'' \<longleftrightarrow> (\<exists>s'. history H s es s' \<and> history H s' fs s'')"
proof (induction fs arbitrary: s'' rule: rev_induct)
  case (snoc f fs)
  have "history H s (es @ fs @ [f]) s'' \<longleftrightarrow> (\<exists>t. history H s (es @ fs) t \<and> lifecycle H t f s'')"
    using history_snoc_iff [of H s "es @ fs" f s''] by simp
  then show ?case unfolding snoc.IH history_snoc_iff by blast
qed simp

lemma history_Cons:
  "history H s (e # es) s'' \<longleftrightarrow> (\<exists>s'. lifecycle H s e s' \<and> history H s' es s'')"
  using history_append [of H s "[e]" es s''] history_snoc_iff [of H s "[]" e] by auto

lemma history_deterministic: "history H s es s' \<Longrightarrow> history H s es s'' \<Longrightarrow> s' = s''"
proof (induction es arbitrary: s)
  case (Cons e es)
  then show ?case unfolding history_Cons using lifecycle_deterministic by blast
qed simp

section \<open>Snapshots are prefixes of the history\<close>

definition notAfter :: "date \<Rightarrow> LogEvent \<Rightarrow> bool" where
  "notAfter at' e \<longleftrightarrow> \<not> dateAfter (eventTimestamp e) at'"

definition wfEvent :: "jstring \<Rightarrow> LogEvent \<Rightarrow> bool" where
  "wfEvent domain e \<longleftrightarrow> eventDomain e = domain \<and> eventTimestamp e \<noteq> None"

lemma snapshotStep_past:
  "foldE (snapshotStep H d at') (s, es, True) evs = Inr v \<longleftrightarrow>
     (\<forall>e \<in> set evs. wfEvent d e \<and> \<not> notAfter at' e) \<and> v = (s, es, True)"
  by (induction evs) (auto simp: snapshotStep_def wfEvent_def notAfter_def result_simps split: if_splits)

lemma snapshotStep_iff:
  "snapshotStep H d at' (s, es, False) e = Inr v \<longleftrightarrow>
     wfEvent d e \<and>
     (if notAfter at' e then \<exists>s'. lifecycle H s e s' \<and> v = (s', es @ [e], False) else v = (s, es, True))"
  by (auto simp: snapshotStep_def wfEvent_def notAfter_def result_simps applyEvent_iff split: if_splits)

lemma snapshotStep_history:
  "foldE (snapshotStep H d at') (s, es, False) evs = Inr (s', es', past) \<longleftrightarrow>
     (\<forall>e \<in> set evs. wfEvent d e) \<and> (\<forall>e \<in> set (dropWhile (notAfter at') evs). \<not> notAfter at' e) \<and>
     history H s (takeWhile (notAfter at') evs) s' \<and> es' = es @ takeWhile (notAfter at') evs \<and>
     past = (dropWhile (notAfter at') evs \<noteq> [])"
proof (induction evs arbitrary: s es)
  case (Cons e evs)
  show ?case
  proof (cases "notAfter at' e")
    case True
    have "foldE (snapshotStep H d at') (s, es, False) (e # evs) = Inr (s', es', past) \<longleftrightarrow>
        wfEvent d e \<and> (\<exists>t. lifecycle H s e t \<and>
          foldE (snapshotStep H d at') (t, es @ [e], False) evs = Inr (s', es', past))"
      using True by (auto simp: result_simps snapshotStep_iff)
    with True show ?thesis unfolding Cons.IH by (auto simp: history_Cons)
  next
    case False
    then show ?thesis by (auto simp: result_simps snapshotStep_iff snapshotStep_past)
  qed
qed auto

text \<open>The events that make a thumbprint that of the active key.\<close>

fun bindsKey :: "LogEvent \<Rightarrow> jstring \<Rightarrow> bool" where
  "bindsKey (ISSUANCE i) t = (issuanceOperationalThumbprint i = t)"
| "bindsKey (KEY_ROTATION r) t = (kr_newOperationalThumbprint r = t)"
| "bindsKey _ t = False"

text \<open>Every state of a history that has begun has a key bound to its thumbprint.\<close>

definition stateInv :: "(bytes \<Rightarrow> bytes) \<Rightarrow> LogEvent list \<Rightarrow> LifecycleState \<Rightarrow> bool" where
  "stateInv H es s \<longleftrightarrow>
     (case lc_state s of
        None \<Rightarrow> es = []
      | Some st \<Rightarrow>
          st \<in> {ACTIVE, REVOKED, RETIRED} \<and> boundKey H (lc_activeKey s) (lc_activeKeyThumbprint s) \<and>
          es \<noteq> [] \<and> (\<exists>i. hd es = ISSUANCE i \<and> lc_governanceId s = ie_governanceId i) \<and>
          (\<forall>e \<in> set (tl es). \<not> isIssuance e) \<and>
          (\<exists>e \<in> set es. eventTimestamp e = lc_keyBoundAt s \<and> bindsKey e (lc_activeKeyThumbprint s)))"

lemma stateInv_step:
  assumes "stateInv H es s" "lifecycle H s e s'"
  shows "stateInv H (es @ [e]) s'"
  using assms(2,1)
proof (cases rule: lifecycle.cases)
  case (issue i)
  with assms(1) show ?thesis by (auto simp: stateInv_def)
next
  case (rotate r)
  with assms(1) show ?thesis by (auto simp: stateInv_def isIssuance_def)
qed (use assms(1) in \<open>auto simp: stateInv_def isIssuance_def\<close>)

lemma history_stateInv: "history H initialState es s \<Longrightarrow> stateInv H es s"
proof (induction es arbitrary: s rule: rev_induct)
  case Nil
  then show ?case by (simp add: stateInv_def initialState_def)
next
  case (snoc e es)
  then show ?case unfolding history_snoc_iff using stateInv_step by blast
qed

lemma snapshotAt_iff:
  "snapshotAt H dlog at' = Inr snap \<longleftrightarrow>
     (\<forall>e \<in> set (dl_events dlog). wfEvent (dl_domain dlog) e) \<and>
     (\<forall>e \<in> set (dropWhile (notAfter at') (dl_events dlog)). \<not> notAfter at' e) \<and>
     (\<exists>s st. history H initialState (takeWhile (notAfter at') (dl_events dlog)) s \<and> lc_state s = Some st \<and>
        snap = \<lparr>ds_domain = dl_domain dlog, ds_historicalState = st, ds_activeKey = lc_activeKey s,
          ds_activeKeyThumbprint = lc_activeKeyThumbprint s, ds_keyBoundAt = lc_keyBoundAt s,
          ds_governanceId = lc_governanceId s, ds_snapshotAt = at',
          ds_events = takeWhile (notAfter at') (dl_events dlog)\<rparr>)"
  (is "?l \<longleftrightarrow> ?r")
proof -
  have key: "truthy (lc_activeKey s)"
    if "history H initialState es s" "lc_state s = Some st" for es s st
    using history_stateInv [OF that(1)] that(2) by (simp add: stateInv_def boundKey_def)
  show ?thesis
  proof (cases "dl_events dlog = []")
    case True
    then show ?thesis by (auto simp: snapshotAt_def initialState_def)
  next
    case False
    then have "?l \<longleftrightarrow> (\<exists>s es past st.
        foldE (snapshotStep H (dl_domain dlog) at') (initialState, [], False) (dl_events dlog) =
          Inr (s, es, past) \<and> lc_state s = Some st \<and> truthy (lc_activeKey s) \<and>
        snap = \<lparr>ds_domain = dl_domain dlog, ds_historicalState = st, ds_activeKey = lc_activeKey s,
          ds_activeKeyThumbprint = lc_activeKeyThumbprint s, ds_keyBoundAt = lc_keyBoundAt s,
          ds_governanceId = lc_governanceId s, ds_snapshotAt = at', ds_events = es\<rparr>)"
      by (auto simp: snapshotAt_def result_simps split: option.splits if_splits)
    then show ?thesis unfolding snapshotStep_history using key by auto
  qed
qed

text \<open>
  C29. \<open>snapshotAt\<close> refines the lifecycle relation: it returns a snapshot exactly when every event
  is of the domain and has a valid timestamp, the events not after the time form a prefix of the
  log, and that prefix is a history of the step relation that has begun; and the snapshot is then
  the state the history reaches.
\<close>

theorem snapshotAt_refines:
  "snapshotAt H dlog at' = Inr snap \<longleftrightarrow>
     list_all (wfEvent (dl_domain dlog)) (dl_events dlog) \<and>
     (\<exists>pre post s st. dl_events dlog = pre @ post \<and>
        list_all (notAfter at') pre \<and> list_all (\<lambda>e. \<not> notAfter at' e) post \<and>
        history H initialState pre s \<and> lc_state s = Some st \<and>
        snap = \<lparr>ds_domain = dl_domain dlog, ds_historicalState = st, ds_activeKey = lc_activeKey s,
          ds_activeKeyThumbprint = lc_activeKeyThumbprint s, ds_keyBoundAt = lc_keyBoundAt s,
          ds_governanceId = lc_governanceId s, ds_snapshotAt = at', ds_events = pre\<rparr>)"
proof -
  let ?evs = "dl_events dlog"
  have split: "takeWhile (notAfter at') ?evs = pre \<and> dropWhile (notAfter at') ?evs = post"
    if "?evs = pre @ post" "list_all (notAfter at') pre" "list_all (\<lambda>e. \<not> notAfter at' e) post"
    for pre post
  proof (cases post)
    case Nil
    with that show ?thesis by (auto simp: list_all_iff takeWhile_eq_all_conv dropWhile_eq_Nil_conv)
  next
    case (Cons e es)
    with that show ?thesis by (simp add: list_all_iff takeWhile_append2 dropWhile_append2)
  qed
  show ?thesis
    unfolding snapshotAt_iff
    apply (rule iffI)
     apply (metis list_all_iff set_takeWhileD takeWhile_dropWhile_id)
    using split apply (metis (no_types, lifting) list_all_iff)
    done
qed

text \<open>
  Every snapshot is well formed: its events are a prefix of the log, none after the snapshot
  time; the first is the only ISSUANCE and gives the governance domain; the state is ACTIVE,
  REVOKED or RETIRED; the active key has the recorded thumbprint, and the time it was bound is
  the time of an event of the prefix that bound it.
\<close>

theorem snapshotAt_wf:
  assumes "snapshotAt H dlog at' = Inr snap"
  shows "(\<exists>post. dl_events dlog = ds_events snap @ post) \<and>
    (\<exists>i rest. ds_events snap = ISSUANCE i # rest \<and> ds_governanceId snap = ie_governanceId i \<and>
       list_all (\<lambda>e. \<not> isIssuance e) rest) \<and>
    list_all (notAfter at') (ds_events snap) \<and>
    ds_historicalState snap \<in> {ACTIVE, REVOKED, RETIRED} \<and>
    boundKey H (ds_activeKey snap) (ds_activeKeyThumbprint snap) \<and>
    (\<exists>e \<in> set (ds_events snap). eventTimestamp e = ds_keyBoundAt snap \<and>
       bindsKey e (ds_activeKeyThumbprint snap))"
proof -
  from assms obtain s st where run: "history H initialState (takeWhile (notAfter at') (dl_events dlog)) s"
    and st: "lc_state s = Some st"
    and snap: "snap = \<lparr>ds_domain = dl_domain dlog, ds_historicalState = st, ds_activeKey = lc_activeKey s,
          ds_activeKeyThumbprint = lc_activeKeyThumbprint s, ds_keyBoundAt = lc_keyBoundAt s,
          ds_governanceId = lc_governanceId s, ds_snapshotAt = at',
          ds_events = takeWhile (notAfter at') (dl_events dlog)\<rparr>"
    unfolding snapshotAt_iff by blast
  note inv = history_stateInv [OF run, unfolded stateInv_def st option.case]
  have "\<exists>post. dl_events dlog = takeWhile (notAfter at') (dl_events dlog) @ post"
    by (metis takeWhile_dropWhile_id)
  moreover have "list_all (notAfter at') (takeWhile (notAfter at') (dl_events dlog))"
    by (auto simp: list_all_iff dest: set_takeWhileD)
  moreover have "\<exists>i rest. takeWhile (notAfter at') (dl_events dlog) = ISSUANCE i # rest \<and>
      lc_governanceId s = ie_governanceId i \<and> list_all (\<lambda>e. \<not> isIssuance e) rest"
    using inv by (cases "takeWhile (notAfter at') (dl_events dlog)") (auto simp: list_all_iff)
  ultimately show ?thesis using inv by (simp add: snap)
qed

lemma terminal_no_step:
  "lc_state s \<in> {Some REVOKED, Some RETIRED} \<Longrightarrow> history H s es s' \<Longrightarrow> es = [] \<and> s' = s"
proof (cases es)
  case (Cons e fs)
  moreover assume "lc_state s \<in> {Some REVOKED, Some RETIRED}" "history H s es s'"
  ultimately show ?thesis by (auto simp: history_Cons elim: lifecycle.cases)
qed simp

lemma takeWhile_mono_split:
  assumes "\<And>e. P e \<Longrightarrow> Q e"
  shows "\<exists>more. takeWhile Q xs = takeWhile P xs @ more"
proof (induction xs)
  case (Cons x xs)
  then show ?case using assms by (cases "P x") auto
qed simp

text \<open>
  Terminal states are final: if the identity is revoked or retired in the snapshot at some
  time, the snapshot at every later time at which there is one reports the same state, key and
  events; no later event reactivates it.
\<close>

theorem snapshotAt_terminal:
  assumes "snapshotAt H dlog (Some t) = Inr snap" and "snapshotAt H dlog (Some t') = Inr snap'"
    and "t \<le> t'" and "ds_historicalState snap \<in> {REVOKED, RETIRED}"
  shows "ds_historicalState snap' = ds_historicalState snap \<and> ds_events snap' = ds_events snap \<and>
    ds_activeKeyThumbprint snap' = ds_activeKeyThumbprint snap"
proof -
  let ?evs = "dl_events dlog"
  from assms(1) obtain s where run: "history H initialState (takeWhile (notAfter (Some t)) ?evs) s"
    and s: "lc_state s = Some (ds_historicalState snap)"
      "lc_activeKeyThumbprint s = ds_activeKeyThumbprint snap"
      "ds_events snap = takeWhile (notAfter (Some t)) ?evs"
    unfolding snapshotAt_iff by auto
  from assms(2) obtain s' where run': "history H initialState (takeWhile (notAfter (Some t')) ?evs) s'"
    and s': "lc_state s' = Some (ds_historicalState snap')"
      "lc_activeKeyThumbprint s' = ds_activeKeyThumbprint snap'"
      "ds_events snap' = takeWhile (notAfter (Some t')) ?evs"
    unfolding snapshotAt_iff by auto
  have mono: "notAfter (Some t) e \<Longrightarrow> notAfter (Some t') e" for e
    using assms(3) by (auto simp: notAfter_def dateAfter_def split: option.splits)
  obtain more where
    more: "takeWhile (notAfter (Some t')) ?evs = takeWhile (notAfter (Some t)) ?evs @ more"
    using takeWhile_mono_split [of "notAfter (Some t)" "notAfter (Some t')" ?evs, OF mono] by blast
  have "history H s more s'"
    using run' [unfolded more history_append] history_deterministic [OF run] by blast
  moreover have "lc_state s \<in> {Some REVOKED, Some RETIRED}" using s(1) assms(4) by auto
  ultimately have "more = []" "s' = s" using terminal_no_step by blast+
  with s s' more show ?thesis by simp
qed

section \<open>A concrete log\<close>

text \<open>An issuance with two Ed25519 keys, then a retirement.\<close>

definition okpKey :: "jstring \<Rightarrow> json" where
  "okpKey x = JObj [(js ''kty'', JStr (js ''OKP'')), (js ''crv'', JStr (js ''Ed25519'')), (js ''x'', JStr x)]"

definition countHash :: "bytes \<Rightarrow> bytes" where
  "countHash b = [sum_list b]"

definition okpThumbprint :: "jstring \<Rightarrow> jstring" where
  "okpThumbprint x = toBase64Url (countHash (utf8 (stringifyMaterial
     [(''crv'', js ''Ed25519''), (''kty'', js ''OKP''), (''x'', x)])))"

definition exampleIssuance :: "int \<Rightarrow> LogEvent" where
  "exampleIssuance t = ISSUANCE \<lparr>ev_signingKid = None, ev_sig = None, ev_operationalCountersig = None,
     ev_newOperationalProof = None, ie_domain = js ''a.b'', ie_governanceId = js ''b'',
     ie_initialOperationalKid = None, ie_initialOperationalAlg = None,
     ie_initialOperationalPublicKey = okpKey (js ''o''),
     ie_initialOperationalThumbprint = Some (okpThumbprint (js ''o'')),
     ie_initialEntityKid = None, ie_initialEntityAlg = None,
     ie_initialEntityPublicKey = okpKey (js ''e''),
     ie_initialEntityThumbprint = Some (okpThumbprint (js ''e'')),
     ie_timestamp = Some t, ie_entityKey = None, ie_operationalKey = None, ie_entitySig = None,
     ie_operationalSig = None, ie_kid = None, ie_publicKey = JUndef, ie_thumbprint = None\<rparr>"

definition exampleRetirement :: "int \<Rightarrow> LogEvent" where
  "exampleRetirement t = RETIREMENT \<lparr>ev_signingKid = None, ev_sig = None,
     ev_operationalCountersig = None, ev_newOperationalProof = None, rt_domain = js ''a.b'',
     rt_timestamp = Some t\<rparr>"

definition exampleLog :: DomainLog where
  "exampleLog = \<lparr>dl_domain = js ''a.b'', dl_events = [exampleIssuance 10, exampleRetirement 20]\<rparr>"

lemma js_eq_Nil [simp]: "js s = [] \<longleftrightarrow> s = []"
  by (cases s) simp_all

lemma okpKey_bound [simp]:
  assumes "x \<noteq> []"
  shows "synchronousJwkThumbprint countHash (okpKey x) cat = Inr (okpThumbprint x)"
proof -
  have "jwkMaterial (okpKey x) = Some [(''crv'', JStr (js ''Ed25519'')), (''kty'', JStr (js ''OKP'')), (''x'', JStr x)]"
    by (simp add: jwkMaterial_def okpKey_def lookupProp_def isStr_def)
  with assms show ?thesis by (simp add: synchronousJwkThumbprint_def okpThumbprint_def del: js_Cons)
qed

lemma okpThumbprint_distinct:
  "okpThumbprint (js ''e'') \<noteq> okpThumbprint (js ''o'')" "okpThumbprint (js ''e'') \<noteq> []" "okpThumbprint (js ''o'') \<noteq> []"
proof -
  have "countHash (utf8 (stringifyMaterial [(''crv'', js ''Ed25519''), (''kty'', js ''OKP''), (''x'', js ''e'')])) \<noteq>
      countHash (utf8 (stringifyMaterial [(''crv'', js ''Ed25519''), (''kty'', js ''OKP''), (''x'', js ''o'')]))"
    by (simp add: countHash_def stringifyMaterial_def quoteJson_def quoteUnit_def utf8_def utf8CodePoint_def)
  then show "okpThumbprint (js ''e'') \<noteq> okpThumbprint (js ''o'')"
    unfolding okpThumbprint_def by (simp add: base64url.enc_eq_iff del: js_Cons)
  have "toBase64Url [b] \<noteq> []" for b
    using base64url.enc_eq_iff [of "[b]" "[]"] by (simp add: toBase64Url_def)
  then show "okpThumbprint (js ''e'') \<noteq> []" "okpThumbprint (js ''o'') \<noteq> []"
    by (simp_all add: okpThumbprint_def countHash_def del: js_Cons)
qed

lemma snapshotAt_example:
  "t \<ge> 20 \<Longrightarrow> snapshotAt countHash exampleLog (Some t) = Inr
     \<lparr>ds_domain = js ''a.b'', ds_historicalState = RETIRED, ds_activeKey = okpKey (js ''o''),
      ds_activeKeyThumbprint = okpThumbprint (js ''o''), ds_keyBoundAt = Some 10,
      ds_governanceId = js ''b'', ds_snapshotAt = Some t,
      ds_events = [exampleIssuance 10, exampleRetirement 20]\<rparr>"
proof -
  assume t: "t \<ge> 20"
  have same: "\<not> sameJwkMaterial (okpKey (js ''e'')) (okpKey (js ''o''))"
    by (simp add: sameJwkMaterial_def okpKey_def lookupProp_def isStr_def)
  have key: "truthy (okpKey x)" "\<not> nullish (okpKey x)" for x by (simp_all add: okpKey_def nullish_def)
  show ?thesis
    using t okpThumbprint_distinct same key
    by (simp add: snapshotAt_def exampleLog_def snapshotStep_def exampleIssuance_def
        exampleRetirement_def dateAfter_def applyEvent_def isIssuance_def initialState_def
        applyIssuance_def issuanceEntityKey_def issuanceEntityThumbprint_def
        issuanceOperationalKey_def issuanceOperationalThumbprint_def orElse_def slotJwk_def
        nullish_def Let_def del: js_Cons)
qed

theorem snapshotAt_wf_witness:
  "boundKey countHash (okpKey (js ''o'')) (okpThumbprint (js ''o''))"
  using snapshotAt_wf [OF snapshotAt_example [of 20]] by simp

theorem snapshotAt_terminal_witness:
  "\<exists>snap snap'. snapshotAt countHash exampleLog (Some 20) = Inr snap \<and>
     snapshotAt countHash exampleLog (Some 30) = Inr snap' \<and>
     ds_historicalState snap' = ds_historicalState snap \<and> ds_events snap' = ds_events snap"
  using snapshotAt_terminal [OF snapshotAt_example [of 20] snapshotAt_example [of 30]]
    snapshotAt_example [of 20] snapshotAt_example [of 30] by auto

end
