(* ===== verification/VerifiedDomain.thy ===== *)
theory VerifiedDomain
  imports TxtRecord Jwks Lifecycle "HOL-Library.AList"
begin

text \<open>
  The result of a verification (\<open>VerifiedDomain\<close> in \<open>protocol/src/verified-domain.ts\<close>), the log
  reader interface with its no-op implementation and the registry of readers
  (\<open>protocol/src/log.ts\<close>, \<open>protocol/src/log-registry.ts\<close>), and the cache of verified identities
  (\<open>protocol/src/identity-cache.ts\<close>). Clock readings are arguments.
\<close>

section \<open>Log readers\<close>

record TLSCertificate =
  tls_notAfter :: date
  tls_san :: "jstring list"

record LoggedStateEvidence =
  lse_logReference :: jstring
  lse_loggedState :: AgentStatusState
  lse_historyStart :: jstring
  lse_historyEnd :: "jstring option"
  lse_completeThrough :: jstring
  lse_completenessMode :: jstring
  lse_checkpoint :: bytes
  lse_freshnessTime :: date

record BilateralBinding =
  bb_initialOperationalThumbprint :: jstring
  bb_initialEntityThumbprint :: jstring
  bb_timestamp :: date

text \<open>
  The interface \<open>LogReader\<close>. A method of an implementation is a function from its arguments to
  the result of the awaited call; \<open>lr_noop\<close> is \<open>instanceof NoopLogReader\<close>.
\<close>

record LogReader =
  lr_noop :: bool
  lr_canonical :: "LogEvent \<Rightarrow> js_error + bytes"
  lr_keyTimestamp :: "jstring \<Rightarrow> jstring \<Rightarrow> js_error + date"
  lr_verifyBilateralBinding :: "DnsIdTxtRecord \<Rightarrow> json \<Rightarrow> json \<Rightarrow> js_error + BilateralBinding"
  lr_verifyOperationalContinuity :: "jstring \<Rightarrow> jstring \<Rightarrow> jstring \<Rightarrow> js_error + unit"
  lr_verifyNonRevocation :: "jstring \<Rightarrow> date \<Rightarrow> js_error + LoggedStateEvidence"
  lr_readEvent :: "jstring \<Rightarrow> js_error + LogEvent"
  lr_rebuildHistory :: "jstring \<Rightarrow> js_error + LogEvent list"

definition noopError :: js_error where
  "noopError = failWith ''no LogReader registered for method'' LogError"

definition NoopLogReader :: LogReader where
  "NoopLogReader = \<lparr>lr_noop = True, lr_canonical = (\<lambda>_. Inl noopError),
     lr_keyTimestamp = (\<lambda>_ _. Inl noopError), lr_verifyBilateralBinding = (\<lambda>_ _ _. Inl noopError),
     lr_verifyOperationalContinuity = (\<lambda>_ _ _. Inl noopError),
     lr_verifyNonRevocation = (\<lambda>_ _. Inl noopError), lr_readEvent = (\<lambda>_. Inl noopError),
     lr_rebuildHistory = (\<lambda>_. Inl noopError)\<rparr>"

text \<open>A registry maps a method to a factory, which takes the reference and the \<open>revalidate\<close> option.\<close>

type_synonym LogReaderFactory = "jstring \<Rightarrow> bool \<Rightarrow> js_error + LogReader"
type_synonym LogRegistry = "(jstring \<times> LogReaderFactory) list"

definition register :: "jstring \<Rightarrow> LogReaderFactory \<Rightarrow> LogRegistry \<Rightarrow> js_error + LogRegistry" where
  "register method factory reg =
     (if \<not> lrMethod method then Inl (ArgumentError ''log method must match [a-z][a-z0-9-]*'')
      else Inr (AList.update method factory reg))"

definition snapshotRegistry :: "LogRegistry \<Rightarrow> js_error + LogRegistry" where
  "snapshotRegistry reg = foldE (\<lambda>r p. register (fst p) (snd p) r) [] reg"

definition newReader :: "LogRegistry \<Rightarrow> jstring \<Rightarrow> bool \<Rightarrow> js_error + LogReader" where
  "newReader reg lr revalidate =
     (case index_of 58 lr of
        None \<Rightarrow> Inl (ParseError ''malformed log reference (no colon)'')
      | Some colonIdx \<Rightarrow>
          let method = take colonIdx lr in
          if \<not> lrMethod method then Inl (ParseError ''malformed log reference (invalid method)'')
          else case map_of reg method of
            None \<Rightarrow> Inr NoopLogReader
          | Some factory \<Rightarrow> factory lr revalidate)"

section \<open>Verified identities\<close>

datatype DNSSECState = UNSIGNED | VALID | FAILED | UNKNOWN

text \<open>
  The object a verification returns. \<open>vd_oid\<close> is its identity: two objects are \<open>===\<close> when they
  have the same.
\<close>

record VerifiedDomain =
  vd_oid :: nat
  vd_domain :: jstring
  vd_record :: DnsIdTxtRecord
  vd_jwks :: JWKS
  vd_recordSigningJwks :: JWKS
  vd_signingKey :: json
  vd_signingKeyThumbprint :: jstring
  vd_tlsCert :: TLSCertificate
  vd_recordSigningTlsCert :: TLSCertificate
  vd_registryStatus :: AgentStatus
  vd_verifiedAt :: date
  vd_dnsTTL :: rat
  vd_dnsExpiresAt :: date
  vd_keyBoundAt :: date
  vd_lastStatusCheckAt :: date
  vd_dnssecState :: DNSSECState
  vd_logReader :: LogReader

definition cachedState :: "VerifiedDomain \<Rightarrow> AgentStatusState" where
  "cachedState vd = as_state (vd_registryStatus vd)"

definition requiresLogCheck :: "VerifiedDomain \<Rightarrow> bool" where
  "requiresLogCheck vd \<longleftrightarrow> js ''logchk'' \<in> policyFlags (vd_record vd)"

definition vdVerifyNonRevocation :: "VerifiedDomain \<Rightarrow> date \<Rightarrow> js_error + LoggedStateEvidence" where
  "vdVerifyNonRevocation vd at' = lr_verifyNonRevocation (vd_logReader vd) (vd_domain vd) at'"

text \<open>The key-age bound of a record: \<open>None\<close> without \<open>ka\<close>; otherwise the time, invalid with the date.\<close>

definition keyAgeBound :: "VerifiedDomain \<Rightarrow> js_error + date option" where
  "keyAgeBound vd =
     (case r_ka (vd_record vd) of
        None \<Rightarrow> Inr None
      | Some ka \<Rightarrow>
          if ka = [] then Inr None
          else bindE (parseKaDuration ka) (\<lambda>d. Inr (Some (map_option (\<lambda>t. t + d) (vd_keyBoundAt vd)))))"

text \<open>\<open>now >= t\<close> on times: false when \<open>t\<close> is NaN.\<close>

definition reached :: "int \<Rightarrow> date \<Rightarrow> bool" where
  "reached now t = (case t of None \<Rightarrow> False | Some x \<Rightarrow> now \<ge> x)"

definition certExpired :: "int \<Rightarrow> TLSCertificate \<Rightarrow> bool" where
  "certExpired now cert \<longleftrightarrow> tls_notAfter cert = None \<or> reached now (tls_notAfter cert)"

definition expiredError :: "VerificationCode \<Rightarrow> js_error" where
  "expiredError code = Verification
     (verification_error ''identity evidence expired during verification'' code (code = DNSResolution))"

definition assertFresh :: "int \<Rightarrow> VerifiedDomain \<Rightarrow> js_error + unit" where
  "assertFresh now vd =
     (if certExpired now (vd_tlsCert vd) \<or> certExpired now (vd_recordSigningTlsCert vd)
        then Inl (expiredError TLSError)
      else bindE (keyAgeBound vd) (\<lambda>bound.
        if (case bound of None \<Rightarrow> False | Some t \<Rightarrow> reached now t) then Inl (expiredError KeyAgeExceeded)
        else if 0 < vd_dnsTTL vd \<and> reached now (vd_dnsExpiresAt vd) then Inl (expiredError DNSResolution)
        else Inr ()))"

text \<open>\<open>Math.min\<close> of times: NaN as soon as one is.\<close>

definition minDate :: "date list \<Rightarrow> date" where
  "minDate ds = (if None \<in> set ds then None else Some (Min (set (map the ds))))"

definition expiry :: "VerifiedDomain \<Rightarrow> js_error + date" where
  "expiry vd =
     bindE (keyAgeBound vd) (\<lambda>bound.
     Inr (minDate ([vd_dnsExpiresAt vd, tls_notAfter (vd_tlsCert vd),
                    tls_notAfter (vd_recordSigningTlsCert vd)] @
                   (case bound of None \<Rightarrow> [] | Some t \<Rightarrow> [t]))))"

section \<open>The cache\<close>

record CacheEntry =
  ce_result :: VerifiedDomain
  ce_expiresAt :: date

type_synonym IdentityStore = "jstring \<rightharpoonup> CacheEntry"

text \<open>The operations; \<open>now\<close> is the clock reading of the call. A fired timer deletes an entry.\<close>

definition cacheGet :: "int \<Rightarrow> jstring \<Rightarrow> IdentityStore \<Rightarrow> VerifiedDomain option \<times> IdentityStore" where
  "cacheGet now domain store =
     (case store domain of
        None \<Rightarrow> (None, store)
      | Some entry \<Rightarrow>
          if reached now (ce_expiresAt entry) then (None, store(domain := None))
          else (Some (ce_result entry), store))"

definition cacheEvict :: "jstring \<Rightarrow> IdentityStore \<Rightarrow> IdentityStore" where
  "cacheEvict domain store = store(domain := None)"

definition cachePut :: "int \<Rightarrow> jstring \<Rightarrow> VerifiedDomain \<Rightarrow> IdentityStore \<Rightarrow> js_error + IdentityStore" where
  "cachePut now domain result store =
     bindE (expiry result) (\<lambda>expiresAt.
     let store' = cacheEvict domain store in
     if vd_dnsTTL result \<le> 0 \<or> expiresAt = None \<or> reached now expiresAt then Inr store'
     else Inr (store'(domain := Some \<lparr>ce_result = result, ce_expiresAt = expiresAt\<rparr>)))"

definition timerFires :: "jstring \<Rightarrow> IdentityStore \<Rightarrow> IdentityStore" where
  "timerFires domain store = store(domain := None)"

section \<open>Freshness and expiry\<close>

lemma minDate_Some:
  "ds \<noteq> [] \<Longrightarrow> minDate ds = Some e \<Longrightarrow> now < e \<longleftrightarrow> (\<forall>t \<in> set ds. \<exists>x. t = Some x \<and> now < x)"
proof -
  assume ds: "ds \<noteq> []" "minDate ds = Some e"
  then have no: "None \<notin> set ds" and e: "e = Min (set (map the ds))"
    by (auto simp: minDate_def split: if_splits)
  have "now < e \<longleftrightarrow> (\<forall>x \<in> set (map the ds). now < x)"
    unfolding e using ds(1) by (intro Min_gr_iff) auto
  also have "\<dots> \<longleftrightarrow> (\<forall>t \<in> set ds. \<exists>x. t = Some x \<and> now < x)"
    using no by (auto simp: option.the_def split: option.splits) (metis option.exhaust)+
  finally show ?thesis .
qed

text \<open>
  C35. The check and the deadline agree: for evidence with a positive DNS lifetime whose earliest
  deadline is a valid time, \<open>assertFresh\<close> passes exactly before \<open>expiry\<close>, the time at which the
  cache drops the result.
\<close>

theorem assertFresh_iff_before_expiry:
  assumes "expiry vd = Inr (Some e)" and "0 < vd_dnsTTL vd"
  shows "assertFresh now vd = Inr () \<longleftrightarrow> now < e"
proof -
  from assms(1) obtain bound where bound: "keyAgeBound vd = Inr bound"
    and e: "minDate ([vd_dnsExpiresAt vd, tls_notAfter (vd_tlsCert vd),
        tls_notAfter (vd_recordSigningTlsCert vd)] @ (case bound of None \<Rightarrow> [] | Some t \<Rightarrow> [t])) = Some e"
    by (auto simp: expiry_def result_simps)
  from e have valid: "vd_dnsExpiresAt vd \<noteq> None" "tls_notAfter (vd_tlsCert vd) \<noteq> None"
    "tls_notAfter (vd_recordSigningTlsCert vd) \<noteq> None" "bound \<noteq> Some None"
    by (auto simp: minDate_def eq_commute [of None] eq_commute [of "Some None"]
        simp del: not_None_eq split: if_splits)
  have fresh: "\<not> reached now t \<longleftrightarrow> (\<exists>x. t = Some x \<and> now < x)" if "t \<noteq> None" for t
    using that by (auto simp: reached_def not_le)
  have "now < e \<longleftrightarrow> \<not> reached now (vd_dnsExpiresAt vd) \<and> \<not> reached now (tls_notAfter (vd_tlsCert vd)) \<and>
      \<not> reached now (tls_notAfter (vd_recordSigningTlsCert vd)) \<and>
      (case bound of None \<Rightarrow> True | Some t \<Rightarrow> \<not> reached now t)"
    unfolding minDate_Some [OF _ e, simplified]
    using valid fresh by (cases bound) auto
  then show ?thesis
    using bound assms(2) valid
    by (auto simp: assertFresh_def certExpired_def result_simps split: option.splits if_splits)
qed

section \<open>The cache as an interface\<close>

datatype 'v cache_op = CacheGet int jstring | CachePut int jstring 'v | CacheEvict jstring

text \<open>
  Operations one after the other; a \<open>put\<close> that raises leaves the cache as it is. The value a
  domain holds if nothing expires is that of the last successful \<open>put\<close> not followed by an
  eviction.
\<close>

fun runCache ::
    "(int \<Rightarrow> jstring \<Rightarrow> 's \<Rightarrow> 'v option \<times> 's) \<Rightarrow> (int \<Rightarrow> jstring \<Rightarrow> 'v \<Rightarrow> 's \<Rightarrow> 'e + 's) \<Rightarrow> (jstring \<Rightarrow> 's \<Rightarrow> 's)
      \<Rightarrow> 'v cache_op \<Rightarrow> 's \<Rightarrow> 's" where
  "runCache get put evict (CacheGet now d) s = snd (get now d s)"
| "runCache get put evict (CachePut now d v) s = (case put now d v s of Inl _ \<Rightarrow> s | Inr s' \<Rightarrow> s')"
| "runCache get put evict (CacheEvict d) s = evict d s"

fun lastStored :: "('v \<Rightarrow> bool) \<Rightarrow> jstring \<Rightarrow> 'v option \<Rightarrow> 'v cache_op list \<Rightarrow> 'v option" where
  "lastStored ok d v [] = v"
| "lastStored ok d v (CacheGet now d' # ops) = lastStored ok d v ops"
| "lastStored ok d v (CachePut now d' w # ops) =
     lastStored ok d (if d = d' \<and> ok w then Some w else v) ops"
| "lastStored ok d v (CacheEvict d' # ops) = lastStored ok d (if d = d' then None else v) ops"

text \<open>
  What a cache promises its client, the identity manager: seen through \<open>content\<close>, an operation
  changes the domain it names only; a value is returned only while it is \<open>live\<close>, and is kept only
  if it was live when it was put.
\<close>

locale identity_cache =
  fixes get :: "int \<Rightarrow> jstring \<Rightarrow> 's \<Rightarrow> 'v option \<times> 's"
    and put :: "int \<Rightarrow> jstring \<Rightarrow> 'v \<Rightarrow> 's \<Rightarrow> 'e + 's"
    and evict :: "jstring \<Rightarrow> 's \<Rightarrow> 's"
    and content :: "'s \<Rightarrow> jstring \<Rightarrow> 'v option"
    and live :: "int \<Rightarrow> 'v \<Rightarrow> bool"
    and storable :: "'v \<Rightarrow> bool"
    and inv :: "'s \<Rightarrow> bool"
  assumes get_result: "inv s \<Longrightarrow> fst (get now d s) = Some v \<longleftrightarrow> content s d = Some v \<and> live now v"
    and get_content: "inv s \<Longrightarrow> content (snd (get now d s)) d' = Some v \<Longrightarrow> content s d' = Some v"
    and get_inv: "inv s \<Longrightarrow> inv (snd (get now d s))"
    and put_content: "inv s \<Longrightarrow> put now d w s = Inr s' \<Longrightarrow> content s' d' = Some v \<Longrightarrow>
      (if d' = d then v = w \<and> live now w else content s d' = Some v)"
    and put_inv: "inv s \<Longrightarrow> put now d w s = Inr s' \<Longrightarrow> inv s'"
    and put_storable: "put now d w s = Inl e \<Longrightarrow> \<not> storable w" "put now d w s = Inr s' \<Longrightarrow> storable w"
    and evict_content: "inv s \<Longrightarrow> content (evict d s) d' = Some v \<Longrightarrow> d' \<noteq> d \<and> content s d' = Some v"
    and evict_inv: "inv s \<Longrightarrow> inv (evict d s)"
begin

lemma run_inv: "inv s \<Longrightarrow> inv (runCache get put evict op' s)"
  by (cases op') (auto simp: get_inv evict_inv put_inv split: sum.splits)

lemma runs_inv: "inv s \<Longrightarrow> inv (fold (runCache get put evict) ops s)"
  by (induction ops arbitrary: s) (simp_all add: run_inv)

lemma run_content:
  assumes "inv s" and "content (runCache get put evict op' s) d = Some v"
  shows "lastStored storable d (content s d) [op'] = Some v"
proof (cases op')
  case (CachePut now d' w)
  show ?thesis
  proof (cases "put now d' w s")
    case (Inl e)
    with assms CachePut put_storable(1) [OF Inl] show ?thesis by simp
  next
    case (Inr s')
    with assms CachePut put_content [OF assms(1) Inr, of d v] put_storable(2) [OF Inr] show ?thesis
      by (auto split: if_splits)
  qed
qed (use assms get_content evict_content in \<open>auto split: if_splits\<close>)

lemma lastStored_mono:
  "v = None \<or> v' = v \<Longrightarrow> lastStored ok d v ops = Some x \<Longrightarrow> lastStored ok d v' ops = Some x"
proof (induction ops arbitrary: v v')
  case (Cons op' ops)
  show ?case
  proof (cases op')
    case (CachePut now d' w)
    with Cons.prems Cons.IH [of "if d = d' \<and> ok w then Some w else v" "if d = d' \<and> ok w then Some w else v'"]
    show ?thesis by auto
  next
    case (CacheEvict d')
    with Cons.prems Cons.IH [of "if d = d' then None else v" "if d = d' then None else v'"]
    show ?thesis by auto
  qed (use Cons in auto)
qed auto

lemma runs_content:
  "inv s \<Longrightarrow> content (fold (runCache get put evict) ops s) d = Some v \<Longrightarrow>
   lastStored storable d (content s d) ops = Some v"
proof (induction ops arbitrary: s)
  case (Cons op' ops)
  then have "lastStored storable d (content (runCache get put evict op' s) d) ops = Some v"
    by (simp add: run_inv)
  moreover have "content (runCache get put evict op' s) d = None \<or>
      lastStored storable d (content s d) [op'] = content (runCache get put evict op' s) d"
    using run_content [OF Cons.prems(1)] by (cases "content (runCache get put evict op' s) d") auto
  ultimately have "lastStored storable d (lastStored storable d (content s d) [op']) ops = Some v"
    by (rule lastStored_mono [rotated])
  then show ?case by (cases op') simp_all
qed simp

text \<open>A value a cache returns is the last one stored for the domain, and it is live.\<close>

lemma get_last_stored:
  assumes "inv s" and "fst (get now d (fold (runCache get put evict) ops s)) = Some v"
  shows "lastStored storable d (content s d) ops = Some v \<and> live now v"
  using assms(2) get_result [OF runs_inv [OF assms(1)]] runs_content [OF assms(1)] by auto

end

section \<open>The in-memory cache\<close>

definition vdLive :: "int \<Rightarrow> VerifiedDomain \<Rightarrow> bool" where
  "vdLive now vd \<longleftrightarrow> 0 < vd_dnsTTL vd \<and> (\<exists>e. expiry vd = Inr (Some e) \<and> now < e)"

definition storeInv :: "IdentityStore \<Rightarrow> bool" where
  "storeInv store \<longleftrightarrow> (\<forall>d e. store d = Some e \<longrightarrow>
     0 < vd_dnsTTL (ce_result e) \<and> expiry (ce_result e) = Inr (ce_expiresAt e) \<and> ce_expiresAt e \<noteq> None)"

definition storeContent :: "IdentityStore \<Rightarrow> jstring \<Rightarrow> VerifiedDomain option" where
  "storeContent store d = map_option ce_result (store d)"

lemma live_entry:
  "storeInv store \<Longrightarrow> store d = Some e \<Longrightarrow> vdLive now (ce_result e) \<longleftrightarrow> \<not> reached now (ce_expiresAt e)"
  by (fastforce simp: storeInv_def vdLive_def reached_def)

interpretation memory_cache: identity_cache cacheGet cachePut cacheEvict storeContent vdLive
  "\<lambda>vd. \<exists>e. expiry vd = Inr e" storeInv
proof unfold_locales
  fix s :: IdentityStore and now d v
  assume "storeInv s"
  then show "fst (cacheGet now d s) = Some v \<longleftrightarrow> storeContent s d = Some v \<and> vdLive now v"
    using live_entry [of s d _ now] by (auto simp: cacheGet_def storeContent_def split: option.splits)
next
  fix s s' :: IdentityStore and now d w d' v
  assume "storeInv s" and put: "cachePut now d w s = Inr s'" and v: "storeContent s' d' = Some v"
  then obtain x where "expiry w = Inr x" by (auto simp: cachePut_def result_simps)
  with put v show "if d' = d then v = w \<and> vdLive now w else storeContent s d' = Some v"
    by (auto simp: cachePut_def storeContent_def cacheEvict_def vdLive_def reached_def Let_def
        split: if_splits option.splits)
next
  fix s s' :: IdentityStore and now d w
  assume "storeInv s" and "cachePut now d w s = Inr s'"
  then show "storeInv s'"
    by (auto simp: cachePut_def storeInv_def cacheEvict_def result_simps Let_def split: if_splits)
qed (auto simp: cacheGet_def storeContent_def storeInv_def cacheEvict_def cachePut_def result_simps Let_def
    split: option.splits if_splits)

text \<open>
  The cache never returns stale evidence: after any sequence of lookups, insertions and
  evictions on an empty cache, a lookup returns a value only if it is the last one put for that
  domain with no eviction after it, its DNS lifetime is positive and the clock is before its
  expiry.
\<close>

theorem cacheGet_last_put:
  assumes "fst (cacheGet now d (fold (runCache cacheGet cachePut cacheEvict) ops Map.empty)) = Some vd"
  shows "lastStored (\<lambda>v. \<exists>e. expiry v = Inr e) d None ops = Some vd \<and>
    0 < vd_dnsTTL vd \<and> (\<exists>e. expiry vd = Inr (Some e) \<and> now < e)"
proof -
  have "storeInv Map.empty" by (simp add: storeInv_def)
  from memory_cache.get_last_stored [OF this assms] show ?thesis
    by (simp add: storeContent_def vdLive_def)
qed

text \<open>A result for concrete evaluation.\<close>

definition exampleVD :: VerifiedDomain where
  "exampleVD = \<lparr>vd_oid = 1, vd_domain = js ''a.b'', vd_record = exampleRecord, vd_jwks = \<lparr>jwks_keys = []\<rparr>,
     vd_recordSigningJwks = \<lparr>jwks_keys = []\<rparr>, vd_signingKey = JNull, vd_signingKeyThumbprint = js ''t'',
     vd_tlsCert = \<lparr>tls_notAfter = Some 500, tls_san = []\<rparr>,
     vd_recordSigningTlsCert = \<lparr>tls_notAfter = Some 400, tls_san = []\<rparr>,
     vd_registryStatus = activeStatusDocument (Some 1), vd_verifiedAt = Some 0, vd_dnsTTL = 300,
     vd_dnsExpiresAt = Some 300, vd_keyBoundAt = Some 0, vd_lastStatusCheckAt = Some 0,
     vd_dnssecState = VALID, vd_logReader = NoopLogReader\<rparr>"

lemma expiry_example: "expiry exampleVD = Inr (Some 300)"
  by (simp add: expiry_def keyAgeBound_def exampleVD_def exampleRecord_def emptyRecord_def minDate_def)

theorem assertFresh_iff_before_expiry_witness:
  "assertFresh 299 exampleVD = Inr () \<and> assertFresh 300 exampleVD \<noteq> Inr ()"
  using assertFresh_iff_before_expiry [OF expiry_example, of 299]
    assertFresh_iff_before_expiry [OF expiry_example, of 300] by (simp add: exampleVD_def)

theorem cacheGet_last_put_witness:
  "lastStored (\<lambda>v. \<exists>e. expiry v = Inr e) [1] None [CachePut 0 [1] exampleVD] = Some exampleVD \<and>
   0 < vd_dnsTTL exampleVD \<and> (\<exists>e. expiry exampleVD = Inr (Some e) \<and> 100 < e)"
proof (rule cacheGet_last_put)
  have "0 < vd_dnsTTL exampleVD" by (simp add: exampleVD_def)
  then show "fst (cacheGet 100 [1] (fold (runCache cacheGet cachePut cacheEvict)
      [CachePut 0 [1] exampleVD] Map.empty)) = Some exampleVD"
    by (simp add: cachePut_def expiry_example reached_def cacheGet_def cacheEvict_def)
qed

section \<open>Readers\<close>

lemma newReader_unregistered:
  "lrMethod m \<Longrightarrow> map_of reg m = None \<Longrightarrow> newReader reg (m @ 58 # ref) rv = Inr NoopLogReader"
proof -
  assume m: "lrMethod m" "map_of reg m = None"
  then have "58 \<notin> set m" by (auto simp: lrMethod_def isLower_def isDigit_def)
  with m show ?thesis by (simp add: newReader_def)
qed

text \<open>A snapshot of a registry selects the same factory for every method.\<close>

lemma register_lookup:
  "register m f reg = Inr reg' \<Longrightarrow> map_of reg' = (map_of reg)(m \<mapsto> f)"
  by (auto simp: register_def update_conv' split: if_splits)

lemma snapshotRegistry_lookup:
  assumes "snapshotRegistry reg = Inr reg'" and "distinct (map fst reg)"
  shows "map_of reg' = map_of reg"
proof -
  have "map_of reg' = map_of acc ++ map_of (rev reg)"
    if "foldE (\<lambda>r p. register (fst p) (snd p) r) acc reg = Inr reg'" for acc
    using that
    by (induction reg arbitrary: acc) (auto simp: result_simps dest!: register_lookup)
  moreover have "map_of (rev reg) = map_of reg"
    using assms(2) by (simp add: map_of_inject_set rev_map [symmetric])
  ultimately show ?thesis using assms(1) by (simp add: snapshotRegistry_def)
qed

end
