(* ===== verification/IdentityVerify.thy ===== *)
theory IdentityVerify
  imports VerifiedDomain
begin

text \<open>
  The verification of an identity (\<open>protocol/src/identity-manager.ts\<close>, \<open>verifyDomainUncached\<close>
  and what it calls). The DNS resolver, the HTTPS fetcher and the log readers are dependencies
  injected into the manager: their methods are functions of the model's \<open>manager\<close> record that give
  the outcome of each call. Clock readings are arguments. The identity branch and the status
  branch run concurrently and the failure of one may cancel the other; the outcome of that race
  is an argument.
\<close>

section \<open>The manager\<close>

datatype DNSSECMode = Auto | Validated | Required

record TrustedEntity =
  te_governanceId :: jstring
  te_entityKeyThumbprints :: "jstring list option"

record TXTRecord =
  txt_strings :: json
  txt_ttl :: jsnum

text \<open>
  A rejected lookup: a \<open>VerificationError\<close>, an error with one of the two Node codes for absence,
  or anything else. A state outside the enumeration is \<open>None\<close>.
\<close>

datatype dns_failure = DnsFailed js_error | DnsNoData

type_synonym dns_result = "dns_failure + TXTRecord list \<times> DNSSECState option"

record FetchResult =
  fr_data :: json
  fr_tlsCert :: TLSCertificate

record JsonFetchOptions =
  fo_allowedHost :: "jstring option"
  fo_domainBoundary :: bool
  fo_maxResponseBytes :: nat
  fo_revalidate :: bool

record manager =
  m_dnssecMode :: "DNSSECMode option"
  m_trustedEntities :: "TrustedEntity list option"
  m_statusCheckInterval :: "rat option"
  m_dnsResolver :: "(jstring \<Rightarrow> dns_result) option"
  m_fetchJson :: "(jstring \<Rightarrow> JsonFetchOptions \<Rightarrow> js_error + FetchResult) option"
  m_logRegistry :: "LogRegistry option"

definition JWKS_MAX_RESPONSE_BYTES :: nat where "JWKS_MAX_RESPONSE_BYTES = 256 * 1024"
definition STATUS_MAX_RESPONSE_BYTES :: nat where "STATUS_MAX_RESPONSE_BYTES = 16 * 1024"

definition fetchProtocolJson :: "manager \<Rightarrow> jstring \<Rightarrow> JsonFetchOptions \<Rightarrow> js_error + FetchResult" where
  "fetchProtocolJson M url opts =
     (case m_fetchJson M of
        None \<Rightarrow> Inl (failWith ''no JSON fetcher configured for protocol verification'' TLSError)
      | Some fetch \<Rightarrow> fetch url opts)"

section \<open>Checks\<close>

definition sgError :: "string \<Rightarrow> js_error" where
  "sgError message = failWith message SignatureInvalid"

definition verifyMtlsPeer ::
    "platform \<Rightarrow> DnsIdTxtRecord \<Rightarrow> jstring \<Rightarrow> TLSCertificate option \<Rightarrow> js_error + unit" where
  "verifyMtlsPeer P record domain peerCert =
     (if js ''mtls'' \<notin> policyFlags record then Inr ()
      else case peerCert of
        None \<Rightarrow> Inl (failWith ''fl=mtls: peer certificate is required'' TLSError)
      | Some cert \<Rightarrow>
          assertE (matchesDnsName P (tls_san cert) domain)
            (failWith ''fl=mtls: peer certificate SAN does not match agent FQDN'' TLSError))"

definition verifyDraft01RecordSignature ::
    "crypto \<Rightarrow> jstring \<Rightarrow> bytes \<Rightarrow> JWKS \<Rightarrow> js_error + json" where
  "verifyDraft01RecordSignature C sg canonicalBytes ekJwks =
     bindE (currentDraft01SigningKey ekJwks) (\<lambda>key.
     bindE (catchE (fromBase64Url sg) (\<lambda>_. Inl (sgError ''sg is not valid unpadded base64url''))) (\<lambda>sigBytes.
     if 61 \<in> set sg \<or> toBase64Url sigBytes \<noteq> sg
       then Inl (sgError ''sg is not valid unpadded base64url'')
     else bindE (jwkSignatureAlg key) (\<lambda>alg.
       if \<not> verifyWithKey C (Inr canonicalBytes) sigBytes key (Some alg)
         then Inl (sgError ''_dnsid record signature invalid'')
       else Inr key)))"

definition parseAgentStatus :: "platform \<Rightarrow> json \<Rightarrow> js_error + AgentStatus" where
  "parseAgentStatus P data =
     catchE (validateAgentStatus P data) (\<lambda>e.
       case e of ValidationError m \<Rightarrow> Inl (failWith m RecordInvalid) | _ \<Rightarrow> Inl e)"

text \<open>The \<open>catch\<close> of the two key-set fetches and of the status fetch.\<close>

fun jwksFailure :: "js_error \<Rightarrow> js_error" where
  "jwksFailure (Verification v) = Verification v"
| "jwksFailure (ValidationError m) = failWith ''JWKS validation failed'' RecordInvalid"
| "jwksFailure e = failTransient ''JWKS fetch failed'' TLSError"

fun statusFailure :: "js_error \<Rightarrow> js_error" where
  "statusFailure (Verification v) = Verification v"
| "statusFailure e = failTransient ''status fetch failed'' StatusUnavailable"

definition keysArray :: "json \<Rightarrow> js_error + JWKS" where
  "keysArray data =
     (case propOf data ''keys'' of
        JArr ks \<Rightarrow> Inr \<lparr>jwks_keys = ks\<rparr>
      | _ \<Rightarrow> Inl (failWith ''JWKS response missing keys array'' RecordInvalid))"

definition fetchRecordSigningJwks ::
    "platform \<Rightarrow> crypto \<Rightarrow> manager \<Rightarrow> DnsIdTxtRecord \<Rightarrow> bool \<Rightarrow> js_error + JWKS \<times> TLSCertificate" where
  "fetchRecordSigningJwks P C M record revalidate =
     catchE
       (bindE (signatureVerificationKeyAllowedHost P record) (\<lambda>host.
        bindE (fetchProtocolJson M (r_ek record)
          \<lparr>fo_allowedHost = Some host, fo_domainBoundary = True,
           fo_maxResponseBytes = JWKS_MAX_RESPONSE_BYTES, fo_revalidate = revalidate\<rparr>) (\<lambda>result.
        bindE (keysArray (fr_data result)) (\<lambda>jwks.
        bindE (validateRecordSigningKeyset C jwks) (\<lambda>_.
        Inr (jwks, fr_tlsCert result))))))
       (\<lambda>e. Inl (jwksFailure e))"

definition fetchRuntimeJwks ::
    "platform \<Rightarrow> manager \<Rightarrow> DnsIdTxtRecord \<Rightarrow> bool \<Rightarrow> js_error + JWKS \<times> TLSCertificate" where
  "fetchRuntimeJwks P M record revalidate =
     catchE
       (bindE (runtimeKeyAllowedHost P record) (\<lambda>host.
        bindE (fetchProtocolJson M (r_ku record)
          \<lparr>fo_allowedHost = Some host, fo_domainBoundary = False,
           fo_maxResponseBytes = JWKS_MAX_RESPONSE_BYTES, fo_revalidate = revalidate\<rparr>) (\<lambda>result.
        bindE (keysArray (fr_data result)) (\<lambda>jwks.
        bindE (validateOperational jwks) (\<lambda>_.
        Inr (jwks, fr_tlsCert result))))))
       (\<lambda>e. Inl (jwksFailure e))"

section \<open>The identity branch\<close>

record IdentityEvidence =
  id_jwks :: JWKS
  id_tlsCert :: TLSCertificate
  id_signingKeyThumbprint :: jstring
  id_logReader :: LogReader
  id_keyBoundAt :: date

definition thumbprintOf :: "crypto \<Rightarrow> json \<Rightarrow> js_error + jstring" where
  "thumbprintOf C key = catchE (joseThumbprint C key) (\<lambda>_. Inl (failWith ''invalid key in JWK Set'' RecordInvalid))"

definition distinctKeysError :: js_error where
  "distinctKeysError = failWith ''ek and ku keys must be distinct'' RecordInvalid"

definition assertKeySeparation :: "crypto \<Rightarrow> JWKS \<Rightarrow> JWKS \<Rightarrow> js_error + unit" where
  "assertKeySeparation C ek ku =
     bindE (mapE (thumbprintOf C) (jwks_keys ek)) (\<lambda>ekThumbprints.
     eachE (\<lambda>key. bindE (thumbprintOf C key) (\<lambda>t.
       assertE (t \<notin> set ekThumbprints) distinctKeysError)) (jwks_keys ku))"

definition readerFor :: "manager \<Rightarrow> DnsIdTxtRecord \<Rightarrow> bool \<Rightarrow> js_error + LogReader" where
  "readerFor M record revalidate =
     (case m_logRegistry M of
        None \<Rightarrow> Inr NoopLogReader
      | Some reg \<Rightarrow> catchE (newReader reg (r_lr record) revalidate)
          (\<lambda>_. Inl (failWith ''malformed lr in _dnsid record'' RecordInvalid)))"

text \<open>The key-age check; \<open>now\<close> is the clock after the log reader answered.\<close>

definition checkKeyAge :: "LogReader \<Rightarrow> DnsIdTxtRecord \<Rightarrow> jstring \<Rightarrow> jstring \<Rightarrow> int \<Rightarrow> js_error + date" where
  "checkKeyAge logReader record domain operationalThumbprint now =
     (case r_ka record of
        None \<Rightarrow> Inr (Some 0)
      | Some ka \<Rightarrow>
          if ka = [] then Inr (Some 0)
          else bindE (lr_keyTimestamp logReader domain operationalThumbprint) (\<lambda>keyBoundAt.
            bindE (parseKaDuration ka) (\<lambda>d.
            if (case keyBoundAt of None \<Rightarrow> False | Some t \<Rightarrow> now - t > d)
              then Inl (failWith ''signing key exceeds maximum key age'' KeyAgeExceeded)
            else Inr keyBoundAt)))"

definition verifyIdentityEvidence ::
    "platform \<Rightarrow> crypto \<Rightarrow> manager \<Rightarrow> jstring \<Rightarrow> DnsIdTxtRecord \<Rightarrow> JWKS \<Rightarrow> TLSCertificate \<Rightarrow> json
      \<Rightarrow> bool \<Rightarrow> int \<Rightarrow> js_error + IdentityEvidence" where
  "verifyIdentityEvidence P C M domain record ekJwks ekCert signingKey revalidate now =
     bindE (if r_ku record \<noteq> r_ek record then fetchRuntimeJwks P M record revalidate
            else Inr (ekJwks, ekCert)) (\<lambda>(jwks, tlsCert).
     bindE (assertKeySeparation C ekJwks jwks) (\<lambda>_.
     bindE (readerFor M record revalidate) (\<lambda>logReader.
     bindE (hasStructuralGovernanceRelationship P record) (\<lambda>structural.
     if \<not> structural \<and> lr_noop logReader
       then Inl (failWith ''delegated governance relationship requires verified ISSUANCE evidence'' LogError)
     else
       bindE (currentDraft01SigningKey jwks) (\<lambda>operationalKey.
       bindE (joseThumbprint C signingKey) (\<lambda>signingKeyThumbprint.
       bindE (joseThumbprint C operationalKey) (\<lambda>operationalThumbprint.
       if signingKeyThumbprint = operationalThumbprint then Inl distinctKeysError
       else
         bindE (lr_verifyBilateralBinding logReader record signingKey operationalKey) (\<lambda>binding.
         bindE (lr_verifyOperationalContinuity logReader domain
                  (bb_initialOperationalThumbprint binding) operationalThumbprint) (\<lambda>_.
         bindE (checkKeyAge logReader record domain operationalThumbprint now) (\<lambda>keyBoundAt.
         Inr \<lparr>id_jwks = jwks, id_tlsCert = tlsCert, id_signingKeyThumbprint = signingKeyThumbprint,
              id_logReader = logReader, id_keyBoundAt = keyBoundAt\<rparr>))))))))))"

section \<open>The status branch\<close>

definition notActiveError :: "AgentStatusState \<Rightarrow> js_error" where
  "notActiveError st = Verification
     (verification_error ''agent is not ACTIVE'' StatusNotActive False
        \<lparr>ve_agentState := Some (case st of PENDING \<Rightarrow> js ''PENDING'' | PROVISIONING \<Rightarrow> js ''PROVISIONING''
           | VERIFYING \<Rightarrow> js ''VERIFYING'' | ACTIVE \<Rightarrow> js ''ACTIVE'' | RETIRED \<Rightarrow> js ''RETIRED''
           | REVOKED \<Rightarrow> js ''REVOKED'')\<rparr>)"

definition fetchActiveStatus :: "platform \<Rightarrow> manager \<Rightarrow> jstring \<Rightarrow> bool \<Rightarrow> js_error + AgentStatus" where
  "fetchActiveStatus P M su revalidate =
     bindE (catchE
       (bindE (fetchProtocolJson M su
          \<lparr>fo_allowedHost = None, fo_domainBoundary = False,
           fo_maxResponseBytes = STATUS_MAX_RESPONSE_BYTES, fo_revalidate = revalidate\<rparr>) (\<lambda>result.
        parseAgentStatus P (fr_data result)))
       (\<lambda>e. Inl (statusFailure e))) (\<lambda>status.
     if as_state status \<noteq> ACTIVE then Inl (notActiveError (as_state status)) else Inr status)"

section \<open>The two branches together\<close>

text \<open>
  The outcome of the race: both branches ran to their end, or the failure of one cancelled the
  other. A failed identity branch cancels the status branch unless it failed with an HTTP error.
\<close>

datatype race = BothSettled | StatusCancelled | IdentityCancelled

definition observed ::
    "race \<Rightarrow> js_error + 'i \<Rightarrow> js_error + 's \<Rightarrow> (js_error + 'i) \<times> (js_error + 's)" where
  "observed r i s =
     (case r of
        BothSettled \<Rightarrow> (i, s)
      | StatusCancelled \<Rightarrow>
          (case i of
             Inl e \<Rightarrow> if errorCode e \<noteq> Some HTTPError then (i, Inl cancellationError) else (i, s)
           | Inr _ \<Rightarrow> (i, s))
      | IdentityCancelled \<Rightarrow> (case s of Inl _ \<Rightarrow> (Inl cancellationError, s) | Inr _ \<Rightarrow> (i, s)))"

text \<open>The decision after both branches have settled.\<close>

definition settle ::
    "bool \<Rightarrow> js_error + 'i \<Rightarrow> js_error + 's \<Rightarrow> js_error + 'i \<times> 's" where
  "settle aborted identity status =
     (if aborted then Inl cancellationError
      else case (identity, status) of
        (Inl ei, Inl es) \<Rightarrow>
          if errorCode ei = Some HTTPError \<and> errorCode es = Some StatusNotActive then Inl es
          else if \<not> isCancellation ei then Inl ei
          else if \<not> isCancellation es then Inl es
          else Inl ei
      | (Inl ei, Inr _) \<Rightarrow> Inl ei
      | (Inr _, Inl es) \<Rightarrow> Inl es
      | (Inr i, Inr s) \<Rightarrow> Inr (i, s))"

definition runBranches ::
    "race \<Rightarrow> bool \<Rightarrow> js_error + 'i \<Rightarrow> js_error + 's \<Rightarrow> js_error + 'i \<times> 's" where
  "runBranches r aborted identity status =
     (case observed r identity status of (i, s) \<Rightarrow> settle aborted i s)"

section \<open>Verification without the cache\<close>

text \<open>\<open>new Date(x)\<close> of a finite number: truncated, invalid beyond the range of dates.\<close>

definition timeClip :: "rat \<Rightarrow> date" where
  "timeClip x = (if \<bar>x\<bar> > 8640000000000000 then None else Some (if x \<ge> 0 then \<lfloor>x\<rfloor> else \<lceil>x\<rceil>))"

definition lookupTxt :: "manager \<Rightarrow> jstring \<Rightarrow> js_error + TXTRecord list \<times> DNSSECState option" where
  "lookupTxt M domain =
     (case m_dnsResolver M of
        None \<Rightarrow> Inl (failTransient ''DNS lookup failed'' DNSResolution)
      | Some resolve \<Rightarrow>
          (case resolve (js ''_dnsid.'' @ domain) of
             Inr r \<Rightarrow> Inr r
           | Inl DnsNoData \<Rightarrow> Inr ([], Some UNKNOWN)
           | Inl (DnsFailed e) \<Rightarrow>
               if errorCode e = Some DNSSECFailed then Inl e
               else Inl (failTransient ''DNS lookup failed'' DNSResolution)))"

definition checkDnssec :: "manager \<Rightarrow> DNSSECState option \<Rightarrow> js_error + DNSSECState" where
  "checkDnssec M state =
     (case state of
        None \<Rightarrow> Inl (failWith ''invalid DNSSEC state'' DNSSECFailed)
      | Some st \<Rightarrow>
          if st = FAILED then Inl (failWith ''DNSSEC validation failed'' DNSSECFailed)
          else case (case m_dnssecMode M of None \<Rightarrow> Auto | Some m \<Rightarrow> m) of
            Auto \<Rightarrow> Inr st
          | Validated \<Rightarrow>
              if st = UNKNOWN then Inl (failWith ''DNSSEC validation state is unknown'' DNSSECFailed)
              else Inr st
          | Required \<Rightarrow>
              if st \<noteq> VALID then Inl (failWith ''DNSSEC required'' DNSSECFailed) else Inr st)"

definition txtStrings :: "json \<Rightarrow> jstring list option" where
  "txtStrings v =
     (case v of
        JArr vs \<Rightarrow>
          if length vs > 1024 \<or> (\<exists>x \<in> set vs. strOf x = None) then None
          else let ss = map (\<lambda>x. the (strOf x)) vs in
            if sum_list (map length ss) > 65535 then None else Some ss
      | _ \<Rightarrow> None)"

text \<open>The single TXT record, its bounds, its lifetime, its parse and its validation.\<close>

definition selectRecord ::
    "platform \<Rightarrow> jstring \<Rightarrow> int \<Rightarrow> TXTRecord list \<Rightarrow> js_error + DnsIdTxtRecord \<times> rat \<times> date" where
  "selectRecord P domain dnsAcquiredAt txtRecords =
     (case txtRecords of
        [] \<Rightarrow> Inl (failWith ''no _dnsid TXT record found'' RecordNotFound)
      | [txt] \<Rightarrow>
          (case txtStrings (txt_strings txt) of
             None \<Rightarrow> Inl (failWith ''TXT response exceeds bounds'' RecordInvalid)
           | Some ss \<Rightarrow>
               (case finiteNum (txt_ttl txt) of
                  Some ttl \<Rightarrow>
                    if ttl < 0 then Inl (failWith ''invalid DNS TTL'' DNSResolution)
                    else let dnsExpiresAt = timeClip (of_int dnsAcquiredAt + ttl * 1000) in
                      if dnsExpiresAt = None then Inl (failWith ''invalid DNS expiry'' DNSResolution)
                      else
                        bindE (catchE (parse (concat ss))
                          (\<lambda>_. Inl (failWith ''TXT record parse failed'' RecordInvalid))) (\<lambda>parsed.
                        let record = parsed\<lparr>r_agentFQDN := domain\<rparr> in
                        bindE (catchE (validate P record)
                          (\<lambda>_. Inl (failWith ''TXT record validation failed'' RecordInvalid))) (\<lambda>_.
                        Inr (record, ttl, dnsExpiresAt)))
                | None \<Rightarrow> Inl (failWith ''invalid DNS TTL'' DNSResolution)))
      | _ \<Rightarrow> Inl (failWith ''expected exactly one _dnsid TXT record'' RecordInvalid))"

text \<open>The clock readings of one verification and the outcome of its concurrent part.\<close>

record run =
  rn_dnsAcquiredAt :: int
  rn_keyAge :: int
  rn_now :: int
  rn_fresh :: int
  rn_cacheGet :: int
  rn_race :: race
  rn_aborted :: bool
  rn_oid :: nat

definition requireFreshEvidence ::
    "int \<Rightarrow> int \<Rightarrow> VerifiedDomain \<Rightarrow> VerifiedDomain \<Rightarrow> IdentityStore \<Rightarrow> (js_error + unit) \<times> IdentityStore" where
  "requireFreshEvidence now nowGet result cached store =
     (case assertFresh now result of
        Inr u \<Rightarrow> (Inr u, store)
      | Inl e \<Rightarrow>
          (case cacheGet nowGet (vd_domain result) store of
             (got, store') \<Rightarrow>
               (Inl e, if map_option vd_oid got = Some (vd_oid cached)
                       then cacheEvict (vd_domain result) store' else store')))"

text \<open>The verification up to the construction of the result.\<close>

definition acquireEvidence ::
    "platform \<Rightarrow> crypto \<Rightarrow> manager \<Rightarrow> run \<Rightarrow> jstring \<Rightarrow> bool \<Rightarrow> js_error + VerifiedDomain" where
  "acquireEvidence P C M rn domain revalidate =
     bindE (lookupTxt M domain) (\<lambda>(txtRecords, state).
     bindE (checkDnssec M state) (\<lambda>dnssecState.
     bindE (selectRecord P domain (rn_dnsAcquiredAt rn) txtRecords) (\<lambda>(record, dnsTTL, dnsExpiresAt).
     bindE (fetchRecordSigningJwks P C M record revalidate) (\<lambda>(ekJwks, ekCert).
     bindE (verifyDraft01RecordSignature C (r_sg record) (utf8 (canonical record)) ekJwks) (\<lambda>signingKey.
     bindE (runBranches (rn_race rn) (rn_aborted rn)
         (verifyIdentityEvidence P C M domain record ekJwks ekCert signingKey revalidate (rn_keyAge rn))
         (fetchActiveStatus P M (r_su record) revalidate)) (\<lambda>(evidence, status).
     Inr \<lparr>vd_oid = rn_oid rn, vd_domain = domain, vd_record = record, vd_jwks = id_jwks evidence,
          vd_recordSigningJwks = ekJwks, vd_signingKey = signingKey,
          vd_signingKeyThumbprint = id_signingKeyThumbprint evidence,
          vd_tlsCert = id_tlsCert evidence, vd_recordSigningTlsCert = ekCert,
          vd_registryStatus = status, vd_verifiedAt = Some (rn_now rn), vd_dnsTTL = dnsTTL,
          vd_dnsExpiresAt = dnsExpiresAt, vd_keyBoundAt = id_keyBoundAt evidence,
          vd_lastStatusCheckAt = Some (rn_now rn), vd_dnssecState = dnssecState,
          vd_logReader = id_logReader evidence\<rparr>))))))"

definition verifyDomainUncached ::
    "platform \<Rightarrow> crypto \<Rightarrow> manager \<Rightarrow> run \<Rightarrow> jstring \<Rightarrow> bool \<Rightarrow> IdentityStore
      \<Rightarrow> (js_error + VerifiedDomain) \<times> IdentityStore" where
  "verifyDomainUncached P C M rn domain revalidate store =
     (case acquireEvidence P C M rn domain revalidate of
        Inl e \<Rightarrow> (Inl e, store)
      | Inr result \<Rightarrow>
          (case requireFreshEvidence (rn_fresh rn) (rn_cacheGet rn) result result store of
             (Inl e, store') \<Rightarrow> (Inl e, store')
           | (Inr _, store') \<Rightarrow> (Inr result, store')))"

section \<open>What each check establishes\<close>

text \<open>The DNSSEC states a mode accepts.\<close>

definition dnssecAccepted :: "DNSSECMode option \<Rightarrow> DNSSECState \<Rightarrow> bool" where
  "dnssecAccepted mode st \<longleftrightarrow>
     (case mode of Some Required \<Rightarrow> st = VALID | Some Validated \<Rightarrow> st = VALID \<or> st = UNSIGNED
      | _ \<Rightarrow> st \<noteq> FAILED)"

lemma checkDnssec_iff:
  "checkDnssec M state = Inr st \<longleftrightarrow> state = Some st \<and> dnssecAccepted (m_dnssecMode M) st"
  by (cases st)
    (auto simp: checkDnssec_def dnssecAccepted_def split: option.splits if_splits DNSSECMode.splits)

lemma selectRecord_sound:
  assumes "selectRecord P domain at' txts = Inr (record, ttl, expires)"
  shows "\<exists>txt ss parsed. txts = [txt] \<and> txtStrings (txt_strings txt) = Some ss \<and> finiteNum (txt_ttl txt) = Some ttl \<and>
    0 \<le> ttl \<and> expires = timeClip (of_int at' + ttl * 1000) \<and> expires \<noteq> None \<and>
    parse (concat ss) = Inr parsed \<and> record = parsed\<lparr>r_agentFQDN := domain\<rparr> \<and> validate P record = Inr ()"
  using assms unfolding selectRecord_def
  by (auto simp: result_simps Let_def split: list.splits option.splits jsnum.splits if_splits)

text \<open>A record signature is accepted only under the one current key of the entity's set.\<close>

lemma verifyDraft01RecordSignature_iff:
  "verifyDraft01RecordSignature C sg bs ek = Inr key \<longleftrightarrow>
     currentDraft01SigningKey ek = Inr key \<and> 61 \<notin> set sg \<and>
     (\<exists>sig alg. sg = toBase64Url sig \<and> jwkSignatureAlg key = Inr alg \<and>
        verifyWithKey C (Inr bs) sig key (Some alg))"
  (is "?l \<longleftrightarrow> ?r")
proof
  assume ?l
  then obtain sig alg where "currentDraft01SigningKey ek = Inr key" "61 \<notin> set sg" "toBase64Url sig = sg"
      "jwkSignatureAlg key = Inr alg" "verifyWithKey C (Inr bs) sig key (Some alg)"
    by (auto simp: verifyDraft01RecordSignature_def result_simps split: if_splits)
  then show ?r by blast
next
  assume ?r
  then obtain sig alg where *: "currentDraft01SigningKey ek = Inr key" "61 \<notin> set sg" "toBase64Url sig = sg"
      "jwkSignatureAlg key = Inr alg" "verifyWithKey C (Inr bs) sig key (Some alg)"
    by blast
  have "fromBase64Url sg = Inr sig" using toBase64Url_roundtrip [of sig] by (simp only: *(3))
  then show ?l by (simp add: verifyDraft01RecordSignature_def * catchE_def)
qed

lemma assertKeySeparation_iff:
  "assertKeySeparation C ek ku = Inr () \<longleftrightarrow>
     (\<forall>k \<in> set (jwks_keys ek) \<union> set (jwks_keys ku). \<exists>t. joseThumbprint C k = Inr t) \<and>
     (\<forall>a \<in> set (jwks_keys ek). \<forall>b \<in> set (jwks_keys ku). joseThumbprint C a \<noteq> joseThumbprint C b)"
  (is "?l \<longleftrightarrow> ?r")
proof -
  have t: "thumbprintOf C k = Inr t \<longleftrightarrow> joseThumbprint C k = Inr t" for k t
    by (auto simp: thumbprintOf_def result_simps)
  have l: "?l \<longleftrightarrow> (\<exists>ts. list_all2 (\<lambda>k t. joseThumbprint C k = Inr t) (jwks_keys ek) ts \<and>
      (\<forall>b \<in> set (jwks_keys ku). \<exists>t. joseThumbprint C b = Inr t \<and> t \<notin> set ts))"
    by (simp add: assertKeySeparation_def result_simps mapE_eq_Inr eachE_eq_Inr t)
  show ?thesis
  proof
    assume ?l
    then obtain ts where ts: "list_all2 (\<lambda>k t. joseThumbprint C k = Inr t) (jwks_keys ek) ts"
      and ku: "\<forall>b \<in> set (jwks_keys ku). \<exists>t. joseThumbprint C b = Inr t \<and> t \<notin> set ts"
      unfolding l by blast
    have ek: "\<exists>t \<in> set ts. joseThumbprint C k = Inr t" if "k \<in> set (jwks_keys ek)" for k
    proof -
      from that obtain i where i: "i < length (jwks_keys ek)" "jwks_keys ek ! i = k"
        by (auto simp: in_set_conv_nth)
      then show ?thesis
        using list_all2_nthD [OF ts i(1)] list_all2_lengthD [OF ts] by (intro bexI [of _ "ts ! i"]) simp_all
    qed
    have "joseThumbprint C a \<noteq> joseThumbprint C b"
      if a: "a \<in> set (jwks_keys ek)" and b: "b \<in> set (jwks_keys ku)" for a b
      using ek [OF a] bspec [OF ku b] by auto
    then show ?r using ek ku by blast
  next
    assume r: ?r
    define ts where "ts = map (\<lambda>k. projr (joseThumbprint C k)) (jwks_keys ek)"
    have ts: "list_all2 (\<lambda>k t. joseThumbprint C k = Inr t) (jwks_keys ek) ts"
      using r unfolding ts_def list_all2_map2 by (intro list.rel_refl_strong) force
    have "\<exists>t. joseThumbprint C b = Inr t \<and> t \<notin> set ts" if b: "b \<in> set (jwks_keys ku)" for b
    proof -
      from r b obtain t where t': "joseThumbprint C b = Inr t" by blast
      have "t \<notin> set ts"
      proof
        assume "t \<in> set ts"
        then obtain a where "a \<in> set (jwks_keys ek)" "t = projr (joseThumbprint C a)"
          by (auto simp: ts_def)
        moreover from r \<open>a \<in> set (jwks_keys ek)\<close> obtain s where "joseThumbprint C a = Inr s" by blast
        ultimately have "joseThumbprint C a = joseThumbprint C b" by (simp add: t')
        with r b \<open>a \<in> set (jwks_keys ek)\<close> show False by blast
      qed
      with t' show ?thesis by blast
    qed
    with ts show ?l unfolding l by blast
  qed
qed

definition separateKeys :: "crypto \<Rightarrow> JWKS \<Rightarrow> JWKS \<Rightarrow> bool" where
  "separateKeys C ek ku \<longleftrightarrow>
     (\<forall>a \<in> set (jwks_keys ek). \<forall>b \<in> set (jwks_keys ku).
        \<exists>s t. joseThumbprint C a = Inr s \<and> joseThumbprint C b = Inr t \<and> s \<noteq> t)"

lemma assertKeySeparation_separate: "assertKeySeparation C ek ku = Inr () \<Longrightarrow> separateKeys C ek ku"
  unfolding assertKeySeparation_iff separateKeys_def by (metis UnCI sum.inject(2))

lemma checkKeyAge_sound:
  assumes "checkKeyAge reader record domain t now = Inr bound" and "r_ka record = Some ka" and "ka \<noteq> []"
  shows "lr_keyTimestamp reader domain t = Inr bound \<and> (\<exists>ms. parseKaDuration ka = Inr ms \<and>
    (case bound of None \<Rightarrow> True | Some b \<Rightarrow> now - b \<le> ms))"
  using assms by (auto simp: checkKeyAge_def result_simps split: if_splits option.splits)

lemma fetchActiveStatus_active:
  "fetchActiveStatus P M su rv = Inr s \<Longrightarrow> as_state s = ACTIVE"
  by (auto simp: fetchActiveStatus_def result_simps split: if_splits)

section \<open>What a verified identity guarantees\<close>

text \<open>
  The guarantees of a verification result, independent of how it was obtained: the facts about the
  published record and its signature, about the two key sets, about the lifecycle log, and about
  the status. \<open>verifiedRecord\<close> speaks of the DNS answer, the others of the result only.
\<close>

definition verifiedRecord :: "platform \<Rightarrow> manager \<Rightarrow> jstring \<Rightarrow> VerifiedDomain \<Rightarrow> bool" where
  "verifiedRecord P M domain vd \<longleftrightarrow>
     (\<exists>txt ss parsed. lookupTxt M domain = Inr ([txt], Some (vd_dnssecState vd)) \<and>
        txtStrings (txt_strings txt) = Some ss \<and> parse (concat ss) = Inr parsed \<and>
        vd_record vd = parsed\<lparr>r_agentFQDN := domain\<rparr>) \<and>
     dnssecAccepted (m_dnssecMode M) (vd_dnssecState vd) \<and>
     validate P (vd_record vd) = Inr () \<and> vd_domain vd = domain"

definition verifiedSignature :: "crypto \<Rightarrow> VerifiedDomain \<Rightarrow> bool" where
  "verifiedSignature C vd \<longleftrightarrow>
     currentDraft01SigningKey (vd_recordSigningJwks vd) = Inr (vd_signingKey vd) \<and>
     joseThumbprint C (vd_signingKey vd) = Inr (vd_signingKeyThumbprint vd) \<and>
     (\<exists>sig alg. r_sg (vd_record vd) = toBase64Url sig \<and> jwkSignatureAlg (vd_signingKey vd) = Inr alg \<and>
        verifyWithKey C (Inr (utf8 (canonical (vd_record vd)))) sig (vd_signingKey vd) (Some alg))"

text \<open>
  The lifecycle log of the record bound the entity's key to the initial operational key, and the
  current operational key continues from that one. A record whose agent is not under its governance
  domain is accepted only with a reader for its log.
\<close>

definition verifiedBinding :: "platform \<Rightarrow> crypto \<Rightarrow> VerifiedDomain \<Rightarrow> bool" where
  "verifiedBinding P C vd \<longleftrightarrow>
     (\<exists>op t binding. currentDraft01SigningKey (vd_jwks vd) = Inr op \<and> joseThumbprint C op = Inr t \<and>
        t \<noteq> vd_signingKeyThumbprint vd \<and>
        lr_verifyBilateralBinding (vd_logReader vd) (vd_record vd) (vd_signingKey vd) op = Inr binding \<and>
        lr_verifyOperationalContinuity (vd_logReader vd) (vd_domain vd)
          (bb_initialOperationalThumbprint binding) t = Inr () \<and>
        (case r_ka (vd_record vd) of None \<Rightarrow> True
         | Some ka \<Rightarrow> ka = [] \<or> lr_keyTimestamp (vd_logReader vd) (vd_domain vd) t = Inr (vd_keyBoundAt vd))) \<and>
     (hasStructuralGovernanceRelationship P (vd_record vd) = Inr True \<or> \<not> lr_noop (vd_logReader vd))"

lemma verifyIdentityEvidence_sound:
  assumes "verifyIdentityEvidence P C M domain record ek ekCert key rv now = Inr ev"
  shows "separateKeys C ek (id_jwks ev)"
    and "joseThumbprint C key = Inr (id_signingKeyThumbprint ev)"
    and "\<exists>op t binding. currentDraft01SigningKey (id_jwks ev) = Inr op \<and> joseThumbprint C op = Inr t \<and>
        t \<noteq> id_signingKeyThumbprint ev \<and>
        lr_verifyBilateralBinding (id_logReader ev) record key op = Inr binding \<and>
        lr_verifyOperationalContinuity (id_logReader ev) domain
          (bb_initialOperationalThumbprint binding) t = Inr () \<and>
        checkKeyAge (id_logReader ev) record domain t now = Inr (id_keyBoundAt ev)"
    and "hasStructuralGovernanceRelationship P record = Inr True \<or> \<not> lr_noop (id_logReader ev)"
    and "readerFor M record rv = Inr (id_logReader ev)"
proof -
  from assms obtain jwks cert reader b op s t binding bound where *:
      "assertKeySeparation C ek jwks = Inr ()" "readerFor M record rv = Inr reader"
      "hasStructuralGovernanceRelationship P record = Inr b" "b \<or> \<not> lr_noop reader"
      "currentDraft01SigningKey jwks = Inr op" "joseThumbprint C key = Inr s" "joseThumbprint C op = Inr t"
      "s \<noteq> t" "lr_verifyBilateralBinding reader record key op = Inr binding"
      "lr_verifyOperationalContinuity reader domain (bb_initialOperationalThumbprint binding) t = Inr ()"
      "checkKeyAge reader record domain t now = Inr bound"
    and ev: "ev = \<lparr>id_jwks = jwks, id_tlsCert = cert, id_signingKeyThumbprint = s,
        id_logReader = reader, id_keyBoundAt = bound\<rparr>"
    unfolding verifyIdentityEvidence_def by (auto simp: bindE_eq_Inr split: if_split_asm)
  show "separateKeys C ek (id_jwks ev)"
    using assertKeySeparation_separate [OF *(1)] by (simp add: ev)
  show "joseThumbprint C key = Inr (id_signingKeyThumbprint ev)"
      "hasStructuralGovernanceRelationship P record = Inr True \<or> \<not> lr_noop (id_logReader ev)"
      "readerFor M record rv = Inr (id_logReader ev)"
    using * by (auto simp: ev)
  from * show "\<exists>op t binding. currentDraft01SigningKey (id_jwks ev) = Inr op \<and> joseThumbprint C op = Inr t \<and>
        t \<noteq> id_signingKeyThumbprint ev \<and>
        lr_verifyBilateralBinding (id_logReader ev) record key op = Inr binding \<and>
        lr_verifyOperationalContinuity (id_logReader ev) domain
          (bb_initialOperationalThumbprint binding) t = Inr () \<and>
        checkKeyAge (id_logReader ev) record domain t now = Inr (id_keyBoundAt ev)"
    by (intro exI [of _ op] exI [of _ t] exI [of _ binding]) (simp add: ev)
qed

text \<open>Both branches must succeed, and the race cannot make them.\<close>

lemma runBranches_Inr:
  "runBranches r aborted i s = Inr (x, y) \<longleftrightarrow> \<not> aborted \<and> i = Inr x \<and> s = Inr y"
  by (auto simp: runBranches_def settle_def observed_def split: sum.splits race.splits if_splits)

lemma acquireEvidence_sound:
  assumes "acquireEvidence P C M rn domain rv = Inr vd"
  shows "verifiedRecord P M domain vd" and "verifiedSignature C vd"
    and "separateKeys C (vd_recordSigningJwks vd) (vd_jwks vd)" and "verifiedBinding P C vd"
    and "cachedState vd = ACTIVE" and "\<not> rn_aborted rn"
    and "readerFor M (vd_record vd) rv = Inr (vd_logReader vd)"
proof -
  from assms obtain txts state st rcd ttl expires ek ekCert key ev status where *:
      "lookupTxt M domain = Inr (txts, state)" "checkDnssec M state = Inr st"
      "selectRecord P domain (rn_dnsAcquiredAt rn) txts = Inr (rcd, ttl, expires)"
      "verifyDraft01RecordSignature C (r_sg rcd) (utf8 (canonical rcd)) ek = Inr key"
      "runBranches (rn_race rn) (rn_aborted rn)
         (verifyIdentityEvidence P C M domain rcd ek ekCert key rv (rn_keyAge rn))
         (fetchActiveStatus P M (r_su rcd) rv) = Inr (ev, status)"
    and vd: "vd = \<lparr>vd_oid = rn_oid rn, vd_domain = domain, vd_record = rcd, vd_jwks = id_jwks ev,
          vd_recordSigningJwks = ek, vd_signingKey = key,
          vd_signingKeyThumbprint = id_signingKeyThumbprint ev,
          vd_tlsCert = id_tlsCert ev, vd_recordSigningTlsCert = ekCert,
          vd_registryStatus = status, vd_verifiedAt = Some (rn_now rn), vd_dnsTTL = ttl,
          vd_dnsExpiresAt = expires, vd_keyBoundAt = id_keyBoundAt ev,
          vd_lastStatusCheckAt = Some (rn_now rn), vd_dnssecState = st,
          vd_logReader = id_logReader ev\<rparr>"
    unfolding acquireEvidence_def bindE_eq_Inr
    by (auto simp: bindE_eq_Inr)
  note dns = *(2) [unfolded checkDnssec_iff] and sel = selectRecord_sound [OF *(3)]
  have both: "\<not> rn_aborted rn"
      "verifyIdentityEvidence P C M domain rcd ek ekCert key rv (rn_keyAge rn) = Inr ev"
      "fetchActiveStatus P M (r_su rcd) rv = Inr status"
    using *(5) unfolding runBranches_Inr by blast+
  note ids = verifyIdentityEvidence_sound [OF both(2)]
  show "verifiedRecord P M domain vd"
    using *(1) dns sel unfolding verifiedRecord_def by (auto simp: vd)
  show "verifiedSignature C vd"
    using *(4) ids(2) unfolding verifyDraft01RecordSignature_iff verifiedSignature_def by (simp add: vd)
  show "separateKeys C (vd_recordSigningJwks vd) (vd_jwks vd)" using ids(1) by (simp add: vd)
  show "verifiedBinding P C vd"
  proof -
    have ka: "case r_ka rcd of None \<Rightarrow> True
         | Some ka \<Rightarrow> ka = [] \<or> lr_keyTimestamp (id_logReader ev) domain t = Inr (id_keyBoundAt ev)"
      if "checkKeyAge (id_logReader ev) rcd domain t (rn_keyAge rn) = Inr (id_keyBoundAt ev)" for t
      using checkKeyAge_sound [OF that] by (auto split: option.splits)
    from ids(3) obtain op t binding where o: "currentDraft01SigningKey (id_jwks ev) = Inr op"
        "joseThumbprint C op = Inr t" "t \<noteq> id_signingKeyThumbprint ev"
        "lr_verifyBilateralBinding (id_logReader ev) rcd key op = Inr binding"
        "lr_verifyOperationalContinuity (id_logReader ev) domain
          (bb_initialOperationalThumbprint binding) t = Inr ()"
        "checkKeyAge (id_logReader ev) rcd domain t (rn_keyAge rn) = Inr (id_keyBoundAt ev)"
      by blast
    show ?thesis
      unfolding verifiedBinding_def
      by (intro conjI exI [of _ op] exI [of _ t] exI [of _ binding])
        (use o(1-5) ka [OF o(6)] ids(4) in \<open>simp_all add: vd split: option.splits\<close>)
  qed
  show "cachedState vd = ACTIVE"
    using fetchActiveStatus_active [OF both(3)] by (simp add: cachedState_def vd)
  show "\<not> rn_aborted rn" by (rule both(1))
  show "readerFor M (vd_record vd) rv = Inr (vd_logReader vd)" using ids(5) by (simp add: vd)
qed

text \<open>
  C1. A verified identity is what it says: whatever the DNS resolver, the fetcher and the log
  reader answer and however the concurrent branches interleave, \<open>verifyDomainUncached\<close> returns a
  result only if the one TXT record of the domain parsed and validated under a DNSSEC state the
  configured mode accepts; the record's signature verifies, over the canonical bytes of exactly that
  record, under the one current key of the entity's key set; no key of that set has the thumbprint
  of a key of the operational set; the record's own log bound the two keys and gave continuity of
  the current operational key (and no result without a log reader unless the agent is under its
  governance domain); the status endpoint said ACTIVE; and the evidence is fresh.
\<close>

theorem verifyDomainUncached_sound:
  assumes "verifyDomainUncached P C M rn domain rv store = (Inr vd, store')"
  shows "verifiedRecord P M domain vd \<and> verifiedSignature C vd \<and>
    separateKeys C (vd_recordSigningJwks vd) (vd_jwks vd) \<and> verifiedBinding P C vd \<and>
    readerFor M (vd_record vd) rv = Inr (vd_logReader vd) \<and>
    cachedState vd = ACTIVE \<and> assertFresh (rn_fresh rn) vd = Inr () \<and> \<not> rn_aborted rn \<and> store' = store"
proof -
  have ok: "acquireEvidence P C M rn domain rv = Inr vd"
    and fresh: "assertFresh (rn_fresh rn) vd = Inr ()" "store' = store"
    using assms by (auto simp: verifyDomainUncached_def requireFreshEvidence_def split: sum.splits prod.splits)
  from acquireEvidence_sound [OF ok] fresh show ?thesis by blast
qed

section \<open>Errors of the concurrent part\<close>

lemma notActiveError_simps [simp]:
  "errorCode (notActiveError st) = Some StatusNotActive" "\<not> isCancellation (notActiveError st)"
  by (simp_all add: notActiveError_def verification_error_def)

text \<open>
  C31. The outcome of the two concurrent branches is explained by the branches, whatever the race: a
  verification that is not cancelled from outside fails with the genuine error of one of them, never
  with the cancellation of the other; and when the operational keys are refused over HTTP while the
  status says the agent is not ACTIVE, the refusal is always reported as the inactive status.
\<close>

theorem runBranches_failure:
  assumes "\<not> (case identity of Inl e \<Rightarrow> isCancellation e | Inr _ \<Rightarrow> False)"
    and "\<not> (case status of Inl e \<Rightarrow> isCancellation e | Inr _ \<Rightarrow> False)"
    and "runBranches r False identity status = Inl e"
  shows "\<not> isCancellation e \<and> (identity = Inl e \<or> status = Inl e) \<and>
    (\<forall>ei st. identity = Inl ei \<and> errorCode ei = Some HTTPError \<and> status = Inl (notActiveError st) \<longrightarrow>
       e = notActiveError st)"
proof -
  have "\<not> isCancellation e \<and> (identity = Inl e \<or> status = Inl e)"
    using assms by (auto simp: runBranches_def observed_def settle_def split: race.splits sum.splits if_splits)
  moreover have "e = notActiveError st"
    if "identity = Inl ei" "errorCode ei = Some HTTPError" "status = Inl (notActiveError st)" for ei st
    using that assms(3)
    by (auto simp: runBranches_def observed_def settle_def split: race.splits if_splits)
  ultimately show ?thesis by blast
qed

theorem runBranches_failure_witness:
  "\<not> isCancellation (notActiveError REVOKED) \<and>
   runBranches IdentityCancelled False (Inl (failWith ''403'' HTTPError) :: js_error + unit)
     (Inl (notActiveError REVOKED) :: js_error + unit) = Inl (notActiveError REVOKED)"
proof -
  have run: "runBranches IdentityCancelled False (Inl (failWith ''403'' HTTPError) :: js_error + unit)
      (Inl (notActiveError REVOKED) :: js_error + unit) = Inl (notActiveError REVOKED)"
    by (simp add: runBranches_def observed_def settle_def)
  with runBranches_failure [OF _ _ run] show ?thesis by simp
qed

section \<open>Classification of failures\<close>

text \<open>
  A manager without a DNS resolver fails every lookup with an error marked transient, although
  the error raised for the missing resolver is marked permanent: the handler of the lookup wraps it.
\<close>

theorem lookupTxt_no_resolver:
  "m_dnsResolver M = None \<Longrightarrow>
     (\<exists>e. lookupTxt M domain = Inl e \<and> errorCode e = Some DNSResolution \<and> isTransient e)"
  by (simp add: lookupTxt_def)

theorem lookupTxt_no_resolver_witness:
  "\<exists>e. lookupTxt \<lparr>m_dnssecMode = None, m_trustedEntities = None, m_statusCheckInterval = None,
     m_dnsResolver = None, m_fetchJson = None, m_logRegistry = None\<rparr> (js ''a.b'') = Inl e \<and>
     errorCode e = Some DNSResolution \<and> isTransient e"
  by (rule lookupTxt_no_resolver) simp

lemma mapE_getp_null:
  "JNull \<in> set ks \<Longrightarrow> mapE (\<lambda>k. getp k f) ks = Inl (JsTypeError ''Cannot read properties'')"
  by (induction ks) (auto simp: getp_def nullish_def)

text \<open>
  C34. An entity key set with a \<open>null\<close> member is reported as a transient TLS failure of the fetch
  (which callers retry), not as an invalid record: reading \<open>kid\<close> of \<open>null\<close> raises a \<open>TypeError\<close>,
  which the handler takes for a failure of the network.
\<close>

theorem fetchRecordSigningJwks_null_key:
  assumes "m_fetchJson M = Some fetch" and "signatureVerificationKeyAllowedHost P rcd = Inr host"
    and "\<And>opts. fetch (r_ek rcd) opts = Inr res"
    and "propOf (fr_data res) ''keys'' = JArr ks" and "JNull \<in> set ks"
  shows "\<exists>e. fetchRecordSigningJwks P C M rcd rv = Inl e \<and> errorCode e = Some TLSError \<and> isTransient e"
  using assms
  by (simp add: fetchRecordSigningJwks_def fetchProtocolJson_def keysArray_def
      validateRecordSigningKeyset_def assertUniqueKids_def mapE_getp_null)

end
