(* ===== verification/Budget.thy ===== *)
theory Budget
  imports Json
begin

text \<open>
  The verification budget (\<open>protocol/src/verification-budget.ts\<close>). Time is an input of the model: for
  every awaited operation it says whether the shared signal was aborted before the operation
  started, or before its result was used.
\<close>

datatype wait = Running | AbortedBefore | AbortedDuring

text \<open>
  \<open>waitForVerification\<close>: an aborted signal wins over the result of the operation. The effects of an
  operation that was started stay.
\<close>

definition waitForVerification :: "wait \<Rightarrow> js_error + 'a \<Rightarrow> js_error + 'a" where
  "waitForVerification w result = (if w = Running then result else Inl cancellationError)"

definition started :: "wait \<Rightarrow> bool" where
  "started w \<longleftrightarrow> w \<noteq> AbortedBefore"

definition validTimeout :: "jsnum option \<Rightarrow> bool" where
  "validTimeout timeoutMs =
     (case timeoutMs of
        None \<Rightarrow> True
      | Some t \<Rightarrow> (case finiteNum t of None \<Rightarrow> False | Some q \<Rightarrow> 0 < q \<and> q \<le> 2147483647))"

text \<open>
  \<open>withVerificationBudget\<close>: the operation runs under the signal, and a success that comes after the
  deadline (\<open>late\<close>) is not returned.
\<close>

definition withVerificationBudget ::
    "jsnum option \<Rightarrow> wait \<Rightarrow> bool \<Rightarrow> js_error + 'a \<Rightarrow> js_error + 'a" where
  "withVerificationBudget timeoutMs w late result =
     (if \<not> validTimeout timeoutMs then Inl (ArgumentError ''verification timeout must be finite and positive'')
      else bindE (waitForVerification w result) (\<lambda>r.
        if late then Inl (failTransient ''verification deadline exceeded'' RecordInvalid) else Inr r))"

lemma waitForVerification_eq_Inr [result_simps]:
  "waitForVerification w r = Inr x \<longleftrightarrow> w = Running \<and> r = Inr x"
  by (simp add: waitForVerification_def)

lemma waitForVerification_Running [simp]: "waitForVerification Running r = r"
  by (simp add: waitForVerification_def)

lemma withVerificationBudget_eq_Inr [result_simps]:
  "withVerificationBudget t w late r = Inr x \<longleftrightarrow> validTimeout t \<and> w = Running \<and> \<not> late \<and> r = Inr x"
  by (auto simp: withVerificationBudget_def result_simps)

end
