(* ===== verification/Sharing.thy ===== *)
theory Sharing
  imports IdentityVerify Budget
begin

text \<open>
  Coalesced verification (\<open>protocol/src/identity-manager.ts\<close>, \<open>startShared\<close>, \<open>joinShared\<close>,
  \<open>refreshStatus\<close>, \<open>verifyReusableIdentity\<close>, \<open>verifyDomainWithinBudget\<close> and the public entry points).
  Callers of the same domain share one operation. The objects \<open>SharedVerification\<close> are entries of a
  table, and three maps say which of them a new caller joins. Between two turns of the event loop
  the state changes by one step: an operation starts, its result is handled, its \<open>finally\<close> runs, a
  caller joins or leaves, or the cache drops an entry. What the operations themselves return is an
  input.
\<close>

section \<open>The state\<close>

datatype in_flight = Verifications | StatusRefreshes | Refreshes

record SharedVerification =
  sh_map :: in_flight
  sh_domain :: jstring
  sh_callers :: nat
  sh_aborted :: bool
  sh_promise :: "(js_error + VerifiedDomain) option"
  sh_finished :: bool

record manager_state =
  ms_inFlight :: "in_flight \<Rightarrow> jstring \<rightharpoonup> nat"
  ms_table :: "SharedVerification list"
  ms_cache :: IdentityStore

definition initialManager :: manager_state where
  "initialManager = \<lparr>ms_inFlight = (\<lambda>_. Map.empty), ms_table = [], ms_cache = Map.empty\<rparr>"

definition dropOlder :: "jstring \<Rightarrow> manager_state \<Rightarrow> manager_state" where
  "dropOlder domain s = s\<lparr>ms_inFlight := (\<lambda>w.
     if w = Refreshes then ms_inFlight s w else (ms_inFlight s w)(domain := None))\<rparr>"

definition updateShared :: "nat \<Rightarrow> (SharedVerification \<Rightarrow> SharedVerification) \<Rightarrow> manager_state \<Rightarrow> manager_state" where
  "updateShared i f s = s\<lparr>ms_table := (ms_table s)[i := f (ms_table s ! i)]\<rparr>"

text \<open>\<open>map.get(domain) === shared\<close>.\<close>

definition registered :: "nat \<Rightarrow> manager_state \<Rightarrow> bool" where
  "registered i s \<longleftrightarrow>
     ms_inFlight s (sh_map (ms_table s ! i)) (sh_domain (ms_table s ! i)) = Some i"

definition startShared :: "in_flight \<Rightarrow> jstring \<Rightarrow> manager_state \<Rightarrow> nat \<times> manager_state" where
  "startShared w domain s =
     (let i = length (ms_table s);
          s' = (if w = Refreshes then dropOlder domain s else s)
      in (i, s'\<lparr>ms_table := ms_table s' @ [\<lparr>sh_map = w, sh_domain = domain, sh_callers = 0,
                 sh_aborted = False, sh_promise = None, sh_finished = False\<rparr>],
               ms_inFlight := (ms_inFlight s')(w := (ms_inFlight s' w)(domain \<mapsto> i))\<rparr>))"

text \<open>
  The handlers of \<open>then\<close> and \<open>catch\<close>: \<open>then\<close> may itself throw, when the result has no expiry, and the
  error goes to \<open>catch\<close>. Both leave the outcome of the promise.
\<close>

definition onSuccess ::
    "nat \<Rightarrow> int \<Rightarrow> VerifiedDomain \<Rightarrow> manager_state \<Rightarrow> (js_error + VerifiedDomain) \<times> manager_state" where
  "onSuccess i now result s =
     (let sh = ms_table s ! i in
      if \<not> sh_aborted sh \<and> registered i s then
        let s' = (if sh_map sh = Refreshes then dropOlder (sh_domain sh) s else s) in
        case cachePut now (sh_domain sh) result (ms_cache s') of
          Inl e \<Rightarrow> (Inl e, s')
        | Inr store \<Rightarrow> (Inr result, s'\<lparr>ms_cache := store\<rparr>)
      else (Inr result, s))"

definition onFailure :: "nat \<Rightarrow> js_error \<Rightarrow> manager_state \<Rightarrow> manager_state" where
  "onFailure i e s =
     (if registered i s \<and> errorCode e = Some StatusNotActive
      then s\<lparr>ms_cache := cacheEvict (sh_domain (ms_table s ! i)) (ms_cache s)\<rparr> else s)"

definition handledState :: "nat \<Rightarrow> int \<Rightarrow> js_error + VerifiedDomain \<Rightarrow> manager_state \<Rightarrow>
    (js_error + VerifiedDomain) \<times> manager_state" where
  "handledState i now r s = (case r of Inr result \<Rightarrow> onSuccess i now result s | Inl e \<Rightarrow> (Inl e, s))"

definition handleResult :: "nat \<Rightarrow> int \<Rightarrow> js_error + VerifiedDomain \<Rightarrow> manager_state \<Rightarrow> manager_state" where
  "handleResult i now r s =
     (let outcome = fst (handledState i now r s);
          s' = snd (handledState i now r s)
      in updateShared i (sh_promise_update (\<lambda>_. Some outcome))
           (case outcome of Inl e \<Rightarrow> onFailure i e s' | Inr _ \<Rightarrow> s'))"

definition handleFinally :: "nat \<Rightarrow> manager_state \<Rightarrow> manager_state" where
  "handleFinally i s =
     (let sh = ms_table s ! i;
          s' = updateShared i (sh_finished_update (\<lambda>_. True)) s
      in if registered i s
         then s'\<lparr>ms_inFlight := (ms_inFlight s')(sh_map sh := (ms_inFlight s' (sh_map sh))(sh_domain sh := None))\<rparr>
         else s')"

text \<open>The two halves of \<open>joinShared\<close>, around the wait.\<close>

definition joinShared :: "nat \<Rightarrow> manager_state \<Rightarrow> manager_state" where
  "joinShared i s = updateShared i (sh_callers_update Suc) s"

definition leaveShared :: "nat \<Rightarrow> manager_state \<Rightarrow> manager_state" where
  "leaveShared i s =
     updateShared i (\<lambda>sh. let callers = sh_callers sh - 1 in
       sh\<lparr>sh_callers := callers, sh_aborted := sh_aborted sh \<or> callers = 0 \<and> \<not> sh_finished sh\<rparr>) s"

section \<open>Steps\<close>

datatype label =
    Start in_flight jstring
  | Handle nat int "js_error + VerifiedDomain"
  | Finally nat
  | Join nat
  | Leave nat
  | Drop jstring

inductive mstep :: "manager_state \<Rightarrow> label \<Rightarrow> manager_state \<Rightarrow> bool" where
  st_start: "ms_inFlight s w d = None \<Longrightarrow> mstep s (Start w d) (snd (startShared w d s))"
| st_handle: "i < length (ms_table s) \<Longrightarrow> sh_promise (ms_table s ! i) = None \<Longrightarrow>
    mstep s (Handle i now r) (handleResult i now r s)"
| st_finally: "i < length (ms_table s) \<Longrightarrow> sh_promise (ms_table s ! i) \<noteq> None \<Longrightarrow>
    \<not> sh_finished (ms_table s ! i) \<Longrightarrow> mstep s (Finally i) (handleFinally i s)"
| st_join: "i < length (ms_table s) \<Longrightarrow> registered i s \<Longrightarrow> mstep s (Join i) (joinShared i s)"
| st_leave: "i < length (ms_table s) \<Longrightarrow> 0 < sh_callers (ms_table s ! i) \<Longrightarrow> mstep s (Leave i) (leaveShared i s)"
| st_drop: "mstep s (Drop d) (s\<lparr>ms_cache := (ms_cache s)(d := None)\<rparr>)"

inductive mrun :: "manager_state \<Rightarrow> label list \<Rightarrow> manager_state \<Rightarrow> bool" where
  stop: "mrun s [] s"
| step: "mstep s l s' \<Longrightarrow> mrun s' ls s'' \<Longrightarrow> mrun s (l # ls) s''"

inductive_cases mstepE: "mstep s l s'"
inductive_simps mrun_Nil [simp]: "mrun s [] s'"
inductive_simps mrun_Cons: "mrun s (l # ls) s''"

section \<open>Invariants\<close>

text \<open>
  The maps point to unfinished operations of their own kind and domain, and a finished operation has a
  settled promise.
\<close>

definition mapsInv :: "manager_state \<Rightarrow> bool" where
  "mapsInv s \<longleftrightarrow> (\<forall>w d i. ms_inFlight s w d = Some i \<longrightarrow> i < length (ms_table s) \<and>
     sh_map (ms_table s ! i) = w \<and> sh_domain (ms_table s ! i) = d \<and> \<not> sh_finished (ms_table s ! i))"

definition promisesInv :: "manager_state \<Rightarrow> bool" where
  "promisesInv s \<longleftrightarrow> (\<forall>i < length (ms_table s). sh_finished (ms_table s ! i) \<longrightarrow> sh_promise (ms_table s ! i) \<noteq> None)"

text \<open>What an update of one operation keeps.\<close>

lemma updateShared_simps [simp]:
  "ms_inFlight (updateShared i f s) = ms_inFlight s" "ms_cache (updateShared i f s) = ms_cache s"
  "length (ms_table (updateShared i f s)) = length (ms_table s)"
  "i < length (ms_table s) \<Longrightarrow> ms_table (updateShared i f s) ! j =
     (if i = j then f (ms_table s ! i) else ms_table s ! j)"
  by (simp_all add: updateShared_def nth_list_update)

lemma dropOlder_simps [simp]:
  "ms_table (dropOlder d s) = ms_table s" "ms_cache (dropOlder d s) = ms_cache s"
  "ms_inFlight (dropOlder d s) w d' = (if w \<noteq> Refreshes \<and> d' = d then None else ms_inFlight s w d')"
  by (simp_all add: dropOlder_def)

lemma onSuccess_table [simp]: "ms_table (snd (onSuccess i now v s)) = ms_table s"
  by (simp add: onSuccess_def Let_def split: sum.splits)

lemma onFailure_simps [simp]:
  "ms_table (onFailure i e s) = ms_table s" "ms_inFlight (onFailure i e s) = ms_inFlight s"
  by (simp_all add: onFailure_def)

lemma handledState_table [simp]: "ms_table (snd (handledState i now r s)) = ms_table s"
  by (simp add: handledState_def split: sum.splits)

lemma handledState_inFlight:
  "ms_inFlight (snd (handledState i now r s)) w d = Some j \<Longrightarrow> ms_inFlight s w d = Some j"
  by (auto simp: handledState_def onSuccess_def Let_def split: sum.splits if_splits)

lemma handleResult_inFlight:
  "ms_inFlight (handleResult i now r s) w d = Some j \<Longrightarrow> ms_inFlight s w d = Some j"
  by (auto simp: handleResult_def Let_def split: sum.splits dest: handledState_inFlight)

lemma handleResult_table:
  "i < length (ms_table s) \<Longrightarrow> length (ms_table (handleResult i now r s)) = length (ms_table s) \<and>
   ms_table (handleResult i now r s) ! j = (if i = j
     then (ms_table s ! i)\<lparr>sh_promise := Some (fst (handledState i now r s))\<rparr> else ms_table s ! j)"
  by (auto simp: handleResult_def Let_def split: sum.splits)

lemma handleFinally_inFlight:
  "ms_inFlight (handleFinally i s) w d = Some j \<Longrightarrow> ms_inFlight s w d = Some j"
  by (auto simp: handleFinally_def Let_def split: if_splits)

lemma handleFinally_table:
  "i < length (ms_table s) \<Longrightarrow> length (ms_table (handleFinally i s)) = length (ms_table s) \<and>
   ms_table (handleFinally i s) ! j = (if i = j then (ms_table s ! i)\<lparr>sh_finished := True\<rparr> else ms_table s ! j)"
  by (auto simp: handleFinally_def Let_def)

lemma mapsInv_step: "mstep s l s' \<Longrightarrow> mapsInv s \<Longrightarrow> mapsInv s'"
proof (induction rule: mstep.induct)
  case (st_start s w d)
  then show ?case
    by (auto simp: mapsInv_def startShared_def Let_def nth_append less_SucI split: if_splits)
next
  case (st_handle i s now r)
  then show ?case
    by (auto simp: mapsInv_def handleResult_table dest!: handleResult_inFlight)
next
  case (st_finally i s)
  show ?case unfolding mapsInv_def
  proof (intro allI impI)
    fix w d j
    assume j: "ms_inFlight (handleFinally i s) w d = Some j"
    then have old: "ms_inFlight s w d = Some j" by (rule handleFinally_inFlight)
    then have inv: "j < length (ms_table s)" "sh_map (ms_table s ! j) = w" "sh_domain (ms_table s ! j) = d"
        "\<not> sh_finished (ms_table s ! j)"
      using st_finally.prems unfolding mapsInv_def by blast+
    moreover have "j \<noteq> i"
      using j old inv(2,3) by (auto simp: handleFinally_def registered_def Let_def split: if_splits)
    ultimately show "j < length (ms_table (handleFinally i s)) \<and> sh_map (ms_table (handleFinally i s) ! j) = w \<and>
        sh_domain (ms_table (handleFinally i s) ! j) = d \<and> \<not> sh_finished (ms_table (handleFinally i s) ! j)"
      using st_finally.hyps(1) by (simp add: handleFinally_table)
  qed
next
  case (st_join i s)
  then show ?case by (auto simp: mapsInv_def joinShared_def)
next
  case (st_leave i s)
  then show ?case by (auto simp: mapsInv_def leaveShared_def Let_def)
qed (simp add: mapsInv_def)

lemma promisesInv_step: "mstep s l s' \<Longrightarrow> promisesInv s \<Longrightarrow> promisesInv s'"
proof (induction rule: mstep.induct)
  case (st_start s w d)
  then show ?case
    by (auto simp: promisesInv_def startShared_def Let_def nth_append less_Suc_eq split: if_splits)
next
  case (st_handle i s now r)
  then show ?case by (simp add: promisesInv_def handleResult_table)
next
  case (st_finally i s)
  then show ?case by (simp add: promisesInv_def handleFinally_def Let_def)
next
  case (st_join i s)
  then show ?case by (simp add: promisesInv_def joinShared_def)
next
  case (st_leave i s)
  then show ?case by (simp add: promisesInv_def leaveShared_def Let_def)
qed (simp add: promisesInv_def)

lemma mapsInv_run: "mrun s ls s' \<Longrightarrow> mapsInv s \<Longrightarrow> mapsInv s'"
  by (induction rule: mrun.induct) (auto intro: mapsInv_step)

lemma promisesInv_run: "mrun s ls s' \<Longrightarrow> promisesInv s \<Longrightarrow> promisesInv s'"
  by (induction rule: mrun.induct) (auto intro: promisesInv_step)

lemma inv_initial: "mapsInv initialManager" "promisesInv initialManager"
  by (simp_all add: mapsInv_def promisesInv_def initialManager_def)

section \<open>Who writes the cache\<close>

lemma handledState_cache:
  assumes "ms_cache (snd (handledState i now r s)) d = Some e"
  shows "ms_cache s d = Some e \<or>
    registered i s \<and> sh_domain (ms_table s ! i) = d \<and> r = Inr (ce_result e)"
  using assms
  by (auto simp: handledState_def onSuccess_def Let_def cachePut_def bindE_eq_Inr cacheEvict_def
      split: sum.splits if_splits)

lemma handleResult_cache:
  assumes "ms_cache (handleResult i now r s) d = Some e"
  shows "ms_cache s d = Some e \<or>
    registered i s \<and> sh_domain (ms_table s ! i) = d \<and> r = Inr (ce_result e)"
proof -
  have "ms_cache (snd (handledState i now r s)) d = Some e"
    using assms by (auto simp: handleResult_def Let_def onFailure_def cacheEvict_def split: sum.splits if_splits)
  then show ?thesis by (rule handledState_cache)
qed

lemma step_cache:
  assumes "mstep s l s'" and "ms_cache s' d = Some e"
  shows "ms_cache s d = Some e \<or> (\<exists>i now. l = Handle i now (Inr (ce_result e)) \<and> registered i s \<and>
    sh_domain (ms_table s ! i) = d \<and> sh_promise (ms_table s ! i) = None)"
  using assms
proof (cases rule: mstep.cases)
  case (st_handle i now r)
  then show ?thesis using handleResult_cache [of i now r s d e] assms(2) by blast
qed (auto simp: startShared_def handleFinally_def joinShared_def leaveShared_def Let_def split: if_splits)

text \<open>
  After the result of a refresh \<open>r\<close> was handled, the maps hold for its domain nothing older: only \<open>r\<close>
  itself, already settled, and operations that started later.
\<close>

definition noOlder :: "nat \<Rightarrow> nat \<Rightarrow> jstring \<Rightarrow> manager_state \<Rightarrow> bool" where
  "noOlder n r d s \<longleftrightarrow> n \<le> length (ms_table s) \<and> r < length (ms_table s) \<and> sh_promise (ms_table s ! r) \<noteq> None \<and>
     (\<forall>w i. ms_inFlight s w d = Some i \<longrightarrow> i = r \<or> n \<le> i)"

lemma noOlder_step: "mstep s l s' \<Longrightarrow> noOlder n r d s \<Longrightarrow> noOlder n r d s'"
proof (induction rule: mstep.induct)
  case (st_start s w d')
  then show ?case
    by (auto simp: noOlder_def startShared_def Let_def nth_append split: if_splits)
next
  case (st_handle i s now r')
  then show ?case
    by (auto simp: noOlder_def handleResult_table dest!: handleResult_inFlight)
next
  case (st_finally i s)
  then show ?case
    by (simp add: noOlder_def handleFinally_table) (blast dest: handleFinally_inFlight)
next
  case (st_join i s)
  then show ?case by (auto simp: noOlder_def joinShared_def)
next
  case (st_leave i s)
  then show ?case by (auto simp: noOlder_def leaveShared_def Let_def)
qed (simp add: noOlder_def)

lemma noOlder_cache:
  assumes "mrun s ls s'" and "noOlder n r d s" and "ms_cache s' d = Some e"
  shows "ms_cache s d = Some e \<or> (\<exists>i now. n \<le> i \<and> Handle i now (Inr (ce_result e)) \<in> set ls)"
  using assms
proof (induction rule: mrun.induct)
  case (step s l s' ls s'')
  have "noOlder n r d s'" using step.hyps(1) step.prems(1) by (rule noOlder_step)
  with step.IH step.prems(2) consider "ms_cache s' d = Some e"
    | "\<exists>i now. n \<le> i \<and> Handle i now (Inr (ce_result e)) \<in> set ls" by blast
  then show ?case
  proof cases
    case 1
    from step_cache [OF step.hyps(1) 1] show ?thesis
    proof
      assume "\<exists>i now. l = Handle i now (Inr (ce_result e)) \<and> registered i s \<and>
        sh_domain (ms_table s ! i) = d \<and> sh_promise (ms_table s ! i) = None"
      then obtain i now where i: "l = Handle i now (Inr (ce_result e))" "registered i s"
        "sh_domain (ms_table s ! i) = d" "sh_promise (ms_table s ! i) = None" by blast
      then have "i = r \<or> n \<le> i" "i \<noteq> r"
        using step.prems(1) unfolding noOlder_def registered_def by blast+
      then show ?thesis using i(1) by auto
    qed simp
  qed auto
qed simp

lemma refresh_handled:
  assumes "mapsInv s" and "r < length (ms_table s)" and "registered r s" and "\<not> sh_aborted (ms_table s ! r)"
    and "sh_map (ms_table s ! r) = Refreshes" and "sh_domain (ms_table s ! r) = d" and "expiry v = Inr x"
  shows "noOlder (length (ms_table s)) r d (handleResult r now (Inr v) s)"
    and "ms_cache (handleResult r now (Inr v) s) d = Some e \<Longrightarrow> ce_result e = v"
proof -
  define store where "store = (if vd_dnsTTL v \<le> 0 \<or> x = None \<or> reached now x then (ms_cache s)(d := None)
      else (ms_cache s)(d \<mapsto> \<lparr>ce_result = v, ce_expiresAt = x\<rparr>))"
  have store: "cachePut now d v (ms_cache s) = Inr store" "\<And>e. store d = Some e \<Longrightarrow> ce_result e = v"
    using assms(7) by (auto simp: cachePut_def cacheEvict_def Let_def store_def split: if_splits)
  have handled: "handledState r now (Inr v) s = (Inr v, (dropOlder d s)\<lparr>ms_cache := store\<rparr>)"
    using assms store by (simp add: handledState_def onSuccess_def Let_def)
  have "ms_inFlight s Refreshes d = Some r"
    using assms(3,5,6) by (simp add: registered_def)
  then show "noOlder (length (ms_table s)) r d (handleResult r now (Inr v) s)"
    using assms(2) handleResult_table [OF assms(2), of now "Inr v" r]
    by (auto simp: noOlder_def) (auto simp: handleResult_def handled Let_def split: if_splits)
  show "ms_cache (handleResult r now (Inr v) s) d = Some e \<Longrightarrow> ce_result e = v"
    using store(2) by (simp add: handleResult_def handled Let_def)
qed

text \<open>
  C5. A refresh is never undone by older evidence. Let the result of a refresh of a domain be handled while
  the refresh is still the current one and not abandoned. From then on, in every interleaving of
  callers and operations, what the cache holds for the domain is the refreshed result, or the result of
  an operation that started after the refresh had finished; a lookup or a status check that was
  under way, which may have read the old keys, never writes it.
\<close>

theorem refresh_not_overwritten:
  assumes "mrun initialManager before s" and "r < length (ms_table s)" and "registered r s"
    and "\<not> sh_aborted (ms_table s ! r)" and "sh_map (ms_table s ! r) = Refreshes"
    and "expiry v = Inr x"
    and "mstep s (Handle r now (Inr v)) s1" and "mrun s1 later s2"
    and "ms_cache s2 (sh_domain (ms_table s ! r)) = Some e"
  shows "ce_result e = v \<or>
    (\<exists>i now'. length (ms_table s) \<le> i \<and> Handle i now' (Inr (ce_result e)) \<in> set later)"
proof -
  have inv: "mapsInv s" using mapsInv_run [OF assms(1)] inv_initial by blast
  have s1: "s1 = handleResult r now (Inr v) s"
    using assms(7) by (auto elim: mstep.cases)
  show ?thesis
    using noOlder_cache [OF assms(8) _ assms(9)] refresh_handled [OF inv assms(2-5) refl assms(6), of now] s1
    by blast
qed

text \<open>
  Callers cannot cancel each other. In every interleaving, a shared operation is aborted only by
  the step in which its last caller leaves, and only while it has not finished; as long as
  one other caller waits, the operation goes on.
\<close>

theorem abort_needs_last_caller:
  assumes "mstep s l s'" and "i < length (ms_table s)" and "\<not> sh_aborted (ms_table s ! i)"
    and "sh_aborted (ms_table s' ! i)"
  shows "l = Leave i \<and> sh_callers (ms_table s ! i) = 1 \<and> \<not> sh_finished (ms_table s ! i)"
  using assms
proof (cases rule: mstep.cases)
  case (st_handle j now r)
  then show ?thesis using assms handleResult_table [of j s now r i] by (auto split: if_splits)
next
  case (st_leave j)
  then show ?thesis using assms by (auto simp: leaveShared_def Let_def split: if_splits)
qed (auto simp: startShared_def handleFinally_def joinShared_def Let_def nth_append split: if_splits)

end
