(* ===== verification/Manager.thy ===== *)
theory Manager
  imports Sharing
begin

text \<open>
  The entry points of the identity manager (\<open>protocol/src/identity-manager.ts\<close>, \<open>verifyDomain\<close>,
  \<open>refreshDomain\<close>, \<open>verifyPublicationEvidence\<close> and what they call). A call has two halves: up to its
  wait for a shared operation, and from the end of the wait to its result; the steps of
  \<open>Sharing\<close> run in between. Clock readings and the identity of new objects are arguments.
\<close>

section \<open>Acceptance\<close>

definition counterpartyError :: "jstring \<Rightarrow> jstring \<Rightarrow> js_error" where
  "counterpartyError governanceId thumbprint = Verification
     (verification_error ''counterparty not accepted'' CounterpartyNotAccepted False
        \<lparr>ve_verifiedGovernanceId := Some governanceId, ve_verifiedEntityKeyThumbprint := Some thumbprint\<rparr>)"

definition enforceCounterpartyAcceptance :: "manager \<Rightarrow> VerifiedDomain \<Rightarrow> js_error + unit" where
  "enforceCounterpartyAcceptance M result =
     (case m_trustedEntities M of
        None \<Rightarrow> Inr ()
      | Some policy \<Rightarrow>
          let governanceId = r_gi (vd_record result);
              thumbprint = vd_signingKeyThumbprint result
          in case find (\<lambda>e. te_governanceId e = governanceId) policy of
               None \<Rightarrow> Inl (counterpartyError governanceId thumbprint)
             | Some entry \<Rightarrow>
                 assertE (case te_entityKeyThumbprints entry of None \<Rightarrow> True | Some pins \<Rightarrow> thumbprint \<in> set pins)
                   (counterpartyError governanceId thumbprint))"

section \<open>Status refresh\<close>

record refresh_run =
  rr_checkedAt :: int
  rr_fresh :: int
  rr_cacheGet :: int
  rr_oid :: nat

definition refetchFailure :: "js_error \<Rightarrow> js_error" where
  "refetchFailure e = (case e of Verification v \<Rightarrow> e | _ \<Rightarrow> failTransient ''status re-fetch failed'' StatusUnavailable)"

definition refetchStatus :: "platform \<Rightarrow> manager \<Rightarrow> VerifiedDomain \<Rightarrow> js_error + AgentStatus" where
  "refetchStatus P M cached =
     bindE (catchE
       (bindE (fetchProtocolJson M (r_su (vd_record cached))
          \<lparr>fo_allowedHost = None, fo_domainBoundary = False,
           fo_maxResponseBytes = STATUS_MAX_RESPONSE_BYTES, fo_revalidate = False\<rparr>) (\<lambda>result.
        parseAgentStatus P (fr_data result)))
       (\<lambda>e. Inl (refetchFailure e))) (\<lambda>status.
     if as_state status \<noteq> ACTIVE then Inl (notActiveError (as_state status)) else Inr status)"

definition refreshStatus ::
    "platform \<Rightarrow> manager \<Rightarrow> refresh_run \<Rightarrow> VerifiedDomain \<Rightarrow> IdentityStore \<Rightarrow>
     (js_error + VerifiedDomain) \<times> IdentityStore" where
  "refreshStatus P M rr cached store =
     (case refetchStatus P M cached of
        Inl e \<Rightarrow> (Inl e, store)
      | Inr status \<Rightarrow>
          let refreshed = cached\<lparr>vd_oid := rr_oid rr, vd_registryStatus := status,
                vd_lastStatusCheckAt := Some (rr_checkedAt rr)\<rparr>
          in case requireFreshEvidence (rr_fresh rr) (rr_cacheGet rr) refreshed cached store of
               (Inl e, store') \<Rightarrow> (Inl e, store')
             | (Inr _, store') \<Rightarrow> (Inr refreshed, store'))"

section \<open>A call up to its wait\<close>

text \<open>
  What a caller holds while it waits: a cached result, or the operation it joined, with whether it
  found the operation under way.
\<close>

datatype awaiting = Ready VerifiedDomain | Awaiting in_flight nat bool

text \<open>\<open>map.get(domain) ?? this.startShared(map, domain, ...)\<close>, joined.\<close>

definition joinOrStart :: "in_flight \<Rightarrow> jstring \<Rightarrow> manager_state \<Rightarrow> awaiting \<times> manager_state" where
  "joinOrStart w domain s =
     (case ms_inFlight s w domain of
        Some i \<Rightarrow> (Awaiting w i True, joinShared i s)
      | None \<Rightarrow> (case startShared w domain s of (i, s') \<Rightarrow> (Awaiting w i False, joinShared i s')))"

record call =
  ca_peerCert :: "TLSCertificate option"
  ca_enforceAcceptance :: bool
  ca_refresh :: bool

text \<open>\<open>Date.now() - cached.lastStatusCheckAt.getTime() < interval\<close> and the interval is positive.\<close>

definition statusIsRecent :: "manager \<Rightarrow> int \<Rightarrow> VerifiedDomain \<Rightarrow> bool" where
  "statusIsRecent M now cached =
     (let interval = (case m_statusCheckInterval M of None \<Rightarrow> 0 | Some n \<Rightarrow> n) * 1000 in
      0 < interval \<and> (case vd_lastStatusCheckAt cached of None \<Rightarrow> False | Some t \<Rightarrow> of_int (now - t) < interval))"

definition verifyReusableIdentity_begin ::
    "platform \<Rightarrow> manager \<Rightarrow> int \<Rightarrow> call \<Rightarrow> jstring \<Rightarrow> manager_state \<Rightarrow> (js_error + awaiting) \<times> manager_state" where
  "verifyReusableIdentity_begin P M now ca domain s =
     (if ca_refresh ca then map_prod Inr id (joinOrStart Refreshes domain s)
      else case cacheGet now domain (ms_cache s) of
        (Some cached, store) \<Rightarrow>
          let s' = s\<lparr>ms_cache := store\<rparr> in
          (case (if ca_enforceAcceptance ca then verifyMtlsPeer P (vd_record cached) domain (ca_peerCert ca) else Inr ()) of
             Inl e \<Rightarrow> (Inl e, s')
           | Inr _ \<Rightarrow>
               if statusIsRecent M now cached then (Inr (Ready cached), s')
               else map_prod Inr id (joinOrStart StatusRefreshes domain s'))
      | (None, store) \<Rightarrow> map_prod Inr id (joinOrStart Verifications domain (s\<lparr>ms_cache := store\<rparr>)))"

definition verifyDomainWithinBudget_begin ::
    "platform \<Rightarrow> manager \<Rightarrow> int \<Rightarrow> call \<Rightarrow> jstring \<Rightarrow> manager_state \<Rightarrow>
     (js_error + jstring \<times> awaiting) \<times> manager_state" where
  "verifyDomainWithinBudget_begin P M now ca domain s =
     (case normalizeFQDN P domain False of
        Inl _ \<Rightarrow> (Inl (ArgumentError ''domain is not a valid FQDN''), s)
      | Inr domain' \<Rightarrow>
          map_prod (map_sum id (Pair domain')) id (verifyReusableIdentity_begin P M now ca domain' s))"

section \<open>From the wait to the result\<close>

text \<open>
  The end of the wait: the caller's signal is aborted, or the operation has finished; \<open>None\<close> while
  neither holds. Leaving drops the caller from the operation.
\<close>

definition awaitedResult :: "wait \<Rightarrow> awaiting \<Rightarrow> manager_state \<Rightarrow> (js_error + VerifiedDomain) option" where
  "awaitedResult w a s =
     (case a of
        Ready v \<Rightarrow> Some (Inr v)
      | Awaiting _ i _ \<Rightarrow>
          if w \<noteq> Running then Some (Inl cancellationError)
          else if sh_finished (ms_table s ! i) then sh_promise (ms_table s ! i) else None)"

definition leaveAwaited :: "awaiting \<Rightarrow> manager_state \<Rightarrow> manager_state" where
  "leaveAwaited a s = (case a of Ready _ \<Rightarrow> s | Awaiting _ i _ \<Rightarrow> leaveShared i s)"

text \<open>Evidence with no DNS lifetime belongs to the operation that acquired it.\<close>

definition mustReverify :: "awaiting \<Rightarrow> VerifiedDomain \<Rightarrow> bool" where
  "mustReverify a v =
     (case a of
        Awaiting Refreshes _ existing \<Rightarrow> existing \<and> vd_dnsTTL v = 0
      | Awaiting Verifications _ existing \<Rightarrow> existing \<and> \<not> 0 < vd_dnsTTL v
      | _ \<Rightarrow> False)"

definition verifyReusableIdentity_end ::
    "platform \<Rightarrow> crypto \<Rightarrow> manager \<Rightarrow> run \<Rightarrow> jstring \<Rightarrow> awaiting \<Rightarrow> js_error + VerifiedDomain \<Rightarrow> IdentityStore \<Rightarrow>
     (js_error + VerifiedDomain) \<times> IdentityStore" where
  "verifyReusableIdentity_end P C M rn domain a r store =
     (case r of
        Inl e \<Rightarrow> (Inl e, store)
      | Inr v \<Rightarrow>
          if mustReverify a v
          then verifyDomainUncached P C M rn domain (case a of Awaiting Refreshes _ _ \<Rightarrow> True | _ \<Rightarrow> False) store
          else (Inr v, store))"

definition callPolicy :: "platform \<Rightarrow> manager \<Rightarrow> call \<Rightarrow> jstring \<Rightarrow> VerifiedDomain \<Rightarrow> js_error + unit" where
  "callPolicy P M ca domain v =
     (if ca_enforceAcceptance ca
      then bindE (verifyMtlsPeer P (vd_record v) domain (ca_peerCert ca)) (\<lambda>_. enforceCounterpartyAcceptance M v)
      else Inr ())"

definition verifyDomainWithinBudget_end ::
    "platform \<Rightarrow> crypto \<Rightarrow> manager \<Rightarrow> run \<Rightarrow> int \<times> int \<Rightarrow> call \<Rightarrow> jstring \<Rightarrow> awaiting \<Rightarrow> js_error + VerifiedDomain \<Rightarrow>
     IdentityStore \<Rightarrow> (js_error + VerifiedDomain) \<times> IdentityStore" where
  "verifyDomainWithinBudget_end P C M rn clocks ca domain a r store =
     (let out = verifyReusableIdentity_end P C M rn domain a r store in
      case bindE (fst out) (\<lambda>v. bindE (callPolicy P M ca domain v) (\<lambda>_. Inr v)) of
        Inl e \<Rightarrow> (Inl e, snd out)
      | Inr v \<Rightarrow>
          let checked = requireFreshEvidence (fst clocks) (snd clocks) v v (snd out)
          in (bindE (fst checked) (\<lambda>_. Inr v), snd checked))"

section \<open>The entry points\<close>

definition verifyDomain :: "TLSCertificate option \<Rightarrow> call" where
  "verifyDomain peerCert = \<lparr>ca_peerCert = peerCert, ca_enforceAcceptance = True, ca_refresh = False\<rparr>"

definition refreshDomain :: "TLSCertificate option \<Rightarrow> call" where
  "refreshDomain peerCert = \<lparr>ca_peerCert = peerCert, ca_enforceAcceptance = True, ca_refresh = True\<rparr>"

definition requireIdentity :: "'i option \<Rightarrow> js_error + 'i" where
  "requireIdentity identity =
     (case identity of
        None \<Rightarrow> Inl (ArgumentError ''this operation requires a local identity (config.identity)'')
      | Some i \<Rightarrow> Inr i)"

text \<open>The local domain is the one of the configuration, which is normalized.\<close>

definition verifyPublicationEvidence ::
    "platform \<Rightarrow> jstring option \<Rightarrow> jstring \<Rightarrow> bool \<Rightarrow> js_error + jstring \<times> call" where
  "verifyPublicationEvidence P localDomain domain refresh =
     bindE (requireIdentity localDomain) (\<lambda>local.
     bindE (catchE (normalizeFQDN P domain False) (\<lambda>_. Inl (ArgumentError ''domain is not a valid FQDN''))) (\<lambda>requested.
     bindE (assertE (requested = local)
       (ArgumentError ''publication evidence is only available for the local identity'')) (\<lambda>_.
     Inr (requested, \<lparr>ca_peerCert = None, ca_enforceAcceptance = False, ca_refresh = refresh\<rparr>))))"

definition verifyLocalPublication :: "platform \<Rightarrow> jstring option \<Rightarrow> js_error + jstring \<times> call" where
  "verifyLocalPublication P localDomain =
     bindE (requireIdentity localDomain) (\<lambda>local. verifyPublicationEvidence P localDomain local True)"

text \<open>A call under its budget: its start, and its result once its wait is over.\<close>

record call_run =
  cr_timeoutMs :: "jsnum option"
  cr_wait :: wait
  cr_late :: bool
  cr_clocks :: "int \<times> int"
  cr_uncached :: run

definition beginCall ::
    "platform \<Rightarrow> manager \<Rightarrow> call_run \<Rightarrow> int \<Rightarrow> call \<Rightarrow> jstring \<Rightarrow> manager_state \<Rightarrow>
     (js_error + jstring \<times> awaiting) \<times> manager_state" where
  "beginCall P M cr now ca domain s =
     (if \<not> validTimeout (cr_timeoutMs cr)
        then (Inl (ArgumentError ''verification timeout must be finite and positive''), s)
      else if \<not> started (cr_wait cr) then (Inl cancellationError, s)
      else verifyDomainWithinBudget_begin P M now ca domain s)"

definition finishCall ::
    "platform \<Rightarrow> crypto \<Rightarrow> manager \<Rightarrow> call_run \<Rightarrow> call \<Rightarrow> jstring \<Rightarrow> awaiting \<Rightarrow> manager_state \<Rightarrow>
     (js_error + VerifiedDomain) option \<times> manager_state" where
  "finishCall P C M cr ca domain a s =
     (case awaitedResult (cr_wait cr) a s of
        None \<Rightarrow> (None, s)
      | Some r \<Rightarrow>
          let s' = leaveAwaited a s;
              out = verifyDomainWithinBudget_end P C M (cr_uncached cr) (cr_clocks cr) ca domain a r (ms_cache s')
          in (Some (withVerificationBudget (cr_timeoutMs cr) (cr_wait cr) (cr_late cr) (fst out)),
              s'\<lparr>ms_cache := snd out\<rparr>))"

section \<open>Calls are runs of the step relation\<close>

lemma mrun_append: "mrun s ls s' \<Longrightarrow> mrun s' ls' s'' \<Longrightarrow> mrun s (ls @ ls') s''"
  by (induction rule: mrun.induct) (auto simp: mrun_Cons)

lemma mrun_single: "mstep s l s' \<Longrightarrow> mrun s [l] s'"
  by (auto simp: mrun_Cons)

text \<open>Reading the cache and dropping an entry are steps of their own, or no step.\<close>

lemma drop_run:
  assumes "store = ms_cache s \<or> store = (ms_cache s)(d := None)"
  shows "\<exists>ls. mrun s ls (s\<lparr>ms_cache := store\<rparr>)"
  using assms
proof
  assume "store = ms_cache s"
  then have "mrun s [] (s\<lparr>ms_cache := store\<rparr>)" by simp
  then show ?thesis ..
next
  assume "store = (ms_cache s)(d := None)"
  then have "mrun s [Drop d] (s\<lparr>ms_cache := store\<rparr>)"
    using st_drop [of s d] by (auto intro: mrun_single)
  then show ?thesis ..
qed

lemma cacheGet_drops: "snd (cacheGet now d store) = store \<or> snd (cacheGet now d store) = store(d := None)"
  by (simp add: cacheGet_def split: option.splits)

lemma requireFreshEvidence_drops:
  "snd (requireFreshEvidence now nowGet v c store) = store \<or>
   snd (requireFreshEvidence now nowGet v c store) = store(vd_domain v := None)"
  using cacheGet_drops [of nowGet "vd_domain v" store]
  by (auto simp: requireFreshEvidence_def cacheEvict_def split: sum.splits prod.splits)

lemma verifyDomainUncached_drops:
  "snd (verifyDomainUncached P C M rn d rv store) = store \<or>
   (\<exists>d'. snd (verifyDomainUncached P C M rn d rv store) = store(d' := None))"
proof (cases "acquireEvidence P C M rn d rv")
  case (Inr v)
  have "snd (verifyDomainUncached P C M rn d rv store) =
      snd (requireFreshEvidence (rn_fresh rn) (rn_cacheGet rn) v v store)"
    by (simp add: verifyDomainUncached_def Inr split: prod.splits sum.splits)
  then show ?thesis using requireFreshEvidence_drops by metis
qed (simp add: verifyDomainUncached_def)

lemma joinOrStart_run:
  assumes "mapsInv s"
  shows "\<exists>ls. mrun s ls (snd (joinOrStart w d s))"
proof (cases "ms_inFlight s w d")
  case None
  define i where "i = fst (startShared w d s)"
  define s' where "s' = snd (startShared w d s)"
  have "mstep s (Start w d) s'" using None s'_def by (auto intro: st_start)
  moreover have "mstep s' (Join i) (joinShared i s')"
    by (rule st_join) (auto simp: i_def s'_def startShared_def registered_def Let_def)
  ultimately have "mrun s [Start w d, Join i] (joinShared i s')" by (auto simp: mrun_Cons)
  moreover have "snd (joinOrStart w d s) = joinShared i s'"
    by (simp add: joinOrStart_def None i_def s'_def split: prod.splits)
  ultimately show ?thesis by metis
next
  case (Some i)
  then have "i < length (ms_table s)" "registered i s"
    using assms by (auto simp: mapsInv_def registered_def)
  then have "mrun s [Join i] (snd (joinOrStart w d s))"
    by (auto simp: joinOrStart_def Some intro: mrun_single st_join)
  then show ?thesis ..
qed

lemma joinOrStart_after_drop:
  assumes "mapsInv s" and "store = ms_cache s \<or> store = (ms_cache s)(d' := None)"
  shows "\<exists>ls. mrun s ls (snd (joinOrStart w d (s\<lparr>ms_cache := store\<rparr>)))"
proof -
  obtain ls where ls: "mrun s ls (s\<lparr>ms_cache := store\<rparr>)" using drop_run [OF assms(2)] by blast
  then have "mapsInv (s\<lparr>ms_cache := store\<rparr>)" using assms(1) by (rule mapsInv_run)
  then show ?thesis using joinOrStart_run mrun_append [OF ls] by meson
qed

lemma verifyReusableIdentity_begin_run:
  assumes "mapsInv s"
  shows "\<exists>ls. mrun s ls (snd (verifyReusableIdentity_begin P M now ca d s))"
proof (cases "ca_refresh ca")
  case True
  then show ?thesis using joinOrStart_run [OF assms] by (simp add: verifyReusableIdentity_begin_def)
next
  case False
  obtain got store where get: "cacheGet now d (ms_cache s) = (got, store)" by force
  then have store: "store = ms_cache s \<or> store = (ms_cache s)(d := None)"
    using cacheGet_drops [of now d "ms_cache s"] by simp
  show ?thesis
    using drop_run [OF store] joinOrStart_after_drop [OF assms store, of _ d] False get
    by (auto simp: verifyReusableIdentity_begin_def Let_def split: option.splits sum.splits)
qed

lemma beginCall_run:
  assumes "mapsInv s"
  shows "\<exists>ls. mrun s ls (snd (beginCall P M cr now ca d s))"
  using verifyReusableIdentity_begin_run [OF assms]
  by (auto simp: beginCall_def verifyDomainWithinBudget_begin_def intro: exI [of _ "[]"] split: sum.splits)

definition cacheShrinks :: "IdentityStore \<Rightarrow> IdentityStore \<Rightarrow> bool" where
  "cacheShrinks store store' \<longleftrightarrow> (\<exists>ds. store' = store |` (- set ds))"

lemma cacheShrinks_intros:
  "cacheShrinks store store" "cacheShrinks store (store(d := None))"
proof -
  have "store = store |` (- set [])" "store(d := None) = store |` (- set [d])"
    by (auto simp: restrict_map_def)
  then show "cacheShrinks store store" "cacheShrinks store (store(d := None))"
    unfolding cacheShrinks_def by blast+
qed

lemma cacheShrinks_trans: "cacheShrinks a b \<Longrightarrow> cacheShrinks b c \<Longrightarrow> cacheShrinks a c"
proof -
  assume "cacheShrinks a b" "cacheShrinks b c"
  then obtain ds ds' where "b = a |` (- set ds)" "c = b |` (- set ds')" by (auto simp: cacheShrinks_def)
  then have "c = a |` (- set (ds @ ds'))" by (auto simp: restrict_map_def)
  then show "cacheShrinks a c" unfolding cacheShrinks_def by blast
qed

lemma drops_run: "mrun s (map Drop ds) (s\<lparr>ms_cache := ms_cache s |` (- set ds)\<rparr>)"
proof (induction ds arbitrary: s)
  case (Cons d ds)
  have "(ms_cache s)(d := None) |` (- set ds) = ms_cache s |` (- set (d # ds))"
    by (auto simp: restrict_map_def)
  with Cons [of "s\<lparr>ms_cache := (ms_cache s)(d := None)\<rparr>"] show ?case
    using st_drop [of s d] by (auto simp: mrun_Cons simp del: fun_upd_apply)
qed (simp add: restrict_map_def)

lemma cacheShrinks_run: "cacheShrinks (ms_cache s) store \<Longrightarrow> \<exists>ls. mrun s ls (s\<lparr>ms_cache := store\<rparr>)"
  unfolding cacheShrinks_def using drops_run by metis

lemma verifyReusableIdentity_end_shrinks:
  "cacheShrinks store (snd (verifyReusableIdentity_end P C M rn d a r store))"
proof -
  have "cacheShrinks store (snd (verifyDomainUncached P C M rn d rv store))" for rv
    using verifyDomainUncached_drops [of P C M rn d rv store] by (auto simp: cacheShrinks_intros)
  then show ?thesis
    by (auto simp: verifyReusableIdentity_end_def cacheShrinks_intros split: sum.splits)
qed

lemma verifyDomainWithinBudget_end_shrinks:
  "cacheShrinks store (snd (verifyDomainWithinBudget_end P C M rn clocks ca d a r store))"
proof -
  have "cacheShrinks store' (snd (requireFreshEvidence now get v v store'))" for now get v store'
    using requireFreshEvidence_drops [of now get v v store'] by (auto simp: cacheShrinks_intros)
  then show ?thesis
    using verifyReusableIdentity_end_shrinks [of store P C M rn d a r]
    by (auto simp: verifyDomainWithinBudget_end_def Let_def intro: cacheShrinks_trans split: sum.splits)
qed

lemma joinOrStart_awaits:
  assumes "mapsInv s" and "joinOrStart w d s = (Awaiting w' i existing, s')"
  shows "registered i s' \<and> sh_map (ms_table s' ! i) = w' \<and> sh_domain (ms_table s' ! i) = d"
proof (cases "ms_inFlight s w d")
  case None
  then show ?thesis
    using assms(2) by (auto simp: joinOrStart_def startShared_def joinShared_def registered_def Let_def)
next
  case (Some j)
  then have "j < length (ms_table s)" "sh_map (ms_table s ! j) = w" "sh_domain (ms_table s ! j) = d"
    using assms(1) by (auto simp: mapsInv_def)
  then show ?thesis
    using assms(2) Some by (auto simp: joinOrStart_def joinShared_def registered_def)
qed

lemma mapsInv_cache [simp]: "mapsInv (s\<lparr>ms_cache := store\<rparr>) = mapsInv s"
  by (simp add: mapsInv_def)

lemma verifyReusableIdentity_begin_awaits:
  assumes "mapsInv s" and "verifyReusableIdentity_begin P M now ca d s = (Inr (Awaiting w i existing), s')"
  shows "registered i s' \<and> sh_map (ms_table s' ! i) = w \<and> sh_domain (ms_table s' ! i) = d"
proof -
  obtain w' s0 where "joinOrStart w' d s0 = (Awaiting w i existing, s')" "mapsInv s0"
    using assms
    by (auto simp: verifyReusableIdentity_begin_def Let_def map_prod_def split: if_splits prod.splits option.splits sum.splits)
  then show ?thesis using joinOrStart_awaits by blast
qed

section \<open>Properties\<close>

text \<open>
  Calls are interleavings. From every reachable state, the part of a call before its wait and the
  part after it are runs of the step relation, so that what holds of all its runs holds of all
  interleavings of calls; and when a call waits, it waits for the operation that is registered for
  its own normalized domain.
\<close>

theorem calls_are_runs:
  assumes "mrun initialManager ls s"
  shows "(\<exists>ls'. mrun s ls' (snd (beginCall P M cr now ca domain s))) \<and>
    (\<forall>d w i existing. fst (beginCall P M cr now ca domain s) = Inr (d, Awaiting w i existing) \<longrightarrow>
      normalizeFQDN P domain False = Inr d \<and> registered i (snd (beginCall P M cr now ca domain s)) \<and>
      sh_map (ms_table (snd (beginCall P M cr now ca domain s)) ! i) = w \<and>
      sh_domain (ms_table (snd (beginCall P M cr now ca domain s)) ! i) = d) \<and>
    (\<forall>d w i existing. i < length (ms_table s) \<longrightarrow> 0 < sh_callers (ms_table s ! i) \<longrightarrow>
      (\<exists>ls'. mrun s ls' (snd (finishCall P C M cr ca d (Awaiting w i existing) s))))"
proof (intro conjI allI impI)
  have inv: "mapsInv s" using mapsInv_run [OF assms] inv_initial by blast
  then show "\<exists>ls'. mrun s ls' (snd (beginCall P M cr now ca domain s))" by (rule beginCall_run)
  fix d w i existing
  show "\<exists>ls'. mrun s ls' (snd (finishCall P C M cr ca d (Awaiting w i existing) s))"
    if "i < length (ms_table s)" "0 < sh_callers (ms_table s ! i)"
  proof (cases "awaitedResult (cr_wait cr) (Awaiting w i existing) s")
    case (Some r)
    let ?s = "leaveShared i s"
    have leave: "mrun s [Leave i] ?s" using that by (auto intro: mrun_single st_leave)
    obtain ls' where "mrun ?s ls' (?s\<lparr>ms_cache := snd (verifyDomainWithinBudget_end P C M (cr_uncached cr)
        (cr_clocks cr) ca d (Awaiting w i existing) r (ms_cache ?s))\<rparr>)"
      using cacheShrinks_run verifyDomainWithinBudget_end_shrinks by meson
    with leave show ?thesis
      by (auto simp: finishCall_def Some leaveAwaited_def Let_def dest: mrun_append)
  qed (auto simp: finishCall_def intro: exI [of _ "[]"])
next
  fix d w i existing
  define out where "out = beginCall P M cr now ca domain s"
  assume "fst (beginCall P M cr now ca domain s) = Inr (d, Awaiting w i existing)"
  then have "normalizeFQDN P domain False = Inr d"
    and "verifyReusableIdentity_begin P M now ca d s = (Inr (Awaiting w i existing), snd out)"
    by (auto simp: out_def beginCall_def verifyDomainWithinBudget_begin_def map_prod_def map_sum_def
        split: if_splits sum.splits prod.splits)
  then show "normalizeFQDN P domain False = Inr d" "registered i (snd (beginCall P M cr now ca domain s))"
      "sh_map (ms_table (snd (beginCall P M cr now ca domain s)) ! i) = w"
      "sh_domain (ms_table (snd (beginCall P M cr now ca domain s)) ! i) = d"
    using verifyReusableIdentity_begin_awaits mapsInv_run [OF assms] inv_initial unfolding out_def by blast+
qed

text \<open>The policy decision for one result.\<close>

definition acceptable :: "manager \<Rightarrow> VerifiedDomain \<Rightarrow> bool" where
  "acceptable M v \<longleftrightarrow> (\<forall>policy. m_trustedEntities M = Some policy \<longrightarrow>
     (\<exists>before e after. policy = before @ e # after \<and>
        (\<forall>b \<in> set before. te_governanceId b \<noteq> r_gi (vd_record v)) \<and>
        te_governanceId e = r_gi (vd_record v) \<and>
        (\<forall>pins. te_entityKeyThumbprints e = Some pins \<longrightarrow> vd_signingKeyThumbprint v \<in> set pins)))"

lemma enforceCounterpartyAcceptance_iff:
  "enforceCounterpartyAcceptance M v = Inr () \<longleftrightarrow> acceptable M v"
proof (cases "m_trustedEntities M")
  case (Some policy)
  let ?gi = "r_gi (vd_record v)"
  show ?thesis
  proof (cases "find (\<lambda>e. te_governanceId e = ?gi) policy")
    case None
    then have "enforceCounterpartyAcceptance M v \<noteq> Inr ()"
      by (simp add: enforceCounterpartyAcceptance_def Some Let_def)
    moreover have "\<not> acceptable M v"
      using None by (auto simp: acceptable_def Some find_None_iff)
    ultimately show ?thesis by simp
  next
    case (Some e)
    then obtain i where i: "i < length policy" "te_governanceId (policy ! i) = ?gi" "e = policy ! i"
      "\<forall>j<i. te_governanceId (policy ! j) \<noteq> ?gi" by (auto simp: find_Some_iff)
    have split: "policy = take i policy @ e # drop (Suc i) policy"
      using i(1,3) by (simp add: id_take_nth_drop)
    have before: "\<forall>b \<in> set (take i policy). te_governanceId b \<noteq> ?gi"
      using i(1,4) by (auto simp: in_set_conv_nth)
    have "acceptable M v \<longleftrightarrow> (case te_entityKeyThumbprints e of None \<Rightarrow> True
        | Some pins \<Rightarrow> vd_signingKeyThumbprint v \<in> set pins)"
    proof
      assume "acceptable M v"
      then obtain bs e' as where e': "policy = bs @ e' # as" "\<forall>b \<in> set bs. te_governanceId b \<noteq> ?gi"
        "te_governanceId e' = ?gi"
        "\<forall>pins. te_entityKeyThumbprints e' = Some pins \<longrightarrow> vd_signingKeyThumbprint v \<in> set pins"
        using \<open>m_trustedEntities M = Some policy\<close> by (auto simp: acceptable_def)
      have "find (\<lambda>e. te_governanceId e = ?gi) policy = Some e'"
        using e'(1-3) by (auto simp: find_Some_iff nth_append intro!: exI [of _ "length bs"])
      with Some e'(4) show "(case te_entityKeyThumbprints e of None \<Rightarrow> True
        | Some pins \<Rightarrow> vd_signingKeyThumbprint v \<in> set pins)" by (auto split: option.splits)
    next
      assume "case te_entityKeyThumbprints e of None \<Rightarrow> True | Some pins \<Rightarrow> vd_signingKeyThumbprint v \<in> set pins"
      then have "\<forall>pins. te_entityKeyThumbprints e = Some pins \<longrightarrow> vd_signingKeyThumbprint v \<in> set pins"
        by (auto split: option.splits)
      then show "acceptable M v"
        using split before i(2,3) \<open>m_trustedEntities M = Some policy\<close> unfolding acceptable_def by auto
    qed
    then show ?thesis
      using Some \<open>m_trustedEntities M = Some policy\<close>
      by (auto simp: enforceCounterpartyAcceptance_def Let_def assertE_eq_Inr)
  qed
qed (simp add: enforceCounterpartyAcceptance_def acceptable_def)

text \<open>Where a result comes from.\<close>

lemma verifyDomainWithinBudget_end_Inr:
  assumes "verifyDomainWithinBudget_end P C M rn clocks ca d a r store = (Inr v, store')"
  shows "fst (verifyReusableIdentity_end P C M rn d a r store) = Inr v \<and>
    callPolicy P M ca d v = Inr () \<and> assertFresh (fst clocks) v = Inr ()"
proof -
  from assms obtain v' where v': "fst (verifyReusableIdentity_end P C M rn d a r store) = Inr v'"
      "callPolicy P M ca d v' = Inr ()" "v = v'"
      "fst (requireFreshEvidence (fst clocks) (snd clocks) v' v' (snd (verifyReusableIdentity_end P C M rn d a r store))) = Inr ()"
    by (auto simp: verifyDomainWithinBudget_end_def Let_def bindE_eq_Inr bindE_eq_Inl split: sum.splits)
  then show ?thesis
    by (auto simp: requireFreshEvidence_def split: sum.splits prod.splits)
qed

lemma finishCall_Inr:
  assumes "finishCall P C M cr ca d a s = (Some (Inr v), s')"
  shows "\<exists>r store'. awaitedResult (cr_wait cr) a s = Some r \<and> cr_wait cr = Running \<and>
    verifyDomainWithinBudget_end P C M (cr_uncached cr) (cr_clocks cr) ca d a r (ms_cache (leaveAwaited a s)) = (Inr v, store')"
  using assms
  by (cases "awaitedResult (cr_wait cr) a s")
    (auto simp: finishCall_def Let_def withVerificationBudget_eq_Inr prod_eq_iff)

text \<open>
  C4. Acceptance is decided per call. A call of \<open>verifyDomain\<close> or \<open>refreshDomain\<close> returns a result, cached,
  shared or its own, only if the configured policy accepts it: with a list of trusted entities, the
  first entry of the result's governance identifier exists and its pins, if any, contain the thumbprint
  of the entity key; with the \<open>mtls\<close> flag, the caller's certificate names the domain. And the evidence
  is fresh at the time of the return.
\<close>

theorem verifyDomain_enforces_policy:
  assumes "finishCall P C M cr ca domain a s = (Some (Inr v), s')" and "ca_enforceAcceptance ca"
  shows "acceptable M v \<and> assertFresh (fst (cr_clocks cr)) v = Inr () \<and>
    (js ''mtls'' \<in> policyFlags (vd_record v) \<longrightarrow>
      (\<exists>cert. ca_peerCert ca = Some cert \<and> matchesDnsName P (tls_san cert) domain))"
proof -
  obtain r store' where "verifyDomainWithinBudget_end P C M (cr_uncached cr) (cr_clocks cr) ca domain a r
      (ms_cache (leaveAwaited a s)) = (Inr v, store')"
    using finishCall_Inr [OF assms(1)] by blast
  from verifyDomainWithinBudget_end_Inr [OF this] have "callPolicy P M ca domain v = Inr ()"
    "assertFresh (fst (cr_clocks cr)) v = Inr ()" by simp_all
  then show ?thesis
    using assms(2) enforceCounterpartyAcceptance_iff [of M v]
    by (auto simp: callPolicy_def bindE_eq_Inr verifyMtlsPeer_def assertE_eq_Inr split: option.splits if_splits)
qed

text \<open>
  Evidence without a DNS lifetime is not shared. A caller that found an operation under way
  and gets a result from it gets one with a positive lifetime, or a result that it acquired by a
  verification of its own after the wait.
\<close>

theorem zero_lifetime_not_shared:
  assumes "finishCall P C M cr ca domain (Awaiting w i True) s = (Some (Inr v), s')"
    and "w \<noteq> StatusRefreshes" and "\<And>u. sh_promise (ms_table s ! i) = Some (Inr u) \<Longrightarrow> 0 \<le> vd_dnsTTL u"
  shows "0 < vd_dnsTTL v \<or>
    acquireEvidence P C M (cr_uncached cr) domain (w = Refreshes) = Inr v"
proof -
  obtain r store' where r: "awaitedResult (cr_wait cr) (Awaiting w i True) s = Some r" "cr_wait cr = Running"
    and e: "verifyDomainWithinBudget_end P C M (cr_uncached cr) (cr_clocks cr) ca domain (Awaiting w i True) r
      (ms_cache (leaveAwaited (Awaiting w i True) s)) = (Inr v, store')"
    using finishCall_Inr [OF assms(1)] by blast
  from r have "sh_promise (ms_table s ! i) = Some r"
    by (auto simp: awaitedResult_def split: if_splits)
  moreover from verifyDomainWithinBudget_end_Inr [OF e] obtain u where u: "r = Inr u"
    and v: "(if mustReverify (Awaiting w i True) u
        then fst (verifyDomainUncached P C M (cr_uncached cr) domain (w = Refreshes)
          (ms_cache (leaveAwaited (Awaiting w i True) s))) else Inr u) = Inr v"
    by (cases r; cases w) (auto simp: verifyReusableIdentity_end_def split: if_splits)
  ultimately have "0 \<le> vd_dnsTTL u" using assms(3) by blast
  show ?thesis
  proof (cases "mustReverify (Awaiting w i True) u")
    case True
    then show ?thesis
      using v by (auto simp: verifyDomainUncached_def split: sum.splits prod.splits)
  next
    case False
    then show ?thesis
      using v assms(2) \<open>0 \<le> vd_dnsTTL u\<close> by (cases w) (auto simp: mustReverify_def)
  qed
qed

text \<open>
  C31. A status refresh changes the status only. It succeeds only with a status that is \<open>ACTIVE\<close>, and
  its result has the identity evidence of the cached one, with its deadlines, and is fresh.
\<close>

theorem refreshStatus_keeps_evidence:
  assumes "refreshStatus P M rr cached store = (Inr v, store')"
  shows "as_state (vd_registryStatus v) = ACTIVE \<and> assertFresh (rr_fresh rr) v = Inr () \<and>
    v = cached\<lparr>vd_oid := rr_oid rr, vd_registryStatus := vd_registryStatus v,
      vd_lastStatusCheckAt := Some (rr_checkedAt rr)\<rparr> \<and>
    expiry v = expiry cached \<and> store' = store"
proof -
  from assms obtain status where st: "refetchStatus P M cached = Inr status"
    by (auto simp: refreshStatus_def split: sum.splits)
  let ?v = "cached\<lparr>vd_oid := rr_oid rr, vd_registryStatus := status, vd_lastStatusCheckAt := Some (rr_checkedAt rr)\<rparr>"
  have "as_state status = ACTIVE"
    using st by (auto simp: refetchStatus_def bindE_eq_Inr split: if_splits)
  moreover have "v = ?v" "assertFresh (rr_fresh rr) ?v = Inr ()" "store' = store"
    using assms by (auto simp: refreshStatus_def st Let_def requireFreshEvidence_def split: sum.splits prod.splits)
  moreover have "keyAgeBound ?v = keyAgeBound cached"
    by (cases "r_ka (vd_record cached)") (simp_all add: keyAgeBound_def)
  then have "expiry ?v = expiry cached" by (simp add: expiry_def)
  ultimately show ?thesis by simp
qed

end
