(* ===== verification/IdentityExample.thy ===== *)
theory IdentityExample
  imports IdentityVerify
begin

text \<open>
  A complete verification on concrete inputs: a published record, the two key sets behind it, a
  lifecycle log that binds the keys and an ACTIVE status. The scenario shows that the hypotheses of
  the theorems about verification can hold; the witnesses of those theorems are stated here.
\<close>

definition entityX :: jstring where "entityX = toBase64Url (9 # replicate 31 0)"
definition operationalX :: jstring where "operationalX = toBase64Url (10 # replicate 31 0)"

definition exampleEk :: JWKS where "exampleEk = \<lparr>jwks_keys = [edKey (js ''e'') entityX]\<rparr>"
definition exampleKu :: JWKS where "exampleKu = \<lparr>jwks_keys = [edKey (js ''o'') operationalX]\<rparr>"

definition exampleText :: jstring where
  "exampleText = js ''v=DNSid1;gi=b;ek=https://b;ku=https://a.b;lr=l:x;su=https://s;sg=AQ''"

definition publishedRecord :: DnsIdTxtRecord where
  "publishedRecord = emptyRecord\<lparr>r_v := js ''DNSid1'', r_gi := js ''b'', r_ek := js ''https://b'',
     r_ku := js ''https://a.b'', r_lr := js ''l:x'', r_su := js ''https://s'', r_sg := js ''AQ'',
     r_parsedTags := map js [''v'', ''gi'', ''ek'', ''ku'', ''lr'', ''su'', ''sg''],
     r_agentFQDN := js ''a.b''\<rparr>"

definition acceptingCrypto :: crypto where
  "acceptingCrypto = exampleCrypto\<lparr>subtleVerify := (\<lambda>_ _ _ _. Some True)\<rparr>"

definition exampleCert :: TLSCertificate where "exampleCert = \<lparr>tls_notAfter = Some 5000, tls_san = []\<rparr>"

definition exampleReader :: LogReader where
  "exampleReader = NoopLogReader\<lparr>lr_noop := False, lr_keyTimestamp := (\<lambda>_ _. Inr (Some 0)),
     lr_verifyBilateralBinding := (\<lambda>_ _ _. Inr \<lparr>bb_initialOperationalThumbprint = operationalX,
       bb_initialEntityThumbprint = entityX, bb_timestamp = Some 0\<rparr>),
     lr_verifyOperationalContinuity := (\<lambda>_ s t. if s = t then Inr () else Inl noopError)\<rparr>"

definition exampleStatus :: json where
  "exampleStatus = JObj [(js ''state'', JStr (js ''ACTIVE'')), (js ''lastTransitionAt'', JNum (Fin 7))]"

definition exampleFetch :: "jstring \<Rightarrow> JsonFetchOptions \<Rightarrow> js_error + FetchResult" where
  "exampleFetch u opts =
     Inr \<lparr>fr_data = (if u = js ''https://b'' then JObj [(js ''keys'', JArr (jwks_keys exampleEk))]
            else if u = js ''https://a.b'' then JObj [(js ''keys'', JArr (jwks_keys exampleKu))]
            else exampleStatus), fr_tlsCert = exampleCert\<rparr>"

definition exampleManager :: manager where
  "exampleManager = \<lparr>m_dnssecMode = Some Required, m_trustedEntities = None, m_statusCheckInterval = None,
     m_dnsResolver = Some (\<lambda>_. Inr ([\<lparr>txt_strings = JArr [JStr exampleText], txt_ttl = Fin 1\<rparr>], Some VALID)),
     m_fetchJson = Some exampleFetch, m_logRegistry = Some [(js ''l'', \<lambda>_ _. Inr exampleReader)]\<rparr>"

definition exampleRun :: run where
  "exampleRun = \<lparr>rn_dnsAcquiredAt = 1000, rn_keyAge = 1100, rn_now = 1200, rn_fresh = 1300,
     rn_cacheGet = 1300, rn_race = BothSettled, rn_aborted = False, rn_oid = 1\<rparr>"

section \<open>The steps of the scenario\<close>

lemma example_parse: "parse exampleText = Inr (publishedRecord\<lparr>r_agentFQDN := []\<rparr>)"
  by (simp add: exampleText_def eval_record publishedRecord_def)

lemma publishedRecord_simps [simp]:
  "r_v publishedRecord = js ''DNSid1''" "r_gi publishedRecord = js ''b''"
  "r_ek publishedRecord = js ''https://b''" "r_ku publishedRecord = js ''https://a.b''"
  "r_lr publishedRecord = js ''l:x''" "r_su publishedRecord = js ''https://s''"
  "r_sg publishedRecord = js ''AQ''" "r_agentFQDN publishedRecord = js ''a.b''"
  "r_ka publishedRecord = None" "r_cu publishedRecord = None" "r_fl publishedRecord = None"
  by (simp_all add: publishedRecord_def emptyRecord_def)

lemma example_normalize:
  "normalizeFQDN asciiPlatform (js ''b'') False = Inr (js ''b'')"
  "normalizeFQDN asciiPlatform (js ''a.b'') a = Inr (js ''a.b'')"
  by (simp_all add: normalizeFQDN_def plainHost_def asciiPlatform_def asciiUrl_def eval_names)

lemma example_validate: "validate asciiPlatform publishedRecord = Inr ()"
  using example_normalize
  by (simp add: validate_def validateEkHost_def validateHttpsUrlHost_def validateHttpsUrl_def
      httpsPrefix_def validateLrFormat_def lrMethod_def SUPPORTED_DNSID_VERSIONS_def DNSID_VERSION_def
      asciiPlatform_def asciiUrl_def eval_names)

lemma example_sg: "toBase64Url [1] = js ''AQ''"
  by (simp add: toBase64Url_def b64char_def)

lemma example_current:
  "currentDraft01SigningKey \<lparr>jwks_keys = [edKey (js (c # cs)) x]\<rparr> = Inr (edKey (js (c # cs)) x)"
  by (simp add: currentDraft01SigningKey_def DRAFT01_SIGNING_ALGS_def)

lemma example_encoding: "publicKeyEncodingValid (edKey kid entityX) = Inr True"
  by (simp add: publicKeyEncodingValid_def isStr_def decodeCoordinate_def entityX_def toBase64Url_roundtrip
      yAtLeastP_def ED25519_SMALL_ORDER_def byteHex_def hexDigit_def)

lemma example_distinct: "operationalX \<noteq> entityX" "entityX \<noteq> []" "operationalX \<noteq> []"
proof -
  show "operationalX \<noteq> entityX"
    using base64url.enc_eq_iff [of "10 # replicate 31 0" "9 # replicate 31 0"]
    by (simp add: entityX_def operationalX_def)
  show "entityX \<noteq> []" "operationalX \<noteq> []"
    using base64url.enc_eq_iff [of "9 # replicate 31 0" "[]"] base64url.enc_eq_iff [of "10 # replicate 31 0" "[]"]
    by (simp_all add: entityX_def operationalX_def toBase64Url_def [of "[]"])
qed

lemma example_signature:
  "verifyDraft01RecordSignature acceptingCrypto (js ''AQ'') bs exampleEk = Inr (edKey (js ''e'') entityX)"
proof -
  have "verifyWithKey acceptingCrypto (Inr bs) [1] (edKey (js ''e'') entityX) (Some (js ''EdDSA''))"
    by (simp add: verifyWithKey_def example_encoding acceptingCrypto_def exampleCrypto_def
        getVerifyAlgorithm_def)
  then show ?thesis
    unfolding verifyDraft01RecordSignature_iff exampleEk_def
    by (intro conjI exI [of _ "[1]"] exI [of _ "js ''EdDSA''"])
      (use example_current [of "CHR ''e''" "[]"] in \<open>simp_all add: example_sg\<close>)
qed

lemma example_thumbprint: "joseThumbprint acceptingCrypto (edKey kid x) = Inr x"
  by (simp add: acceptingCrypto_def exampleCrypto_def)

lemma example_ek:
  "fetchRecordSigningJwks asciiPlatform acceptingCrypto exampleManager publishedRecord rv =
     Inr (exampleEk, exampleCert)"
  using example_normalize example_distinct example_current [of "CHR ''e''" "[]"]
  by (simp add: fetchRecordSigningJwks_def signatureVerificationKeyAllowedHost_def fetchProtocolJson_def
      exampleManager_def exampleFetch_def keysArray_def lookupProp_def exampleEk_def
      validateRecordSigningKeyset_def validateRecordSigning_def assertImportablePublicKey_def
      assertPublicKeyMaterial_def isStr_def nonEmptyString_def acceptingCrypto_def exampleCrypto_def
      assertUniqueKids_def getp_def)

lemma example_ku:
  "fetchRuntimeJwks asciiPlatform exampleManager publishedRecord rv = Inr (exampleKu, exampleCert)"
  using example_normalize example_current [of "CHR ''o''" "[]"]
  by (simp add: fetchRuntimeJwks_def runtimeKeyAllowedHost_def fetchProtocolJson_def
      exampleManager_def exampleFetch_def keysArray_def lookupProp_def exampleKu_def
      validateOperational_def assertUniqueKids_def getp_def)

lemma example_separation: "assertKeySeparation acceptingCrypto exampleEk exampleKu = Inr ()"
  unfolding assertKeySeparation_iff
  using example_distinct by (auto simp: exampleEk_def exampleKu_def example_thumbprint)

lemma example_identity:
  "verifyIdentityEvidence asciiPlatform acceptingCrypto exampleManager (js ''a.b'') publishedRecord exampleEk
     exampleCert (edKey (js ''e'') entityX) rv now =
   Inr \<lparr>id_jwks = exampleKu, id_tlsCert = exampleCert, id_signingKeyThumbprint = entityX,
        id_logReader = exampleReader, id_keyBoundAt = Some 0\<rparr>"
proof -
  have reader: "readerFor exampleManager publishedRecord rv = Inr exampleReader"
    by (simp add: readerFor_def exampleManager_def newReader_def lrMethod_def isLower_def isDigit_def)
  have gov: "hasStructuralGovernanceRelationship asciiPlatform publishedRecord = Inr True"
    using example_normalize by (simp add: hasStructuralGovernanceRelationship_def ends_with_def)
  have op: "currentDraft01SigningKey exampleKu = Inr (edKey (js ''o'') operationalX)"
    using example_current [of "CHR ''o''" "[]"] by (simp add: exampleKu_def)
  show ?thesis
    using example_distinct
    by (simp add: verifyIdentityEvidence_def example_ku example_separation reader gov op example_thumbprint
        exampleReader_def checkKeyAge_def)
qed

lemma example_status:
  "fetchActiveStatus asciiPlatform exampleManager (js ''https://s'') rv =
     Inr \<lparr>as_state = ACTIVE, as_lastTransitionAt = Some 7, as_revocationReason = None\<rparr>"
  by (simp add: fetchActiveStatus_def fetchProtocolJson_def exampleManager_def exampleFetch_def
      exampleStatus_def parseAgentStatus_def validateAgentStatus_def lookupProp_def
      normalizeStatusState_def VALID_STATES_def normalizeRevocationReason_def asciiPlatform_def asciiLower_def
      isLower_def isUpper_def ZERO_TIMESTAMP_MS_def nullish_def)

text \<open>The whole run.\<close>

definition exampleResult :: VerifiedDomain where
  "exampleResult = \<lparr>vd_oid = 1, vd_domain = js ''a.b'', vd_record = publishedRecord, vd_jwks = exampleKu,
     vd_recordSigningJwks = exampleEk, vd_signingKey = edKey (js ''e'') entityX,
     vd_signingKeyThumbprint = entityX, vd_tlsCert = exampleCert, vd_recordSigningTlsCert = exampleCert,
     vd_registryStatus = \<lparr>as_state = ACTIVE, as_lastTransitionAt = Some 7, as_revocationReason = None\<rparr>,
     vd_verifiedAt = Some 1200, vd_dnsTTL = 1, vd_dnsExpiresAt = Some 2000, vd_keyBoundAt = Some 0,
     vd_lastStatusCheckAt = Some 1200, vd_dnssecState = VALID, vd_logReader = exampleReader\<rparr>"

lemma example_select:
  "selectRecord asciiPlatform (js ''a.b'') 1000 [\<lparr>txt_strings = JArr [JStr exampleText], txt_ttl = Fin 1\<rparr>] =
     Inr (publishedRecord, 1, Some 2000)"
proof -
  have len: "length exampleText \<le> 70" by (simp add: exampleText_def)
  have same: "publishedRecord\<lparr>r_agentFQDN := js ''a.b''\<rparr> = publishedRecord"
    by (simp add: publishedRecord_def)
  show ?thesis
    by (simp add: same selectRecord_def txtStrings_def timeClip_def example_parse example_validate not_less Let_def
        order_trans [OF len] del: js_Cons)
qed

lemma example_acquire:
  "acquireEvidence asciiPlatform acceptingCrypto exampleManager exampleRun (js ''a.b'') rv = Inr exampleResult"
proof -
  have dns: "lookupTxt exampleManager (js ''a.b'') =
      Inr ([\<lparr>txt_strings = JArr [JStr exampleText], txt_ttl = Fin 1\<rparr>], Some VALID)"
    by (simp add: lookupTxt_def exampleManager_def)
  have sec: "checkDnssec exampleManager (Some VALID) = Inr VALID"
    unfolding checkDnssec_iff by (simp add: dnssecAccepted_def exampleManager_def)
  show ?thesis
    unfolding acquireEvidence_def
    by (simp add: dns sec example_select example_ek example_signature example_identity example_status
        runBranches_def observed_def settle_def exampleRun_def exampleResult_def del: js_Cons)
qed

lemma example_fresh: "assertFresh (rn_fresh exampleRun) exampleResult = Inr ()"
  by (simp add: assertFresh_def exampleResult_def exampleRun_def exampleCert_def certExpired_def reached_def
      keyAgeBound_def)

theorem verifyDomainUncached_sound_witness:
  "verifyDomainUncached asciiPlatform acceptingCrypto exampleManager exampleRun (js ''a.b'') False Map.empty =
     (Inr exampleResult, Map.empty) \<and> verifiedSignature acceptingCrypto exampleResult \<and>
   verifiedBinding asciiPlatform acceptingCrypto exampleResult"
proof -
  have run: "verifyDomainUncached asciiPlatform acceptingCrypto exampleManager exampleRun (js ''a.b'') False Map.empty =
      (Inr exampleResult, Map.empty)"
    by (simp add: verifyDomainUncached_def example_acquire requireFreshEvidence_def example_fresh del: js_Cons)
  from verifyDomainUncached_sound [OF run] run show ?thesis by blast
qed

definition nullKeyManager :: manager where
  "nullKeyManager = exampleManager\<lparr>m_fetchJson := Some (\<lambda>_ _.
     Inr \<lparr>fr_data = JObj [(js ''keys'', JArr [JNull])], fr_tlsCert = exampleCert\<rparr>)\<rparr>"

theorem fetchRecordSigningJwks_null_key_witness:
  "\<exists>e. fetchRecordSigningJwks asciiPlatform acceptingCrypto nullKeyManager publishedRecord False = Inl e \<and>
     errorCode e = Some TLSError \<and> isTransient e"
  using example_normalize
  by (intro fetchRecordSigningJwks_null_key [where ks = "[JNull]" and host = "js ''b''"
      and res = "\<lparr>fr_data = JObj [(js ''keys'', JArr [JNull])], fr_tlsCert = exampleCert\<rparr>"])
    (simp_all add: nullKeyManager_def signatureVerificationKeyAllowedHost_def lookupProp_def)

end
