(* ===== verification/ManagerExample.thy ===== *)
theory ManagerExample
  imports Manager IdentityExample
begin

text \<open>
  Concrete runs of the identity manager, for the hypotheses of the theorems about shared operations and
  about calls.
\<close>

section \<open>A lookup overtaken by a refresh\<close>

definition domainAB :: jstring where "domainAB = js ''a.b''"

definition sharedOp :: "in_flight \<Rightarrow> SharedVerification" where
  "sharedOp w = \<lparr>sh_map = w, sh_domain = domainAB, sh_callers = 1, sh_aborted = False,
     sh_promise = None, sh_finished = False\<rparr>"

text \<open>A lookup starts, then a refresh, which drops the lookup from its map.\<close>

definition bothRunning :: manager_state where
  "bothRunning = \<lparr>ms_inFlight = (\<lambda>w. if w = Refreshes then [domainAB \<mapsto> 1] else Map.empty),
     ms_table = [sharedOp Verifications, sharedOp Refreshes], ms_cache = Map.empty\<rparr>"

definition lookupRunning :: manager_state where
  "lookupRunning = \<lparr>ms_inFlight = (\<lambda>w. if w = Verifications then [domainAB \<mapsto> 0] else Map.empty),
     ms_table = [sharedOp Verifications], ms_cache = Map.empty\<rparr>"

lemma lookupRunning_reachable:
  "mrun initialManager [Start Verifications domainAB, Join 0] lookupRunning"
proof -
  define s where "s = snd (startShared Verifications domainAB initialManager)"
  have "mstep initialManager (Start Verifications domainAB) s"
    unfolding s_def by (rule st_start) (simp add: initialManager_def)
  moreover have "mstep s (Join 0) (joinShared 0 s)"
    by (rule st_join) (simp_all add: s_def startShared_def initialManager_def registered_def Let_def)
  moreover have "joinShared 0 s = lookupRunning"
    by (auto simp: s_def lookupRunning_def joinShared_def updateShared_def startShared_def initialManager_def
        sharedOp_def Let_def)
  ultimately show ?thesis by (auto simp: mrun_Cons)
qed

lemma bothRunning_reachable:
  "mrun lookupRunning [Start Refreshes domainAB, Join 1] bothRunning"
proof -
  define s where "s = snd (startShared Refreshes domainAB lookupRunning)"
  have "mstep lookupRunning (Start Refreshes domainAB) s"
    unfolding s_def by (rule st_start) (simp add: lookupRunning_def)
  moreover have "mstep s (Join 1) (joinShared 1 s)"
    by (rule st_join) (simp_all add: s_def startShared_def lookupRunning_def registered_def Let_def)
  moreover have "joinShared 1 s = bothRunning"
    by (auto simp: s_def lookupRunning_def bothRunning_def joinShared_def updateShared_def startShared_def
        dropOlder_def sharedOp_def Let_def fun_eq_iff)
  ultimately show ?thesis by (auto simp: mrun_Cons)
qed

text \<open>The refresh is handled, and then the older lookup, with another result.\<close>

definition olderVD :: VerifiedDomain where "olderVD = exampleVD\<lparr>vd_oid := 2\<rparr>"

definition afterBoth :: manager_state where
  "afterBoth = handleResult 0 20 (Inr olderVD) (handleResult 1 10 (Inr exampleVD) bothRunning)"

lemma afterBoth_cache: "ms_cache afterBoth domainAB = Some \<lparr>ce_result = exampleVD, ce_expiresAt = Some 300\<rparr>"
  using expiry_example
  by (simp add: afterBoth_def handleResult_def handledState_def onSuccess_def bothRunning_def sharedOp_def
      registered_def dropOlder_def updateShared_def cachePut_def cacheEvict_def reached_def Let_def)
    (simp add: exampleVD_def)

theorem refresh_not_overwritten_witness:
  "\<exists>e. ms_cache afterBoth domainAB = Some e \<and>
     (ce_result e = exampleVD \<or>
      (\<exists>i now'. length (ms_table bothRunning) \<le> i \<and>
         Handle i now' (Inr (ce_result e)) \<in> set [Handle 0 20 (Inr olderVD)]))"
proof -
  let ?s1 = "handleResult 1 10 (Inr exampleVD) bothRunning"
  have reach: "mrun initialManager ([Start Verifications domainAB, Join 0] @ [Start Refreshes domainAB, Join 1]) bothRunning"
    by (rule mrun_append [OF lookupRunning_reachable bothRunning_reachable])
  have handled: "mstep bothRunning (Handle 1 10 (Inr exampleVD)) ?s1"
    by (rule st_handle) (simp_all add: bothRunning_def sharedOp_def)
  have later: "mrun ?s1 [Handle 0 20 (Inr olderVD)] afterBoth"
    unfolding afterBoth_def
    by (rule mrun_single, rule st_handle)
      (use handleResult_table [of 1 bothRunning 10 "Inr exampleVD" 0] in \<open>simp_all add: bothRunning_def sharedOp_def\<close>)
  have "ms_cache afterBoth (sh_domain (ms_table bothRunning ! 1)) = Some \<lparr>ce_result = exampleVD, ce_expiresAt = Some 300\<rparr>"
    using afterBoth_cache by (simp add: bothRunning_def sharedOp_def)
  from refresh_not_overwritten [OF reach _ _ _ _ expiry_example handled later this]
  show ?thesis using afterBoth_cache by (simp add: bothRunning_def sharedOp_def registered_def)
qed

section \<open>The last caller\<close>

theorem abort_needs_last_caller_witness:
  "sh_aborted (ms_table (leaveShared 0 lookupRunning) ! 0) \<and> Leave 0 = Leave 0 \<and>
   sh_callers (ms_table lookupRunning ! 0) = 1 \<and> \<not> sh_finished (ms_table lookupRunning ! 0)"
proof -
  have aborted: "sh_aborted (ms_table (leaveShared 0 lookupRunning) ! 0)"
    by (simp add: leaveShared_def updateShared_def lookupRunning_def sharedOp_def)
  have "mstep lookupRunning (Leave 0) (leaveShared 0 lookupRunning)"
    by (rule st_leave) (simp_all add: lookupRunning_def sharedOp_def)
  from abort_needs_last_caller [OF this _ _ aborted] aborted show ?thesis
    by (simp add: lookupRunning_def sharedOp_def)
qed

text \<open>
  An abandoned operation stays in its map until its \<open>finally\<close> has run, so that a caller who comes in
  between joins it, and is failed by the cancellation that the earlier callers caused.
\<close>

theorem join_after_abort:
  "\<exists>s. mrun initialManager [Start Verifications domainAB, Join 0, Leave 0, Join 0] s \<and>
     sh_callers (ms_table s ! 0) = 1 \<and> sh_aborted (ms_table s ! 0) \<and> ms_inFlight s Verifications domainAB = Some 0"
proof -
  let ?s = "leaveShared 0 lookupRunning"
  have "mstep lookupRunning (Leave 0) ?s"
    by (rule st_leave) (simp_all add: lookupRunning_def sharedOp_def)
  moreover have "mstep ?s (Join 0) (joinShared 0 ?s)"
    by (rule st_join) (simp_all add: leaveShared_def updateShared_def lookupRunning_def sharedOp_def registered_def)
  ultimately have "mrun lookupRunning [Leave 0, Join 0] (joinShared 0 ?s)" by (auto simp: mrun_Cons)
  from mrun_append [OF lookupRunning_reachable this] show ?thesis
    by (intro exI [of _ "joinShared 0 ?s"])
      (simp add: joinShared_def leaveShared_def updateShared_def lookupRunning_def sharedOp_def)
qed

section \<open>A call\<close>

definition callRun :: call_run where
  "callRun = \<lparr>cr_timeoutMs = None, cr_wait = Running, cr_late = False, cr_clocks = (1300, 1300),
     cr_uncached = exampleRun\<rparr>"

definition pinningManager :: manager where
  "pinningManager = exampleManager\<lparr>m_trustedEntities := Some [\<lparr>te_governanceId = js ''b'',
     te_entityKeyThumbprints = Some [entityX]\<rparr>]\<rparr>"

lemma exampleResult_policy:
  "callPolicy asciiPlatform pinningManager (verifyDomain None) domainAB exampleResult = Inr ()"
  by (simp add: callPolicy_def verifyDomain_def verifyMtlsPeer_def enforceCounterpartyAcceptance_def
      pinningManager_def exampleResult_def policyFlags_def)

theorem verifyDomain_enforces_policy_witness:
  "acceptable pinningManager exampleResult \<and> assertFresh 1300 exampleResult = Inr ()"
proof -
  have "finishCall asciiPlatform acceptingCrypto pinningManager callRun (verifyDomain None) domainAB
      (Ready exampleResult) initialManager = (Some (Inr exampleResult), initialManager)"
    using example_fresh exampleResult_policy
    by (simp add: finishCall_def callRun_def awaitedResult_def leaveAwaited_def verifyDomainWithinBudget_end_def
        verifyReusableIdentity_end_def mustReverify_def requireFreshEvidence_def exampleRun_def Let_def
        withVerificationBudget_def validTimeout_def)
  from verifyDomain_enforces_policy [OF this] show ?thesis
    by (simp add: verifyDomain_def callRun_def)
qed

text \<open>A caller joins a lookup whose result has no lifetime, and verifies again by itself.\<close>

definition zeroLifetime :: manager_state where
  "zeroLifetime = \<lparr>ms_inFlight = (\<lambda>_. Map.empty), ms_table = [(sharedOp Verifications)\<lparr>sh_callers := 2,
     sh_promise := Some (Inr (exampleResult\<lparr>vd_dnsTTL := 0\<rparr>)), sh_finished := True\<rparr>], ms_cache = Map.empty\<rparr>"

theorem zero_lifetime_not_shared_witness:
  "fst (finishCall asciiPlatform acceptingCrypto exampleManager callRun (verifyDomain None) domainAB
     (Awaiting Verifications 0 True) zeroLifetime) = Some (Inr exampleResult) \<and>
   (0 < vd_dnsTTL exampleResult \<or>
    acquireEvidence asciiPlatform acceptingCrypto exampleManager exampleRun domainAB (Verifications = Refreshes) = Inr exampleResult)"
proof -
  let ?s = "leaveShared 0 zeroLifetime"
  have policy: "callPolicy asciiPlatform exampleManager (verifyDomain None) domainAB exampleResult = Inr ()"
    by (simp add: callPolicy_def verifyDomain_def verifyMtlsPeer_def enforceCounterpartyAcceptance_def
        exampleManager_def exampleResult_def policyFlags_def)
  have "verifyDomainUncached asciiPlatform acceptingCrypto exampleManager exampleRun domainAB False (ms_cache ?s) =
      (Inr exampleResult, ms_cache ?s)"
    using example_acquire [of False] example_fresh
    by (simp add: verifyDomainUncached_def requireFreshEvidence_def domainAB_def del: js_Cons)
  then have "verifyReusableIdentity_end asciiPlatform acceptingCrypto exampleManager exampleRun domainAB
      (Awaiting Verifications 0 True) (Inr (exampleResult\<lparr>vd_dnsTTL := 0\<rparr>)) (ms_cache ?s) = (Inr exampleResult, ms_cache ?s)"
    by (simp add: verifyReusableIdentity_end_def mustReverify_def)
  then have call: "finishCall asciiPlatform acceptingCrypto exampleManager callRun (verifyDomain None) domainAB
      (Awaiting Verifications 0 True) zeroLifetime = (Some (Inr exampleResult), ?s)"
    using example_fresh policy
    by (simp add: finishCall_def callRun_def awaitedResult_def leaveAwaited_def verifyDomainWithinBudget_end_def
        requireFreshEvidence_def Let_def withVerificationBudget_def validTimeout_def zeroLifetime_def exampleRun_def)
  have "0 < vd_dnsTTL exampleResult \<or> acquireEvidence asciiPlatform acceptingCrypto exampleManager
      (cr_uncached callRun) domainAB (Verifications = Refreshes) = Inr exampleResult"
    by (rule zero_lifetime_not_shared [OF call]) (auto simp: zeroLifetime_def)
  with call show ?thesis by (simp add: callRun_def)
qed

theorem calls_are_runs_witness:
  "\<exists>ls'. mrun lookupRunning ls' (snd (beginCall asciiPlatform exampleManager callRun 5 (refreshDomain None) domainAB lookupRunning))"
  using calls_are_runs [OF lookupRunning_reachable, of asciiPlatform exampleManager callRun 5 "refreshDomain None" domainAB]
  by blast

section \<open>A status refresh\<close>

definition refreshRun :: refresh_run where
  "refreshRun = \<lparr>rr_checkedAt = 1250, rr_fresh = 1300, rr_cacheGet = 1300, rr_oid = 3\<rparr>"

theorem refreshStatus_keeps_evidence_witness:
  "\<exists>v. refreshStatus asciiPlatform exampleManager refreshRun exampleResult Map.empty = (Inr v, Map.empty) \<and>
     as_state (vd_registryStatus v) = ACTIVE \<and> expiry v = expiry exampleResult"
proof -
  have su: "r_su (vd_record exampleResult) = js ''https://s''" by (simp add: exampleResult_def)
  have "refetchStatus asciiPlatform exampleManager exampleResult =
      Inr \<lparr>as_state = ACTIVE, as_lastTransitionAt = Some 7, as_revocationReason = None\<rparr>"
    unfolding refetchStatus_def su
    by (simp add: fetchProtocolJson_def exampleManager_def exampleFetch_def
        exampleStatus_def parseAgentStatus_def validateAgentStatus_def lookupProp_def
        normalizeStatusState_def VALID_STATES_def normalizeRevocationReason_def asciiPlatform_def asciiLower_def
        isLower_def isUpper_def ZERO_TIMESTAMP_MS_def nullish_def)
  then obtain v where "refreshStatus asciiPlatform exampleManager refreshRun exampleResult Map.empty = (Inr v, Map.empty)"
    by (simp add: refreshStatus_def refreshRun_def requireFreshEvidence_def assertFresh_def exampleResult_def
        exampleCert_def certExpired_def reached_def keyAgeBound_def)
  with refreshStatus_keeps_evidence [OF this] show ?thesis by blast
qed

end
