(* ===== verification/Merkle.thy ===== *)
theory Merkle
  imports Prelude
begin

text \<open>
  The Merkle tree of a transparency log (\<open>log-c2sp-tlog/src/merkle.ts\<close>): leaf and node
  hashes, the level-by-level root of a list of entries, and the verifier of inclusion proofs.
  SHA-256 is the parameter \<open>H\<close>. The reference definitions are those of RFC 6962: the tree
  hash that splits at the largest power of two below the size, and the audit path of a leaf.
\<close>

section \<open>The code\<close>

text \<open>\<open>sha256\<close> hashes the concatenation of its chunks.\<close>

definition sha256 :: "(bytes \<Rightarrow> bytes) \<Rightarrow> bytes list \<Rightarrow> bytes" where
  "sha256 H chunks = H (concat chunks)"

definition leafHash :: "(bytes \<Rightarrow> bytes) \<Rightarrow> bytes \<Rightarrow> bytes" where
  "leafHash H entryBytes = sha256 H [[0], entryBytes]"

definition nodeHash :: "(bytes \<Rightarrow> bytes) \<Rightarrow> bytes \<Rightarrow> bytes \<Rightarrow> bytes" where
  "nodeHash H left right = sha256 H [[1], left, right]"

text \<open>The loop of \<open>inclusionRoot\<close> over the siblings of the proof.\<close>

fun inclusionLoop :: "(bytes \<Rightarrow> bytes) \<Rightarrow> bytes \<Rightarrow> int \<Rightarrow> int \<Rightarrow> bytes list \<Rightarrow> bytes" where
  "inclusionLoop H hash i n [] = hash"
| "inclusionLoop H hash i n (sibling # proof') =
     inclusionLoop H
       (if i mod 2 = 1 then nodeHash H sibling hash
        else if i < n - 1 then nodeHash H hash sibling
        else nodeHash H sibling hash)
       (i div 2) ((n + 1) div 2) proof'"

definition inclusionRoot ::
    "(bytes \<Rightarrow> bytes) \<Rightarrow> bytes \<Rightarrow> int \<Rightarrow> int \<Rightarrow> bytes list \<Rightarrow> string + bytes" where
  "inclusionRoot H leaf index treeSize proof' =
     (if \<bar>index\<bar> > MAX_SAFE \<or> \<bar>treeSize\<bar> > MAX_SAFE \<or> index < 0 \<or> treeSize \<le> index
      then Inl ''invalid inclusion index or tree size''
      else Inr (inclusionLoop H leaf index treeSize proof'))"

definition verifyInclusion ::
    "(bytes \<Rightarrow> bytes) \<Rightarrow> bytes \<Rightarrow> int \<Rightarrow> int \<Rightarrow> bytes \<Rightarrow> bytes list \<Rightarrow> string + bool" where
  "verifyInclusion H entryBytes index treeSize rootHash proof' =
     bindE (inclusionRoot H (leafHash H entryBytes) index treeSize proof')
       (\<lambda>root. Inr (root = rootHash))"

text \<open>One pass of the \<open>while\<close> loop of \<open>merkleRootFromEntries\<close>: pair up a level.\<close>

fun pairLevel :: "('a \<Rightarrow> 'a \<Rightarrow> 'a) \<Rightarrow> 'a list \<Rightarrow> 'a list" where
  "pairLevel nd (x # y # zs) = nd x y # pairLevel nd zs"
| "pairLevel nd xs = xs"

lemma length_pairLevel: "length (pairLevel nd xs) = (length xs + 1) div 2"
  by (induction nd xs rule: pairLevel.induct) auto

text \<open>The loop runs until one hash is left; it is never entered with an empty level.\<close>

function levelLoop :: "(bytes \<Rightarrow> bytes) \<Rightarrow> bytes list \<Rightarrow> bytes" where
  "levelLoop H level =
     (if 1 < length level then levelLoop H (pairLevel (nodeHash H) level)
      else case level of [] \<Rightarrow> [] | h # _ \<Rightarrow> h)"
  by pat_completeness auto
termination
  by (relation "measure (\<lambda>(H, level). length level)") (auto simp: length_pairLevel)

declare levelLoop.simps [simp del]

definition merkleRootFromEntries :: "(bytes \<Rightarrow> bytes) \<Rightarrow> bytes list \<Rightarrow> bytes" where
  "merkleRootFromEntries H entries =
     (if entries = [] then sha256 H [] else levelLoop H (map (leafHash H) entries))"

section \<open>The reference: RFC 6962\<close>

text \<open>The largest power of two below \<open>n\<close>, for \<open>2 \<le> n\<close>.\<close>

fun splitPoint :: "nat \<Rightarrow> nat" where
  "splitPoint n = (if n \<le> 2 then 1 else 2 * splitPoint ((n + 1) div 2))"

declare splitPoint.simps [simp del]

lemma splitPoint_bounds: "2 \<le> n \<Longrightarrow> splitPoint n < n \<and> n \<le> 2 * splitPoint n"
proof (induction n rule: splitPoint.induct)
  case (1 n)
  show ?case
  proof (cases "n \<le> 2")
    case True
    with "1.prems" show ?thesis by (simp add: splitPoint.simps)
  next
    case False
    then have "2 \<le> (n + 1) div 2" by linarith
    with "1.IH" False have "splitPoint ((n + 1) div 2) < (n + 1) div 2"
      and "(n + 1) div 2 \<le> 2 * splitPoint ((n + 1) div 2)" by auto
    with False show ?thesis by (simp add: splitPoint.simps [of n]) linarith
  qed
qed

lemma splitPoint_pos [simp]: "0 < splitPoint n"
  by (induction n rule: splitPoint.induct) (simp add: splitPoint.simps)

lemma splitPoint_neq_0 [simp]: "splitPoint n \<noteq> 0"
  using splitPoint_pos [of n] by linarith

lemma splitPoint_power: "\<exists>j. splitPoint n = 2 ^ j"
proof (induction n rule: splitPoint.induct)
  case (1 n)
  show ?case
  proof (cases "n \<le> 2")
    case True
    then have "splitPoint n = 2 ^ 0" by (simp add: splitPoint.simps)
    then show ?thesis ..
  next
    case False
    with "1.IH" obtain j where "splitPoint ((n + 1) div 2) = 2 ^ j" by blast
    with False have "splitPoint n = 2 ^ Suc j" by (simp add: splitPoint.simps [of n])
    then show ?thesis ..
  qed
qed

text \<open>The tree hash over the hashes of a level, and of a list of entries.\<close>

function treeHash :: "('a \<Rightarrow> 'a \<Rightarrow> 'a) \<Rightarrow> 'a list \<Rightarrow> 'a" where
  "treeHash nd hs =
     (if length hs \<le> 1 then hd hs
      else nd (treeHash nd (take (splitPoint (length hs)) hs))
              (treeHash nd (drop (splitPoint (length hs)) hs)))"
  by pat_completeness auto
termination
proof (relation "measure (\<lambda>(nd, hs). length hs)", goal_cases)
  case (2 nd hs)
  then show ?case using splitPoint_bounds [of "length hs"] by simp
next
  case (3 nd hs)
  then show ?case by (auto intro!: diff_less)
qed simp

declare treeHash.simps [simp del]

definition MTH :: "(bytes \<Rightarrow> bytes) \<Rightarrow> bytes list \<Rightarrow> bytes" where
  "MTH H entries =
     (if entries = [] then H [] else treeHash (nodeHash H) (map (leafHash H) entries))"

text \<open>The audit path of leaf \<open>m\<close>.\<close>

function auditPath :: "('a \<Rightarrow> 'a \<Rightarrow> 'a) \<Rightarrow> nat \<Rightarrow> 'a list \<Rightarrow> 'a list" where
  "auditPath nd m hs =
     (if length hs \<le> 1 then []
      else let k = splitPoint (length hs) in
        if m < k then auditPath nd m (take k hs) @ [treeHash nd (drop k hs)]
        else auditPath nd (m - k) (drop k hs) @ [treeHash nd (take k hs)])"
  by pat_completeness auto
termination
proof (relation "measure (\<lambda>(nd, m, hs). length hs)", goal_cases)
  case (2 nd m hs x)
  then show ?case using splitPoint_bounds [of "length hs"] by simp
next
  case (3 nd m hs x)
  then show ?case by (auto intro!: diff_less)
qed simp

declare auditPath.simps [simp del]

section \<open>Pairing a level\<close>

lemma treeHash_single [simp]: "treeHash nd [h] = h"
  by (simp add: treeHash.simps)

lemma treeHash_pair [simp]: "treeHash nd [x, y] = nd x y"
  by (simp add: treeHash.simps splitPoint.simps)

lemma pairLevel_append:
  "even (length xs) \<Longrightarrow> pairLevel nd (xs @ ys) = pairLevel nd xs @ pairLevel nd ys"
  by (induction nd xs rule: pairLevel.induct) auto

lemma pairLevel_nth:
  "Suc (2 * i) < length xs \<Longrightarrow> pairLevel nd xs ! i = nd (xs ! (2 * i)) (xs ! Suc (2 * i))"
proof (induction nd xs arbitrary: i rule: pairLevel.induct)
  case (1 nd x y zs)
  then show ?case by (cases i) auto
qed auto

lemma pairLevel_nth_last:
  "length xs = Suc (2 * i) \<Longrightarrow> pairLevel nd xs ! i = xs ! (2 * i)"
proof (induction nd xs arbitrary: i rule: pairLevel.induct)
  case (1 nd x y zs)
  then show ?case by (cases i) auto
qed auto

text \<open>Beyond two leaves the split point is even, and pairing halves it.\<close>

lemma splitPoint_half:
  "2 < n \<Longrightarrow> splitPoint n = 2 * splitPoint ((n + 1) div 2)"
  by (simp add: splitPoint.simps [of n])

lemma pairLevel_take_drop:
  fixes nd :: "'a \<Rightarrow> 'a \<Rightarrow> 'a"
  assumes "2 < length hs"
  defines "k \<equiv> splitPoint (length hs)"
    and "k' \<equiv> splitPoint (length (pairLevel nd hs))"
  shows "k = 2 * k'" "pairLevel nd (take k hs) = take k' (pairLevel nd hs)"
    "pairLevel nd (drop k hs) = drop k' (pairLevel nd hs)"
proof -
  show k: "k = 2 * k'"
    using assms(1) by (simp add: k_def k'_def length_pairLevel splitPoint_half)
  have "k < length hs"
    using splitPoint_bounds [of "length hs"] assms(1) by (simp add: k_def)
  then have len: "length (take k hs) = 2 * k'" by (simp add: k)
  then have "pairLevel nd hs = pairLevel nd (take k hs) @ pairLevel nd (drop k hs)"
    using pairLevel_append [of "take k hs" nd "drop k hs"] by simp
  moreover have "length (pairLevel nd (take k hs)) = k'"
    unfolding length_pairLevel len by simp
  ultimately show "pairLevel nd (take k hs) = take k' (pairLevel nd hs)"
    and "pairLevel nd (drop k hs) = drop k' (pairLevel nd hs)"
    by simp_all
qed

lemma treeHash_pairLevel: "hs \<noteq> [] \<Longrightarrow> treeHash nd (pairLevel nd hs) = treeHash nd hs"
proof (induction nd hs rule: treeHash.induct)
  case (1 nd hs)
  let ?k = "splitPoint (length hs)" and ?k' = "splitPoint (length (pairLevel nd hs))"
  consider "length hs \<le> 1" | "length hs = 2" | "2 < length hs" by linarith
  then show ?case
  proof cases
    case 1
    with \<open>hs \<noteq> []\<close> show ?thesis by (cases hs) auto
  next
    case 2
    then obtain x y where "hs = [x, y]"
      by (metis One_nat_def Suc_1 length_0_conv length_Suc_conv)
    then show ?thesis by simp
  next
    case 3
    note split = pairLevel_take_drop [OF 3, of nd]
    have k: "?k < length hs" "0 < ?k"
      using splitPoint_bounds [of "length hs"] 3 by simp_all
    then have ne: "take ?k hs \<noteq> []" "drop ?k hs \<noteq> []" by auto
    have "length (pairLevel nd hs) > 1" using 3 by (simp add: length_pairLevel)
    then have "treeHash nd (pairLevel nd hs) =
        nd (treeHash nd (pairLevel nd (take ?k hs))) (treeHash nd (pairLevel nd (drop ?k hs)))"
      by (simp add: treeHash.simps [of nd "pairLevel nd hs"] split(2,3))
    also have "\<dots> = treeHash nd hs"
      using "1.IH" ne 3 by (simp add: treeHash.simps [of nd hs])
    finally show ?thesis .
  qed
qed

lemma levelLoop_treeHash: "level \<noteq> [] \<Longrightarrow> levelLoop H level = treeHash (nodeHash H) level"
proof (induction H level rule: levelLoop.induct)
  case (1 H level)
  show ?case
  proof (cases "1 < length level")
    case True
    then have "pairLevel (nodeHash H) level \<noteq> []"
      using length_pairLevel [of "nodeHash H" level] by auto
    with 1 True show ?thesis
      by (simp add: levelLoop.simps [of H level] treeHash_pairLevel)
  next
    case False
    with "1.prems" show ?thesis
      by (cases level) (auto simp: levelLoop.simps)
  qed
qed

section \<open>Roots\<close>

text \<open>
  C33. The level-by-level loop of \<open>merkleRootFromEntries\<close> computes the RFC 6962 Merkle tree
  hash of the entries, for every list of entries and every hash function.
\<close>

theorem merkleRootFromEntries_MTH: "merkleRootFromEntries H entries = MTH H entries"
  by (simp add: merkleRootFromEntries_def MTH_def levelLoop_treeHash sha256_def)

section \<open>Audit paths\<close>

text \<open>
  The first element of an audit path is the sibling of the leaf, unless the leaf is the last
  one of an odd level, which is promoted; the rest is the audit path one level up.
\<close>

definition siblings :: "nat \<Rightarrow> 'a list \<Rightarrow> 'a list" where
  "siblings m hs =
     (if even m \<and> Suc m = length hs then []
      else [hs ! (if odd m then m - 1 else Suc m)])"

lemma auditPath_step:
  assumes "m < length hs" and "2 \<le> length hs"
  shows "auditPath nd m hs = siblings m hs @ auditPath nd (m div 2) (pairLevel nd hs)"
  using assms
proof (induction nd m hs rule: auditPath.induct)
  case (1 nd m hs)
  let ?k = "splitPoint (length hs)" and ?k' = "splitPoint (length (pairLevel nd hs))"
  show ?case
  proof (cases "length hs = 2")
    case True
    then obtain x y where "hs = [x, y]"
      by (metis One_nat_def Suc_1 length_0_conv length_Suc_conv)
    with "1.prems" show ?thesis
      by (cases m) (auto simp: auditPath.simps splitPoint.simps siblings_def)
  next
    case False
    with "1.prems" have n: "2 < length hs" by simp
    note split = pairLevel_take_drop [OF n, of nd]
    have k: "?k < length hs" "?k = 2 * ?k'" "0 < ?k'"
      using splitPoint_bounds [of "length hs"] n split(1) by simp_all
    have up: "1 < length (pairLevel nd hs)" using n by (simp add: length_pairLevel)
    have ne: "take ?k hs \<noteq> []" "drop ?k hs \<noteq> []" using k by auto
    note unf = auditPath.simps [of nd m hs] auditPath.simps [of nd "m div 2" "pairLevel nd hs"]
    show ?thesis
    proof (cases "m < ?k")
      case True
      then have "m div 2 < ?k'" using k(2) by linarith
      moreover have "siblings m (take ?k hs) = siblings m hs"
        using True k by (auto simp: siblings_def) presburger
      moreover have "auditPath nd m (take ?k hs) =
          siblings m (take ?k hs) @ auditPath nd (m div 2) (pairLevel nd (take ?k hs))"
        using "1.IH"(1) n True k by auto
      ultimately show ?thesis
        using n up True
        by (simp add: unf Let_def split(2) treeHash_pairLevel [OF ne(2)] flip: split(3))
    next
      case False
      then have m: "\<not> m div 2 < ?k'" "(m - ?k) div 2 = m div 2 - ?k'" using k(2) by linarith+
      have sib: "siblings (m - ?k) (drop ?k hs) = siblings m hs"
        using False k
        by (auto simp: siblings_def Suc_diff_le) (rule arg_cong [where f = "nth hs"], presburger)
      have "auditPath nd (m - ?k) (drop ?k hs) =
          siblings (m - ?k) (drop ?k hs) @
          auditPath nd ((m - ?k) div 2) (pairLevel nd (drop ?k hs))"
      proof (cases "length (drop ?k hs) \<le> 1")
        case True
        then have one: "length (drop ?k hs) = 1" using k(1) by simp
        then have "m = ?k" using "1.prems"(1) False by simp
        with one k(2) show ?thesis
          by (simp add: auditPath.simps siblings_def length_pairLevel)
      next
        case False
        with "1.IH"(2) n \<open>\<not> m < ?k\<close> "1.prems"(1) show ?thesis by auto
      qed
      with n up False m sib show ?thesis
        by (simp add: unf Let_def split(3) treeHash_pairLevel [OF ne(1)] flip: split(2))
    qed
  qed
qed

text \<open>On the right edge of the tree every sibling is a left one.\<close>

lemma inclusionLoop_edge:
  "0 < n \<Longrightarrow> inclusionLoop H h (n - 1) n ps = foldl (\<lambda>h s. nodeHash H s h) h ps"
proof (induction ps arbitrary: h n)
  case (Cons s ps)
  have "(n - 1) div 2 = (n + 1) div 2 - 1" "0 < (n + 1) div 2" using Cons.prems by linarith+
  with Cons show ?case by simp
qed simp

lemma inclusionLoop_promoted:
  assumes "even m" and "Suc m = n"
  shows "inclusionLoop H h (int m) (int n) ps =
    inclusionLoop H h (int (m div 2)) (int ((n + 1) div 2)) ps"
proof -
  have "int m = int n - 1" "int (m div 2) = int ((n + 1) div 2) - 1"
    using assms by auto
  with assms show ?thesis by (simp only: inclusionLoop_edge)
qed

lemma inclusionLoop_auditPath:
  assumes "m < length hs"
  shows "inclusionLoop H (hs ! m) (int m) (int (length hs)) (auditPath (nodeHash H) m hs) =
    treeHash (nodeHash H) hs"
  using assms
proof (induction "length hs" arbitrary: m hs rule: less_induct)
  case less
  let ?nd = "nodeHash H" and ?up = "pairLevel (nodeHash H) hs"
  show ?case
  proof (cases "length hs \<le> 1")
    case True
    with less.prems obtain h where "hs = [h]" and "m = 0"
      by (cases hs) auto
    then show ?thesis by (simp add: auditPath.simps)
  next
    case False
    then have n: "2 \<le> length hs" "length ?up < length hs" "m div 2 < length ?up"
      using less.prems by (auto simp: length_pairLevel)
    have IH: "inclusionLoop H (?up ! (m div 2)) (int (m div 2)) (int (length ?up))
        (auditPath ?nd (m div 2) ?up) = treeHash ?nd hs"
      using less.hyps [OF n(2,3)] treeHash_pairLevel [of hs ?nd] n(2) by fastforce
    have up: "int m div 2 = int (m div 2)" "(1 + int (length hs)) div 2 = int (length ?up)"
      by (auto simp: length_pairLevel)
    note step = auditPath_step [OF less.prems n(1), of ?nd]
    consider (promoted) "even m" "Suc m = length hs" | (left) "odd m"
      | (right) "even m" "Suc m < length hs"
      using less.prems by linarith
    then show ?thesis
    proof cases
      case promoted
      then have "?up ! (m div 2) = hs ! m"
        using pairLevel_nth_last [of hs "m div 2" ?nd] by simp
      with promoted IH show ?thesis
        by (simp add: step siblings_def inclusionLoop_promoted length_pairLevel)
    next
      case left
      then have "?up ! (m div 2) = ?nd (hs ! (m - 1)) (hs ! m)"
        using pairLevel_nth [of "m div 2" hs ?nd] less.prems by (auto elim!: oddE)
      moreover have "int m mod 2 = 1" using left by presburger
      ultimately show ?thesis
        using left IH by (simp add: step siblings_def up add.commute)
    next
      case right
      then have "?up ! (m div 2) = ?nd (hs ! m) (hs ! Suc m)"
        using pairLevel_nth [of "m div 2" hs ?nd] by auto
      moreover have "int m mod 2 \<noteq> 1" "int m < int (length hs) - 1" using right by presburger+
      ultimately show ?thesis
        using right IH by (simp add: step siblings_def up add.commute)
    qed
  qed
qed

section \<open>Inclusion proofs\<close>

text \<open>
  The byte strings the verifier hashes while it folds a proof. Soundness is stated for a hash
  with outputs of 32 bytes and without a collision among the strings actually hashed: such a
  hypothesis can hold for a function into 32 bytes, unlike injectivity.
\<close>

fun loopInputs :: "(bytes \<Rightarrow> bytes) \<Rightarrow> bytes \<Rightarrow> int \<Rightarrow> int \<Rightarrow> bytes list \<Rightarrow> bytes set" where
  "loopInputs H hash i n [] = {}"
| "loopInputs H hash i n (s # ps) =
     (let input = (if i mod 2 = 1 then 1 # s @ hash
                   else if i < n - 1 then 1 # hash @ s else 1 # s @ hash)
      in insert input (loopInputs H (H input) (i div 2) ((n + 1) div 2) ps))"

definition inclusionInputs :: "(bytes \<Rightarrow> bytes) \<Rightarrow> bytes \<Rightarrow> int \<Rightarrow> int \<Rightarrow> bytes list \<Rightarrow> bytes set" where
  "inclusionInputs H entry i n ps = insert (0 # entry) (loopInputs H (leafHash H entry) i n ps)"

lemma leafHash_eq: "leafHash H e = H (0 # e)"
  by (simp add: leafHash_def sha256_def)

lemma nodeHash_eq: "nodeHash H l r = H (1 # l @ r)"
  by (simp add: nodeHash_def sha256_def)

lemma node_input_eq_iff:
  "length l = length l' \<Longrightarrow> (1::byte) # l @ r = 1 # l' @ r' \<longleftrightarrow> l = l' \<and> r = r'"
  by auto

lemma inclusionLoop_length:
  "(\<And>x. length (H x) = 32) \<Longrightarrow> length h = 32 \<Longrightarrow> length (inclusionLoop H h i n ps) = 32"
  by (induction ps arbitrary: h i n) (simp_all add: nodeHash_eq)

text \<open>Two proofs of the same length for the same position that reach the same root agree.\<close>

lemma inclusionLoop_inj:
  assumes H: "\<And>x. length (H x) = 32"
    and inj: "inj_on H (loopInputs H h i n ps \<union> loopInputs H h' i n qs)"
    and "length ps = length qs" "length h = 32" "length h' = 32"
    and "\<forall>p \<in> set ps \<union> set qs. length p = 32"
    and "inclusionLoop H h i n ps = inclusionLoop H h' i n qs"
  shows "h = h' \<and> ps = qs"
  using assms(3,2,4-)
proof (induction ps qs arbitrary: h h' i n rule: list_induct2)
  case (Cons p ps q qs)
  define x where "x = (if i mod 2 = 1 \<or> \<not> i < n - 1 then 1 # p @ h else 1 # h @ p)"
  define y where "y = (if i mod 2 = 1 \<or> \<not> i < n - 1 then 1 # q @ h' else 1 # h' @ q)"
  have in_x: "loopInputs H h i n (p # ps) =
      insert x (loopInputs H (H x) (i div 2) ((n + 1) div 2) ps)"
    and in_y: "loopInputs H h' i n (q # qs) =
      insert y (loopInputs H (H y) (i div 2) ((n + 1) div 2) qs)"
    by (auto simp: x_def y_def Let_def)
  have run: "inclusionLoop H (H x) (i div 2) ((n + 1) div 2) ps =
      inclusionLoop H (H y) (i div 2) ((n + 1) div 2) qs"
    using Cons.prems(5) by (auto simp: x_def y_def nodeHash_eq split: if_splits)
  note inj = Cons.prems(1) [unfolded in_x in_y]
  have sub: "inj_on H (loopInputs H (H x) (i div 2) ((n + 1) div 2) ps \<union>
      loopInputs H (H y) (i div 2) ((n + 1) div 2) qs)"
    by (rule inj_on_subset [OF inj]) blast
  have eq: "H x = H y \<and> ps = qs"
    by (rule Cons.IH [OF sub H H _ run]) (use Cons.prems(4) in auto)
  have "x = y"
    by (rule inj_onD [OF inj conjunct1 [OF eq]]) simp_all
  with eq show ?case
    using Cons.prems(2-4) by (auto simp: x_def y_def split: if_splits)
qed simp

lemma MTH_treeHash:
  "entries \<noteq> [] \<Longrightarrow> MTH H entries = treeHash (nodeHash H) (map (leafHash H) entries)"
  by (simp add: MTH_def)

text \<open>
  C22. Inclusion proofs are complete: for every entry of a log whose size is a safe integer,
  \<open>verifyInclusion\<close> accepts the RFC 6962 audit path of its index against the tree's root.
\<close>

theorem verifyInclusion_complete:
  assumes "m < length entries" and "int (length entries) \<le> MAX_SAFE"
  shows "verifyInclusion H (entries ! m) (int m) (int (length entries)) (MTH H entries)
    (auditPath (nodeHash H) m (map (leafHash H) entries)) = Inr True"
proof -
  have "entries \<noteq> []" using assms(1) by auto
  with assms inclusionLoop_auditPath [of m "map (leafHash H) entries" H] show ?thesis
    by (simp add: verifyInclusion_def inclusionRoot_def MTH_treeHash)
qed

lemma treeHash_length:
  assumes H: "\<And>x. length (H x) = 32"
  shows "hs \<noteq> [] \<Longrightarrow> \<forall>h \<in> set hs. length h = 32 \<Longrightarrow>
    length (treeHash (nodeHash H) hs) = 32"
  by (cases "length hs \<le> 1") (simp_all add: treeHash.simps [of "nodeHash H" hs] nodeHash_eq H)

lemma auditPath_length:
  assumes H: "\<And>x. length (H x) = 32"
  shows "m < length hs \<Longrightarrow> \<forall>h \<in> set hs. length h = 32 \<Longrightarrow>
    p \<in> set (auditPath (nodeHash H) m hs) \<Longrightarrow> length p = 32"
proof (induction "nodeHash H" m hs arbitrary: p rule: auditPath.induct)
  case (1 m hs)
  let ?k = "splitPoint (length hs)"
  show ?case
  proof (cases "length hs \<le> 1")
    case True
    with "1.prems" show ?thesis by (simp add: auditPath.simps)
  next
    case False
    then have k: "?k < length hs" "0 < ?k" using splitPoint_bounds [of "length hs"] by auto
    then have "take ?k hs \<noteq> []" "drop ?k hs \<noteq> []" by auto
    then have len: "length (treeHash (nodeHash H) (take ?k hs)) = 32"
      "length (treeHash (nodeHash H) (drop ?k hs)) = 32"
      using "1.prems"(2) by (auto intro!: treeHash_length [OF H] dest: in_set_takeD in_set_dropD)
    have sub: "\<forall>h \<in> set (take ?k hs). length h = 32" "\<forall>h \<in> set (drop ?k hs). length h = 32"
      using "1.prems"(2) by (auto dest: in_set_takeD in_set_dropD)
    note unf = auditPath.simps [of "nodeHash H" m hs]
    show ?thesis
    proof (cases "m < ?k")
      case True
      with "1.prems"(3) False len(2) show ?thesis
        using "1.hyps"(1) [OF False refl True _ sub(1)] k by (auto simp: unf Let_def)
    next
      case m: False
      with "1.prems"(3) False len(1) show ?thesis
        using "1.hyps"(2) [OF False refl m _ sub(2)] "1.prems"(1) by (auto simp: unf Let_def)
    qed
  qed
qed

text \<open>
  C30. Inclusion proofs are sound: a proof of the right length that \<open>verifyInclusion\<close> accepts for
  index \<open>m\<close> against the root of a log is the audit path of \<open>m\<close>, and the entry is the log's entry
  \<open>m\<close>, when SHA-256 has 32-byte outputs and no collision among the strings hashed on the two
  paths.
\<close>

theorem verifyInclusion_sound:
  assumes "\<forall>x. length (H x) = 32" and "\<forall>p \<in> set ps. length p = 32"
    and "verifyInclusion H e (int m) (int (length entries)) (MTH H entries) ps = Inr True"
    and "length ps = length (auditPath (nodeHash H) m (map (leafHash H) entries))"
    and "inj_on H (inclusionInputs H e (int m) (int (length entries)) ps \<union>
      inclusionInputs H (entries ! m) (int m) (int (length entries))
        (auditPath (nodeHash H) m (map (leafHash H) entries)))"
  shows "e = entries ! m \<and> ps = auditPath (nodeHash H) m (map (leafHash H) entries)"
proof -
  let ?path = "auditPath (nodeHash H) m (map (leafHash H) entries)"
  have H: "\<And>x. length (H x) = 32" using assms(1) by simp
  have m: "m < length entries" and run: "inclusionLoop H (leafHash H e) (int m)
      (int (length entries)) ps = MTH H entries"
    using assms(3)
    by (auto simp: verifyInclusion_def inclusionRoot_def result_simps split: if_splits)
  then have "entries \<noteq> []" by auto
  with m have "inclusionLoop H (leafHash H (entries ! m)) (int m) (int (length entries)) ?path =
      MTH H entries"
    using inclusionLoop_auditPath [of m "map (leafHash H) entries" H]
    by (simp add: MTH_treeHash)
  with run have eq: "inclusionLoop H (leafHash H e) (int m) (int (length entries)) ps =
      inclusionLoop H (leafHash H (entries ! m)) (int m) (int (length entries)) ?path" by simp
  have lens: "\<forall>p \<in> set ps \<union> set ?path. length p = 32"
    using assms(2) auditPath_length [OF H, of m "map (leafHash H) entries"] m
    by (auto simp: leafHash_eq H)
  have "leafHash H e = leafHash H (entries ! m) \<and> ps = ?path"
    by (rule inclusionLoop_inj [OF H _ assms(4) _ _ lens eq])
      (use assms(5) in \<open>auto simp: inclusionInputs_def leafHash_eq H elim!: inj_on_subset\<close>)
  then have leaf: "H (0 # e) = H (0 # entries ! m)" and "ps = ?path"
    by (simp_all add: leafHash_eq)
  moreover have "0 # e = 0 # entries ! m"
    by (rule inj_onD [OF assms(5) leaf]) (simp_all add: inclusionInputs_def)
  ultimately show ?thesis by simp
qed

text \<open>A small hash for concrete evaluation: 32 bytes, distinguishing lengths and byte sums.\<close>

definition toyHash :: "bytes \<Rightarrow> bytes" where
  "toyHash x = of_nat (length x) # sum_list x # replicate 30 0"

lemma length_toyHash [simp]: "length (toyHash x) = 32"
  by (simp add: toyHash_def)

theorem verifyInclusion_complete_witness:
  "verifyInclusion toyHash [20] 1 3 (MTH toyHash [[10], [20], [30]])
     (auditPath (nodeHash toyHash) 1 (map (leafHash toyHash) [[10], [20], [30]])) = Inr True"
  using verifyInclusion_complete [of 1 "[[10], [20], [30]]" toyHash] by (simp add: MAX_SAFE_def)

theorem verifyInclusion_sound_witness:
  "([10] :: bytes) = [[10], [20]] ! 0 \<and> [leafHash toyHash [20]] =
     auditPath (nodeHash toyHash) 0 (map (leafHash toyHash) [[10], [20]])"
proof (rule verifyInclusion_sound)
  have path: "auditPath (nodeHash toyHash) 0 (map (leafHash toyHash) [[10], [20]]) =
      [leafHash toyHash [20]]"
    by (simp add: auditPath.simps splitPoint.simps)
  show "verifyInclusion toyHash [10] (int 0) (int (length [[10], [20]]))
      (MTH toyHash [[10], [20]]) [leafHash toyHash [20]] = Inr True"
    by (simp add: verifyInclusion_def inclusionRoot_def MAX_SAFE_def MTH_def)
  show "length [leafHash toyHash [20]] =
      length (auditPath (nodeHash toyHash) 0 (map (leafHash toyHash) [[10], [20]]))"
    by (simp only: path)
  show "inj_on toyHash (inclusionInputs toyHash [10] (int 0) (int (length [[10], [20]]))
       [leafHash toyHash [20]] \<union>
     inclusionInputs toyHash ([[10], [20]] ! 0) (int 0) (int (length [[10], [20]]))
       (auditPath (nodeHash toyHash) 0 (map (leafHash toyHash) [[10], [20]])))"
    unfolding path by (simp add: inclusionInputs_def leafHash_eq toyHash_def)
qed (simp_all add: leafHash_eq)

text \<open>
  Without the condition on the proof's length the index is not bound. The verifier stops when
  the proof is used up and never checks that it has climbed to the root's level, so a proof
  that is too short for the index can reach the root through another leaf.

  C40. In every log of three entries, for every hash function, \<open>verifyInclusion\<close> accepts the
  third entry as the entry at index 1.
\<close>

theorem verifyInclusion_index_confusion:
  "verifyInclusion H c 1 3 (MTH H [a, b, c]) [nodeHash H (leafHash H a) (leafHash H b)] = Inr True"
  by (simp add: verifyInclusion_def inclusionRoot_def MAX_SAFE_def MTH_def treeHash.simps
      splitPoint.simps)

text \<open>
  What holds without that condition is membership: an accepted entry is some entry of the log.
  The strings hashed to build the tree of \<open>entries\<close>:
\<close>

function treeInputs :: "(bytes \<Rightarrow> bytes) \<Rightarrow> bytes list \<Rightarrow> bytes set" where
  "treeInputs H es =
     (if length es \<le> 1 then (\<lambda>e. 0 # e) ` set es
      else let k = splitPoint (length es) in
        insert (1 # MTH H (take k es) @ MTH H (drop k es))
          (treeInputs H (take k es) \<union> treeInputs H (drop k es)))"
  by pat_completeness auto
termination
proof (relation "measure (\<lambda>(H, es). length es)", goal_cases)
  case (2 H es x)
  then show ?case using splitPoint_bounds [of "length es"] by simp
next
  case (3 H es x)
  then show ?case by (auto intro!: diff_less)
qed simp

declare treeInputs.simps [simp del]

lemma MTH_split:
  assumes "1 < length es"
  defines "k \<equiv> splitPoint (length es)"
  shows "MTH H es = H (1 # MTH H (take k es) @ MTH H (drop k es))"
    and "take k es \<noteq> []" "drop k es \<noteq> []"
proof -
  have k: "k < length es" "k \<noteq> 0"
    using splitPoint_bounds [of "length es"] assms(1) by (simp_all add: k_def)
  then show "take k es \<noteq> []" "drop k es \<noteq> []" using assms(1) by auto
  then show "MTH H es = H (1 # MTH H (take k es) @ MTH H (drop k es))"
    using assms(1)
    by (simp add: MTH_treeHash treeHash.simps [of "nodeHash H" "map (leafHash H) es"]
        nodeHash_eq take_map drop_map flip: k_def)
qed

text \<open>The last step of the fold hashes one more pair.\<close>

lemma inclusionLoop_snoc:
  "\<exists>l r. (l = p \<and> r = inclusionLoop H h i n ps \<or> l = inclusionLoop H h i n ps \<and> r = p) \<and>
    inclusionLoop H h i n (ps @ [p]) = H (1 # l @ r) \<and>
    loopInputs H h i n (ps @ [p]) = insert (1 # l @ r) (loopInputs H h i n ps)"
proof (induction ps arbitrary: h i n)
  case Nil
  show ?case by (auto simp: nodeHash_eq Let_def)
next
  case (Cons q ps)
  define h' where "h' = (if i mod 2 = 1 then nodeHash H q h
    else if i < n - 1 then nodeHash H h q else nodeHash H q h)"
  from Cons.IH [of h' "i div 2" "(n + 1) div 2"] show ?case
    by (auto simp: h'_def Let_def nodeHash_eq split: if_splits)
qed

lemma inclusionLoop_member:
  assumes H: "\<And>x. length (H x) = 32"
  shows "es \<noteq> [] \<Longrightarrow> \<forall>p \<in> set ps. length p = 32 \<Longrightarrow>
    inclusionLoop H (leafHash H e) i n ps = MTH H es \<Longrightarrow>
    inj_on H (treeInputs H es \<union> inclusionInputs H e i n ps) \<Longrightarrow> e \<in> set es"
proof (induction ps arbitrary: es rule: rev_induct)
  case Nil
  show ?case
  proof (cases "length es \<le> 1")
    case True
    with Nil.prems(1) obtain e' where es: "es = [e']" by (cases es) auto
    with Nil.prems(3) have "H (0 # e) = H (0 # e')" by (simp add: MTH_def leafHash_eq)
    then have "0 # e = 0 # e'"
      by (rule inj_onD [OF Nil.prems(4)]) (simp_all add: es treeInputs.simps inclusionInputs_def)
    with es show ?thesis by simp
  next
    case False
    let ?k = "splitPoint (length es)"
    have "H (0 # e) = H (1 # MTH H (take ?k es) @ MTH H (drop ?k es))"
      using Nil.prems(3) MTH_split(1) [of es H] False by (simp add: leafHash_eq)
    then have "0 # e = 1 # MTH H (take ?k es) @ MTH H (drop ?k es)"
      by (rule inj_onD [OF Nil.prems(4)])
        (use False in \<open>simp_all add: treeInputs.simps [of H es] inclusionInputs_def Let_def\<close>)
    then show ?thesis by simp
  qed
next
  case (snoc p ps)
  let ?k = "splitPoint (length es)" and ?r = "inclusionLoop H (leafHash H e) i n ps"
  obtain a b where ab: "a = p \<and> b = ?r \<or> a = ?r \<and> b = p"
      "inclusionLoop H (leafHash H e) i n (ps @ [p]) = H (1 # a @ b)"
      "loopInputs H (leafHash H e) i n (ps @ [p]) =
        insert (1 # a @ b) (loopInputs H (leafHash H e) i n ps)"
    using inclusionLoop_snoc by metis
  note inj = snoc.prems(4) [unfolded inclusionInputs_def ab(3)]
  show ?case
  proof (cases "length es \<le> 1")
    case True
    with snoc.prems(1) obtain e' where es: "es = [e']" by (cases es) auto
    have "H (1 # a @ b) = H (0 # e')"
      using snoc.prems(3) ab(2) by (simp add: es MTH_def leafHash_eq)
    then have "1 # a @ b = 0 # e'"
      by (rule inj_onD [OF inj]) (simp_all add: es treeInputs.simps)
    then show ?thesis by simp
  next
    case False
    have tree: "treeInputs H es = insert (1 # MTH H (take ?k es) @ MTH H (drop ?k es))
        (treeInputs H (take ?k es) \<union> treeInputs H (drop ?k es))"
      using False by (simp add: treeInputs.simps [of H es] Let_def)
    have "H (1 # a @ b) = H (1 # MTH H (take ?k es) @ MTH H (drop ?k es))"
      using snoc.prems(3) ab(2) MTH_split(1) [of es H] False by simp
    then have "1 # a @ b = 1 # MTH H (take ?k es) @ MTH H (drop ?k es)"
      by (rule inj_onD [OF inj]) (simp_all add: tree)
    moreover have "length a = length (MTH H (take ?k es))"
      using ab(1) snoc.prems(2) MTH_split(2) [of es] False
        inclusionLoop_length [OF H, of "leafHash H e"] treeHash_length [OF H]
      by (auto simp: leafHash_eq H MTH_treeHash)
    ultimately have "a = MTH H (take ?k es)" "b = MTH H (drop ?k es)" by simp_all
    then consider "?r = MTH H (take ?k es)" | "?r = MTH H (drop ?k es)" using ab(1) by auto
    then show ?thesis
    proof cases
      case 1
      have "inj_on H (treeInputs H (take ?k es) \<union> inclusionInputs H e i n ps)"
        by (rule inj_on_subset [OF inj]) (auto simp: tree inclusionInputs_def)
      then have "e \<in> set (take ?k es)"
        using snoc.IH [OF _ _ 1] snoc.prems(2) MTH_split(2) [of es] False by simp
      then show ?thesis by (rule in_set_takeD)
    next
      case 2
      have "inj_on H (treeInputs H (drop ?k es) \<union> inclusionInputs H e i n ps)"
        by (rule inj_on_subset [OF inj]) (auto simp: tree inclusionInputs_def)
      then have "e \<in> set (drop ?k es)"
        using snoc.IH [OF _ _ 2] snoc.prems(2) MTH_split(3) [of es] False by simp
      then show ?thesis by (rule in_set_dropD)
    qed
  qed
qed

text \<open>
  C32. Every entry that \<open>verifyInclusion\<close> accepts against the root of a log, at whatever index
  and with a proof of whatever length, is an entry of that log, when SHA-256 has 32-byte outputs
  and no collision among the strings hashed for the tree and for the proof.
\<close>

theorem verifyInclusion_member:
  assumes "\<forall>x. length (H x) = 32" and "\<forall>p \<in> set ps. length p = 32" and "entries \<noteq> []"
    and "verifyInclusion H e index treeSize (MTH H entries) ps = Inr True"
    and "inj_on H (treeInputs H entries \<union> inclusionInputs H e index treeSize ps)"
  shows "e \<in> set entries"
proof (rule inclusionLoop_member [OF _ assms(3,2) _ assms(5)])
  show "inclusionLoop H (leafHash H e) index treeSize ps = MTH H entries"
    using assms(4) by (auto simp: verifyInclusion_def inclusionRoot_def split: if_splits)
qed (use assms(1) in simp)

theorem verifyInclusion_member_witness:
  "([10] :: bytes) \<in> set [[10], [20]]"
proof (rule verifyInclusion_member)
  show "verifyInclusion toyHash [10] 0 2 (MTH toyHash [[10], [20]]) [leafHash toyHash [20]] =
      Inr True"
    by (simp add: verifyInclusion_def inclusionRoot_def MAX_SAFE_def MTH_def)
  show "inj_on toyHash (treeInputs toyHash [[10], [20]] \<union>
      inclusionInputs toyHash [10] 0 2 [leafHash toyHash [20]])"
    by (auto simp: treeInputs.simps splitPoint.simps MTH_def inclusionInputs_def leafHash_eq
        toyHash_def inj_on_def)
qed (simp_all add: leafHash_eq)

end
