(* ===== verification/Consistency.thy ===== *)
theory Consistency
  imports Merkle
begin

text \<open>
  The verifier of consistency proofs between two sizes of a log
  (\<open>verifyC2spConsistencyProof\<close> in \<open>log-c2sp-tlog/src/checkpoint-trust.ts\<close>), with its
  correctness against the RFC 6962 tree: accepted proofs establish that the old log is a
  prefix of the new one, and the RFC 6962 proof is accepted.
\<close>

section \<open>The code\<close>

text \<open>
  The three loops of the function. Tree sizes are non-negative safe integers when they are
  reached, and \<open>index & 1\<close> is the parity of a safe integer, since the conversion to 32 bits
  keeps the lowest bit.
\<close>

text \<open>\<open>while ((oldIndex & 1) === 1)\<close>: halve both indexes.\<close>

function skipOdd :: "nat \<Rightarrow> nat \<Rightarrow> nat \<times> nat" where
  "skipOdd oldIndex newIndex =
     (if odd oldIndex then skipOdd (oldIndex div 2) (newIndex div 2) else (oldIndex, newIndex))"
  by pat_completeness auto
termination
  by (relation "measure fst") (auto elim: oddE)

text \<open>\<open>while (oldIndex !== 0 && (oldIndex & 1) === 0)\<close>: halve both indexes.\<close>

function skipEven :: "nat \<Rightarrow> nat \<Rightarrow> nat \<times> nat" where
  "skipEven oldIndex newIndex =
     (if oldIndex \<noteq> 0 \<and> even oldIndex then skipEven (oldIndex div 2) (newIndex div 2)
      else (oldIndex, newIndex))"
  by pat_completeness auto
termination
  by (relation "measure fst") auto

declare skipOdd.simps [simp del] skipEven.simps [simp del]

text \<open>
  The main loop over the rest of the proof; \<open>None\<close> is the early \<open>return false\<close>, otherwise the
  final values of \<open>newIndex\<close>, \<open>oldHash\<close> and \<open>newHash\<close>.
\<close>

fun consistencyLoop ::
    "(bytes \<Rightarrow> bytes) \<Rightarrow> nat \<Rightarrow> nat \<Rightarrow> bytes \<Rightarrow> bytes \<Rightarrow> bytes list \<Rightarrow> (nat \<times> bytes \<times> bytes) option"
  where
  "consistencyLoop H oldIndex newIndex oldHash newHash [] = Some (newIndex, oldHash, newHash)"
| "consistencyLoop H oldIndex newIndex oldHash newHash (node # rest) =
     (if newIndex = 0 then None
      else if odd oldIndex \<or> oldIndex = newIndex then
        (case skipEven oldIndex newIndex of (o', n') \<Rightarrow>
           consistencyLoop H (o' div 2) (n' div 2)
             (nodeHash H node oldHash) (nodeHash H node newHash) rest)
      else
        consistencyLoop H (oldIndex div 2) (newIndex div 2)
          oldHash (nodeHash H newHash node) rest)"

definition verifyC2spConsistencyProof ::
    "(bytes \<Rightarrow> bytes) \<Rightarrow> int \<Rightarrow> int \<Rightarrow> bytes \<Rightarrow> bytes \<Rightarrow> bytes list \<Rightarrow> bool" where
  "verifyC2spConsistencyProof H fromSize toSize fromRoot toRoot proof' =
     (if \<bar>fromSize\<bar> > MAX_SAFE \<or> \<bar>toSize\<bar> > MAX_SAFE \<or> fromSize < 0 \<or> toSize < 0 then False
      else if length fromRoot \<noteq> 32 \<or> length toRoot \<noteq> 32 \<or> (\<exists>node \<in> set proof'. length node \<noteq> 32)
        then False
      else if fromSize = 0 then
        proof' = [] \<and> fromRoot = merkleRootFromEntries H [] \<and> (toSize \<noteq> 0 \<or> fromRoot = toRoot)
      else if fromSize = toSize then proof' = [] \<and> fromRoot = toRoot
      else if toSize < fromSize then False
      else case skipOdd (nat fromSize - 1) (nat toSize - 1) of (oldIndex, newIndex) \<Rightarrow>
        if oldIndex \<noteq> 0 \<and> proof' = [] then False
        else
          let start = (if oldIndex = 0 then fromRoot else hd proof');
              rest = (if oldIndex = 0 then proof' else tl proof')
          in case consistencyLoop H oldIndex newIndex start start rest of
               None \<Rightarrow> False
             | Some (newIndex', oldHash, newHash) \<Rightarrow>
                 newIndex' = 0 \<and> oldHash = fromRoot \<and> newHash = toRoot)"

section \<open>Levels of the tree\<close>

definition levels :: "('a \<Rightarrow> 'a \<Rightarrow> 'a) \<Rightarrow> nat \<Rightarrow> 'a list \<Rightarrow> 'a list" where
  "levels nd t hs = (pairLevel nd ^^ t) hs"

lemma levels_0 [simp]: "levels nd 0 hs = hs"
  by (simp add: levels_def)

lemma levels_Suc: "levels nd (Suc t) hs = levels nd t (pairLevel nd hs)"
  by (simp add: levels_def funpow_swap1)

lemma length_levels:
  "0 < length hs \<Longrightarrow> length (levels nd t hs) = Suc ((length hs - 1) div 2 ^ t)"
proof (induction t arbitrary: hs)
  case (Suc t)
  have "0 < length (pairLevel nd hs)" using Suc.prems by (simp add: length_pairLevel)
  with Suc.IH have "length (levels nd (Suc t) hs) =
      Suc ((length (pairLevel nd hs) - 1) div 2 ^ t)" by (simp add: levels_Suc)
  also have "length (pairLevel nd hs) - 1 = (length hs - 1) div 2"
    using Suc.prems length_pairLevel [of nd hs] by linarith
  finally show ?case by (simp add: div_mult2_eq)
qed simp

lemma treeHash_levels: "hs \<noteq> [] \<Longrightarrow> treeHash nd (levels nd t hs) = treeHash nd hs"
proof (induction t arbitrary: hs)
  case (Suc t)
  then have "pairLevel nd hs \<noteq> []" using length_pairLevel [of nd hs] by (cases hs) auto
  with Suc show ?case by (simp add: levels_Suc treeHash_pairLevel)
qed simp

lemma pairLevel_take:
  "2 * j \<le> length hs \<Longrightarrow> pairLevel nd (take (2 * j) hs) = take j (pairLevel nd hs)"
  using pairLevel_append [of "take (2 * j) hs" nd "drop (2 * j) hs"]
    length_pairLevel [of nd "take (2 * j) hs"] by simp

lemma levels_take:
  "2 ^ t * j \<le> length hs \<Longrightarrow> levels nd t (take (2 ^ t * j) hs) = take j (levels nd t hs)"
proof (induction t arbitrary: hs)
  case (Suc t)
  have "2 ^ Suc t * j = 2 * (2 ^ t * j)" by simp
  moreover from this have "2 ^ t * j \<le> length (pairLevel nd hs)"
    using Suc.prems by (simp add: length_pairLevel)
  ultimately show ?case
    using Suc.prems Suc.IH [of "pairLevel nd hs"] pairLevel_take [of "2 ^ t * j" hs nd]
    by (simp add: levels_Suc mult.assoc)
qed simp

text \<open>
  The first loop strips the trailing ones of \<open>m - 1\<close>: it stops at the level of the largest
  perfect subtree that ends the old tree.
\<close>

lemma skipOdd_levels:
  assumes "0 < m"
  shows "\<exists>t j. m = 2 ^ t * Suc j \<and> even j \<and> skipOdd (m - 1) s = (j, s div 2 ^ t)"
  using assms
proof (induction "m - 1" s arbitrary: m rule: skipOdd.induct)
  case (1 s m)
  show ?case
  proof (cases "odd (m - 1)")
    case True
    then obtain q where q: "m = 2 * q" "0 < q"
      using \<open>0 < m\<close> by (metis Suc_pred' dvdE even_Suc mult_0_right neq0_conv)
    then have "(m - 1) div 2 = q - 1" by linarith
    with "1.hyps" True q obtain t j where
      "q = 2 ^ t * Suc j" "even j" "skipOdd (q - 1) (s div 2) = (j, s div 2 div 2 ^ t)"
      by metis
    moreover have "skipOdd (m - 1) s = skipOdd (q - 1) (s div 2)"
      using True \<open>(m - 1) div 2 = q - 1\<close> skipOdd.simps [of "m - 1" s] by simp
    ultimately have "m = 2 ^ Suc t * Suc j \<and> even j \<and> skipOdd (m - 1) s = (j, s div 2 ^ Suc t)"
      using q by (simp add: div_mult2_eq)
    then show ?thesis by blast
  next
    case False
    then have "m = 2 ^ 0 * Suc (m - 1) \<and> even (m - 1) \<and> skipOdd (m - 1) s = (m - 1, s div 2 ^ 0)"
      using \<open>0 < m\<close> skipOdd.simps [of "m - 1" s] by simp
    then show ?thesis by blast
  qed
qed

section \<open>The main loop\<close>

text \<open>A node promoted on the right edge of both trees changes nothing.\<close>

lemma skipEven_promote:
  "i \<noteq> 0 \<Longrightarrow> even i \<Longrightarrow> skipEven i s = skipEven (i div 2) (s div 2)"
  by (simp add: skipEven.simps [of i s])

lemma skipEven_odd [simp]: "odd i \<Longrightarrow> skipEven i s = (i, s)"
  by (simp add: skipEven.simps)

lemma consistencyLoop_promote:
  assumes "i \<noteq> 0" "even i"
  shows "consistencyLoop H i i fr sr ps = Some (0, x) \<longleftrightarrow>
    consistencyLoop H (i div 2) (i div 2) fr sr ps = Some (0, x)"
proof -
  have "i div 2 \<noteq> 0" using assms by (auto elim: evenE)
  then show ?thesis
    using assms by (cases ps) (auto simp: skipEven_promote [of i i])
qed

text \<open>
  The honest run: from level \<open>hs\<close> of the new tree, of which the old tree has the first \<open>i\<close>
  nodes and a last node with hash \<open>fr\<close>, the audit path of node \<open>i\<close> leads to both roots.
\<close>

lemma consistencyLoop_auditPath:
  assumes "i < length hs"
  shows "consistencyLoop H i (length hs - 1) fr (hs ! i) (auditPath (nodeHash H) i hs) =
    Some (0, treeHash (nodeHash H) (take i hs @ [fr]), treeHash (nodeHash H) hs)"
  using assms
proof (induction "length hs" arbitrary: i hs fr rule: less_induct)
  case less
  let ?nd = "nodeHash H" and ?up = "pairLevel (nodeHash H) hs"
  let ?fr = "if odd i then ?nd (hs ! (i - 1)) fr else fr"
  show ?case
  proof (cases "length hs \<le> 1")
    case True
    with less.prems obtain h where "hs = [h]" and "i = 0"
      by (cases hs) auto
    then show ?thesis by (simp add: auditPath.simps)
  next
    case False
    then have n: "2 \<le> length hs" "length ?up < length hs" "i div 2 < length ?up" "hs \<noteq> []"
      using less.prems by (auto simp: length_pairLevel)
    have old: "pairLevel ?nd (take i hs @ [fr]) = take (i div 2) ?up @ [?fr]"
    proof (cases "odd i")
      case True
      then obtain j where j: "i = Suc (2 * j)" by (auto elim: oddE)
      with less.prems have "take i hs = take (2 * j) hs @ [hs ! (2 * j)]"
        by (simp add: take_Suc_conv_app_nth)
      with j less.prems show ?thesis
        using pairLevel_append [of "take (2 * j) hs" ?nd "[hs ! (2 * j), fr]"]
          pairLevel_take [of j hs ?nd] by simp
    next
      case False
      then obtain j where "i = 2 * j" by (auto elim: evenE)
      with less.prems show ?thesis
        using pairLevel_append [of "take (2 * j) hs" ?nd "[fr]"] pairLevel_take [of j hs ?nd]
        by simp
    qed
    have IH: "consistencyLoop H (i div 2) (length ?up - 1) ?fr (?up ! (i div 2))
        (auditPath ?nd (i div 2) ?up) =
      Some (0, treeHash ?nd (take i hs @ [fr]), treeHash ?nd hs)"
      using less.hyps [OF n(2,3)] n(4)
        treeHash_pairLevel [of "take i hs @ [fr]" ?nd] treeHash_pairLevel [of hs ?nd]
      by (simp add: old)
    have up: "(length hs - Suc 0) div 2 = length ?up - Suc 0"
      using n(1) length_pairLevel [of ?nd hs] by linarith
    note step = auditPath_step [OF less.prems n(1), of ?nd]
    consider (promoted) "even i" "Suc i = length hs" | (left) "odd i"
      | (right) "even i" "Suc i < length hs"
      using less.prems by linarith
    then show ?thesis
    proof cases
      case promoted
      then have "?up ! (i div 2) = hs ! i" "length hs - 1 = i" "i \<noteq> 0" "i div 2 = length ?up - 1"
        using pairLevel_nth_last [of hs "i div 2" ?nd] n(1) up by auto
      with promoted IH show ?thesis
        by (simp add: step siblings_def consistencyLoop_promote)
    next
      case left
      then have "?up ! (i div 2) = ?nd (hs ! (i - 1)) (hs ! i)"
        using pairLevel_nth [of "i div 2" hs ?nd] less.prems by (auto elim!: oddE)
      with left n(1) IH show ?thesis by (simp add: step siblings_def up)
    next
      case right
      then have "?up ! (i div 2) = ?nd (hs ! i) (hs ! Suc i)"
        "i \<noteq> length hs - Suc 0"
        using pairLevel_nth [of "i div 2" hs ?nd] by auto
      with right n(1) IH show ?thesis by (simp add: step siblings_def up)
    qed
  qed
qed

text \<open>
  Conversely, a run that ends with \<open>newIndex = 0\<close> has folded the new hash the way
  \<open>inclusionRoot\<close> does, over a proof of the audit path's length.
\<close>

lemma auditPath_length_cong:
  "length hs = length hs' \<Longrightarrow> length (auditPath nd i hs) = length (auditPath nd i hs')"
proof (induction nd i hs arbitrary: hs' rule: auditPath.induct)
  case (1 nd i hs)
  let ?k = "splitPoint (length hs')"
  show ?case
  proof (cases "length hs \<le> 1")
    case True
    with 1 show ?thesis by (simp add: auditPath.simps)
  next
    case False
    with "1.IH"(1) [of _ "take ?k hs'"] "1.IH"(2) [of _ "drop ?k hs'"] "1.prems" show ?thesis
      by (simp add: auditPath.simps [of nd i hs] auditPath.simps [of nd i hs'] Let_def)
  qed
qed

lemma consistencyLoop_inclusion:
  assumes "i \<le> s" and "consistencyLoop H i s fr sr ps = Some (0, fr', sr')"
  shows "sr' = inclusionLoop H sr (int i) (int s + 1) ps \<and>
    (\<forall>hs. length hs = Suc s \<longrightarrow> length ps = length (auditPath (nodeHash H) i hs))"
  using assms
proof (induction s arbitrary: i fr sr ps rule: less_induct)
  case (less s)
  let ?nd = "nodeHash H"
  show ?case
  proof (cases "s = 0")
    case True
    with less.prems show ?thesis by (cases ps) (auto simp: auditPath.simps)
  next
    case False
    then have s2: "s div 2 < s" by simp
    have half: "(int s + 1 + 1) div 2 = int (s div 2) + 1" "int i div 2 = int (i div 2)"
      "int s div 2 = int (s div 2)"
      by presburger+
    have path: "length (auditPath ?nd i hs) =
        length (siblings i hs) + length (auditPath ?nd (i div 2) (pairLevel ?nd hs))"
      and lev: "length (pairLevel ?nd hs) = Suc (s div 2)" if "length hs = Suc s" for hs
      using that less.prems(1) False auditPath_step [of i hs ?nd]
      by (simp_all add: length_pairLevel)
    show ?thesis
    proof (cases "even i \<and> i = s")
      case True
      then have "i \<noteq> 0" "even i" "i = s" using False by auto
      with less.prems(2)
      have "consistencyLoop H (i div 2) (s div 2) fr sr ps = Some (0, fr', sr')"
        by (simp add: consistencyLoop_promote)
      note IH = less.IH [OF s2 _ this]
      from \<open>i = s\<close> IH have "sr' = inclusionLoop H sr (int (s div 2)) (int (s div 2) + 1) ps"
        by simp
      also have "\<dots> = inclusionLoop H sr (int s) (int s + 1) ps"
        using inclusionLoop_promoted [of s "Suc s" H sr ps] \<open>even i\<close> \<open>i = s\<close>
        by (simp add: add.commute)
      finally show ?thesis
        using IH path lev \<open>i = s\<close> \<open>even i\<close> by (auto simp: siblings_def)
    next
      case step: False
      obtain p qs where ps: "ps = p # qs" using less.prems(2) False by (cases ps) auto
      have eq: "i = s \<longrightarrow> odd i" using step by auto
      have run: "consistencyLoop H (i div 2) (s div 2) (if odd i then ?nd p fr else fr)
          (if odd i then ?nd p sr else ?nd sr p) qs = Some (0, fr', sr')"
        using less.prems(2) False eq unfolding ps by (auto split: if_splits)
      have le: "i div 2 \<le> s div 2" using less.prems(1) by (rule div_le_mono)
      have lt: "even i \<Longrightarrow> int i < int s" using less.prems(1) eq by (cases "i = s") auto
      note IH = less.IH [OF s2 le run]
      have "inclusionLoop H sr (int i) (int s + 1) ps = inclusionLoop H
          (if odd i then ?nd p sr else ?nd sr p) (int (i div 2)) (int (s div 2) + 1) qs"
        using lt by (simp add: ps half mod2_eq_if split: if_splits)
      moreover have "length (siblings i hs) = 1" if "length hs = Suc s" for hs :: "bytes list"
        using that lt by (auto simp: siblings_def)
      ultimately show ?thesis using IH path lev by (auto simp: ps)
    qed
  qed
qed

section \<open>Strings hashed for a tree\<close>

text \<open>
  The strings hashed for the interior nodes above a level, and for the whole tree of a list of
  entries, level by level as \<open>merkleRootFromEntries\<close> computes it.
\<close>

fun pairInputs :: "bytes list \<Rightarrow> bytes set" where
  "pairInputs (x # y # zs) = insert (1 # x @ y) (pairInputs zs)"
| "pairInputs xs = {}"

function nodeInputs :: "(bytes \<Rightarrow> bytes) \<Rightarrow> bytes list \<Rightarrow> bytes set" where
  "nodeInputs H hs =
     (if length hs \<le> 1 then {}
      else pairInputs hs \<union> nodeInputs H (pairLevel (nodeHash H) hs))"
  by pat_completeness auto
termination
  by (relation "measure (\<lambda>(H, hs). length hs)") (auto simp: length_pairLevel)

declare nodeInputs.simps [simp del]

definition hashedInputs :: "(bytes \<Rightarrow> bytes) \<Rightarrow> bytes list \<Rightarrow> bytes set" where
  "hashedInputs H es = (\<lambda>e. 0 # e) ` set es \<union> nodeInputs H (map (leafHash H) es)"

lemma pairInputs_nth:
  "Suc (2 * i) < length hs \<Longrightarrow> 1 # hs ! (2 * i) @ hs ! Suc (2 * i) \<in> pairInputs hs"
proof (induction hs arbitrary: i rule: pairInputs.induct)
  case (1 x y zs)
  then show ?case by (cases i) auto
qed auto

lemma pairLevel_inj:
  assumes "length xs = length ys" and "\<forall>x \<in> set xs \<union> set ys. length x = 32"
    and "inj_on H (pairInputs xs \<union> pairInputs ys)"
    and "pairLevel (nodeHash H) xs = pairLevel (nodeHash H) ys"
  shows "xs = ys"
  using assms
proof (induction xs arbitrary: ys rule: pairInputs.induct)
  case (1 x y zs)
  then obtain x' y' zs' where ys: "ys = x' # y' # zs'"
    by (metis length_Suc_conv)
  have "H (1 # x @ y) = H (1 # x' @ y')"
    using "1.prems"(4) by (simp add: ys nodeHash_eq)
  then have "1 # x @ y = 1 # x' @ y'"
    by (rule inj_onD [OF "1.prems"(3)]) (simp_all add: ys)
  moreover have "zs = zs'"
  proof (rule "1.IH")
    show "inj_on H (pairInputs zs \<union> pairInputs zs')"
      by (rule inj_on_subset [OF "1.prems"(3)]) (auto simp: ys)
  qed (use "1.prems" in \<open>auto simp: ys\<close>)
  ultimately show ?case using "1.prems"(2) by (simp add: ys)
next
  case "2_2"
  then show ?case by (metis length_0_conv length_Suc_conv pairLevel.simps(3) list.size(3))
qed simp

lemma pairLevel_lengths:
  assumes H: "\<And>x. length (H x) = 32"
  shows "\<forall>x \<in> set xs. length x = 32 \<Longrightarrow> \<forall>x \<in> set (pairLevel (nodeHash H) xs). length x = 32"
  by (induction "nodeHash H" xs rule: pairLevel.induct) (auto simp: nodeHash_eq H)

lemma levels_lengths:
  assumes H: "\<And>x. length (H x) = 32"
  shows "\<forall>x \<in> set xs. length x = 32 \<Longrightarrow> \<forall>x \<in> set (levels (nodeHash H) t xs). length x = 32"
proof (induction t arbitrary: xs)
  case (Suc t)
  have "\<forall>x \<in> set (levels (nodeHash H) t (pairLevel (nodeHash H) xs)). length x = 32"
    by (rule Suc.IH [OF pairLevel_lengths [OF H Suc.prems]])
  then show ?case by (simp add: levels_Suc)
qed (simp add: levels_def)

text \<open>Trees of the same size with the same root have the same leaves.\<close>

lemma treeHash_inj:
  assumes H: "\<And>x. length (H x) = 32"
  shows "xs \<noteq> [] \<Longrightarrow> length xs = length ys \<Longrightarrow> \<forall>x \<in> set xs \<union> set ys. length x = 32 \<Longrightarrow>
    inj_on H (nodeInputs H xs \<union> nodeInputs H ys) \<Longrightarrow>
    treeHash (nodeHash H) xs = treeHash (nodeHash H) ys \<Longrightarrow> xs = ys"
proof (induction "length xs" arbitrary: xs ys rule: less_induct)
  case less
  let ?nd = "nodeHash H"
  show ?case
  proof (cases "length xs \<le> 1")
    case True
    with less.prems(1) obtain x where "xs = [x]" by (cases xs) auto
    moreover with less.prems(2) obtain y where "ys = [y]"
      by (metis length_0_conv length_Suc_conv list.size(3))
    ultimately show ?thesis using less.prems(5) by simp
  next
    case False
    then have ne: "ys \<noteq> []" using less.prems(2) by auto
    have ne': "pairLevel ?nd xs \<noteq> []"
      using False by (simp flip: length_0_conv add: length_pairLevel)
    have in_x: "nodeInputs H xs = pairInputs xs \<union> nodeInputs H (pairLevel ?nd xs)"
      and in_y: "nodeInputs H ys = pairInputs ys \<union> nodeInputs H (pairLevel ?nd ys)"
      using False less.prems(2)
      by (simp_all add: nodeInputs.simps [of H xs] nodeInputs.simps [of H ys])
    note inj = less.prems(4) [unfolded in_x in_y]
    have "pairLevel ?nd xs = pairLevel ?nd ys"
    proof (rule less.hyps [OF _ ne'])
      show "length (pairLevel ?nd xs) < length xs" using False by (simp add: length_pairLevel)
      show "length (pairLevel ?nd xs) = length (pairLevel ?nd ys)"
        using less.prems(2) by (simp add: length_pairLevel)
      show "\<forall>x \<in> set (pairLevel ?nd xs) \<union> set (pairLevel ?nd ys). length x = 32"
        using pairLevel_lengths [where H = H and xs = xs, OF H]
          pairLevel_lengths [where H = H and xs = ys, OF H] less.prems(3)
        by (simp add: ball_Un)
      show "inj_on H (nodeInputs H (pairLevel ?nd xs) \<union> nodeInputs H (pairLevel ?nd ys))"
        by (rule inj_on_subset [OF inj]) blast
      show "treeHash ?nd (pairLevel ?nd xs) = treeHash ?nd (pairLevel ?nd ys)"
        using less.prems(1,5) ne by (simp add: treeHash_pairLevel)
    qed
    moreover have "inj_on H (pairInputs xs \<union> pairInputs ys)"
      by (rule inj_on_subset [OF inj]) blast
    ultimately show ?thesis
      using pairLevel_inj [OF less.prems(2,3)] by blast
  qed
qed

lemma MTH_inj:
  assumes H: "\<And>x. length (H x) = 32" and "length es = length es'"
    and inj: "inj_on H (hashedInputs H es \<union> hashedInputs H es')" and "MTH H es = MTH H es'"
  shows "es = es'"
proof (cases "es = []")
  case False
  then have ne: "es' \<noteq> []" using assms(2) by auto
  let ?ls = "map (leafHash H) es" and ?ls' = "map (leafHash H) es'"
  have inj': "inj_on H (nodeInputs H ?ls \<union> nodeInputs H ?ls')"
    by (rule inj_on_subset [OF inj]) (auto simp: hashedInputs_def)
  have "?ls = ?ls'"
  proof (rule treeHash_inj [OF H _ _ _ inj'])
    show "treeHash (nodeHash H) ?ls = treeHash (nodeHash H) ?ls'"
      using assms(4) False ne by (simp add: MTH_def)
  qed (use False assms(2) in \<open>auto simp: leafHash_eq H\<close>)
  moreover have "inj_on (leafHash H) (set es \<union> set es')"
  proof (rule inj_onI)
    fix x y
    assume xy: "x \<in> set es \<union> set es'" "y \<in> set es \<union> set es'" and "leafHash H x = leafHash H y"
    then have "H (0 # x) = H (0 # y)" by (simp add: leafHash_eq)
    then have "0 # x = 0 # y"
      by (rule inj_onD [OF inj]) (use xy in \<open>auto simp: hashedInputs_def\<close>)
    then show "x = y" by simp
  qed
  ultimately show ?thesis using inj_on_map_eq_map by blast
qed (use assms(2) in simp)

text \<open>The strings hashed along an audit path are hashed for the tree.\<close>

lemma loopInputs_edge:
  "0 < n \<Longrightarrow> 0 < n' \<Longrightarrow> loopInputs H h (n - 1) n ps = loopInputs H h (n' - 1) n' ps"
proof (induction ps arbitrary: h n n')
  case (Cons s ps)
  have half: "(k - 1) div 2 = (k + 1) div 2 - 1" "0 < (k + 1) div 2" if "0 < k" for k :: int
    using that by linarith+
  have "loopInputs H x ((n + 1) div 2 - 1) ((n + 1) div 2) ps =
      loopInputs H x ((n' + 1) div 2 - 1) ((n' + 1) div 2) ps" for x
    using Cons.prems by (intro Cons.IH half(2))
  with Cons.prems half(1) show ?case by (simp add: Let_def)
qed simp

lemma loopInputs_promoted:
  assumes "even m" and "Suc m = n"
  shows "loopInputs H h (int m) (int n) ps =
    loopInputs H h (int (m div 2)) (int ((n + 1) div 2)) ps"
proof -
  have "int n - 1 = int m" "int ((n + 1) div 2) - 1 = int (m div 2)" "0 < n" "0 < (n + 1) div 2"
    using assms by auto
  then show ?thesis
    using loopInputs_edge [of "int n" "int ((n + 1) div 2)" H h ps]
    by (simp only: of_nat_0_less_iff)
qed

lemma loopInputs_auditPath:
  assumes "m < length hs"
  shows "loopInputs H (hs ! m) (int m) (int (length hs)) (auditPath (nodeHash H) m hs) \<subseteq>
    nodeInputs H hs"
  using assms
proof (induction "length hs" arbitrary: m hs rule: less_induct)
  case less
  let ?nd = "nodeHash H" and ?up = "pairLevel (nodeHash H) hs"
  show ?case
  proof (cases "length hs \<le> 1")
    case True
    with less.prems show ?thesis by (simp add: auditPath.simps)
  next
    case False
    then have n: "2 \<le> length hs" "length ?up < length hs" "m div 2 < length ?up"
      using less.prems by (auto simp: length_pairLevel)
    note IH = less.hyps [OF n(2,3)]
    have node: "nodeInputs H hs = pairInputs hs \<union> nodeInputs H ?up"
      using False by (simp add: nodeInputs.simps [of H hs])
    have up: "int m div 2 = int (m div 2)" "(int (length hs) + 1) div 2 = int (length ?up)"
      by (auto simp: length_pairLevel)
    note step = auditPath_step [OF less.prems n(1), of ?nd]
    consider (promoted) "even m" "Suc m = length hs" | (left) "odd m"
      | (right) "even m" "Suc m < length hs"
      using less.prems by linarith
    then show ?thesis
    proof cases
      case promoted
      then have "?up ! (m div 2) = hs ! m"
        using pairLevel_nth_last [of hs "m div 2" ?nd] by simp
      with promoted IH show ?thesis
        by (auto simp: step siblings_def loopInputs_promoted length_pairLevel node)
    next
      case left
      then have "?up ! (m div 2) = ?nd (hs ! (m - 1)) (hs ! m)"
        and "1 # hs ! (m - 1) @ hs ! m \<in> pairInputs hs"
        using pairLevel_nth [of "m div 2" hs ?nd] pairInputs_nth [of "m div 2" hs] less.prems
        by (auto elim!: oddE)
      moreover have "int m mod 2 = 1" using left by presburger
      ultimately show ?thesis
        using left IH by (auto simp: step siblings_def up node Let_def nodeHash_eq)
    next
      case right
      then have "?up ! (m div 2) = ?nd (hs ! m) (hs ! Suc m)"
        and "1 # hs ! m @ hs ! Suc m \<in> pairInputs hs"
        using pairLevel_nth [of "m div 2" hs ?nd] pairInputs_nth [of "m div 2" hs] by auto
      moreover have "int m mod 2 \<noteq> 1" "int m < int (length hs) - 1" using right by presburger+
      ultimately show ?thesis
        using right IH by (auto simp: step siblings_def up node Let_def nodeHash_eq)
    qed
  qed
qed

lemma nodeInputs_levels: "nodeInputs H (levels (nodeHash H) t hs) \<subseteq> nodeInputs H hs"
proof (induction t arbitrary: hs)
  case (Suc t)
  have "nodeInputs H (pairLevel (nodeHash H) hs) \<subseteq> nodeInputs H hs"
  proof (cases "length hs \<le> 1")
    case True
    then have "pairLevel (nodeHash H) hs = hs"
      by (cases hs; cases "tl hs") auto
    then show ?thesis by simp
  qed (simp add: nodeInputs.simps [of H hs])
  with Suc.IH show ?case by (auto simp: levels_Suc)
qed simp

section \<open>Correctness of consistency proofs\<close>

text \<open>
  The strings hashed while a submitted proof is folded towards the new root: from the level
  and index where the first loop stops, over the rest of the proof.
\<close>

definition proofInputs ::
    "(bytes \<Rightarrow> bytes) \<Rightarrow> nat \<Rightarrow> nat \<Rightarrow> bytes \<Rightarrow> bytes list \<Rightarrow> bytes set" where
  "proofInputs H m n fromRoot ps =
     (case skipOdd (m - 1) (n - 1) of (i, s) \<Rightarrow>
        if i = 0 then loopInputs H fromRoot (int i) (int s + 1) ps
        else loopInputs H (hd ps) (int i) (int s + 1) (tl ps))"

text \<open>
  An accepted proof between sizes \<open>m < n\<close> ends at the new root through the node \<open>j\<close> of a level
  \<open>t\<close> of the new tree, and at the old root.
\<close>

lemma verify_accepts_run:
  assumes "verifyC2spConsistencyProof H (int m) (int n) fromRoot toRoot ps" and "0 < m" "m < n"
  obtains t j where "m = 2 ^ t * Suc j" "even j" "skipOdd (m - 1) (n - 1) = (j, (n - 1) div 2 ^ t)"
    and "j \<noteq> 0 \<Longrightarrow> ps \<noteq> []" and "\<forall>p \<in> set ps. length p = 32" "length fromRoot = 32"
    and "consistencyLoop H j ((n - 1) div 2 ^ t)
      (if j = 0 then fromRoot else hd ps) (if j = 0 then fromRoot else hd ps)
      (if j = 0 then ps else tl ps) = Some (0, fromRoot, toRoot)"
proof -
  obtain t j where tj: "m = 2 ^ t * Suc j" "even j"
      "skipOdd (m - 1) (n - 1) = (j, (n - 1) div 2 ^ t)"
    using skipOdd_levels [OF assms(2)] by blast
  have "int m \<noteq> 0" "int m \<noteq> int n" "\<not> int n < int m" using assms(2,3) by simp_all
  with assms(1) tj(3)
  have "(j \<noteq> 0 \<longrightarrow> ps \<noteq> []) \<and> (\<forall>p \<in> set ps. length p = 32) \<and> length fromRoot = 32 \<and>
      consistencyLoop H j ((n - 1) div 2 ^ t)
        (if j = 0 then fromRoot else hd ps) (if j = 0 then fromRoot else hd ps)
        (if j = 0 then ps else tl ps) = Some (0, fromRoot, toRoot)"
    by (simp add: verifyC2spConsistencyProof_def Let_def split: if_splits option.splits prod.splits)
  then show thesis by (intro that [OF tj]) simp_all
qed

text \<open>The tree over the first \<open>2 ^ t * Suc j\<close> leaves, from level \<open>t\<close> of the whole tree.\<close>

lemma treeHash_prefix_levels:
  assumes "2 ^ t * Suc j \<le> length ls"
  shows "treeHash nd (take j (levels nd t ls) @ [levels nd t ls ! j]) =
    treeHash nd (take (2 ^ t * Suc j) ls)" and "j < length (levels nd t ls)"
proof -
  have ls: "0 < length ls" using assms by (cases ls) auto
  have "2 ^ t * Suc j = 2 ^ t * j + 2 ^ t" "0 < (2::nat) ^ t" by simp_all
  with assms have "2 ^ t * j \<le> length ls - 1" by linarith
  then have "2 ^ t * j div 2 ^ t \<le> (length ls - 1) div 2 ^ t" by (rule div_le_mono)
  then show j: "j < length (levels nd t ls)" using length_levels [OF ls] by simp
  have "take (2 ^ t * Suc j) ls \<noteq> []" using ls by simp
  then show "treeHash nd (take j (levels nd t ls) @ [levels nd t ls ! j]) =
      treeHash nd (take (2 ^ t * Suc j) ls)"
    using treeHash_levels [of "take (2 ^ t * Suc j) ls" nd t] levels_take [OF assms, of nd] j
    by (simp add: take_Suc_conv_app_nth)
qed

text \<open>
  An accepted proof with a hash without collisions starts at node \<open>j\<close> of level \<open>t\<close> of the new
  tree and continues with its audit path, so the old root is that of the prefix.
\<close>

lemma accepted_old_root:
  assumes H: "\<And>x. length (H x) = 32"
    and acc: "verifyC2spConsistencyProof H (int m) (int (length new)) fromRoot (MTH H new) ps"
    and m: "0 < m" "m < length new"
    and inj: "inj_on H (hashedInputs H new \<union> proofInputs H m (length new) fromRoot ps)"
  shows "fromRoot = MTH H (take m new)"
proof -
  let ?nd = "nodeHash H" and ?ls = "map (leafHash H) new"
  obtain t j where m': "m = 2 ^ t * Suc j"
    and skip: "skipOdd (m - 1) (length new - 1) = (j, (length new - 1) div 2 ^ t)"
    and ps: "j \<noteq> 0 \<Longrightarrow> ps \<noteq> []" "\<forall>p \<in> set ps. length p = 32" "length fromRoot = 32"
    and run: "consistencyLoop H j ((length new - 1) div 2 ^ t)
      (if j = 0 then fromRoot else hd ps) (if j = 0 then fromRoot else hd ps)
      (if j = 0 then ps else tl ps) = Some (0, fromRoot, MTH H new)"
    by (rule verify_accepts_run [OF acc m]) blast
  define hs where "hs = levels ?nd t ?ls"
  define s where "s = (length new - 1) div 2 ^ t"
  define x where "x = (if j = 0 then fromRoot else hd ps)"
  define rest where "rest = (if j = 0 then ps else tl ps)"
  have ne: "new \<noteq> []" using m(2) by auto
  then have len: "length hs = Suc s" by (simp add: hs_def s_def length_levels)
  have j: "j < length hs" and pre: "treeHash ?nd (take j hs @ [hs ! j]) = MTH H (take m new)"
    using treeHash_prefix_levels [of t j ?ls ?nd] m m' ne
    by (simp_all add: hs_def MTH_def take_map)
  have x: "length x = 32" "\<forall>p \<in> set rest. length p = 32"
    using ps by (auto simp: x_def rest_def dest: list.set_sel(2))
  have hs32: "\<forall>h \<in> set hs. length h = 32"
    unfolding hs_def by (rule levels_lengths [OF H]) (simp add: leafHash_eq H)
  note loop = run [folded s_def x_def rest_def]
  have new: "MTH H new = inclusionLoop H x (int j) (int s + 1) rest"
    and rest: "length rest = length (auditPath ?nd j hs)"
    using consistencyLoop_inclusion [OF _ loop] j len by auto
  have root: "inclusionLoop H (hs ! j) (int j) (int s + 1) (auditPath ?nd j hs) = MTH H new"
    using inclusionLoop_auditPath [OF j, of H] treeHash_levels [of ?ls ?nd t] ne
    by (simp add: len MTH_def add.commute flip: hs_def)
  have in1: "loopInputs H x (int j) (int s + 1) rest =
      proofInputs H m (length new) fromRoot ps"
    using skip by (simp add: proofInputs_def x_def rest_def s_def)
  have in2: "loopInputs H (hs ! j) (int j) (int s + 1) (auditPath ?nd j hs) \<subseteq> hashedInputs H new"
    using loopInputs_auditPath [OF j, of H] nodeInputs_levels [of H t ?ls]
    by (auto simp: hashedInputs_def len add.commute simp flip: hs_def)
  have inj': "inj_on H (loopInputs H x (int j) (int s + 1) rest \<union>
      loopInputs H (hs ! j) (int j) (int s + 1) (auditPath ?nd j hs))"
    by (rule inj_on_subset [OF inj]) (use in1 in2 in blast)
  have "x = hs ! j \<and> rest = auditPath ?nd j hs"
    by (rule inclusionLoop_inj [OF H inj' rest x(1)])
      (use hs32 j x(2) auditPath_length [OF H j hs32] new root in auto)
  then show ?thesis
    using loop consistencyLoop_auditPath [OF j, of H "hs ! j"] pre len by simp
qed

lemma accepted_proof_prefix:
  assumes "\<forall>x. length (H x) = 32"
    and "verifyC2spConsistencyProof H (int (length old)) (int (length new))
      (MTH H old) (MTH H new) ps"
    and "inj_on H (hashedInputs H old \<union> hashedInputs H new \<union>
      hashedInputs H (take (length old) new) \<union>
      proofInputs H (length old) (length new) (MTH H old) ps)"
  shows "\<exists>rest. new = old @ rest"
proof -
  have H: "\<And>x. length (H x) = 32" using assms(1) by simp
  have le: "length old \<le> length new"
    using assms(2) by (auto simp: verifyC2spConsistencyProof_def split: if_splits)
  have "MTH H old = MTH H (take (length old) new)"
  proof (cases "old = [] \<or> length old = length new")
    case True
    then show ?thesis
      using assms(2) by (auto simp: verifyC2spConsistencyProof_def split: if_splits)
  next
    case False
    have inj: "inj_on H (hashedInputs H new \<union>
        proofInputs H (length old) (length new) (MTH H old) ps)"
      by (rule inj_on_subset [OF assms(3)]) blast
    show ?thesis
      by (rule accepted_old_root [OF H assms(2) _ _ inj]) (use False le in auto)
  qed
  moreover have inj: "inj_on H (hashedInputs H old \<union> hashedInputs H (take (length old) new))"
    by (rule inj_on_subset [OF assms(3)]) blast
  ultimately have "old = take (length old) new"
    using MTH_inj [OF H _ inj] le by simp
  then have "new = old @ drop (length old) new" by (metis append_take_drop_id)
  then show ?thesis by blast
qed

text \<open>
  C2. Consistency proofs are sound. If \<open>verifyC2spConsistencyProof\<close> accepts any proof between
  the roots of two logs at their sizes, the old log is a prefix of the new one: no entry was
  changed, removed or inserted. SHA-256 is assumed to have 32-byte outputs and no collision
  among the strings hashed for the two trees, for the prefix and for the proof.
\<close>

theorem verifyC2spConsistencyProof_sound:
  assumes "\<forall>x. length (H x) = 32"
    and "verifyC2spConsistencyProof H (int (length old)) (int (length new))
      (MTH H old) (MTH H new) ps"
    and "inj_on H (hashedInputs H old \<union> hashedInputs H new \<union>
      hashedInputs H (take (length old) new) \<union>
      proofInputs H (length old) (length new) (MTH H old) ps)"
  shows "\<exists>rest. new = old @ rest"
  using accepted_proof_prefix [OF assms] .

text \<open>The consistency proof of RFC 6962, over the leaf hashes of the new tree.\<close>

function subproof :: "('a \<Rightarrow> 'a \<Rightarrow> 'a) \<Rightarrow> nat \<Rightarrow> 'a list \<Rightarrow> bool \<Rightarrow> 'a list" where
  "subproof nd m hs b =
     (if length hs \<le> m \<or> length hs \<le> 1 then (if b then [] else [treeHash nd hs])
      else let k = splitPoint (length hs) in
        if m \<le> k then subproof nd m (take k hs) b @ [treeHash nd (drop k hs)]
        else subproof nd (m - k) (drop k hs) False @ [treeHash nd (take k hs)])"
  by pat_completeness auto
termination
proof (relation "measure (\<lambda>(nd, m, hs, b). length hs)", goal_cases)
  case (2 nd m hs b x)
  then show ?case using splitPoint_bounds [of "length hs"] by simp
next
  case (3 nd m hs b x)
  then show ?case by (auto intro!: diff_less)
qed simp

declare subproof.simps [simp del]

lemma subproof_even:
  assumes "0 < q" and "2 * q \<le> length hs"
  shows "subproof nd (2 * q) hs b = subproof nd q (pairLevel nd hs) b"
  using assms
proof (induction nd "2 * q" hs b arbitrary: q rule: subproof.induct)
  case (1 nd hs b)
  let ?k = "splitPoint (length hs)" and ?k' = "splitPoint (length (pairLevel nd hs))"
  show ?case
  proof (cases "length hs \<le> 2 * q")
    case True
    with "1.prems" have "length hs = 2 * q" "hs \<noteq> []" by auto
    then show ?thesis
      by (simp add: subproof.simps [of nd "2 * q" hs] subproof.simps [of nd q] length_pairLevel
          treeHash_pairLevel)
  next
    case False
    with "1.prems" have n: "2 < length hs" by simp
    note split = pairLevel_take_drop [OF n, of nd]
    have k: "?k < length hs" "?k = 2 * ?k'"
      using splitPoint_bounds [of "length hs"] n split(1) by simp_all
    then have ne: "take ?k hs \<noteq> []" "drop ?k hs \<noteq> []" by auto
    have up: "\<not> (length (pairLevel nd hs) \<le> q \<or> length (pairLevel nd hs) \<le> 1)"
      using n False length_pairLevel [of nd hs] by linarith
    have guard: "\<not> (length hs \<le> 2 * q \<or> length hs \<le> 1)" using n False by simp
    note unf = subproof.simps [of nd "2 * q" hs] subproof.simps [of nd q "pairLevel nd hs"]
    show ?thesis
    proof (cases "2 * q \<le> ?k")
      case True
      then have "subproof nd (2 * q) (take ?k hs) b = subproof nd q (take ?k' (pairLevel nd hs)) b"
        using "1.hyps"(1) [OF guard refl True refl "1.prems"(1)] k split(2) by simp
      moreover have "q \<le> ?k'" using True k(2) by simp
      ultimately show ?thesis
        using True guard up by (simp add: unf Let_def treeHash_pairLevel [OF ne(2)] flip: split(3))
    next
      case m: False
      then have q: "2 * q - ?k = 2 * (q - ?k')" "0 < q - ?k'" "\<not> q \<le> ?k'" using k(2) by simp_all
      have "2 * (q - ?k') \<le> length (drop ?k hs)" using "1.prems"(2) k(2) by simp
      then have "subproof nd (2 * q - ?k) (drop ?k hs) False =
          subproof nd (q - ?k') (drop ?k' (pairLevel nd hs)) False"
        using "1.hyps"(2) [OF guard refl m q(1,2)] split(3) q(1) by simp
      with m q(3) guard up show ?thesis
        by (simp add: unf Let_def treeHash_pairLevel [OF ne(1)] flip: split(2))
    qed
  qed
qed

lemma subproof_odd:
  assumes "odd m" and "m < length hs"
  shows "subproof nd m hs b =
    (if b \<and> m = 1 then [] else [hs ! (m - 1)]) @ auditPath nd (m - 1) hs"
  using assms
proof (induction nd m hs b rule: subproof.induct)
  case (1 nd m hs b)
  let ?k = "splitPoint (length hs)"
  have m0: "0 < m" using "1.prems"(1) by (rule odd_pos)
  show ?case
  proof (cases "length hs = 2")
    case True
    then obtain x y where "hs = [x, y]"
      by (metis One_nat_def Suc_1 length_0_conv length_Suc_conv)
    moreover have "m = 1" using m0 "1.prems"(2) True by simp
    ultimately show ?thesis
      by (simp add: subproof.simps splitPoint.simps auditPath.simps)
  next
    case False
    with "1.prems"(2) m0 have n: "2 < length hs" by simp
    then have k: "?k < length hs" "even ?k"
      using splitPoint_bounds [of "length hs"] splitPoint_half [of "length hs"] by simp_all
    have guard: "\<not> (length hs \<le> m \<or> length hs \<le> 1)" using n "1.prems"(2) by simp
    have unf: "subproof nd m hs b =
        (if m \<le> ?k then subproof nd m (take ?k hs) b @ [treeHash nd (drop ?k hs)]
         else subproof nd (m - ?k) (drop ?k hs) False @ [treeHash nd (take ?k hs)])"
      using guard by (simp add: subproof.simps [of nd m hs b] Let_def)
    obtain i where i: "m = Suc i" using m0 by (cases m) auto
    have "m \<noteq> ?k" using k(2) "1.prems"(1) by auto
    then consider "m < ?k" | "?k < m" by linarith
    then show ?thesis
    proof cases
      case 1
      then have "auditPath nd i hs = auditPath nd i (take ?k hs) @ [treeHash nd (drop ?k hs)]"
        using n by (simp add: auditPath.simps [of nd i hs] i Let_def)
      with 1 "1.IH"(1) [OF guard refl _ "1.prems"(1)] k unf show ?thesis
        by (simp add: i)
    next
      case 2
      then have "odd (m - ?k)" "m - ?k < length (drop ?k hs)" "\<not> m \<le> ?k"
        using k "1.prems" by auto
      moreover have "auditPath nd i hs =
          auditPath nd (i - ?k) (drop ?k hs) @ [treeHash nd (take ?k hs)]"
        using n 2 by (simp add: auditPath.simps [of nd i hs] i Let_def)
      moreover have "0 < i" using 2 i splitPoint_pos [of "length hs"] by linarith
      ultimately show ?thesis
        using "1.IH"(2) [OF guard refl] 2 k unf by (simp add: i Suc_diff_le)
    qed
  qed
qed

lemma subproof_levels:
  assumes "m = 2 ^ t * Suc j" "even j" "m < length hs"
  shows "subproof nd m hs b =
    (if b \<and> j = 0 then [] else [levels nd t hs ! j]) @ auditPath nd j (levels nd t hs)"
  using assms
proof (induction t arbitrary: m hs)
  case 0
  then show ?case using subproof_odd [of m hs nd b] by simp
next
  case (Suc t)
  let ?q = "2 ^ t * Suc j"
  have "m = 2 * ?q" using Suc.prems(1) by simp
  moreover from this Suc.prems(3) have "?q < length (pairLevel nd hs)"
    by (simp add: length_pairLevel)
  ultimately show ?case
    using subproof_even [of ?q hs nd b] Suc.IH [OF refl Suc.prems(2)] Suc.prems(3)
    by (simp add: levels_Suc)
qed

text \<open>
  C35. Consistency proofs are complete: between any two sizes \<open>0 < m < n\<close> of a log of safe size,
  the RFC 6962 consistency proof is accepted.
\<close>

theorem verifyC2spConsistencyProof_complete:
  assumes "\<forall>x. length (H x) = 32" and "0 < m" "m < length entries"
    and "int (length entries) \<le> MAX_SAFE"
  shows "verifyC2spConsistencyProof H (int m) (int (length entries))
    (MTH H (take m entries)) (MTH H entries)
    (subproof (nodeHash H) m (map (leafHash H) entries) True)"
proof -
  let ?nd = "nodeHash H" and ?ls = "map (leafHash H) entries"
  have H: "\<And>x. length (H x) = 32" using assms(1) by simp
  obtain t j where m: "m = 2 ^ t * Suc j" "even j"
      and skip: "skipOdd (m - 1) (length entries - 1) = (j, (length entries - 1) div 2 ^ t)"
    using skipOdd_levels [OF assms(2)] by blast
  let ?hs = "levels ?nd t ?ls"
  have ne: "entries \<noteq> []" "take m entries \<noteq> []" using assms(2,3) by auto
  have len: "length ?hs - 1 = (length entries - 1) div 2 ^ t" using ne by (simp add: length_levels)
  have j: "j < length ?hs"
    and pre: "treeHash ?nd (take j ?hs @ [?hs ! j]) = MTH H (take m entries)"
    using treeHash_prefix_levels [of t j ?ls ?nd] assms(3) m(1) ne
    by (simp_all add: MTH_def take_map)
  have root: "treeHash ?nd ?hs = MTH H entries"
    using treeHash_levels [of ?ls ?nd t] ne by (simp add: MTH_def)
  have run: "consistencyLoop H j ((length entries - 1) div 2 ^ t) (?hs ! j) (?hs ! j)
      (auditPath ?nd j ?hs) = Some (0, MTH H (take m entries), MTH H entries)"
    using consistencyLoop_auditPath [OF j, of H "?hs ! j"] pre root len by simp
  have hs32: "\<forall>h \<in> set ?hs. length h = 32"
    by (rule levels_lengths [OF H]) (simp add: leafHash_eq H)
  have sub: "subproof ?nd m ?ls True =
      (if j = 0 then [] else [?hs ! j]) @ auditPath ?nd j ?hs"
    using subproof_levels [OF m, of ?ls ?nd True] assms(3) by simp
  then have nodes: "\<forall>p \<in> set (subproof ?nd m ?ls True). length p = 32"
    using hs32 j auditPath_length [OF H j hs32] by auto
  have MTH32: "length (MTH H es) = 32" for es
    using treeHash_length [OF H, of "map (leafHash H) es"] by (auto simp: MTH_def H leafHash_eq)
  have first: "?hs ! 0 = MTH H (take m entries)" if "j = 0" using pre that by simp
  have sz: "int m \<noteq> 0" "int m \<noteq> int (length entries)" "\<not> int (length entries) < int m"
    "\<not> (\<bar>int m\<bar> > MAX_SAFE \<or> \<bar>int (length entries)\<bar> > MAX_SAFE)"
    using assms(2-4) by auto
  show ?thesis
    using sz nodes MTH32 skip run first
    by (cases "j = 0") (simp_all add: verifyC2spConsistencyProof_def sub)
qed

theorem verifyC2spConsistencyProof_complete_witness:
  "verifyC2spConsistencyProof toyHash 2 3 (MTH toyHash [[10], [20]]) (MTH toyHash [[10], [20], [30]])
     [leafHash toyHash [30]]"
  using verifyC2spConsistencyProof_complete [of toyHash 2 "[[10], [20], [30]]"]
  by (simp add: MAX_SAFE_def subproof.simps splitPoint.simps)

theorem verifyC2spConsistencyProof_sound_witness:
  "\<exists>rest. [[10], [20]] = [[10]] @ (rest :: bytes list)"
proof (rule verifyC2spConsistencyProof_sound)
  show "verifyC2spConsistencyProof toyHash (int (length [[10]])) (int (length [[10], [20]]))
      (MTH toyHash [[10]]) (MTH toyHash [[10], [20]]) [leafHash toyHash [20]]"
    by (simp add: verifyC2spConsistencyProof_def MAX_SAFE_def MTH_def leafHash_eq nodeHash_eq
        skipOdd.simps)
  show "inj_on toyHash (hashedInputs toyHash [[10]] \<union> hashedInputs toyHash [[10], [20]] \<union>
      hashedInputs toyHash (take (length [[10]]) [[10], [20]]) \<union>
      proofInputs toyHash (length [[10]]) (length [[10], [20]]) (MTH toyHash [[10]])
        [leafHash toyHash [20]])"
    by (simp add: hashedInputs_def nodeInputs.simps proofInputs_def skipOdd.simps MTH_def
        leafHash_eq nodeHash_eq toyHash_def Let_def insert_Diff_if sum_list_replicate)
qed simp

end
