(* ===== verification/Numerals.thy ===== *)
theory Numerals
  imports Json
begin

text \<open>
  Decimal numerals: \<open>String(n)\<close> of a non-negative safe integer, \<open>Number(s)\<close> of a string of digits,
  and \<open>padStart\<close>.
\<close>

fun decimal :: "nat \<Rightarrow> jstring" where
  "decimal n = (if n < 10 then [48 + n] else decimal (n div 10) @ [48 + n mod 10])"

declare decimal.simps [simp del]

definition digitsValue :: "jstring \<Rightarrow> nat" where
  "digitsValue s = foldl (\<lambda>acc c. 10 * acc + (c - 48)) 0 s"

definition padStart :: "nat \<Rightarrow> nat \<Rightarrow> jstring \<Rightarrow> jstring" where
  "padStart k c s = replicate (k - length s) c @ s"

text \<open>\<open>new Date(ms)\<close> of an integer: dates reach 100 million days around the epoch.\<close>

definition dateOf :: "int \<Rightarrow> date" where
  "dateOf ms = (if \<bar>ms\<bar> \<le> 8640000000000000 then Some ms else None)"

text \<open>The regular expression \<open>^(0|[1-9][0-9]*)$\<close>.\<close>

definition canonicalDecimal :: "jstring \<Rightarrow> bool" where
  "canonicalDecimal s \<longleftrightarrow> s = [48] \<or> s \<noteq> [] \<and> hd s \<noteq> 48 \<and> list_all isDigit s"

lemma digitsValue_snoc [simp]: "digitsValue (s @ [c]) = 10 * digitsValue s + (c - 48)"
  by (simp add: digitsValue_def)

lemma digitsValue_Nil [simp]: "digitsValue [] = 0"
  by (simp add: digitsValue_def)

lemma digitsValue_zeros: "digitsValue (replicate k 48 @ s) = digitsValue s"
proof (induction s rule: rev_induct)
  case Nil
  have "foldl (\<lambda>acc c. 10 * acc + (c - 48)) 0 (replicate k 48) = (0 :: nat)" by (induction k) auto
  then show ?case by (simp add: digitsValue_def)
next
  case (snoc c s)
  then show ?case by (metis append_assoc digitsValue_snoc)
qed

lemma digitsValue_decimal [simp]: "digitsValue (decimal n) = n"
proof (induction n rule: decimal.induct)
  case (1 n)
  then show ?case
    by (cases "n < 10") (auto simp: decimal.simps [of n] digitsValue_def)
qed

lemma decimal_eq_iff [simp]: "decimal m = decimal n \<longleftrightarrow> m = n"
  by (metis digitsValue_decimal)

lemma decimal_digits: "c \<in> set (decimal n) \<Longrightarrow> isDigit c"
proof (induction n rule: decimal.induct)
  case (1 n)
  then show ?case by (cases "n < 10") (auto simp: decimal.simps [of n] isDigit_def)
qed

lemma decimal_nonempty [simp]: "decimal n \<noteq> []"
  by (simp add: decimal.simps [of n])

lemma hd_decimal: "n \<noteq> 0 \<Longrightarrow> hd (decimal n) \<noteq> 48"
proof (induction n rule: decimal.induct)
  case (1 n)
  then show ?case by (cases "n < 10") (auto simp: decimal.simps [of n] hd_append div_eq_0_iff)
qed

lemma canonicalDecimal_decimal [simp]: "canonicalDecimal (decimal n)"
proof (cases "n = 0")
  case True
  then show ?thesis by (simp add: canonicalDecimal_def decimal.simps)
next
  case False
  then show ?thesis
    using hd_decimal [of n] decimal_digits [of _ n] by (auto simp: canonicalDecimal_def list_all_iff)
qed

text \<open>A canonical numeral is the numeral of its value.\<close>

lemma digitsValue_pos: "s \<noteq> [] \<Longrightarrow> hd s \<noteq> 48 \<Longrightarrow> list_all isDigit s \<Longrightarrow> 0 < digitsValue s"
proof (induction s rule: rev_induct)
  case (snoc c s)
  show ?case
  proof (cases "s = []")
    case True
    with snoc.prems show ?thesis by (auto simp: isDigit_def digitsValue_def)
  next
    case False
    with snoc.prems have "0 < digitsValue s" by (intro snoc.IH) (auto simp: hd_append)
    then show ?thesis by simp
  qed
qed simp

lemma decimal_digitsValue: "canonicalDecimal s \<Longrightarrow> decimal (digitsValue s) = s"
proof (induction s rule: rev_induct)
  case Nil
  then show ?case by (simp add: canonicalDecimal_def)
next
  case (snoc c s)
  show ?case
  proof (cases "s = []")
    case True
    with snoc.prems have "48 \<le> c" "c \<le> 57" by (auto simp: canonicalDecimal_def isDigit_def)
    with True show ?thesis by (simp add: decimal.simps digitsValue_def)
  next
    case False
    with snoc.prems have s: "hd s \<noteq> 48" "list_all isDigit s" "48 \<le> c" "c \<le> 57"
      by (auto simp: canonicalDecimal_def isDigit_def hd_append)
    with False have "canonicalDecimal s" by (simp add: canonicalDecimal_def)
    then have "decimal (digitsValue s) = s" by (rule snoc.IH)
    moreover have "0 < digitsValue s" using digitsValue_pos [OF False s(1,2)] .
    moreover obtain d where "c = 48 + d" "d < 10"
      using s(3,4) by (intro that [of "c - 48"]) auto
    ultimately show ?thesis by (simp add: decimal.simps [of "10 * digitsValue s + d"])
  qed
qed

end
