(* ===== verification/SignedNote.thy ===== *)
theory SignedNote
  imports Base64 Numerals
begin

text \<open>
  Signed checkpoints of a log (\<open>log-c2sp-tlog/src/checkpoint.ts\<close> and \<open>signed-note.ts\<close>): parsing a
  checkpoint and its signature lines, verifier keys, and the verification of log signatures and
  witness cosignatures. The Ed25519 verification of \<open>node:crypto\<close> is a parameter.
\<close>

section \<open>Checkpoints\<close>

record NoteSignature =
  ns_name :: jstring
  ns_keyHash :: "bytes option"
  ns_signature :: bytes
  ns_raw :: jstring

record Checkpoint =
  cp_origin :: jstring
  cp_treeSize :: nat
  cp_rootHash :: bytes
  cp_signatures :: "NoteSignature list"
  cp_signedText :: jstring

text \<open>\<open>replace(/\r\n/g, '\n')\<close>, \<open>indexOf('\n\n')\<close> and \<open>trimEnd\<close>.\<close>

fun replaceCrlf :: "jstring \<Rightarrow> jstring" where
  "replaceCrlf (a # b # s) = (if a = 13 \<and> b = 10 then 10 # replaceCrlf s else a # replaceCrlf (b # s))"
| "replaceCrlf s = s"

fun indexOfBlankLine :: "jstring \<Rightarrow> nat option" where
  "indexOfBlankLine (a # b # s) =
     (if a = 10 \<and> b = 10 then Some 0 else map_option Suc (indexOfBlankLine (b # s)))"
| "indexOfBlankLine _ = None"

definition trimEnd :: "jstring \<Rightarrow> jstring" where
  "trimEnd s = rev (dropWhile isWhite (rev s))"

definition base64Char :: "nat \<Rightarrow> bool" where
  "base64Char c \<longleftrightarrow> isAlnum c \<or> c = 43 \<or> c = 47 \<or> c = 61"

text \<open>
  The regular expression of a signature line after its dash and space: a name without white space,
  white space, base64 up to the end. Its pieces are delimited by their character classes.
\<close>

definition matchSignature :: "jstring \<Rightarrow> (jstring \<times> jstring) option" where
  "matchSignature s =
     (let name = takeWhile (\<lambda>c. \<not> isWhite c) s; tail = dropWhile (\<lambda>c. \<not> isWhite c) s;
          payload = dropWhile isWhite tail
      in if name \<noteq> [] \<and> tail \<noteq> [] \<and> payload \<noteq> [] \<and> list_all base64Char payload
         then Some (name, payload) else None)"

definition signatureLine :: "jstring \<Rightarrow> (jstring \<times> jstring) option" where
  "signatureLine line =
     (case (if starts_with [8212, 32] line then matchSignature (drop 2 line) else None) of
        Some m \<Rightarrow> Some m
      | None \<Rightarrow> if starts_with (js ''-- '') line then matchSignature (drop 3 line) else None)"

definition parseNoteSignature :: "jstring \<Rightarrow> js_error + NoteSignature" where
  "parseNoteSignature line =
     (case signatureLine line of
        None \<Rightarrow> Inl (c2spParseError ''invalid signed-note signature line'')
      | Some (name, payload) \<Rightarrow>
          bindE (fromB64 payload) (\<lambda>bs.
          Inr (if length bs > 4
               then \<lparr>ns_name = name, ns_keyHash = Some (take 4 bs), ns_signature = drop 4 bs, ns_raw = line\<rparr>
               else \<lparr>ns_name = name, ns_keyHash = None, ns_signature = bs, ns_raw = line\<rparr>)))"

definition parseCheckpoint :: "jstring \<Rightarrow> js_error + Checkpoint" where
  "parseCheckpoint text =
     (let normalized = replaceCrlf text;
          sigStart = indexOfBlankLine normalized;
          signedText = (case sigStart of None \<Rightarrow> trimEnd normalized @ [10] | Some i \<Rightarrow> take (i + 1) normalized)
      in case split_on 10 (trimEnd signedText) of
           origin # sizeText # rootText # _ \<Rightarrow>
             if origin = [] then Inl (c2spParseError ''checkpoint missing origin'')
             else if \<not> canonicalDecimal sizeText
               then Inl (c2spParseError ''checkpoint has invalid tree size'')
             else if int (digitsValue sizeText) > MAX_SAFE
               then Inl (c2spParseError ''checkpoint tree size outside safe integer range'')
             else bindE (fromB64 rootText) (\<lambda>rootHash.
               if length rootHash \<noteq> 32
                 then Inl (c2spParseError ''checkpoint root hash must be SHA-256 sized'')
               else
                 let sigText = (case sigStart of None \<Rightarrow> [] | Some i \<Rightarrow> trim (drop (i + 2) normalized)) in
                 bindE (mapE parseNoteSignature (if sigText = [] then [] else filter (\<lambda>l. l \<noteq> []) (split_on 10 sigText)))
                   (\<lambda>signatures.
                 Inr \<lparr>cp_origin = origin, cp_treeSize = digitsValue sizeText, cp_rootHash = rootHash,
                      cp_signatures = signatures, cp_signedText = signedText\<rparr>))
         | _ \<Rightarrow> Inl (c2spParseError ''checkpoint must contain origin, size, and root hash''))"

section \<open>Verifier keys\<close>

record SignedNoteKey =
  nk_name :: jstring
  nk_keyBytes :: bytes
  nk_keyId :: "bytes option"
  nk_signatureType :: "bytes option"

definition hexValue :: "nat \<Rightarrow> nat option" where
  "hexValue c = (if isDigit c then Some (c - 48) else if 97 \<le> c \<and> c \<le> 102 then Some (c - 87)
     else if 65 \<le> c \<and> c \<le> 70 then Some (c - 55) else None)"

fun hexPairs :: "jstring \<Rightarrow> bytes option" where
  "hexPairs [] = Some []"
| "hexPairs [_] = None"
| "hexPairs (a # b # s) =
     (case (hexValue a, hexValue b, hexPairs s) of
        (Some x, Some y, Some bs) \<Rightarrow> Some (of_nat (16 * x + y) # bs)
      | _ \<Rightarrow> None)"

definition fromHex :: "jstring \<Rightarrow> js_error + bytes" where
  "fromHex s =
     (case hexPairs s of
        Some (b # bs) \<Rightarrow> Inr (b # bs)
      | _ \<Rightarrow> Inl (c2spParseError ''invalid signed-note key ID''))"

definition decodeKey :: "jstring \<Rightarrow> js_error + bytes option \<times> bytes" where
  "decodeKey s =
     bindE (fromB64 s) (\<lambda>b.
     if length b = 32 then Inr (None, b)
     else if length b = 33 then Inr (Some (take 1 b), drop 1 b)
     else Inl (c2spParseError ''Ed25519 verifier key must contain a signature type and 32-byte key''))"

text \<open>\<open>split\<close> at runs of separators, as \<open>split(/\s+/)\<close>.\<close>

function splitRuns :: "(nat \<Rightarrow> bool) \<Rightarrow> jstring \<Rightarrow> jstring list" where
  "splitRuns sep s =
     (let tail = dropWhile (\<lambda>c. \<not> sep c) s in
      takeWhile (\<lambda>c. \<not> sep c) s # (if tail = [] then [] else splitRuns sep (dropWhile sep tail)))"
  by pat_completeness auto
termination
proof (relation "measure (\<lambda>(sep, s). length s)")
  fix sep and s tail :: jstring
  assume "tail = dropWhile (\<lambda>c. \<not> sep c) s" "tail \<noteq> []"
  then obtain c cs where t: "tail = c # cs" "sep c" and len: "length tail \<le> length s"
    by (metis hd_Cons_tl hd_dropWhile length_dropWhile_le)
  have "length (dropWhile sep cs) \<le> length cs" by (rule length_dropWhile_le)
  with t len show "((sep, dropWhile sep tail), sep, s) \<in> measure (\<lambda>(sep, s). length s)" by simp
qed simp

declare splitRuns.simps [simp del]

definition withKey :: "jstring \<Rightarrow> bytes option \<Rightarrow> jstring \<Rightarrow> js_error + SignedNoteKey" where
  "withKey name keyId payload =
     bindE (decodeKey payload) (\<lambda>(signatureType, keyBytes).
     Inr \<lparr>nk_name = name, nk_keyBytes = keyBytes, nk_keyId = keyId, nk_signatureType = signatureType\<rparr>)"

definition parseSignedNoteVerifierKey :: "jstring \<Rightarrow> js_error + SignedNoteKey" where
  "parseSignedNoteVerifierKey text =
     (let trimmed = trim text;
          plus = (case index_of 43 trimmed of
                    None \<Rightarrow> None
                  | Some i \<Rightarrow> map_option (\<lambda>j. (i, i + 1 + j)) (index_of 43 (drop (i + 1) trimmed)));
          spaced =
            (case splitRuns isWhite trimmed of
               [name, payload] \<Rightarrow> withKey name None payload
             | [name, kind, payload] \<Rightarrow>
                 if asciiLower kind = js ''ed25519'' then withKey name None payload
                 else Inl (c2spParseError ''unsupported signed-note verifier key'')
             | _ \<Rightarrow> Inl (c2spParseError ''unsupported signed-note verifier key''))
      in case plus of
           Some (i, j) \<Rightarrow>
             if i > 0 \<and> j > i + 1 then
               bindE (fromHex (take (j - (i + 1)) (drop (i + 1) trimmed))) (\<lambda>keyId.
               if length keyId \<noteq> 4 then Inl (c2spParseError ''signed-note key ID must be four bytes'')
               else withKey (take i trimmed) (Some keyId) (drop (j + 1) trimmed))
             else spaced
         | None \<Rightarrow> spaced)"

section \<open>Signatures\<close>

text \<open>\<open>crypto.verify\<close> with an Ed25519 public key, a message and a signature; \<open>None\<close> when it throws.\<close>

type_synonym ed25519 = "bytes \<Rightarrow> bytes \<Rightarrow> bytes \<Rightarrow> bool option"

definition keyIdMatches :: "NoteSignature \<Rightarrow> SignedNoteKey \<Rightarrow> bool" where
  "keyIdMatches sig key =
     (case nk_keyId key of
        None \<Rightarrow> True
      | Some keyId \<Rightarrow> (case ns_keyHash sig of None \<Rightarrow> False | Some h \<Rightarrow> h = keyId))"

definition readUInt64BE :: "bytes \<Rightarrow> nat" where
  "readUInt64BE bs = foldl (\<lambda>acc b. 256 * acc + unat b) 0 bs"

definition cosignedMessage :: "nat \<Rightarrow> jstring \<Rightarrow> jstring" where
  "cosignedMessage timestamp message =
     js ''cosignature/v1'' @ [10] @ js ''time '' @ decimal timestamp @ [10] @ message"

definition verifyNoteSignature :: "ed25519 \<Rightarrow> jstring \<Rightarrow> NoteSignature \<Rightarrow> SignedNoteKey \<Rightarrow> bool" where
  "verifyNoteSignature E message sig key =
     (let signature = ns_signature sig;
          signatureType = (case nk_signatureType key of Some (b # _) \<Rightarrow> b | _ \<Rightarrow> 1)
      in if length (nk_keyBytes key) \<noteq> 32 then False
      else if (case nk_signatureType key of None \<Rightarrow> False | Some st \<Rightarrow> length st \<noteq> 1) then False
      else if signatureType = 1 then
        length signature = 64 \<and> E (nk_keyBytes key) (utf8 message) signature = Some True
      else if signatureType = 4 then
        if length signature \<noteq> 72 then False
        else let timestamp = readUInt64BE (take 8 signature) in
          if timestamp > 0x7fffffffffffffff then False
          else E (nk_keyBytes key) (utf8 (cosignedMessage timestamp message)) (drop 8 signature) = Some True
      else False)"

definition verifyCheckpointSignature :: "ed25519 \<Rightarrow> Checkpoint \<Rightarrow> SignedNoteKey \<Rightarrow> bool" where
  "verifyCheckpointSignature E checkpoint key \<longleftrightarrow>
     (\<exists>sig \<in> set (cp_signatures checkpoint). ns_name sig = nk_name key \<and> keyIdMatches sig key \<and>
        verifyNoteSignature E (cp_signedText checkpoint) sig key)"

fun cosignatureLoop :: "ed25519 \<Rightarrow> jstring \<Rightarrow> SignedNoteKey \<Rightarrow> NoteSignature list \<Rightarrow> nat option" where
  "cosignatureLoop E signedText key [] = None"
| "cosignatureLoop E signedText key (sig # sigs) =
     (if ns_name sig \<noteq> nk_name key \<or> \<not> keyIdMatches sig key \<or> \<not> verifyNoteSignature E signedText sig key \<or>
         length (ns_signature sig) \<noteq> 72
      then cosignatureLoop E signedText key sigs
      else let timestamp = readUInt64BE (take 8 (ns_signature sig)) in
        if int timestamp \<le> MAX_SAFE then Some timestamp else cosignatureLoop E signedText key sigs)"

definition verifiedCosignatureTimestamp :: "ed25519 \<Rightarrow> Checkpoint \<Rightarrow> SignedNoteKey \<Rightarrow> nat option" where
  "verifiedCosignatureTimestamp E checkpoint key =
     (if nk_signatureType key \<noteq> Some [4] then None
      else cosignatureLoop E (cp_signedText checkpoint) key (cp_signatures checkpoint))"

section \<open>What a signature covers\<close>

text \<open>The first lines of a text survive the trimming of its end.\<close>

lemma trimEnd_two_lines:
  assumes "10 \<notin> set x" and "10 \<notin> set y" and "y \<noteq> []" and "\<not> isWhite (last y)"
  shows "\<exists>ps. split_on 10 (trimEnd (x @ 10 # y @ 10 # z)) = x # y # ps"
proof (cases "list_all isWhite z")
  case True
  have y: "dropWhile isWhite (rev y @ u) = rev y @ u" for u
    using assms(3,4) by (cases "rev y") (auto simp: last_rev hd_rev [symmetric] hd_append)
  have "dropWhile isWhite (rev (x @ 10 # y @ 10 # z)) = rev y @ 10 # rev x"
    using True y by (simp add: dropWhile_append list_all_iff isWhite_def)
  then have "trimEnd (x @ 10 # y @ 10 # z) = x @ 10 # y" by (simp add: trimEnd_def)
  with assms show ?thesis by (simp add: split_on_append split_on_no_sep)
next
  case False
  then have "dropWhile isWhite (rev (x @ 10 # y @ 10 # z)) =
      dropWhile isWhite (rev z) @ 10 # rev y @ 10 # rev x"
    by (auto simp: dropWhile_append list_all_iff)
  then have "trimEnd (x @ 10 # y @ 10 # z) = x @ 10 # y @ 10 # trimEnd z" by (simp add: trimEnd_def)
  with assms show ?thesis by (simp add: split_on_append)
qed

text \<open>The body of an accepted checkpoint, and what its fields come from.\<close>

lemma parseCheckpoint_body:
  assumes "parseCheckpoint text = Inr c"
  shows "\<exists>sizeText rootText ps. split_on 10 (trimEnd (cp_signedText c)) = cp_origin c # sizeText # rootText # ps \<and>
    canonicalDecimal sizeText \<and> cp_treeSize c = digitsValue sizeText \<and> int (cp_treeSize c) \<le> MAX_SAFE \<and>
    fromB64 rootText = Inr (cp_rootHash c) \<and> length (cp_rootHash c) = 32 \<and> cp_origin c \<noteq> []"
  using assms unfolding parseCheckpoint_def Let_def
  by (auto simp: result_simps split: list.splits if_splits)

lemma cosignedMessage_inj:
  assumes "cosignedMessage t m = cosignedMessage t' m'"
  shows "t = t' \<and> m = m'"
proof -
  have no: "10 \<notin> set (decimal n)" for n using decimal_digits [of 10 n] by (auto simp: isDigit_def)
  from assms have "decimal t @ 10 # m = decimal t' @ 10 # m'" by (simp add: cosignedMessage_def)
  then have "length (decimal t) = length (decimal t')"
    using index_of_append [OF no, of t m] index_of_append [OF no, of t' m'] by simp
  with \<open>decimal t @ 10 # m = decimal t' @ 10 # m'\<close> show ?thesis by simp
qed

text \<open>
  What is signed is determined: two accepted checkpoints with the same signed text have the
  same origin, tree size and root; the tree size is a safe integer and the root has 32 bytes; and no
  text of an accepted checkpoint is the text a witness signs for any time and any checkpoint, so a
  log signature and a cosignature cannot stand for each other.
\<close>

theorem parseCheckpoint_signedText:
  assumes "parseCheckpoint text = Inr c" and "parseCheckpoint text' = Inr c'"
    and "cp_signedText c = cp_signedText c'"
  shows "cp_origin c = cp_origin c' \<and> cp_treeSize c = cp_treeSize c' \<and> cp_rootHash c = cp_rootHash c' \<and>
    int (cp_treeSize c) \<le> MAX_SAFE \<and> length (cp_rootHash c) = 32 \<and>
    cp_signedText c \<noteq> cosignedMessage time body"
proof -
  from parseCheckpoint_body [OF assms(1)] obtain s r ps where
    c: "split_on 10 (trimEnd (cp_signedText c)) = cp_origin c # s # r # ps" "canonicalDecimal s"
      "cp_treeSize c = digitsValue s" "int (cp_treeSize c) \<le> MAX_SAFE" "fromB64 r = Inr (cp_rootHash c)"
      "length (cp_rootHash c) = 32" by blast
  from parseCheckpoint_body [OF assms(2)] obtain s' r' ps' where
    c': "split_on 10 (trimEnd (cp_signedText c')) = cp_origin c' # s' # r' # ps'"
      "cp_treeSize c' = digitsValue s'" "fromB64 r' = Inr (cp_rootHash c')" by blast
  have "cp_signedText c \<noteq> cosignedMessage time body"
  proof
    assume t: "cp_signedText c = cosignedMessage time body"
    have "\<exists>ps. split_on 10 (trimEnd (js ''cosignature/v1'' @ 10 # (js ''time '' @ decimal time) @ 10 # body)) =
        js ''cosignature/v1'' # (js ''time '' @ decimal time) # ps"
    proof (rule trimEnd_two_lines)
      show "10 \<notin> set (js ''time '' @ decimal time)"
        using decimal_digits [of 10 time] by (auto simp: isDigit_def)
      have "isDigit (last (decimal time))" by (rule decimal_digits [of _ time]) simp
      then show "\<not> isWhite (last (js ''time '' @ decimal time))" by (auto simp: isDigit_def isWhite_def)
    qed simp_all
    then have "s = js ''time '' @ decimal time" using c(1) by (simp add: t cosignedMessage_def)
    with c(2) show False by (simp add: canonicalDecimal_def isDigit_def)
  qed
  with c c' assms(3) show ?thesis by auto
qed

text \<open>The timestamp of a cosignature is covered by a signature of the key over the checkpoint.\<close>

lemma cosignatureLoop_sound:
  assumes "cosignatureLoop E signedText key sigs = Some t" and "nk_signatureType key = Some [4]"
  shows "int t \<le> MAX_SAFE \<and> (\<exists>sig \<in> set sigs. ns_name sig = nk_name key \<and> keyIdMatches sig key \<and>
    length (ns_signature sig) = 72 \<and> t = readUInt64BE (take 8 (ns_signature sig)) \<and>
    E (nk_keyBytes key) (utf8 (cosignedMessage t signedText)) (drop 8 (ns_signature sig)) = Some True)"
  using assms
  by (induction sigs) (auto simp: Let_def verifyNoteSignature_def split: if_splits)

text \<open>
  C37. A witnessed time is signed by the witness: \<open>verifiedCosignatureTimestamp\<close> answers a time only for
  a cosignature key, and only if a signature line under the key's name and key ID verifies, under that
  key, over exactly that time and the checkpoint's text.
\<close>

theorem verifiedCosignatureTimestamp_sound:
  assumes "verifiedCosignatureTimestamp E c key = Some t"
  shows "nk_signatureType key = Some [4] \<and> int t \<le> MAX_SAFE \<and>
    (\<exists>sig \<in> set (cp_signatures c). ns_name sig = nk_name key \<and> keyIdMatches sig key \<and>
      E (nk_keyBytes key) (utf8 (cosignedMessage t (cp_signedText c))) (drop 8 (ns_signature sig)) = Some True)"
proof -
  from assms have ty: "nk_signatureType key = Some [4]"
    and run: "cosignatureLoop E (cp_signedText c) key (cp_signatures c) = Some t"
    by (auto simp: verifiedCosignatureTimestamp_def split: if_splits)
  from cosignatureLoop_sound [OF run ty] ty show ?thesis by blast
qed

section \<open>Checkpoints round trip\<close>

lemma fromBase64Url_padded:
  assumes "length s mod 4 \<noteq> 1"
  shows "fromBase64Url (s @ take ((4 - length s mod 4) mod 4) [61, 61]) = fromBase64Url s"
proof -
  define pad where "pad = take ((4 - length s mod 4) mod 4) [61, 61 :: nat]"
  have "length s mod 4 \<in> {0, 2, 3}" using assms by fastforce
  then have len: "length (s @ pad) mod 4 = 0"
    unfolding pad_def by (elim insertE) (simp_all add: mod_Suc)
  have pad: "map (\<lambda>c. if c = 45 then 43 else if c = 95 then 47 else c) pad = pad"
    by (auto simp: pad_def intro!: map_idI dest!: in_set_takeD)
  have "fromBase64Url (s @ pad) = fromBase64Url s"
    using len unfolding fromBase64Url_def Let_def length_map map_append pad by (simp flip: pad_def)
  then show ?thesis by (simp add: pad_def)
qed

lemma fromB64_btoa: "fromB64 (btoa (map unat bs)) = Inr bs"
proof -
  let ?f = "\<lambda>c :: nat. if c = 43 then 45 else if c = 47 then 95 else c"
  let ?xs = "toSextets (map unat bs)"
  let ?s = "map (\<lambda>i. ?f (b64char i)) ?xs"
  have "map ?f (take k [61, 61]) = take k [61, 61]" for k
    by (auto intro!: map_idI dest!: in_set_takeD)
  then have "map ?f (btoa (map unat bs)) = ?s @ take ((4 - length ?s mod 4) mod 4) [61, 61]"
    by (simp add: btoa_toSextets [OF map_unat_bytes])
  moreover have "fromBase64Url (?s @ take ((4 - length ?s mod 4) mod 4) [61, 61]) = fromBase64Url ?s"
    by (rule fromBase64Url_padded) (use length_toSextets_mod in simp)
  ultimately show ?thesis
    using toBase64Url_roundtrip [of bs] by (simp add: fromB64_def toBase64Url_sextets)
qed

lemma btoa_chars: "c \<in> set (btoa (map unat (bs :: bytes))) \<Longrightarrow> base64Char c \<and> \<not> isWhite c \<and> c \<noteq> 10 \<and> c \<noteq> 13"
proof -
  assume "c \<in> set (btoa (map unat bs))"
  then have "c = 61 \<or> (\<exists>i < 64. c = b64char i)"
    using toSextets_less [OF map_unat_bytes [of bs]]
    by (auto simp: btoa_toSextets [OF map_unat_bytes] dest!: in_set_takeD)
  then show ?thesis
    by (auto simp: base64Char_def isWhite_def isAlnum_def isDigit_def isLower_def isUpper_def b64char_def
        split: if_splits)
qed

lemma btoa_nonempty: "bs \<noteq> [] \<Longrightarrow> btoa (map unat (bs :: bytes)) \<noteq> []"
  using fromB64_btoa [of bs] fromB64_btoa [of "[]"] by auto

text \<open>A checkpoint as a log writes it: three lines, a blank line, one line per signature.\<close>

definition signatureText :: "jstring \<times> bytes \<Rightarrow> jstring" where
  "signatureText p = [8212, 32] @ fst p @ [32] @ btoa (map unat (snd p))"

definition checkpointBody :: "jstring \<Rightarrow> nat \<Rightarrow> bytes \<Rightarrow> jstring" where
  "checkpointBody origin treeSize rootHash = origin @ 10 # decimal treeSize @ 10 # btoa (map unat rootHash)"

definition formatCheckpoint :: "jstring \<Rightarrow> nat \<Rightarrow> bytes \<Rightarrow> (jstring \<times> bytes) list \<Rightarrow> jstring" where
  "formatCheckpoint origin treeSize rootHash sigs =
     checkpointBody origin treeSize rootHash @ [10, 10] @ join [10] (map signatureText sigs) @ [10]"

definition plainName :: "jstring \<Rightarrow> bool" where
  "plainName s \<longleftrightarrow> s \<noteq> [] \<and> list_all (\<lambda>c. \<not> isWhite c) s"

lemma plainName_chars: "plainName s \<Longrightarrow> c \<in> set s \<Longrightarrow> \<not> isWhite c \<and> c \<noteq> 10 \<and> c \<noteq> 13"
  by (auto simp: plainName_def list_all_iff isWhite_def)

lemma decimal_plain: "c \<in> set (decimal n) \<Longrightarrow> \<not> isWhite c \<and> c \<noteq> 10 \<and> c \<noteq> 13"
  using decimal_digits [of c n] by (auto simp: isDigit_def isWhite_def)

lemma takeWhile_append_plain:
  "list_all (\<lambda>c. \<not> isWhite c) s \<Longrightarrow> isWhite c \<Longrightarrow>
   takeWhile (\<lambda>c. \<not> isWhite c) (s @ c # t) = s \<and> dropWhile (\<lambda>c. \<not> isWhite c) (s @ c # t) = c # t"
  by (induction s) auto

lemma isWhite_space: "isWhite 32" "isWhite 10"
  by (simp_all add: isWhite_def)

lemma parse_signatureText:
  assumes "plainName name" and "4 < length bs"
  shows "parseNoteSignature (signatureText (name, bs)) =
    Inr \<lparr>ns_name = name, ns_keyHash = Some (take 4 bs), ns_signature = drop 4 bs,
         ns_raw = signatureText (name, bs)\<rparr>"
proof -
  let ?p = "btoa (map unat bs)"
  have "bs \<noteq> []" using assms(2) by auto
  then have p: "?p \<noteq> []" "list_all base64Char ?p" "dropWhile isWhite ?p = ?p"
    using btoa_nonempty [of bs] btoa_chars [of _ bs] dropWhile_none [of ?p isWhite]
    by (simp_all add: list_all_iff)
  have "\<exists>c \<in> set ?p. \<not> isWhite c"
    using p(1) btoa_chars [of "hd ?p" bs] hd_in_set [of ?p] by blast
  then have "matchSignature (name @ 32 # ?p) = Some (name, ?p)"
    using assms(1) p takeWhile_append_plain [of name 32 ?p] isWhite_space
    by (simp add: matchSignature_def plainName_def Let_def)
  then show ?thesis
    using assms(2) by (simp add: parseNoteSignature_def signatureLine_def signatureText_def starts_with_def
        fromB64_btoa)
qed

lemma replaceCrlf_id: "13 \<notin> set s \<Longrightarrow> replaceCrlf s = s"
  by (induction s rule: replaceCrlf.induct) auto

lemma indexOfBlankLine_line:
  "10 \<notin> set l \<Longrightarrow> indexOfBlankLine (l @ 10 # s) = map_option ((+) (length l)) (indexOfBlankLine (10 # s))"
proof (induction l)
  case (Cons c l)
  then show ?case by (cases l) (auto simp: option.map_comp comp_def)
qed (cases "indexOfBlankLine (10 # s)"; simp)

lemma indexOfBlankLine_next:
  "c \<noteq> 10 \<Longrightarrow> indexOfBlankLine (10 # c # s) = map_option Suc (indexOfBlankLine (c # s))"
  by simp

lemma checkpoint_blank_line:
  assumes "plainName origin" and "rootHash \<noteq> []"
  shows "indexOfBlankLine (checkpointBody origin n rootHash @ 10 # 10 # t) =
    Some (length (checkpointBody origin n rootHash))"
proof -
  let ?r = "btoa (map unat rootHash)"
  have o: "10 \<notin> set origin" and d: "10 \<notin> set (decimal n)" and r: "10 \<notin> set ?r"
    using plainName_chars [OF assms(1)] decimal_plain [of _ n] btoa_chars [of _ rootHash] by blast+
  have step: "indexOfBlankLine (10 # u @ v) = map_option Suc (indexOfBlankLine (u @ v))"
    if "u \<noteq> []" "10 \<notin> set u" for u v
    using that by (cases u) (auto simp: indexOfBlankLine_next)
  have r': "indexOfBlankLine (10 # ?r @ 10 # 10 # t) = Some (Suc (length ?r))"
    using indexOfBlankLine_line [OF r, of "10 # t"] step [OF btoa_nonempty [OF assms(2)] r] by simp
  have d': "indexOfBlankLine (10 # decimal n @ 10 # ?r @ 10 # 10 # t) =
      Some (Suc (length (decimal n) + Suc (length ?r)))"
    using indexOfBlankLine_line [OF d, of "?r @ 10 # 10 # t"] step [OF decimal_nonempty d] r' by simp
  show ?thesis
    using indexOfBlankLine_line [OF o, of "decimal n @ 10 # ?r @ 10 # 10 # t"] d'
    by (simp add: checkpointBody_def)
qed

lemma trim_surrounded:
  assumes "s \<noteq> []" and "\<not> isWhite (hd s)" and "\<not> isWhite (last s)" and "list_all isWhite w"
  shows "trimEnd (s @ w) = s" and "trim (s @ w) = s"
proof -
  have r: "dropWhile isWhite (rev (s @ w)) = rev s"
    using assms by (cases "rev s") (auto simp: dropWhile_append list_all_iff hd_rev [symmetric])
  then show "trimEnd (s @ w) = s" by (simp add: trimEnd_def)
  have "dropWhile isWhite (s @ w) = s @ w" using assms(1,2) by (cases s) auto
  with r show "trim (s @ w) = s" by (simp add: trim_def)
qed

lemma signatureText_chars:
  assumes "plainName (fst p)" and "c \<in> set (signatureText p)"
  shows "c \<noteq> 10" and "c \<noteq> 13"
  using assms plainName_chars [OF assms(1), of c] btoa_chars [of c "snd p"]
  by (auto simp: signatureText_def)

lemma signatureText_ends:
  assumes "snd p \<noteq> []"
  shows "signatureText p \<noteq> []" and "hd (signatureText p) = 8212" and "\<not> isWhite (last (signatureText p))"
proof -
  show "\<not> isWhite (last (signatureText p))"
    using btoa_chars [of "last (btoa (map unat (snd p)))" "snd p"] btoa_nonempty [OF assms]
    by (simp add: signatureText_def)
qed (simp_all add: signatureText_def)

lemma join_ends:
  "ts \<noteq> [] \<Longrightarrow> \<forall>t \<in> set ts. t \<noteq> [] \<Longrightarrow>
   join sep ts \<noteq> [] \<and> hd (join sep ts) = hd (hd ts) \<and> last (join sep ts) = last (last ts)"
  by (induction sep ts rule: join.induct) (auto simp: hd_append)

definition goodSignature :: "jstring \<times> bytes \<Rightarrow> bool" where
  "goodSignature p \<longleftrightarrow> plainName (fst p) \<and> 4 < length (snd p)"

lemma signature_lines:
  assumes "list_all goodSignature sigs"
  shows "13 \<notin> set (join [10] (map signatureText sigs))"
    and "(let t = trim (join [10] (map signatureText sigs) @ [10]) in
      if t = [] then [] else filter (\<lambda>l. l \<noteq> []) (split_on 10 t)) = map signatureText sigs"
proof -
  have good: "plainName (fst p)" "snd p \<noteq> []" if "p \<in> set sigs" for p
    using assms that by (auto simp: list_all_iff goodSignature_def)
  show "13 \<notin> set (join [10] (map signatureText sigs))"
    using set_join [of "[10]" "map signatureText sigs"] signatureText_chars(2) good(1) by fastforce
  show "(let t = trim (join [10] (map signatureText sigs) @ [10]) in
      if t = [] then [] else filter (\<lambda>l. l \<noteq> []) (split_on 10 t)) = map signatureText sigs"
  proof (cases "sigs = []")
    case True
    then show ?thesis by (simp add: trim_def isWhite_def)
  next
    case False
    let ?ts = "map signatureText sigs"
    have no: "10 \<notin> set (signatureText p)" if "p \<in> set sigs" for p
      using signatureText_chars(1) [OF good(1) [OF that], of 10] by blast
    have ne: "\<forall>t \<in> set ?ts. t \<noteq> []" using signatureText_ends(1) good(2) by auto
    have "hd (hd ?ts) = 8212" "\<not> isWhite (last (last ?ts))"
      using False signatureText_ends(2,3) good(2) by (simp_all add: hd_map last_map)
    with join_ends [of ?ts "[10]"] ne False have j: "join [10] ?ts \<noteq> []"
        "\<not> isWhite (hd (join [10] ?ts))" "\<not> isWhite (last (join [10] ?ts))"
      by (auto simp: isWhite_def)
    have "trim (join [10] ?ts @ [10]) = join [10] ?ts"
      by (rule trim_surrounded(2) [OF j]) (simp add: isWhite_def)
    moreover have "split_on 10 (join [10] ?ts) = ?ts"
      by (rule split_join) (use False no in auto)
    moreover have "filter (\<lambda>l. l \<noteq> []) ?ts = ?ts" using ne by (simp add: filter_id_conv)
    ultimately show ?thesis using j(1) by (simp add: Let_def)
  qed
qed

text \<open>
  Checkpoints round trip: the text a log writes for an origin, a safe tree size, a root and any
  signatures is accepted, with exactly these fields, and the signed text is the three lines.
\<close>

theorem parseCheckpoint_format:
  assumes "plainName origin" and "int treeSize \<le> MAX_SAFE" and "length rootHash = 32"
    and "list_all goodSignature sigs"
  shows "parseCheckpoint (formatCheckpoint origin treeSize rootHash sigs) =
    Inr \<lparr>cp_origin = origin, cp_treeSize = treeSize, cp_rootHash = rootHash,
         cp_signatures = map (\<lambda>(name, bs). \<lparr>ns_name = name, ns_keyHash = Some (take 4 bs),
           ns_signature = drop 4 bs, ns_raw = signatureText (name, bs)\<rparr>) sigs,
         cp_signedText = checkpointBody origin treeSize rootHash @ [10]\<rparr>"
proof -
  let ?b = "checkpointBody origin treeSize rootHash" and ?r = "btoa (map unat rootHash)"
  let ?t = "join [10] (map signatureText sigs) @ [10]"
  have ne: "rootHash \<noteq> []" using assms(3) by auto
  have chars: "10 \<notin> set origin" "10 \<notin> set (decimal treeSize)" "10 \<notin> set ?r"
      "13 \<notin> set origin" "13 \<notin> set (decimal treeSize)" "13 \<notin> set ?r"
    using plainName_chars [OF assms(1)] decimal_plain [of _ treeSize] btoa_chars [of _ rootHash] by blast+
  have norm: "replaceCrlf (?b @ 10 # 10 # ?t) = ?b @ 10 # 10 # ?t"
    by (rule replaceCrlf_id) (use chars signature_lines(1) [OF assms(4)] in \<open>simp add: checkpointBody_def\<close>)
  note blank = checkpoint_blank_line [OF assms(1) ne, of treeSize ?t]
  have "hd origin \<in> set origin" "last ?r \<in> set ?r"
    using assms(1) btoa_nonempty [OF ne] by (auto simp: plainName_def)
  then have "\<not> isWhite (hd ?b)" "\<not> isWhite (last ?b)" "?b \<noteq> []"
    using plainName_chars [OF assms(1), of "hd origin"] btoa_chars [of "last ?r" rootHash]
      btoa_nonempty [OF ne] assms(1)
    by (simp_all add: checkpointBody_def plainName_def hd_append)
  then have body: "trimEnd (?b @ [10]) = ?b" by (intro trim_surrounded(1)) (simp_all add: isWhite_def)
  have split: "split_on 10 ?b = [origin, decimal treeSize, ?r]"
    using chars by (simp add: checkpointBody_def split_on_append split_on_no_sep)
  have sigs: "mapE parseNoteSignature (map signatureText sigs) =
      Inr (map (\<lambda>(name, bs). \<lparr>ns_name = name, ns_keyHash = Some (take 4 bs),
           ns_signature = drop 4 bs, ns_raw = signatureText (name, bs)\<rparr>) sigs)"
    using assms(4) by (induction sigs) (auto simp: goodSignature_def parse_signatureText)
  show ?thesis
    using assms signature_lines(2) [OF assms(4), unfolded Let_def]
    by (simp add: parseCheckpoint_def formatCheckpoint_def norm blank body split fromB64_btoa sigs Let_def
        plainName_def)
qed

section \<open>A concrete checkpoint\<close>

definition exampleCosignature :: bytes where
  "exampleCosignature = [0, 0, 0, 0, 0, 0, 0, 5] @ replicate 64 0"

definition witnessKey :: SignedNoteKey where
  "witnessKey = \<lparr>nk_name = js ''w'', nk_keyBytes = replicate 32 0, nk_keyId = None, nk_signatureType = Some [4]\<rparr>"

definition exampleCheckpoint :: Checkpoint where
  "exampleCheckpoint = \<lparr>cp_origin = js ''o'', cp_treeSize = 3, cp_rootHash = replicate 32 0,
     cp_signatures = [\<lparr>ns_name = js ''w'', ns_keyHash = Some (replicate 4 0), ns_signature = exampleCosignature,
       ns_raw = signatureText (js ''w'', replicate 4 0 @ exampleCosignature)\<rparr>],
     cp_signedText = checkpointBody (js ''o'') 3 (replicate 32 0) @ [10]\<rparr>"

theorem parseCheckpoint_format_witness:
  "parseCheckpoint (formatCheckpoint (js ''o'') 3 (replicate 32 0)
     [(js ''w'', replicate 4 0 @ exampleCosignature)]) = Inr exampleCheckpoint"
  using parseCheckpoint_format [of "js ''o''" 3 "replicate 32 0" "[(js ''w'', replicate 4 0 @ exampleCosignature)]"]
  by (simp add: plainName_def isWhite_def MAX_SAFE_def goodSignature_def exampleCosignature_def
      exampleCheckpoint_def)

theorem parseCheckpoint_signedText_witness:
  "cp_signedText exampleCheckpoint \<noteq> cosignedMessage 5 (js ''m'')"
proof -
  have "parseCheckpoint (formatCheckpoint (js ''o'') 3 (replicate 32 0)
      [(js ''w'', replicate 4 0 @ exampleCosignature)]) = Inr exampleCheckpoint"
    by (subst parseCheckpoint_format)
      (simp_all add: plainName_def isWhite_def MAX_SAFE_def goodSignature_def exampleCosignature_def
        exampleCheckpoint_def)
  from parseCheckpoint_signedText [OF this this refl] show ?thesis by blast
qed

theorem verifiedCosignatureTimestamp_sound_witness:
  "\<exists>sig \<in> set (cp_signatures exampleCheckpoint). ns_name sig = js ''w''"
proof -
  have "verifiedCosignatureTimestamp (\<lambda>_ _ _. Some True) exampleCheckpoint witnessKey = Some 5"
    by (simp add: verifiedCosignatureTimestamp_def witnessKey_def exampleCheckpoint_def keyIdMatches_def
        verifyNoteSignature_def exampleCosignature_def readUInt64BE_def MAX_SAFE_def)
  from verifiedCosignatureTimestamp_sound [OF this] show ?thesis by (auto simp: witnessKey_def)
qed

end
