(* ===== verification/Tiles.thy ===== *)
theory Tiles
  imports Numerals
begin

text \<open>
  The tlog-tiles layout (\<open>log-c2sp-tlog/src/tiles.ts\<close>): paths of checkpoints, hash tiles and entry
  bundles, and the encoding of entry bundles.
\<close>

section \<open>Entries\<close>

text \<open>An entry with its index in the log (\<open>stream-source.ts\<close>).\<close>

record IndexedEntry =
  en_index :: int
  en_bytes :: bytes

section \<open>Paths\<close>

definition checkpointPath :: "jstring \<Rightarrow> jstring" where
  "checkpointPath prefix = prefix @ js ''/checkpoint''"

text \<open>
  The replacement inserts a slash before every group of three digits that ends the string; the
  split then gives the groups.
\<close>

function digitGroups :: "jstring \<Rightarrow> jstring list" where
  "digitGroups s =
     (if length s \<le> 3 then [s] else digitGroups (take (length s - 3) s) @ [drop (length s - 3) s])"
  by pat_completeness auto
termination by (relation "measure length") auto

declare digitGroups.simps [simp del]

definition tileN :: "int \<Rightarrow> js_error + jstring" where
  "tileN n =
     (if n < 0 \<or> n > MAX_SAFE then Inl (c2spParseError ''invalid C2SP tile number'')
      else let groups = digitGroups (padStart 3 48 (decimal (nat n))) in
        Inr (join [47] (map (\<lambda>(i, g). (if i = length groups - 1 then [] else [120]) @ padStart 3 48 g)
               (enumerate 0 groups))))"

definition widthSuffix :: "nat option \<Rightarrow> jstring" where
  "widthSuffix width = (case width of None \<Rightarrow> [] | Some w \<Rightarrow> js ''.p/'' @ decimal w)"

definition tilePath :: "jstring \<Rightarrow> nat \<Rightarrow> int \<Rightarrow> nat option \<Rightarrow> js_error + jstring" where
  "tilePath prefix level n width =
     bindE (tileN n) (\<lambda>t. Inr (prefix @ js ''/tile/'' @ decimal level @ [47] @ t @ widthSuffix width))"

definition entryBundlePath :: "jstring \<Rightarrow> int \<Rightarrow> nat option \<Rightarrow> js_error + jstring" where
  "entryBundlePath prefix n width =
     bindE (tileN n) (\<lambda>t. Inr (prefix @ js ''/tile/entries/'' @ t @ widthSuffix width))"

section \<open>Entry bundles\<close>

text \<open>The loop over the bytes from the current offset; \<open><<\<close> and \<open>|\<close> of two bytes are an addition.\<close>

function parseEntryBundle :: "bytes \<Rightarrow> js_error + bytes list" where
  "parseEntryBundle bs =
     (case bs of
        [] \<Rightarrow> Inr []
      | [_] \<Rightarrow> Inl (c2spParseError ''truncated entry bundle length'')
      | hi # lo # rest \<Rightarrow>
          let len = 256 * unat hi + unat lo in
          if len > length rest then Inl (c2spParseError ''truncated entry bundle entry'')
          else bindE (parseEntryBundle (drop len rest)) (\<lambda>out. Inr (take len rest # out)))"
  by pat_completeness auto
termination by (relation "measure length") auto

declare parseEntryBundle.simps [simp del]

definition encodeEntry :: "bytes \<Rightarrow> js_error + bytes" where
  "encodeEntry e =
     (if length e > 0xffff then Inl (c2spParseError ''entry too large for bundle'')
      else Inr (of_nat (length e div 256) # of_nat (length e mod 256) # e))"

definition encodeEntryBundle :: "bytes list \<Rightarrow> js_error + bytes" where
  "encodeEntryBundle entries = bindE (mapE encodeEntry entries) (\<lambda>parts. Inr (concat parts))"

section \<open>Bundles round trip\<close>

lemma parseEntryBundle_simps [simp]:
  "parseEntryBundle [] = Inr []"
  "parseEntryBundle [b] = Inl (c2spParseError ''truncated entry bundle length'')"
  "parseEntryBundle (hi # lo # rest) =
     (if 256 * unat hi + unat lo > length rest then Inl (c2spParseError ''truncated entry bundle entry'')
      else bindE (parseEntryBundle (drop (256 * unat hi + unat lo) rest))
        (\<lambda>out. Inr (take (256 * unat hi + unat lo) rest # out)))"
  by (simp_all add: parseEntryBundle.simps [of "_ # _"] parseEntryBundle.simps [of "[]"] Let_def)

lemma length_prefix: "n \<le> 0xffff \<Longrightarrow>
    256 * unat (of_nat (n div 256) :: byte) + unat (of_nat (n mod 256) :: byte) = n"
  by (simp add: unat_of_nat take_bit_nat_eq_self)

lemma parse_encodeEntry:
  assumes "encodeEntry e = Inr b"
  shows "parseEntryBundle (b @ rest) = bindE (parseEntryBundle rest) (\<lambda>out. Inr (e # out))"
proof -
  from assms have len: "length e \<le> 0xffff"
    and b: "b = of_nat (length e div 256) # of_nat (length e mod 256) # e"
    by (auto simp: encodeEntry_def split: if_splits)
  show ?thesis unfolding b by (simp add: length_prefix [OF len])
qed

lemma encode_parsed:
  "parseEntryBundle bs = Inr es \<Longrightarrow> encodeEntryBundle es = Inr bs"
proof (induction bs arbitrary: es rule: parseEntryBundle.induct)
  case (1 bs)
  consider "bs = []" | b where "bs = [b]" | hi lo rest where "bs = hi # lo # rest"
    by (metis neq_Nil_conv)
  then show ?case
  proof cases
    case 3
    define len where "len = 256 * unat hi + unat lo"
    from 1 (2) 3 obtain out where out: "parseEntryBundle (drop len rest) = Inr out"
      and es: "es = take len rest # out" and len: "len \<le> length rest"
      by (auto simp: len_def result_simps split: if_splits)
    have "encodeEntryBundle out = Inr (drop len rest)"
      using 1 (1) [OF 3 refl len_def, of out] out len by (simp add: len_def)
    moreover have "encodeEntry (take len rest) = Inr (hi # lo # take len rest)"
    proof -
      have "len \<le> 0xffff" using unat_byte_less [of hi] unat_byte_less [of lo] by (simp add: len_def)
      moreover have "len div 256 = unat hi" "len mod 256 = unat lo"
        using unat_byte_less [of lo] by (simp_all add: len_def)
      ultimately show ?thesis using len by (simp add: encodeEntry_def)
    qed
    ultimately show ?thesis
      unfolding es 3 encodeEntryBundle_def by (auto simp: result_simps)
  qed (use 1 (2) in \<open>auto simp: encodeEntryBundle_def\<close>)
qed

text \<open>
  Entry bundles round trip in both directions: the parser returns a list of entries for exactly
  the bytes that the encoder produces for that list. Every bundle has one reading, and every entry
  the parser returns is within the 16-bit length limit.
\<close>

theorem parseEntryBundle_iff: "parseEntryBundle bs = Inr es \<longleftrightarrow> encodeEntryBundle es = Inr bs"
proof
  show "encodeEntryBundle es = Inr bs \<Longrightarrow> parseEntryBundle bs = Inr es"
  proof (induction es arbitrary: bs)
    case (Cons e es)
    then obtain b bs' where "encodeEntry e = Inr b" "encodeEntryBundle es = Inr bs'" "bs = b @ bs'"
      by (auto simp: encodeEntryBundle_def result_simps)
    with Cons.IH show ?case by (simp add: parse_encodeEntry)
  qed (simp add: encodeEntryBundle_def)
qed (rule encode_parsed)

section \<open>Paths determine tiles\<close>

lemma filter_join: "\<not> P c \<Longrightarrow> filter P (join [c] xs) = concat (map (filter P) xs)"
  by (induction "[c]" xs rule: join.induct) auto

lemma digitGroups_padded: "\<exists>k. concat (map (padStart 3 48) (digitGroups s)) = replicate k 48 @ s"
proof (induction s rule: digitGroups.induct)
  case (1 s)
  show ?case
  proof (cases "length s \<le> 3")
    case True
    then show ?thesis by (auto simp: digitGroups.simps [of s] padStart_def)
  next
    case False
    with 1 obtain k where "concat (map (padStart 3 48) (digitGroups (take (length s - 3) s))) =
        replicate k 48 @ take (length s - 3) s" by blast
    moreover have "padStart 3 48 (drop (length s - 3) s) = drop (length s - 3) s"
      using False by (simp add: padStart_def)
    ultimately show ?thesis using False by (intro exI [of _ k]) (simp add: digitGroups.simps [of s])
  qed
qed

lemma digitGroups_digits: "list_all isDigit s \<Longrightarrow> g \<in> set (digitGroups s) \<Longrightarrow> list_all isDigit g"
proof (induction s rule: digitGroups.induct)
  case (1 s)
  show ?case
  proof (cases "length s \<le> 3")
    case False
    have "list_all isDigit (take (length s - 3) s)" "list_all isDigit (drop (length s - 3) s)"
      using 1(2) by (simp_all add: list_all_iff) (meson in_set_takeD in_set_dropD)+
    with 1 False show ?thesis by (auto simp: digitGroups.simps [of s])
  qed (use 1 in \<open>auto simp: digitGroups.simps [of s]\<close>)
qed

text \<open>The segments of a tile path and what the segments of a tile number determine.\<close>

definition tileSegments :: "nat \<Rightarrow> jstring list" where
  "tileSegments n = (let groups = digitGroups (padStart 3 48 (decimal n)) in
     map (\<lambda>(i, g). (if i = length groups - 1 then [] else [120]) @ padStart 3 48 g) (enumerate 0 groups))"

lemma tileN_segments:
  "tileN n = Inr t \<longleftrightarrow> 0 \<le> n \<and> n \<le> MAX_SAFE \<and> t = join [47] (tileSegments (nat n))"
  by (auto simp: tileN_def tileSegments_def Let_def)

lemma padded_digits: "list_all isDigit (padStart 3 48 (decimal n))"
  using decimal_digits [of _ n] by (auto simp: padStart_def list_all_iff isDigit_def)

lemma tileSegment_chars:
  assumes "s \<in> set (tileSegments n)" and "c \<in> set s"
  shows "isDigit c \<or> c = 120"
proof -
  define gs where "gs = digitGroups (padStart 3 48 (decimal n))"
  from assms(1) obtain i where i: "i < length gs" and
    s: "s = (if i = length gs - 1 then [] else [120]) @ padStart 3 48 (gs ! i)"
    by (auto simp: tileSegments_def Let_def in_set_enumerate_eq gs_def)
  define g where "g = gs ! i"
  have g: "g \<in> set (digitGroups (padStart 3 48 (decimal n)))"
    using i by (simp add: g_def flip: gs_def)
  have "list_all isDigit g" by (rule digitGroups_digits [OF padded_digits g])
  with s assms(2) show ?thesis
    by (auto simp: padStart_def list_all_iff isDigit_def split: if_splits simp flip: g_def)
qed

lemma tileSegments_value: "digitsValue (concat (map (filter isDigit) (tileSegments n))) = n"
proof -
  define gs where "gs = digitGroups (padStart 3 48 (decimal n))"
  have dig: "filter isDigit (padStart 3 48 g) = padStart 3 48 g" if "g \<in> set gs" for g
    using digitGroups_digits [OF padded_digits that [unfolded gs_def]]
    by (auto simp: filter_id_conv padStart_def list_all_iff isDigit_def)
  have "map (filter isDigit) (tileSegments n) = map (\<lambda>(i, g). padStart 3 48 g) (enumerate 0 gs)"
    unfolding tileSegments_def Let_def gs_def [symmetric] map_map
    by (rule map_cong) (auto simp: in_set_enumerate_eq dig isDigit_def)
  also have "\<dots> = map (padStart 3 48) (map snd (enumerate 0 gs))"
    by (simp add: case_prod_unfold comp_def del: map_snd_enumerate)
  also have "\<dots> = map (padStart 3 48) gs" by simp
  finally have "concat (map (filter isDigit) (tileSegments n)) = concat (map (padStart 3 48) gs)" by simp
  then obtain k where "concat (map (filter isDigit) (tileSegments n)) = replicate k 48 @ padStart 3 48 (decimal n)"
    using digitGroups_padded [of "padStart 3 48 (decimal n)"] unfolding gs_def by auto
  then show ?thesis by (simp add: digitsValue_zeros padStart_def)
qed

lemma tileN_value:
  assumes "tileN n = Inr t"
  shows "digitsValue (filter isDigit t) = nat n" and "0 \<le> n"
  using assms unfolding tileN_segments
  by (simp_all add: filter_join tileSegments_value isDigit_def [of 47])

lemma tileN_chars:
  assumes "tileN n = Inr t" and "c \<in> set t"
  shows "isDigit c \<or> c = 47 \<or> c = 120"
proof -
  from assms have "c \<in> \<Union> (set ` set (tileSegments (nat n))) \<union> set [47]"
    using set_join [of "[47]" "tileSegments (nat n)"] unfolding tileN_segments by blast
  then show ?thesis using tileSegment_chars by auto
qed

text \<open>Two strings cut at the first occurrence of a character outside both prefixes.\<close>

lemma append_at_char:
  assumes "s @ c # u = t @ (c :: nat) # v" and "c \<notin> set s" and "c \<notin> set t"
  shows "s = t \<and> u = v"
proof -
  from assms have "length s = length t"
    using index_of_append [of c s u] index_of_append [of c t v] by simp
  with assms(1) show ?thesis by simp
qed

lemma tile_suffix_eq:
  assumes "t @ widthSuffix w = t' @ widthSuffix w'" and "46 \<notin> set t" and "46 \<notin> set t'"
  shows "t = t' \<and> w = w'"
proof (cases w; cases w')
  fix a b assume "w = Some a" "w' = Some b"
  with assms(1) have "t @ 46 # js ''p/'' @ decimal a = t' @ 46 # js ''p/'' @ decimal b"
    by (simp add: widthSuffix_def)
  from append_at_char [OF this assms(2,3)] show ?thesis by (simp add: \<open>w = Some a\<close> \<open>w' = Some b\<close>)
qed (use assms in \<open>auto simp: widthSuffix_def\<close>)

text \<open>
  A path names one resource: hash tiles of different level, number or width have different
  paths, so do different entry bundles, and no hash tile has the path of an entry bundle.
\<close>

theorem tilePath_inj:
  assumes "tilePath prefix level n w = Inr p"
  shows "(tilePath prefix level' n' w' = Inr p \<longleftrightarrow> level' = level \<and> n' = n \<and> w' = w) \<and>
    entryBundlePath prefix n' w' \<noteq> Inr p"
proof -
  from assms obtain t where t: "tileN n = Inr t"
    and p: "p = prefix @ js ''/tile/'' @ decimal level @ [47] @ t @ widthSuffix w"
    by (auto simp: tilePath_def result_simps)
  have plain: "46 \<notin> set u" if "tileN m = Inr u" for m u
    using tileN_chars [OF that, of 46] by (auto simp: isDigit_def)
  have level: "47 \<notin> set (decimal l)" for l
    using decimal_digits [of 47 l] by (auto simp: isDigit_def)
  have "tilePath prefix level' n' w' = Inr p \<longleftrightarrow> level' = level \<and> n' = n \<and> w' = w"
  proof
    assume "tilePath prefix level' n' w' = Inr p"
    then obtain t' where t': "tileN n' = Inr t'"
      and e: "decimal level' @ 47 # t' @ widthSuffix w' = decimal level @ 47 # t @ widthSuffix w"
      by (auto simp: tilePath_def result_simps p)
    from append_at_char [OF e level level]
    have l: "level' = level" and s: "t' @ widthSuffix w' = t @ widthSuffix w" by simp_all
    from tile_suffix_eq [OF s plain [OF t'] plain [OF t]] have "t' = t" "w' = w" by auto
    with l tileN_value [OF t] tileN_value [OF t'] show "level' = level \<and> n' = n \<and> w' = w" by auto
  qed (use assms in blast)
  moreover have "entryBundlePath prefix n' w' \<noteq> Inr p"
  proof
    assume "entryBundlePath prefix n' w' = Inr p"
    then obtain u where "101 # u = decimal level @ 47 # t @ widthSuffix w"
      by (auto simp: entryBundlePath_def result_simps p)
    moreover obtain d ds where "decimal level = d # ds" by (meson decimal_nonempty neq_Nil_conv)
    ultimately show False using decimal_digits [of 101 level] by (auto simp: isDigit_def)
  qed
  ultimately show ?thesis by blast
qed

theorem tilePath_inj_witness:
  "tilePath (js ''p'') 0 1234067 None = Inr (js ''p/tile/0/x001/x234/067'') \<and>
   entryBundlePath (js ''p'') 1 None \<noteq> Inr (js ''p/tile/0/x001/x234/067'')"
proof -
  have dec: "decimal 1234067 = js ''1234067''" by (simp add: decimal.simps)
  have "digitGroups (js ''1234067'') = [js ''1'', js ''234'', js ''067'']" by (simp add: digitGroups.simps)
  then have "tilePath (js ''p'') 0 1234067 None = Inr (js ''p/tile/0/x001/x234/067'')"
    by (simp add: tilePath_def tileN_def MAX_SAFE_def Let_def widthSuffix_def padStart_def dec
        decimal.simps [of 0] numeral_2_eq_2)
  from tilePath_inj [OF this] this show ?thesis by blast
qed

end
