(* ===== verification/CheckpointTrust.thy ===== *)
theory CheckpointTrust
  imports Budget Consistency SignedNote Tiles "HOL-Library.Sublist"
begin

text \<open>
  Trusted checkpoints of a log origin (\<open>log-c2sp-tlog/src/checkpoint-trust.ts\<close>): the store with its
  compare-and-swap, the check that a checkpoint is a safe successor of the one it replaces, and the
  loop that advances the store while other verifiers write to it. A checkpoint is copied on every
  way in and out of the store, so values stand for objects here. The proof source, the reader of hash
  tiles and the times at which the signal aborts are inputs.
\<close>

section \<open>Checkpoints\<close>

record TrustedC2spCheckpoint =
  tc_origin :: jstring
  tc_treeSize :: int
  tc_rootHash :: bytes
  tc_witnessTime :: date

definition consistencyError :: "string \<Rightarrow> LifecycleErrorCategory \<Rightarrow> js_error" where
  "consistencyError message cat = Verification
     (verification_error message LogError False
        \<lparr>ve_class := C2spCheckpointConsistencyError, ve_errorCategory := Some cat\<rparr>)"

definition storeError :: "string \<Rightarrow> js_error" where
  "storeError message = Verification
     (verification_error message LogError False
        \<lparr>ve_class := C2spCheckpointStoreError, ve_errorCategory := Some CHECKPOINT_STORE_ERROR\<rparr>)"

definition missingEvidenceError :: js_error where
  "missingEvidenceError = Verification
     (verification_error ''newer C2SP checkpoint requires consistency proof or verified complete-scan prefix''
        LogError False
        \<lparr>ve_class := MissingC2spConsistencyEvidenceError, ve_errorCategory := Some INVALID_EVIDENCE\<rparr>)"

fun isStoreError :: "js_error \<Rightarrow> bool" where
  "isStoreError (Verification v) = (ve_class v = C2spCheckpointStoreError)"
| "isStoreError _ = False"

definition validateOrigin :: "jstring \<Rightarrow> js_error + unit" where
  "validateOrigin origin =
     assertE (trim origin \<noteq> []) (ArgumentError ''trusted checkpoint origin must be nonempty'')"

definition validateCheckpoint ::
    "(bytes \<Rightarrow> bytes) \<Rightarrow> TrustedC2spCheckpoint \<Rightarrow> jstring \<Rightarrow> js_error + unit" where
  "validateCheckpoint H value origin =
     bindE (validateOrigin origin) (\<lambda>_.
     bindE (assertE (tc_origin value = origin) (ArgumentError ''trusted checkpoint origin mismatch'')) (\<lambda>_.
     bindE (assertE (0 \<le> tc_treeSize value \<and> tc_treeSize value \<le> MAX_SAFE)
       (ArgumentError ''trusted checkpoint tree size must be a non-negative safe integer'')) (\<lambda>_.
     bindE (assertE (length (tc_rootHash value) = 32)
       (ArgumentError ''trusted checkpoint root must be 32 bytes'')) (\<lambda>_.
     bindE (assertE (tc_treeSize value = 0 \<longrightarrow> tc_rootHash value = merkleRootFromEntries H [])
       (ArgumentError ''empty trusted checkpoint must have the empty-tree root'')) (\<lambda>_.
     assertE (case tc_witnessTime value of None \<Rightarrow> False | Some t \<Rightarrow> \<bar>t\<bar> \<le> MAX_SAFE)
       (ArgumentError ''trusted checkpoint witnessed time must be a valid Date''))))))"

text \<open>The times of two invalid dates are not equal.\<close>

fun sameCheckpoint :: "TrustedC2spCheckpoint option \<Rightarrow> TrustedC2spCheckpoint option \<Rightarrow> bool" where
  "sameCheckpoint (Some left) (Some right) =
     (tc_origin left = tc_origin right \<and> tc_treeSize left = tc_treeSize right \<and>
      tc_witnessTime left = tc_witnessTime right \<and> tc_witnessTime left \<noteq> None \<and>
      tc_rootHash left = tc_rootHash right)"
| "sameCheckpoint left right = (left = right)"

section \<open>The in-memory store\<close>

type_synonym checkpoint_map = "jstring \<rightharpoonup> TrustedC2spCheckpoint"

definition abortReason :: js_error where
  "abortReason = DOMException ''AbortError''"

definition loadCheckpoint :: "bool \<Rightarrow> jstring \<Rightarrow> checkpoint_map \<Rightarrow> js_error + TrustedC2spCheckpoint option" where
  "loadCheckpoint aborted origin checkpoints =
     bindE (assertE (\<not> aborted) abortReason) (\<lambda>_.
     bindE (validateOrigin origin) (\<lambda>_. Inr (checkpoints origin)))"

definition casGuard ::
    "(bytes \<Rightarrow> bytes) \<Rightarrow> bool \<Rightarrow> jstring \<Rightarrow> TrustedC2spCheckpoint option \<Rightarrow> TrustedC2spCheckpoint \<Rightarrow>
     js_error + unit" where
  "casGuard H aborted origin expected candidate =
     bindE (assertE (\<not> aborted) abortReason) (\<lambda>_.
     bindE (validateOrigin origin) (\<lambda>_.
     bindE (case expected of None \<Rightarrow> Inr () | Some e \<Rightarrow> validateCheckpoint H e origin) (\<lambda>_.
     validateCheckpoint H candidate origin)))"

definition compareAndSwap ::
    "(bytes \<Rightarrow> bytes) \<Rightarrow> bool \<Rightarrow> jstring \<Rightarrow> TrustedC2spCheckpoint option \<Rightarrow> TrustedC2spCheckpoint \<Rightarrow>
     checkpoint_map \<Rightarrow> (js_error + bool) \<times> checkpoint_map" where
  "compareAndSwap H aborted origin expected candidate checkpoints =
     (case casGuard H aborted origin expected candidate of
        Inl e \<Rightarrow> (Inl e, checkpoints)
      | Inr _ \<Rightarrow>
          if sameCheckpoint (checkpoints origin) expected
          then (Inr True, checkpoints(origin \<mapsto> candidate))
          else (Inr False, checkpoints))"

section \<open>Safe successors\<close>

definition verifyCompleteEntriesPrefix ::
    "(bytes \<Rightarrow> bytes) \<Rightarrow> IndexedEntry list \<Rightarrow> TrustedC2spCheckpoint \<Rightarrow> js_error + unit" where
  "verifyCompleteEntriesPrefix H entries checkpoint =
     (let prefix = take (nat (tc_treeSize checkpoint)) entries in
      bindE (assertE (int (length prefix) = tc_treeSize checkpoint \<and>
          map en_index prefix = map int [0..<length prefix])
        (c2spVerificationError ''complete scan does not contain the checkpoint prefix'' INVALID_EVIDENCE)) (\<lambda>_.
      assertE (merkleRootFromEntries H (map en_bytes prefix) = tc_rootHash checkpoint)
        (c2spVerificationError ''complete scan prefix does not match the checkpoint'' INVALID_EVIDENCE)))"

text \<open>
  The evidence of one call. The proof source and the tile reader are asked once per attempt of the
  loop, and may answer differently each time: they take the number of the attempt.
\<close>

record AdvanceOptions =
  ao_completeEntries :: "IndexedEntry list option"
  ao_consistencyProofSource :: "(nat \<Rightarrow> int \<Rightarrow> int \<Rightarrow> js_error + bytes list) option"
  ao_tilePrefixRoot :: "(nat \<Rightarrow> TrustedC2spCheckpoint \<Rightarrow> int \<Rightarrow> js_error + bytes) option"

definition verifyGrowth ::
    "(bytes \<Rightarrow> bytes) \<Rightarrow> AdvanceOptions \<Rightarrow> nat \<Rightarrow> TrustedC2spCheckpoint \<Rightarrow> TrustedC2spCheckpoint \<Rightarrow> js_error + unit" where
  "verifyGrowth H opts k previous candidate =
     (case ao_completeEntries opts of
        Some entries \<Rightarrow>
          catchE (verifyCompleteEntriesPrefix H (sort_key en_index entries) previous)
            (\<lambda>_. Inl (consistencyError ''complete scan contradicts the previously trusted checkpoint'' LOG_INCONSISTENT))
      | None \<Rightarrow>
          (case ao_consistencyProofSource opts of
             Some fetchConsistencyProof \<Rightarrow>
               bindE (catchE (fetchConsistencyProof k (tc_treeSize previous) (tc_treeSize candidate))
                 (\<lambda>cause. Inl (c2spLogError ''C2SP consistency proof is unavailable'' cause True))) (\<lambda>proof'.
               assertE (verifyC2spConsistencyProof H (tc_treeSize previous) (tc_treeSize candidate)
                   (tc_rootHash previous) (tc_rootHash candidate) proof')
                 (consistencyError ''invalid C2SP checkpoint consistency proof'' LOG_INCONSISTENT))
           | None \<Rightarrow>
               (case ao_tilePrefixRoot opts of
                  Some tilePrefixRoot \<Rightarrow>
                    bindE (tilePrefixRoot k candidate (tc_treeSize previous)) (\<lambda>prefixRoot.
                    assertE (prefixRoot = tc_rootHash previous)
                      (consistencyError ''candidate-authenticated hash tiles contradict the previously trusted checkpoint''
                        LOG_INCONSISTENT))
                | None \<Rightarrow> Inl missingEvidenceError)))"

definition verifyCheckpointAdvance ::
    "(bytes \<Rightarrow> bytes) \<Rightarrow> AdvanceOptions \<Rightarrow> nat \<Rightarrow> TrustedC2spCheckpoint option \<Rightarrow> TrustedC2spCheckpoint \<Rightarrow>
     js_error + unit" where
  "verifyCheckpointAdvance H opts k previous' candidate =
     bindE (case ao_completeEntries opts of
         None \<Rightarrow> Inr ()
       | Some entries \<Rightarrow> verifyCompleteEntriesPrefix H (sort_key en_index entries) candidate) (\<lambda>_.
     case previous' of
       None \<Rightarrow> Inr ()
     | Some previous \<Rightarrow>
         if tc_treeSize candidate < tc_treeSize previous
         then Inl (consistencyError ''C2SP checkpoint rollback detected'' LOG_ROLLBACK)
         else if tc_treeSize candidate = tc_treeSize previous then
           (if tc_rootHash candidate \<noteq> tc_rootHash previous
            then Inl (consistencyError ''equal-size C2SP checkpoint has a different root'' LOG_FORK)
            else Inr ())
         else if tc_treeSize previous = 0 then Inr ()
         else verifyGrowth H opts k previous candidate)"

section \<open>Advancing the store\<close>

text \<open>
  \<open>storeOperation\<close>: the errors of a store are wrapped, except its own and the reason of the signal.
\<close>

definition storeOperation :: "wait \<Rightarrow> js_error + 'a \<Rightarrow> js_error + 'a" where
  "storeOperation w result =
     waitForVerification w (catchE result (\<lambda>cause.
       if w \<noteq> Running \<and> cause = abortReason then Inl (c2spLogError ''checkpoint operation canceled'' cause True)
       else if isStoreError cause then Inl cause
       else Inl (storeError ''trusted checkpoint storage failed'')))"

text \<open>
  One pass of the loop against a store \<open>load\<close>, \<open>cas\<close> over states \<open>'s\<close>. Other verifiers write before
  the store is read and between the read and the swap. A store of another provider may resolve the
  swap to something that is no boolean, which is \<open>None\<close>.
\<close>

record 's turn =
  tu_before :: "'s \<Rightarrow> 's"
  tu_load :: wait
  tu_verify :: wait
  tu_between :: "'s \<Rightarrow> 's"
  tu_cas :: wait
  tu_sleep :: wait

type_synonym 's load_op = "jstring \<Rightarrow> 's \<Rightarrow> js_error + TrustedC2spCheckpoint option"
type_synonym 's cas_op = "jstring \<Rightarrow> TrustedC2spCheckpoint option \<Rightarrow> TrustedC2spCheckpoint \<Rightarrow> 's \<Rightarrow>
  (js_error + bool option) \<times> 's"

definition loadPrevious ::
    "(bytes \<Rightarrow> bytes) \<Rightarrow> 's load_op \<Rightarrow> jstring \<Rightarrow> 's \<Rightarrow> js_error + TrustedC2spCheckpoint option" where
  "loadPrevious H load origin s =
     bindE (load origin s) (\<lambda>loaded.
     bindE (case loaded of None \<Rightarrow> Inr () | Some c \<Rightarrow> validateCheckpoint H c origin) (\<lambda>_. Inr loaded))"

definition swapped :: "wait \<Rightarrow> js_error + bool option \<Rightarrow> js_error + bool" where
  "swapped w result =
     bindE (storeOperation w result) (\<lambda>b. case b of
       None \<Rightarrow> Inl (storeError ''checkpoint store returned an invalid CAS result'')
     | Some b' \<Rightarrow> Inr b')"

definition advanceTurn ::
    "(bytes \<Rightarrow> bytes) \<Rightarrow> 's load_op \<Rightarrow> 's cas_op \<Rightarrow> AdvanceOptions \<Rightarrow> jstring \<Rightarrow> TrustedC2spCheckpoint \<Rightarrow>
     nat \<Rightarrow> 's turn \<Rightarrow> 's \<Rightarrow> (js_error + bool) \<times> 's" where
  "advanceTurn H load cas opts origin candidate k t s =
     (let s1 = tu_before t s in
      case bindE (storeOperation (tu_load t) (loadPrevious H load origin s1)) (\<lambda>previous.
           bindE (waitForVerification (tu_verify t) (verifyCheckpointAdvance H opts k previous candidate)) (\<lambda>_.
           Inr previous)) of
        Inl e \<Rightarrow> (Inl e, s1)
      | Inr previous \<Rightarrow>
          let s2 = tu_between t s1;
              swap = (if started (tu_cas t) then cas origin previous candidate s2 else (Inr None, s2))
          in (bindE (swapped (tu_cas t) (fst swap)) (\<lambda>b.
                if b then Inr True
                else bindE (waitForVerification (tu_sleep t) (Inr ())) (\<lambda>_. Inr False)), snd swap))"

text \<open>
  The loop, over the passes it has made so far; \<open>None\<close> means that it has not returned yet.
\<close>

fun advanceLoop ::
    "(bytes \<Rightarrow> bytes) \<Rightarrow> 's load_op \<Rightarrow> 's cas_op \<Rightarrow> AdvanceOptions \<Rightarrow> jstring \<Rightarrow> TrustedC2spCheckpoint \<Rightarrow>
     nat \<Rightarrow> 's turn list \<Rightarrow> 's \<Rightarrow> (js_error + TrustedC2spCheckpoint) option \<times> 's" where
  "advanceLoop H load cas opts origin candidate k [] s = (None, s)"
| "advanceLoop H load cas opts origin candidate k (t # ts) s =
     (case advanceTurn H load cas opts origin candidate k t s of
        (Inl e, s') \<Rightarrow> (Some (Inl e), s')
      | (Inr True, s') \<Rightarrow> (Some (Inr candidate), s')
      | (Inr False, s') \<Rightarrow> advanceLoop H load cas opts origin candidate (Suc k) ts s')"

record advance_run =
  ar_timeoutMs :: "jsnum option"
  ar_wait :: wait
  ar_late :: bool

definition advanceC2spCheckpoint ::
    "(bytes \<Rightarrow> bytes) \<Rightarrow> 's load_op \<Rightarrow> 's cas_op \<Rightarrow> jstring \<Rightarrow> Checkpoint \<Rightarrow> date \<Rightarrow> AdvanceOptions \<Rightarrow>
     advance_run \<Rightarrow> 's turn list \<Rightarrow> 's \<Rightarrow> (js_error + TrustedC2spCheckpoint) option \<times> 's" where
  "advanceC2spCheckpoint H load cas origin checkpoint witnessTime opts run turns s =
     (let candidate = \<lparr>tc_origin = cp_origin checkpoint, tc_treeSize = int (cp_treeSize checkpoint),
            tc_rootHash = cp_rootHash checkpoint, tc_witnessTime = witnessTime\<rparr> in
      case bindE (assertE (cp_treeSize checkpoint = 0 \<longrightarrow> cp_rootHash checkpoint = merkleRootFromEntries H [])
             (c2spVerificationError ''empty C2SP checkpoint must have the empty-tree root'' INVALID_EVIDENCE)) (\<lambda>_.
           bindE (validateCheckpoint H candidate origin) (\<lambda>_.
           assertE (validTimeout (ar_timeoutMs run))
             (ArgumentError ''verification timeout must be finite and positive''))) of
        Inl e \<Rightarrow> (Some (Inl e), s)
      | Inr _ \<Rightarrow>
          if \<not> started (ar_wait run) then (Some (Inl cancellationError), s)
          else case advanceLoop H load cas opts origin candidate 0 turns s of (r, s') \<Rightarrow>
            (if ar_wait run = Running
             then map_option (withVerificationBudget (ar_timeoutMs run) Running (ar_late run)) r
             else Some (Inl cancellationError), s'))"

text \<open>The in-memory store behind the interface of the loop, which never calls it with an aborted signal.\<close>

definition memoryLoad :: "checkpoint_map load_op" where
  "memoryLoad = loadCheckpoint False"

definition memoryCas :: "(bytes \<Rightarrow> bytes) \<Rightarrow> checkpoint_map cas_op" where
  "memoryCas H origin expected candidate checkpoints =
     (case compareAndSwap H False origin expected candidate checkpoints of
        (r, checkpoints') \<Rightarrow> (map_sum id Some r, checkpoints'))"

definition advanceTrustedC2spCheckpoint ::
    "(bytes \<Rightarrow> bytes) \<Rightarrow> jstring \<Rightarrow> Checkpoint \<Rightarrow> date \<Rightarrow> AdvanceOptions \<Rightarrow> advance_run \<Rightarrow>
     checkpoint_map turn list \<Rightarrow> checkpoint_map \<Rightarrow> (js_error + TrustedC2spCheckpoint) option \<times> checkpoint_map" where
  "advanceTrustedC2spCheckpoint H origin checkpoint witnessTime opts run turns checkpoints =
     advanceC2spCheckpoint H memoryLoad (memoryCas H) origin checkpoint witnessTime
       (opts\<lparr>ao_tilePrefixRoot := None\<rparr>) run turns checkpoints"

section \<open>The history of a trusted checkpoint\<close>

text \<open>
  The abstract specification: the trusted checkpoint of an origin is only ever replaced by a valid
  checkpoint that was verified against the one it replaces.
\<close>

inductive advances :: "(bytes \<Rightarrow> bytes) \<Rightarrow> checkpoint_map \<Rightarrow> checkpoint_map \<Rightarrow> bool" for H where
  advances: "validateCheckpoint H candidate origin = Inr () \<Longrightarrow>
    verifyCheckpointAdvance H opts k (trusted origin) candidate = Inr () \<Longrightarrow>
    advances H trusted (trusted(origin \<mapsto> candidate))"

inductive_cases advancesE: "advances H trusted trusted'"

abbreviation history :: "(bytes \<Rightarrow> bytes) \<Rightarrow> checkpoint_map \<Rightarrow> checkpoint_map \<Rightarrow> bool" where
  "history H \<equiv> (advances H)\<^sup>*\<^sup>*"

text \<open>What a checkpoint keeps of an earlier one: never smaller, and the same root at the same size.\<close>

definition extends :: "TrustedC2spCheckpoint option \<Rightarrow> TrustedC2spCheckpoint option \<Rightarrow> bool" where
  "extends old new \<longleftrightarrow> (\<forall>c. old = Some c \<longrightarrow> (\<exists>c'. new = Some c' \<and> tc_treeSize c \<le> tc_treeSize c' \<and>
     (tc_treeSize c = tc_treeSize c' \<longrightarrow> tc_rootHash c = tc_rootHash c')))"

lemma extends_refl: "extends old old"
  by (simp add: extends_def)

lemma extends_trans: "extends a b \<Longrightarrow> extends b c \<Longrightarrow> extends a c"
  unfolding extends_def by fastforce

lemma verifyCheckpointAdvance_extends:
  "verifyCheckpointAdvance H opts k previous candidate = Inr () \<Longrightarrow> extends previous (Some candidate)"
  by (auto simp: verifyCheckpointAdvance_def extends_def bindE_eq_Inr split: option.splits if_splits)

lemma advances_extends: "advances H trusted trusted' \<Longrightarrow> extends (trusted origin) (trusted' origin)"
  by (auto elim!: advancesE dest: verifyCheckpointAdvance_extends simp: extends_refl)

lemma history_extends: "history H trusted trusted' \<Longrightarrow> extends (trusted origin) (trusted' origin)"
  by (induction rule: rtranclp_induct) (auto intro: extends_refl extends_trans advances_extends)

lemma history_valid:
  assumes "history H trusted trusted'"
    and "\<And>o' c. trusted o' = Some c \<Longrightarrow> validateCheckpoint H c o' = Inr ()"
  shows "trusted' origin = Some c \<Longrightarrow> validateCheckpoint H c origin = Inr ()"
  using assms
proof (induction arbitrary: origin c rule: rtranclp_induct)
  case (step y z)
  then show ?case by (auto elim!: advancesE split: if_splits)
qed simp

section \<open>The contract of a store\<close>

text \<open>
  What the loop relies on: a read returns the current checkpoint of the origin, the swap is atomic
  and tells whether it happened, and an error leaves the store either as it was or with the swap
  done.
\<close>

locale checkpoint_store =
  fixes load :: "'s load_op"
    and cas :: "'s cas_op"
    and current :: "'s \<Rightarrow> checkpoint_map"
  assumes load_current: "load origin s = Inr previous \<Longrightarrow> previous = current s origin"
    and cas_effect: "cas origin e c s = (r, s') \<Longrightarrow>
      current s' = current s \<or> current s origin = e \<and> current s' = (current s)(origin \<mapsto> c)"
    and cas_swapped: "cas origin e c s = (Inr (Some True), s') \<Longrightarrow>
      current s origin = e \<and> current s' = (current s)(origin \<mapsto> c)"
    and cas_lost: "cas origin e c s = (Inr (Some False), s') \<Longrightarrow>
      current s origin \<noteq> e \<and> current s' = current s"
begin

definition peaceful :: "(bytes \<Rightarrow> bytes) \<Rightarrow> 's turn \<Rightarrow> bool" where
  "peaceful H t \<longleftrightarrow> (\<forall>s. history H (current s) (current (tu_before t s)) \<and>
     history H (current s) (current (tu_between t s)))"

lemma turn_cases:
  assumes "advanceTurn H load cas opts origin c k t s = (r, s')"
  obtains (early) e where "r = Inl e" "s' = tu_before t s"
  | (cas) previous x where
      "previous = current (tu_before t s) origin"
      "verifyCheckpointAdvance H opts k previous c = Inr ()"
      "(x, s') = (if started (tu_cas t) then cas origin previous c (tu_between t (tu_before t s))
                  else (Inr None, tu_between t (tu_before t s)))"
      "r = bindE (swapped (tu_cas t) x) (\<lambda>b. if b then Inr True
             else bindE (waitForVerification (tu_sleep t) (Inr ())) (\<lambda>_. Inr False))"
proof (cases "bindE (storeOperation (tu_load t) (loadPrevious H load origin (tu_before t s))) (\<lambda>previous.
    bindE (waitForVerification (tu_verify t) (verifyCheckpointAdvance H opts k previous c)) (\<lambda>_. Inr previous))")
  case (Inl e)
  then show ?thesis using assms by (intro early) (auto simp: advanceTurn_def)
next
  case (Inr previous)
  then have "loadPrevious H load origin (tu_before t s) = Inr previous"
    and verified: "verifyCheckpointAdvance H opts k previous c = Inr ()"
    by (auto simp: storeOperation_def bindE_eq_Inr waitForVerification_eq_Inr catchE_eq_Inr split: if_splits)
  then have "previous = current (tu_before t s) origin"
    by (auto simp: loadPrevious_def bindE_eq_Inr dest: load_current)
  then show ?thesis
    using assms Inr verified
    by (intro cas [of previous "fst (if started (tu_cas t)
        then cas origin previous c (tu_between t (tu_before t s)) else (Inr None, tu_between t (tu_before t s)))"])
      (auto simp: advanceTurn_def Let_def)
qed

lemma swapped_Inr: "swapped w x = Inr b \<Longrightarrow> w = Running \<and> x = Inr (Some b)"
  by (auto simp: swapped_def storeOperation_def bindE_eq_Inr waitForVerification_eq_Inr catchE_eq_Inr
      split: option.splits if_splits)

lemma turn_history:
  assumes "advanceTurn H load cas opts origin c k t s = (r, s')" and "peaceful H t"
    and "validateCheckpoint H c origin = Inr ()"
  shows "history H (current s) (current s')"
  using assms(1)
proof (cases rule: turn_cases)
  case early
  then show ?thesis using assms(2) by (simp add: peaceful_def)
next
  case (cas previous x)
  let ?s1 = "tu_before t s" and ?s2 = "tu_between t (tu_before t s)"
  have reach: "history H (current s) (current ?s2)"
    using assms(2) by (metis peaceful_def rtranclp_trans)
  have "current s' = current ?s2 \<or> current ?s2 origin = previous \<and> current s' = (current ?s2)(origin \<mapsto> c)"
    using cas(3) cas_effect [of origin previous c ?s2 x s'] by (auto split: if_splits)
  then show ?thesis
  proof
    assume "current ?s2 origin = previous \<and> current s' = (current ?s2)(origin \<mapsto> c)"
    then have "advances H (current ?s2) (current s')"
      using cas(2) assms(3) by (auto intro: advances)
    with reach show ?thesis by (rule rtranclp.rtrancl_into_rtrancl [where b = "current ?s2"])
  qed (use reach in simp)
qed

lemma turn_swapped:
  assumes "advanceTurn H load cas opts origin c k t s = (Inr True, s')" and "peaceful H t"
  shows "\<exists>s2. history H (current s) (current s2) \<and>
    verifyCheckpointAdvance H opts k (current s2 origin) c = Inr () \<and>
    current s' = (current s2)(origin \<mapsto> c)"
  using assms(1)
proof (cases rule: turn_cases)
  case (cas previous x)
  then have "swapped (tu_cas t) x = Inr True"
    by (auto simp: bindE_eq_Inr eq_commute [of "Inr True"] split: if_splits)
  then have "x = Inr (Some True)" "started (tu_cas t)"
    by (auto dest!: swapped_Inr simp: started_def)
  with cas(3) [symmetric] have "current (tu_between t (tu_before t s)) origin = previous \<and>
      current s' = (current (tu_between t (tu_before t s)))(origin \<mapsto> c)"
    by (intro cas_swapped) simp
  moreover have "history H (current s) (current (tu_between t (tu_before t s)))"
    using assms(2) by (metis peaceful_def rtranclp_trans)
  ultimately show ?thesis using cas(2) by blast
qed simp

lemma turn_lost:
  assumes "advanceTurn H load cas opts origin c k t s = (Inr False, s')"
  shows "current (tu_between t (tu_before t s)) origin \<noteq> current (tu_before t s) origin"
  using assms
proof (cases rule: turn_cases)
  case (cas previous x)
  then have "swapped (tu_cas t) x = Inr False"
    by (auto simp: bindE_eq_Inr eq_commute [of "Inr False"] split: if_splits)
  then have "x = Inr (Some False)" "started (tu_cas t)"
    by (auto dest!: swapped_Inr simp: started_def)
  with cas(1,3) show ?thesis by (metis cas_lost)
qed simp

lemma loop_history:
  assumes "validateCheckpoint H c origin = Inr ()" and "list_all (peaceful H) ts"
    and "advanceLoop H load cas opts origin c k ts s = (r, s')"
  shows "history H (current s) (current s')"
  using assms(2,3)
proof (induction ts arbitrary: k s)
  case (Cons t ts)
  obtain x s1 where turn: "advanceTurn H load cas opts origin c k t s = (x, s1)" by force
  then have "history H (current s) (current s1)"
    using Cons.prems(1) assms(1) by (auto intro: turn_history)
  then show ?case
    using Cons turn by (auto split: sum.splits bool.splits intro: rtranclp_trans)
qed simp

lemma loop_success:
  assumes "validateCheckpoint H c origin = Inr ()" and "list_all (peaceful H) ts"
    and "advanceLoop H load cas opts origin c k ts s = (Some (Inr c'), s')"
  shows "c' = c \<and> (\<exists>j s2. history H (current s) (current s2) \<and>
    verifyCheckpointAdvance H opts j (current s2 origin) c = Inr () \<and>
    current s' = (current s2)(origin \<mapsto> c))"
  using assms(2,3)
proof (induction ts arbitrary: k s)
  case (Cons t ts)
  obtain x s1 where turn: "advanceTurn H load cas opts origin c k t s = (x, s1)" by force
  consider e where "x = Inl e" | "x = Inr True" | "x = Inr False" by (cases x) auto
  then show ?case
  proof cases
    case 2
    with Cons.prems turn have "c' = c" "s1 = s'" "peaceful H t" by simp_all
    with 2 turn_swapped turn show ?thesis by blast
  next
    case 3
    have "history H (current s) (current s1)"
      using turn_history [OF turn _ assms(1)] Cons.prems(1) by simp
    moreover have "advanceLoop H load cas opts origin c (Suc k) ts s1 = (Some (Inr c'), s')"
      using Cons.prems(2) turn 3 by simp
    ultimately show ?thesis
      using Cons.IH [of "Suc k" s1] Cons.prems(1) by (auto intro: rtranclp_trans)
  qed (use Cons.prems turn in simp)
qed simp

lemma loop_progress:
  assumes "t \<in> set ts" and "\<And>s. current (tu_between t s) origin = current s origin"
  shows "\<exists>r. fst (advanceLoop H load cas opts origin c k ts s) = Some r"
  using assms(1)
proof (induction ts arbitrary: k s)
  case (Cons u ts)
  obtain x s1 where turn: "advanceTurn H load cas opts origin c k u s = (x, s1)" by force
  show ?case
  proof (cases "x = Inr False")
    case True
    then have "u \<noteq> t" using turn turn_lost assms(2) by blast
    with Cons.prems have "t \<in> set ts" by simp
    from Cons.IH [OF this] show ?thesis using turn True by simp
  next
    case False
    then show ?thesis using turn by (auto split: sum.splits bool.splits)
  qed
qed simp

end

section \<open>The in-memory store meets the contract\<close>

lemma sameCheckpoint_valid:
  assumes "case expected of None \<Rightarrow> True | Some e \<Rightarrow> validateCheckpoint H e origin = Inr ()"
  shows "sameCheckpoint stored expected \<longleftrightarrow> stored = expected"
proof (cases stored; cases expected)
  fix a b assume "stored = Some a" "expected = Some b"
  moreover from this have "tc_witnessTime b \<noteq> None"
    using assms by (auto simp: validateCheckpoint_def bindE_eq_Inr assertE_eq_Inr split: option.splits)
  ultimately show ?thesis
    by (auto intro: TrustedC2spCheckpoint.equality)
qed simp_all

lemma compareAndSwap_cases:
  assumes "compareAndSwap H aborted origin expected c m = (r, m')"
  obtains (failed) e where "r = Inl e" "m' = m"
  | (swapped) "r = Inr True" "m origin = expected" "m' = m(origin \<mapsto> c)"
      "validateCheckpoint H c origin = Inr ()" "\<not> aborted"
  | (lost) "r = Inr False" "m origin \<noteq> expected" "m' = m"
proof (cases "casGuard H aborted origin expected c")
  case (Inl e)
  then show ?thesis using assms by (intro failed [of e]) (simp_all add: compareAndSwap_def)
next
  case (Inr u)
  then have "(case expected of None \<Rightarrow> True | Some e \<Rightarrow> validateCheckpoint H e origin = Inr ())"
    and valid: "validateCheckpoint H c origin = Inr ()" "\<not> aborted"
    by (auto simp: casGuard_def bindE_eq_Inr assertE_eq_Inr split: option.splits)
  then have "sameCheckpoint (m origin) expected \<longleftrightarrow> m origin = expected"
    by (intro sameCheckpoint_valid)
  then show ?thesis
    using assms Inr valid swapped lost by (auto simp: compareAndSwap_def split: if_splits)
qed

interpretation memory: checkpoint_store memoryLoad "memoryCas H" "\<lambda>checkpoints. checkpoints"
proof unfold_locales
  fix origin s previous
  assume "memoryLoad origin s = Inr previous"
  then show "previous = s origin"
    by (simp add: memoryLoad_def loadCheckpoint_def bindE_eq_Inr assertE_eq_Inr)
next
  fix origin e c s r s'
  assume "memoryCas H origin e c s = (r, s')"
  then obtain x where "compareAndSwap H False origin e c s = (x, s')"
    by (auto simp: memoryCas_def split: prod.splits)
  then show "s' = s \<or> s origin = e \<and> s' = s(origin \<mapsto> c)"
    by (auto elim: compareAndSwap_cases)
next
  fix origin e c s s'
  assume "memoryCas H origin e c s = (Inr (Some True), s')"
  then have "compareAndSwap H False origin e c s = (Inr True, s')"
    by (auto simp: memoryCas_def map_sum_def split: prod.splits sum.splits)
  then show "s origin = e \<and> s' = s(origin \<mapsto> c)"
    by (auto elim: compareAndSwap_cases)
next
  fix origin e c s s'
  assume "memoryCas H origin e c s = (Inr (Some False), s')"
  then have "compareAndSwap H False origin e c s = (Inr False, s')"
    by (auto simp: memoryCas_def map_sum_def split: prod.splits sum.splits)
  then show "s origin \<noteq> e \<and> s' = s"
    by (auto elim: compareAndSwap_cases)
qed

section \<open>Growth is append-only\<close>

text \<open>The strings hashed to check one advance between two logs.\<close>

definition advanceInputs ::
    "(bytes \<Rightarrow> bytes) \<Rightarrow> AdvanceOptions \<Rightarrow> nat \<Rightarrow> bytes list \<Rightarrow> bytes list \<Rightarrow> bytes set" where
  "advanceInputs H opts k old new =
     hashedInputs H old \<union> hashedInputs H new \<union> hashedInputs H (take (length old) new) \<union>
     (case ao_completeEntries opts of
        Some entries \<Rightarrow>
          hashedInputs H (take (length old) (map en_bytes (sort_key en_index entries))) \<union>
          hashedInputs H (take (length new) (map en_bytes (sort_key en_index entries)))
      | None \<Rightarrow>
          (case ao_consistencyProofSource opts of
             None \<Rightarrow> {}
           | Some fetch \<Rightarrow>
               (case fetch k (int (length old)) (int (length new)) of
                  Inl _ \<Rightarrow> {}
                | Inr ps \<Rightarrow> proofInputs H (length old) (length new) (MTH H old) ps)))"

lemma merkleRoot_eq_MTH: "merkleRootFromEntries H es = MTH H es"
  by (simp add: merkleRootFromEntries_def MTH_def levelLoop_treeHash sha256_def)

lemma completeEntries_log:
  assumes "\<And>x. length (H x) = 32" and "verifyCompleteEntriesPrefix H entries c = Inr ()"
    and "tc_treeSize c = int (length log')" and "tc_rootHash c = MTH H log'"
    and "inj_on H (hashedInputs H log' \<union> hashedInputs H (take (length log') (map en_bytes entries)))"
  shows "take (length log') (map en_bytes entries) = log'"
proof (rule MTH_inj [OF assms(1)])
  have ok: "length (take (length log') entries) = length log'"
      "merkleRootFromEntries H (map en_bytes (take (length log') entries)) = MTH H log'"
    using assms(2-4) by (auto simp: verifyCompleteEntriesPrefix_def Let_def bindE_eq_Inr assertE_eq_Inr)
  then show "length (take (length log') (map en_bytes entries)) = length log'" by simp
  show "MTH H (take (length log') (map en_bytes entries)) = MTH H log'"
    using ok(2) by (simp add: take_map merkleRoot_eq_MTH)
  show "inj_on H (hashedInputs H (take (length log') (map en_bytes entries)) \<union> hashedInputs H log')"
    using assms(5) by (simp add: Un_commute)
qed

lemma verifyGrowth_prefix:
  assumes H: "\<And>x. length (H x) = 32" and ok: "verifyGrowth H opts k previous candidate = Inr ()"
    and entries: "\<And>es. ao_completeEntries opts = Some es \<Longrightarrow>
      verifyCompleteEntriesPrefix H (sort_key en_index es) candidate = Inr ()"
    and old: "tc_treeSize previous = int (length old)" "tc_rootHash previous = MTH H old"
    and new: "tc_treeSize candidate = int (length new)" "tc_rootHash candidate = MTH H new"
    and less: "length old < length new"
    and tile: "\<And>f r. ao_tilePrefixRoot opts = Some f \<Longrightarrow> f k candidate (int (length old)) = Inr r \<Longrightarrow>
      r = MTH H (take (length old) new)"
    and inj: "inj_on H (advanceInputs H opts k old new)"
  shows "prefix old new"
proof (cases "ao_completeEntries opts")
  case (Some es)
  let ?bs = "map en_bytes (sort_key en_index es)"
  have "take (length old) ?bs = old"
  proof (rule completeEntries_log [OF H])
    show "verifyCompleteEntriesPrefix H (sort_key en_index es) previous = Inr ()"
      using ok Some by (auto simp: verifyGrowth_def catchE_eq_Inr)
    show "inj_on H (hashedInputs H old \<union> hashedInputs H (take (length old) ?bs))"
      by (rule inj_on_subset [OF inj]) (auto simp: advanceInputs_def Some)
  qed (use old in auto)
  moreover have "take (length new) ?bs = new"
  proof (rule completeEntries_log [OF H entries [OF Some]])
    show "inj_on H (hashedInputs H new \<union> hashedInputs H (take (length new) ?bs))"
      by (rule inj_on_subset [OF inj]) (auto simp: advanceInputs_def Some)
  qed (use new in auto)
  ultimately show ?thesis
    using less by (metis min.strict_order_iff take_is_prefix take_take)
next
  case none: None
  show ?thesis
  proof (cases "ao_consistencyProofSource opts")
    case (Some fetch)
    then obtain ps where ps: "fetch k (int (length old)) (int (length new)) = Inr ps"
      "verifyC2spConsistencyProof H (int (length old)) (int (length new)) (MTH H old) (MTH H new) ps"
      using ok none old new by (auto simp: verifyGrowth_def bindE_eq_Inr catchE_eq_Inr assertE_eq_Inr)
    have "\<exists>rest. new = old @ rest"
      using accepted_proof_prefix [OF _ ps(2)] H inj by (simp add: advanceInputs_def none Some ps(1) Un_assoc)
    then show ?thesis by (auto simp: prefix_def)
  next
    case None
    then obtain f where "ao_tilePrefixRoot opts = Some f" "f k candidate (int (length old)) = Inr (MTH H old)"
      using ok none old by (auto simp: verifyGrowth_def bindE_eq_Inr assertE_eq_Inr split: option.splits)
    then have "MTH H old = MTH H (take (length old) new)" by (rule tile)
    moreover have "inj_on H (hashedInputs H old \<union> hashedInputs H (take (length old) new))"
      by (rule inj_on_subset [OF inj]) (auto simp: advanceInputs_def)
    ultimately have "old = take (length old) new"
      using MTH_inj [of H old "take (length old) new"] H less by simp
    then show ?thesis by (metis take_is_prefix)
  qed
qed

section \<open>Properties\<close>

text \<open>
  A verified advance between the roots of two logs is append-only, whichever evidence was used, provided that
  tile evidence is the root of the prefix it was asked for.
\<close>

lemma checkpointAdvance_prefix:
  assumes "\<forall>x. length (H x) = 32"
    and "verifyCheckpointAdvance H opts k (Some previous) candidate = Inr ()"
    and "tc_treeSize previous = int (length old)" and "tc_rootHash previous = MTH H old"
    and "tc_treeSize candidate = int (length new)" and "tc_rootHash candidate = MTH H new"
    and "\<And>f r. ao_tilePrefixRoot opts = Some f \<Longrightarrow> f k candidate (int (length old)) = Inr r \<Longrightarrow>
      r = MTH H (take (length old) new)"
    and "inj_on H (advanceInputs H opts k old new)"
  shows "prefix old new"
proof -
  have H: "\<And>x. length (H x) = 32" using assms(1) by simp
  consider "length old = length new" "MTH H old = MTH H new" | "old = []"
    | "length old < length new" "verifyGrowth H opts k previous candidate = Inr ()"
    using assms(2-6) by (auto simp: verifyCheckpointAdvance_def bindE_eq_Inr split: if_splits)
  then show ?thesis
  proof cases
    case 1
    moreover have "inj_on H (hashedInputs H old \<union> hashedInputs H new)"
      by (rule inj_on_subset [OF assms(8)]) (auto simp: advanceInputs_def)
    ultimately show ?thesis using MTH_inj [of H old new] H by simp
  next
    case 3
    show ?thesis
    proof (rule verifyGrowth_prefix [OF H 3(2) _ assms(3-6) 3(1) _ assms(8)])
      fix es assume "ao_completeEntries opts = Some es"
      then show "verifyCompleteEntriesPrefix H (sort_key en_index es) candidate = Inr ()"
        using assms(2) by (auto simp: verifyCheckpointAdvance_def bindE_eq_Inr)
    qed (rule assms(7))
  qed simp
qed

text \<open>
  C3. The advance of the in-memory store refines the specification, under concurrency. While other
  verifiers replace trusted checkpoints only by verified successors, before and between the steps of
  the loop, so does \<open>advanceTrustedC2spCheckpoint\<close>: the store it leaves is a history of the store it
  found, on success, failure and cancellation alike. When it returns, the checkpoint it returns is the
  one it was given, it is the trusted checkpoint of the origin, and it was verified against exactly the
  checkpoint that it replaced.
\<close>

theorem advanceTrusted_refines:
  assumes "\<forall>t \<in> set turns. \<forall>m. history H m (tu_before t m) \<and> history H m (tu_between t m)"
    and "advanceTrustedC2spCheckpoint H origin checkpoint witnessTime opts run turns trusted = (r, trusted')"
  shows "history H trusted trusted' \<and>
    (\<forall>c. r = Some (Inr c) \<longrightarrow>
      c = \<lparr>tc_origin = origin, tc_treeSize = int (cp_treeSize checkpoint),
           tc_rootHash = cp_rootHash checkpoint, tc_witnessTime = witnessTime\<rparr> \<and>
      cp_origin checkpoint = origin \<and>
      (\<exists>replaced k. history H trusted replaced \<and>
        verifyCheckpointAdvance H (opts\<lparr>ao_tilePrefixRoot := None\<rparr>) k (replaced origin) c = Inr () \<and>
        trusted' = replaced(origin \<mapsto> c)))"
proof -
  let ?c = "\<lparr>tc_origin = cp_origin checkpoint, tc_treeSize = int (cp_treeSize checkpoint),
      tc_rootHash = cp_rootHash checkpoint, tc_witnessTime = witnessTime\<rparr>"
  let ?opts = "opts\<lparr>ao_tilePrefixRoot := None\<rparr>"
  have env: "list_all (memory.peaceful H) turns"
    using assms(1) by (simp add: list_all_iff memory.peaceful_def)
  show ?thesis
  proof (cases "\<exists>e. r = Some (Inl e) \<and> trusted' = trusted")
    case False
    obtain x m where loop: "advanceLoop H memoryLoad (memoryCas H) ?opts origin ?c 0 turns trusted = (x, m)" by force
    from False assms(2) have valid: "validateCheckpoint H ?c origin = Inr ()"
      and m: "trusted' = m" and r: "\<And>c. r = Some (Inr c) \<Longrightarrow> x = Some (Inr c)"
      by (auto simp: advanceTrustedC2spCheckpoint_def advanceC2spCheckpoint_def Let_def loop bindE_eq_Inr
          withVerificationBudget_eq_Inr split: sum.splits if_splits)
    have "origin = cp_origin checkpoint"
      using valid by (simp add: validateCheckpoint_def bindE_eq_Inr assertE_eq_Inr)
    then show ?thesis
      using memory.loop_history [OF valid env loop] memory.loop_success [OF valid env] loop m r by blast
  qed auto
qed

text \<open>
  C32. Trust never goes back. Along every history of verified replacements by any number of verifiers,
  the trusted checkpoint of an origin never disappears and never gets smaller, and at the same size its
  root never changes; and a store that held valid checkpoints holds valid checkpoints.
\<close>

theorem trusted_history_monotone:
  assumes "history H trusted trusted'" and "trusted origin = Some c"
  shows "\<exists>c'. trusted' origin = Some c' \<and> tc_treeSize c \<le> tc_treeSize c' \<and>
    (tc_treeSize c' = tc_treeSize c \<longrightarrow> tc_rootHash c' = tc_rootHash c) \<and>
    ((\<forall>o' d. trusted o' = Some d \<longrightarrow> validateCheckpoint H d o' = Inr ()) \<longrightarrow>
      validateCheckpoint H c' origin = Inr ())"
proof -
  obtain c' where c': "trusted' origin = Some c'" "tc_treeSize c \<le> tc_treeSize c'"
      "tc_treeSize c = tc_treeSize c' \<longrightarrow> tc_rootHash c = tc_rootHash c'"
    using history_extends [OF assms(1), of origin] assms(2) by (auto simp: extends_def)
  moreover have "(\<forall>o' d. trusted o' = Some d \<longrightarrow> validateCheckpoint H d o' = Inr ()) \<Longrightarrow>
      validateCheckpoint H c' origin = Inr ()"
    using history_valid [OF assms(1)] c'(1) by blast
  ultimately show ?thesis by auto
qed

text \<open>
  C33. The loop makes progress. It goes on to another pass only when another verifier replaced the
  origin's checkpoint between its read and its swap: as soon as it makes one pass without that, it
  has returned, whatever its timers, its evidence and the other verifiers do.
\<close>

theorem advanceTrusted_returns:
  assumes "t \<in> set turns" and "\<forall>m. tu_between t m origin = m origin"
  shows "\<exists>r. fst (advanceTrustedC2spCheckpoint H origin checkpoint witnessTime opts run turns trusted) = Some r"
proof -
  let ?c = "\<lparr>tc_origin = cp_origin checkpoint, tc_treeSize = int (cp_treeSize checkpoint),
      tc_rootHash = cp_rootHash checkpoint, tc_witnessTime = witnessTime\<rparr>"
  let ?opts = "opts\<lparr>ao_tilePrefixRoot := None\<rparr>"
  obtain x m where loop: "advanceLoop H memoryLoad (memoryCas H) ?opts origin ?c 0 turns trusted = (x, m)" by force
  moreover have "\<exists>y. fst (advanceLoop H memoryLoad (memoryCas H) ?opts origin ?c 0 turns trusted) = Some y"
    by (rule memory.loop_progress [OF assms(1)]) (use assms(2) in blast)
  ultimately show ?thesis
    by (auto simp: advanceTrustedC2spCheckpoint_def advanceC2spCheckpoint_def Let_def split: sum.splits)
qed

section \<open>An example\<close>

text \<open>A log of one entry grows to two, and a complete scan is the evidence.\<close>

definition oneEntry :: TrustedC2spCheckpoint where
  "oneEntry = \<lparr>tc_origin = js ''o'', tc_treeSize = 1, tc_rootHash = MTH toyHash [[10]], tc_witnessTime = Some 5\<rparr>"

definition twoEntries :: TrustedC2spCheckpoint where
  "twoEntries = \<lparr>tc_origin = js ''o'', tc_treeSize = 2, tc_rootHash = MTH toyHash [[10], [20]], tc_witnessTime = Some 9\<rparr>"

definition scanOptions :: AdvanceOptions where
  "scanOptions = \<lparr>ao_completeEntries = Some [\<lparr>en_index = 1, en_bytes = [20]\<rparr>, \<lparr>en_index = 0, en_bytes = [10]\<rparr>],
     ao_consistencyProofSource = None, ao_tilePrefixRoot = None\<rparr>"

definition quietTurn :: "checkpoint_map turn" where
  "quietTurn = \<lparr>tu_before = (\<lambda>m. m), tu_load = Running, tu_verify = Running, tu_between = (\<lambda>m. m),
     tu_cas = Running, tu_sleep = Running\<rparr>"

lemma sorted_scan:
  "sort_key en_index [\<lparr>en_index = 1, en_bytes = [20]\<rparr>, \<lparr>en_index = 0, en_bytes = [10]\<rparr>] =
     [\<lparr>en_index = 0, en_bytes = [10]\<rparr>, \<lparr>en_index = 1, en_bytes = [20]\<rparr>]"
  by simp

lemma length_MTH_toyHash [simp]: "length (MTH toyHash [x]) = 32" "length (MTH toyHash [x, y]) = 32"
  by (simp_all add: MTH_def leafHash_eq nodeHash_eq)

lemma example_advance:
  "verifyCheckpointAdvance toyHash scanOptions 0 (Some oneEntry) twoEntries = Inr ()"
  "validateCheckpoint toyHash oneEntry (js ''o'') = Inr ()"
  "validateCheckpoint toyHash twoEntries (js ''o'') = Inr ()"
  by (simp_all add: verifyCheckpointAdvance_def verifyGrowth_def verifyCompleteEntriesPrefix_def scanOptions_def
      sorted_scan oneEntry_def twoEntries_def merkleRoot_eq_MTH Let_def validateCheckpoint_def validateOrigin_def
      MAX_SAFE_def trim_def isWhite_def upt_rec del: sort_key_simps)

theorem trusted_history_monotone_witness:
  "\<exists>c'. ([js ''o'' \<mapsto> oneEntry](js ''o'' \<mapsto> twoEntries)) (js ''o'') = Some c' \<and> tc_treeSize oneEntry \<le> tc_treeSize c'"
proof -
  have "history toyHash [js ''o'' \<mapsto> oneEntry] ([js ''o'' \<mapsto> oneEntry](js ''o'' \<mapsto> twoEntries))"
    by (rule r_into_rtranclp, rule advances [where opts = scanOptions and k = 0]) (simp_all add: example_advance del: js_Cons)
  then show ?thesis
    using trusted_history_monotone [of toyHash "[js ''o'' \<mapsto> oneEntry]"
        "[js ''o'' \<mapsto> oneEntry](js ''o'' \<mapsto> twoEntries)" "js ''o''" oneEntry]
    by (auto simp del: js_Cons fun_upd_apply) auto
qed

definition twoCheckpoint :: Checkpoint where
  "twoCheckpoint = \<lparr>cp_origin = js ''o'', cp_treeSize = 2, cp_rootHash = MTH toyHash [[10], [20]],
     cp_signatures = [], cp_signedText = []\<rparr>"

definition quietRun :: advance_run where
  "quietRun = \<lparr>ar_timeoutMs = None, ar_wait = Running, ar_late = False\<rparr>"

lemma example_turn:
  "advanceTurn toyHash memoryLoad (memoryCas toyHash) scanOptions (js ''o'') twoEntries 0 quietTurn
     [js ''o'' \<mapsto> oneEntry] = (Inr True, [js ''o'' \<mapsto> oneEntry](js ''o'' \<mapsto> twoEntries))"
proof -
  have "trim (js ''o'') \<noteq> []" by (simp add: trim_def isWhite_def)
  then have "loadPrevious toyHash memoryLoad (js ''o'') [js ''o'' \<mapsto> oneEntry] = Inr (Some oneEntry)"
    by (simp add: loadPrevious_def memoryLoad_def loadCheckpoint_def validateOrigin_def example_advance del: js_Cons)
  moreover have "memoryCas toyHash (js ''o'') (Some oneEntry) twoEntries [js ''o'' \<mapsto> oneEntry] =
      (Inr (Some True), [js ''o'' \<mapsto> oneEntry](js ''o'' \<mapsto> twoEntries))"
    using \<open>trim (js ''o'') \<noteq> []\<close>
    by (simp add: memoryCas_def compareAndSwap_def casGuard_def validateOrigin_def example_advance del: js_Cons)
      (simp add: oneEntry_def)
  ultimately show ?thesis
    by (simp add: advanceTurn_def quietTurn_def storeOperation_def started_def swapped_def example_advance
        del: js_Cons fun_upd_upd)
qed

lemma example_advanced:
  "advanceTrustedC2spCheckpoint toyHash (js ''o'') twoCheckpoint (Some 9) scanOptions quietRun [quietTurn]
     [js ''o'' \<mapsto> oneEntry] = (Some (Inr twoEntries), [js ''o'' \<mapsto> oneEntry](js ''o'' \<mapsto> twoEntries))"
proof -
  have "\<lparr>tc_origin = js ''o'', tc_treeSize = 2, tc_rootHash = MTH toyHash [[10], [20]], tc_witnessTime = Some 9\<rparr> = twoEntries"
    and "scanOptions\<lparr>ao_tilePrefixRoot := None\<rparr> = scanOptions"
    by (simp_all add: twoEntries_def scanOptions_def)
  then show ?thesis
    by (simp add: advanceTrustedC2spCheckpoint_def advanceC2spCheckpoint_def twoCheckpoint_def quietRun_def
        example_advance example_turn started_def validTimeout_def withVerificationBudget_def del: js_Cons fun_upd_upd)
qed

theorem advanceTrusted_refines_witness:
  "history toyHash [js ''o'' \<mapsto> oneEntry] ([js ''o'' \<mapsto> oneEntry](js ''o'' \<mapsto> twoEntries)) \<and>
   (\<exists>replaced k. history toyHash [js ''o'' \<mapsto> oneEntry] replaced \<and>
      verifyCheckpointAdvance toyHash (scanOptions\<lparr>ao_tilePrefixRoot := None\<rparr>) k (replaced (js ''o'')) twoEntries = Inr ())"
proof -
  have "\<forall>t \<in> set [quietTurn]. \<forall>m. history toyHash m (tu_before t m) \<and> history toyHash m (tu_between t m)"
    by (simp add: quietTurn_def)
  from advanceTrusted_refines [OF this example_advanced] show ?thesis by blast
qed

theorem advanceTrusted_returns_witness:
  "\<exists>r. fst (advanceTrustedC2spCheckpoint toyHash (js ''o'') twoCheckpoint (Some 9) scanOptions quietRun [quietTurn]
     [js ''o'' \<mapsto> oneEntry]) = Some r"
  by (rule advanceTrusted_returns [of quietTurn]) (simp_all add: quietTurn_def)

end
