(* ===== verification/HashTiles.thy ===== *)
theory HashTiles
  imports Consistency Tiles
begin

text \<open>
  Prefix roots from hash tiles (\<open>log-c2sp-tlog/src/hash-tiles.ts\<close>): the root of a smaller tree is
  computed from tiles that are authenticated against the root of a larger one. The reader of tiles is a
  parameter. The map of tiles keeps its insertion order, since the code iterates over it while it
  grows. Sizes are natural numbers; the function is called for a prefix of a larger tree, and the
  width of a tile beyond the tree is not modelled.
\<close>

section \<open>Folding the hashes of a tile\<close>

text \<open>\<open>while (split * 2 < n) split *= 2\<close>.\<close>

function splitLoop :: "nat \<Rightarrow> nat \<Rightarrow> nat" where
  "splitLoop n s = (if 0 < s \<and> 2 * s < n then splitLoop n (2 * s) else s)"
  by pat_completeness auto
termination by (relation "measure (\<lambda>(n, s). n - s)") auto

declare splitLoop.simps [simp del]

lemma splitLoop_bounds:
  "0 < s \<Longrightarrow> s < n \<Longrightarrow> \<exists>j. splitLoop n s = 2 ^ j * s \<and> splitLoop n s < n \<and> n \<le> 2 * splitLoop n s"
proof (induction n s rule: splitLoop.induct)
  case (1 n s)
  show ?case
  proof (cases "2 * s < n")
    case True
    with 1 obtain j where "splitLoop n (2 * s) = 2 ^ j * (2 * s)" "splitLoop n (2 * s) < n"
        "n \<le> 2 * splitLoop n (2 * s)"
      by auto
    moreover have "2 ^ j * (2 * s) = 2 ^ Suc j * s" by simp
    moreover have "splitLoop n s = splitLoop n (2 * s)"
      using True 1 by (simp add: splitLoop.simps [of n s])
    ultimately show ?thesis by metis
  next
    case False
    then have "splitLoop n s = 2 ^ 0 * s" by (simp add: splitLoop.simps [of n s])
    with False 1 show ?thesis by (metis mult_1 not_less power_0)
  qed
qed

function foldTile :: "(bytes \<Rightarrow> bytes) \<Rightarrow> bytes list \<Rightarrow> bytes option \<Rightarrow> bytes" where
  "foldTile H hashes suffix =
     (if length hashes \<le> 1 then (case suffix of Some s \<Rightarrow> nodeHash H (hd hashes) s | None \<Rightarrow> hd hashes)
      else let split = splitLoop (length hashes) 1 in
        if suffix \<noteq> None \<and> split * 2 = length hashes then nodeHash H (foldTile H hashes None) (the suffix)
        else nodeHash H (foldTile H (take split hashes) None) (foldTile H (drop split hashes) suffix))"
  by pat_completeness auto
termination
proof (relation "measures [\<lambda>(H, hashes, suffix). length hashes, \<lambda>(H, hashes, suffix). case suffix of None \<Rightarrow> 0 | Some _ \<Rightarrow> 1]", goal_cases)
  case (3 H hashes suffix x)
  then show ?case using splitLoop_bounds [of 1 "length hashes"] by auto
next
  case (4 H hashes suffix x)
  then show ?case using splitLoop_bounds [of 1 "length hashes"] by auto
qed auto

declare foldTile.simps [simp del]

section \<open>Reading tiles\<close>

type_synonym tile_map = "((nat \<times> nat) \<times> bytes list) list"

text \<open>The number of hashes of a tile of a tree with \<open>n\<close> leaves.\<close>

definition tileWidth :: "nat \<Rightarrow> nat \<times> nat \<Rightarrow> nat" where
  "tileWidth n k = min 256 (n div 256 ^ fst k - 256 * snd k)"

fun isNotFound :: "js_error \<Rightarrow> bool" where
  "isNotFound (Verification v) = (ve_class v \<noteq> VerificationErrorClass \<and> ve_status v = Some 404)"
| "isNotFound _ = False"

definition readTile ::
    "(jstring \<Rightarrow> nat \<Rightarrow> js_error + bytes) \<Rightarrow> jstring \<Rightarrow> nat \<times> nat \<Rightarrow> nat \<Rightarrow> js_error + nat \<times> bytes" where
  "readTile read prefix k width =
     catchE (bindE (tilePath prefix (fst k) (int (snd k)) (if width = 256 then None else Some width)) (\<lambda>url.
        bindE (read url (width * 32)) (\<lambda>bs. Inr (width, bs))))
       (\<lambda>cause. if width = 256 \<or> \<not> isNotFound cause then Inl cause
          else bindE (tilePath prefix (fst k) (int (snd k)) None) (\<lambda>url.
            bindE (read url 8192) (\<lambda>bs. Inr (256, bs))))"

definition getTile ::
    "(jstring \<Rightarrow> nat \<Rightarrow> js_error + bytes) \<Rightarrow> jstring \<Rightarrow> nat \<Rightarrow> nat \<times> nat \<Rightarrow> tile_map \<Rightarrow>
     js_error + bytes list \<times> tile_map" where
  "getTile read prefix n k tiles =
     (case map_of tiles k of
        Some hashes \<Rightarrow> Inr (hashes, tiles)
      | None \<Rightarrow>
          bindE (readTile read prefix k (tileWidth n k)) (\<lambda>r.
          if length (snd r) \<noteq> fst r * 32 then Inl (c2spVerificationError ''C2SP hash tile width mismatch'' INVALID_EVIDENCE)
          else let hashes = map (\<lambda>i. take 32 (drop (i * 32) (snd r))) [0..<tileWidth n k] in
            Inr (hashes, tiles @ [(k, hashes)])))"

section \<open>Roots\<close>

text \<open>The loop of \<open>root\<close> over the base-256 digits of a size.\<close>

function rootLoop ::
    "(bytes \<Rightarrow> bytes) \<Rightarrow> (nat \<times> nat \<Rightarrow> tile_map \<Rightarrow> js_error + bytes list \<times> tile_map) \<Rightarrow> nat \<Rightarrow> nat \<Rightarrow>
     bytes option \<Rightarrow> tile_map \<Rightarrow> js_error + bytes option \<times> tile_map" where
  "rootLoop H get level count' suffix tiles =
     (if count' = 0 then Inr (suffix, tiles)
      else if count' mod 256 = 0 then rootLoop H get (Suc level) (count' div 256) suffix tiles
      else bindE (get (level, count' div 256) tiles) (\<lambda>t.
        rootLoop H get (Suc level) (count' div 256)
          (Some (foldTile H (take (count' mod 256) (fst t)) suffix)) (snd t)))"
  by pat_completeness auto
termination by (relation "measure (\<lambda>(H, get, level, count', suffix, tiles). count')") auto

declare rootLoop.simps [simp del]

section \<open>Authentication\<close>

text \<open>
  \<open>authenticate\<close> climbs to the parent tile until it meets an authenticated one. The first argument
  bounds the climb; \<open>None\<close> stands for a climb that exceeds it.
\<close>

fun authenticate ::
    "nat \<Rightarrow> (bytes \<Rightarrow> bytes) \<Rightarrow> (nat \<times> nat \<Rightarrow> tile_map \<Rightarrow> js_error + bytes list \<times> tile_map) \<Rightarrow> nat \<times> nat \<Rightarrow>
     tile_map \<times> (nat \<times> nat) list \<Rightarrow> (js_error + tile_map \<times> (nat \<times> nat) list) option" where
  "authenticate 0 H get k s = None"
| "authenticate (Suc fuel) H get k s =
     (if k \<in> set (snd s) then Some (Inr s)
      else let up = (Suc (fst k), snd k div 256) in
        case get up (fst s) of
          Inl e \<Rightarrow> Some (Inl e)
        | Inr (parent, tiles) \<Rightarrow>
            (case authenticate fuel H get up (tiles, snd s) of
               None \<Rightarrow> None
             | Some (Inl e) \<Rightarrow> Some (Inl e)
             | Some (Inr s') \<Rightarrow>
                 let hashes = the (map_of (fst s') k) in
                 if length hashes \<noteq> 256 then
                   Some (Inl (c2spVerificationError ''C2SP hash tile does not authenticate against the candidate root'' INVALID_EVIDENCE))
                 else if length parent \<le> snd k mod 256 then Some (Inl (JsTypeError ''Buffer.from''))
                 else if foldTile H hashes None \<noteq> parent ! (snd k mod 256) then
                   Some (Inl (c2spVerificationError ''C2SP hash tile does not authenticate against the candidate root'' INVALID_EVIDENCE))
                 else Some (Inr (fst s', k # snd s'))))"

text \<open>The loop over the tiles, which visits the tiles that are added on the way.\<close>

fun authLoop ::
    "nat \<Rightarrow> (bytes \<Rightarrow> bytes) \<Rightarrow> (nat \<times> nat \<Rightarrow> tile_map \<Rightarrow> js_error + bytes list \<times> tile_map) \<Rightarrow> nat \<Rightarrow>
     tile_map \<times> (nat \<times> nat) list \<Rightarrow> (js_error + tile_map \<times> (nat \<times> nat) list) option" where
  "authLoop 0 H get i s = None"
| "authLoop (Suc fuel) H get i s =
     (if length (fst s) \<le> i then Some (Inr s)
      else case authenticate 64 H get (fst (fst s ! i)) s of
        None \<Rightarrow> None
      | Some (Inl e) \<Rightarrow> Some (Inl e)
      | Some (Inr s') \<Rightarrow> authLoop fuel H get (Suc i) s')"

text \<open>The function with the tiles it has read.\<close>

definition tilePrefixRun ::
    "(bytes \<Rightarrow> bytes) \<Rightarrow> (jstring \<Rightarrow> nat \<Rightarrow> js_error + bytes) \<Rightarrow> jstring \<Rightarrow> nat \<Rightarrow> bytes \<Rightarrow> nat \<Rightarrow>
     (js_error + bytes option \<times> tile_map) option" where
  "tilePrefixRun H read prefix n rootHash m =
     (let get = getTile read prefix n in
      case rootLoop H get 0 n None [] of
        Inl e \<Rightarrow> Some (Inl e)
      | Inr (None, _) \<Rightarrow> Some (Inl (JsTypeError ''Buffer.from''))
      | Inr (Some candidateRoot, tiles) \<Rightarrow>
          if candidateRoot \<noteq> rootHash
          then Some (Inl (c2spVerificationError ''C2SP hash tiles do not reproduce the candidate root'' INVALID_EVIDENCE))
          else (case rootLoop H get 0 m None tiles of
                  Inl e \<Rightarrow> Some (Inl e)
                | Inr (trustedRoot, tiles') \<Rightarrow>
                    (case authLoop 64 H get 0 (tiles', map fst tiles) of
                       None \<Rightarrow> None
                     | Some (Inl e) \<Rightarrow> Some (Inl e)
                     | Some (Inr s) \<Rightarrow> Some (Inr (trustedRoot, fst s)))))"

definition authenticatedTilePrefixRoot ::
    "(bytes \<Rightarrow> bytes) \<Rightarrow> (jstring \<Rightarrow> nat \<Rightarrow> js_error + bytes) \<Rightarrow> jstring \<Rightarrow> nat \<Rightarrow> bytes \<Rightarrow> nat \<Rightarrow>
     (js_error + bytes option) option" where
  "authenticatedTilePrefixRoot H read prefix n rootHash m =
     map_option (map_sum id fst) (tilePrefixRun H read prefix n rootHash m)"

section \<open>Folding is hashing the tree\<close>

lemma power_between_unique:
  assumes "2 ^ i < (n :: nat)" "n \<le> 2 * 2 ^ i" "2 ^ j < n" "n \<le> 2 * 2 ^ j"
  shows "i = j"
proof -
  have "(2 :: nat) ^ i < 2 ^ Suc j" "(2 :: nat) ^ j < 2 ^ Suc i" using assms by simp_all
  then have "i < Suc j" "j < Suc i" using power_strict_increasing_iff [of "2 :: nat"] by (metis numeral_One one_less_numeral_iff semiring_norm(76))+
  then show ?thesis by simp
qed

lemma splitLoop_splitPoint: "2 \<le> n \<Longrightarrow> splitLoop n 1 = splitPoint n"
  using splitLoop_bounds [of 1 n] splitPoint_bounds [of n] splitPoint_power [of n] power_between_unique
  by (metis One_nat_def Suc_1 Suc_le_lessD lessI mult.right_neutral)

lemma splitPoint_Suc:
  assumes "2 \<le> n"
  shows "splitPoint (Suc n) = (if 2 * splitPoint n = n then n else splitPoint n)"
proof -
  obtain i j where i: "splitPoint n = 2 ^ i" and j: "splitPoint (Suc n) = 2 ^ j" using splitPoint_power by meson
  note bounds = splitPoint_bounds [OF assms] splitPoint_bounds [of "Suc n"]
  show ?thesis
  proof (cases "2 * splitPoint n = n")
    case True
    then have "n = 2 ^ Suc i" using i by simp
    then have "Suc i = j" using bounds assms j by (intro power_between_unique [of "Suc i" "Suc n" j]) auto
    then show ?thesis using True j \<open>n = 2 ^ Suc i\<close> by simp
  next
    case False
    then have "i = j" using bounds assms i j by (intro power_between_unique [of i "Suc n" j]) auto
    then show ?thesis using False i j by simp
  qed
qed

lemma foldTile_treeHash:
  "hashes \<noteq> [] \<Longrightarrow> foldTile H hashes suffix = treeHash (nodeHash H) (hashes @ (case suffix of None \<Rightarrow> [] | Some s \<Rightarrow> [s]))"
proof (induction H hashes suffix rule: foldTile.induct)
  case (1 H hashes suffix)
  let ?n = "length hashes"
  show ?case
  proof (cases "?n \<le> 1")
    case True
    with 1 obtain h where "hashes = [h]" by (cases hashes) auto
    then show ?thesis by (auto simp: foldTile.simps split: option.splits)
  next
    case False
    then have n: "2 \<le> ?n" by simp
    note bounds = splitPoint_bounds [OF n]
    have ne: "take (splitPoint ?n) hashes \<noteq> []" "drop (splitPoint ?n) hashes \<noteq> []" using bounds n by auto
    have split: "splitLoop ?n 1 = splitPoint ?n" by (rule splitLoop_splitPoint [OF n])
    show ?thesis
    proof (cases "suffix \<noteq> None \<and> splitPoint ?n * 2 = ?n")
      case True
      then obtain s where s: "suffix = Some s" by auto
      have "foldTile H hashes None = treeHash (nodeHash H) hashes"
        using "1.IH"(1) [OF False refl] True split "1.prems" by simp
      moreover have "splitPoint (Suc ?n) = ?n" using splitPoint_Suc [OF n] True by (simp add: mult.commute)
      ultimately show ?thesis
        using False True split s "1.prems" by (simp add: foldTile.simps [of H hashes] treeHash.simps [of _ "hashes @ [s]"])
    next
      case nosplit: False
      have left: "foldTile H (take (splitPoint ?n) hashes) None = treeHash (nodeHash H) (take (splitPoint ?n) hashes)"
        using "1.IH"(2) [OF False refl] nosplit split ne(1) by simp
      have right: "foldTile H (drop (splitPoint ?n) hashes) suffix =
          treeHash (nodeHash H) (drop (splitPoint ?n) hashes @ (case suffix of None \<Rightarrow> [] | Some s \<Rightarrow> [s]))"
        using "1.IH"(3) [OF False refl] nosplit split ne(2) by simp
      have whole: "foldTile H hashes suffix = nodeHash H (foldTile H (take (splitPoint ?n) hashes) None)
          (foldTile H (drop (splitPoint ?n) hashes) suffix)"
        using False nosplit split by (auto simp: foldTile.simps [of H hashes suffix] Let_def)
      show ?thesis
      proof (cases suffix)
        case None
        then show ?thesis using whole left right False by (simp add: treeHash.simps [of _ hashes])
      next
        case (Some s)
        then have "splitPoint (Suc ?n) = splitPoint ?n" using nosplit splitPoint_Suc [OF n] by (simp add: mult.commute)
        then show ?thesis
          using whole left right False Some bounds "1.prems" by (simp add: treeHash.simps [of _ "hashes @ [s]"])
      qed
    qed
  qed
qed

section \<open>Roots of given tiles\<close>

text \<open>The root loop over tiles that are at hand, and the lists it hashes.\<close>

abbreviation suffixList :: "bytes option \<Rightarrow> bytes list" where
  "suffixList s \<equiv> (case s of None \<Rightarrow> [] | Some x \<Rightarrow> [x])"

function rootOf :: "(bytes \<Rightarrow> bytes) \<Rightarrow> (nat \<times> nat \<Rightarrow> bytes list) \<Rightarrow> nat \<Rightarrow> nat \<Rightarrow> bytes option \<Rightarrow> bytes option" where
  "rootOf H t l c s =
     (if c = 0 then s
      else rootOf H t (Suc l) (c div 256)
        (if c mod 256 = 0 then s
         else Some (treeHash (nodeHash H) (take (c mod 256) (t (l, c div 256)) @ suffixList s))))"
  by pat_completeness auto
termination by (relation "measure (\<lambda>(H, t, l, c, s). c)") auto

declare rootOf.simps [simp del]

function rootInputs :: "(bytes \<Rightarrow> bytes) \<Rightarrow> (nat \<times> nat \<Rightarrow> bytes list) \<Rightarrow> nat \<Rightarrow> nat \<Rightarrow> bytes option \<Rightarrow> bytes set" where
  "rootInputs H t l c s =
     (if c = 0 then {}
      else (if c mod 256 = 0 then {} else nodeInputs H (take (c mod 256) (t (l, c div 256)) @ suffixList s)) \<union>
        rootInputs H t (Suc l) (c div 256)
          (if c mod 256 = 0 then s
           else Some (treeHash (nodeHash H) (take (c mod 256) (t (l, c div 256)) @ suffixList s))))"
  by pat_completeness auto
termination by (relation "measure (\<lambda>(H, t, l, c, s). c)") auto

declare rootInputs.simps [simp del]

text \<open>The tiles that the loop visits.\<close>

function frontier :: "nat \<Rightarrow> nat \<Rightarrow> (nat \<times> nat) set" where
  "frontier l c =
     (if c = 0 then {} else (if c mod 256 = 0 then {} else {(l, c div 256)}) \<union> frontier (Suc l) (c div 256))"
  by pat_completeness auto
termination by (relation "measure snd") auto

declare frontier.simps [simp del]

lemma div_steps: "c div 256 div 256 ^ j = (c :: nat) div 256 ^ Suc j"
  by (simp add: div_mult2_eq)

lemma frontier_iff: "k \<in> frontier l c \<longleftrightarrow> (\<exists>j. k = (l + j, c div 256 ^ Suc j) \<and> c div 256 ^ j mod 256 \<noteq> 0)"
proof (induction l c rule: frontier.induct)
  case (1 l c)
  show ?case
  proof (cases "c = 0")
    case True
    then show ?thesis by (simp add: frontier.simps)
  next
    case False
    have ex_split: "(\<exists>j. P j) \<longleftrightarrow> P 0 \<or> (\<exists>j. P (Suc j))" for P :: "nat \<Rightarrow> bool"
      by (metis nat.exhaust)
    have shift: "(\<exists>j. k = (Suc l + j, c div 256 div 256 ^ Suc j) \<and> c div 256 div 256 ^ j mod 256 \<noteq> 0) \<longleftrightarrow>
        (\<exists>j. k = (l + Suc j, c div 256 ^ Suc (Suc j)) \<and> c div 256 ^ Suc j mod 256 \<noteq> 0)"
      by (simp add: div_steps del: power_Suc)
    have "k \<in> frontier l c \<longleftrightarrow> c mod 256 \<noteq> 0 \<and> k = (l, c div 256) \<or> k \<in> frontier (Suc l) (c div 256)"
      using False by (simp add: frontier.simps [of l c])
    also have "\<dots> \<longleftrightarrow> (\<exists>j. k = (l + j, c div 256 ^ Suc j) \<and> c div 256 ^ j mod 256 \<noteq> 0)"
      unfolding "1.IH" [OF False] shift
      using ex_split [of "\<lambda>j. k = (l + j, c div 256 ^ Suc j) \<and> c div 256 ^ j mod 256 \<noteq> 0"] by auto
    finally show ?thesis .
  qed
qed

text \<open>Two runs with the same root have seen the same hashes.\<close>

lemma rootOf_inj:
  assumes H: "\<And>x. length (H x) = 32"
  shows "rootOf H t l c s = rootOf H t' l c s' \<Longrightarrow> (s = None \<longleftrightarrow> s' = None) \<Longrightarrow>
    \<forall>x \<in> set (suffixList s) \<union> set (suffixList s'). length x = 32 \<Longrightarrow>
    (\<And>k. k \<in> frontier l c \<Longrightarrow> length (t k) = length (t' k) \<and> (\<forall>x \<in> set (t k) \<union> set (t' k). length x = 32)) \<Longrightarrow>
    (\<And>k. k \<in> frontier l c \<Longrightarrow> t k \<noteq> []) \<Longrightarrow>
    inj_on H (rootInputs H t l c s \<union> rootInputs H t' l c s') \<Longrightarrow>
    s = s' \<and> (\<forall>j. c div 256 ^ j mod 256 \<noteq> 0 \<longrightarrow>
      take (c div 256 ^ j mod 256) (t (l + j, c div 256 ^ Suc j)) = take (c div 256 ^ j mod 256) (t' (l + j, c div 256 ^ Suc j)))"
proof (induction c arbitrary: l s s' rule: less_induct)
  case (less c l s s')
  show ?case
  proof (cases "c = 0")
    case True
    then show ?thesis using less.prems by (simp add: rootOf.simps)
  next
    case False
    let ?w = "c mod 256"
    let ?xs = "take ?w (t (l, c div 256)) @ suffixList s" and ?ys = "take ?w (t' (l, c div 256)) @ suffixList s'"
    let ?s = "if ?w = 0 then s else Some (treeHash (nodeHash H) ?xs)"
    let ?s' = "if ?w = 0 then s' else Some (treeHash (nodeHash H) ?ys)"
    have sub: "k \<in> frontier (Suc l) (c div 256) \<Longrightarrow> k \<in> frontier l c" for k
      using False by (simp add: frontier.simps [of l c])
    have here: "?w \<noteq> 0 \<Longrightarrow> (l, c div 256) \<in> frontier l c" using False by (simp add: frontier.simps [of l c])
    have lists: "?xs \<noteq> []" "?ys \<noteq> []" "length ?xs = length ?ys" "\<forall>x \<in> set ?xs \<union> set ?ys. length x = 32" if "?w \<noteq> 0"
      using less.prems(2-5) here [OF that] that by (fastforce split: option.splits dest!: in_set_takeD)+
    have hash: "length (treeHash (nodeHash H) ?xs) = 32" "length (treeHash (nodeHash H) ?ys) = 32" if "?w \<noteq> 0"
      using treeHash_length [OF H lists(1) [OF that]] treeHash_length [OF H lists(2) [OF that]] lists(4) [OF that]
      by (simp_all add: ball_Un)
    have rest: "?s = ?s' \<and> (\<forall>j. c div 256 div 256 ^ j mod 256 \<noteq> 0 \<longrightarrow>
      take (c div 256 div 256 ^ j mod 256) (t (Suc l + j, c div 256 div 256 ^ Suc j)) =
      take (c div 256 div 256 ^ j mod 256) (t' (Suc l + j, c div 256 div 256 ^ Suc j)))"
    proof (rule less.IH)
      show "rootOf H t (Suc l) (c div 256) ?s = rootOf H t' (Suc l) (c div 256) ?s'"
        using less.prems(1) False by (simp add: rootOf.simps [of H _ l c])
      show "(?s = None) = (?s' = None)" using less.prems(2) by simp
      show "\<forall>x \<in> set (suffixList ?s) \<union> set (suffixList ?s'). length x = 32"
        using less.prems(3) hash by simp
      show "inj_on H (rootInputs H t (Suc l) (c div 256) ?s \<union> rootInputs H t' (Suc l) (c div 256) ?s')"
        by (rule inj_on_subset [OF less.prems(6)]) (use False in \<open>auto simp: rootInputs.simps [of H _ l c]\<close>)
      show "c div 256 < c" using False by simp
    qed (use less.prems(4,5) sub in blast)+
    have eq: "take ?w (t (l, c div 256)) = take ?w (t' (l, c div 256)) \<and> s = s'" if "?w \<noteq> 0"
    proof -
      have "?xs = ?ys"
      proof (rule treeHash_inj [OF H lists(1,3,4) [OF that]])
        show "inj_on H (nodeInputs H ?xs \<union> nodeInputs H ?ys)"
          by (rule inj_on_subset [OF less.prems(6)]) (use False that in \<open>auto simp: rootInputs.simps [of H _ l c]\<close>)
      qed (use rest that in simp)
      then show ?thesis using lists(3) [OF that] less.prems(2) by (auto split: option.splits)
    qed
    have "take (c div 256 ^ j mod 256) (t (l + j, c div 256 ^ Suc j)) = take (c div 256 ^ j mod 256) (t' (l + j, c div 256 ^ Suc j))"
      if "c div 256 ^ j mod 256 \<noteq> 0" for j
      using that eq rest by (cases j) (simp_all add: div_steps del: power_Suc)
    then show ?thesis using eq rest by (cases "?w = 0") auto
  qed
qed

section \<open>The tiles of a tree\<close>

text \<open>The tile with the hashes of the complete subtrees of height \<open>8 * level\<close>, as many as there are.\<close>

definition treeTile :: "(bytes \<Rightarrow> bytes) \<Rightarrow> bytes list \<Rightarrow> nat \<times> nat \<Rightarrow> bytes list" where
  "treeTile H ls k = take (tileWidth (length ls) k) (drop (256 * snd k) (levels (nodeHash H) (8 * fst k) ls))"

lemma power_256: "(256 :: nat) ^ l = 2 ^ (8 * l)"
  by (simp add: power_mult)

lemma levels_add: "levels nd (i + j) hs = levels nd i (levels nd j hs)"
  by (simp add: levels_def funpow_add)

lemma levels_append:
  "2 ^ t dvd length xs \<Longrightarrow> levels nd t (xs @ ys) = levels nd t xs @ levels nd t ys"
proof (induction t arbitrary: xs ys)
  case (Suc t)
  obtain q where q: "length xs = 2 * (2 ^ t * q)" using Suc.prems by (auto simp: dvd_def mult.assoc)
  then have "even (length xs)" "2 ^ t dvd length (pairLevel nd xs)" by (simp_all add: length_pairLevel)
  with Suc.IH show ?case by (simp add: levels_Suc pairLevel_append)
qed simp

lemma levels_single:
  assumes "xs \<noteq> []" and "length xs \<le> 2 ^ t"
  shows "levels nd t xs = [treeHash nd xs]"
proof -
  have "length xs - 1 < 2 ^ t" using assms by (cases xs) auto
  then have "length (levels nd t xs) = 1"
    using assms(1) length_levels [of xs nd t] by simp
  then obtain x where "levels nd t xs = [x]" by (metis One_nat_def length_0_conv length_Suc_conv)
  then show ?thesis using treeHash_levels [OF assms(1), of nd t] by simp
qed

lemma levels_nil [simp]: "levels nd t [] = []"
  by (induction t) (simp_all add: levels_Suc)

lemma length_levels_ge: "length hs div 2 ^ t \<le> length (levels nd t hs)"
proof (cases "hs = []")
  case False
  then obtain n where n: "length hs = Suc n" by (cases hs) auto
  have "Suc n div 2 ^ t \<le> Suc (n div 2 ^ t)" by (simp add: div_Suc)
  then show ?thesis using n length_levels [of hs nd t] by simp
qed simp

lemma length_treeTile: "length (treeTile H ls k) = tileWidth (length ls) k"
proof -
  have "length ls div 256 ^ fst k \<le> length (levels (nodeHash H) (8 * fst k) ls)"
    unfolding power_256 by (rule length_levels_ge)
  then show ?thesis by (simp add: treeTile_def tileWidth_def)
qed

lemma treeTile_hashes:
  assumes "\<And>x. length (H x) = 32" and "\<forall>x \<in> set ls. length x = 32" and "x \<in> set (treeTile H ls k)"
  shows "length x = 32"
  using levels_lengths [where H = H and t = "8 * fst k" and xs = ls, OF assms(1,2)] assms(3)
  by (auto simp: treeTile_def dest!: in_set_takeD in_set_dropD)

text \<open>One level of the loop on the tiles of a tree.\<close>

lemma levels_digit:
  assumes inv: "levels nd (8 * l) (take n ls) = take c (levels nd (8 * l) ls) @ suffixList s"
    and c: "c \<le> length (levels nd (8 * l) ls)"
    and s': "s' = (if c mod 256 = 0 then s
      else Some (treeHash nd (take (c mod 256) (drop (256 * (c div 256)) (levels nd (8 * l) ls)) @ suffixList s)))"
  shows "levels nd (8 * Suc l) (take n ls) = take (c div 256) (levels nd (8 * Suc l) ls) @ suffixList s'"
proof -
  let ?Y = "levels nd (8 * l) ls" and ?q = "c div 256" and ?w = "c mod 256"
  let ?R = "take ?w (drop (256 * ?q) ?Y) @ suffixList s"
  have q: "2 ^ 8 * ?q \<le> length ?Y" using c by simp
  have "take c ?Y = take (256 * ?q) ?Y @ take ?w (drop (256 * ?q) ?Y)"
    by (metis mult_div_mod_eq take_add)
  then have "levels nd (8 * Suc l) (take n ls) = levels nd 8 (take (256 * ?q) ?Y @ ?R)"
    using inv levels_add [of nd 8 "8 * l" "take n ls"] by simp
  also have "\<dots> = levels nd 8 (take (256 * ?q) ?Y) @ levels nd 8 ?R"
    by (rule levels_append) (use q in \<open>simp add: min_def\<close>)
  also have "levels nd 8 (take (256 * ?q) ?Y) = take ?q (levels nd (8 * Suc l) ls)"
    using levels_take [OF q, of nd] levels_add [of nd 8 "8 * l" ls] by simp
  also have "levels nd 8 ?R = suffixList s'"
  proof (cases "?R = []")
    case True
    moreover have "?w = 0"
    proof -
      from True have "length ?Y \<le> 256 * ?q \<or> ?w = 0" by auto
      moreover have "256 * ?q + ?w = c" by simp
      ultimately show ?thesis using c by linarith
    qed
    ultimately show ?thesis using s' by (auto split: option.splits)
  next
    case False
    have "?w < 256" by simp
    then have "length ?R \<le> 2 ^ 8" by (auto split: option.splits)
    then show ?thesis using levels_single [OF False] s' False by (auto split: option.splits)
  qed
  finally show ?thesis .
qed

lemma rootOf_treeTile:
  assumes "0 < n" and "n \<le> length ls"
  shows "c = n div 256 ^ l \<Longrightarrow>
    levels (nodeHash H) (8 * l) (take n ls) = take c (levels (nodeHash H) (8 * l) ls) @ suffixList s \<Longrightarrow>
    rootOf H (treeTile H ls) l c s = Some (treeHash (nodeHash H) (take n ls))"
proof (induction c arbitrary: l s rule: less_induct)
  case (less c l s)
  let ?nd = "nodeHash H"
  have ne: "take n ls \<noteq> []" using assms by auto
  show ?case
  proof (cases "c = 0")
    case True
    have "levels ?nd (8 * l) (take n ls) \<noteq> []"
      using ne length_levels [of "take n ls" ?nd "8 * l"] by fastforce
    with True less.prems(2) obtain x where "s = Some x" "levels ?nd (8 * l) (take n ls) = [x]"
      by (auto split: option.splits)
    then show ?thesis using True treeHash_levels [OF ne, of ?nd "8 * l"] by (simp add: rootOf.simps)
  next
    case False
    let ?s = "if c mod 256 = 0 then s
      else Some (treeHash ?nd (take (c mod 256) (drop (256 * (c div 256)) (levels ?nd (8 * l) ls)) @ suffixList s))"
    have c: "c \<le> length ls div 256 ^ l" using less.prems(1) assms(2) by (simp add: div_le_mono)
    then have len: "c \<le> length (levels ?nd (8 * l) ls)"
      using length_levels_ge [of ls "8 * l" ?nd] by (simp add: power_256)
    have "c mod 256 \<le> tileWidth (length ls) (l, c div 256)"
    proof -
      have "256 * (c div 256) + c mod 256 \<le> length ls div 256 ^ l" using c by simp
      then have "c mod 256 \<le> length ls div 256 ^ l - 256 * (c div 256)" by linarith
      moreover have "c mod 256 \<le> 256" by (rule less_imp_le) simp
      ultimately show ?thesis by (simp add: tileWidth_def)
    qed
    then have tile: "take (c mod 256) (treeTile H ls (l, c div 256)) =
        take (c mod 256) (drop (256 * (c div 256)) (levels ?nd (8 * l) ls))"
      by (simp add: treeTile_def min_def)
    have "rootOf H (treeTile H ls) (Suc l) (c div 256) ?s = Some (treeHash ?nd (take n ls))"
    proof (rule less.IH)
      show "c div 256 = n div 256 ^ Suc l" unfolding less.prems(1) power_Suc2 div_mult2_eq ..
      show "levels ?nd (8 * Suc l) (take n ls) = take (c div 256) (levels ?nd (8 * Suc l) ls) @ suffixList ?s"
        by (rule levels_digit [OF less.prems(2) len refl])
    qed (use False in simp)
    then show ?thesis using False by (cases "c mod 256 = 0") (simp_all add: rootOf.simps [of H _ l c] tile)
  qed
qed

section \<open>A run on its final tiles\<close>

lemma map_leD: "m \<subseteq>\<^sub>m m' \<Longrightarrow> m k = Some x \<Longrightarrow> m' k = Some x"
  by (metis domI map_le_def)

text \<open>Tiles are only added; every tile has the width of its place, with hashes of 32 bytes.\<close>

definition tileOf :: "tile_map \<Rightarrow> nat \<times> nat \<Rightarrow> bytes list" where
  "tileOf tiles k = (case map_of tiles k of Some hs \<Rightarrow> hs | None \<Rightarrow> [])"

definition wfTiles :: "nat \<Rightarrow> tile_map \<Rightarrow> bool" where
  "wfTiles n tiles \<longleftrightarrow> (\<forall>k hs. map_of tiles k = Some hs \<longrightarrow>
     length hs = tileWidth n k \<and> (\<forall>h \<in> set hs. length h = 32))"

lemma wfTilesD:
  "wfTiles n tiles \<Longrightarrow> map_of tiles k = Some hs \<Longrightarrow> length hs = tileWidth n k \<and> (\<forall>h \<in> set hs. length h = 32)"
  unfolding wfTiles_def by blast

lemma getTile_Inr:
  assumes "getTile read prefix n k tiles = Inr (hs, tiles')" and "wfTiles n tiles"
  shows "map_of tiles' k = Some hs" "map_of tiles \<subseteq>\<^sub>m map_of tiles'" "wfTiles n tiles'"
    "\<exists>new. tiles' = tiles @ new"
proof -
  have "(map_of tiles k = Some hs \<and> tiles' = tiles) \<or>
      (map_of tiles k = None \<and> tiles' = tiles @ [(k, hs)] \<and> length hs = tileWidth n k \<and> (\<forall>h \<in> set hs. length h = 32))"
  proof (cases "map_of tiles k")
    case None
    with assms(1) obtain w bs where r: "readTile read prefix k (tileWidth n k) = Inr (w, bs)" "length bs = w * 32"
        "hs = map (\<lambda>i. take 32 (drop (i * 32) bs)) [0..<tileWidth n k]" "tiles' = tiles @ [(k, hs)]"
      by (auto simp: getTile_def bindE_eq_Inr Let_def split: if_splits)
    moreover have "tileWidth n k \<le> w"
      using r(1) by (auto simp: readTile_def catchE_eq_Inr bindE_eq_Inr tileWidth_def split: if_splits)
    ultimately show ?thesis using None by auto
  qed (use assms(1) in \<open>simp add: getTile_def\<close>)
  then show "map_of tiles' k = Some hs" "map_of tiles \<subseteq>\<^sub>m map_of tiles'" "wfTiles n tiles'" "\<exists>new. tiles' = tiles @ new"
    using assms(2) by (auto simp: map_le_def wfTiles_def map_add_def split: option.splits if_splits)
qed

lemma rootOf_cong:
  "(\<And>k. k \<in> frontier l c \<Longrightarrow> t k = t' k) \<Longrightarrow> rootOf H t l c s = rootOf H t' l c s"
proof (induction c arbitrary: l s rule: less_induct)
  case (less c l s)
  show ?case
  proof (cases "c = 0")
    case False
    have "rootOf H t (Suc l) (c div 256) s' = rootOf H t' (Suc l) (c div 256) s'" for s'
      by (rule less.IH) (use False less.prems in \<open>auto simp: frontier.simps [of l c]\<close>)
    moreover have "c mod 256 \<noteq> 0 \<Longrightarrow> t (l, c div 256) = t' (l, c div 256)"
      using False less.prems by (simp add: frontier.simps [of l c])
    ultimately show ?thesis using False by (simp add: rootOf.simps [of H _ l c])
  qed (simp add: rootOf.simps)
qed

lemma rootLoop_rootOf:
  assumes "rootLoop H (getTile read prefix n) l c s tiles = Inr (r, tiles')" and "wfTiles n tiles"
    and "\<And>k. k \<in> frontier l c \<Longrightarrow> 0 < tileWidth n k"
  shows "map_of tiles \<subseteq>\<^sub>m map_of tiles' \<and> wfTiles n tiles' \<and> (\<exists>new. tiles' = tiles @ new) \<and>
    frontier l c \<subseteq> dom (map_of tiles') \<and> r = rootOf H (tileOf tiles') l c s"
  using assms
proof (induction c arbitrary: l s tiles rule: less_induct)
  case (less c l s tiles)
  show ?case
  proof (cases "c = 0")
    case True
    then show ?thesis using less.prems by (simp add: rootLoop.simps rootOf.simps frontier.simps)
  next
    case False
    have sub: "k \<in> frontier l c" if "k \<in> frontier (Suc l) (c div 256)" for k
      using False that by (simp add: frontier.simps [of l c])
    show ?thesis
    proof (cases "c mod 256 = 0")
      case True
      then have "rootLoop H (getTile read prefix n) (Suc l) (c div 256) s tiles = Inr (r, tiles')"
        using less.prems(1) False by (simp add: rootLoop.simps [of _ _ l c])
      then show ?thesis
        using less.IH [of "c div 256" "Suc l" s tiles] less.prems(2,3) sub True False
        by (simp add: rootOf.simps [of H _ l c] frontier.simps [of l c])
    next
      case nz: False
      have mem: "(l, c div 256) \<in> frontier l c" using False nz by (simp add: frontier.simps [of l c])
      from less.prems(1) False nz obtain hs mid where get: "getTile read prefix n (l, c div 256) tiles = Inr (hs, mid)"
        and rest: "rootLoop H (getTile read prefix n) (Suc l) (c div 256)
          (Some (foldTile H (take (c mod 256) hs) s)) mid = Inr (r, tiles')"
        by (auto simp: rootLoop.simps [of _ _ l c] bindE_eq_Inr)
      note g = getTile_Inr [OF get less.prems(2)]
      have IH: "map_of mid \<subseteq>\<^sub>m map_of tiles' \<and> wfTiles n tiles' \<and> (\<exists>new. tiles' = mid @ new) \<and>
          frontier (Suc l) (c div 256) \<subseteq> dom (map_of tiles') \<and>
          r = rootOf H (tileOf tiles') (Suc l) (c div 256) (Some (foldTile H (take (c mod 256) hs) s))"
        by (rule less.IH [OF _ rest g(3)]) (use False less.prems(3) sub in auto)
      have tile: "map_of tiles' (l, c div 256) = Some hs" using IH g(1) by (auto simp: map_le_def dom_def)
      have "hs \<noteq> []" using g(1,3) less.prems(3) [OF mem] unfolding wfTiles_def by fastforce
      then have "foldTile H (take (c mod 256) hs) s = treeHash (nodeHash H) (take (c mod 256) hs @ suffixList s)"
        using nz by (simp add: foldTile_treeHash)
      moreover have "map_of tiles \<subseteq>\<^sub>m map_of tiles'" by (rule map_le_trans [OF g(2)]) (use IH in blast)
      moreover have "\<exists>new. tiles' = tiles @ new" using IH g(4) by auto
      moreover have "tileOf tiles' (l, c div 256) = hs" using tile by (simp add: tileOf_def)
      ultimately show ?thesis
        using IH tile False nz by (simp add: rootOf.simps [of H _ l c] frontier.simps [of l c] dom_def)
    qed
  qed
qed

lemma getTile_keys:
  "getTile read prefix n k tiles = Inr (hs, tiles') \<Longrightarrow> fst ` set tiles' \<subseteq> insert k (fst ` set tiles)"
  by (auto simp: getTile_def bindE_eq_Inr Let_def split: option.splits if_splits)

lemma rootLoop_keys:
  "rootLoop H (getTile read prefix n) l c s tiles = Inr (r, tiles') \<Longrightarrow> fst ` set tiles' \<subseteq> fst ` set tiles \<union> frontier l c"
proof (induction c arbitrary: l s tiles rule: less_induct)
  case (less c l s tiles)
  consider "c = 0" | "c \<noteq> 0" "c mod 256 = 0" | "c \<noteq> 0" "c mod 256 \<noteq> 0" by blast
  then show ?case
  proof cases
    case 2
    then show ?thesis
      using less.prems less.IH [of "c div 256"] by (auto simp: rootLoop.simps [of _ _ l c] frontier.simps [of l c])
  next
    case 3
    with less.prems obtain hs mid where get: "getTile read prefix n (l, c div 256) tiles = Inr (hs, mid)"
      and rest: "rootLoop H (getTile read prefix n) (Suc l) (c div 256)
          (Some (foldTile H (take (c mod 256) hs) s)) mid = Inr (r, tiles')"
      by (auto simp: rootLoop.simps [of _ _ l c] bindE_eq_Inr)
    have "fst ` set tiles' \<subseteq> fst ` set mid \<union> frontier (Suc l) (c div 256)"
      by (rule less.IH [OF _ rest]) (use 3 in simp)
    then show ?thesis using 3 getTile_keys [OF get] by (auto simp: frontier.simps [of l c])
  qed (use less.prems in \<open>simp add: rootLoop.simps\<close>)
qed

text \<open>Authentication, and its loop, only add tiles and authenticated places.\<close>

definition extends :: "nat \<Rightarrow> tile_map \<times> (nat \<times> nat) list \<Rightarrow> tile_map \<times> (nat \<times> nat) list \<Rightarrow> bool" where
  "extends n s s' \<longleftrightarrow> map_of (fst s) \<subseteq>\<^sub>m map_of (fst s') \<and> wfTiles n (fst s') \<and> (\<exists>new. fst s' = fst s @ new) \<and>
     set (snd s) \<subseteq> set (snd s')"

lemma tiles_extends_refl: "wfTiles n (fst s) \<Longrightarrow> extends n s s"
  by (simp add: extends_def)

lemma tiles_extends_trans: "extends n s s' \<Longrightarrow> extends n s' s'' \<Longrightarrow> extends n s s''"
  unfolding extends_def by (auto intro: map_le_trans)

text \<open>The places whose tiles are those of the tree.\<close>

definition genuine :: "(bytes \<Rightarrow> bytes) \<Rightarrow> bytes list \<Rightarrow> tile_map \<times> (nat \<times> nat) list \<Rightarrow> bool" where
  "genuine H ls s \<longleftrightarrow> (\<forall>k \<in> set (snd s). map_of (fst s) k = Some (treeTile H ls k))"

definition tileInputs :: "(bytes \<Rightarrow> bytes) \<Rightarrow> bytes list \<Rightarrow> tile_map \<Rightarrow> bytes set" where
  "tileInputs H ls tiles = (\<Union>k \<in> dom (map_of tiles). nodeInputs H (tileOf tiles k) \<union> nodeInputs H (treeTile H ls k))"

lemma tileInputs_mono: "map_of tiles \<subseteq>\<^sub>m map_of tiles' \<Longrightarrow> tileInputs H ls tiles \<subseteq> tileInputs H ls tiles'"
  unfolding tileInputs_def by (rule UN_mono) (auto simp: map_le_def tileOf_def dom_def)

lemma treeTile_parent:
  assumes "tileWidth (length ls) k = 256"
  shows "snd k mod 256 < tileWidth (length ls) (Suc (fst k), snd k div 256) \<and>
    treeTile H ls (Suc (fst k), snd k div 256) ! (snd k mod 256) = treeHash (nodeHash H) (treeTile H ls k)"
proof -
  let ?nd = "nodeHash H" and ?i = "snd k" and ?l = "fst k"
  let ?Y = "levels ?nd (8 * ?l) ls"
  have full: "256 * ?i + 256 \<le> length ls div 256 ^ ?l" using assms by (simp add: tileWidth_def min_def split: if_splits)
  have len: "length ls div 256 ^ ?l \<le> length ?Y" using length_levels_ge [of ls "8 * ?l" ?nd] by (simp add: power_256)
  have "Suc ?i = (256 * ?i + 256) div 256" by simp
  also have "\<dots> \<le> length ls div 256 ^ Suc ?l" unfolding power_Suc2 div_mult2_eq by (rule div_le_mono [OF full])
  finally have up: "?i < length ls div 256 ^ Suc ?l" by simp
  moreover have i: "256 * (?i div 256) + ?i mod 256 = ?i" by simp
  ultimately have "?i mod 256 < length ls div 256 ^ Suc ?l - 256 * (?i div 256)" by linarith
  then have width: "?i mod 256 < tileWidth (length ls) (Suc ?l, ?i div 256)"
    by (simp add: tileWidth_def del: power_Suc)
  have "treeTile H ls (Suc ?l, ?i div 256) ! (?i mod 256) = levels ?nd (8 * Suc ?l) ls ! ?i"
  proof -
    have "?i < length (levels ?nd (8 * Suc ?l) ls)"
      using up length_levels_ge [of ls "8 * Suc ?l" ?nd] unfolding power_256 by linarith
    then show ?thesis using width i by (simp add: treeTile_def)
  qed
  also have "\<dots> = levels ?nd 8 ?Y ! ?i" using levels_add [of ?nd 8 "8 * ?l" ls] by simp
  also have "\<dots> = treeHash ?nd (take 256 (drop (256 * ?i) ?Y))"
  proof -
    have le: "2 ^ 8 * ?i + 2 ^ 8 \<le> length ?Y" using full len by simp
    have whole: "2 ^ 8 dvd length (take (2 ^ 8 * ?i) ?Y)" using le by (simp add: min_def)
    have "length (take (2 ^ 8) (drop (2 ^ 8 * ?i) ?Y)) = 2 ^ 8" using le by (simp add: min_def) linarith
    then have chunk: "2 ^ 8 dvd length (take (2 ^ 8) (drop (2 ^ 8 * ?i) ?Y))" by simp
    let ?A = "take (2 ^ 8 * ?i) ?Y" and ?B = "take (2 ^ 8) (drop (2 ^ 8 * ?i) ?Y)" and ?C = "drop (2 ^ 8 * ?i + 2 ^ 8) ?Y"
    have Y: "?Y = ?A @ ?B @ ?C" by (metis append_assoc append_take_drop_id take_add)
    have "levels ?nd 8 (?A @ ?B @ ?C) = levels ?nd 8 ?A @ levels ?nd 8 ?B @ levels ?nd 8 ?C"
      by (subst levels_append, rule whole, subst levels_append, rule chunk, rule refl)
    moreover have "levels ?nd 8 ?B = [treeHash ?nd ?B]" by (rule levels_single) (use le in auto)
    moreover have "length (levels ?nd 8 ?A) = ?i"
      using levels_take [of 8 ?i ?Y ?nd] le length_levels_ge [of ?Y 8 ?nd] by simp
    ultimately have "levels ?nd 8 (?A @ ?B @ ?C) ! ?i = treeHash ?nd ?B" by (simp add: nth_append)
    then show ?thesis unfolding Y [symmetric] by simp
  qed
  also have "take 256 (drop (256 * ?i) ?Y) = treeTile H ls k" using assms by (simp add: treeTile_def)
  finally show ?thesis using width by simp
qed

lemma authenticate_genuine:
  assumes H: "\<And>x. length (H x) = 32" and ls: "\<forall>x \<in> set ls. length x = 32" and n: "n = length ls"
  shows "authenticate fuel H (getTile read prefix n) k s = Some (Inr s') \<Longrightarrow> wfTiles n (fst s) \<Longrightarrow>
    k \<in> dom (map_of (fst s)) \<Longrightarrow> genuine H ls s \<Longrightarrow> inj_on H (tileInputs H ls (fst s')) \<Longrightarrow>
    extends n s s' \<and> k \<in> set (snd s') \<and> genuine H ls s'"
proof (induction fuel arbitrary: k s s')
  case (Suc fuel k s s')
  show ?case
  proof (cases "k \<in> set (snd s)")
    case True
    then show ?thesis using Suc.prems by (simp add: tiles_extends_refl)
  next
    case False
    let ?up = "(Suc (fst k), snd k div 256)"
    from Suc.prems(1) False obtain parent tiles s1 where get: "getTile read prefix n ?up (fst s) = Inr (parent, tiles)"
      and rec: "authenticate fuel H (getTile read prefix n) ?up (tiles, snd s) = Some (Inr s1)"
      and checks: "length (the (map_of (fst s1) k)) = 256" "snd k mod 256 < length parent"
        "foldTile H (the (map_of (fst s1) k)) None = parent ! (snd k mod 256)" "s' = (fst s1, k # snd s1)"
      by (auto simp: Let_def split: sum.splits option.splits if_splits)
    note g = getTile_Inr [OF get Suc.prems(2)]
    have IH: "extends n (tiles, snd s) s1 \<and> ?up \<in> set (snd s1) \<and> genuine H ls s1"
    proof (rule Suc.IH [OF rec])
      show "genuine H ls (tiles, snd s)"
        using Suc.prems(4) g(2) by (auto simp: genuine_def map_le_def dom_def)
    qed (use g Suc.prems(5) checks(4) in auto)
    then have parent: "parent = treeTile H ls ?up"
      using g(1) by (auto simp: genuine_def extends_def map_le_def dom_def)
    obtain hs where hs: "map_of (fst s) k = Some hs" using Suc.prems(3) by auto
    have mono: "map_of (fst s) \<subseteq>\<^sub>m map_of (fst s1)"
      using IH g(2) unfolding extends_def by (auto intro: map_le_trans)
    then have hs1: "map_of (fst s1) k = Some hs" using hs by (rule map_leD)
    have wf: "length hs = tileWidth n k" "\<forall>h \<in> set hs. length h = 32"
      using wfTilesD [OF Suc.prems(2) hs] by auto
    have len: "length hs = 256" using checks(1) hs1 by simp
    have "hs = treeTile H ls k"
    proof (rule treeHash_inj [OF H])
      show "treeHash (nodeHash H) hs = treeHash (nodeHash H) (treeTile H ls k)"
        using checks(3) hs1 parent treeTile_parent [of ls k H] wf(1) len n foldTile_treeHash [of hs H None] by force
      show "inj_on H (nodeInputs H hs \<union> nodeInputs H (treeTile H ls k))"
        by (rule inj_on_subset [OF Suc.prems(5)]) (use hs1 checks(4) in \<open>auto simp: tileInputs_def tileOf_def\<close>)
      show "\<forall>x \<in> set hs \<union> set (treeTile H ls k). length x = 32"
        using wf(2) treeTile_hashes [where H = H and ls = ls and k = k, OF H ls] by auto
    qed (use len wf(1) n length_treeTile in auto)
    then have "genuine H ls s'" using IH hs1 checks(4) by (auto simp: genuine_def)
    moreover have "extends n s s'"
      using IH g(4) mono checks(4) unfolding extends_def by auto
    ultimately show ?thesis using checks(4) by simp
  qed
qed simp

lemma authenticate_extends:
  "authenticate fuel H (getTile read prefix n) k s = Some (Inr s') \<Longrightarrow> wfTiles n (fst s) \<Longrightarrow> extends n s s'"
proof (induction fuel arbitrary: k s s')
  case (Suc fuel k s s')
  show ?case
  proof (cases "k \<in> set (snd s)")
    case False
    from Suc.prems(1) False obtain parent tiles s1
      where get: "getTile read prefix n (Suc (fst k), snd k div 256) (fst s) = Inr (parent, tiles)"
      and rec: "authenticate fuel H (getTile read prefix n) (Suc (fst k), snd k div 256) (tiles, snd s) = Some (Inr s1)"
      and s': "s' = (fst s1, k # snd s1)"
      by (auto simp: Let_def split: sum.splits option.splits if_splits)
    note g = getTile_Inr [OF get Suc.prems(2)]
    have "extends n (tiles, snd s) s1" by (rule Suc.IH [OF rec]) (simp add: g(3))
    moreover have "extends n s (tiles, snd s)" using g(2-4) by (simp add: extends_def)
    ultimately have "extends n s s1" by (rule tiles_extends_trans [rotated])
    then show ?thesis using s' by (auto simp: extends_def)
  qed (use Suc.prems in \<open>simp add: tiles_extends_refl\<close>)
qed simp

lemma authLoop_extends:
  "authLoop fuel H (getTile read prefix n) i s = Some (Inr s') \<Longrightarrow> wfTiles n (fst s) \<Longrightarrow> extends n s s'"
proof (induction fuel arbitrary: i s s')
  case (Suc fuel i s s')
  show ?case
  proof (cases "length (fst s) \<le> i")
    case False
    from Suc.prems(1) False obtain s1 where step: "authenticate 64 H (getTile read prefix n) (fst (fst s ! i)) s = Some (Inr s1)"
      and rest: "authLoop fuel H (getTile read prefix n) (Suc i) s1 = Some (Inr s')"
      by (auto split: sum.splits option.splits)
    have "extends n s s1" by (rule authenticate_extends [OF step Suc.prems(2)])
    moreover from this have "wfTiles n (fst s1)" by (simp add: extends_def)
    ultimately show ?thesis using Suc.IH [OF rest] tiles_extends_trans by blast
  qed (use Suc.prems in \<open>simp add: tiles_extends_refl\<close>)
qed simp

lemma authLoop_genuine:
  assumes H: "\<And>x. length (H x) = 32" and ls: "\<forall>x \<in> set ls. length x = 32" and n: "n = length ls"
  shows "authLoop fuel H (getTile read prefix n) i s = Some (Inr s') \<Longrightarrow> wfTiles n (fst s) \<Longrightarrow> genuine H ls s \<Longrightarrow>
    inj_on H (tileInputs H ls (fst s')) \<Longrightarrow> fst ` set (take i (fst s)) \<subseteq> set (snd s) \<Longrightarrow>
    extends n s s' \<and> genuine H ls s' \<and> dom (map_of (fst s')) \<subseteq> set (snd s')"
proof (induction fuel arbitrary: i s s')
  case (Suc fuel i s s')
  show ?case
  proof (cases "length (fst s) \<le> i")
    case True
    then show ?thesis using Suc.prems by (auto simp: tiles_extends_refl dom_map_of_conv_image_fst)
  next
    case False
    from Suc.prems(1) False obtain s1 where step: "authenticate 64 H (getTile read prefix n) (fst (fst s ! i)) s = Some (Inr s1)"
      and rest: "authLoop fuel H (getTile read prefix n) (Suc i) s1 = Some (Inr s')"
      by (auto split: sum.splits option.splits)
    have e1: "extends n s s1" by (rule authenticate_extends [OF step Suc.prems(2)])
    then have wf1: "wfTiles n (fst s1)" by (simp add: extends_def)
    have e2: "extends n s1 s'" by (rule authLoop_extends [OF rest wf1])
    have mem: "fst s ! i \<in> set (fst s)" using False by simp
    then have key: "fst (fst s ! i) \<in> dom (map_of (fst s))" by (auto simp: dom_map_of_conv_image_fst)
    have inj1: "inj_on H (tileInputs H ls (fst s1))"
      by (rule inj_on_subset [OF Suc.prems(4)]) (use e2 in \<open>auto simp: extends_def dest: tileInputs_mono\<close>)
    have s1: "fst (fst s ! i) \<in> set (snd s1)" "genuine H ls s1"
      using authenticate_genuine [where H = H, OF H ls n step Suc.prems(2) key Suc.prems(3) inj1] by auto
    have "take (Suc i) (fst s1) = take i (fst s) @ [fst s ! i]"
      using e1 False by (auto simp: extends_def take_Suc_conv_app_nth)
    then have "fst ` set (take (Suc i) (fst s1)) \<subseteq> set (snd s1)"
      using Suc.prems(5) s1(1) e1 by (auto simp: extends_def)
    then show ?thesis
      using Suc.IH [OF rest wf1 s1(2) Suc.prems(4)] tiles_extends_trans [OF e1] by blast
  qed
qed simp

section \<open>Correctness\<close>

text \<open>The strings hashed by a run over its tiles, and those of the tree at the same places.\<close>

definition runInputs :: "(bytes \<Rightarrow> bytes) \<Rightarrow> bytes list \<Rightarrow> tile_map \<Rightarrow> bytes set" where
  "runInputs H ls tiles = tileInputs H ls tiles \<union>
     rootInputs H (tileOf tiles) 0 (length ls) None \<union> rootInputs H (treeTile H ls) 0 (length ls) None"

lemma frontier_width:
  assumes "k \<in> frontier 0 m" and "m \<le> n"
  shows "0 < tileWidth n k \<and> (m = n \<longrightarrow> tileWidth n k = n div 256 ^ fst k mod 256)"
proof -
  from assms(1) obtain j where k: "k = (j, m div 256 ^ Suc j)" "m div 256 ^ j mod 256 \<noteq> 0"
    unfolding frontier_iff by auto
  let ?c = "m div 256 ^ j"
  have "m div 256 ^ Suc j = ?c div 256" unfolding power_Suc2 div_mult2_eq ..
  moreover have "256 * (?c div 256) + ?c mod 256 = ?c" by simp
  moreover have "?c \<le> n div 256 ^ j" using assms(2) by (rule div_le_mono)
  moreover have "?c mod 256 < 256" by simp
  moreover define d w where "d = ?c div 256" and "w = ?c mod 256"
  ultimately have "m div 256 ^ Suc j = d" "256 * d + w = ?c" "?c \<le> n div 256 ^ j" "w < 256" "0 < w"
    using k(2) by simp_all
  then have "0 < min 256 (n div 256 ^ j - 256 * d) \<and> (m = n \<longrightarrow> min 256 (n div 256 ^ j - 256 * d) = w)" by auto
  then show ?thesis using k \<open>m div 256 ^ Suc j = d\<close> by (auto simp: tileWidth_def w_def simp del: power_Suc)
qed

lemma tilePrefixRun_root:
  assumes H: "\<And>x. length (H x) = 32" and ls: "\<forall>x \<in> set ls. length x = 32"
    and run: "tilePrefixRun H read prefix (length ls) (treeHash (nodeHash H) ls) m = Some (Inr (r, tiles))"
    and m: "0 < m" "m \<le> length ls" and inj: "inj_on H (runInputs H ls tiles)"
  shows "r = Some (treeHash (nodeHash H) (take m ls))"
proof -
  let ?n = "length ls" and ?get = "getTile read prefix (length ls)"
  from run obtain tiles1 tiles2 s where first: "rootLoop H ?get 0 ?n None [] = Inr (Some (treeHash (nodeHash H) ls), tiles1)"
    and second: "rootLoop H ?get 0 m None tiles1 = Inr (r, tiles2)"
    and auth: "authLoop 64 H ?get 0 (tiles2, map fst tiles1) = Some (Inr s)" and s: "fst s = tiles"
    by (auto simp: tilePrefixRun_def Let_def split: sum.splits option.splits if_splits prod.splits)
  have width: "0 < tileWidth ?n k" if "k \<in> frontier 0 m' " "m' \<le> ?n" for k m'
    using frontier_width that by blast
  have one: "wfTiles ?n tiles1" "frontier 0 ?n \<subseteq> dom (map_of tiles1)"
      "Some (treeHash (nodeHash H) ls) = rootOf H (tileOf tiles1) 0 ?n None"
    using rootLoop_rootOf [OF first] width by (auto simp: wfTiles_def)
  have two: "map_of tiles1 \<subseteq>\<^sub>m map_of tiles2" "wfTiles ?n tiles2" "frontier 0 m \<subseteq> dom (map_of tiles2)"
      "r = rootOf H (tileOf tiles2) 0 m None"
    using rootLoop_rootOf [OF second one(1)] width [OF _ m(2)] by auto
  have ext: "extends ?n (tiles2, map fst tiles1) s" by (rule authLoop_extends [OF auth]) (simp add: two(2))
  have same: "tileOf tiles k = tileOf tiles' k" if "k \<in> dom (map_of tiles')" "map_of tiles' \<subseteq>\<^sub>m map_of tiles" for k tiles'
    using that by (auto simp: tileOf_def map_le_def)
  have le: "map_of tiles2 \<subseteq>\<^sub>m map_of tiles" "map_of tiles1 \<subseteq>\<^sub>m map_of tiles"
    using ext s two(1) by (auto simp: extends_def intro: map_le_trans)
  let ?t = "tileOf tiles"
  have wf: "wfTiles ?n tiles" using ext s by (simp add: extends_def)
  have whole: "?t k = treeTile H ls k" if "k \<in> frontier 0 ?n" for k
  proof -
    have root: "rootOf H ?t 0 ?n None = rootOf H (treeTile H ls) 0 ?n None"
    proof -
      have "rootOf H ?t 0 ?n None = rootOf H (tileOf tiles1) 0 ?n None"
        by (rule rootOf_cong) (use same [OF _ le(2)] one(2) in blast)
      moreover have "ls \<noteq> []" using m by auto
      ultimately show ?thesis using one(3) rootOf_treeTile [of ?n ls ?n 0 H None] by simp
    qed
    have lens: "length (?t k) = tileWidth ?n k" "\<forall>x \<in> set (?t k). length x = 32" if mem: "k \<in> frontier 0 ?n" for k
    proof -
      obtain hs where "map_of tiles1 k = Some hs" using mem one(2) by blast
      then have "map_of tiles k = Some hs" by (rule map_leD [OF le(2)])
      then show "length (?t k) = tileWidth ?n k" "\<forall>x \<in> set (?t k). length x = 32"
        using wfTilesD [OF wf] by (auto simp: tileOf_def)
    qed
    from that obtain j where j: "k = (j, ?n div 256 ^ Suc j)" "?n div 256 ^ j mod 256 \<noteq> 0"
      unfolding frontier_iff by auto
    have slices: "take (?n div 256 ^ j mod 256) (?t k) = take (?n div 256 ^ j mod 256) (treeTile H ls k)"
    proof -
      have "(None :: bytes option) = None \<and> (\<forall>j. ?n div 256 ^ j mod 256 \<noteq> 0 \<longrightarrow>
        take (?n div 256 ^ j mod 256) (?t (0 + j, ?n div 256 ^ Suc j)) =
        take (?n div 256 ^ j mod 256) (treeTile H ls (0 + j, ?n div 256 ^ Suc j)))"
      proof (rule rootOf_inj [where H = H, OF H root])
        fix k' assume k': "k' \<in> frontier 0 ?n"
        show "length (?t k') = length (treeTile H ls k') \<and> (\<forall>x \<in> set (?t k') \<union> set (treeTile H ls k'). length x = 32)"
          using lens [OF k'] length_treeTile [of H ls k'] treeTile_hashes [where H = H and k = k', OF H ls] by auto
        show "?t k' \<noteq> []" using lens(1) [OF k'] width [OF k'] by auto
      next
        show "inj_on H (rootInputs H ?t 0 ?n None \<union> rootInputs H (treeTile H ls) 0 ?n None)"
          by (rule inj_on_subset [OF inj]) (auto simp: runInputs_def)
      qed simp_all
      then show ?thesis using j by simp
    qed
    moreover have "tileWidth ?n k = ?n div 256 ^ j mod 256" using frontier_width [OF that] j by simp
    ultimately show ?thesis using lens(1) [OF that] length_treeTile [of H ls k] by simp
  qed
  have "genuine H ls (tiles2, map fst tiles1)"
    unfolding genuine_def
  proof
    fix k assume "k \<in> set (snd (tiles2, map fst tiles1))"
    then have k: "k \<in> frontier 0 ?n" using rootLoop_keys [OF first] by auto
    then obtain hs where "map_of tiles1 k = Some hs" using one(2) by auto
    then have "map_of tiles2 k = Some hs" "?t k = hs"
      using map_leD [OF two(1)] map_leD [OF le(2)] by (simp_all add: tileOf_def)
    then show "map_of (fst (tiles2, map fst tiles1)) k = Some (treeTile H ls k)" using whole [OF k] by simp
  qed
  moreover have "inj_on H (tileInputs H ls (fst s))"
    by (rule inj_on_subset [OF inj]) (auto simp: runInputs_def s)
  ultimately have "genuine H ls s" "dom (map_of (fst s)) \<subseteq> set (snd s)"
    using authLoop_genuine [where H = H, OF H ls refl auth] two(2) by auto
  then have all: "?t k = treeTile H ls k" if "k \<in> dom (map_of tiles)" for k
    using that s by (auto simp: genuine_def tileOf_def)
  have "r = rootOf H (treeTile H ls) 0 m None"
    unfolding two(4)
  proof (rule rootOf_cong)
    fix k assume "k \<in> frontier 0 m"
    then have k: "k \<in> dom (map_of tiles2)" using two(3) by auto
    then show "tileOf tiles2 k = treeTile H ls k"
      using same [OF k le(1)] all [of k] map_leD [OF le(1), of k] by auto
  qed
  then show ?thesis using rootOf_treeTile [OF m, of m 0 H None] by simp
qed

lemma tilePrefixRoot_MTH:
  assumes "\<forall>x. length (H x) = 32"
    and "tilePrefixRun H read prefix (length entries) (MTH H entries) m = Some (Inr (r, tiles))"
    and "0 < m" and "m \<le> length entries"
    and "inj_on H (runInputs H (map (leafHash H) entries) tiles)"
  shows "authenticatedTilePrefixRoot H read prefix (length entries) (MTH H entries) m =
    Some (Inr (Some (MTH H (take m entries))))"
proof -
  let ?ls = "map (leafHash H) entries"
  have H: "\<And>x. length (H x) = 32" using assms(1) by simp
  have "MTH H entries = treeHash (nodeHash H) ?ls" "MTH H (take m entries) = treeHash (nodeHash H) (take m ?ls)"
    using assms(3,4) by (auto simp: MTH_def take_map)
  moreover have "r = Some (treeHash (nodeHash H) (take m ?ls))"
    by (rule tilePrefixRun_root [where H = H and ls = ?ls and tiles = tiles, OF H])
      (use assms calculation in \<open>auto simp: leafHash_eq\<close>)
  ultimately show ?thesis using assms(2) by (simp add: authenticatedTilePrefixRoot_def)
qed

text \<open>
  C7. Hash tiles: when the tiles read for a candidate checkpoint reproduce its root and all authenticate
  against it, the function returns the root of the prefix it was asked for, whatever the reader
  has answered. SHA-256 is assumed to have 32-byte outputs and no collision among the strings that the
  run and the honest tree hash at the places of the tiles.
\<close>

theorem authenticatedTilePrefixRoot_sound:
  assumes "\<forall>x. length (H x) = 32"
    and "tilePrefixRun H read prefix (length entries) (MTH H entries) m = Some (Inr (r, tiles))"
    and "0 < m" and "m \<le> length entries"
    and "inj_on H (runInputs H (map (leafHash H) entries) tiles)"
  shows "authenticatedTilePrefixRoot H read prefix (length entries) (MTH H entries) m =
    Some (Inr (Some (MTH H (take m entries))))"
  by (rule tilePrefixRoot_MTH [OF assms])

section \<open>Termination\<close>

text \<open>The places a run can reach: the frontiers of the two sizes up to the top level.\<close>

definition reachable :: "nat \<Rightarrow> nat \<Rightarrow> nat \<Rightarrow> (nat \<times> nat) set" where
  "reachable h n m = (\<lambda>l. (l, n div 256 ^ Suc l)) ` {..h} \<union> (\<lambda>l. (l, m div 256 ^ Suc l)) ` {..h}"

lemma reachable_up:
  assumes "k \<in> reachable h n m" and "fst k < h"
  shows "(Suc (fst k), snd k div 256) \<in> reachable h n m"
proof -
  have "x div 256 ^ Suc l div 256 = x div 256 ^ Suc (Suc l)" for x l :: nat
    unfolding power_Suc2 [of _ "Suc l"] div_mult2_eq ..
  then show ?thesis using assms by (auto simp: reachable_def simp del: power_Suc)
qed

lemma reachable_top:
  assumes "k \<in> reachable h n m" and "n < 256 ^ Suc h" and "m \<le> n"
  shows "fst k \<le> h \<and> (fst k = h \<longrightarrow> k = (h, 0))"
  using assms by (auto simp: reachable_def simp del: power_Suc)

lemma card_reachable: "card (reachable h n m) \<le> 2 * Suc h"
proof -
  have "card ((\<lambda>l. (l, x div 256 ^ Suc l)) ` {..h}) \<le> Suc h" for x :: nat
    using card_image_le [of "{..h}" "\<lambda>l. (l, x div 256 ^ Suc l)"] by simp
  from add_mono [OF this [of n] this [of m]] show ?thesis
    unfolding reachable_def mult_2 by (rule order_trans [OF card_Un_le])
qed

definition placed :: "nat \<Rightarrow> nat \<Rightarrow> nat \<Rightarrow> tile_map \<times> (nat \<times> nat) list \<Rightarrow> bool" where
  "placed h n m s \<longleftrightarrow> distinct (map fst (fst s)) \<and> fst ` set (fst s) \<subseteq> reachable h n m \<and> (h, 0) \<in> set (snd s)"

lemma getTile_distinct:
  "getTile read prefix n k tiles = Inr (hs, tiles') \<Longrightarrow> distinct (map fst tiles) \<Longrightarrow> distinct (map fst tiles')"
  by (auto simp: getTile_def bindE_eq_Inr Let_def map_of_eq_None_iff split: option.splits if_splits)

lemma rootLoop_distinct:
  "rootLoop H (getTile read prefix n) l c s tiles = Inr (r, tiles') \<Longrightarrow> distinct (map fst tiles) \<Longrightarrow> distinct (map fst tiles')"
proof (induction c arbitrary: l s tiles rule: less_induct)
  case (less c l s tiles)
  consider "c = 0" | "c \<noteq> 0" "c mod 256 = 0" | "c \<noteq> 0" "c mod 256 \<noteq> 0" by blast
  then show ?case
  proof cases
    case 2
    then show ?thesis using less.prems less.IH [of "c div 256"] by (auto simp: rootLoop.simps [of _ _ l c])
  next
    case 3
    then show ?thesis
      using less.prems less.IH [of "c div 256"] getTile_distinct
      by (auto simp: rootLoop.simps [of _ _ l c] bindE_eq_Inr)
  qed (use less.prems in \<open>simp add: rootLoop.simps\<close>)
qed

lemma authenticate_total:
  assumes "n < 256 ^ Suc h" and "m \<le> n"
  shows "h < fuel + fst k \<Longrightarrow> k \<in> reachable h n m \<Longrightarrow> placed h n m s \<Longrightarrow>
    authenticate fuel H (getTile read prefix n) k s \<noteq> None \<and>
    (\<forall>s'. authenticate fuel H (getTile read prefix n) k s = Some (Inr s') \<longrightarrow> placed h n m s' \<and> length (fst s) \<le> length (fst s'))"
proof (induction fuel arbitrary: k s)
  case 0
  then show ?case using reachable_top [OF _ assms] by fastforce
next
  case (Suc fuel k s)
  let ?up = "(Suc (fst k), snd k div 256)" and ?get = "getTile read prefix n"
  show ?case
  proof (cases "k \<in> set (snd s)")
    case False
    then have below: "fst k < h" using reachable_top [OF Suc.prems(2) assms] Suc.prems(3) by (fastforce simp: placed_def)
    note up = reachable_up [OF Suc.prems(2) below]
    show ?thesis
    proof (cases "?get ?up (fst s)")
      case (Inr p)
      obtain parent tiles where p: "p = (parent, tiles)" by force
      have "placed h n m (tiles, snd s)"
        using Suc.prems(3) getTile_keys [OF Inr [unfolded p]] getTile_distinct [OF Inr [unfolded p]] up
        by (auto simp: placed_def)
      then have "authenticate fuel H ?get ?up (tiles, snd s) \<noteq> None \<and>
          (\<forall>s'. authenticate fuel H ?get ?up (tiles, snd s) = Some (Inr s') \<longrightarrow> placed h n m s' \<and> length tiles \<le> length (fst s'))"
        using Suc.IH [OF _ up, of "(tiles, snd s)"] Suc.prems(1) by simp
      moreover have "length (fst s) \<le> length tiles"
        using Inr p by (auto simp: getTile_def bindE_eq_Inr Let_def split: option.splits if_splits)
      ultimately show ?thesis
        using False Inr p by (auto simp: Let_def placed_def split: option.splits sum.splits)
    qed (use False in simp)
  qed (use Suc.prems in simp)
qed

lemma authLoop_total:
  assumes "n < 256 ^ Suc h" and "m \<le> n" and "h < 64"
  shows "2 * Suc h < fuel + i \<Longrightarrow> i \<le> length (fst s) \<Longrightarrow> placed h n m s \<Longrightarrow>
    authLoop fuel H (getTile read prefix n) i s \<noteq> None"
proof (induction fuel arbitrary: i s)
  case 0
  have "length (fst s) = card (fst ` set (fst s))"
    using 0(3) by (metis distinct_card length_map placed_def set_map)
  also have "\<dots> \<le> card (reachable h n m)"
    using 0(3) by (intro card_mono) (auto simp: placed_def reachable_def)
  finally show ?case using 0 card_reachable [of h n m] by simp
next
  case (Suc fuel i s)
  show ?case
  proof (cases "length (fst s) \<le> i")
    case False
    then have key: "fst (fst s ! i) \<in> reachable h n m" using Suc.prems(3) by (auto simp: placed_def)
    have step: "authenticate 64 H (getTile read prefix n) (fst (fst s ! i)) s \<noteq> None \<and>
      (\<forall>s'. authenticate 64 H (getTile read prefix n) (fst (fst s ! i)) s = Some (Inr s') \<longrightarrow> placed h n m s' \<and> length (fst s) \<le> length (fst s'))"
      by (rule authenticate_total [OF assms(1,2) _ key Suc.prems(3)]) (use assms(3) in simp)
    then show ?thesis
      using False Suc.IH [of "Suc i"] Suc.prems(1) by (auto split: option.splits sum.splits)
  qed simp
qed

lemma frontier_reachable:
  assumes "x \<le> n" and "n < 256 ^ Suc h" and "x = n \<or> x = m"
  shows "frontier 0 x \<subseteq> reachable h n m"
proof
  fix k assume "k \<in> frontier 0 x"
  then obtain j where k: "k = (j, x div 256 ^ Suc j)" "x div 256 ^ j mod 256 \<noteq> 0" unfolding frontier_iff by auto
  then have "256 ^ j \<le> x" by (metis div_less mod_0 not_le_imp_less)
  then have "(256 :: nat) ^ j < 256 ^ Suc h" using assms(1,2) by linarith
  then have "j < Suc h" by (rule power_less_imp_less_exp [rotated]) simp
  then show "k \<in> reachable h n m" using k assms(3) by (auto simp: reachable_def simp del: power_Suc)
qed

lemma frontier_top:
  assumes "256 ^ h \<le> n" and "n < 256 ^ Suc h"
  shows "(h, 0) \<in> frontier 0 n"
proof -
  have "0 < n div 256 ^ h" using assms(1) by (simp add: div_greater_zero_iff)
  moreover have "n div 256 ^ h < 256" using assms(2) by (simp add: less_mult_imp_div_less)
  ultimately have "n div 256 ^ h mod 256 \<noteq> 0" by simp
  then show ?thesis using assms(2) unfolding frontier_iff by (auto simp del: power_Suc)
qed

text \<open>The state in which the loop over the tiles starts.\<close>

lemma roots_placed:
  assumes "256 ^ h \<le> n" and "n < 256 ^ Suc h" and "m \<le> n"
    and first: "rootLoop H (getTile read prefix n) 0 n None [] = Inr (r1, tiles1)"
    and second: "rootLoop H (getTile read prefix n) 0 m None tiles1 = Inr (r2, tiles2)"
  shows "placed h n m (tiles2, map fst tiles1)"
  unfolding placed_def
proof (intro conjI)
  have "wfTiles n []" by (simp add: wfTiles_def)
  moreover have "0 < tileWidth n k" if "k \<in> frontier 0 n" for k using frontier_width [OF that] by blast
  ultimately have "frontier 0 n \<subseteq> dom (map_of tiles1)" using rootLoop_rootOf [OF first] by blast
  then show "(h, 0) \<in> set (snd (tiles2, map fst tiles1))"
    using frontier_top [OF assms(1,2)] by (force simp: dom_map_of_conv_image_fst)
  show "distinct (map fst (fst (tiles2, map fst tiles1)))"
    using rootLoop_distinct [OF first] rootLoop_distinct [OF second] by simp
  have "fst ` set tiles1 \<subseteq> frontier 0 n" using rootLoop_keys [OF first] by simp
  moreover have "frontier 0 n \<subseteq> reachable h n m" "frontier 0 m \<subseteq> reachable h n m"
    using frontier_reachable assms(2,3) by blast+
  ultimately show "fst ` set (fst (tiles2, map fst tiles1)) \<subseteq> reachable h n m"
    using rootLoop_keys [OF second] unfolding fst_conv by blast
qed

lemma tilePrefixRoot_total:
  assumes "0 < m" and "m \<le> n" and "int n \<le> MAX_SAFE"
  shows "\<exists>result. authenticatedTilePrefixRoot H read prefix n rootHash m = Some result"
proof -
  let ?get = "getTile read prefix n"
  have "1 \<le> n" using assms by simp
  from ex_power_ivl1 [of 256, OF _ this] obtain h where h: "256 ^ h \<le> n" "n < 256 ^ Suc h" by auto
  have "n < 2 ^ 53" using assms(3) by (simp add: MAX_SAFE_def)
  then have "(256 :: nat) ^ h < 256 ^ 7" using h(1) by simp
  then have small: "h < 7" by (rule power_less_imp_less_exp [rotated]) simp
  have "tilePrefixRun H read prefix n rootHash m \<noteq> None"
  proof
    assume none: "tilePrefixRun H read prefix n rootHash m = None"
    then obtain r1 tiles1 r2 tiles2 where first: "rootLoop H ?get 0 n None [] = Inr (r1, tiles1)"
      and second: "rootLoop H ?get 0 m None tiles1 = Inr (r2, tiles2)"
      and auth: "authLoop 64 H ?get 0 (tiles2, map fst tiles1) = None"
      by (auto simp: tilePrefixRun_def Let_def split: sum.splits option.splits if_splits prod.splits)
    have "authLoop 64 H ?get 0 (tiles2, map fst tiles1) \<noteq> None"
      using roots_placed [OF h assms(2) first second] by (intro authLoop_total [OF h(2) assms(2)]) (use small in auto)
    then show False using auth by simp
  qed
  then show ?thesis by (auto simp: authenticatedTilePrefixRoot_def)
qed

text \<open>
  C8. The computation ends: for tree sizes that JavaScript represents exactly, no answer of the reader
  makes the climb to authenticated parents or the loop over the growing map of tiles run on.
\<close>

theorem authenticatedTilePrefixRoot_returns:
  assumes "0 < m" and "m \<le> n" and "int n \<le> MAX_SAFE"
  shows "\<exists>result. authenticatedTilePrefixRoot H read prefix n rootHash m = Some result"
  by (rule tilePrefixRoot_total [OF assms])

text \<open>A log of two entries, whose reader serves the tile of the two leaf hashes.\<close>

definition twoTile :: "bytes list" where
  "twoTile = [leafHash toyHash [10], leafHash toyHash [20]]"

definition twoReader :: "jstring \<Rightarrow> nat \<Rightarrow> js_error + bytes" where
  "twoReader url maximum = Inr (concat twoTile)"

lemma authLoop_single:
  "k \<in> set auths \<Longrightarrow> authLoop 64 H get 0 ([(k, hs)], auths) = Some (Inr ([(k, hs)], auths))"
proof -
  have fuel: "(64 :: nat) = Suc (Suc 62)" by simp
  assume "k \<in> set auths"
  then have "authenticate 64 H get k ([(k, hs)], auths) = Some (Inr ([(k, hs)], auths))"
    unfolding fuel by (simp only: authenticate.simps snd_conv if_True)
  then have "authLoop (Suc (Suc 62)) H get 0 ([(k, hs)], auths) = Some (Inr ([(k, hs)], auths))"
    by (simp del: Suc_numeral)
  then show ?thesis by simp
qed

lemma twoTile_run:
  "tilePrefixRun toyHash twoReader [] 2 (MTH toyHash [[10], [20]]) 1 =
     Some (Inr (Some (leafHash toyHash [10]), [((0, 0), twoTile)]))"
proof -
  have path: "\<exists>url. tilePath [] 0 0 (Some 2) = Inr url"
    by (simp add: tilePath_def tileN_def MAX_SAFE_def bindE_def Let_def)
  have "getTile twoReader [] 2 (0, 0) [] = Inr (twoTile, [((0, 0), twoTile)])"
    using path by (auto simp: getTile_def readTile_def tileWidth_def twoReader_def bindE_def catchE_def
        twoTile_def leafHash_eq upt_rec Let_def)
  moreover have "getTile twoReader [] 2 (0, 0) [((0, 0), twoTile)] = Inr (twoTile, [((0, 0), twoTile)])"
    by (simp add: getTile_def)
  moreover have "foldTile toyHash twoTile None = MTH toyHash [[10], [20]]" "length twoTile = 2"
      "foldTile toyHash (take 1 twoTile) None = leafHash toyHash [10]"
    by (simp_all add: foldTile_treeHash twoTile_def MTH_def)
  ultimately show ?thesis
    by (simp add: tilePrefixRun_def rootLoop.simps [of _ _ 0] rootLoop.simps [of _ _ "Suc 0"] bindE_def
        take_all authLoop_single)
qed

lemma twoTile_tree: "treeTile toyHash twoTile (0, 0) = twoTile"
  by (simp add: treeTile_def twoTile_def tileWidth_def)

theorem authenticatedTilePrefixRoot_sound_witness:
  "authenticatedTilePrefixRoot toyHash twoReader [] (length [[10], [20] :: bytes]) (MTH toyHash [[10], [20]]) 1 =
     Some (Inr (Some (MTH toyHash (take 1 [[10], [20]]))))"
proof (rule authenticatedTilePrefixRoot_sound)
  show "tilePrefixRun toyHash twoReader [] (length [[10], [20] :: bytes]) (MTH toyHash [[10], [20]]) 1 =
      Some (Inr (Some (leafHash toyHash [10]), [((0, 0), twoTile)]))"
    using twoTile_run by (simp add: numeral_2_eq_2)
  have "tileOf [((0, 0), twoTile)] (0, 0) = twoTile" by (simp add: tileOf_def)
  moreover have "map (leafHash toyHash) [[10], [20]] = twoTile" by (simp add: twoTile_def)
  moreover have "nodeInputs toyHash twoTile = {1 # leafHash toyHash [10] @ leafHash toyHash [20]}" "length twoTile = 2"
    by (simp_all add: twoTile_def nodeInputs.simps)
  ultimately show "inj_on toyHash (runInputs toyHash (map (leafHash toyHash) [[10], [20]]) [((0, 0), twoTile)])"
    by (simp add: runInputs_def tileInputs_def twoTile_tree rootInputs.simps [of _ _ 0]
        rootInputs.simps [of _ _ "Suc 0"] take_all)
qed simp_all

theorem authenticatedTilePrefixRoot_returns_witness:
  "\<exists>result. authenticatedTilePrefixRoot toyHash twoReader [] 300 [] 256 = Some result"
  by (rule authenticatedTilePrefixRoot_returns) (simp_all add: MAX_SAFE_def)

end
