(* ===== verification/TileAdvance.thy ===== *)
theory TileAdvance
  imports CheckpointTrust HashTiles
begin

text \<open>
  The advance of a trusted checkpoint with the hash tiles of a network reader: \<open>consistencyRoot\<close> of
  \<open>log-c2sp-tlog/src/stream-source.ts\<close>, which supplies the tile evidence of \<open>checkpoint-trust.ts\<close> from
  \<open>hash-tiles.ts\<close>, and what an accepted advance shows with every kind of evidence.
\<close>

text \<open>
  The function returns \<open>undefined\<close> for an empty prefix, which the comparison of roots rejects. Its
  computation ends for the sizes of checkpoints (\<open>consistencyRoot_total\<close>), so the case without a result does
  not occur.
\<close>

definition consistencyRoot ::
    "(bytes \<Rightarrow> bytes) \<Rightarrow> (jstring \<Rightarrow> nat \<Rightarrow> js_error + bytes) \<Rightarrow> int \<Rightarrow> jstring \<Rightarrow> TrustedC2spCheckpoint \<Rightarrow> int \<Rightarrow> js_error + bytes" where
  "consistencyRoot H read maxTreeSize url candidate trustedSize =
     (if tc_treeSize candidate > maxTreeSize
        then Inl (c2spVerificationError ''checkpoint tree size exceeds configured maximum'' INVALID_EVIDENCE)
      else case authenticatedTilePrefixRoot H read url (nat (tc_treeSize candidate)) (tc_rootHash candidate) (nat trustedSize) of
        Some (Inr (Some r)) \<Rightarrow> Inr r
      | Some (Inr None) \<Rightarrow> Inl (JsTypeError ''undefined root'')
      | Some (Inl e) \<Rightarrow> Inl e
      | None \<Rightarrow> Inl (JsRangeError ''no result''))"

lemma consistencyRoot_total:
  assumes "0 < trustedSize" and "trustedSize \<le> tc_treeSize candidate" and "tc_treeSize candidate \<le> MAX_SAFE"
  shows "authenticatedTilePrefixRoot H read url (nat (tc_treeSize candidate)) (tc_rootHash candidate) (nat trustedSize) \<noteq> None"
  using tilePrefixRoot_total [of "nat trustedSize" "nat (tc_treeSize candidate)"] assms by fastforce

text \<open>The strings hashed by the run over the tiles, and by the honest tree at their places.\<close>

definition tileRunInputs :: "(bytes \<Rightarrow> bytes) \<Rightarrow> (jstring \<Rightarrow> nat \<Rightarrow> js_error + bytes) \<Rightarrow> jstring \<Rightarrow> bytes list \<Rightarrow> nat \<Rightarrow> bytes set" where
  "tileRunInputs H read url new m =
     (case tilePrefixRun H read url (length new) (MTH H new) m of
        Some (Inr (_, tiles)) \<Rightarrow> runInputs H (map (leafHash H) new) tiles
      | _ \<Rightarrow> {})"

lemma consistencyRoot_MTH:
  assumes "\<forall>x. length (H x) = 32" and "consistencyRoot H read maxTreeSize url candidate (int m) = Inr r"
    and "tc_treeSize candidate = int (length new)" and "tc_rootHash candidate = MTH H new" and "0 < m" and "m \<le> length new"
    and "inj_on H (tileRunInputs H read url new m)"
  shows "r = MTH H (take m new)"
proof -
  from assms(2-4) obtain tiles where run: "tilePrefixRun H read url (length new) (MTH H new) m = Some (Inr (Some r, tiles))"
    by (cases "tilePrefixRun H read url (length new) (MTH H new) m"; cases "the (tilePrefixRun H read url (length new) (MTH H new) m)")
      (auto simp: consistencyRoot_def authenticatedTilePrefixRoot_def split: if_splits option.splits)
  have "inj_on H (runInputs H (map (leafHash H) new) tiles)" using assms(7) by (simp add: tileRunInputs_def run)
  from tilePrefixRoot_MTH [OF assms(1) run assms(5,6) this] show ?thesis by (simp add: authenticatedTilePrefixRoot_def run)
qed

text \<open>
  C6. A verified advance is append-only. If the trusted checkpoint and the candidate carry the roots of
  two logs of their sizes and \<open>verifyCheckpointAdvance\<close> accepts, the old log is a prefix of the new one,
  whichever evidence was used: a complete scan, a consistency proof, or the hash tiles that a network reader
  authenticates, whatever the server of the tiles answers in any attempt. SHA-256 is assumed to have 32-byte
  outputs and no collision among the strings that the check hashes.
\<close>

theorem verifyCheckpointAdvance_prefix:
  assumes "\<forall>x. length (H x) = 32"
    and "ao_tilePrefixRoot opts \<in> {None, Some (\<lambda>k. consistencyRoot H (read k) maxTreeSize url)}"
    and "verifyCheckpointAdvance H opts k (Some previous) candidate = Inr ()"
    and "tc_treeSize previous = int (length old)" and "tc_rootHash previous = MTH H old"
    and "tc_treeSize candidate = int (length new)" and "tc_rootHash candidate = MTH H new"
    and "inj_on H (advanceInputs H opts k old new \<union> tileRunInputs H (read k) url new (length old))"
  shows "prefix old new"
proof (cases "0 < length old \<and> length old \<le> length new")
  case True
  have inj: "inj_on H (tileRunInputs H (read k) url new (length old))" "inj_on H (advanceInputs H opts k old new)"
    by (rule inj_on_subset [OF assms(8)]; blast)+
  have tiles: "r = MTH H (take (length old) new)"
    if "ao_tilePrefixRoot opts = Some f" "f k candidate (int (length old)) = Inr r" for f r
  proof (rule consistencyRoot_MTH [OF assms(1) _ assms(6,7) _ _ inj(1)])
    show "consistencyRoot H (read k) maxTreeSize url candidate (int (length old)) = Inr r" using assms(2) that by simp
  qed (use True in simp_all)
  show ?thesis by (rule checkpointAdvance_prefix [OF assms(1,3-7) tiles inj(2)])
next
  case False
  then show ?thesis using assms(3,4,6) by (auto simp: verifyCheckpointAdvance_def bindE_eq_Inr split: if_splits)
qed

section \<open>An advance with tiles\<close>

definition tileOptions :: AdvanceOptions where
  "tileOptions = \<lparr>ao_completeEntries = None, ao_consistencyProofSource = None,
     ao_tilePrefixRoot = Some (\<lambda>k. consistencyRoot toyHash twoReader 1000000 [])\<rparr>"

lemma tile_advance: "verifyCheckpointAdvance toyHash tileOptions 0 (Some oneEntry) twoEntries = Inr ()"
proof -
  have "consistencyRoot toyHash twoReader 1000000 [] twoEntries 1 = Inr (leafHash toyHash [10])"
    using twoTile_run by (simp add: consistencyRoot_def authenticatedTilePrefixRoot_def twoEntries_def)
  moreover have size: "tc_treeSize oneEntry = 1" "tc_treeSize twoEntries = 2" "tc_rootHash oneEntry = leafHash toyHash [10]"
    by (simp_all add: oneEntry_def twoEntries_def MTH_def)
  ultimately show ?thesis
    by (simp add: verifyCheckpointAdvance_def verifyGrowth_def tileOptions_def size)
qed

theorem verifyCheckpointAdvance_prefix_witness: "prefix [[10]] [[10], [20 :: byte]]"
proof (rule verifyCheckpointAdvance_prefix [OF _ _ tile_advance, where read = "\<lambda>_. twoReader" and maxTreeSize = 1000000 and url = "[]"])
  have "tileOf [((0, 0), twoTile)] (0, 0) = twoTile" by (simp add: tileOf_def)
  moreover have "map (leafHash toyHash) [[10], [20]] = twoTile" by (simp add: twoTile_def)
  moreover have "nodeInputs toyHash twoTile = {1 # leafHash toyHash [10] @ leafHash toyHash [20]}" "length twoTile = 2"
    by (simp_all add: twoTile_def nodeInputs.simps)
  ultimately have run: "tileRunInputs toyHash twoReader [] [[10], [20]] (length [[10 :: byte]]) = {1 # leafHash toyHash [10] @ leafHash toyHash [20]}"
    using twoTile_run by (simp add: tileRunInputs_def runInputs_def tileInputs_def twoTile_tree rootInputs.simps [of _ _ 0]
        rootInputs.simps [of _ _ "Suc 0"] take_all numeral_2_eq_2)
  show "inj_on toyHash (advanceInputs toyHash tileOptions 0 [[10]] [[10], [20]] \<union> tileRunInputs toyHash twoReader [] [[10], [20]] (length [[10 :: byte]]))"
    unfolding run
    by (simp add: advanceInputs_def tileOptions_def hashedInputs_def nodeInputs.simps leafHash_eq nodeHash_eq toyHash_def Let_def insert_Diff_if sum_list_replicate)
qed (simp_all add: tileOptions_def oneEntry_def twoEntries_def)

end
