(* ===== verification/Policy.thy ===== *)
theory Policy
  imports SignedNote Merkle "HOL-Library.Sublist" "HOL-Library.Multiset"
begin

text \<open>
  The local trust policy of a log (\<open>log-c2sp-tlog/src/policy.ts\<close>) and the verification of an
  inclusion proof under it (\<open>proof.ts\<close>): quorum rules over witness cosignatures, the normalization
  of a policy, its enforcement on a checkpoint, the policy file, and the tlog-proof format.
\<close>

section \<open>Rules and policies\<close>

text \<open>A key is given parsed or as text.\<close>

datatype key_ref = ParsedKey SignedNoteKey | KeyText jstring

datatype C2spTlogQuorumRule =
    RuleNone
  | RuleWitness key_ref
  | RuleThreshold int "C2spTlogQuorumRule list"

datatype NormalizedQuorumRule =
    QNone
  | QWitness SignedNoteKey
  | QThreshold nat "NormalizedQuorumRule list"

record C2spTlogOriginPolicy =
  op_logKeys :: "key_ref list"
  op_witnessKeys :: "key_ref list option"
  op_quorum :: "int option"
  op_quorumRule :: "C2spTlogQuorumRule option"
  op_unchained :: "bool option"

record C2spTlogPolicy =
  pol_scope :: "jstring option"
  pol_origins :: "(jstring \<times> C2spTlogOriginPolicy) list"

record NormalizedOriginPolicy =
  np_logKeys :: "SignedNoteKey list"
  np_witnessKeys :: "SignedNoteKey list"
  np_quorum :: nat
  np_quorumRule :: NormalizedQuorumRule
  np_unchained :: bool

record CheckpointPolicyResult =
  cr_acceptedWitnessTimestamps :: "nat list"
  cr_checkpointWitnessTime :: "date option"

definition policyError :: "string \<Rightarrow> js_error" where
  "policyError message = c2spVerificationError message INVALID_EVIDENCE"

fun asKey :: "key_ref \<Rightarrow> js_error + SignedNoteKey" where
  "asKey (ParsedKey k) = Inr k"
| "asKey (KeyText t) = parseSignedNoteVerifierKey t"

text \<open>\<open>keyIdentity\<close>: the only kind of key is Ed25519, so the bytes are the identity.\<close>

definition keyIdentity :: "SignedNoteKey \<Rightarrow> bytes" where
  "keyIdentity key = nk_keyBytes key"

definition assertDistinctUnderlyingKeys :: "SignedNoteKey list \<Rightarrow> js_error + unit" where
  "assertDistinctUnderlyingKeys keys =
     assertE (distinct (map keyIdentity keys)) (policyError ''keys must be distinct by underlying public key'')"

fun normalizeQuorumRule :: "C2spTlogQuorumRule \<Rightarrow> js_error + NormalizedQuorumRule" where
  "normalizeQuorumRule RuleNone = Inr QNone"
| "normalizeQuorumRule (RuleWitness key) = bindE (asKey key) (\<lambda>k. Inr (QWitness k))"
| "normalizeQuorumRule (RuleThreshold threshold members) =
     (if threshold > MAX_SAFE \<or> threshold < 1 \<or> threshold > int (length members)
      then Inl (policyError ''checkpoint quorum rule has an invalid threshold'')
      else bindE (mapE normalizeQuorumRule members) (\<lambda>ms. Inr (QThreshold (nat threshold) ms)))"

definition flatQuorumRule :: "SignedNoteKey list \<Rightarrow> int \<Rightarrow> C2spTlogQuorumRule" where
  "flatQuorumRule witnessKeys quorum =
     (if quorum = 0 then RuleNone
      else RuleThreshold quorum (map (\<lambda>key. RuleWitness (ParsedKey key)) witnessKeys))"

fun collectWitnessKeys :: "NormalizedQuorumRule \<Rightarrow> SignedNoteKey list" where
  "collectWitnessKeys QNone = []"
| "collectWitnessKeys (QWitness key) = [key]"
| "collectWitnessKeys (QThreshold _ members) = concat (map collectWitnessKeys members)"

fun topLevelThreshold :: "NormalizedQuorumRule \<Rightarrow> nat" where
  "topLevelThreshold QNone = 0"
| "topLevelThreshold (QWitness _) = 1"
| "topLevelThreshold (QThreshold threshold _) = threshold"

definition isLogKey :: "SignedNoteKey \<Rightarrow> bool" where
  "isLogKey key \<longleftrightarrow> nk_signatureType key = None \<or> nk_signatureType key = Some [1]"

definition isWitnessKey :: "SignedNoteKey \<Rightarrow> bool" where
  "isWitnessKey key \<longleftrightarrow> nk_signatureType key = Some [4]"

definition normalizedOriginPolicy :: "C2spTlogPolicy \<Rightarrow> jstring \<Rightarrow> js_error + NormalizedOriginPolicy" where
  "normalizedOriginPolicy policy origin =
     (case map_of (pol_origins policy) origin of
        None \<Rightarrow> Inl (policyError ''no local C2SP policy for origin'')
      | Some p \<Rightarrow>
          bindE (mapE asKey (op_logKeys p)) (\<lambda>logKeys.
          bindE (mapE asKey (case op_witnessKeys p of None \<Rightarrow> [] | Some ks \<Rightarrow> ks)) (\<lambda>witnessKeys.
          let quorum = (case op_quorum p of None \<Rightarrow> 0 | Some q \<Rightarrow> q) in
          bindE (assertE (0 \<le> quorum \<and> quorum \<le> MAX_SAFE)
            (policyError ''checkpoint witness quorum must be a non-negative integer'')) (\<lambda>_.
          bindE (assertE (quorum \<le> int (length witnessKeys))
            (policyError ''checkpoint witness quorum exceeds configured witnesses'')) (\<lambda>_.
          bindE (assertE (logKeys \<noteq> []) (policyError ''checkpoint policy requires at least one log key'')) (\<lambda>_.
          bindE (assertE (list_all (\<lambda>key. nk_name key = origin) logKeys)
            (policyError ''checkpoint log key name must match its origin'')) (\<lambda>_.
          bindE (assertE (list_all isLogKey logKeys)
            (policyError ''checkpoint log keys must use the supported log signature type 0x01'')) (\<lambda>_.
          bindE (assertE (list_all isWitnessKey witnessKeys)
            (policyError ''checkpoint witness keys must use the supported cosignature type 0x04'')) (\<lambda>_.
          bindE (assertDistinctUnderlyingKeys logKeys) (\<lambda>_.
          bindE (assertDistinctUnderlyingKeys witnessKeys) (\<lambda>_.
          let logIdentities = map keyIdentity logKeys in
          bindE (assertE (list_all (\<lambda>key. keyIdentity key \<notin> set logIdentities) witnessKeys)
            (policyError ''checkpoint log and witness keys must use distinct underlying public keys'')) (\<lambda>_.
          bindE (normalizeQuorumRule (case op_quorumRule p of None \<Rightarrow> flatQuorumRule witnessKeys quorum
                                      | Some r \<Rightarrow> r)) (\<lambda>quorumRule.
          let ruleWitnessKeys = collectWitnessKeys quorumRule in
          bindE (assertE (list_all isWitnessKey ruleWitnessKeys)
            (policyError ''checkpoint quorum witness keys must use the supported cosignature type 0x04'')) (\<lambda>_.
          bindE (assertDistinctUnderlyingKeys ruleWitnessKeys) (\<lambda>_.
          bindE (assertE (list_all (\<lambda>key. keyIdentity key \<notin> set logIdentities) ruleWitnessKeys)
            (policyError ''checkpoint log and witness keys must use distinct underlying public keys'')) (\<lambda>_.
          Inr \<lparr>np_logKeys = logKeys, np_witnessKeys = ruleWitnessKeys,
               np_quorum = topLevelThreshold quorumRule, np_quorumRule = quorumRule,
               np_unchained = (op_unchained p = Some True)\<rparr>))))))))))))))))"

section \<open>Enforcement\<close>

text \<open>
  The members of a threshold that are satisfied are ordered by their earliest time, latest first;
  \<open>Math.min()\<close> of no time is infinite.
\<close>

definition quorumOrder :: "nat list \<Rightarrow> int" where
  "quorumOrder ts = (if ts = [] then - (2 ^ 53) else - int (Min (set ts)))"

fun evaluateQuorum :: "ed25519 \<Rightarrow> NormalizedQuorumRule \<Rightarrow> Checkpoint \<Rightarrow> int \<Rightarrow> int \<Rightarrow> nat list option" where
  "evaluateQuorum E QNone checkpoint nowMs maxClockSkewMs = Some []"
| "evaluateQuorum E (QWitness key) checkpoint nowMs maxClockSkewMs =
     (case verifiedCosignatureTimestamp E checkpoint key of
        Some timestamp \<Rightarrow> if int timestamp * 1000 \<le> nowMs + maxClockSkewMs then Some [timestamp] else None
      | None \<Rightarrow> None)"
| "evaluateQuorum E (QThreshold threshold members) checkpoint nowMs maxClockSkewMs =
     (let satisfied = sort_key quorumOrder
            (map the (filter (\<lambda>v. v \<noteq> None)
              (map (\<lambda>m. evaluateQuorum E m checkpoint nowMs maxClockSkewMs) members)))
      in if length satisfied < threshold then None else Some (concat (take threshold satisfied)))"

definition enforceCheckpointPolicy ::
    "(bytes \<Rightarrow> bytes) \<Rightarrow> ed25519 \<Rightarrow> Checkpoint \<Rightarrow> jstring \<Rightarrow> C2spTlogPolicy \<Rightarrow> jstring \<Rightarrow> int \<Rightarrow> int
      \<Rightarrow> js_error + CheckpointPolicyResult" where
  "enforceCheckpointPolicy H E checkpoint origin policy scope nowMs maxClockSkewMs =
     bindE (assertE (0 \<le> maxClockSkewMs \<and> maxClockSkewMs \<le> MAX_SAFE)
       (policyError ''maximum clock skew must be a non-negative integer'')) (\<lambda>_.
     bindE (assertE (pol_scope policy = None \<or> pol_scope policy = Some scope)
       (policyError ''C2SP policy scope does not match'')) (\<lambda>_.
     bindE (assertE (cp_origin checkpoint = origin) (policyError ''checkpoint origin mismatch'')) (\<lambda>_.
     bindE (assertE (\<not> (cp_treeSize checkpoint = 0 \<and> cp_rootHash checkpoint \<noteq> sha256 H []))
       (policyError ''empty C2SP checkpoint must have the empty-tree root'')) (\<lambda>_.
     bindE (normalizedOriginPolicy policy origin) (\<lambda>p.
     let acceptedLogKeys =
           (if scope = js ''public'' then filter (\<lambda>key. case nk_signatureType key of Some (b # _) \<Rightarrow> b = 1 | _ \<Rightarrow> False) (np_logKeys p)
            else np_logKeys p) in
     bindE (assertE (\<exists>k \<in> set acceptedLogKeys. verifyCheckpointSignature E checkpoint k)
       (policyError ''checkpoint missing accepted log signature'')) (\<lambda>_.
     bindE (assertE (\<not> (scope = js ''public'' \<and> np_quorumRule p = QNone))
       (policyError ''public C2SP policy requires a non-zero witness quorum'')) (\<lambda>_.
     case evaluateQuorum E (np_quorumRule p) checkpoint nowMs maxClockSkewMs of
       None \<Rightarrow> Inl (policyError ''checkpoint witness quorum not satisfied by valid timestamped cosignatures'')
     | Some ts \<Rightarrow> Inr \<lparr>cr_acceptedWitnessTimestamps = ts,
         cr_checkpointWitnessTime =
           (if ts = [] then None else Some (dateOf (int (Min (set ts)) * 1000)))\<rparr>)))))))"

section \<open>The policy file\<close>

record policy_state =
  ps_logs :: "SignedNoteKey list"
  ps_witnesses :: "(jstring \<times> SignedNoteKey) list"
  ps_rules :: "(jstring \<times> C2spTlogQuorumRule) list"
  ps_quorumRule :: "C2spTlogQuorumRule option"
  ps_quorumLines :: nat

definition assertPolicyCharacters :: "jstring \<Rightarrow> js_error + unit" where
  "assertPolicyCharacters text =
     assertE (list_all (\<lambda>c. c = 9 \<or> c = 10 \<or> c \<ge> 32) text) (policyError ''invalid C2SP policy character'')"

definition assertNewPolicyName :: "jstring \<Rightarrow> policy_state \<Rightarrow> js_error + unit" where
  "assertNewPolicyName name st =
     (if name = js ''none'' then Inl (PlainError ''none is a reserved policy name'')
      else assertE (name \<notin> fst ` set (ps_witnesses st) \<and> name \<notin> fst ` set (ps_rules st))
        (PlainError ''duplicate policy name''))"

definition parseDecimalThreshold :: "jstring \<Rightarrow> js_error + nat" where
  "parseDecimalThreshold value =
     (if \<not> canonicalDecimal value \<or> int (digitsValue value) > MAX_SAFE
      then Inl (PlainError ''invalid group threshold'') else Inr (digitsValue value))"

definition lookupRule :: "policy_state \<Rightarrow> jstring \<Rightarrow> js_error + C2spTlogQuorumRule" where
  "lookupRule st name =
     (case map_of (ps_rules st) name of
        None \<Rightarrow> Inl (PlainError ''unknown preceding witness or group'')
      | Some r \<Rightarrow> Inr r)"

definition policyDirective :: "policy_state \<Rightarrow> jstring list \<Rightarrow> js_error + policy_state" where
  "policyDirective st words =
     (let directive = hd words; parts = tl words in
      if directive = js ''log'' \<and> (length parts = 1 \<or> length parts = 2) then
        bindE (parseSignedNoteVerifierKey (parts ! 0)) (\<lambda>key. Inr (st\<lparr>ps_logs := ps_logs st @ [key]\<rparr>))
      else if directive = js ''witness'' \<and> (length parts = 2 \<or> length parts = 3) then
        bindE (assertNewPolicyName (parts ! 0) st) (\<lambda>_.
        bindE (parseSignedNoteVerifierKey (parts ! 1)) (\<lambda>key.
        Inr (st\<lparr>ps_witnesses := ps_witnesses st @ [(parts ! 0, key)],
               ps_rules := ps_rules st @ [(parts ! 0, RuleWitness (ParsedKey key))]\<rparr>)))
      else if directive = js ''group'' \<and> length parts \<ge> 3 then
        bindE (assertNewPolicyName (parts ! 0) st) (\<lambda>_.
        let memberNames = drop 2 parts in
        bindE (assertE (distinct memberNames) (PlainError ''group members must be distinct'')) (\<lambda>_.
        bindE (mapE (lookupRule st) memberNames) (\<lambda>members.
        bindE (if parts ! 1 = js ''any'' then Inr 1
               else if parts ! 1 = js ''all'' then Inr (length members)
               else parseDecimalThreshold (parts ! 1)) (\<lambda>threshold.
        if threshold < 1 \<or> threshold > length members then Inl (PlainError ''invalid group threshold'')
        else Inr (st\<lparr>ps_rules := ps_rules st @ [(parts ! 0, RuleThreshold (int threshold) members)]\<rparr>)))))
      else if directive = js ''quorum'' \<and> length parts = 1 then
        if ps_quorumLines st + 1 > 1
          then Inl (PlainError ''policy must contain exactly one quorum directive'')
        else if parts ! 0 = js ''none''
          then Inr (st\<lparr>ps_quorumLines := ps_quorumLines st + 1, ps_quorumRule := Some RuleNone\<rparr>)
        else bindE (lookupRule st (parts ! 0)) (\<lambda>r.
          Inr (st\<lparr>ps_quorumLines := ps_quorumLines st + 1, ps_quorumRule := Some r\<rparr>))
      else Inl (PlainError ''unsupported directive or wrong number of fields''))"

definition isBlank :: "nat \<Rightarrow> bool" where
  "isBlank c \<longleftrightarrow> c = 9 \<or> c = 32"

definition policyLine :: "policy_state \<Rightarrow> jstring \<Rightarrow> js_error + policy_state" where
  "policyLine st rawLine =
     (let line = rev (dropWhile isBlank (rev (dropWhile isBlank rawLine))) in
      if line = [] \<or> starts_with [35] line then Inr st
      else catchE (policyDirective st (splitRuns isBlank line))
        (\<lambda>_. Inl (policyError ''invalid C2SP policy line'')))"

fun isWitnessRule :: "C2spTlogQuorumRule \<Rightarrow> bool" where
  "isWitnessRule (RuleWitness _) = True"
| "isWitnessRule _ = False"

fun legacyQuorum :: "C2spTlogQuorumRule \<Rightarrow> int option" where
  "legacyQuorum RuleNone = Some 0"
| "legacyQuorum (RuleWitness _) = Some 1"
| "legacyQuorum (RuleThreshold threshold members) =
     (if list_all isWitnessRule members then Some threshold else None)"

definition addOrigin ::
    "SignedNoteKey list \<Rightarrow> C2spTlogQuorumRule \<Rightarrow> (jstring \<times> C2spTlogOriginPolicy) list \<Rightarrow> SignedNoteKey
      \<Rightarrow> (jstring \<times> C2spTlogOriginPolicy) list" where
  "addOrigin witnessKeys rule origins log' =
     (case map_of origins (nk_name log') of
        Some _ \<Rightarrow> map (\<lambda>(name, p). (name, if name = nk_name log'
                     then p\<lparr>op_logKeys := op_logKeys p @ [ParsedKey log']\<rparr> else p)) origins
      | None \<Rightarrow> origins @ [(nk_name log', \<lparr>op_logKeys = [ParsedKey log'],
                  op_witnessKeys = Some (map ParsedKey witnessKeys), op_quorum = legacyQuorum rule,
                  op_quorumRule = Some rule, op_unchained = None\<rparr>)])"

definition parseC2spPolicyFile :: "jstring \<Rightarrow> js_error + C2spTlogPolicy" where
  "parseC2spPolicyFile text =
     bindE (assertPolicyCharacters text) (\<lambda>_.
     bindE (foldE policyLine \<lparr>ps_logs = [], ps_witnesses = [], ps_rules = [], ps_quorumRule = None,
              ps_quorumLines = 0\<rparr> (split_on 10 text)) (\<lambda>st.
     case ps_quorumRule st of
       None \<Rightarrow> Inl (policyError ''C2SP policy requires exactly one quorum directive'')
     | Some rule \<Rightarrow>
         if ps_quorumLines st \<noteq> 1
           then Inl (policyError ''C2SP policy requires exactly one quorum directive'')
         else
           let witnessKeys = map snd (ps_witnesses st) in
           bindE (assertE (list_all isLogKey (ps_logs st))
             (policyError ''C2SP policy log keys must use the supported log signature type 0x01'')) (\<lambda>_.
           bindE (assertE (list_all isWitnessKey witnessKeys)
             (policyError ''C2SP policy witness keys must use the supported cosignature type 0x04'')) (\<lambda>_.
           bindE (assertDistinctUnderlyingKeys (ps_logs st)) (\<lambda>_.
           bindE (assertDistinctUnderlyingKeys witnessKeys) (\<lambda>_.
           bindE (assertE (list_all (\<lambda>key. keyIdentity key \<notin> keyIdentity ` set (ps_logs st)) witnessKeys)
             (policyError ''C2SP policy log and witness keys must use distinct underlying public keys'')) (\<lambda>_.
           Inr \<lparr>pol_scope = None, pol_origins = foldl (addOrigin witnessKeys rule) [] (ps_logs st)\<rparr>)))))))"

section \<open>Inclusion proofs\<close>

record TlogProofV1 =
  tp_index :: nat
  tp_hashes :: "bytes list"
  tp_checkpoint :: Checkpoint
  tp_extra :: "jstring list"

definition parseSafeInt :: "jstring \<Rightarrow> js_error + nat" where
  "parseSafeInt s =
     (if \<not> canonicalDecimal s then Inl (c2spParseError ''invalid number'')
      else if int (digitsValue s) > MAX_SAFE then Inl (c2spParseError ''number outside safe integer range'')
      else Inr (digitsValue s))"

text \<open>The regular expression \<open>^[A-Za-z0-9+/]*={0,2}$\<close>.\<close>

definition base64Line :: "jstring \<Rightarrow> bool" where
  "base64Line s =
     (let tail = dropWhile (\<lambda>c. isAlnum c \<or> c = 43 \<or> c = 47) s in tail \<in> {[], [61], [61, 61]})"

definition proofHash :: "jstring \<Rightarrow> js_error + bytes" where
  "proofHash line =
     (if \<not> base64Line line then Inl (c2spParseError ''invalid inclusion proof hash'')
      else bindE (fromB64 line) (\<lambda>hash.
        if length hash \<noteq> 32 then Inl (c2spParseError ''inclusion proof hash must be SHA-256 sized'')
        else Inr hash))"

definition parseTlogProofV1 :: "jstring \<Rightarrow> js_error + TlogProofV1" where
  "parseTlogProofV1 text =
     (if 13 \<in> set text then Inl (c2spParseError ''tlog proof must use LF line endings'')
      else case indexOfBlankLine text of
        None \<Rightarrow> Inl (c2spParseError ''tlog-proof@v1 missing checkpoint separator'')
      | Some split \<Rightarrow>
          let header = split_on 10 (take split text) in
          if hd header \<noteq> js ''c2sp.org/tlog-proof@v1''
            then Inl (c2spParseError ''missing c2sp.org/tlog-proof@v1 magic'')
          else
            bindE (case tl header of
                line # lines \<Rightarrow>
                  if starts_with (js ''extra '') line then
                    if \<not> base64Line (drop 6 line) then Inl (c2spParseError ''invalid proof extra data'')
                    else Inr ([drop 6 line], lines)
                  else Inr ([], line # lines)
              | [] \<Rightarrow> Inr ([], [])) (\<lambda>(extra, lines).
            case lines of
              [] \<Rightarrow> Inl (c2spParseError ''tlog proof missing index'')
            | indexLine # hashLines \<Rightarrow>
                if \<not> starts_with (js ''index '') indexLine
                  then Inl (c2spParseError ''tlog proof missing index'')
                else
                  bindE (parseSafeInt (drop 6 indexLine)) (\<lambda>index.
                  bindE (mapE proofHash hashLines) (\<lambda>hashes.
                  bindE (parseCheckpoint (drop (split + 2) text)) (\<lambda>checkpoint.
                  Inr \<lparr>tp_index = index, tp_hashes = hashes, tp_checkpoint = checkpoint,
                       tp_extra = extra\<rparr>)))))"

definition verifyC2spTlogProof ::
    "(bytes \<Rightarrow> bytes) \<Rightarrow> ed25519 \<Rightarrow> bytes \<Rightarrow> TlogProofV1 + jstring \<Rightarrow> C2spTlogPolicy \<Rightarrow> jstring option
      \<Rightarrow> jstring \<Rightarrow> int \<Rightarrow> int \<Rightarrow> js_error + TlogProofV1" where
  "verifyC2spTlogProof H E entryBytes proof' policy origin scope nowMs maxClockSkewMs =
     bindE (case proof' of Inl p \<Rightarrow> Inr p | Inr text \<Rightarrow> parseTlogProofV1 text) (\<lambda>p.
     bindE (enforceCheckpointPolicy H E (tp_checkpoint p)
       (case origin of None \<Rightarrow> cp_origin (tp_checkpoint p) | Some o' \<Rightarrow> o') policy scope nowMs maxClockSkewMs) (\<lambda>_.
     case verifyInclusion H entryBytes (int (tp_index p)) (int (cp_treeSize (tp_checkpoint p)))
            (cp_rootHash (tp_checkpoint p)) (tp_hashes p) of
       Inl message \<Rightarrow> Inl (PlainError message)
     | Inr False \<Rightarrow> Inl (c2spVerificationError ''invalid C2SP inclusion proof'' INVALID_EVIDENCE)
     | Inr True \<Rightarrow> Inr p))"

section \<open>What a satisfied quorum means\<close>

text \<open>
  The meaning of a rule, given which keys have a valid cosignature in time, and the least number of
  signers that can satisfy it.
\<close>

definition cosigned :: "ed25519 \<Rightarrow> Checkpoint \<Rightarrow> int \<Rightarrow> SignedNoteKey \<Rightarrow> bool" where
  "cosigned E c limit key \<longleftrightarrow>
     (case verifiedCosignatureTimestamp E c key of None \<Rightarrow> False | Some t \<Rightarrow> int t * 1000 \<le> limit)"

fun quorumMet :: "(SignedNoteKey \<Rightarrow> bool) \<Rightarrow> NormalizedQuorumRule \<Rightarrow> bool" where
  "quorumMet v QNone = True"
| "quorumMet v (QWitness key) = v key"
| "quorumMet v (QThreshold threshold members) = (threshold \<le> length (filter (quorumMet v) members))"

fun minSigners :: "NormalizedQuorumRule \<Rightarrow> nat" where
  "minSigners QNone = 0"
| "minSigners (QWitness _) = 1"
| "minSigners (QThreshold threshold members) = sum_list (take threshold (sort (map minSigners members)))"

lemma evaluateQuorum_iff:
  "evaluateQuorum E r c now skew \<noteq> None \<longleftrightarrow> quorumMet (cosigned E c (now + skew)) r"
proof (induction E r c now skew rule: evaluateQuorum.induct)
  case (3 E threshold members c now skew)
  have "filter (\<lambda>m. evaluateQuorum E m c now skew \<noteq> None) members =
      filter (quorumMet (cosigned E c (now + skew))) members"
    by (rule filter_cong) (use 3 in auto)
  then show ?case by (simp add: Let_def not_less filter_map comp_def del: not_None_eq)
qed (auto simp: cosigned_def split: option.splits)

lemma evaluateQuorum_times:
  "evaluateQuorum E r c now skew = Some ts \<Longrightarrow> t \<in> set ts \<Longrightarrow>
   \<exists>key \<in> set (collectWitnessKeys r). verifiedCosignatureTimestamp E c key = Some t \<and> int t * 1000 \<le> now + skew"
proof (induction E r c now skew arbitrary: ts rule: evaluateQuorum.induct)
  case (3 E threshold members c now skew)
  then obtain us where us: "t \<in> set us" and "us \<in> set (sort_key quorumOrder (map the
      (filter (\<lambda>v. v \<noteq> None) (map (\<lambda>m. evaluateQuorum E m c now skew) members))))"
    by (auto simp: Let_def split: if_splits dest!: in_set_takeD)
  then obtain m where "m \<in> set members" "evaluateQuorum E m c now skew = Some us" by auto
  with 3 (1) us show ?case by fastforce
qed (auto split: option.splits if_splits)

text \<open>The sum of the smallest elements bounds the sum of any as many elements.\<close>

lemma sorted_take_le_subseq:
  fixes xs ys :: "nat list"
  shows "sorted xs \<Longrightarrow> subseq ys xs \<Longrightarrow> sum_list (take (length ys) xs) \<le> sum_list ys"
proof (induction xs arbitrary: ys)
  case (Cons x xs)
  show ?case
  proof (cases ys)
    case ys: (Cons y ys')
    show ?thesis
    proof (cases "subseq ys xs")
      case True
      have len: "length ys' < length xs" using list_emb_length [OF True] by (simp add: ys)
      then have "sum_list (take (length ys') xs) + xs ! length ys' \<le> sum_list ys"
        using Cons.IH [OF _ True] Cons.prems(1) by (simp add: ys take_Suc_conv_app_nth)
      moreover have "x \<le> xs ! length ys'" using Cons.prems(1) len by simp
      ultimately show ?thesis by (simp add: ys)
    next
      case False
      with Cons.prems(2) have "y = x" "subseq ys' xs" by (auto simp: ys split: if_splits)
      with Cons.IH [of ys'] Cons.prems(1) show ?thesis by (simp add: ys)
    qed
  qed simp
qed simp

lemma sum_smallest_le_filter:
  fixes f :: "'a \<Rightarrow> nat"
  assumes "n \<le> length (filter P ms)"
  shows "sum_list (take n (sort (map f ms))) \<le> sum_list (map f (filter P ms))"
proof -
  let ?ms = "sort_key f ms"
  have sort: "sort (map f ms) = map f ?ms"
    by (rule properties_for_sort) simp_all
  have mset: "mset (filter P ?ms) = mset (filter P ms)" by simp
  then have sum: "sum_list (map f (filter P ?ms)) = sum_list (map f (filter P ms))"
    by (metis mset_map sum_mset_sum_list)
  have len: "length (filter P ?ms) = length (filter P ms)" using mset by (metis size_mset)
  have "subseq (map f (filter P ?ms)) (map f ?ms)" by (intro subseq_map subseq_filter_left)
  from sorted_take_le_subseq [OF _ this]
  have "sum_list (take (length (filter P ms)) (map f ?ms)) \<le> sum_list (map f (filter P ms))"
    using len sum by simp
  moreover have "sum_list (take n (map f ?ms)) \<le> sum_list (take (length (filter P ms)) (map f ?ms))"
    using assms by (metis le_add1 le_add_diff_inverse sum_list_append take_add)
  ultimately show ?thesis by (simp add: sort)
qed

lemma quorumMet_signers: "quorumMet v r \<Longrightarrow> minSigners r \<le> length (filter v (collectWitnessKeys r))"
proof (induction r rule: minSigners.induct)
  case (3 threshold members)
  have "sum_list (take threshold (sort (map minSigners members))) \<le>
      sum_list (map minSigners (filter (quorumMet v) members))"
    by (rule sum_smallest_le_filter) (use 3(2) in simp)
  also have "\<dots> \<le> sum_list (map (\<lambda>m. length (filter v (collectWitnessKeys m))) (filter (quorumMet v) members))"
    by (rule sum_list_mono) (use 3(1) in auto)
  also have "\<dots> \<le> sum_list (map (\<lambda>m. length (filter v (collectWitnessKeys m))) members)"
    by (induction members) auto
  finally show ?case by (simp add: filter_concat length_concat comp_def)
qed simp_all

text \<open>What normalization establishes.\<close>

lemma normalizedOriginPolicy_wf:
  assumes "normalizedOriginPolicy policy origin = Inr p"
  shows "list_all (\<lambda>k. nk_name k = origin \<and> isLogKey k) (np_logKeys p)"
    and "np_witnessKeys p = collectWitnessKeys (np_quorumRule p)"
    and "list_all isWitnessKey (np_witnessKeys p)"
    and "distinct (map keyIdentity (np_witnessKeys p))"
    and "keyIdentity ` set (np_witnessKeys p) \<inter> keyIdentity ` set (np_logKeys p) = {}"
proof -
  from assms obtain logKeys rule u where wf:
      "list_all (\<lambda>k. nk_name k = origin) logKeys" "list_all isLogKey logKeys"
      "list_all isWitnessKey (collectWitnessKeys rule)" "distinct (map keyIdentity (collectWitnessKeys rule))"
      "list_all (\<lambda>key. keyIdentity key \<notin> set (map keyIdentity logKeys)) (collectWitnessKeys rule)"
    and p: "p = \<lparr>np_logKeys = logKeys, np_witnessKeys = collectWitnessKeys rule,
      np_quorum = topLevelThreshold rule, np_quorumRule = rule, np_unchained = u\<rparr>"
    unfolding normalizedOriginPolicy_def assertDistinctUnderlyingKeys_def Let_def
    by (cases "map_of (pol_origins policy) origin") (auto simp: bindE_eq_Inr assertE_eq_Inr)
  show "list_all (\<lambda>k. nk_name k = origin \<and> isLogKey k) (np_logKeys p)"
      "np_witnessKeys p = collectWitnessKeys (np_quorumRule p)" "list_all isWitnessKey (np_witnessKeys p)"
      "distinct (map keyIdentity (np_witnessKeys p))"
    using wf(1-4) by (simp_all add: p list_all_iff)
  have "keyIdentity k \<noteq> keyIdentity l" if "k \<in> set (collectWitnessKeys rule)" "l \<in> set logKeys" for k l
    using wf(5) that by (auto simp: list_all_iff)
  then show "keyIdentity ` set (np_witnessKeys p) \<inter> keyIdentity ` set (np_logKeys p) = {}"
    unfolding p by fastforce
qed

lemma distinct_signers:
  assumes "distinct (map f ks)"
  shows "card (f ` {k \<in> set ks. v k}) = length (filter v ks)"
proof -
  have "distinct (map f (filter v ks))" using assms by (rule distinct_map_filter)
  then have "card (set (map f (filter v ks))) = length (filter v ks)" by (simp only: distinct_card length_map)
  then show ?thesis by simp
qed

lemma enforceCheckpointPolicy_accepts:
  assumes "enforceCheckpointPolicy H E c origin policy scope now skew = Inr r"
  obtains p ts k where "normalizedOriginPolicy policy origin = Inr p" "cp_origin c = origin"
    "k \<in> set (np_logKeys p)" "verifyCheckpointSignature E c k"
    "evaluateQuorum E (np_quorumRule p) c now skew = Some ts"
    "r = \<lparr>cr_acceptedWitnessTimestamps = ts,
      cr_checkpointWitnessTime = (if ts = [] then None else Some (dateOf (int (Min (set ts)) * 1000)))\<rparr>"
proof -
  from assms obtain p where p: "cp_origin c = origin" "normalizedOriginPolicy policy origin = Inr p"
    and k: "\<exists>k \<in> set (if scope = js ''public''
        then filter (\<lambda>key. case nk_signatureType key of Some (b # _) \<Rightarrow> b = 1 | _ \<Rightarrow> False) (np_logKeys p)
        else np_logKeys p). verifyCheckpointSignature E c k"
    and q: "(case evaluateQuorum E (np_quorumRule p) c now skew of
       None \<Rightarrow> Inl (policyError ''checkpoint witness quorum not satisfied by valid timestamped cosignatures'')
     | Some ts \<Rightarrow> Inr \<lparr>cr_acceptedWitnessTimestamps = ts,
         cr_checkpointWitnessTime =
           (if ts = [] then None else Some (dateOf (int (Min (set ts)) * 1000)))\<rparr>) = Inr r"
    unfolding enforceCheckpointPolicy_def Let_def bindE_eq_Inr assertE_eq_Inr by blast
  from k obtain k' where "k' \<in> set (np_logKeys p)" "verifyCheckpointSignature E c k'"
    by (auto simp del: js_Cons split: if_split_asm)
  with p q that show ?thesis by (auto split: option.splits)
qed

text \<open>
  C36. What an accepted checkpoint has behind it: a signature of a configured log key named like the
  origin, and a satisfied quorum rule. The witnesses whose valid cosignatures, dated no later than the
  clock plus the allowed skew, count are all keys of the rule; there are at least as many distinct
  public keys among them as the rule needs at the least, and none of them is a log key. The reported
  witness time is the earliest of the accepted cosignatures.
\<close>

theorem enforceCheckpointPolicy_sound:
  assumes "enforceCheckpointPolicy H E c origin policy scope now skew = Inr r"
  shows "\<exists>p. normalizedOriginPolicy policy origin = Inr p \<and> cp_origin c = origin \<and>
    (\<exists>k \<in> set (np_logKeys p). nk_name k = origin \<and> isLogKey k \<and> verifyCheckpointSignature E c k) \<and>
    quorumMet (cosigned E c (now + skew)) (np_quorumRule p) \<and>
    minSigners (np_quorumRule p) \<le>
      card (keyIdentity ` {k \<in> set (np_witnessKeys p). isWitnessKey k \<and> cosigned E c (now + skew) k}) \<and>
    keyIdentity ` set (np_witnessKeys p) \<inter> keyIdentity ` set (np_logKeys p) = {} \<and>
    list_all (\<lambda>t. \<exists>k \<in> set (np_witnessKeys p). verifiedCosignatureTimestamp E c k = Some t \<and>
      int t * 1000 \<le> now + skew) (cr_acceptedWitnessTimestamps r) \<and>
    cr_checkpointWitnessTime r = (if cr_acceptedWitnessTimestamps r = [] then None
      else Some (dateOf (int (Min (set (cr_acceptedWitnessTimestamps r))) * 1000)))"
proof -
  from assms obtain p ts k where p: "normalizedOriginPolicy policy origin = Inr p" "cp_origin c = origin"
    and k: "k \<in> set (np_logKeys p)" "verifyCheckpointSignature E c k"
    and ts: "evaluateQuorum E (np_quorumRule p) c now skew = Some ts"
    and r: "r = \<lparr>cr_acceptedWitnessTimestamps = ts,
      cr_checkpointWitnessTime = (if ts = [] then None else Some (dateOf (int (Min (set ts)) * 1000)))\<rparr>"
    by (rule enforceCheckpointPolicy_accepts)
  note wf = normalizedOriginPolicy_wf [OF p(1)]
  have met: "quorumMet (cosigned E c (now + skew)) (np_quorumRule p)"
    using evaluateQuorum_iff [of E "np_quorumRule p" c now skew] ts by simp
  have "{k \<in> set (np_witnessKeys p). isWitnessKey k \<and> cosigned E c (now + skew) k} =
      {k \<in> set (np_witnessKeys p). cosigned E c (now + skew) k}"
    using wf(3) by (auto simp: list_all_iff)
  then have signers: "minSigners (np_quorumRule p) \<le>
      card (keyIdentity ` {k \<in> set (np_witnessKeys p). isWitnessKey k \<and> cosigned E c (now + skew) k})"
    using quorumMet_signers [OF met] distinct_signers [OF wf(4)] by (simp add: wf(2))
  have times: "list_all (\<lambda>t. \<exists>k \<in> set (np_witnessKeys p). verifiedCosignatureTimestamp E c k = Some t \<and>
      int t * 1000 \<le> now + skew) ts"
    using evaluateQuorum_times [OF ts] by (simp add: list_all_iff wf(2))
  have "nk_name k = origin \<and> isLogKey k" using wf(1) k(1) by (simp add: list_all_iff)
  with p k met signers wf(5) times show ?thesis by (intro exI [of _ p]) (auto simp: r)
qed

text \<open>A flat quorum needs as many distinct witnesses as it says.\<close>

lemma sort_replicate [simp]: "sort (replicate n x) = replicate n x"
  by (induction n) (auto simp: insort_is_Cons)

lemma normalize_flat:
  assumes "0 \<le> q" and "q \<le> int (length ws)" and "q \<le> MAX_SAFE"
    and "normalizeQuorumRule (flatQuorumRule ws q) = Inr rule"
  shows "minSigners rule = nat q \<and> set (collectWitnessKeys rule) \<subseteq> set ws"
proof -
  have ms: "mapE normalizeQuorumRule (map (\<lambda>key. RuleWitness (ParsedKey key)) ws) = Inr (map QWitness ws)"
    by (induction ws) auto
  have one: "map (\<lambda>x. Suc 0) ws = replicate (length ws) (Suc 0)" by (simp add: map_replicate_const)
  show ?thesis
  proof (cases "q = 0")
    case True
    then show ?thesis using assms(4) by (auto simp: flatQuorumRule_def)
  next
    case False
    then have "rule = QThreshold (nat q) (map QWitness ws)"
      using assms by (auto simp: flatQuorumRule_def ms split: if_splits)
    moreover have "concat (map (\<lambda>key. [key]) ws) = ws" by (induction ws) auto
    ultimately show ?thesis using assms by (simp add: comp_def one sum_list_replicate)
  qed
qed

lemma normalizedOriginPolicy_flat:
  assumes "normalizedOriginPolicy policy origin = Inr p" and "map_of (pol_origins policy) origin = Some cfg"
    and "op_quorumRule cfg = None"
  shows "minSigners (np_quorumRule p) = nat (case op_quorum cfg of None \<Rightarrow> 0 | Some q \<Rightarrow> q) \<and>
    (\<forall>k \<in> set (np_witnessKeys p). \<exists>ws w. op_witnessKeys cfg = Some ws \<and> w \<in> set ws \<and> asKey w = Inr k)"
proof -
  define q where "q = (case op_quorum cfg of None \<Rightarrow> 0 | Some q \<Rightarrow> q)"
  from assms(1) obtain ws rule where ws: "mapE asKey (case op_witnessKeys cfg of None \<Rightarrow> [] | Some ks \<Rightarrow> ks) = Inr ws"
    and q: "0 \<le> q" "q \<le> int (length ws)" "q \<le> MAX_SAFE" "normalizeQuorumRule (flatQuorumRule ws q) = Inr rule" "np_quorumRule p = rule"
    unfolding normalizedOriginPolicy_def Let_def assms(2) option.case assms(3) q_def [symmetric]
    by (auto simp: bindE_eq_Inr assertE_eq_Inr)
  have "\<exists>vs w. op_witnessKeys cfg = Some vs \<and> w \<in> set vs \<and> asKey w = Inr k" if "k \<in> set ws" for k
    using ws that by (cases "op_witnessKeys cfg") (auto simp: mapE_eq_Inr list_all2_conv_all_nth in_set_conv_nth)
  then show ?thesis using normalize_flat [OF q(1-4)] q(5) normalizedOriginPolicy_wf(2) [OF assms(1)] by (auto simp: q_def)
qed

text \<open>
  C37. A flat quorum counts witnesses, not signatures: under a policy that asks for \<open>q\<close> witnesses, an
  accepted checkpoint carries valid cosignatures of at least \<open>q\<close> different public keys, each of them the key
  of a witness that the policy configures for the origin, and none of them a log key of the origin.
\<close>

theorem enforceCheckpointPolicy_flat_quorum:
  assumes "enforceCheckpointPolicy H E c origin policy scope now skew = Inr r"
    and "map_of (pol_origins policy) origin = Some cfg" and "op_quorumRule cfg = None"
    and "op_quorum cfg = Some q"
  shows "\<exists>ks p. normalizedOriginPolicy policy origin = Inr p \<and> nat q \<le> card (keyIdentity ` ks) \<and>
    (\<forall>k \<in> ks. \<exists>ws w. op_witnessKeys cfg = Some ws \<and> w \<in> set ws \<and> asKey w = Inr k) \<and>
    keyIdentity ` ks \<inter> keyIdentity ` set (np_logKeys p) = {} \<and> (\<forall>k \<in> ks. cosigned E c (now + skew) k)"
proof -
  obtain p ts where p: "normalizedOriginPolicy policy origin = Inr p"
    and ts: "evaluateQuorum E (np_quorumRule p) c now skew = Some ts"
    using assms(1) by (rule enforceCheckpointPolicy_accepts)
  note wf = normalizedOriginPolicy_wf [OF p]
  let ?ks = "{k \<in> set (np_witnessKeys p). cosigned E c (now + skew) k}"
  have "quorumMet (cosigned E c (now + skew)) (np_quorumRule p)"
    using evaluateQuorum_iff [of E "np_quorumRule p" c now skew] ts by simp
  from quorumMet_signers [OF this] have "nat q \<le> card (keyIdentity ` ?ks)"
    using normalizedOriginPolicy_flat [OF p assms(2,3)] assms(4) distinct_signers [OF wf(4)]
    by (simp add: wf(2))
  moreover have "keyIdentity ` ?ks \<inter> keyIdentity ` set (np_logKeys p) = {}" using wf(5) by auto
  ultimately show ?thesis using p normalizedOriginPolicy_flat [OF p assms(2,3)] by (intro exI [of _ ?ks] exI [of _ p]) simp
qed

text \<open>
  C38. An accepted proof shows membership: if the checkpoint of an accepted \<open>tlog-proof\<close> has the root of
  a log, the entry is one of the log's entries, when SHA-256 has no collision among the strings
  involved; and the checkpoint satisfies the policy for its origin.
\<close>

theorem verifyC2spTlogProof_sound:
  assumes "verifyC2spTlogProof H E entry prf policy origin scope now skew = Inr p"
    and "\<forall>x. length (H x) = 32" and "\<forall>h \<in> set (tp_hashes p). length h = 32" and "entries \<noteq> []"
    and "cp_rootHash (tp_checkpoint p) = MTH H entries"
    and "inj_on H (treeInputs H entries \<union> inclusionInputs H entry (int (tp_index p))
      (int (cp_treeSize (tp_checkpoint p))) (tp_hashes p))"
  shows "entry \<in> set entries \<and>
    (\<exists>r. enforceCheckpointPolicy H E (tp_checkpoint p) (cp_origin (tp_checkpoint p)) policy scope now skew = Inr r)"
proof -
  define o' where "o' q = (case origin of None \<Rightarrow> cp_origin (tp_checkpoint q) | Some o'' \<Rightarrow> o'')" for q :: TlogProofV1
  from assms(1) obtain q r where
      q: "enforceCheckpointPolicy H E (tp_checkpoint q) (o' q) policy scope now skew = Inr r"
    and run: "(case verifyInclusion H entry (int (tp_index q)) (int (cp_treeSize (tp_checkpoint q)))
          (cp_rootHash (tp_checkpoint q)) (tp_hashes q) of
        Inl message \<Rightarrow> Inl (PlainError message)
      | Inr False \<Rightarrow> Inl (c2spVerificationError ''invalid C2SP inclusion proof'' INVALID_EVIDENCE)
      | Inr True \<Rightarrow> Inr q) = Inr p"
    unfolding verifyC2spTlogProof_def bindE_eq_Inr o'_def by blast
  from run have "q = p" and inc: "verifyInclusion H entry (int (tp_index p))
      (int (cp_treeSize (tp_checkpoint p))) (cp_rootHash (tp_checkpoint p)) (tp_hashes p) = Inr True"
    by (auto split: sum.splits bool.splits)
  with q have enf: "enforceCheckpointPolicy H E (tp_checkpoint p) (o' p) policy scope now skew = Inr r" by simp
  have "o' p = cp_origin (tp_checkpoint p)"
    using enf by (rule enforceCheckpointPolicy_accepts) simp
  moreover have "entry \<in> set entries"
  proof (rule inclusionLoop_member [OF _ assms(4,3) _ assms(6)])
    show "inclusionLoop H (leafHash H entry) (int (tp_index p)) (int (cp_treeSize (tp_checkpoint p)))
        (tp_hashes p) = MTH H entries"
      using inc assms(5) by (auto simp: verifyInclusion_def inclusionRoot_def split: if_splits)
  qed (use assms(2) in simp)
  ultimately show ?thesis using enf by auto
qed

section \<open>A concrete policy\<close>

definition logKey :: SignedNoteKey where
  "logKey = \<lparr>nk_name = js ''o'', nk_keyBytes = replicate 32 1, nk_keyId = None, nk_signatureType = Some [1]\<rparr>"

definition signedCheckpoint :: Checkpoint where
  "signedCheckpoint = exampleCheckpoint\<lparr>cp_signatures :=
     \<lparr>ns_name = js ''o'', ns_keyHash = None, ns_signature = replicate 64 0, ns_raw = []\<rparr>
       # cp_signatures exampleCheckpoint\<rparr>"

definition onePolicy :: "C2spTlogQuorumRule option \<Rightarrow> C2spTlogPolicy" where
  "onePolicy rule = \<lparr>pol_scope = None, pol_origins = [(js ''o'', \<lparr>op_logKeys = [ParsedKey logKey],
     op_witnessKeys = Some [ParsedKey witnessKey], op_quorum = Some 1, op_quorumRule = rule, op_unchained = None\<rparr>)]\<rparr>"

lemma log_signature: "verifyCheckpointSignature (\<lambda>_ _ _. Some True) signedCheckpoint logKey"
  by (simp add: verifyCheckpointSignature_def signedCheckpoint_def exampleCheckpoint_def keyIdMatches_def
      verifyNoteSignature_def logKey_def)

lemma witness_signature:
  "verifiedCosignatureTimestamp (\<lambda>_ _ _. Some True) signedCheckpoint witnessKey = Some 5"
  by (simp add: verifiedCosignatureTimestamp_def witnessKey_def signedCheckpoint_def exampleCheckpoint_def
      keyIdMatches_def verifyNoteSignature_def exampleCosignature_def readUInt64BE_def MAX_SAFE_def)

lemma keys_differ: "keyIdentity witnessKey \<noteq> keyIdentity logKey"
  by (simp add: keyIdentity_def witnessKey_def logKey_def)

lemma onePolicy_normalized:
  "normalizedOriginPolicy (onePolicy None) (js ''o'') = Inr \<lparr>np_logKeys = [logKey],
     np_witnessKeys = [witnessKey], np_quorum = 1, np_quorumRule = QThreshold 1 [QWitness witnessKey], np_unchained = False\<rparr>"
  "normalizedOriginPolicy (onePolicy (Some (RuleThreshold 1 [RuleNone]))) (js ''o'') = Inr \<lparr>np_logKeys = [logKey],
     np_witnessKeys = [], np_quorum = 1, np_quorumRule = QThreshold 1 [QNone], np_unchained = False\<rparr>"
  using keys_differ
  by (simp_all add: normalizedOriginPolicy_def onePolicy_def MAX_SAFE_def isLogKey_def isWitnessKey_def
      assertDistinctUnderlyingKeys_def flatQuorumRule_def Let_def logKey_def [THEN arg_cong [where f = nk_name]]
      logKey_def [THEN arg_cong [where f = nk_signatureType]] witnessKey_def [THEN arg_cong [where f = nk_signatureType]])

lemma one_witness_accepted:
  "enforceCheckpointPolicy H (\<lambda>_ _ _. Some True) signedCheckpoint (js ''o'') (onePolicy None) (js ''testnet'') 9000 0 =
     Inr \<lparr>cr_acceptedWitnessTimestamps = [5], cr_checkpointWitnessTime = Some (Some 5000)\<rparr>"
proof -
  have "pol_scope (onePolicy None) = None" "cp_origin signedCheckpoint = js ''o''" "cp_treeSize signedCheckpoint = 3"
    by (simp_all add: onePolicy_def signedCheckpoint_def exampleCheckpoint_def)
  then show ?thesis
    using onePolicy_normalized(1) log_signature witness_signature
    by (simp add: enforceCheckpointPolicy_def MAX_SAFE_def Let_def dateOf_def)
qed

theorem enforceCheckpointPolicy_sound_witness:
  "\<exists>p. normalizedOriginPolicy (onePolicy None) (js ''o'') = Inr p \<and>
     quorumMet (cosigned (\<lambda>_ _ _. Some True) signedCheckpoint (9000 + 0)) (np_quorumRule p)"
  using enforceCheckpointPolicy_sound [OF one_witness_accepted [of id]] by blast

theorem enforceCheckpointPolicy_flat_quorum_witness:
  "\<exists>ks. 1 \<le> card (keyIdentity ` ks) \<and> ks \<subseteq> {witnessKey} \<and>
     ks \<subseteq> {k. cosigned (\<lambda>_ _ _. Some True) signedCheckpoint (9000 + 0) k}"
proof -
  have "map_of (pol_origins (onePolicy None)) (js ''o'') = Some \<lparr>op_logKeys = [ParsedKey logKey],
     op_witnessKeys = Some [ParsedKey witnessKey], op_quorum = Some 1, op_quorumRule = None, op_unchained = None\<rparr>"
    by (simp add: onePolicy_def)
  from enforceCheckpointPolicy_flat_quorum [OF one_witness_accepted [of id] this, of 1]
  show ?thesis by auto
qed

text \<open>
  C39. In the public scope, which is to require witnesses, a threshold over the rule that requires none
  is accepted: the policy below has a witness key and a rule other than \<open>none\<close>, and a checkpoint without
  any cosignature passes with no witnessed time.
\<close>

theorem public_scope_without_witness:
  "enforceCheckpointPolicy H (\<lambda>_ _ _. Some True)
     (signedCheckpoint\<lparr>cp_signatures := [hd (cp_signatures signedCheckpoint)]\<rparr>) (js ''o'')
     (onePolicy (Some (RuleThreshold 1 [RuleNone]))) (js ''public'') 9000 0 =
   Inr \<lparr>cr_acceptedWitnessTimestamps = [], cr_checkpointWitnessTime = None\<rparr>"
proof -
  have c: "pol_scope (onePolicy (Some (RuleThreshold 1 [RuleNone]))) = None"
      "cp_origin signedCheckpoint = js ''o''" "cp_treeSize signedCheckpoint = 3"
    by (simp_all add: onePolicy_def signedCheckpoint_def exampleCheckpoint_def)
  have l: "verifyCheckpointSignature (\<lambda>_ _ _. Some True)
      (signedCheckpoint\<lparr>cp_signatures := [hd (cp_signatures signedCheckpoint)]\<rparr>) logKey"
    by (simp add: verifyCheckpointSignature_def signedCheckpoint_def exampleCheckpoint_def keyIdMatches_def
      verifyNoteSignature_def logKey_def)
  have "nk_signatureType logKey = Some [1]" by (simp add: logKey_def)
  then show ?thesis
    using onePolicy_normalized(2) l c
    by (simp add: enforceCheckpointPolicy_def MAX_SAFE_def Let_def)
qed

definition exampleProof :: TlogProofV1 where
  "exampleProof = \<lparr>tp_index = 0, tp_hashes = [leafHash toyHash [20]],
     tp_checkpoint = signedCheckpoint\<lparr>cp_treeSize := 2, cp_rootHash := MTH toyHash [[10], [20]]\<rparr>, tp_extra = []\<rparr>"

theorem verifyC2spTlogProof_sound_witness:
  "verifyC2spTlogProof toyHash (\<lambda>_ _ _. Some True) [10] (Inl exampleProof) (onePolicy None) None
     (js ''testnet'') 9000 0 = Inr exampleProof \<and> ([10] :: bytes) \<in> set [[10], [20]]"
proof -
  let ?E = "\<lambda>_ _ _. Some True" and ?c = "tp_checkpoint exampleProof"
  have c: "pol_scope (onePolicy None) = None" "cp_origin ?c = js ''o''" "cp_treeSize ?c = 2"
      "cp_rootHash ?c = MTH toyHash [[10], [20]]" "tp_index exampleProof = 0"
      "tp_hashes exampleProof = [leafHash toyHash [20]]"
    by (simp_all add: onePolicy_def exampleProof_def signedCheckpoint_def exampleCheckpoint_def)
  have "verifyCheckpointSignature ?E ?c logKey" "verifiedCosignatureTimestamp ?E ?c witnessKey = Some 5"
    using log_signature witness_signature
    by (simp_all add: exampleProof_def verifyCheckpointSignature_def verifiedCosignatureTimestamp_def split: if_splits)
  then have pol: "enforceCheckpointPolicy toyHash ?E ?c (js ''o'') (onePolicy None) (js ''testnet'') 9000 0 =
      Inr \<lparr>cr_acceptedWitnessTimestamps = [5], cr_checkpointWitnessTime = Some (Some 5000)\<rparr>"
    using onePolicy_normalized(1) c
    by (simp add: enforceCheckpointPolicy_def MAX_SAFE_def Let_def dateOf_def)
  have "verifyInclusion toyHash [10] 0 2 (MTH toyHash [[10], [20]]) [leafHash toyHash [20]] = Inr True"
    by (simp add: verifyInclusion_def inclusionRoot_def MAX_SAFE_def MTH_def)
  with pol c have run: "verifyC2spTlogProof toyHash ?E [10] (Inl exampleProof) (onePolicy None) None
      (js ''testnet'') 9000 0 = Inr exampleProof"
    by (simp add: verifyC2spTlogProof_def del: js_Cons)
  have inj: "inj_on toyHash (treeInputs toyHash [[10], [20]] \<union>
      inclusionInputs toyHash [10] (int (tp_index exampleProof)) (int (cp_treeSize ?c)) (tp_hashes exampleProof))"
    unfolding c
    by (auto simp: treeInputs.simps splitPoint.simps MTH_def inclusionInputs_def leafHash_eq
        toyHash_def inj_on_def)
  have len: "\<forall>h \<in> set (tp_hashes exampleProof). length h = 32" "\<forall>x. length (toyHash x) = 32"
    by (simp_all add: c leafHash_eq)
  from verifyC2spTlogProof_sound [OF run len(2,1) _ c(4) inj] run show ?thesis by simp
qed

end
