(* ===== verification/Config.thy ===== *)
theory Config
  imports IdentityVerify Base64
begin

text \<open>
  The configuration of the identity manager (\<open>protocol/src/identity-manager.ts\<close>,
  \<open>validateDnsidConfig\<close> and what it calls, and the checks of the constructor). The input is an untyped
  value; the result is a record, which the code freezes.
\<close>

section \<open>Field checks\<close>

definition IDENTITY_KEYS :: "string list" where
  "IDENTITY_KEYS = [''domain'', ''governanceId'', ''logRef'', ''statusUrl'', ''policyFlags'', ''maxKeyAge'',
     ''ekUrl'', ''kuUrl'', ''publishProfile'', ''capabilitiesUrl'']"

definition VERIFICATION_KEYS :: "string list" where
  "VERIFICATION_KEYS = [''statusCheckInterval'', ''dnssecMode'', ''trustedEntities'']"

definition TRANSPORT_KEYS :: "string list" where
  "TRANSPORT_KEYS = [''dnsServer'', ''caBundlePath'', ''privateAddressHosts'']"

definition requireObject :: "json \<Rightarrow> string list \<Rightarrow> js_error + json" where
  "requireObject value allowed =
     (case value of
        JObj ps \<Rightarrow>
          if \<forall>p \<in> set ps. fst p \<in> js ` set allowed then Inr value
          else Inl (ArgumentError ''configuration has unknown field'')
      | _ \<Rightarrow> Inl (ArgumentError ''configuration must be an object''))"

definition optionalString :: "json \<Rightarrow> string \<Rightarrow> js_error + jstring option" where
  "optionalString raw key =
     (case propOf raw key of
        JUndef \<Rightarrow> Inr None
      | JStr s \<Rightarrow> Inr (Some s)
      | _ \<Rightarrow> Inl (ArgumentError ''configuration field must be a string''))"

text \<open>A required string: absent and empty are refused alike.\<close>

definition requiredString :: "json \<Rightarrow> string \<Rightarrow> js_error + jstring" where
  "requiredString raw key =
     bindE (optionalString raw key) (\<lambda>v.
     case v of
       Some (c # cs) \<Rightarrow> Inr (c # cs)
     | _ \<Rightarrow> Inl (ArgumentError ''configuration field is required''))"

section \<open>The local identity\<close>

record IdentityConfig =
  ic_domain :: jstring
  ic_governanceId :: jstring
  ic_logRef :: jstring
  ic_statusUrl :: jstring
  ic_policyFlags :: "jstring option"
  ic_maxKeyAge :: "jstring option"
  ic_ekUrl :: "jstring option"
  ic_kuUrl :: "jstring option"
  ic_publishProfile :: "jstring option"
  ic_capabilitiesUrl :: "jstring option"

definition argumentOnFailure :: "string \<Rightarrow> js_error + 'a \<Rightarrow> js_error + 'a" where
  "argumentOnFailure message r = catchE r (\<lambda>_. Inl (ArgumentError message))"

definition validateIdentity :: "platform \<Rightarrow> json \<Rightarrow> js_error + IdentityConfig" where
  "validateIdentity P value =
     bindE (requireObject value IDENTITY_KEYS) (\<lambda>raw.
     bindE (requiredString raw ''domain'') (\<lambda>rawDomain.
     bindE (requiredString raw ''governanceId'') (\<lambda>rawGovernanceId.
     bindE (requiredString raw ''logRef'') (\<lambda>logRef.
     bindE (requiredString raw ''statusUrl'') (\<lambda>statusUrl.
     bindE (argumentOnFailure ''config.identity.domain is not a valid agent FQDN'' (normalizeFQDN P rawDomain True)) (\<lambda>domain.
     bindE (if isDomainName rawGovernanceId
            then argumentOnFailure ''config.identity.governanceId is not a valid FQDN'' (normalizeFQDN P rawGovernanceId False)
            else Inr rawGovernanceId) (\<lambda>governanceId.
     bindE (optionalString raw ''policyFlags'') (\<lambda>policyFlags.
     bindE (optionalString raw ''maxKeyAge'') (\<lambda>maxKeyAge.
     bindE (optionalString raw ''ekUrl'') (\<lambda>ekUrl.
     bindE (optionalString raw ''kuUrl'') (\<lambda>kuUrl.
     bindE (optionalString raw ''publishProfile'') (\<lambda>publishProfile.
     bindE (optionalString raw ''capabilitiesUrl'') (\<lambda>capabilitiesUrl.
     Inr \<lparr>ic_domain = domain, ic_governanceId = governanceId, ic_logRef = logRef, ic_statusUrl = statusUrl,
          ic_policyFlags = policyFlags, ic_maxKeyAge = maxKeyAge, ic_ekUrl = ekUrl, ic_kuUrl = kuUrl,
          ic_publishProfile = publishProfile, ic_capabilitiesUrl = capabilitiesUrl\<rparr>)))))))))))))"

section \<open>Trusted entities\<close>

text \<open>
  43 characters of the base64url alphabet, the last of which carries no stray bits: its value is a
  multiple of four.
\<close>

definition base64urlChar :: "nat \<Rightarrow> bool" where
  "base64urlChar c \<longleftrightarrow> isUpper c \<or> isLower c \<or> isDigit c \<or> c = 95 \<or> c = 45"

definition isThumbprint :: "jstring \<Rightarrow> bool" where
  "isThumbprint p \<longleftrightarrow> length p = 43 \<and> (\<forall>c \<in> set p. base64urlChar c) \<and> p ! 42 \<in> set (js ''AEIMQUYcgkosw048'')"

definition pinOf :: "json \<Rightarrow> jstring option" where
  "pinOf v = (case v of JStr p \<Rightarrow> if isThumbprint p then Some p else None | _ \<Rightarrow> None)"

definition validatePins :: "json \<Rightarrow> js_error + jstring list option" where
  "validatePins pins =
     (case pins of
        JUndef \<Rightarrow> Inr None
      | JArr (v # vs) \<Rightarrow>
          if \<exists>p \<in> set (v # vs). pinOf p = None
          then Inl (ArgumentError ''entityKeyThumbprints must contain canonical base64url SHA-256 thumbprints'')
          else let ps = map (\<lambda>p. the (pinOf p)) (v # vs) in
            if \<not> distinct ps then Inl (ArgumentError ''entityKeyThumbprints contains duplicates'')
            else Inr (Some ps)
      | _ \<Rightarrow> Inl (ArgumentError ''entityKeyThumbprints must be a non-empty array''))"

text \<open>One entry, with the governance identifiers seen so far.\<close>

definition validateTrustedEntity :: "platform \<Rightarrow> jstring list \<Rightarrow> json \<Rightarrow> js_error + TrustedEntity" where
  "validateTrustedEntity P seen entry =
     bindE (requireObject entry [''governanceId'', ''entityKeyThumbprints'']) (\<lambda>raw.
     case propOf raw ''governanceId'' of
       JStr g \<Rightarrow>
         bindE (argumentOnFailure ''governanceId is not a valid domain'' (normalizeFQDN P g False)) (\<lambda>governanceId.
         bindE (assertE (governanceId \<notin> set seen) (ArgumentError ''governanceId duplicates an earlier entry'')) (\<lambda>_.
         bindE (validatePins (propOf raw ''entityKeyThumbprints'')) (\<lambda>pins.
         Inr \<lparr>te_governanceId = governanceId, te_entityKeyThumbprints = pins\<rparr>)))
     | _ \<Rightarrow> Inl (ArgumentError ''governanceId must be a string''))"

fun validateEntries :: "platform \<Rightarrow> jstring list \<Rightarrow> json list \<Rightarrow> js_error + TrustedEntity list" where
  "validateEntries P seen [] = Inr []"
| "validateEntries P seen (entry # entries) =
     bindE (validateTrustedEntity P seen entry) (\<lambda>e.
     bindE (validateEntries P (te_governanceId e # seen) entries) (\<lambda>es. Inr (e # es)))"

definition validateTrustedEntities :: "platform \<Rightarrow> json \<Rightarrow> js_error + TrustedEntity list" where
  "validateTrustedEntities P value =
     (case value of
        JArr entries \<Rightarrow> validateEntries P [] entries
      | _ \<Rightarrow> Inl (ArgumentError ''config.verification.trustedEntities must be an array''))"

section \<open>Verification and transport\<close>

record VerificationConfig =
  vc_statusCheckInterval :: "rat option"
  vc_dnssecMode :: "DNSSECMode option"
  vc_trustedEntities :: "TrustedEntity list option"

definition validateInterval :: "json \<Rightarrow> js_error + rat option" where
  "validateInterval v =
     (let bad = Inl (ArgumentError ''config.verification.statusCheckInterval must be a finite non-negative number'') in
      case v of
        JUndef \<Rightarrow> Inr None
      | JNum n \<Rightarrow> (case finiteNum n of None \<Rightarrow> bad | Some q \<Rightarrow> if q < 0 then bad else Inr (Some q))
      | _ \<Rightarrow> bad)"

definition validateDnssecMode :: "json \<Rightarrow> js_error + DNSSECMode option" where
  "validateDnssecMode v =
     (if v = JUndef then Inr None
      else if isStr v ''auto'' then Inr (Some Auto)
      else if isStr v ''validated'' then Inr (Some Validated)
      else if isStr v ''required'' then Inr (Some Required)
      else Inl (ArgumentError ''config.verification.dnssecMode must be one of auto, validated, required''))"

definition validateVerification :: "platform \<Rightarrow> json \<Rightarrow> js_error + VerificationConfig" where
  "validateVerification P value =
     bindE (requireObject value VERIFICATION_KEYS) (\<lambda>raw.
     bindE (validateInterval (propOf raw ''statusCheckInterval'')) (\<lambda>interval.
     bindE (validateDnssecMode (propOf raw ''dnssecMode'')) (\<lambda>mode.
     bindE (if propOf raw ''trustedEntities'' = JUndef then Inr None
            else bindE (validateTrustedEntities P (propOf raw ''trustedEntities'')) (\<lambda>es. Inr (Some es))) (\<lambda>entities.
     Inr \<lparr>vc_statusCheckInterval = interval, vc_dnssecMode = mode, vc_trustedEntities = entities\<rparr>))))"

record TransportConfig =
  tr_dnsServer :: "jstring option"
  tr_caBundlePath :: "jstring option"
  tr_privateAddressHosts :: "jstring list option"

definition isIpv4Literal :: "jstring \<Rightarrow> bool" where
  "isIpv4Literal h \<longleftrightarrow> (let ps = split_on 46 h in length ps = 4 \<and>
     (\<forall>p \<in> set ps. p \<noteq> [] \<and> length p \<le> 3 \<and> (\<forall>c \<in> set p. isDigit c)))"

definition hostnameLabel :: "jstring \<Rightarrow> bool" where
  "hostnameLabel l \<longleftrightarrow> l \<noteq> [] \<and> (\<forall>c \<in> set l. isLower c \<or> isDigit c \<or> c = 45) \<and> hd l \<noteq> 45 \<and> last l \<noteq> 45"

definition normalizePrivateAddressHost :: "platform \<Rightarrow> jstring \<Rightarrow> js_error + jstring" where
  "normalizePrivateAddressHost P entry =
     (let suffix = starts_with [46] entry;
          host = (if suffix then tl entry else entry);
          bad = Inl (ArgumentError ''invalid privateAddressHosts entry'')
      in case urlParse P (js ''https://'' @ host) of
           None \<Rightarrow> bad
         | Some u \<Rightarrow>
             if host = [] \<or> 47 \<in> set host \<or> 58 \<in> set host \<or> url_username u \<noteq> [] \<or> url_password u \<noteq> [] \<or>
                url_port u \<noteq> [] \<or> url_pathname u \<noteq> js ''/'' \<or> url_search u \<noteq> [] \<or> url_hash u \<noteq> [] \<or>
                starts_with [91] (url_hostname u) \<or> isIpv4Literal (url_hostname u)
             then bad
             else let normalized = (if ends_with [46] (url_hostname u) then butlast (url_hostname u) else url_hostname u) in
               if \<not> (\<forall>l \<in> set (split_on 46 normalized). hostnameLabel l) then bad
               else Inr ((if suffix then [46] else []) @ normalized))"

definition validateHosts :: "platform \<Rightarrow> json \<Rightarrow> js_error + jstring list option" where
  "validateHosts P hosts =
     (case hosts of
        JUndef \<Rightarrow> Inr None
      | JArr vs \<Rightarrow>
          if \<exists>v \<in> set vs. strOf v = None
          then Inl (ArgumentError ''config.transport.privateAddressHosts must be an array of strings'')
          else bindE (mapE (normalizePrivateAddressHost P) (map (\<lambda>v. the (strOf v)) vs)) (\<lambda>hs. Inr (Some hs))
      | _ \<Rightarrow> Inl (ArgumentError ''config.transport.privateAddressHosts must be an array of strings''))"

definition validateTransport :: "platform \<Rightarrow> json \<Rightarrow> js_error + TransportConfig" where
  "validateTransport P value =
     bindE (requireObject value TRANSPORT_KEYS) (\<lambda>raw.
     bindE (optionalString raw ''dnsServer'') (\<lambda>dnsServer.
     bindE (optionalString raw ''caBundlePath'') (\<lambda>caBundlePath.
     bindE (validateHosts P (propOf raw ''privateAddressHosts'')) (\<lambda>hosts.
     Inr \<lparr>tr_dnsServer = dnsServer, tr_caBundlePath = caBundlePath, tr_privateAddressHosts = hosts\<rparr>))))"

section \<open>The configuration\<close>

record DnsidConfig =
  dc_identity :: "IdentityConfig option"
  dc_verification :: VerificationConfig
  dc_transport :: TransportConfig

definition orEmpty :: "json \<Rightarrow> json" where
  "orEmpty v = (if nullish v then JObj [] else v)"

definition validateDnsidConfig :: "platform \<Rightarrow> json \<Rightarrow> js_error + DnsidConfig" where
  "validateDnsidConfig P config =
     bindE (requireObject (if config = JUndef then JObj [] else config) [''identity'', ''verification'', ''transport'']) (\<lambda>raw.
     bindE (if propOf raw ''identity'' = JUndef then Inr None
            else bindE (validateIdentity P (propOf raw ''identity'')) (\<lambda>i. Inr (Some i))) (\<lambda>identity.
     bindE (validateVerification P (orEmpty (propOf raw ''verification''))) (\<lambda>verification.
     bindE (validateTransport P (orEmpty (propOf raw ''transport''))) (\<lambda>transport.
     Inr \<lparr>dc_identity = identity, dc_verification = verification, dc_transport = transport\<rparr>))))"

text \<open>
  The constructor's checks on the dependencies and the transport settings, and the manager it makes.
  The \<open>LogRegistry\<close> is copied; the cache gets a namespace of its own, so that the manager's view of it
  is a fresh store.
\<close>

definition constructManager ::
    "platform \<Rightarrow> json \<Rightarrow> bool \<Rightarrow> bool \<Rightarrow> LogRegistry option \<Rightarrow> (jstring \<Rightarrow> dns_result) option \<Rightarrow>
     (jstring \<Rightarrow> JsonFetchOptions \<Rightarrow> js_error + FetchResult) option \<Rightarrow>
     js_error + DnsidConfig \<times> manager \<times> LogReader option" where
  "constructManager P config hasKeyProvider hasEntityKeyProvider logRegistry dnsResolver fetchJson =
     bindE (validateDnsidConfig P config) (\<lambda>cfg.
     bindE (case dc_identity cfg of
         Some _ \<Rightarrow> assertE hasKeyProvider (ArgumentError ''deps.keyProvider is required when config.identity is set'')
       | None \<Rightarrow> assertE (\<not> hasKeyProvider \<and> \<not> hasEntityKeyProvider)
           (ArgumentError ''key providers have no consumer without config.identity'')) (\<lambda>_.
     bindE (assertE (tr_dnsServer (dc_transport cfg) = None)
       (ArgumentError ''config.transport.dnsServer has no SDK-managed consumer here'')) (\<lambda>_.
     bindE (assertE (tr_caBundlePath (dc_transport cfg) = None)
       (ArgumentError ''config.transport.caBundlePath has no SDK-managed consumer here'')) (\<lambda>_.
     bindE (assertE (tr_privateAddressHosts (dc_transport cfg) = None)
       (ArgumentError ''config.transport.privateAddressHosts has no SDK-managed consumer here'')) (\<lambda>_.
     bindE (case logRegistry of None \<Rightarrow> Inr None | Some reg \<Rightarrow> bindE (snapshotRegistry reg) (\<lambda>r. Inr (Some r))) (\<lambda>registry.
     bindE (case (dc_identity cfg, logRegistry) of
         (Some identity, Some reg) \<Rightarrow>
           bindE (argumentOnFailure ''config.identity.logRef is malformed'' (newReader reg (ic_logRef identity) False))
             (\<lambda>reader. Inr (Some reader))
       | _ \<Rightarrow> Inr None) (\<lambda>binding.
     Inr (cfg, \<lparr>m_dnssecMode = vc_dnssecMode (dc_verification cfg),
            m_trustedEntities = vc_trustedEntities (dc_verification cfg),
            m_statusCheckInterval = vc_statusCheckInterval (dc_verification cfg),
            m_dnsResolver = dnsResolver, m_fetchJson = fetchJson,
            m_logRegistry = registry\<rparr>, binding))))))))"

section \<open>Pins are thumbprints\<close>

lemma toSextets_sextets:
  "\<forall>x \<in> set xs. x < 64 \<Longrightarrow> length xs mod 4 = 3 \<Longrightarrow> last xs mod 4 = 0 \<Longrightarrow> toSextets (sextets xs) = xs"
proof (induction xs rule: sextets.induct)
  case (1 a b c d s)
  then have "length s mod 4 = 3" by simp
  then have "s \<noteq> []" by auto
  with 1 have "toSextets (sextets s) = s" by auto
  moreover have "a < 64" "b < 64" "c < 64" "d < 64" using "1.prems"(1) by auto
  then have "(a * 4 + b div 16) div 4 = a" "(a * 4 + b div 16) mod 4 = b div 16"
    "(b mod 16 * 16 + c div 4) div 16 = b mod 16" "(b mod 16 * 16 + c div 4) mod 16 = c div 4"
    "(c mod 4 * 64 + d) div 64 = c mod 4" "(c mod 4 * 64 + d) mod 64 = d"
    by auto
  ultimately show ?case by simp
next
  case (2 a b c)
  then have "a < 64" "b < 64" "c < 64" "c mod 4 = 0" by auto
  then have "(a * 4 + b div 16) div 4 = a" "(a * 4 + b div 16) mod 4 = b div 16"
    "(b mod 16 * 16 + c div 4) div 16 = b mod 16" "(b mod 16 * 16 + c div 4) mod 16 = c div 4"
    "c div 4 * 4 = c"
    by auto
  then show ?case by simp
qed auto

lemma length_sextets: "length xs mod 4 = 3 \<Longrightarrow> length (sextets xs) = 3 * (length xs div 4) + 2"
  by (induction xs rule: sextets.induct) auto

lemma sextets_less: "\<forall>x \<in> set xs. x < 64 \<Longrightarrow> c \<in> set (sextets xs) \<Longrightarrow> c < 256"
  by (induction xs rule: sextets.induct) auto

lemma length_toSextets: "length (toSextets s) = (4 * length s + 2) div 3"
  by (induction s rule: toSextets.induct) auto

lemma last_toSextets: "length s mod 3 = 2 \<Longrightarrow> last (toSextets s) mod 4 = 0"
proof (induction s rule: toSextets.induct)
  case (4 a b c s)
  then have len: "length s mod 3 = 2" by simp
  then have "toSextets s \<noteq> []" by (cases s rule: toSextets.cases) auto
  with 4 len show ?case by simp
qed simp_all

definition urlAlphabet :: "nat \<Rightarrow> nat" where
  "urlAlphabet i = (if b64char i = 43 then 45 else if b64char i = 47 then 95 else b64char i)"

lemma urlAlphabet_ranges:
  "i < 26 \<Longrightarrow> urlAlphabet i = 65 + i" "26 \<le> i \<Longrightarrow> i < 52 \<Longrightarrow> urlAlphabet i = 71 + i"
  "52 \<le> i \<Longrightarrow> i < 62 \<Longrightarrow> urlAlphabet i = i - 4" "urlAlphabet 62 = 45" "urlAlphabet 63 = 95"
  by (simp_all add: urlAlphabet_def b64char_def) linarith

lemma sextet_ranges:
  fixes i :: nat
  assumes "i < 64"
  obtains "i < 26" | "26 \<le> i" "i < 52" | "52 \<le> i" "i < 62" | "i = 62" | "i = 63"
  using assms by linarith

lemma urlAlphabet_char: "i < 64 \<Longrightarrow> base64urlChar (urlAlphabet i)"
  by (erule sextet_ranges) (simp_all add: urlAlphabet_ranges base64urlChar_def isUpper_def isLower_def isDigit_def, linarith)

lemma urlAlphabet_exists:
  assumes "base64urlChar c"
  shows "\<exists>i < 64. urlAlphabet i = c"
proof -
  consider "isUpper c" | "isLower c" | "isDigit c" | "c = 45" | "c = 95"
    using assms by (auto simp: base64urlChar_def)
  then show ?thesis
  proof cases
    case 1
    then show ?thesis by (intro exI [of _ "c - 65"]) (auto simp: isUpper_def urlAlphabet_ranges)
  next
    case 2
    then show ?thesis by (intro exI [of _ "c - 71"]) (auto simp: isLower_def urlAlphabet_ranges)
  next
    case 3
    then show ?thesis by (intro exI [of _ "c + 4"]) (auto simp: isDigit_def urlAlphabet_ranges)
  next
    case 4
    then show ?thesis by (intro exI [of _ 62]) (simp add: urlAlphabet_ranges)
  next
    case 5
    then show ?thesis by (intro exI [of _ 63]) (simp add: urlAlphabet_ranges)
  qed
qed

lemma urlAlphabet_inj: "i < 64 \<Longrightarrow> j < 64 \<Longrightarrow> urlAlphabet i = urlAlphabet j \<Longrightarrow> i = j"
  by (auto simp: urlAlphabet_def b64char_def split: if_splits)

lemma urlAlphabet_fours:
  "js ''AEIMQUYcgkosw048'' = map urlAlphabet [0, 4, 8, 12, 16, 20, 24, 28, 32, 36, 40, 44, 48, 52, 56, 60]"
  by (simp add: urlAlphabet_def b64char_def)

lemma multiples_of_four:
  fixes i :: nat
  assumes "i < 64"
  shows "i mod 4 = 0 \<longleftrightarrow> i \<in> {0, 4, 8, 12, 16, 20, 24, 28, 32, 36, 40, 44, 48, 52, 56, 60}"
proof
  assume "i mod 4 = 0"
  then obtain q where "i = 4 * q" by (auto elim: dvdE)
  with assms have "q < 16" by simp
  then have "q = 0 \<or> q = 1 \<or> q = 2 \<or> q = 3 \<or> q = 4 \<or> q = 5 \<or> q = 6 \<or> q = 7 \<or> q = 8 \<or> q = 9 \<or> q = 10 \<or>
      q = 11 \<or> q = 12 \<or> q = 13 \<or> q = 14 \<or> q = 15" by presburger
  with \<open>i = 4 * q\<close> show "i \<in> {0, 4, 8, 12, 16, 20, 24, 28, 32, 36, 40, 44, 48, 52, 56, 60}"
    by (elim disjE) simp_all
qed auto

lemma urlAlphabet_canonical:
  assumes "i < 64"
  shows "urlAlphabet i \<in> set (js ''AEIMQUYcgkosw048'') \<longleftrightarrow> i mod 4 = 0"
proof -
  have "urlAlphabet i \<in> urlAlphabet ` S \<longleftrightarrow> i \<in> S" if "\<And>j. j \<in> S \<Longrightarrow> j < 64" for S
    using that assms urlAlphabet_inj by blast
  from this [of "{0, 4, 8, 12, 16, 20, 24, 28, 32, 36, 40, 44, 48, 52, 56, 60}"] show ?thesis
    unfolding multiples_of_four [OF assms] urlAlphabet_fours set_map by (simp only: list.set) force
qed

lemma toBase64Url_urlAlphabet: "toBase64Url bs = map urlAlphabet (toSextets (map unat bs))"
  by (simp add: toBase64Url_sextets urlAlphabet_def)

text \<open>
  The pins a configuration may hold are exactly the thumbprints that can occur: the pattern and
  the check of the last character accept a string exactly when it is the unpadded base64url
  encoding of 32 bytes, so that a comparison of strings is a comparison of hashes.
\<close>

theorem isThumbprint_iff: "isThumbprint p \<longleftrightarrow> (\<exists>bs :: bytes. length bs = 32 \<and> p = toBase64Url bs)"
proof
  assume p: "isThumbprint p"
  then have "\<forall>c \<in> set p. \<exists>i < 64. urlAlphabet i = c" by (simp add: isThumbprint_def urlAlphabet_exists)
  then obtain v where v: "\<And>c. c \<in> set p \<Longrightarrow> v c < 64 \<and> urlAlphabet (v c) = c" by metis
  let ?xs = "map v p"
  have xs: "\<forall>x \<in> set ?xs. x < 64" "map urlAlphabet ?xs = p"
    using v by (auto simp: comp_def intro: map_idI)
  have len: "length p = 43" using p by (simp add: isThumbprint_def)
  then have "p \<noteq> []" "p ! 42 \<in> set p" by auto
  moreover from this len have "last ?xs = v (p ! 42)" by (simp add: last_conv_nth)
  ultimately have "last ?xs mod 4 = 0"
    using urlAlphabet_canonical [of "last ?xs"] v [of "p ! 42"] p by (simp add: isThumbprint_def)
  then have "toSextets (sextets ?xs) = ?xs"
    using xs(1) len by (intro toSextets_sextets) simp_all
  moreover have "map unat (map of_nat (sextets ?xs) :: bytes) = sextets ?xs"
    using sextets_less [OF xs(1)] by (auto simp: unat_of_nat comp_def take_bit_nat_eq_self intro!: map_idI)
  ultimately have "toBase64Url (map of_nat (sextets ?xs)) = p"
    using xs(2) by (simp add: toBase64Url_urlAlphabet)
  moreover have "length (map of_nat (sextets ?xs) :: bytes) = 32"
    using len by (simp add: length_sextets)
  ultimately show "\<exists>bs :: bytes. length bs = 32 \<and> p = toBase64Url bs" by metis
next
  assume "\<exists>bs :: bytes. length bs = 32 \<and> p = toBase64Url bs"
  then obtain bs :: bytes where bs: "length bs = 32" "p = toBase64Url bs" by blast
  let ?xs = "toSextets (map unat bs)"
  have less: "\<forall>x \<in> set ?xs. x < 64" using toSextets_less [OF map_unat_bytes] by blast
  have len: "length ?xs = 43" using bs(1) by (simp add: length_toSextets)
  then have "?xs \<noteq> []" by auto
  moreover from this len have "last ?xs = ?xs ! 42" by (simp add: last_conv_nth)
  moreover have "last ?xs mod 4 = 0" using bs(1) by (intro last_toSextets) simp
  ultimately have "urlAlphabet (?xs ! 42) \<in> set (js ''AEIMQUYcgkosw048'')"
    using urlAlphabet_canonical [of "?xs ! 42"] less len by auto
  then show "isThumbprint p"
    using less len urlAlphabet_char by (auto simp: bs(2) toBase64Url_urlAlphabet isThumbprint_def)
qed

section \<open>What a validated configuration is\<close>

lemma validatePins_Inr:
  "validatePins v = Inr (Some ps) \<Longrightarrow> ps \<noteq> [] \<and> distinct ps \<and> (\<forall>p \<in> set ps. isThumbprint p)"
proof -
  assume "validatePins v = Inr (Some ps)"
  then obtain w ws where "v = JArr (w # ws)" "\<forall>p \<in> set (w # ws). pinOf p \<noteq> None"
    "distinct (map (\<lambda>p. the (pinOf p)) (w # ws))" "ps = map (\<lambda>p. the (pinOf p)) (w # ws)"
    by (auto simp: validatePins_def Let_def split: json.splits list.splits if_splits)
  moreover have "isThumbprint (the (pinOf p))" if "pinOf p \<noteq> None" for p
    using that by (auto simp: pinOf_def split: json.splits if_splits)
  ultimately show ?thesis by auto
qed

lemma validateTrustedEntity_Inr:
  assumes "validateTrustedEntity P seen entry = Inr e"
  shows "te_governanceId e \<notin> set seen \<and> (\<exists>g. normalizeFQDN P g False = Inr (te_governanceId e)) \<and>
    (\<forall>ps. te_entityKeyThumbprints e = Some ps \<longrightarrow> ps \<noteq> [] \<and> distinct ps \<and> (\<forall>p \<in> set ps. isThumbprint p))"
proof -
  from assms obtain raw where raw: "requireObject entry [''governanceId'', ''entityKeyThumbprints''] = Inr raw"
    by (auto simp: validateTrustedEntity_def bindE_eq_Inr)
  then obtain g pins where "normalizeFQDN P g False = Inr (te_governanceId e)" "te_governanceId e \<notin> set seen"
    "validatePins pins = Inr (te_entityKeyThumbprints e)"
    using assms by (cases "propOf raw ''governanceId''")
      (auto simp: validateTrustedEntity_def argumentOnFailure_def bindE_eq_Inr catchE_eq_Inr assertE_eq_Inr)
  then show ?thesis using validatePins_Inr by fastforce
qed

lemma validateEntries_Inr:
  assumes "validateEntries P seen vs = Inr es"
  shows "distinct (map te_governanceId es) \<and> set (map te_governanceId es) \<inter> set seen = {} \<and>
    (\<forall>e \<in> set es. (\<exists>g. normalizeFQDN P g False = Inr (te_governanceId e)) \<and>
      (\<forall>ps. te_entityKeyThumbprints e = Some ps \<longrightarrow> ps \<noteq> [] \<and> distinct ps \<and> (\<forall>p \<in> set ps. isThumbprint p)))"
  using assms
proof (induction vs arbitrary: seen es)
  case (Cons v vs)
  then obtain e es' where e: "validateTrustedEntity P seen v = Inr e" "es = e # es'"
    "validateEntries P (te_governanceId e # seen) vs = Inr es'"
    by (auto simp: bindE_eq_Inr)
  with Cons.IH [OF e(3)] validateTrustedEntity_Inr [OF e(1)] show ?case by auto
qed simp

text \<open>
  The normal form of an entry of \<open>privateAddressHosts\<close>: the host name that the URL parser reads, without a final
  dot, in lower-case labels, behind a dot when the entry is a suffix.
\<close>

definition privateHost :: "platform \<Rightarrow> jstring \<Rightarrow> jstring \<Rightarrow> bool" where
  "privateHost P entry h \<longleftrightarrow>
     (\<exists>u n. urlParse P (js ''https://'' @ (if starts_with [46] entry then tl entry else entry)) = Some u \<and> \<not> isIpv4Literal (url_hostname u) \<and>
        (url_hostname u = n \<or> url_hostname u = n @ [46]) \<and> (\<forall>l \<in> set (split_on 46 n). hostnameLabel l) \<and>
        h = (if starts_with [46] entry then 46 # n else n))"

lemma normalizePrivateAddressHost_Inr:
  assumes "normalizePrivateAddressHost P entry = Inr h"
  shows "privateHost P entry h"
proof -
  let ?host = "if starts_with [46] entry then tl entry else entry"
  from assms obtain u where u: "urlParse P (js ''https://'' @ ?host) = Some u"
    by (auto simp: normalizePrivateAddressHost_def Let_def simp del: js_Cons split: option.splits)
  let ?n = "if ends_with [46] (url_hostname u) then butlast (url_hostname u) else url_hostname u"
  have "\<not> isIpv4Literal (url_hostname u)" "\<forall>l \<in> set (split_on 46 ?n). hostnameLabel l" "h = (if starts_with [46] entry then [46] else []) @ ?n"
    using assms u by (auto simp: normalizePrivateAddressHost_def Let_def simp del: js_Cons split: if_splits)
  moreover have "url_hostname u = ?n \<or> url_hostname u = ?n @ [46]"
    by (cases "url_hostname u" rule: rev_cases) (auto simp: ends_with_def)
  ultimately show ?thesis using u unfolding privateHost_def by (intro exI [of _ u] exI [of _ ?n]) (simp del: js_Cons)
qed

lemma validateIdentity_Inr:
  assumes "validateIdentity P raw = Inr i"
  shows "\<exists>d g. propOf raw ''domain'' = JStr d \<and> normalizeFQDN P d True = Inr (ic_domain i) \<and> propOf raw ''governanceId'' = JStr g \<and>
    (if isDomainName g then normalizeFQDN P g False = Inr (ic_governanceId i) else ic_governanceId i = g) \<and>
    propOf raw ''logRef'' = JStr (ic_logRef i) \<and> ic_logRef i \<noteq> [] \<and> propOf raw ''statusUrl'' = JStr (ic_statusUrl i) \<and> ic_statusUrl i \<noteq> []"
proof -
  have required: "propOf v k = JStr s \<and> s \<noteq> []" if "requiredString v k = Inr s" for v k s
    using that by (auto simp: requiredString_def optionalString_def bindE_eq_Inr split: json.splits option.splits list.splits)
  have failure: "r = Inr x" if "argumentOnFailure m r = Inr x" for m and r :: "js_error + jstring" and x
    using that by (auto simp: argumentOnFailure_def catchE_eq_Inr)
  from assms obtain d g where "requiredString raw ''domain'' = Inr d" "requiredString raw ''governanceId'' = Inr g"
      "requiredString raw ''logRef'' = Inr (ic_logRef i)" "requiredString raw ''statusUrl'' = Inr (ic_statusUrl i)"
      "argumentOnFailure ''config.identity.domain is not a valid agent FQDN'' (normalizeFQDN P d True) = Inr (ic_domain i)"
      "(if isDomainName g then argumentOnFailure ''config.identity.governanceId is not a valid FQDN'' (normalizeFQDN P g False) else Inr g) = Inr (ic_governanceId i)"
    by (cases raw) (auto simp: validateIdentity_def requireObject_def bindE_eq_Inr split: if_splits)
  then show ?thesis using required failure by (intro exI [of _ d] exI [of _ g]) (auto split: if_splits)
qed

lemma validateHosts_Inr:
  assumes "validateHosts P v = Inr (Some hs)"
  shows "\<exists>vs. v = JArr vs \<and> list_all2 (\<lambda>x h. \<exists>entry. x = JStr entry \<and> privateHost P entry h) vs hs"
proof -
  from assms obtain vs where v: "v = JArr vs" "\<forall>x \<in> set vs. strOf x \<noteq> None" "mapE (normalizePrivateAddressHost P) (map (\<lambda>x. the (strOf x)) vs) = Inr hs"
    by (cases v) (auto simp: validateHosts_def bindE_eq_Inr split: if_splits)
  have strs: "x = JStr (the (strOf x))" if "strOf x \<noteq> None" for x using that by (cases x) auto
  from v(3) have "list_all2 (\<lambda>x h. normalizePrivateAddressHost P (the (strOf x)) = Inr h) vs hs" by (simp add: mapE_eq_Inr list_all2_map1)
  then have "list_all2 (\<lambda>x h. \<exists>entry. x = JStr entry \<and> privateHost P entry h) vs hs"
    by (rule list.rel_mono_strong) (use v(2) strs normalizePrivateAddressHost_Inr in blast)
  then show ?thesis using v(1) by blast
qed

text \<open>
  C34. What a validated configuration guarantees to the manager. Its identity has the normal form of the
  configured agent name, the normal form of the configured governance identifier when that is a domain name
  (and the identifier itself otherwise), and a log reference and a status URL; the status interval is not
  negative; every list of trusted entities names each governance domain once, in normal form, with pins that
  are absent or a non-empty set of SHA-256 thumbprints; and the hosts that may have private addresses are the
  normal forms of the configured entries, in order.
\<close>

theorem validateDnsidConfig_wf:
  assumes "validateDnsidConfig P config = Inr cfg"
  shows "(\<forall>i. dc_identity cfg = Some i \<longrightarrow>
      (\<exists>d g. propOf (propOf config ''identity'') ''domain'' = JStr d \<and> normalizeFQDN P d True = Inr (ic_domain i) \<and>
        propOf (propOf config ''identity'') ''governanceId'' = JStr g \<and>
        (if isDomainName g then normalizeFQDN P g False = Inr (ic_governanceId i) else ic_governanceId i = g)) \<and>
      ic_logRef i \<noteq> [] \<and> ic_statusUrl i \<noteq> []) \<and>
    (\<forall>q. vc_statusCheckInterval (dc_verification cfg) = Some q \<longrightarrow> 0 \<le> q) \<and>
    (\<forall>es. vc_trustedEntities (dc_verification cfg) = Some es \<longrightarrow> distinct (map te_governanceId es) \<and>
      (\<forall>e \<in> set es. (\<exists>g. normalizeFQDN P g False = Inr (te_governanceId e)) \<and>
        (\<forall>ps. te_entityKeyThumbprints e = Some ps \<longrightarrow> ps \<noteq> [] \<and> distinct ps \<and> (\<forall>p \<in> set ps. isThumbprint p)))) \<and>
    (\<forall>hs. tr_privateAddressHosts (dc_transport cfg) = Some hs \<longrightarrow>
      (\<exists>vs. propOf (propOf config ''transport'') ''privateAddressHosts'' = JArr vs \<and>
        list_all2 (\<lambda>v h. \<exists>entry. v = JStr entry \<and> privateHost P entry h) vs hs))"
proof (intro conjI allI impI)
  fix i assume "dc_identity cfg = Some i"
  then have "validateIdentity P (propOf config ''identity'') = Inr i"
    using assms by (cases config) (auto simp: validateDnsidConfig_def requireObject_def bindE_eq_Inr lookupProp_def simp del: js_Cons split: if_splits)
  note valid = validateIdentity_Inr [OF this]
  then show "\<exists>d g. propOf (propOf config ''identity'') ''domain'' = JStr d \<and> normalizeFQDN P d True = Inr (ic_domain i) \<and>
        propOf (propOf config ''identity'') ''governanceId'' = JStr g \<and>
        (if isDomainName g then normalizeFQDN P g False = Inr (ic_governanceId i) else ic_governanceId i = g)" by blast
  show "ic_logRef i \<noteq> []" "ic_statusUrl i \<noteq> []" using valid by blast+
next
  fix q assume "vc_statusCheckInterval (dc_verification cfg) = Some q"
  then obtain raw where "validateInterval raw = Inr (Some q)"
    using assms by (auto simp: validateDnsidConfig_def validateVerification_def bindE_eq_Inr)
  then show "0 \<le> q"
    by (auto simp: validateInterval_def Let_def split: json.splits option.splits if_splits)
next
  fix es assume "vc_trustedEntities (dc_verification cfg) = Some es"
  then obtain v where v: "validateTrustedEntities P v = Inr es"
    using assms by (auto simp: validateDnsidConfig_def validateVerification_def bindE_eq_Inr split: if_splits)
  then obtain vs where "validateEntries P [] vs = Inr es"
    by (cases v) (simp_all add: validateTrustedEntities_def)
  from validateEntries_Inr [OF this] show "distinct (map te_governanceId es)"
    "\<forall>e \<in> set es. (\<exists>g. normalizeFQDN P g False = Inr (te_governanceId e)) \<and>
        (\<forall>ps. te_entityKeyThumbprints e = Some ps \<longrightarrow> ps \<noteq> [] \<and> distinct ps \<and> (\<forall>p \<in> set ps. isThumbprint p))"
    by simp_all
next
  fix hs assume hs: "tr_privateAddressHosts (dc_transport cfg) = Some hs"
  obtain transport where t: "validateTransport P (orEmpty (propOf (if config = JUndef then JObj [] else config) ''transport'')) = Inr transport" "tr_privateAddressHosts transport = Some hs"
    using assms hs by (cases config) (auto simp: validateDnsidConfig_def requireObject_def bindE_eq_Inr simp del: js_Cons split: if_splits)
  then have "validateHosts P (propOf (orEmpty (propOf (if config = JUndef then JObj [] else config) ''transport'')) ''privateAddressHosts'') = Inr (Some hs)"
    by (cases "orEmpty (propOf (if config = JUndef then JObj [] else config) ''transport'')") (auto simp: validateTransport_def requireObject_def bindE_eq_Inr simp del: js_Cons split: if_splits)
  from validateHosts_Inr [OF this] obtain vs where vs: "propOf (orEmpty (propOf (if config = JUndef then JObj [] else config) ''transport'')) ''privateAddressHosts'' = JArr vs"
      "list_all2 (\<lambda>v h. \<exists>entry. v = JStr entry \<and> privateHost P entry h) vs hs" by blast
  then have "propOf (propOf config ''transport'') ''privateAddressHosts'' = JArr vs"
    by (auto simp: orEmpty_def nullish_def lookupProp_def split: if_splits)
  then show "\<exists>vs. propOf (propOf config ''transport'') ''privateAddressHosts'' = JArr vs \<and>
      list_all2 (\<lambda>v h. \<exists>entry. v = JStr entry \<and> privateHost P entry h) vs hs" using vs(2) by blast
qed

text \<open>
  A configuration with an identity whose names are not in normal form, that trusts one entity under one pin,
  and allows a private host.
\<close>

definition examplePins :: json where
  "examplePins = JObj
     [(js ''identity'', JObj [(js ''domain'', JStr (js ''A.B.'')), (js ''governanceId'', JStr (js ''B.'')), (js ''logRef'', JStr (js ''l'')), (js ''statusUrl'', JStr (js ''s''))]),
      (js ''verification'', JObj [(js ''statusCheckInterval'', JNum (Fin 5)),
        (js ''trustedEntities'', JArr [JObj [(js ''governanceId'', JStr (js ''B.'')),
          (js ''entityKeyThumbprints'', JArr [JStr (toBase64Url (replicate 32 0))])]])]),
      (js ''transport'', JObj [(js ''privateAddressHosts'', JArr [JStr (js ''.b'')])])]"

lemma example_pin: "isThumbprint (toBase64Url (replicate 32 0))"
  unfolding isThumbprint_iff by (rule exI [of _ "replicate 32 0"]) simp

lemma example_names: "normalizeFQDN asciiPlatform (js ''A.B.'') True = Inr (js ''a.b'')" "normalizeFQDN asciiPlatform (js ''B.'') False = Inr (js ''b'')"
    "isDomainName (js ''B.'')" "normalizePrivateAddressHost asciiPlatform (js ''.b'') = Inr (js ''.b'')"
  by (simp_all add: normalizeFQDN_def plainHost_def asciiPlatform_def asciiUrl_def eval_names isDomainName_def domainLabel_def isAlnum_def
      normalizePrivateAddressHost_def Let_def hostnameLabel_def isIpv4Literal_def)

definition exampleConfig :: DnsidConfig where
  "exampleConfig = \<lparr>
     dc_identity = Some \<lparr>ic_domain = js ''a.b'', ic_governanceId = js ''b'', ic_logRef = js ''l'', ic_statusUrl = js ''s'', ic_policyFlags = None, ic_maxKeyAge = None,
       ic_ekUrl = None, ic_kuUrl = None, ic_publishProfile = None, ic_capabilitiesUrl = None\<rparr>,
     dc_verification = \<lparr>vc_statusCheckInterval = Some 5, vc_dnssecMode = None,
       vc_trustedEntities = Some [\<lparr>te_governanceId = js ''b'', te_entityKeyThumbprints = Some [toBase64Url (replicate 32 0)]\<rparr>]\<rparr>,
     dc_transport = \<lparr>tr_dnsServer = None, tr_caBundlePath = None, tr_privateAddressHosts = Some [js ''.b'']\<rparr>\<rparr>"

lemma example_config: "validateDnsidConfig asciiPlatform examplePins = Inr exampleConfig"
  using example_pin example_names
  by (simp add: validateDnsidConfig_def examplePins_def exampleConfig_def requireObject_def validateVerification_def orEmpty_def
      nullish_def validateTransport_def lookupProp_def VERIFICATION_KEYS_def TRANSPORT_KEYS_def IDENTITY_KEYS_def validateInterval_def
      validateDnssecMode_def validateTrustedEntities_def validateTrustedEntity_def argumentOnFailure_def validateIdentity_def requiredString_def
      validatePins_def pinOf_def optionalString_def validateHosts_def isStr_def)

theorem validateDnsidConfig_wf_witness:
  "normalizeFQDN asciiPlatform (js ''A.B.'') True = Inr (js ''a.b'') \<and> normalizeFQDN asciiPlatform (js ''B.'') False = Inr (js ''b'') \<and>
   privateHost asciiPlatform (js ''.b'') (js ''.b'') \<and> (0 :: rat) \<le> 5"
proof -
  have "dc_identity exampleConfig \<noteq> None" "tr_privateAddressHosts (dc_transport exampleConfig) = Some [js ''.b'']"
      "ic_domain (the (dc_identity exampleConfig)) = js ''a.b''" "ic_governanceId (the (dc_identity exampleConfig)) = js ''b''"
      "vc_statusCheckInterval (dc_verification exampleConfig) = Some 5"
    by (simp_all add: exampleConfig_def)
  moreover have "propOf (propOf examplePins ''identity'') ''domain'' = JStr (js ''A.B.'')" "propOf (propOf examplePins ''identity'') ''governanceId'' = JStr (js ''B.'')"
      "propOf (propOf examplePins ''transport'') ''privateAddressHosts'' = JArr [JStr (js ''.b'')]"
    by (simp_all add: examplePins_def lookupProp_def)
  ultimately show ?thesis using validateDnsidConfig_wf [OF example_config] example_names(3)
    by (auto simp del: js_Cons propOf.simps simp: list_all2_Cons1)
qed

end
