(* ===== verification/Signing.thy ===== *)
theory Signing
  imports Config
begin

text \<open>
  Local signing (\<open>protocol/src/identity-manager.ts\<close>): the signatures of lifecycle events, the
  publication of the \<open>_dnsid\<close> record, and the rotation of the operational key. A key provider is an
  injected dependency (\<open>protocol/src/key-provider.ts\<close>); its runtime methods in one state are a
  \<open>KeySigner\<close>, its management methods act on a state of any type. The log binding and the log
  writer are parameters.
\<close>

section \<open>Signers\<close>

record KeySigner =
  sg_signingKey :: "js_error + json"
  sg_jwk :: "jstring \<Rightarrow> js_error + json"
  sg_sign :: "bytes \<Rightarrow> js_error + bytes"
  sg_signKey :: "jstring \<Rightarrow> bytes \<Rightarrow> js_error + bytes"

datatype LogSignerRole = Entity | OperationalCountersignature | PreviousOperational | NewOperational

text \<open>The members of a key, as the code reads them: a string or \<open>undefined\<close>.\<close>

definition memberOf :: "jstring option \<Rightarrow> json" where
  "memberOf v = (case v of None \<Rightarrow> JUndef | Some s \<Rightarrow> JStr s)"

definition kidOf :: "json \<Rightarrow> jstring option" where
  "kidOf key = strOf (propOf key ''kid'')"

section \<open>Signature fields of an event\<close>

fun eventBase :: "LogEvent \<Rightarrow> BaseLogEvent option" where
  "eventBase (ISSUANCE e) = Some (BaseLogEvent.truncate e)"
| "eventBase (KEY_ROTATION e) = Some (BaseLogEvent.truncate e)"
| "eventBase (REVOCATION e) = Some (BaseLogEvent.truncate e)"
| "eventBase (RETIREMENT e) = Some (BaseLogEvent.truncate e)"
| "eventBase (MIGRATION e) = Some (BaseLogEvent.truncate e)"
| "eventBase (DELEGATION e) = Some (BaseLogEvent.truncate e)"
| "eventBase (UnsupportedEvent d t) = None"

fun setEventSig :: "jstring option \<Rightarrow> jstring \<Rightarrow> LogEvent \<Rightarrow> LogEvent" where
  "setEventSig kid s (ISSUANCE e) = ISSUANCE (e\<lparr>ev_signingKid := kid, ev_sig := Some s\<rparr>)"
| "setEventSig kid s (KEY_ROTATION e) = KEY_ROTATION (e\<lparr>ev_signingKid := kid, ev_sig := Some s\<rparr>)"
| "setEventSig kid s (REVOCATION e) = REVOCATION (e\<lparr>ev_signingKid := kid, ev_sig := Some s\<rparr>)"
| "setEventSig kid s (RETIREMENT e) = RETIREMENT (e\<lparr>ev_signingKid := kid, ev_sig := Some s\<rparr>)"
| "setEventSig kid s (MIGRATION e) = MIGRATION (e\<lparr>ev_signingKid := kid, ev_sig := Some s\<rparr>)"
| "setEventSig kid s (DELEGATION e) = DELEGATION (e\<lparr>ev_signingKid := kid, ev_sig := Some s\<rparr>)"
| "setEventSig kid s (UnsupportedEvent d t) = UnsupportedEvent d t"

definition present :: "jstring option \<Rightarrow> bool" where
  "present v \<longleftrightarrow> v \<noteq> None \<and> v \<noteq> Some []"

definition hasLogSignature :: "LogEvent \<Rightarrow> LogSignerRole \<Rightarrow> bool" where
  "hasLogSignature event role =
     (case eventBase event of
        None \<Rightarrow> False
      | Some b \<Rightarrow>
          (case role of
             OperationalCountersignature \<Rightarrow> present (ev_operationalCountersig b)
           | NewOperational \<Rightarrow> (case event of KEY_ROTATION _ \<Rightarrow> present (ev_newOperationalProof b) | _ \<Rightarrow> False)
           | _ \<Rightarrow> present (ev_sig b)))"

text \<open>A \<open>Set\<close> of roles keeps the order of first occurrence.\<close>

fun firstOccurrences :: "'a list \<Rightarrow> 'a list" where
  "firstOccurrences [] = []"
| "firstOccurrences (x # xs) = x # filter (\<lambda>y. y \<noteq> x) (firstOccurrences xs)"

definition baseRoles :: "LogEvent \<Rightarrow> LogSignerRole list" where
  "baseRoles event =
     (case event of
        ISSUANCE _ \<Rightarrow> [Entity, OperationalCountersignature]
      | KEY_ROTATION _ \<Rightarrow> [PreviousOperational]
      | _ \<Rightarrow> [Entity])"

definition requiredLogSignaturesFor ::
    "LogEvent \<Rightarrow> (LogEvent \<Rightarrow> LogSignerRole list) option \<Rightarrow> LogSignerRole list" where
  "requiredLogSignaturesFor event additional =
     firstOccurrences (baseRoles event @ (case additional of None \<Rightarrow> [] | Some f \<Rightarrow> f event))"

section \<open>Signing an event\<close>

record log_binding =
  lb_canonical :: "LogEvent \<Rightarrow> js_error + bytes"
  lb_additionalSignerRoles :: "(LogEvent \<Rightarrow> LogSignerRole list) option"

definition requiredLogSignatures :: "log_binding option \<Rightarrow> LogEvent \<Rightarrow> LogSignerRole list" where
  "requiredLogSignatures binding event =
     requiredLogSignaturesFor event (case binding of None \<Rightarrow> None | Some b \<Rightarrow> lb_additionalSignerRoles b)"

definition canonicalizeLogEvent :: "log_binding option \<Rightarrow> LogEvent \<Rightarrow> js_error + bytes" where
  "canonicalizeLogEvent binding event =
     (case binding of None \<Rightarrow> Inl (ArgumentError ''local log binding is required'') | Some b \<Rightarrow> lb_canonical b event)"

definition assertIssuanceEntityKey :: "crypto \<Rightarrow> IssuanceEvent \<Rightarrow> json \<Rightarrow> js_error + unit" where
  "assertIssuanceEntityKey C e key =
     (let bad = Inl (ArgumentError ''ISSUANCE entity key metadata does not match the active entity key'') in
      if memberOf (ie_initialEntityKid e) \<noteq> propOf key ''kid'' \<or> memberOf (ie_initialEntityAlg e) \<noteq> propOf key ''alg''
      then bad
      else bindE (joseThumbprint C key) (\<lambda>t. if ie_initialEntityThumbprint e \<noteq> Some t then bad else Inr ()))"

definition assertIssuanceOperationalKey :: "crypto \<Rightarrow> IssuanceEvent \<Rightarrow> json \<Rightarrow> js_error + unit" where
  "assertIssuanceOperationalKey C e key =
     (let bad = Inl (ArgumentError ''ISSUANCE operational key metadata does not match the active operational key'') in
      if memberOf (ie_initialOperationalKid e) \<noteq> propOf key ''kid'' \<or> memberOf (ie_initialOperationalAlg e) \<noteq> propOf key ''alg''
      then bad
      else bindE (joseThumbprint C key) (\<lambda>t. if ie_initialOperationalThumbprint e \<noteq> Some t then bad else Inr ()))"

text \<open>The recorded metadata of the new key of a rotation against a key.\<close>

definition assertNewOperationalKey :: "crypto \<Rightarrow> KeyRotationEvent \<Rightarrow> json \<Rightarrow> js_error + unit" where
  "assertNewOperationalKey C e key =
     (let bad = Inl (ArgumentError ''KEY_ROTATION new operational key metadata mismatch'') in
      if JStr (kr_newOperationalKid e) \<noteq> propOf key ''kid'' \<or> JStr (kr_newOperationalAlg e) \<noteq> propOf key ''alg''
      then bad
      else bindE (joseThumbprint C key) (\<lambda>t. if kr_newOperationalThumbprint e \<noteq> t then bad else Inr ()))"

definition signAsEntity :: "crypto \<Rightarrow> KeySigner \<Rightarrow> LogEvent \<Rightarrow> bytes \<Rightarrow> js_error + LogEvent" where
  "signAsEntity C signer event bs =
     bindE (sg_signingKey signer) (\<lambda>key.
     bindE (case event of ISSUANCE e \<Rightarrow> assertIssuanceEntityKey C e key | _ \<Rightarrow> Inr ()) (\<lambda>_.
     bindE (sg_sign signer bs) (\<lambda>s. Inr (setEventSig (kidOf key) (toBase64Url s) event))))"

definition countersign :: "crypto \<Rightarrow> KeySigner \<Rightarrow> LogEvent \<Rightarrow> bytes \<Rightarrow> js_error + LogEvent" where
  "countersign C signer event bs =
     (case event of
        ISSUANCE e \<Rightarrow>
          bindE (sg_signingKey signer) (\<lambda>key.
          bindE (assertIssuanceOperationalKey C e key) (\<lambda>_.
          bindE (sg_sign signer bs) (\<lambda>s. Inr (ISSUANCE (e\<lparr>ev_operationalCountersig := Some (toBase64Url s)\<rparr>)))))
      | _ \<Rightarrow> Inl (ArgumentError ''operational countersignature is only valid for ISSUANCE''))"

definition signAsPrevious :: "crypto \<Rightarrow> KeySigner \<Rightarrow> LogEvent \<Rightarrow> bytes \<Rightarrow> js_error + LogEvent" where
  "signAsPrevious C signer event bs =
     (case event of
        KEY_ROTATION e \<Rightarrow>
          bindE (sg_jwk signer (kr_previousOperationalKid e)) (\<lambda>key.
          bindE (joseThumbprint C key) (\<lambda>t.
          bindE (assertE (kr_previousOperationalThumbprint e = t)
            (ArgumentError ''KEY_ROTATION previous operational key metadata mismatch'')) (\<lambda>_.
          bindE (assertNewOperationalKey C e (kr_newOperationalPublicKey e)) (\<lambda>_.
          bindE (sg_signKey signer (case kidOf key of None \<Rightarrow> [] | Some k \<Rightarrow> k) bs) (\<lambda>s.
          Inr (setEventSig (kidOf key) (toBase64Url s) event))))))
      | _ \<Rightarrow> Inl (ArgumentError ''previous-operational signature is only valid for KEY_ROTATION''))"

definition proveNew :: "crypto \<Rightarrow> KeySigner \<Rightarrow> LogEvent \<Rightarrow> bytes \<Rightarrow> js_error + LogEvent" where
  "proveNew C signer event bs =
     (case event of
        KEY_ROTATION e \<Rightarrow>
          bindE (sg_jwk signer (kr_newOperationalKid e)) (\<lambda>key.
          bindE (assertNewOperationalKey C e key) (\<lambda>_.
          bindE (sg_signKey signer (case kidOf key of None \<Rightarrow> [] | Some k \<Rightarrow> k) bs) (\<lambda>s.
          Inr (KEY_ROTATION (e\<lparr>ev_newOperationalProof := Some (toBase64Url s)\<rparr>)))))
      | _ \<Rightarrow> Inl (ArgumentError ''new-operational signature is only valid for KEY_ROTATION''))"

definition signEventWithProvider ::
    "crypto \<Rightarrow> log_binding option \<Rightarrow> LogEvent \<Rightarrow> LogSignerRole \<Rightarrow> KeySigner \<Rightarrow> js_error + LogEvent" where
  "signEventWithProvider C binding event role signer =
     (case binding of
        None \<Rightarrow> Inl (ArgumentError ''local log binding is required'')
      | Some b \<Rightarrow>
          bindE (assertE (role \<in> set (requiredLogSignaturesFor event (lb_additionalSignerRoles b)))
            (ArgumentError ''role is not an authorized signer role for this event'')) (\<lambda>_.
          bindE (lb_canonical b event) (\<lambda>bs.
          case role of
            Entity \<Rightarrow> signAsEntity C signer event bs
          | OperationalCountersignature \<Rightarrow> countersign C signer event bs
          | PreviousOperational \<Rightarrow> signAsPrevious C signer event bs
          | NewOperational \<Rightarrow> proveNew C signer event bs)))"

definition signEvent ::
    "crypto \<Rightarrow> log_binding option \<Rightarrow> KeySigner option \<Rightarrow> KeySigner option \<Rightarrow> LogEvent \<Rightarrow> LogSignerRole \<Rightarrow>
     js_error + LogEvent" where
  "signEvent C binding entitySigner keySigner event role =
     (case (if role = Entity then entitySigner else keySigner) of
        None \<Rightarrow> Inl (ArgumentError (if role = Entity then ''draft-01 event signing requires entityKeyProvider''
                                     else ''local event signing requires a keyProvider''))
      | Some signer \<Rightarrow> signEventWithProvider C binding event role signer)"

definition writeSignedEvent ::
    "log_binding option \<Rightarrow> (LogEvent \<Rightarrow> js_error + jstring) option \<Rightarrow> LogEvent \<Rightarrow> js_error + jstring" where
  "writeSignedEvent binding log' event =
     (case log' of
        None \<Rightarrow> Inl (ArgumentError ''local write log is required'')
      | Some writeEvent \<Rightarrow>
          bindE (assertE (list_all (hasLogSignature event) (requiredLogSignatures binding event))
            (ArgumentError ''missing required signature'')) (\<lambda>_. writeEvent event))"

text \<open>The roles are computed once, before the first signature; the event is changed in place.\<close>

definition signMissing ::
    "crypto \<Rightarrow> log_binding option \<Rightarrow> KeySigner option \<Rightarrow> KeySigner option \<Rightarrow> LogEvent \<Rightarrow> js_error + LogEvent" where
  "signMissing C binding entitySigner keySigner event =
     foldE (\<lambda>e role. if hasLogSignature e role then Inr e else signEvent C binding entitySigner keySigner e role)
       event (requiredLogSignatures binding event)"

definition signAndWriteEvent ::
    "crypto \<Rightarrow> log_binding option \<Rightarrow> (LogEvent \<Rightarrow> js_error + jstring) option \<Rightarrow> KeySigner option \<Rightarrow> KeySigner option \<Rightarrow>
     LogEvent \<Rightarrow> js_error + LogEvent \<times> jstring" where
  "signAndWriteEvent C binding log' entitySigner keySigner event =
     bindE (signMissing C binding entitySigner keySigner event) (\<lambda>e.
     bindE (writeSignedEvent binding log' e) (\<lambda>ref. Inr (e, ref)))"

section \<open>Publication of the record\<close>

definition requireKeyProvider :: "'k option \<Rightarrow> js_error + 'k" where
  "requireKeyProvider kp =
     (case kp of None \<Rightarrow> Inl (ArgumentError ''local signing requires a keyProvider'') | Some k \<Rightarrow> Inr k)"

definition getKeySet :: "KeySigner option \<Rightarrow> js_error + JWKS" where
  "getKeySet keySigner =
     bindE (requireKeyProvider keySigner) (\<lambda>signer.
     bindE (sg_signingKey signer) (\<lambda>key.
     bindE (validateOperational \<lparr>jwks_keys = [key]\<rparr>) (\<lambda>_. Inr \<lparr>jwks_keys = [key]\<rparr>)))"

definition getEntityKeySet :: "KeySigner option \<Rightarrow> js_error + JWKS" where
  "getEntityKeySet entitySigner =
     (case entitySigner of
        None \<Rightarrow> Inl (ArgumentError ''draft-01 GetEntityKeySet requires entityKeyProvider'')
      | Some signer \<Rightarrow>
          bindE (sg_signingKey signer) (\<lambda>key.
          bindE (validateRecordSigning \<lparr>jwks_keys = [key]\<rparr>) (\<lambda>_. Inr \<lparr>jwks_keys = [key]\<rparr>)))"

definition DEFAULT_PUBLISH_PROFILE :: jstring where
  "DEFAULT_PUBLISH_PROFILE = DNSID_DRAFT01_VERSION"

definition createUnsignedTxtRecord :: "platform \<Rightarrow> IdentityConfig option \<Rightarrow> js_error + DnsIdTxtRecord" where
  "createUnsignedTxtRecord P identity =
     (case identity of
        None \<Rightarrow> Inl (ArgumentError ''this operation requires a local identity (config.identity)'')
      | Some i \<Rightarrow>
          let profile = (case ic_publishProfile i of None \<Rightarrow> DEFAULT_PUBLISH_PROFILE | Some p \<Rightarrow> p) in
          bindE (assertE (profile = DEFAULT_PUBLISH_PROFILE) (ArgumentError ''unsupported DNSid publish profile'')) (\<lambda>_.
          bindE (assertE (present (ic_ekUrl i) \<and> present (ic_kuUrl i))
            (ArgumentError ''draft-01 publishing requires ekUrl and kuUrl'')) (\<lambda>_.
          let r = emptyRecord\<lparr>r_v := profile, r_gi := ic_governanceId i, r_ek := the (ic_ekUrl i),
                r_ku := the (ic_kuUrl i), r_lr := ic_logRef i, r_su := ic_statusUrl i, r_agentFQDN := ic_domain i,
                r_fl := (if present (ic_policyFlags i) then ic_policyFlags i else None),
                r_ka := (if present (ic_maxKeyAge i) then ic_maxKeyAge i else None),
                r_cu := (if present (ic_capabilitiesUrl i) then ic_capabilitiesUrl i else None)\<rparr> in
          bindE (argumentOnFailure ''invalid TXT record configuration'' (validate P r)) (\<lambda>_. Inr r))))"

definition createTxtRecord ::
    "platform \<Rightarrow> crypto \<Rightarrow> IdentityConfig option \<Rightarrow> KeySigner option \<Rightarrow> KeySigner option \<Rightarrow> js_error + jstring" where
  "createTxtRecord P C identity entitySigner keySigner =
     bindE (requireKeyProvider keySigner) (\<lambda>operational.
     bindE (createUnsignedTxtRecord P identity) (\<lambda>r.
     case entitySigner of
       None \<Rightarrow> Inl (ArgumentError ''draft-01 CreateTxtRecord requires entityKeyProvider'')
     | Some entity \<Rightarrow>
         bindE (sg_signingKey entity) (\<lambda>signingKey.
         bindE (sg_signingKey operational) (\<lambda>agentKey.
         bindE (validateRecordSigning \<lparr>jwks_keys = [signingKey]\<rparr>) (\<lambda>_.
         bindE (validateOperational \<lparr>jwks_keys = [agentKey]\<rparr>) (\<lambda>_.
         bindE (joseThumbprint C signingKey) (\<lambda>t.
         bindE (joseThumbprint C agentKey) (\<lambda>t'.
         bindE (assertE (t \<noteq> t') (ArgumentError ''draft-01 entity and agent keys must be distinct'')) (\<lambda>_.
         bindE (sg_sign entity (utf8 (canonical r))) (\<lambda>s.
         Inr (serialize (r\<lparr>r_sg := toBase64Url s\<rparr>))))))))))))"

section \<open>Rotation of the operational key\<close>

record 's KeyProvider =
  kp_signer :: "'s \<Rightarrow> KeySigner"
  kp_listKeyIds :: "'s \<Rightarrow> json list"
  kp_generateKey :: "'s \<Rightarrow> (js_error + jstring) \<times> 's"
  kp_activate :: "jstring \<Rightarrow> 's \<Rightarrow> (js_error + unit) \<times> 's"
  kp_supersede :: "jstring \<Rightarrow> 's \<Rightarrow> (js_error + unit) \<times> 's"

text \<open>What a rotation does outside of the key provider, in order.\<close>

datatype rotation_effect = Published JWKS | Written LogEvent jstring

record rotation_env =
  re_domain :: "jstring option"
  re_timestamp :: date
  re_publishKeySet :: "JWKS \<Rightarrow> js_error + unit"
  re_binding :: "log_binding option"
  re_log :: "(LogEvent \<Rightarrow> js_error + jstring) option"
  re_entitySigner :: "KeySigner option"

definition keyText :: "json \<Rightarrow> string \<Rightarrow> jstring" where
  "keyText key k = (case strOf (propOf key k) of None \<Rightarrow> [] | Some s \<Rightarrow> s)"

definition rotationEvent :: "crypto \<Rightarrow> rotation_env \<Rightarrow> json \<Rightarrow> json \<Rightarrow> js_error + KeyRotationEvent" where
  "rotationEvent C env previousKey newKey =
     bindE (assertE (re_timestamp env \<noteq> None) (ArgumentError ''rotation timestamp is invalid'')) (\<lambda>_.
     bindE (case re_domain env of
         None \<Rightarrow> Inl (ArgumentError ''this operation requires a local identity (config.identity)'')
       | Some d \<Rightarrow> Inr d) (\<lambda>domain.
     bindE (joseThumbprint C previousKey) (\<lambda>previousThumbprint.
     bindE (joseThumbprint C newKey) (\<lambda>newThumbprint.
     Inr \<lparr>ev_signingKid = None, ev_sig = None, ev_operationalCountersig = None, ev_newOperationalProof = None,
          kr_domain = domain, kr_previousOperationalKid = keyText previousKey ''kid'',
          kr_previousOperationalThumbprint = previousThumbprint, kr_newOperationalKid = keyText newKey ''kid'',
          kr_newOperationalAlg = keyText newKey ''alg'', kr_newOperationalThumbprint = newThumbprint,
          kr_newOperationalPublicKey = newKey, kr_timestamp = re_timestamp env\<rparr>))))"

text \<open>From the generated key to the written event, in the state after the generation.\<close>

definition prepareRotation ::
    "crypto \<Rightarrow> rotation_env \<Rightarrow> KeySigner \<Rightarrow> json \<Rightarrow> jstring \<Rightarrow> js_error + json \<times> KeyRotationEvent" where
  "prepareRotation C env signer previousKey newKid =
     bindE (sg_jwk signer newKid) (\<lambda>newKey.
     bindE (validateOperational \<lparr>jwks_keys = [newKey]\<rparr>) (\<lambda>_.
     bindE (rotationEvent C env previousKey newKey) (\<lambda>event. Inr (newKey, event))))"

definition publishRotation ::
    "crypto \<Rightarrow> rotation_env \<Rightarrow> KeySigner \<Rightarrow> json \<Rightarrow> KeyRotationEvent \<Rightarrow>
     (js_error + LogEvent \<times> jstring) \<times> rotation_effect list" where
  "publishRotation C env signer newKey event =
     (let keySet = \<lparr>jwks_keys = [newKey]\<rparr> in
      case re_publishKeySet env keySet of
        Inl e \<Rightarrow> (Inl e, [])
      | Inr _ \<Rightarrow>
          (case signAndWriteEvent C (re_binding env) (re_log env) (re_entitySigner env) (Some signer) (KEY_ROTATION event) of
             Inl e \<Rightarrow> (Inl e, [Published keySet])
           | Inr (written, ref) \<Rightarrow> (Inr (written, ref), [Published keySet, Written written ref])))"

definition commitRotation ::
    "'s KeyProvider \<Rightarrow> jstring \<Rightarrow> jstring \<Rightarrow> 's \<Rightarrow> (js_error + unit) \<times> 's" where
  "commitRotation kp newKid previousKid s =
     (case kp_activate kp newKid s of
        (Inl e, s') \<Rightarrow> (Inl e, s')
      | (Inr _, s') \<Rightarrow> kp_supersede kp previousKid s')"

definition rotateWith ::
    "crypto \<Rightarrow> rotation_env \<Rightarrow> 's KeyProvider \<Rightarrow> 's \<Rightarrow> (js_error + LogEvent \<times> jstring \<times> JWKS) \<times> 's \<times> rotation_effect list" where
  "rotateWith C env kp s =
     (case bindE (sg_signingKey (kp_signer kp s)) (\<lambda>previousKey.
           bindE (validateOperational \<lparr>jwks_keys = [previousKey]\<rparr>) (\<lambda>_. Inr previousKey)) of
        Inl e \<Rightarrow> (Inl e, s, [])
      | Inr previousKey \<Rightarrow>
          (case kp_generateKey kp s of
             (Inl e, s1) \<Rightarrow> (Inl e, s1, [])
           | (Inr newKid, s1) \<Rightarrow>
               (case prepareRotation C env (kp_signer kp s1) previousKey newKid of
                  Inl e \<Rightarrow> (Inl e, s1, [])
                | Inr (newKey, event) \<Rightarrow>
                    (case publishRotation C env (kp_signer kp s1) newKey event of
                       (Inl e, effects) \<Rightarrow> (Inl e, s1, effects)
                     | (Inr (written, ref), effects) \<Rightarrow>
                         (case commitRotation kp newKid (keyText previousKey ''kid'') s1 of
                            (Inl e, s2) \<Rightarrow> (Inl e, s2, effects)
                          | (Inr _, s2) \<Rightarrow> (Inr (written, ref, \<lparr>jwks_keys = [newKey]\<rparr>), s2, effects))))))"

definition rotateOperationalKey ::
    "crypto \<Rightarrow> rotation_env \<Rightarrow> 's KeyProvider option \<Rightarrow> 's \<Rightarrow>
     (js_error + LogEvent \<times> jstring \<times> JWKS) \<times> 's \<times> rotation_effect list" where
  "rotateOperationalKey C env keyProvider s =
     (case requireKeyProvider keyProvider of Inl e \<Rightarrow> (Inl e, s, []) | Inr kp \<Rightarrow> rotateWith C env kp s)"

section \<open>What a signature changes\<close>

text \<open>The fields of a rotation that link the two keys; signing leaves them alone.\<close>

definition rotationLink :: "KeyRotationEvent \<Rightarrow> jstring \<times> jstring \<times> jstring \<times> json \<times> date" where
  "rotationLink e = (kr_domain e, kr_previousOperationalThumbprint e, kr_newOperationalThumbprint e,
     kr_newOperationalPublicKey e, kr_timestamp e)"

lemma signEvent_rotation:
  assumes "signEvent C binding es ks (KEY_ROTATION e) role = Inr event"
  shows "\<exists>e'. event = KEY_ROTATION e' \<and> rotationLink e' = rotationLink e"
proof -
  obtain signer where "signEventWithProvider C binding (KEY_ROTATION e) role signer = Inr event"
    using assms by (auto simp: signEvent_def split: option.splits)
  then show ?thesis
    by (cases role)
      (auto simp: signEventWithProvider_def signAsEntity_def countersign_def signAsPrevious_def proveNew_def
        rotationLink_def bindE_eq_Inr split: option.splits)
qed

text \<open>The rotations with the link of a given one.\<close>

definition relinks :: "KeyRotationEvent \<Rightarrow> LogEvent \<Rightarrow> bool" where
  "relinks e event \<longleftrightarrow> (\<exists>e'. event = KEY_ROTATION e' \<and> rotationLink e' = rotationLink e)"

lemma signEvent_relinks:
  "relinks e event \<Longrightarrow> signEvent C binding es ks event role = Inr event' \<Longrightarrow> relinks e event'"
  unfolding relinks_def using signEvent_rotation by metis

lemma signMissing_rotation:
  assumes "signMissing C binding es ks (KEY_ROTATION e) = Inr event"
  shows "\<exists>e'. event = KEY_ROTATION e' \<and> rotationLink e' = rotationLink e"
proof -
  have "relinks e event"
  proof (rule foldE_invariant [OF _ assms [unfolded signMissing_def]])
    show "relinks e (KEY_ROTATION e)" by (simp add: relinks_def)
  qed (auto split: if_splits intro: signEvent_relinks)
  then show ?thesis by (simp add: relinks_def)
qed

lemma firstOccurrences_set [simp]: "set (firstOccurrences xs) = set xs"
  by (induction xs) auto

lemma writeSignedEvent_signed:
  "writeSignedEvent binding log' event = Inr ref \<Longrightarrow> \<forall>role \<in> set (baseRoles event). hasLogSignature event role"
  by (auto simp: writeSignedEvent_def bindE_eq_Inr assertE_eq_Inr list_all_iff requiredLogSignatures_def
      requiredLogSignaturesFor_def split: option.splits)

lemma publishRotation_Inr:
  assumes "publishRotation C env signer newKey event = (Inr (written, ref), effects)"
  shows "\<exists>e. written = KEY_ROTATION e \<and> rotationLink e = rotationLink event \<and> present (ev_sig e) \<and>
    effects = [Published \<lparr>jwks_keys = [newKey]\<rparr>, Written (KEY_ROTATION e) ref]"
proof -
  from assms have "signAndWriteEvent C (re_binding env) (re_log env) (re_entitySigner env) (Some signer)
      (KEY_ROTATION event) = Inr (written, ref)"
    and effects: "effects = [Published \<lparr>jwks_keys = [newKey]\<rparr>, Written written ref]"
    by (auto simp: publishRotation_def Let_def split: sum.splits)
  then have signed: "signMissing C (re_binding env) (re_entitySigner env) (Some signer) (KEY_ROTATION event) = Inr written"
    and wrote: "writeSignedEvent (re_binding env) (re_log env) written = Inr ref"
    by (auto simp: signAndWriteEvent_def bindE_eq_Inr)
  obtain e where e: "written = KEY_ROTATION e" "rotationLink e = rotationLink event"
    using signMissing_rotation [OF signed] by blast
  have "hasLogSignature (KEY_ROTATION e) PreviousOperational"
    using writeSignedEvent_signed [OF wrote] e(1) by (simp add: baseRoles_def)
  then show ?thesis
    using e effects by (simp add: hasLogSignature_def BaseLogEvent.truncate_def)
qed

section \<open>The contract of a key provider\<close>

text \<open>
  What a rotation relies on. Generating and superseding keys leaves the active key alone, activation
  makes the key with the given identifier active, or changes nothing, provided that the
  provider's identifiers are consistent, and a superseded identifier is no longer published.
\<close>

locale key_provider =
  fixes kp :: "'s KeyProvider"
    and consistent :: "'s \<Rightarrow> bool"
  assumes generate_active: "kp_generateKey kp s = (g, s') \<Longrightarrow>
      sg_signingKey (kp_signer kp s') = sg_signingKey (kp_signer kp s)"
    and activate_active: "consistent s \<Longrightarrow> kp_activate kp kid s = (r, s') \<Longrightarrow>
      sg_signingKey (kp_signer kp s') = sg_signingKey (kp_signer kp s) \<or>
      sg_signingKey (kp_signer kp s') = sg_jwk (kp_signer kp s) kid"
    and activate_done: "consistent s \<Longrightarrow> kp_activate kp kid s = (Inr u, s') \<Longrightarrow>
      sg_signingKey (kp_signer kp s') = sg_jwk (kp_signer kp s) kid \<and> consistent s'"
    and supersede_active: "kp_supersede kp kid s = (r, s') \<Longrightarrow>
      sg_signingKey (kp_signer kp s') = sg_signingKey (kp_signer kp s)"
    and supersede_done: "consistent s \<Longrightarrow> kp_supersede kp kid s = (Inr u, s') \<Longrightarrow> JStr kid \<notin> set (kp_listKeyIds kp s')"
begin

lemma commit_active:
  assumes "commitRotation kp kid old s = (r, s')" and "consistent s"
  shows "sg_signingKey (kp_signer kp s') = sg_signingKey (kp_signer kp s) \<or>
      sg_signingKey (kp_signer kp s') = sg_jwk (kp_signer kp s) kid"
    and "r = Inr u \<Longrightarrow> sg_signingKey (kp_signer kp s') = sg_jwk (kp_signer kp s) kid \<and>
      JStr old \<notin> set (kp_listKeyIds kp s')"
proof -
  obtain x s1 where act: "kp_activate kp kid s = (x, s1)" by force
  show "sg_signingKey (kp_signer kp s') = sg_signingKey (kp_signer kp s) \<or>
      sg_signingKey (kp_signer kp s') = sg_jwk (kp_signer kp s) kid"
    using assms activate_active [OF assms(2) act] act
    by (auto simp: commitRotation_def split: sum.splits dest: supersede_active)
  assume "r = Inr u"
  with assms(1) act obtain v where "x = Inr v" "kp_supersede kp old s1 = (Inr u, s')"
    by (auto simp: commitRotation_def split: sum.splits)
  then show "sg_signingKey (kp_signer kp s') = sg_jwk (kp_signer kp s) kid \<and> JStr old \<notin> set (kp_listKeyIds kp s')"
    using activate_done [OF assms(2)] act supersede_active supersede_done by metis
qed

text \<open>
  The rotation as a transaction: the active key changes only to a key that was published and whose
  link to the old key was signed and written, in this order; and a rotation that returns has
  changed it and withdrawn the old key.
\<close>

lemma rotation_transaction:
  assumes rotate: "rotateWith C env kp s = (r, s', effects)"
    and consistent: "consistent (snd (kp_generateKey kp s))"
  shows "(sg_signingKey (kp_signer kp s') \<noteq> sg_signingKey (kp_signer kp s) \<or> (\<exists>x. r = Inr x)) \<longrightarrow>
    (\<exists>old new t t' e ref d. sg_signingKey (kp_signer kp s) = Inr old \<and> joseThumbprint C old = Inr t \<and>
       sg_signingKey (kp_signer kp s') = Inr new \<and> joseThumbprint C new = Inr t' \<and>
       effects = [Published \<lparr>jwks_keys = [new]\<rparr>, Written (KEY_ROTATION e) ref] \<and>
       re_domain env = Some d \<and> rotationLink e = (d, t, t', new, re_timestamp env) \<and> present (ev_sig e) \<and>
       ((\<exists>x. r = Inr x) \<longrightarrow> JStr (keyText old ''kid'') \<notin> set (kp_listKeyIds kp s')))"
proof
  assume changed: "sg_signingKey (kp_signer kp s') \<noteq> sg_signingKey (kp_signer kp s) \<or> (\<exists>x. r = Inr x)"
  obtain g s1 where gen: "kp_generateKey kp s = (g, s1)" by force
  then have same: "sg_signingKey (kp_signer kp s1) = sg_signingKey (kp_signer kp s)" by (rule generate_active)
  from changed rotate gen same obtain old newKid new event where
      old: "sg_signingKey (kp_signer kp s) = Inr old" and g: "g = Inr newKid"
      and prep: "prepareRotation C env (kp_signer kp s1) old newKid = Inr (new, event)"
    by (auto simp: rotateWith_def bindE_eq_Inr split: sum.splits)
  then have old_ok: "bindE (sg_signingKey (kp_signer kp s)) (\<lambda>previousKey.
      bindE (validateOperational \<lparr>jwks_keys = [previousKey]\<rparr>) (\<lambda>_. Inr previousKey)) = Inr old"
    using changed rotate by (auto simp: rotateWith_def bindE_eq_Inr split: sum.splits)
  obtain p effs where pub: "publishRotation C env (kp_signer kp s1) new event = (p, effs)" by force
  from changed rotate gen g prep pub old_ok same obtain written ref where p: "p = Inr (written, ref)"
    by (cases p) (auto simp: rotateWith_def)
  obtain c s2 where commit: "commitRotation kp newKid (keyText old ''kid'') s1 = (c, s2)" by force
  have result: "s' = s2" "effects = effs" "(\<exists>x. r = Inr x) \<longleftrightarrow> c = Inr ()"
    using rotate gen g prep pub p old_ok commit by (auto simp: rotateWith_def split: sum.splits)
  have cons: "consistent s1" using consistent gen by simp
  from prep have new: "sg_jwk (kp_signer kp s1) newKid = Inr new" and ev: "rotationEvent C env old new = Inr event"
    by (auto simp: prepareRotation_def bindE_eq_Inr)
  from ev obtain d t t' where link: "re_domain env = Some d" "joseThumbprint C old = Inr t" "joseThumbprint C new = Inr t'"
    "rotationLink event = (d, t, t', new, re_timestamp env)"
    by (auto simp: rotationEvent_def rotationLink_def bindE_eq_Inr split: option.splits)
  obtain e where e: "rotationLink e = rotationLink event" "present (ev_sig e)"
      "effs = [Published \<lparr>jwks_keys = [new]\<rparr>, Written (KEY_ROTATION e) ref]"
    using publishRotation_Inr pub p by metis
  have active: "sg_signingKey (kp_signer kp s') = Inr new"
    using commit_active [OF commit cons] changed same new result by metis
  moreover have "(\<exists>x. r = Inr x) \<longrightarrow> JStr (keyText old ''kid'') \<notin> set (kp_listKeyIds kp s')"
    using commit_active(2) [OF commit cons] result by blast
  ultimately show "\<exists>old new t t' e ref d. sg_signingKey (kp_signer kp s) = Inr old \<and> joseThumbprint C old = Inr t \<and>
       sg_signingKey (kp_signer kp s') = Inr new \<and> joseThumbprint C new = Inr t' \<and>
       effects = [Published \<lparr>jwks_keys = [new]\<rparr>, Written (KEY_ROTATION e) ref] \<and>
       re_domain env = Some d \<and> rotationLink e = (d, t, t', new, re_timestamp env) \<and> present (ev_sig e) \<and>
       ((\<exists>x. r = Inr x) \<longrightarrow> JStr (keyText old ''kid'') \<notin> set (kp_listKeyIds kp s'))"
    using old link e result(2) by metis
qed

end

end
