(* ===== verification/LocalKeys.thy ===== *)
theory LocalKeys
  imports Signing "HOL-Library.Multiset" "HOL-Library.AList"
begin

text \<open>
  The file-backed key provider (\<open>sdk/src/local-key-provider.ts\<close>). The store in memory, the visible
  file and its \<open>.bak\<close> generation are parts of one state; how far a file write gets before it fails is
  an input, so that every operation is modelled under every fault. A signature is in flight from
  the choice of its key until its result, and activations wait for the signatures in flight. Key
  generation, import and signing of WebCrypto are parameters.
\<close>

section \<open>Keys\<close>

record private_crypto = crypto +
  generateExported :: "jstring \<Rightarrow> js_error + json"
  subtleSign :: "verify_algorithm \<Rightarrow> json \<Rightarrow> bytes \<Rightarrow> js_error + bytes"

definition localKeyAlgorithm :: "json \<Rightarrow> js_error + jstring" where
  "localKeyAlgorithm key =
     bindE (jwkSignatureAlg key) (\<lambda>alg.
     if alg = js ''EdDSA'' \<or> alg = js ''ES256'' then Inr alg
     else Inl (ArgumentError ''unsupported local key algorithm''))"

definition signAlgorithm :: "json \<Rightarrow> js_error + verify_algorithm" where
  "signAlgorithm key =
     bindE (localKeyAlgorithm key) (\<lambda>alg.
     Inr (if alg = js ''EdDSA'' then VerifyAlgorithm ''Ed25519'' '''' 0 else VerifyAlgorithm ''ECDSA'' ''SHA-256'' 0))"

text \<open>The JWK handed to \<open>importKey\<close>.\<close>

definition importPrivateKey :: "json \<Rightarrow> js_error + json" where
  "importPrivateKey key =
     bindE (localKeyAlgorithm key) (\<lambda>alg.
     Inr (JObj ([(js ''kty'', propOf key ''kty''), (js ''crv'', propOf key ''crv''), (js ''x'', propOf key ''x'')] @
       (if alg = js ''ES256'' then [(js ''y'', propOf key ''y'')] else []) @
       [(js ''d'', propOf key ''d''), (js ''use'', JStr (js ''sig''))])))"

definition signWith :: "private_crypto \<Rightarrow> json \<Rightarrow> bytes \<Rightarrow> js_error + bytes" where
  "signWith C key payload =
     bindE (importPrivateKey key) (\<lambda>cryptoKey.
     bindE (signAlgorithm key) (\<lambda>algorithm. subtleSign C algorithm cryptoKey payload))"

fun toPublicJwk :: "json \<Rightarrow> json" where
  "toPublicJwk (JObj members) = JObj (filter (\<lambda>(k, _). k \<noteq> js ''d'') members)"
| "toPublicJwk v = v"

definition isString :: "json \<Rightarrow> bool" where
  "isString v \<longleftrightarrow> strOf v \<noteq> None"

definition selfCheckProbe :: bytes where
  "selfCheckProbe = utf8 (js ''dnsid-local-key-provider-self-check'')"

text \<open>The probe signature; any error is a failed check.\<close>

definition selfCheck :: "private_crypto \<Rightarrow> json \<Rightarrow> json \<Rightarrow> jstring \<Rightarrow> bool" where
  "selfCheck C normalized normalizedPub alg =
     (case signWith C normalized selfCheckProbe of
        Inl _ \<Rightarrow> False
      | Inr signature \<Rightarrow> verifyWithKey (crypto.truncate C) (Inr selfCheckProbe) signature normalizedPub (Some alg))"

text \<open>The public members of a key, in the order of the object literal.\<close>

definition publicMembers :: "json \<Rightarrow> bool \<Rightarrow> jstring \<Rightarrow> (jstring \<times> json) list" where
  "publicMembers key isP256 kid =
     [(js ''kty'', propOf key ''kty''), (js ''crv'', propOf key ''crv''), (js ''x'', propOf key ''x'')] @
     (if isP256 then [(js ''y'', propOf key ''y'')] else []) @ [(js ''kid'', JStr kid)]"

definition validateAndNormalizePrivateJwk :: "private_crypto \<Rightarrow> json \<Rightarrow> js_error + json" where
  "validateAndNormalizePrivateJwk C key =
     bindE (getp key ''kty'') (\<lambda>kty.
     let isEd25519 = (isStr kty ''OKP'' \<and> isStr (propOf key ''crv'') ''Ed25519'' \<and> isString (propOf key ''x''));
         isP256 = (isStr kty ''EC'' \<and> isStr (propOf key ''crv'') ''P-256'' \<and> isString (propOf key ''x'') \<and>
           isString (propOf key ''y''));
         kid0 = keyText key ''kid'';
         pub = JObj (publicMembers key isP256 kid0) in
     bindE (assertE ((isEd25519 \<or> isP256) \<and> isString (propOf key ''d''))
       (PlainError ''must include Ed25519 or ECDSA P-256 private key material'')) (\<lambda>_.
     bindE (jwkSignatureAlg pub) (\<lambda>alg.
     bindE (if kid0 \<noteq> [] then Inr kid0 else joseThumbprint C pub) (\<lambda>kid.
     let members = publicMembers key isP256 kid @ [(js ''alg'', JStr alg), (js ''use'', JStr (js ''sig''))];
         normalizedPub = JObj members;
         normalized = JObj (members @ [(js ''d'', propOf key ''d'')]) in
     bindE (assertE (selfCheck C normalized normalizedPub alg) (PlainError ''has mismatched public/private key material'')) (\<lambda>_.
     Inr normalized)))))"

text \<open>\<open>{ ...priv, kid: '' }\<close>: a property that exists keeps its place.\<close>

definition setProp :: "jstring \<Rightarrow> json \<Rightarrow> (jstring \<times> json) list \<Rightarrow> (jstring \<times> json) list" where
  "setProp k v members = AList.update k v members"

fun withoutKid :: "json \<Rightarrow> json" where
  "withoutKid (JObj members) = JObj (setProp (js ''kid'') (JStr []) members)"
| "withoutKid _ = JObj [(js ''kid'', JStr [])]"

definition generateStoredKey :: "private_crypto \<Rightarrow> jstring \<Rightarrow> js_error + json" where
  "generateStoredKey C algorithm =
     bindE (generateExported C algorithm) (\<lambda>priv. validateAndNormalizePrivateJwk C (withoutKid priv))"

section \<open>The store and its files\<close>

record KeyStore =
  ks_active :: json
  ks_retained :: "json list"
  ks_pending :: "json list"

definition buildInitialStore :: "private_crypto \<Rightarrow> jstring \<Rightarrow> js_error + KeyStore" where
  "buildInitialStore C algorithm =
     bindE (generateStoredKey C algorithm) (\<lambda>key. Inr \<lparr>ks_active = key, ks_retained = [], ks_pending = []\<rparr>)"

text \<open>
  How far a write gets: to its end, or to an error before or after the rename or link that makes
  the new content visible.
\<close>

datatype write_fault = Completes | BeforeRename js_error | AfterRename js_error

fun committed :: "write_fault \<Rightarrow> bool" where
  "committed (BeforeRename _) = False"
| "committed _ = True"

fun writeResult :: "write_fault \<Rightarrow> js_error + unit" where
  "writeResult Completes = Inr ()"
| "writeResult (BeforeRename e) = Inl e"
| "writeResult (AfterRename e) = Inl e"

text \<open>\<open>writeStore\<close>: its result and the content of the path afterwards.\<close>

definition writeStore :: "write_fault \<Rightarrow> KeyStore \<Rightarrow> KeyStore option \<Rightarrow> (js_error + unit) \<times> KeyStore option" where
  "writeStore fault store content = (writeResult fault, if committed fault then Some store else content)"

record key_files =
  kf_main :: "KeyStore option"
  kf_bak :: "KeyStore option"

text \<open>
  The activation of a provider: idle, waiting for the signatures that were in flight when it was called, or
  after its mutation. Signatures in flight are promises, objects that are told apart by a number.
\<close>

datatype activation = Idle | Draining jstring "nat list" | Settling

record LocalKeyProvider =
  lk_store :: KeyStore
  lk_signing :: "(nat \<times> json) list"
  lk_promises :: nat
  lk_activation :: activation
  lk_files :: "key_files option"

definition newProvider :: "KeyStore \<Rightarrow> key_files option \<Rightarrow> LocalKeyProvider" where
  "newProvider store files = \<lparr>lk_store = store, lk_signing = [], lk_promises = 0, lk_activation = Idle, lk_files = files\<rparr>"

definition activating :: "LocalKeyProvider \<Rightarrow> bool" where
  "activating p \<longleftrightarrow> lk_activation p \<noteq> Idle"

section \<open>Construction\<close>

text \<open>What reading a file gives: its content, that there is none, or another failure.\<close>

datatype 'a read_result = Content 'a | Enoent js_error | ReadFails js_error

text \<open>
  The file system during a load: the file, the creation of its directory, the exclusive write, what
  reading gives if another process has linked it first, and the synchronization of new directories.
\<close>

record load_env =
  ld_read :: "KeyStore read_result"
  ld_mkdir :: "js_error + bool"
  ld_write :: write_fault
  ld_racing :: "(js_error + KeyStore) option"
  ld_syncDirectories :: "js_error + unit"
  ld_bak :: "KeyStore option"

definition load :: "private_crypto \<Rightarrow> load_env \<Rightarrow> bool \<Rightarrow> jstring \<Rightarrow> js_error + LocalKeyProvider" where
  "load C env createIfMissing algorithm =
     (let open = (\<lambda>store. newProvider store (Some \<lparr>kf_main = Some store, kf_bak = ld_bak env\<rparr>)) in
      case ld_read env of
        Content store \<Rightarrow> Inr (open store)
      | ReadFails e \<Rightarrow> Inl e
      | Enoent e \<Rightarrow>
          if \<not> createIfMissing then Inl e
          else bindE (buildInitialStore C algorithm) (\<lambda>built.
            bindE (ld_mkdir env) (\<lambda>createdDirectory.
            bindE (case ld_racing env of
                     Some reread \<Rightarrow> reread
                   | None \<Rightarrow> bindE (fst (writeStore (ld_write env) built None)) (\<lambda>_. Inr built)) (\<lambda>store.
            bindE (if createdDirectory then ld_syncDirectories env else Inr ()) (\<lambda>_.
            Inr (open store))))))"

definition generate :: "private_crypto \<Rightarrow> jstring \<Rightarrow> js_error + LocalKeyProvider" where
  "generate C algorithm = bindE (buildInitialStore C algorithm) (\<lambda>store. Inr (newProvider store None))"

definition singleKeyProvider :: "json \<Rightarrow> LocalKeyProvider" where
  "singleKeyProvider key = newProvider \<lparr>ks_active = key, ks_retained = [], ks_pending = []\<rparr> None"

text \<open>\<open>private.jwk\<close>, and when it is missing the key of \<open>private.pem\<close> as the platform exports it.\<close>

definition fromDirectory :: "private_crypto \<Rightarrow> json read_result \<Rightarrow> js_error + json \<Rightarrow> js_error + LocalKeyProvider" where
  "fromDirectory C jwkFile pemFile =
     bindE (case jwkFile of Content key \<Rightarrow> Inr key | ReadFails e \<Rightarrow> Inl e | Enoent _ \<Rightarrow> pemFile) (\<lambda>key.
     bindE (validateAndNormalizePrivateJwk C key) (\<lambda>active. Inr (singleKeyProvider active)))"

definition fromFile :: "private_crypto \<Rightarrow> js_error + json \<Rightarrow> js_error + LocalKeyProvider" where
  "fromFile C content =
     bindE content (\<lambda>key.
     bindE (validateAndNormalizePrivateJwk C key) (\<lambda>active. Inr (singleKeyProvider active)))"

definition fromDomain ::
    "platform \<Rightarrow> private_crypto \<Rightarrow> (jstring \<Rightarrow> json read_result) \<Rightarrow> (jstring \<Rightarrow> js_error + json) \<Rightarrow> jstring \<Rightarrow>
     js_error + LocalKeyProvider" where
  "fromDomain P C jwkFileOf pemFileOf domain =
     bindE (normalizeFQDN P domain True) (\<lambda>d. fromDirectory C (jwkFileOf d) (pemFileOf d))"

section \<open>Reading keys and signing\<close>

definition kidIs :: "jstring \<Rightarrow> json \<Rightarrow> bool" where
  "kidIs kid key \<longleftrightarrow> propOf key ''kid'' = JStr kid"

definition signingKey :: "KeyStore \<Rightarrow> json" where
  "signingKey store = toPublicJwk (ks_active store)"

definition jwk :: "KeyStore \<Rightarrow> jstring \<Rightarrow> js_error + json" where
  "jwk store kid =
     (case find (kidIs kid) (ks_active store # ks_retained store @ ks_pending store) of
        Some key \<Rightarrow> Inr (toPublicJwk key)
      | None \<Rightarrow> Inl (ArgumentError ''key not found''))"

definition listKeyIds :: "KeyStore \<Rightarrow> json list" where
  "listKeyIds store = map (\<lambda>k. propOf k ''kid'') (ks_active store # ks_retained store)"

text \<open>The key of a signature is chosen when the signature starts.\<close>

definition signerFor :: "KeyStore \<Rightarrow> jstring \<Rightarrow> js_error + json" where
  "signerFor store kid =
     (case find (kidIs kid) (ks_active store # ks_pending store) of
        Some key \<Rightarrow> Inr key
      | None \<Rightarrow> Inl (ArgumentError ''key is not active or pending for signing''))"

definition signKey_begin :: "jstring \<Rightarrow> LocalKeyProvider \<Rightarrow> (js_error + nat \<times> json) \<times> LocalKeyProvider" where
  "signKey_begin kid p =
     (if activating p then (Inl (ArgumentError ''key activation is in progress''), p)
      else case signerFor (lk_store p) kid of
        Inl e \<Rightarrow> (Inl e, p)
      | Inr key \<Rightarrow>
          (Inr (lk_promises p, key), p\<lparr>lk_signing := (lk_promises p, key) # lk_signing p, lk_promises := Suc (lk_promises p)\<rparr>))"

definition signKey_end ::
    "private_crypto \<Rightarrow> nat \<times> json \<Rightarrow> bytes \<Rightarrow> LocalKeyProvider \<Rightarrow> (js_error + bytes) \<times> LocalKeyProvider" where
  "signKey_end C operation payload p =
     (signWith C (snd operation) payload, p\<lparr>lk_signing := remove1 operation (lk_signing p)\<rparr>)"

definition signKey :: "private_crypto \<Rightarrow> LocalKeyProvider \<Rightarrow> jstring \<Rightarrow> bytes \<Rightarrow> js_error + bytes" where
  "signKey C p kid payload =
     (case signKey_begin kid p of
        (Inl e, _) \<Rightarrow> Inl e
      | (Inr operation, p') \<Rightarrow> fst (signKey_end C operation payload p'))"

definition sign :: "private_crypto \<Rightarrow> LocalKeyProvider \<Rightarrow> bytes \<Rightarrow> js_error + bytes" where
  "sign C p payload = signKey C p (keyText (ks_active (lk_store p)) ''kid'') payload"

section \<open>Mutations\<close>

definition mutate ::
    "(KeyStore \<Rightarrow> js_error + 'a \<times> KeyStore) \<Rightarrow> write_fault \<times> write_fault \<Rightarrow> LocalKeyProvider \<Rightarrow>
     (js_error + 'a) \<times> LocalKeyProvider" where
  "mutate change faults p =
     (case change (lk_store p) of
        Inl e \<Rightarrow> (Inl e, p)
      | Inr (result, next') \<Rightarrow>
          (case lk_files p of
             None \<Rightarrow> (Inr result, p\<lparr>lk_store := next'\<rparr>)
           | Some files \<Rightarrow>
               (case writeStore (fst faults) (lk_store p) (kf_bak files) of
                  (Inl e, bak) \<Rightarrow> (Inl e, p\<lparr>lk_files := Some (files\<lparr>kf_bak := bak\<rparr>)\<rparr>)
                | (Inr _, bak) \<Rightarrow>
                    (case writeStore (snd faults) next' (kf_main files) of
                       (r, main) \<Rightarrow>
                         (bindE r (\<lambda>_. Inr result),
                          p\<lparr>lk_store := (if committed (snd faults) then next' else lk_store p),
                            lk_files := Some \<lparr>kf_main = main, kf_bak = bak\<rparr>\<rparr>)))))"

definition validateKeyGeneration :: "jstring \<Rightarrow> js_error + unit" where
  "validateKeyGeneration algorithm =
     assertE (algorithm = js ''EdDSA'' \<or> algorithm = js ''ES256'') (ArgumentError ''unsupported local key algorithm'')"

definition generateChange :: "private_crypto \<Rightarrow> jstring option \<Rightarrow> KeyStore \<Rightarrow> js_error + jstring \<times> KeyStore" where
  "generateChange C algorithm next' =
     bindE (case algorithm of Some a \<Rightarrow> Inr a | None \<Rightarrow> localKeyAlgorithm (ks_active next')) (\<lambda>selected.
     bindE (validateKeyGeneration selected) (\<lambda>_.
     bindE (generateStoredKey C selected) (\<lambda>key.
     Inr (keyText key ''kid'', next'\<lparr>ks_pending := ks_pending next' @ [key]\<rparr>))))"

definition generateKey ::
    "private_crypto \<Rightarrow> jstring option \<Rightarrow> write_fault \<times> write_fault \<Rightarrow> LocalKeyProvider \<Rightarrow>
     (js_error + jstring) \<times> LocalKeyProvider" where
  "generateKey C algorithm = mutate (generateChange C algorithm)"

text \<open>\<open>findIndex\<close> and \<open>splice\<close>: the first key with the identifier, and the others.\<close>

fun takeKey :: "jstring \<Rightarrow> json list \<Rightarrow> (json \<times> json list) option" where
  "takeKey kid [] = None"
| "takeKey kid (k # ks) =
     (if kidIs kid k then Some (k, ks) else map_option (\<lambda>(x, rest). (x, k # rest)) (takeKey kid ks))"

definition activateChange :: "jstring \<Rightarrow> KeyStore \<Rightarrow> js_error + unit \<times> KeyStore" where
  "activateChange kid next' =
     (case takeKey kid (ks_pending next') of
        None \<Rightarrow> Inl (ArgumentError ''no pending key with kid'')
      | Some (incoming, rest) \<Rightarrow>
          Inr ((), \<lparr>ks_active = incoming, ks_retained = ks_retained next' @ [ks_active next'], ks_pending = rest\<rparr>))"

definition supersedeChange :: "jstring \<Rightarrow> KeyStore \<Rightarrow> js_error + unit \<times> KeyStore" where
  "supersedeChange kid next' =
     (if kidIs kid (ks_active next')
      then Inl (ArgumentError ''cannot supersede the active key; activate a replacement first'')
      else case takeKey kid (ks_retained next') of
        None \<Rightarrow> Inl (ArgumentError ''no retained key with kid'')
      | Some (_, rest) \<Rightarrow> Inr ((), next'\<lparr>ks_retained := rest\<rparr>))"

definition supersede ::
    "jstring \<Rightarrow> write_fault \<times> write_fault \<Rightarrow> LocalKeyProvider \<Rightarrow> (js_error + unit) \<times> LocalKeyProvider" where
  "supersede kid = mutate (supersedeChange kid)"

definition purge ::
    "jstring \<Rightarrow> write_fault \<times> write_fault \<Rightarrow> LocalKeyProvider \<Rightarrow> (js_error + unit) \<times> LocalKeyProvider" where
  "purge = supersede"

text \<open>
  \<open>activate\<close> up to its wait for the signatures in flight, its mutation once they have settled, and
  its \<open>finally\<close>.
\<close>

definition activate_begin :: "jstring \<Rightarrow> LocalKeyProvider \<Rightarrow> (js_error + unit) \<times> LocalKeyProvider" where
  "activate_begin kid p =
     (if activating p then (Inl (ArgumentError ''key activation is already in progress''), p)
      else (Inr (), p\<lparr>lk_activation := Draining kid (map fst (lk_signing p))\<rparr>))"

text \<open>\<open>Promise.allSettled\<close>: none of the awaited signatures is in flight any more. Others may be.\<close>

definition allSettled :: "nat list \<Rightarrow> LocalKeyProvider \<Rightarrow> bool" where
  "allSettled awaited p \<longleftrightarrow> (\<forall>operation \<in> set (lk_signing p). fst operation \<notin> set awaited)"

definition activate_commit ::
    "jstring \<Rightarrow> write_fault \<times> write_fault \<Rightarrow> LocalKeyProvider \<Rightarrow> (js_error + unit) \<times> LocalKeyProvider" where
  "activate_commit kid faults p =
     (case mutate (activateChange kid) faults p of (r, p') \<Rightarrow> (r, p'\<lparr>lk_activation := Settling\<rparr>))"

definition activate_end :: "LocalKeyProvider \<Rightarrow> LocalKeyProvider" where
  "activate_end p = p\<lparr>lk_activation := Idle\<rparr>"

definition settleSignatures :: "LocalKeyProvider \<Rightarrow> LocalKeyProvider" where
  "settleSignatures p = p\<lparr>lk_signing := []\<rparr>"

text \<open>A whole activation with no other operation in between.\<close>

definition activate ::
    "jstring \<Rightarrow> write_fault \<times> write_fault \<Rightarrow> LocalKeyProvider \<Rightarrow> (js_error + unit) \<times> LocalKeyProvider" where
  "activate kid faults p =
     (case activate_begin kid p of
        (Inl e, p') \<Rightarrow> (Inl e, p')
      | (Inr _, p') \<Rightarrow>
          (case activate_commit kid faults (settleSignatures p') of (r, p'') \<Rightarrow> (r, activate_end p'')))"

section \<open>Interleavings\<close>

text \<open>
  The steps of a provider. An activation commits when the signatures that it waits for have settled; that no
  other signature is in flight then is not part of the step, but follows from the refusal of \<open>signKey\<close>. Mutations are serialized, so that each is one step; signatures and an
  activation span several. The outcome of key generation and the faults differ from step to step.
\<close>

inductive lk_step :: "LocalKeyProvider \<Rightarrow> LocalKeyProvider \<Rightarrow> bool" where
  sign_begin: "lk_step p (snd (signKey_begin kid p))"
| sign_end: "operation \<in> set (lk_signing p) \<Longrightarrow> lk_step p (snd (signKey_end C operation payload p))"
| generate: "lk_step p (snd (generateKey C algorithm faults p))"
| supersede: "lk_step p (snd (supersede kid faults p))"
| activate_begin: "lk_step p (snd (activate_begin kid p))"
| activate_commit: "lk_activation p = Draining kid awaited \<Longrightarrow> allSettled awaited p \<Longrightarrow>
    lk_step p (snd (activate_commit kid faults p))"
| activate_end: "lk_activation p = Settling \<Longrightarrow> lk_step p (activate_end p)"

abbreviation lk_run :: "LocalKeyProvider \<Rightarrow> LocalKeyProvider \<Rightarrow> bool" where
  "lk_run \<equiv> lk_step\<^sup>*\<^sup>*"

definition followsFile :: "LocalKeyProvider \<Rightarrow> bool" where
  "followsFile p \<longleftrightarrow> (\<forall>f. lk_files p = Some f \<longrightarrow> kf_main f = Some (lk_store p))"

definition signsLive :: "LocalKeyProvider \<Rightarrow> bool" where
  "signsLive p \<longleftrightarrow> snd ` set (lk_signing p) \<subseteq> insert (ks_active (lk_store p)) (set (ks_pending (lk_store p))) \<and>
     (\<forall>kid awaited. lk_activation p = Draining kid awaited \<longrightarrow> fst ` set (lk_signing p) \<subseteq> set awaited) \<and>
     (lk_activation p = Settling \<longrightarrow> lk_signing p = [])"

subsection \<open>One mutation\<close>

lemma mutate_follows: "followsFile p \<Longrightarrow> followsFile (snd (mutate change faults p))"
  by (auto simp: mutate_def followsFile_def writeStore_def split: sum.splits prod.splits option.splits)

lemma mutate_backup:
  assumes "lk_store (snd (mutate change faults p)) \<noteq> lk_store p" and "lk_files p = Some f"
  shows "\<exists>f'. lk_files (snd (mutate change faults p)) = Some f' \<and>
    kf_main f' = Some (lk_store (snd (mutate change faults p))) \<and> kf_bak f' = Some (lk_store p)"
  using assms
  by (cases "fst faults") (auto simp: mutate_def writeStore_def split: sum.splits prod.splits option.splits if_splits)

lemma mutate_result:
  "fst (mutate change faults p) = Inr r \<Longrightarrow>
   \<exists>next'. change (lk_store p) = Inr (r, next') \<and> lk_store (snd (mutate change faults p)) = next'"
  by (cases "snd faults")
    (auto simp: mutate_def writeStore_def bindE_eq_Inr split: sum.splits prod.splits option.splits)

lemma mutate_frame [simp]:
  "lk_signing (snd (mutate change faults p)) = lk_signing p"
  "lk_activation (snd (mutate change faults p)) = lk_activation p"
  "lk_promises (snd (mutate change faults p)) = lk_promises p"
  by (auto simp: mutate_def writeStore_def split: sum.splits prod.splits option.splits)

lemma mutate_store:
  "lk_store (snd (mutate change faults p)) = lk_store p \<or>
   (\<exists>r next'. change (lk_store p) = Inr (r, next') \<and> lk_store (snd (mutate change faults p)) = next')"
  by (auto simp: mutate_def writeStore_def split: sum.splits prod.splits option.splits)

subsection \<open>What each change does to the keys\<close>

definition allKeys :: "KeyStore \<Rightarrow> json multiset" where
  "allKeys s = add_mset (ks_active s) (mset (ks_retained s) + mset (ks_pending s))"

lemma takeKey_Some:
  "takeKey kid ks = Some (k, rest) \<Longrightarrow> kidIs kid k \<and> mset ks = add_mset k (mset rest) \<and> k \<in> set ks \<and>
     set rest \<subseteq> set ks"
  by (induction ks arbitrary: k rest) (auto split: if_splits)

lemma generateChange_keys:
  assumes "generateChange C algorithm s = Inr (kid, s')"
  obtains key where "allKeys s' = add_mset key (allKeys s)" "kid = keyText key ''kid''"
    "ks_active s' = ks_active s" "ks_retained s' = ks_retained s" "ks_pending s' = ks_pending s @ [key]"
  using assms by (auto simp: generateChange_def bindE_eq_Inr allKeys_def)

lemma activateChange_keys:
  assumes "activateChange kid s = Inr (u, s')"
  shows "allKeys s' = allKeys s \<and> kidIs kid (ks_active s') \<and> ks_active s' \<in> set (ks_pending s) \<and>
    ks_retained s' = ks_retained s @ [ks_active s] \<and> set (ks_pending s') \<subseteq> set (ks_pending s)"
  using assms takeKey_Some [of kid "ks_pending s"]
  by (auto simp: activateChange_def allKeys_def split: option.splits prod.splits)

lemma supersedeChange_keys:
  assumes "supersedeChange kid s = Inr (u, s')"
  obtains key where "allKeys s = add_mset key (allKeys s')" "kidIs kid key" "key \<in> set (ks_retained s)"
    "ks_active s' = ks_active s" "ks_pending s' = ks_pending s" "\<not> kidIs kid (ks_active s)"
    "mset (ks_retained s) = add_mset key (mset (ks_retained s'))"
  using assms takeKey_Some [of kid "ks_retained s"]
  by (auto simp: supersedeChange_def allKeys_def split: option.splits if_splits)

subsection \<open>Steps\<close>

text \<open>A step replaces the store by one of three changes, or leaves it.\<close>

inductive store_change :: "KeyStore \<Rightarrow> KeyStore \<Rightarrow> bool" where
  same: "store_change s s"
| generated: "generateChange C algorithm s = Inr (kid, s') \<Longrightarrow> store_change s s'"
| activated: "activateChange kid s = Inr (u, s') \<Longrightarrow> store_change s s'"
| superseded: "supersedeChange kid s = Inr (u, s') \<Longrightarrow> store_change s s'"

lemma mutate_change:
  assumes "\<And>r s'. change (lk_store p) = Inr (r, s') \<Longrightarrow> store_change (lk_store p) s'"
  shows "store_change (lk_store p) (lk_store (snd (mutate change faults p)))"
  using mutate_store [of change faults p] assms store_change.same by metis

lemma signKey_begin_frame [simp]:
  "lk_store (snd (signKey_begin kid p)) = lk_store p" "lk_files (snd (signKey_begin kid p)) = lk_files p"
  "lk_activation (snd (signKey_begin kid p)) = lk_activation p"
  by (auto simp: signKey_begin_def split: sum.splits)

lemma activate_begin_frame [simp]:
  "lk_store (snd (activate_begin kid p)) = lk_store p" "lk_files (snd (activate_begin kid p)) = lk_files p"
  "lk_signing (snd (activate_begin kid p)) = lk_signing p"
  by (auto simp: activate_begin_def)

lemma activate_commit_snd:
  "snd (activate_commit kid faults p) = (snd (mutate (activateChange kid) faults p))\<lparr>lk_activation := Settling\<rparr>"
  "fst (activate_commit kid faults p) = fst (mutate (activateChange kid) faults p)"
  by (simp_all add: activate_commit_def split: prod.splits)

lemma lk_step_store:
  assumes "lk_step p p'"
  shows "store_change (lk_store p) (lk_store p')"
  using assms
proof cases
  case (generate C algorithm faults)
  then show ?thesis unfolding generateKey_def by (auto intro: mutate_change store_change.generated)
next
  case (supersede kid faults)
  then show ?thesis unfolding LocalKeys.supersede_def by (metis mutate_change store_change.superseded)
next
  case (activate_commit kid awaited faults)
  then show ?thesis using mutate_change [of "activateChange kid" p faults, OF store_change.activated]
    by (simp add: activate_commit_snd)
qed (simp_all add: signKey_end_def activate_end_def store_change.same)

lemma lk_step_follows:
  assumes "lk_step p p'" and "followsFile p"
  shows "followsFile p'"
  using assms
proof cases
  case (activate_commit kid awaited faults)
  then show ?thesis
    using mutate_follows [OF assms(2), of "activateChange kid" faults]
    by (simp add: activate_commit_snd followsFile_def)
qed (auto simp: followsFile_def signKey_end_def activate_end_def generateKey_def LocalKeys.supersede_def
    dest: mutate_follows [unfolded followsFile_def])

lemma store_change_live:
  assumes "store_change s s'"
  shows "insert (ks_active s) (set (ks_pending s)) \<subseteq> insert (ks_active s') (set (ks_pending s')) \<or>
    ks_retained s' = ks_retained s @ [ks_active s] \<and> allKeys s' = allKeys s"
  using assms
  by cases (auto elim!: generateChange_keys supersedeChange_keys dest: activateChange_keys)

text \<open>The keys of signatures in flight stay usable.\<close>

lemma lk_step_signsLive:
  assumes "lk_step p p'" and "signsLive p"
  shows "signsLive p'"
  using assms(1)
proof cases
  case (sign_begin kid)
  then show ?thesis
    using assms(2)
    by (auto simp: signKey_begin_def signerFor_def signsLive_def activating_def find_Some_iff
        dest!: nth_mem split: sum.splits option.splits if_splits)
next
  case (sign_end operation C payload)
  then show ?thesis
    using assms(2) set_remove1_subset [of operation "lk_signing p"] by (fastforce simp: signKey_end_def signsLive_def)
next
  case (generate C algorithm faults)
  have "snd ` set (lk_signing p) \<subseteq> insert (ks_active (lk_store p')) (set (ks_pending (lk_store p')))"
    using mutate_store [of "generateChange C algorithm" faults p] assms(2) generate
    by (auto simp: generateKey_def signsLive_def elim!: generateChange_keys)
  with generate assms(2) show ?thesis by (simp add: signsLive_def generateKey_def)
next
  case (supersede kid faults)
  have "snd ` set (lk_signing p) \<subseteq> insert (ks_active (lk_store p')) (set (ks_pending (lk_store p')))"
    using mutate_store [of "supersedeChange kid" faults p] assms(2) supersede
    by (auto simp: LocalKeys.supersede_def signsLive_def elim!: supersedeChange_keys)
  with supersede assms(2) show ?thesis by (simp add: signsLive_def LocalKeys.supersede_def)
next
  case (activate_begin kid)
  then show ?thesis using assms(2) by (auto simp: signsLive_def activate_begin_def)
next
  case (activate_commit kid awaited faults)
  then have "lk_signing p = []" using assms(2) by (cases "lk_signing p") (auto simp: signsLive_def allSettled_def)
  with activate_commit show ?thesis by (simp add: signsLive_def activate_commit_snd)
next
  case activate_end
  then show ?thesis using assms(2) by (simp add: signsLive_def activate_end_def)
qed

text \<open>
  C28. Whatever operations interleave and however file writes fail, the store of a provider in memory
  is the visible content of its file; and every signature in flight was started with a key that is
  still the active key or a pending one, so that an activation never retires a key under a running
  signature.
\<close>

theorem local_provider_safe:
  assumes "lk_run (newProvider store files) p" and "\<forall>f. files = Some f \<longrightarrow> kf_main f = Some store"
  shows "(\<forall>f. lk_files p = Some f \<longrightarrow> kf_main f = Some (lk_store p)) \<and>
    snd ` set (lk_signing p) \<subseteq> insert (ks_active (lk_store p)) (set (ks_pending (lk_store p)))"
proof -
  have "followsFile p \<and> signsLive p"
    using assms(1)
  proof (induction rule: rtranclp_induct)
    case base
    then show ?case
      using assms(2) by (simp add: followsFile_def signsLive_def newProvider_def split: option.splits)
  qed (blast intro: lk_step_follows lk_step_signsLive)
  then show ?thesis by (auto simp: followsFile_def signsLive_def)
qed

text \<open>
  C28. A step that replaces the store of a file-backed provider leaves the new store in the file and
  the replaced one in the \<open>.bak\<close> file; it loses at most one key, which was retained; and the key that
  was active is still active or retained.
\<close>

theorem local_step_conserves_keys:
  assumes "lk_step p p'" and "lk_store p' \<noteq> lk_store p"
  shows "(\<forall>f. lk_files p = Some f \<longrightarrow>
      (\<exists>f'. lk_files p' = Some f' \<and> kf_main f' = Some (lk_store p') \<and> kf_bak f' = Some (lk_store p))) \<and>
    ((\<exists>key. allKeys (lk_store p') = add_mset key (allKeys (lk_store p))) \<or>
     allKeys (lk_store p') = allKeys (lk_store p) \<or>
     (\<exists>key \<in> set (ks_retained (lk_store p)). allKeys (lk_store p) = add_mset key (allKeys (lk_store p')))) \<and>
    ks_active (lk_store p) \<in> insert (ks_active (lk_store p')) (set (ks_retained (lk_store p')))"
proof (intro conjI allI impI)
  fix f assume f: "lk_files p = Some f"
  show "\<exists>f'. lk_files p' = Some f' \<and> kf_main f' = Some (lk_store p') \<and> kf_bak f' = Some (lk_store p)"
    using assms(1)
  proof cases
    case (generate C algorithm faults)
    then show ?thesis using mutate_backup [OF _ f] assms(2) by (simp add: generateKey_def)
  next
    case (supersede kid faults)
    then show ?thesis using mutate_backup [OF _ f] assms(2) by (simp add: LocalKeys.supersede_def)
  next
    case (activate_commit kid awaited faults)
    then show ?thesis using mutate_backup [OF _ f, of "activateChange kid" faults] assms(2) by (simp add: activate_commit_snd)
  qed (use assms(2) in \<open>simp_all add: signKey_end_def activate_end_def\<close>)
next
  have change: "store_change (lk_store p) (lk_store p')" by (rule lk_step_store [OF assms(1)])
  then show "(\<exists>key. allKeys (lk_store p') = add_mset key (allKeys (lk_store p))) \<or>
     allKeys (lk_store p') = allKeys (lk_store p) \<or>
     (\<exists>key \<in> set (ks_retained (lk_store p)). allKeys (lk_store p) = add_mset key (allKeys (lk_store p')))"
    by cases (auto elim!: generateChange_keys supersedeChange_keys dest: activateChange_keys)
  from change show "ks_active (lk_store p) \<in> insert (ks_active (lk_store p')) (set (ks_retained (lk_store p')))"
    by cases (auto elim!: generateChange_keys supersedeChange_keys dest: activateChange_keys)
qed

section \<open>The provider as a key provider\<close>

text \<open>The provider when rotations drive it, with the faults of the writes of each operation.\<close>

type_synonym faults = "write_fault \<times> write_fault"

definition localKeyProvider :: "private_crypto \<Rightarrow> faults \<Rightarrow> faults \<Rightarrow> faults \<Rightarrow> LocalKeyProvider KeyProvider" where
  "localKeyProvider C generating activating' superseding =
     \<lparr>kp_signer = (\<lambda>p. \<lparr>sg_signingKey = Inr (signingKey (lk_store p)), sg_jwk = jwk (lk_store p),
        sg_sign = sign C p, sg_signKey = signKey C p\<rparr>),
      kp_listKeyIds = (\<lambda>p. listKeyIds (lk_store p)),
      kp_generateKey = generateKey C None generating,
      kp_activate = (\<lambda>kid. activate kid activating'),
      kp_supersede = (\<lambda>kid. supersede kid superseding)\<rparr>"

lemma localKeyProvider_sel [simp]:
  "sg_signingKey (kp_signer (localKeyProvider C g a s) p) = Inr (signingKey (lk_store p))"
  "sg_jwk (kp_signer (localKeyProvider C g a s) p) = jwk (lk_store p)"
  "kp_listKeyIds (localKeyProvider C g a s) p = listKeyIds (lk_store p)"
  "kp_generateKey (localKeyProvider C g a s) p = generateKey C None g p"
  "kp_activate (localKeyProvider C g a s) kid p = activate kid a p"
  "kp_supersede (localKeyProvider C g a s) kid p = supersede kid s p"
  by (simp_all add: localKeyProvider_def)

definition keyList :: "KeyStore \<Rightarrow> json list" where
  "keyList s = ks_active s # ks_retained s @ ks_pending s"

definition distinctKids :: "KeyStore \<Rightarrow> bool" where
  "distinctKids s \<longleftrightarrow> distinct (map (\<lambda>k. propOf k ''kid'') (keyList s))"

lemma mset_keyList: "mset (keyList s) = allKeys s"
  by (simp add: keyList_def allKeys_def)

lemma distinctKids_mset: "allKeys s = allKeys s' \<Longrightarrow> distinctKids s \<longleftrightarrow> distinctKids s'"
  unfolding distinctKids_def by (rule mset_eq_imp_distinct_iff) (simp add: mset_keyList)

lemma distinctKids_add:
  "allKeys s = add_mset key (allKeys s') \<Longrightarrow> distinctKids s \<Longrightarrow>
   distinctKids s' \<and> propOf key ''kid'' \<notin> (\<lambda>k. propOf k ''kid'') ` set (keyList s')"
proof -
  assume "allKeys s = add_mset key (allKeys s')" and "distinctKids s"
  then have "mset (map (\<lambda>k. propOf k ''kid'') (keyList s)) = mset (map (\<lambda>k. propOf k ''kid'') (key # keyList s'))"
    by (simp add: mset_keyList)
  from mset_eq_imp_distinct_iff [OF this] \<open>distinctKids s\<close> show ?thesis by (simp add: distinctKids_def)
qed

lemma jwk_unique:
  assumes "distinctKids s" and "k \<in> set (keyList s)" and "kidIs kid k"
  shows "jwk s kid = Inr (toPublicJwk k)"
proof -
  have inj: "inj_on (\<lambda>k. propOf k ''kid'') (set (keyList s))"
    using assms(1) by (simp add: distinctKids_def distinct_map)
  obtain k' where k': "find (kidIs kid) (keyList s) = Some k'"
    using assms(2,3) by (metis find_None_iff not_Some_eq)
  then have "k' \<in> set (keyList s)" "kidIs kid k'" by (auto simp: find_Some_iff)
  with inj assms have "k' = k" by (auto simp: kidIs_def inj_on_def)
  with k' show ?thesis by (simp add: jwk_def keyList_def)
qed

lemma activate_store:
  "activate kid faults p = (r, p') \<Longrightarrow>
   lk_store p' = lk_store p \<and> (\<exists>e. r = Inl e) \<or> activateChange kid (lk_store p) = Inr ((), lk_store p')"
  using mutate_store [of "activateChange kid" faults "settleSignatures (p\<lparr>lk_activation := Draining kid (map fst (lk_signing p))\<rparr>)"]
    mutate_result [of "activateChange kid" faults "settleSignatures (p\<lparr>lk_activation := Draining kid (map fst (lk_signing p))\<rparr>)"]
  by (cases r) (auto simp: activate_def activate_begin_def activate_commit_def activate_end_def settleSignatures_def
      split: prod.splits sum.splits if_splits)

lemma activateChange_jwk:
  assumes "activateChange kid s = Inr (u, s')" and "distinctKids s"
  shows "jwk s kid = Inr (signingKey s') \<and> distinctKids s'"
proof -
  note change = activateChange_keys [OF assms(1)]
  then have "ks_active s' \<in> set (keyList s)" by (simp add: keyList_def)
  with change assms(2) show ?thesis
    using jwk_unique [OF assms(2)] distinctKids_mset [of s' s] by (simp add: signingKey_def)
qed

lemma supersedeChange_lists:
  assumes "supersedeChange kid s = Inr (u, s')" and "distinctKids s"
  shows "JStr kid \<notin> set (listKeyIds s')"
  using assms(1)
proof (rule supersedeChange_keys)
  fix key assume "allKeys s = add_mset key (allKeys s')" "kidIs kid key"
  with distinctKids_add assms(2) have "JStr kid \<notin> (\<lambda>k. propOf k ''kid'') ` set (keyList s')"
    by (fastforce simp: kidIs_def)
  then show ?thesis by (auto simp: listKeyIds_def keyList_def)
qed

lemma supersede_store:
  "supersede kid faults p = (r, p') \<Longrightarrow> signingKey (lk_store p') = signingKey (lk_store p)"
  using mutate_store [of "supersedeChange kid" faults p]
  by (auto simp: supersede_def signingKey_def elim!: supersedeChange_keys)

lemma generateKey_store:
  "generateKey C algorithm faults p = (r, p') \<Longrightarrow> signingKey (lk_store p') = signingKey (lk_store p)"
  using mutate_store [of "generateChange C algorithm" faults p]
  by (auto simp: generateKey_def signingKey_def elim!: generateChange_keys)

lemma supersede_done:
  assumes "supersede kid faults p = (Inr u, p')" and "distinctKids (lk_store p)"
  shows "JStr kid \<notin> set (listKeyIds (lk_store p'))"
  using assms mutate_result [of "supersedeChange kid" faults p u]
  by (auto simp: supersede_def dest: supersedeChange_lists)

interpretation local: key_provider "localKeyProvider C generating activating' superseding"
  "\<lambda>p. distinctKids (lk_store p)" for C generating activating' superseding
proof unfold_locales
  fix s kid r s'
  assume "distinctKids (lk_store s)" and "kp_activate (localKeyProvider C generating activating' superseding) kid s = (r, s')"
  then show "sg_signingKey (kp_signer (localKeyProvider C generating activating' superseding) s') =
      sg_signingKey (kp_signer (localKeyProvider C generating activating' superseding) s) \<or>
    sg_signingKey (kp_signer (localKeyProvider C generating activating' superseding) s') =
      sg_jwk (kp_signer (localKeyProvider C generating activating' superseding) s) kid"
    using activate_store [of kid activating' s r s'] by (auto dest: activateChange_jwk)
next
  fix s kid u s'
  assume "distinctKids (lk_store s)" and "kp_activate (localKeyProvider C generating activating' superseding) kid s = (Inr u, s')"
  then show "sg_signingKey (kp_signer (localKeyProvider C generating activating' superseding) s') =
      sg_jwk (kp_signer (localKeyProvider C generating activating' superseding) s) kid \<and> distinctKids (lk_store s')"
    using activate_store [of kid activating' s "Inr u" s'] by (auto dest: activateChange_jwk)
qed (auto dest: generateKey_store supersede_store supersede_done)

section \<open>Stored keys\<close>

text \<open>The members of a normalized key.\<close>

lemma normalized_members:
  assumes "validateAndNormalizePrivateJwk C key = Inr stored"
  obtains isP256 kid alg where
    "stored = JObj (publicMembers key isP256 kid @
       [(js ''alg'', JStr alg), (js ''use'', JStr (js ''sig''))] @ [(js ''d'', propOf key ''d'')])"
    "jwkSignatureAlg (JObj (publicMembers key isP256 (keyText key ''kid''))) = Inr alg"
    "isStr (propOf key ''kty'') ''OKP'' \<and> isStr (propOf key ''crv'') ''Ed25519'' \<or>
     isStr (propOf key ''kty'') ''EC'' \<and> isStr (propOf key ''crv'') ''P-256''"
    "(if keyText key ''kid'' \<noteq> [] then Inr (keyText key ''kid'')
      else joseThumbprint C (JObj (publicMembers key isP256 (keyText key ''kid'')))) = Inr kid"
    "selfCheck C stored
       (JObj (publicMembers key isP256 kid @ [(js ''alg'', JStr alg), (js ''use'', JStr (js ''sig''))])) alg"
proof -
  define isP256 where "isP256 = (isStr (propOf key ''kty'') ''EC'' \<and> isStr (propOf key ''crv'') ''P-256'' \<and>
    isString (propOf key ''x'') \<and> isString (propOf key ''y''))"
  from assms have nn: "getp key ''kty'' = Inr (propOf key ''kty'')"
    by (auto simp: validateAndNormalizePrivateJwk_def getp_def split: if_splits)
  show thesis
    using assms unfolding validateAndNormalizePrivateJwk_def nn Let_def bindE_Inr isP256_def [symmetric]
    unfolding bindE_eq_Inr assertE_eq_Inr
    by (elim exE conjE) (rule that [of isP256], auto simp: isP256_def simp del: js_Cons)
qed

lemma propOf_publicMembers:
  "propOf (JObj (publicMembers key b kid @ ms)) ''kty'' = propOf key ''kty''"
  "propOf (JObj (publicMembers key b kid @ ms)) ''crv'' = propOf key ''crv''"
  "propOf (JObj (publicMembers key b kid @ ms)) ''x'' = propOf key ''x''"
  "propOf (JObj (publicMembers key b kid @ ms)) ''kid'' = JStr kid"
  "propOf (JObj (publicMembers key b kid @ ms)) ''alg'' = propOf (JObj ms) ''alg''"
  "propOf (JObj (publicMembers key b kid @ ms)) ''use'' = propOf (JObj ms) ''use''"
  "propOf (JObj (publicMembers key b kid @ ms)) ''d'' = propOf (JObj ms) ''d''"
  "propOf (JObj (publicMembers key b kid @ ms)) ''y'' = (if b then propOf key ''y'' else propOf (JObj ms) ''y'')"
  by (simp_all add: publicMembers_def lookupProp_def)

lemma propOf_empty: "propOf (JObj []) n = JUndef"
  by (simp add: lookupProp_def)

lemmas propOf_members = propOf_publicMembers propOf_publicMembers [of _ _ _ "[]", unfolded append_Nil2] propOf_empty

lemma propOf_suffix:
  "propOf (JObj ((js ''alg'', a) # (js ''use'', u) # ms)) ''alg'' = a"
  "propOf (JObj ((js ''alg'', a) # (js ''use'', u) # ms)) ''use'' = u"
  "propOf (JObj ((js ''alg'', a) # (js ''use'', u) # ms)) ''y'' = propOf (JObj ms) ''y''"
  "propOf (JObj ((js ''alg'', a) # (js ''use'', u) # ms)) ''d'' = propOf (JObj ms) ''d''"
  "propOf (JObj [(js ''d'', d)]) ''d'' = d"
  by (simp_all add: lookupProp_def)

lemma toPublicJwk_members:
  "toPublicJwk (JObj (publicMembers key b kid @ [(js ''alg'', a), (js ''use'', u)] @ [(js ''d'', d)])) =
   JObj (publicMembers key b kid @ [(js ''alg'', a), (js ''use'', u)])"
  by (simp add: publicMembers_def)

lemma publicMembers_alg:
  assumes "jwkSignatureAlg (JObj (publicMembers key b kid0)) = Inr alg"
    and "isStr (propOf key ''kty'') ''OKP'' \<and> isStr (propOf key ''crv'') ''Ed25519'' \<or>
     isStr (propOf key ''kty'') ''EC'' \<and> isStr (propOf key ''crv'') ''P-256''"
  shows "jwkSignatureAlg (JObj (publicMembers key b kid @ [(js ''alg'', JStr alg), (js ''use'', JStr (js ''sig''))])) = Inr alg \<and>
    alg \<in> set DRAFT01_SIGNING_ALGS"
proof -
  from assms(1) have "derivedSignatureAlg (JObj (publicMembers key b kid0)) = Inr alg"
    by (simp add: jwkSignatureAlg_def getp_def nullish_def propOf_members del: propOf.simps)
  with assms(2) have "isStr (propOf key ''kty'') ''OKP'' \<and> isStr (propOf key ''crv'') ''Ed25519'' \<and> alg = js ''EdDSA'' \<or>
     isStr (propOf key ''kty'') ''EC'' \<and> isStr (propOf key ''crv'') ''P-256'' \<and> alg = js ''ES256''"
    by (auto simp: derivedSignatureAlg_def propOf_members isStr_def simp del: propOf.simps)
  moreover define k where "k = JObj (publicMembers key b kid @ [(js ''alg'', JStr alg), (js ''use'', JStr (js ''sig''))])"
  moreover have "propOf k ''alg'' = JStr alg" "propOf k ''use'' = JStr (js ''sig'')" "\<not> nullish k"
      "propOf k ''kty'' = propOf key ''kty''" "propOf k ''crv'' = propOf key ''crv''"
    by (simp_all add: k_def nullish_def propOf_members propOf_suffix del: propOf.simps js_Cons)
  ultimately show ?thesis
    by (elim disjE) (simp_all add: k_def [symmetric] jwkSignatureAlg_def getp_def isStr_def SIGNING_ALGS_def
        DRAFT01_SIGNING_ALGS_def isAlgConsistentWithKey_def del: propOf.simps)
qed

lemma validateOperational_single:
  assumes "jwkSignatureAlg key = Inr alg" and "alg \<in> set DRAFT01_SIGNING_ALGS"
    and "propOf key ''alg'' = JStr alg" and "propOf key ''kid'' = JStr kid" and "kid \<noteq> []"
  shows "validateOperational \<lparr>jwks_keys = [key]\<rparr> = Inr () \<and> validateRecordSigning \<lparr>jwks_keys = [key]\<rparr> = Inr ()"
proof -
  have "\<not> nullish key" "propOf key ''use'' = JUndef \<or> isStr (propOf key ''use'') ''sig''"
    using jwkSignatureAlg_use [OF assms(1)] by auto
  moreover have "alg \<noteq> []" using assms(2) by (auto simp: DRAFT01_SIGNING_ALGS_def)
  ultimately show ?thesis
    using assms by (simp add: validateOperational_def validateRecordSigning_def assertUniqueKids_def
        currentDraft01SigningKey_def isSigningUse_def getp_def)
qed

text \<open>
  Every key that enters a local store can be published and used: its public part contains no
  private member and is a valid operational and record-signing key set, and it verifies a signature
  made with the stored key; and the key keeps its identifier, or is named by its thumbprint when
  it has none. The thumbprint of the platform is assumed not to be empty.
\<close>

theorem validateAndNormalizePrivateJwk_publishable:
  assumes "validateAndNormalizePrivateJwk C key = Inr stored"
    and "\<forall>k t. joseThumbprint C k = Inr t \<longrightarrow> t \<noteq> []"
  shows "propOf (toPublicJwk stored) ''d'' = JUndef \<and> propOf stored ''d'' = propOf key ''d'' \<and>
    validateOperational \<lparr>jwks_keys = [toPublicJwk stored]\<rparr> = Inr () \<and>
    validateRecordSigning \<lparr>jwks_keys = [toPublicJwk stored]\<rparr> = Inr () \<and>
    (\<exists>alg signature. propOf stored ''alg'' = JStr alg \<and> signWith C stored selfCheckProbe = Inr signature \<and>
       verifyWithKey (crypto.truncate C) (Inr selfCheckProbe) signature (toPublicJwk stored) (Some alg)) \<and>
    (keyText key ''kid'' \<noteq> [] \<longrightarrow> propOf stored ''kid'' = propOf key ''kid'')"
proof -
  from assms(1) obtain b kid alg where stored: "stored = JObj (publicMembers key b kid @
       [(js ''alg'', JStr alg), (js ''use'', JStr (js ''sig''))] @ [(js ''d'', propOf key ''d'')])"
    and alg: "jwkSignatureAlg (JObj (publicMembers key b (keyText key ''kid''))) = Inr alg"
    and kind: "isStr (propOf key ''kty'') ''OKP'' \<and> isStr (propOf key ''crv'') ''Ed25519'' \<or>
     isStr (propOf key ''kty'') ''EC'' \<and> isStr (propOf key ''crv'') ''P-256''"
    and kid: "(if keyText key ''kid'' \<noteq> [] then Inr (keyText key ''kid'')
      else joseThumbprint C (JObj (publicMembers key b (keyText key ''kid'')))) = Inr kid"
    and check: "selfCheck C stored
       (JObj (publicMembers key b kid @ [(js ''alg'', JStr alg), (js ''use'', JStr (js ''sig''))])) alg"
    by (rule normalized_members)
  have pub: "toPublicJwk stored = JObj (publicMembers key b kid @ [(js ''alg'', JStr alg), (js ''use'', JStr (js ''sig''))])"
    unfolding stored by (rule toPublicJwk_members)
  have nonempty: "kid \<noteq> []" using kid assms(2) by (auto split: if_splits)
  have own: "keyText key ''kid'' \<noteq> [] \<Longrightarrow> propOf key ''kid'' = JStr kid"
    using kid by (cases "propOf key ''kid''") (auto simp: keyText_def)
  from check obtain signature where signature: "signWith C stored selfCheckProbe = Inr signature"
      "verifyWithKey (crypto.truncate C) (Inr selfCheckProbe) signature (toPublicJwk stored) (Some alg)"
    unfolding selfCheck_def pub by (auto split: sum.splits)
  have "validateOperational \<lparr>jwks_keys = [toPublicJwk stored]\<rparr> = Inr () \<and>
      validateRecordSigning \<lparr>jwks_keys = [toPublicJwk stored]\<rparr> = Inr ()"
    unfolding pub by (rule validateOperational_single [of _ alg kid])
      (use publicMembers_alg [OF alg kind, of kid] nonempty in \<open>simp_all add: propOf_members propOf_suffix del: propOf.simps js_Cons\<close>)
  moreover have "propOf stored ''alg'' = JStr alg" "propOf stored ''d'' = propOf key ''d''"
      "propOf (toPublicJwk stored) ''d'' = JUndef" "propOf stored ''kid'' = JStr kid"
    unfolding pub unfolding stored by (simp_all add: propOf_members propOf_suffix del: propOf.simps js_Cons)
  ultimately show ?thesis using signature own by auto
qed

text \<open>
  A generated key is named by its own RFC 7638 thumbprint, which the registry demands of a key it
  is to accept. The thumbprint of the platform is assumed to depend on the required members only.
\<close>

theorem generateStoredKey_kid:
  assumes "generateStoredKey C algorithm = Inr stored"
    and "\<forall>k k'. (\<forall>n \<in> {''kty'', ''crv'', ''x'', ''y''}. propOf k n = propOf k' n) \<longrightarrow>
      joseThumbprint C k = joseThumbprint C k'"
  shows "\<exists>kid. propOf stored ''kid'' = JStr kid \<and> joseThumbprint C (toPublicJwk stored) = Inr kid"
proof -
  from assms(1) obtain priv where norm: "validateAndNormalizePrivateJwk C (withoutKid priv) = Inr stored"
    by (auto simp: generateStoredKey_def bindE_eq_Inr)
  let ?key = "withoutKid priv"
  have nokid: "keyText ?key ''kid'' = []"
    by (cases priv) (simp_all add: keyText_def lookupProp_def setProp_def update_conv)
  from norm obtain b kid alg where stored: "stored = JObj (publicMembers ?key b kid @
       [(js ''alg'', JStr alg), (js ''use'', JStr (js ''sig''))] @ [(js ''d'', propOf ?key ''d'')])"
    and kid: "(if keyText ?key ''kid'' \<noteq> [] then Inr (keyText ?key ''kid'')
      else joseThumbprint C (JObj (publicMembers ?key b (keyText ?key ''kid'')))) = Inr kid"
    by (rule normalized_members)
  have "joseThumbprint C (toPublicJwk stored) = joseThumbprint C (JObj (publicMembers ?key b []))"
  proof (rule assms(2) [rule_format])
    fix n assume "n \<in> {''kty'', ''crv'', ''x'', ''y''}"
    then show "propOf (toPublicJwk stored) n = propOf (JObj (publicMembers ?key b [])) n"
      unfolding stored toPublicJwk_members by (auto simp: propOf_members propOf_suffix simp del: propOf.simps js_Cons)
  qed
  with kid nokid show ?thesis
    unfolding stored by (simp add: propOf_members del: propOf.simps js_Cons)
qed

section \<open>Rotation with local keys\<close>

text \<open>
  C20. Rotating the key of a local provider is a transaction under every file fault: when the signing
  key has changed, or the rotation has returned, the new key was published first, then a rotation
  event that links the old thumbprint to the new key was signed and written; and a rotation that
  returns has withdrawn the old key from the published identifiers. The generated identifier is
  assumed to be new.
\<close>

theorem local_rotation_transaction:
  assumes "rotateOperationalKey C' env (Some (localKeyProvider C generating activating' superseding)) p = (r, p', effects)"
    and "distinctKids (lk_store (snd (generateKey C None generating p)))"
    and "signingKey (lk_store p') \<noteq> signingKey (lk_store p) \<or> (\<exists>x. r = Inr x)"
  shows "\<exists>t t' e ref d. joseThumbprint C' (signingKey (lk_store p)) = Inr t \<and>
    joseThumbprint C' (signingKey (lk_store p')) = Inr t' \<and>
    effects = [Published \<lparr>jwks_keys = [signingKey (lk_store p')]\<rparr>, Written (KEY_ROTATION e) ref] \<and>
    re_domain env = Some d \<and> rotationLink e = (d, t, t', signingKey (lk_store p'), re_timestamp env) \<and>
    present (ev_sig e) \<and>
    ((\<exists>x. r = Inr x) \<longrightarrow> JStr (keyText (signingKey (lk_store p)) ''kid'') \<notin> set (listKeyIds (lk_store p')))"
  using local.rotation_transaction [of C' env C generating activating' superseding p r p' effects] assms
  by (auto simp: rotateOperationalKey_def requireKeyProvider_def)

end
