(* ===== verification/LocalKeysExample.thy ===== *)
theory LocalKeysExample
  imports LocalKeys IdentityExample
begin

text \<open>
  A rotation of a local key on concrete inputs, step by step, and the witnesses of the theorems about
  the local key provider.
\<close>

definition exportedKey :: "jstring \<Rightarrow> json" where
  "exportedKey x = JObj [(js ''kty'', JStr (js ''OKP'')), (js ''crv'', JStr (js ''Ed25519'')), (js ''x'', JStr x),
     (js ''d'', JStr (js ''s''))]"

definition storedKey :: "jstring \<Rightarrow> jstring \<Rightarrow> json" where
  "storedKey kid x = JObj [(js ''kty'', JStr (js ''OKP'')), (js ''crv'', JStr (js ''Ed25519'')), (js ''x'', JStr x),
     (js ''kid'', JStr kid), (js ''alg'', JStr (js ''EdDSA'')), (js ''use'', JStr (js ''sig'')), (js ''d'', JStr (js ''s''))]"

definition publicKey :: "jstring \<Rightarrow> jstring \<Rightarrow> json" where
  "publicKey kid x = JObj [(js ''kty'', JStr (js ''OKP'')), (js ''crv'', JStr (js ''Ed25519'')), (js ''x'', JStr x),
     (js ''kid'', JStr kid), (js ''alg'', JStr (js ''EdDSA'')), (js ''use'', JStr (js ''sig''))]"

definition examplePrivate :: private_crypto where
  "examplePrivate = \<lparr>hash256 = (\<lambda>x. take 32 (x @ replicate 32 0)), importKey = (\<lambda>_ _. True),
     subtleVerify = (\<lambda>_ _ s _. Some (s = [1])), joseThumbprint = (\<lambda>k. Inr (116 # keyText k ''x'')),
     generateExported = (\<lambda>_. Inr (exportedKey entityX)), subtleSign = (\<lambda>_ _ _. Inr [1])\<rparr>"

lemma propOf_storedKey [simp]:
  "propOf (storedKey kid x) ''kty'' = JStr (js ''OKP'')" "propOf (storedKey kid x) ''crv'' = JStr (js ''Ed25519'')"
  "propOf (storedKey kid x) ''alg'' = JStr (js ''EdDSA'')" "propOf (storedKey kid x) ''kid'' = JStr kid"
  "propOf (storedKey kid x) ''x'' = JStr x" "propOf (storedKey kid x) ''use'' = JStr (js ''sig'')"
  "\<not> nullish (storedKey kid x)" "toPublicJwk (storedKey kid x) = publicKey kid x"
  by (simp_all add: storedKey_def lookupProp_def nullish_def publicKey_def)

lemma propOf_publicKey [simp]:
  "propOf (publicKey kid x) ''kty'' = JStr (js ''OKP'')" "propOf (publicKey kid x) ''crv'' = JStr (js ''Ed25519'')"
  "propOf (publicKey kid x) ''alg'' = JStr (js ''EdDSA'')" "propOf (publicKey kid x) ''kid'' = JStr kid"
  "propOf (publicKey kid x) ''x'' = JStr x" "propOf (publicKey kid x) ''use'' = JStr (js ''sig'')"
  "propOf (publicKey kid x) ''d'' = JUndef" "\<not> nullish (publicKey kid x)"
  by (simp_all add: publicKey_def lookupProp_def nullish_def)

lemma jwkSignatureAlg_example [simp]:
  "jwkSignatureAlg (storedKey kid x) = Inr (js ''EdDSA'')" "jwkSignatureAlg (publicKey kid x) = Inr (js ''EdDSA'')"
  by (simp_all add: jwkSignatureAlg_def getp_def SIGNING_ALGS_def isAlgConsistentWithKey_def isStr_def)

lemma localKeyAlgorithm_example [simp]: "localKeyAlgorithm (storedKey kid x) = Inr (js ''EdDSA'')"
  by (simp add: localKeyAlgorithm_def)

lemma signWith_example [simp]: "signWith examplePrivate (storedKey kid x) payload = Inr [1]"
  by (simp add: signWith_def importPrivateKey_def signAlgorithm_def examplePrivate_def)

lemma validateOperational_example [simp]:
  "kid \<noteq> [] \<Longrightarrow> validateOperational \<lparr>jwks_keys = [publicKey kid x]\<rparr> = Inr ()"
  using validateOperational_single [of "publicKey kid x" "js ''EdDSA''" kid] by (simp add: DRAFT01_SIGNING_ALGS_def)

lemma selfCheck_example: "selfCheck examplePrivate (storedKey kid entityX) (publicKey kid entityX) (js ''EdDSA'')"
proof -
  have "publicKeyEncodingValid (publicKey kid entityX) = Inr True"
    using example_encoding [of kid] by (simp add: publicKeyEncodingValid_def isStr_def)
  then show ?thesis
    by (simp add: selfCheck_def verifyWithKey_def getVerifyAlgorithm_def)
      (simp add: examplePrivate_def crypto.truncate_def)
qed

lemma generateStoredKey_example:
  "generateStoredKey examplePrivate algorithm = Inr (storedKey (116 # entityX) entityX)"
proof -
  have check: "selfCheck examplePrivate (storedKey (116 # entityX) entityX) (publicKey (116 # entityX) entityX) (js ''EdDSA'')"
    by (rule selfCheck_example)
  have exported: "generateExported examplePrivate algorithm = Inr (exportedKey entityX)"
    and thumbprint: "joseThumbprint examplePrivate k = Inr (116 # keyText k ''x'')" for k
    by (simp_all add: examplePrivate_def)
  show ?thesis
    using check unfolding storedKey_def publicKey_def
    by (simp add: generateStoredKey_def exported exportedKey_def setProp_def validateAndNormalizePrivateJwk_def getp_def
        nullish_def lookupProp_def isStr_def isString_def publicMembers_def keyText_def jwkSignatureAlg_def
        derivedSignatureAlg_def thumbprint)
qed

section \<open>Witnesses for stored keys\<close>

lemma thumbprint_example: "joseThumbprint examplePrivate k = Inr (116 # keyText k ''x'')"
  by (simp add: examplePrivate_def)

lemma normalize_example:
  "validateAndNormalizePrivateJwk examplePrivate (withoutKid (exportedKey entityX)) =
     Inr (storedKey (116 # entityX) entityX)"
  using generateStoredKey_example [of "js ''EdDSA''"]
  by (simp add: generateStoredKey_def examplePrivate_def)

theorem validateAndNormalizePrivateJwk_publishable_witness:
  "validateOperational \<lparr>jwks_keys = [publicKey (116 # entityX) entityX]\<rparr> = Inr () \<and>
   propOf (publicKey (116 # entityX) entityX) ''d'' = JUndef"
  using validateAndNormalizePrivateJwk_publishable [OF normalize_example]
  by (simp add: thumbprint_example)

theorem generateStoredKey_kid_witness:
  "\<exists>kid. propOf (storedKey (116 # entityX) entityX) ''kid'' = JStr kid \<and>
     joseThumbprint examplePrivate (publicKey (116 # entityX) entityX) = Inr kid"
proof -
  have "\<forall>k k'. (\<forall>n \<in> {''kty'', ''crv'', ''x'', ''y''}. propOf k n = propOf k' n) \<longrightarrow>
      joseThumbprint examplePrivate k = joseThumbprint examplePrivate k'"
    by (simp add: thumbprint_example keyText_def)
  from generateStoredKey_kid [OF generateStoredKey_example this] show ?thesis by simp
qed

section \<open>A run of the provider\<close>

definition oldKey :: json where "oldKey = storedKey (js ''o'') operationalX"
definition newKey :: json where "newKey = storedKey (116 # entityX) entityX"

definition exampleStore :: KeyStore where
  "exampleStore = \<lparr>ks_active = oldKey, ks_retained = [], ks_pending = [newKey]\<rparr>"

definition exampleProvider :: LocalKeyProvider where
  "exampleProvider = newProvider exampleStore (Some \<lparr>kf_main = Some exampleStore, kf_bak = None\<rparr>)"

lemma kidIs_example [simp]: "kidIs kid oldKey \<longleftrightarrow> kid = js ''o''" "kidIs kid newKey \<longleftrightarrow> kid = 116 # entityX"
  by (auto simp: kidIs_def oldKey_def newKey_def)

text \<open>A signature with the old key, an activation that waits for it, and the commit of the activation.\<close>

definition drainingProvider :: LocalKeyProvider where
  "drainingProvider = exampleProvider\<lparr>lk_signing := [(0, oldKey)], lk_promises := 1, lk_activation := Draining (116 # entityX) [0]\<rparr>"

definition committedProvider :: LocalKeyProvider where
  "committedProvider = snd (activate_commit (116 # entityX) (Completes, Completes) (snd (signKey_end examplePrivate (0, oldKey) [] drainingProvider)))"

lemma draining_run: "lk_run exampleProvider drainingProvider"
proof -
  let ?p = "snd (signKey_begin (js ''o'') exampleProvider)"
  have "lk_run exampleProvider (snd (activate_begin (116 # entityX) ?p))"
    by (rule rtranclp.rtrancl_into_rtrancl [OF r_into_rtranclp]) (rule lk_step.intros)+
  moreover have "snd (activate_begin (116 # entityX) ?p) = drainingProvider"
    by (simp add: drainingProvider_def signKey_begin_def activate_begin_def signerFor_def activating_def exampleProvider_def newProvider_def exampleStore_def)
  ultimately show ?thesis by simp
qed

lemma committed_run: "lk_run exampleProvider committedProvider"
proof -
  let ?p = "snd (signKey_end examplePrivate (0, oldKey) [] drainingProvider)"
  have "lk_step drainingProvider ?p" by (rule lk_step.sign_end) (simp add: drainingProvider_def)
  moreover have "lk_step ?p committedProvider"
    unfolding committedProvider_def
    by (rule lk_step.activate_commit [where awaited = "[0]"]) (simp_all add: drainingProvider_def signKey_end_def allSettled_def)
  ultimately show ?thesis using draining_run by (meson rtranclp.rtrancl_into_rtrancl)
qed

theorem local_provider_safe_witness:
  "snd ` set (lk_signing drainingProvider) \<subseteq> {oldKey, newKey} \<and> snd (signKey_begin (js ''o'') drainingProvider) = drainingProvider \<and>
   (\<exists>f. lk_files committedProvider = Some f \<and> kf_main f = Some (lk_store committedProvider)) \<and>
   lk_store committedProvider = \<lparr>ks_active = newKey, ks_retained = [oldKey], ks_pending = []\<rparr> \<and> lk_signing committedProvider = []"
proof -
  note safe = local_provider_safe [of exampleStore "Some \<lparr>kf_main = Some exampleStore, kf_bak = None\<rparr>", folded exampleProvider_def]
  have eval: "lk_store committedProvider = \<lparr>ks_active = newKey, ks_retained = [oldKey], ks_pending = []\<rparr>"
      "lk_signing committedProvider = []" "\<exists>f. lk_files committedProvider = Some f"
    by (simp_all add: committedProvider_def drainingProvider_def signKey_end_def activate_commit_def mutate_def exampleProvider_def newProvider_def
        activateChange_def exampleStore_def writeStore_def)
  have store: "lk_store drainingProvider = exampleStore" "snd (signKey_begin (js ''o'') drainingProvider) = drainingProvider"
    by (simp_all add: drainingProvider_def exampleProvider_def newProvider_def signKey_begin_def activating_def)
  have "snd ` set (lk_signing drainingProvider) \<subseteq> insert (ks_active (lk_store drainingProvider)) (set (ks_pending (lk_store drainingProvider)))"
    by (rule safe [OF draining_run, THEN conjunct2]) simp
  moreover have "\<forall>f. lk_files committedProvider = Some f \<longrightarrow> kf_main f = Some (lk_store committedProvider)"
    by (rule safe [OF committed_run, THEN conjunct1]) simp
  moreover have "ks_active exampleStore = oldKey" "ks_pending exampleStore = [newKey]" by (simp_all add: exampleStore_def)
  ultimately show ?thesis using eval store by (simp del: js_Cons) blast
qed

text \<open>The commit of an activation whose directory cannot be synchronized after the rename.\<close>

theorem local_step_conserves_keys_witness:
  "\<exists>f. lk_files (snd (activate_commit (116 # entityX) (Completes, AfterRename (PlainError ''EIO''))
      (exampleProvider\<lparr>lk_activation := Draining (116 # entityX) []\<rparr>))) = Some f \<and>
    kf_main f = Some \<lparr>ks_active = newKey, ks_retained = [oldKey], ks_pending = []\<rparr> \<and> kf_bak f = Some exampleStore"
proof -
  let ?p = "exampleProvider\<lparr>lk_activation := Draining (116 # entityX) []\<rparr>"
  let ?p' = "snd (activate_commit (116 # entityX) (Completes, AfterRename (PlainError ''EIO'')) ?p)"
  have "lk_step ?p ?p'"
    by (rule lk_step.activate_commit [where awaited = "[]"]) (simp_all add: exampleProvider_def newProvider_def allSettled_def)
  moreover have "lk_store ?p' = \<lparr>ks_active = newKey, ks_retained = [oldKey], ks_pending = []\<rparr>"
    by (simp add: activate_commit_def mutate_def exampleProvider_def newProvider_def activateChange_def exampleStore_def
        writeStore_def)
  ultimately show ?thesis
    using local_step_conserves_keys [of ?p ?p'] by (simp add: exampleProvider_def newProvider_def exampleStore_def)
qed

section \<open>A rotation\<close>

definition rotationEnv :: rotation_env where
  "rotationEnv = \<lparr>re_domain = Some (js ''a.b''), re_timestamp = Some 5, re_publishKeySet = (\<lambda>_. Inr ()),
     re_binding = Some \<lparr>lb_canonical = (\<lambda>_. Inr [7]), lb_additionalSignerRoles = None\<rparr>,
     re_log = Some (\<lambda>_. Inr (js ''r'')), re_entitySigner = None\<rparr>"

definition soloProvider :: LocalKeyProvider where
  "soloProvider = newProvider \<lparr>ks_active = oldKey, ks_retained = [], ks_pending = []\<rparr> None"

definition pendingProvider :: LocalKeyProvider where
  "pendingProvider = newProvider exampleStore None"

definition rotatedProvider :: LocalKeyProvider where
  "rotatedProvider = newProvider \<lparr>ks_active = newKey, ks_retained = [], ks_pending = []\<rparr> None"

abbreviation exampleKp :: "LocalKeyProvider KeyProvider" where
  "exampleKp \<equiv> localKeyProvider examplePrivate (Completes, Completes) (Completes, Completes) (Completes, Completes)"

abbreviation oldPublic :: json where "oldPublic \<equiv> publicKey (js ''o'') operationalX"
abbreviation newPublic :: json where "newPublic \<equiv> publicKey (116 # entityX) entityX"

lemma example_kids [simp]: "js ''o'' \<noteq> 116 # entityX" "116 # entityX \<noteq> js ''o''"
  by simp_all

lemma keyText_public [simp]:
  "keyText (publicKey kid x) ''kid'' = kid" "keyText (publicKey kid x) ''alg'' = js ''EdDSA''"
  "keyText (publicKey kid x) ''x'' = x" "kidOf (publicKey kid x) = Some kid"
  "keyText (storedKey kid x) ''kid'' = kid"
  by (simp_all add: keyText_def kidOf_def)

lemma rotation_generate: "generateKey examplePrivate None (Completes, Completes) soloProvider = (Inr (116 # entityX), pendingProvider)"
  by (simp add: generateKey_def mutate_def soloProvider_def newProvider_def generateChange_def oldKey_def
      validateKeyGeneration_def generateStoredKey_example pendingProvider_def exampleStore_def newKey_def)

lemma rotation_signer:
  "jwk exampleStore (js ''o'') = Inr oldPublic" "jwk exampleStore (116 # entityX) = Inr newPublic"
  "signKey examplePrivate pendingProvider (js ''o'') payload = Inr [1]"
  by (simp_all add: jwk_def exampleStore_def signKey_def signKey_begin_def signKey_end_def signerFor_def
      activating_def pendingProvider_def newProvider_def del: js_Cons)
    (simp_all add: oldKey_def newKey_def)

definition exampleEvent :: KeyRotationEvent where
  "exampleEvent = \<lparr>ev_signingKid = None, ev_sig = None, ev_operationalCountersig = None, ev_newOperationalProof = None,
     kr_domain = js ''a.b'', kr_previousOperationalKid = js ''o'', kr_previousOperationalThumbprint = 116 # operationalX,
     kr_newOperationalKid = 116 # entityX, kr_newOperationalAlg = js ''EdDSA'',
     kr_newOperationalThumbprint = 116 # entityX, kr_newOperationalPublicKey = newPublic, kr_timestamp = Some 5\<rparr>"

lemma rotation_prepare:
  "prepareRotation (crypto.truncate examplePrivate) rotationEnv (kp_signer exampleKp pendingProvider) oldPublic (116 # entityX) =
   Inr (newPublic, exampleEvent)"
proof -
  have thumbprint: "joseThumbprint (crypto.truncate examplePrivate) k = Inr (116 # keyText k ''x'')" for k
    by (simp add: examplePrivate_def crypto.truncate_def)
  have "lk_store pendingProvider = exampleStore" by (simp add: pendingProvider_def newProvider_def)
  then show ?thesis
    by (simp add: prepareRotation_def rotation_signer rotationEvent_def rotationEnv_def thumbprint exampleEvent_def)
qed

lemma rotation_publish:
  "publishRotation (crypto.truncate examplePrivate) rotationEnv (kp_signer exampleKp pendingProvider) newPublic exampleEvent =
   (Inr (KEY_ROTATION (exampleEvent\<lparr>ev_signingKid := Some (js ''o''), ev_sig := Some (js ''AQ'')\<rparr>), js ''r''),
    [Published \<lparr>jwks_keys = [newPublic]\<rparr>,
     Written (KEY_ROTATION (exampleEvent\<lparr>ev_signingKid := Some (js ''o''), ev_sig := Some (js ''AQ'')\<rparr>)) (js ''r'')])"
proof -
  have thumbprint: "joseThumbprint (crypto.truncate examplePrivate) k = Inr (116 # keyText k ''x'')" for k
    by (simp add: examplePrivate_def crypto.truncate_def)
  have store: "lk_store pendingProvider = exampleStore" by (simp add: pendingProvider_def newProvider_def)
  have signer: "sg_signKey (kp_signer exampleKp pendingProvider) = signKey examplePrivate pendingProvider"
    by (simp add: localKeyProvider_def)
  show ?thesis
    by (simp add: publishRotation_def rotationEnv_def signAndWriteEvent_def signMissing_def requiredLogSignatures_def
        requiredLogSignaturesFor_def baseRoles_def hasLogSignature_def BaseLogEvent.truncate_def exampleEvent_def
        present_def signEvent_def signEventWithProvider_def signAsPrevious_def store signer rotation_signer thumbprint
        assertNewOperationalKey_def writeSignedEvent_def example_sg del: js_Cons)
qed

lemma rotation_commit: "commitRotation exampleKp (116 # entityX) (js ''o'') pendingProvider = (Inr (), rotatedProvider)"
  by (simp add: commitRotation_def activate_def activate_begin_def activating_def pendingProvider_def newProvider_def
      activate_commit_def settleSignatures_def mutate_def activateChange_def exampleStore_def activate_end_def
      supersede_def supersedeChange_def rotatedProvider_def del: js_Cons)

theorem local_rotation_transaction_witness:
  "\<exists>e ref. snd (snd (rotateOperationalKey (crypto.truncate examplePrivate) rotationEnv (Some exampleKp) soloProvider)) =
      [Published \<lparr>jwks_keys = [newPublic]\<rparr>, Written (KEY_ROTATION e) ref] \<and>
    rotationLink e = (js ''a.b'', 116 # operationalX, 116 # entityX, newPublic, Some 5)"
proof -
  have keys: "signingKey (lk_store soloProvider) = oldPublic" "signingKey (lk_store rotatedProvider) = newPublic"
    by (simp_all add: signingKey_def soloProvider_def rotatedProvider_def newProvider_def oldKey_def newKey_def)
  have run: "rotateOperationalKey (crypto.truncate examplePrivate) rotationEnv (Some exampleKp) soloProvider =
      (Inr (KEY_ROTATION (exampleEvent\<lparr>ev_signingKid := Some (js ''o''), ev_sig := Some (js ''AQ'')\<rparr>), js ''r'',
         \<lparr>jwks_keys = [newPublic]\<rparr>), rotatedProvider,
       [Published \<lparr>jwks_keys = [newPublic]\<rparr>,
        Written (KEY_ROTATION (exampleEvent\<lparr>ev_signingKid := Some (js ''o''), ev_sig := Some (js ''AQ'')\<rparr>)) (js ''r'')])"
    by (simp add: rotateOperationalKey_def requireKeyProvider_def rotateWith_def keys rotation_generate rotation_prepare
        rotation_publish rotation_commit del: js_Cons)
  have "distinctKids (lk_store (snd (generateKey examplePrivate None (Completes, Completes) soloProvider)))"
    by (simp add: rotation_generate distinctKids_def keyList_def pendingProvider_def newProvider_def exampleStore_def
        oldKey_def newKey_def)
  with local_rotation_transaction [OF run] show ?thesis
    unfolding run by (auto simp: keys examplePrivate_def crypto.truncate_def rotationEnv_def)
qed

end
