(* ===== verification/Publication.thy ===== *)
theory Publication
  imports Signing IdentityExample
begin

text \<open>
  What \<open>createTxtRecord\<close> publishes against what verification accepts: the text parses back, passes
  validation, and its signature verifies under the entity key.
\<close>

lemma toBase64Url_chars: "c \<in> set (toBase64Url bs) \<Longrightarrow> isAlnum c \<or> c = 45 \<or> c = 95"
proof -
  assume "c \<in> set (toBase64Url bs)"
  then obtain i where "i < 64" "c = (if b64char i = 43 then 45 else if b64char i = 47 then 95 else b64char i)"
    unfolding toBase64Url_sextets set_map image_iff using toSextets_less [OF map_unat_bytes [of bs]] by blast
  then show ?thesis
    by (auto simp: b64char_def isAlnum_def isUpper_def isLower_def isDigit_def split: if_splits)
qed

lemma toBase64Url_tagValue: "tagValue (toBase64Url bs)" "61 \<notin> set (toBase64Url bs)"
  using toBase64Url_chars by (fastforce simp: tagValue_def isAlnum_def isDigit_def isLower_def isUpper_def)+

lemma toBase64Url_nonempty: "bs \<noteq> [] \<Longrightarrow> toBase64Url bs \<noteq> []"
  using base64url.enc_eq_iff [of bs "[]"] by (simp add: toBase64Url_def [of "[]"])

text \<open>The values of a configuration that become tags.\<close>

definition tagValues :: "IdentityConfig \<Rightarrow> jstring list" where
  "tagValues i = [ic_governanceId i, ic_logRef i, ic_statusUrl i] @
     concat (map (\<lambda>v. case v of None \<Rightarrow> [] | Some s \<Rightarrow> [s])
       [ic_ekUrl i, ic_kuUrl i, ic_policyFlags i, ic_maxKeyAge i, ic_capabilitiesUrl i])"

text \<open>The record that is signed.\<close>

definition configuredRecord :: "IdentityConfig \<Rightarrow> DnsIdTxtRecord" where
  "configuredRecord i = emptyRecord\<lparr>r_v := DNSID_DRAFT01_VERSION, r_gi := ic_governanceId i, r_ek := the (ic_ekUrl i),
     r_ku := the (ic_kuUrl i), r_lr := ic_logRef i, r_su := ic_statusUrl i, r_agentFQDN := ic_domain i,
     r_fl := (if present (ic_policyFlags i) then ic_policyFlags i else None),
     r_ka := (if present (ic_maxKeyAge i) then ic_maxKeyAge i else None),
     r_cu := (if present (ic_capabilitiesUrl i) then ic_capabilitiesUrl i else None)\<rparr>"

lemma createUnsignedTxtRecord_Inr:
  "createUnsignedTxtRecord P (Some i) = Inr r \<longleftrightarrow>
   (ic_publishProfile i = None \<or> ic_publishProfile i = Some DNSID_DRAFT01_VERSION) \<and>
   present (ic_ekUrl i) \<and> present (ic_kuUrl i) \<and> r = configuredRecord i \<and> validate P r = Inr ()"
  by (auto simp: createUnsignedTxtRecord_def DEFAULT_PUBLISH_PROFILE_def argumentOnFailure_def configuredRecord_def
      bindE_eq_Inr assertE_eq_Inr catchE_eq_Inr Let_def split: option.splits)

lemma createTxtRecord_Inr:
  assumes "createTxtRecord P C (Some i) (Some entity) operational = Inr txt"
  obtains key s where "validate P (configuredRecord i) = Inr ()" "present (ic_ekUrl i)" "present (ic_kuUrl i)"
    "sg_signingKey entity = Inr key" "validateRecordSigning \<lparr>jwks_keys = [key]\<rparr> = Inr ()"
    "sg_sign entity (utf8 (canonical (configuredRecord i))) = Inr s"
    "txt = serialize (configuredRecord i\<lparr>r_sg := toBase64Url s\<rparr>)"
  using assms
  by (auto simp: createTxtRecord_def bindE_eq_Inr createUnsignedTxtRecord_Inr)

lemma validate_nonempty:
  assumes "validate P r = Inr ()"
  shows "r_gi r \<noteq> [] \<and> r_lr r \<noteq> [] \<and> r_su r \<noteq> []"
  using assms
  by (auto simp: validate_def bindE_eq_Inr normalizeFQDN_def validateLrFormat_def validateHttpsUrl_def httpsPrefix_def
      split: if_splits)

lemma optionalPair_present:
  "r_parsedTags r = [] \<Longrightarrow> optionalPair s (if present v then v else None) r =
     (if present v then [(js s, the v)] else [])"
  by (auto simp: optionalPair_def present_def split: option.splits)

lemma configured_wf:
  assumes "validate P (configuredRecord i) = Inr ()" and "present (ic_ekUrl i)" and "present (ic_kuUrl i)"
    and "\<forall>v \<in> set (tagValues i). tagValue v" and "s \<noteq> []"
  shows "wfRecord (configuredRecord i\<lparr>r_sg := toBase64Url s\<rparr>)"
proof -
  have ne: "ic_governanceId i \<noteq> []" "ic_logRef i \<noteq> []" "ic_statusUrl i \<noteq> []"
    using validate_nonempty [OF assms(1)] by (simp_all add: configuredRecord_def)
  obtain ek ku where urls: "ic_ekUrl i = Some ek" "ek \<noteq> []" "ic_kuUrl i = Some ku" "ku \<noteq> []"
    using assms(2,3) by (auto simp: present_def)
  have opt: "present v \<Longrightarrow> v = Some (the v)" for v :: "jstring option" by (auto simp: present_def)
  have vals: "tagValue (ic_governanceId i)" "tagValue (ic_logRef i)" "tagValue (ic_statusUrl i)" "tagValue ek" "tagValue ku"
      "\<And>v. v \<in> {ic_policyFlags i, ic_maxKeyAge i, ic_capabilitiesUrl i} \<Longrightarrow> present v \<Longrightarrow> tagValue (the v)"
    using assms(4) opt urls by (auto simp: tagValues_def split: option.splits)
  have version: "tagValue DNSID_DRAFT01_VERSION" "DNSID_DRAFT01_VERSION \<noteq> []"
    by (simp_all add: DNSID_DRAFT01_VERSION_def tagValue_def)
  let ?r = "configuredRecord i\<lparr>r_sg := toBase64Url s\<rparr>"
  have fields: "r_v ?r = DNSID_DRAFT01_VERSION" "r_gi ?r = ic_governanceId i" "r_ek ?r = ek" "r_ku ?r = ku"
      "r_lr ?r = ic_logRef i" "r_su ?r = ic_statusUrl i" "r_sg ?r = toBase64Url s" "r_parsedTags ?r = []" "r_unknownTags ?r = []"
    using urls by (simp_all add: configuredRecord_def emptyRecord_def)
  have optional: "r_fl ?r = (if present (ic_policyFlags i) then ic_policyFlags i else None)"
      "r_ka ?r = (if present (ic_maxKeyAge i) then ic_maxKeyAge i else None)"
      "r_cu ?r = (if present (ic_capabilitiesUrl i) then ic_capabilitiesUrl i else None)"
    by (simp_all add: configuredRecord_def)
  have good: "goodTag True (js n, v)" if "tagName (js n)" "tagValue v" for n v
    using that by (simp add: goodTag_def)
  have required: "\<forall>p \<in> set (requiredPair n v). goodTag True p" if "tagName (js n)" "tagValue v" for n v
    using good [OF that] by (simp add: requiredPair_def)
  have option: "\<forall>p \<in> set (if present v then [(js n, the v)] else []). goodTag True p"
    if "tagName (js n)" "v \<in> {ic_policyFlags i, ic_maxKeyAge i, ic_capabilitiesUrl i}" for n v
    using good [OF that(1)] vals(6) [OF that(2)] by simp
  have names: "list_all (\<lambda>n. tagName (js n)) [''v'', ''gi'', ''ek'', ''ku'', ''lr'', ''su'', ''sg'', ''fl'', ''ka'', ''cu'']"
    by (simp add: tagName_def isAlnum_def isUpper_def isLower_def isDigit_def)
  have "\<forall>p \<in> set (serializePairs ?r). goodTag True p"
    unfolding serializePairs_def fields optional optionalPair_present [OF fields(8)] list.set(2) set_append ball_Un
      ball_simps(7)
    using names vals version toBase64Url_tagValue(1) [of s]
    by (simp add: good option del: js_Cons) (intro conjI required; simp only:)
  then show ?thesis
    unfolding wfRecord_def requiredMissing_def fields optional
    using ne urls version toBase64Url_nonempty [OF assms(5)]
    by (simp add: SUPPORTED_DNSID_VERSIONS_def present_def)
qed

text \<open>Reading the parsed record back for its signed form.\<close>

lemma pair_tags:
  "x \<in> fst ` set (requiredPair s v) \<longleftrightarrow> v \<noteq> [] \<and> x = js s"
  "x \<in> fst ` set (optionalPair s v' r) \<longleftrightarrow>
     (v' \<noteq> None \<and> v' \<noteq> Some [] \<or> js s \<in> set (r_parsedTags r)) \<and> x = js s"
  by (auto simp: requiredPair_def optionalPair_def)

lemma serialized_tags:
  assumes "r_parsedTags r = []" and "r_unknownTags r = []"
  shows "js ''fl'' \<in> set (map fst (serializePairs r)) \<longleftrightarrow> r_fl r \<noteq> None \<and> r_fl r \<noteq> Some []"
    and "js ''ka'' \<in> set (map fst (serializePairs r)) \<longleftrightarrow> r_ka r \<noteq> None \<and> r_ka r \<noteq> Some []"
    and "js ''cu'' \<in> set (map fst (serializePairs r)) \<longleftrightarrow> r_cu r \<noteq> None \<and> r_cu r \<noteq> Some []"
  unfolding serializePairs_def set_map set_append image_Un Un_iff list.set(2) image_insert insert_iff pair_tags assms
  by simp_all

lemma canonical_serialized:
  assumes "r_parsedTags r = []" and "r_unknownTags r = []"
  shows "canonical (r\<lparr>r_sg := sg, r_agentFQDN := d, r_parsedTags := map fst (serializePairs (r\<lparr>r_sg := sg\<rparr>))\<rparr>) = canonical r"
proof -
  note tags = serialized_tags [of "r\<lparr>r_sg := sg\<rparr>", simplified, OF assms]
  have "optionalPair s v (r\<lparr>r_sg := sg, r_agentFQDN := d, r_parsedTags := T\<rparr>) = optionalPair s v r"
    if "js s \<in> set T \<longleftrightarrow> v \<noteq> None \<and> v \<noteq> Some []" for s v T
    using that assms by (simp add: optionalPair_def)
  then show ?thesis
    using tags by (simp add: canonical_def knownCanonicalPairs_def)
qed

lemma validate_cong:
  "r_v r = r_v r' \<Longrightarrow> r_gi r = r_gi r' \<Longrightarrow> r_ek r = r_ek r' \<Longrightarrow> r_ku r = r_ku r' \<Longrightarrow> r_lr r = r_lr r' \<Longrightarrow>
   r_su r = r_su r' \<Longrightarrow> r_cu r = r_cu r' \<Longrightarrow> r_ka r = r_ka r' \<Longrightarrow> r_agentFQDN r = r_agentFQDN r' \<Longrightarrow>
   validate P r = validate P r'"
  unfolding validate_def by (simp only:)

lemma validateRecordSigning_current:
  "validateRecordSigning \<lparr>jwks_keys = [key]\<rparr> = Inr () \<Longrightarrow>
   currentDraft01SigningKey \<lparr>jwks_keys = [key]\<rparr> = Inr key \<and> (\<exists>alg. jwkSignatureAlg key = Inr alg)"
  by (auto simp: validateRecordSigning_def currentDraft01SigningKey_def bindE_eq_Inr split: if_splits)

text \<open>
  C27. What a manager publishes verifies: when \<open>createTxtRecord\<close> returns a text and the configured
  values satisfy the rule of the parser for tag values (\<open>tagValue\<close>), the text parses, the parsed record is
  valid for the configured domain, and its signature verifies under the entity's signing key. The
  signer is assumed to make signatures that are not empty and that the platform verifies.
\<close>

theorem createTxtRecord_verifies:
  assumes "createTxtRecord P C (Some i) (Some entity) operational = Inr txt"
    and "\<forall>v \<in> set (tagValues i). tagValue v"
    and "\<forall>key bs s alg. sg_signingKey entity = Inr key \<longrightarrow> sg_sign entity bs = Inr s \<longrightarrow> jwkSignatureAlg key = Inr alg \<longrightarrow>
      s \<noteq> [] \<and> verifyWithKey C (Inr bs) s key (Some alg)"
  shows "\<exists>r key. parse txt = Inr r \<and> validate P (r\<lparr>r_agentFQDN := ic_domain i\<rparr>) = Inr () \<and>
    sg_signingKey entity = Inr key \<and>
    verifyDraft01RecordSignature C (r_sg r) (utf8 (canonical r)) \<lparr>jwks_keys = [key]\<rparr> = Inr key"
proof -
  from assms(1) obtain key s where v: "validate P (configuredRecord i) = Inr ()"
    and urls: "present (ic_ekUrl i)" "present (ic_kuUrl i)" and key: "sg_signingKey entity = Inr key"
    and keyset: "validateRecordSigning \<lparr>jwks_keys = [key]\<rparr> = Inr ()"
    and s: "sg_sign entity (utf8 (canonical (configuredRecord i))) = Inr s"
    and made: "txt = serialize (configuredRecord i\<lparr>r_sg := toBase64Url s\<rparr>)"
    by (rule createTxtRecord_Inr)
  obtain alg where alg: "currentDraft01SigningKey \<lparr>jwks_keys = [key]\<rparr> = Inr key" "jwkSignatureAlg key = Inr alg"
    using validateRecordSigning_current [OF keyset] by auto
  then have sig: "s \<noteq> []" "verifyWithKey C (Inr (utf8 (canonical (configuredRecord i)))) s key (Some alg)"
    using assms(3) key s by blast+
  let ?r = "configuredRecord i\<lparr>r_sg := toBase64Url s\<rparr>"
  let ?p = "?r\<lparr>r_agentFQDN := [], r_parsedTags := map fst (serializePairs ?r)\<rparr>"
  have "parse txt = Inr ?p"
    unfolding made by (rule parse_serialize_wf) (rule configured_wf [OF v urls assms(2) sig(1)])
  moreover have "validate P (?p\<lparr>r_agentFQDN := ic_domain i\<rparr>) = Inr ()"
    by (rule trans [OF validate_cong v]) (simp_all add: configuredRecord_def)
  moreover have "verifyDraft01RecordSignature C (r_sg ?p) (utf8 (canonical ?p)) \<lparr>jwks_keys = [key]\<rparr> = Inr key"
  proof -
    have "canonical ?p = canonical (configuredRecord i)"
      by (rule canonical_serialized) (simp_all add: configuredRecord_def emptyRecord_def)
    then show ?thesis
      unfolding verifyDraft01RecordSignature_iff using alg sig(2) toBase64Url_tagValue(2) [of s] by auto
  qed
  ultimately show ?thesis using key by blast
qed

section \<open>A publication\<close>

definition exampleIdentity :: "jstring option \<Rightarrow> IdentityConfig" where
  "exampleIdentity flags = \<lparr>ic_domain = js ''a.b'', ic_governanceId = js ''b'', ic_logRef = js ''l:x'',
     ic_statusUrl = js ''https://s'', ic_policyFlags = flags, ic_maxKeyAge = None, ic_ekUrl = Some (js ''https://b''),
     ic_kuUrl = Some (js ''https://a.b''), ic_publishProfile = None, ic_capabilitiesUrl = None\<rparr>"

definition exampleSigner :: "json \<Rightarrow> KeySigner" where
  "exampleSigner key = \<lparr>sg_signingKey = Inr key, sg_jwk = (\<lambda>_. Inr key), sg_sign = (\<lambda>_. Inr [1]), sg_signKey = (\<lambda>_ _. Inr [1])\<rparr>"

abbreviation entitySigner :: KeySigner where "entitySigner \<equiv> exampleSigner (edKey (js ''e'') entityX)"
abbreviation agentSigner :: KeySigner where "agentSigner \<equiv> exampleSigner (edKey (js ''o'') operationalX)"

lemma example_create:
  "createTxtRecord asciiPlatform acceptingCrypto (Some (exampleIdentity flags)) (Some entitySigner) (Some agentSigner) =
   Inr (serialize (configuredRecord (exampleIdentity flags)\<lparr>r_sg := js ''AQ''\<rparr>))"
proof -
  have valid: "validate asciiPlatform (configuredRecord (exampleIdentity flags)) = Inr ()"
    using example_normalize
    by (simp add: configuredRecord_def exampleIdentity_def emptyRecord_def present_def validate_def validateEkHost_def
        validateHttpsUrlHost_def validateHttpsUrl_def httpsPrefix_def validateLrFormat_def lrMethod_def
        SUPPORTED_DNSID_VERSIONS_def asciiPlatform_def asciiUrl_def eval_names)
  then have "createUnsignedTxtRecord asciiPlatform (Some (exampleIdentity flags)) = Inr (configuredRecord (exampleIdentity flags))"
    by (simp add: createUnsignedTxtRecord_Inr exampleIdentity_def present_def)
  then show ?thesis
    using example_distinct example_current [of "CHR ''e''" "[]"] example_current [of "CHR ''o''" "[]"]
    by (simp add: createTxtRecord_def requireKeyProvider_def exampleSigner_def validateRecordSigning_def
        validateOperational_def assertUniqueKids_def getp_def example_thumbprint example_sg)
qed

theorem createTxtRecord_verifies_witness:
  "\<exists>r. parse (serialize (configuredRecord (exampleIdentity None)\<lparr>r_sg := js ''AQ''\<rparr>)) = Inr r \<and>
    verifyDraft01RecordSignature acceptingCrypto (r_sg r) (utf8 (canonical r)) exampleEk = Inr (edKey (js ''e'') entityX)"
proof -
  have tags: "list_all tagValue (tagValues (exampleIdentity None))"
    by (simp add: tagValues_def exampleIdentity_def tagValue_def)
  have signer: "sg_signingKey entitySigner = Inr (edKey (js ''e'') entityX)" by (simp add: exampleSigner_def)
  have "verifyWithKey acceptingCrypto (Inr bs) [1] (edKey (js ''e'') entityX) (Some (js ''EdDSA''))" for bs
    by (simp add: verifyWithKey_def example_encoding acceptingCrypto_def exampleCrypto_def getVerifyAlgorithm_def)
  then have law: "\<forall>key bs s alg. sg_signingKey entitySigner = Inr key \<longrightarrow> sg_sign entitySigner bs = Inr s \<longrightarrow>
      jwkSignatureAlg key = Inr alg \<longrightarrow> s \<noteq> [] \<and> verifyWithKey acceptingCrypto (Inr bs) s key (Some alg)"
    by (simp add: exampleSigner_def)
  show ?thesis
    using createTxtRecord_verifies [OF example_create tags [unfolded list_all_iff] law] signer
    by (auto simp: exampleEk_def)
qed

text \<open>
  C39. A configuration whose policy flags contain a space passes the validation of \<open>createTxtRecord\<close>,
  is signed and returned for publication, but the record parser of every verifier rejects the text.
\<close>

theorem createTxtRecord_unparseable:
  "\<exists>txt. createTxtRecord asciiPlatform acceptingCrypto (Some (exampleIdentity (Some (js ''mtls, logchk''))))
      (Some entitySigner) (Some agentSigner) = Inr txt \<and>
    parse txt = Inl (ParseError ''invalid TXT tag value for tag'')"
proof -
  have "serialize (configuredRecord (exampleIdentity (Some (js ''mtls, logchk'')))\<lparr>r_sg := js ''AQ''\<rparr>) =
      js ''v=dnsid-draft-01;gi=b;ek=https://b;ku=https://a.b;lr=l:x;su=https://s;sg=AQ;fl=mtls, logchk''"
    by (simp add: configuredRecord_def exampleIdentity_def emptyRecord_def present_def serialize_def serializePairs_def
        requiredPair_def optionalPair_def encodePair_def DNSID_DRAFT01_VERSION_def)
  moreover have "parse (js ''v=dnsid-draft-01;gi=b;ek=https://b;ku=https://a.b;lr=l:x;su=https://s;sg=AQ;fl=mtls, logchk'') =
      Inl (ParseError ''invalid TXT tag value for tag'')"
    by (simp add: eval_record DNSID_DRAFT01_VERSION_def)
  ultimately show ?thesis unfolding example_create by simp
qed

end
