(* ===== verification/Retry.thy ===== *)
theory Retry
  imports Json
begin

text \<open>
  Retries with exponential backoff (\<open>protocol/src/retry.ts\<close>). The outcome of every attempt, of every
  sleep and of every call of \<open>Math.random\<close> is an input, indexed by the attempt. The product and the
  power of numbers are parameters, since the language rounds the one and approximates the other. A run
  is returned with the delays it has slept.
\<close>

section \<open>Numbers\<close>

record float_ops =
  fl_mul :: "jsnum \<Rightarrow> jsnum \<Rightarrow> jsnum"
  fl_pow :: "jsnum \<Rightarrow> nat \<Rightarrow> jsnum"

fun isInteger :: "jsnum \<Rightarrow> bool" where
  "isInteger (Fin q) = (of_int \<lfloor>q\<rfloor> = q)"
| "isInteger NegZero = True"
| "isInteger _ = False"

text \<open>\<open>a <= b\<close>, which is false when either is NaN.\<close>

fun numLe :: "jsnum \<Rightarrow> jsnum \<Rightarrow> bool" where
  "numLe NaN _ = False"
| "numLe _ NaN = False"
| "numLe NegInf _ = True"
| "numLe _ PosInf = True"
| "numLe PosInf _ = False"
| "numLe _ NegInf = False"
| "numLe a b = (the (finiteNum a) \<le> the (finiteNum b))"

definition numLess :: "jsnum \<Rightarrow> jsnum \<Rightarrow> bool" where
  "numLess a b \<longleftrightarrow> numLe a b \<and> \<not> numLe b a"

text \<open>\<open>Math.min\<close> and \<open>Math.floor\<close>.\<close>

definition numMin :: "jsnum \<Rightarrow> jsnum \<Rightarrow> jsnum" where
  "numMin a b =
     (if a = NaN \<or> b = NaN then NaN
      else if numEq a b then (if a = NegZero then a else b)
      else if numLess a b then a else b)"

fun numFloor :: "jsnum \<Rightarrow> jsnum" where
  "numFloor (Fin q) = Fin (of_int \<lfloor>q\<rfloor>)"
| "numFloor n = n"

section \<open>Options and delays\<close>

text \<open>The call of \<open>sleep\<close> after the failed attempt \<open>i\<close> has the outcome \<open>ro_sleep i\<close>.\<close>

record RetryBackoffOptions =
  ro_maxAttempts :: "jsnum option"
  ro_initialDelayMs :: "jsnum option"
  ro_maxDelayMs :: "jsnum option"
  ro_multiplier :: "jsnum option"
  ro_jitter :: "bool option"
  ro_shouldRetry :: "(js_error \<Rightarrow> nat \<Rightarrow> js_error + bool) option"
  ro_sleep :: "(nat \<Rightarrow> jsnum \<Rightarrow> js_error + unit) option"

definition orDefault :: "'a option \<Rightarrow> 'a \<Rightarrow> 'a" where
  "orDefault a d = (case a of None \<Rightarrow> d | Some x \<Rightarrow> x)"

definition positiveInteger :: "jsnum \<Rightarrow> js_error + nat" where
  "positiveInteger value =
     (if \<not> isInteger value \<or> numLess value (Fin 1) then Inl (JsRangeError ''must be an integer >= 1'')
      else Inr (nat \<lfloor>the (finiteNum value)\<rfloor>))"

definition nonNegativeNumber :: "jsnum \<Rightarrow> js_error + jsnum" where
  "nonNegativeNumber value =
     (if finiteNum value = None \<or> numLess value (Fin 0) then Inl (JsRangeError ''must be >= 0'') else Inr value)"

definition delayForAttempt :: "float_ops \<Rightarrow> jsnum \<Rightarrow> nat \<Rightarrow> jsnum \<Rightarrow> jsnum \<Rightarrow> jsnum \<Rightarrow> bool \<Rightarrow> jsnum" where
  "delayForAttempt fl random attempt initialDelayMs maxDelayMs multiplier jitter =
     (let uncapped = fl_mul fl initialDelayMs (fl_pow fl multiplier (attempt - 1));
          capped = numMin maxDelayMs uncapped
      in if jitter then numFloor (fl_mul fl random capped) else capped)"

section \<open>The loop\<close>

text \<open>\<open>None\<close> stands for the default sleep, a timer that always fires.\<close>

function retryLoop ::
    "(nat \<Rightarrow> js_error + 'a) \<Rightarrow> nat \<Rightarrow> (js_error \<Rightarrow> nat \<Rightarrow> js_error + bool) \<Rightarrow> (nat \<Rightarrow> jsnum \<Rightarrow> js_error + unit) \<Rightarrow>
     (nat \<Rightarrow> jsnum) \<Rightarrow> nat \<Rightarrow> (js_error + 'a) \<times> jsnum list" where
  "retryLoop operation maxAttempts shouldRetry sleep delay attempt =
     (case operation attempt of
        Inr v \<Rightarrow> (Inr v, [])
      | Inl error \<Rightarrow>
          if maxAttempts \<le> attempt then (Inl error, [])
          else case shouldRetry error attempt of
            Inl e \<Rightarrow> (Inl e, [])
          | Inr False \<Rightarrow> (Inl error, [])
          | Inr True \<Rightarrow>
              (case sleep attempt (delay attempt) of
                 Inl e \<Rightarrow> (Inl e, [delay attempt])
               | Inr _ \<Rightarrow> let r = retryLoop operation maxAttempts shouldRetry sleep delay (Suc attempt) in
                   (fst r, delay attempt # snd r)))"
  by pat_completeness auto
termination by (relation "measure (\<lambda>(_, m, _, _, _, i). m - i)") auto

declare retryLoop.simps [simp del]

definition retryTransientVerification ::
    "float_ops \<Rightarrow> (nat \<Rightarrow> jsnum) \<Rightarrow> (nat \<Rightarrow> js_error + 'a) \<Rightarrow> RetryBackoffOptions \<Rightarrow> (js_error + 'a) \<times> jsnum list" where
  "retryTransientVerification fl random operation options =
     (case bindE (positiveInteger (orDefault (ro_maxAttempts options) (Fin 3))) (\<lambda>maxAttempts.
           bindE (nonNegativeNumber (orDefault (ro_initialDelayMs options) (Fin 100))) (\<lambda>initialDelayMs.
           bindE (nonNegativeNumber (orDefault (ro_maxDelayMs options) (Fin 2000))) (\<lambda>maxDelayMs.
           bindE (nonNegativeNumber (orDefault (ro_multiplier options) (Fin 2))) (\<lambda>multiplier.
           Inr (maxAttempts, initialDelayMs, maxDelayMs, multiplier))))) of
        Inl e \<Rightarrow> (Inl e, [])
      | Inr (maxAttempts, initialDelayMs, maxDelayMs, multiplier) \<Rightarrow>
          retryLoop operation maxAttempts
            (orDefault (ro_shouldRetry options) (\<lambda>error _. Inr (isTransient error)))
            (orDefault (ro_sleep options) (\<lambda>_ _. Inr ()))
            (\<lambda>attempt. delayForAttempt fl (random attempt) attempt initialDelayMs maxDelayMs multiplier
               (orDefault (ro_jitter options) True)) 1)"

section \<open>Bounds\<close>

definition nonneg :: "jsnum \<Rightarrow> bool" where
  "nonneg n \<longleftrightarrow> (\<exists>q \<ge> 0. finiteNum n = Some q)"

text \<open>
  What the specification of the language says of products and powers: a product or power of numbers
  that are not negative is not negative and may overflow, an infinite factor gives infinity or, with
  zero, NaN, and a factor below one does not enlarge.
\<close>

definition ieee :: "float_ops \<Rightarrow> bool" where
  "ieee fl \<longleftrightarrow>
     (\<forall>m n. nonneg m \<longrightarrow> nonneg n \<longrightarrow> nonneg (fl_mul fl m n) \<or> fl_mul fl m n = PosInf) \<and>
     (\<forall>m. nonneg m \<longrightarrow> fl_mul fl m PosInf = (if finiteNum m = Some 0 then NaN else PosInf)) \<and>
     (\<forall>r c p q. finiteNum r = Some p \<longrightarrow> 0 \<le> p \<longrightarrow> p < 1 \<longrightarrow> finiteNum c = Some q \<longrightarrow> 0 \<le> q \<longrightarrow>
        (\<exists>x. finiteNum (fl_mul fl r c) = Some x \<and> 0 \<le> x \<and> x \<le> q)) \<and>
     (\<forall>r. fl_mul fl r NaN = NaN) \<and>
     (\<forall>m k. nonneg m \<longrightarrow> nonneg (fl_pow fl m k) \<or> fl_pow fl m k = PosInf)"

lemma numLe_finite:
  "finiteNum a = Some p \<Longrightarrow> finiteNum b = Some q \<Longrightarrow> numLe a b \<longleftrightarrow> p \<le> q"
  by (cases a; cases b) auto

lemma numMin_bounded:
  assumes "finiteNum a = Some q" and "0 \<le> q" and "nonneg b \<or> b = PosInf"
  shows "\<exists>x. finiteNum (numMin a b) = Some x \<and> 0 \<le> x \<and> x \<le> q"
proof (cases "b = PosInf")
  case True
  then show ?thesis using assms(1,2) by (cases a) (auto simp: numMin_def numEq_def numLess_def)
next
  case False
  then obtain p where p: "finiteNum b = Some p" "0 \<le> p" using assms(3) by (auto simp: nonneg_def)
  then show ?thesis
    using assms(1,2) numLe_finite [OF assms(1) p(1)] numLe_finite [OF p(1) assms(1)]
    by (cases "numLe a b"; cases "numLe b a") (auto simp: numMin_def numEq_def numLess_def)
qed

lemma numFloor_bounded:
  assumes "finiteNum n = Some x" and "0 \<le> x"
  shows "\<exists>y. finiteNum (numFloor n) = Some y \<and> 0 \<le> y \<and> y \<le> x"
  using assms by (cases n) auto

lemma delayForAttempt_bounded:
  assumes "ieee fl" and "nonneg initial" and "nonneg multiplier" and "finiteNum maximum = Some q" and "0 \<le> q"
    and "finiteNum random = Some p" and "0 \<le> p" and "p < 1"
  shows "(\<exists>x. finiteNum (delayForAttempt fl random attempt initial maximum multiplier jitter) = Some x \<and> 0 \<le> x \<and> x \<le> q) \<or>
    finiteNum initial = Some 0 \<and> delayForAttempt fl random attempt initial maximum multiplier jitter = NaN"
proof -
  let ?pow = "fl_pow fl multiplier (attempt - 1)" and ?random = random
  let ?un = "fl_mul fl initial ?pow"
  have pow: "nonneg ?pow \<or> ?pow = PosInf" using assms(1,3) unfolding ieee_def by blast
  consider (number) "nonneg ?un \<or> ?un = PosInf" | (nan) "?un = NaN" "finiteNum initial = Some 0"
  proof (cases "?pow = PosInf")
    case True
    then have "?un = (if finiteNum initial = Some 0 then NaN else PosInf)" using assms(1,2) unfolding ieee_def by metis
    then show thesis using number nan by (metis (full_types))
  next
    case False
    then have "nonneg ?un \<or> ?un = PosInf" using pow assms(1,2) unfolding ieee_def by blast
    then show thesis by (rule number)
  qed
  then show ?thesis
  proof cases
    case number
    obtain c where c: "finiteNum (numMin maximum ?un) = Some c" "0 \<le> c" "c \<le> q"
      using numMin_bounded [OF assms(4,5) number] by auto
    obtain x where x: "finiteNum (fl_mul fl ?random (numMin maximum ?un)) = Some x" "0 \<le> x" "x \<le> c"
      using assms(1,6-8) c unfolding ieee_def by metis
    obtain y where "finiteNum (numFloor (fl_mul fl ?random (numMin maximum ?un))) = Some y" "0 \<le> y" "y \<le> x"
      using numFloor_bounded [OF x(1,2)] by auto
    then show ?thesis using c x by (auto simp: delayForAttempt_def Let_def)
  next
    case nan
    then have "fl_mul fl ?random NaN = NaN" using assms(1) unfolding ieee_def by blast
    then show ?thesis using nan by (simp add: delayForAttempt_def Let_def numMin_def)
  qed
qed

lemma positiveInteger_Inr: "positiveInteger v = Inr n \<Longrightarrow> 1 \<le> n"
  by (cases v) (auto simp: positiveInteger_def numLess_def split: if_splits)

lemma nonNegativeNumber_Inr:
  assumes "nonNegativeNumber v = Inr w"
  shows "w = v \<and> nonneg v"
proof -
  from assms have "finiteNum v \<noteq> None" "\<not> numLess v (Fin 0)" "w = v" by (auto simp: nonNegativeNumber_def split: if_splits)
  then show ?thesis
    using numLe_finite [of v _ "Fin 0" 0] numLe_finite [of "Fin 0" 0 v] by (auto simp: nonneg_def numLess_def)
qed

text \<open>
  The run of the loop from an attempt: the last attempt \<open>k\<close>, before which every attempt failed and was
  retried after its delay.
\<close>

lemma retryLoop_run:
  assumes "attempt \<le> maxAttempts"
  shows "\<exists>k. attempt \<le> k \<and> k \<le> maxAttempts \<and>
    (\<forall>i. attempt \<le> i \<and> i < k \<longrightarrow> (\<exists>e. operation i = Inl e \<and> shouldRetry e i = Inr True \<and> sleep i (delay i) = Inr ())) \<and>
    (retryLoop operation maxAttempts shouldRetry sleep delay attempt = (operation k, map delay [attempt..<k]) \<and>
       (k = maxAttempts \<or> (\<forall>e. operation k = Inl e \<longrightarrow> shouldRetry e k = Inr False)) \<or>
     (\<exists>e f. operation k = Inl e \<and> k < maxAttempts \<and>
       (shouldRetry e k = Inl f \<and>
          retryLoop operation maxAttempts shouldRetry sleep delay attempt = (Inl f, map delay [attempt..<k]) \<or>
        shouldRetry e k = Inr True \<and> sleep k (delay k) = Inl f \<and>
          retryLoop operation maxAttempts shouldRetry sleep delay attempt = (Inl f, map delay [attempt..<Suc k]))))"
  (is "\<exists>k. ?run attempt k")
  using assms
proof (induction "maxAttempts - attempt" arbitrary: attempt)
  case 0
  then show ?case
    by (intro exI [of _ attempt]) (auto simp: retryLoop.simps [of _ _ _ _ _ attempt] split: sum.splits)
next
  case (Suc n)
  have below: "\<not> maxAttempts \<le> attempt" using Suc.hyps(2) by simp
  consider (stop) "\<forall>e. operation attempt = Inl e \<longrightarrow> shouldRetry e attempt = Inr False"
    | (thrown) e f where "operation attempt = Inl e" "shouldRetry e attempt = Inl f"
    | (woken) e f where "operation attempt = Inl e" "shouldRetry e attempt = Inr True" "sleep attempt (delay attempt) = Inl f"
    | (retry) e where "operation attempt = Inl e" "shouldRetry e attempt = Inr True" "sleep attempt (delay attempt) = Inr ()"
    by (metis (full_types) old.unit.exhaust sum.exhaust)
  then show ?case
  proof cases
    case retry
    have "n = maxAttempts - Suc attempt" "Suc attempt \<le> maxAttempts" using Suc.hyps(2) by simp_all
    from Suc.hyps(1) [OF this] obtain k where k: "?run (Suc attempt) k" by blast
    have "retryLoop operation maxAttempts shouldRetry sleep delay attempt =
        (let r = retryLoop operation maxAttempts shouldRetry sleep delay (Suc attempt) in (fst r, delay attempt # snd r))"
      using retry below by (simp add: retryLoop.simps [of _ _ _ _ _ attempt])
    moreover have "[attempt..<k] = attempt # [Suc attempt..<k]" "[attempt..<Suc k] = attempt # [Suc attempt..<Suc k]"
      using k by (simp_all add: upt_conv_Cons)
    ultimately show ?thesis
      using k retry by (intro exI [of _ k]) (auto simp: le_less_Suc_eq Suc_le_eq dest: le_neq_implies_less)
  qed (use Suc.hyps(2) in \<open>auto intro!: exI [of _ attempt] simp: retryLoop.simps [of _ _ _ _ _ attempt] split: sum.splits bool.splits\<close>)
qed


text \<open>The options that the function accepts.\<close>

definition retryLimits :: "RetryBackoffOptions \<Rightarrow> nat \<Rightarrow> rat \<Rightarrow> bool" where
  "retryLimits options n q \<longleftrightarrow>
     positiveInteger (orDefault (ro_maxAttempts options) (Fin 3)) = Inr n \<and>
     nonneg (orDefault (ro_initialDelayMs options) (Fin 100)) \<and> nonneg (orDefault (ro_multiplier options) (Fin 2)) \<and>
     finiteNum (orDefault (ro_maxDelayMs options) (Fin 2000)) = Some q \<and> 0 \<le> q"

text \<open>The delays of a run with these options.\<close>

definition retryDelay :: "float_ops \<Rightarrow> (nat \<Rightarrow> jsnum) \<Rightarrow> RetryBackoffOptions \<Rightarrow> nat \<Rightarrow> jsnum" where
  "retryDelay fl random options attempt = delayForAttempt fl (random attempt) attempt
     (orDefault (ro_initialDelayMs options) (Fin 100)) (orDefault (ro_maxDelayMs options) (Fin 2000))
     (orDefault (ro_multiplier options) (Fin 2)) (orDefault (ro_jitter options) True)"

lemma nonNegativeNumber_nonneg: "nonneg v \<Longrightarrow> nonNegativeNumber v = Inr v"
  using numLe_finite [of "Fin 0" 0 v] by (auto simp: nonneg_def nonNegativeNumber_def numLess_def)

lemma retry_run:
  assumes "retryLimits options n q"
  shows "retryTransientVerification fl random operation options = retryLoop operation n
         (orDefault (ro_shouldRetry options) (\<lambda>error _. Inr (isTransient error)))
         (orDefault (ro_sleep options) (\<lambda>_ _. Inr ())) (retryDelay fl random options) 1"
    and "1 \<le> n"
proof -
  have "nonneg (orDefault (ro_maxDelayMs options) (Fin 2000))" using assms by (auto simp: retryLimits_def nonneg_def)
  then show "retryTransientVerification fl random operation options = retryLoop operation n
         (orDefault (ro_shouldRetry options) (\<lambda>error _. Inr (isTransient error)))
         (orDefault (ro_sleep options) (\<lambda>_ _. Inr ())) (retryDelay fl random options) 1"
    using assms by (simp add: retryTransientVerification_def retryLimits_def nonNegativeNumber_nonneg retryDelay_def [abs_def])
  show "1 \<le> n" using assms positiveInteger_Inr by (auto simp: retryLimits_def)
qed

text \<open>
  C26. Retries are bounded, whatever the operation, the retry policy and the sleep do: there are fewer
  delays than the configured number of attempts, and a run has at most one attempt more than delays; no
  delay is negative or exceeds the configured maximum. The one exception is an initial delay of zero whose
  exponential factor overflows: the product is NaN, which a timer treats as no delay.
\<close>

theorem retry_bounds:
  assumes "ieee fl" and "\<And>i. \<exists>p. finiteNum (random i) = Some p \<and> 0 \<le> p \<and> p < 1"
    and "retryLimits options n q"
  shows "length (snd (retryTransientVerification fl random operation options)) < n \<and>
    (\<forall>d \<in> set (snd (retryTransientVerification fl random operation options)).
       (\<exists>x. finiteNum d = Some x \<and> 0 \<le> x \<and> x \<le> q) \<or>
       finiteNum (orDefault (ro_initialDelayMs options) (Fin 100)) = Some 0 \<and> d = NaN)"
proof -
  let ?delay = "retryDelay fl random options"
  note run = retry_run [OF assms(3)]
  have delays: "(\<exists>x. finiteNum (?delay a) = Some x \<and> 0 \<le> x \<and> x \<le> q) \<or>
      finiteNum (orDefault (ro_initialDelayMs options) (Fin 100)) = Some 0 \<and> ?delay a = NaN" for a
  proof -
    obtain p where "finiteNum (random a) = Some p" "0 \<le> p" "p < 1" using assms(2) by blast
    then show ?thesis
      using delayForAttempt_bounded [OF assms(1)] assms(3) unfolding retryDelay_def retryLimits_def by blast
  qed
  obtain k where "1 \<le> k" "snd (retryTransientVerification fl random operation options) = map ?delay [1..<k] \<and> k \<le> n \<or>
      snd (retryTransientVerification fl random operation options) = map ?delay [1..<Suc k] \<and> k < n"
    using retryLoop_run [OF run(2), of operation "orDefault (ro_shouldRetry options) (\<lambda>error _. Inr (isTransient error))"
        "orDefault (ro_sleep options) (\<lambda>_ _. Inr ())" ?delay] unfolding run(1) by (elim exE conjE disjE) auto
  then have "\<exists>xs. snd (retryTransientVerification fl random operation options) = map ?delay xs \<and> length xs < n"
    using run(2) by (elim disjE conjE) (rule exI, erule conjI, simp)+
  then obtain xs where xs: "snd (retryTransientVerification fl random operation options) = map ?delay xs" "length xs < n"
    by blast
  then show ?thesis unfolding xs(1) length_map set_map using delays by blast
qed

text \<open>
  With the default policy the result is that of one attempt: the first that succeeds or fails with
  an error that is not a transient verification error, or the last one allowed. Every attempt before it
  failed with a transient error, and was followed by one delay. Integrity and policy failures are
  never retried.
\<close>

theorem retry_result:
  assumes "retryLimits options n q" and "ro_shouldRetry options = None" and "ro_sleep options = None"
  shows "\<exists>k. 1 \<le> k \<and> k \<le> n \<and> fst (retryTransientVerification fl random operation options) = operation k \<and>
    length (snd (retryTransientVerification fl random operation options)) = k - 1 \<and>
    (\<forall>i. 1 \<le> i \<and> i < k \<longrightarrow> (\<exists>e. operation i = Inl e \<and> isTransient e)) \<and>
    (k = n \<or> (\<forall>e. operation k = Inl e \<longrightarrow> \<not> isTransient e))"
proof -
  note run = retry_run [OF assms(1)]
  from retryLoop_run [OF run(2), of operation "\<lambda>error _. Inr (isTransient error)" "\<lambda>_ _. Inr ()" "retryDelay fl random options"]
  show ?thesis unfolding run(1) assms(2,3) orDefault_def by (elim exE conjE) auto
qed

text \<open>Exact arithmetic, a constant random number, and an operation that succeeds at the second attempt.\<close>

fun exactMul :: "jsnum \<Rightarrow> jsnum \<Rightarrow> jsnum" where
  "exactMul NaN _ = NaN"
| "exactMul _ NaN = NaN"
| "exactMul PosInf b = (if finiteNum b = Some 0 then NaN else PosInf)"
| "exactMul a PosInf = (if finiteNum a = Some 0 then NaN else PosInf)"
| "exactMul a b = Fin (the (finiteNum a) * the (finiteNum b))"

definition exactOps :: float_ops where
  "exactOps = \<lparr>fl_mul = exactMul, fl_pow = (\<lambda>m k. Fin (the (finiteNum m) ^ k))\<rparr>"

definition plainOptions :: RetryBackoffOptions where
  "plainOptions = \<lparr>ro_maxAttempts = None, ro_initialDelayMs = None, ro_maxDelayMs = None, ro_multiplier = None,
     ro_jitter = None, ro_shouldRetry = None, ro_sleep = None\<rparr>"

definition secondAttempt :: "nat \<Rightarrow> js_error + nat" where
  "secondAttempt i = (if i = 1 then Inl (failTransient ''busy'' LogError) else Inr i)"

lemma exactMul_finite:
  "finiteNum a = Some p \<Longrightarrow> finiteNum b = Some q \<Longrightarrow> exactMul a b = Fin (p * q)"
  by (cases a; cases b) auto

lemma ieee_exactOps: "ieee exactOps"
proof -
  have "exactMul m PosInf = (if finiteNum m = Some 0 then NaN else PosInf)" if "nonneg m" for m
    using that by (cases m) (auto simp: nonneg_def)
  moreover have "exactMul r NaN = NaN" for r by (cases r) simp_all
  moreover have "x * y \<le> y" if "0 \<le> x" "x < 1" "0 \<le> y" for x y :: rat
    using mult_right_mono [of x 1 y] that by simp
  ultimately show ?thesis by (auto simp: ieee_def exactOps_def nonneg_def exactMul_finite)
qed

lemma plainOptions_limits: "retryLimits plainOptions 3 2000"
  by (simp add: retryLimits_def plainOptions_def positiveInteger_def orDefault_def numLess_def nonneg_def)

theorem retry_bounds_witness:
  "length (snd (retryTransientVerification exactOps (\<lambda>_. Fin (1 / 2)) secondAttempt plainOptions)) < 3"
proof -
  have "\<exists>p. finiteNum (Fin (1 / 2)) = Some p \<and> 0 \<le> p \<and> p < 1" by (intro exI [of _ "1 / 2"]) simp
  then show ?thesis using retry_bounds [OF ieee_exactOps _ plainOptions_limits, of "\<lambda>_. Fin (1 / 2)" secondAttempt] by blast
qed

theorem retry_result_witness:
  "\<exists>k. 1 \<le> k \<and> k \<le> 3 \<and> fst (retryTransientVerification exactOps (\<lambda>_. Fin (1 / 2)) secondAttempt plainOptions) = secondAttempt k"
  using retry_result [OF plainOptions_limits, of exactOps "\<lambda>_. Fin (1 / 2)" secondAttempt] by (auto simp: plainOptions_def)

end
