(* ===== verification/Utf8.thy ===== *)
theory Utf8
  imports Errors
begin

text \<open>
  The fatal UTF-8 decoder of the platform (\<open>TextDecoder\<close> with \<open>fatal: true\<close>) and its relation to
  the encoder: both round trips, so a decoded text determines its bytes. Strings without unpaired
  surrogates are those that the encoder does not change.
\<close>

section \<open>Decoding\<close>

definition isCont :: "nat \<Rightarrow> bool" where
  "isCont b \<longleftrightarrow> 0x80 \<le> b \<and> b < 0xC0"

text \<open>One code point: shortest form only, no surrogates, at most U+10FFFF.\<close>

fun utf8Step :: "nat list \<Rightarrow> (nat \<times> nat list) option" where
  "utf8Step [] = None"
| "utf8Step (a # bs) =
     (if a < 0x80 then Some (a, bs)
      else if 0xC2 \<le> a \<and> a < 0xE0 then
        (case bs of
           b # rest \<Rightarrow> if isCont b then Some ((a - 0xC0) * 64 + (b - 0x80), rest) else None
         | _ \<Rightarrow> None)
      else if 0xE0 \<le> a \<and> a < 0xF0 then
        (case bs of
           b # c # rest \<Rightarrow>
             if isCont b \<and> isCont c \<and> (a = 0xE0 \<longrightarrow> 0xA0 \<le> b) \<and> (a = 0xED \<longrightarrow> b < 0xA0)
             then Some ((a - 0xE0) * 4096 + (b - 0x80) * 64 + (c - 0x80), rest) else None
         | _ \<Rightarrow> None)
      else if 0xF0 \<le> a \<and> a < 0xF5 then
        (case bs of
           b # c # d # rest \<Rightarrow>
             if isCont b \<and> isCont c \<and> isCont d \<and> (a = 0xF0 \<longrightarrow> 0x90 \<le> b) \<and> (a = 0xF4 \<longrightarrow> b < 0x90)
             then Some ((a - 0xF0) * 262144 + (b - 0x80) * 4096 + (c - 0x80) * 64 + (d - 0x80), rest) else None
         | _ \<Rightarrow> None)
      else None)"

lemma utf8Step_shorter: "utf8Step bs = Some (c, rest) \<Longrightarrow> length rest < length bs"
  by (cases bs) (auto split: if_splits list.splits)

function utf8Points :: "nat list \<Rightarrow> nat list option" where
  "utf8Points bs =
     (if bs = [] then Some []
      else case utf8Step bs of
        None \<Rightarrow> None
      | Some (c, rest) \<Rightarrow> map_option ((#) c) (utf8Points rest))"
  by pat_completeness auto
termination by (relation "measure length") (auto dest: utf8Step_shorter)

declare utf8Points.simps [simp del]

text \<open>The code units of a code point.\<close>

definition utf16Units :: "nat \<Rightarrow> jstring" where
  "utf16Units c =
     (if c < 0x10000 then [c] else [0xD800 + (c - 0x10000) div 1024, 0xDC00 + (c - 0x10000) mod 1024])"

definition utf8Text :: "bytes \<Rightarrow> jstring option" where
  "utf8Text bs = map_option (\<lambda>cs. concat (map utf16Units cs)) (utf8Points (map unat bs))"

text \<open>\<open>decode\<close>: an invalid sequence raises a \<open>TypeError\<close>; the byte order mark is dropped unless \<open>ignoreBOM\<close>.\<close>

definition textDecode :: "bool \<Rightarrow> bytes \<Rightarrow> js_error + jstring" where
  "textDecode ignoreBOM bs =
     (case utf8Text bs of
        None \<Rightarrow> Inl (JsTypeError ''The encoded data was not valid'')
      | Some s \<Rightarrow> Inr (if \<not> ignoreBOM \<and> s \<noteq> [] \<and> hd s = 0xFEFF then tl s else s))"

section \<open>Round trips\<close>

definition scalar :: "nat \<Rightarrow> bool" where
  "scalar c \<longleftrightarrow> c < 0xD800 \<or> 0xE000 \<le> c \<and> c < 0x110000"

definition utf8Nat :: "nat \<Rightarrow> nat list" where
  "utf8Nat c =
     (if c < 0x80 then [c]
      else if c < 0x800 then [0xC0 + c div 64, 0x80 + c mod 64]
      else if c < 0x10000 then [0xE0 + c div 4096, 0x80 + c div 64 mod 64, 0x80 + c mod 64]
      else [0xF0 + c div 262144, 0x80 + c div 4096 mod 64, 0x80 + c div 64 mod 64, 0x80 + c mod 64])"

lemma utf8CodePoint_scalar: "scalar c \<Longrightarrow> utf8CodePoint c = map of_nat (utf8Nat c)"
  by (auto simp: utf8CodePoint_def utf8Nat_def scalar_def Let_def)

lemma utf8Nat_bytes: "scalar c \<Longrightarrow> b \<in> set (utf8Nat c) \<Longrightarrow> b < 256"
  by (auto simp: utf8Nat_def scalar_def split: if_splits)

lemma map_unat_utf8: "scalar c \<Longrightarrow> map unat (utf8CodePoint c) = utf8Nat c"
  by (simp add: utf8CodePoint_scalar map_idI unat_of_nat utf8Nat_bytes o_def)

lemma digit64: "r < 64 \<Longrightarrow> (a * 64 + r) div 64 = (a :: nat)" "r < 64 \<Longrightarrow> (a * 64 + r) mod 64 = r"
  by simp_all

lemma digits64: "\<exists>a r. r < 64 \<and> c = a * 64 + (r :: nat)"
  by (rule exI [of _ "c div 64"], rule exI [of _ "c mod 64"]) simp

lemma div_64_64: "c div 4096 = c div 64 div (64 :: nat)" "c div 262144 = c div 64 div 64 div (64 :: nat)"
  by (simp_all add: div_mult2_eq [symmetric])

lemma utf8Nat_two: "r < 64 \<Longrightarrow> 2 \<le> q \<Longrightarrow> q < 32 \<Longrightarrow> utf8Nat (q * 64 + r) = [0xC0 + q, 0x80 + r]"
  by (simp add: utf8Nat_def)

lemma utf8Nat_three:
  assumes "q < 64" and "r < 64" and "p < 16" and "p = 0 \<longrightarrow> 32 \<le> q"
  shows "utf8Nat ((p * 64 + q) * 64 + r) = [0xE0 + p, 0x80 + q, 0x80 + r]"
proof -
  have "(p * 64 + q) * 64 + r < 0x10000" "\<not> (p * 64 + q) * 64 + r < 0x800"
    using assms by (cases "p = 0"; simp)+
  then show ?thesis using assms by (simp only: utf8Nat_def div_64_64 digit64 if_False if_True) simp
qed

lemma utf8Nat_four:
  assumes "q < 64" and "r < 64" and "s < 64" and "p = 0 \<longrightarrow> 16 \<le> q"
  shows "utf8Nat (((p * 64 + q) * 64 + r) * 64 + s) = [0xF0 + p, 0x80 + q, 0x80 + r, 0x80 + s]"
proof -
  have "\<not> ((p * 64 + q) * 64 + r) * 64 + s < 0x10000"
    using assms by (cases "p = 0") simp_all
  then show ?thesis using assms by (simp only: utf8Nat_def div_64_64 digit64 if_False) simp
qed

lemma utf8Step_enc:
  assumes "scalar c"
  shows "utf8Step (utf8Nat c @ rest) = Some (c, rest)"
proof -
  obtain b s where s: "s < 64" "c = b * 64 + s" using digits64 by blast
  obtain a r where r: "r < 64" "b = a * 64 + r" using digits64 by blast
  obtain p q where q: "q < 64" "a = p * 64 + q" using digits64 by blast
  consider "c < 0x80" | "0x80 \<le> c" "c < 0x800" | "0x800 \<le> c" "c < 0x10000" | "0x10000 \<le> c" by linarith
  then show ?thesis
  proof cases
    case 2
    then have "2 \<le> b" "b < 32" using s by linarith+
    then show ?thesis unfolding s(2) utf8Nat_two [OF s(1) \<open>2 \<le> b\<close> \<open>b < 32\<close>] using s(1) by (simp add: isCont_def)
  next
    case 3
    then have a: "a < 16" "a = 0 \<longrightarrow> 32 \<le> r" "a = 13 \<longrightarrow> r < 32" using s r assms by (auto simp: scalar_def)
    show ?thesis unfolding s(2) r(2) utf8Nat_three [OF r(1) s(1) a(1,2)] using s(1) r(1) a by (auto simp: isCont_def)
  next
    case 4
    then have p: "p = 0 \<longrightarrow> 16 \<le> q" "p \<le> 4" "p = 4 \<longrightarrow> q < 16" using s r q assms by (auto simp: scalar_def)
    show ?thesis unfolding s(2) r(2) q(2) utf8Nat_four [OF q(1) r(1) s(1) p(1)] using s(1) r(1) q(1) p by (auto simp: isCont_def)
  qed (simp add: utf8Nat_def)
qed

lemma utf8Step_dec:
  assumes "utf8Step bs = Some (c, rest)"
  shows "scalar c \<and> bs = utf8Nat c @ rest"
proof -
  from assms obtain a bs' where bs: "bs = a # bs'" by (cases bs) auto
  consider "a < 0x80" | "0xC2 \<le> a" "a < 0xE0" | "0xE0 \<le> a" "a < 0xF0" | "0xF0 \<le> a" "a < 0xF5"
    using assms bs by (auto split: if_splits)
  then show ?thesis
  proof cases
    case 2
    with assms bs obtain b where b: "bs' = b # rest" "isCont b" "c = (a - 0xC0) * 64 + (b - 0x80)"
      by (auto split: if_splits list.splits)
    then have "utf8Nat c = [a, b]" using utf8Nat_two [of "b - 0x80" "a - 0xC0"] 2 by (auto simp: isCont_def)
    then show ?thesis using bs b 2 by (auto simp: scalar_def isCont_def)
  next
    case 3
    with assms bs obtain b d where b: "bs' = b # d # rest" "isCont b" "isCont d" "a = 0xE0 \<longrightarrow> 0xA0 \<le> b" "a = 0xED \<longrightarrow> b < 0xA0"
        "c = (a - 0xE0) * 4096 + (b - 0x80) * 64 + (d - 0x80)"
      by (auto split: if_splits list.splits)
    then have c: "c = ((a - 0xE0) * 64 + (b - 0x80)) * 64 + (d - 0x80)" by simp
    have "utf8Nat c = [0xE0 + (a - 0xE0), 0x80 + (b - 0x80), 0x80 + (d - 0x80)]"
      unfolding c by (rule utf8Nat_three) (use 3 b(2-5) in \<open>auto simp: isCont_def\<close>)
    then have "utf8Nat c = [a, b, d]" using 3 b(2,3) by (simp add: isCont_def)
    moreover have "scalar c"
    proof (cases "a \<le> 0xED")
      case True
      then have "a - 0xE0 \<le> 12 \<or> a - 0xE0 = 13 \<and> b - 0x80 < 32" using b(5) by auto
      then show ?thesis using b(2,3,6) by (auto simp: scalar_def isCont_def)
    qed (use 3 b(2,3,6) in \<open>auto simp: scalar_def isCont_def\<close>)
    ultimately show ?thesis using bs b by simp
  next
    case 4
    with assms bs obtain b d e where b: "bs' = b # d # e # rest" "isCont b" "isCont d" "isCont e" "a = 0xF0 \<longrightarrow> 0x90 \<le> b" "a = 0xF4 \<longrightarrow> b < 0x90"
        "c = (a - 0xF0) * 262144 + (b - 0x80) * 4096 + (d - 0x80) * 64 + (e - 0x80)"
      by (auto split: if_splits list.splits)
    then have c: "c = (((a - 0xF0) * 64 + (b - 0x80)) * 64 + (d - 0x80)) * 64 + (e - 0x80)" by simp
    have "utf8Nat c = [0xF0 + (a - 0xF0), 0x80 + (b - 0x80), 0x80 + (d - 0x80), 0x80 + (e - 0x80)]"
      unfolding c by (rule utf8Nat_four) (use 4 b(2-6) in \<open>auto simp: isCont_def\<close>)
    then have "utf8Nat c = [a, b, d, e]" using 4 b(2-4) by (simp add: isCont_def)
    have "a - 0xF0 = 0 \<and> 16 \<le> b - 0x80 \<or> 1 \<le> a - 0xF0 \<and> a - 0xF0 \<le> 3 \<or> a - 0xF0 = 4 \<and> b - 0x80 < 16"
      using 4 b(5,6) by auto
    moreover have "b - 0x80 < 64" "d - 0x80 < 64" "e - 0x80 < 64" using b(2-4) by (auto simp: isCont_def)
    ultimately have "scalar c" using b(7) unfolding scalar_def by linarith
    moreover note \<open>utf8Nat c = [a, b, d, e]\<close>
    ultimately show ?thesis using bs b by simp
  qed (use assms bs in \<open>auto simp: scalar_def utf8Nat_def\<close>)
qed


lemma utf8Points_enc: "\<forall>c \<in> set cs. scalar c \<Longrightarrow> utf8Points (concat (map utf8Nat cs)) = Some cs"
proof (induction cs)
  case (Cons c cs)
  moreover have "utf8Nat c \<noteq> []" by (simp add: utf8Nat_def)
  ultimately show ?case by (simp add: utf8Points.simps [of "utf8Nat c @ _"] utf8Step_enc)
qed (simp add: utf8Points.simps)

lemma utf8Points_dec: "utf8Points bs = Some cs \<Longrightarrow> (\<forall>c \<in> set cs. scalar c) \<and> bs = concat (map utf8Nat cs)"
proof (induction bs arbitrary: cs rule: utf8Points.induct)
  case (1 bs)
  show ?case
  proof (cases "bs = []")
    case False
    then obtain c rest cs' where "utf8Step bs = Some (c, rest)" "utf8Points rest = Some cs'" "cs = c # cs'"
      using "1.prems" by (auto simp: utf8Points.simps [of bs] split: option.splits)
    then show ?thesis using "1.IH" [OF False, of "(c, rest)" c rest cs'] utf8Step_dec [of bs c rest] by auto
  qed (use "1.prems" in \<open>simp add: utf8Points.simps\<close>)
qed

text \<open>The well-formed strings: code units without an unpaired surrogate.\<close>

fun validUnicode :: "jstring \<Rightarrow> bool" where
  "validUnicode [] = True"
| "validUnicode (h # s) =
     (if 0xD800 \<le> h \<and> h < 0xDC00
      then (case s of [] \<Rightarrow> False | l # s' \<Rightarrow> 0xDC00 \<le> l \<and> l < 0xE000 \<and> validUnicode s')
      else h < 0x10000 \<and> \<not> (0xDC00 \<le> h \<and> h < 0xE000) \<and> validUnicode s)"

lemma codePoints_units:
  assumes "scalar c"
  shows "codePoints (utf16Units c @ s) = c # codePoints s"
proof (cases "c < 0x10000")
  case True
  then show ?thesis using assms by (cases s) (auto simp: utf16Units_def scalar_def)
next
  case False
  let ?d = "c - 0x10000"
  have "?d < 0x100000" using assms by (auto simp: scalar_def)
  then have "?d div 1024 < 1024" by simp
  moreover have "?d div 1024 * 1024 + ?d mod 1024 = ?d" by simp
  ultimately have "0x10000 + ?d div 1024 * 1024 + ?d mod 1024 = c" using False by linarith
  then show ?thesis using False \<open>?d div 1024 < 1024\<close> by (simp add: utf16Units_def)
qed

lemma codePoints_utf16: "\<forall>c \<in> set cs. scalar c \<Longrightarrow> codePoints (concat (map utf16Units cs)) = cs"
  by (induction cs) (simp_all add: codePoints_units)

lemma validUnicode_utf16: "\<forall>c \<in> set cs. scalar c \<Longrightarrow> validUnicode (concat (map utf16Units cs))"
proof (induction cs)
  case (Cons c cs)
  then have "(c - 0x10000) div 1024 < 1024" by (auto simp: scalar_def)
  then show ?case using Cons by (auto simp: utf16Units_def scalar_def)
qed simp

lemma utf16Units_pair:
  assumes "0xD800 \<le> h" "h < 0xDC00" "0xDC00 \<le> l" "l < 0xE000"
  shows "utf16Units (0x10000 + (h - 0xD800) * 1024 + (l - 0xDC00)) = [h, l]"
    and "scalar (0x10000 + (h - 0xD800) * 1024 + (l - 0xDC00))"
proof -
  have "l - 0xDC00 < 1024" using assms by simp
  then have "((h - 0xD800) * 1024 + (l - 0xDC00)) div 1024 = h - 0xD800" "((h - 0xD800) * 1024 + (l - 0xDC00)) mod 1024 = l - 0xDC00"
    by (simp_all only: mod_mult_self3 div_mult_self3 mod_less div_less)
  moreover have "0x10000 + (h - 0xD800) * 1024 + (l - 0xDC00) - 0x10000 = (h - 0xD800) * 1024 + (l - 0xDC00)" by simp
  ultimately show "utf16Units (0x10000 + (h - 0xD800) * 1024 + (l - 0xDC00)) = [h, l]"
    unfolding utf16Units_def using assms by (simp del: add_diff_assoc diff_diff_left)
  show "scalar (0x10000 + (h - 0xD800) * 1024 + (l - 0xDC00))" using assms by (auto simp: scalar_def)
qed

lemma utf16_codePoints:
  "validUnicode s \<Longrightarrow> concat (map utf16Units (codePoints s)) = s \<and> (\<forall>c \<in> set (codePoints s). scalar c)"
proof (induction s rule: codePoints.induct)
  case (1 h l s)
  show ?case
  proof (cases "0xD800 \<le> h \<and> h < 0xDC00 \<and> 0xDC00 \<le> l \<and> l < 0xE000")
    case True
    then have cp: "codePoints (h # l # s) = (0x10000 + (h - 0xD800) * 1024 + (l - 0xDC00)) # codePoints s" by simp
    show ?thesis unfolding cp using 1 True utf16Units_pair [of h l] by (auto simp del: add_diff_assoc diff_diff_left)
  next
    case False
    then have "codePoints (h # l # s) = h # codePoints (l # s)" "validUnicode (l # s)" "utf16Units h = [h]" "scalar h"
      using 1(3) by (auto simp: utf16Units_def scalar_def split: if_splits)
    then show ?thesis using 1(2) [OF False] by simp
  qed
qed (auto simp: utf16Units_def scalar_def split: if_splits)

lemma utf8Text_utf8:
  assumes "validUnicode s"
  shows "utf8Text (utf8 s) = Some s"
proof -
  note s = utf16_codePoints [OF assms]
  then have "map unat (utf8 s) = concat (map utf8Nat (codePoints s))"
    by (simp add: utf8_def map_concat o_def map_unat_utf8 cong: map_cong)
  then show ?thesis using s by (simp add: utf8Text_def utf8Points_enc)
qed

lemma utf8Text_dec:
  assumes "utf8Text bs = Some s"
  shows "validUnicode s \<and> utf8 s = bs"
proof -
  from assms obtain cs where cs: "utf8Points (map unat bs) = Some cs" "s = concat (map utf16Units cs)"
    by (auto simp: utf8Text_def)
  note d = utf8Points_dec [OF cs(1)]
  then have "utf8 s = concat (map (\<lambda>c. map of_nat (utf8Nat c)) cs)"
    by (simp add: cs(2) utf8_def codePoints_utf16 utf8CodePoint_scalar cong: map_cong)
  also have "\<dots> = map of_nat (map unat bs)" unfolding conjunct2 [OF d] by (simp add: map_concat o_def)
  also have "\<dots> = bs" by (simp add: o_def)
  finally show ?thesis using d by (simp add: cs(2) validUnicode_utf16)
qed

text \<open>
  The encoder is injective on well-formed strings, and the fatal decoder that keeps the byte order mark
  is injective on the bytes it accepts.
\<close>

interpretation utf8_codec: codec utf8 "\<lambda>bs. case utf8Text bs of None \<Rightarrow> Inl () | Some s \<Rightarrow> Inr s" validUnicode
  by unfold_locales (simp add: utf8Text_utf8)

lemma utf8_inj: "validUnicode s \<Longrightarrow> validUnicode t \<Longrightarrow> utf8 s = utf8 t \<longleftrightarrow> s = t"
  by (rule utf8_codec.enc_eq_iff)

lemma textDecode_strict:
  "textDecode True bs = Inr s \<longleftrightarrow> validUnicode s \<and> utf8 s = bs"
  using utf8Text_utf8 utf8Text_dec by (auto simp: textDecode_def split: option.splits)

lemma validUnicode_ascii: "isAscii s \<Longrightarrow> validUnicode s"
  by (induction s) (auto simp: isAscii_def)

end
