(* ===== verification/JsonText.thy ===== *)
theory JsonText
  imports Json Utf8 "HOL-Library.AList"
begin

text \<open>
  \<open>JSON.parse\<close> of the language: a recursive descent over the text. The conversion of a number token to
  a number is a field of the platform. The order of the members of an object is that of the text; the
  language moves integer-like names to the front, which no code observes.
\<close>

section \<open>\<open>JSON.parse\<close>\<close>

definition isJsonWs :: "nat \<Rightarrow> bool" where
  "isJsonWs c \<longleftrightarrow> c \<in> {9, 10, 13, 32}"

definition skipWs :: "jstring \<Rightarrow> jstring" where
  "skipWs = dropWhile isJsonWs"

definition hexDigitVal :: "nat \<Rightarrow> nat option" where
  "hexDigitVal c =
     (if isDigit c then Some (c - 48)
      else if 97 \<le> c \<and> c \<le> 102 then Some (c - 87)
      else if 65 \<le> c \<and> c \<le> 70 then Some (c - 55) else None)"

fun hexUnit :: "jstring \<Rightarrow> nat option" where
  "hexUnit [] = Some 0"
| "hexUnit (c # s) =
     (case (hexDigitVal c, hexUnit s) of (Some h, Some v) \<Rightarrow> Some (h * 16 ^ length s + v) | _ \<Rightarrow> None)"

definition shortEscape :: "nat \<Rightarrow> nat option" where
  "shortEscape e = map_of [(34, 34), (92, 92), (47, 47), (98, 8), (102, 12), (110, 10), (114, 13), (116, 9)] e"

text \<open>The characters of a string after its opening quote, and the text after its closing one.\<close>

fun parseString :: "jstring \<Rightarrow> (jstring \<times> jstring) option" where
  "parseString [] = None"
| "parseString (c # s) =
     (if c = 34 then Some ([], s)
      else if c = 92 then
        (case s of
           [] \<Rightarrow> None
         | e # s' \<Rightarrow>
             if e = 117 then
               (case s' of
                  a # b # d # g # rest \<Rightarrow>
                    (case hexUnit [a, b, d, g] of
                       None \<Rightarrow> None
                     | Some u \<Rightarrow> map_option (apfst ((#) u)) (parseString rest))
                | _ \<Rightarrow> None)
             else
               (case shortEscape e of
                  None \<Rightarrow> None
                | Some u \<Rightarrow> map_option (apfst ((#) u)) (parseString s')))
      else if c < 32 then None
      else map_option (apfst ((#) c)) (parseString s))"

text \<open>\<open>-?(0|[1-9][0-9]*)(\.[0-9]+)?([eE][+-]?[0-9]+)?\<close>, as far as it reaches.\<close>

definition digits1 :: "jstring \<Rightarrow> (jstring \<times> jstring) option" where
  "digits1 s = (if s \<noteq> [] \<and> isDigit (hd s) then Some (takeWhile isDigit s, dropWhile isDigit s) else None)"

definition signPart :: "nat list \<Rightarrow> jstring \<Rightarrow> jstring \<times> jstring" where
  "signPart signs s = (case s of c # s' \<Rightarrow> if c \<in> set signs then ([c], s') else ([], s) | [] \<Rightarrow> ([], s))"

definition intPart :: "jstring \<Rightarrow> (jstring \<times> jstring) option" where
  "intPart s = (case s of c # s' \<Rightarrow> if c = 48 then Some ([48], s') else digits1 s | [] \<Rightarrow> None)"

definition fracPart :: "jstring \<Rightarrow> (jstring \<times> jstring) option" where
  "fracPart s = (case s of c # s' \<Rightarrow> if c = 46 then map_option (apfst ((#) 46)) (digits1 s') else Some ([], s) | [] \<Rightarrow> Some ([], s))"

definition expPart :: "jstring \<Rightarrow> (jstring \<times> jstring) option" where
  "expPart s =
     (case s of
        c # s' \<Rightarrow>
          if c \<in> {69, 101} then
            (let p = signPart [43, 45] s' in map_option (apfst (\<lambda>ds. c # fst p @ ds)) (digits1 (snd p)))
          else Some ([], s)
      | [] \<Rightarrow> Some ([], s))"

definition numberToken :: "jstring \<Rightarrow> (jstring \<times> jstring) option" where
  "numberToken s =
     (let sg = signPart [45] s in
      case intPart (snd sg) of
        None \<Rightarrow> None
      | Some (i, s1) \<Rightarrow>
          (case fracPart s1 of
             None \<Rightarrow> None
           | Some (f, s2) \<Rightarrow>
               (case expPart s2 of
                  None \<Rightarrow> None
                | Some (e, s3) \<Rightarrow> Some (fst sg @ i @ f @ e, s3))))"

text \<open>
  Values, elements and members, by recursive descent. The first argument inserts a member into the
  members read so far; the number bounds the depth of the recursion, and \<open>fuel_enough\<close> below shows that
  the bound of \<open>parseJson\<close> is never reached.
\<close>

type_synonym member_insert = "jstring \<Rightarrow> json \<Rightarrow> (jstring \<times> json) list \<Rightarrow> (jstring \<times> json) list"

fun parseValue :: "member_insert \<Rightarrow> platform \<Rightarrow> nat \<Rightarrow> jstring \<Rightarrow> (json \<times> jstring) option"
  and parseElems :: "member_insert \<Rightarrow> platform \<Rightarrow> nat \<Rightarrow> json list \<Rightarrow> jstring \<Rightarrow> (json \<times> jstring) option"
  and parseMembers :: "member_insert \<Rightarrow> platform \<Rightarrow> nat \<Rightarrow> (jstring \<times> json) list \<Rightarrow> jstring \<Rightarrow> (json \<times> jstring) option" where
  "parseValue ins P 0 s = None"
| "parseValue ins P (Suc fuel) s =
     (case skipWs s of
        [] \<Rightarrow> None
      | c # s' \<Rightarrow>
          if c = 34 then map_option (apfst JStr) (parseString s')
          else if c = 91 then
            (case skipWs s' of
               [] \<Rightarrow> None
             | d # s'' \<Rightarrow> if d = 93 then Some (JArr [], s'') else parseElems ins P fuel [] s')
          else if c = 123 then
            (case skipWs s' of
               [] \<Rightarrow> None
             | d # s'' \<Rightarrow> if d = 125 then Some (JObj [], s'') else parseMembers ins P fuel [] s')
          else if starts_with (js ''null'') (c # s') then Some (JNull, drop 3 s')
          else if starts_with (js ''true'') (c # s') then Some (JBool True, drop 3 s')
          else if starts_with (js ''false'') (c # s') then Some (JBool False, drop 4 s')
          else map_option (apfst (\<lambda>t. JNum (numFromText P t))) (numberToken (c # s')))"
| "parseElems ins P 0 acc s = None"
| "parseElems ins P (Suc fuel) acc s =
     (case parseValue ins P fuel s of
        None \<Rightarrow> None
      | Some (v, r) \<Rightarrow>
          (case skipWs r of
             [] \<Rightarrow> None
           | c # r' \<Rightarrow>
               if c = 44 then parseElems ins P fuel (acc @ [v]) r'
               else if c = 93 then Some (JArr (acc @ [v]), r') else None))"
| "parseMembers ins P 0 acc s = None"
| "parseMembers ins P (Suc fuel) acc s =
     (case skipWs s of
        [] \<Rightarrow> None
      | q # s' \<Rightarrow>
          if q \<noteq> 34 then None
          else case parseString s' of
            None \<Rightarrow> None
          | Some (k, r) \<Rightarrow>
              (case skipWs r of
                 [] \<Rightarrow> None
               | c # r' \<Rightarrow>
                   if c \<noteq> 58 then None
                   else case parseValue ins P fuel r' of
                     None \<Rightarrow> None
                   | Some (v, t) \<Rightarrow>
                       (case skipWs t of
                          [] \<Rightarrow> None
                        | d # t' \<Rightarrow>
                            if d = 44 then parseMembers ins P fuel (ins k v acc) t'
                            else if d = 125 then Some (JObj (ins k v acc), t') else None)))"

text \<open>A later member replaces an earlier one of the same name.\<close>

definition parseText :: "member_insert \<Rightarrow> platform \<Rightarrow> jstring \<Rightarrow> js_error + json" where
  "parseText ins P s =
     (case parseValue ins P (2 * length s + 2) s of
        Some (v, r) \<Rightarrow> if skipWs r = [] then Inr v else Inl (JsSyntaxError ''Unexpected token in JSON'')
      | None \<Rightarrow> Inl (JsSyntaxError ''Unexpected token in JSON''))"

definition parseJson :: "platform \<Rightarrow> jstring \<Rightarrow> js_error + json" where
  "parseJson = parseText AList.update"

section \<open>The bound on the recursion\<close>

lemma length_skipWs: "length (skipWs s) \<le> length s"
  by (simp add: skipWs_def length_dropWhile_le)

lemma skipWs_Cons: "skipWs s = c # s' \<Longrightarrow> length s' < length s"
  using length_skipWs [of s] by simp

lemma parseString_shorter: "parseString s = Some (k, r) \<Longrightarrow> length r < length s"
proof (induction s arbitrary: k rule: length_induct)
  case (1 s)
  have step: "length r < length s" if "parseString s' = Some (k', r)" "length s' < length s" for s' k'
    using 1(1) that less_trans by blast
  from 1(2) show ?case
    by (cases s) (auto dest!: step simp del: hexUnit.simps split: if_splits list.splits option.splits)
qed

lemma digits1_shorter: "digits1 s = Some (t, r) \<Longrightarrow> length r < length s"
  by (cases s) (auto simp: digits1_def length_dropWhile_le less_Suc_eq_le split: if_splits)

lemma numberToken_shorter: "numberToken s = Some (t, r) \<Longrightarrow> length r < length s"
proof -
  assume t: "numberToken s = Some (t, r)"
  have sign: "length (snd (signPart signs x)) \<le> length x" for signs x by (cases x) (auto simp: signPart_def)
  have int: "intPart x = Some (i, y) \<Longrightarrow> length y < length x" for x i y
    using digits1_shorter by (cases x) (fastforce simp: intPart_def split: if_splits)+
  have frac: "fracPart x = Some (i, y) \<Longrightarrow> length y \<le> length x" for x i y
    using digits1_shorter by (cases x) (fastforce simp: fracPart_def split: if_splits)+
  have expo: "expPart x = Some (i, y) \<Longrightarrow> length y \<le> length x" for x i y
    by (cases x) (auto dest!: digits1_shorter less_le_trans [OF _ sign] simp: expPart_def Let_def split: if_splits)
  from t obtain i s1 f s2 e where "intPart (snd (signPart [45] s)) = Some (i, s1)" "fracPart s1 = Some (f, s2)" "expPart s2 = Some (e, r)"
    by (auto simp: numberToken_def Let_def split: option.splits)
  with int frac expo sign [of "[45]" s] show ?thesis by (meson le_less_trans less_le_trans order_trans)
qed

lemma drop_shorter: "length (drop n s) < Suc (length s)"
  by simp

lemma parse_shorter:
  "(\<forall>s v r. parseValue ins P fuel s = Some (v, r) \<longrightarrow> length r < length s) \<and>
   (\<forall>acc s v r. parseElems ins P fuel acc s = Some (v, r) \<longrightarrow> length r < length s) \<and>
   (\<forall>acc s v r. parseMembers ins P fuel acc s = Some (v, r) \<longrightarrow> length r < length s)"
proof (induction fuel)
  case (Suc fuel)
  have "length r < length s" if "parseValue ins P (Suc fuel) s = Some (v, r)" for s v r
  proof -
    from that obtain c s' where s: "skipWs s = c # s'" by (auto split: list.splits)
    have "length r \<le> length s'"
      using that s Suc.IH skipWs_Cons [of s'] parseString_shorter [of s'] numberToken_shorter [of "c # s'"]
      by (fastforce split: if_splits list.splits)
    then show ?thesis using skipWs_Cons [OF s] by simp
  qed
  moreover have "length r < length s" if "parseElems ins P (Suc fuel) acc s = Some (v, r)" for acc s v r
    using that Suc.IH by (fastforce dest!: skipWs_Cons split: if_splits list.splits option.splits)
  moreover have "length r < length s" if "parseMembers ins P (Suc fuel) acc s = Some (v, r)" for acc s v r
    using that Suc.IH by (fastforce dest!: skipWs_Cons parseString_shorter split: if_splits list.splits option.splits)
  ultimately show ?case by blast
qed simp

lemmas parseValue_shorter = parse_shorter [THEN conjunct1, rule_format]
lemmas parseElems_shorter = parse_shorter [THEN conjunct2, THEN conjunct1, rule_format]
lemmas parseMembers_shorter = parse_shorter [THEN conjunct2, THEN conjunct2, rule_format]


declare parseValue.simps(2) [simp del] parseElems.simps(2) [simp del] parseMembers.simps(2) [simp del]

text \<open>Fuel that exceeds twice the length of the text does not change the result.\<close>

lemma fuel_step:
  "(\<forall>s. 2 * length s + 2 \<le> fuel \<longrightarrow> parseValue ins P (Suc fuel) s = parseValue ins P fuel s) \<and>
   (\<forall>acc s. 2 * length s + 3 \<le> fuel \<longrightarrow> parseElems ins P (Suc fuel) acc s = parseElems ins P fuel acc s) \<and>
   (\<forall>acc s. 2 * length s + 3 \<le> fuel \<longrightarrow> parseMembers ins P (Suc fuel) acc s = parseMembers ins P fuel acc s)"
proof (induction fuel)
  case (Suc fuel)
  note parseValue_Suc = parseValue.simps(2) [of ins P "Suc fuel"] parseValue.simps(2) [of ins P fuel]
  have vals: "parseValue ins P (Suc fuel) s = parseValue ins P fuel s" if "2 * length s + 2 \<le> fuel" for s
    using Suc.IH that by blast
  have elems: "parseElems ins P (Suc fuel) acc s = parseElems ins P fuel acc s" if "2 * length s + 3 \<le> fuel" for acc s
    using Suc.IH that by blast
  have members: "parseMembers ins P (Suc fuel) acc s = parseMembers ins P fuel acc s" if "2 * length s + 3 \<le> fuel" for acc s
    using Suc.IH that by blast
  have "parseValue ins P (Suc (Suc fuel)) s = parseValue ins P (Suc fuel) s" if "2 * length s + 2 \<le> Suc fuel" for s
  proof (cases "skipWs s")
    case (Cons c s')
    then have "2 * length s' + 3 \<le> fuel" using skipWs_Cons [OF Cons] that by simp
    then show ?thesis unfolding parseValue_Suc Cons using elems members by (simp cong: if_cong list.case_cong)
  qed (simp add: parseValue_Suc)
  moreover have "parseElems ins P (Suc (Suc fuel)) acc s = parseElems ins P (Suc fuel) acc s" if s: "2 * length s + 3 \<le> Suc fuel" for acc s
  proof -
    have v: "parseValue ins P (Suc fuel) s = parseValue ins P fuel s" using vals s by simp
    show ?thesis
    proof (cases "parseValue ins P fuel s")
      case (Some p)
      obtain x r where p: "p = (x, r)" by force
      show ?thesis
      proof (cases "skipWs r")
        case (Cons c r')
        then have "2 * length r' + 3 \<le> fuel"
          using skipWs_Cons [OF Cons] parseValue_shorter [OF Some [unfolded p]] s by simp
        then show ?thesis unfolding parseElems.simps(2) [of ins P _ acc s] v Some p using Cons elems by simp
      qed (simp add: parseElems.simps(2) [of ins P _ acc s] v Some p)
    qed (simp add: parseElems.simps(2) [of ins P _ acc s] v)
  qed
  moreover have "parseMembers ins P (Suc (Suc fuel)) acc s = parseMembers ins P (Suc fuel) acc s" if s: "2 * length s + 3 \<le> Suc fuel" for acc s
  proof -
    consider "\<forall>q s' k r c r'. \<not> (skipWs s = q # s' \<and> q = 34 \<and> parseString s' = Some (k, r) \<and> skipWs r = c # r' \<and> c = 58)"
      | s' k r r' where "skipWs s = 34 # s'" "parseString s' = Some (k, r)" "skipWs r = 58 # r'"
      by blast
    then show ?thesis
    proof cases
      case 2
      have r': "length r' < length s" using skipWs_Cons [OF 2(1)] parseString_shorter [OF 2(2)] skipWs_Cons [OF 2(3)] by simp
      then have v: "parseValue ins P (Suc fuel) r' = parseValue ins P fuel r'" using vals s by simp
      show ?thesis
      proof (cases "parseValue ins P fuel r'")
        case (Some p)
        obtain x t where p: "p = (x, t)" by force
        show ?thesis
        proof (cases "skipWs t")
          case (Cons c t')
          then have "2 * length t' + 3 \<le> fuel"
            using skipWs_Cons [OF Cons] parseValue_shorter [OF Some [unfolded p]] r' s by simp
          then show ?thesis unfolding parseMembers.simps(2) [of ins P _ acc s] using 2 v Some p Cons members by simp
        qed (use 2 v Some p in \<open>simp add: parseMembers.simps(2) [of ins P _ acc s]\<close>)
      qed (use 2 v in \<open>simp add: parseMembers.simps(2) [of ins P _ acc s]\<close>)
    qed (auto simp: parseMembers.simps(2) [of ins P _ acc s] split: list.splits option.splits)
  qed
  ultimately show ?case by blast
qed simp

lemma fuel_enough:
  "2 * length s + 2 \<le> fuel \<Longrightarrow> parseValue ins P fuel s = parseValue ins P (2 * length s + 2) s"
proof (induction rule: dec_induct)
  case (step n)
  then show ?case using fuel_step by metis
qed simp

lemma parse_mono:
  "(\<forall>s p. parseValue ins P fuel s = Some p \<longrightarrow> parseValue ins P (Suc fuel) s = Some p) \<and>
   (\<forall>acc s p. parseElems ins P fuel acc s = Some p \<longrightarrow> parseElems ins P (Suc fuel) acc s = Some p) \<and>
   (\<forall>acc s p. parseMembers ins P fuel acc s = Some p \<longrightarrow> parseMembers ins P (Suc fuel) acc s = Some p)"
proof (induction fuel)
  case (Suc fuel)
  have vals: "parseValue ins P (Suc fuel) s = Some p" if "parseValue ins P fuel s = Some p" for s p
    using Suc.IH that by blast
  have elems: "parseElems ins P (Suc fuel) acc s = Some p" if "parseElems ins P fuel acc s = Some p" for acc s p
    using Suc.IH that by blast
  have members: "parseMembers ins P (Suc fuel) acc s = Some p" if "parseMembers ins P fuel acc s = Some p" for acc s p
    using Suc.IH that by blast
  have "parseValue ins P (Suc (Suc fuel)) s = Some p" if "parseValue ins P (Suc fuel) s = Some p" for s p
  proof -
    from that obtain c s' where s: "skipWs s = c # s'" by (auto simp: parseValue.simps(2) split: list.splits)
    show ?thesis
      using that elems members unfolding parseValue.simps(2) s by (cases "skipWs s'") (simp_all del: js_Cons split: if_splits)
  qed
  moreover have "parseElems ins P (Suc (Suc fuel)) acc s = Some p" if p: "parseElems ins P (Suc fuel) acc s = Some p" for acc s p
  proof -
    from p obtain x t c t' where x: "parseValue ins P fuel s = Some (x, t)" "skipWs t = c # t'"
      and rest: "(if c = 44 then parseElems ins P fuel (acc @ [x]) t' else if c = 93 then Some (JArr (acc @ [x]), t') else None) = Some p"
      by (auto simp: parseElems.simps(2) split: option.splits list.splits)
    then show ?thesis using vals [OF x(1)] elems by (auto simp: parseElems.simps(2) [of _ _ _ acc s] split: if_splits)
  qed
  moreover have "parseMembers ins P (Suc (Suc fuel)) acc s = Some p" if p: "parseMembers ins P (Suc fuel) acc s = Some p" for acc s p
  proof -
    from p obtain s' k t t' x u d u' where m: "skipWs s = 34 # s'" "parseString s' = Some (k, t)" "skipWs t = 58 # t'"
        "parseValue ins P fuel t' = Some (x, u)" "skipWs u = d # u'"
      and rest: "(if d = 44 then parseMembers ins P fuel (ins k x acc) u' else if d = 125 then Some (JObj (ins k x acc), u') else None) = Some p"
      by (auto simp: parseMembers.simps(2) split: option.splits list.splits if_splits)
    then show ?thesis using vals [OF m(4)] members by (auto simp: parseMembers.simps(2) [of _ _ _ acc s] split: if_splits)
  qed
  ultimately show ?case by blast
qed simp

lemma parseValue_mono:
  assumes "fuel \<le> fuel'" and "parseValue ins P fuel s = Some p"
  shows "parseValue ins P fuel' s = Some p"
  using assms by (induction rule: dec_induct) (use parse_mono in blast)+

text \<open>A result at any bound is the result.\<close>

lemma parseText_any:
  assumes "parseValue ins P fuel s = Some (v, r)" and "skipWs r = []"
  shows "parseText ins P s = Inr v"
proof -
  have "parseValue ins P (max fuel (2 * length s + 2)) s = Some (v, r)" by (rule parseValue_mono [OF _ assms(1)]) simp
  then have "parseValue ins P (2 * length s + 2) s = Some (v, r)" using fuel_enough [of s "max fuel (2 * length s + 2)"] by simp
  then show ?thesis using assms(2) by (simp add: parseText_def)
qed

end
