(* ===== verification/Lr.thy ===== *)
theory Lr
  imports Names Numerals Base64 JsonText
begin

text \<open>
  References to c2sp-tlog logs (\<open>log-c2sp-tlog/src/lr.ts\<close>): the canonical prefix of a log, the parts of
  a reference and the checkpoint origin. The URL parser, the setters of URL objects and their
  serialization are those of the platform.
\<close>

section \<open>Definitions\<close>

text \<open>The setters and the serialization of URL objects.\<close>

record url_ops =
  setProtocol :: "url \<Rightarrow> jstring \<Rightarrow> url"
  setHostname :: "url \<Rightarrow> jstring \<Rightarrow> url"
  setPort :: "url \<Rightarrow> jstring \<Rightarrow> url"
  setPathname :: "url \<Rightarrow> jstring \<Rightarrow> url"
  urlToString :: "url \<Rightarrow> jstring"

record ParsedC2spTlogLr =
  lr_scope :: jstring
  lr_logPrefix :: jstring
  lr_streamId :: jstring
  lr_origin :: jstring
  lr_lr :: jstring
  lr_entryIndex :: "nat option"

definition METHOD :: jstring where
  "METHOD = js ''c2sp-tlog:''"

definition generateC2spTlogStreamId :: "bytes \<Rightarrow> jstring" where
  "generateC2spTlogStreamId random = b64url (take 16 random)"

text \<open>\<open>lastIndexOf\<close> of one code unit; \<open>None\<close> is the result -1.\<close>

definition last_index_of :: "nat \<Rightarrow> jstring \<Rightarrow> nat option" where
  "last_index_of c s = map_option (\<lambda>i. length s - 1 - i) (index_of c (rev s))"

definition isHex :: "nat \<Rightarrow> bool" where
  "isHex c \<longleftrightarrow> hexDigitVal c \<noteq> None"

text \<open>The class \<open>[A-Za-z0-9._~-]\<close>.\<close>

definition isUnreserved :: "nat \<Rightarrow> bool" where
  "isUnreserved c \<longleftrightarrow> isAlnum c \<or> c = 46 \<or> c = 95 \<or> c = 126 \<or> c = 45"

text \<open>The expression \<open>^(?:[A-Za-z0-9._~-]|%[0-9A-Fa-f]{2})+$\<close> is matched by the non-empty strings of such units.\<close>

fun unreservedUnits :: "jstring \<Rightarrow> bool" where
  "unreservedUnits [] = True"
| "unreservedUnits (c # s) =
     (if isUnreserved c then unreservedUnits s
      else case s of a # b # t \<Rightarrow> c = 37 \<and> isHex a \<and> isHex b \<and> unreservedUnits t | _ \<Rightarrow> False)"

definition streamIdText :: "jstring \<Rightarrow> bool" where
  "streamIdText s \<longleftrightarrow> s \<noteq> [] \<and> unreservedUnits s"

definition validateScope :: "jstring \<Rightarrow> js_error + unit" where
  "validateScope scope =
     (if scope \<noteq> js ''public'' \<and> scope \<noteq> js ''testnet'' \<and>
         \<not> (starts_with (js ''private-'') scope \<and> drop 8 scope \<noteq> [] \<and> list_all (\<lambda>c. isAlnum c \<or> c = 45) (drop 8 scope))
      then Inl (c2spParseError ''invalid c2sp-tlog scope'') else Inr ())"

text \<open>\<open>raw.replace(/^[a-z][a-z0-9+.-]*:\/\/[^/?#]*/i, '') || '/'\<close>.\<close>

definition isSchemeUnit :: "nat \<Rightarrow> bool" where
  "isSchemeUnit c \<longleftrightarrow> isAlnum c \<or> c = 43 \<or> c = 46 \<or> c = 45"

definition rawPathOf :: "jstring \<Rightarrow> jstring" where
  "rawPathOf raw =
     (let rest = dropWhile isSchemeUnit raw;
          path = (if raw \<noteq> [] \<and> (isLower (hd raw) \<or> isUpper (hd raw)) \<and> starts_with (js ''://'') rest
                  then dropWhile (\<lambda>c. c \<notin> {47, 63, 35}) (drop 3 rest) else raw)
      in if path = [] then [47] else path)"

definition hasDotSegment :: "jstring \<Rightarrow> bool" where
  "hasDotSegment path \<longleftrightarrow> [46] \<in> set (split_on 47 path) \<or> [46, 46] \<in> set (split_on 47 path)"

text \<open>\<open>/%2f|%5c/i.test(path)\<close>.\<close>

fun encodedSlash :: "jstring \<Rightarrow> bool" where
  "encodedSlash [] = False"
| "encodedSlash (c # s) = (c = 37 \<and> asciiLower (take 2 s) \<in> {js ''2f'', js ''5c''} \<or> encodedSlash s)"

definition asciiUpper :: "jstring \<Rightarrow> jstring" where
  "asciiUpper s = map (\<lambda>c. if isLower c then c - 32 else c) s"

fun normalizePercentPath :: "jstring \<Rightarrow> jstring" where
  "normalizePercentPath (c # a # b # s) =
     (case (hexDigitVal a, hexDigitVal b) of
        (Some h, Some l) \<Rightarrow>
          if c = 37 then (if isUnreserved (16 * h + l) then [16 * h + l] else asciiUpper [c, a, b]) @ normalizePercentPath s
          else c # normalizePercentPath (a # b # s)
      | _ \<Rightarrow> c # normalizePercentPath (a # b # s))"
| "normalizePercentPath s = s"

definition canonicalLogPrefix :: "platform \<Rightarrow> url_ops \<Rightarrow> jstring \<Rightarrow> js_error + jstring" where
  "canonicalLogPrefix P U raw =
     (if (\<exists>c \<in> set raw. c = 59 \<or> isWhite c) then Inl (c2spParseError ''log prefix must percent-encode DNS TXT tag delimiters'')
      else if hasDotSegment (rawPathOf raw) then Inl (c2spParseError ''log prefix must not contain dot segments'')
      else case urlParse P raw of
        None \<Rightarrow> Inl (c2spParseError ''invalid log prefix URL'')
      | Some u \<Rightarrow>
          if url_username u \<noteq> [] \<or> url_password u \<noteq> [] then Inl (c2spParseError ''log prefix must not contain userinfo'')
          else if url_search u \<noteq> [] \<or> url_hash u \<noteq> [] then Inl (c2spParseError ''log prefix must not contain query or fragment'')
          else if url_pathname u \<noteq> [47] \<and> ends_with [47] (url_pathname u) then Inl (c2spParseError ''log prefix must not have trailing slash'')
          else if encodedSlash (url_pathname u) then Inl (c2spParseError ''log prefix must not percent-encode slash or backslash'')
          else
            let scheme = toLowerCase P (url_protocol u) in
            if scheme \<noteq> js ''https:'' \<and> scheme \<noteq> js ''http:'' then Inl (c2spParseError ''unsupported log prefix scheme'')
            else
              let u1 = setProtocol U u scheme;
                  u2 = setHostname U u1 (toLowerCase P (url_hostname u1));
                  u3 = (if scheme = js ''https:'' \<and> url_port u2 = js ''443'' \<or> scheme = js ''http:'' \<and> url_port u2 = js ''80''
                        then setPort U u2 [] else u2);
                  u4 = setPathname U u3 (normalizePercentPath (url_pathname u3));
                  out = urlToString U u4
              in Inr (if ends_with [47] out then butlast out else out))"

definition urlHost :: "url \<Rightarrow> jstring" where
  "urlHost u = url_hostname u @ (if url_port u = [] then [] else 58 # url_port u)"

definition checkpointOrigin :: "platform \<Rightarrow> jstring \<Rightarrow> js_error + jstring" where
  "checkpointOrigin P logPrefix =
     (case urlParse P logPrefix of
        None \<Rightarrow> Inl (JsTypeError ''Invalid URL'')
      | Some u \<Rightarrow> let s = urlHost u @ url_pathname u in Inr (if ends_with [47] s then butlast s else s))"

definition parseIndex :: "jstring \<Rightarrow> js_error + nat" where
  "parseIndex s =
     (if \<not> canonicalDecimal s then Inl (c2spParseError ''invalid entry index'')
      else if int (digitsValue s) > MAX_SAFE then Inl (c2spParseError ''entry index outside safe integer range'')
      else Inr (digitsValue s))"

definition validateSignedNoteName :: "jstring \<Rightarrow> js_error + unit" where
  "validateSignedNoteName name =
     (if name = [] \<or> (\<exists>c \<in> set name. c < 0x21 \<or> c > 0x7e) \<or> (\<exists>c \<in> set name. isWhite c \<or> c = 43)
      then Inl (c2spParseError ''invalid signed-note key name'') else Inr ())"

definition parseC2spTlogLr :: "platform \<Rightarrow> url_ops \<Rightarrow> jstring \<Rightarrow> js_error + ParsedC2spTlogLr" where
  "parseC2spTlogLr P U lr =
     (if \<not> starts_with METHOD lr then Inl (c2spParseError ''lr must start with c2sp-tlog:'')
      else
        let rest = drop (length METHOD) lr in
        case index_of 58 rest of
          None \<Rightarrow> Inl (c2spParseError ''missing c2sp-tlog scope'')
        | Some colon \<Rightarrow>
            if colon = 0 then Inl (c2spParseError ''missing c2sp-tlog scope'')
            else
              let scope = take colon rest; tail = drop (Suc colon) rest in
              bindE (validateScope scope) (\<lambda>_.
              case last_index_of 35 tail of
                None \<Rightarrow> Inl (c2spParseError ''missing log prefix or stream id'')
              | Some hash \<Rightarrow>
                  if hash = 0 \<or> hash = length tail - 1 then Inl (c2spParseError ''missing log prefix or stream id'')
                  else
                    bindE (canonicalLogPrefix P U (take hash tail)) (\<lambda>logPrefix.
                    if take hash tail \<noteq> logPrefix then Inl (c2spParseError ''log prefix must already be canonical'')
                    else
                      let ref = drop (Suc hash) tail; at' = last_index_of 64 ref;
                          streamId = (case at' of None \<Rightarrow> ref | Some i \<Rightarrow> take i ref) in
                      if \<not> streamIdText streamId then Inl (c2spParseError ''invalid stream id'')
                      else
                        bindE (case at' of None \<Rightarrow> Inr None | Some i \<Rightarrow> bindE (parseIndex (drop (Suc i) ref)) (\<lambda>n. Inr (Some n))) (\<lambda>entryIndex.
                        bindE (checkpointOrigin P logPrefix) (\<lambda>origin.
                        bindE (validateSignedNoteName origin) (\<lambda>_.
                        if scope = js ''public'' \<and> \<not> starts_with (js ''https://'') logPrefix
                          then Inl (c2spParseError ''public c2sp-tlog requires an https log prefix'')
                        else Inr \<lparr>lr_scope = scope, lr_logPrefix = logPrefix, lr_streamId = streamId, lr_origin = origin,
                          lr_lr = METHOD @ scope @ 58 # logPrefix @ 35 # streamId, lr_entryIndex = entryIndex\<rparr>)))))) "

section \<open>The form of a reference\<close>

lemma last_index_of_append [simp]: "c \<notin> set t \<Longrightarrow> last_index_of c (s @ c # t) = Some (length s)"
  using index_of_append [of c "rev t" "rev s"] by (simp add: last_index_of_def)

lemma last_index_of_None: "last_index_of c s = None \<longleftrightarrow> c \<notin> set s"
  by (simp add: last_index_of_def index_of_None)

lemma last_index_of_split:
  assumes "last_index_of c s = Some i"
  shows "s = take i s @ c # drop (Suc i) s \<and> c \<notin> set (drop (Suc i) s)"
proof -
  from assms obtain j where j: "index_of c (rev s) = Some j" "i = length s - 1 - j" by (auto simp: last_index_of_def)
  then have "rev s = take j (rev s) @ c # drop (Suc j) (rev s)" and "c \<notin> set (take j (rev s))"
    using index_of_split index_of_Some_iff by blast+
  then have s: "s = rev (drop (Suc j) (rev s)) @ c # rev (take j (rev s))" by (metis append.assoc append_Cons append_Nil rev.simps(2) rev_append rev_rev_ident)
  moreover have "j < length s" using j(1) by (auto simp: index_of_Some_iff)
  then have "length (rev (drop (Suc j) (rev s))) = i" using j(2) by simp
  ultimately obtain xs ys where "s = xs @ c # ys" "length xs = i" "c \<notin> set ys"
    using \<open>c \<notin> _\<close> by (metis set_rev)
  then show ?thesis by auto
qed

lemma streamId_units: "unreservedUnits s \<Longrightarrow> c \<in> set s \<Longrightarrow> isUnreserved c \<or> c = 37 \<or> isHex c"
  by (induction s rule: unreservedUnits.induct) (auto split: if_splits list.splits)

lemma streamId_plain: "streamIdText s \<Longrightarrow> 64 \<notin> set s \<and> 35 \<notin> set s"
  using streamId_units [of s 64] streamId_units [of s 35]
  by (auto simp: streamIdText_def isUnreserved_def isHex_def hexDigitVal_def isAlnum_def isLower_def isUpper_def isDigit_def)

definition indexSuffix :: "nat option \<Rightarrow> jstring" where
  "indexSuffix i = (case i of None \<Rightarrow> [] | Some n \<Rightarrow> 64 # decimal n)"

lemma parse_parts:
  assumes "parseC2spTlogLr P U lr = Inr r"
  shows "58 \<notin> set (lr_scope r) \<and> lr_scope r \<noteq> [] \<and> validateScope (lr_scope r) = Inr () \<and> lr_logPrefix r \<noteq> [] \<and>
    canonicalLogPrefix P U (lr_logPrefix r) = Inr (lr_logPrefix r) \<and> streamIdText (lr_streamId r) \<and>
    checkpointOrigin P (lr_logPrefix r) = Inr (lr_origin r) \<and> validateSignedNoteName (lr_origin r) = Inr () \<and>
    (lr_scope r = js ''public'' \<longrightarrow> starts_with (js ''https://'') (lr_logPrefix r)) \<and>
    lr_lr r = METHOD @ lr_scope r @ 58 # lr_logPrefix r @ 35 # lr_streamId r \<and> lr = lr_lr r @ indexSuffix (lr_entryIndex r)"
proof -
  from assms obtain rest where rest: "lr = METHOD @ rest" by (auto simp: parseC2spTlogLr_def starts_with_iff split: if_splits)
  from assms obtain colon where colon: "index_of 58 rest = Some colon" "colon \<noteq> 0"
    by (auto simp: parseC2spTlogLr_def rest Let_def split: option.splits if_splits)
  define scope tail where "scope = take colon rest" and "tail = drop (Suc colon) rest"
  have split: "rest = scope @ 58 # tail" "58 \<notin> set scope" "scope \<noteq> []"
    using index_of_split [OF colon(1)] colon by (auto simp: scope_def tail_def index_of_Some_iff)
  from assms obtain hash where hash: "last_index_of 35 tail = Some hash" "hash \<noteq> 0" and vs: "validateScope scope = Inr ()"
    by (auto simp: parseC2spTlogLr_def rest Let_def colon bindE_eq_Inr scope_def tail_def split: option.splits if_splits)
  define prefix ref where "prefix = take hash tail" and "ref = drop (Suc hash) tail"
  have tail: "tail = prefix @ 35 # ref" "prefix \<noteq> []"
    using last_index_of_split [OF hash(1)] hash by (auto simp: prefix_def ref_def)
  define streamId where "streamId = (case last_index_of 64 ref of None \<Rightarrow> ref | Some i \<Rightarrow> take i ref)"
  from assms obtain entryIndex origin where
    r: "r = \<lparr>lr_scope = scope, lr_logPrefix = prefix, lr_streamId = streamId, lr_origin = origin,
          lr_lr = METHOD @ scope @ 58 # prefix @ 35 # streamId, lr_entryIndex = entryIndex\<rparr>"
    and checks: "canonicalLogPrefix P U prefix = Inr prefix" "streamIdText streamId" "checkpointOrigin P prefix = Inr origin"
      "validateSignedNoteName origin = Inr ()" "scope = js ''public'' \<longrightarrow> starts_with (js ''https://'') prefix"
    and idx: "(case last_index_of 64 ref of None \<Rightarrow> Inr None | Some i \<Rightarrow> bindE (parseIndex (drop (Suc i) ref)) (\<lambda>n. Inr (Some n))) = Inr entryIndex"
    by (auto simp: parseC2spTlogLr_def rest Let_def colon hash bindE_eq_Inr scope_def [symmetric] tail_def [symmetric] prefix_def [symmetric]
        ref_def [symmetric] streamId_def [symmetric] simp del: js_Cons split: if_splits)
  have "ref = streamId @ indexSuffix entryIndex"
  proof (cases "last_index_of 64 ref")
    case None
    then show ?thesis using idx by (simp add: streamId_def indexSuffix_def)
  next
    case (Some i)
    then show ?thesis using idx last_index_of_split [OF Some] 
      by (auto simp: streamId_def indexSuffix_def bindE_eq_Inr parseIndex_def decimal_digitsValue split: if_splits)
  qed
  then show ?thesis using split tail vs checks by (simp add: r rest)
qed

lemma parse_compose:
  assumes "58 \<notin> set (lr_scope r)" and "lr_scope r \<noteq> []" and "validateScope (lr_scope r) = Inr ()" and "lr_logPrefix r \<noteq> []"
    and "canonicalLogPrefix P U (lr_logPrefix r) = Inr (lr_logPrefix r)" and id: "streamIdText (lr_streamId r)"
    and "checkpointOrigin P (lr_logPrefix r) = Inr (lr_origin r)" and "validateSignedNoteName (lr_origin r) = Inr ()"
    and "lr_scope r = js ''public'' \<longrightarrow> starts_with (js ''https://'') (lr_logPrefix r)"
    and "lr_lr r = METHOD @ lr_scope r @ 58 # lr_logPrefix r @ 35 # lr_streamId r"
  shows "parseC2spTlogLr P U (lr_lr r) = Inr (r\<lparr>lr_entryIndex := None\<rparr>)"
proof -
  have "lr_streamId r \<noteq> []" using id by (simp add: streamIdText_def)
  moreover have "last_index_of 64 (lr_streamId r) = None" using streamId_plain [OF id] by (simp add: last_index_of_None)
  ultimately show ?thesis
    using assms streamId_plain [OF id] by (simp add: parseC2spTlogLr_def Let_def)
qed

text \<open>
  C19. A reference is its parts: the parser accepts exactly one spelling of a log, a stream and an index. The
  accepted text is the bound reference (scope, canonical log prefix, stream), followed by the canonical
  decimal of the entry index if there is one, and the bound reference itself is accepted and has the same
  parts.
\<close>

theorem parseC2spTlogLr_bound:
  assumes "parseC2spTlogLr P U lr = Inr r"
  shows "lr = lr_lr r @ indexSuffix (lr_entryIndex r) \<and> lr_lr r = METHOD @ lr_scope r @ 58 # lr_logPrefix r @ 35 # lr_streamId r \<and>
    parseC2spTlogLr P U (lr_lr r) = Inr (r\<lparr>lr_entryIndex := None\<rparr>)"
  using parse_parts [OF assms] parse_compose [of r P U] by blast

section \<open>An example\<close>

definition asciiOps :: url_ops where
  "asciiOps = \<lparr>setProtocol = (\<lambda>u s. u\<lparr>url_protocol := s\<rparr>), setHostname = (\<lambda>u s. u\<lparr>url_hostname := s\<rparr>),
     setPort = (\<lambda>u s. u\<lparr>url_port := s\<rparr>), setPathname = (\<lambda>u s. u\<lparr>url_pathname := s\<rparr>),
     urlToString = (\<lambda>u. url_protocol u @ js ''//'' @ urlHost u @ url_pathname u @ url_search u @ url_hash u)\<rparr>"

lemma exampleLr:
  "parseC2spTlogLr asciiPlatform asciiOps (js ''c2sp-tlog:testnet:https://log.example#s@3'') =
     Inr \<lparr>lr_scope = js ''testnet'', lr_logPrefix = js ''https://log.example'', lr_streamId = js ''s'', lr_origin = js ''log.example'',
       lr_lr = js ''c2sp-tlog:testnet:https://log.example#s'', lr_entryIndex = Some 3\<rparr>"
  by (simp add: parseC2spTlogLr_def METHOD_def starts_with_def validateScope_def last_index_of_def canonicalLogPrefix_def rawPathOf_def
      hasDotSegment_def isSchemeUnit_def isWhite_def asciiPlatform_def asciiOps_def asciiUrl_def isAlnum_def isLower_def isUpper_def isDigit_def
      asciiLower_def ends_with_def urlHost_def streamIdText_def isUnreserved_def parseIndex_def canonicalDecimal_def digitsValue_def MAX_SAFE_def
      checkpointOrigin_def validateSignedNoteName_def Let_def)

theorem parseC2spTlogLr_bound_witness:
  "\<exists>r. parseC2spTlogLr asciiPlatform asciiOps (js ''c2sp-tlog:testnet:https://log.example#s'') = Inr r \<and> lr_entryIndex r = None"
  using parseC2spTlogLr_bound [OF exampleLr] by auto

end
