(* ===== verification/HttpFields.thy ===== *)
theory HttpFields
  imports Jwks Utf8 Lr
begin

text \<open>
  The building blocks of RFC 9421 signatures (\<open>http-signatures/src/index.ts\<close>): messages, structured
  fields, covered components, signature parameters and the signature base. The package
  \<open>structured-headers\<close> and the query parser of the platform are parameters, fields of an \<open>http_lib\<close>.
\<close>

section \<open>Structured fields\<close>

datatype bare_item =
    SfString jstring
  | SfNumber jsnum
  | SfBool bool
  | SfBytes bytes
  | SfToken jstring
  | SfDate jsnum
  | SfDisplay jstring

type_synonym sf_params = "(jstring \<times> bare_item) list"
type_synonym sf_item = "bare_item \<times> sf_params"

datatype sf_member =
    SfItem sf_item
  | SfInner "sf_item list" sf_params

type_synonym dictionary = "(jstring \<times> sf_member) list"

record http_lib =
  parseStructuredDictionary :: "jstring \<Rightarrow> js_error + dictionary"
  serializeStructuredItem :: "sf_item \<Rightarrow> js_error + jstring"
  serializeStructuredInnerList :: "sf_item list \<Rightarrow> sf_params \<Rightarrow> js_error + jstring"
  serializeStructuredParameters :: "sf_params \<Rightarrow> js_error + jstring"
  searchEntries :: "jstring \<Rightarrow> (jstring \<times> jstring) list"
  roundSum :: "rat \<Rightarrow> rat \<Rightarrow> rat"

text \<open>\<open>isInnerList\<close> and \<open>isItem\<close> tell the two forms of a member apart; here they are its constructors.\<close>

fun isInnerList :: "sf_member \<Rightarrow> bool" where
  "isInnerList (SfInner _ _) = True"
| "isInnerList (SfItem _) = False"

definition isItem :: "sf_member \<Rightarrow> bool" where
  "isItem member \<longleftrightarrow> \<not> isInnerList member"

definition serializeStructuredMember :: "http_lib \<Rightarrow> sf_member \<Rightarrow> js_error + jstring" where
  "serializeStructuredMember L member =
     (case member of SfInner items params \<Rightarrow> serializeStructuredInnerList L items params | SfItem item \<Rightarrow> serializeStructuredItem L item)"

text \<open>Values that RFC 8941 does not have.\<close>

fun onlyRfc9651 :: "bare_item \<Rightarrow> bool" where
  "onlyRfc9651 (SfDate _) = True"
| "onlyRfc9651 (SfDisplay _) = True"
| "onlyRfc9651 _ = False"

section \<open>Messages\<close>

text \<open>
  \<open>Headers\<close>: the value of every field, by its lower-case name. \<open>set\<close> rejects values that are no byte
  strings or that contain NUL, LF or CR, and strips white space around the value.
\<close>

type_synonym headers = "jstring \<rightharpoonup> jstring"

definition headersGet :: "headers \<Rightarrow> string \<Rightarrow> jstring option" where
  "headersGet h name = h (asciiLower (js name))"

definition byteString :: "jstring \<Rightarrow> bool" where
  "byteString v \<longleftrightarrow> (\<forall>c \<in> set v. c < 256 \<and> c \<notin> {0, 10, 13})"

definition stripHttpSpace :: "jstring \<Rightarrow> jstring" where
  "stripHttpSpace v = rev (dropWhile (\<lambda>c. c \<in> {9, 10, 13, 32}) (rev (dropWhile (\<lambda>c. c \<in> {9, 10, 13, 32}) v)))"

definition headersSet :: "headers \<Rightarrow> string \<Rightarrow> jstring \<Rightarrow> js_error + headers" where
  "headersSet h name v =
     (if \<not> byteString (stripHttpSpace v) then Inl (JsTypeError ''invalid header value'')
      else Inr (h(asciiLower (js name) \<mapsto> stripHttpSpace v)))"

definition headersAppend :: "headers \<Rightarrow> string \<Rightarrow> jstring \<Rightarrow> js_error + headers" where
  "headersAppend h name v =
     (if \<not> byteString (stripHttpSpace v) then Inl (JsTypeError ''invalid header value'')
      else Inr (h(asciiLower (js name) \<mapsto>
        (case headersGet h name of None \<Rightarrow> stripHttpSpace v | Some old \<Rightarrow> old @ js '', '' @ stripHttpSpace v))))"

text \<open>A body is a stream: the results of its reads, of which the last may be a failure.\<close>

type_synonym body = "(js_error + bytes) list"

record http_request =
  rq_method :: jstring
  rq_url :: jstring
  rq_headers :: headers
  rq_body :: "body option"
  rq_bodyUsed :: bool

record http_response =
  rs_status :: int
  rs_statusText :: jstring
  rs_headers :: headers
  rs_body :: "body option"
  rs_bodyUsed :: bool

datatype message = RequestMessage http_request | ResponseMessage http_response

type_synonym http_message = "message \<times> http_request option"

fun messageHeaders :: "message \<Rightarrow> headers" where
  "messageHeaders (RequestMessage r) = rq_headers r"
| "messageHeaders (ResponseMessage r) = rs_headers r"

section \<open>Components\<close>

datatype parameter = PString jstring | PNumber jsnum | PBool bool

type_synonym component_params = "(jstring \<times> parameter) list"

datatype ComponentIdentifier =
    Named jstring
  | WithParams jstring "component_params option"

fun paramEq :: "parameter \<Rightarrow> parameter \<Rightarrow> bool" where
  "paramEq (PString s) (PString t) = (s = t)"
| "paramEq (PNumber m) (PNumber n) = numEq m n"
| "paramEq (PBool a) (PBool b) = (a = b)"
| "paramEq _ _ = False"

fun componentName :: "ComponentIdentifier \<Rightarrow> jstring" where
  "componentName (Named n) = n"
| "componentName (WithParams n _) = n"

fun componentParams :: "ComponentIdentifier \<Rightarrow> component_params" where
  "componentParams (Named _) = []"
| "componentParams (WithParams _ ps) = (case ps of None \<Rightarrow> [] | Some p \<Rightarrow> p)"

definition paramOf :: "ComponentIdentifier \<Rightarrow> string \<Rightarrow> parameter option" where
  "paramOf c name = map_of (componentParams c) (js name)"

definition isReq :: "ComponentIdentifier \<Rightarrow> bool" where
  "isReq c \<longleftrightarrow> paramOf c ''req'' = Some (PBool True)"

definition sameComponent :: "ComponentIdentifier \<Rightarrow> ComponentIdentifier \<Rightarrow> bool" where
  "sameComponent a b \<longleftrightarrow> componentName a = componentName b \<and>
     length (componentParams a) = length (componentParams b) \<and>
     (\<forall>(key, v) \<in> set (componentParams a). case map_of (componentParams b) key of None \<Rightarrow> False | Some w \<Rightarrow> paramEq v w)"

definition hasComponentNamed :: "ComponentIdentifier list \<Rightarrow> string \<Rightarrow> bool" where
  "hasComponentNamed components name \<longleftrightarrow> (\<exists>c \<in> set components. componentName c = js name)"

definition KNOWN_DERIVED_COMPONENTS :: "jstring list" where
  "KNOWN_DERIVED_COMPONENTS = [js ''@method'', js ''@authority'', js ''@target-uri'', js ''@path'', js ''@query'',
     js ''@query-param'', js ''@status'', js ''@request-target'', js ''@scheme'']"

definition isLowercaseHttpFieldName :: "jstring \<Rightarrow> bool" where
  "isLowercaseHttpFieldName name \<longleftrightarrow> name \<noteq> [] \<and> (\<forall>c \<in> set name. isLower c \<or> isDigit c \<or> c \<in> set (js ''!#$%&*+-.^_|~'') \<union> {39, 96})"

definition allowedParams :: "jstring \<Rightarrow> jstring list" where
  "allowedParams name =
     (if name = js ''@query-param'' then [js ''name'', js ''req'']
      else if name = js ''@status'' then []
      else if name \<in> set KNOWN_DERIVED_COMPONENTS then [js ''req'']
      else [js ''key'', js ''req''])"

definition nonEmptyParam :: "parameter option \<Rightarrow> bool" where
  "nonEmptyParam p = (case p of Some (PString s) \<Rightarrow> s \<noteq> [] | _ \<Rightarrow> False)"

text \<open>The check of the run-time shape of an identifier is what the type \<open>ComponentIdentifier\<close> expresses.\<close>

definition validateComponentIdentifier :: "ComponentIdentifier \<Rightarrow> js_error + unit" where
  "validateComponentIdentifier c =
     (let name = componentName c in
      if name \<notin> set KNOWN_DERIVED_COMPONENTS \<and> \<not> isLowercaseHttpFieldName name then Inl (ArgumentError ''unknown signature component'')
      else if name = js ''@query-param'' \<and> \<not> nonEmptyParam (paramOf c ''name'')
        then Inl (ArgumentError ''@query-param requires non-empty string name parameter'')
      else if name \<notin> set KNOWN_DERIVED_COMPONENTS \<and> paramOf c ''key'' \<noteq> None \<and> \<not> nonEmptyParam (paramOf c ''key'')
        then Inl (ArgumentError ''field component key parameter must be a non-empty string'')
      else eachE (\<lambda>(parameter, v).
        if parameter \<notin> set (allowedParams name) then Inl (ArgumentError ''unsupported component parameter'')
        else if parameter = js ''req'' \<and> v \<noteq> PBool True then Inl (ArgumentError ''component req parameter must be Boolean true'')
        else Inr ()) (componentParams c))"

text \<open>The loop of \<open>validateComponents\<close>, with the components before the current one.\<close>

fun validateFrom :: "ComponentIdentifier list \<Rightarrow> ComponentIdentifier list \<Rightarrow> js_error + unit" where
  "validateFrom before [] = Inr ()"
| "validateFrom before (c # cs) =
     bindE (validateComponentIdentifier c) (\<lambda>_.
     if \<exists>b \<in> set before. sameComponent b c then Inl (ArgumentError ''duplicate covered component'')
     else validateFrom (before @ [c]) cs)"

definition validateComponents :: "ComponentIdentifier list \<Rightarrow> js_error + unit" where
  "validateComponents components = validateFrom [] components"

section \<open>Component values\<close>

definition normalizedAuthority :: "platform \<Rightarrow> url \<Rightarrow> jstring" where
  "normalizedAuthority P u =
     (if url_port u \<noteq> [] then toLowerCase P (url_hostname u) @ 58 # url_port u else toLowerCase P (url_hostname u))"

text \<open>\<open>encodeURIComponent\<close>: the octets of every code point but the unreserved ones; a lone surrogate raises.\<close>

definition percentByte :: "byte \<Rightarrow> jstring" where
  "percentByte b = 37 # asciiUpper (byteHex b)"

definition uriUnescaped :: "nat \<Rightarrow> bool" where
  "uriUnescaped c \<longleftrightarrow> isAlnum c \<or> c \<in> {45, 95, 46, 33, 126, 42, 39, 40, 41}"

definition encodeURIComponent :: "jstring \<Rightarrow> js_error + jstring" where
  "encodeURIComponent s =
     (if \<not> validUnicode s then Inl (PlainError ''URI malformed'')
      else Inr (concat (map (\<lambda>c. if uriUnescaped c then [c] else concat (map percentByte (utf8CodePoint c))) (codePoints s))))"

definition formPercentEncode :: "jstring \<Rightarrow> js_error + jstring" where
  "formPercentEncode s = bindE (encodeURIComponent s) (\<lambda>e.
     Inr (concat (map (\<lambda>c. if c \<in> {33, 39, 40, 41, 126} then percentByte (of_nat c) else [c]) e)))"

fun queryParts :: "http_lib \<Rightarrow> jstring \<Rightarrow> jstring list \<Rightarrow> js_error + jstring list" where
  "queryParts L paramName [] = Inr []"
| "queryParts L paramName (part # parts) =
     (case searchEntries L part of
        [] \<Rightarrow> queryParts L paramName parts
      | (name, v) # _ \<Rightarrow>
          bindE (formPercentEncode name) (\<lambda>n.
          if n = paramName then bindE (formPercentEncode v) (\<lambda>w. bindE (queryParts L paramName parts) (\<lambda>ws. Inr (w # ws)))
          else queryParts L paramName parts))"

definition canonicalQueryParamValues :: "http_lib \<Rightarrow> jstring \<Rightarrow> jstring \<Rightarrow> js_error + jstring list" where
  "canonicalQueryParamValues L search paramName =
     (let query = (if starts_with [63] search then tl search else search) in
      if query = [] then Inr [] else queryParts L paramName (split_on 38 query))"

text \<open>The source of a component: the message, or with \<open>req\<close> the request that a response answers.\<close>

definition componentSource :: "http_message \<Rightarrow> ComponentIdentifier \<Rightarrow> js_error + message" where
  "componentSource m c =
     (if isReq c then
        (case m of
           (ResponseMessage _, Some request) \<Rightarrow> Inr (RequestMessage request)
         | _ \<Rightarrow> Inl (ArgumentError ''covered component requires response request context''))
      else Inr (fst m))"

definition fieldValue :: "http_lib \<Rightarrow> message \<Rightarrow> ComponentIdentifier \<Rightarrow> js_error + jstring" where
  "fieldValue L source c =
     (case messageHeaders source (asciiLower (componentName c)) of
        None \<Rightarrow> Inl (ArgumentError ''covered component not present in message'')
      | Some val \<Rightarrow>
          (case paramOf c ''key'' of
             Some (PString key) \<Rightarrow>
               bindE (catchE (parseStructuredDictionary L val) (\<lambda>_. Inl (ArgumentError ''covered component is not a valid structured field dictionary''))) (\<lambda>dict.
               case map_of dict key of
                 None \<Rightarrow> Inl (ArgumentError ''covered component missing dictionary key'')
               | Some member \<Rightarrow> serializeStructuredMember L member)
           | _ \<Rightarrow> Inr val))"

definition derivedValue :: "platform \<Rightarrow> http_lib \<Rightarrow> http_request \<Rightarrow> url \<Rightarrow> ComponentIdentifier \<Rightarrow> js_error + jstring" where
  "derivedValue P L req u c =
     (let name = componentName c in
      if name = js ''@method'' then Inr (rq_method req)
      else if name = js ''@authority'' then Inr (normalizedAuthority P u)
      else if name = js ''@target-uri'' then Inr (url_protocol u @ js ''//'' @ normalizedAuthority P u @ url_pathname u @ url_search u)
      else if name = js ''@path'' then Inr (url_pathname u)
      else if name = js ''@query'' then Inr (if url_search u = [] then js ''?'' else url_search u)
      else if name = js ''@query-param'' then
        (case paramOf c ''name'' of
           Some (PString paramName) \<Rightarrow>
             bindE (canonicalQueryParamValues L (url_search u) paramName) (\<lambda>values.
             case values of
               [] \<Rightarrow> Inl (ArgumentError ''covered query parameter not present in request'')
             | [v] \<Rightarrow> Inr v
             | _ \<Rightarrow> Inl (ArgumentError ''covered query parameter appears more than once''))
         | _ \<Rightarrow> Inl (ArgumentError ''@query-param requires non-empty string name parameter''))
      else if name = js ''@scheme'' then Inr (remove1 58 (url_protocol u))
      else Inr (url_pathname u @ url_search u))"

definition extractComponentValue :: "platform \<Rightarrow> http_lib \<Rightarrow> http_message \<Rightarrow> ComponentIdentifier \<Rightarrow> js_error + jstring" where
  "extractComponentValue P L m c =
     bindE (validateComponentIdentifier c) (\<lambda>_.
     bindE (componentSource m c) (\<lambda>source.
     let name = componentName c in
     case source of
       RequestMessage req \<Rightarrow>
         (case urlParse P (rq_url req) of
            None \<Rightarrow> Inl (JsTypeError ''Invalid URL'')
          | Some u \<Rightarrow>
              if name = js ''@status'' then Inl (ArgumentError ''@status is only available on responses'')
              else if name \<in> set KNOWN_DERIVED_COMPONENTS then derivedValue P L req u c
              else fieldValue L source c)
     | ResponseMessage res \<Rightarrow>
         if name = js ''@status'' then Inr (numToString P (Fin (of_int (rs_status res))))
         else if name \<in> set KNOWN_DERIVED_COMPONENTS then Inl (ArgumentError ''component is only available on requests'')
         else fieldValue L source c))"

section \<open>Signature parameters\<close>

record SignatureParams =
  sp_label :: jstring
  sp_components :: "ComponentIdentifier list"
  sp_keyId :: "jstring option"
  sp_alg :: "jstring option"
  sp_created :: "int option"
  sp_expires :: "int option"
  sp_nonce :: "jstring option"
  sp_tag :: "jstring option"
  sp_parameters :: "sf_params option"

fun toBare :: "parameter \<Rightarrow> bare_item" where
  "toBare (PString s) = SfString s"
| "toBare (PNumber n) = SfNumber n"
| "toBare (PBool b) = SfBool b"

definition toStructuredParams :: "component_params \<Rightarrow> sf_params" where
  "toStructuredParams params = map (\<lambda>(key, v). (key, toBare v)) params"

definition componentItem :: "ComponentIdentifier \<Rightarrow> sf_item" where
  "componentItem c = (SfString (componentName c), toStructuredParams (componentParams c))"

definition serializeComponentIdentifier :: "http_lib \<Rightarrow> ComponentIdentifier \<Rightarrow> js_error + jstring" where
  "serializeComponentIdentifier L c = serializeStructuredItem L (componentItem c)"

definition KNOWN_PARAMETERS :: "jstring list" where
  "KNOWN_PARAMETERS = [js ''keyid'', js ''alg'', js ''created'', js ''expires'', js ''nonce'', js ''tag'']"

text \<open>\<open>typeof value === 'number' && Number.isInteger(value)\<close>, with the integer.\<close>

fun integerItem :: "bare_item \<Rightarrow> int option" where
  "integerItem (SfNumber n) = (case finiteNum n of None \<Rightarrow> None | Some q \<Rightarrow> if of_int \<lfloor>q\<rfloor> = q then Some \<lfloor>q\<rfloor> else None)"
| "integerItem _ = None"

fun stringItem :: "bare_item \<Rightarrow> jstring option" where
  "stringItem (SfString s) = Some s"
| "stringItem _ = None"

fun checkedParameters :: "jstring list \<Rightarrow> sf_params \<Rightarrow> js_error + sf_params" where
  "checkedParameters seen [] = Inr []"
| "checkedParameters seen ((name, v) # ps) =
     (if onlyRfc9651 v then Inl (ArgumentError ''RFC 9651-only signature parameters are unsupported'')
      else if name \<in> set KNOWN_PARAMETERS \<and> name \<in> set seen then Inl (ArgumentError ''duplicate Signature-Input parameter'')
      else if name \<in> {js ''keyid'', js ''alg'', js ''nonce'', js ''tag''} \<and> stringItem v = None
        then Inl (ArgumentError ''Signature-Input parameter must be a string'')
      else if name \<in> {js ''created'', js ''expires''} \<and> integerItem v = None
        then Inl (ArgumentError ''Signature-Input parameter must be an integer'')
      else bindE (checkedParameters (name # seen) ps) (\<lambda>out. Inr ((name, v) # out)))"

definition stringParam :: "string \<Rightarrow> jstring option \<Rightarrow> sf_params" where
  "stringParam name v = (case v of None \<Rightarrow> [] | Some s \<Rightarrow> [(js name, SfString s)])"

definition integerParam :: "string \<Rightarrow> int option \<Rightarrow> sf_params" where
  "integerParam name v = (case v of None \<Rightarrow> [] | Some i \<Rightarrow> [(js name, SfNumber (Fin (of_int i)))])"

definition signatureParameterList :: "SignatureParams \<Rightarrow> js_error + sf_params" where
  "signatureParameterList params =
     (case sp_parameters params of
        Some ps \<Rightarrow> checkedParameters [] ps
      | None \<Rightarrow> Inr (stringParam ''keyid'' (sp_keyId params) @ stringParam ''alg'' (sp_alg params) @ integerParam ''created'' (sp_created params) @
          stringParam ''nonce'' (sp_nonce params) @ integerParam ''expires'' (sp_expires params) @ stringParam ''tag'' (sp_tag params)))"

definition serializeSigParams :: "http_lib \<Rightarrow> SignatureParams \<Rightarrow> js_error + jstring" where
  "serializeSigParams L params =
     bindE (serializeStructuredInnerList L (map componentItem (sp_components params)) []) (\<lambda>innerList.
     bindE (signatureParameterList params) (\<lambda>ps.
     bindE (mapE (\<lambda>p. serializeStructuredParameters L [p]) ps) (\<lambda>texts.
     Inr (innerList @ concat texts))))"

definition baseLine :: "platform \<Rightarrow> http_lib \<Rightarrow> http_message \<Rightarrow> ComponentIdentifier \<Rightarrow> js_error + jstring" where
  "baseLine P L m c =
     bindE (serializeComponentIdentifier L c) (\<lambda>i.
     bindE (extractComponentValue P L m c) (\<lambda>v. Inr (i @ js '': '' @ v)))"

definition paramsLine :: "jstring \<Rightarrow> jstring" where
  "paramsLine t = 34 # js ''@signature-params'' @ 34 # js '': '' @ t"

definition signatureBase :: "platform \<Rightarrow> http_lib \<Rightarrow> http_message \<Rightarrow> SignatureParams \<Rightarrow> js_error + jstring" where
  "signatureBase P L m params =
     bindE (validateComponents (sp_components params)) (\<lambda>_.
     bindE (mapE (baseLine P L m) (sp_components params)) (\<lambda>ls.
     bindE (serializeSigParams L params) (\<lambda>t. Inr (join [10] (ls @ [paramsLine t])))))"

definition buildSignatureInput :: "platform \<Rightarrow> http_lib \<Rightarrow> http_message \<Rightarrow> SignatureParams \<Rightarrow> js_error + bytes" where
  "buildSignatureInput P L m params = bindE (signatureBase P L m params) (\<lambda>s. Inr (utf8 s))"

end
