(* ===== verification/HttpParsing.thy ===== *)
theory HttpParsing
  imports HttpFields
begin

text \<open>
  Reading of the fields that carry signatures (\<open>http-signatures/src/index.ts\<close>): the split of a
  dictionary, the occurrences of parameters, \<open>Signature-Input\<close>, \<open>Signature\<close>, \<open>Content-Digest\<close>, and the
  directives of \<open>Cache-Control\<close>.
\<close>

section \<open>Dictionaries\<close>

definition malformedField :: js_error where
  "malformedField = failWith ''malformed structured field header'' RecordInvalid"

text \<open>The loop of \<open>splitDictionary\<close>; \<open>part\<close> is the text since \<open>start\<close>, in reverse.\<close>

fun splitMembers :: "jstring \<Rightarrow> jstring \<Rightarrow> int \<Rightarrow> bool \<Rightarrow> bool \<Rightarrow> bool \<Rightarrow> js_error + jstring list" where
  "splitMembers [] part depth inString inBytes escape =
     (if inString \<or> inBytes \<or> depth \<noteq> 0 \<or> escape then Inl malformedField
      else Inr (let tail = trim (rev part) in if tail = [] then [] else [tail]))"
| "splitMembers (ch # rest) part depth inString inBytes escape =
     (if escape then splitMembers rest (ch # part) depth inString inBytes False
      else if inString \<and> ch = 92 then splitMembers rest (ch # part) depth inString inBytes True
      else
        let inString' = (if \<not> inBytes \<and> ch = 34 then \<not> inString else inString);
            inBytes' = (if \<not> inString' \<and> ch = 58 then \<not> inBytes else inBytes) in
        if inString' \<or> inBytes' then splitMembers rest (ch # part) depth inString' inBytes' False
        else if ch = 44 \<and> depth = 0 then bindE (splitMembers rest [] depth inString' inBytes' False) (\<lambda>ps. Inr (trim (rev part) # ps))
        else
          let depth' = (if ch = 40 then depth + 1 else if ch = 41 then depth - 1 else depth) in
          if depth' < 0 then Inl malformedField else splitMembers rest (ch # part) depth' inString' inBytes' False)"

definition splitDictionary :: "jstring \<Rightarrow> js_error + jstring list" where
  "splitDictionary headerValue = splitMembers headerValue [] 0 False False False"

definition assertHeaderBound :: "jstring \<Rightarrow> js_error + unit" where
  "assertHeaderBound v = (if length v > 16 * 1024 then Inl (failWith ''signature header exceeds 16 KiB'' RecordInvalid) else Inr ())"

fun memberValues :: "sf_member \<Rightarrow> bare_item list" where
  "memberValues (SfInner items params) = map snd params @ concat (map (\<lambda>(v, ps). v # map snd ps) items)"
| "memberValues (SfItem (v, params)) = map snd params @ [v]"

definition parseDictionaryField :: "http_lib \<Rightarrow> jstring \<Rightarrow> js_error + dictionary" where
  "parseDictionaryField L headerValue =
     bindE (assertHeaderBound headerValue) (\<lambda>_.
     catchE
       (bindE (parseStructuredDictionary L headerValue) (\<lambda>dictionary.
        bindE (splitDictionary headerValue) (\<lambda>parts.
        if length dictionary \<noteq> length parts then Inl (PlainError ''duplicate dictionary member'')
        else if \<exists>m \<in> set dictionary. \<exists>v \<in> set (memberValues (snd m)). onlyRfc9651 v then Inl (PlainError ''RFC 9651-only values are unsupported'')
        else Inr dictionary)))
       (\<lambda>_. Inl (failWith ''malformed structured field dictionary'' RecordInvalid)))"

section \<open>Parameters\<close>

text \<open>The text after the parenthesis that closes the inner list of a member.\<close>

fun afterInnerList :: "jstring \<Rightarrow> bool \<Rightarrow> bool \<Rightarrow> jstring option" where
  "afterInnerList [] inString escape = None"
| "afterInnerList (ch # rest) inString escape =
     (if escape then afterInnerList rest inString False
      else if inString \<and> ch = 92 then afterInnerList rest inString True
      else if ch = 34 then afterInnerList rest (\<not> inString) False
      else if \<not> inString \<and> ch = 41 then Some rest
      else afterInnerList rest inString False)"

definition parametersText :: "jstring \<Rightarrow> jstring" where
  "parametersText member = (case afterInnerList (tl member) False False of None \<Rightarrow> member | Some rest \<Rightarrow> rest)"

fun quotedRest :: "jstring \<Rightarrow> jstring" where
  "quotedRest (c # d # rest) = (if c = 92 then quotedRest rest else if c = 34 then d # rest else quotedRest (d # rest))"
| "quotedRest _ = []"

definition isKeyUnit :: "nat \<Rightarrow> bool" where
  "isKeyUnit c \<longleftrightarrow> isLower c \<or> isDigit c \<or> c \<in> {95, 46, 42, 45}"

text \<open>What is left after the segment of a parameter, from behind its semicolon.\<close>

definition segmentRest :: "jstring \<Rightarrow> jstring" where
  "segmentRest s =
     (let r = dropWhile isKeyUnit s;
          r = (if starts_with [61] r then tl r else r) in
      if starts_with [34] r then quotedRest (tl r)
      else if starts_with [37, 34] r then quotedRest (drop 2 r)
      else if starts_with [58] r then (case index_of 58 (tl r) of None \<Rightarrow> [] | Some i \<Rightarrow> drop (Suc i) (tl r))
      else dropWhile (\<lambda>c. c \<noteq> 59) r)"

lemma quotedRest_length: "length (quotedRest s) \<le> length s"
  by (induction s rule: quotedRest.induct) auto

lemma segmentRest_length: "length (segmentRest s) \<le> length s"
proof -
  define r where "r = dropWhile isKeyUnit s"
  define q where "q = (if starts_with [61] r then tl r else r)"
  have "length q \<le> length s" using length_dropWhile_le [of isKeyUnit s] by (auto simp: q_def r_def)
  moreover have "length (quotedRest (tl q)) \<le> length q" "length (quotedRest (drop 2 q)) \<le> length q" "length (dropWhile (\<lambda>c. c \<noteq> 59) q) \<le> length q"
    using quotedRest_length [of "tl q"] quotedRest_length [of "drop 2 q"] by (simp_all add: length_dropWhile_le)
  moreover have "segmentRest s = (if starts_with [34] q then quotedRest (tl q) else if starts_with [37, 34] q then quotedRest (drop 2 q)
      else if starts_with [58] q then (case index_of 58 (tl q) of None \<Rightarrow> [] | Some i \<Rightarrow> drop (Suc i) (tl q)) else dropWhile (\<lambda>c. c \<noteq> 59) q)"
    by (simp only: segmentRest_def Let_def q_def r_def)
  ultimately show ?thesis by (auto split: option.splits)
qed

function scanParameterSegments :: "jstring \<Rightarrow> jstring list" where
  "scanParameterSegments s =
     (case dropWhile (\<lambda>c. c = 32) s of
        [] \<Rightarrow> []
      | c # rest \<Rightarrow>
          if c \<noteq> 59 then []
          else trim (take (Suc (length rest - length (segmentRest rest))) (c # rest)) # scanParameterSegments (segmentRest rest))"
  by pat_completeness auto
termination
proof (relation "measure length")
  fix s :: jstring and c rest
  assume "dropWhile (\<lambda>c. c = 32) s = c # rest"
  then have "length rest < length s" using length_dropWhile_le [of "\<lambda>c. c = 32" s] by simp
  then show "(segmentRest rest, s) \<in> measure length" using segmentRest_length [of rest] by simp
qed simp

declare scanParameterSegments.simps [simp del]

definition malformedParameter :: js_error where
  "malformedParameter = failWith ''malformed Signature-Input parameter'' RecordInvalid"

definition responseError :: "string \<Rightarrow> js_error" where
  "responseError message = failWith message SignatureInvalid"

fun isNumberItem :: "bare_item \<Rightarrow> bool" where
  "isNumberItem (SfNumber _) = True"
| "isNumberItem _ = False"

definition segmentParameter :: "http_lib \<Rightarrow> bool \<Rightarrow> jstring \<Rightarrow> js_error + jstring \<times> bare_item" where
  "segmentParameter L integerTimestamps segment =
     bindE (catchE (parseStructuredDictionary L (js ''x=()'' @ segment)) (\<lambda>_. Inl malformedParameter)) (\<lambda>dictionary.
     case map_of dictionary (js ''x'') of
       Some (SfInner _ [(name, v)]) \<Rightarrow>
         if integerTimestamps \<and> name \<in> {js ''created'', js ''expires''} \<and> isNumberItem v \<and> 46 \<in> set segment
         then Inl (responseError ''response timestamps must be Structured Field integers'')
         else Inr (name, v)
     | _ \<Rightarrow> Inl malformedParameter)"

definition parseSignatureParameterOccurrences :: "http_lib \<Rightarrow> jstring \<Rightarrow> bool \<Rightarrow> js_error + sf_params" where
  "parseSignatureParameterOccurrences L member integerTimestamps =
     mapE (segmentParameter L integerTimestamps) (scanParameterSegments (parametersText member))"

definition signatureStringParam :: "bare_item \<Rightarrow> js_error + jstring" where
  "signatureStringParam v = (case stringItem v of None \<Rightarrow> Inl malformedParameter | Some s \<Rightarrow> Inr s)"

definition signatureIntegerParam :: "bare_item \<Rightarrow> js_error + int" where
  "signatureIntegerParam v = (case integerItem v of None \<Rightarrow> Inl malformedParameter | Some i \<Rightarrow> Inr i)"

definition applyParam :: "SignatureParams \<Rightarrow> jstring \<Rightarrow> bare_item \<Rightarrow> js_error + SignatureParams" where
  "applyParam parsed key v =
     (if key = js ''keyid'' then bindE (signatureStringParam v) (\<lambda>s. Inr (parsed\<lparr>sp_keyId := Some s\<rparr>))
      else if key = js ''alg'' then bindE (signatureStringParam v) (\<lambda>s. Inr (parsed\<lparr>sp_alg := Some s\<rparr>))
      else if key = js ''created'' then bindE (signatureIntegerParam v) (\<lambda>i. Inr (parsed\<lparr>sp_created := Some i\<rparr>))
      else if key = js ''nonce'' then bindE (signatureStringParam v) (\<lambda>s. Inr (parsed\<lparr>sp_nonce := Some s\<rparr>))
      else if key = js ''expires'' then bindE (signatureIntegerParam v) (\<lambda>i. Inr (parsed\<lparr>sp_expires := Some i\<rparr>))
      else if key = js ''tag'' then bindE (signatureStringParam v) (\<lambda>s. Inr (parsed\<lparr>sp_tag := Some s\<rparr>))
      else Inr parsed)"

fun applySignatureInputParams :: "jstring list \<Rightarrow> SignatureParams \<Rightarrow> sf_params \<Rightarrow> js_error + SignatureParams" where
  "applySignatureInputParams seenKnown parsed [] = Inr parsed"
| "applySignatureInputParams seenKnown parsed ((key, v) # ps) =
     (if onlyRfc9651 v then Inl (failWith ''unsupported structured field bare value'' RecordInvalid)
      else if key \<in> set KNOWN_PARAMETERS \<and> key \<in> set seenKnown then Inl (failWith ''duplicate Signature-Input parameter'' RecordInvalid)
      else bindE (applyParam parsed key v) (\<lambda>parsed'. applySignatureInputParams (key # seenKnown) parsed' ps))"

section \<open>Signature-Input and Signature\<close>

definition unsupportedValue :: js_error where
  "unsupportedValue = failWith ''unsupported structured field bare value'' RecordInvalid"

fun fromBare :: "bare_item \<Rightarrow> js_error + parameter" where
  "fromBare (SfString s) = Inr (PString s)"
| "fromBare (SfBool b) = Inr (PBool b)"
| "fromBare (SfNumber n) = (if integerItem (SfNumber n) \<noteq> None then Inr (PNumber n) else Inl unsupportedValue)"
| "fromBare _ = Inl unsupportedValue"

definition fromStructuredParams :: "sf_params \<Rightarrow> js_error + component_params" where
  "fromStructuredParams params = mapE (\<lambda>(key, v). bindE (fromBare v) (\<lambda>p. Inr (key, p))) params"

definition parseComponentItem :: "sf_item \<Rightarrow> js_error + ComponentIdentifier" where
  "parseComponentItem item =
     (case item of
        (SfString rawName, rawParams) \<Rightarrow>
          bindE (fromStructuredParams rawParams) (\<lambda>params.
          Inr (if params \<noteq> [] then WithParams rawName (Some params) else Named rawName))
      | _ \<Rightarrow> Inl (failWith ''malformed Signature-Input component'' RecordInvalid))"

definition malformedInput :: js_error where
  "malformedInput = failWith ''malformed Signature-Input header'' RecordInvalid"

definition afterEquals :: "jstring \<Rightarrow> jstring" where
  "afterEquals entry = trim (case index_of 61 entry of None \<Rightarrow> entry | Some i \<Rightarrow> drop (Suc i) entry)"

definition parseInputMember :: "http_lib \<Rightarrow> (jstring \<times> sf_member) \<times> jstring \<Rightarrow> js_error + jstring \<times> SignatureParams" where
  "parseInputMember L x =
     (case x of
        ((label, SfInner items _), entry) \<Rightarrow>
          if length items > 64 then Inl (failWith ''too many covered components'' RecordInvalid)
          else
            bindE (mapE parseComponentItem items) (\<lambda>components.
            bindE (catchE (validateComponents components) (\<lambda>_. Inl (failWith ''invalid covered components'' RecordInvalid))) (\<lambda>_.
            bindE (parseSignatureParameterOccurrences L (afterEquals entry) False) (\<lambda>parameters.
            bindE (applySignatureInputParams []
                \<lparr>sp_label = label, sp_components = components, sp_keyId = None, sp_alg = None, sp_created = None, sp_expires = None,
                 sp_nonce = None, sp_tag = None, sp_parameters = Some parameters\<rparr> parameters) (\<lambda>parsed.
            Inr (label, parsed)))))
      | _ \<Rightarrow> Inl malformedInput)"

definition parseSignatureInput :: "http_lib \<Rightarrow> jstring \<Rightarrow> js_error + (jstring \<times> SignatureParams) list" where
  "parseSignatureInput L headerValue =
     bindE (assertHeaderBound headerValue) (\<lambda>_.
     bindE (catchE (bindE (splitDictionary headerValue) (\<lambda>entries.
        bindE (parseStructuredDictionary L headerValue) (\<lambda>dictionary. Inr (entries, dictionary)))) (\<lambda>_. Inl malformedInput)) (\<lambda>(entries, dictionary).
     if length dictionary > 16 \<or> length dictionary \<noteq> length entries then Inl malformedInput
     else mapE (parseInputMember L) (zip dictionary entries)))"

definition malformedSignature :: js_error where
  "malformedSignature = failWith ''malformed Signature header'' RecordInvalid"

definition signatureMember :: "jstring \<times> sf_member \<Rightarrow> js_error + jstring \<times> bytes" where
  "signatureMember m = (case m of (label, SfItem (SfBytes bs, [])) \<Rightarrow> Inr (label, bs) | _ \<Rightarrow> Inl malformedSignature)"

definition parseSignature :: "http_lib \<Rightarrow> jstring \<Rightarrow> js_error + (jstring \<times> bytes) list" where
  "parseSignature L headerValue =
     bindE (assertHeaderBound headerValue) (\<lambda>_.
     bindE (catchE (bindE (splitDictionary headerValue) (\<lambda>entries.
        bindE (parseStructuredDictionary L headerValue) (\<lambda>dictionary. Inr (length entries, dictionary)))) (\<lambda>_. Inl malformedSignature)) (\<lambda>(entryCount, dictionary).
     if length dictionary > 16 \<or> length dictionary \<noteq> entryCount then Inl malformedSignature
     else mapE signatureMember dictionary))"

section \<open>Content-Digest\<close>

definition constantTimeEqual :: "bytes \<Rightarrow> bytes \<Rightarrow> bool" where
  "constantTimeEqual a b \<longleftrightarrow>
     (if length a \<noteq> length b then False
      else foldl (\<lambda>diff (x, y). or diff (xor x y)) 0 (zip a b) = 0)"

definition malformedDigest :: js_error where
  "malformedDigest = ArgumentError ''malformed Content-Digest header''"

text \<open>Only the first member of the dictionary is read.\<close>

definition parseContentDigest :: "http_lib \<Rightarrow> jstring \<Rightarrow> js_error + jstring \<times> bytes" where
  "parseContentDigest L headerValue =
     bindE (catchE (parseStructuredDictionary L headerValue) (\<lambda>_. Inl malformedDigest)) (\<lambda>dict.
     case dict of
       [] \<Rightarrow> Inl malformedDigest
     | (rawHashAlg, member) # _ \<Rightarrow>
         let hashAlg = asciiLower rawHashAlg in
         if hashAlg \<notin> {js ''sha-256'', js ''sha-512''} then Inl (ArgumentError ''unsupported hash algorithm in Content-Digest'')
         else case member of SfItem (SfBytes digest, _) \<Rightarrow> Inr (hashAlg, digest) | _ \<Rightarrow> Inl malformedDigest)"

definition otherDigestKey :: "ComponentIdentifier \<Rightarrow> bool" where
  "otherDigestKey c \<longleftrightarrow> componentName c = js ''content-digest'' \<and> paramOf c ''key'' \<noteq> None \<and> paramOf c ''key'' \<noteq> Some (PString (js ''sha-256''))"

definition parseSha256ContentDigest :: "http_lib \<Rightarrow> jstring \<Rightarrow> ComponentIdentifier list \<Rightarrow> js_error + bytes" where
  "parseSha256ContentDigest L headerValue components =
     (if \<exists>c \<in> set components. otherDigestKey c then Inl (failWith ''unsupported covered Content-Digest algorithm'' SignatureInvalid)
      else
        bindE (catchE (parseDictionaryField L headerValue) (\<lambda>_. Inl (failWith ''malformed Content-Digest header'' SignatureInvalid))) (\<lambda>dictionary.
        case map_of dictionary (js ''sha-256'') of
          Some (SfItem (SfBytes digest, [])) \<Rightarrow> Inr digest
        | _ \<Rightarrow> Inl (failWith ''DNSid HTTP signatures require sha-256 Content-Digest'' SignatureInvalid)))"

definition toStdBase64 :: "bytes \<Rightarrow> jstring" where
  "toStdBase64 bs = btoa (map unat bs)"

definition sha256Field :: "crypto \<Rightarrow> bytes \<Rightarrow> jstring" where
  "sha256Field C content = js ''sha-256=:'' @ toStdBase64 (hash256 C content) @ [58]"

section \<open>Cache-Control\<close>

definition isTokenUnit :: "nat \<Rightarrow> bool" where
  "isTokenUnit c \<longleftrightarrow> isAlnum c \<or> c \<in> set (js ''!#$%&*+.^_|~-'') \<union> {39, 96}"

text \<open>The rest after the quote that ends a quoted string.\<close>

fun quotedStringRest :: "jstring \<Rightarrow> jstring option" where
  "quotedStringRest [] = None"
| "quotedStringRest [c] = (if c = 34 then Some [] else None)"
| "quotedStringRest (c # d # rest) =
     (if c = 34 then Some (d # rest)
      else if c = 92 then (if d = 9 \<or> 0x20 \<le> d \<and> d \<le> 0x7e then quotedStringRest rest else None)
      else if c = 10 \<or> c = 13 then None
      else quotedStringRest (d # rest))"

definition argumentRest :: "jstring \<Rightarrow> jstring option" where
  "argumentRest s =
     (if starts_with [34] s then quotedStringRest (tl s)
      else if takeWhile isTokenUnit s \<noteq> [] then Some (dropWhile isTokenUnit s)
      else None)"

text \<open>
  One match of the sticky expression: the name of the directive, whether it has an argument, and the rest
  of the text. The alternatives of the expression exclude each other at every position, so no match needs
  to be revised.
\<close>

definition directiveAt :: "jstring \<Rightarrow> (jstring \<times> bool \<times> jstring) option" where
  "directiveAt s =
     (let s = dropWhile isWhite s; name = takeWhile isTokenUnit s; r = dropWhile isWhite (dropWhile isTokenUnit s) in
      if name = [] then None
      else
        case (if starts_with [61] r then map_option (Pair True) (argumentRest (dropWhile isWhite (tl r))) else Some (False, r)) of
          None \<Rightarrow> None
        | Some (argument, r) \<Rightarrow>
            (case dropWhile isWhite r of
               [] \<Rightarrow> Some (name, argument, [])
             | c # r \<Rightarrow> if c = 44 then Some (name, argument, r) else None))"

lemma quotedStringRest_length: "quotedStringRest s = Some r \<Longrightarrow> length r < length s"
  by (induction s rule: quotedStringRest.induct) (auto split: if_splits)

lemma argumentRest_length: "argumentRest s = Some r \<Longrightarrow> length r \<le> length s"
  using quotedStringRest_length [of "tl s" r] length_dropWhile_le [of isTokenUnit s] by (cases s) (auto simp: argumentRest_def split: if_splits)

lemma directiveAt_length:
  assumes "directiveAt s = Some (name, argument, r)"
  shows "length r < length s"
proof -
  define s' where "s' = dropWhile isWhite s"
  define r' where "r' = dropWhile isWhite (dropWhile isTokenUnit s')"
  have name: "takeWhile isTokenUnit s' \<noteq> []" using assms by (auto simp: directiveAt_def Let_def s'_def split: if_splits)
  have "length s' = length (takeWhile isTokenUnit s') + length (dropWhile isTokenUnit s')" by (metis length_append takeWhile_dropWhile_id)
  moreover have "length (takeWhile isTokenUnit s') > 0" using name by simp
  ultimately have r': "length r' < length s"
    using length_dropWhile_le [of isWhite "dropWhile isTokenUnit s'"] length_dropWhile_le [of isWhite s] unfolding r'_def s'_def by linarith
  obtain q where q: "(if starts_with [61] r' then map_option (Pair True) (argumentRest (dropWhile isWhite (tl r'))) else Some (False, r')) = Some (argument, q)"
      "r = [] \<or> dropWhile isWhite q = 44 # r"
    using assms name unfolding directiveAt_def Let_def s'_def [symmetric] r'_def [symmetric] by (auto split: option.splits list.splits if_splits prod.splits)
  have "length q \<le> length r'"
    using q(1) argumentRest_length [of "dropWhile isWhite (tl r')" q] length_dropWhile_le [of isWhite "tl r'"] by (auto split: if_splits)
  moreover have "length r \<le> length q" using q(2) length_dropWhile_le [of isWhite q] by auto
  ultimately show ?thesis using r' by linarith
qed

function noStoreLoop :: "bool \<Rightarrow> jstring \<Rightarrow> bool" where
  "noStoreLoop found s =
     (let s = dropWhile (\<lambda>c. c \<in> {9, 32, 44}) s in
      if s = [] then found
      else case directiveAt s of
        None \<Rightarrow> False
      | Some (name, argument, rest) \<Rightarrow> noStoreLoop (found \<or> asciiLower name = js ''no-store'' \<and> \<not> argument) rest)"
  by pat_completeness auto
termination
proof (relation "measure (\<lambda>(f, s). length s)")
  fix found s x y name z argument rest
  assume "x = dropWhile (\<lambda>c. c \<in> {9, 32, 44 :: nat}) s" "directiveAt x = Some y" "(name, z) = y" "(argument, rest) = z"
  then show "((found \<or> asciiLower name = js ''no-store'' \<and> \<not> argument, rest), found, s) \<in> measure (\<lambda>(f, s). length s)"
    using directiveAt_length [of x name argument rest] length_dropWhile_le [of "\<lambda>c. c \<in> {9, 32, 44 :: nat}" s] by simp
qed simp

declare noStoreLoop.simps [simp del]

definition hasNoStore :: "jstring option \<Rightarrow> bool" where
  "hasNoStore v = (case v of None \<Rightarrow> False | Some s \<Rightarrow> noStoreLoop False s)"

end
