(* ===== verification/HttpSignatures.thy ===== *)
theory HttpSignatures
  imports HttpParsing Budget VerifiedDomain
begin

text \<open>
  The DNSid profile of RFC 9421 (\<open>HttpSignaturesProfile\<close> in \<open>http-signatures/src/index.ts\<close>) for requests:
  the signature of an outbound request and the verification of an inbound one. The resolver of identities,
  the key provider, clocks, random bytes and the aborts of the signal are inputs.
\<close>

section \<open>Configuration\<close>

record HttpSignaturesProfileConfig =
  hc_maxAge :: "jsnum option"
  hc_clockSkew :: "jsnum option"

definition DEFAULT_SIGNATURE_MAX_AGE_SECONDS :: rat where "DEFAULT_SIGNATURE_MAX_AGE_SECONDS = 300"
definition DEFAULT_CLOCK_SKEW_SECONDS :: rat where "DEFAULT_CLOCK_SKEW_SECONDS = 5"

definition safeInteger :: "jsnum \<Rightarrow> bool" where
  "safeInteger n = (case finiteNum n of None \<Rightarrow> False | Some q \<Rightarrow> of_int \<lfloor>q\<rfloor> = q \<and> \<bar>q\<bar> \<le> of_int MAX_SAFE)"

definition positiveNum :: "jsnum \<Rightarrow> bool" where
  "positiveNum n = (case finiteNum n of None \<Rightarrow> n = PosInf | Some q \<Rightarrow> q > 0)"

definition validateHttpSignaturesConfig :: "HttpSignaturesProfileConfig \<Rightarrow> js_error + unit" where
  "validateHttpSignaturesConfig config =
     (if (case hc_maxAge config of None \<Rightarrow> False | Some n \<Rightarrow> \<not> safeInteger n \<or> \<not> positiveNum n)
        then Inl (ArgumentError ''httpMessageSignatures.maxAge must be positive'')
      else if (case hc_clockSkew config of None \<Rightarrow> False | Some n \<Rightarrow> (case finiteNum n of None \<Rightarrow> True | Some q \<Rightarrow> q < 0))
        then Inl (ArgumentError ''httpMessageSignatures.clockSkew must be non-negative'')
      else Inr ())"

record HttpSignaturesProfile =
  hp_domain :: jstring
  hp_hasKeyProvider :: bool
  hp_config :: HttpSignaturesProfileConfig

definition newProfile :: "platform \<Rightarrow> jstring \<Rightarrow> bool \<Rightarrow> HttpSignaturesProfileConfig \<Rightarrow> js_error + HttpSignaturesProfile" where
  "newProfile P domain hasKeyProvider config =
     bindE (catchE (normalizeFQDN P domain True) (\<lambda>_. Inl (ArgumentError ''domain is not a valid agent FQDN''))) (\<lambda>d.
     bindE (validateHttpSignaturesConfig config) (\<lambda>_.
     Inr \<lparr>hp_domain = d, hp_hasKeyProvider = hasKeyProvider, hp_config = config\<rparr>))"

text \<open>The limits in force; a validated configuration has finite ones.\<close>

definition limitOf :: "jsnum option \<Rightarrow> rat \<Rightarrow> rat" where
  "limitOf n d = (case n of None \<Rightarrow> d | Some m \<Rightarrow> (case finiteNum m of None \<Rightarrow> d | Some q \<Rightarrow> q))"

definition maxAgeSeconds :: "HttpSignaturesProfile \<Rightarrow> rat" where
  "maxAgeSeconds p = limitOf (hc_maxAge (hp_config p)) DEFAULT_SIGNATURE_MAX_AGE_SECONDS"

definition clockSkewSeconds :: "HttpSignaturesProfile \<Rightarrow> rat" where
  "clockSkewSeconds p = limitOf (hc_clockSkew (hp_config p)) DEFAULT_CLOCK_SKEW_SECONDS"

definition joseAlgToHttpSigAlg :: "jstring \<Rightarrow> js_error + jstring" where
  "joseAlgToHttpSigAlg joseAlg =
     (if joseAlg = js ''EdDSA'' then Inr (js ''ed25519'')
      else if joseAlg = js ''ES256'' then Inr (js ''ecdsa-p256-sha256'')
      else Inl (ArgumentError ''JOSE algorithm has no RFC 9421 HTTP Message Signature mapping''))"

text \<open>\<open>generateNonce\<close> with the random bytes that the platform delivers.\<close>

definition generateNonce :: "int \<Rightarrow> bytes \<Rightarrow> js_error + jstring" where
  "generateNonce byteLength random =
     (if byteLength > MAX_SAFE \<or> byteLength \<le> 0 then Inl (ArgumentError ''nonce byte length must be a positive integer'') else Inr (toBase64Url random))"

section \<open>Freshness\<close>

text \<open>
  Time is in whole seconds. Differences of the integers involved are exact in the number type of the
  language; a sum with the clock skew, which may have a fraction, is rounded by the platform.
\<close>

definition checkFreshness :: "http_lib \<Rightarrow> HttpSignaturesProfile \<Rightarrow> int \<Rightarrow> int \<Rightarrow> int option \<Rightarrow> js_error + unit" where
  "checkFreshness L p now created expires =
     (if of_int (now - created) > maxAgeSeconds p
        then Inl (failWith ''HTTP message signature has expired (created too far in the past)'' SignatureInvalid)
      else if of_int created > roundSum L (of_int now) (clockSkewSeconds p)
        then Inl (failWith ''HTTP message signature created time is in the future'' SignatureInvalid)
      else case expires of
        None \<Rightarrow> Inr ()
      | Some e \<Rightarrow>
          if e < created then Inl (failWith ''HTTP message signature expires precedes created'' SignatureInvalid)
          else if of_int now > roundSum L (of_int e) (clockSkewSeconds p)
            then Inl (failWith ''HTTP message signature has expired (expires parameter)'' SignatureInvalid)
          else if of_int (e - created) > maxAgeSeconds p
            then Inl (failWith ''HTTP message signature expires lifetime exceeds maximum'' SignatureInvalid)
          else Inr ())"

section \<open>Bodies\<close>

definition MAX_HTTP_CONTENT_BYTES :: nat where "MAX_HTTP_CONTENT_BYTES = 8 * 1024 * 1024"

text \<open>The loop over the reads of a body; \<open>waits\<close> says how each wait for a read ends.\<close>

fun readLoop :: "(nat \<Rightarrow> wait) \<Rightarrow> nat \<Rightarrow> nat \<Rightarrow> bytes \<Rightarrow> body \<Rightarrow> js_error + bytes" where
  "readLoop waits maxBytes i acc [] = waitForVerification (waits i) (Inr acc)"
| "readLoop waits maxBytes i acc (r # rs) =
     bindE (waitForVerification (waits i) r) (\<lambda>chunk.
     if length acc + length chunk > maxBytes then Inl (failWith ''HTTP signature body exceeds size limit'' RecordInvalid)
     else readLoop waits maxBytes (Suc i) (acc @ chunk) rs)"

definition readBoundedBody :: "(nat \<Rightarrow> wait) \<Rightarrow> bool \<Rightarrow> nat \<Rightarrow> body \<Rightarrow> js_error + bytes" where
  "readBoundedBody waits used maxBytes b =
     (if used then Inl (JsTypeError ''Body has already been used'') else readLoop waits maxBytes 0 [] b)"

section \<open>Verification of requests\<close>

record HttpVerificationOptions =
  ho_peerCert :: "TLSCertificate option"
  ho_requiredComponents :: "ComponentIdentifier list option"
  ho_requiredTag :: "jstring option"
  ho_timeoutMs :: "jsnum option"

text \<open>What the environment answers while one candidate is verified.\<close>

record candidate_run =
  cr_aborted :: bool
  cr_now :: int
  cr_resolve :: "jstring \<Rightarrow> TLSCertificate option \<Rightarrow> js_error + VerifiedDomain"
  cr_wait :: wait
  cr_reads :: "nat \<Rightarrow> wait"

definition requiredOf :: "HttpVerificationOptions \<Rightarrow> ComponentIdentifier list" where
  "requiredOf opts = (case ho_requiredComponents opts of
     None \<Rightarrow> [Named (js ''@method''), Named (js ''@authority''), Named (js ''@target-uri'')] | Some cs \<Rightarrow> cs)"

definition covers :: "ComponentIdentifier list \<Rightarrow> ComponentIdentifier \<Rightarrow> bool" where
  "covers components c \<longleftrightarrow> (\<exists>d \<in> set components. sameComponent d c)"

text \<open>\<open>selectSignatureCandidates\<close>: the members of \<open>Signature-Input\<close> that have a signature, and the tag.\<close>

definition selectSignatureCandidates ::
    "(jstring \<times> SignatureParams) list \<Rightarrow> (jstring \<times> bytes) list \<Rightarrow> jstring option \<Rightarrow> js_error + SignatureParams list" where
  "selectSignatureCandidates inputs sigs requiredTag =
     (let matching = filter (\<lambda>p. map_of sigs (sp_label p) \<noteq> None \<and> (requiredTag = None \<or> sp_tag p = requiredTag)) (map snd inputs) in
      if matching = [] then Inl (failWith ''expected at least one matching Signature and Signature-Input label'' RecordInvalid) else Inr matching)"

definition candidateKeyId :: "platform \<Rightarrow> SignatureParams \<Rightarrow> js_error + jstring \<times> jstring" where
  "candidateKeyId P params =
     catchE (parseKeyId P (the (sp_keyId params)))
       (\<lambda>e. case e of
          ArgumentError _ \<Rightarrow> Inl (failWith ''invalid keyid in Signature-Input'' SignatureInvalid)
        | ValidationError _ \<Rightarrow> Inl (failWith ''invalid keyid in Signature-Input'' SignatureInvalid)
        | _ \<Rightarrow> Inl e)"

definition checkRequestContent ::
    "http_lib \<Rightarrow> crypto \<Rightarrow> candidate_run \<Rightarrow> http_request \<Rightarrow> ComponentIdentifier list \<Rightarrow> js_error + unit" where
  "checkRequestContent L C run req components =
     (if rq_body req \<noteq> None \<and> \<not> covers components (Named (js ''content-digest''))
        then Inl (failWith ''request body is present but content-digest is not covered by the signature'' SignatureInvalid)
      else if \<not> hasComponentNamed components ''content-digest'' then Inr ()
      else case rq_body req of
        None \<Rightarrow> Inl (failWith ''content-digest is a covered component but request has no body'' SignatureInvalid)
      | Some b \<Rightarrow>
          (case headersGet (rq_headers req) ''Content-Digest'' of
             None \<Rightarrow> Inl (failWith ''content-digest is covered but Content-Digest header is absent'' SignatureInvalid)
           | Some digestHeader \<Rightarrow>
               if digestHeader = [] then Inl (failWith ''content-digest is covered but Content-Digest header is absent'' SignatureInvalid)
               else
                 bindE (parseSha256ContentDigest L digestHeader components) (\<lambda>expectedDigest.
                 bindE (readBoundedBody (cr_reads run) (rq_bodyUsed req) MAX_HTTP_CONTENT_BYTES b) (\<lambda>content.
                 if \<not> constantTimeEqual expectedDigest (hash256 C content)
                   then Inl (failWith ''Content-Digest does not match request body'' SignatureInvalid)
                 else Inr ()))))"

text \<open>The decoder is applied to the output of the encoder, on which it cannot fail.\<close>

definition requestBase :: "platform \<Rightarrow> http_lib \<Rightarrow> http_request \<Rightarrow> SignatureParams \<Rightarrow> js_error + jstring" where
  "requestBase P L req params =
     catchE (bindE (buildSignatureInput P L (RequestMessage req, None) params) (textDecode False))
       (\<lambda>e. case e of ArgumentError _ \<Rightarrow> Inl (failWith ''Signature-Input covers absent component'' SignatureInvalid) | _ \<Rightarrow> Inl e)"

definition verifySignatureCandidate ::
    "platform \<Rightarrow> http_lib \<Rightarrow> crypto \<Rightarrow> HttpSignaturesProfile \<Rightarrow> HttpVerificationOptions \<Rightarrow> http_request \<Rightarrow> candidate_run \<Rightarrow>
     SignatureParams \<Rightarrow> bytes \<Rightarrow> js_error + VerifiedDomain" where
  "verifySignatureCandidate P L C p opts req run params rawSig =
     (if \<exists>c \<in> set (requiredOf opts). \<not> covers (sp_components params) c
        then Inl (failWith ''Signature-Input missing required covered component'' SignatureInvalid)
      else if sp_keyId params = None \<or> sp_keyId params = Some []
        then Inl (failWith ''Signature-Input missing required keyid parameter'' SignatureInvalid)
      else case sp_created params of
        None \<Rightarrow> Inl (failWith ''Signature-Input missing required created parameter'' SignatureInvalid)
      | Some created \<Rightarrow>
          bindE (candidateKeyId P params) (\<lambda>(domain, kid).
          bindE (checkFreshness L p (cr_now run) created (sp_expires params)) (\<lambda>_.
          bindE (waitForVerification (cr_wait run) (cr_resolve run domain (ho_peerCert opts))) (\<lambda>vd.
          bindE (keyById (vd_jwks vd) kid) (\<lambda>found.
          case found of
            None \<Rightarrow> Inl (failWith ''request kid not found in signer JWKS'' KeyNotFound)
          | Some sigKey \<Rightarrow>
              bindE (checkRequestContent L C run req (sp_components params)) (\<lambda>_.
              bindE (jwkSignatureAlg sigKey) (\<lambda>keyAlg.
              bindE (joseAlgToHttpSigAlg keyAlg) (\<lambda>expectedHttpSigAlg.
              if sp_alg params \<noteq> None \<and> sp_alg params \<noteq> Some [] \<and> sp_alg params \<noteq> Some expectedHttpSigAlg
                then Inl (failWith ''HTTP message signature alg mismatch'' SignatureInvalid)
              else
                bindE (requestBase P L req params) (\<lambda>sigBase.
                if \<not> verifyWithKey C (Inr (utf8 sigBase)) rawSig sigKey (Some keyAlg)
                  then Inl (failWith ''HTTP message signature invalid'' SignatureInvalid)
                else Inr vd)))))))))"

text \<open>Errors that make a candidate unacceptable; others end the verification.\<close>

fun isCandidateError :: "js_error \<Rightarrow> bool" where
  "isCandidateError (ArgumentError _) = True"
| "isCandidateError (ValidationError _) = True"
| "isCandidateError (Verification _) = True"
| "isCandidateError _ = False"

fun candidateLoop ::
    "(candidate_run \<Rightarrow> SignatureParams \<Rightarrow> js_error + VerifiedDomain) \<Rightarrow> (nat \<Rightarrow> candidate_run) \<Rightarrow> nat \<Rightarrow>
     VerifiedDomain option \<Rightarrow> js_error option \<Rightarrow> SignatureParams list \<Rightarrow> js_error + VerifiedDomain" where
  "candidateLoop verify runs i verified lastError [] =
     (case verified of
        Some vd \<Rightarrow> Inr vd
      | None \<Rightarrow> (case lastError of Some e \<Rightarrow> Inl e | None \<Rightarrow> Inl (failWith ''no valid HTTP message signature'' SignatureInvalid)))"
| "candidateLoop verify runs i verified lastError (params # rest) =
     (if cr_aborted (runs i) then Inl (failWith ''HTTP verification canceled'' RecordInvalid)
      else case verify (runs i) params of
        Inl e \<Rightarrow> if \<not> isCandidateError e then Inl e else candidateLoop verify runs (Suc i) verified (Some e) rest
      | Inr candidate \<Rightarrow>
          if verified \<noteq> None then Inl (failWith ''multiple valid HTTP message signatures'' RecordInvalid)
          else candidateLoop verify runs (Suc i) (Some candidate) lastError rest)"

definition verifyRequestWithinBudget ::
    "platform \<Rightarrow> http_lib \<Rightarrow> crypto \<Rightarrow> HttpSignaturesProfile \<Rightarrow> HttpVerificationOptions \<Rightarrow> (nat \<Rightarrow> candidate_run) \<Rightarrow> http_request \<Rightarrow>
     js_error + VerifiedDomain" where
  "verifyRequestWithinBudget P L C p opts runs req =
     (case (headersGet (rq_headers req) ''Signature-Input'', headersGet (rq_headers req) ''Signature'') of
        (Some sigInputHeader, Some sigHeader) \<Rightarrow>
          if sigInputHeader = [] \<or> sigHeader = [] then Inl (failWith ''missing Signature or Signature-Input headers'' SignatureInvalid)
          else
            bindE (parseSignatureInput L sigInputHeader) (\<lambda>sigInputs.
            bindE (parseSignature L sigHeader) (\<lambda>sigs.
            bindE (selectSignatureCandidates sigInputs sigs (ho_requiredTag opts)) (\<lambda>candidates.
            candidateLoop (\<lambda>run params. verifySignatureCandidate P L C p opts req run params (the (map_of sigs (sp_label params)))) runs 0 None None candidates)))
      | _ \<Rightarrow> Inl (failWith ''missing Signature or Signature-Input headers'' SignatureInvalid))"

definition verifySignedHttpRequest ::
    "platform \<Rightarrow> http_lib \<Rightarrow> crypto \<Rightarrow> HttpSignaturesProfile \<Rightarrow> HttpVerificationOptions \<Rightarrow> wait \<Rightarrow> bool \<Rightarrow> (nat \<Rightarrow> candidate_run) \<Rightarrow> http_request \<Rightarrow>
     js_error + VerifiedDomain" where
  "verifySignedHttpRequest P L C p opts budget late runs req =
     withVerificationBudget (ho_timeoutMs opts) budget late (verifyRequestWithinBudget P L C p opts runs req)"

section \<open>Signing\<close>

definition rebuildRequest :: "http_request \<Rightarrow> headers \<Rightarrow> bytes option \<Rightarrow> http_request" where
  "rebuildRequest req h content =
     req\<lparr>rq_headers := h, rq_body := (case content of None \<Rightarrow> rq_body req | Some bs \<Rightarrow> Some [Inr bs])\<rparr>"

text \<open>Replaces or adds one member of a dictionary field; every failure is one \<open>ArgumentError\<close>.\<close>

definition setDictionaryMember :: "http_lib \<Rightarrow> headers \<Rightarrow> string \<Rightarrow> jstring \<Rightarrow> jstring \<Rightarrow> js_error + headers" where
  "setDictionaryMember L h name label v =
     catchE
       (let replacementText = label @ 61 # v in
        bindE (parseStructuredDictionary L replacementText) (\<lambda>replacement.
        if length replacement \<noteq> 1 \<or> map_of replacement label = None then Inl (PlainError ''invalid replacement dictionary member'')
        else case headersGet h name of
          Some (c # current) \<Rightarrow>
            bindE (splitDictionary (c # current)) (\<lambda>entries.
            bindE (parseStructuredDictionary L (c # current)) (\<lambda>dictionary.
            if length dictionary \<noteq> length entries then Inl (PlainError ''duplicate dictionary member'')
            else
              let index = length (takeWhile (\<lambda>m. fst m \<noteq> label) dictionary);
                  entries' = (if index < length dictionary then entries[index := replacementText] else entries @ [replacementText]) in
              headersSet h name (join (js '', '') entries')))
        | _ \<Rightarrow> headersSet h name replacementText))
       (\<lambda>_. Inl (ArgumentError ''malformed structured field dictionary''))"

definition withHeaders :: "message \<Rightarrow> headers \<Rightarrow> message" where
  "withHeaders m h = (case m of RequestMessage r \<Rightarrow> RequestMessage (r\<lparr>rq_headers := h\<rparr>) | ResponseMessage r \<Rightarrow> ResponseMessage (r\<lparr>rs_headers := h\<rparr>))"

text \<open>
  The key, the signature and the body of the copy are outcomes of the environment; the body is read from a
  clone of the message, so the copy has the bytes of the original.
\<close>

definition signHttpMessage ::
    "platform \<Rightarrow> http_lib \<Rightarrow> crypto \<Rightarrow> http_message \<Rightarrow> SignatureParams \<Rightarrow> js_error + json \<Rightarrow> (bytes \<Rightarrow> js_error + bytes) \<Rightarrow> js_error + message" where
  "signHttpMessage P L C m params signingKey sign =
     bindE signingKey (\<lambda>key.
     bindE (buildSignatureInput P L m params) (\<lambda>input.
     bindE (sign input) (\<lambda>sigRaw.
     bindE (jwkSignatureAlg key) (\<lambda>alg.
     if \<not> verifyWithKey C (Inr input) sigRaw key (Some alg)
       then Inl (ArgumentError ''HTTP signing key changed or returned an invalid signature'')
     else
       bindE (serializeSigParams L params) (\<lambda>t.
       bindE (setDictionaryMember L (messageHeaders (fst m)) ''Signature-Input'' (sp_label params) t) (\<lambda>h.
       bindE (setDictionaryMember L h ''Signature'' (sp_label params) (58 # toStdBase64 sigRaw @ [58])) (\<lambda>h'.
       Inr (withHeaders (fst m) h'))))))))"

record ResponseSignatureOptions =
  ro_expectedDomain :: jstring
  ro_additionalComponents :: "ComponentIdentifier list"

record HttpSigningOptions =
  hs_additionalComponents :: "ComponentIdentifier list"
  hs_label :: "jstring option"
  hs_tag :: "jstring option"
  hs_expiresInSeconds :: "jsnum option"
  hs_responseSignature :: "ResponseSignatureOptions option"

text \<open>Options that are absent are the empty list. The environment of one signature: the key, its signatures, the clock, random bytes and the reads of the body.\<close>

record signing_run =
  su_signingKey :: "js_error + json"
  su_sign :: "bytes \<Rightarrow> js_error + bytes"
  su_now :: int
  su_random :: bytes
  su_reads :: "nat \<Rightarrow> wait"

definition addComponent :: "ComponentIdentifier list \<Rightarrow> ComponentIdentifier \<Rightarrow> js_error + ComponentIdentifier list" where
  "addComponent components c =
     bindE (validateComponentIdentifier c) (\<lambda>_. Inr (if covers components c then components else components @ [c]))"

definition expiresAt :: "HttpSignaturesProfile \<Rightarrow> int \<Rightarrow> jsnum option \<Rightarrow> js_error + int option" where
  "expiresAt p now n =
     (case n of
        None \<Rightarrow> Inr None
      | Some m \<Rightarrow>
          (case finiteNum m of
             Some q \<Rightarrow>
               if safeInteger m \<and> q > 0 \<and> q \<le> maxAgeSeconds p then Inr (Some (now + \<lfloor>q\<rfloor>))
               else Inl (ArgumentError ''expiresInSeconds must be a positive integer no greater than maxAge'')
           | None \<Rightarrow> Inl (ArgumentError ''expiresInSeconds must be a positive integer no greater than maxAge'')))"

definition DEFAULT_HTTP_SIGNATURE_LABEL :: jstring where
  "DEFAULT_HTTP_SIGNATURE_LABEL = js ''sig1''"

text \<open>The request with its digest, and the parameters of the signature, before it is signed.\<close>

definition prepareSignature ::
    "crypto \<Rightarrow> HttpSignaturesProfile \<Rightarrow> signing_run \<Rightarrow> HttpSigningOptions \<Rightarrow> http_request \<Rightarrow> js_error + http_request \<times> SignatureParams" where
  "prepareSignature C p run opts req =
     bindE (if \<not> hp_hasKeyProvider p then Inl (ArgumentError ''HTTP message signing requires a keyProvider'') else su_signingKey run) (\<lambda>signingKey.
     case propOf signingKey ''kid'' of
       JStr kid \<Rightarrow>
         if 35 \<in> set kid then Inl (ArgumentError ''signing key kid must not contain #'')
         else
           bindE (case rq_body req of None \<Rightarrow> Inr None | Some b \<Rightarrow> bindE (readBoundedBody (su_reads run) (rq_bodyUsed req) MAX_HTTP_CONTENT_BYTES b) (\<lambda>bs. Inr (Some bs))) (\<lambda>content.
           bindE (case content of None \<Rightarrow> Inr (rq_headers req) | Some bs \<Rightarrow> headersSet (rq_headers req) ''Content-Digest'' (sha256Field C bs)) (\<lambda>h.
           bindE (foldE addComponent
              ([Named (js ''@method''), Named (js ''@authority''), Named (js ''@target-uri'')] @
               (if content = None then [] else [Named (js ''content-digest'')])) (hs_additionalComponents opts)) (\<lambda>components.
           bindE (expiresAt p (su_now run) (hs_expiresInSeconds opts)) (\<lambda>expires.
           bindE (jwkSignatureAlg signingKey) (\<lambda>joseAlg.
           bindE (joseAlgToHttpSigAlg joseAlg) (\<lambda>alg.
           bindE (generateNonce 32 (su_random run)) (\<lambda>nonce.
           Inr (rebuildRequest req h content,
             \<lparr>sp_label = (case hs_label opts of None \<Rightarrow> DEFAULT_HTTP_SIGNATURE_LABEL | Some l \<Rightarrow> l), sp_components = components,
              sp_keyId = Some (hp_domain p @ 35 # kid), sp_alg = Some alg, sp_created = Some (su_now run), sp_expires = expires,
              sp_nonce = Some nonce, sp_tag = hs_tag opts, sp_parameters = None\<rparr>))))))))
     | _ \<Rightarrow> Inl (JsTypeError ''kid.includes is not a function''))"

end
