(* ===== verification/HttpBase.thy ===== *)
theory HttpBase
  imports HttpSignatures
begin

text \<open>
  The signature base determines what it covers: two messages with the same base have the same covered
  components with the same values, under the same parameters. The base is text with one line for every
  component, so this rests on values without line feeds; the list of components is in its last line.
\<close>

section \<open>Comparison of digests\<close>

lemma or_xor_zero: "(or d (xor x y) :: byte) = 0 \<longleftrightarrow> d = 0 \<and> x = y"
  by (auto simp: bit_eq_iff bit_simps)

lemma difference_zero: "foldl (\<lambda>d (x, y). or d (xor x y)) (d :: byte) zs = 0 \<longleftrightarrow> d = 0 \<and> (\<forall>(x, y) \<in> set zs. x = y)"
  by (induction zs arbitrary: d) (auto simp: or_xor_zero)

lemma constantTimeEqual_iff: "constantTimeEqual a b \<longleftrightarrow> a = b"
proof (cases "length a = length b")
  case True
  then have "(\<forall>(x, y) \<in> set (zip a b). x = y) \<longleftrightarrow> a = b"
    by (induction a b rule: list_induct2) auto
  then show ?thesis using True by (simp add: constantTimeEqual_def difference_zero)
qed (auto simp: constantTimeEqual_def)

section \<open>Plain text\<close>

definition plainText :: "jstring \<Rightarrow> bool" where
  "plainText s \<longleftrightarrow> (\<forall>c \<in> set s. c < 256 \<and> c \<noteq> 10)"

lemma plainText_simps [simp]:
  "plainText []" "plainText (c # s) \<longleftrightarrow> c < 256 \<and> c \<noteq> 10 \<and> plainText s" "plainText (s @ t) \<longleftrightarrow> plainText s \<and> plainText t"
  by (auto simp: plainText_def)

lemma plainText_concat: "(\<And>s. s \<in> set ss \<Longrightarrow> plainText s) \<Longrightarrow> plainText (concat ss)"
  by (induction ss) auto

lemma validUnicode_latin: "(\<forall>c \<in> set s. c < 0xD800) \<Longrightarrow> validUnicode s"
  by (induction s rule: validUnicode.induct) auto

lemma utf8_latin_inj:
  assumes "\<forall>c \<in> set s. c < 256" and "\<forall>c \<in> set t. c < 256" and "utf8 s = utf8 t"
  shows "s = t"
proof -
  have "validUnicode s" "validUnicode t" using assms(1,2) by (auto intro!: validUnicode_latin)
  then show ?thesis using assms(3) utf8Text_utf8 by (metis option.inject)
qed

lemma percentByte_plain: "plainText (percentByte b)"
proof -
  have "unat b div 16 < 16" "unat b mod 16 < 16" using map_unat_bytes [of "[b]"] by auto
  then show ?thesis by (auto simp: percentByte_def byteHex_def asciiUpper_def hexDigit_def)
qed

lemma formPercentEncode_plain: "formPercentEncode s = Inr t \<Longrightarrow> plainText t"
proof -
  have e: "plainText e" if "encodeURIComponent s = Inr e" for e
  proof -
    have "plainText (concat (map (\<lambda>c. if uriUnescaped c then [c] else concat (map percentByte (utf8CodePoint c))) cs))" for cs
      by (intro plainText_concat) (auto simp: uriUnescaped_def isAlnum_def isLower_def isUpper_def isDigit_def intro!: plainText_concat percentByte_plain)
    then show ?thesis using that by (auto simp: encodeURIComponent_def split: if_splits)
  qed
  assume "formPercentEncode s = Inr t"
  then obtain e where "encodeURIComponent s = Inr e" "t = concat (map (\<lambda>c. if c \<in> {33, 39, 40, 41, 126} then percentByte (of_nat c) else [c]) e)"
    by (auto simp: formPercentEncode_def bindE_eq_Inr)
  moreover have "plainText [c]" if "c \<in> set e" for c using e [OF calculation(1)] that by (simp add: plainText_def)
  ultimately show ?thesis by (auto intro!: plainText_concat percentByte_plain)
qed

text \<open>
  What the platform guarantees of a message: fields are byte strings without line feeds, and so are the
  method, the status and the parts of a URL.
\<close>

definition urlText :: "platform \<Rightarrow> url \<Rightarrow> bool" where
  "urlText P u \<longleftrightarrow> plainText (toLowerCase P (url_hostname u)) \<and> plainText (url_port u) \<and> plainText (url_protocol u) \<and>
     plainText (url_pathname u) \<and> plainText (url_search u)"

fun messageText :: "platform \<Rightarrow> message \<Rightarrow> bool" where
  "messageText P (RequestMessage r) \<longleftrightarrow> plainText (rq_method r) \<and> (\<forall>u. urlParse P (rq_url r) = Some u \<longrightarrow> urlText P u) \<and>
     (\<forall>k v. rq_headers r k = Some v \<longrightarrow> plainText v)"
| "messageText P (ResponseMessage r) \<longleftrightarrow> plainText (numToString P (Fin (of_int (rs_status r)))) \<and> (\<forall>k v. rs_headers r k = Some v \<longrightarrow> plainText v)"

definition plainMessage :: "platform \<Rightarrow> http_message \<Rightarrow> bool" where
  "plainMessage P m \<longleftrightarrow> messageText P (fst m) \<and> (\<forall>r. snd m = Some r \<longrightarrow> messageText P (RequestMessage r))"

text \<open>
  What the package \<open>structured-headers\<close> documents: it writes printable ASCII text, and the text of a list
  of components, followed by parameters, is read back with the same components.
\<close>

definition sfPlain :: "http_lib \<Rightarrow> bool" where
  "sfPlain L \<longleftrightarrow> (\<forall>i t. serializeStructuredItem L i = Inr t \<longrightarrow> plainText t) \<and>
     (\<forall>items ps t. serializeStructuredInnerList L items ps = Inr t \<longrightarrow> plainText t) \<and>
     (\<forall>ps t. serializeStructuredParameters L ps = Inr t \<longrightarrow> plainText t)"

definition sfReads :: "http_lib \<Rightarrow> bool" where
  "sfReads L \<longleftrightarrow> (\<forall>cs t ps ts. validateComponents cs = Inr () \<longrightarrow> serializeStructuredInnerList L (map componentItem cs) [] = Inr t \<longrightarrow>
     mapE (\<lambda>p. serializeStructuredParameters L [p]) ps = Inr ts \<longrightarrow>
     (\<exists>qs. parseStructuredDictionary L (js ''x='' @ t @ concat ts) = Inr [(js ''x'', SfInner (map componentItem cs) qs)]))"

lemma queryParts_plain: "queryParts L n ps = Inr vs \<Longrightarrow> v \<in> set vs \<Longrightarrow> plainText v"
proof (induction ps arbitrary: vs)
  case (Cons p ps)
  then show ?case using formPercentEncode_plain by (cases "searchEntries L p") (fastforce simp: bindE_eq_Inr split: if_splits)+
qed simp

lemma member_plain: "sfPlain L \<Longrightarrow> serializeStructuredMember L member = Inr t \<Longrightarrow> plainText t"
  by (cases member) (auto simp: sfPlain_def serializeStructuredMember_def)

lemma fieldValue_plain:
  "sfPlain L \<Longrightarrow> (\<forall>k v. messageHeaders s k = Some v \<longrightarrow> plainText v) \<Longrightarrow> fieldValue L s c = Inr t \<Longrightarrow> plainText t"
  by (auto simp: fieldValue_def bindE_eq_Inr split: option.splits parameter.splits dest: member_plain)

lemma derivedValue_plain:
  assumes "urlText P u" and "plainText (rq_method r)" and "derivedValue P L r u c = Inr t"
  shows "plainText t"
proof -
  have query: "plainText t" if "canonicalQueryParamValues L s n = Inr [t]" for s n
    using that queryParts_plain by (fastforce simp: canonicalQueryParamValues_def Let_def split: if_splits)
  have scheme: "plainText (remove1 58 (url_protocol u))" using assms(1) notin_set_remove1 by (fastforce simp: urlText_def plainText_def)
  show ?thesis
  proof (cases "componentName c = js ''@query-param''")
    case True
    then obtain n vs where "canonicalQueryParamValues L (url_search u) n = Inr vs"
        "(case vs of [] \<Rightarrow> Inl (ArgumentError ''covered query parameter not present in request'') | [v] \<Rightarrow> Inr v
          | _ \<Rightarrow> Inl (ArgumentError ''covered query parameter appears more than once'')) = Inr t"
      using assms(3) by (auto simp: derivedValue_def Let_def bindE_eq_Inr split: option.splits parameter.splits)
    then show ?thesis using query by (cases vs rule: remdups_adj.cases) auto
  next
    case False
    then show ?thesis using assms scheme unfolding derivedValue_def Let_def urlText_def normalizedAuthority_def
      by (auto simp del: js_Cons split: if_splits) (auto split: if_splits)
  qed
qed

lemma extractComponentValue_plain:
  assumes "sfPlain L" and "plainMessage P m" and "extractComponentValue P L m c = Inr t"
  shows "plainText t"
proof -
  from assms(3) obtain source where s: "componentSource m c = Inr source" by (auto simp: extractComponentValue_def bindE_eq_Inr)
  have plain: "messageText P source"
    using s assms(2) by (cases m) (auto simp: componentSource_def plainMessage_def split: if_splits message.splits option.splits)
  show ?thesis
  proof (cases source)
    case (RequestMessage r)
    then show ?thesis using assms(1,3) s plain fieldValue_plain [OF assms(1), of source c t] derivedValue_plain [of P _ r L c t]
      by (auto simp: extractComponentValue_def bindE_eq_Inr Let_def split: option.splits if_splits)
  next
    case (ResponseMessage r)
    then show ?thesis using assms(1,3) s plain fieldValue_plain [OF assms(1), of source c t]
      by (auto simp: extractComponentValue_def bindE_eq_Inr Let_def split: if_splits)
  qed
qed

section \<open>The base\<close>

lemma join_inj:
  assumes "\<forall>x \<in> set xs. plainText x" and "\<forall>y \<in> set ys. plainText y" and "xs \<noteq> []" and "ys \<noteq> []" and "join [10] xs = join [10] ys"
  shows "xs = ys"
proof -
  have "split_on 10 (join [10] xs) = xs" "split_on 10 (join [10] ys) = ys"
    using assms(1-4) by (auto simp: plainText_def intro!: split_join)
  then show ?thesis using assms(5) by metis
qed

lemma mapE_bind_pair:
  assumes "mapE (\<lambda>c. bindE (f c) (\<lambda>i. bindE (g c) (\<lambda>v. Inr (h i v)))) cs = Inr ls"
  shows "\<exists>ids vs. mapE f cs = Inr ids \<and> mapE g cs = Inr vs \<and> ls = map2 h ids vs"
  using assms by (induction cs arbitrary: ls) (force simp: bindE_eq_Inr)+

lemma baseLines:
  assumes "mapE (baseLine P L m) cs = Inr ls"
  shows "\<exists>ids vs. mapE (serializeComponentIdentifier L) cs = Inr ids \<and> mapE (extractComponentValue P L m) cs = Inr vs \<and>
    ls = map2 (\<lambda>i v. i @ js '': '' @ v) ids vs"
  using mapE_bind_pair [of "serializeComponentIdentifier L" "extractComponentValue P L m" "\<lambda>i v. i @ js '': '' @ v" cs ls] assms
  unfolding baseLine_def [abs_def] by simp

lemma mapE_plain: "mapE f xs = Inr ys \<Longrightarrow> (\<And>x y. f x = Inr y \<Longrightarrow> plainText y) \<Longrightarrow> \<forall>y \<in> set ys. plainText y"
  by (induction xs arbitrary: ys) (auto simp: bindE_eq_Inr)

lemma serializeSigParams_plain: "sfPlain L \<Longrightarrow> serializeSigParams L params = Inr t \<Longrightarrow> plainText t"
  using mapE_plain [of "\<lambda>p. serializeStructuredParameters L [p]"]
  by (auto simp: serializeSigParams_def sfPlain_def bindE_eq_Inr intro!: plainText_concat)

lemma signatureBase_parts:
  assumes "sfPlain L" and "plainMessage P m" and "signatureBase P L m params = Inr s"
  shows "\<exists>ids vs t. mapE (serializeComponentIdentifier L) (sp_components params) = Inr ids \<and> mapE (extractComponentValue P L m) (sp_components params) = Inr vs \<and>
    serializeSigParams L params = Inr t \<and> s = join [10] (map2 (\<lambda>i v. i @ js '': '' @ v) ids vs @ [paramsLine t]) \<and>
    (\<forall>l \<in> set (map2 (\<lambda>i v. i @ js '': '' @ v) ids vs @ [paramsLine t]). plainText l) \<and> validateComponents (sp_components params) = Inr ()"
proof -
  from assms(3) obtain ls t where l: "mapE (baseLine P L m) (sp_components params) = Inr ls" "serializeSigParams L params = Inr t"
      "s = join [10] (ls @ [paramsLine t])" "validateComponents (sp_components params) = Inr ()"
    by (auto simp: signatureBase_def bindE_eq_Inr)
  from baseLines [OF l(1)] obtain ids vs where iv: "mapE (serializeComponentIdentifier L) (sp_components params) = Inr ids"
      "mapE (extractComponentValue P L m) (sp_components params) = Inr vs" "ls = map2 (\<lambda>i v. i @ js '': '' @ v) ids vs" by blast
  have "plainText y" if "serializeComponentIdentifier L x = Inr y" for x y
    using that assms(1) unfolding sfPlain_def serializeComponentIdentifier_def by blast
  then have "\<forall>i \<in> set ids. plainText i" using mapE_plain [OF iv(1)] by blast
  moreover have "\<forall>v \<in> set vs. plainText v" using mapE_plain [OF iv(2)] extractComponentValue_plain [OF assms(1,2)] by blast
  moreover have "plainText (paramsLine t)" using serializeSigParams_plain [OF assms(1) l(2)] by (simp add: paramsLine_def)
  ultimately have "\<forall>l \<in> set (ls @ [paramsLine t]). plainText l" unfolding iv(3) by (auto, (meson set_zip_leftD set_zip_rightD)+)
  then show ?thesis using l iv by blast
qed

lemma join_plain: "\<forall>l \<in> set ls. plainText l \<Longrightarrow> \<forall>c \<in> set (join [10] ls). c < 256"
  by (induction "[10 :: nat]" ls rule: join.induct) (auto simp: plainText_def)

lemma serialize_items:
  "map componentItem cs = map componentItem cs' \<Longrightarrow> mapE (serializeComponentIdentifier L) cs = mapE (serializeComponentIdentifier L) cs'"
proof (induction cs arbitrary: cs')
  case (Cons c cs)
  then obtain c' ds where "cs' = c' # ds" "componentItem c = componentItem c'" "map componentItem cs = map componentItem ds" by (cases cs') auto
  then show ?case using Cons.IH [of ds] by (simp add: serializeComponentIdentifier_def)
qed simp

lemma sigParams_components:
  assumes "sfReads L" and "validateComponents (sp_components params) = Inr ()" and "validateComponents (sp_components params') = Inr ()"
    and "serializeSigParams L params = Inr t" and "serializeSigParams L params' = Inr t"
  shows "map componentItem (sp_components params) = map componentItem (sp_components params')"
proof -
  from assms(4) obtain a ps ts where "serializeStructuredInnerList L (map componentItem (sp_components params)) [] = Inr a"
      "mapE (\<lambda>p. serializeStructuredParameters L [p]) ps = Inr ts" "t = a @ concat ts" by (auto simp: serializeSigParams_def bindE_eq_Inr)
  with assms(1,2) obtain qs where "parseStructuredDictionary L (js ''x='' @ t) = Inr [(js ''x'', SfInner (map componentItem (sp_components params)) qs)]"
    unfolding sfReads_def by blast
  moreover from assms(5) obtain a' ps' ts' where "serializeStructuredInnerList L (map componentItem (sp_components params')) [] = Inr a'"
      "mapE (\<lambda>p. serializeStructuredParameters L [p]) ps' = Inr ts'" "t = a' @ concat ts'" by (auto simp: serializeSigParams_def bindE_eq_Inr)
  with assms(1,3) obtain qs' where "parseStructuredDictionary L (js ''x='' @ t) = Inr [(js ''x'', SfInner (map componentItem (sp_components params')) qs')]"
    unfolding sfReads_def by blast
  ultimately show ?thesis by simp
qed

lemma map2_lines_eq:
  "length ids = length vs \<Longrightarrow> length ids = length vs' \<Longrightarrow>
    map2 (\<lambda>i v. i @ js '': '' @ v) ids vs = map2 (\<lambda>i v. i @ js '': '' @ v) ids vs' \<Longrightarrow> vs = vs'"
proof (induction ids vs arbitrary: vs' rule: list_induct2)
  case (Cons i ids v vs)
  then show ?case by (cases vs') auto
qed simp

text \<open>
  C11. The signature base is unambiguous: when the bases of two messages are the same bytes, then the covered
  components are the same, in the same order and with the same parameters, every covered component has
  the same value in both messages, and the signature parameters have the same text. A signature
  therefore authenticates the value of every component that it covers. The package \<open>structured-headers\<close>
  is assumed to write plain text from which the list of components can be read back, and messages to
  have values without line feeds.
\<close>

theorem buildSignatureInput_unambiguous:
  assumes "sfPlain L" and "sfReads L" and "plainMessage P m" and "plainMessage P m'"
    and "buildSignatureInput P L m params = Inr bs" and "buildSignatureInput P L m' params' = Inr bs"
  shows "map componentItem (sp_components params) = map componentItem (sp_components params') \<and>
    mapE (extractComponentValue P L m) (sp_components params) = mapE (extractComponentValue P L m') (sp_components params') \<and>
    serializeSigParams L params = serializeSigParams L params'"
proof -
  from assms(5) obtain s where s: "signatureBase P L m params = Inr s" "bs = utf8 s" by (auto simp: buildSignatureInput_def bindE_eq_Inr)
  from assms(6) obtain s' where s': "signatureBase P L m' params' = Inr s'" "bs = utf8 s'" by (auto simp: buildSignatureInput_def bindE_eq_Inr)
  from signatureBase_parts [OF assms(1,3) s(1)] obtain ids vs t where
    p: "mapE (serializeComponentIdentifier L) (sp_components params) = Inr ids" "mapE (extractComponentValue P L m) (sp_components params) = Inr vs"
      "serializeSigParams L params = Inr t" "s = join [10] (map2 (\<lambda>i v. i @ js '': '' @ v) ids vs @ [paramsLine t])"
      "\<forall>l \<in> set (map2 (\<lambda>i v. i @ js '': '' @ v) ids vs @ [paramsLine t]). plainText l" "validateComponents (sp_components params) = Inr ()" by blast
  from signatureBase_parts [OF assms(1,4) s'(1)] obtain ids' vs' t' where
    p': "mapE (serializeComponentIdentifier L) (sp_components params') = Inr ids'" "mapE (extractComponentValue P L m') (sp_components params') = Inr vs'"
      "serializeSigParams L params' = Inr t'" "s' = join [10] (map2 (\<lambda>i v. i @ js '': '' @ v) ids' vs' @ [paramsLine t'])"
      "\<forall>l \<in> set (map2 (\<lambda>i v. i @ js '': '' @ v) ids' vs' @ [paramsLine t']). plainText l" "validateComponents (sp_components params') = Inr ()" by blast
  have "s = s'" using p(4,5) p'(4,5) s(2) s'(2) by (metis join_plain utf8_latin_inj)
  then have ls: "map2 (\<lambda>i v. i @ js '': '' @ v) ids vs @ [paramsLine t] = map2 (\<lambda>i v. i @ js '': '' @ v) ids' vs' @ [paramsLine t']"
    using join_inj [OF p(5) p'(5)] p(4) p'(4) by simp
  then have t: "t = t'" by (simp add: paramsLine_def)
  then have cs: "map componentItem (sp_components params) = map componentItem (sp_components params')"
    using sigParams_components [OF assms(2) p(6) p'(6)] p(3) p'(3) by simp
  then have "ids = ids'" using p(1) p'(1) by (metis serialize_items sum.inject(2))
  moreover have "length ids = length vs" "length ids' = length vs'" using p(1,2) p'(1,2) by (simp_all add: mapE_length)
  ultimately have "vs = vs'" using ls map2_lines_eq [of ids vs vs'] by simp
  then show ?thesis using cs t p(2,3) p'(2,3) by simp
qed


end
