(* ===== verification/HttpResponses.thy ===== *)
theory HttpResponses
  imports HttpSignatures
begin

text \<open>
  Negotiated responses of \<open>http-signatures/src/index.ts\<close>: the \<open>Accept-Signature\<close> field of a request, the
  signature of the response that it asks for, its verification against the request that was sent, and
  the signing \<open>fetch\<close>. The release of response bodies on failure has no counterpart in the model.
\<close>

section \<open>Policy\<close>

definition reqComponent :: "string \<Rightarrow> ComponentIdentifier" where
  "reqComponent name = WithParams (js name) (Some [(js ''req'', PBool True)])"

definition reqMember :: "string \<Rightarrow> jstring \<Rightarrow> ComponentIdentifier" where
  "reqMember name key = WithParams (js name) (Some [(js ''req'', PBool True), (js ''key'', PString key)])"

definition responseComponents :: "jstring \<Rightarrow> ComponentIdentifier list" where
  "responseComponents requestLabel =
     [Named (js ''@status''), reqComponent ''@method'', reqComponent ''@authority'', reqComponent ''@target-uri'', reqComponent ''accept-signature'',
      reqMember ''signature-input'' requestLabel, reqMember ''signature'' requestLabel, Named (js ''content-digest''), Named (js ''cache-control'')]"

definition copyComponent :: "ComponentIdentifier \<Rightarrow> js_error + ComponentIdentifier" where
  "copyComponent c = bindE (validateComponentIdentifier c) (\<lambda>_.
     Inr (case c of Named n \<Rightarrow> Named n | WithParams n ps \<Rightarrow> WithParams n (Some (componentParams c))))"

definition copyComponents :: "ComponentIdentifier list \<Rightarrow> js_error + ComponentIdentifier list" where
  "copyComponents components = mapE copyComponent components"

definition checkResponseComponent :: "ComponentIdentifier \<Rightarrow> js_error + unit" where
  "checkResponseComponent c =
     (if componentName c \<in> set KNOWN_DERIVED_COMPONENTS \<and> componentName c \<noteq> js ''@status'' \<and> \<not> isReq c
        then Inl (ArgumentError ''response request-derived components require req'')
      else if componentName c \<in> {js ''signature'', js ''signature-input''} \<and> \<not> isReq c
        then Inl (ArgumentError ''response components cannot cover response signature fields'')
      else Inr ())"

definition validateResponseComponents :: "ComponentIdentifier list \<Rightarrow> js_error + unit" where
  "validateResponseComponents components =
     (if length components > 64 then Inl (ArgumentError ''too many response components'')
      else bindE (validateComponents components) (\<lambda>_. eachE checkResponseComponent components))"

definition responsePolicy ::
    "platform \<Rightarrow> ResponseSignatureOptions \<Rightarrow> jstring \<Rightarrow> js_error + ResponseSignatureOptions \<times> ComponentIdentifier list" where
  "responsePolicy P opts requestLabel =
     catchE
       (bindE (normalizeFQDN P (ro_expectedDomain opts) True) (\<lambda>expectedDomain.
        let components = responseComponents requestLabel @ ro_additionalComponents opts in
        bindE (validateResponseComponents components) (\<lambda>_.
        bindE (copyComponents (ro_additionalComponents opts)) (\<lambda>additional.
        bindE (copyComponents components) (\<lambda>copies.
        Inr (\<lparr>ro_expectedDomain = expectedDomain, ro_additionalComponents = additional\<rparr>, copies))))))
       (\<lambda>_. Inl (ArgumentError ''invalid response signature options''))"

definition snapshotSigningOptions :: "HttpSigningOptions \<Rightarrow> ResponseSignatureOptions \<Rightarrow> js_error + HttpSigningOptions" where
  "snapshotSigningOptions opts policy =
     bindE (copyComponents (hs_additionalComponents opts)) (\<lambda>cs.
     Inr (opts\<lparr>hs_additionalComponents := cs, hs_responseSignature := Some policy\<rparr>))"

definition isHttps :: "platform \<Rightarrow> http_request \<Rightarrow> js_error + bool" where
  "isHttps P request = (case urlParse P (rq_url request) of None \<Rightarrow> Inl (JsTypeError ''Invalid URL'') | Some u \<Rightarrow> Inr (url_protocol u = js ''https:''))"

definition optionalE :: "('a \<Rightarrow> 'e + 'b) \<Rightarrow> 'a option \<Rightarrow> 'e + unit" where
  "optionalE f v = (case v of None \<Rightarrow> Inr () | Some x \<Rightarrow> bindE (f x) (\<lambda>_. Inr ()))"

definition validateNegotiatedTarget :: "platform \<Rightarrow> http_lib \<Rightarrow> http_request \<Rightarrow> js_error + unit" where
  "validateNegotiatedTarget P L request =
     (if headersGet (rq_headers request) ''Accept-Signature'' \<noteq> None then Inl (ArgumentError ''Accept-Signature already exists'')
      else
        bindE (isHttps P request) (\<lambda>https.
        if \<not> https then Inl (ArgumentError ''negotiated responses require HTTPS'')
        else
          bindE (optionalE (parseSignatureInput L) (headersGet (rq_headers request) ''Signature-Input'')) (\<lambda>_.
          optionalE (parseSignature L) (headersGet (rq_headers request) ''Signature''))))"

section \<open>Negotiation\<close>

definition serializeNegotiation :: "http_lib \<Rightarrow> ComponentIdentifier list \<Rightarrow> jstring \<Rightarrow> js_error + jstring" where
  "serializeNegotiation L components nonce =
     bindE (serializeStructuredInnerList L (map componentItem components)
        [(js ''created'', SfBool True), (js ''expires'', SfBool True), (js ''nonce'', SfString nonce)]) (\<lambda>t.
     let v = js ''sig1='' @ t in
     if length v > 16 * 1024 then Inl (ArgumentError ''Accept-Signature exceeds 16 KiB'') else Inr v)"

text \<open>The number of semicolons outside of quoted strings.\<close>

fun countParameters :: "jstring \<Rightarrow> bool \<Rightarrow> bool \<Rightarrow> nat" where
  "countParameters [] quoted escaped = 0"
| "countParameters (ch # rest) quoted escaped =
     (if escaped then countParameters rest quoted False
      else if quoted \<and> ch = 92 then countParameters rest quoted True
      else
        let quoted' = (if ch = 34 then \<not> quoted else quoted) in
        (if \<not> quoted' \<and> ch = 59 then 1 else 0) + countParameters rest quoted' False)"

definition memberKeys :: "ComponentIdentifier list \<Rightarrow> string \<Rightarrow> jstring list" where
  "memberKeys components name =
     concat (map (\<lambda>c. if componentName c = js name \<and> isReq c then (case paramOf c ''key'' of Some (PString k) \<Rightarrow> [k] | _ \<Rightarrow> []) else []) components)"

definition requestedSignatureMember :: "ComponentIdentifier list \<Rightarrow> js_error + jstring" where
  "requestedSignatureMember components =
     (case (memberKeys components ''signature-input'', memberKeys components ''signature'') of
        ([a], [b]) \<Rightarrow> if a = b then Inr a else Inl (responseError ''response negotiation must bind one request signature member'')
      | _ \<Rightarrow> Inl (responseError ''response negotiation must bind one request signature member''))"

definition MAX_RESPONSE_NONCE_LENGTH :: nat where "MAX_RESPONSE_NONCE_LENGTH = 1024"

definition nonceBytes :: "jstring \<Rightarrow> js_error + bytes" where
  "nonceBytes nonce = bindE (atob (map (\<lambda>c. if c = 45 then 43 else if c = 95 then 47 else c) nonce)) (\<lambda>s. Inr (map of_nat s))"

definition checkNonce :: "bare_item option \<Rightarrow> js_error + jstring" where
  "checkNonce v =
     (case v of
        Some (SfString nonce) \<Rightarrow>
          if length nonce > MAX_RESPONSE_NONCE_LENGTH \<or> nonce = [] \<or> \<not> (\<forall>c \<in> set nonce. isAlnum c \<or> c = 95 \<or> c = 45)
            then Inl (responseError ''invalid response nonce'')
          else
            bindE (catchE (nonceBytes nonce) (\<lambda>_. Inl (responseError ''invalid response nonce encoding''))) (\<lambda>bs.
            if length bs < 32 \<or> toBase64Url bs \<noteq> nonce then Inl (responseError ''noncanonical or short response nonce'') else Inr nonce)
      | _ \<Rightarrow> Inl (responseError ''invalid response nonce''))"

record Negotiation =
  ng_label :: jstring
  ng_components :: "ComponentIdentifier list"
  ng_nonce :: jstring

definition parseNegotiation :: "http_lib \<Rightarrow> jstring \<Rightarrow> js_error + Negotiation" where
  "parseNegotiation L v =
     bindE (parseDictionaryField L v) (\<lambda>dictionary.
     case dictionary of
       [(label, SfInner items parameters)] \<Rightarrow>
         if countParameters v False False \<noteq> length parameters + sum_list (map (\<lambda>i. length (snd i)) items)
           then Inl (responseError ''duplicate Accept-Signature parameter'')
         else if length items > 64 then Inl (responseError ''too many requested response components'')
         else
           bindE (mapE parseComponentItem items) (\<lambda>components.
           bindE (catchE (validateResponseComponents components) (\<lambda>_. Inl (responseError ''unsupported response components''))) (\<lambda>_.
           bindE (requestedSignatureMember components) (\<lambda>requestLabel.
           if \<exists>required \<in> set (responseComponents requestLabel). \<not> covers components required
             then Inl (responseError ''missing required response coverage'')
           else if length parameters \<noteq> 3 \<or> map_of parameters (js ''created'') \<noteq> Some (SfBool True) \<or> map_of parameters (js ''expires'') \<noteq> Some (SfBool True)
             then Inl (responseError ''unsupported signature request constraints'')
           else
             bindE (checkNonce (map_of parameters (js ''nonce''))) (\<lambda>nonce.
             Inr \<lparr>ng_label = label, ng_components = components, ng_nonce = nonce\<rparr>))))
     | [_] \<Rightarrow> Inl (responseError ''Accept-Signature requires an Inner List'')
     | _ \<Rightarrow> Inl (responseError ''Accept-Signature requires exactly one member''))"

section \<open>Signed requests\<close>

text \<open>The request with its \<open>Accept-Signature\<close> field, and the options that cover it.\<close>

definition negotiate ::
    "platform \<Rightarrow> http_lib \<Rightarrow> bytes \<Rightarrow> HttpSigningOptions \<Rightarrow> http_request \<Rightarrow> js_error + http_request \<times> HttpSigningOptions" where
  "negotiate P L random opts req =
     (case hs_responseSignature opts of
        None \<Rightarrow> Inr (req, opts)
      | Some response \<Rightarrow>
          bindE (responsePolicy P response (case hs_label opts of None \<Rightarrow> DEFAULT_HTTP_SIGNATURE_LABEL | Some l \<Rightarrow> l)) (\<lambda>(_, components).
          bindE (validateNegotiatedTarget P L req) (\<lambda>_.
          bindE (generateNonce 32 random) (\<lambda>nonce.
          bindE (serializeNegotiation L components nonce) (\<lambda>v.
          bindE (headersSet (rq_headers req) ''Accept-Signature'' v) (\<lambda>h.
          Inr (req\<lparr>rq_headers := h\<rparr>, opts\<lparr>hs_additionalComponents := hs_additionalComponents opts @ [Named (js ''accept-signature'')]\<rparr>)))))))"

text \<open>The limits of a negotiated request: its signature must be readable by the peer.\<close>

definition checkNegotiatedLimits :: "http_lib \<Rightarrow> HttpSigningOptions \<Rightarrow> SignatureParams \<Rightarrow> js_error + unit" where
  "checkNegotiatedLimits L opts params =
     (if hs_responseSignature opts = None then Inr ()
      else if length (sp_components params) > 64 then Inl (ArgumentError ''negotiated request signature exceeds header or component limits'')
      else bindE (serializeSigParams L params) (\<lambda>t.
        if int (length t) > 16 * 1024 - int (length (sp_label params)) - 1
        then Inl (ArgumentError ''negotiated request signature exceeds header or component limits'') else Inr ()))"

definition checkReadable :: "http_lib \<Rightarrow> headers \<Rightarrow> js_error + unit" where
  "checkReadable L h =
     bindE (parseSignatureInput L (the (headersGet h ''Signature-Input''))) (\<lambda>_.
     bindE (parseSignature L (the (headersGet h ''Signature''))) (\<lambda>_. Inr ()))"

definition signRequest ::
    "platform \<Rightarrow> http_lib \<Rightarrow> crypto \<Rightarrow> HttpSignaturesProfile \<Rightarrow> signing_run \<Rightarrow> bytes \<Rightarrow> HttpSigningOptions \<Rightarrow> http_request \<Rightarrow> js_error + http_request" where
  "signRequest P L C p run random opts req =
     bindE (negotiate P L random opts req) (\<lambda>(req, opts).
     bindE (prepareSignature C p run opts req) (\<lambda>(req', params).
     bindE (checkNegotiatedLimits L opts params) (\<lambda>_.
     bindE (signHttpMessage P L C (RequestMessage req', None) params (su_signingKey run) (su_sign run)) (\<lambda>signed.
     case signed of
       ResponseMessage _ \<Rightarrow> Inl (JsTypeError ''not a request'')
     | RequestMessage signedReq \<Rightarrow>
         bindE (if hs_responseSignature opts = None then Inr () else checkReadable L (rq_headers signedReq)) (\<lambda>_. Inr signedReq)))))"

definition createSignedHttpRequest ::
    "platform \<Rightarrow> http_lib \<Rightarrow> crypto \<Rightarrow> HttpSignaturesProfile \<Rightarrow> signing_run \<Rightarrow> bytes \<Rightarrow> wait \<Rightarrow> bool \<Rightarrow> HttpSigningOptions \<Rightarrow> http_request \<Rightarrow> js_error + http_request" where
  "createSignedHttpRequest P L C p run random budget late opts req =
     (case hs_responseSignature opts of
        None \<Rightarrow> signRequest P L C p run random opts req
      | Some response \<Rightarrow>
          bindE (responsePolicy P response DEFAULT_HTTP_SIGNATURE_LABEL) (\<lambda>(policy, _).
          bindE (snapshotSigningOptions opts policy) (\<lambda>options.
          withVerificationBudget None budget late (signRequest P L C p run random options req))))"

section \<open>Responses\<close>

definition requireFinalResponse :: "http_request \<Rightarrow> http_response \<Rightarrow> js_error + unit" where
  "requireFinalResponse request response =
     (if rs_status response < 200 \<or> rs_status response > 599 \<or> rq_method request = js ''CONNECT'' then Inl (responseError ''not an ordinary final response'')
      else Inr ())"

definition noResponseContent :: "http_request \<Rightarrow> http_response \<Rightarrow> bool" where
  "noResponseContent request response \<longleftrightarrow> rq_method request = js ''HEAD'' \<or> rs_status response \<in> {204, 205, 304}"

fun keepVerificationError :: "js_error \<Rightarrow> js_error \<Rightarrow> js_error + 'a" where
  "keepVerificationError other (Verification v) = Inl (Verification v)"
| "keepVerificationError other _ = Inl other"

definition responseContent :: "(nat \<Rightarrow> wait) \<Rightarrow> http_request \<Rightarrow> http_response \<Rightarrow> bool \<Rightarrow> js_error + bytes" where
  "responseContent waits request response signing =
     (if noResponseContent request response \<and> (rs_body response = None \<or> signing) then Inr []
      else case rs_body response of
        None \<Rightarrow> Inl (responseError ''response content is unavailable'')
      | Some b \<Rightarrow>
          if rs_bodyUsed response then Inl (responseError ''response content is unavailable'')
          else
            catchE
              (bindE (readBoundedBody waits False MAX_HTTP_CONTENT_BYTES b) (\<lambda>content.
               if noResponseContent request response \<and> content \<noteq> [] then Inl (responseError ''content supplied for a no-content response'')
               else Inr content))
              (keepVerificationError (responseError ''unable to read exact response content'')))"

definition labelTaken :: "http_lib \<Rightarrow> http_response \<Rightarrow> jstring \<Rightarrow> js_error + bool" where
  "labelTaken L response label =
     bindE (case headersGet (rs_headers response) ''Signature-Input'' of None \<Rightarrow> Inr False
       | Some v \<Rightarrow> bindE (parseSignatureInput L v) (\<lambda>inputs. Inr (map_of inputs label \<noteq> None))) (\<lambda>a.
     if a then Inr True
     else case headersGet (rs_headers response) ''Signature'' of None \<Rightarrow> Inr False
       | Some v \<Rightarrow> bindE (parseSignature L v) (\<lambda>sigs. Inr (map_of sigs label \<noteq> None)))"

definition rejectLabelCollision :: "http_lib \<Rightarrow> http_response \<Rightarrow> jstring \<Rightarrow> js_error + unit" where
  "rejectLabelCollision L response label =
     bindE (labelTaken L response label) (\<lambda>taken.
     if taken then Inl (responseError ''requested response signature label already exists'') else Inr ())"

definition RESPONSE_SIGNATURE_LIFETIME_SECONDS :: int where "RESPONSE_SIGNATURE_LIFETIME_SECONDS = 60"

text \<open>The environment of a response signature: the signing inputs and the waits for the key and the signature.\<close>

record response_run = signing_run +
  ru_keyWait :: wait
  ru_signWait :: wait
  ru_budget :: wait
  ru_late :: bool

definition noStoreHeaders :: "headers \<Rightarrow> js_error + headers" where
  "noStoreHeaders h =
     bindE (if hasNoStore (headersGet h ''Cache-Control'') then Inr h else headersAppend h ''Cache-Control'' (js ''no-store'')) (\<lambda>h'.
     if \<not> hasNoStore (headersGet h' ''Cache-Control'') then Inl (ArgumentError ''malformed response Cache-Control'') else Inr h')"

definition signResponseWithinBudget ::
    "platform \<Rightarrow> http_lib \<Rightarrow> crypto \<Rightarrow> HttpSignaturesProfile \<Rightarrow> response_run \<Rightarrow> http_request \<Rightarrow> http_response \<Rightarrow> Negotiation \<Rightarrow> js_error + http_response" where
  "signResponseWithinBudget P L C p run request response negotiation =
     bindE (responseContent (su_reads run) request response True) (\<lambda>content.
     bindE (headersSet (rs_headers response) ''Content-Digest'' (sha256Field C content)) (\<lambda>h.
     bindE (noStoreHeaders h) (\<lambda>h'.
     let message = response\<lparr>rs_headers := h', rs_body := (if noResponseContent request response then None else Some [Inr content])\<rparr> in
     bindE (waitForVerification (ru_keyWait run) (su_signingKey run)) (\<lambda>key.
     case propOf key ''kid'' of
       JStr kid \<Rightarrow>
         if 35 \<in> set kid then Inl (ArgumentError ''signing key kid must not contain #'')
         else
           bindE (jwkSignatureAlg key) (\<lambda>joseAlg.
           bindE (joseAlgToHttpSigAlg joseAlg) (\<lambda>alg.
           let params = \<lparr>sp_label = ng_label negotiation, sp_components = ng_components negotiation, sp_keyId = Some (hp_domain p @ 35 # kid),
                 sp_alg = Some alg, sp_created = Some (su_now run), sp_expires = Some (su_now run + RESPONSE_SIGNATURE_LIFETIME_SECONDS),
                 sp_nonce = Some (ng_nonce negotiation), sp_tag = None, sp_parameters = None\<rparr> in
           bindE (serializeSigParams L params) (\<lambda>t.
           bindE (assertHeaderBound (sp_label params @ 61 # t)) (\<lambda>_.
           bindE (waitForVerification (ru_signWait run)
              (signHttpMessage P L C (ResponseMessage message, Some request) params (Inr key) (su_sign run))) (\<lambda>signed.
           case signed of
             RequestMessage _ \<Rightarrow> Inl (JsTypeError ''not a response'')
           | ResponseMessage signedRes \<Rightarrow>
               bindE (parseSignatureInput L (the (headersGet (rs_headers signedRes) ''Signature-Input''))) (\<lambda>_.
               bindE (buildSignatureInput P L (signed, Some request) params) (\<lambda>input.
               bindE (parseSignature L (the (headersGet (rs_headers signedRes) ''Signature''))) (\<lambda>sigs.
               if \<not> verifyWithKey C (Inr input) (the (map_of sigs (sp_label params))) key (Some joseAlg)
                 then Inl (ArgumentError ''response signing key changed during signing'')
               else Inr signedRes))))))))
     | _ \<Rightarrow> Inl (JsTypeError ''kid.includes is not a function'')))))"

definition signRequestedHttpResponse ::
    "platform \<Rightarrow> http_lib \<Rightarrow> crypto \<Rightarrow> HttpSignaturesProfile \<Rightarrow> response_run \<Rightarrow> http_request \<Rightarrow> http_response \<Rightarrow> js_error + http_response" where
  "signRequestedHttpResponse P L C p run request response =
     (case headersGet (rq_headers request) ''Accept-Signature'' of
        None \<Rightarrow> Inr response
      | Some header \<Rightarrow>
          bindE (parseNegotiation L header) (\<lambda>negotiation.
          bindE (requireFinalResponse request response) (\<lambda>_.
          bindE (rejectLabelCollision L response (ng_label negotiation)) (\<lambda>_.
          if \<not> hp_hasKeyProvider p then Inl (ArgumentError ''HTTP message signing requires a keyProvider'')
          else withVerificationBudget None (ru_budget run) (ru_late run) (signResponseWithinBudget P L C p run request response negotiation)))))"

section \<open>Verification of responses\<close>

definition checkResponseFreshness :: "http_lib \<Rightarrow> HttpSignaturesProfile \<Rightarrow> int \<Rightarrow> int \<Rightarrow> int \<Rightarrow> js_error + unit" where
  "checkResponseFreshness L p now created expires =
     (if \<not> (expires - created > 0 \<and> expires - created \<le> RESPONSE_SIGNATURE_LIFETIME_SECONDS)
        then Inl (failWith ''response signature lifetime must be 1 to 60 seconds'' SignatureInvalid)
      else
        bindE (checkFreshness L p now created None) (\<lambda>_.
        if of_int now > roundSum L (of_int expires) (clockSkewSeconds p) then Inl (failWith ''response signature has expired'' SignatureInvalid)
        else Inr ()))"

text \<open>The two readings of the clock, the clock of the freshness of the identity, the resolver, and the waits.\<close>

record verification_run =
  vu_now :: int
  vu_now2 :: int
  vu_nowMs :: int
  vu_resolve :: "jstring \<Rightarrow> TLSCertificate option \<Rightarrow> js_error + VerifiedDomain"
  vu_wait :: wait
  vu_reads :: "nat \<Rightarrow> wait"
  vu_budget :: wait
  vu_late :: bool

text \<open>Integer timestamps are required of the members with the requested label.\<close>

definition checkTimestamps :: "http_lib \<Rightarrow> jstring \<Rightarrow> jstring \<Rightarrow> js_error + unit" where
  "checkTimestamps L inputHeader label =
     bindE (splitDictionary inputHeader) (\<lambda>entries.
     eachE (\<lambda>entry.
       if trim (case index_of 61 entry of None \<Rightarrow> butlast entry | Some i \<Rightarrow> take i entry) \<noteq> label then Inr ()
       else bindE (parseSignatureParameterOccurrences L (afterEquals entry) True) (\<lambda>_. Inr ())) entries)"

definition sameNegotiation :: "SignatureParams \<Rightarrow> Negotiation \<Rightarrow> bool" where
  "sameNegotiation params requested \<longleftrightarrow>
     length (sp_components params) = length (ng_components requested) \<and>
     list_all2 sameComponent (sp_components params) (ng_components requested) \<and> sp_nonce params = Some (ng_nonce requested)"

definition responseKeyId :: "platform \<Rightarrow> jstring \<Rightarrow> js_error + jstring \<times> jstring" where
  "responseKeyId P keyId = catchE (parseKeyId P keyId) (\<lambda>_. Inl (responseError ''invalid response keyid''))"

definition checkResponseSignature ::
    "platform \<Rightarrow> http_lib \<Rightarrow> crypto \<Rightarrow> http_request \<Rightarrow> http_response \<Rightarrow> SignatureParams \<Rightarrow> bytes \<Rightarrow> json \<Rightarrow> js_error + unit" where
  "checkResponseSignature P L C request response params signature key =
     catchE
       (bindE (jwkSignatureAlg key) (\<lambda>alg.
        bindE (joseAlgToHttpSigAlg alg) (\<lambda>httpAlg.
        if sp_alg params \<noteq> Some httpAlg then Inl (responseError ''invalid response signature or key algorithm'')
        else
          bindE (buildSignatureInput P L (ResponseMessage response, Some request) params) (\<lambda>input.
          if \<not> verifyWithKey C (Inr input) signature key (Some alg) then Inl (responseError ''invalid response signature or key algorithm'') else Inr ()))))
       (keepVerificationError (responseError ''invalid response signature base or key''))"

definition orEmptyText :: "jstring option \<Rightarrow> jstring" where
  "orEmptyText v = (case v of None \<Rightarrow> [] | Some s \<Rightarrow> s)"

definition verifyResponseIdentity ::
    "platform \<Rightarrow> http_lib \<Rightarrow> crypto \<Rightarrow> HttpSignaturesProfile \<Rightarrow> verification_run \<Rightarrow> http_request \<Rightarrow> http_response \<Rightarrow> jstring \<Rightarrow> TLSCertificate option \<Rightarrow>
     SignatureParams \<Rightarrow> bytes \<Rightarrow> int \<Rightarrow> int \<Rightarrow> jstring \<Rightarrow> js_error + VerifiedDomain" where
  "verifyResponseIdentity P L C p run request response expectedDomain peerCert params signature created expires keyId =
     bindE (checkResponseFreshness L p (vu_now run) created expires) (\<lambda>_.
     bindE (responseKeyId P keyId) (\<lambda>(domain, kid).
     if domain \<noteq> expectedDomain then Inl (responseError ''unexpected response signer domain'')
     else
       bindE (waitForVerification (vu_wait run) (vu_resolve run domain peerCert)) (\<lambda>vd.
       bindE (keyById (vd_jwks vd) kid) (\<lambda>found.
       case found of
         None \<Rightarrow> Inl (failWith ''response kid not found in current JWKS'' KeyNotFound)
       | Some key \<Rightarrow>
           bindE (checkResponseSignature P L C request response params signature key) (\<lambda>_.
           bindE (parseSha256ContentDigest L (orEmptyText (headersGet (rs_headers response) ''Content-Digest'')) (sp_components params)) (\<lambda>digest.
           bindE (responseContent (vu_reads run) request response False) (\<lambda>content.
           if \<not> constantTimeEqual digest (hash256 C content) then Inl (responseError ''response Content-Digest mismatch'')
           else if \<not> hasNoStore (headersGet (rs_headers response) ''Cache-Control'') then Inl (responseError ''response requires signed no-store'')
           else
             bindE (checkResponseFreshness L p (vu_now2 run) created expires) (\<lambda>_.
             bindE (assertFresh (vu_nowMs run) vd) (\<lambda>_. Inr vd)))))))))"

definition verifyResponseWithinBudget ::
    "platform \<Rightarrow> http_lib \<Rightarrow> crypto \<Rightarrow> HttpSignaturesProfile \<Rightarrow> verification_run \<Rightarrow> http_request \<Rightarrow> http_response \<Rightarrow> ResponseSignatureOptions \<Rightarrow>
     TLSCertificate option \<Rightarrow> js_error + VerifiedDomain" where
  "verifyResponseWithinBudget P L C p run request response policy peerCert =
     bindE (requireFinalResponse request response) (\<lambda>_.
     bindE (isHttps P request) (\<lambda>https.
     if \<not> https then Inl (responseError ''negotiated responses require HTTPS'')
     else
       bindE (parseNegotiation L (orEmptyText (headersGet (rq_headers request) ''Accept-Signature''))) (\<lambda>requested.
       if \<exists>c \<in> set (ro_additionalComponents policy). \<not> covers (ng_components requested) c
         then Inl (responseError ''saved negotiation omits local coverage'')
       else
         let inputHeader = orEmptyText (headersGet (rs_headers response) ''Signature-Input'') in
         bindE (parseSignatureInput L inputHeader) (\<lambda>inputs.
         bindE (checkTimestamps L inputHeader (ng_label requested)) (\<lambda>_.
         bindE (parseSignature L (orEmptyText (headersGet (rs_headers response) ''Signature''))) (\<lambda>signatures.
         case (map_of inputs (ng_label requested), map_of signatures (ng_label requested)) of
           (Some params, Some signature) \<Rightarrow>
             if \<not> sameNegotiation params requested then Inl (responseError ''response coverage or nonce differs from negotiation'')
             else
               (case (sp_created params, sp_expires params, sp_alg params, sp_keyId params) of
                  (Some created, Some expires, Some alg, Some keyId) \<Rightarrow>
                    if alg \<notin> {js ''ed25519'', js ''ecdsa-p256-sha256''} \<or> keyId = []
                      then Inl (responseError ''response requires timestamps, algorithm, and keyid'')
                    else verifyResponseIdentity P L C p run request response (ro_expectedDomain policy) peerCert params signature created expires keyId
                | _ \<Rightarrow> Inl (responseError ''response requires timestamps, algorithm, and keyid''))
         | _ \<Rightarrow> Inl (responseError ''missing requested response signature'')))))))"

definition verifySignedHttpResponse ::
    "platform \<Rightarrow> http_lib \<Rightarrow> crypto \<Rightarrow> HttpSignaturesProfile \<Rightarrow> verification_run \<Rightarrow> http_request \<Rightarrow> http_response \<Rightarrow> ResponseSignatureOptions \<Rightarrow>
     TLSCertificate option \<Rightarrow> jsnum option \<Rightarrow> js_error + VerifiedDomain" where
  "verifySignedHttpResponse P L C p run request response opts peerCert timeoutMs =
     bindE (responsePolicy P opts DEFAULT_HTTP_SIGNATURE_LABEL) (\<lambda>(policy, _).
     withVerificationBudget timeoutMs (vu_budget run) (vu_late run) (verifyResponseWithinBudget P L C p run request response policy peerCert))"

section \<open>The signing fetch\<close>

text \<open>
  One invocation of the function that \<open>createSignedFetch\<close> returns. Whether the body is a stream, the
  request that \<open>prepareRequest\<close> makes of the input, the answers of the transports, and whether the signal
  was aborted when the transport answered are inputs.
\<close>

record fetch_run =
  fu_stream :: bool
  fu_prepared :: "js_error + http_request"
  fu_fetch :: "(http_request \<Rightarrow> js_error + http_response) option"
  fu_transport :: "(http_request \<Rightarrow> js_error + http_response \<times> TLSCertificate option) option"
  fu_aborted :: bool
  fu_wait :: wait
  fu_timeoutMs :: "jsnum option"
  fu_budget :: wait
  fu_late :: bool

definition signedFetch ::
    "platform \<Rightarrow> http_lib \<Rightarrow> crypto \<Rightarrow> HttpSignaturesProfile \<Rightarrow> signing_run \<Rightarrow> bytes \<Rightarrow> verification_run \<Rightarrow> fetch_run \<Rightarrow> HttpSigningOptions \<Rightarrow> js_error + http_response" where
  "signedFetch P L C p srun random vrun frun opts =
     (if fu_stream frun then Inl (ArgumentError ''createSignedFetch does not support non-replayable ReadableStream request bodies'')
      else
        bindE (fu_prepared frun) (\<lambda>preparedReq.
        case hs_responseSignature opts of
          None \<Rightarrow>
            (case fu_fetch frun of
               None \<Rightarrow> Inl (ArgumentError ''createSignedFetch requires fetch for request-only signing'')
             | Some fetch \<Rightarrow> bindE (signRequest P L C p srun random opts preparedReq) fetch)
        | Some response \<Rightarrow>
            bindE (responsePolicy P response DEFAULT_HTTP_SIGNATURE_LABEL) (\<lambda>(policy, _).
            case fu_transport frun of
              None \<Rightarrow> Inl (ArgumentError ''negotiated responses require a single-send responseTransport'')
            | Some transport \<Rightarrow>
                bindE (snapshotSigningOptions opts policy) (\<lambda>signing.
                withVerificationBudget (fu_timeoutMs frun) (fu_budget frun) (fu_late frun)
                  (bindE (signRequest P L C p srun random signing preparedReq) (\<lambda>signedReq.
                   bindE (waitForVerification (fu_wait frun)
                      (bindE (transport signedReq) (\<lambda>result.
                       if fu_aborted frun then Inl (failTransient ''send canceled'' RecordInvalid) else Inr result))) (\<lambda>(res, peerCert).
                   bindE (verifySignedHttpResponse P L C p vrun signedReq res policy peerCert None) (\<lambda>_. Inr res))))))))"

end
