(* ===== verification/HttpSound.thy ===== *)
theory HttpSound
  imports HttpBase HttpResponses
begin

text \<open>
  What a verified HTTP message guarantees, and that the verifier of a signed message reconstructs the text
  that was signed.
\<close>

section \<open>Freshness and content\<close>

definition freshSignature :: "http_lib \<Rightarrow> HttpSignaturesProfile \<Rightarrow> int \<Rightarrow> int \<Rightarrow> int option \<Rightarrow> bool" where
  "freshSignature L p now created expires \<longleftrightarrow>
     of_int (now - created) \<le> maxAgeSeconds p \<and> of_int created \<le> roundSum L (of_int now) (clockSkewSeconds p) \<and>
     (\<forall>e. expires = Some e \<longrightarrow> created \<le> e \<and> of_int now \<le> roundSum L (of_int e) (clockSkewSeconds p) \<and> of_int (e - created) \<le> maxAgeSeconds p)"

lemma checkFreshness_Inr: "checkFreshness L p now created expires = Inr () \<longleftrightarrow> freshSignature L p now created expires"
  by (auto simp: checkFreshness_def freshSignature_def split: if_splits option.splits)

lemma readLoop_Inr:
  "readLoop waits n i acc rs = Inr bs \<Longrightarrow> (\<exists>cs. rs = map Inr cs \<and> bs = acc @ concat cs) \<and> (length acc \<le> n \<longrightarrow> length bs \<le> n)"
proof (induction rs arbitrary: i acc)
  case (Cons r rs)
  then obtain c where c: "r = Inr c" "length acc + length c \<le> n" "readLoop waits n (Suc i) (acc @ c) rs = Inr bs"
    by (auto simp: bindE_eq_Inr waitForVerification_eq_Inr split: if_splits)
  from Cons.IH [OF c(3)] obtain cs where "rs = map Inr cs" "bs = (acc @ c) @ concat cs" "length bs \<le> n" using c(2) by auto
  then show ?case using c(1) by (auto intro!: exI [of _ "c # cs"])
qed (auto simp: waitForVerification_eq_Inr)

text \<open>The bytes of a body whose reads all succeed.\<close>

definition bodyBytes :: "body \<Rightarrow> bytes \<Rightarrow> bool" where
  "bodyBytes b bs \<longleftrightarrow> (\<exists>cs. b = map Inr cs \<and> bs = concat cs)"

lemma readBoundedBody_Inr: "readBoundedBody waits used maxBytes b = Inr bs \<Longrightarrow> bodyBytes b bs \<and> length bs \<le> maxBytes"
  using readLoop_Inr [of waits maxBytes 0 "[]" b bs] by (auto simp: readBoundedBody_def bodyBytes_def split: if_splits)

text \<open>The content of a request: its digest is covered and in the field, or there is no body.\<close>

definition contentCovered :: "http_lib \<Rightarrow> crypto \<Rightarrow> http_request \<Rightarrow> ComponentIdentifier list \<Rightarrow> bool" where
  "contentCovered L C req components \<longleftrightarrow>
     (case rq_body req of
        None \<Rightarrow> \<not> hasComponentNamed components ''content-digest''
      | Some b \<Rightarrow> covers components (Named (js ''content-digest'')) \<and>
          (\<exists>field content. headersGet (rq_headers req) ''Content-Digest'' = Some field \<and> bodyBytes b content \<and>
             parseSha256ContentDigest L field components = Inr (hash256 C content)))"

lemma covers_named: "covers components (Named n) \<Longrightarrow> \<exists>c \<in> set components. componentName c = n"
  by (auto simp: covers_def sameComponent_def)

lemma checkRequestContent_Inr: "checkRequestContent L C run req components = Inr () \<Longrightarrow> contentCovered L C req components"
  using covers_named [of components "js ''content-digest''"]
  by (cases "rq_body req")
    (auto simp: checkRequestContent_def contentCovered_def hasComponentNamed_def bindE_eq_Inr constantTimeEqual_iff
      split: if_splits option.splits dest!: readBoundedBody_Inr)

section \<open>Verified requests\<close>

lemma textDecode_plain: "\<forall>c \<in> set s. c < 256 \<Longrightarrow> textDecode False (utf8 s) = Inr s"
proof -
  assume s: "\<forall>c \<in> set s. c < 256"
  then have "validUnicode s" by (auto intro!: validUnicode_latin)
  moreover have "s \<noteq> [] \<Longrightarrow> hd s \<noteq> 0xFEFF" using s by (cases s) auto
  ultimately show ?thesis by (auto simp: textDecode_def utf8Text_utf8)
qed

lemma catchE_rethrow: "catchE m h = Inr x \<Longrightarrow> (\<And>e. isl (h e)) \<Longrightarrow> m = Inr x"
  by (metis catchE_eq_Inr sum.disc(2))

lemma requestBase_Inr:
  assumes "sfPlain L" and "plainMessage P (RequestMessage req, None)" and "requestBase P L req params = Inr t"
  shows "buildSignatureInput P L (RequestMessage req, None) params = Inr (utf8 t)"
proof -
  from assms(3) obtain bs where bs: "buildSignatureInput P L (RequestMessage req, None) params = Inr bs" "textDecode False bs = Inr t"
    unfolding requestBase_def by (drule_tac catchE_rethrow) (auto simp: bindE_eq_Inr split: js_error.split)
  then obtain s where s: "signatureBase P L (RequestMessage req, None) params = Inr s" "bs = utf8 s" by (auto simp: buildSignatureInput_def bindE_eq_Inr)
  from signatureBase_parts [OF assms(1,2) s(1)] have "\<forall>c \<in> set s. c < 256" using join_plain by blast
  then show ?thesis using bs s textDecode_plain [of s] by simp
qed

definition authenticRequest ::
    "platform \<Rightarrow> http_lib \<Rightarrow> crypto \<Rightarrow> HttpSignaturesProfile \<Rightarrow> HttpVerificationOptions \<Rightarrow> http_request \<Rightarrow> candidate_run \<Rightarrow>
     SignatureParams \<Rightarrow> bytes \<Rightarrow> VerifiedDomain \<Rightarrow> bool" where
  "authenticRequest P L C p opts req run params rawSig vd \<longleftrightarrow>
     (\<forall>c \<in> set (requiredOf opts). covers (sp_components params) c) \<and>
     (\<exists>created. sp_created params = Some created \<and> freshSignature L p (cr_now run) created (sp_expires params)) \<and>
     contentCovered L C req (sp_components params) \<and>
     (\<exists>keyId domain kid key alg base. sp_keyId params = Some keyId \<and> parseKeyId P keyId = Inr (domain, kid) \<and>
        cr_resolve run domain (ho_peerCert opts) = Inr vd \<and> keyById (vd_jwks vd) kid = Inr (Some key) \<and> jwkSignatureAlg key = Inr alg \<and>
        buildSignatureInput P L (RequestMessage req, None) params = Inr base \<and> verifyWithKey C (Inr base) rawSig key (Some alg))"

lemma verifySignatureCandidate_Inr:
  assumes "sfPlain L" and "plainMessage P (RequestMessage req, None)" and "verifySignatureCandidate P L C p opts req run params rawSig = Inr vd"
  shows "authenticRequest P L C p opts req run params rawSig vd"
proof -
  from assms(3) obtain created domain kid where
    a: "\<forall>c \<in> set (requiredOf opts). covers (sp_components params) c" "sp_created params = Some created" "sp_keyId params \<noteq> None"
      "candidateKeyId P params = Inr (domain, kid)" "checkFreshness L p (cr_now run) created (sp_expires params) = Inr ()"
      "cr_resolve run domain (ho_peerCert opts) = Inr vd"
    by (auto simp: verifySignatureCandidate_def bindE_eq_Inr waitForVerification_eq_Inr split: if_splits option.splits)
  from assms(3) obtain key alg base where
    b: "keyById (vd_jwks vd) kid = Inr (Some key)" "checkRequestContent L C run req (sp_components params) = Inr ()" "jwkSignatureAlg key = Inr alg"
      "requestBase P L req params = Inr base" "verifyWithKey C (Inr (utf8 base)) rawSig key (Some alg)"
    using a by (auto simp: verifySignatureCandidate_def bindE_eq_Inr waitForVerification_eq_Inr split: if_splits option.splits)
  have "parseKeyId P (the (sp_keyId params)) = Inr (domain, kid)"
    using a(4) unfolding candidateKeyId_def by (rule catchE_rethrow) (simp split: js_error.split)
  then obtain keyId where "sp_keyId params = Some keyId" "parseKeyId P keyId = Inr (domain, kid)" using a(3) by auto
  then show ?thesis using a b requestBase_Inr [OF assms(1,2) b(4)] checkRequestContent_Inr [OF b(2)]
    unfolding authenticRequest_def checkFreshness_Inr by blast
qed

text \<open>The loop over the candidates accepts exactly one.\<close>

lemma candidateLoop_verified:
  assumes "candidateLoop verify runs i (Some vd) e ps = Inr r"
  shows "r = vd \<and> (\<forall>j < length ps. isl (verify (runs (i + j)) (ps ! j)))"
  using assms
proof (induction ps arbitrary: i e)
  case (Cons q ps)
  then obtain e' where e': "verify (runs i) q = Inl e'" "candidateLoop verify runs (Suc i) (Some vd) (Some e') ps = Inr r"
    by (auto split: if_splits sum.splits)
  from Cons.IH [OF e'(2)] show ?case using e'(1) by (auto simp: less_Suc_eq_0_disj)
qed simp

lemma candidateLoop_Inr:
  assumes "candidateLoop verify runs i None e ps = Inr vd"
  shows "\<exists>j < length ps. verify (runs (i + j)) (ps ! j) = Inr vd \<and> (\<forall>k < length ps. k \<noteq> j \<longrightarrow> isl (verify (runs (i + k)) (ps ! k)))"
  using assms
proof (induction ps arbitrary: i e)
  case (Cons q ps)
  show ?case
  proof (cases "verify (runs i) q")
    case (Inl e')
    then have "candidateLoop verify runs (Suc i) None (Some e') ps = Inr vd" using Cons.prems by (auto split: if_splits)
    from Cons.IH [OF this] obtain j where "j < length ps" "verify (runs (Suc i + j)) (ps ! j) = Inr vd"
      "\<forall>k < length ps. k \<noteq> j \<longrightarrow> isl (verify (runs (Suc i + k)) (ps ! k))" by blast
    then show ?thesis using Inl by (intro exI [of _ "Suc j"]) (auto simp: less_Suc_eq_0_disj)
  next
    case (Inr x)
    then have "candidateLoop verify runs (Suc i) (Some x) e ps = Inr vd" using Cons.prems by (auto split: if_splits)
    from candidateLoop_verified [OF this] show ?thesis using Inr by (intro exI [of _ 0]) (auto simp: less_Suc_eq_0_disj)
  qed
qed (simp split: option.splits)

text \<open>
  C9. A verified request was signed by the identity that is returned: exactly one of its signatures with the
  required tag passes, it covers the required components, its \<open>keyid\<close> names the domain that was resolved
  and a key that the domain publishes, it verifies under that key over the signature base of this
  request, it is fresh at the time of the check, and a body has a covered digest that is the SHA-256 of its
  bytes.
\<close>

theorem verifySignedHttpRequest_sound:
  assumes "sfPlain L" and "plainMessage P (RequestMessage req, None)"
    and "verifySignedHttpRequest P L C p opts budget late runs req = Inr vd"
  shows "\<exists>inputHeader sigHeader inputs sigs candidates i rawSig.
    headersGet (rq_headers req) ''Signature-Input'' = Some inputHeader \<and> headersGet (rq_headers req) ''Signature'' = Some sigHeader \<and>
    parseSignatureInput L inputHeader = Inr inputs \<and> parseSignature L sigHeader = Inr sigs \<and>
    selectSignatureCandidates inputs sigs (ho_requiredTag opts) = Inr candidates \<and> i < length candidates \<and>
    map_of sigs (sp_label (candidates ! i)) = Some rawSig \<and> authenticRequest P L C p opts req (runs i) (candidates ! i) rawSig vd \<and>
    (\<forall>j < length candidates. j \<noteq> i \<longrightarrow>
       isl (verifySignatureCandidate P L C p opts req (runs j) (candidates ! j) (the (map_of sigs (sp_label (candidates ! j))))))"
proof -
  from assms(3) obtain inputHeader sigHeader inputs sigs candidates where
    h: "headersGet (rq_headers req) ''Signature-Input'' = Some inputHeader" "headersGet (rq_headers req) ''Signature'' = Some sigHeader"
      "parseSignatureInput L inputHeader = Inr inputs" "parseSignature L sigHeader = Inr sigs"
      "selectSignatureCandidates inputs sigs (ho_requiredTag opts) = Inr candidates"
    and loop: "candidateLoop (\<lambda>run params. verifySignatureCandidate P L C p opts req run params (the (map_of sigs (sp_label params)))) runs 0 None None candidates = Inr vd"
    by (auto simp: verifySignedHttpRequest_def verifyRequestWithinBudget_def withVerificationBudget_eq_Inr bindE_eq_Inr split: option.splits if_splits)
  from candidateLoop_Inr [OF loop] obtain i where i: "i < length candidates"
      "verifySignatureCandidate P L C p opts req (runs i) (candidates ! i) (the (map_of sigs (sp_label (candidates ! i)))) = Inr vd"
      "\<forall>j < length candidates. j \<noteq> i \<longrightarrow> isl (verifySignatureCandidate P L C p opts req (runs j) (candidates ! j) (the (map_of sigs (sp_label (candidates ! j)))))"
    by auto
  have "map_of sigs (sp_label (candidates ! i)) \<noteq> None"
    using h(5) nth_mem [OF i(1)] by (auto simp: selectSignatureCandidates_def Let_def split: if_splits)
  then obtain rawSig where "map_of sigs (sp_label (candidates ! i)) = Some rawSig" by blast
  then show ?thesis using h i verifySignatureCandidate_Inr [OF assms(1,2), of C p opts "runs i" "candidates ! i" rawSig vd] by auto
qed

section \<open>Signed requests\<close>

lemma stripHttpSpace_id: "s \<noteq> [] \<Longrightarrow> hd s \<notin> {9, 10, 13, 32} \<Longrightarrow> last s \<notin> {9, 10, 13, 32} \<Longrightarrow> stripHttpSpace s = s"
proof -
  assume "s \<noteq> []" "hd s \<notin> {9, 10, 13, 32}" "last s \<notin> {9, 10, 13, 32}"
  then have "dropWhile (\<lambda>c. c \<in> {9, 10, 13, 32}) s = s" "dropWhile (\<lambda>c. c \<in> {9, 10, 13, 32}) (rev s) = rev s"
    by (simp_all only: dropWhile_eq_self_iff hd_rev simp_thms)
  then show ?thesis unfolding stripHttpSpace_def by (simp only: rev_rev_ident)
qed

lemma sha256Field_stripped: "stripHttpSpace (sha256Field C content) = sha256Field C content"
  by (rule stripHttpSpace_id) (auto simp: sha256Field_def)

text \<open>A dictionary field with the member \<open>label=v\<close> among others.\<close>

definition memberText :: "jstring \<Rightarrow> jstring \<Rightarrow> jstring \<Rightarrow> bool" where
  "memberText field label v \<longleftrightarrow> (\<exists>before after. field = stripHttpSpace (join (js '', '') (before @ [label @ 61 # v] @ after)))"

lemma setDictionaryMember_only:
  assumes "setDictionaryMember L h name label v = Inr h'"
  shows "\<exists>x. h' = h(asciiLower (js name) \<mapsto> x) \<and> memberText x label v"
proof -
  let ?t = "label @ 61 # v"
  have one: "memberText (stripHttpSpace ?t) label v" unfolding memberText_def by (intro exI [of _ "[]"]) simp
  have among: "memberText (stripHttpSpace (join (js '', '') (if i < n then es[i := ?t] else es @ [?t]))) label v" if "n = length es" for i n es
  proof (cases "i < n")
    case True
    then have "es[i := ?t] = take i es @ [?t] @ drop (Suc i) es" using that by (simp add: upd_conv_take_nth_drop)
    then show ?thesis using True unfolding memberText_def by (intro exI [of _ "take i es"] exI [of _ "drop (Suc i) es"]) (simp only: if_True)
  next
    case False
    then show ?thesis unfolding memberText_def by (intro exI [of _ es] exI [of _ "[]"]) simp
  qed
  have set: "\<exists>x. g = h(asciiLower (js name) \<mapsto> x) \<and> x = stripHttpSpace t" if "headersSet h name t = Inr g" for t g
    using that by (auto simp: headersSet_def split: if_splits)
  have body: "(let replacementText = ?t in
        bindE (parseStructuredDictionary L replacementText) (\<lambda>replacement.
        if length replacement \<noteq> 1 \<or> map_of replacement label = None then Inl (PlainError ''invalid replacement dictionary member'')
        else case headersGet h name of
          Some (c # current) \<Rightarrow>
            bindE (splitDictionary (c # current)) (\<lambda>entries.
            bindE (parseStructuredDictionary L (c # current)) (\<lambda>dictionary.
            if length dictionary \<noteq> length entries then Inl (PlainError ''duplicate dictionary member'')
            else
              let index = length (takeWhile (\<lambda>m. fst m \<noteq> label) dictionary);
                  entries' = (if index < length dictionary then entries[index := replacementText] else entries @ [replacementText]) in
              headersSet h name (join (js '', '') entries')))
        | _ \<Rightarrow> headersSet h name replacementText)) = Inr h'"
    using assms unfolding setDictionaryMember_def by (rule catchE_rethrow) simp
  show ?thesis
  proof (cases "headersGet h name = None \<or> headersGet h name = Some []")
    case True
    then have "headersSet h name ?t = Inr h'" using body by (elim disjE) (auto simp: Let_def bindE_eq_Inr split: if_split_asm)
    then show ?thesis using set one by blast
  next
    case False
    then obtain c current where "headersGet h name = Some (c # current)" by (metis list.exhaust option.exhaust)
    moreover define put where "put i n es = (if i < n then es[i := ?t] else es @ [?t])" for i n :: nat and es
    ultimately obtain es and dictionary :: "(jstring \<times> sf_member) list" where es: "length dictionary = length es"
        "headersSet h name (join (js '', '') (put (length (takeWhile (\<lambda>m. fst m \<noteq> label) dictionary)) (length dictionary) es)) = Inr h'"
      using body unfolding Let_def put_def [symmetric] by (auto simp only: bindE_eq_Inr option.case list.case split: if_split_asm)
    show ?thesis using set [OF es(2)] among [OF es(1)] unfolding put_def by blast
  qed
qed

lemma signHttpMessage_Inr:
  assumes "signHttpMessage P L C m params signingKey sign = Inr sent"
  shows "\<exists>key base rawSig alg h a b t. signingKey = Inr key \<and> buildSignatureInput P L m params = Inr base \<and> sign base = Inr rawSig \<and>
    jwkSignatureAlg key = Inr alg \<and> verifyWithKey C (Inr base) rawSig key (Some alg) \<and> sent = withHeaders (fst m) h \<and>
    h = (messageHeaders (fst m))(js ''signature-input'' \<mapsto> a, js ''signature'' \<mapsto> b) \<and> serializeSigParams L params = Inr t \<and>
    memberText a (sp_label params) t \<and> memberText b (sp_label params) (58 # toStdBase64 rawSig @ [58])"
proof -
  from assms obtain key base rawSig alg t h h' where
    s: "signingKey = Inr key" "buildSignatureInput P L m params = Inr base" "sign base = Inr rawSig" "jwkSignatureAlg key = Inr alg"
      "verifyWithKey C (Inr base) rawSig key (Some alg)" "serializeSigParams L params = Inr t"
      "setDictionaryMember L (messageHeaders (fst m)) ''Signature-Input'' (sp_label params) t = Inr h"
      "setDictionaryMember L h ''Signature'' (sp_label params) (58 # toStdBase64 rawSig @ [58]) = Inr h'" "sent = withHeaders (fst m) h'"
    by (auto simp: signHttpMessage_def bindE_eq_Inr split: if_splits)
  moreover have "asciiLower (js ''Signature-Input'') = js ''signature-input''" "asciiLower (js ''Signature'') = js ''signature''"
    by (simp_all add: asciiLower_def isUpper_def)
  ultimately show ?thesis using setDictionaryMember_only [OF s(7)] setDictionaryMember_only [OF s(8)] by (auto simp del: js_Cons)
qed

text \<open>The base of a request does not depend on fields that no component names.\<close>

lemma lowerName: "validateComponentIdentifier c = Inr () \<Longrightarrow> asciiLower (componentName c) = componentName c"
  by (rule asciiLower_id) (auto simp: validateComponentIdentifier_def Let_def isLowercaseHttpFieldName_def isLower_def isUpper_def isDigit_def
      KNOWN_DERIVED_COMPONENTS_def split: if_splits)

lemma extract_headers:
  assumes "\<And>k. k = componentName c \<Longrightarrow> h k = rq_headers req k"
  shows "extractComponentValue P L (RequestMessage (req\<lparr>rq_headers := h\<rparr>), None) c = extractComponentValue P L (RequestMessage req, None) c"
proof (cases "validateComponentIdentifier c")
  case (Inr u)
  then have "asciiLower (componentName c) = componentName c" using lowerName by simp
  then have "fieldValue L (RequestMessage (req\<lparr>rq_headers := h\<rparr>)) c = fieldValue L (RequestMessage req) c" using assms by (simp add: fieldValue_def)
  moreover have "derivedValue P L (req\<lparr>rq_headers := h\<rparr>) u' c = derivedValue P L req u' c" for u' by (simp add: derivedValue_def Let_def)
  ultimately show ?thesis using Inr by (simp add: extractComponentValue_def componentSource_def Let_def split: option.split)
qed (simp add: extractComponentValue_def)

lemma base_headers:
  assumes "\<And>c. c \<in> set (sp_components params) \<Longrightarrow> h (componentName c) = rq_headers req (componentName c)"
  shows "buildSignatureInput P L (RequestMessage (req\<lparr>rq_headers := h\<rparr>), None) params = buildSignatureInput P L (RequestMessage req, None) params"
proof -
  have line: "baseLine P L (RequestMessage (req\<lparr>rq_headers := h\<rparr>), None) c = baseLine P L (RequestMessage req, None) c" if "c \<in> set (sp_components params)" for c
    using extract_headers [of c h req P L] assms [OF that] by (simp add: baseLine_def)
  have "mapE f cs = mapE g cs" if "\<And>c. c \<in> set cs \<Longrightarrow> f c = g c" for f g :: "ComponentIdentifier \<Rightarrow> js_error + jstring" and cs
    using that by (induction cs) auto
  from this [OF line] show ?thesis by (simp add: buildSignatureInput_def signatureBase_def)
qed

definition coversAll :: "ComponentIdentifier list \<Rightarrow> ComponentIdentifier list \<Rightarrow> bool" where
  "coversAll components required \<longleftrightarrow> (\<forall>c \<in> set required. c \<in> set components \<or> covers components c)"

definition namesSignature :: "ComponentIdentifier list \<Rightarrow> bool" where
  "namesSignature components \<longleftrightarrow> (\<exists>c \<in> set components. componentName c \<in> {js ''signature'', js ''signature-input''})"

lemma addComponents_only: "foldE addComponent cs extra = Inr cs' \<Longrightarrow> set cs' \<subseteq> set cs \<union> set extra"
  by (induction extra arbitrary: cs) (fastforce simp: addComponent_def bindE_eq_Inr split: if_splits)+

lemma addComponents_covers: "foldE addComponent cs extra = Inr cs' \<Longrightarrow> set cs \<subseteq> set cs' \<and> coversAll cs' extra"
proof (induction extra arbitrary: cs)
  case (Cons c extra)
  then obtain ds where ds: "addComponent cs c = Inr ds" "foldE addComponent ds extra = Inr cs'" by (auto simp: bindE_eq_Inr)
  have "set cs \<subseteq> set ds" "c \<in> set ds \<or> covers ds c" using ds(1) by (auto simp: addComponent_def bindE_eq_Inr split: if_splits)
  moreover from Cons.IH [OF ds(2)] have "set ds \<subseteq> set cs'" "coversAll cs' extra" by auto
  ultimately show ?case by (auto simp: coversAll_def covers_def)
qed (simp add: coversAll_def)

lemma prepareSignature_Inr:
  assumes "prepareSignature C p run opts req = Inr (req', params)"
  shows "\<exists>key kid. su_signingKey run = Inr key \<and> propOf key ''kid'' = JStr kid \<and> 35 \<notin> set kid \<and> sp_keyId params = Some (hp_domain p @ 35 # kid) \<and>
    sp_created params = Some (su_now run) \<and> rq_method req' = rq_method req \<and> rq_url req' = rq_url req \<and>
    sp_label params = (case hs_label opts of None \<Rightarrow> DEFAULT_HTTP_SIGNATURE_LABEL | Some l \<Rightarrow> l) \<and>
    (namesSignature (sp_components params) \<longrightarrow> namesSignature (hs_additionalComponents opts)) \<and>
    coversAll (sp_components params) ([Named (js ''@method''), Named (js ''@authority''), Named (js ''@target-uri'')] @ hs_additionalComponents opts) \<and>
    (case rq_body req of
       None \<Rightarrow> rq_headers req' = rq_headers req \<and> rq_body req' = None
     | Some b \<Rightarrow> \<exists>content. bodyBytes b content \<and> rq_body req' = Some [Inr content] \<and> Named (js ''content-digest'') \<in> set (sp_components params) \<and>
         rq_headers req' = (rq_headers req)(js ''content-digest'' \<mapsto> sha256Field C content))"
proof -
  from assms obtain key where key: "su_signingKey run = Inr key" by (auto simp: prepareSignature_def bindE_eq_Inr split: if_splits)
  then obtain kid where kid: "propOf key ''kid'' = JStr kid"
    using assms by (cases "propOf key ''kid''") (auto simp: prepareSignature_def bindE_eq_Inr split: if_splits)
  have guards: "hp_hasKeyProvider p" "35 \<notin> set kid" using assms key kid by (auto simp: prepareSignature_def split: if_splits)
  from assms key kid guards obtain content h components where
    a: "su_signingKey run = Inr key" "propOf key ''kid'' = JStr kid" "35 \<notin> set kid"
      "(case rq_body req of None \<Rightarrow> Inr None | Some b \<Rightarrow> bindE (readBoundedBody (su_reads run) (rq_bodyUsed req) MAX_HTTP_CONTENT_BYTES b) (\<lambda>bs. Inr (Some bs))) = Inr content"
      "(case content of None \<Rightarrow> Inr (rq_headers req) | Some bs \<Rightarrow> headersSet (rq_headers req) ''Content-Digest'' (sha256Field C bs)) = Inr h"
      "foldE addComponent ([Named (js ''@method''), Named (js ''@authority''), Named (js ''@target-uri'')] @
         (if content = None then [] else [Named (js ''content-digest'')])) (hs_additionalComponents opts) = Inr components"
      "req' = rebuildRequest req h content" "sp_components params = components" "sp_keyId params = Some (hp_domain p @ 35 # kid)"
      "sp_created params = Some (su_now run)" "sp_label params = (case hs_label opts of None \<Rightarrow> DEFAULT_HTTP_SIGNATURE_LABEL | Some l \<Rightarrow> l)"
    by (auto simp: prepareSignature_def bindE_eq_Inr simp del: js_Cons)
  note cov = addComponents_covers [OF a(6)]
  have "\<not> namesSignature ([Named (js ''@method''), Named (js ''@authority''), Named (js ''@target-uri'')] @ (if content = None then [] else [Named (js ''content-digest'')]))"
    by (simp add: namesSignature_def)
  then have only: "namesSignature components \<longrightarrow> namesSignature (hs_additionalComponents opts)"
    using addComponents_only [OF a(6)] unfolding namesSignature_def by blast
  have all: "coversAll components ([Named (js ''@method''), Named (js ''@authority''), Named (js ''@target-uri'')] @ hs_additionalComponents opts)"
    using cov by (auto simp: coversAll_def simp del: js_Cons)
  show ?thesis
  proof (cases "rq_body req")
    case None
    then have "content = None" "h = rq_headers req" using a(4,5) by simp_all
    then show ?thesis using a(1-3,7-) all only None by (intro exI [of _ key] exI [of _ kid]) (simp add: rebuildRequest_def del: js_Cons)
  next
    case (Some b)
    then obtain bs where bs: "content = Some bs" "readBoundedBody (su_reads run) (rq_bodyUsed req) MAX_HTTP_CONTENT_BYTES b = Inr bs" using a(4) by (auto simp: bindE_eq_Inr)
    have "asciiLower (js ''Content-Digest'') = js ''content-digest''" by (simp add: asciiLower_def isUpper_def)
    then have "h = (rq_headers req)(js ''content-digest'' \<mapsto> sha256Field C bs)"
      using a(5) bs(1) sha256Field_stripped by (auto simp: headersSet_def simp del: js_Cons split: if_splits)
    moreover have "Named (js ''content-digest'') \<in> set components" using cov bs(1) by (auto simp del: js_Cons)
    ultimately show ?thesis using a(1-3,7-) all only Some bs(1) readBoundedBody_Inr [OF bs(2)]
      by (intro exI [of _ key] exI [of _ kid]) (simp add: rebuildRequest_def del: js_Cons)
  qed
qed

text \<open>
  C12. What is signed is what a verifier reconstructs. When the caller does not ask to cover the signature
  fields themselves (which signing changes), a signed request has the method, the URL and the content of the
  original; its \<open>Signature-Input\<close> field has the member of the signature, with the text of its parameters,
  and its \<open>Signature\<close> field the signature; the signature is over a base that covers the method, the authority,
  the target and the digest of the content, it was checked under the signing key whose identifier and domain
  are in the \<open>keyid\<close>; and the base of the request that is sent, with its signature fields, is the one that
  was signed.
\<close>

theorem signRequest_reconstructed:
  assumes "signRequest P L C p run random opts req = Inr sent"
    and "\<not> namesSignature (hs_additionalComponents opts)"
  shows "\<exists>params key kid alg base rawSig inputs signatures t. su_signingKey run = Inr key \<and> propOf key ''kid'' = JStr kid \<and>
    sp_keyId params = Some (hp_domain p @ 35 # kid) \<and> sp_created params = Some (su_now run) \<and>
    sp_label params = (case hs_label opts of None \<Rightarrow> DEFAULT_HTTP_SIGNATURE_LABEL | Some l \<Rightarrow> l) \<and>
    headersGet (rq_headers sent) ''Signature-Input'' = Some inputs \<and> serializeSigParams L params = Inr t \<and> memberText inputs (sp_label params) t \<and>
    headersGet (rq_headers sent) ''Signature'' = Some signatures \<and> memberText signatures (sp_label params) (58 # toStdBase64 rawSig @ [58]) \<and>
    su_sign run base = Inr rawSig \<and> jwkSignatureAlg key = Inr alg \<and> verifyWithKey C (Inr base) rawSig key (Some alg) \<and>
    rq_method sent = rq_method req \<and> rq_url sent = rq_url req \<and>
    coversAll (sp_components params) ([Named (js ''@method''), Named (js ''@authority''), Named (js ''@target-uri'')] @ hs_additionalComponents opts) \<and>
    (\<forall>b. rq_body req = Some b \<longrightarrow> (\<exists>content. bodyBytes b content \<and> rq_body sent = Some [Inr content] \<and>
       Named (js ''content-digest'') \<in> set (sp_components params) \<and> headersGet (rq_headers sent) ''Content-Digest'' = Some (sha256Field C content))) \<and>
    buildSignatureInput P L (RequestMessage sent, None) params = Inr base"
proof -
  from assms(1) obtain req1 opts1 req2 params m where
    n: "negotiate P L random opts req = Inr (req1, opts1)" and prep: "prepareSignature C p run opts1 req1 = Inr (req2, params)"
    and m: "signHttpMessage P L C (RequestMessage req2, None) params (su_signingKey run) (su_sign run) = Inr m"
      "(case m of ResponseMessage _ \<Rightarrow> Inl (JsTypeError ''not a request'') | RequestMessage signedReq \<Rightarrow>
         bindE (if hs_responseSignature opts1 = None then Inr () else checkReadable L (rq_headers signedReq)) (\<lambda>_. Inr signedReq)) = Inr sent"
    unfolding signRequest_def bindE_eq_Inr by (auto simp: bindE_eq_Inr)
  then have s: "signHttpMessage P L C (RequestMessage req2, None) params (su_signingKey run) (su_sign run) = Inr (RequestMessage sent)"
    by (cases m) (auto simp: bindE_eq_Inr)
  have same: "rq_method req1 = rq_method req" "rq_url req1 = rq_url req" "rq_body req1 = rq_body req" "hs_label opts1 = hs_label opts"
      "set (hs_additionalComponents opts) \<subseteq> set (hs_additionalComponents opts1)"
      "\<not> namesSignature (hs_additionalComponents opts1)"
    using n assms(2) by (auto simp: negotiate_def namesSignature_def bindE_eq_Inr split: option.splits)
  from signHttpMessage_Inr [OF s] obtain key base rawSig alg h a b t where
    k: "su_signingKey run = Inr key" "buildSignatureInput P L (RequestMessage req2, None) params = Inr base" "su_sign run base = Inr rawSig"
      "jwkSignatureAlg key = Inr alg" "verifyWithKey C (Inr base) rawSig key (Some alg)" "sent = req2\<lparr>rq_headers := h\<rparr>"
      "h = (rq_headers req2)(js ''signature-input'' \<mapsto> a, js ''signature'' \<mapsto> b)" "serializeSigParams L params = Inr t"
      "memberText a (sp_label params) t" "memberText b (sp_label params) (58 # toStdBase64 rawSig @ [58])"
    by (simp add: withHeaders_def del: js_Cons fun_upd_apply) metis
  from prepareSignature_Inr [OF prep] k(1) obtain kid where
    kid: "propOf key ''kid'' = JStr kid" "sp_keyId params = Some (hp_domain p @ 35 # kid)" "sp_created params = Some (su_now run)"
      "rq_method req2 = rq_method req1" "rq_url req2 = rq_url req1" "sp_label params = (case hs_label opts1 of None \<Rightarrow> DEFAULT_HTTP_SIGNATURE_LABEL | Some l \<Rightarrow> l)"
      "namesSignature (sp_components params) \<longrightarrow> namesSignature (hs_additionalComponents opts1)"
      "coversAll (sp_components params) ([Named (js ''@method''), Named (js ''@authority''), Named (js ''@target-uri'')] @ hs_additionalComponents opts1)"
    and body: "case rq_body req1 of
       None \<Rightarrow> rq_headers req2 = rq_headers req1 \<and> rq_body req2 = None
     | Some b \<Rightarrow> \<exists>content. bodyBytes b content \<and> rq_body req2 = Some [Inr content] \<and> Named (js ''content-digest'') \<in> set (sp_components params) \<and>
         rq_headers req2 = (rq_headers req1)(js ''content-digest'' \<mapsto> sha256Field C content)"
    by (elim exE conjE) (simp only: sum.inject)
  have names: "asciiLower (js ''Content-Digest'') = js ''content-digest''" "asciiLower (js ''Signature-Input'') = js ''signature-input''"
      "asciiLower (js ''Signature'') = js ''signature''" "js ''content-digest'' \<noteq> js ''signature-input''" "js ''content-digest'' \<noteq> js ''signature''"
      "js ''signature'' \<noteq> js ''signature-input''"
    by (simp_all add: asciiLower_def isUpper_def)
  have fields: "headersGet (rq_headers sent) ''Signature-Input'' = Some a" "headersGet (rq_headers sent) ''Signature'' = Some b"
      "headersGet (rq_headers sent) ''Content-Digest'' = rq_headers req2 (js ''content-digest'')"
    unfolding k(6,7) headersGet_def using names by (simp_all del: js_Cons)
  have "\<forall>c \<in> set (sp_components params). componentName c \<notin> {js ''signature'', js ''signature-input''}"
    using kid(7) same(6) unfolding namesSignature_def by blast
  then have base: "buildSignatureInput P L (RequestMessage sent, None) params = Inr base"
    unfolding k(6) using base_headers [of params h req2 P L] k(2,7) by (auto simp del: js_Cons)
  have content: "\<exists>content. bodyBytes bd content \<and> rq_body sent = Some [Inr content] \<and> Named (js ''content-digest'') \<in> set (sp_components params) \<and>
      headersGet (rq_headers sent) ''Content-Digest'' = Some (sha256Field C content)" if "rq_body req = Some bd" for bd
    using body that same(3) fields(3) k(6,7) names by (auto simp del: js_Cons)
  have "coversAll (sp_components params) ([Named (js ''@method''), Named (js ''@authority''), Named (js ''@target-uri'')] @ hs_additionalComponents opts)"
    using kid(8) same(5) unfolding coversAll_def by (auto simp del: js_Cons)
  then show ?thesis using k(1,3-6,8-) kid(1-6) same(1-4) base content fields
    by (intro exI [of _ params] exI [of _ key] exI [of _ kid] exI [of _ alg] exI [of _ base] exI [of _ rawSig] exI [of _ a] exI [of _ b] exI [of _ t]) (simp del: js_Cons)
qed

section \<open>Verified responses\<close>

lemma numEq_trans: "numEq a b \<Longrightarrow> numEq b c \<Longrightarrow> numEq a c"
  by (auto simp: numEq_def)

lemma paramEq_trans: "paramEq a b \<Longrightarrow> paramEq b c \<Longrightarrow> paramEq a c"
  by (cases a; cases b; cases c) (auto intro: numEq_trans)

lemma sameComponent_trans:
  assumes "sameComponent a b" and "sameComponent b c"
  shows "sameComponent a c"
  unfolding sameComponent_def
proof (intro conjI ballI)
  fix x
  assume x: "x \<in> set (componentParams a)"
  obtain k v where kv: "x = (k, v)" by (cases x)
  then obtain w where w: "map_of (componentParams b) k = Some w" "paramEq v w" using x assms(1) by (fastforce simp: sameComponent_def split: option.splits)
  then obtain u where "map_of (componentParams c) k = Some u" "paramEq w u"
    using assms(2) map_of_SomeD [OF w(1)] by (fastforce simp: sameComponent_def split: option.splits)
  then show "case x of (key, v) \<Rightarrow> case map_of (componentParams c) key of None \<Rightarrow> False | Some w \<Rightarrow> paramEq v w"
    using kv w(2) paramEq_trans by auto
qed (use assms in \<open>auto simp: sameComponent_def\<close>)

lemma mapE_image: "mapE f xs = Inr ys \<Longrightarrow> x \<in> set xs \<Longrightarrow> \<exists>y \<in> set ys. f x = Inr y"
  unfolding mapE_eq_Inr by (induction rule: list_all2_induct) auto

lemma covers_all2:
  assumes "list_all2 sameComponent xs ys" and "covers ys c"
  shows "covers xs c"
proof -
  from assms(2) obtain y where "y \<in> set ys" "sameComponent y c" by (auto simp: covers_def)
  moreover from this(1) assms(1) obtain x where "x \<in> set xs" "sameComponent x y"
    by (metis in_set_conv_nth list_all2_conv_all_nth)
  ultimately show ?thesis using sameComponent_trans by (auto simp: covers_def)
qed

lemma responsePolicy_Inr:
  assumes "responsePolicy P opts label = Inr (policy, cs)"
  shows "normalizeFQDN P (ro_expectedDomain opts) True = Inr (ro_expectedDomain policy)"
  using assms unfolding responsePolicy_def by (drule_tac catchE_rethrow) (auto simp: Let_def bindE_eq_Inr)

text \<open>A copy of a component covers what the component covers.\<close>

lemma policy_covers:
  assumes "responsePolicy P opts label = Inr (policy, cs)" and "\<forall>c \<in> set (ro_additionalComponents policy). covers xs c"
  shows "\<forall>c \<in> set (ro_additionalComponents opts). covers xs c"
proof
  fix c assume c: "c \<in> set (ro_additionalComponents opts)"
  from assms(1) have "copyComponents (ro_additionalComponents opts) = Inr (ro_additionalComponents policy)"
    unfolding responsePolicy_def by (drule_tac catchE_rethrow) (auto simp: Let_def bindE_eq_Inr)
  then obtain d where d: "d \<in> set (ro_additionalComponents policy)" "copyComponent c = Inr d"
    unfolding copyComponents_def using c mapE_image [of copyComponent] by metis
  then have "componentName d = componentName c" "componentParams d = componentParams c"
    by (auto simp: copyComponent_def bindE_eq_Inr split: ComponentIdentifier.splits)
  then have "sameComponent x d = sameComponent x c" for x by (simp add: sameComponent_def)
  then show "covers xs c" using assms(2) d(1) unfolding covers_def by metis
qed

lemma checkNonce_Inr: "checkNonce v = Inr nonce \<Longrightarrow> \<exists>bs. 32 \<le> length bs \<and> nonce = toBase64Url bs"
  by (auto simp: checkNonce_def bindE_eq_Inr not_less split: option.splits bare_item.splits if_splits)

lemma parseNegotiation_Inr:
  assumes "parseNegotiation L v = Inr n"
  shows "(\<exists>label. requestedSignatureMember (ng_components n) = Inr label \<and> (\<forall>c \<in> set (responseComponents label). covers (ng_components n) c)) \<and> (\<exists>bs. 32 \<le> length bs \<and> ng_nonce n = toBase64Url bs)"
proof -
  from assms obtain dictionary where "parseDictionaryField L v = Inr dictionary" by (auto simp: parseNegotiation_def bindE_eq_Inr)
  moreover from this obtain label items ps where "dictionary = [(label, SfInner items ps)]"
    using assms by (cases dictionary rule: remdups_adj.cases) (auto simp: parseNegotiation_def split: sf_member.splits prod.splits)
  ultimately obtain cs requestLabel nonce where "n = \<lparr>ng_label = label, ng_components = cs, ng_nonce = nonce\<rparr>"
      "requestedSignatureMember cs = Inr requestLabel" "\<forall>c \<in> set (responseComponents requestLabel). covers cs c" "checkNonce (map_of ps (js ''nonce'')) = Inr nonce"
    using assms by (auto simp: parseNegotiation_def bindE_eq_Inr split: if_splits)
  then show ?thesis using checkNonce_Inr by (intro conjI exI [of _ requestLabel]) auto
qed

lemma keepVerificationError_Inl: "isl (keepVerificationError e e')"
  by (cases e') auto

lemma checkResponseSignature_Inr:
  assumes "checkResponseSignature P L C request response params rawSig key = Inr ()"
  shows "\<exists>alg base. jwkSignatureAlg key = Inr alg \<and> buildSignatureInput P L (ResponseMessage response, Some request) params = Inr base \<and>
    verifyWithKey C (Inr base) rawSig key (Some alg)"
proof -
  have "(bindE (jwkSignatureAlg key) (\<lambda>alg. bindE (joseAlgToHttpSigAlg alg) (\<lambda>httpAlg.
      if sp_alg params \<noteq> Some httpAlg then Inl (responseError ''invalid response signature or key algorithm'')
      else bindE (buildSignatureInput P L (ResponseMessage response, Some request) params) (\<lambda>input.
        if \<not> verifyWithKey C (Inr input) rawSig key (Some alg) then Inl (responseError ''invalid response signature or key algorithm'') else Inr ())))) = Inr ()"
    using assms keepVerificationError_Inl unfolding checkResponseSignature_def by (rule catchE_rethrow)
  then show ?thesis by (auto simp: bindE_eq_Inr split: if_splits)
qed

lemma checkResponseFreshness_Inr:
  "checkResponseFreshness L p now created expires = Inr () \<Longrightarrow>
    0 < expires - created \<and> expires - created \<le> 60 \<and> freshSignature L p now created None \<and> of_int now \<le> roundSum L (of_int expires) (clockSkewSeconds p)"
  by (auto simp: checkResponseFreshness_def checkFreshness_Inr bindE_eq_Inr RESPONSE_SIGNATURE_LIFETIME_SECONDS_def split: if_splits)

lemma verifyResponseIdentity_Inr:
  assumes "verifyResponseIdentity P L C p run request response expectedDomain peerCert params rawSig created expires keyId = Inr vd"
  shows "\<exists>kid key alg base content. parseKeyId P keyId = Inr (expectedDomain, kid) \<and> vu_resolve run expectedDomain peerCert = Inr vd \<and>
    keyById (vd_jwks vd) kid = Inr (Some key) \<and> jwkSignatureAlg key = Inr alg \<and>
    buildSignatureInput P L (ResponseMessage response, Some request) params = Inr base \<and> verifyWithKey C (Inr base) rawSig key (Some alg) \<and>
    0 < expires - created \<and> expires - created \<le> 60 \<and> freshSignature L p (vu_now run) created None \<and> freshSignature L p (vu_now2 run) created None \<and>
    of_int (vu_now2 run) \<le> roundSum L (of_int expires) (clockSkewSeconds p) \<and>
    parseSha256ContentDigest L (orEmptyText (headersGet (rs_headers response) ''Content-Digest'')) (sp_components params) = Inr (hash256 C content) \<and>
    responseContent (vu_reads run) request response False = Inr content \<and>
    hasNoStore (headersGet (rs_headers response) ''Cache-Control'') \<and> assertFresh (vu_nowMs run) vd = Inr ()"
proof -
  from assms obtain kid key content where
    a: "checkResponseFreshness L p (vu_now run) created expires = Inr ()" "responseKeyId P keyId = Inr (expectedDomain, kid)"
      "vu_resolve run expectedDomain peerCert = Inr vd" "keyById (vd_jwks vd) kid = Inr (Some key)"
      "checkResponseSignature P L C request response params rawSig key = Inr ()"
      "parseSha256ContentDigest L (orEmptyText (headersGet (rs_headers response) ''Content-Digest'')) (sp_components params) = Inr (hash256 C content)"
      "responseContent (vu_reads run) request response False = Inr content" "hasNoStore (headersGet (rs_headers response) ''Cache-Control'')"
      "checkResponseFreshness L p (vu_now2 run) created expires = Inr ()" "assertFresh (vu_nowMs run) vd = Inr ()"
    by (auto simp: verifyResponseIdentity_def bindE_eq_Inr waitForVerification_eq_Inr constantTimeEqual_iff split: if_splits option.splits)
  have "parseKeyId P keyId = Inr (expectedDomain, kid)"
    using a(2) unfolding responseKeyId_def by (rule catchE_rethrow) simp
  then show ?thesis using a checkResponseSignature_Inr [OF a(5)] checkResponseFreshness_Inr [OF a(1)] checkResponseFreshness_Inr [OF a(9)] by blast
qed

text \<open>
  C10. A verified response answers the request that was sent: its \<open>Signature-Input\<close> and \<open>Signature\<close> fields have
  a member with the label that the request asked for, with the components and the nonce (of at least 32
  bytes) that it asked for; that signature covers the status, the content digest, the method, the target and
  the one signature of the request that the negotiation names, and what the local policy adds; it verifies under a key that the expected
  domain publishes, over the base of this response and this request, which is an HTTPS request; it is fresh
  before and after the content was read, its content has the covered digest, and the identity is still fresh.
\<close>

theorem verifySignedHttpResponse_sound:
  assumes "verifySignedHttpResponse P L C p run request response opts peerCert timeoutMs = Inr vd"
  shows "\<exists>domain requested inputs signatures params rawSig kid key alg base created expires requestLabel content.
    normalizeFQDN P (ro_expectedDomain opts) True = Inr domain \<and> isHttps P request = Inr True \<and>
    parseNegotiation L (orEmptyText (headersGet (rq_headers request) ''Accept-Signature'')) = Inr requested \<and>
    parseSignatureInput L (orEmptyText (headersGet (rs_headers response) ''Signature-Input'')) = Inr inputs \<and>
    parseSignature L (orEmptyText (headersGet (rs_headers response) ''Signature'')) = Inr signatures \<and>
    map_of inputs (ng_label requested) = Some params \<and> map_of signatures (ng_label requested) = Some rawSig \<and>
    sp_nonce params = Some (ng_nonce requested) \<and> (\<exists>bs. 32 \<le> length bs \<and> ng_nonce requested = toBase64Url bs) \<and> list_all2 sameComponent (sp_components params) (ng_components requested) \<and>
    requestedSignatureMember (ng_components requested) = Inr requestLabel \<and>
    (\<forall>c \<in> set (responseComponents requestLabel @ ro_additionalComponents opts). covers (sp_components params) c) \<and>
    parseKeyId P (the (sp_keyId params)) = Inr (domain, kid) \<and> vu_resolve run domain peerCert = Inr vd \<and>
    keyById (vd_jwks vd) kid = Inr (Some key) \<and> jwkSignatureAlg key = Inr alg \<and>
    buildSignatureInput P L (ResponseMessage response, Some request) params = Inr base \<and> verifyWithKey C (Inr base) rawSig key (Some alg) \<and>
    sp_created params = Some created \<and> sp_expires params = Some expires \<and> 0 < expires - created \<and> expires - created \<le> 60 \<and>
    freshSignature L p (vu_now run) created None \<and> freshSignature L p (vu_now2 run) created None \<and>
    of_int (vu_now2 run) \<le> roundSum L (of_int expires) (clockSkewSeconds p) \<and>
    parseSha256ContentDigest L (orEmptyText (headersGet (rs_headers response) ''Content-Digest'')) (sp_components params) = Inr (hash256 C content) \<and>
    responseContent (vu_reads run) request response False = Inr content \<and>
    hasNoStore (headersGet (rs_headers response) ''Cache-Control'') \<and> assertFresh (vu_nowMs run) vd = Inr ()"
proof -
  from assms obtain policy cs where pol: "responsePolicy P opts DEFAULT_HTTP_SIGNATURE_LABEL = Inr (policy, cs)"
    and v: "verifyResponseWithinBudget P L C p run request response policy peerCert = Inr vd"
    by (auto simp: verifySignedHttpResponse_def bindE_eq_Inr withVerificationBudget_eq_Inr)
  from v obtain requested inputs sigs where
    fields: "isHttps P request = Inr True" "parseSignatureInput L (orEmptyText (headersGet (rs_headers response) ''Signature-Input'')) = Inr inputs"
      "parseSignature L (orEmptyText (headersGet (rs_headers response) ''Signature'')) = Inr sigs"
    and local: "\<forall>c \<in> set (ro_additionalComponents policy). covers (ng_components requested) c"
    and n: "parseNegotiation L (orEmptyText (headersGet (rq_headers request) ''Accept-Signature'')) = Inr requested"
    and c: "(case (map_of inputs (ng_label requested), map_of sigs (ng_label requested)) of
           (Some params, Some signature) \<Rightarrow>
             if \<not> sameNegotiation params requested then Inl (responseError ''response coverage or nonce differs from negotiation'')
             else
               (case (sp_created params, sp_expires params, sp_alg params, sp_keyId params) of
                  (Some created, Some expires, Some alg, Some keyId) \<Rightarrow>
                    if alg \<notin> {js ''ed25519'', js ''ecdsa-p256-sha256''} \<or> keyId = []
                      then Inl (responseError ''response requires timestamps, algorithm, and keyid'')
                    else verifyResponseIdentity P L C p run request response (ro_expectedDomain policy) peerCert params signature created expires keyId
                | _ \<Rightarrow> Inl (responseError ''response requires timestamps, algorithm, and keyid''))
         | _ \<Rightarrow> Inl (responseError ''missing requested response signature'')) = Inr vd"
    unfolding verifyResponseWithinBudget_def by (auto simp: bindE_eq_Inr Let_def simp del: js_Cons split: if_splits)
  from c obtain params rawSig created expires keyId where
    member: "map_of inputs (ng_label requested) = Some params" "map_of sigs (ng_label requested) = Some rawSig"
    and q: "sameNegotiation params requested" "sp_created params = Some created" "sp_expires params = Some expires" "sp_keyId params = Some keyId"
      "verifyResponseIdentity P L C p run request response (ro_expectedDomain policy) peerCert params rawSig created expires keyId = Inr vd"
    by (auto simp del: js_Cons split: option.splits if_splits)
  from parseNegotiation_Inr [OF n] obtain label bs where label: "requestedSignatureMember (ng_components requested) = Inr label"
      "\<forall>c \<in> set (responseComponents label). covers (ng_components requested) c" and nonce: "32 \<le> length bs" "ng_nonce requested = toBase64Url bs"
    by blast
  have covered: "\<forall>c \<in> set (responseComponents label @ ro_additionalComponents opts). covers (sp_components params) c"
    using label(2) policy_covers [OF pol local] q(1) covers_all2 by (auto simp: sameNegotiation_def)
  have asked: "sp_nonce params = Some (ng_nonce requested)" "list_all2 sameComponent (sp_components params) (ng_components requested)"
    using q(1) by (simp_all add: sameNegotiation_def)
  note signed = verifyResponseIdentity_Inr [OF q(5)]
  have "the (sp_keyId params) = keyId" using q(4) by simp
  then show ?thesis using responsePolicy_Inr [OF pol] n fields member label(1) nonce q(2,3) covered asked signed by blast
qed

end
