(* ===== verification/StrictJson.thy ===== *)
theory StrictJson
  imports JsonText Base64 Names
begin

text \<open>
  JSON texts with unique member names (\<open>protocol/src/strict-json.ts\<close>): the scan that rejects duplicate
  member names before parsing, and the structure of compact JOSE tokens. A text that is accepted has no
  duplicate member name in any of its objects.
\<close>

section \<open>Rejecting duplicate members\<close>

text \<open>The raw characters of a string up to its closing quote, and the text after it if there is one.\<close>

fun skipRaw :: "jstring \<Rightarrow> jstring \<times> jstring option" where
  "skipRaw [] = ([], None)"
| "skipRaw (c # s) =
     (if c = 34 then ([], Some s)
      else if c = 92 then
        (case s of [] \<Rightarrow> ([92], None) | e # s' \<Rightarrow> apfst (\<lambda>r. 92 # e # r) (skipRaw s'))
      else apfst ((#) c) (skipRaw s))"

lemma skipRaw_shorter: "skipRaw s = (raw, Some t) \<Longrightarrow> length t < length s"
  by (induction s arbitrary: raw rule: skipRaw.induct) (auto simp: apfst_def map_prod_def split: if_splits list.splits prod.splits)

text \<open>
  The scan. A set on the stack collects the names of an open object, \<open>None\<close> marks an open array. A
  member name is parsed as a JSON text, which is one string.
\<close>

function dupScan :: "jstring list option list \<Rightarrow> jstring \<Rightarrow> js_error + unit" where
  "dupScan stack [] = Inr ()"
| "dupScan stack (c # s) =
     (if c = 34 then
        (case skipRaw s of
           (raw, None) \<Rightarrow> Inr ()
         | (raw, Some t) \<Rightarrow>
             if starts_with [58] (dropWhile isWhite t) then
               (case parseString (raw @ [34]) of
                  Some (key, []) \<Rightarrow>
                    (case stack of
                       Some keys # below \<Rightarrow>
                         if key \<in> set keys then Inl (PlainError ''duplicate JSON member'')
                         else dupScan (Some (key # keys) # below) t
                     | _ \<Rightarrow> dupScan stack t)
                | _ \<Rightarrow> Inl (JsSyntaxError ''Unexpected token in JSON''))
             else dupScan stack t)
      else if c = 123 then dupScan (Some [] # stack) s
      else if c = 91 then dupScan (None # stack) s
      else if c = 125 \<or> c = 93 then dupScan (tl stack) s
      else dupScan stack s)"
  by pat_completeness auto
termination by (relation "measure (\<lambda>(_, s). length s)") (auto dest!: skipRaw_shorter [OF sym])

definition parseJsonNoDuplicateMembers :: "platform \<Rightarrow> bytes \<Rightarrow> js_error + json" where
  "parseJsonNoDuplicateMembers P bs =
     bindE (textDecode False bs) (\<lambda>t. bindE (dupScan [] t) (\<lambda>_. parseJson P t))"

section \<open>JOSE\<close>

definition parseJoseObject :: "platform \<Rightarrow> bytes \<Rightarrow> js_error + json" where
  "parseJoseObject P bs =
     catchE (bindE (parseJsonNoDuplicateMembers P bs) (\<lambda>v.
        case v of JObj _ \<Rightarrow> Inr v | _ \<Rightarrow> Inl (PlainError ''expected JSON object'')))
       (\<lambda>_. Inl (failWith ''malformed JOSE JSON object'' RecordInvalid))"

record CompactJose =
  cj_parts :: "jstring \<times> jstring \<times> jstring"
  cj_header :: json
  cj_payload :: bytes
  cj_signature :: bytes

definition base64urlText :: "jstring \<Rightarrow> bool" where
  "base64urlText s \<longleftrightarrow> (\<forall>c \<in> set s. isAlnum c \<or> c = 95 \<or> c = 45)"

definition decodePart :: "jstring \<Rightarrow> js_error + bytes" where
  "decodePart s =
     (if \<not> base64urlText s then Inl (PlainError ''invalid base64url'')
      else bindE (fromBase64Url s) (\<lambda>bs.
        if toBase64Url bs \<noteq> s then Inl (PlainError ''noncanonical base64url'') else Inr bs))"

text \<open>\<open>typeof v === 'string' && v\<close>, and \<open>name in header\<close>.\<close>

definition nonEmptyString :: "json \<Rightarrow> bool" where
  "nonEmptyString v \<longleftrightarrow> (\<exists>s. v = JStr s \<and> s \<noteq> [])"

fun hasMember :: "json \<Rightarrow> string \<Rightarrow> bool" where
  "hasMember (JObj ms) k = (js k \<in> fst ` set ms)"
| "hasMember _ k = False"

definition supportedHeader :: "json \<Rightarrow> bool" where
  "supportedHeader h \<longleftrightarrow> nonEmptyString (propOf h ''alg'') \<and> nonEmptyString (propOf h ''kid'') \<and>
     (hasMember h ''typ'' \<longrightarrow> strOf (propOf h ''typ'') \<noteq> None) \<and> \<not> hasMember h ''crit'' \<and>
     (hasMember h ''b64'' \<longrightarrow> propOf h ''b64'' = JBool True)"

definition parseCompactJose :: "platform \<Rightarrow> jstring \<Rightarrow> js_error + CompactJose" where
  "parseCompactJose P token =
     catchE
       (if length token > 1024 * 1024 then Inl (PlainError ''token too large'')
        else case split_on 46 token of
          [h, p, s] \<Rightarrow>
            if length h > 16 * 1024 then Inl (PlainError ''invalid compact structure'')
            else bindE (mapE decodePart [h, p, s]) (\<lambda>decoded.
              bindE (parseJoseObject P (decoded ! 0)) (\<lambda>header.
              if \<not> supportedHeader header then Inl (PlainError ''unsupported protected header'')
              else Inr \<lparr>cj_parts = (h, p, s), cj_header = header, cj_payload = decoded ! 1, cj_signature = decoded ! 2\<rparr>))
        | _ \<Rightarrow> Inl (PlainError ''invalid compact structure''))
       (\<lambda>_. Inl (failWith ''malformed JOSE compact token'' RecordInvalid))"


section \<open>Accepted texts have no duplicate members\<close>

text \<open>The parser that keeps every member of the text, and what the parser of the language makes of its result.\<close>

definition keepAll :: member_insert where
  "keepAll k v ms = ms @ [(k, v)]"

fun distinctMembers :: "json \<Rightarrow> bool" where
  "distinctMembers (JArr vs) = (\<forall>v \<in> set vs. distinctMembers v)"
| "distinctMembers (JObj ms) = (distinct (map fst ms) \<and> (\<forall>(k, v) \<in> set ms. distinctMembers v))"
| "distinctMembers _ = True"


lemma jsonWs_white: "isJsonWs c \<Longrightarrow> isWhite c"
  by (auto simp: isJsonWs_def isWhite_def)

lemma skipWs_decomp: "\<exists>ws. s = ws @ skipWs s \<and> (\<forall>c \<in> set ws. isJsonWs c)"
  unfolding skipWs_def by (metis set_takeWhileD takeWhile_dropWhile_id)

lemma dropWhite_skipWs: "dropWhile isWhite s = dropWhile isWhite (skipWs s)"
proof -
  obtain ws where ws: "s = ws @ skipWs s" "\<forall>c \<in> set ws. isJsonWs c" using skipWs_decomp by blast
  then have "dropWhile isWhite (ws @ skipWs s) = dropWhile isWhite (skipWs s)"
    by (intro dropWhile_append2) (auto simp: jsonWs_white)
  then show ?thesis using ws(1) by simp
qed

text \<open>The characters that the scan passes over.\<close>

definition plainChar :: "nat \<Rightarrow> bool" where
  "plainChar c \<longleftrightarrow> c \<notin> {34, 91, 93, 123, 125}"

lemma dupScan_plain: "\<forall>c \<in> set t. plainChar c \<Longrightarrow> dupScan st (t @ s) = dupScan st s"
  by (induction t) (auto simp: plainChar_def)

lemma dupScan_skipWs: "dupScan st (skipWs s) = dupScan st s"
proof -
  obtain ws where ws: "s = ws @ skipWs s" "\<forall>c \<in> set ws. isJsonWs c" using skipWs_decomp by blast
  then have "dupScan st (ws @ skipWs s) = dupScan st (skipWs s)"
    by (intro dupScan_plain) (auto simp: isJsonWs_def plainChar_def)
  then show ?thesis using ws(1) by simp
qed

lemma digits1_decomp: "digits1 s = Some (t, r) \<Longrightarrow> s = t @ r \<and> (\<forall>c \<in> set t. isDigit c)"
  by (auto simp: digits1_def dest: set_takeWhileD split: if_splits)

lemma numberToken_decomp:
  assumes "numberToken s = Some (t, r)"
  shows "s = t @ r \<and> (\<forall>c \<in> set t. isDigit c \<or> c \<in> {43, 45, 46, 69, 101})"
proof -
  have sign: "\<exists>sg y. signPart signs x = (sg, y) \<and> x = sg @ y \<and> set sg \<subseteq> set signs" for signs x
    by (cases x) (auto simp: signPart_def)
  have int: "x = i @ y \<and> (\<forall>c \<in> set i. isDigit c)" if "intPart x = Some (i, y)" for x i y
    using that by (cases x) (auto dest!: digits1_decomp simp: intPart_def isDigit_def split: if_splits)
  have frac: "x = i @ y \<and> (\<forall>c \<in> set i. isDigit c \<or> c = 46)" if "fracPart x = Some (i, y)" for x i y
    using that by (cases x) (auto dest!: digits1_decomp simp: fracPart_def split: if_splits)
  have expo: "x = i @ y \<and> (\<forall>c \<in> set i. isDigit c \<or> c \<in> {43, 45, 69, 101})" if e: "expPart x = Some (i, y)" for x i y
  proof (cases x)
    case (Cons c x')
    show ?thesis
    proof (cases "c \<in> {69, 101}")
      case True
      obtain sg z where sg: "signPart [43, 45] x' = (sg, z)" "x' = sg @ z" "set sg \<subseteq> set [43, 45]" using sign by blast
      with e Cons True obtain ds where "digits1 z = Some (ds, y)" "i = c # sg @ ds"
        by (auto simp: expPart_def Let_def)
      then show ?thesis using digits1_decomp [of z ds y] sg Cons True by auto
    qed (use e Cons in \<open>simp add: expPart_def\<close>)
  qed (use e in \<open>simp add: expPart_def\<close>)
  obtain sg z where sg: "signPart [45] s = (sg, z)" "s = sg @ z" "set sg \<subseteq> set [45]" using sign by blast
  with assms obtain i s1 f s2 e where parts: "intPart z = Some (i, s1)" "fracPart s1 = Some (f, s2)"
      "expPart s2 = Some (e, r)" "t = sg @ i @ f @ e"
    by (auto simp: numberToken_def Let_def split: option.splits)
  show ?thesis using int [OF parts(1)] frac [OF parts(2)] expo [OF parts(3)] parts(4) sg(2,3) by auto
qed

lemma skipRaw_parseString:
  "parseString s = Some (k, r) \<Longrightarrow> \<exists>raw. skipRaw s = (raw, Some r) \<and> parseString (raw @ [34]) = Some (k, [])"
proof (induction s arbitrary: k rule: length_induct)
  case (1 s)
  have IH: "\<exists>raw. skipRaw s' = (raw, Some r) \<and> parseString (raw @ [34]) = Some (k', [])"
    if "parseString s' = Some (k', r)" "length s' < length s" for s' k'
    using 1(1) that by blast
  from 1(2) obtain c s1 where s: "s = c # s1" by (cases s) auto
  consider "c = 34" | a b d g s2 u k' where "c = 92" "s1 = 117 # a # b # d # g # s2" "hexUnit [a, b, d, g] = Some u"
      "parseString s2 = Some (k', r)" "k = u # k'"
    | e s2 u k' where "c = 92" "e \<noteq> 117" "s1 = e # s2" "shortEscape e = Some u" "parseString s2 = Some (k', r)" "k = u # k'"
    | k' where "c \<noteq> 34" "c \<noteq> 92" "\<not> c < 32" "parseString s1 = Some (k', r)" "k = c # k'"
    using 1(2) s by (auto simp del: hexUnit.simps split: if_splits list.splits option.splits)
  then show ?case
  proof cases
    case 2
    have "\<forall>x \<in> {a, b, d, g}. x \<noteq> 34 \<and> x \<noteq> 92"
      using 2(3) by (auto simp: hexDigitVal_def isDigit_def split: option.splits if_splits)
    moreover obtain raw where "skipRaw s2 = (raw, Some r)" "parseString (raw @ [34]) = Some (k', [])" using IH [OF 2(4)] s 2 by auto
    ultimately show ?thesis using 2 s by (simp del: hexUnit.simps)
  next
    case 3
    obtain raw where "skipRaw s2 = (raw, Some r)" "parseString (raw @ [34]) = Some (k', [])" using IH [OF 3(5)] s 3 by auto
    then show ?thesis using 3 s by simp
  next
    case 4
    obtain raw where "skipRaw s1 = (raw, Some r)" "parseString (raw @ [34]) = Some (k', [])" using IH [OF 4(4)] s by auto
    then show ?thesis using 4 s by simp
  qed (use 1(2) s in simp)
qed

lemma dupScan_value_string:
  assumes "parseString s = Some (k, r)" and "\<not> starts_with [58] (dropWhile isWhite r)"
  shows "dupScan st (34 # s) = dupScan st r"
  using skipRaw_parseString [OF assms(1)] assms(2) by auto

lemma dupScan_name:
  assumes "parseString s = Some (k, r)" and "skipWs r = 58 # r'"
  shows "dupScan (Some keys # st) (34 # s) =
    (if k \<in> set keys then Inl (PlainError ''duplicate JSON member'') else dupScan (Some (k # keys) # st) r')"
proof -
  have "starts_with [58] (dropWhile isWhite r)"
    unfolding dropWhite_skipWs [of r] assms(2) by (simp add: starts_with_def isWhite_def)
  moreover have "dupScan (Some (k # keys) # st) r = dupScan (Some (k # keys) # st) r'"
    using dupScan_skipWs [of "Some (k # keys) # st" r] assms(2) by simp
  ultimately show ?thesis using skipRaw_parseString [OF assms(1)] by auto
qed


text \<open>What follows a value in an accepted text does not make it look like a member name.\<close>

lemma after_value:
  "skipWs r = c # r' \<Longrightarrow> c \<in> {44, 93, 125} \<Longrightarrow> \<not> starts_with [58] (dropWhile isWhite r)"
  unfolding dropWhite_skipWs [of r] by (auto simp: starts_with_def isWhite_def)

lemma dupScan_literal:
  assumes "starts_with (js w) s" and "\<forall>c \<in> set (js w). plainChar c"
  shows "dupScan st s = dupScan st (drop (length w) s)"
proof -
  have "s = js w @ drop (length w) s" using assms(1) by (auto simp: starts_with_iff)
  then show ?thesis using dupScan_plain [OF assms(2), of st "drop (length w) s"] by simp
qed

lemma scan_value:
  assumes elems: "\<And>s v r st. parseElems keepAll P fuel [] s = Some (v, r) \<Longrightarrow> dupScan (None # st) s = Inr () \<Longrightarrow>
      distinctMembers v \<and> dupScan st r = Inr ()"
    and members: "\<And>s v r st. parseMembers keepAll P fuel [] s = Some (v, r) \<Longrightarrow> dupScan (Some [] # st) s = Inr () \<Longrightarrow>
      distinctMembers v \<and> dupScan st r = Inr ()"
    and parsed: "parseValue keepAll P (Suc fuel) s = Some (v, r)"
    and scan: "dupScan st s = Inr ()" and after: "\<not> starts_with [58] (dropWhile isWhite r)"
  shows "distinctMembers v \<and> dupScan st r = Inr ()"
proof -
  from parsed obtain c s' where s: "skipWs s = c # s'" by (auto simp: parseValue.simps(2) split: list.splits)
  then have scan': "dupScan st (c # s') = Inr ()" using scan dupScan_skipWs [of st s] by simp
  have lit: "dupScan st (drop (length w) (c # s')) = Inr ()"
    if "starts_with (js w) (c # s')" "w \<in> {''null'', ''true'', ''false''}" for w
    using dupScan_literal [OF that(1), of st] that(2) scan' by (auto simp: plainChar_def simp del: dupScan.simps)
  consider (string) k where "c = 34" "parseString s' = Some (k, r)" "v = JStr k"
    | (emptyArr) "c = 91" "skipWs s' = 93 # r" "v = JArr []"
    | (arr) "c = 91" "parseElems keepAll P fuel [] s' = Some (v, r)"
    | (emptyObj) "c = 123" "skipWs s' = 125 # r" "v = JObj []"
    | (obj) "c = 123" "parseMembers keepAll P fuel [] s' = Some (v, r)"
    | (null) "starts_with (js ''null'') (c # s')" "v = JNull" "r = drop 3 s'"
    | (true) "starts_with (js ''true'') (c # s')" "v = JBool True" "r = drop 3 s'"
    | (false) "starts_with (js ''false'') (c # s')" "v = JBool False" "r = drop 4 s'"
    | (number) t where "numberToken (c # s') = Some (t, r)" "v = JNum (numFromText P t)"
    using parsed unfolding parseValue.simps(2) s by (auto simp del: js_Cons split: if_splits list.splits)
  then show ?thesis
  proof cases
    case string
    then show ?thesis using dupScan_value_string [OF _ after] scan' by simp
  next
    case emptyArr
    then have "dupScan (None # st) (93 # r) = Inr ()" using scan' dupScan_skipWs [of "None # st" s'] by simp
    then show ?thesis using emptyArr by simp
  next
    case emptyObj
    then have "dupScan (Some [] # st) (125 # r) = Inr ()" using scan' dupScan_skipWs [of "Some [] # st" s'] by simp
    then show ?thesis using emptyObj by simp
  next
    case null
    then show ?thesis using lit [OF null(1)] by (simp add: eval_nat_numeral del: js_Cons)
  next
    case true
    then show ?thesis using lit [OF true(1)] by (simp add: eval_nat_numeral del: js_Cons)
  next
    case false
    then show ?thesis using lit [OF false(1)] by (simp add: eval_nat_numeral del: js_Cons)
  next
    case number
    have "c # s' = t @ r" "\<forall>c \<in> set t. plainChar c"
      using numberToken_decomp [OF number(1)] by (auto simp: plainChar_def isDigit_def)
    then show ?thesis using dupScan_plain [of t st r] scan' number by simp
  qed (use elems members scan' in simp_all)
qed

lemma scan_parse:
  "(\<forall>s v r st. parseValue keepAll P fuel s = Some (v, r) \<longrightarrow> dupScan st s = Inr () \<longrightarrow>
      \<not> starts_with [58] (dropWhile isWhite r) \<longrightarrow> distinctMembers v \<and> dupScan st r = Inr ()) \<and>
   (\<forall>acc s v r st. parseElems keepAll P fuel acc s = Some (v, r) \<longrightarrow> dupScan (None # st) s = Inr () \<longrightarrow>
      (\<exists>vs. v = JArr (acc @ vs) \<and> (\<forall>x \<in> set vs. distinctMembers x)) \<and> dupScan st r = Inr ()) \<and>
   (\<forall>acc s v r st keys. parseMembers keepAll P fuel acc s = Some (v, r) \<longrightarrow> dupScan (Some keys # st) s = Inr () \<longrightarrow>
      (\<exists>ms. v = JObj (acc @ ms) \<and> distinct (map fst ms) \<and> fst ` set ms \<inter> set keys = {} \<and>
         (\<forall>x \<in> set ms. distinctMembers (snd x))) \<and> dupScan st r = Inr ())"
proof (induction fuel)
  case (Suc fuel)
  have value': "distinctMembers v \<and> dupScan st r = Inr ()"
    if "parseValue keepAll P fuel s = Some (v, r)" "dupScan st s = Inr ()" "\<not> starts_with [58] (dropWhile isWhite r)" for s v r st
    using Suc.IH that by blast
  have elems: "(\<exists>vs. v = JArr (acc @ vs) \<and> (\<forall>x \<in> set vs. distinctMembers x)) \<and> dupScan st r = Inr ()"
    if "parseElems keepAll P fuel acc s = Some (v, r)" "dupScan (None # st) s = Inr ()" for acc s v r st
    using Suc.IH that by blast
  have members: "(\<exists>ms. v = JObj (acc @ ms) \<and> distinct (map fst ms) \<and> fst ` set ms \<inter> set keys = {} \<and>
         (\<forall>x \<in> set ms. distinctMembers (snd x))) \<and> dupScan st r = Inr ()"
    if "parseMembers keepAll P fuel acc s = Some (v, r)" "dupScan (Some keys # st) s = Inr ()" for acc s v r st keys
    using Suc.IH that by blast
  have "distinctMembers v \<and> dupScan st r = Inr ()"
    if "parseValue keepAll P (Suc fuel) s = Some (v, r)" "dupScan st s = Inr ()" "\<not> starts_with [58] (dropWhile isWhite r)" for s v r st
  proof (rule scan_value [OF _ _ that])
    fix s v r st assume "parseElems keepAll P fuel [] s = Some (v, r)" "dupScan (None # st) s = Inr ()"
    from elems [OF this] show "distinctMembers v \<and> dupScan st r = Inr ()" by auto
  next
    fix s v r st assume "parseMembers keepAll P fuel [] s = Some (v, r)" "dupScan (Some [] # st) s = Inr ()"
    from members [OF this] show "distinctMembers v \<and> dupScan st r = Inr ()" by force
  qed
  moreover have "(\<exists>vs. v = JArr (acc @ vs) \<and> (\<forall>x \<in> set vs. distinctMembers x)) \<and> dupScan st r = Inr ()"
    if p: "parseElems keepAll P (Suc fuel) acc s = Some (v, r)" and scan: "dupScan (None # st) s = Inr ()" for acc s v r st
  proof -
    from p obtain x t c t' where x: "parseValue keepAll P fuel s = Some (x, t)" "skipWs t = c # t'" "c = 44 \<or> c = 93"
      and rest: "if c = 44 then parseElems keepAll P fuel (acc @ [x]) t' = Some (v, r) else v = JArr (acc @ [x]) \<and> r = t'"
      by (auto simp: parseElems.simps(2) split: option.splits list.splits if_splits)
    have "distinctMembers x" "dupScan (None # st) t = Inr ()"
      using value' [OF x(1) scan after_value [OF x(2)]] x(3) by auto
    moreover have "dupScan (None # st) (c # t') = Inr ()" using calculation dupScan_skipWs [of "None # st" t] x(2) by simp
    ultimately show ?thesis
      using rest x(3) elems [of "acc @ [x]" t' v r st] by (auto split: if_splits)
  qed
  moreover have "(\<exists>ms. v = JObj (acc @ ms) \<and> distinct (map fst ms) \<and> fst ` set ms \<inter> set keys = {} \<and>
         (\<forall>x \<in> set ms. distinctMembers (snd x))) \<and> dupScan st r = Inr ()"
    if p: "parseMembers keepAll P (Suc fuel) acc s = Some (v, r)" and scan: "dupScan (Some keys # st) s = Inr ()" for acc s v r st keys
  proof -
    from p obtain s' k t t' x u d u' where m: "skipWs s = 34 # s'" "parseString s' = Some (k, t)" "skipWs t = 58 # t'"
        "parseValue keepAll P fuel t' = Some (x, u)" "skipWs u = d # u'" "d = 44 \<or> d = 125"
      and rest: "if d = 44 then parseMembers keepAll P fuel (acc @ [(k, x)]) u' = Some (v, r) else v = JObj (acc @ [(k, x)]) \<and> r = u'"
      by (auto simp: parseMembers.simps(2) keepAll_def split: option.splits list.splits if_splits)
    have "dupScan (Some keys # st) (34 # s') = Inr ()" using scan dupScan_skipWs [of "Some keys # st" s] m(1) by simp
    then have name: "k \<notin> set keys" "dupScan (Some (k # keys) # st) t' = Inr ()"
      unfolding dupScan_name [OF m(2,3)] by (auto split: if_splits)
    have x: "distinctMembers x" "dupScan (Some (k # keys) # st) u = Inr ()"
      using value' [OF m(4) name(2) after_value [OF m(5)]] m(6) by auto
    then have "dupScan (Some (k # keys) # st) (d # u') = Inr ()" using dupScan_skipWs [of "Some (k # keys) # st" u] m(5) by simp
    then show ?thesis
      using rest m(6) members [of "acc @ [(k, x)]" u' v r "k # keys" st] name(1) x(1) by (auto split: if_splits)
  qed
  ultimately show ?case by blast
qed simp


text \<open>The insertion of members does not influence which text is read.\<close>

lemma parse_rest:
  "(\<forall>s. map_option snd (parseValue ins P fuel s) = map_option snd (parseValue ins' P fuel s)) \<and>
   (\<forall>acc acc' s. map_option snd (parseElems ins P fuel acc s) = map_option snd (parseElems ins' P fuel acc' s)) \<and>
   (\<forall>acc acc' s. map_option snd (parseMembers ins P fuel acc s) = map_option snd (parseMembers ins' P fuel acc' s))"
proof (induction fuel)
  case (Suc fuel)
  have same: "map_option snd (parseValue ins P fuel s) = map_option snd (parseValue ins' P fuel s)"
      "map_option snd (parseElems ins P fuel acc s) = map_option snd (parseElems ins' P fuel acc' s)"
      "map_option snd (parseMembers ins P fuel ms s) = map_option snd (parseMembers ins' P fuel ms' s)" for s acc acc' ms ms'
    using Suc.IH by blast+
  have inner: "(\<exists>x. parseValue ins P fuel s = Some (x, r)) \<longleftrightarrow> (\<exists>x. parseValue ins' P fuel s = Some (x, r))"
      "parseValue ins P fuel s = None \<longleftrightarrow> parseValue ins' P fuel s = None" for s r
    using same(1) [of s] by (auto simp: map_option_case split: option.splits)
  have "map_option snd (parseValue ins P (Suc fuel) s) = map_option snd (parseValue ins' P (Suc fuel) s)" for s
    unfolding parseValue.simps(2) using same(2) [of "[]" _ "[]"] same(3) [of "[]" _ "[]"] by (simp split: list.splits)
  moreover have "map_option snd (parseElems ins P (Suc fuel) acc s) = map_option snd (parseElems ins' P (Suc fuel) acc' s)" for acc acc' s
  proof (cases "parseValue ins P fuel s")
    case None
    moreover have "parseValue ins' P fuel s = None" using None inner(2) by blast
    ultimately show ?thesis by (simp add: parseElems.simps(2))
  next
    case (Some p)
    obtain x r where p: "p = (x, r)" by force
    obtain x' where "parseValue ins' P fuel s = Some (x', r)" using inner(1) Some p by blast
    then show ?thesis unfolding parseElems.simps(2) Some p using same(2) by (simp split: list.splits)
  qed
  moreover have "map_option snd (parseMembers ins P (Suc fuel) acc s) = map_option snd (parseMembers ins' P (Suc fuel) acc' s)" for acc acc' s
  proof -
    have "map_option snd (case parseValue ins P fuel t of None \<Rightarrow> None | Some (v, u) \<Rightarrow>
          (case skipWs u of [] \<Rightarrow> None | d # u' \<Rightarrow> if d = 44 then parseMembers ins P fuel (ins k v acc) u'
             else if d = 125 then Some (JObj (ins k v acc), u') else None)) =
        map_option snd (case parseValue ins' P fuel t of None \<Rightarrow> None | Some (v, u) \<Rightarrow>
          (case skipWs u of [] \<Rightarrow> None | d # u' \<Rightarrow> if d = 44 then parseMembers ins' P fuel (ins' k v acc') u'
             else if d = 125 then Some (JObj (ins' k v acc'), u') else None))" for k t
    proof (cases "parseValue ins P fuel t")
      case None
      moreover have "parseValue ins' P fuel t = None" using None inner(2) by blast
      ultimately show ?thesis by simp
    next
      case (Some p)
      obtain x r where p: "p = (x, r)" by force
      obtain x' where "parseValue ins' P fuel t = Some (x', r)" using inner(1) Some p by blast
      then show ?thesis unfolding Some p using same(3) by (simp split: list.splits)
    qed
    then show ?thesis unfolding parseMembers.simps(2) by (simp split: list.splits option.splits)
  qed
  ultimately show ?case by blast
qed simp

lemma parse_prefix:
  "(\<forall>acc s v r. parseElems keepAll P fuel acc s = Some (v, r) \<longrightarrow> (\<exists>vs. v = JArr (acc @ vs))) \<and>
   (\<forall>acc s v r. parseMembers keepAll P fuel acc s = Some (v, r) \<longrightarrow> (\<exists>ms. v = JObj (acc @ ms)))"
proof (induction fuel)
  case (Suc fuel)
  then show ?case
    by (fastforce simp: parseElems.simps(2) parseMembers.simps(2) keepAll_def split: option.splits list.splits if_splits)
qed simp

lemma update_fresh: "k \<notin> fst ` set ms \<Longrightarrow> AList.update k v ms = ms @ [(k, v)]"
  by (induction ms) auto

text \<open>Where no name is repeated, replacing a member and appending one are the same.\<close>

lemma parse_distinct:
  "(\<forall>s v r. parseValue keepAll P fuel s = Some (v, r) \<longrightarrow> distinctMembers v \<longrightarrow> parseValue AList.update P fuel s = Some (v, r)) \<and>
   (\<forall>acc s v r. parseElems keepAll P fuel acc s = Some (v, r) \<longrightarrow> distinctMembers v \<longrightarrow> parseElems AList.update P fuel acc s = Some (v, r)) \<and>
   (\<forall>acc s v r. parseMembers keepAll P fuel acc s = Some (v, r) \<longrightarrow> distinctMembers v \<longrightarrow> parseMembers AList.update P fuel acc s = Some (v, r))"
proof (induction fuel)
  case (Suc fuel)
  have vals: "parseValue AList.update P fuel s = Some (v, r)" if "parseValue keepAll P fuel s = Some (v, r)" "distinctMembers v" for s v r
    using Suc.IH that by blast
  have elems: "parseElems AList.update P fuel acc s = Some (v, r)" if "parseElems keepAll P fuel acc s = Some (v, r)" "distinctMembers v" for acc s v r
    using Suc.IH that by blast
  have members: "parseMembers AList.update P fuel acc s = Some (v, r)" if "parseMembers keepAll P fuel acc s = Some (v, r)" "distinctMembers v" for acc s v r
    using Suc.IH that by blast
  have "parseValue AList.update P (Suc fuel) s = Some (v, r)" if "parseValue keepAll P (Suc fuel) s = Some (v, r)" "distinctMembers v" for s v r
  proof -
    from that(1) obtain c s' where s: "skipWs s = c # s'" by (auto simp: parseValue.simps(2) split: list.splits)
    show ?thesis
      using that elems members unfolding parseValue.simps(2) s by (cases "skipWs s'") (simp_all del: js_Cons split: if_splits)
  qed
  moreover have "parseElems AList.update P (Suc fuel) acc s = Some (v, r)"
    if p: "parseElems keepAll P (Suc fuel) acc s = Some (v, r)" and d: "distinctMembers v" for acc s v r
  proof -
    from p obtain x t c t' where x: "parseValue keepAll P fuel s = Some (x, t)" "skipWs t = c # t'" "c = 44 \<or> c = 93"
      and rest: "if c = 44 then parseElems keepAll P fuel (acc @ [x]) t' = Some (v, r) else v = JArr (acc @ [x]) \<and> r = t'"
      by (auto simp: parseElems.simps(2) split: option.splits list.splits if_splits)
    have "distinctMembers x" using rest d parse_prefix x(3) by (fastforce split: if_splits)
    then show ?thesis using vals [OF x(1)] x rest elems d by (auto simp: parseElems.simps(2) split: if_splits)
  qed
  moreover have "parseMembers AList.update P (Suc fuel) acc s = Some (v, r)"
    if p: "parseMembers keepAll P (Suc fuel) acc s = Some (v, r)" and dist: "distinctMembers v" for acc s v r
  proof -
    from p obtain s' k t t' x u d u' where m: "skipWs s = 34 # s'" "parseString s' = Some (k, t)" "skipWs t = 58 # t'"
        "parseValue keepAll P fuel t' = Some (x, u)" "skipWs u = d # u'" "d = 44 \<or> d = 125"
      and rest: "if d = 44 then parseMembers keepAll P fuel (acc @ [(k, x)]) u' = Some (v, r) else v = JObj (acc @ [(k, x)]) \<and> r = u'"
      by (auto simp: parseMembers.simps(2) keepAll_def split: option.splits list.splits if_splits)
    obtain ms where "v = JObj ((acc @ [(k, x)]) @ ms)"
    proof (cases "d = 44")
      case True
      then show thesis using rest conjunct2 [OF parse_prefix] that by fastforce
    next
      case False
      then show thesis using rest that [of "[]"] by simp
    qed
    then have "distinctMembers x" "k \<notin> fst ` set acc" using dist by auto
    then have "AList.update k x acc = acc @ [(k, x)]" by (simp add: update_fresh)
    then show ?thesis
      using vals [OF m(4)] \<open>distinctMembers x\<close> m rest members dist by (auto simp: parseMembers.simps(2) split: if_splits)
  qed
  ultimately show ?case by blast
qed simp

lemma parseText_strict:
  assumes "dupScan [] t = Inr ()" and "parseJson P t = Inr v"
  shows "parseText keepAll P t = Inr v \<and> distinctMembers v"
proof -
  let ?f = "2 * length t + 2"
  from assms(2) obtain r where r: "parseValue AList.update P ?f t = Some (v, r)" "skipWs r = []"
    by (auto simp: parseJson_def parseText_def split: option.splits if_splits)
  then obtain w where w: "parseValue keepAll P ?f t = Some (w, r)"
    using conjunct1 [OF parse_rest [of AList.update P ?f keepAll], rule_format, of t]
    by (auto simp: map_option_case split: option.splits)
  have "\<not> starts_with [58] (dropWhile isWhite r)" unfolding dropWhite_skipWs [of r] r(2) by (simp add: starts_with_def)
  then have "distinctMembers w" using scan_parse w assms(1) by blast
  then have "parseValue AList.update P ?f t = Some (w, r)" using parse_distinct w by blast
  then show ?thesis using r w \<open>distinctMembers w\<close> by (simp add: parseText_def)
qed

lemma parseJsonNoDuplicateMembers_distinct:
  assumes "parseJsonNoDuplicateMembers P bs = Inr v"
  shows "distinctMembers v"
  using assms parseText_strict by (auto simp: parseJsonNoDuplicateMembers_def bindE_eq_Inr)

text \<open>
  C25. Strict parsing: when bytes are accepted, they are the UTF-8 form of a text (perhaps after a byte order
  mark) whose objects have no two members of the same name, at any depth and however the names are
  escaped, and the value returned has exactly the members of the text. No member is silently replaced.
\<close>

theorem parseJsonNoDuplicateMembers_strict:
  assumes "parseJsonNoDuplicateMembers P bs = Inr v"
  shows "\<exists>t. (utf8 t = bs \<or> utf8 (0xFEFF # t) = bs) \<and> parseText keepAll P t = Inr v \<and> distinctMembers v"
proof -
  from assms obtain t where t: "textDecode False bs = Inr t" "dupScan [] t = Inr ()" "parseJson P t = Inr v"
    by (auto simp: parseJsonNoDuplicateMembers_def bindE_eq_Inr)
  from t(1) obtain u where u: "utf8Text bs = Some u" "t = (if u \<noteq> [] \<and> hd u = 0xFEFF then tl u else u)"
    by (auto simp: textDecode_def split: option.splits)
  then have "utf8 t = bs \<or> utf8 (0xFEFF # t) = bs" using utf8Text_dec [OF u(1)] by (cases u) auto
  then show ?thesis using parseText_strict [OF t(2,3)] by blast
qed


text \<open>
  Compact tokens are not malleable: an accepted token is the concatenation of the unpadded base64url
  forms of its header, payload and signature bytes, the header is a JSON object without duplicate
  members, names an algorithm and a key, and asks for no extension.
\<close>

theorem parseCompactJose_canonical:
  assumes "parseCompactJose P token = Inr r"
  shows "\<exists>header. token = toBase64Url header @ [46] @ toBase64Url (cj_payload r) @ [46] @ toBase64Url (cj_signature r) \<and>
    cj_parts r = (toBase64Url header, toBase64Url (cj_payload r), toBase64Url (cj_signature r)) \<and>
    parseJsonNoDuplicateMembers P header = Inr (cj_header r) \<and> distinctMembers (cj_header r) \<and> supportedHeader (cj_header r)"
proof -
  have part: "toBase64Url bs = s" if "decodePart s = Inr bs" for s bs
    using that by (auto simp: decodePart_def bindE_eq_Inr split: if_splits)
  from assms obtain h p s where parts: "split_on 46 token = [h, p, s]"
    by (auto simp: parseCompactJose_def catchE_eq_Inr split: if_splits list.splits)
  from assms obtain hb pb sb where dec: "decodePart h = Inr hb" "decodePart p = Inr pb" "decodePart s = Inr sb"
    and hdr: "parseJoseObject P hb = Inr (cj_header r)" "supportedHeader (cj_header r)"
    and r: "cj_parts r = (h, p, s)" "cj_payload r = pb" "cj_signature r = sb"
    by (auto simp: parseCompactJose_def parts catchE_eq_Inr bindE_eq_Inr split: if_splits)
  have "token = h @ [46] @ p @ [46] @ s" using join_split [of 46 token] parts by simp
  moreover have "parseJsonNoDuplicateMembers P hb = Inr (cj_header r)"
  proof -
    from hdr(1) obtain v where "parseJsonNoDuplicateMembers P hb = Inr v" "(case v of JObj _ \<Rightarrow> Inr v | _ \<Rightarrow> Inl (PlainError ''expected JSON object'')) = Inr (cj_header r)"
      by (auto simp: parseJoseObject_def catchE_eq_Inr bindE_eq_Inr)
    then show ?thesis by (cases v) auto
  qed
  moreover have "distinctMembers (cj_header r)" using calculation(2) parseJsonNoDuplicateMembers_distinct by blast
  ultimately show ?thesis using part [OF dec(1)] part [OF dec(2)] part [OF dec(3)] r hdr(2) by auto
qed


lemma toBase64Url_text: "base64urlText (toBase64Url bs)"
proof -
  have "isAlnum (b64char i) \<or> b64char i = 43 \<or> b64char i = 47" if "i < 64" for i
    using that by (auto simp: b64char_def isAlnum_def isLower_def isUpper_def isDigit_def)
  then show ?thesis
    using toSextets_less [OF map_unat_bytes, of _ bs] by (fastforce simp: base64urlText_def toBase64Url_sextets)
qed

text \<open>Conversely, every token that is put together from such parts is accepted.\<close>

lemma parseCompactJose_compose:
  assumes "parseJoseObject P header = Inr h" and "supportedHeader h" and "length (toBase64Url header) \<le> 16 * 1024"
    and "length (toBase64Url header @ [46] @ toBase64Url payload @ [46] @ toBase64Url signature) \<le> 1024 * 1024"
  shows "parseCompactJose P (toBase64Url header @ [46] @ toBase64Url payload @ [46] @ toBase64Url signature) =
    Inr \<lparr>cj_parts = (toBase64Url header, toBase64Url payload, toBase64Url signature), cj_header = h,
      cj_payload = payload, cj_signature = signature\<rparr>"
proof -
  have nodot: "46 \<notin> set (toBase64Url bs)" for bs
    using toBase64Url_text [of bs] by (auto simp: base64urlText_def isAlnum_def isLower_def isUpper_def isDigit_def)
  have "split_on 46 (toBase64Url header @ [46] @ toBase64Url payload @ [46] @ toBase64Url signature) =
      [toBase64Url header, toBase64Url payload, toBase64Url signature]"
    using split_join [of "[toBase64Url header, toBase64Url payload, toBase64Url signature]" 46] nodot by simp
  moreover have "decodePart (toBase64Url bs) = Inr bs" for bs
    by (simp add: decodePart_def toBase64Url_text toBase64Url_roundtrip)
  ultimately show ?thesis using assms by (simp add: parseCompactJose_def)
qed

end
