(* ===== verification/Canonical.thy ===== *)
theory Canonical
  imports StrictJson Numerals
begin

text \<open>
  Canonical JSON (\<open>log-c2sp-tlog/src/canonical.ts\<close>): serialization with sorted members, the limits on the
  nesting depth of texts and values, and the check that bytes are the canonical form of their content.
\<close>

section \<open>Nesting depth of bytes\<close>

definition MAX_JSON_DEPTH :: nat where
  "MAX_JSON_DEPTH = 64"

definition nestingError :: js_error where
  "nestingError = c2spResourceLimitError ''JSON nesting limit exceeded (64)''"

text \<open>The bytes after the closing quote of a string.\<close>

fun afterString :: "bytes \<Rightarrow> bytes" where
  "afterString [] = []"
| "afterString (b # bs) =
     (if b = 0x22 then bs
      else if b = 0x5C then (case bs of [] \<Rightarrow> [] | _ # bs' \<Rightarrow> afterString bs')
      else afterString bs)"

lemma length_afterString: "length (afterString bs) \<le> length bs"
proof (induction bs rule: afterString.induct)
  case (2 b bs)
  then show ?case by (cases bs) (auto simp: le_Suc_eq)
qed simp

definition isByteWs :: "byte \<Rightarrow> bool" where
  "isByteWs b \<longleftrightarrow> b \<in> {0x20, 0x09, 0x0A, 0x0D}"

function depthScan :: "int \<Rightarrow> bytes \<Rightarrow> js_error + unit" where
  "depthScan depth [] = Inr ()"
| "depthScan depth (b # bs) =
     (if b = 0x7D \<or> b = 0x5D then depthScan (depth - 1) bs
      else if isByteWs b \<or> b = 0x2C \<or> b = 0x3A then depthScan depth bs
      else if b = 0x22 then
        (let rest = afterString bs in
         if take 1 (dropWhile isByteWs rest) = [0x3A] then depthScan depth rest
         else if depth > int MAX_JSON_DEPTH then Inl nestingError
         else depthScan depth rest)
      else if depth > int MAX_JSON_DEPTH then Inl nestingError
      else depthScan (if b = 0x7B \<or> b = 0x5B then depth + 1 else depth) bs)"
  by pat_completeness auto
termination
  by (relation "measure (\<lambda>(_, bs). length bs)") (auto simp: less_Suc_eq_le length_afterString)

definition assertJsonDepth :: "bytes \<Rightarrow> js_error + unit" where
  "assertJsonDepth bs = depthScan 0 bs"

section \<open>Serialization\<close>

text \<open>\<open>Object.values\<close> of a value that is an object.\<close>

fun childValues :: "json \<Rightarrow> json list" where
  "childValues (JArr vs) = vs"
| "childValues (JObj ms) = map snd ms"
| "childValues _ = []"

lemma size_childValues: "c \<in> set (childValues v) \<Longrightarrow> size c < size v"
proof (cases v)
  case (JArr vs)
  assume "c \<in> set (childValues v)"
  then show ?thesis using JArr by (auto simp: less_Suc_eq_le intro: size_list_estimation')
next
  case (JObj ms)
  assume "c \<in> set (childValues v)"
  then obtain k where "(k, c) \<in> set ms" using JObj by auto
  then have "size c \<le> size_list (size_prod (\<lambda>x. 0) size) ms" by (auto intro: size_list_estimation')
  then show ?thesis using JObj by simp
qed simp_all


lemma sum_childValues: "(\<Sum>c\<leftarrow>childValues v. Suc (size c)) < Suc (size v)"
proof (cases v)
  case (JObj ms)
  have "(\<Sum>c\<leftarrow>map snd ms. Suc (size c)) \<le> size_list (size_prod (\<lambda>x. 0) size) ms"
    by (induction ms) (auto simp: size_prod_def split: prod.splits)
  then show ?thesis using JObj by simp
next
  case (JArr vs)
  have "(\<Sum>c\<leftarrow>vs. Suc (size c)) \<le> size_list size vs" by (induction vs) auto
  then show ?thesis using JArr by simp
qed simp_all

text \<open>The depth check of a value, with the stack of values still to visit (its top first).\<close>

function depthWalk :: "(json \<times> nat) list \<Rightarrow> js_error + unit" where
  "depthWalk [] = Inr ()"
| "depthWalk ((current, depth) # pending) =
     (if depth > MAX_JSON_DEPTH then Inl nestingError
      else depthWalk (rev (map (\<lambda>child. (child, depth + 1)) (childValues current)) @ pending))"
  by pat_completeness auto
termination
proof (relation "measure (\<lambda>stack. \<Sum>p\<leftarrow>stack. Suc (size (fst p)))", goal_cases)
  case (2 current depth pending)
  then show ?case using sum_childValues [of current] by (simp add: sum_list_rev rev_map [symmetric] o_def)
qed simp

text \<open>Unpaired surrogates are rejected.\<close>

fun assertValidUnicode :: "jstring \<Rightarrow> js_error + unit" where
  "assertValidUnicode [] = Inr ()"
| "assertValidUnicode (h # s) =
     (if 0xD800 \<le> h \<and> h \<le> 0xDBFF then
        (case s of
           [] \<Rightarrow> Inl (c2spParseError ''JSON contains an unpaired surrogate'')
         | l # s' \<Rightarrow>
             if 0xDC00 \<le> l \<and> l \<le> 0xDFFF then assertValidUnicode s'
             else Inl (c2spParseError ''JSON contains an unpaired surrogate''))
      else if 0xDC00 \<le> h \<and> h \<le> 0xDFFF then Inl (c2spParseError ''JSON contains an unpaired surrogate'')
      else assertValidUnicode s)"

function serializeJson :: "platform \<Rightarrow> json \<Rightarrow> js_error + jstring" where
  "serializeJson P JNull = Inr (js ''null'')"
| "serializeJson P (JBool b) = Inr (js (if b then ''true'' else ''false''))"
| "serializeJson P (JNum n) =
     (if finiteNum n = None \<or> n = NegZero then Inl (c2spParseError ''non-canonical JSON number'')
      else Inr (numToString P n))"
| "serializeJson P (JStr s) = bindE (assertValidUnicode s) (\<lambda>_. Inr (quoteJson s))"
| "serializeJson P (JArr vs) = bindE (mapE (serializeJson P) vs) (\<lambda>ts. Inr (91 # join [44] ts @ [93]))"
| "serializeJson P (JObj ms) =
     bindE (mapE (\<lambda>m.
         bindE (assertValidUnicode (fst m)) (\<lambda>_.
         if snd m = JUndef then Inl (c2spParseError ''undefined is not JSON'')
         else bindE (serializeJson P (snd m)) (\<lambda>t. Inr (quoteJson (fst m) @ 58 # t)))) (sort_key fst ms))
       (\<lambda>ts. Inr (123 # join [44] ts @ [125]))"
| "serializeJson P JUndef = Inl (c2spParseError ''unsupported JSON value'')"
  by pat_completeness auto
termination
proof (relation "measure (\<lambda>(_, v). size v)", goal_cases)
  case (2 P vs v)
  then show ?case using size_childValues [of v "JArr vs"] by simp
next
  case (3 P ms m u)
  then show ?case using size_childValues [of "snd m" "JObj ms"] by auto
qed simp

definition canonicalJson :: "platform \<Rightarrow> json \<Rightarrow> js_error + jstring" where
  "canonicalJson P v = bindE (depthWalk [(v, 0)]) (\<lambda>_. serializeJson P v)"

definition canonicalBytes :: "platform \<Rightarrow> json \<Rightarrow> js_error + bytes" where
  "canonicalBytes P v = bindE (canonicalJson P v) (\<lambda>t. Inr (utf8 t))"

section \<open>Parsing\<close>

fun isC2spParseOrLimit :: "js_error \<Rightarrow> bool" where
  "isC2spParseOrLimit (Verification v) = (ve_class v \<in> {C2spTlogParseError, C2spTlogResourceLimitError})"
| "isC2spParseOrLimit _ = False"

fun isRangeError :: "js_error \<Rightarrow> bool" where
  "isRangeError (JsRangeError _) = True"
| "isRangeError _ = False"

text \<open>\<open>parseJsonNoDuplicateMembers\<close> of the log package, around the one of the protocol package.\<close>

definition parseJsonNoDuplicates :: "platform \<Rightarrow> bytes \<Rightarrow> js_error + json" where
  "parseJsonNoDuplicates P bs =
     bindE (assertJsonDepth bs) (\<lambda>_.
     catchE (parseJsonNoDuplicateMembers P bs) (\<lambda>cause.
       if isRangeError cause then Inl (c2spResourceLimitError ''JSON parser resource limit exceeded'')
       else if isC2spParseOrLimit cause then Inl cause
       else Inl (c2spParseError ''malformed UTF-8 JSON'')))"

definition assertCanonicalJsonBytes :: "platform \<Rightarrow> bytes \<Rightarrow> json \<Rightarrow> js_error + unit" where
  "assertCanonicalJsonBytes P bs v =
     bindE (textDecode True bs) (\<lambda>got.
     bindE (canonicalJson P v) (\<lambda>want.
     if got \<noteq> want then Inl (c2spParseError ''entry bytes are not canonical JCS'') else Inr ()))"

section \<open>Depth\<close>

fun jsonHeight :: "json \<Rightarrow> nat" where
  "jsonHeight (JArr vs) = Max (insert 0 ((\<lambda>v. Suc (jsonHeight v)) ` set vs))"
| "jsonHeight (JObj ms) = Max (insert 0 ((\<lambda>m. Suc (jsonHeight (snd m))) ` set ms))"
| "jsonHeight _ = 0"

lemma jsonHeight_children: "jsonHeight v = Max (insert 0 ((\<lambda>c. Suc (jsonHeight c)) ` set (childValues v)))"
  by (cases v) (simp_all add: image_image)

lemma jsonHeight_le: "jsonHeight v \<le> n \<longleftrightarrow> (\<forall>c \<in> set (childValues v). Suc (jsonHeight c) \<le> n)"
  by (subst jsonHeight_children) (auto simp: Max_le_iff)

lemma depthWalk_iff: "depthWalk stack = Inr () \<longleftrightarrow> (\<forall>p \<in> set stack. snd p + jsonHeight (fst p) \<le> MAX_JSON_DEPTH)"
proof (induction stack rule: depthWalk.induct)
  case (2 current depth pending)
  have "depth + jsonHeight current \<le> MAX_JSON_DEPTH \<longleftrightarrow> depth \<le> MAX_JSON_DEPTH \<and>
      (\<forall>c \<in> set (childValues current). depth + 1 + jsonHeight c \<le> MAX_JSON_DEPTH)"
    using jsonHeight_le [of current "MAX_JSON_DEPTH - depth"] by auto
  then show ?case using 2 by (cases "MAX_JSON_DEPTH < depth") (simp_all add: ball_Un)
qed simp

lemma depthWalk_error: "depthWalk stack = Inl e \<Longrightarrow> e = nestingError"
  by (induction stack rule: depthWalk.induct) (auto split: if_splits)

lemma canonicalJson_Inr: "canonicalJson P v = Inr t \<longleftrightarrow> jsonHeight v \<le> MAX_JSON_DEPTH \<and> serializeJson P v = Inr t"
  using depthWalk_iff [of "[(v, 0)]"] by (auto simp: canonicalJson_def bindE_eq_Inr)

end
