(* ===== verification/CanonicalText.thy ===== *)
theory CanonicalText
  imports Canonical
begin

text \<open>
  Reading canonical texts: quoted strings and numbers are read back, the parser returns the value with
  sorted members, and the scans for duplicate members and for nesting depth pass over the text of a
  value without an effect on what follows it.
\<close>

section \<open>Strings read back\<close>

lemma validUnicode_iff: "validUnicode s \<longleftrightarrow> assertValidUnicode s = Inr () \<and> (\<forall>c \<in> set s. c < 0x10000)"
proof (induction s rule: assertValidUnicode.induct)
  case (2 h s)
  then show ?case by (cases s) auto
qed simp

lemma hexDigitVal_hexDigit: "n < 16 \<Longrightarrow> hexDigitVal (hexDigit n) = Some n"
  by (auto simp: hexDigitVal_def hexDigit_def isDigit_def)

lemma hexUnit_escape:
  assumes "c < 0x10000"
  shows "hexUnit [hexDigit (c div 4096 mod 16), hexDigit (c div 256 mod 16), hexDigit (c div 16 mod 16), hexDigit (c mod 16)] = Some c"
proof -
  have e: "c div 256 = c div 16 div 16" "c div 4096 = c div 16 div 16 div 16" by (simp_all add: div_mult2_eq [symmetric])
  have "c div 16 * 16 + c mod 16 = c" "c div 16 div 16 * 16 + c div 16 mod 16 = c div 16"
      "c div 16 div 16 div 16 * 16 + c div 16 div 16 mod 16 = c div 16 div 16"
    by simp_all
  then have "c div 16 div 16 div 16 * 4096 + (c div 16 div 16 mod 16 * 256 + (c div 16 mod 16 * 16 + c mod 16)) = c"
    by linarith
  moreover have "c div 16 div 16 div 16 < 16" using assms e(2) by simp
  ultimately show ?thesis unfolding e by (simp add: hexDigitVal_hexDigit)
qed

lemma parseString_end: "parseString (34 # s) = Some ([], s)"
  by simp

lemma parseString_plain:
  "c \<noteq> 34 \<Longrightarrow> c \<noteq> 92 \<Longrightarrow> \<not> c < 32 \<Longrightarrow> parseString (c # s) = map_option (apfst ((#) c)) (parseString s)"
  by simp

lemma parseString_quoteUnit:
  assumes "c < 0x10000"
  shows "parseString (quoteUnit p c @ s) = map_option (apfst ((#) c)) (parseString s)"
  using assms hexUnit_escape [OF assms]
  by (auto simp: quoteUnit_def unicodeEscape_def shortEscape_def simp del: hexUnit.simps)

lemma parseString_quoteUnits: "\<forall>c \<in> set s. c < 0x10000 \<Longrightarrow> parseString (quoteUnits s @ 34 # rest) = Some (s, rest)"
proof (induction s rule: quoteUnits.induct)
  case (3 h l s)
  then show ?case by (auto simp: parseString_quoteUnit parseString_plain parseString_end simp del: parseString.simps)
qed (simp_all add: parseString_quoteUnit parseString_end del: parseString.simps(2))

section \<open>Numbers read back\<close>

text \<open>What follows a value in a canonical text.\<close>

definition stops :: "jstring \<Rightarrow> bool" where
  "stops rest \<longleftrightarrow> rest = [] \<or> hd rest \<in> {44, 93, 125}"

lemma digits1_append:
  assumes "digits1 s = Some (t, r)" and "r = [] \<longrightarrow> rest = [] \<or> \<not> isDigit (hd rest)"
  shows "digits1 (s @ rest) = Some (t, r @ rest)"
proof -
  from assms(1) have s: "s \<noteq> []" "isDigit (hd s)" "t = takeWhile isDigit s" "r = dropWhile isDigit s"
    by (auto simp: digits1_def split: if_splits)
  have "takeWhile isDigit (s @ rest) = t \<and> dropWhile isDigit (s @ rest) = r @ rest"
  proof (cases "r = []")
    case True
    then have "\<forall>c \<in> set s. isDigit c" using s(4) by (simp add: dropWhile_eq_Nil_conv)
    moreover have "takeWhile isDigit rest = []" "dropWhile isDigit rest = rest" using assms(2) True by (cases rest; auto)+
    ultimately show ?thesis using True s by (simp add: takeWhile_append2 dropWhile_append2 takeWhile_eq_all_conv [THEN iffD2])
  next
    case False
    then obtain x where "x \<in> set s" "\<not> isDigit x" using s(4) by (auto simp: dropWhile_eq_Nil_conv)
    then show ?thesis using s by (simp add: takeWhile_append1 dropWhile_append1)
  qed
  then show ?thesis using s by (simp add: digits1_def)
qed

lemma numberToken_append:
  assumes "numberToken t = Some (t, [])" and "stops rest"
  shows "numberToken (t @ rest) = Some (t, rest)"
proof -
  let ?ok = "\<lambda>x. rest = [] \<or> hd rest \<in> {44, 93, 125}"
  have stop: "r = [] \<longrightarrow> rest = [] \<or> \<not> isDigit (hd rest)" for r :: jstring
    using assms(2) by (auto simp: stops_def isDigit_def)
  have sign: "signPart signs (x @ rest) = (fst (signPart signs x), snd (signPart signs x) @ rest)" if "x \<noteq> []" for signs x
    using that by (cases x) (auto simp: signPart_def)
  have int: "intPart (x @ rest) = Some (i, y @ rest)" if "intPart x = Some (i, y)" for x i y
    using that digits1_append [OF _ stop] by (cases x) (fastforce simp: intPart_def split: if_splits)+
  have frac: "fracPart (x @ rest) = Some (i, y @ rest)" if "fracPart x = Some (i, y)" for x i y
  proof (cases x)
    case Nil
    then show ?thesis using that assms(2) by (cases rest) (auto simp: fracPart_def stops_def)
  next
    case (Cons c x')
    then show ?thesis using that digits1_append [OF _ stop, of x'] by (auto simp: fracPart_def split: if_splits)
  qed
  have expo: "expPart (x @ rest) = Some (i, y @ rest)" if "expPart x = Some (i, y)" for x i y
  proof (cases x)
    case Nil
    then show ?thesis using that assms(2) by (cases rest) (auto simp: expPart_def stops_def)
  next
    case (Cons c x')
    then show ?thesis
      using that digits1_append [OF _ stop, of "snd (signPart [43, 45] x')"] sign [of x' "[43, 45]"]
      by (cases "x' = []") (auto simp: expPart_def Let_def digits1_def signPart_def split: if_splits)
  qed
  from assms(1) obtain i s1 f s2 e where p: "intPart (snd (signPart [45] t)) = Some (i, s1)" "fracPart s1 = Some (f, s2)"
      "expPart s2 = Some (e, [])" "t = fst (signPart [45] t) @ i @ f @ e"
    by (auto simp: numberToken_def Let_def split: option.splits)
  have "t \<noteq> []" using p(1) by (auto simp: signPart_def intPart_def)
  then show ?thesis
    using p int [OF p(1)] frac [OF p(2)] expo [OF p(3)] sign [of t "[45]"] by (simp add: numberToken_def)
qed

lemma numberToken_head:
  assumes "numberToken t = Some (t, [])"
  shows "\<exists>c s. t = c # s \<and> (c = 45 \<or> isDigit c)"
proof -
  have "t \<noteq> []" using assms by (auto simp: numberToken_def signPart_def intPart_def Let_def)
  then obtain c s where t: "t = c # s" by (cases t) auto
  have "intPart (snd (signPart [45] t)) \<noteq> None" using assms by (auto simp: numberToken_def Let_def split: option.splits)
  then show ?thesis using t by (auto simp: signPart_def intPart_def digits1_def isDigit_def split: if_splits list.splits)
qed


section \<open>Values read back\<close>

text \<open>
  The numbers that survive printing: finite ones but the negative zero, printed as a JSON number that
  reads as the same number. The language specifies this of every finite number.
\<close>

definition okNum :: "platform \<Rightarrow> jsnum \<Rightarrow> bool" where
  "okNum P n \<longleftrightarrow> finiteNum n \<noteq> None \<and> n \<noteq> NegZero \<and> numberToken (numToString P n) = Some (numToString P n, []) \<and>
     numFromText P (numToString P n) = n"

fun wfJson :: "platform \<Rightarrow> json \<Rightarrow> bool" where
  "wfJson P JUndef = False"
| "wfJson P (JNum n) = okNum P n"
| "wfJson P (JStr s) = validUnicode s"
| "wfJson P (JArr vs) = (\<forall>v \<in> set vs. wfJson P v)"
| "wfJson P (JObj ms) = (distinct (map fst ms) \<and> (\<forall>m \<in> set ms. validUnicode (fst m) \<and> wfJson P (snd m)))"
| "wfJson P _ = True"

fun sortMembers :: "json \<Rightarrow> json" where
  "sortMembers (JArr vs) = JArr (map sortMembers vs)"
| "sortMembers (JObj ms) = JObj (sort_key fst (map (\<lambda>m. (fst m, sortMembers (snd m))) ms))"
| "sortMembers v = v"

fun jsonText :: "platform \<Rightarrow> json \<Rightarrow> jstring" where
  "jsonText P JUndef = []"
| "jsonText P JNull = js ''null''"
| "jsonText P (JBool b) = js (if b then ''true'' else ''false'')"
| "jsonText P (JNum n) = numToString P n"
| "jsonText P (JStr s) = quoteJson s"
| "jsonText P (JArr vs) = 91 # join [44] (map (jsonText P) vs) @ [93]"
| "jsonText P (JObj ms) =
     123 # join [44] (map (\<lambda>m. quoteJson (fst m) @ 58 # snd m) (sort_key fst (map (\<lambda>m. (fst m, jsonText P (snd m))) ms))) @ [125]"

text \<open>Sorting by name commutes with a change of the values.\<close>

lemma insort_key_map_snd:
  "insort_key fst (fst m, f (snd m)) (map (\<lambda>m. (fst m, f (snd m))) ms) = map (\<lambda>m. (fst m, f (snd m))) (insort_key fst m ms)"
  by (induction ms) auto

lemma sort_key_map_snd: "sort_key fst (map (\<lambda>m. (fst m, f (snd m))) ms) = map (\<lambda>m. (fst m, f (snd m))) (sort_key fst ms)"
  by (induction ms) (simp_all add: insort_key_map_snd)

lemma sortMembers_obj: "sortMembers (JObj ms) = JObj (map (\<lambda>m. (fst m, sortMembers (snd m))) (sort_key fst ms))"
  by (simp only: sortMembers.simps sort_key_map_snd)

lemma jsonText_obj:
  "jsonText P (JObj ms) = 123 # join [44] (map (\<lambda>m. quoteJson (fst m) @ 58 # jsonText P (snd m)) (sort_key fst ms)) @ [125]"
  by (simp add: sort_key_map_snd o_def)

declare sortMembers.simps(2) [simp del] jsonText.simps(7) [simp del]
lemmas [simp] = sortMembers_obj jsonText_obj

lemma serializeJson_text: "wfJson P v \<Longrightarrow> serializeJson P v = Inr (jsonText P v)"
proof (induction v rule: measure_induct_rule [of size])
  case (less v)
  show ?case
  proof (cases v)
    case (JArr vs)
    have "mapE (serializeJson P) vs = Inr (map (jsonText P) vs)"
    proof (rule mapE_map, intro ballI)
      fix x assume "x \<in> set vs"
      then show "serializeJson P x = Inr (jsonText P x)"
        using less.IH less.prems JArr size_childValues [of x v] by simp
    qed
    then show ?thesis using JArr by simp
  next
    case (JObj ms)
    have "mapE (\<lambda>m. bindE (assertValidUnicode (fst m)) (\<lambda>_.
         if snd m = JUndef then Inl (c2spParseError ''undefined is not JSON'')
         else bindE (serializeJson P (snd m)) (\<lambda>t. Inr (quoteJson (fst m) @ 58 # t)))) (sort_key fst ms) =
       Inr (map (\<lambda>m. quoteJson (fst m) @ 58 # jsonText P (snd m)) (sort_key fst ms))"
    proof (rule mapE_map, intro ballI)
      fix m assume "m \<in> set (sort_key fst ms)"
      then have m: "validUnicode (fst m)" "wfJson P (snd m)" "size (snd m) < size v"
        using less.prems JObj size_childValues [of "snd m" v] by auto
      then have "serializeJson P (snd m) = Inr (jsonText P (snd m))" "snd m \<noteq> JUndef" using less.IH by auto
      then show "bindE (assertValidUnicode (fst m)) (\<lambda>_.
         if snd m = JUndef then Inl (c2spParseError ''undefined is not JSON'')
         else bindE (serializeJson P (snd m)) (\<lambda>t. Inr (quoteJson (fst m) @ 58 # t))) = Inr (quoteJson (fst m) @ 58 # jsonText P (snd m))"
        using m(1) by (simp add: validUnicode_iff)
    qed
    then show ?thesis using JObj by simp
  qed (use less.prems in \<open>auto simp: okNum_def validUnicode_iff\<close>)
qed

lemma jsonText_head:
  assumes "wfJson P v"
  shows "\<exists>c s. jsonText P v = c # s \<and> (c \<in> {34, 45, 91, 102, 110, 116, 123} \<or> isDigit c)"
proof (cases v)
  case (JNum n)
  then show ?thesis using assms numberToken_head [of "numToString P n"] by (auto simp: okNum_def)
qed (use assms in \<open>auto simp: quoteJson_def\<close>)

lemma skipWs_text:
  assumes "wfJson P v"
  shows "skipWs (jsonText P v @ rest) = jsonText P v @ rest"
  using jsonText_head [OF assms] by (auto simp: skipWs_def isJsonWs_def isDigit_def)

lemma skipWs_Cons_id: "\<not> isJsonWs c \<Longrightarrow> skipWs (c # s) = c # s"
  by (simp add: skipWs_def)

text \<open>\<open>parses p x\<close>: the parser \<open>p\<close> returns \<open>x\<close> with every bound that is large enough.\<close>

definition parses :: "(nat \<Rightarrow> 'a option) \<Rightarrow> 'a \<Rightarrow> bool" where
  "parses p x \<longleftrightarrow> (\<exists>n. \<forall>fuel \<ge> n. p fuel = Some x)"

lemma parsesI: "(\<And>fuel. n \<le> fuel \<Longrightarrow> p (Suc fuel) = Some x) \<Longrightarrow> parses p x"
  unfolding parses_def by (intro exI [of _ "Suc n"]) (metis Suc_le_D Suc_le_mono)

lemma parses_elems:
  assumes "vs \<noteq> []"
    and "\<And>v rest. v \<in> set vs \<Longrightarrow> stops rest \<Longrightarrow> parses (\<lambda>n. parseValue ins P n (txt v @ rest)) (val v, rest)"
  shows "parses (\<lambda>n. parseElems ins P n acc (join [44] (map txt vs) @ 93 # rest)) (JArr (acc @ map val vs), rest)"
  using assms
proof (induction vs arbitrary: acc)
  case (Cons v vs)
  show ?case
  proof (cases "vs = []")
    case True
    obtain n where n: "\<And>fuel. n \<le> fuel \<Longrightarrow> parseValue ins P fuel (txt v @ 93 # rest) = Some (val v, 93 # rest)"
      using Cons.prems(2) [of v "93 # rest"] by (auto simp: parses_def stops_def)
    show ?thesis by (rule parsesI [of n]) (simp add: True parseElems.simps(2) n skipWs_Cons_id isJsonWs_def)
  next
    case False
    let ?t = "join [44] (map txt vs) @ 93 # rest"
    obtain n where n: "\<And>fuel. n \<le> fuel \<Longrightarrow> parseValue ins P fuel (txt v @ 44 # ?t) = Some (val v, 44 # ?t)"
      using Cons.prems(2) [of v "44 # ?t"] by (auto simp: parses_def stops_def)
    obtain m where m: "\<And>fuel. m \<le> fuel \<Longrightarrow> parseElems ins P fuel (acc @ [val v]) ?t = Some (JArr ((acc @ [val v]) @ map val vs), rest)"
      using Cons.IH [OF False, of "acc @ [val v]"] Cons.prems(2) by (auto simp: parses_def)
    have join: "join [44] (map txt (v # vs)) @ 93 # rest = txt v @ 44 # ?t" using False by (simp add: join_Cons)
    show ?thesis unfolding join
      by (rule parsesI [of "max n m"]) (simp add: parseElems.simps(2) n m skipWs_Cons_id isJsonWs_def)
  qed
qed simp


lemma parses_members:
  assumes "ms \<noteq> []" and "distinct (map fst ms)" and "fst ` set acc \<inter> fst ` set ms = {}"
    and "\<And>m. m \<in> set ms \<Longrightarrow> \<forall>c \<in> set (fst m). c < 0x10000"
    and "\<And>m rest. m \<in> set ms \<Longrightarrow> stops rest \<Longrightarrow> parses (\<lambda>n. parseValue AList.update P n (txt (snd m) @ rest)) (val (snd m), rest)"
  shows "parses (\<lambda>n. parseMembers AList.update P n acc (join [44] (map (\<lambda>m. quoteJson (fst m) @ 58 # txt (snd m)) ms) @ 125 # rest))
    (JObj (acc @ map (\<lambda>m. (fst m, val (snd m))) ms), rest)"
  using assms
proof (induction ms arbitrary: acc)
  case (Cons m ms)
  obtain k x where mk: "m = (k, x)" by force
  have name: "skipWs (quoteJson k @ s) = 34 # quoteUnits k @ 34 # s" "parseString (quoteUnits k @ 34 # s) = Some (k, s)" for s
    using parseString_quoteUnits Cons.prems(4) [of m] mk by (simp_all add: quoteJson_def skipWs_def isJsonWs_def)
  have upd: "AList.update k (val x) acc = acc @ [(k, val x)]" using Cons.prems(3) mk by (intro update_fresh) auto
  show ?case
  proof (cases "ms = []")
    case True
    obtain n where n: "\<And>fuel. n \<le> fuel \<Longrightarrow> parseValue AList.update P fuel (txt x @ 125 # rest) = Some (val x, 125 # rest)"
      using Cons.prems(5) [of m "125 # rest"] mk by (auto simp: parses_def stops_def)
    show ?thesis
      by (rule parsesI [of n]) (simp add: True mk parseMembers.simps(2) n name skipWs_Cons_id isJsonWs_def upd)
  next
    case False
    let ?t = "join [44] (map (\<lambda>m. quoteJson (fst m) @ 58 # txt (snd m)) ms) @ 125 # rest"
    obtain n where n: "\<And>fuel. n \<le> fuel \<Longrightarrow> parseValue AList.update P fuel (txt x @ 44 # ?t) = Some (val x, 44 # ?t)"
      using Cons.prems(5) [of m "44 # ?t"] mk by (auto simp: parses_def stops_def)
    have "parses (\<lambda>n. parseMembers AList.update P n (acc @ [(k, val x)]) ?t)
        (JObj ((acc @ [(k, val x)]) @ map (\<lambda>m. (fst m, val (snd m))) ms), rest)"
      by (rule Cons.IH [OF False]) (use Cons.prems mk in auto)
    then obtain j where j: "\<And>fuel. j \<le> fuel \<Longrightarrow> parseMembers AList.update P fuel (acc @ [(k, val x)]) ?t =
        Some (JObj ((acc @ [(k, val x)]) @ map (\<lambda>m. (fst m, val (snd m))) ms), rest)"
      by (auto simp: parses_def)
    have join: "join [44] (map (\<lambda>m. quoteJson (fst m) @ 58 # txt (snd m)) (m # ms)) @ 125 # rest = quoteJson k @ 58 # txt x @ 44 # ?t"
      using False mk by (simp add: join_Cons)
    show ?thesis unfolding join
      by (rule parsesI [of "max n j"]) (simp add: mk parseMembers.simps(2) n j name skipWs_Cons_id isJsonWs_def upd)
  qed
qed simp

lemma parses_text:
  assumes "wfJson P v" and "stops rest"
  shows "parses (\<lambda>n. parseValue AList.update P n (jsonText P v @ rest)) (sortMembers v, rest)"
  using assms
proof (induction v arbitrary: rest rule: measure_induct_rule [of size])
  case (less v)
  have IH: "parses (\<lambda>n. parseValue AList.update P n (jsonText P x @ r)) (sortMembers x, r)"
    if "x \<in> set (childValues v)" "wfJson P x" "stops r" for x r
    using less.IH [OF size_childValues] that by blast
  note head_ws = skipWs_text [OF less.prems(1)]
  show ?case
  proof (cases v)
    case (JNum n)
    let ?t = "numToString P n"
    have n: "numberToken ?t = Some (?t, [])" "numFromText P ?t = n" using less.prems JNum by (auto simp: okNum_def)
    obtain c s where t: "?t = c # s" "c = 45 \<or> isDigit c" using numberToken_head [OF n(1)] by auto
    then have "parseValue AList.update P (Suc fuel) (?t @ rest) = Some (JNum n, rest)" for fuel
      using numberToken_append [OF n(1) less.prems(2)] head_ws JNum n(2)
      by (auto simp: parseValue.simps(2) starts_with_def isDigit_def)
    then show ?thesis using JNum by (intro parsesI) simp
  next
    case (JStr s)
    have "parseString (quoteUnits s @ 34 # rest) = Some (s, rest)"
      using parseString_quoteUnits less.prems(1) JStr by (simp add: validUnicode_iff)
    then have "parseValue AList.update P (Suc fuel) (jsonText P v @ rest) = Some (JStr s, rest)" for fuel
      unfolding parseValue.simps(2) head_ws by (simp add: JStr quoteJson_def)
    then show ?thesis using JStr by (intro parsesI) simp
  next
    case (JArr vs)
    show ?thesis
    proof (cases "vs = []")
      case True
      then have "parseValue AList.update P (Suc fuel) (jsonText P v @ rest) = Some (JArr [], rest)" for fuel
        unfolding parseValue.simps(2) head_ws using JArr by (simp add: skipWs_Cons_id isJsonWs_def)
      then show ?thesis using JArr True by (intro parsesI) simp
    next
      case False
      let ?t = "join [44] (map (jsonText P) vs) @ 93 # rest"
      have "parses (\<lambda>n. parseElems AList.update P n [] ?t) (JArr ([] @ map sortMembers vs), rest)"
        by (rule parses_elems [OF False]) (use IH JArr less.prems(1) in auto)
      then obtain n where n: "\<And>fuel. n \<le> fuel \<Longrightarrow> parseElems AList.update P fuel [] ?t = Some (JArr (map sortMembers vs), rest)"
        by (auto simp: parses_def)
      have "\<exists>c s. skipWs ?t = c # s \<and> c \<noteq> 93"
      proof -
        obtain x xs where vs: "vs = x # xs" using False by (cases vs) auto
        have x: "wfJson P x" using less.prems(1) JArr vs by simp
        have "\<exists>r. ?t = jsonText P x @ r" using vs by (cases xs) (auto simp: join_Cons)
        then show ?thesis using skipWs_text [OF x] jsonText_head [OF x] by (auto simp: isDigit_def)
      qed
      then show ?thesis
        using JArr head_ws n by (intro parsesI [of n]) (auto simp: parseValue.simps(2))
    qed
  next
    case (JObj ms)
    let ?ms = "sort_key fst ms"
    show ?thesis
    proof (cases "ms = []")
      case True
      then have "parseValue AList.update P (Suc fuel) (jsonText P v @ rest) = Some (JObj [], rest)" for fuel
        unfolding parseValue.simps(2) head_ws using JObj by (simp add: skipWs_Cons_id isJsonWs_def)
      then show ?thesis using JObj True by (intro parsesI) simp
    next
      case False
      let ?t = "join [44] (map (\<lambda>m. quoteJson (fst m) @ 58 # jsonText P (snd m)) ?ms) @ 125 # rest"
      have ne: "?ms \<noteq> []" using False by (metis length_0_conv length_sort)
      have wf: "distinct (map fst ms)" "\<And>m. m \<in> set ms \<Longrightarrow> validUnicode (fst m) \<and> wfJson P (snd m)"
        using less.prems(1) JObj by auto
      have "parses (\<lambda>n. parseMembers AList.update P n [] ?t) (JObj ([] @ map (\<lambda>m. (fst m, sortMembers (snd m))) ?ms), rest)"
      proof (rule parses_members [OF ne])
        show "distinct (map fst ?ms)"
          using wf(1) by (metis distinct_map distinct_sort set_sort)
        fix m assume m: "m \<in> set ?ms"
        then show "\<forall>c \<in> set (fst m). c < 0x10000" using wf(2) [of m] by (auto simp: validUnicode_iff)
        show "stops r \<Longrightarrow> parses (\<lambda>n. parseValue AList.update P n (jsonText P (snd m) @ r)) (sortMembers (snd m), r)" for r
          using IH [of "snd m" r] wf(2) [of m] m JObj by auto
      qed simp
      then obtain n where n: "\<And>fuel. n \<le> fuel \<Longrightarrow> parseMembers AList.update P fuel [] ?t =
          Some (JObj (map (\<lambda>m. (fst m, sortMembers (snd m))) ?ms), rest)"
        by (auto simp: parses_def)
      have "\<exists>s. skipWs ?t = 34 # s"
        using ne by (cases ?ms; cases "tl ?ms") (auto simp: quoteJson_def skipWs_def isJsonWs_def join_Cons)
      then show ?thesis
        using JObj head_ws n by (intro parsesI [of n]) (auto simp: parseValue.simps(2))
    qed
  next
    case JNull
    have "parseValue AList.update P (Suc fuel) (jsonText P v @ rest) = Some (JNull, rest)" for fuel
      unfolding parseValue.simps(2) head_ws using JNull by (simp add: starts_with_def)
    then show ?thesis using JNull by (intro parsesI) simp
  next
    case (JBool b)
    have "parseValue AList.update P (Suc fuel) (jsonText P v @ rest) = Some (JBool b, rest)" for fuel
      unfolding parseValue.simps(2) head_ws using JBool by (cases b) (simp_all add: starts_with_def)
    then show ?thesis using JBool by (intro parsesI) simp
  qed (use less.prems in simp)
qed

section \<open>Canonical texts pass the scans\<close>

lemma stops_after: "stops rest \<Longrightarrow> \<not> starts_with [58] (dropWhile isWhite rest)"
  by (cases rest) (auto simp: stops_def starts_with_def isWhite_def)

lemma dupScan_elems:
  assumes "vs \<noteq> []" and "\<And>v st rest. v \<in> set vs \<Longrightarrow> stops rest \<Longrightarrow> dupScan st (txt v @ rest) = dupScan st rest"
  shows "dupScan (None # st) (join [44] (map txt vs) @ 93 # rest) = dupScan st rest"
  using assms
proof (induction vs)
  case (Cons v vs)
  show ?case
  proof (cases "vs = []")
    case True
    then show ?thesis using Cons.prems(2) [of v "93 # rest"] by (simp add: stops_def)
  next
    case False
    let ?t = "join [44] (map txt vs) @ 93 # rest"
    have "join [44] (map txt (v # vs)) @ 93 # rest = txt v @ 44 # ?t" using False by (simp add: join_Cons)
    then show ?thesis using Cons.prems(2) [of v "44 # ?t"] Cons.IH [OF False] Cons.prems(2) by (simp add: stops_def)
  qed
qed simp

lemma dupScan_members:
  assumes "ms \<noteq> []" and "distinct (map fst ms)" and "set keys \<inter> fst ` set ms = {}"
    and "\<And>m. m \<in> set ms \<Longrightarrow> \<forall>c \<in> set (fst m). c < 0x10000"
    and "\<And>m st rest. m \<in> set ms \<Longrightarrow> stops rest \<Longrightarrow> dupScan st (txt (snd m) @ rest) = dupScan st rest"
  shows "dupScan (Some keys # st) (join [44] (map (\<lambda>m. quoteJson (fst m) @ 58 # txt (snd m)) ms) @ 125 # rest) = dupScan st rest"
  using assms
proof (induction ms arbitrary: keys)
  case (Cons m ms)
  obtain k x where mk: "m = (k, x)" by force
  have name: "dupScan (Some keys # st) (quoteJson k @ 58 # s) = dupScan (Some (k # keys) # st) s" for s
  proof -
    have "\<forall>c \<in> set k. c < 0x10000" "k \<notin> set keys" using Cons.prems(3) Cons.prems(4) [of m] mk by auto
    then show ?thesis
      using dupScan_name [OF parseString_quoteUnits, of k "58 # s" s keys st]
      by (simp add: quoteJson_def skipWs_Cons_id isJsonWs_def del: dupScan.simps)
  qed
  show ?case
  proof (cases "ms = []")
    case True
    have "dupScan (Some (k # keys) # st) (txt x @ 125 # rest) = dupScan (Some (k # keys) # st) (125 # rest)"
      using Cons.prems(5) [of m "125 # rest"] mk by (simp add: stops_def)
    then show ?thesis using name [of "txt x @ 125 # rest"] True mk by simp
  next
    case False
    let ?t = "join [44] (map (\<lambda>m. quoteJson (fst m) @ 58 # txt (snd m)) ms) @ 125 # rest"
    have "dupScan (Some (k # keys) # st) (txt x @ 44 # ?t) = dupScan (Some (k # keys) # st) (44 # ?t)"
      using Cons.prems(5) [of m "44 # ?t"] mk by (simp add: stops_def)
    also have "\<dots> = dupScan (Some (k # keys) # st) ?t" by simp
    also have "\<dots> = dupScan st rest" by (rule Cons.IH [OF False]) (use Cons.prems mk in auto)
    finally show ?thesis using name [of "txt x @ 44 # ?t"] False mk by (simp add: join_Cons)
  qed
qed simp

lemma dupScan_text:
  assumes "wfJson P v" and "stops rest"
  shows "dupScan st (jsonText P v @ rest) = dupScan st rest"
  using assms
proof (induction v arbitrary: rest st rule: measure_induct_rule [of size])
  case (less v)
  have IH: "dupScan st (jsonText P x @ r) = dupScan st r" if "x \<in> set (childValues v)" "wfJson P x" "stops r" for x r st
    using less.IH [OF size_childValues] that by blast
  show ?case
  proof (cases v)
    case (JNum n)
    have "\<forall>c \<in> set (numToString P n). plainChar c"
      using less.prems(1) JNum numberToken_decomp [of "numToString P n"] by (auto simp: okNum_def plainChar_def isDigit_def)
    then show ?thesis using JNum by (simp add: dupScan_plain)
  next
    case (JStr s)
    have "parseString (quoteUnits s @ 34 # rest) = Some (s, rest)"
      using parseString_quoteUnits less.prems(1) JStr by (simp add: validUnicode_iff)
    then show ?thesis
      using dupScan_value_string [OF _ stops_after [OF less.prems(2)]] JStr by (simp add: quoteJson_def del: dupScan.simps)
  next
    case (JArr vs)
    show ?thesis
    proof (cases "vs = []")
      case False
      have "dupScan (None # st) (join [44] (map (jsonText P) vs) @ 93 # rest) = dupScan st rest"
        by (rule dupScan_elems [OF False]) (use IH JArr less.prems(1) in auto)
      then show ?thesis using JArr by simp
    qed (use JArr in simp)
  next
    case (JObj ms)
    let ?ms = "sort_key fst ms"
    show ?thesis
    proof (cases "ms = []")
      case False
      have ne: "?ms \<noteq> []" using False by (metis length_0_conv length_sort)
      have wf: "distinct (map fst ms)" "\<And>m. m \<in> set ms \<Longrightarrow> validUnicode (fst m) \<and> wfJson P (snd m)"
        using less.prems(1) JObj by auto
      have "dupScan (Some [] # st) (join [44] (map (\<lambda>m. quoteJson (fst m) @ 58 # jsonText P (snd m)) ?ms) @ 125 # rest) = dupScan st rest"
      proof (rule dupScan_members [OF ne])
        show "distinct (map fst ?ms)" using wf(1) by (metis distinct_map distinct_sort set_sort)
        fix m assume m: "m \<in> set ?ms"
        then show "\<forall>c \<in> set (fst m). c < 0x10000" using wf(2) [of m] by (auto simp: validUnicode_iff)
        show "stops r \<Longrightarrow> dupScan st (jsonText P (snd m) @ r) = dupScan st r" for r st
          using IH [of "snd m" r] wf(2) [of m] m JObj by auto
      qed simp
      then show ?thesis using JObj by simp
    qed (use JObj in simp)
  next
    case (JBool b)
    then show ?thesis by (cases b) simp_all
  qed (use less.prems in simp_all)
qed

section \<open>Bytes of canonical texts\<close>

lemma codePoints_append: "validUnicode s \<Longrightarrow> codePoints (s @ t) = codePoints s @ codePoints t"
proof (induction s rule: codePoints.induct)
  case (1 h l s)
  then show ?case by (cases "s @ t") (auto split: if_splits)
qed ((cases t; auto split: if_splits))+

lemma utf8_append: "validUnicode s \<Longrightarrow> utf8 (s @ t) = utf8 s @ utf8 t"
  by (simp add: utf8_def codePoints_append)

lemma utf8_Cons_ascii: "c < 128 \<Longrightarrow> utf8 (c # s) = of_nat c # utf8 s"
  using utf8_append [of "[c]" s] by (simp add: utf8_def utf8CodePoint_def)

lemma validUnicode_append: "validUnicode s \<Longrightarrow> validUnicode (s @ t) \<longleftrightarrow> validUnicode t"
proof (induction s rule: validUnicode.induct)
  case (2 h s)
  show ?case
  proof (cases "0xD800 \<le> h \<and> h < 0xDC00")
    case True
    then obtain l s' where "s = l # s'" using 2(3) by (cases s) auto
    then show ?thesis using 2(1) [OF True] 2(3) True by simp
  qed (use 2 in auto)
qed simp

lemma validUnicode_join: "\<forall>t \<in> set ts. validUnicode t \<Longrightarrow> validUnicode (join [44] ts)"
proof (induction ts)
  case (Cons t ts)
  then show ?case by (cases ts) (auto simp: validUnicode_append)
qed simp


lemma hexDigit_ascii: "n < 16 \<Longrightarrow> hexDigit n < 128"
  by (simp add: hexDigit_def)

lemma quoteUnit_cases: "quoteUnit p c = [c] \<or> isAscii (quoteUnit p c)"
  by (auto simp: quoteUnit_def unicodeEscape_def isAscii_def hexDigit_ascii)

lemma validUnicode_quoteUnit: "validUnicode [c] \<Longrightarrow> validUnicode (quoteUnit p c)"
  using quoteUnit_cases [of p c] by (auto simp del: validUnicode.simps simp: validUnicode_ascii)

lemma validUnicode_quoteUnits: "validUnicode s \<Longrightarrow> validUnicode (quoteUnits s)"
proof (induction s rule: quoteUnits.induct)
  case (3 h l s)
  then show ?case
    by (auto simp: validUnicode_append validUnicode_quoteUnit split: if_splits)
qed (simp_all add: validUnicode_quoteUnit)

lemma validUnicode_quoteJson: "validUnicode s \<Longrightarrow> validUnicode (quoteJson s)"
  by (simp add: quoteJson_def validUnicode_append validUnicode_quoteUnits)

lemma validUnicode_text: "wfJson P v \<Longrightarrow> validUnicode (jsonText P v)"
proof (induction v rule: measure_induct_rule [of size])
  case (less v)
  show ?case
  proof (cases v)
    case (JNum n)
    then have "isAscii (numToString P n)"
      using less.prems numberToken_decomp [of "numToString P n"] by (auto simp: okNum_def isAscii_def isDigit_def)
    then show ?thesis using JNum by (simp add: validUnicode_ascii)
  next
    case (JArr vs)
    have "validUnicode (join [44] (map (jsonText P) vs))"
      by (rule validUnicode_join) (use less size_childValues [of _ v] JArr in auto)
    then show ?thesis using JArr by (simp add: validUnicode_append)
  next
    case (JObj ms)
    have "validUnicode (join [44] (map (\<lambda>m. quoteJson (fst m) @ 58 # jsonText P (snd m)) (sort_key fst ms)))"
      by (rule validUnicode_join) (use less size_childValues [of _ v] JObj in \<open>auto simp: validUnicode_append validUnicode_quoteJson\<close>)
    then show ?thesis using JObj by (simp add: validUnicode_append)
  qed (use less.prems in \<open>simp_all add: validUnicode_quoteJson\<close>)
qed

lemma byte_eq_iff: "c < 256 \<Longrightarrow> d < 256 \<Longrightarrow> (of_nat c :: byte) = of_nat d \<longleftrightarrow> c = d"
  by (simp add: word_of_nat_eq_iff take_bit_nat_eq_self)

lemma utf8_high:
  assumes "scalar c" and "0x80 \<le> c" and "b \<in> set (utf8CodePoint c)"
  shows "0x80 \<le> unat b"
proof -
  have "unat b \<in> set (utf8Nat c)" using assms(3) map_unat_utf8 [OF assms(1)] by (metis image_eqI set_map)
  then show ?thesis using assms(2) by (auto simp: utf8Nat_def split: if_splits)
qed

lemma afterString_skip: "\<forall>b \<in> set xs. b \<noteq> 0x22 \<and> b \<noteq> 0x5C \<Longrightarrow> afterString (xs @ bs) = afterString bs"
  by (induction xs) auto

lemma afterString_high: "\<forall>b \<in> set xs. 0x80 \<le> unat b \<Longrightarrow> afterString (xs @ bs) = afterString bs"
  by (rule afterString_skip) auto

lemma afterString_quoteUnit:
  assumes "validUnicode [c]"
  shows "afterString (utf8 (quoteUnit p c) @ bs) = afterString bs"
proof (cases "quoteUnit p c = [c]")
  case True
  show ?thesis
  proof (cases "c < 0x80")
    case low: True
    then have "c \<noteq> 34" "c \<noteq> 92" using True by (auto simp: quoteUnit_def split: if_splits)
    then have "(of_nat c :: byte) \<noteq> 0x22" "(of_nat c :: byte) \<noteq> 0x5C"
      using byte_eq_iff [of c 34] byte_eq_iff [of c 92] low by auto
    then show ?thesis using low unfolding True by (simp add: utf8_Cons_ascii utf8_def [of "[]"])
  next
    case False
    have "scalar c" using assms by (auto simp: scalar_def split: if_splits)
    then have "afterString (utf8CodePoint c @ bs) = afterString bs" using False by (intro afterString_high) (auto intro: utf8_high)
    then show ?thesis unfolding True by (simp add: utf8_def)
  qed
next
  case False
  have hex: "(of_nat (hexDigit n) :: byte) \<noteq> 0x22" "(of_nat (hexDigit n) :: byte) \<noteq> 0x5C" "hexDigit n < 128" if "n < 16" for n
    using byte_eq_iff [of "hexDigit n" 34] byte_eq_iff [of "hexDigit n" 92] hexDigit_plain [OF that] that by (auto simp: hexDigit_def)
  have "afterString (utf8 (unicodeEscape c) @ bs) = afterString bs"
    using hex by (simp add: unicodeEscape_def utf8_Cons_ascii utf8_def [of "[]"])
  then show ?thesis using False
    by (auto simp: quoteUnit_def utf8_Cons_ascii utf8_def [of "[]"] split: if_splits)
qed

lemma afterString_quoteUnits: "validUnicode s \<Longrightarrow> afterString (utf8 (quoteUnits s) @ 0x22 # bs) = bs"
proof (induction s rule: quoteUnits.induct)
  case (3 h l s)
  show ?case
  proof (cases "0xD800 \<le> h \<and> h < 0xDC00 \<and> 0xDC00 \<le> l \<and> l < 0xE000")
    case True
    let ?c = "0x10000 + (h - 0xD800) * 1024 + (l - 0xDC00)"
    have "utf8 (h # l # quoteUnits s) = utf8CodePoint ?c @ utf8 (quoteUnits s)" using True by (simp add: utf8_def)
    moreover have "afterString (utf8CodePoint ?c @ x) = afterString x" for x
      using utf16Units_pair(2) [of h l] True by (intro afterString_high) (auto intro: utf8_high)
    ultimately show ?thesis using 3 True by simp
  next
    case False
    then have "validUnicode [h]" "validUnicode (l # s)" using 3(3) by (auto split: if_splits)
    then show ?thesis using 3(2) [OF False] False
      by (auto simp: utf8_append validUnicode_quoteUnit afterString_quoteUnit)
  qed
qed (simp_all add: utf8_def [of "[]"] afterString_quoteUnit)


definition stopsBytes :: "bytes \<Rightarrow> bool" where
  "stopsBytes bs \<longleftrightarrow> bs = [] \<or> hd bs \<in> {0x2C, 0x5D, 0x7D}"

lemma depthScan_tokens:
  assumes "depth \<le> 64" and "\<forall>c \<in> set t. c < 128 \<and> c \<notin> {34, 91, 93, 123, 125}"
  shows "depthScan depth (utf8 t @ bs) = depthScan depth bs"
  using assms(2)
proof (induction t)
  case (Cons c t)
  then have c: "c < 128" "c \<notin> {34, 91, 93, 123, 125}" by auto
  then have "(of_nat c :: byte) \<notin> {0x22, 0x5B, 0x5D, 0x7B, 0x7D}"
    using byte_eq_iff [of c 34] byte_eq_iff [of c 91] byte_eq_iff [of c 93] byte_eq_iff [of c 123] byte_eq_iff [of c 125] by auto
  then show ?case using Cons c(1) assms(1) by (simp add: utf8_Cons_ascii MAX_JSON_DEPTH_def)
qed (simp add: utf8_def)

lemma depthScan_string:
  assumes "validUnicode s" and "depth \<le> 64"
  shows "stopsBytes bs \<Longrightarrow> depthScan depth (utf8 (quoteJson s) @ bs) = depthScan depth bs"
    and "depthScan depth (utf8 (quoteJson s) @ 0x3A # bs) = depthScan depth bs"
proof -
  have bytes: "utf8 (quoteJson s) = 0x22 # utf8 (quoteUnits s) @ [0x22]"
    using assms(1) by (simp add: quoteJson_def utf8_Cons_ascii utf8_append validUnicode_quoteUnits utf8_def [of "[]"])
  have skip: "afterString (utf8 (quoteUnits s) @ 0x22 # x) = x" for x by (rule afterString_quoteUnits [OF assms(1)])
  show "depthScan depth (utf8 (quoteJson s) @ bs) = depthScan depth bs" if "stopsBytes bs"
    using that assms(2) skip by (cases bs) (auto simp: bytes stopsBytes_def isByteWs_def MAX_JSON_DEPTH_def)
  show "depthScan depth (utf8 (quoteJson s) @ 0x3A # bs) = depthScan depth bs"
    using skip by (simp add: bytes isByteWs_def)
qed

lemma depthScan_join:
  assumes "ts \<noteq> []" and "close = 93 \<or> close = 125" and "\<forall>t \<in> set ts. validUnicode t"
    and "\<And>t bs. t \<in> set ts \<Longrightarrow> stopsBytes bs \<Longrightarrow> depthScan depth (utf8 t @ bs) = depthScan depth bs"
  shows "depthScan depth (utf8 (join [44] ts) @ of_nat close # bs) = depthScan (depth - 1) bs"
  using assms(1,3,4)
proof (induction ts)
  case (Cons t ts)
  have close: "stopsBytes (of_nat close # bs)" "depthScan depth (of_nat close # bs) = depthScan (depth - 1) bs"
    using assms(2) by (auto simp: stopsBytes_def)
  show ?case
  proof (cases "ts = []")
    case True
    then show ?thesis using Cons.prems(3) [OF _ close(1), of t] close(2) by simp
  next
    case False
    have "utf8 (join [44] (t # ts)) = utf8 t @ 0x2C # utf8 (join [44] ts)"
      using False Cons.prems(2) by (simp add: join_Cons utf8_append utf8_Cons_ascii)
    moreover have "depthScan depth (utf8 t @ 0x2C # x) = depthScan depth x" for x
      using Cons.prems(3) [of t "0x2C # x"] by (simp add: stopsBytes_def isByteWs_def)
    ultimately show ?thesis using Cons.IH [OF False] Cons.prems by simp
  qed
qed simp

lemma depthScan_text:
  assumes "wfJson P v" and "stopsBytes bs" and "depth + int (jsonHeight v) \<le> 64"
  shows "depthScan depth (utf8 (jsonText P v) @ bs) = depthScan depth bs"
  using assms
proof (induction v arbitrary: bs depth rule: measure_induct_rule [of size])
  case (less v)
  have IH: "depthScan (depth + 1) (utf8 (jsonText P x) @ r) = depthScan (depth + 1) r"
    if "x \<in> set (childValues v)" "wfJson P x" "stopsBytes r" for x r
  proof -
    have "Suc (jsonHeight x) \<le> jsonHeight v" using that(1) jsonHeight_le [of v "jsonHeight v"] by blast
    then show ?thesis using less.IH [OF size_childValues [OF that(1)] that(2,3), of "depth + 1"] less.prems(3) by simp
  qed
  have depth: "depth \<le> 64" using less.prems(3) by simp
  have opens: "depthScan depth (of_nat c # x) = depthScan (depth + 1) x" if "c = 91 \<or> c = 123" for c x
    using that depth by (auto simp: isByteWs_def MAX_JSON_DEPTH_def)
  show ?case
  proof (cases v)
    case (JNum n)
    have "\<forall>c \<in> set (numToString P n). c < 128 \<and> c \<notin> {34, 91, 93, 123, 125}"
      using less.prems(1) JNum numberToken_decomp [of "numToString P n"] by (auto simp: okNum_def isDigit_def)
    then show ?thesis using JNum depthScan_tokens [OF depth] by simp
  next
    case (JStr s)
    then show ?thesis using less.prems depthScan_string(1) [OF _ depth] by simp
  next
    case (JArr vs)
    have bytes: "utf8 (jsonText P v) @ bs = of_nat 91 # utf8 (join [44] (map (jsonText P) vs)) @ of_nat 93 # bs"
    proof -
      have "validUnicode (join [44] (map (jsonText P) vs))"
        by (rule validUnicode_join) (use less.prems(1) JArr in \<open>auto simp: validUnicode_text\<close>)
      then show ?thesis using JArr by (simp add: utf8_Cons_ascii utf8_append utf8_def [of "[]"])
    qed
    show ?thesis
    proof (cases "vs = []")
      case False
      have "depthScan (depth + 1) (utf8 (join [44] (map (jsonText P) vs)) @ of_nat 93 # bs) = depthScan (depth + 1 - 1) bs"
        by (rule depthScan_join) (use False IH JArr less.prems(1) in \<open>auto simp: validUnicode_text\<close>)
      then show ?thesis unfolding bytes using opens [of 91] by simp
    qed (unfold bytes, use opens [of 91] in \<open>simp add: utf8_def\<close>)
  next
    case (JObj ms)
    let ?ts = "map (\<lambda>m. quoteJson (fst m) @ 58 # jsonText P (snd m)) (sort_key fst ms)"
    have wf: "validUnicode (fst m)" "wfJson P (snd m)" if "m \<in> set ms" for m using less.prems(1) JObj that by auto
    have valid: "\<forall>t \<in> set ?ts. validUnicode t"
      using wf by (auto simp: validUnicode_append validUnicode_quoteJson validUnicode_text)
    have bytes: "utf8 (jsonText P v) @ bs = of_nat 123 # utf8 (join [44] ?ts) @ of_nat 125 # bs"
      using JObj validUnicode_join [OF valid] by (simp add: utf8_Cons_ascii utf8_append utf8_def [of "[]"])
    show ?thesis
    proof (cases "ms = []")
      case False
      have "depth + 1 \<le> 64"
      proof -
        obtain m where "m \<in> set ms" using False by (meson list.set_sel(1))
        then have "Suc (jsonHeight (snd m)) \<le> jsonHeight v" using jsonHeight_le [of v "jsonHeight v"] JObj by auto
        then show ?thesis using less.prems(3) by simp
      qed
      then have member: "depthScan (depth + 1) (utf8 t @ r) = depthScan (depth + 1) r" if "t \<in> set ?ts" "stopsBytes r" for t r
      proof -
        from that(1) obtain m where m: "m \<in> set ms" "t = quoteJson (fst m) @ 58 # jsonText P (snd m)" by auto
        then have "utf8 t @ r = utf8 (quoteJson (fst m)) @ 0x3A # (utf8 (jsonText P (snd m)) @ r)"
          using wf by (simp add: utf8_append utf8_Cons_ascii validUnicode_quoteJson)
        then show ?thesis
          using depthScan_string(2) [OF wf(1) [OF m(1)] \<open>depth + 1 \<le> 64\<close>] IH [OF _ wf(2) [OF m(1)] that(2)] m(1) JObj by simp
      qed
      have "depthScan (depth + 1) (utf8 (join [44] ?ts) @ of_nat 125 # bs) = depthScan (depth + 1 - 1) bs"
      proof (rule depthScan_join)
        show "?ts \<noteq> []" using False by (metis Nil_is_map_conv length_0_conv length_sort)
      qed (use valid member in auto)
      then show ?thesis unfolding bytes using opens [of 123] by simp
    qed (unfold bytes, use opens [of 123] in \<open>simp add: utf8_def\<close>)
  next
    case JNull
    have "jsonText P v = [110, 117, 108, 108]" using JNull by simp
    then show ?thesis using depthScan_tokens [OF depth, of "[110, 117, 108, 108]"] by simp
  next
    case (JBool b)
    have "jsonText P v = (if b then [116, 114, 117, 101] else [102, 97, 108, 115, 101])" using JBool by simp
    then show ?thesis
      using depthScan_tokens [OF depth, of "[116, 114, 117, 101]"] depthScan_tokens [OF depth, of "[102, 97, 108, 115, 101]"] by simp
  qed (use less.prems in simp)
qed

end
