(* ===== verification/CanonicalRoundtrip.thy ===== *)
theory CanonicalRoundtrip
  imports CanonicalText
begin

text \<open>
  Canonical JSON as an encoding: parsing inverts it up to the order of members, and the bytes that pass
  the canonical check are exactly the canonical ones.
\<close>

section \<open>Canonical form and parsing are inverse\<close>

lemma sort_sorted_map: "sort_key fst (map (\<lambda>m. (fst m, f (snd m))) (sort_key fst ms)) = map (\<lambda>m. (fst m, f (snd m))) (sort_key fst ms)"
  by (simp only: sort_key_map_snd sort_key_id_if_sorted [OF sorted_sort_key])

lemma wfJson_sortMembers: "wfJson P v \<Longrightarrow> wfJson P (sortMembers v)"
proof (induction v rule: measure_induct_rule [of size])
  case (less v)
  show ?case
  proof (cases v)
    case (JArr vs)
    then show ?thesis using less size_childValues [of _ v] by auto
  next
    case (JObj ms)
    have "distinct (map fst (sort_key fst ms))" using less.prems JObj by (metis distinct_map distinct_sort set_sort wfJson.simps(5))
    moreover have "wfJson P (sortMembers (snd m))" if "m \<in> set ms" for m
      using less.IH [OF size_childValues, of "snd m"] less.prems JObj that by auto
    ultimately show ?thesis using less.prems JObj by (auto simp: o_def)
  qed (use less.prems in auto)
qed

lemma jsonText_sortMembers: "jsonText P (sortMembers v) = jsonText P v"
proof (induction v rule: measure_induct_rule [of size])
  case (less v)
  show ?case
  proof (cases v)
    case (JArr vs)
    then have "map (jsonText P \<circ> sortMembers) vs = map (jsonText P) vs" using less size_childValues [of _ v] by auto
    then show ?thesis using JArr by (simp only: sortMembers.simps jsonText.simps list.map_comp)
  next
    case (JObj ms)
    have "jsonText P (sortMembers (snd m)) = jsonText P (snd m)" if "m \<in> set (sort_key fst ms)" for m
      using less [OF size_childValues, of "snd m"] JObj that by auto
    then have "map (\<lambda>m. quoteJson (fst m) @ 58 # jsonText P (sortMembers (snd m))) (sort_key fst ms) =
        map (\<lambda>m. quoteJson (fst m) @ 58 # jsonText P (snd m)) (sort_key fst ms)" (is "?l = ?r")
      by (intro map_cong) auto
    moreover have "jsonText P (sortMembers v) = 123 # join [44] ?l @ [125]"
      unfolding JObj sortMembers_obj jsonText_obj sort_sorted_map by (simp add: o_def)
    ultimately show ?thesis by (simp only: JObj jsonText_obj)
  qed auto
qed

lemma jsonHeight_sortMembers: "jsonHeight (sortMembers v) = jsonHeight v"
proof (induction v rule: measure_induct_rule [of size])
  case (less v)
  show ?case
  proof (cases v)
    case (JArr vs)
    then show ?thesis using less size_childValues [of _ v] by (simp add: image_image cong: image_cong_simp)
  next
    case (JObj ms)
    have "jsonHeight (sortMembers (snd m)) = jsonHeight (snd m)" if "m \<in> set ms" for m
      using less [OF size_childValues, of "snd m"] JObj that by auto
    then show ?thesis using JObj by (simp add: image_image cong: image_cong_simp)
  qed auto
qed

lemma canonicalBytes_text:
  "wfJson P v \<Longrightarrow> jsonHeight v \<le> MAX_JSON_DEPTH \<Longrightarrow> canonicalBytes P v = Inr (utf8 (jsonText P v))"
  using canonicalJson_Inr [of P v "jsonText P v"] by (simp add: canonicalBytes_def serializeJson_text)

lemma parse_canonical:
  assumes "wfJson P v" and "jsonHeight v \<le> MAX_JSON_DEPTH"
  shows "parseJsonNoDuplicates P (utf8 (jsonText P v)) = Inr (sortMembers v)"
proof -
  let ?t = "jsonText P v"
  have "depthScan 0 (utf8 ?t @ []) = depthScan 0 []"
    by (rule depthScan_text [OF assms(1)]) (use assms(2) in \<open>simp_all add: stopsBytes_def MAX_JSON_DEPTH_def\<close>)
  then have depth: "assertJsonDepth (utf8 ?t) = Inr ()" by (simp add: assertJsonDepth_def)
  obtain c s where head: "?t = c # s" "c \<noteq> 0xFEFF" using jsonText_head [OF assms(1)] by (auto simp: isDigit_def)
  then have decode: "textDecode False (utf8 ?t) = Inr ?t"
    using utf8Text_utf8 [OF validUnicode_text [OF assms(1)]] by (simp add: textDecode_def)
  have "dupScan [] (?t @ []) = dupScan [] []" by (rule dupScan_text [OF assms(1)]) (simp add: stops_def)
  then have dup: "dupScan [] ?t = Inr ()" by simp
  obtain n where "parseValue AList.update P n (?t @ []) = Some (sortMembers v, [])"
    using parses_text [OF assms(1), of "[]"] by (auto simp: parses_def stops_def)
  then have "parseJson P ?t = Inr (sortMembers v)"
    unfolding parseJson_def using parseText_any [of AList.update P n ?t _ "[]"] by (simp add: skipWs_def)
  then show ?thesis using depth decode dup by (simp add: parseJsonNoDuplicates_def parseJsonNoDuplicateMembers_def)
qed

text \<open>Every number that is read from a text is printed and read back as itself.\<close>

definition readsBack :: "platform \<Rightarrow> bool" where
  "readsBack P \<longleftrightarrow> (\<forall>t. finiteNum (numFromText P t) \<noteq> None \<longrightarrow> numFromText P t \<noteq> NegZero \<longrightarrow> okNum P (numFromText P t))"

fun numbersFrom :: "platform \<Rightarrow> json \<Rightarrow> bool" where
  "numbersFrom P (JNum n) = (\<exists>t. n = numFromText P t)"
| "numbersFrom P (JArr vs) = (\<forall>v \<in> set vs. numbersFrom P v)"
| "numbersFrom P (JObj ms) = (\<forall>m \<in> set ms. numbersFrom P (snd m))"
| "numbersFrom P _ = True"

lemma set_update: "set (AList.update k v ms) \<subseteq> insert (k, v) (set ms)"
  by (induction ms) auto

lemma parse_numbers:
  "(\<forall>s v r. parseValue AList.update P fuel s = Some (v, r) \<longrightarrow> numbersFrom P v) \<and>
   (\<forall>acc s v r. (\<forall>x \<in> set acc. numbersFrom P x) \<longrightarrow> parseElems AList.update P fuel acc s = Some (v, r) \<longrightarrow> numbersFrom P v) \<and>
   (\<forall>acc s v r. (\<forall>m \<in> set acc. numbersFrom P (snd m)) \<longrightarrow> parseMembers AList.update P fuel acc s = Some (v, r) \<longrightarrow> numbersFrom P v)"
proof (induction fuel)
  case (Suc fuel)
  have vals: "numbersFrom P v" if "parseValue AList.update P fuel s = Some (v, r)" for s v r
    using Suc.IH that by blast
  have elems: "numbersFrom P v" if "\<forall>x \<in> set acc. numbersFrom P x" "parseElems AList.update P fuel acc s = Some (v, r)" for acc s v r
    using Suc.IH that by blast
  have members: "numbersFrom P v" if "\<forall>m \<in> set acc. numbersFrom P (snd m)" "parseMembers AList.update P fuel acc s = Some (v, r)" for acc s v r
    using Suc.IH that by blast
  have "numbersFrom P v" if "parseValue AList.update P (Suc fuel) s = Some (v, r)" for s v r
  proof -
    from that obtain c s' where s: "skipWs s = c # s'" by (auto simp: parseValue.simps(2) split: list.splits)
    show ?thesis
      using that elems [of "[]"] members [of "[]"] unfolding parseValue.simps(2) s
      by (cases "skipWs s'") (auto simp del: js_Cons split: if_splits)
  qed
  moreover have "numbersFrom P v" if "\<forall>x \<in> set acc. numbersFrom P x" "parseElems AList.update P (Suc fuel) acc s = Some (v, r)" for acc s v r
  proof -
    from that(2) obtain x u u' where m: "parseValue AList.update P fuel s = Some (x, u)"
      and rest: "parseElems AList.update P fuel (acc @ [x]) u' = Some (v, r) \<or> v = JArr (acc @ [x])"
      by (fastforce simp: parseElems.simps(2) split: option.splits list.splits if_splits)
    have "\<forall>y \<in> set (acc @ [x]). numbersFrom P y" using that(1) vals [OF m] by simp
    then show ?thesis using rest elems [of "acc @ [x]" u' v r] by auto
  qed
  moreover have "numbersFrom P v" if acc: "\<forall>m \<in> set acc. numbersFrom P (snd m)"
    and p: "parseMembers AList.update P (Suc fuel) acc s = Some (v, r)" for acc s v r
  proof -
    from p obtain k t x u u' where m: "parseValue AList.update P fuel t = Some (x, u)"
      and rest: "parseMembers AList.update P fuel (AList.update k x acc) u' = Some (v, r) \<or> v = JObj (AList.update k x acc)"
      by (auto simp: parseMembers.simps(2) split: option.splits list.splits if_splits) blast+
    have "\<forall>m \<in> set (AList.update k x acc). numbersFrom P (snd m)"
      using set_update [of k x acc] acc vals [OF m] by auto
    then show ?thesis using rest members [of "AList.update k x acc" u' v r] by auto
  qed
  ultimately show ?case by blast
qed simp

lemma join_chars: "t \<in> set ts \<Longrightarrow> set t \<subseteq> set (join sep ts)"
proof (induction ts)
  case (Cons s ts)
  then show ?case by (cases ts) auto
qed simp

lemma mapE_element: "mapE f xs = Inr ys \<Longrightarrow> x \<in> set xs \<Longrightarrow> \<exists>y \<in> set ys. f x = Inr y"
  unfolding mapE_eq_Inr by (induction rule: list_all2_induct) auto

lemma quoteUnits_chars: "\<forall>c \<in> set (quoteUnits s). c < 0x10000 \<Longrightarrow> \<forall>c \<in> set s. c < 0x10000"
proof (induction s rule: quoteUnits.induct)
  case (2 c)
  then show ?case by (cases "c < 0x10000") (auto simp: quoteUnit_def)
next
  case (3 h l s)
  have "h < 0x10000" if "\<forall>c \<in> set (quoteUnit False h). c < 0x10000"
    using that by (cases "h < 0x10000") (auto simp: quoteUnit_def)
  then show ?case using 3 by (auto split: if_splits)
qed simp

lemma serialize_wf:
  assumes "serializeJson P v = Inr t" and "\<forall>c \<in> set t. c < 0x10000" and "readsBack P" and "numbersFrom P v" and "distinctMembers v"
  shows "wfJson P v"
  using assms
proof (induction v arbitrary: t rule: measure_induct_rule [of size])
  case (less v)
  have string: "validUnicode s" if "assertValidUnicode s = Inr ()" "\<forall>c \<in> set (quoteJson s). c < 0x10000" for s
    using that quoteUnits_chars [of s] by (auto simp: validUnicode_iff quoteJson_def)
  show ?case
  proof (cases v)
    case (JNum n)
    then show ?thesis using less.prems by (auto simp: readsBack_def split: if_splits)
  next
    case (JStr s)
    then show ?thesis using less.prems string [of s] by (auto simp: bindE_eq_Inr)
  next
    case (JArr vs)
    then obtain ts where ts: "mapE (serializeJson P) vs = Inr ts" "t = 91 # join [44] ts @ [93]"
      using less.prems(1) by (auto simp: bindE_eq_Inr)
    have "wfJson P x" if x: "x \<in> set vs" for x
    proof -
      obtain u where u: "serializeJson P x = Inr u" "u \<in> set ts"
        using mapE_element [OF ts(1) x] by blast
      then have "\<forall>c \<in> set u. c < 0x10000" using less.prems(2) ts(2) join_chars [OF u(2)] by auto
      then show ?thesis using less.IH [OF size_childValues u(1)] less.prems JArr x by simp
    qed
    then show ?thesis using JArr by simp
  next
    case (JObj ms)
    then obtain ts where ts: "mapE (\<lambda>m. bindE (assertValidUnicode (fst m)) (\<lambda>_.
         if snd m = JUndef then Inl (c2spParseError ''undefined is not JSON'')
         else bindE (serializeJson P (snd m)) (\<lambda>t. Inr (quoteJson (fst m) @ 58 # t)))) (sort_key fst ms) = Inr ts"
        "t = 123 # join [44] ts @ [125]"
      using less.prems(1) by (auto simp: bindE_eq_Inr)
    have "validUnicode (fst m) \<and> wfJson P (snd m)" if m: "m \<in> set ms" for m
    proof -
      have "m \<in> set (sort_key fst ms)" using m by simp
      then obtain u where u: "u \<in> set ts" "bindE (assertValidUnicode (fst m)) (\<lambda>_.
         if snd m = JUndef then Inl (c2spParseError ''undefined is not JSON'')
         else bindE (serializeJson P (snd m)) (\<lambda>t. Inr (quoteJson (fst m) @ 58 # t))) = Inr u"
        using mapE_element [OF ts(1)] by blast
      then obtain w where w: "assertValidUnicode (fst m) = Inr ()" "serializeJson P (snd m) = Inr w" "u = quoteJson (fst m) @ 58 # w"
        by (auto simp: bindE_eq_Inr split: if_splits)
      have "\<forall>c \<in> set u. c < 0x10000" using less.prems(2) ts(2) join_chars [OF u(1)] by auto
      then show ?thesis
        using less.IH [OF size_childValues w(2)] less.prems JObj m w string by auto
    qed
    then show ?thesis using JObj less.prems(5) by simp
  qed (use less.prems in auto)
qed

text \<open>
  C21. Canonical JSON: the canonical bytes of a JSON value within the depth limit are accepted by the strict
  parser, which returns the value with its members sorted, and they pass the canonical check against it.
\<close>

theorem canonicalBytes_roundtrip:
  assumes "wfJson P v" and "jsonHeight v \<le> MAX_JSON_DEPTH"
  shows "\<exists>bs. canonicalBytes P v = Inr bs \<and> parseJsonNoDuplicates P bs = Inr (sortMembers v) \<and>
    assertCanonicalJsonBytes P bs (sortMembers v) = Inr ()"
proof -
  have "canonicalJson P (sortMembers v) = Inr (jsonText P v)"
    using assms by (simp add: canonicalJson_Inr serializeJson_text wfJson_sortMembers jsonText_sortMembers jsonHeight_sortMembers)
  moreover have "textDecode True (utf8 (jsonText P v)) = Inr (jsonText P v)"
    by (simp add: textDecode_strict validUnicode_text assms(1))
  ultimately show ?thesis
    using canonicalBytes_text [OF assms] parse_canonical [OF assms] by (simp add: assertCanonicalJsonBytes_def)
qed

lemma canonical_entry:
  assumes "readsBack P" and "parseJsonNoDuplicates P bs = Inr v" and "assertCanonicalJsonBytes P bs v = Inr ()"
  shows "wfJson P v \<and> sortMembers v = v \<and> jsonHeight v \<le> MAX_JSON_DEPTH \<and> bs = utf8 (jsonText P v)"
proof -
  from assms(3) obtain t where t: "textDecode True bs = Inr t" "canonicalJson P v = Inr t"
    by (auto simp: assertCanonicalJsonBytes_def bindE_eq_Inr split: if_splits)
  have utf: "validUnicode t" "utf8 t = bs" using t(1) by (auto simp: textDecode_strict)
  have h: "jsonHeight v \<le> MAX_JSON_DEPTH" "serializeJson P v = Inr t" using t(2) by (auto simp: canonicalJson_Inr)
  have strict: "parseJsonNoDuplicateMembers P bs = Inr v"
    using assms(2) by (auto simp: parseJsonNoDuplicates_def bindE_eq_Inr catchE_eq_Inr split: if_splits)
  then obtain u r where "parseValue AList.update P (2 * length u + 2) u = Some (v, r)"
    by (auto simp: parseJsonNoDuplicateMembers_def parseJson_def parseText_def bindE_eq_Inr split: option.splits if_splits)
  then have "numbersFrom P v" using parse_numbers by blast
  then have wf: "wfJson P v"
    using serialize_wf [OF h(2) _ assms(1)] utf(1) parseJsonNoDuplicateMembers_distinct [OF strict] by (simp add: validUnicode_iff)
  then have bs: "bs = utf8 (jsonText P v)" using h(2) utf(2) by (simp add: serializeJson_text)
  then show ?thesis using parse_canonical [OF wf h(1)] assms(2) wf h(1) by simp
qed

text \<open>
  C22. Only canonical bytes are accepted: when bytes pass the canonical check against their own content,
  they are the canonical bytes of that content, which has no duplicate members, and no other accepted
  bytes have the same content.
\<close>

theorem assertCanonicalJsonBytes_unique:
  assumes "readsBack P" and "parseJsonNoDuplicates P bs = Inr v" and "assertCanonicalJsonBytes P bs v = Inr ()"
  shows "canonicalBytes P v = Inr bs \<and> distinctMembers v \<and>
    (\<forall>bs'. parseJsonNoDuplicates P bs' = Inr v \<and> assertCanonicalJsonBytes P bs' v = Inr () \<longrightarrow> bs' = bs)"
proof -
  have strict: "parseJsonNoDuplicateMembers P bs = Inr v"
    using assms(2) by (auto simp: parseJsonNoDuplicates_def bindE_eq_Inr catchE_eq_Inr split: if_splits)
  show ?thesis
    using canonical_entry [OF assms] canonical_entry [OF assms(1)] canonicalBytes_text parseJsonNoDuplicateMembers_distinct [OF strict]
    by blast
qed

text \<open>Values with the same canonical bytes are equal up to the order of members.\<close>

lemma canonicalBytes_inj:
  assumes "wfJson P v" and "wfJson P w" and "canonicalBytes P v = Inr bs" and "canonicalBytes P w = Inr bs"
  shows "sortMembers v = sortMembers w"
proof -
  have "jsonHeight v \<le> MAX_JSON_DEPTH" "jsonHeight w \<le> MAX_JSON_DEPTH"
    using assms(3,4) by (auto simp: canonicalBytes_def bindE_eq_Inr canonicalJson_Inr)
  then show ?thesis
    using parse_canonical [OF assms(1)] parse_canonical [OF assms(2)] canonicalBytes_text assms by fastforce
qed


section \<open>Examples\<close>

text \<open>A platform whose numbers are the natural ones, in decimal.\<close>

definition jsonPlatform :: platform where
  "jsonPlatform = asciiPlatform\<lparr>numToString := \<lambda>n. decimal (nat \<lfloor>the (finiteNum n)\<rfloor>), numFromText := \<lambda>t. Fin (of_nat (digitsValue t))\<rparr>"

lemma numberToken_decimal: "numberToken (decimal n) = Some (decimal n, [])"
proof (cases "n = 0")
  case True
  then show ?thesis
    by (simp add: numberToken_def signPart_def intPart_def fracPart_def expPart_def decimal.simps [of 0])
next
  case False
  obtain c s where d: "decimal n = c # s" by (cases "decimal n") auto
  have digits: "\<forall>x \<in> set (decimal n). isDigit x" using decimal_digits by blast
  then have "takeWhile isDigit (decimal n) = decimal n" "dropWhile isDigit (decimal n) = []"
    by (simp_all add: takeWhile_eq_all_conv)
  moreover have "c \<noteq> 48" "c \<noteq> 45" "isDigit c" using hd_decimal [OF False] digits d by (auto simp: isDigit_def)
  ultimately have "digits1 (c # s) = Some (c # s, [])" using d unfolding digits1_def by (metis list.sel(1) list.distinct(1))
  then show ?thesis using d \<open>c \<noteq> 48\<close> \<open>c \<noteq> 45\<close>
    by (simp add: numberToken_def signPart_def intPart_def fracPart_def expPart_def)
qed

lemma okNum_json: "okNum jsonPlatform (Fin (of_nat n))"
  by (simp add: okNum_def jsonPlatform_def numberToken_decimal)

lemma readsBack_json: "readsBack jsonPlatform"
  unfolding readsBack_def using okNum_json by (simp add: jsonPlatform_def)

definition sampleObject :: json where
  "sampleObject = JObj [(js ''n'', JNum (Fin (of_nat 7))), (js ''a'', JArr [JStr (js ''x''), JNull])]"

lemma sampleObject_wf: "wfJson jsonPlatform sampleObject" "jsonHeight sampleObject \<le> MAX_JSON_DEPTH"
proof -
  have "okNum jsonPlatform (Fin (of_nat 7))" by (rule okNum_json)
  then show "wfJson jsonPlatform sampleObject" by (simp add: sampleObject_def)
qed (simp add: sampleObject_def MAX_JSON_DEPTH_def)

theorem canonicalBytes_roundtrip_witness:
  "\<exists>bs. canonicalBytes jsonPlatform sampleObject = Inr bs \<and> parseJsonNoDuplicates jsonPlatform bs = Inr (sortMembers sampleObject)"
  using canonicalBytes_roundtrip [OF sampleObject_wf] by blast

theorem assertCanonicalJsonBytes_unique_witness:
  "canonicalBytes jsonPlatform (sortMembers sampleObject) = Inr (utf8 (jsonText jsonPlatform sampleObject))"
proof -
  let ?bs = "utf8 (jsonText jsonPlatform sampleObject)" and ?v = "sortMembers sampleObject"
  have parsed: "parseJsonNoDuplicates jsonPlatform ?bs = Inr ?v" by (rule parse_canonical [OF sampleObject_wf])
  have "canonicalJson jsonPlatform ?v = Inr (jsonText jsonPlatform sampleObject)"
    using sampleObject_wf by (simp only: canonicalJson_Inr serializeJson_text wfJson_sortMembers jsonText_sortMembers jsonHeight_sortMembers)
  moreover have "textDecode True ?bs = Inr (jsonText jsonPlatform sampleObject)"
    by (simp add: textDecode_strict validUnicode_text sampleObject_wf)
  ultimately have "assertCanonicalJsonBytes jsonPlatform ?bs ?v = Inr ()" by (simp add: assertCanonicalJsonBytes_def)
  from assertCanonicalJsonBytes_unique [OF readsBack_json parsed this] show ?thesis by blast
qed

theorem parseJsonNoDuplicateMembers_strict_witness:
  "\<exists>t. (utf8 t = utf8 (jsonText jsonPlatform sampleObject) \<or> utf8 (0xFEFF # t) = utf8 (jsonText jsonPlatform sampleObject)) \<and>
     parseText keepAll jsonPlatform t = Inr (sortMembers sampleObject)"
proof -
  have "parseJsonNoDuplicateMembers jsonPlatform (utf8 (jsonText jsonPlatform sampleObject)) = Inr (sortMembers sampleObject)"
    using parse_canonical [OF sampleObject_wf]
    by (auto simp: parseJsonNoDuplicates_def bindE_eq_Inr catchE_eq_Inr split: if_splits)
  from parseJsonNoDuplicateMembers_strict [OF this] show ?thesis by blast
qed


text \<open>A token with an Ed25519 header, no payload and no signature.\<close>

definition joseHeader :: json where
  "joseHeader = JObj [(js ''alg'', JStr (js ''EdDSA'')), (js ''kid'', JStr (js ''k''))]"

definition joseToken :: jstring where
  "joseToken = toBase64Url (utf8 (jsonText jsonPlatform joseHeader)) @ [46] @ toBase64Url [] @ [46] @ toBase64Url []"

lemma joseHeader_parse: "parseJsonNoDuplicateMembers jsonPlatform (utf8 (jsonText jsonPlatform joseHeader)) = Inr joseHeader"
proof -
  have "wfJson jsonPlatform joseHeader" "jsonHeight joseHeader \<le> MAX_JSON_DEPTH" "sortMembers joseHeader = joseHeader"
    by (simp_all add: joseHeader_def MAX_JSON_DEPTH_def)
  then show ?thesis
    using parse_canonical [of jsonPlatform joseHeader] by (auto simp: parseJsonNoDuplicates_def bindE_eq_Inr catchE_eq_Inr split: if_splits)
qed

lemma joseToken_parse: "\<exists>r. parseCompactJose jsonPlatform joseToken = Inr r"
proof -
  let ?h = "utf8 (jsonText jsonPlatform joseHeader)"
  have bytes: "?h = map of_nat (js ''{\"alg\":\"EdDSA\",\"kid\":\"k\"}'')"
    by (subst utf8_ascii) (simp_all add: joseHeader_def isAscii_def quoteJson_def quoteUnit_def)
  have "length (toBase64Url ?h) \<le> 100" unfolding bytes by (simp add: toBase64Url_sextets)
  moreover have "toBase64Url [] = []" by (simp add: toBase64Url_sextets)
  moreover have "parseJoseObject jsonPlatform ?h = Inr joseHeader"
    unfolding parseJoseObject_def joseHeader_parse by (simp add: joseHeader_def)
  moreover have "supportedHeader joseHeader"
    by (simp add: supportedHeader_def joseHeader_def nonEmptyString_def lookupProp_def)
  ultimately show ?thesis
    using parseCompactJose_compose [of jsonPlatform ?h joseHeader "[]" "[]"] by (simp add: joseToken_def)
qed

theorem parseCompactJose_canonical_witness:
  "\<exists>r header. parseCompactJose jsonPlatform joseToken = Inr r \<and>
     joseToken = toBase64Url header @ [46] @ toBase64Url (cj_payload r) @ [46] @ toBase64Url (cj_signature r) \<and>
     supportedHeader (cj_header r)"
proof -
  from joseToken_parse obtain r where r: "parseCompactJose jsonPlatform joseToken = Inr r" by blast
  from parseCompactJose_canonical [OF r] r show ?thesis by blast
qed

end
