(* ===== verification/EventCodec.thy ===== *)
theory EventCodec
  imports CanonicalRoundtrip Signing Merkle
begin

text \<open>
  The encoding of lifecycle events as log entries (\<open>log-c2sp-tlog/src/event-codec.ts\<close>): the JSON envelope
  of an event with its log binding, chain fields and signatures, canonical entry bytes, the bytes that
  signatures cover, and the parser of entries. A parsed event is returned with the chain fields of its
  envelope, which the code spreads into the event object without a check.
\<close>

section \<open>Envelopes\<close>

definition MAX_ENTRY_BYTES :: nat where
  "MAX_ENTRY_BYTES = 0xFFFF"

definition SUPPORTED :: "jstring list" where
  "SUPPORTED = map js [''ISSUANCE'', ''KEY_ROTATION'', ''REVOCATION'', ''RETIREMENT'', ''MIGRATION'', ''DELEGATION'']"

definition c2spEventId :: "(bytes \<Rightarrow> bytes) \<Rightarrow> bytes \<Rightarrow> jstring" where
  "c2spEventId H signedBytes = b64url (H (utf8 (js ''dnsid-c2sp-event-v1'' @ [0]) @ signedBytes))"

record C2spEventContext =
  cx_scope :: "jstring option"
  cx_logOrigin :: "jstring option"
  cx_streamId :: "jstring option"
  cx_lr :: "jstring option"
  cx_seq :: "jsnum option"
  cx_prevEventId :: "jstring option"
  cx_prevStateHash :: "jstring option"

record C2spSignatureValue =
  sv_kid :: jstring
  sv_sig :: jstring

record C2spSignatures =
  cs_ae :: "C2spSignatureValue option"
  cs_op :: "C2spSignatureValue option"
  cs_prev_op :: "C2spSignatureValue option"
  cs_new_op :: "C2spSignatureValue option"

text \<open>The \<open>type\<close> of an event; an object with a type outside the union keeps none of its own.\<close>

fun eventType :: "LogEvent \<Rightarrow> jstring" where
  "eventType (ISSUANCE _) = js ''ISSUANCE''"
| "eventType (KEY_ROTATION _) = js ''KEY_ROTATION''"
| "eventType (REVOCATION _) = js ''REVOCATION''"
| "eventType (RETIREMENT _) = js ''RETIREMENT''"
| "eventType (MIGRATION _) = js ''MIGRATION''"
| "eventType (DELEGATION _) = js ''DELEGATION''"
| "eventType (UnsupportedEvent _ _) = []"

definition epochSeconds :: "date \<Rightarrow> js_error + int" where
  "epochSeconds d =
     (case d of
        None \<Rightarrow> Inl (c2spParseError ''must have whole-second precision'')
      | Some millis \<Rightarrow>
          if \<bar>millis\<bar> > MAX_SAFE \<or> millis < 0 \<or> millis mod 1000 \<noteq> 0
          then Inl (c2spParseError ''must have whole-second precision'')
          else Inr (millis div 1000))"

definition dateFromSeconds :: "int \<Rightarrow> js_error + date" where
  "dateFromSeconds seconds =
     (if \<bar>seconds * 1000\<bar> > MAX_SAFE \<or> dateOf (seconds * 1000) = None then Inl (c2spParseError ''outside Date range'')
      else Inr (dateOf (seconds * 1000)))"

definition asString :: "json \<Rightarrow> js_error + jstring" where
  "asString v = (case v of JStr s \<Rightarrow> if s = [] then Inl (c2spParseError ''missing'') else Inr s | _ \<Rightarrow> Inl (c2spParseError ''missing''))"

fun safeInt :: "json \<Rightarrow> int option" where
  "safeInt (JNum n) =
     (case finiteNum n of
        None \<Rightarrow> None
      | Some q \<Rightarrow> if of_int \<lfloor>q\<rfloor> = q \<and> \<bar>\<lfloor>q\<rfloor>\<bar> \<le> MAX_SAFE then Some \<lfloor>q\<rfloor> else None)"
| "safeInt _ = None"

definition asSafeInt :: "json \<Rightarrow> js_error + int" where
  "asSafeInt v =
     (case safeInt v of
        None \<Rightarrow> Inl (c2spParseError ''outside safe integer range'')
      | Some i \<Rightarrow> if i < 0 then Inl (c2spParseError ''outside safe integer range'') else Inr i)"

text \<open>Lifecycle keys.\<close>

definition nonEmptyMember :: "json \<Rightarrow> string \<Rightarrow> bool" where
  "nonEmptyMember v k \<longleftrightarrow> nonEmptyString (propOf v k)"

definition assertSupportedLifecycleJwk :: "json \<Rightarrow> js_error + json" where
  "assertSupportedLifecycleJwk key =
     bindE (getp key ''use'') (\<lambda>use'.
     if use' \<noteq> JUndef \<and> \<not> isStr use' ''sig'' then Inl (c2spParseError ''must be a signing JWK'')
     else if propOf key ''d'' \<noteq> JUndef then Inl (c2spParseError ''must contain only public key material'')
     else if isStr (propOf key ''alg'') ''EdDSA'' then
       (if \<not> isStr (propOf key ''kty'') ''OKP'' \<or> \<not> isStr (propOf key ''crv'') ''Ed25519'' \<or> \<not> nonEmptyMember key ''x''
        then Inl (c2spParseError ''EdDSA key must be an Ed25519 public JWK'') else Inr key)
     else if isStr (propOf key ''alg'') ''ES256'' then
       (if \<not> isStr (propOf key ''kty'') ''EC'' \<or> \<not> isStr (propOf key ''crv'') ''P-256'' \<or> \<not> nonEmptyMember key ''x'' \<or>
           \<not> nonEmptyMember key ''y''
        then Inl (c2spParseError ''ES256 key must be a P-256 public JWK'') else Inr key)
     else Inl (c2spParseError ''uses unsupported lifecycle-key algorithm''))"

definition asJwk :: "json \<Rightarrow> js_error + json" where
  "asJwk v =
     (case v of
        JObj _ \<Rightarrow>
          bindE (asString (propOf v ''kty'')) (\<lambda>_.
          bindE (asString (propOf v ''kid'')) (\<lambda>_.
          bindE (asString (propOf v ''alg'')) (\<lambda>_. assertSupportedLifecycleJwk v)))
      | _ \<Rightarrow> Inl (c2spParseError ''missing''))"

definition lifecycleJwksShareKeyMaterial :: "json \<Rightarrow> json \<Rightarrow> bool" where
  "lifecycleJwksShareKeyMaterial a b =
     (let eq = (\<lambda>k. strictEq (propOf a k) (propOf b k)) in
      if \<not> eq ''kty'' then False
      else if isStr (propOf a ''kty'') ''OKP'' then eq ''crv'' \<and> eq ''x''
      else if isStr (propOf a ''kty'') ''EC'' then eq ''crv'' \<and> eq ''x'' \<and> eq ''y''
      else False)"

definition requireC2spIssuanceEvent :: "IssuanceEvent \<Rightarrow> js_error + unit" where
  "requireC2spIssuanceEvent e =
     (if (\<exists>v \<in> set [ie_initialOperationalKid e, ie_initialOperationalAlg e, ie_initialOperationalThumbprint e,
             ie_initialEntityKid e, ie_initialEntityAlg e, ie_initialEntityThumbprint e]. \<not> present v) \<or>
         \<not> truthy (ie_initialOperationalPublicKey e) \<or> \<not> truthy (ie_initialEntityPublicKey e)
      then Inl (c2spParseError ''ISSUANCE is missing c2sp-tlog key metadata'') else Inr ())"

text \<open>The payload of an event: the members that its case of the \<open>switch\<close> adds.\<close>

definition issuancePayload :: "IssuanceEvent \<Rightarrow> js_error + (jstring \<times> json) list" where
  "issuancePayload e =
     (let ek = ie_initialEntityPublicKey e; ku = ie_initialOperationalPublicKey e in
      bindE (requireC2spIssuanceEvent e) (\<lambda>_.
      bindE (assertSupportedLifecycleJwk ek) (\<lambda>_.
      bindE (assertSupportedLifecycleJwk ku) (\<lambda>_.
      if memberOf (ie_initialEntityAlg e) \<noteq> propOf ek ''alg'' \<or> memberOf (ie_initialOperationalAlg e) \<noteq> propOf ku ''alg''
        then Inl (c2spParseError ''ISSUANCE lifecycle-key algorithm metadata mismatch'')
      else if lifecycleJwksShareKeyMaterial ek ku
        then Inl (c2spParseError ''ISSUANCE entity and operational keys must be distinct'')
      else Inr [(js ''gi'', JStr (ie_governanceId e)), (js ''ek'', ek), (js ''ku'', ku)]))))"

definition rotationPayload :: "KeyRotationEvent \<Rightarrow> js_error + (jstring \<times> json) list" where
  "rotationPayload e =
     bindE (assertSupportedLifecycleJwk (kr_newOperationalPublicKey e)) (\<lambda>_.
     if JStr (kr_newOperationalAlg e) \<noteq> propOf (kr_newOperationalPublicKey e) ''alg''
       then Inl (c2spParseError ''KEY_ROTATION lifecycle-key algorithm metadata mismatch'')
     else Inr [(js ''prev_thumb'', JStr (kr_previousOperationalThumbprint e)), (js ''new_ku'', kr_newOperationalPublicKey e),
        (js ''new_thumb'', JStr (kr_newOperationalThumbprint e))])"

definition secondsMember :: "int \<Rightarrow> json" where
  "secondsMember s = JNum (Fin (of_int s))"

definition eventPayload :: "LogEvent \<Rightarrow> js_error + (jstring \<times> json) list" where
  "eventPayload event =
     (case event of
        ISSUANCE e \<Rightarrow> issuancePayload e
      | KEY_ROTATION e \<Rightarrow> rotationPayload e
      | REVOCATION e \<Rightarrow> Inr [(js ''reason'', JStr (rv_reason e))]
      | RETIREMENT e \<Rightarrow> Inr []
      | MIGRATION e \<Rightarrow> Inr [(js ''prev_lr'', JStr (mg_previousLog e)), (js ''new_lr'', JStr (mg_newLog e)), (js ''prev_ref'', JStr (mg_finalEntryRef e))]
      | DELEGATION e \<Rightarrow> bindE (epochSeconds (dg_expiry e)) (\<lambda>s.
          Inr [(js ''delegatee'', JStr (dg_delegatee e)), (js ''scope'', JStr (dg_scope e)), (js ''expiry'', secondsMember s)])
      | UnsupportedEvent _ _ \<Rightarrow> Inr [])"

definition optMember :: "string \<Rightarrow> jstring option \<Rightarrow> (jstring \<times> json) list" where
  "optMember k v = (case v of None \<Rightarrow> [] | Some s \<Rightarrow> [(js k, JStr s)])"

definition presentMember :: "string \<Rightarrow> jstring option \<Rightarrow> (jstring \<times> json) list" where
  "presentMember k v = (if present v then optMember k v else [])"

definition bindingMembers :: "C2spEventContext \<Rightarrow> (jstring \<times> json) list" where
  "bindingMembers context =
     (if cx_scope context = Some (js ''public'') \<or> present (cx_logOrigin context) \<or> present (cx_streamId context) \<or> present (cx_lr context)
      then (js ''method'', JStr (js ''c2sp-tlog'')) # presentMember ''log_origin'' (cx_logOrigin context) @
        presentMember ''stream_id'' (cx_streamId context) @ presentMember ''lr'' (cx_lr context)
      else [])"

definition chainMembers :: "C2spEventContext \<Rightarrow> (jstring \<times> json) list" where
  "chainMembers context =
     (case cx_seq context of None \<Rightarrow> [] | Some n \<Rightarrow> [(js ''seq'', JNum n)]) @
     optMember ''prev_event_id'' (cx_prevEventId context) @ presentMember ''prev_state_hash'' (cx_prevStateHash context)"

text \<open>The log binding that every envelope has to carry.\<close>

definition checkBinding :: "json \<Rightarrow> C2spEventContext \<Rightarrow> js_error + unit" where
  "checkBinding e context =
     eachE (\<lambda>(k, expected).
        if \<not> nonEmptyString (propOf e k) then Inl (c2spParseError ''public C2SP event missing signed field'')
        else if expected \<noteq> None \<and> propOf e k \<noteq> memberOf expected then Inl (c2spParseError ''public C2SP event field mismatch'')
        else Inr ())
       [(''method'', Some (js ''c2sp-tlog'')), (''log_origin'', cx_logOrigin context), (''stream_id'', cx_streamId context),
        (''lr'', cx_lr context)]"

definition validatePublicFields :: "platform \<Rightarrow> json \<Rightarrow> C2spEventContext \<Rightarrow> js_error + unit" where
  "validatePublicFields P e context =
     (case e of
        JObj _ \<Rightarrow>
          (case propOf e ''fqdn'' of
             JStr fqdn \<Rightarrow>
               bindE (normalizeFQDN P fqdn True) (\<lambda>normal.
               if propOf e ''stream_id'' = JStr normal
                 then Inl (c2spParseError ''C2SP requires an opaque stream ID distinct from the identity FQDN'')
               else checkBinding e context)
           | _ \<Rightarrow> Inl (c2spParseError ''C2SP requires an opaque stream ID distinct from the identity FQDN''))
      | _ \<Rightarrow> Inl (c2spParseError ''C2SP event must be an object''))"

text \<open>The signatures that an event carries.\<close>

definition signatureOf :: "jstring option \<Rightarrow> jstring option \<Rightarrow> C2spSignatureValue option" where
  "signatureOf kid s = (if present s then Some \<lparr>sv_kid = (case kid of None \<Rightarrow> [] | Some k \<Rightarrow> k), sv_sig = the s\<rparr> else None)"

definition noSignatures :: C2spSignatures where
  "noSignatures = \<lparr>cs_ae = None, cs_op = None, cs_prev_op = None, cs_new_op = None\<rparr>"

definition signaturesFromEvent :: "LogEvent \<Rightarrow> js_error + C2spSignatures" where
  "signaturesFromEvent event =
     (case event of
        ISSUANCE e \<Rightarrow>
          bindE (requireC2spIssuanceEvent e) (\<lambda>_.
          Inr (noSignatures\<lparr>cs_ae := signatureOf (orElseS (ev_signingKid e) (ie_initialEntityKid e)) (ev_sig e),
             cs_op := signatureOf (ie_initialOperationalKid e) (ev_operationalCountersig e)\<rparr>))
      | KEY_ROTATION e \<Rightarrow>
          Inr (noSignatures\<lparr>cs_prev_op := signatureOf (orElseS (ev_signingKid e) (Some (kr_previousOperationalKid e))) (ev_sig e),
             cs_new_op := signatureOf (Some (kr_newOperationalKid e)) (ev_newOperationalProof e)\<rparr>)
      | _ \<Rightarrow>
          Inr (case eventBase event of
                 None \<Rightarrow> noSignatures
               | Some b \<Rightarrow> noSignatures\<lparr>cs_ae := signatureOf (ev_signingKid b) (ev_sig b)\<rparr>))"

definition signatureJson :: "C2spSignatureValue \<Rightarrow> json" where
  "signatureJson v = JObj [(js ''kid'', JStr (sv_kid v)), (js ''sig'', JStr (sv_sig v))]"

definition signaturesMembers :: "C2spSignatures \<Rightarrow> (jstring \<times> json) list" where
  "signaturesMembers s =
     concat (map (\<lambda>(k, v). case v of None \<Rightarrow> [] | Some x \<Rightarrow> [(js k, signatureJson x)])
       [(''ae'', cs_ae s), (''op'', cs_op s), (''prev_op'', cs_prev_op s), (''new_op'', cs_new_op s)])"

definition unsignedMembers :: "LogEvent \<Rightarrow> C2spEventContext \<Rightarrow> js_error + (jstring \<times> json) list" where
  "unsignedMembers event context =
     bindE (epochSeconds (eventTimestamp event)) (\<lambda>ts.
     bindE (eventPayload event) (\<lambda>payload.
     Inr ([(js ''v'', JNum (Fin 1)), (js ''kind'', JStr (js ''dnsid.lifecycle'')), (js ''type'', JStr (eventType event)),
         (js ''fqdn'', JStr (eventDomain event)), (js ''ts'', secondsMember ts)] @ payload @ bindingMembers context @ chainMembers context)))"

definition eventToC2spEnvelope :: "platform \<Rightarrow> LogEvent \<Rightarrow> C2spEventContext \<Rightarrow> bool \<Rightarrow> js_error + json" where
  "eventToC2spEnvelope P event context includeSigs =
     bindE (unsignedMembers event context) (\<lambda>ms.
     bindE (validatePublicFields P (JObj ms) context) (\<lambda>_.
     if \<not> includeSigs then Inr (JObj ms)
     else bindE (signaturesFromEvent event) (\<lambda>sigs.
       Inr (JObj (if signaturesMembers sigs = [] then ms else ms @ [(js ''sigs'', JObj (signaturesMembers sigs))])))))"

section \<open>Signatures of an envelope\<close>

definition requiredC2spSignatureNames :: "jstring \<Rightarrow> js_error + string list" where
  "requiredC2spSignatureNames type =
     (if type = js ''ISSUANCE'' then Inr [''ae'', ''op'']
      else if type = js ''KEY_ROTATION'' then Inr [''prev_op'', ''new_op'']
      else if type \<in> set SUPPORTED then Inr [''ae'']
      else Inl (c2spParseError ''unsupported DNSid lifecycle event type''))"

fun memberNames :: "json \<Rightarrow> jstring list" where
  "memberNames (JObj ms) = map fst ms"
| "memberNames _ = []"

definition parseSignatureValue :: "json \<Rightarrow> js_error + C2spSignatureValue" where
  "parseSignatureValue v =
     (case v of
        JObj _ \<Rightarrow>
          if (\<exists>k \<in> set (memberNames v). k \<noteq> js ''kid'' \<and> k \<noteq> js ''sig'') then Inl (c2spParseError ''contains an unknown member'')
          else bindE (asString (propOf v ''kid'')) (\<lambda>kid.
            bindE (asString (propOf v ''sig'')) (\<lambda>s.
            if s = [] \<or> \<not> base64urlText s then Inl (c2spParseError ''must be unpadded base64url'')
            else Inr \<lparr>sv_kid = kid, sv_sig = s\<rparr>))
      | _ \<Rightarrow> Inl (c2spParseError ''must be an object''))"

definition optionalSignature :: "json \<Rightarrow> js_error + C2spSignatureValue option" where
  "optionalSignature v = (if v = JUndef then Inr None else bindE (parseSignatureValue v) (\<lambda>s. Inr (Some s)))"

definition signatureNamed :: "C2spSignatures \<Rightarrow> string \<Rightarrow> C2spSignatureValue option" where
  "signatureNamed s k =
     (if k = ''ae'' then cs_ae s else if k = ''op'' then cs_op s else if k = ''prev_op'' then cs_prev_op s else cs_new_op s)"

definition parseC2spSignatures :: "json \<Rightarrow> jstring \<Rightarrow> bool \<Rightarrow> js_error + C2spSignatures" where
  "parseC2spSignatures v type requireComplete =
     (if v = JUndef \<and> \<not> requireComplete then Inr noSignatures
      else case v of
        JObj _ \<Rightarrow>
          bindE (optionalSignature (propOf v ''ae'')) (\<lambda>ae.
          bindE (optionalSignature (propOf v ''op'')) (\<lambda>op'.
          bindE (optionalSignature (propOf v ''prev_op'')) (\<lambda>prev.
          bindE (optionalSignature (propOf v ''new_op'')) (\<lambda>new.
          let parsed = \<lparr>cs_ae = ae, cs_op = op', cs_prev_op = prev, cs_new_op = new\<rparr> in
          bindE (requiredC2spSignatureNames type) (\<lambda>allowed.
          if (\<exists>k \<in> set (memberNames v). k \<notin> set (map js allowed)) then Inl (c2spParseError ''unexpected signature role'')
          else if requireComplete \<and> (\<exists>k \<in> set allowed. signatureNamed parsed k = None) then Inl (c2spParseError ''missing signature'')
          else Inr parsed)))))
      | _ \<Rightarrow> Inl (c2spParseError ''C2SP event missing sigs object''))"

section \<open>Parsing\<close>

definition CHAIN_FIELDS :: "string list" where
  "CHAIN_FIELDS = [''seq'', ''prev_event_id'', ''prev_state_hash'', ''prev_index'', ''prev_leaf_hash'', ''event_id'']"

definition parseChainFields :: "json \<Rightarrow> json" where
  "parseChainFields e = JObj (map (\<lambda>k. (js k, propOf e k)) (filter (hasMember e) CHAIN_FIELDS))"

definition baseEvent :: "C2spSignatureValue option \<Rightarrow> BaseLogEvent" where
  "baseEvent s = \<lparr>ev_signingKid = map_option sv_kid s, ev_sig = map_option sv_sig s, ev_operationalCountersig = None, ev_newOperationalProof = None\<rparr>"

definition asRevocationReason :: "json \<Rightarrow> js_error + jstring" where
  "asRevocationReason v =
     (case v of JStr s \<Rightarrow> if s \<in> set REVOCATION_REASONS then Inr s else Inl (c2spParseError ''invalid REVOCATION reason'')
      | _ \<Rightarrow> Inl (c2spParseError ''invalid REVOCATION reason''))"

definition parseIssuance :: "crypto \<Rightarrow> json \<Rightarrow> C2spSignatures \<Rightarrow> jstring \<Rightarrow> date \<Rightarrow> js_error + LogEvent" where
  "parseIssuance C e sigs domain timestamp =
     bindE (asJwk (propOf e ''ek'')) (\<lambda>ek.
     bindE (asJwk (propOf e ''ku'')) (\<lambda>ku.
     bindE (joseThumbprint C ek) (\<lambda>et.
     bindE (joseThumbprint C ku) (\<lambda>ot.
     if et = ot then Inl (c2spParseError ''ISSUANCE entity and operational keys must be distinct'')
     else if memberOf (map_option sv_kid (cs_ae sigs)) \<noteq> propOf ek ''kid'' \<or> memberOf (map_option sv_kid (cs_op sigs)) \<noteq> propOf ku ''kid''
       then Inl (c2spParseError ''ISSUANCE signature kid does not match recorded key'')
     else
       bindE (asString (propOf e ''gi'')) (\<lambda>gi.
       bindE (asString (propOf ek ''alg'')) (\<lambda>ea.
       bindE (asString (propOf ku ''alg'')) (\<lambda>oa.
       Inr (ISSUANCE \<lparr>ev_signingKid = map_option sv_kid (cs_ae sigs), ev_sig = map_option sv_sig (cs_ae sigs),
         ev_operationalCountersig = map_option sv_sig (cs_op sigs), ev_newOperationalProof = None,
         ie_domain = domain, ie_governanceId = gi,
         ie_initialOperationalKid = kidOf ku, ie_initialOperationalAlg = Some oa, ie_initialOperationalPublicKey = ku,
         ie_initialOperationalThumbprint = Some ot,
         ie_initialEntityKid = kidOf ek, ie_initialEntityAlg = Some ea, ie_initialEntityPublicKey = ek, ie_initialEntityThumbprint = Some et,
         ie_timestamp = timestamp, ie_entityKey = None, ie_operationalKey = None, ie_entitySig = None, ie_operationalSig = None,
         ie_kid = None, ie_publicKey = JUndef, ie_thumbprint = None\<rparr>))))))))"

definition parseRotation :: "json \<Rightarrow> C2spSignatures \<Rightarrow> jstring \<Rightarrow> date \<Rightarrow> js_error + LogEvent" where
  "parseRotation e sigs domain timestamp =
     bindE (asJwk (propOf e ''new_ku'')) (\<lambda>ku.
     if memberOf (map_option sv_kid (cs_new_op sigs)) \<noteq> propOf ku ''kid''
       then Inl (c2spParseError ''KEY_ROTATION new_op kid does not match new_ku'')
     else
       bindE (asString (propOf e ''prev_thumb'')) (\<lambda>prev.
       bindE (asString (propOf ku ''alg'')) (\<lambda>alg.
       bindE (asString (propOf e ''new_thumb'')) (\<lambda>new.
       Inr (KEY_ROTATION \<lparr>ev_signingKid = map_option sv_kid (cs_prev_op sigs), ev_sig = map_option sv_sig (cs_prev_op sigs),
         ev_operationalCountersig = None, ev_newOperationalProof = map_option sv_sig (cs_new_op sigs),
         kr_domain = domain, kr_previousOperationalKid = (case cs_prev_op sigs of None \<Rightarrow> [] | Some s \<Rightarrow> sv_kid s),
         kr_previousOperationalThumbprint = prev, kr_newOperationalKid = (case kidOf ku of None \<Rightarrow> [] | Some k \<Rightarrow> k),
         kr_newOperationalAlg = alg, kr_newOperationalThumbprint = new, kr_newOperationalPublicKey = ku,
         kr_timestamp = timestamp\<rparr>)))))"

definition parsePayload :: "crypto \<Rightarrow> json \<Rightarrow> jstring \<Rightarrow> C2spSignatures \<Rightarrow> jstring \<Rightarrow> date \<Rightarrow> js_error + LogEvent" where
  "parsePayload C e type sigs domain timestamp =
     (let b = baseEvent (cs_ae sigs) in
      if type = js ''ISSUANCE'' then parseIssuance C e sigs domain timestamp
      else if type = js ''KEY_ROTATION'' then parseRotation e sigs domain timestamp
      else if type = js ''REVOCATION'' then
        bindE (asRevocationReason (propOf e ''reason'')) (\<lambda>reason.
        Inr (REVOCATION (BaseLogEvent.extend b (RevocationEvent.fields domain timestamp reason))))
      else if type = js ''RETIREMENT'' then
        Inr (RETIREMENT (BaseLogEvent.extend b (RetirementEvent.fields domain timestamp)))
      else if type = js ''MIGRATION'' then
        bindE (asString (propOf e ''prev_lr'')) (\<lambda>prev.
        bindE (asString (propOf e ''new_lr'')) (\<lambda>new.
        bindE (asString (propOf e ''prev_ref'')) (\<lambda>ref.
        Inr (MIGRATION (BaseLogEvent.extend b (MigrationEvent.fields domain prev new ref timestamp))))))
      else
        bindE (asString (propOf e ''delegatee'')) (\<lambda>delegatee.
        bindE (asString (propOf e ''scope'')) (\<lambda>scope.
        bindE (asSafeInt (propOf e ''expiry'')) (\<lambda>x.
        bindE (dateFromSeconds x) (\<lambda>expiry.
        Inr (DELEGATION (BaseLogEvent.extend b (DelegationEvent.fields domain delegatee scope expiry timestamp))))))))"

definition c2spEnvelopeToEvent :: "crypto \<Rightarrow> json \<Rightarrow> js_error + LogEvent \<times> json" where
  "c2spEnvelopeToEvent C e =
     (case e of
        JObj _ \<Rightarrow>
          if \<not> strictEq (propOf e ''v'') (JNum (Fin 1)) \<or> \<not> isStr (propOf e ''kind'') ''dnsid.lifecycle''
            then Inl (c2spParseError ''unsupported C2SP event envelope'')
          else if propOf e ''method'' \<noteq> JUndef \<and> \<not> isStr (propOf e ''method'') ''c2sp-tlog''
            then Inl (c2spParseError ''C2SP event method mismatch'')
          else
            bindE (asString (propOf e ''type'')) (\<lambda>type.
            if type \<notin> set SUPPORTED then Inl (c2spParseError ''unsupported DNSid lifecycle event type'')
            else
              bindE (asSafeInt (propOf e ''ts'')) (\<lambda>ts.
              bindE (dateFromSeconds ts) (\<lambda>timestamp.
              bindE (asString (propOf e ''fqdn'')) (\<lambda>domain.
              bindE (parseC2spSignatures (propOf e ''sigs'') type True) (\<lambda>sigs.
              bindE (parsePayload C e type sigs domain timestamp) (\<lambda>event.
              Inr (event, parseChainFields e)))))))
      | _ \<Rightarrow> Inl (c2spParseError ''C2SP event entry must be an object''))"

definition assertEntrySize :: "bytes \<Rightarrow> js_error + unit" where
  "assertEntrySize bs =
     (if bs = [] \<or> length bs > MAX_ENTRY_BYTES then Inl (c2spParseError ''C2SP entry must be between 1 and 65535 bytes'') else Inr ())"

text \<open>The checks that all readers of an entry share.\<close>

definition readEntry :: "platform \<Rightarrow> bytes \<Rightarrow> js_error + json" where
  "readEntry P bs =
     bindE (assertEntrySize bs) (\<lambda>_.
     bindE (parseJsonNoDuplicates P bs) (\<lambda>obj.
     bindE (assertCanonicalJsonBytes P bs obj) (\<lambda>_. Inr obj)))"

definition parseC2spEventEntry :: "platform \<Rightarrow> crypto \<Rightarrow> bytes \<Rightarrow> C2spEventContext \<Rightarrow> js_error + LogEvent \<times> json" where
  "parseC2spEventEntry P C bs context =
     bindE (readEntry P bs) (\<lambda>obj.
     bindE (validatePublicFields P obj context) (\<lambda>_. c2spEnvelopeToEvent C obj))"

record C2spAuthorization =
  au_type :: jstring
  au_domain :: jstring
  au_kid :: jstring
  au_signature :: jstring

definition parseC2spAuthorization :: "platform \<Rightarrow> bytes \<Rightarrow> C2spEventContext \<Rightarrow> js_error + C2spAuthorization" where
  "parseC2spAuthorization P bs context =
     bindE (readEntry P bs) (\<lambda>e.
     bindE (validatePublicFields P e context) (\<lambda>_.
     case e of
       JObj _ \<Rightarrow>
         if \<not> strictEq (propOf e ''v'') (JNum (Fin 1)) \<or> \<not> isStr (propOf e ''kind'') ''dnsid.lifecycle''
           then Inl (c2spParseError ''unsupported C2SP event envelope'')
         else
           bindE (asString (propOf e ''type'')) (\<lambda>type.
           if type \<notin> set SUPPORTED then Inl (c2spParseError ''unsupported DNSid lifecycle event type'')
           else case propOf e ''sigs'' of
             JObj ss \<Rightarrow>
               bindE (parseSignatureValue (propOf (JObj ss) (if type = js ''KEY_ROTATION'' then ''prev_op'' else ''ae''))) (\<lambda>s.
               bindE (asString (propOf e ''fqdn'')) (\<lambda>domain.
               Inr \<lparr>au_type = type, au_domain = domain, au_kid = sv_kid s, au_signature = sv_sig s\<rparr>))
           | _ \<Rightarrow> Inl (c2spParseError ''C2SP event missing sigs object''))
     | _ \<Rightarrow> Inl (c2spParseError ''C2SP event entry must be an object'')))"

text \<open>\<open>{ ...value }\<close>: own enumerable properties, the indices of an array or a string.\<close>

fun spread :: "json \<Rightarrow> (jstring \<times> json) list" where
  "spread (JObj ms) = ms"
| "spread (JArr vs) = map (\<lambda>(i, v). (decimal i, v)) (enumerate 0 vs)"
| "spread (JStr s) = map (\<lambda>(i, c). (decimal i, JStr [c])) (enumerate 0 s)"
| "spread _ = []"

definition canonicalizeUnknownC2spEnvelope :: "platform \<Rightarrow> json \<Rightarrow> bool \<Rightarrow> js_error + bytes" where
  "canonicalizeUnknownC2spEnvelope P obj includeSigs =
     canonicalBytes P (JObj (if includeSigs then spread obj else filter (\<lambda>m. fst m \<noteq> js ''sigs'') (spread obj)))"

definition signedC2spEntryBytes :: "platform \<Rightarrow> bytes \<Rightarrow> js_error + bytes" where
  "signedC2spEntryBytes P bs = bindE (readEntry P bs) (\<lambda>obj. canonicalizeUnknownC2spEnvelope P obj False)"

definition canonicalizeC2spEvent :: "platform \<Rightarrow> LogEvent \<Rightarrow> C2spEventContext \<Rightarrow> js_error + bytes" where
  "canonicalizeC2spEvent P event context =
     bindE (eventToC2spEnvelope P event context True) (\<lambda>envelope.
     bindE (parseC2spSignatures (propOf envelope ''sigs'') (eventType event) True) (\<lambda>_.
     bindE (canonicalBytes P envelope) (\<lambda>bs.
     bindE (assertEntrySize bs) (\<lambda>_. Inr bs))))"

definition signedC2spEventBytes :: "platform \<Rightarrow> LogEvent \<Rightarrow> C2spEventContext \<Rightarrow> js_error + bytes" where
  "signedC2spEventBytes P event context = bindE (eventToC2spEnvelope P event context False) (canonicalBytes P)"

definition prepareC2spTlogEvent :: "platform \<Rightarrow> LogEvent \<Rightarrow> C2spEventContext \<Rightarrow> js_error + json" where
  "prepareC2spTlogEvent P event context =
     bindE (eventToC2spEnvelope P event context False) (\<lambda>obj.
     bindE (validatePublicFields P obj context) (\<lambda>_. Inr obj))"

end
