(* ===== verification/StreamVerifier.thy ===== *)
theory StreamVerifier
  imports EventCodec Lr Budget Tiles
begin

text \<open>
  Verification of the lifecycle of one identity in a log (\<open>log-c2sp-tlog/src/stream-verifier.ts\<close>): the
  chain of lifecycle events with its signatures, keys and states, the selection of an identity's events
  from the entries of a log, and the histories that a migration brings along. Whether the shared signal
  is aborted at a turn of a loop, and how the budget ends, are inputs of the model; so are the answers of
  the callback that verifies the prior log of a migration.
\<close>

section \<open>Data\<close>

record VerifiedLifecycleEvent =
  vl_index :: int
  vl_leafHash :: bytes
  vl_bytes :: bytes
  vl_event :: LogEvent
  vl_chain :: json

record MigrationVerificationResult =
  mr_entityKey :: json
  mr_activeOperationalKey :: json
  mr_priorHistory :: "LogEvent list"
  mr_priorHistoryReferences :: "jstring list option"

record StreamVerifierOptions = C2spEventContext +
  so_signerKey :: json
  so_checkpointIntegrationTimeMs :: "jsnum option"
  so_verifyMigration :: "(int \<Rightarrow> MigrationEvent \<Rightarrow> js_error + MigrationVerificationResult) option"
  so_timeoutMs :: "jsnum option"

section \<open>Checks of one event\<close>

abbreviation verificationError :: "string \<Rightarrow> js_error" where
  "verificationError message \<equiv> c2spVerificationError message INVALID_EVIDENCE"

definition stateHash :: "platform \<Rightarrow> crypto \<Rightarrow> json \<Rightarrow> js_error + jstring" where
  "stateHash P C state =
     bindE (canonicalBytes P state) (\<lambda>bs. Inr (b64url (sha256 (hash256 C) [utf8 (js ''dnsid-c2sp-state-v1''), bs])))"

definition verifyEventSignature :: "platform \<Rightarrow> crypto \<Rightarrow> VerifiedLifecycleEvent \<Rightarrow> jstring \<Rightarrow> json \<Rightarrow> string \<Rightarrow> js_error + unit" where
  "verifyEventSignature P C item signature key message =
     bindE (signedC2spEntryBytes P (vl_bytes item)) (\<lambda>bytes.
     bindE (fromBase64Url signature) (\<lambda>s.
     if \<not> verifyWithKey C (Inr bytes) s key None then Inl (failWith message SignatureInvalid) else Inr ()))"

definition eventSig :: "LogEvent \<Rightarrow> jstring option" where
  "eventSig event = (case eventBase event of None \<Rightarrow> None | Some b \<Rightarrow> ev_sig b)"

definition eventSigningKid :: "LogEvent \<Rightarrow> jstring option" where
  "eventSigningKid event = (case eventBase event of None \<Rightarrow> None | Some b \<Rightarrow> ev_signingKid b)"

definition verifyLoggedEventSignature :: "platform \<Rightarrow> crypto \<Rightarrow> VerifiedLifecycleEvent \<Rightarrow> json \<Rightarrow> js_error + unit" where
  "verifyLoggedEventSignature P C item signerKey =
     (if \<not> present (eventSig (vl_event item)) then Inl (verificationError ''missing signature'')
      else verifyEventSignature P C item (the (eventSig (vl_event item))) signerKey ''invalid lifecycle event signature'')"

definition assertC2spIssuanceEvent :: "IssuanceEvent \<Rightarrow> js_error + unit" where
  "assertC2spIssuanceEvent e =
     (if \<not> present (ie_initialOperationalKid e) \<or> \<not> present (ie_initialOperationalAlg e) \<or> \<not> truthy (ie_initialOperationalPublicKey e) \<or>
         \<not> present (ie_initialOperationalThumbprint e) \<or> \<not> present (ie_initialEntityKid e) \<or> \<not> present (ie_initialEntityAlg e) \<or>
         \<not> truthy (ie_initialEntityPublicKey e) \<or> \<not> present (ie_initialEntityThumbprint e)
      then Inl (c2spVerificationError ''ISSUANCE is missing c2sp-tlog key metadata'' INVALID_ISSUANCE) else Inr ())"

definition assertIssuanceKeyMetadata :: "crypto \<Rightarrow> IssuanceEvent \<Rightarrow> js_error + unit" where
  "assertIssuanceKeyMetadata C e =
     (let ok = ie_initialOperationalPublicKey e; ek = ie_initialEntityPublicKey e;
          invalid = (\<lambda>m. Inl (c2spVerificationError m INVALID_ISSUANCE)) in
      bindE (assertSupportedLifecycleJwk ok) (\<lambda>_.
      bindE (assertSupportedLifecycleJwk ek) (\<lambda>_.
      bindE (joseThumbprint C ok) (\<lambda>ot.
      if ie_initialOperationalThumbprint e \<noteq> Some ot then invalid ''ISSUANCE operational thumbprint does not match public key''
      else bindE (joseThumbprint C ek) (\<lambda>et.
        if ie_initialEntityThumbprint e \<noteq> Some et then invalid ''ISSUANCE entity thumbprint does not match public key''
        else if memberOf (ie_initialOperationalKid e) \<noteq> propOf ok ''kid'' \<or> memberOf (ie_initialOperationalAlg e) \<noteq> propOf ok ''alg''
          then invalid ''ISSUANCE operational key metadata mismatch''
        else if memberOf (ie_initialEntityKid e) \<noteq> propOf ek ''kid'' \<or> memberOf (ie_initialEntityAlg e) \<noteq> propOf ek ''alg''
          then invalid ''ISSUANCE entity key metadata mismatch''
        else Inr ())))))"

definition assertRotationKeyMetadata :: "crypto \<Rightarrow> KeyRotationEvent \<Rightarrow> js_error + unit" where
  "assertRotationKeyMetadata C e =
     (let key = kr_newOperationalPublicKey e in
      bindE (assertSupportedLifecycleJwk key) (\<lambda>_.
      bindE (joseThumbprint C key) (\<lambda>t.
      if kr_newOperationalThumbprint e \<noteq> t
        then Inl (c2spVerificationError ''KEY_ROTATION new thumbprint does not match public key'' KEY_CONTINUITY)
      else if JStr (kr_newOperationalKid e) \<noteq> propOf key ''kid'' \<or> JStr (kr_newOperationalAlg e) \<noteq> propOf key ''alg''
        then Inl (c2spVerificationError ''KEY_ROTATION new key metadata mismatch'' KEY_CONTINUITY)
      else Inr ())))"

definition assertDistinctLifecycleKeys :: "crypto \<Rightarrow> json \<Rightarrow> json \<Rightarrow> jstring \<Rightarrow> js_error + unit" where
  "assertDistinctLifecycleKeys C entityKey operationalKey type =
     bindE (joseThumbprint C entityKey) (\<lambda>et.
     bindE (joseThumbprint C operationalKey) (\<lambda>ot.
     if et = ot then Inl (c2spVerificationError ''entity and operational keys must be distinct''
         (if type = js ''ISSUANCE'' then INVALID_ISSUANCE else KEY_CONTINUITY))
     else Inr ()))"

section \<open>Chain fields and states\<close>

definition assertFirstChainFields :: "json \<Rightarrow> js_error + unit" where
  "assertFirstChainFields chain =
     (if \<not> strictEq (propOf chain ''seq'') (JNum (Fin 0))
        then Inl (c2spVerificationError ''first public lifecycle event must have seq 0'' CHAIN_CONTINUITY)
      else if propOf chain ''prev_event_id'' \<noteq> JUndef \<or> propOf chain ''prev_state_hash'' \<noteq> JUndef
        then Inl (c2spVerificationError ''first public lifecycle event must not contain previous-chain fields'' CHAIN_CONTINUITY)
      else Inr ())"

definition assertChainFields :: "platform \<Rightarrow> crypto \<Rightarrow> json \<Rightarrow> VerifiedLifecycleEvent \<Rightarrow> json \<Rightarrow> js_error + unit" where
  "assertChainFields P C chain prev prevState =
     (case safeInt (propOf (vl_chain prev) ''seq'') of
        None \<Rightarrow> Inl (c2spVerificationError ''invalid seq'' CHAIN_CONTINUITY)
      | Some prevSeq \<Rightarrow>
          if \<not> strictEq (propOf chain ''seq'') (JNum (Fin (of_int (prevSeq + 1))))
            then Inl (c2spVerificationError ''invalid seq'' CHAIN_CONTINUITY)
          else
            bindE (signedC2spEntryBytes P (vl_bytes prev)) (\<lambda>signed.
            if propOf chain ''prev_event_id'' \<noteq> JStr (c2spEventId (hash256 C) signed)
              then Inl (c2spVerificationError ''invalid prev_event_id'' CHAIN_CONTINUITY)
            else
              bindE (stateHash P C prevState) (\<lambda>h.
              if propOf chain ''prev_state_hash'' \<noteq> JStr h
                then Inl (c2spVerificationError ''invalid prev_state_hash'' CHAIN_CONTINUITY)
              else Inr ())))"

definition stateObject :: "jstring \<Rightarrow> string \<Rightarrow> json \<Rightarrow> json \<Rightarrow> json" where
  "stateObject domain status entityThumb operationalThumb =
     JObj [(js ''fqdn'', JStr domain), (js ''status'', JStr (js status)), (js ''entity_thumb'', entityThumb),
       (js ''operational_thumb'', operationalThumb)]"

definition issuanceState :: "IssuanceEvent \<Rightarrow> json" where
  "issuanceState e =
     stateObject (ie_domain e) ''ACTIVE'' (memberOf (ie_initialEntityThumbprint e)) (memberOf (ie_initialOperationalThumbprint e))"

definition activeState :: "crypto \<Rightarrow> jstring \<Rightarrow> string \<Rightarrow> json \<Rightarrow> json \<Rightarrow> js_error + json" where
  "activeState C domain status entityKey operationalKey =
     bindE (joseThumbprint C entityKey) (\<lambda>et.
     bindE (joseThumbprint C operationalKey) (\<lambda>ot. Inr (stateObject domain status (JStr et) (JStr ot))))"

definition nextState :: "crypto \<Rightarrow> json \<Rightarrow> LogEvent \<Rightarrow> json \<Rightarrow> json \<Rightarrow> js_error + json" where
  "nextState C previous event entityKey operationalKey =
     (case event of
        DELEGATION _ \<Rightarrow> Inr previous
      | REVOCATION _ \<Rightarrow> activeState C (eventDomain event) ''REVOKED'' entityKey operationalKey
      | RETIREMENT _ \<Rightarrow> activeState C (eventDomain event) ''RETIRED'' entityKey operationalKey
      | _ \<Rightarrow> activeState C (eventDomain event) ''ACTIVE'' entityKey operationalKey)"

section \<open>The lifecycle\<close>

text \<open>The variables of the loop, and the previous event of the chain.\<close>

record lifecycle_vars =
  lv_terminal :: bool
  lv_prevState :: json
  lv_entityKey :: json
  lv_activeOperationalKey :: json
  lv_previous :: "VerifiedLifecycleEvent option"

definition initialVars :: lifecycle_vars where
  "initialVars = \<lparr>lv_terminal = False, lv_prevState = JNull, lv_entityKey = JUndef, lv_activeOperationalKey = JUndef, lv_previous = None\<rparr>"

fun isGenesisType :: "LogEvent \<Rightarrow> bool" where
  "isGenesisType (ISSUANCE _) = True"
| "isGenesisType (MIGRATION _) = True"
| "isGenesisType _ = False"

fun isTerminalType :: "LogEvent \<Rightarrow> bool" where
  "isTerminalType (REVOCATION _) = True"
| "isTerminalType (RETIREMENT _) = True"
| "isTerminalType _ = False"

definition laterThan :: "int \<Rightarrow> jsnum \<Rightarrow> bool" where
  "laterThan t n = (case n of NaN \<Rightarrow> False | PosInf \<Rightarrow> False | NegInf \<Rightarrow> True | NegZero \<Rightarrow> 0 < t | Fin q \<Rightarrow> q < of_int t)"

text \<open>The checks of an event that do not depend on its type's signatures.\<close>

definition checkOrder :: "lifecycle_vars \<Rightarrow> LogEvent \<Rightarrow> js_error + unit" where
  "checkOrder v event =
     (if lv_terminal v then Inl (c2spVerificationError ''event appears after terminal lifecycle event'' TERMINAL_STATE)
      else if lv_previous v = None \<and> \<not> isGenesisType event
        then Inl (c2spVerificationError ''first lifecycle event must be ISSUANCE or verified MIGRATION'' GENESIS_REQUIRED)
      else if lv_previous v \<noteq> None \<and> isIssuance event
        then Inl (c2spVerificationError ''duplicate ISSUANCE event'' DUPLICATE_ISSUANCE)
      else if lv_previous v \<noteq> None \<and> isGenesisType event
        then Inl (c2spVerificationError ''MIGRATION must be destination-stream genesis'' INVALID_MIGRATION)
      else Inr ())"

definition checkMigrationFields :: "LogEvent \<Rightarrow> js_error + unit" where
  "checkMigrationFields event =
     (case event of
        MIGRATION m \<Rightarrow>
          if mg_previousLog m = [] \<or> mg_newLog m = [] \<or> mg_previousLog m = mg_newLog m \<or> mg_finalEntryRef m = []
          then Inl (c2spVerificationError ''invalid MIGRATION'' INVALID_MIGRATION) else Inr ()
      | _ \<Rightarrow> Inr ())"

definition checkTime :: "StreamVerifierOptions \<Rightarrow> LogEvent \<Rightarrow> js_error + unit" where
  "checkTime options event =
     (case eventTimestamp event of
        None \<Rightarrow> Inl (verificationError ''invalid lifecycle timestamp'')
      | Some t \<Rightarrow>
          bindE (checkMigrationFields event) (\<lambda>_.
          case so_checkpointIntegrationTimeMs options of
            None \<Rightarrow> Inl (verificationError ''accepted checkpoint integration time is required'')
          | Some limit \<Rightarrow>
              if laterThan t limit then Inl (verificationError ''event timestamp is later than checkpoint integration time'') else Inr ()))"

definition checkChain :: "platform \<Rightarrow> crypto \<Rightarrow> lifecycle_vars \<Rightarrow> VerifiedLifecycleEvent \<Rightarrow> js_error + unit" where
  "checkChain P C v item =
     (if (\<exists>k \<in> set [''event_id'', ''prev_index'', ''prev_leaf_hash'']. hasMember (vl_chain item) k)
        then Inl (c2spVerificationError ''prohibited chain field'' CHAIN_CONTINUITY)
      else case lv_previous v of
        None \<Rightarrow> assertFirstChainFields (vl_chain item)
      | Some prev \<Rightarrow> assertChainFields P C (vl_chain item) prev (lv_prevState v))"

definition verifyIssuance ::
    "platform \<Rightarrow> crypto \<Rightarrow> StreamVerifierOptions \<Rightarrow> VerifiedLifecycleEvent \<Rightarrow> IssuanceEvent \<Rightarrow> jstring \<Rightarrow> js_error + json \<times> json \<times> json" where
  "verifyIssuance P C options item e s =
     (let entityKey = ie_initialEntityPublicKey e; operationalKey = ie_initialOperationalPublicKey e in
      bindE (assertC2spIssuanceEvent e) (\<lambda>_.
      bindE (assertIssuanceKeyMetadata C e) (\<lambda>_.
      bindE (assertDistinctLifecycleKeys C entityKey operationalKey (js ''ISSUANCE'')) (\<lambda>_.
      bindE (if truthy (so_signerKey options)
             then bindE (joseThumbprint C (so_signerKey options)) (\<lambda>t.
               if Some t \<noteq> ie_initialEntityThumbprint e
               then Inl (verificationError ''ISSUANCE entity key does not match trusted entity key'') else Inr ())
             else Inr ()) (\<lambda>_.
      bindE (verifyEventSignature P C item s entityKey ''invalid ISSUANCE entity signature'') (\<lambda>_.
      if \<not> present (ev_operationalCountersig e) then Inl (verificationError ''ISSUANCE missing operational countersignature'')
      else bindE (verifyEventSignature P C item (the (ev_operationalCountersig e)) operationalKey
               ''invalid ISSUANCE operational countersignature'') (\<lambda>_.
        Inr (entityKey, operationalKey, issuanceState e))))))))"

definition verifyMigrationGenesis ::
    "platform \<Rightarrow> crypto \<Rightarrow> StreamVerifierOptions \<Rightarrow> wait \<Rightarrow> VerifiedLifecycleEvent \<Rightarrow> MigrationEvent \<Rightarrow> jstring \<Rightarrow> js_error + json \<times> json \<times> json" where
  "verifyMigrationGenesis P C options w item m s =
     (case so_verifyMigration options of
        None \<Rightarrow> Inl (c2spVerificationError ''MIGRATION requires verified prior-log history'' INVALID_MIGRATION)
      | Some verify \<Rightarrow>
          if present (cx_lr options) \<and> Some (mg_newLog m) \<noteq> cx_lr options
            then Inl (c2spVerificationError ''MIGRATION new_lr does not match the current C2SP stream'' INVALID_MIGRATION)
          else
            bindE (waitForVerification w (verify (vl_index item) m)) (\<lambda>migrated.
            let entityKey = mr_entityKey migrated; operationalKey = mr_activeOperationalKey migrated in
            bindE (assertSupportedLifecycleJwk entityKey) (\<lambda>_.
            bindE (assertSupportedLifecycleJwk operationalKey) (\<lambda>_.
            bindE (assertDistinctLifecycleKeys C entityKey operationalKey (js ''MIGRATION'')) (\<lambda>_.
            bindE (if truthy (so_signerKey options)
                   then bindE (joseThumbprint C (so_signerKey options)) (\<lambda>t.
                     bindE (joseThumbprint C entityKey) (\<lambda>et.
                     if t \<noteq> et then Inl (verificationError ''MIGRATION entity key does not match trusted entity key'') else Inr ()))
                   else Inr ()) (\<lambda>_.
            if memberOf (ev_signingKid m) \<noteq> propOf entityKey ''kid''
              then Inl (verificationError ''MIGRATION signature kid does not match entity key'')
            else
              bindE (verifyEventSignature P C item s entityKey ''invalid MIGRATION entity signature'') (\<lambda>_.
              bindE (activeState C (mg_domain m) ''ACTIVE'' entityKey operationalKey) (\<lambda>st.
              Inr (entityKey, operationalKey, st)))))))))"

definition verifyRotation ::
    "platform \<Rightarrow> crypto \<Rightarrow> json \<Rightarrow> json \<Rightarrow> VerifiedLifecycleEvent \<Rightarrow> KeyRotationEvent \<Rightarrow> jstring \<Rightarrow> js_error + unit" where
  "verifyRotation P C entityKey activeKey item e s =
     bindE (joseThumbprint C activeKey) (\<lambda>activeThumbprint.
     if kr_previousOperationalThumbprint e \<noteq> activeThumbprint \<or> JStr (kr_previousOperationalKid e) \<noteq> propOf activeKey ''kid''
       then Inl (c2spVerificationError ''KEY_ROTATION previous operational key does not match active key'' KEY_CONTINUITY)
     else
       bindE (assertRotationKeyMetadata C e) (\<lambda>_.
       if kr_newOperationalThumbprint e = activeThumbprint
         then Inl (c2spVerificationError ''KEY_ROTATION new operational key must differ from active key'' KEY_CONTINUITY)
       else
         bindE (assertDistinctLifecycleKeys C entityKey (kr_newOperationalPublicKey e) (js ''KEY_ROTATION'')) (\<lambda>_.
         bindE (verifyEventSignature P C item s activeKey ''invalid KEY_ROTATION signature'') (\<lambda>_.
         if \<not> present (ev_newOperationalProof e)
           then Inl (verificationError ''KEY_ROTATION missing new operational proof of possession'')
         else verifyEventSignature P C item (the (ev_newOperationalProof e)) (kr_newOperationalPublicKey e)
                ''invalid KEY_ROTATION new-key proof of possession''))))"

definition verifyEntityEvent ::
    "platform \<Rightarrow> crypto \<Rightarrow> json \<Rightarrow> VerifiedLifecycleEvent \<Rightarrow> jstring \<Rightarrow> js_error + unit" where
  "verifyEntityEvent P C entityKey item s =
     (let event = vl_event item in
      if memberOf (eventSigningKid event) \<noteq> propOf entityKey ''kid''
        then Inl (verificationError ''signature kid does not match entity key'')
      else
        bindE (verifyEventSignature P C item s entityKey ''invalid entity signature'') (\<lambda>_.
        case event of
          REVOCATION r \<Rightarrow> if rv_reason r \<notin> set REVOCATION_REASONS then Inl (verificationError ''invalid REVOCATION reason'') else Inr ()
        | _ \<Rightarrow> Inr ()))"

definition verifySuccessor ::
    "platform \<Rightarrow> crypto \<Rightarrow> lifecycle_vars \<Rightarrow> VerifiedLifecycleEvent \<Rightarrow> jstring \<Rightarrow> js_error + json \<times> json \<times> json" where
  "verifySuccessor P C v item s =
     (let entityKey = lv_entityKey v; activeKey = lv_activeOperationalKey v; event = vl_event item in
      if \<not> truthy entityKey \<or> \<not> truthy activeKey then Inl (verificationError ''lifecycle keys were not established by ISSUANCE'')
      else
        bindE (case event of
            KEY_ROTATION e \<Rightarrow> bindE (verifyRotation P C entityKey activeKey item e s) (\<lambda>_. Inr (kr_newOperationalPublicKey e))
          | _ \<Rightarrow> bindE (verifyEntityEvent P C entityKey item s) (\<lambda>_. Inr activeKey)) (\<lambda>active.
        bindE (nextState C (lv_prevState v) event entityKey active) (\<lambda>st. Inr (entityKey, active, st))))"

definition lifecycleStep ::
    "platform \<Rightarrow> crypto \<Rightarrow> StreamVerifierOptions \<Rightarrow> wait \<Rightarrow> lifecycle_vars \<Rightarrow> bool \<times> VerifiedLifecycleEvent \<Rightarrow> js_error + lifecycle_vars" where
  "lifecycleStep P C options w v turn =
     (let item = snd turn; event = vl_event item in
      if fst turn then Inl (verificationError ''lifecycle verification canceled'')
      else
        bindE (checkOrder v event) (\<lambda>_.
        bindE (checkTime options event) (\<lambda>_.
        bindE (checkChain P C v item) (\<lambda>_.
        if \<not> present (eventSig event) then Inl (verificationError ''missing signature'')
        else
          let s = the (eventSig event) in
          bindE (case event of
              ISSUANCE e \<Rightarrow> verifyIssuance P C options item e s
            | MIGRATION m \<Rightarrow> verifyMigrationGenesis P C options w item m s
            | _ \<Rightarrow> verifySuccessor P C v item s) (\<lambda>r.
          Inr (v\<lparr>lv_terminal := isTerminalType event, lv_prevState := snd (snd r), lv_entityKey := fst r,
            lv_activeOperationalKey := fst (snd r), lv_previous := Some item\<rparr>))))))"

text \<open>Whether the signal is aborted at each turn, whether the wait for the migration is, and how the budget ends.\<close>

record lifecycle_run =
  lu_aborted :: "nat \<Rightarrow> bool"
  lu_migration :: wait
  lu_budget :: wait
  lu_late :: bool

definition turns :: "(nat \<Rightarrow> bool) \<Rightarrow> 'a list \<Rightarrow> (bool \<times> 'a) list" where
  "turns aborted xs = map (\<lambda>(i, x). (aborted i, x)) (enumerate 0 xs)"

definition verifyLifecycleWithinBudget ::
    "platform \<Rightarrow> crypto \<Rightarrow> StreamVerifierOptions \<Rightarrow> lifecycle_run \<Rightarrow> VerifiedLifecycleEvent list \<Rightarrow> js_error + lifecycle_vars" where
  "verifyLifecycleWithinBudget P C options run events =
     (if length events > 10000 then Inl (verificationError ''lifecycle history exceeds 10000 events'')
      else if events = [] then Inl (c2spVerificationError ''lifecycle contains no ISSUANCE event'' GENESIS_REQUIRED)
      else foldE (lifecycleStep P C options (lu_migration run)) initialVars (turns (lu_aborted run) events))"

definition verifyLifecycle ::
    "platform \<Rightarrow> crypto \<Rightarrow> StreamVerifierOptions \<Rightarrow> lifecycle_run \<Rightarrow> VerifiedLifecycleEvent list \<Rightarrow> js_error + unit" where
  "verifyLifecycle P C options run events =
     withVerificationBudget (so_timeoutMs options) (lu_budget run) (lu_late run)
       (bindE (verifyLifecycleWithinBudget P C options run events) (\<lambda>_. Inr ()))"

section \<open>Selecting an identity's events\<close>

text \<open>Errors that are never taken as noise: resource limits and range errors.\<close>

fun isFatal :: "js_error \<Rightarrow> bool" where
  "isFatal (Verification v) = (ve_class v = C2spTlogResourceLimitError)"
| "isFatal e = isRangeError e"

text \<open>
  \<open>JSON.parse(new TextDecoder().decode(bytes))\<close>. The bytes it is applied to have been read by the strict
  decoder, which agrees with the lenient one on the text it accepts.
\<close>

definition jsonOfBytes :: "platform \<Rightarrow> bytes \<Rightarrow> js_error + json" where
  "jsonOfBytes P bs = bindE (textDecode False bs) (parseJson P)"

definition roleEntries :: "C2spSignatures \<Rightarrow> (string \<times> C2spSignatureValue) list" where
  "roleEntries s =
     concat (map (\<lambda>k. case signatureNamed s k of None \<Rightarrow> [] | Some v \<Rightarrow> [(k, v)]) [''ae'', ''op'', ''prev_op'', ''new_op''])"

definition roleKey :: "json \<Rightarrow> json \<Rightarrow> json \<Rightarrow> string \<Rightarrow> json" where
  "roleKey envelope entityKey operationalKey role =
     (if role = ''ae'' then entityKey else if role = ''prev_op'' then operationalKey
      else if role = ''op'' then propOf envelope ''ku'' else propOf envelope ''new_ku'')"

text \<open>One turn of the loop over the roles: whether the signature of the role verifies.\<close>

definition roleSigned ::
    "platform \<Rightarrow> crypto \<Rightarrow> bytes \<Rightarrow> json \<Rightarrow> C2spSignatureValue \<Rightarrow> js_error + bool" where
  "roleSigned P C bs key signature =
     bindE (assertSupportedLifecycleJwk key) (\<lambda>_.
     if JStr (sv_kid signature) \<noteq> propOf key ''kid'' then Inr False
     else bindE (signedC2spEntryBytes P bs) (\<lambda>payload.
       bindE (fromBase64Url (sv_sig signature)) (\<lambda>s. Inr (verifyWithKey C (Inr payload) s key None))))"

fun allE :: "('a \<Rightarrow> 'e + bool) \<Rightarrow> 'a list \<Rightarrow> 'e + bool" where
  "allE f [] = Inr True"
| "allE f (x # xs) = bindE (f x) (\<lambda>b. if b then allE f xs else Inr False)"

definition hasAllRoleSignatures :: "platform \<Rightarrow> crypto \<Rightarrow> bytes \<Rightarrow> json \<Rightarrow> json \<Rightarrow> js_error + bool" where
  "hasAllRoleSignatures P C bs entityKey operationalKey =
     catchE
       (bindE (jsonOfBytes P bs) (\<lambda>envelope.
        bindE (case propOf envelope ''type'' of
            JStr type \<Rightarrow> parseC2spSignatures (propOf envelope ''sigs'') type True
          | _ \<Rightarrow> Inl (c2spParseError ''unsupported DNSid lifecycle event type'')) (\<lambda>signatures.
        allE (\<lambda>(role, signature). roleSigned P C bs (roleKey envelope entityKey operationalKey role) signature) (roleEntries signatures))))
       (\<lambda>error. if isFatal error then Inl error else Inr False)"

record applied_entry =
  ap_signed :: jstring
  ap_entityKey :: json
  ap_operationalKey :: json

record stream_vars =
  sv_selected :: "VerifiedLifecycleEvent list"
  sv_applied :: "jstring \<rightharpoonup> applied_entry"
  sv_entityKey :: json
  sv_operationalKey :: json

definition initialStream :: stream_vars where
  "initialStream = \<lparr>sv_selected = [], sv_applied = Map.empty, sv_entityKey = JUndef, sv_operationalKey = JUndef\<rparr>"

text \<open>The candidate of an entry: its signed bytes and envelope, or none when the entry is skipped.\<close>

definition readCandidate ::
    "platform \<Rightarrow> StreamVerifierOptions \<Rightarrow> jstring \<Rightarrow> bytes \<Rightarrow> js_error + (bytes \<times> json) option" where
  "readCandidate P options domain bs =
     catchE
       (bindE (parseC2spAuthorization P bs (C2spEventContext.truncate options)) (\<lambda>a.
        if au_domain a \<noteq> domain then Inr None
        else bindE (signedC2spEntryBytes P bs) (\<lambda>payload.
          bindE (jsonOfBytes P payload) (\<lambda>envelope. Inr (Some (payload, envelope))))))
       (\<lambda>error. if isFatal error then Inl error else Inr None)"

definition priorOf :: "stream_vars \<Rightarrow> json \<Rightarrow> applied_entry option" where
  "priorOf st envelope = (case propOf envelope ''prev_event_id'' of JStr s \<Rightarrow> sv_applied st s | _ \<Rightarrow> None)"

definition authorityKeys :: "stream_vars \<Rightarrow> json \<Rightarrow> json \<times> json" where
  "authorityKeys st envelope =
     (case priorOf st envelope of
        None \<Rightarrow> (sv_entityKey st, sv_operationalKey st)
      | Some a \<Rightarrow> (orElse (ap_entityKey a) (sv_entityKey st), orElse (ap_operationalKey a) (sv_operationalKey st)))"

text \<open>The outcomes that the environment chooses for one entry.\<close>

record entry_run =
  er_aborted :: bool
  er_lifecycle :: lifecycle_run
  er_migration :: wait

text \<open>
  The callback that the stream passes on for a new candidate, and whether it has failed for it. The result
  for a candidate is kept, so later replays of the lifecycle see the same one.
\<close>

definition wrapMigration :: "StreamVerifierOptions \<Rightarrow> wait \<Rightarrow> StreamVerifierOptions" where
  "wrapMigration options w =
     options\<lparr>so_verifyMigration := map_option (\<lambda>verify i m. waitForVerification w (verify i m)) (so_verifyMigration options)\<rparr>"

definition migrationFailed :: "StreamVerifierOptions \<Rightarrow> entry_run \<Rightarrow> int \<Rightarrow> MigrationEvent \<Rightarrow> bool" where
  "migrationFailed options run i m =
     (case so_verifyMigration (wrapMigration options (er_migration run)) of
        None \<Rightarrow> False
      | Some verify \<Rightarrow> lu_migration (er_lifecycle run) = Running \<and>
          \<not> (present (cx_lr options) \<and> Some (mg_newLog m) \<noteq> cx_lr options) \<and> isl (verify i m))"

fun isInvalidMigration :: "js_error \<Rightarrow> bool" where
  "isInvalidMigration (Verification v) =
     (ve_class v \<in> {C2spTlogVerificationError, C2spTlogResourceLimitError, MissingC2spConsistencyEvidenceError, C2spCheckpointConsistencyError,
        C2spCheckpointStoreError} \<and>
      ve_errorCategory v = Some INVALID_MIGRATION)"
| "isInvalidMigration _ = False"

definition genesisKeys :: "StreamVerifierOptions \<Rightarrow> VerifiedLifecycleEvent \<Rightarrow> json \<times> json" where
  "genesisKeys options candidate =
     (case vl_event candidate of
        ISSUANCE e \<Rightarrow> (ie_initialEntityPublicKey e, ie_initialOperationalPublicKey e)
      | MIGRATION m \<Rightarrow>
          (case so_verifyMigration options of
             Some verify \<Rightarrow>
               (case verify (vl_index candidate) m of
                  Inr r \<Rightarrow> (mr_entityKey r, mr_activeOperationalKey r)
                | Inl _ \<Rightarrow> (JUndef, JUndef))
           | None \<Rightarrow> (JUndef, JUndef))
      | _ \<Rightarrow> (JUndef, JUndef))"

definition acceptCandidate :: "stream_vars \<Rightarrow> VerifiedLifecycleEvent \<Rightarrow> jstring \<Rightarrow> jstring \<Rightarrow> json \<times> json \<Rightarrow> stream_vars" where
  "acceptCandidate st candidate entryId payload keys =
     \<lparr>sv_selected = sv_selected st @ [candidate],
      sv_applied = (sv_applied st)(entryId \<mapsto> \<lparr>ap_signed = payload, ap_entityKey = fst keys, ap_operationalKey = snd keys\<rparr>),
      sv_entityKey = fst keys, sv_operationalKey = snd keys\<rparr>"

text \<open>A candidate for the first event: noise is skipped, a migration that cannot be verified is not.\<close>

definition genesisStep ::
    "platform \<Rightarrow> crypto \<Rightarrow> StreamVerifierOptions \<Rightarrow> stream_vars \<Rightarrow> entry_run \<Rightarrow> VerifiedLifecycleEvent \<Rightarrow> jstring \<Rightarrow> jstring \<Rightarrow> js_error + stream_vars" where
  "genesisStep P C options st run candidate entryId payload =
     (case verifyLifecycle P C (wrapMigration options (er_migration run)) (er_lifecycle run) [candidate] of
        Inr _ \<Rightarrow> Inr (acceptCandidate st candidate entryId payload (genesisKeys options candidate))
      | Inl error \<Rightarrow>
          if isFatal error then Inl error
          else case vl_event candidate of
            MIGRATION m \<Rightarrow>
              if so_verifyMigration options = None \<or> migrationFailed options run (vl_index candidate) m
              then Inl (if isInvalidMigration error then error
                        else c2spVerificationError ''MIGRATION requires verifiable prior-log history'' INVALID_MIGRATION)
              else Inr st
          | _ \<Rightarrow> Inr st)"

definition successorStep ::
    "platform \<Rightarrow> crypto \<Rightarrow> StreamVerifierOptions \<Rightarrow> stream_vars \<Rightarrow> entry_run \<Rightarrow> VerifiedLifecycleEvent \<Rightarrow> jstring \<Rightarrow> jstring \<Rightarrow> js_error + stream_vars" where
  "successorStep P C options st run candidate entryId payload =
     (if \<not> truthy (sv_entityKey st) \<or> \<not> truthy (sv_operationalKey st)
      then Inl (verificationError ''lifecycle keys were not established by genesis'')
      else
        bindE (verifyLifecycle P C options (er_lifecycle run) (sv_selected st @ [candidate])) (\<lambda>_.
        Inr (acceptCandidate st candidate entryId payload
          (sv_entityKey st, case vl_event candidate of KEY_ROTATION e \<Rightarrow> kr_newOperationalPublicKey e | _ \<Rightarrow> sv_operationalKey st))))"

text \<open>An entry whose signatures were checked: it is parsed, and is the candidate for the next event.\<close>

definition candidateStep ::
    "platform \<Rightarrow> crypto \<Rightarrow> StreamVerifierOptions \<Rightarrow> jstring \<Rightarrow> stream_vars \<Rightarrow> entry_run \<Rightarrow> IndexedEntry \<Rightarrow> jstring \<Rightarrow> jstring \<Rightarrow> js_error + stream_vars" where
  "candidateStep P C options domain st run entry entryId payload =
     (case parseC2spEventEntry P C (en_bytes entry) (C2spEventContext.truncate options) of
        Inl error \<Rightarrow>
          if isFatal error then Inl error
          else if sv_selected st \<noteq> [] then Inl (verificationError ''authenticated lifecycle candidate is malformed'')
          else Inr st
      | Inr (event, chain) \<Rightarrow>
          if eventDomain event \<noteq> domain then Inr st
          else
            let candidate = \<lparr>vl_index = en_index entry, vl_leafHash = leafHash (hash256 C) (en_bytes entry), vl_bytes = en_bytes entry,
                  vl_event = event, vl_chain = chain\<rparr> in
            if sv_selected st = [] then genesisStep P C options st run candidate entryId payload
            else successorStep P C options st run candidate entryId payload)"

definition streamStep ::
    "platform \<Rightarrow> crypto \<Rightarrow> StreamVerifierOptions \<Rightarrow> jstring \<Rightarrow> stream_vars \<Rightarrow> entry_run \<times> IndexedEntry \<Rightarrow> js_error + stream_vars" where
  "streamStep P C options domain st turn =
     (let run = fst turn; entry = snd turn in
      if er_aborted run then Inl (verificationError ''lifecycle verification canceled'')
      else
        bindE (readCandidate P options domain (en_bytes entry)) (\<lambda>c.
        case c of
          None \<Rightarrow> Inr st
        | Some (signedBytes, envelope) \<Rightarrow>
            let entryId = c2spEventId (hash256 C) signedBytes; payload = b64url signedBytes in
            case sv_applied st entryId of
              Some a \<Rightarrow> if ap_signed a \<noteq> payload then Inl (verificationError ''logical event ID collision'') else Inr st
            | None \<Rightarrow>
                if sv_selected st = [] then candidateStep P C options domain st run entry entryId payload
                else
                  bindE (hasAllRoleSignatures P C (en_bytes entry) (fst (authorityKeys st envelope)) (snd (authorityKeys st envelope))) (\<lambda>ok.
                  if \<not> ok then Inr st else candidateStep P C options domain st run entry entryId payload)))"

record stream_run =
  sr_entries :: "nat \<Rightarrow> entry_run"
  sr_final :: lifecycle_run
  sr_budget :: wait
  sr_late :: bool

definition entryTurns :: "(nat \<Rightarrow> entry_run) \<Rightarrow> IndexedEntry list \<Rightarrow> (entry_run \<times> IndexedEntry) list" where
  "entryTurns runs entries = map (\<lambda>(i, x). (runs i, x)) (enumerate 0 (sort_key en_index entries))"

definition verifyStreamWithinBudget ::
    "platform \<Rightarrow> crypto \<Rightarrow> StreamVerifierOptions \<Rightarrow> jstring \<Rightarrow> stream_run \<Rightarrow> IndexedEntry list \<Rightarrow> js_error + VerifiedLifecycleEvent list" where
  "verifyStreamWithinBudget P C options domain run entries =
     (if length entries > 1000000 \<or> sum_list (map (\<lambda>e. length (en_bytes e)) entries) > 256 * 1024 * 1024
      then Inl (verificationError ''lifecycle input exceeds resource limits'')
      else
        bindE (foldE (streamStep P C options domain) initialStream (entryTurns (sr_entries run) entries)) (\<lambda>st.
        bindE (verifyLifecycle P C options (sr_final run) (sv_selected st)) (\<lambda>_.
        Inr (sv_selected st))))"

definition verifyStreamLifecycle ::
    "platform \<Rightarrow> crypto \<Rightarrow> StreamVerifierOptions \<Rightarrow> jstring \<Rightarrow> stream_run \<Rightarrow> IndexedEntry list \<Rightarrow> js_error + VerifiedLifecycleEvent list" where
  "verifyStreamLifecycle P C options domain run entries =
     withVerificationBudget (so_timeoutMs options) (sr_budget run) (sr_late run)
       (verifyStreamWithinBudget P C options domain run entries)"

end
