(* ===== verification/EventCodecRoundtrip.thy ===== *)
theory EventCodecRoundtrip
  imports EventCodec
begin

text \<open>
  What the event codec promises: the bytes that a verifier recovers from an entry are the bytes its author
  signed, these bytes determine everything in the entry but the signatures, and an event that came from an
  entry is written back as an entry that gives the same event.
\<close>

section \<open>Entries and the bytes that signatures cover\<close>

lemma canonical_check:
  assumes "wfJson P v" and "jsonHeight v \<le> MAX_JSON_DEPTH"
  shows "assertCanonicalJsonBytes P (utf8 (jsonText P v)) (sortMembers v) = Inr ()"
proof -
  have "canonicalJson P (sortMembers v) = Inr (jsonText P v)"
    using assms by (simp add: canonicalJson_Inr serializeJson_text wfJson_sortMembers jsonText_sortMembers jsonHeight_sortMembers)
  moreover have "textDecode True (utf8 (jsonText P v)) = Inr (jsonText P v)"
    by (simp add: textDecode_strict validUnicode_text assms(1))
  ultimately show ?thesis by (simp add: assertCanonicalJsonBytes_def)
qed

lemma canonicalBytes_height: "canonicalBytes P v = Inr bs \<Longrightarrow> jsonHeight v \<le> MAX_JSON_DEPTH"
  by (auto simp: canonicalBytes_def bindE_eq_Inr canonicalJson_Inr)

lemma readEntry_canonical:
  assumes "wfJson P v" and "canonicalBytes P v = Inr bs" and "assertEntrySize bs = Inr ()"
  shows "readEntry P bs = Inr (sortMembers v)"
proof -
  note h = canonicalBytes_height [OF assms(2)]
  have "bs = utf8 (jsonText P v)" using canonicalBytes_text [OF assms(1) h] assms(2) by simp
  then show ?thesis using assms(3) parse_canonical [OF assms(1) h] canonical_check [OF assms(1) h] by (simp add: readEntry_def)
qed

lemma readEntry_Inr:
  assumes "readsBack P" and "readEntry P bs = Inr e"
  shows "wfJson P e \<and> sortMembers e = e \<and> jsonHeight e \<le> MAX_JSON_DEPTH \<and> bs = utf8 (jsonText P e)"
proof -
  from assms(2) have "parseJsonNoDuplicates P bs = Inr e" "assertCanonicalJsonBytes P bs e = Inr ()"
    by (auto simp: readEntry_def bindE_eq_Inr)
  then show ?thesis by (rule canonical_entry [OF assms(1)])
qed

text \<open>Sorting members is idempotent and commutes with dropping members by name.\<close>

lemma sortMembers_idem: "sortMembers (sortMembers v) = sortMembers v"
proof (induction v rule: measure_induct_rule [of size])
  case (less v)
  show ?case
  proof (cases v)
    case (JArr vs)
    then show ?thesis using less size_childValues [of _ v] by (auto simp: o_def)
  next
    case (JObj ms)
    have "sortMembers (sortMembers (snd m)) = sortMembers (snd m)" if "m \<in> set (sort_key fst ms)" for m
      using less [OF size_childValues, of "snd m"] JObj that by auto
    then have "map (\<lambda>m. (fst m, sortMembers (sortMembers (snd m)))) (sort_key fst ms) = map (\<lambda>m. (fst m, sortMembers (snd m))) (sort_key fst ms)"
      by (intro map_cong) auto
    then show ?thesis using JObj by (simp add: sort_sorted_map o_def)
  qed auto
qed

definition dropSigs :: "json \<Rightarrow> json" where
  "dropSigs e = JObj (filter (\<lambda>m. fst m \<noteq> js ''sigs'') (spread e))"

lemma dropSigs_sort: "dropSigs (sortMembers (JObj ms)) = sortMembers (dropSigs (JObj ms))"
proof -
  let ?Q = "\<lambda>m :: jstring \<times> json. fst m \<noteq> js ''sigs''" and ?f = "\<lambda>m. (fst m, sortMembers (snd m))"
  have "filter ?Q (map ?f (sort_key fst ms)) = map ?f (sort_key fst (filter ?Q ms))"
    by (simp add: filter_map o_def filter_sort)
  then show ?thesis unfolding dropSigs_def sortMembers_obj spread.simps by simp
qed

lemma wfJson_filter: "wfJson P (JObj ms) \<Longrightarrow> wfJson P (JObj (filter Q ms))"
  by (auto simp: distinct_map_filter)

lemma canonicalBytes_sortMembers:
  assumes "wfJson P v" and "wfJson P w" and "sortMembers v = sortMembers w"
  shows "canonicalBytes P v = canonicalBytes P w"
proof -
  have "jsonText P v = jsonText P w" "jsonHeight v = jsonHeight w"
    using jsonText_sortMembers jsonHeight_sortMembers assms(3) by metis+
  moreover have "canonicalJson P x = (case depthWalk [(x, 0)] of Inl e \<Rightarrow> Inl nestingError | Inr _ \<Rightarrow> Inr (jsonText P x))" if "wfJson P x" for x
    using that depthWalk_error [of "[(x, 0)]"] by (auto simp: canonicalJson_def serializeJson_text split: sum.splits)
  moreover have "depthWalk [(v, 0)] = Inr () \<longleftrightarrow> depthWalk [(w, 0)] = Inr ()" 
    using calculation(2) depthWalk_iff [of "[(v, 0)]"] depthWalk_iff [of "[(w, 0)]"] by (simp del: depthWalk.simps)
  ultimately have "canonicalJson P v = canonicalJson P w"
    using assms(1,2) by (cases "depthWalk [(v, 0)]"; cases "depthWalk [(w, 0)]") simp_all
  then show ?thesis by (simp add: canonicalBytes_def)
qed


lemma signed_readEntry:
  assumes "readEntry P bs = Inr e"
  shows "signedC2spEntryBytes P bs = canonicalBytes P (dropSigs e)"
  using assms by (simp add: signedC2spEntryBytes_def canonicalizeUnknownC2spEnvelope_def dropSigs_def)

lemma unsigned_no_sigs:
  assumes "unsignedMembers event context = Inr ms"
  shows "js ''sigs'' \<notin> fst ` set ms"
proof -
  from assms obtain ts payload where payload: "eventPayload event = Inr payload"
    and ms: "ms = [(js ''v'', JNum (Fin 1)), (js ''kind'', JStr (js ''dnsid.lifecycle'')), (js ''type'', JStr (eventType event)),
         (js ''fqdn'', JStr (eventDomain event)), (js ''ts'', secondsMember ts)] @ payload @ bindingMembers context @ chainMembers context"
    by (auto simp: unsignedMembers_def bindE_eq_Inr)
  have "js ''sigs'' \<notin> fst ` set payload"
    using payload by (cases event) (auto simp: eventPayload_def issuancePayload_def rotationPayload_def Let_def bindE_eq_Inr split: if_splits)
  moreover have "js ''sigs'' \<notin> fst ` set (bindingMembers context)" "js ''sigs'' \<notin> fst ` set (chainMembers context)"
    by (auto simp: bindingMembers_def chainMembers_def presentMember_def optMember_def split: option.splits)
  ultimately show ?thesis using ms by auto
qed

text \<open>
  C23. The bytes that a verifier recovers from a published entry are the bytes that its author signed: for
  an event that is encoded as an entry, the canonical envelope without its signatures is what
  \<open>signedC2spEventBytes\<close> gives for the event before it was signed.
\<close>

theorem signedC2spEntryBytes_of_event:
  assumes "canonicalizeC2spEvent P event context = Inr bs"
    and "eventToC2spEnvelope P event context True = Inr envelope" and "wfJson P envelope"
  shows "signedC2spEntryBytes P bs = signedC2spEventBytes P event context"
proof -
  from assms(1,2) have bs: "canonicalBytes P envelope = Inr bs" "assertEntrySize bs = Inr ()"
    by (auto simp: canonicalizeC2spEvent_def bindE_eq_Inr)
  from assms(2) obtain ms sigs where ms: "unsignedMembers event context = Inr ms" "validatePublicFields P (JObj ms) context = Inr ()"
    and env: "envelope = JObj (if signaturesMembers sigs = [] then ms else ms @ [(js ''sigs'', JObj (signaturesMembers sigs))])"
    by (auto simp: eventToC2spEnvelope_def bindE_eq_Inr)
  have keep: "filter (\<lambda>m. fst m \<noteq> js ''sigs'') ms = ms"
    using unsigned_no_sigs [OF ms(1)] unfolding filter_id_conv by (metis image_eqI)
  then have drop: "dropSigs envelope = JObj ms" unfolding dropSigs_def env by simp
  have wf: "wfJson P (JObj ms)" using assms(3) wfJson_filter [of P _ "\<lambda>m. fst m \<noteq> js ''sigs''"] drop unfolding dropSigs_def env by (metis spread.simps(1))
  have "signedC2spEntryBytes P bs = canonicalBytes P (dropSigs (sortMembers envelope))"
    by (rule signed_readEntry [OF readEntry_canonical [OF assms(3) bs]])
  also have "\<dots> = canonicalBytes P (JObj ms)"
  proof (rule canonicalBytes_sortMembers)
    show "wfJson P (dropSigs (sortMembers envelope))"
      using wfJson_sortMembers [OF wf] drop unfolding env dropSigs_sort by (simp only:)
    show "sortMembers (dropSigs (sortMembers envelope)) = sortMembers (JObj ms)"
      using drop unfolding env dropSigs_sort by (simp only: sortMembers_idem)
  qed (rule wf)
  finally show ?thesis using ms by (simp add: signedC2spEventBytes_def eventToC2spEnvelope_def)
qed


text \<open>The signed bytes of an accepted entry determine everything in it but the signatures.\<close>

lemma signed_content:
  assumes "readsBack P" and "readEntry P bs = Inr (JObj ms)" and "readEntry P bs' = Inr (JObj ms')"
    and "signedC2spEntryBytes P bs = Inr s" and "signedC2spEntryBytes P bs' = Inr s"
  shows "dropSigs (JObj ms) = dropSigs (JObj ms')"
proof -
  note e = readEntry_Inr [OF assms(1,2)] and e' = readEntry_Inr [OF assms(1,3)]
  have wf: "wfJson P (dropSigs (JObj ms))" "wfJson P (dropSigs (JObj ms'))"
    using e e' wfJson_filter unfolding dropSigs_def spread.simps by blast+
  have sorted: "sortMembers (dropSigs (JObj ms)) = dropSigs (JObj ms)" "sortMembers (dropSigs (JObj ms')) = dropSigs (JObj ms')"
    using e e' by (metis dropSigs_sort)+
  have "canonicalBytes P (dropSigs (JObj ms)) = Inr s" "canonicalBytes P (dropSigs (JObj ms')) = Inr s"
    using assms(4,5) signed_readEntry [OF assms(2)] signed_readEntry [OF assms(3)] by simp_all
  from canonicalBytes_inj [OF wf this] show ?thesis by (simp only: sorted)
qed

lemma propOf_dropSigs: "k \<noteq> ''sigs'' \<Longrightarrow> propOf (dropSigs (JObj ms)) k = propOf (JObj ms) k"
proof -
  assume "k \<noteq> ''sigs''"
  then have "js k \<noteq> js ''sigs''" by (simp add: js_def inj_map_eq_map [OF inj_of_char] del: js_Cons list.map)
  then have "map_of (filter (\<lambda>m. fst m \<noteq> js ''sigs'') ms) (js k) = map_of ms (js k)" by (induction ms) auto
  then show ?thesis by (simp add: dropSigs_def lookupProp_def)
qed

section \<open>Signatures of an entry\<close>

definition okSignature :: "C2spSignatureValue option \<Rightarrow> bool" where
  "okSignature v = (case v of None \<Rightarrow> True | Some s \<Rightarrow> sv_kid s \<noteq> [] \<and> sv_sig s \<noteq> [] \<and> base64urlText (sv_sig s))"

definition roleSignatures :: "jstring \<Rightarrow> C2spSignatures \<Rightarrow> bool" where
  "roleSignatures type sigs \<longleftrightarrow>
     okSignature (cs_ae sigs) \<and> okSignature (cs_op sigs) \<and> okSignature (cs_prev_op sigs) \<and> okSignature (cs_new_op sigs) \<and>
     (if type = js ''ISSUANCE'' then cs_ae sigs \<noteq> None \<and> cs_op sigs \<noteq> None \<and> cs_prev_op sigs = None \<and> cs_new_op sigs = None
      else if type = js ''KEY_ROTATION'' then cs_ae sigs = None \<and> cs_op sigs = None \<and> cs_prev_op sigs \<noteq> None \<and> cs_new_op sigs \<noteq> None
      else cs_ae sigs \<noteq> None \<and> cs_op sigs = None \<and> cs_prev_op sigs = None \<and> cs_new_op sigs = None)"

lemma asString_Inr: "asString v = Inr s \<longleftrightarrow> v = JStr s \<and> s \<noteq> []"
  by (cases v) (auto simp: asString_def)

lemma parseSignatureValue_ok: "parseSignatureValue v = Inr s \<Longrightarrow> okSignature (Some s)"
  by (cases v) (auto simp: parseSignatureValue_def okSignature_def bindE_eq_Inr asString_Inr split: if_splits)

lemma optionalSignature_ok: "optionalSignature v = Inr s \<Longrightarrow> okSignature s \<and> (s = None \<longleftrightarrow> v = JUndef)"
  by (auto simp: optionalSignature_def bindE_eq_Inr okSignature_def dest!: parseSignatureValue_ok split: if_splits)

lemma parse_signatureJson: "okSignature (Some s) \<Longrightarrow> parseSignatureValue (signatureJson s) = Inr s"
  by (simp add: parseSignatureValue_def signatureJson_def okSignature_def asString_def lookupProp_def)

lemma signatureJson_defined [simp]: "signatureJson s \<noteq> JUndef"
  by (simp add: signatureJson_def)

lemma propOf_member: "propOf (JObj ms) k \<noteq> JUndef \<Longrightarrow> js k \<in> set (memberNames (JObj ms))"
  by (auto simp: lookupProp_def split: option.splits dest: map_of_SomeD intro: rev_image_eqI)

lemma js_inj: "js a = js b \<longleftrightarrow> a = b"
  by (simp add: js_def inj_map_eq_map [OF inj_of_char] del: js_Cons list.map)

lemma parseC2spSignatures_ok:
  assumes "parseC2spSignatures v type True = Inr sigs"
  shows "roleSignatures type sigs"
proof -
  from assms obtain ms where v: "v = JObj ms" by (cases v) (auto simp: parseC2spSignatures_def)
  from assms obtain allowed where p: "optionalSignature (propOf v ''ae'') = Inr (cs_ae sigs)" "optionalSignature (propOf v ''op'') = Inr (cs_op sigs)"
      "optionalSignature (propOf v ''prev_op'') = Inr (cs_prev_op sigs)" "optionalSignature (propOf v ''new_op'') = Inr (cs_new_op sigs)"
    and a: "requiredC2spSignatureNames type = Inr allowed" "\<forall>k \<in> set (memberNames v). k \<in> set (map js allowed)" "\<forall>k \<in> set allowed. signatureNamed sigs k \<noteq> None"
    unfolding v by (auto simp: parseC2spSignatures_def Let_def bindE_eq_Inr simp del: set_map split: if_splits)
  have absent: "propOf v k = JUndef" if "k \<notin> set allowed" for k
    using propOf_member [of ms k] a(2) that unfolding v memberNames.simps set_map by (metis imageE js_inj)
  note ok = p [THEN optionalSignature_ok]
  consider "type = js ''ISSUANCE''" "allowed = [''ae'', ''op'']" | "type = js ''KEY_ROTATION''" "allowed = [''prev_op'', ''new_op'']"
    | "type \<noteq> js ''ISSUANCE''" "type \<noteq> js ''KEY_ROTATION''" "allowed = [''ae'']"
    using a(1) by (auto simp: requiredC2spSignatureNames_def simp del: js_Cons split: if_splits)
  then show ?thesis
  proof cases
    case 1
    have "propOf v ''prev_op'' = JUndef" "propOf v ''new_op'' = JUndef" by (rule absent, simp add: 1)+
    with 1 ok a(3) show ?thesis by (auto simp: roleSignatures_def signatureNamed_def okSignature_def)
  next
    case 2
    have "propOf v ''ae'' = JUndef" "propOf v ''op'' = JUndef" by (rule absent, simp add: 2)+
    with 2 ok a(3) show ?thesis by (auto simp: roleSignatures_def signatureNamed_def okSignature_def)
  next
    case 3
    have "propOf v ''op'' = JUndef" "propOf v ''prev_op'' = JUndef" "propOf v ''new_op'' = JUndef" by (rule absent, simp add: 3)+
    with 3 ok a(3) show ?thesis by (auto simp: roleSignatures_def signatureNamed_def okSignature_def simp del: js_Cons)
  qed
qed

lemma sort_signature [simp]: "sortMembers (signatureJson s) = signatureJson s"
  by (simp add: signatureJson_def)

lemma supported_roles: "type \<in> set SUPPORTED \<Longrightarrow> \<exists>allowed. requiredC2spSignatureNames type = Inr allowed"
  by (simp add: requiredC2spSignatureNames_def del: js_Cons)

lemma parse_signaturesMembers:
  assumes "roleSignatures type sigs" and "requiredC2spSignatureNames type = Inr allowed"
  shows "parseC2spSignatures (sortMembers (JObj (signaturesMembers sigs))) type True = Inr sigs"
proof -
  consider "type = js ''ISSUANCE''" "allowed = [''ae'', ''op'']" | "type = js ''KEY_ROTATION''" "allowed = [''prev_op'', ''new_op'']"
    | "type \<noteq> js ''ISSUANCE''" "type \<noteq> js ''KEY_ROTATION''" "allowed = [''ae'']"
    using assms(2) by (auto simp: requiredC2spSignatureNames_def simp del: js_Cons split: if_splits)
  then show ?thesis
  proof cases
    case 1
    with assms obtain ae op' where "cs_ae sigs = Some ae" "cs_op sigs = Some op'" "cs_prev_op sigs = None" "cs_new_op sigs = None"
        "okSignature (Some ae)" "okSignature (Some op')" by (auto simp: roleSignatures_def)
    then show ?thesis using 1 assms(2)
      by (cases sigs) (simp add: parseC2spSignatures_def signaturesMembers_def optionalSignature_def lookupProp_def parse_signatureJson signatureNamed_def)
  next
    case 2
    with assms obtain p n where "cs_prev_op sigs = Some p" "cs_new_op sigs = Some n" "cs_ae sigs = None" "cs_op sigs = None"
        "okSignature (Some p)" "okSignature (Some n)" by (auto simp: roleSignatures_def)
    then show ?thesis using 2 assms(2)
      by (cases sigs) (simp add: parseC2spSignatures_def signaturesMembers_def optionalSignature_def lookupProp_def parse_signatureJson signatureNamed_def)
  next
    case 3
    with assms obtain ae where "cs_ae sigs = Some ae" "cs_op sigs = None" "cs_prev_op sigs = None" "cs_new_op sigs = None"
        "okSignature (Some ae)" by (auto simp: roleSignatures_def simp del: js_Cons)
    then show ?thesis using 3 assms(2)
      by (cases sigs) (simp add: parseC2spSignatures_def signaturesMembers_def optionalSignature_def lookupProp_def parse_signatureJson signatureNamed_def)
  qed
qed

section \<open>Events of an entry\<close>

lemma strOf_sym: "JStr s = v \<Longrightarrow> strOf v = Some s"
  by auto

lemma asJwk_Inr: "asJwk v = Inr k \<Longrightarrow> k = v \<and> truthy v"
  by (cases v) (auto simp: asJwk_def bindE_eq_Inr assertSupportedLifecycleJwk_def split: if_splits)

lemma ae_signatures:
  assumes "roleSignatures type sigs" and "type \<noteq> js ''ISSUANCE''" and "type \<noteq> js ''KEY_ROTATION''"
    and "eventBase event = Some (baseEvent (cs_ae sigs))"
    and "case event of ISSUANCE _ \<Rightarrow> False | KEY_ROTATION _ \<Rightarrow> False | _ \<Rightarrow> True"
  shows "signaturesFromEvent event = Inr sigs"
proof -
  from assms(1-3) obtain ae where s: "sigs = \<lparr>cs_ae = Some ae, cs_op = None, cs_prev_op = None, cs_new_op = None\<rparr>" "okSignature (Some ae)"
    by (cases sigs) (auto simp: roleSignatures_def simp del: js_Cons)
  with assms(4,5) show ?thesis
    by (cases event) (auto simp: signaturesFromEvent_def baseEvent_def signatureOf_def present_def noSignatures_def okSignature_def)
qed

lemma parsePayload_event:
  assumes "parsePayload C e type sigs domain timestamp = Inr event" and "type \<in> set SUPPORTED" and "roleSignatures type sigs"
  shows "eventType event = type \<and> eventDomain event = domain \<and> eventTimestamp event = timestamp \<and> (\<forall>s. signaturesFromEvent event = Inr s \<longrightarrow> s = sigs)"
proof -
  consider "type = js ''ISSUANCE''" | "type = js ''KEY_ROTATION''" | "type = js ''REVOCATION''" | "type = js ''RETIREMENT''"
    | "type = js ''MIGRATION''" | "type = js ''DELEGATION''" using assms(2) by (auto simp: SUPPORTED_def simp del: js_Cons)
  note types = this
  from types show ?thesis
  proof cases
    case 1
    with assms(3) obtain ae op' where s: "cs_ae sigs = Some ae" "cs_op sigs = Some op'" "cs_prev_op sigs = None" "cs_new_op sigs = None"
        "okSignature (Some ae)" "okSignature (Some op')" by (auto simp: roleSignatures_def)
    then show ?thesis using 1 assms(1)
      by (cases sigs) (auto simp: parsePayload_def parseIssuance_def bindE_eq_Inr signaturesFromEvent_def signatureOf_def present_def requireC2spIssuanceEvent_def noSignatures_def memberOf_def kidOf_def okSignature_def asString_Inr strOf_sym dest!: asJwk_Inr split: if_splits)
  next
    case 2
    with assms(3) obtain p n where s: "cs_prev_op sigs = Some p" "cs_new_op sigs = Some n" "cs_ae sigs = None" "cs_op sigs = None"
        "okSignature (Some p)" "okSignature (Some n)" by (auto simp: roleSignatures_def)
    then show ?thesis using 2 assms(1)
      by (cases sigs) (auto simp: parsePayload_def parseRotation_def bindE_eq_Inr signaturesFromEvent_def signatureOf_def present_def  noSignatures_def memberOf_def kidOf_def okSignature_def asString_Inr strOf_sym split: if_splits)
  next
    case 3
    with assms(1) obtain x where ev: "event = REVOCATION x" "BaseLogEvent.truncate x = baseEvent (cs_ae sigs)"
        "eventDomain event = domain" "eventTimestamp event = timestamp"
      by (cases event) (auto simp: parsePayload_def Let_def bindE_eq_Inr BaseLogEvent.defs RevocationEvent.defs baseEvent_def)
    then show ?thesis using ae_signatures [OF assms(3), of event] 3 by (simp add: ev(1))
  next
    case 4
    with assms(1) obtain x where ev: "event = RETIREMENT x" "BaseLogEvent.truncate x = baseEvent (cs_ae sigs)"
        "eventDomain event = domain" "eventTimestamp event = timestamp"
      by (cases event) (auto simp: parsePayload_def Let_def bindE_eq_Inr BaseLogEvent.defs RetirementEvent.defs baseEvent_def intro!: that)
    then show ?thesis using ae_signatures [OF assms(3), of event] 4 by (simp add: ev(1))
  next
    case 5
    with assms(1) obtain x where ev: "event = MIGRATION x" "BaseLogEvent.truncate x = baseEvent (cs_ae sigs)"
        "eventDomain event = domain" "eventTimestamp event = timestamp"
      by (auto simp: parsePayload_def Let_def bindE_eq_Inr BaseLogEvent.defs MigrationEvent.defs baseEvent_def)
    then show ?thesis using ae_signatures [OF assms(3), of event] 5 by (simp add: ev(1))
  next
    case 6
    with assms(1) obtain x where ev: "event = DELEGATION x" "BaseLogEvent.truncate x = baseEvent (cs_ae sigs)"
        "eventDomain event = domain" "eventTimestamp event = timestamp"
      by (auto simp: parsePayload_def Let_def bindE_eq_Inr BaseLogEvent.defs DelegationEvent.defs baseEvent_def)
    then show ?thesis using ae_signatures [OF assms(3), of event] 6 by (simp add: ev(1))
  qed
qed

text \<open>Looking a member up in a member list, and in the sorted form of an object.\<close>

lemma distinct_map_sort: "distinct (map fst (sort_key fst ms)) = distinct (map fst ms)"
  by (simp add: distinct_map)

lemma map_of_sort: "distinct (map fst ms) \<Longrightarrow> map_of (sort_key fst ms) = map_of ms"
  by (simp add: map_of_inject_set distinct_map_sort)

lemma propOf_sortMembers:
  assumes "distinct (map fst ms)"
  shows "propOf (sortMembers (JObj ms)) k = sortMembers (propOf (JObj ms) k)"
proof -
  have "map_of (map (\<lambda>m. (fst m, sortMembers (snd m))) (sort_key fst ms)) (js k) = map_option sortMembers (map_of ms (js k))"
    using map_of_map [of sortMembers "sort_key fst ms"] map_of_sort [OF assms] by (simp add: case_prod_unfold)
  then show ?thesis by (simp add: lookupProp_def split: option.split)
qed

text \<open>Times of an event are the whole seconds of its envelope.\<close>

lemma epochSeconds_range: "epochSeconds d = Inr s \<Longrightarrow> 0 \<le> s \<and> s \<le> MAX_SAFE"
  by (auto simp: epochSeconds_def MAX_SAFE_def split: option.splits if_splits)

lemma dateFromSeconds_epoch: "dateFromSeconds x = Inr d \<Longrightarrow> epochSeconds d = Inr s \<Longrightarrow> s = x"
  by (auto simp: dateFromSeconds_def epochSeconds_def dateOf_def split: option.splits if_splits)

lemma asSafeInt_seconds: "epochSeconds d = Inr s \<Longrightarrow> asSafeInt (secondsMember s) = Inr s"
  using epochSeconds_range [of d s] by (simp add: asSafeInt_def secondsMember_def)

lemma asRevocationReason_Inr: "asRevocationReason v = Inr s \<longleftrightarrow> v = JStr s \<and> s \<in> set REVOCATION_REASONS"
  by (cases v) (auto simp: asRevocationReason_def)

lemma parsePayload_payload:
  assumes parsed: "parsePayload C e type sigs domain timestamp = Inr event" and type: "type \<in> set SUPPORTED"
    and payload: "eventPayload event = Inr payload"
    and keys: "sortMembers e = e" "distinct (map fst (spread e))"
    and members: "\<And>k v. map_of payload (js k) = Some v \<Longrightarrow> propOf e' k = sortMembers v"
  shows "parsePayload C e' type sigs domain timestamp = Inr event"
proof -
  have sorted: "sortMembers (propOf e k) = propOf e k" for k
  proof (cases e)
    case (JObj ms)
    then show ?thesis using propOf_sortMembers [of ms k] keys by simp
  qed simp_all
  consider "type = js ''ISSUANCE''" | "type = js ''KEY_ROTATION''" | "type = js ''REVOCATION''" | "type = js ''RETIREMENT''"
    | "type = js ''MIGRATION''" | "type = js ''DELEGATION''" using type by (auto simp: SUPPORTED_def simp del: js_Cons)
  then show ?thesis
  proof cases
    case 1
    then have "parseIssuance C e sigs domain timestamp = Inr event" using parsed by (simp add: parsePayload_def)
    moreover have eq: "propOf e' ''gi'' = propOf e ''gi'' \<and> propOf e' ''ek'' = propOf e ''ek'' \<and> propOf e' ''ku'' = propOf e ''ku''"
      using calculation payload members [of "''gi''"] members [of "''ek''"] members [of "''ku''"] sorted
      by (auto simp: parseIssuance_def eventPayload_def issuancePayload_def Let_def bindE_eq_Inr asString_Inr dest!: asJwk_Inr split: if_splits)
    moreover have "parseIssuance C e' sigs domain timestamp = parseIssuance C e sigs domain timestamp"
      unfolding parseIssuance_def by (simp only: eq)
    ultimately show ?thesis using 1 by (simp add: parsePayload_def)
  next
    case 2
    then have "parseRotation e sigs domain timestamp = Inr event" using parsed by (simp add: parsePayload_def)
    moreover have eq: "propOf e' ''prev_thumb'' = propOf e ''prev_thumb'' \<and> propOf e' ''new_ku'' = propOf e ''new_ku'' \<and> propOf e' ''new_thumb'' = propOf e ''new_thumb''"
      using calculation payload members [of "''prev_thumb''"] members [of "''new_ku''"] members [of "''new_thumb''"] sorted
      by (auto simp: parseRotation_def eventPayload_def rotationPayload_def bindE_eq_Inr asString_Inr dest!: asJwk_Inr split: if_splits)
    moreover have "parseRotation e' sigs domain timestamp = parseRotation e sigs domain timestamp"
      unfolding parseRotation_def by (simp only: eq)
    ultimately show ?thesis using 2 by (simp add: parsePayload_def)
  next
    case 3
    with parsed payload members [of "''reason''"] show ?thesis
      by (auto simp: parsePayload_def eventPayload_def Let_def bindE_eq_Inr asRevocationReason_Inr BaseLogEvent.defs RevocationEvent.defs)
  next
    case 4
    with parsed show ?thesis by (simp add: parsePayload_def)
  next
    case 5
    with parsed payload members [of "''prev_lr''"] members [of "''new_lr''"] members [of "''prev_ref''"] show ?thesis
      by (auto simp: parsePayload_def eventPayload_def Let_def bindE_eq_Inr asString_Inr BaseLogEvent.defs MigrationEvent.defs)
  next
    case 6
    with parsed obtain d sc x expiry where p: "propOf e ''delegatee'' = JStr d" "d \<noteq> []" "propOf e ''scope'' = JStr sc" "sc \<noteq> []"
        "asSafeInt (propOf e ''expiry'') = Inr x" "dateFromSeconds x = Inr expiry"
      and ev: "event = DELEGATION (BaseLogEvent.extend (baseEvent (cs_ae sigs)) (DelegationEvent.fields domain d sc expiry timestamp))"
      by (auto simp: parsePayload_def Let_def bindE_eq_Inr asString_Inr)
    from payload obtain s where s: "epochSeconds expiry = Inr s"
      and pl: "payload = [(js ''delegatee'', JStr d), (js ''scope'', JStr sc), (js ''expiry'', secondsMember s)]"
      by (auto simp: ev eventPayload_def bindE_eq_Inr BaseLogEvent.defs DelegationEvent.defs)
    have "asSafeInt (propOf e' ''expiry'') = Inr x"
      using members [of "''expiry''"] asSafeInt_seconds [OF s] dateFromSeconds_epoch [OF p(6) s] by (simp add: pl secondsMember_def)
    moreover have "propOf e' ''delegatee'' = JStr d" "propOf e' ''scope'' = JStr sc"
      using members [of "''delegatee''"] members [of "''scope''"] by (simp_all add: pl)
    ultimately show ?thesis using 6 p by (simp add: parsePayload_def Let_def ev asString_def)
  qed
qed

section \<open>Entries of an event\<close>

lemma propOf_in: "distinct (map fst ms) \<Longrightarrow> (js k, v) \<in> set ms \<Longrightarrow> propOf (JObj ms) k = v"
  by (simp add: lookupProp_def del: js_Cons)

lemma checkBinding_cong:
  assumes "\<And>k. k \<in> {''method'', ''log_origin'', ''stream_id'', ''lr''} \<Longrightarrow> propOf e k = propOf e' k"
  shows "checkBinding e context = checkBinding e' context"
  using assms unfolding checkBinding_def by (simp del: propOf.simps)

lemma checkBinding_strings:
  "checkBinding e context = Inr () \<Longrightarrow> k \<in> {''method'', ''log_origin'', ''stream_id'', ''lr''} \<Longrightarrow> \<exists>s. propOf e k = JStr s"
  by (cases "propOf e k") (auto simp: checkBinding_def eachE_eq_Inr nonEmptyString_def split: if_splits)

lemma validatePublicFields_sort:
  assumes "validatePublicFields P (JObj ms) context = Inr ()" and "distinct (map fst ms')" and "\<And>m. m \<in> set ms \<Longrightarrow> m \<in> set ms'"
  shows "validatePublicFields P (sortMembers (JObj ms')) context = Inr ()"
proof -
  let ?e = "JObj ms" and ?e' = "sortMembers (JObj ms')"
  from assms(1) obtain fqdn normal where f: "propOf ?e ''fqdn'' = JStr fqdn" "normalizeFQDN P fqdn True = Inr normal" "propOf ?e ''stream_id'' \<noteq> JStr normal"
    and b: "checkBinding ?e context = Inr ()"
    by (cases "propOf ?e ''fqdn''") (auto simp: validatePublicFields_def bindE_eq_Inr simp del: propOf.simps split: if_splits)
  have same: "propOf ?e' k = JStr s" if "propOf ?e k = JStr s" for k s
  proof -
    from that have "(js k, JStr s) \<in> set ms" by (auto simp: lookupProp_def dest: map_of_SomeD split: option.splits)
    then have "propOf (JObj ms') k = JStr s" by (intro propOf_in assms(2,3))
    then show ?thesis using propOf_sortMembers [OF assms(2), of k] by (simp only: sortMembers.simps)
  qed
  have eq: "propOf ?e' k = propOf ?e k" if "k \<in> {''method'', ''log_origin'', ''stream_id'', ''lr''}" for k
    using checkBinding_strings [OF b that] same by metis
  have "checkBinding ?e' context = Inr ()" using b checkBinding_cong [of ?e' ?e] eq by metis
  then show ?thesis using f(2,3) same [OF f(1)] eq [of "''stream_id''"]
    by (simp add: validatePublicFields_def del: propOf.simps)
qed

lemma valid_method: "validatePublicFields P e context = Inr () \<Longrightarrow> propOf e ''method'' = JStr (js ''c2sp-tlog'')"
  by (cases e; cases "propOf e ''fqdn''")
    (auto simp: validatePublicFields_def bindE_eq_Inr checkBinding_def eachE_eq_Inr memberOf_def simp del: propOf.simps split: if_splits)

lemma parse_canonicalize:
  assumes "sortMembers e = e" and "distinct (map fst (spread e))" and parsed: "c2spEnvelopeToEvent C e = Inr (event, chain)"
    and env: "eventToC2spEnvelope P event context True = Inr envelope" and wf: "wfJson P envelope"
  shows "validatePublicFields P (sortMembers envelope) context = Inr () \<and>
    c2spEnvelopeToEvent C (sortMembers envelope) = Inr (event, parseChainFields (sortMembers envelope))"
proof -
  from parsed obtain type ts timestamp domain sigs where
    type: "type \<in> set SUPPORTED" and ts: "dateFromSeconds ts = Inr timestamp" and dom: "domain \<noteq> []"
    and sigs: "parseC2spSignatures (propOf e ''sigs'') type True = Inr sigs" and pl: "parsePayload C e type sigs domain timestamp = Inr event"
    by (cases e) (auto simp: c2spEnvelopeToEvent_def bindE_eq_Inr asString_Inr split: if_splits)
  note role = parseC2spSignatures_ok [OF sigs]
  note ev = parsePayload_event [OF pl type role]
  from env obtain ms sigs' where ms: "unsignedMembers event context = Inr ms" "validatePublicFields P (JObj ms) context = Inr ()"
    and s': "signaturesFromEvent event = Inr sigs'"
    and e': "envelope = JObj (if signaturesMembers sigs' = [] then ms else ms @ [(js ''sigs'', JObj (signaturesMembers sigs'))])"
    by (auto simp: eventToC2spEnvelope_def bindE_eq_Inr)
  from s' ev have "sigs' = sigs" by blast
  have "signaturesMembers sigs \<noteq> []" using role by (auto simp: roleSignatures_def signaturesMembers_def split: if_splits)
  with e' \<open>sigs' = sigs\<close> have envelope: "envelope = JObj (ms @ [(js ''sigs'', JObj (signaturesMembers sigs))])" by simp
  define ms' where "ms' = ms @ [(js ''sigs'', JObj (signaturesMembers sigs))]"
  have dist: "distinct (map fst ms')" using wf unfolding envelope ms'_def [symmetric] by simp
  from ms(1) obtain s payload where s: "epochSeconds timestamp = Inr s" and payload: "eventPayload event = Inr payload"
    and mem: "ms = [(js ''v'', JNum (Fin 1)), (js ''kind'', JStr (js ''dnsid.lifecycle'')), (js ''type'', JStr type),
         (js ''fqdn'', JStr domain), (js ''ts'', secondsMember s)] @ payload @ bindingMembers context @ chainMembers context"
    using ev by (auto simp: unsignedMembers_def bindE_eq_Inr)
  let ?E = "sortMembers envelope"
  have look: "propOf ?E k = sortMembers v" if "(js k, v) \<in> set ms'" for k v
    using propOf_sortMembers [OF dist] propOf_in [OF dist that] unfolding envelope ms'_def by (simp only:)
  have valid: "validatePublicFields P ?E context = Inr ()"
    unfolding envelope ms'_def [symmetric] by (rule validatePublicFields_sort [OF ms(2) dist]) (simp add: ms'_def)
  have "map_of payload (js k) = Some v \<Longrightarrow> propOf ?E k = sortMembers v" for k v
    by (rule look) (auto simp: ms'_def mem dest: map_of_SomeD simp del: js_Cons)
  from parsePayload_payload [OF pl type payload assms(1,2) this] have 1: "parsePayload C ?E type sigs domain timestamp = Inr event" .
  have head: "propOf ?E ''v'' = sortMembers (JNum (Fin 1))" "propOf ?E ''kind'' = sortMembers (JStr (js ''dnsid.lifecycle''))"
      "propOf ?E ''type'' = sortMembers (JStr type)" "propOf ?E ''fqdn'' = sortMembers (JStr domain)" "propOf ?E ''ts'' = sortMembers (secondsMember s)"
    by (rule look, simp add: ms'_def mem)+
  have "propOf ?E ''sigs'' = sortMembers (JObj (signaturesMembers sigs))" by (rule look) (simp add: ms'_def)
  then have "parseC2spSignatures (propOf ?E ''sigs'') type True = Inr sigs"
    using parse_signaturesMembers [OF role] supported_roles [OF type] by (metis)
  moreover have "isStr (propOf ?E ''method'') ''c2sp-tlog''" using valid_method [OF valid] by (simp add: isStr_def)
  moreover have "dateFromSeconds s = Inr timestamp" using ts dateFromSeconds_epoch [OF ts s] by simp
  moreover have "\<exists>xs. ?E = JObj xs" by (simp add: envelope)
  ultimately show ?thesis
    using valid 1 head [unfolded secondsMember_def sortMembers.simps] asSafeInt_seconds [OF s] type dom
    by (auto simp: c2spEnvelopeToEvent_def asString_def isStr_def numEq_def secondsMember_def SUPPORTED_def simp del: propOf.simps sortMembers_obj)
qed

text \<open>The chain fields of an entry are those of the context it was written with.\<close>

definition chainNames :: "string set" where
  "chainNames = {''seq'', ''prev_event_id'', ''prev_state_hash''}"

lemma payload_names:
  assumes "eventPayload event = Inr payload" and "k \<in> chainNames"
  shows "js k \<notin> fst ` set payload"
  using assms by (cases event) (auto simp: chainNames_def eventPayload_def issuancePayload_def rotationPayload_def Let_def bindE_eq_Inr split: if_splits)

lemma unsigned_chain:
  assumes "unsignedMembers event context = Inr ms" and "k \<in> chainNames"
  shows "map_of ms (js k) = map_of (chainMembers context) (js k)"
proof -
  from assms(1) obtain s payload where payload: "eventPayload event = Inr payload"
    and mem: "ms = [(js ''v'', JNum (Fin 1)), (js ''kind'', JStr (js ''dnsid.lifecycle'')), (js ''type'', JStr (eventType event)),
         (js ''fqdn'', JStr (eventDomain event)), (js ''ts'', secondsMember s)] @ payload @ bindingMembers context @ chainMembers context"
    by (auto simp: unsignedMembers_def bindE_eq_Inr)
  have "map_of payload (js k) = None" using payload_names [OF payload assms(2)] by (simp add: map_of_eq_None_iff)
  moreover have "map_of (bindingMembers context) (js k) = None"
    using assms(2) by (auto simp: chainNames_def map_of_eq_None_iff bindingMembers_def presentMember_def optMember_def split: option.splits)
  ultimately show ?thesis using assms(2) by (auto simp: mem map_add_def chainNames_def split: option.splits)
qed

lemma propOf_parseChainFields: "k \<in> chainNames \<Longrightarrow> propOf (parseChainFields (JObj ms)) k = propOf (JObj ms) k"
proof -
  have "map_of (map (\<lambda>k. (js k, propOf (JObj ms) k)) (filter (hasMember (JObj ms)) ks)) (js k) =
      (if k \<in> set ks \<and> hasMember (JObj ms) k then Some (propOf (JObj ms) k) else None)" for ks
    by (induction ks) (auto simp: js_inj simp del: propOf.simps js_Cons hasMember.simps)
  moreover have "propOf (JObj ms) k = JUndef" if "\<not> hasMember (JObj ms) k"
  proof -
    from that have "map_of ms (js k) = None" by (simp add: map_of_eq_None_iff)
    then show ?thesis by (simp add: lookupProp_def)
  qed
  moreover assume "k \<in> chainNames"
  then have "k \<in> set CHAIN_FIELDS" by (auto simp: chainNames_def CHAIN_FIELDS_def)
  ultimately show ?thesis by (simp add: parseChainFields_def lookupProp_def split: option.splits)
qed

lemma envelope_chain:
  assumes "eventToC2spEnvelope P event context True = Inr envelope" and "wfJson P envelope" and "k \<in> chainNames"
  shows "propOf (sortMembers envelope) k = propOf (JObj (chainMembers context)) k"
proof -
  from assms(1) obtain us ss where us: "unsignedMembers event context = Inr us"
    and env: "envelope = JObj (us @ ss)" "ss = [] \<or> (\<exists>v. ss = [(js ''sigs'', v)])"
    by (auto simp: eventToC2spEnvelope_def bindE_eq_Inr split: if_splits)
  have "map_of (us @ ss) (js k) = map_of us (js k)"
    using env(2) assms(3) by (auto simp: chainNames_def map_add_def split: option.splits)
  then have eq: "propOf envelope k = propOf (JObj (chainMembers context)) k"
    using unsigned_chain [OF us assms(3)] by (simp add: env(1) lookupProp_def)
  have "propOf (sortMembers envelope) k = sortMembers (propOf envelope k)"
    using propOf_sortMembers [of "us @ ss" k] assms(2) unfolding env(1) by simp
  also have "\<dots> = propOf envelope k"
    unfolding eq by (auto simp: lookupProp_def chainMembers_def optMember_def presentMember_def split: option.splits dest!: map_of_SomeD)
  finally show ?thesis using eq by simp
qed

text \<open>
  C24. The codec round trips: an event that was parsed from an entry, written as an entry again (in any
  context that the encoder accepts), is parsed to the same event, with the sequence number, the predecessor
  and the state hash of the context it was written with.
\<close>

theorem parseC2spEventEntry_canonicalize:
  assumes "readsBack P" and "parseC2spEventEntry P C bs context = Inr (event, chain)"
    and "eventToC2spEnvelope P event context' True = Inr envelope" and "wfJson P envelope"
    and "canonicalizeC2spEvent P event context' = Inr bs'"
  shows "\<exists>chain'. parseC2spEventEntry P C bs' context' = Inr (event, chain') \<and>
    (\<forall>k \<in> chainNames. propOf chain' k = propOf (JObj (chainMembers context')) k)"
proof -
  from assms(2) obtain e where e: "readEntry P bs = Inr e" "c2spEnvelopeToEvent C e = Inr (event, chain)"
    by (auto simp: parseC2spEventEntry_def bindE_eq_Inr)
  note r = readEntry_Inr [OF assms(1) e(1)]
  have "distinct (map fst (spread e))"  
    using r e(2) by (cases e) (auto simp: c2spEnvelopeToEvent_def)
  note pc = parse_canonicalize [OF _ this e(2) assms(3,4)]
  from assms(5,3) have "canonicalBytes P envelope = Inr bs'" "assertEntrySize bs' = Inr ()"
    by (auto simp: canonicalizeC2spEvent_def bindE_eq_Inr)
  note read = readEntry_canonical [OF assms(4) this]
  then have "parseC2spEventEntry P C bs' context' = Inr (event, parseChainFields (sortMembers envelope))"
    using pc r by (simp add: parseC2spEventEntry_def)
  moreover obtain ms where "sortMembers envelope = JObj ms"
    using assms(3) by (auto simp: eventToC2spEnvelope_def bindE_eq_Inr)
  then have "propOf (parseChainFields (sortMembers envelope)) k = propOf (JObj (chainMembers context')) k" if "k \<in> chainNames" for k
    using propOf_parseChainFields [OF that] envelope_chain [OF assms(3,4) that] by simp
  ultimately show ?thesis by blast
qed

end
