(* ===== verification/StreamChain.thy ===== *)
theory StreamChain
  imports StreamVerifier EventCodecRoundtrip
begin

text \<open>
  What an accepted lifecycle is: a chain of events in which every event names its predecessor and the
  state before it, and carries the signatures of the keys in force at that point. The event ID of the last
  event commits to the whole chain.
\<close>

section \<open>The specification\<close>

definition signedBy :: "platform \<Rightarrow> crypto \<Rightarrow> json \<Rightarrow> jstring option \<Rightarrow> VerifiedLifecycleEvent \<Rightarrow> bool" where
  "signedBy P C key signature item \<longleftrightarrow>
     (\<exists>bytes t s. signedC2spEntryBytes P (vl_bytes item) = Inr bytes \<and> signature = Some t \<and> fromBase64Url t = Inr s \<and>
        verifyWithKey C (Inr bytes) s key None)"

definition seqIs :: "VerifiedLifecycleEvent \<Rightarrow> nat \<Rightarrow> bool" where
  "seqIs item n \<longleftrightarrow> (\<exists>q. propOf (vl_chain item) ''seq'' = JNum q \<and> finiteNum q = Some (of_nat n))"

definition eventIdOf :: "platform \<Rightarrow> crypto \<Rightarrow> VerifiedLifecycleEvent \<Rightarrow> jstring option" where
  "eventIdOf P C item = (case signedC2spEntryBytes P (vl_bytes item) of Inl _ \<Rightarrow> None | Inr bytes \<Rightarrow> Some (c2spEventId (hash256 C) bytes))"

text \<open>An event names its predecessor and the state that the predecessor left.\<close>

definition linked :: "platform \<Rightarrow> crypto \<Rightarrow> VerifiedLifecycleEvent \<Rightarrow> json \<Rightarrow> VerifiedLifecycleEvent \<Rightarrow> bool" where
  "linked P C prev state item \<longleftrightarrow>
     (\<exists>i h. eventIdOf P C prev = Some i \<and> propOf (vl_chain item) ''prev_event_id'' = JStr i \<and>
        stateHash P C state = Inr h \<and> propOf (vl_chain item) ''prev_state_hash'' = JStr h)"

definition keyThumb :: "crypto \<Rightarrow> json \<Rightarrow> jstring \<Rightarrow> bool" where
  "keyThumb C key t \<longleftrightarrow> joseThumbprint C key = Inr t"

text \<open>
  The lifecycles that a verifier may accept: the entity key never changes, the operational key changes only
  by a rotation that the old and the new key sign, and nothing follows a terminal event.
\<close>

inductive accepted :: "platform \<Rightarrow> crypto \<Rightarrow> StreamVerifierOptions \<Rightarrow> VerifiedLifecycleEvent list \<Rightarrow> json \<Rightarrow> json \<Rightarrow> json \<Rightarrow> bool"
  for P C options where
  issued: "vl_event x = ISSUANCE e \<Longrightarrow> seqIs x 0 \<Longrightarrow>
    ek = ie_initialEntityPublicKey e \<Longrightarrow> ok = ie_initialOperationalPublicKey e \<Longrightarrow>
    signedBy P C ek (ev_sig e) x \<Longrightarrow> signedBy P C ok (ev_operationalCountersig e) x \<Longrightarrow>
    keyThumb C ek et \<Longrightarrow> keyThumb C ok ot \<Longrightarrow> et \<noteq> ot \<Longrightarrow>
    (truthy (so_signerKey options) \<longrightarrow> keyThumb C (so_signerKey options) et) \<Longrightarrow>
    accepted P C options [x] ek ok (stateObject (ie_domain e) ''ACTIVE'' (JStr et) (JStr ot))"
| migrated: "vl_event x = MIGRATION m \<Longrightarrow> seqIs x 0 \<Longrightarrow>
    so_verifyMigration options = Some verify \<Longrightarrow> verify (vl_index x) m = Inr r \<Longrightarrow>
    ek = mr_entityKey r \<Longrightarrow> ok = mr_activeOperationalKey r \<Longrightarrow>
    signedBy P C ek (ev_sig m) x \<Longrightarrow> keyThumb C ek et \<Longrightarrow> keyThumb C ok ot \<Longrightarrow> et \<noteq> ot \<Longrightarrow>
    (truthy (so_signerKey options) \<longrightarrow> keyThumb C (so_signerKey options) et) \<Longrightarrow>
    (present (cx_lr options) \<longrightarrow> cx_lr options = Some (mg_newLog m)) \<Longrightarrow>
    accepted P C options [x] ek ok (stateObject (mg_domain m) ''ACTIVE'' (JStr et) (JStr ot))"
| rotated: "accepted P C options (xs @ [p]) ek ok st \<Longrightarrow> \<not> isTerminalType (vl_event p) \<Longrightarrow> linked P C p st x \<Longrightarrow>
    seqIs x (Suc (length xs)) \<Longrightarrow> vl_event x = KEY_ROTATION e \<Longrightarrow> new = kr_newOperationalPublicKey e \<Longrightarrow>
    keyThumb C ok (kr_previousOperationalThumbprint e) \<Longrightarrow> keyThumb C new (kr_newOperationalThumbprint e) \<Longrightarrow>
    keyThumb C ek et \<Longrightarrow> et \<noteq> kr_newOperationalThumbprint e \<Longrightarrow> kr_newOperationalThumbprint e \<noteq> kr_previousOperationalThumbprint e \<Longrightarrow>
    signedBy P C ok (ev_sig e) x \<Longrightarrow> signedBy P C new (ev_newOperationalProof e) x \<Longrightarrow>
    accepted P C options (xs @ [p, x]) ek new (stateObject (kr_domain e) ''ACTIVE'' (JStr et) (JStr (kr_newOperationalThumbprint e)))"
| entity: "accepted P C options (xs @ [p]) ek ok st \<Longrightarrow> \<not> isTerminalType (vl_event p) \<Longrightarrow> linked P C p st x \<Longrightarrow>
    seqIs x (Suc (length xs)) \<Longrightarrow> \<not> isGenesisType (vl_event x) \<Longrightarrow> (\<forall>e. vl_event x \<noteq> KEY_ROTATION e) \<Longrightarrow>
    signedBy P C ek (eventSig (vl_event x)) x \<Longrightarrow> (\<forall>r. vl_event x = REVOCATION r \<longrightarrow> rv_reason r \<in> set REVOCATION_REASONS) \<Longrightarrow>
    nextState C st (vl_event x) ek ok = Inr st' \<Longrightarrow>
    accepted P C options (xs @ [p, x]) ek ok st'"

section \<open>Soundness of the loop\<close>

lemma verifyEventSignature_Inr: "verifyEventSignature P C item s key m = Inr () \<longleftrightarrow> signedBy P C key (Some s) item"
  by (auto simp: verifyEventSignature_def signedBy_def bindE_eq_Inr split: if_splits)

lemma seq_strictEq: "strictEq (propOf (vl_chain x) ''seq'') (JNum (Fin (of_nat n))) \<Longrightarrow> seqIs x n"
  by (cases "propOf (vl_chain x) ''seq''") (auto simp: seqIs_def numEq_def)

lemma seq_safeInt: "seqIs x n \<Longrightarrow> safeInt (propOf (vl_chain x) ''seq'') = Some i \<Longrightarrow> i = int n"
  by (auto simp: seqIs_def split: if_splits option.splits)

lemma assertDistinct_Inr:
  "assertDistinctLifecycleKeys C a b type = Inr () \<longleftrightarrow> (\<exists>et ot. keyThumb C a et \<and> keyThumb C b ot \<and> et \<noteq> ot)"
  by (auto simp: assertDistinctLifecycleKeys_def keyThumb_def bindE_eq_Inr split: if_splits)

lemma present_Some: "present v \<Longrightarrow> v = Some (the v)"
  by (auto simp: present_def)

lemma verifyIssuance_Inr:
  assumes "verifyIssuance P C options x e s = Inr r"
  shows "fst r = ie_initialEntityPublicKey e \<and> fst (snd r) = ie_initialOperationalPublicKey e \<and>
    signedBy P C (fst r) (Some s) x \<and> signedBy P C (fst (snd r)) (ev_operationalCountersig e) x \<and>
    (\<exists>et ot. keyThumb C (fst r) et \<and> keyThumb C (fst (snd r)) ot \<and> et \<noteq> ot \<and>
       (truthy (so_signerKey options) \<longrightarrow> keyThumb C (so_signerKey options) et) \<and>
       snd (snd r) = stateObject (ie_domain e) ''ACTIVE'' (JStr et) (JStr ot))"
proof -
  let ?ek = "ie_initialEntityPublicKey e" and ?ok = "ie_initialOperationalPublicKey e"
  from assms have r: "r = (?ek, ?ok, issuanceState e)" and meta: "assertIssuanceKeyMetadata C e = Inr ()"
    and dist: "assertDistinctLifecycleKeys C ?ek ?ok (js ''ISSUANCE'') = Inr ()"
    and trusted: "truthy (so_signerKey options) \<Longrightarrow> \<exists>t. joseThumbprint C (so_signerKey options) = Inr t \<and> ie_initialEntityThumbprint e = Some t"
    and s: "signedBy P C ?ek (Some s) x" and c: "present (ev_operationalCountersig e)" "signedBy P C ?ok (Some (the (ev_operationalCountersig e))) x"
    by (auto simp: verifyIssuance_def Let_def bindE_eq_Inr verifyEventSignature_Inr simp del: js_Cons split: if_splits)
  from dist obtain et ot where "keyThumb C ?ek et" "keyThumb C ?ok ot" "et \<noteq> ot" by (auto simp: assertDistinct_Inr)
  moreover from meta this have "ie_initialEntityThumbprint e = Some et" "ie_initialOperationalThumbprint e = Some ot"
    by (auto simp: assertIssuanceKeyMetadata_def keyThumb_def Let_def bindE_eq_Inr split: if_splits)
  ultimately show ?thesis using trusted s c present_Some [OF c(1)]
    by (auto simp: r issuanceState_def memberOf_def keyThumb_def)
qed

lemma verifyMigrationGenesis_Inr:
  assumes "verifyMigrationGenesis P C options w x m s = Inr r"
  shows "\<exists>verify res et ot. so_verifyMigration options = Some verify \<and> verify (vl_index x) m = Inr res \<and>
    fst r = mr_entityKey res \<and> fst (snd r) = mr_activeOperationalKey res \<and> signedBy P C (fst r) (Some s) x \<and>
    keyThumb C (fst r) et \<and> keyThumb C (fst (snd r)) ot \<and> et \<noteq> ot \<and>
    (truthy (so_signerKey options) \<longrightarrow> keyThumb C (so_signerKey options) et) \<and>
    (present (cx_lr options) \<longrightarrow> cx_lr options = Some (mg_newLog m)) \<and>
    snd (snd r) = stateObject (mg_domain m) ''ACTIVE'' (JStr et) (JStr ot)"
proof -
  from assms obtain verify res st where v: "so_verifyMigration options = Some verify" "verify (vl_index x) m = Inr res"
    and r: "r = (mr_entityKey res, mr_activeOperationalKey res, st)"
    and dist: "assertDistinctLifecycleKeys C (mr_entityKey res) (mr_activeOperationalKey res) (js ''MIGRATION'') = Inr ()"
    and trusted: "truthy (so_signerKey options) \<Longrightarrow> \<exists>t. keyThumb C (so_signerKey options) t \<and> keyThumb C (mr_entityKey res) t"
    and lr: "present (cx_lr options) \<longrightarrow> cx_lr options = Some (mg_newLog m)"
    and s: "signedBy P C (mr_entityKey res) (Some s) x"
    and st: "activeState C (mg_domain m) ''ACTIVE'' (mr_entityKey res) (mr_activeOperationalKey res) = Inr st"
    by (auto simp: verifyMigrationGenesis_def Let_def bindE_eq_Inr waitForVerification_eq_Inr verifyEventSignature_Inr keyThumb_def
        simp del: js_Cons split: if_splits option.splits)
  from dist obtain et ot where "keyThumb C (mr_entityKey res) et" "keyThumb C (mr_activeOperationalKey res) ot" "et \<noteq> ot"
    by (auto simp: assertDistinct_Inr)
  then show ?thesis using v trusted lr s st by (auto simp: r activeState_def bindE_eq_Inr keyThumb_def)
qed

lemma verifyRotation_Inr:
  assumes "verifyRotation P C ek ok x e s = Inr ()"
  shows "keyThumb C ok (kr_previousOperationalThumbprint e) \<and> keyThumb C (kr_newOperationalPublicKey e) (kr_newOperationalThumbprint e) \<and>
    (\<exists>et. keyThumb C ek et \<and> et \<noteq> kr_newOperationalThumbprint e) \<and> kr_newOperationalThumbprint e \<noteq> kr_previousOperationalThumbprint e \<and>
    signedBy P C ok (Some s) x \<and> signedBy P C (kr_newOperationalPublicKey e) (ev_newOperationalProof e) x"
proof -
  from assms have t: "keyThumb C ok (kr_previousOperationalThumbprint e)" "keyThumb C (kr_newOperationalPublicKey e) (kr_newOperationalThumbprint e)"
    and n: "kr_newOperationalThumbprint e \<noteq> kr_previousOperationalThumbprint e"
    and d: "assertDistinctLifecycleKeys C ek (kr_newOperationalPublicKey e) (js ''KEY_ROTATION'') = Inr ()"
    and s: "signedBy P C ok (Some s) x" "present (ev_newOperationalProof e)"
      "signedBy P C (kr_newOperationalPublicKey e) (Some (the (ev_newOperationalProof e))) x"
    by (auto simp: verifyRotation_def assertRotationKeyMetadata_def Let_def bindE_eq_Inr verifyEventSignature_Inr keyThumb_def
        simp del: js_Cons split: if_splits)
  from d t(2) have "\<exists>et. keyThumb C ek et \<and> et \<noteq> kr_newOperationalThumbprint e" by (auto simp: assertDistinct_Inr keyThumb_def)
  then show ?thesis using t n s present_Some [OF s(2)] by auto
qed

lemma assertChainFields_Inr:
  assumes "assertChainFields P C (vl_chain x) p st = Inr ()" and "seqIs p n"
  shows "linked P C p st x \<and> seqIs x (Suc n)"
proof -
  from assms(1) obtain i bytes h where i: "safeInt (propOf (vl_chain p) ''seq'') = Some i"
    and s: "strictEq (propOf (vl_chain x) ''seq'') (JNum (Fin (of_int (i + 1))))"
    and l: "signedC2spEntryBytes P (vl_bytes p) = Inr bytes" "propOf (vl_chain x) ''prev_event_id'' = JStr (c2spEventId (hash256 C) bytes)"
      "stateHash P C st = Inr h" "propOf (vl_chain x) ''prev_state_hash'' = JStr h"
    by (auto simp: assertChainFields_def bindE_eq_Inr simp del: safeInt.simps strictEq.simps split: option.splits if_splits)
  have "i + 1 = int (Suc n)" using seq_safeInt [OF assms(2) i] by simp
  then have "seqIs x (Suc n)" using s by (intro seq_strictEq) (simp del: strictEq.simps of_nat_Suc add: of_int_of_nat_eq)
  then show ?thesis using l by (auto simp: linked_def eventIdOf_def)
qed

text \<open>What one turn of the loop establishes.\<close>

definition loopState :: "platform \<Rightarrow> crypto \<Rightarrow> StreamVerifierOptions \<Rightarrow> VerifiedLifecycleEvent list \<Rightarrow> lifecycle_vars \<Rightarrow> bool" where
  "loopState P C options xs v \<longleftrightarrow>
     (if xs = [] then v = initialVars
      else accepted P C options xs (lv_entityKey v) (lv_activeOperationalKey v) (lv_prevState v) \<and>
        lv_previous v = Some (last xs) \<and> lv_terminal v = isTerminalType (vl_event (last xs)))"

lemma all_two:
  assumes "\<And>i. i < length (xs @ [p]) \<Longrightarrow> Q ((xs @ [p]) ! i) i" and "Q x (Suc (length xs))" and "i < length (xs @ [p, x])"
  shows "Q ((xs @ [p, x]) ! i) i"
proof (cases "i \<le> length xs")
  case True
  then show ?thesis using assms(1) [of i] by (auto simp: nth_append)
next
  case False
  then have "i = Suc (length xs)" using assms(3) by simp
  then show ?thesis using assms(2) by (simp add: nth_append)
qed

lemma accepted_seq: "accepted P C options xs ek ok st \<Longrightarrow> i < length xs \<Longrightarrow> seqIs (xs ! i) i"
proof (induction arbitrary: i rule: accepted.induct)
  case (rotated xs p ek ok st x e new et)
  show ?case by (rule all_two [where Q = seqIs]) (use rotated.IH rotated.hyps rotated.prems in auto)
next
  case (entity xs p ek ok st x st')
  show ?case by (rule all_two [where Q = seqIs]) (use entity.IH entity.hyps entity.prems in auto)
qed auto

lemma accepted_nonempty: "accepted P C options xs ek ok st \<Longrightarrow> xs \<noteq> []"
  by (induction rule: accepted.induct) auto

lemma first_step:
  assumes "lifecycleStep P C options w initialVars (False, x) = Inr v"
  shows "loopState P C options [x] v"
proof -
  let ?e = "vl_event x"
  from assms have gen: "isGenesisType ?e" and chain: "assertFirstChainFields (vl_chain x) = Inr ()" and sig: "present (eventSig ?e)"
    by (auto simp: lifecycleStep_def Let_def bindE_eq_Inr checkOrder_def checkChain_def initialVars_def split: if_splits)
  from chain have "strictEq (propOf (vl_chain x) ''seq'') (JNum (Fin (of_nat 0)))"
    by (auto simp: assertFirstChainFields_def split: if_splits)
  then have seq: "seqIs x 0" by (rule seq_strictEq)
  from assms obtain r where v: "v = initialVars\<lparr>lv_terminal := isTerminalType ?e, lv_prevState := snd (snd r), lv_entityKey := fst r,
      lv_activeOperationalKey := fst (snd r), lv_previous := Some x\<rparr>"
    and r: "(case ?e of ISSUANCE e \<Rightarrow> verifyIssuance P C options x e (the (eventSig ?e))
      | MIGRATION m \<Rightarrow> verifyMigrationGenesis P C options w x m (the (eventSig ?e)) | _ \<Rightarrow> verifySuccessor P C initialVars x (the (eventSig ?e))) = Inr r"
    by (auto simp: lifecycleStep_def Let_def bindE_eq_Inr split: if_splits)
  have "accepted P C options [x] (fst r) (fst (snd r)) (snd (snd r))"
  proof (cases ?e)
    case (ISSUANCE e)
    with sig have "Some (the (eventSig ?e)) = ev_sig e" by (simp add: eventSig_def BaseLogEvent.truncate_def present_def)
    then show ?thesis using verifyIssuance_Inr [of P C options x e "the (eventSig ?e)" r] r seq ISSUANCE by (auto intro: accepted.issued)
  next
    case (MIGRATION m)
    with sig have "Some (the (eventSig ?e)) = ev_sig m" by (simp add: eventSig_def BaseLogEvent.truncate_def present_def)
    then show ?thesis using verifyMigrationGenesis_Inr [of P C options w x m "the (eventSig ?e)" r] r seq MIGRATION by (auto intro: accepted.migrated)
  qed (use gen in auto)
  then show ?thesis using v by (simp add: loopState_def)
qed

lemma next_step:
  assumes v: "loopState P C options (xs @ [p]) v" and step: "lifecycleStep P C options w v (False, x) = Inr v'"
  shows "loopState P C options (xs @ [p, x]) v'"
proof -
  let ?e = "vl_event x" and ?s = "the (eventSig (vl_event x))"
  note v = v [unfolded loopState_def, simplified]
  from step v have ord: "\<not> isTerminalType (vl_event p)" "\<not> isGenesisType ?e"
    and chain: "assertChainFields P C (vl_chain x) p (lv_prevState v) = Inr ()" and sig: "present (eventSig ?e)"
    by (auto simp: lifecycleStep_def Let_def bindE_eq_Inr checkOrder_def checkChain_def split: if_splits)
  have "seqIs p (length xs)" using accepted_seq [of P C options "xs @ [p]" _ _ _ "length xs"] v by auto
  from assertChainFields_Inr [OF chain this] have l: "linked P C p (lv_prevState v) x" "seqIs x (Suc (length xs))" by auto
  from step ord(2) obtain r where v': "v' = v\<lparr>lv_terminal := isTerminalType ?e, lv_prevState := snd (snd r), lv_entityKey := fst r,
      lv_activeOperationalKey := fst (snd r), lv_previous := Some x\<rparr>" and r: "verifySuccessor P C v x ?s = Inr r"
    by (cases ?e) (auto simp: lifecycleStep_def Let_def bindE_eq_Inr split: if_splits)
  have "accepted P C options (xs @ [p, x]) (fst r) (fst (snd r)) (snd (snd r))"
  proof (cases "\<exists>e. ?e = KEY_ROTATION e")
    case True
    then obtain e where e: "?e = KEY_ROTATION e" ..
    with sig have s: "Some ?s = ev_sig e" by (simp add: eventSig_def BaseLogEvent.truncate_def present_def)
    from r e obtain st where ver: "verifyRotation P C (lv_entityKey v) (lv_activeOperationalKey v) x e ?s = Inr ()"
      and st: "nextState C (lv_prevState v) ?e (lv_entityKey v) (kr_newOperationalPublicKey e) = Inr st"
      and r: "r = (lv_entityKey v, kr_newOperationalPublicKey e, st)"
      by (auto simp: verifySuccessor_def Let_def bindE_eq_Inr split: if_splits)
    note rot = verifyRotation_Inr [OF ver]
    then obtain et where "keyThumb C (lv_entityKey v) et" "et \<noteq> kr_newOperationalThumbprint e" by blast
    moreover from this rot st have "st = stateObject (kr_domain e) ''ACTIVE'' (JStr et) (JStr (kr_newOperationalThumbprint e))"
      by (auto simp: nextState_def e activeState_def keyThumb_def bindE_eq_Inr)
    ultimately show ?thesis using accepted.rotated [OF _ ord(1) l e refl, of options "lv_entityKey v" "lv_activeOperationalKey v" et] v rot s by (simp add: r)
  next
    case False
    with r obtain st where ver: "verifyEntityEvent P C (lv_entityKey v) x ?s = Inr ()"
      and st: "nextState C (lv_prevState v) ?e (lv_entityKey v) (lv_activeOperationalKey v) = Inr st"
      and r: "r = (lv_entityKey v, lv_activeOperationalKey v, st)"
      by (cases ?e) (auto simp: verifySuccessor_def Let_def bindE_eq_Inr split: if_splits)
    from ver have "signedBy P C (lv_entityKey v) (eventSig ?e) x" "\<forall>r. ?e = REVOCATION r \<longrightarrow> rv_reason r \<in> set REVOCATION_REASONS"
      using present_Some [OF sig] by (auto simp: verifyEntityEvent_def Let_def bindE_eq_Inr verifyEventSignature_Inr split: if_splits)
    then show ?thesis using accepted.entity [OF _ ord(1) l ord(2) _ _ _ st] v False by (auto simp: r)
  qed
  then show ?thesis using v' by (simp add: loopState_def)
qed

lemma turns_snoc: "turns aborted (xs @ [x]) = turns aborted xs @ [(aborted (length xs), x)]"
  by (simp add: turns_def enumerate_append_eq)

lemma lifecycleStep_flag: "lifecycleStep P C options w v (a, x) = Inr v' \<Longrightarrow> lifecycleStep P C options w v (False, x) = Inr v'"
  by (cases a) (simp_all add: lifecycleStep_def Let_def)

lemma loop_accepted:
  "foldE (lifecycleStep P C options w) initialVars (turns aborted xs) = Inr v \<Longrightarrow> loopState P C options xs v"
proof (induction xs arbitrary: v rule: rev_induct)
  case Nil
  then show ?case by (simp add: turns_def loopState_def)
next
  case (snoc x xs)
  from snoc.prems obtain u where u: "foldE (lifecycleStep P C options w) initialVars (turns aborted xs) = Inr u"
    and step: "lifecycleStep P C options w u (aborted (length xs), x) = Inr v"
    by (auto simp: turns_snoc foldE_append bindE_eq_Inr)
  note step = lifecycleStep_flag [OF step]
  show ?case
  proof (cases xs rule: rev_cases)
    case Nil
    then show ?thesis using first_step [of P C options w x v] step u by (simp add: turns_def)
  next
    case (snoc ys p)
    then show ?thesis using next_step [of P C options ys p u w x v] step snoc.IH [OF u] by simp
  qed
qed

lemma verifyLifecycle_accepted:
  assumes "verifyLifecycle P C options run events = Inr ()"
  shows "\<exists>ek ok st. accepted P C options events ek ok st"
proof -
  from assms obtain v where "foldE (lifecycleStep P C options (lu_migration run)) initialVars (turns (lu_aborted run) events) = Inr v" and "events \<noteq> []"
    by (auto simp: verifyLifecycle_def verifyLifecycleWithinBudget_def withVerificationBudget_eq_Inr bindE_eq_Inr split: if_splits)
  from loop_accepted [OF this(1)] this(2) show ?thesis by (auto simp: loopState_def)
qed

text \<open>
  C14. An accepted lifecycle is authentic: it has an event, and it is a chain in which the first event is an
  ISSUANCE signed by its entity key and its operational key (or a MIGRATION signed by the entity key of the
  verified prior log), every later event names its predecessor and the state before it and has the next
  sequence number, a rotation is signed by the active operational key and by the new one, every other event
  by the entity key, and no event follows a revocation or a retirement.
\<close>

theorem verifyLifecycle_sound:
  assumes "verifyLifecycle P C options run events = Inr ()"
  shows "\<exists>ek ok st. accepted P C options events ek ok st"
  by (rule verifyLifecycle_accepted [OF assms])

section \<open>The last event commits to the lifecycle\<close>

lemma accepted_snocD:
  assumes "accepted P C options (xs @ [x]) ek ok st" and "xs \<noteq> []"
  shows "\<exists>ek' ok' st'. accepted P C options xs ek' ok' st' \<and> linked P C (last xs) st' x"
  using assms(1)
proof (cases rule: accepted.cases)
  case (rotated ys p ok st x' e et)
  then have "xs = ys @ [p]" "x = x'" by (metis append_eq_appendI append_Cons append_Nil butlast_snoc last_snoc)+
  then show ?thesis using rotated by auto
next
  case (entity ys p st x')
  then have "xs = ys @ [p]" "x = x'" by (metis append_eq_appendI append_Cons append_Nil butlast_snoc last_snoc)+
  then show ?thesis using entity by auto
qed (use assms(2) in auto)

lemma accepted_first: "accepted P C options [x] ek ok st \<Longrightarrow> seqIs x 0"
  using accepted_seq [of P C options "[x]" ek ok st 0] by simp

text \<open>An item that was read from its own bytes.\<close>

definition fromEntry :: "platform \<Rightarrow> crypto \<Rightarrow> VerifiedLifecycleEvent \<Rightarrow> bool" where
  "fromEntry P C item \<longleftrightarrow> (\<exists>context. parseC2spEventEntry P C (vl_bytes item) context = Inr (vl_event item, vl_chain item))"

definition eventPreimages :: "platform \<Rightarrow> VerifiedLifecycleEvent set \<Rightarrow> bytes set" where
  "eventPreimages P S = {utf8 (js ''dnsid-c2sp-event-v1'' @ [0]) @ b | b x. x \<in> S \<and> signedC2spEntryBytes P (vl_bytes x) = Inr b}"

lemma same_chain_fields:
  assumes "readsBack P" and "fromEntry P C x" and "fromEntry P C y"
    and "signedC2spEntryBytes P (vl_bytes x) = Inr s" and "signedC2spEntryBytes P (vl_bytes y) = Inr s" and "k \<in> chainNames"
  shows "propOf (vl_chain x) k = propOf (vl_chain y) k"
proof -
  from assms(2,3) obtain e e' where e: "readEntry P (vl_bytes x) = Inr e" "c2spEnvelopeToEvent C e = Inr (vl_event x, vl_chain x)"
    and e': "readEntry P (vl_bytes y) = Inr e'" "c2spEnvelopeToEvent C e' = Inr (vl_event y, vl_chain y)"
    by (auto simp: fromEntry_def parseC2spEventEntry_def bindE_eq_Inr)
  obtain ms ms' where ms: "e = JObj ms" "vl_chain x = parseChainFields e" "e' = JObj ms'" "vl_chain y = parseChainFields e'"
    using e(2) e'(2) by (cases e; cases e') (auto simp: c2spEnvelopeToEvent_def bindE_eq_Inr split: if_splits)
  have "dropSigs e = dropSigs e'"
    using signed_content [OF assms(1)] e(1) e'(1) assms(4,5) unfolding ms by blast
  moreover have "k \<noteq> ''sigs''" using assms(6) by (auto simp: chainNames_def)
  ultimately have "propOf e k = propOf e' k" using propOf_dropSigs unfolding ms by metis
  then show ?thesis using propOf_parseChainFields [OF assms(6)] unfolding ms by simp
qed

lemma same_signed:
  assumes "inj_on (hash256 C) (eventPreimages P S)" and "x \<in> S" and "y \<in> S" and "eventIdOf P C x = Some i" and "eventIdOf P C y = Some i"
  shows "\<exists>s. signedC2spEntryBytes P (vl_bytes x) = Inr s \<and> signedC2spEntryBytes P (vl_bytes y) = Inr s"
proof -
  from assms(4,5) obtain s t where s: "signedC2spEntryBytes P (vl_bytes x) = Inr s" "signedC2spEntryBytes P (vl_bytes y) = Inr t"
    and "c2spEventId (hash256 C) s = c2spEventId (hash256 C) t" by (auto simp: eventIdOf_def split: sum.splits)
  then have "hash256 C (utf8 (js ''dnsid-c2sp-event-v1'' @ [0]) @ s) = hash256 C (utf8 (js ''dnsid-c2sp-event-v1'' @ [0]) @ t)"
    unfolding c2spEventId_def b64url_def by (metis toBase64Url_roundtrip sum.inject(2))
  then have "utf8 (js ''dnsid-c2sp-event-v1'' @ [0]) @ s = utf8 (js ''dnsid-c2sp-event-v1'' @ [0]) @ t"
    by (rule inj_onD [OF assms(1)]) (use s assms(2,3) in \<open>auto simp: eventPreimages_def\<close>)
  then show ?thesis using s by simp
qed

lemma accepted_commits:
  assumes "readsBack P" and "\<forall>x \<in> S. fromEntry P C x" and "inj_on (hash256 C) (eventPreimages P S)"
    and "accepted P C options us ek ok st" and "accepted P C options' vs ek' ok' st'" and "set us \<subseteq> S" and "set vs \<subseteq> S"
    and "eventIdOf P C (last us) = Some i" and "eventIdOf P C (last vs) = Some i"
  shows "map (\<lambda>x. signedC2spEntryBytes P (vl_bytes x)) us = map (\<lambda>x. signedC2spEntryBytes P (vl_bytes x)) vs"
  using assms(4-9)
proof (induction us arbitrary: vs ek ok st ek' ok' st' i rule: rev_induct)
  case Nil
  then show ?case using accepted_nonempty by blast
next
  case (snoc x us)
  let ?sb = "\<lambda>x. signedC2spEntryBytes P (vl_bytes x)"
  obtain y vs' where vs: "vs = vs' @ [y]" using accepted_nonempty [OF snoc.prems(2)] by (metis rev_exhaust)
  obtain s where s: "?sb x = Inr s" "?sb y = Inr s" using same_signed [OF assms(3), of x y i] snoc.prems unfolding vs by auto
  have chain: "propOf (vl_chain x) k = propOf (vl_chain y) k" if "k \<in> chainNames" for k
    using same_chain_fields [OF assms(1) _ _ s that] assms(2) snoc.prems(3,4) unfolding vs by auto
  have "seqIs x (length us)" "seqIs y (length vs')"
    using accepted_seq [OF snoc.prems(1), of "length us"] accepted_seq [OF snoc.prems(2), of "length vs'"] unfolding vs by auto
  then have len: "length us = length vs'" using chain [of "''seq''"] by (auto simp: seqIs_def chainNames_def)
  show ?case
  proof (cases "us = []")
    case True
    then show ?thesis using len s vs by simp
  next
    case False
    then have "vs' \<noteq> []" using len by auto
    from accepted_snocD [OF snoc.prems(1) False] obtain a b c where u: "accepted P C options us a b c" "linked P C (last us) c x" by blast
    from accepted_snocD [OF snoc.prems(2) [unfolded vs] \<open>vs' \<noteq> []\<close>] obtain a' b' c'
      where v: "accepted P C options' vs' a' b' c'" "linked P C (last vs') c' y" by blast
    from u(2) v(2) chain [of "''prev_event_id''"] obtain j where "eventIdOf P C (last us) = Some j" "eventIdOf P C (last vs') = Some j"
      by (auto simp: linked_def chainNames_def)
    from snoc.IH [OF u(1) v(1) _ _ this] have "map ?sb us = map ?sb vs'" using snoc.prems(3,4) unfolding vs by auto
    then show ?thesis using s vs by simp
  qed
qed

text \<open>
  C15. The event ID of the last event commits to the whole lifecycle: two accepted lifecycles, read from log
  entries and with no hash collision among their signed payloads, that end in events with the same ID have
  the same signed payload at every position (and so the same length).
\<close>

theorem lifecycle_head_commits:
  assumes "readsBack P" and "verifyLifecycle P C options run xs = Inr ()" and "verifyLifecycle P C options' run' ys = Inr ()"
    and "\<forall>x \<in> set xs \<union> set ys. fromEntry P C x" and "inj_on (hash256 C) (eventPreimages P (set xs \<union> set ys))"
    and "eventIdOf P C (last xs) = Some i" and "eventIdOf P C (last ys) = Some i"
  shows "map (\<lambda>x. signedC2spEntryBytes P (vl_bytes x)) xs = map (\<lambda>x. signedC2spEntryBytes P (vl_bytes x)) ys"
proof -
  obtain ek ok st ek' ok' st' where "accepted P C options xs ek ok st" "accepted P C options' ys ek' ok' st'"
    using verifyLifecycle_accepted [OF assms(2)] verifyLifecycle_accepted [OF assms(3)] by blast
  from accepted_commits [OF assms(1,4,5) this _ _ assms(6,7)] show ?thesis by simp
qed

end
