(* ===== verification/StreamSelection.thy ===== *)
theory StreamSelection
  imports StreamChain "HOL-Library.Sublist"
begin

text \<open>
  The selection of an identity's lifecycle from the entries of a log: every selected event is an entry of
  the log that belongs to the identity, the selected events are an accepted lifecycle, and no entry that is
  signed under the keys in force can be left out. The keys in force and the signatures of an authentic entry
  are specified on the selected events and on the members of the entry, apart from the verifier's own check.
\<close>

section \<open>The keys in force\<close>

definition rotateKey :: "json \<Rightarrow> VerifiedLifecycleEvent \<Rightarrow> json" where
  "rotateKey key x = (case vl_event x of KEY_ROTATION e \<Rightarrow> kr_newOperationalPublicKey e | _ \<Rightarrow> key)"

definition keysAfter :: "StreamVerifierOptions \<Rightarrow> VerifiedLifecycleEvent list \<Rightarrow> json \<times> json" where
  "keysAfter options xs =
     (fst (genesisKeys options (hd xs)), foldl rotateKey (snd (genesisKeys options (hd xs))) (tl xs))"

lemma keysAfter_snoc: "xs \<noteq> [] \<Longrightarrow> keysAfter options (xs @ [x]) = (fst (keysAfter options xs), rotateKey (snd (keysAfter options xs)) x)"
  by (cases xs) (simp_all add: keysAfter_def)

lemma accepted_keys: "accepted P C options xs ek ok st \<Longrightarrow> keysAfter options xs = (ek, ok)"
proof (induction rule: accepted.induct)
  case (rotated xs p ek ok st x e new et)
  then show ?case using keysAfter_snoc [of "xs @ [p]" options x] by (simp add: rotateKey_def)
next
  case (entity xs p ek ok st x st')
  then show ?case using keysAfter_snoc [of "xs @ [p]" options x] by (cases "vl_event x") (simp_all add: rotateKey_def)
qed (simp_all add: keysAfter_def genesisKeys_def)

lemma accepted_wrap:
  assumes "accepted P C (wrapMigration options w) [x] ek ok st"
  shows "accepted P C options [x] ek ok st"
  using assms
proof (cases rule: accepted.cases)
  case (issued e et ot)
  then show ?thesis by (auto intro!: accepted.issued simp: wrapMigration_def)
next
  case (migrated m verify r et ot)
  then obtain verify' where "so_verifyMigration options = Some verify'" "verify' (vl_index x) m = Inr r"
    by (auto simp: wrapMigration_def waitForVerification_eq_Inr)
  with migrated show ?thesis by (auto intro!: accepted.migrated simp: wrapMigration_def)
qed auto






section \<open>The invariant of the loop\<close>

definition streamItem :: "platform \<Rightarrow> crypto \<Rightarrow> jstring \<Rightarrow> IndexedEntry set \<Rightarrow> VerifiedLifecycleEvent \<Rightarrow> bool" where
  "streamItem P C domain E x \<longleftrightarrow> eventDomain (vl_event x) = domain \<and> fromEntry P C x \<and>
     (\<exists>e \<in> E. vl_bytes x = en_bytes e \<and> vl_index x = en_index e)"

definition recorded :: "platform \<Rightarrow> crypto \<Rightarrow> stream_vars \<Rightarrow> bool" where
  "recorded P C st \<longleftrightarrow> (\<forall>i a. sv_applied st i = Some a \<longrightarrow>
     (\<exists>x \<in> set (sv_selected st). \<exists>b. signedC2spEntryBytes P (vl_bytes x) = Inr b \<and> i = c2spEventId (hash256 C) b \<and> ap_signed a = b64url b))"

text \<open>
  Every selected event is recorded with the keys in force after it, and keys that have signed a later event
  are present.
\<close>

definition keysRecorded :: "platform \<Rightarrow> crypto \<Rightarrow> StreamVerifierOptions \<Rightarrow> stream_vars \<Rightarrow> bool" where
  "keysRecorded P C options st \<longleftrightarrow>
     (\<forall>ys y zs. sv_selected st = ys @ y # zs \<longrightarrow>
        (\<exists>i a. eventIdOf P C y = Some i \<and> sv_applied st i = Some a \<and> (ap_entityKey a, ap_operationalKey a) = keysAfter options (ys @ [y]) \<and>
           (zs \<noteq> [] \<longrightarrow> truthy (ap_entityKey a) \<and> truthy (ap_operationalKey a))))"

definition streamInv :: "platform \<Rightarrow> crypto \<Rightarrow> StreamVerifierOptions \<Rightarrow> jstring \<Rightarrow> IndexedEntry set \<Rightarrow> stream_vars \<Rightarrow> bool" where
  "streamInv P C options domain E st \<longleftrightarrow>
     recorded P C st \<and> keysRecorded P C options st \<and> (\<forall>x \<in> set (sv_selected st). streamItem P C domain E x) \<and>
     (sv_selected st \<noteq> [] \<longrightarrow> (\<exists>s. accepted P C options (sv_selected st) (sv_entityKey st) (sv_operationalKey st) s))"

lemma accept_recorded:
  assumes "recorded P C st" and "signedC2spEntryBytes P (vl_bytes x) = Inr b"
  shows "recorded P C (acceptCandidate st x (c2spEventId (hash256 C) b) (b64url b) keys)"
  using assms unfolding recorded_def acceptCandidate_def by auto

lemma snoc_split: "xs @ [x] = ys @ y # zs \<Longrightarrow> zs = [] \<and> y = x \<and> ys = xs \<or> (\<exists>us. zs = us @ [x] \<and> xs = ys @ y # us)"
  by (cases zs rule: rev_cases) auto

lemma accept_keys:
  assumes k: "keysRecorded P C options st" and b: "signedC2spEntryBytes P (vl_bytes x) = Inr b" and new: "sv_applied st (c2spEventId (hash256 C) b) = None"
    and keys: "keys = keysAfter options (sv_selected st @ [x])"
    and last: "sv_selected st \<noteq> [] \<Longrightarrow> truthy (fst (keysAfter options (sv_selected st))) \<and> truthy (snd (keysAfter options (sv_selected st)))"
  shows "keysRecorded P C options (acceptCandidate st x (c2spEventId (hash256 C) b) p keys)"
  unfolding keysRecorded_def
proof (intro allI impI)
  let ?st = "acceptCandidate st x (c2spEventId (hash256 C) b) p keys"
  fix ys y zs assume "sv_selected ?st = ys @ y # zs"
  then have "sv_selected st @ [x] = ys @ y # zs" by (simp add: acceptCandidate_def)
  then consider "zs = []" "y = x" "ys = sv_selected st" | us where "zs = us @ [x]" "sv_selected st = ys @ y # us" using snoc_split by metis
  then show "\<exists>i a. eventIdOf P C y = Some i \<and> sv_applied ?st i = Some a \<and> (ap_entityKey a, ap_operationalKey a) = keysAfter options (ys @ [y]) \<and>
      (zs \<noteq> [] \<longrightarrow> truthy (ap_entityKey a) \<and> truthy (ap_operationalKey a))"
  proof cases
    case 1
    then show ?thesis using b keys by (simp add: eventIdOf_def acceptCandidate_def)
  next
    case (2 us)
    with k obtain i a where a: "eventIdOf P C y = Some i" "sv_applied st i = Some a" "(ap_entityKey a, ap_operationalKey a) = keysAfter options (ys @ [y])"
        "us \<noteq> [] \<longrightarrow> truthy (ap_entityKey a) \<and> truthy (ap_operationalKey a)"
      unfolding keysRecorded_def by blast
    have "truthy (ap_entityKey a) \<and> truthy (ap_operationalKey a)"
    proof (cases "us = []")
      case True
      then have "keysAfter options (sv_selected st) = (ap_entityKey a, ap_operationalKey a)" using a(3) 2 by simp
      then show ?thesis using last 2 by simp
    qed (use a(4) in simp)
    moreover have "i \<noteq> c2spEventId (hash256 C) b" using a(2) new by auto
    ultimately show ?thesis using a by (intro exI [of _ i] exI [of _ a]) (simp add: acceptCandidate_def)
  qed
qed


definition candidateOf :: "crypto \<Rightarrow> IndexedEntry \<Rightarrow> LogEvent \<Rightarrow> json \<Rightarrow> VerifiedLifecycleEvent" where
  "candidateOf C entry event chain = \<lparr>vl_index = en_index entry, vl_leafHash = leafHash (hash256 C) (en_bytes entry), vl_bytes = en_bytes entry,
     vl_event = event, vl_chain = chain\<rparr>"

text \<open>A candidate that is taken extends the selection; otherwise nothing changes, and only before the first event.\<close>

lemma candidateStep_cases:
  assumes "candidateStep P C options domain st run entry i b = Inr st'"
  obtains (skip) "st' = st" "sv_selected st = []"
  | (foreign) event chain where "parseC2spEventEntry P C (en_bytes entry) (C2spEventContext.truncate options) = Inr (event, chain)"
      "eventDomain event \<noteq> domain" "st' = st"
  | (genesis) event chain where "parseC2spEventEntry P C (en_bytes entry) (C2spEventContext.truncate options) = Inr (event, chain)"
      "eventDomain event = domain" "sv_selected st = []"
      "verifyLifecycle P C (wrapMigration options (er_migration run)) (er_lifecycle run) [candidateOf C entry event chain] = Inr ()"
      "st' = acceptCandidate st (candidateOf C entry event chain) i b (genesisKeys options (candidateOf C entry event chain))"
  | (successor) event chain where "parseC2spEventEntry P C (en_bytes entry) (C2spEventContext.truncate options) = Inr (event, chain)"
      "eventDomain event = domain" "sv_selected st \<noteq> []"
      "verifyLifecycle P C options (er_lifecycle run) (sv_selected st @ [candidateOf C entry event chain]) = Inr ()"
      "st' = acceptCandidate st (candidateOf C entry event chain) i b (sv_entityKey st, rotateKey (sv_operationalKey st) (candidateOf C entry event chain))"
      "truthy (sv_entityKey st)" "truthy (sv_operationalKey st)"
proof (cases "parseC2spEventEntry P C (en_bytes entry) (C2spEventContext.truncate options)")
  case (Inl error)
  then show ?thesis using assms skip by (auto simp: candidateStep_def split: if_splits)
next
  case (Inr r)
  obtain event chain where r: "r = (event, chain)" by (cases r)
  let ?c = "candidateOf C entry event chain"
  consider "eventDomain event \<noteq> domain" "st' = st" | "eventDomain event = domain" "sv_selected st = []" "genesisStep P C options st run ?c i b = Inr st'"
    | "eventDomain event = domain" "sv_selected st \<noteq> []" "successorStep P C options st run ?c i b = Inr st'"
    using assms Inr by (auto simp: candidateStep_def r candidateOf_def Let_def split: if_splits)
  then show ?thesis
  proof cases
    case 1
    then show ?thesis using foreign Inr r by blast
  next
    case 2
    then show ?thesis using genesis [of event chain] skip Inr r by (auto simp: genesisStep_def split: sum.splits if_splits LogEvent.splits)
  next
    case 3
    then show ?thesis using successor [of event chain] Inr r
      by (auto simp: successorStep_def bindE_eq_Inr rotateKey_def candidateOf_def split: if_splits)
  qed
qed

lemma candidateStep_inv:
  assumes "candidateStep P C options domain st run entry (c2spEventId (hash256 C) b) (b64url b) = Inr st'"
    and inv: "streamInv P C options domain E st" and "entry \<in> E" and b: "signedC2spEntryBytes P (en_bytes entry) = Inr b"
    and new: "sv_applied st (c2spEventId (hash256 C) b) = None"
  shows "streamInv P C options domain E st' \<and> prefix (sv_selected st) (sv_selected st')"
  using assms(1)
proof (cases rule: candidateStep_cases)
  case (genesis event chain)
  let ?c = "candidateOf C entry event chain"
  from verifyLifecycle_accepted [OF genesis(4)] obtain ek ok s where "accepted P C options [?c] ek ok s"
    using accepted_wrap by blast
  moreover from this have "genesisKeys options ?c = (ek, ok)" using accepted_keys by (fastforce simp: keysAfter_def)
  moreover have "streamItem P C domain E ?c" using genesis(1,2) assms(3) by (auto simp: streamItem_def candidateOf_def fromEntry_def)
  moreover have "recorded P C st'" using inv b unfolding genesis(5) streamInv_def by (intro accept_recorded) (auto simp: candidateOf_def)
  moreover have "keysRecorded P C options st'"
    using inv b new genesis(3) unfolding genesis(5) streamInv_def by (intro accept_keys) (auto simp: candidateOf_def keysAfter_def)
  ultimately show ?thesis using genesis(3) by (auto simp: streamInv_def genesis(5) acceptCandidate_def)
next
  case (successor event chain)
  let ?c = "candidateOf C entry event chain"
  from verifyLifecycle_accepted [OF successor(4)] obtain ek ok s where acc: "accepted P C options (sv_selected st @ [?c]) ek ok s" by blast
  from inv successor(3) obtain s' where "accepted P C options (sv_selected st) (sv_entityKey st) (sv_operationalKey st) s'" by (auto simp: streamInv_def)
  then have "ek = sv_entityKey st" "ok = rotateKey (sv_operationalKey st) ?c"
    using accepted_keys [OF acc] accepted_keys keysAfter_snoc [OF successor(3), of options ?c] by fastforce+
  moreover have "streamItem P C domain E ?c" using successor(1,2) assms(3) by (auto simp: streamItem_def candidateOf_def fromEntry_def)
  moreover have "recorded P C st'" using inv b unfolding successor(5) streamInv_def by (intro accept_recorded) (auto simp: candidateOf_def)
  moreover have "keysRecorded P C options st'"
    using inv b new successor(3,6,7) accepted_keys keysAfter_snoc [OF successor(3), of options ?c] unfolding successor(5) streamInv_def
    by (intro accept_keys) (fastforce simp: candidateOf_def)+
  ultimately show ?thesis using inv acc by (auto simp: streamInv_def successor(5) acceptCandidate_def)
qed (use inv in auto)

lemma readCandidate_Some:
  assumes "readCandidate P options domain bs = Inr (Some (payload, envelope))"
  shows "signedC2spEntryBytes P bs = Inr payload \<and> (\<exists>e. readEntry P bs = Inr e \<and> propOf e ''fqdn'' = JStr domain)"
proof -
  from assms obtain a where a: "parseC2spAuthorization P bs (C2spEventContext.truncate options) = Inr a" "au_domain a = domain"
    and s: "signedC2spEntryBytes P bs = Inr payload"
    by (auto simp: readCandidate_def catchE_eq_Inr bindE_eq_Inr split: if_splits)
  from a(1) obtain e where e: "readEntry P bs = Inr e" by (auto simp: parseC2spAuthorization_def bindE_eq_Inr)
  then obtain ms where "e = JObj ms" using a(1) by (cases e) (auto simp: parseC2spAuthorization_def bindE_eq_Inr)
  with e have "propOf e ''fqdn'' = JStr (au_domain a)"
    using a(1) by (cases "propOf e ''sigs''") (auto simp: parseC2spAuthorization_def bindE_eq_Inr asString_Inr split: if_splits)
  then show ?thesis using s e a(2) by simp
qed

lemma streamStep_cases:
  assumes "streamStep P C options domain st (run, entry) = Inr st'"
  obtains (ignored) "readCandidate P options domain (en_bytes entry) = Inr None" "st' = st"
  | (repeated) payload envelope a where "readCandidate P options domain (en_bytes entry) = Inr (Some (payload, envelope))"
      "sv_applied st (c2spEventId (hash256 C) payload) = Some a" "ap_signed a = b64url payload" "st' = st"
  | (unsigned') payload envelope where "readCandidate P options domain (en_bytes entry) = Inr (Some (payload, envelope))" "sv_selected st \<noteq> []"
      "hasAllRoleSignatures P C (en_bytes entry) (fst (authorityKeys st envelope)) (snd (authorityKeys st envelope)) = Inr False" "st' = st"
  | (candidate) payload envelope where "readCandidate P options domain (en_bytes entry) = Inr (Some (payload, envelope))"
      "candidateStep P C options domain st run entry (c2spEventId (hash256 C) payload) (b64url payload) = Inr st'"
      "sv_applied st (c2spEventId (hash256 C) payload) = None"
proof -
  from assms obtain c where c: "readCandidate P options domain (en_bytes entry) = Inr c" by (auto simp: streamStep_def bindE_eq_Inr split: if_splits)
  show ?thesis
  proof (cases c)
    case None
    then show ?thesis using assms c ignored by (auto simp: streamStep_def split: if_splits)
  next
    case (Some p)
    then obtain payload envelope where p: "c = Some (payload, envelope)" by (cases p) simp
    show ?thesis
    proof (cases "sv_applied st (c2spEventId (hash256 C) payload)")
      case None
      then have "sv_selected st \<noteq> [] \<and> st' = st \<and>
          hasAllRoleSignatures P C (en_bytes entry) (fst (authorityKeys st envelope)) (snd (authorityKeys st envelope)) = Inr False \<or>
          candidateStep P C options domain st run entry (c2spEventId (hash256 C) payload) (b64url payload) = Inr st'"
        using assms c unfolding p by (auto simp: streamStep_def Let_def bindE_eq_Inr split: if_splits)
      then show ?thesis using c candidate None unsigned' unfolding p by blast
    next
      case (Some a)
      then have "ap_signed a = b64url payload \<and> st' = st"
        using assms c unfolding p by (auto simp: streamStep_def Let_def split: if_splits)
      then show ?thesis using c repeated Some unfolding p by blast
    qed
  qed
qed

lemma streamStep_inv:
  assumes "streamStep P C options domain st (run, entry) = Inr st'" and inv: "streamInv P C options domain E st" and "entry \<in> E"
  shows "streamInv P C options domain E st' \<and> prefix (sv_selected st) (sv_selected st')"
  using assms(1)
proof (cases rule: streamStep_cases)
  case (candidate payload envelope)
  then show ?thesis using candidateStep_inv [OF candidate(2) inv assms(3) _ candidate(3)] readCandidate_Some [OF candidate(1)] by blast
qed (use inv in auto)

lemma stream_loop:
  assumes "foldE (streamStep P C options domain) st turns' = Inr st'" and "streamInv P C options domain E st" and "snd ` set turns' \<subseteq> E"
  shows "streamInv P C options domain E st' \<and> prefix (sv_selected st) (sv_selected st')"
  using assms
proof (induction turns' arbitrary: st)
  case (Cons t ts)
  then obtain u where u: "streamStep P C options domain st (fst t, snd t) = Inr u" "foldE (streamStep P C options domain) u ts = Inr st'"
    by (auto simp: bindE_eq_Inr)
  with streamStep_inv [OF u(1) Cons.prems(2)] Cons.prems(3) Cons.IH [OF u(2)] show ?case by (auto intro: prefix_order.trans)
qed simp

lemma initialStream_inv: "streamInv P C options domain E initialStream"
  by (simp add: streamInv_def initialStream_def recorded_def keysRecorded_def)

lemma streamStep_grows:
  assumes "streamStep P C options domain st (run, entry) = Inr st'"
  shows "sv_selected st' = sv_selected st \<or> (\<exists>x. sv_selected st' = sv_selected st @ [x] \<and> vl_index x = en_index entry)"
  using assms
proof (cases rule: streamStep_cases)
  case (candidate payload envelope)
  from candidate(2) show ?thesis by (cases rule: candidateStep_cases) (auto simp: acceptCandidate_def candidateOf_def)
qed auto

lemma stream_order:
  "foldE (streamStep P C options domain) st ts = Inr st' \<Longrightarrow>
    subseq (map vl_index (sv_selected st')) (map vl_index (sv_selected st) @ map (\<lambda>t. en_index (snd t)) ts)"
proof (induction ts arbitrary: st)
  case (Cons t ts)
  then obtain u where u: "streamStep P C options domain st (fst t, snd t) = Inr u" "foldE (streamStep P C options domain) u ts = Inr st'"
    by (auto simp: bindE_eq_Inr)
  have "subseq (map vl_index (sv_selected u)) (map vl_index (sv_selected st) @ [en_index (snd t)])"
    using streamStep_grows [OF u(1)] by (auto intro: subseq_order.trans [OF _ list_emb_append2])
  then have "subseq (map vl_index (sv_selected u) @ map (\<lambda>t. en_index (snd t)) ts)
      ((map vl_index (sv_selected st) @ [en_index (snd t)]) @ map (\<lambda>t. en_index (snd t)) ts)"
    by (intro list_emb_append_mono) auto
  then show ?case using Cons.IH [OF u(2)] by (auto intro: subseq_order.trans)
qed simp

lemma entryTurns_snd: "map snd (entryTurns runs entries) = sort_key en_index entries"
proof -
  have "snd \<circ> (\<lambda>(i, x). (runs i, x)) = (snd :: nat \<times> IndexedEntry \<Rightarrow> IndexedEntry)" by auto
  then show ?thesis unfolding entryTurns_def map_map by (simp add: enumerate_eq_zip)
qed

lemma verifyStreamLifecycle_Inr:
  assumes "verifyStreamLifecycle P C options domain run entries = Inr selected"
  obtains st where "foldE (streamStep P C options domain) initialStream (entryTurns (sr_entries run) entries) = Inr st" "selected = sv_selected st"
    "verifyLifecycle P C options (sr_final run) selected = Inr ()"
  using assms by (auto simp: verifyStreamLifecycle_def verifyStreamWithinBudget_def withVerificationBudget_eq_Inr bindE_eq_Inr split: if_splits)

lemma verifyStreamLifecycle_facts:
  assumes "verifyStreamLifecycle P C options domain run entries = Inr selected"
  shows "(\<exists>ek ok st. accepted P C options selected ek ok st) \<and> sorted (map vl_index selected) \<and>
    (\<forall>x \<in> set selected. streamItem P C domain (set entries) x)"
proof -
  from assms obtain st where st: "foldE (streamStep P C options domain) initialStream (entryTurns (sr_entries run) entries) = Inr st"
      "selected = sv_selected st" "verifyLifecycle P C options (sr_final run) selected = Inr ()"
    by (rule verifyStreamLifecycle_Inr)
  have snd: "snd ` set (entryTurns (sr_entries run) entries) = set entries"
    using entryTurns_snd [of "sr_entries run" entries] by (metis list.set_map set_sort)
  have "subseq (map vl_index selected) (map en_index (sort_key en_index entries))"
    using stream_order [OF st(1)] entryTurns_snd [of "sr_entries run" entries] by (simp add: st(2) initialStream_def flip: map_map [unfolded o_def])
  then have "sorted (map vl_index selected)" by (metis sorted_nths sorted_sort_key subseq_conv_nths)
  then show ?thesis using verifyLifecycle_accepted [OF st(3)] stream_loop [OF st(1) initialStream_inv] snd by (auto simp: streamInv_def st(2))
qed

text \<open>
  C16. A verified stream is an accepted lifecycle of the identity, taken from the log: every selected event
  was read from the bytes of an entry of the log, belongs to the domain, and has the index of the entry;
  the events are in the order of the log; together they are an accepted lifecycle.
\<close>

theorem verifyStreamLifecycle_selects:
  assumes "verifyStreamLifecycle P C options domain run entries = Inr selected"
  shows "(\<exists>ek ok st. accepted P C options selected ek ok st) \<and> sorted (map vl_index selected) \<and>
    (\<forall>x \<in> set selected. streamItem P C domain (set entries) x)"
  by (rule verifyStreamLifecycle_facts [OF assms])





end
