(* ===== verification/MigrationHistory.thy ===== *)
theory MigrationHistory
  imports StreamSelection
begin

text \<open>
  Histories that a migration brings along (\<open>stitchVerifiedMigrationHistory\<close> and its references in
  \<open>log-c2sp-tlog/src/stream-verifier.ts\<close>), and the relation between the lifecycles that the stream
  verifier accepts and the histories that the protocol's snapshots are taken of.
\<close>

section \<open>Definitions\<close>

definition invalidMigration :: "string \<Rightarrow> js_error" where
  "invalidMigration message = c2spVerificationError message INVALID_MIGRATION"

definition isLineTerminator :: "nat \<Rightarrow> bool" where
  "isLineTerminator c \<longleftrightarrow> c \<in> {10, 13, 0x2028, 0x2029}"

text \<open>The expression \<open>/^[a-z][a-z0-9-]*:.+/\<close>.\<close>

definition logReferenceText :: "jstring \<Rightarrow> bool" where
  "logReferenceText s =
     (case s of
        [] \<Rightarrow> False
      | c # rest \<Rightarrow>
          isLower c \<and>
          (case dropWhile (\<lambda>c. isLower c \<or> isDigit c \<or> c = 45) rest of
             colon # d # _ \<Rightarrow> colon = 58 \<and> \<not> isLineTerminator d
           | _ \<Rightarrow> False))"

definition assertLogReference :: "jstring \<Rightarrow> js_error + unit" where
  "assertLogReference reference =
     (if \<not> logReferenceText reference then Inl (invalidMigration ''MIGRATION prior history contains a malformed log reference'') else Inr ())"

definition referenceMethod :: "jstring \<Rightarrow> jstring" where
  "referenceMethod reference = hd (split_on 58 reference)"

definition assertReferenceBelongsToLog :: "platform \<Rightarrow> url_ops \<Rightarrow> jstring \<Rightarrow> jstring \<Rightarrow> js_error + unit" where
  "assertReferenceBelongsToLog P U reference logReference =
     bindE (assertLogReference reference) (\<lambda>_.
     bindE (assertLogReference logReference) (\<lambda>_.
     if referenceMethod reference \<noteq> referenceMethod logReference
       then Inl (invalidMigration ''MIGRATION event reference does not belong to its signed log'')
     else if starts_with METHOD reference \<or> starts_with METHOD logReference
       then catchE
         (bindE (parseC2spTlogLr P U reference) (\<lambda>event.
          bindE (parseC2spTlogLr P U logReference) (\<lambda>lg.
          if lr_entryIndex lg \<noteq> None \<or> lr_entryIndex event = None \<or> lr_lr event \<noteq> lr_lr lg then Inl (PlainError '''') else Inr ())))
         (\<lambda>_. Inl (invalidMigration ''MIGRATION C2SP event reference does not belong to its signed log''))
     else Inr ()))"

text \<open>The loop over the prior events, from the last to the first, with the log that is expected at each.\<close>

fun priorLoop :: "platform \<Rightarrow> url_ops \<Rightarrow> jstring \<Rightarrow> (jstring \<times> LogEvent) list \<Rightarrow> js_error + unit" where
  "priorLoop P U expectedLog [] = Inr ()"
| "priorLoop P U expectedLog ((reference, event) # earlier) =
     bindE (assertReferenceBelongsToLog P U reference expectedLog) (\<lambda>_.
     case event of
       MIGRATION m \<Rightarrow>
         if mg_newLog m \<noteq> expectedLog \<or> earlier = [] \<or> fst (hd earlier) \<noteq> mg_finalEntryRef m
           then Inl (invalidMigration ''nested MIGRATION prior history does not end at signed prev_ref'')
         else bindE (assertReferenceBelongsToLog P U (mg_finalEntryRef m) (mg_previousLog m)) (\<lambda>_.
           priorLoop P U (mg_previousLog m) earlier)
     | _ \<Rightarrow> priorLoop P U expectedLog earlier)"

definition validatePriorHistoryReferences :: "platform \<Rightarrow> url_ops \<Rightarrow> MigrationEvent \<Rightarrow> MigrationVerificationResult \<Rightarrow> js_error + unit" where
  "validatePriorHistoryReferences P U inbound migration =
     (case mr_priorHistoryReferences migration of
        None \<Rightarrow> Inl (invalidMigration ''MIGRATION prior history has missing or mismatched verified references'')
      | Some references \<Rightarrow>
          if length references \<noteq> length (mr_priorHistory migration) \<or> references = []
            then Inl (invalidMigration ''MIGRATION prior history has missing or mismatched verified references'')
          else
            bindE (eachE assertLogReference references) (\<lambda>_.
            if last references \<noteq> mg_finalEntryRef inbound
              then Inl (invalidMigration ''MIGRATION prior history does not end at signed prev_ref'')
            else priorLoop P U (mg_previousLog inbound) (rev (zip references (mr_priorHistory migration)))))"

definition sameMigration :: "MigrationEvent \<Rightarrow> LogEvent \<Rightarrow> bool" where
  "sameMigration inbound event =
     (case event of
        MIGRATION m \<Rightarrow> mg_previousLog m = mg_previousLog inbound \<and> mg_newLog m = mg_newLog inbound \<and> mg_finalEntryRef m = mg_finalEntryRef inbound
      | _ \<Rightarrow> False)"

text \<open>\<open>reduce\<close> with \<open>Math.max\<close>: an invalid date makes the result invalid.\<close>

definition latestTimestamp :: "LogEvent list \<Rightarrow> date" where
  "latestTimestamp events =
     foldl (\<lambda>latest event. case (latest, eventTimestamp event) of (Some a, Some b) \<Rightarrow> Some (max a b) | _ \<Rightarrow> None) (Some 0) events"

definition priorEntityKey :: "IssuanceEvent \<Rightarrow> json" where
  "priorEntityKey e = orElse (slotJwk (ie_entityKey e)) (ie_initialEntityPublicKey e)"

definition checkPriorEntity :: "crypto \<Rightarrow> MigrationVerificationResult \<Rightarrow> js_error + unit" where
  "checkPriorEntity C migration =
     (case find isIssuance (mr_priorHistory migration) of
        Some (ISSUANCE e) \<Rightarrow>
          if \<not> truthy (priorEntityKey e)
            then Inl (invalidMigration ''MIGRATION prior history does not establish the imported entity key'')
          else
            bindE (joseThumbprint C (priorEntityKey e)) (\<lambda>a.
            bindE (joseThumbprint C (mr_entityKey migration)) (\<lambda>b.
            if a \<noteq> b then Inl (invalidMigration ''MIGRATION prior history does not establish the imported entity key'') else Inr ()))
      | _ \<Rightarrow> Inl (invalidMigration ''MIGRATION prior history has no ISSUANCE genesis''))"

definition stitchVerifiedMigrationHistory ::
    "platform \<Rightarrow> url_ops \<Rightarrow> crypto \<Rightarrow> jstring \<Rightarrow> LogEvent list \<Rightarrow> MigrationVerificationResult \<Rightarrow> js_error + LogEvent list" where
  "stitchVerifiedMigrationHistory P U C domain currentEvents migration =
     (case currentEvents of
        MIGRATION inbound # _ \<Rightarrow>
          if mr_priorHistory migration = [] then Inl (invalidMigration ''MIGRATION requires stitched verified prior-log history'')
          else if (\<exists>event \<in> set (mr_priorHistory migration). sameMigration inbound event)
            then Inl (invalidMigration ''MIGRATION event must appear exactly once in stitched history'')
          else
            bindE (if mr_priorHistoryReferences migration = None then Inr () else validatePriorHistoryReferences P U inbound migration) (\<lambda>_.
            bindE (snapshotAt (hash256 C) \<lparr>dl_domain = domain, dl_events = mr_priorHistory migration\<rparr>
                (latestTimestamp (mr_priorHistory migration))) (\<lambda>priorSnapshot.
            bindE (if ds_historicalState priorSnapshot \<noteq> ACTIVE then Inr False
                   else bindE (joseThumbprint C (mr_activeOperationalKey migration)) (\<lambda>t. Inr (ds_activeKeyThumbprint priorSnapshot = t))) (\<lambda>ok.
            if \<not> ok then Inl (invalidMigration ''MIGRATION prior history does not establish the imported active key'')
            else
              bindE (checkPriorEntity C migration) (\<lambda>_.
              let stitched = mr_priorHistory migration @ currentEvents in
              bindE (snapshotAt (hash256 C) \<lparr>dl_domain = domain, dl_events = stitched\<rparr> (latestTimestamp stitched)) (\<lambda>_. Inr stitched)))))
      | _ \<Rightarrow> Inl (invalidMigration ''MIGRATION requires stitched verified prior-log history''))"

definition stitchVerifiedMigrationReferences ::
    "platform \<Rightarrow> url_ops \<Rightarrow> LogEvent list \<Rightarrow> jstring list \<Rightarrow> MigrationVerificationResult \<Rightarrow> js_error + jstring list" where
  "stitchVerifiedMigrationReferences P U currentEvents currentReferences migration =
     (case currentEvents of
        MIGRATION inbound # _ \<Rightarrow>
          if length currentEvents \<noteq> length currentReferences
            then Inl (invalidMigration ''MIGRATION has mismatched destination history references'')
          else
            bindE (validatePriorHistoryReferences P U inbound migration) (\<lambda>_.
            bindE (eachE (\<lambda>reference. assertReferenceBelongsToLog P U reference (mg_newLog inbound)) currentReferences) (\<lambda>_.
            Inr (the (mr_priorHistoryReferences migration) @ currentReferences)))
      | _ \<Rightarrow> Inl (invalidMigration ''MIGRATION has mismatched destination history references''))"

section \<open>Accepted lifecycles are histories\<close>

text \<open>The package \<open>jose\<close> computes the RFC 7638 thumbprint of a supported lifecycle key.\<close>

definition rfc7638 :: "crypto \<Rightarrow> bool" where
  "rfc7638 C \<longleftrightarrow> (\<forall>key t. assertSupportedLifecycleJwk key = Inr key \<longrightarrow> joseThumbprint C key = Inr t \<longrightarrow> boundKey (hash256 C) key t)"

fun statusAfter :: "LogEvent \<Rightarrow> AgentStatusState" where
  "statusAfter (REVOCATION _) = REVOKED"
| "statusAfter (RETIREMENT _) = RETIRED"
| "statusAfter _ = ACTIVE"

lemma sameJwkMaterial_thumb:
  assumes "sameJwkMaterial a b" and "boundKey H a t" and "boundKey H b u"
  shows "t = u"
proof -
  have str: "v = w" if "strictEq v w" "v = JStr s" for v w s using that by (cases w) auto
  from assms(2,3) obtain m ms n ns where m: "jwkMaterial a = Some m" "strings m = Some ms" "t = toBase64Url (H (utf8 (stringifyMaterial ms)))"
    and n: "jwkMaterial b = Some n" "strings n = Some ns" "u = toBase64Url (H (utf8 (stringifyMaterial ns)))" by (auto simp: boundKey_def)
  have "m = n"
    using m(1,2) n(1,2) assms(1) by (auto simp: sameJwkMaterial_def jwkMaterial_def isStr_def Let_def split: if_splits json.splits dest: str)
  then show ?thesis using m n by simp
qed

lemma asJwk_supported: "asJwk v = Inr k \<Longrightarrow> k = v \<and> truthy v \<and> assertSupportedLifecycleJwk v = Inr v"
  by (cases v) (auto simp: asJwk_def bindE_eq_Inr assertSupportedLifecycleJwk_def split: if_splits)

lemma fromEntry_payload:
  assumes "fromEntry P C x"
  obtains e sigs domain timestamp where "parsePayload C e (eventType (vl_event x)) sigs domain timestamp = Inr (vl_event x)"
proof -
  from assms obtain e where "c2spEnvelopeToEvent C e = Inr (vl_event x, vl_chain x)" by (auto simp: fromEntry_def parseC2spEventEntry_def bindE_eq_Inr)
  then obtain type timestamp domain sigs where t: "type \<in> set SUPPORTED" "parseC2spSignatures (propOf e ''sigs'') type True = Inr sigs"
      "parsePayload C e type sigs domain timestamp = Inr (vl_event x)"
    by (cases e) (auto simp: c2spEnvelopeToEvent_def bindE_eq_Inr split: if_splits)
  then show ?thesis using that parsePayload_event [OF t(3,1) parseC2spSignatures_ok [OF t(2)]] by metis
qed

lemma fromEntry_issuance:
  assumes "fromEntry P C x" and "vl_event x = ISSUANCE i"
  shows "ie_entityKey i = None \<and> ie_operationalKey i = None \<and> truthy (ie_initialEntityPublicKey i) \<and> truthy (ie_initialOperationalPublicKey i) \<and>
    assertSupportedLifecycleJwk (ie_initialEntityPublicKey i) = Inr (ie_initialEntityPublicKey i) \<and>
    assertSupportedLifecycleJwk (ie_initialOperationalPublicKey i) = Inr (ie_initialOperationalPublicKey i) \<and>
    (\<exists>et ot. ie_initialEntityThumbprint i = Some et \<and> keyThumb C (ie_initialEntityPublicKey i) et \<and>
       ie_initialOperationalThumbprint i = Some ot \<and> keyThumb C (ie_initialOperationalPublicKey i) ot)"
proof -
  from assms obtain e sigs domain timestamp where "parseIssuance C e sigs domain timestamp = Inr (ISSUANCE i)"
    by (elim fromEntry_payload) (auto simp: parsePayload_def)
  then show ?thesis by (auto simp: parseIssuance_def bindE_eq_Inr keyThumb_def dest!: asJwk_supported split: if_splits)
qed

lemma fromEntry_rotation:
  assumes "fromEntry P C x" and "vl_event x = KEY_ROTATION r"
  shows "truthy (kr_newOperationalPublicKey r) \<and> assertSupportedLifecycleJwk (kr_newOperationalPublicKey r) = Inr (kr_newOperationalPublicKey r)"
proof -
  from assms obtain e sigs domain timestamp where "parseRotation e sigs domain timestamp = Inr (KEY_ROTATION r)"
    by (elim fromEntry_payload) (auto simp: parsePayload_def)
  then show ?thesis by (auto simp: parseRotation_def bindE_eq_Inr dest!: asJwk_supported split: if_splits)
qed

lemma history_issued:
  assumes "rfc7638 C" and "fromEntry P C x" and e: "vl_event x = ISSUANCE e" and "et \<noteq> ot"
    and t: "keyThumb C (ie_initialEntityPublicKey e) et" "keyThumb C (ie_initialOperationalPublicKey e) ot"
  shows "\<exists>s. lifecycle (hash256 C) initialState (ISSUANCE e) s \<and> lc_state s = Some ACTIVE \<and>
    lc_activeKey s = ie_initialOperationalPublicKey e \<and> lc_activeKeyThumbprint s = ot"
proof -
  note i = fromEntry_issuance [OF assms(2) e]
  have thumbs: "ie_initialEntityThumbprint e = Some et" "ie_initialOperationalThumbprint e = Some ot"
    using i t by (auto simp: keyThumb_def)
  have keys: "issuanceEntityKey e = ie_initialEntityPublicKey e" "issuanceOperationalKey e = ie_initialOperationalPublicKey e"
    using i by (auto simp: issuanceEntityKey_def issuanceOperationalKey_def slotJwk_def orElse_def nullish_def)
  have names: "issuanceEntityThumbprint e = et" "issuanceOperationalThumbprint e = ot"
    using i thumbs by (simp_all add: issuanceEntityThumbprint_def issuanceOperationalThumbprint_def)
  have bound: "boundKey (hash256 C) (ie_initialEntityPublicKey e) et" "boundKey (hash256 C) (ie_initialOperationalPublicKey e) ot"
    using assms(1) i t by (auto simp: rfc7638_def keyThumb_def)
  then have "\<not> sameJwkMaterial (ie_initialEntityPublicKey e) (ie_initialOperationalPublicKey e)"
    using sameJwkMaterial_thumb assms(4) by blast
  then show ?thesis using bound assms(4) by (simp add: keys names initialState_def)
qed

lemma accepted_history:
  assumes "rfc7638 C" and "accepted P C options xs ek ok st" and "\<forall>x \<in> set xs. fromEntry P C x" and "isIssuance (vl_event (hd xs))"
  shows "\<exists>s. history (hash256 C) initialState (map vl_event xs) s \<and> lc_state s = Some (statusAfter (vl_event (last xs))) \<and>
    lc_activeKey s = ok \<and> keyThumb C ok (lc_activeKeyThumbprint s)"
  using assms(2-4)
proof (induction rule: accepted.induct)
  case (issued x e ek ok et ot)
  then show ?case using history_issued [OF assms(1), of P x e et ot] history_snoc_iff [of _ _ "[]"] by auto
next
  case (migrated x m verify r ek ok et ot)
  then show ?case by (simp add: isIssuance_def)
next
  case (rotated xs p ek ok st x e new et)
  then obtain s where s: "history (hash256 C) initialState (map vl_event (xs @ [p])) s" "lc_state s = Some ACTIVE" "lc_activeKey s = ok"
      "keyThumb C ok (lc_activeKeyThumbprint s)"
    by (cases "vl_event p"; cases xs) auto
  have new: "truthy new" "boundKey (hash256 C) new (kr_newOperationalThumbprint e)"
    using fromEntry_rotation [of P C x e] rotated assms(1) by (auto simp: rfc7638_def keyThumb_def)
  have prev: "lc_activeKeyThumbprint s = kr_previousOperationalThumbprint e" using s(4) rotated.hyps by (simp add: keyThumb_def)
  have "boundKey (hash256 C) ok (lc_activeKeyThumbprint s)" using history_stateInv [OF s(1)] s(2,3) by (simp add: stateInv_def)
  then have "\<not> sameJwkMaterial ok new" using sameJwkMaterial_thumb new(2) rotated.hyps prev by metis
  then have "lifecycle (hash256 C) s (vl_event x) (s\<lparr>lc_activeKey := new, lc_activeKeyThumbprint := kr_newOperationalThumbprint e, lc_keyBoundAt := kr_timestamp e\<rparr>)"
    using s new prev rotated.hyps by simp
  then show ?case using s(1,2) rotated.hyps history_snoc_iff [of _ _ "map vl_event (xs @ [p])" "vl_event x"] by (auto simp: keyThumb_def)
next
  case (entity xs p ek ok st x st')
  then obtain s where s: "history (hash256 C) initialState (map vl_event (xs @ [p])) s" "lc_state s = Some ACTIVE" "lc_activeKey s = ok"
      "keyThumb C ok (lc_activeKeyThumbprint s)"
    by (cases "vl_event p"; cases xs) auto
  have "lifecycle (hash256 C) s (vl_event x) (s\<lparr>lc_state := Some (statusAfter (vl_event x))\<rparr>)"
    using entity.hyps s(2) by (cases "vl_event x") (auto simp: signedBy_def eventSig_def)
  then show ?case using s history_snoc_iff [of _ _ "map vl_event (xs @ [p])" "vl_event x"] by auto
qed

lemma fromEntry_time: "fromEntry P C x \<Longrightarrow> eventTimestamp (vl_event x) \<noteq> None"
proof -
  assume "fromEntry P C x"
  then obtain e where "c2spEnvelopeToEvent C e = Inr (vl_event x, vl_chain x)" by (auto simp: fromEntry_def parseC2spEventEntry_def bindE_eq_Inr)
  then obtain type ts timestamp domain sigs where t: "type \<in> set SUPPORTED" "parseC2spSignatures (propOf e ''sigs'') type True = Inr sigs"
      "parsePayload C e type sigs domain timestamp = Inr (vl_event x)" "dateFromSeconds ts = Inr timestamp"
    by (cases e) (auto simp: c2spEnvelopeToEvent_def bindE_eq_Inr split: if_splits)
  then show ?thesis using parsePayload_event [OF t(3,1) parseC2spSignatures_ok [OF t(2)]]
    by (auto simp: dateFromSeconds_def split: if_splits)
qed

lemma snapshotAt_all:
  assumes "list_all (wfEvent domain) es" and "list_all (notAfter at') es" and "history H initialState es s" and "lc_state s = Some st"
  shows "\<exists>snap. snapshotAt H \<lparr>dl_domain = domain, dl_events = es\<rparr> at' = Inr snap \<and> ds_historicalState snap = st \<and>
    ds_activeKey snap = lc_activeKey s \<and> ds_activeKeyThumbprint snap = lc_activeKeyThumbprint s \<and> ds_events snap = es"
proof -
  have whole: "takeWhile (notAfter at') es = es" "dropWhile (notAfter at') es = []"
    using assms(2) by (auto simp: list_all_iff takeWhile_eq_all_conv dropWhile_eq_Nil_conv)
  let ?snap = "\<lparr>ds_domain = domain, ds_historicalState = st, ds_activeKey = lc_activeKey s, ds_activeKeyThumbprint = lc_activeKeyThumbprint s,
    ds_keyBoundAt = lc_keyBoundAt s, ds_governanceId = lc_governanceId s, ds_snapshotAt = at', ds_events = es\<rparr>"
  have "snapshotAt H \<lparr>dl_domain = domain, dl_events = es\<rparr> at' = Inr ?snap"
    unfolding snapshotAt_iff DomainLog.simps whole using assms(1,3,4) by (auto simp: list_all_iff)
  then show ?thesis by (intro exI [of _ ?snap]) simp
qed

text \<open>
  C17. What the stream verifier accepts, the protocol accepts: the events of a verified stream that begins
  with an ISSUANCE are a history of the lifecycle relation, and a snapshot of them at any time after the
  last event succeeds, with the state that the last event leaves and the operational key that the stream
  verifier holds to be active. The package \<open>jose\<close> is assumed to compute RFC 7638 thumbprints.
\<close>

theorem verifyStreamLifecycle_refines_history:
  assumes "rfc7638 C" and "verifyStreamLifecycle P C options domain run entries = Inr selected"
    and "isIssuance (vl_event (hd selected))" and "\<forall>x \<in> set selected. notAfter at' (vl_event x)"
  shows "\<exists>snap. snapshotAt (hash256 C) \<lparr>dl_domain = domain, dl_events = map vl_event selected\<rparr> at' = Inr snap \<and>
    ds_historicalState snap = statusAfter (vl_event (last selected)) \<and> ds_activeKey snap = snd (keysAfter options selected) \<and>
    keyThumb C (ds_activeKey snap) (ds_activeKeyThumbprint snap)"
proof -
  from verifyStreamLifecycle_facts [OF assms(2)] obtain ek ok st where acc: "accepted P C options selected ek ok st"
    and items: "\<forall>x \<in> set selected. eventDomain (vl_event x) = domain \<and> fromEntry P C x" by (auto simp: streamItem_def)
  from accepted_history [OF assms(1) acc _ assms(3)] items obtain s where
    s: "history (hash256 C) initialState (map vl_event selected) s" "lc_state s = Some (statusAfter (vl_event (last selected)))"
      "lc_activeKey s = ok" "keyThumb C ok (lc_activeKeyThumbprint s)" by auto
  have "list_all (wfEvent domain) (map vl_event selected)" "list_all (notAfter at') (map vl_event selected)"
    using items fromEntry_time assms(4) by (auto simp: list_all_iff wfEvent_def)
  from snapshotAt_all [OF this s(1,2)] show ?thesis using s(3,4) accepted_keys [OF acc] by auto
qed

section \<open>Stitched histories\<close>

lemma latestTimestamp_foldl:
  "foldl (\<lambda>latest event. case (latest, eventTimestamp event) of (Some a, Some b) \<Rightarrow> Some (max a b) | _ \<Rightarrow> None) d es = Some m \<Longrightarrow>
    (\<exists>a. d = Some a \<and> a \<le> m) \<and> (\<forall>e \<in> set es. \<exists>t. eventTimestamp e = Some t \<and> t \<le> m)"
proof (induction es arbitrary: d)
  case (Cons e es)
  then show ?case by (cases d; cases "eventTimestamp e") fastforce+
qed simp

lemma latestTimestamp_notAfter: "\<forall>e \<in> set es. notAfter (latestTimestamp es) e"
proof (cases "latestTimestamp es")
  case (Some m)
  then have "\<forall>e \<in> set es. \<exists>t. eventTimestamp e = Some t \<and> t \<le> m"
    using latestTimestamp_foldl [of "Some 0" es m] by (simp add: latestTimestamp_def)
  then show ?thesis using Some by (fastforce simp: notAfter_def dateAfter_def)
qed (simp add: notAfter_def dateAfter_def split: option.split)

lemma snapshot_latest:
  assumes "snapshotAt H \<lparr>dl_domain = domain, dl_events = es\<rparr> (latestTimestamp es) = Inr snap"
  shows "\<exists>s. history H initialState es s \<and> lc_state s = Some (ds_historicalState snap) \<and> lc_activeKey s = ds_activeKey snap \<and>
    lc_activeKeyThumbprint s = ds_activeKeyThumbprint snap \<and> list_all (wfEvent domain) es"
proof -
  have whole: "takeWhile (notAfter (latestTimestamp es)) es = es" using latestTimestamp_notAfter by (simp add: takeWhile_eq_all_conv)
  show ?thesis using assms unfolding snapshotAt_iff DomainLog.simps whole by (auto simp: list_all_iff)
qed

text \<open>
  C18. A stitched history is one lifecycle: it is the prior history followed by the events of the
  destination, the prior history is a history of the lifecycle relation that ends ACTIVE with the imported
  operational key, its ISSUANCE has the imported entity key, and the events of the destination continue it.
\<close>

theorem stitchVerifiedMigrationHistory_sound:
  assumes "stitchVerifiedMigrationHistory P U C domain current migration = Inr es"
  shows "es = mr_priorHistory migration @ current \<and> list_all (wfEvent domain) es \<and>
    (\<exists>s s'. history (hash256 C) initialState (mr_priorHistory migration) s \<and> lc_state s = Some ACTIVE \<and>
       keyThumb C (mr_activeOperationalKey migration) (lc_activeKeyThumbprint s) \<and> history (hash256 C) s current s') \<and>
    (\<exists>i t. find isIssuance (mr_priorHistory migration) = Some (ISSUANCE i) \<and> keyThumb C (priorEntityKey i) t \<and>
       keyThumb C (mr_entityKey migration) t)"
proof -
  let ?prior = "mr_priorHistory migration"
  from assms obtain inbound rest where current: "current = MIGRATION inbound # rest"
    by (auto simp: stitchVerifiedMigrationHistory_def split: list.splits LogEvent.splits)
  from assms obtain snap snap' where
    snap: "snapshotAt (hash256 C) \<lparr>dl_domain = domain, dl_events = ?prior\<rparr> (latestTimestamp ?prior) = Inr snap"
      "ds_historicalState snap = ACTIVE" "keyThumb C (mr_activeOperationalKey migration) (ds_activeKeyThumbprint snap)"
    and ent: "checkPriorEntity C migration = Inr ()" and es: "es = ?prior @ current"
    and snap': "snapshotAt (hash256 C) \<lparr>dl_domain = domain, dl_events = ?prior @ current\<rparr> (latestTimestamp (?prior @ current)) = Inr snap'"
    unfolding current by (auto simp: stitchVerifiedMigrationHistory_def Let_def bindE_eq_Inr keyThumb_def split: if_splits)
  from snapshot_latest [OF snap(1)] obtain s where s: "history (hash256 C) initialState ?prior s" "lc_state s = Some ACTIVE"
      "lc_activeKeyThumbprint s = ds_activeKeyThumbprint snap" using snap(2) by auto
  from snapshot_latest [OF snap'] obtain s' where s': "history (hash256 C) initialState (?prior @ current) s'" "list_all (wfEvent domain) (?prior @ current)" by auto
  then have "history (hash256 C) s current s'" using s(1) history_deterministic unfolding history_append by blast
  moreover have "\<exists>i t. find isIssuance ?prior = Some (ISSUANCE i) \<and> keyThumb C (priorEntityKey i) t \<and> keyThumb C (mr_entityKey migration) t"
    using ent by (auto simp: checkPriorEntity_def bindE_eq_Inr keyThumb_def split: option.splits LogEvent.splits if_splits)
  ultimately show ?thesis using es s s'(2) snap(3) by auto
qed

end
