(* ===== verification/EventCodecExample.thy ===== *)
theory EventCodecExample
  imports EventCodecRoundtrip IdentityExample
begin

text \<open>A RETIREMENT event as an entry of a log, evaluated by the codec.\<close>

section \<open>An entry\<close>

definition exampleRetirement :: LogEvent where
  "exampleRetirement = RETIREMENT \<lparr>ev_signingKid = Some (js ''e''), ev_sig = Some (js ''AA''), ev_operationalCountersig = None,
     ev_newOperationalProof = None, rt_domain = js ''a.example'', rt_timestamp = Some 7000\<rparr>"

definition exampleContext :: C2spEventContext where
  "exampleContext = \<lparr>cx_scope = Some (js ''testnet''), cx_logOrigin = Some (js ''log.example''), cx_streamId = Some (js ''s''),
     cx_lr = Some (js ''c2sp-tlog:testnet:https://log.example#s''), cx_seq = Some (Fin (of_nat 3)), cx_prevEventId = Some (js ''AA''),
     cx_prevStateHash = None\<rparr>"

definition exampleEnvelope :: json where
  "exampleEnvelope = JObj [(js ''v'', JNum (Fin (of_nat 1))), (js ''kind'', JStr (js ''dnsid.lifecycle'')), (js ''type'', JStr (js ''RETIREMENT'')),
     (js ''fqdn'', JStr (js ''a.example'')), (js ''ts'', JNum (Fin (of_nat 7))), (js ''method'', JStr (js ''c2sp-tlog'')),
     (js ''log_origin'', JStr (js ''log.example'')), (js ''stream_id'', JStr (js ''s'')),
     (js ''lr'', JStr (js ''c2sp-tlog:testnet:https://log.example#s'')), (js ''seq'', JNum (Fin (of_nat 3))), (js ''prev_event_id'', JStr (js ''AA'')),
     (js ''sigs'', JObj [(js ''ae'', JObj [(js ''kid'', JStr (js ''e'')), (js ''sig'', JStr (js ''AA''))])])]"

lemma example_name: "normalizeFQDN jsonPlatform (js ''a.example'') True = Inr (js ''a.example'')"
proof (rule normalizeFQDN_fixed)
  show "wfFqdn (js ''a.example'')" by (simp add: eval_names)
  show "asciiCategories jsonPlatform" by (auto simp: asciiCategories_def jsonPlatform_def asciiPlatform_def eval_names)
  show "plainHost jsonPlatform (js ''a.example'') = Inr (js ''a.example'')"
    by (simp add: plainHost_def jsonPlatform_def asciiPlatform_def asciiUrl_def eval_names)
qed simp

lemma exampleEnvelope_of: "eventToC2spEnvelope jsonPlatform exampleRetirement exampleContext True = Inr exampleEnvelope"
proof -
  have "validatePublicFields jsonPlatform (JObj (butlast (spread exampleEnvelope))) exampleContext = Inr ()"
    using example_name
    by (simp add: validatePublicFields_def exampleEnvelope_def lookupProp_def checkBinding_def exampleContext_def nonEmptyString_def memberOf_def)
  then show ?thesis
    by (simp add: eventToC2spEnvelope_def unsignedMembers_def exampleRetirement_def exampleContext_def epochSeconds_def MAX_SAFE_def
        eventPayload_def bindingMembers_def chainMembers_def presentMember_def optMember_def present_def secondsMember_def
        signaturesFromEvent_def signatureOf_def noSignatures_def signaturesMembers_def signatureJson_def exampleEnvelope_def BaseLogEvent.truncate_def)
qed

lemma exampleEnvelope_wf: "wfJson jsonPlatform exampleEnvelope" "jsonHeight exampleEnvelope \<le> MAX_JSON_DEPTH"
proof -
  show "wfJson jsonPlatform exampleEnvelope"
    using okNum_json [of 1] okNum_json [of 7] okNum_json [of 3] by (simp add: exampleEnvelope_def)
qed (simp add: exampleEnvelope_def MAX_JSON_DEPTH_def)

lemma decimal_digit: "n < 10 \<Longrightarrow> decimal n = [48 + n]"
  by (simp add: decimal.simps)

lemma exampleEntry:
  "canonicalizeC2spEvent jsonPlatform exampleRetirement exampleContext = Inr (utf8 (jsonText jsonPlatform exampleEnvelope))"
proof -
  let ?t = "jsonText jsonPlatform exampleEnvelope"
  have num: "numToString jsonPlatform (Fin (of_nat n)) = decimal n" for n by (simp add: jsonPlatform_def)
  have "length ?t \<le> 1000 \<and> isAscii ?t \<and> ?t \<noteq> []"
    using num [of 1] num [of 7] num [of 3] by (simp add: exampleEnvelope_def quoteJson_def quoteUnit_def decimal_digit isAscii_def)
  then have "assertEntrySize (utf8 ?t) = Inr ()"
    using length_utf8_ascii [of ?t] by (auto simp: assertEntrySize_def MAX_ENTRY_BYTES_def)
  moreover have "parseC2spSignatures (propOf exampleEnvelope ''sigs'') (eventType exampleRetirement) True =
      Inr (noSignatures\<lparr>cs_ae := Some \<lparr>sv_kid = js ''e'', sv_sig = js ''AA''\<rparr>\<rparr>)"
    by (simp add: exampleEnvelope_def lookupProp_def exampleRetirement_def parseC2spSignatures_def optionalSignature_def parseSignatureValue_def
        asString_def base64urlText_def isAlnum_def isUpper_def requiredC2spSignatureNames_def SUPPORTED_def signatureNamed_def noSignatures_def)
  ultimately show ?thesis
    using exampleEnvelope_of canonicalBytes_text [OF exampleEnvelope_wf] by (simp add: canonicalizeC2spEvent_def)
qed

definition exampleBytes :: bytes where
  "exampleBytes = utf8 (jsonText jsonPlatform exampleEnvelope)"

lemma exampleBytes_read: "readEntry jsonPlatform exampleBytes = Inr (sortMembers exampleEnvelope)"
  using exampleEntry exampleEnvelope_of canonicalBytes_text [OF exampleEnvelope_wf]
  by (intro readEntry_canonical exampleEnvelope_wf) (auto simp: canonicalizeC2spEvent_def bindE_eq_Inr exampleBytes_def)

theorem signedC2spEntryBytes_of_event_witness:
  "signedC2spEntryBytes jsonPlatform exampleBytes = signedC2spEventBytes jsonPlatform exampleRetirement exampleContext"
  using signedC2spEntryBytes_of_event [OF exampleEntry exampleEnvelope_of exampleEnvelope_wf(1)] by (simp only: exampleBytes_def)

lemma exampleBytes_parse: "parseC2spEventEntry jsonPlatform acceptingCrypto exampleBytes exampleContext = Inr (exampleRetirement, parseChainFields (sortMembers exampleEnvelope))"
proof -
  have "validatePublicFields jsonPlatform (sortMembers exampleEnvelope) exampleContext = Inr ()"
    using example_name
    by (simp add: validatePublicFields_def exampleEnvelope_def lookupProp_def checkBinding_def exampleContext_def nonEmptyString_def memberOf_def)
  moreover have "c2spEnvelopeToEvent acceptingCrypto (sortMembers exampleEnvelope) = Inr (exampleRetirement, parseChainFields (sortMembers exampleEnvelope))"
    by (simp add: c2spEnvelopeToEvent_def exampleEnvelope_def lookupProp_def exampleRetirement_def parseC2spSignatures_def optionalSignature_def
        parseSignatureValue_def asString_def base64urlText_def isAlnum_def isUpper_def requiredC2spSignatureNames_def SUPPORTED_def signatureNamed_def
        isStr_def numEq_def asSafeInt_def dateFromSeconds_def MAX_SAFE_def dateOf_def parsePayload_def baseEvent_def BaseLogEvent.defs RetirementEvent.defs)
  ultimately show ?thesis by (simp add: parseC2spEventEntry_def exampleBytes_read)
qed

theorem parseC2spEventEntry_canonicalize_witness:
  "\<exists>chain. parseC2spEventEntry jsonPlatform acceptingCrypto exampleBytes exampleContext = Inr (exampleRetirement, chain) \<and>
     propOf chain ''seq'' = JNum (Fin (of_nat 3))"
  using parseC2spEventEntry_canonicalize [OF readsBack_json exampleBytes_parse exampleEnvelope_of exampleEnvelope_wf(1) exampleEntry]
  by (auto simp: chainNames_def chainMembers_def exampleContext_def exampleBytes_def optMember_def presentMember_def lookupProp_def)

end
