(* ===== verification/StreamExample.thy ===== *)
theory StreamExample
  imports MigrationHistory EventCodecExample
begin

text \<open>
  A log with the ISSUANCE of one identity, entered twice, verified on concrete inputs. The scenario shows
  that the hypotheses of the theorems about streams can hold.
\<close>

section \<open>The entry\<close>

definition streamCrypto :: crypto where
  "streamCrypto = acceptingCrypto\<lparr>hash256 := (\<lambda>bs. bs), joseThumbprint := (\<lambda>k. synchronousJwkThumbprint (\<lambda>bs. bs) k INVALID_EVIDENCE)\<rparr>"

definition sortedKey :: "jstring \<Rightarrow> jstring \<Rightarrow> json" where
  "sortedKey kid x = JObj [(js ''alg'', JStr (js ''EdDSA'')), (js ''crv'', JStr (js ''Ed25519'')), (js ''kid'', JStr kid),
     (js ''kty'', JStr (js ''OKP'')), (js ''x'', JStr x)]"

definition thumbOf :: "jstring \<Rightarrow> jstring" where
  "thumbOf x = toBase64Url (utf8 (stringifyMaterial [(''crv'', js ''Ed25519''), (''kty'', js ''OKP''), (''x'', x)]))"

definition issuanceMembers :: "(jstring \<times> json) list" where
  "issuanceMembers = [(js ''ek'', sortedKey (js ''e'') entityX), (js ''fqdn'', JStr (js ''a.example'')), (js ''gi'', JStr (js ''b'')),
     (js ''kind'', JStr (js ''dnsid.lifecycle'')), (js ''ku'', sortedKey (js ''o'') operationalX), (js ''log_origin'', JStr (js ''log.example'')),
     (js ''lr'', JStr (js ''c2sp-tlog:testnet:https://log.example#s'')), (js ''method'', JStr (js ''c2sp-tlog'')), (js ''seq'', JNum (Fin (of_nat 0)))]"

definition issuanceRest :: "(jstring \<times> json) list" where
  "issuanceRest = [(js ''stream_id'', JStr (js ''s'')), (js ''ts'', JNum (Fin (of_nat 7))), (js ''type'', JStr (js ''ISSUANCE'')), (js ''v'', JNum (Fin (of_nat 1)))]"

definition issuanceSigs :: json where
  "issuanceSigs = JObj [(js ''ae'', JObj [(js ''kid'', JStr (js ''e'')), (js ''sig'', JStr (js ''AQ''))]),
     (js ''op'', JObj [(js ''kid'', JStr (js ''o'')), (js ''sig'', JStr (js ''AQ''))])]"

definition issuanceEnvelope :: json where
  "issuanceEnvelope = JObj (issuanceMembers @ (js ''sigs'', issuanceSigs) # issuanceRest)"

definition issuanceUnsigned :: json where
  "issuanceUnsigned = JObj (issuanceMembers @ issuanceRest)"

definition issuanceEvent :: IssuanceEvent where
  "issuanceEvent = \<lparr>ev_signingKid = Some (js ''e''), ev_sig = Some (js ''AQ''), ev_operationalCountersig = Some (js ''AQ''),
     ev_newOperationalProof = None, ie_domain = js ''a.example'', ie_governanceId = js ''b'',
     ie_initialOperationalKid = Some (js ''o''), ie_initialOperationalAlg = Some (js ''EdDSA''),
     ie_initialOperationalPublicKey = sortedKey (js ''o'') operationalX, ie_initialOperationalThumbprint = Some (thumbOf operationalX),
     ie_initialEntityKid = Some (js ''e''), ie_initialEntityAlg = Some (js ''EdDSA''),
     ie_initialEntityPublicKey = sortedKey (js ''e'') entityX, ie_initialEntityThumbprint = Some (thumbOf entityX),
     ie_timestamp = Some 7000, ie_entityKey = None, ie_operationalKey = None, ie_entitySig = None, ie_operationalSig = None,
     ie_kid = None, ie_publicKey = JUndef, ie_thumbprint = None\<rparr>"

definition streamOptions :: StreamVerifierOptions where
  "streamOptions = C2spEventContext.extend
     \<lparr>cx_scope = Some (js ''testnet''), cx_logOrigin = Some (js ''log.example''), cx_streamId = Some (js ''s''),
      cx_lr = Some (js ''c2sp-tlog:testnet:https://log.example#s''), cx_seq = None, cx_prevEventId = None, cx_prevStateHash = None\<rparr>
     (StreamVerifierOptions.fields JUndef (Some (Fin 9000)) None None)"

definition issuanceBytes :: bytes where
  "issuanceBytes = utf8 (jsonText jsonPlatform issuanceEnvelope)"

lemma b64char_ascii: "i < 64 \<Longrightarrow> b64char i < 128"
  by (auto simp: b64char_def)

lemma toBase64Url_ascii: "isAscii (toBase64Url bs)"
  using toSextets_less [OF map_unat_bytes [of bs]] b64char_ascii by (fastforce simp: toBase64Url_sextets isAscii_def)

lemma toSextets_bound: "length (toSextets xs) \<le> 2 * length xs"
  by (induction xs rule: toSextets.induct) auto

lemma length_toBase64Url: "length (toBase64Url bs) \<le> 2 * length bs"
  using toSextets_bound [of "map unat bs"] by (simp add: toBase64Url_sextets)

lemma key_texts: "isAscii entityX" "length entityX \<le> 64" "isAscii operationalX" "length operationalX \<le> 64"
  using length_toBase64Url [of "9 # replicate 31 0"] length_toBase64Url [of "10 # replicate 31 0"]
  by (simp_all add: entityX_def operationalX_def toBase64Url_ascii)

lemma length_quoteUnits: "length (quoteUnits s) \<le> 6 * length s"
proof (induction s rule: quoteUnits.induct)
  case (3 h l s)
  have "length (quoteUnit False h) \<le> 6" by (simp add: quoteUnit_def unicodeEscape_def)
  then show ?case using 3 by auto
qed (auto simp: quoteUnit_def unicodeEscape_def)

lemma length_codePoints: "length (codePoints s) \<le> length s"
  by (induction s rule: codePoints.induct) auto

lemma length_utf8: "length (utf8 s) \<le> 4 * length s"
proof -
  have "length (utf8CodePoint c) \<le> 4" for c by (simp add: utf8CodePoint_def)
  then have "length (concat (map utf8CodePoint cs)) \<le> 4 * length cs" for cs by (induction cs) (auto intro: add_mono)
  then show ?thesis unfolding utf8_def using length_codePoints [of s] by (meson le_trans mult_le_mono2)
qed

lemma issuanceEnvelope_wf: "wfJson jsonPlatform issuanceEnvelope" "jsonHeight issuanceEnvelope \<le> MAX_JSON_DEPTH" "sortMembers issuanceEnvelope = issuanceEnvelope"
proof -
  have "wfJson jsonPlatform (sortedKey (js ''e'') entityX)" "wfJson jsonPlatform (sortedKey (js ''o'') operationalX)"
    using key_texts by (simp_all add: sortedKey_def validUnicode_ascii)
  then show "wfJson jsonPlatform issuanceEnvelope"
    using okNum_json [of 0] okNum_json [of 1] okNum_json [of 7] by (simp add: issuanceEnvelope_def issuanceMembers_def issuanceRest_def issuanceSigs_def)
  show "jsonHeight issuanceEnvelope \<le> MAX_JSON_DEPTH"
    by (simp add: issuanceEnvelope_def issuanceMembers_def issuanceRest_def issuanceSigs_def sortedKey_def MAX_JSON_DEPTH_def)
  show "sortMembers issuanceEnvelope = issuanceEnvelope"
    by (simp add: issuanceEnvelope_def issuanceMembers_def issuanceRest_def issuanceSigs_def sortedKey_def)
qed

lemma issuanceEntry_size: "assertEntrySize issuanceBytes = Inr ()"
proof -
  let ?t = "jsonText jsonPlatform issuanceEnvelope"
  have num: "numToString jsonPlatform (Fin (of_nat n)) = decimal n" for n by (simp add: jsonPlatform_def)
  have "length ?t \<le> 2000"
    using num [of 0] num [of 1] num [of 7] length_quoteUnits [of entityX] length_quoteUnits [of operationalX] key_texts
    by (simp add: issuanceEnvelope_def issuanceMembers_def issuanceRest_def issuanceSigs_def sortedKey_def quoteJson_def quoteUnit_def decimal_digit)
  moreover obtain s where "?t = 123 # s" by (simp add: issuanceEnvelope_def)
  then have "utf8 ?t \<noteq> []" by (simp add: utf8_Cons_ascii)
  ultimately show ?thesis using length_utf8 [of ?t] by (auto simp: issuanceBytes_def assertEntrySize_def MAX_ENTRY_BYTES_def)
qed

lemma issuanceBytes_read: "readEntry jsonPlatform issuanceBytes = Inr issuanceEnvelope"
  using readEntry_canonical [OF issuanceEnvelope_wf(1) _ issuanceEntry_size] canonicalBytes_text [OF issuanceEnvelope_wf(1,2)] issuanceEnvelope_wf(3)
  by (simp add: issuanceBytes_def)

lemma issuance_dropSigs: "dropSigs issuanceEnvelope = issuanceUnsigned"
  by (simp add: dropSigs_def issuanceEnvelope_def issuanceUnsigned_def issuanceMembers_def issuanceRest_def)

lemma issuanceUnsigned_wf: "wfJson jsonPlatform issuanceUnsigned" "jsonHeight issuanceUnsigned \<le> MAX_JSON_DEPTH" "sortMembers issuanceUnsigned = issuanceUnsigned"
proof -
  show "wfJson jsonPlatform issuanceUnsigned"
    using wfJson_filter [OF issuanceEnvelope_wf(1) [unfolded issuanceEnvelope_def], of "\<lambda>m. fst m \<noteq> js ''sigs''"] issuance_dropSigs
    by (simp only: dropSigs_def issuanceEnvelope_def spread.simps)
  show "jsonHeight issuanceUnsigned \<le> MAX_JSON_DEPTH"
    by (simp add: issuanceUnsigned_def issuanceMembers_def issuanceRest_def sortedKey_def MAX_JSON_DEPTH_def)
  show "sortMembers issuanceUnsigned = issuanceUnsigned"
    by (simp add: issuanceUnsigned_def issuanceMembers_def issuanceRest_def sortedKey_def)
qed

definition issuancePayloadBytes :: bytes where
  "issuancePayloadBytes = utf8 (jsonText jsonPlatform issuanceUnsigned)"

lemma issuanceBytes_signed: "signedC2spEntryBytes jsonPlatform issuanceBytes = Inr issuancePayloadBytes"
  using signed_readEntry [OF issuanceBytes_read] canonicalBytes_text [OF issuanceUnsigned_wf(1,2)]
  by (simp add: issuance_dropSigs issuancePayloadBytes_def)

lemma jsonOfBytes_text:
  assumes "wfJson P v" and "jsonHeight v \<le> MAX_JSON_DEPTH"
  shows "jsonOfBytes P (utf8 (jsonText P v)) = Inr (sortMembers v)"
  using parse_canonical [OF assms]
  by (auto simp: jsonOfBytes_def parseJsonNoDuplicates_def parseJsonNoDuplicateMembers_def bindE_eq_Inr catchE_eq_Inr split: if_splits)

lemma propOf_sortedKey:
  "propOf (sortedKey kid x) ''kid'' = JStr kid" "propOf (sortedKey kid x) ''alg'' = JStr (js ''EdDSA'')" "propOf (sortedKey kid x) ''x'' = JStr x"
  "propOf (sortedKey kid x) ''kty'' = JStr (js ''OKP'')" "propOf (sortedKey kid x) ''crv'' = JStr (js ''Ed25519'')"
  by (simp_all add: sortedKey_def lookupProp_def)

lemma stream_thumb: "x \<noteq> [] \<Longrightarrow> joseThumbprint streamCrypto (sortedKey kid x) = Inr (thumbOf x)"
  by (simp add: streamCrypto_def synchronousJwkThumbprint_def jwkMaterial_def sortedKey_def lookupProp_def isStr_def thumbOf_def)

lemma thumbOf_distinct: "thumbOf entityX \<noteq> thumbOf operationalX"
proof
  let ?m = "\<lambda>x. stringifyMaterial [(''crv'', js ''Ed25519''), (''kty'', js ''OKP''), (''x'', x)]"
  define pre where "pre = js ''{\"crv\":\"Ed25519\",\"kty\":\"OKP\",\"x\":'' @ [34]"
  have mat: "?m x = pre @ quoteUnits x @ [34, 125]" for x
    by (simp add: pre_def stringifyMaterial_def quoteJson_def quoteUnit_def)
  have valid: "validUnicode (?m x)" if "isAscii x" for x
  proof -
    have "validUnicode (quoteUnits x)" by (rule validUnicode_quoteUnits [OF validUnicode_ascii [OF that]])
    then show ?thesis unfolding mat using validUnicode_append [of "quoteUnits x" "[34, 125]"] by (simp add: pre_def)
  qed
  assume "thumbOf entityX = thumbOf operationalX"
  then have "utf8 (?m entityX) = utf8 (?m operationalX)" unfolding thumbOf_def by (metis toBase64Url_roundtrip sum.inject(2))
  then have "?m entityX = ?m operationalX" using utf8Text_utf8 valid key_texts by (metis option.inject)
  then have "quoteUnits entityX @ 34 # [125] = quoteUnits operationalX @ 34 # [125]" unfolding mat by simp
  moreover have "\<forall>c \<in> set x. c < 0x10000" if "isAscii x" for x using that by (force simp: isAscii_def)
  ultimately show False using parseString_quoteUnits [of entityX "[125]"] parseString_quoteUnits [of operationalX "[125]"] key_texts example_distinct by simp
qed

lemma issuance_valid: "validatePublicFields jsonPlatform issuanceEnvelope (C2spEventContext.truncate streamOptions) = Inr ()"
  using example_name
    by (simp add: validatePublicFields_def issuanceEnvelope_def issuanceMembers_def issuanceRest_def lookupProp_def checkBinding_def streamOptions_def
        C2spEventContext.defs nonEmptyString_def memberOf_def)

lemma issuance_sigs: "parseC2spSignatures issuanceSigs (js ''ISSUANCE'') True = Inr (noSignatures\<lparr>cs_ae := Some \<lparr>sv_kid = js ''e'', sv_sig = js ''AQ''\<rparr>,
      cs_op := Some \<lparr>sv_kid = js ''o'', sv_sig = js ''AQ''\<rparr>\<rparr>)"
    by (simp add: parseC2spSignatures_def issuanceSigs_def optionalSignature_def lookupProp_def parseSignatureValue_def asString_def
        base64urlText_def isAlnum_def isUpper_def requiredC2spSignatureNames_def signatureNamed_def noSignatures_def)

lemma issuance_fields: "propOf issuanceEnvelope ''ek'' = sortedKey (js ''e'') entityX" "propOf issuanceEnvelope ''ku'' = sortedKey (js ''o'') operationalX"
      "propOf issuanceEnvelope ''sigs'' = issuanceSigs" "propOf issuanceEnvelope ''gi'' = JStr (js ''b'')"
      "propOf issuanceEnvelope ''fqdn'' = JStr (js ''a.example'')" "propOf issuanceEnvelope ''ts'' = JNum (Fin (of_nat 7))"
      "propOf issuanceEnvelope ''type'' = JStr (js ''ISSUANCE'')" "propOf issuanceEnvelope ''v'' = JNum (Fin 1)"
      "propOf issuanceEnvelope ''kind'' = JStr (js ''dnsid.lifecycle'')" "propOf issuanceEnvelope ''method'' = JStr (js ''c2sp-tlog'')"
    by (simp_all add: issuanceEnvelope_def issuanceMembers_def issuanceRest_def lookupProp_def)

lemma issuanceBytes_parse:
  "parseC2spEventEntry jsonPlatform streamCrypto issuanceBytes (C2spEventContext.truncate streamOptions) =
     Inr (ISSUANCE issuanceEvent, JObj [(js ''seq'', JNum (Fin (of_nat 0)))])"
proof -
  note valid = issuance_valid
  have keys: "asJwk (sortedKey (js ''e'') entityX) = Inr (sortedKey (js ''e'') entityX)"
      "asJwk (sortedKey (js ''o'') operationalX) = Inr (sortedKey (js ''o'') operationalX)"
    using example_distinct by (simp_all add: asJwk_def asString_def sortedKey_def lookupProp_def assertSupportedLifecycleJwk_def isStr_def
        nonEmptyMember_def nonEmptyString_def getp_def nullish_def)
  note sigs = issuance_sigs
  note members = issuance_fields
  have chain: "parseChainFields issuanceEnvelope = JObj [(js ''seq'', JNum (Fin (of_nat 0)))]"
    by (simp add: parseChainFields_def CHAIN_FIELDS_def issuanceEnvelope_def issuanceMembers_def issuanceRest_def lookupProp_def)
  have time: "asSafeInt (JNum (Fin (of_nat 7))) = Inr 7" "dateFromSeconds 7 = Inr (Some 7000)"
    by (simp_all add: asSafeInt_def dateFromSeconds_def MAX_SAFE_def dateOf_def)
  obtain ms where ms: "issuanceEnvelope = JObj ms" by (simp add: issuanceEnvelope_def)
  have "parseIssuance streamCrypto issuanceEnvelope (noSignatures\<lparr>cs_ae := Some \<lparr>sv_kid = js ''e'', sv_sig = js ''AQ''\<rparr>,
      cs_op := Some \<lparr>sv_kid = js ''o'', sv_sig = js ''AQ''\<rparr>\<rparr>) (js ''a.example'') (Some 7000) = Inr (ISSUANCE issuanceEvent)"
    using thumbOf_distinct example_distinct
    by (simp add: parseIssuance_def members keys stream_thumb memberOf_def kidOf_def asString_def propOf_sortedKey issuanceEvent_def noSignatures_def del: js_Cons)
  then have "c2spEnvelopeToEvent streamCrypto issuanceEnvelope = Inr (ISSUANCE issuanceEvent, JObj [(js ''seq'', JNum (Fin (of_nat 0)))])"
    using sigs members chain time unfolding ms by (simp add: c2spEnvelopeToEvent_def asString_def isStr_def numEq_def SUPPORTED_def parsePayload_def del: propOf.simps)
  then show ?thesis using valid by (simp add: parseC2spEventEntry_def issuanceBytes_read)
qed

section \<open>The lifecycle\<close>

definition issuanceItem :: VerifiedLifecycleEvent where
  "issuanceItem = \<lparr>vl_index = 0, vl_leafHash = leafHash (hash256 streamCrypto) issuanceBytes, vl_bytes = issuanceBytes,
     vl_event = ISSUANCE issuanceEvent, vl_chain = JObj [(js ''seq'', JNum (Fin (of_nat 0)))]\<rparr>"

definition quietRun :: lifecycle_run where
  "quietRun = \<lparr>lu_aborted = (\<lambda>_. False), lu_migration = Running, lu_budget = Running, lu_late = False\<rparr>"

lemma stream_encoding: "publicKeyEncodingValid (sortedKey kid entityX) = Inr True" "publicKeyEncodingValid (sortedKey kid operationalX) = Inr True"
  by (simp_all add: publicKeyEncodingValid_def isStr_def decodeCoordinate_def entityX_def operationalX_def toBase64Url_roundtrip propOf_sortedKey
      yAtLeastP_def ED25519_SMALL_ORDER_def byteHex_def hexDigit_def del: propOf.simps)

lemma stream_verify: "publicKeyEncodingValid (sortedKey kid x) = Inr True \<Longrightarrow> verifyWithKey streamCrypto (Inr bs) s (sortedKey kid x) None"
  by (simp add: verifyWithKey_def streamCrypto_def acceptingCrypto_def exampleCrypto_def getVerifyAlgorithm_def jwkSignatureAlg_def getp_def
      nullish_def isStr_def SIGNING_ALGS_def isAlgConsistentWithKey_def sortedKey_def lookupProp_def)

lemma stream_sg: "fromBase64Url (js ''AQ'') = Inr [1]"
  using toBase64Url_roundtrip [of "[1]"] by (simp only: example_sg)

lemma issuance_signedBy:
  "signedBy jsonPlatform streamCrypto (sortedKey kid entityX) (Some (js ''AQ'')) issuanceItem"
  "signedBy jsonPlatform streamCrypto (sortedKey kid operationalX) (Some (js ''AQ'')) issuanceItem"
  using stream_verify [OF stream_encoding(1)] stream_verify [OF stream_encoding(2)] issuanceBytes_signed stream_sg
  by (auto simp: signedBy_def issuanceItem_def simp del: js_Cons)

lemma issuance_supported: "assertSupportedLifecycleJwk (sortedKey (js ''e'') entityX) = Inr (sortedKey (js ''e'') entityX)"
      "assertSupportedLifecycleJwk (sortedKey (js ''o'') operationalX) = Inr (sortedKey (js ''o'') operationalX)"
    using example_distinct by (simp_all add: sortedKey_def lookupProp_def assertSupportedLifecycleJwk_def isStr_def
        nonEmptyMember_def nonEmptyString_def getp_def nullish_def)

lemma thumbprint_nonempty: "toBase64Url (utf8 (stringifyMaterial ms)) \<noteq> []"
  using base64url.enc_eq_iff [of "utf8 (stringifyMaterial ms)" "[]"] by (auto simp: stringifyMaterial_def utf8_Cons_ascii toBase64Url_sextets)

lemma issuance_verified: "verifyIssuance jsonPlatform streamCrypto streamOptions issuanceItem issuanceEvent (js ''AQ'') =
    Inr (sortedKey (js ''e'') entityX, sortedKey (js ''o'') operationalX, issuanceState issuanceEvent)"
proof -
  note keys = issuance_supported
  have "assertIssuanceKeyMetadata streamCrypto issuanceEvent = Inr ()"
    using keys example_distinct by (simp add: assertIssuanceKeyMetadata_def issuanceEvent_def stream_thumb propOf_sortedKey memberOf_def del: js_Cons)
  moreover have "thumbOf x \<noteq> []" for x by (simp add: thumbOf_def thumbprint_nonempty)
  then have "assertC2spIssuanceEvent issuanceEvent = Inr ()"
    by (simp add: assertC2spIssuanceEvent_def issuanceEvent_def present_def sortedKey_def)
  moreover have "assertDistinctLifecycleKeys streamCrypto (sortedKey (js ''e'') entityX) (sortedKey (js ''o'') operationalX) (js ''ISSUANCE'') = Inr ()"
    using thumbOf_distinct example_distinct by (simp add: assertDistinctLifecycleKeys_def stream_thumb)
  moreover have "verifyEventSignature jsonPlatform streamCrypto issuanceItem (js ''AQ'') (sortedKey (js ''e'') entityX) m = Inr ()"
      "verifyEventSignature jsonPlatform streamCrypto issuanceItem (js ''AQ'') (sortedKey (js ''o'') operationalX) m = Inr ()" for m
    unfolding verifyEventSignature_Inr by (rule issuance_signedBy)+
  moreover have "so_signerKey streamOptions = JUndef" "ie_initialEntityPublicKey issuanceEvent = sortedKey (js ''e'') entityX"
      "ie_initialOperationalPublicKey issuanceEvent = sortedKey (js ''o'') operationalX" "ev_operationalCountersig issuanceEvent = Some (js ''AQ'')"
    by (simp_all add: streamOptions_def C2spEventContext.defs StreamVerifierOptions.defs issuanceEvent_def)
  ultimately show ?thesis by (simp add: verifyIssuance_def present_def del: js_Cons)
qed

lemma issuance_lifecycle: "verifyLifecycle jsonPlatform streamCrypto streamOptions quietRun [issuanceItem] = Inr ()"
proof -
  have "eventSig (ISSUANCE issuanceEvent) = Some (js ''AQ'')" by (simp add: eventSig_def issuanceEvent_def BaseLogEvent.truncate_def)
  moreover have "checkTime streamOptions (ISSUANCE issuanceEvent) = Inr ()"
    by (simp add: checkTime_def checkMigrationFields_def issuanceEvent_def streamOptions_def C2spEventContext.defs StreamVerifierOptions.defs laterThan_def)
  moreover have "checkChain jsonPlatform streamCrypto initialVars issuanceItem = Inr ()"
    by (simp add: checkChain_def initialVars_def issuanceItem_def assertFirstChainFields_def lookupProp_def numEq_def)
  moreover have "vl_event issuanceItem = ISSUANCE issuanceEvent" by (simp add: issuanceItem_def)
  ultimately have "\<exists>v. lifecycleStep jsonPlatform streamCrypto streamOptions Running initialVars (False, issuanceItem) = Inr v"
    using issuance_verified by (simp add: lifecycleStep_def Let_def checkOrder_def present_def initialVars_def del: js_Cons)
  moreover have "so_timeoutMs streamOptions = None" by (simp add: streamOptions_def C2spEventContext.defs StreamVerifierOptions.defs)
  ultimately show ?thesis
    by (auto simp: verifyLifecycle_def verifyLifecycleWithinBudget_def quietRun_def turns_def withVerificationBudget_def validTimeout_def)
qed

theorem verifyLifecycle_sound_witness: "\<exists>ek ok st. accepted jsonPlatform streamCrypto streamOptions [issuanceItem] ek ok st"
  by (rule verifyLifecycle_sound [OF issuance_lifecycle])

lemma issuance_fromEntry: "fromEntry jsonPlatform streamCrypto issuanceItem"
  using issuanceBytes_parse by (auto simp: fromEntry_def issuanceItem_def)

theorem lifecycle_head_commits_witness:
  "map (\<lambda>x. signedC2spEntryBytes jsonPlatform (vl_bytes x)) [issuanceItem] = map (\<lambda>x. signedC2spEntryBytes jsonPlatform (vl_bytes x)) [issuanceItem]"
  by (rule lifecycle_head_commits [OF readsBack_json issuance_lifecycle issuance_lifecycle])
    (use issuance_fromEntry issuanceBytes_signed in \<open>auto simp: eventIdOf_def issuanceItem_def streamCrypto_def intro: inj_onI\<close>)

section \<open>The stream\<close>

lemma issuance_candidate: "readCandidate jsonPlatform streamOptions (js ''a.example'') issuanceBytes = Inr (Some (issuancePayloadBytes, issuanceUnsigned))"
proof -
  have ae: "parseSignatureValue (propOf issuanceSigs ''ae'') = Inr \<lparr>sv_kid = js ''e'', sv_sig = js ''AQ''\<rparr>"
    by (simp add: issuanceSigs_def lookupProp_def parseSignatureValue_def asString_def base64urlText_def isAlnum_def isUpper_def)
  obtain ms ss where ms: "issuanceEnvelope = JObj ms" "issuanceSigs = JObj ss" by (simp add: issuanceEnvelope_def issuanceSigs_def)
  have "parseC2spAuthorization jsonPlatform issuanceBytes (C2spEventContext.truncate streamOptions) =
      Inr \<lparr>au_type = js ''ISSUANCE'', au_domain = js ''a.example'', au_kid = js ''e'', au_signature = js ''AQ''\<rparr>"
    using ae issuance_fields issuance_valid unfolding ms
    by (simp add: parseC2spAuthorization_def issuanceBytes_read ms asString_def isStr_def numEq_def SUPPORTED_def del: propOf.simps)
  moreover have "jsonOfBytes jsonPlatform issuancePayloadBytes = Inr issuanceUnsigned"
    using jsonOfBytes_text [OF issuanceUnsigned_wf(1,2)] issuanceUnsigned_wf(3) by (simp add: issuancePayloadBytes_def)
  ultimately show ?thesis by (simp add: readCandidate_def issuanceBytes_signed)
qed

definition quietEntry :: entry_run where
  "quietEntry = \<lparr>er_aborted = False, er_lifecycle = quietRun, er_migration = Running\<rparr>"

definition quietStream :: stream_run where
  "quietStream = \<lparr>sr_entries = (\<lambda>_. quietEntry), sr_final = quietRun, sr_budget = Running, sr_late = False\<rparr>"

definition firstEntry :: IndexedEntry where
  "firstEntry = \<lparr>en_index = 0, en_bytes = issuanceBytes\<rparr>"

definition secondEntry :: IndexedEntry where
  "secondEntry = \<lparr>en_index = 1, en_bytes = issuanceBytes\<rparr>"

definition afterIssuance :: stream_vars where
  "afterIssuance = acceptCandidate initialStream issuanceItem (c2spEventId (\<lambda>bs. bs) issuancePayloadBytes) (b64url issuancePayloadBytes)
     (sortedKey (js ''e'') entityX, sortedKey (js ''o'') operationalX)"

lemma stream_first: "streamStep jsonPlatform streamCrypto streamOptions (js ''a.example'') initialStream (quietEntry, firstEntry) = Inr afterIssuance"
proof -
  have H: "hash256 streamCrypto = (\<lambda>bs. bs)" by (simp add: streamCrypto_def)
  have wrap: "wrapMigration streamOptions w = streamOptions" for w
    by (simp add: wrapMigration_def streamOptions_def C2spEventContext.defs StreamVerifierOptions.defs)
  have item: "\<lparr>vl_index = 0, vl_leafHash = leafHash (\<lambda>bs. bs) issuanceBytes, vl_bytes = issuanceBytes,
      vl_event = ISSUANCE issuanceEvent, vl_chain = JObj [(js ''seq'', JNum (Fin 0))]\<rparr> = issuanceItem"
    by (simp add: issuanceItem_def H)
  have none: "sv_selected initialStream = []" "sv_applied initialStream i = None" for i by (simp_all add: initialStream_def)
  have quiet: "\<not> er_aborted quietEntry" "en_bytes firstEntry = issuanceBytes" by (simp_all add: quietEntry_def firstEntry_def)
  have dom: "eventDomain (ISSUANCE issuanceEvent) = js ''a.example''" by (simp add: issuanceEvent_def)
  have keys: "genesisKeys streamOptions issuanceItem = (sortedKey (js ''e'') entityX, sortedKey (js ''o'') operationalX)"
    by (simp add: genesisKeys_def issuanceItem_def issuanceEvent_def)
  have "genesisStep jsonPlatform streamCrypto streamOptions initialStream quietEntry issuanceItem i b =
      Inr (acceptCandidate initialStream issuanceItem i b (sortedKey (js ''e'') entityX, sortedKey (js ''o'') operationalX))" for i b
    by (simp add: genesisStep_def wrap quietEntry_def issuance_lifecycle keys del: js_Cons)
  then have "candidateStep jsonPlatform streamCrypto streamOptions (js ''a.example'') initialStream quietEntry firstEntry i b =
      Inr (acceptCandidate initialStream issuanceItem i b (sortedKey (js ''e'') entityX, sortedKey (js ''o'') operationalX))" for i b
    by (simp add: candidateStep_def firstEntry_def issuanceBytes_parse dom H item none del: js_Cons eventDomain.simps)
  then show ?thesis
    by (simp add: streamStep_def Let_def issuance_candidate H afterIssuance_def none quiet del: js_Cons)
qed

lemma stream_second: "streamStep jsonPlatform streamCrypto streamOptions (js ''a.example'') afterIssuance (quietEntry, secondEntry) = Inr afterIssuance"
proof -
  have "hash256 streamCrypto = (\<lambda>bs. bs)" by (simp add: streamCrypto_def)
  then show ?thesis
    by (simp add: streamStep_def Let_def issuance_candidate afterIssuance_def acceptCandidate_def quietEntry_def secondEntry_def del: js_Cons)
qed

lemma issuanceBytes_small: "length issuanceBytes \<le> MAX_ENTRY_BYTES"
  using issuanceEntry_size by (auto simp: assertEntrySize_def split: if_splits)

lemma stream_turns: "entryTurns (sr_entries quietStream) [firstEntry, secondEntry] = [(quietEntry, firstEntry), (quietEntry, secondEntry)]"
  by (simp add: entryTurns_def quietStream_def firstEntry_def secondEntry_def)

lemma stream_verified: "verifyStreamLifecycle jsonPlatform streamCrypto streamOptions (js ''a.example'') quietStream [firstEntry, secondEntry] = Inr [issuanceItem]"
proof -
  have "so_timeoutMs streamOptions = None" by (simp add: streamOptions_def C2spEventContext.defs StreamVerifierOptions.defs)
  moreover have "sr_final quietStream = quietRun" "sr_budget quietStream = Running" "\<not> sr_late quietStream" by (simp_all add: quietStream_def)
  moreover have "sv_selected afterIssuance = [issuanceItem]" by (simp add: afterIssuance_def acceptCandidate_def initialStream_def)
  moreover have "length (en_bytes firstEntry) \<le> MAX_ENTRY_BYTES" "length (en_bytes secondEntry) \<le> MAX_ENTRY_BYTES"
    using issuanceBytes_small by (simp_all add: firstEntry_def secondEntry_def)
  ultimately show ?thesis
    by (simp add: verifyStreamLifecycle_def verifyStreamWithinBudget_def stream_turns stream_first stream_second issuance_lifecycle
        MAX_ENTRY_BYTES_def withVerificationBudget_def validTimeout_def del: js_Cons)
qed

theorem verifyStreamLifecycle_selects_witness: "\<exists>ek ok st. accepted jsonPlatform streamCrypto streamOptions [issuanceItem] ek ok st"
  using verifyStreamLifecycle_selects [OF stream_verified] by blast



lemma stream_rfc7638: "rfc7638 streamCrypto"
  unfolding rfc7638_def
proof (intro allI impI)
  fix key t
  assume "joseThumbprint streamCrypto key = Inr t"
  then have "synchronousJwkThumbprint (\<lambda>bs. bs) key INVALID_EVIDENCE = Inr t" by (simp add: streamCrypto_def)
  then show "boundKey (hash256 streamCrypto) key t"
    by (cases key) (auto simp: boundKey_def synchronousJwkThumbprint_def streamCrypto_def thumbprint_nonempty jwkMaterial_def isStr_def lookupProp_def split: option.splits if_splits)
qed

theorem verifyStreamLifecycle_refines_history_witness:
  "\<exists>snap. snapshotAt (hash256 streamCrypto) \<lparr>dl_domain = js ''a.example'', dl_events = map vl_event [issuanceItem]\<rparr> (Some 8000) = Inr snap \<and>
     ds_historicalState snap = statusAfter (vl_event (last [issuanceItem])) \<and> ds_activeKey snap = snd (keysAfter streamOptions [issuanceItem]) \<and>
     keyThumb streamCrypto (ds_activeKey snap) (ds_activeKeyThumbprint snap)"
proof (rule verifyStreamLifecycle_refines_history [OF stream_rfc7638 stream_verified])
  show "isIssuance (vl_event (hd [issuanceItem]))" "\<forall>x \<in> set [issuanceItem]. notAfter (Some 8000) (vl_event x)"
    by (simp_all add: issuanceItem_def isIssuance_def notAfter_def issuanceEvent_def dateAfter_def)
qed

section \<open>A migration\<close>

definition migrationEvent :: MigrationEvent where
  "migrationEvent = \<lparr>ev_signingKid = Some (js ''e''), ev_sig = Some (js ''AQ''), ev_operationalCountersig = None, ev_newOperationalProof = None,
     mg_domain = js ''a.example'', mg_previousLog = js ''c2sp-tlog:testnet:https://log.example#s'', mg_newLog = js ''c2sp-tlog:testnet:https://new.example#s'',
     mg_finalEntryRef = js ''c2sp-tlog:testnet:https://log.example#s.0'', mg_timestamp = Some 8000\<rparr>"

definition migrationResult :: MigrationVerificationResult where
  "migrationResult = \<lparr>mr_entityKey = sortedKey (js ''e'') entityX, mr_activeOperationalKey = sortedKey (js ''o'') operationalX,
     mr_priorHistory = [ISSUANCE issuanceEvent], mr_priorHistoryReferences = None\<rparr>"

lemma issuance_history:
  "\<exists>s. history (hash256 streamCrypto) initialState [ISSUANCE issuanceEvent] s \<and> lc_state s = Some ACTIVE \<and> lc_activeKeyThumbprint s = thumbOf operationalX"
proof -
  from verifyLifecycle_accepted [OF issuance_lifecycle] obtain ek ok st where acc: "accepted jsonPlatform streamCrypto streamOptions [issuanceItem] ek ok st" by blast
  have item: "vl_event issuanceItem = ISSUANCE issuanceEvent" by (simp add: issuanceItem_def)
  from accepted_keys [OF acc] have "ok = sortedKey (js ''o'') operationalX"
    by (simp add: keysAfter_def genesisKeys_def item) (simp add: issuanceEvent_def)
  moreover from accepted_history [OF stream_rfc7638 acc] obtain s where "history (hash256 streamCrypto) initialState [ISSUANCE issuanceEvent] s"
      "lc_state s = Some ACTIVE" "keyThumb streamCrypto ok (lc_activeKeyThumbprint s)"
    using issuance_fromEntry by (auto simp: item isIssuance_def)
  ultimately show ?thesis using stream_thumb [of operationalX "js ''o''"] example_distinct by (auto simp: keyThumb_def)
qed

lemma migration_stitched:
  "stitchVerifiedMigrationHistory jsonPlatform U streamCrypto (js ''a.example'') [MIGRATION migrationEvent] migrationResult =
     Inr [ISSUANCE issuanceEvent, MIGRATION migrationEvent]"
proof -
  let ?H = "hash256 streamCrypto" and ?log = "\<lambda>es. \<lparr>dl_domain = js ''a.example'', dl_events = es\<rparr>"
  obtain s where s: "history ?H initialState [ISSUANCE issuanceEvent] s" "lc_state s = Some ACTIVE" "lc_activeKeyThumbprint s = thumbOf operationalX"
    using issuance_history by blast
  have "lifecycle ?H s (MIGRATION migrationEvent) s" using s(2) by (simp add: migrationEvent_def)
  then have s': "history ?H initialState [ISSUANCE issuanceEvent, MIGRATION migrationEvent] s"
    using s(1) history_snoc_iff [of ?H initialState "[ISSUANCE issuanceEvent]" "MIGRATION migrationEvent" s] by auto
  have wf: "list_all (wfEvent (js ''a.example'')) [ISSUANCE issuanceEvent, MIGRATION migrationEvent]"
    by (simp add: wfEvent_def issuanceEvent_def migrationEvent_def)
  have latest: "list_all (notAfter (latestTimestamp es)) es" for es using latestTimestamp_notAfter [of es] by (simp add: list_all_iff)
  have "list_all (wfEvent (js ''a.example'')) [ISSUANCE issuanceEvent]" using wf by simp
  from snapshotAt_all [OF this latest s(1,2)] snapshotAt_all [OF wf latest s' s(2)] obtain snap snap' where
    snap: "snapshotAt ?H (?log [ISSUANCE issuanceEvent]) (latestTimestamp [ISSUANCE issuanceEvent]) = Inr snap"
      "ds_historicalState snap = ACTIVE" "ds_activeKeyThumbprint snap = thumbOf operationalX"
      "snapshotAt ?H (?log [ISSUANCE issuanceEvent, MIGRATION migrationEvent]) (latestTimestamp [ISSUANCE issuanceEvent, MIGRATION migrationEvent]) = Inr snap'"
    using s(3) by auto
  have key: "priorEntityKey issuanceEvent = sortedKey (js ''e'') entityX" "truthy (sortedKey (js ''e'') entityX)"
    by (simp_all add: priorEntityKey_def issuanceEvent_def slotJwk_def orElse_def nullish_def sortedKey_def)
  have "checkPriorEntity streamCrypto migrationResult = Inr ()"
    using key stream_thumb [of entityX "js ''e''"] example_distinct by (simp add: checkPriorEntity_def migrationResult_def isIssuance_def del: js_Cons)
  then show ?thesis using snap stream_thumb [of operationalX "js ''o''"] example_distinct
    by (simp add: stitchVerifiedMigrationHistory_def Let_def migrationResult_def sameMigration_def del: js_Cons)
qed

theorem stitchVerifiedMigrationHistory_sound_witness:
  "list_all (wfEvent (js ''a.example'')) [ISSUANCE issuanceEvent, MIGRATION migrationEvent]"
  using stitchVerifiedMigrationHistory_sound [OF migration_stitched] by blast

end
