(* ===== verification/HttpExample.thy ===== *)
theory HttpExample
  imports HttpSound StreamExample Config
begin

text \<open>Signed messages on concrete inputs, with an instance of the structured field package that knows the fields of the example.\<close>

section \<open>A request\<close>

definition coveredNames :: "ComponentIdentifier list" where
  "coveredNames = [Named (js ''@method''), Named (js ''@authority''), Named (js ''@target-uri'')]"

definition innerText :: jstring where
  "innerText = 40 # 34 # js ''@method'' @ 34 # 32 # 34 # js ''@authority'' @ 34 # 32 # 34 # js ''@target-uri'' @ [34, 41]"

definition keyidParam :: "jstring \<times> bare_item" where
  "keyidParam = (js ''keyid'', SfString (js ''a.example#o''))"

definition createdParam :: "jstring \<times> bare_item" where
  "createdParam = (js ''created'', SfNumber (Fin 7))"

definition keyidText :: jstring where
  "keyidText = js '';keyid='' @ 34 # js ''a.example#o'' @ [34]"

definition createdText :: jstring where
  "createdText = js '';created=7''"

definition inputField :: jstring where
  "inputField = js ''sig1='' @ innerText @ keyidText @ createdText"

definition fieldError :: js_error where
  "fieldError = PlainError ''structured field''"

definition requestLib :: http_lib where
  "requestLib =
     \<lparr>parseStructuredDictionary = (\<lambda>s.
        if s = js ''sig1=:AQ==:'' then Inr [(js ''sig1'', SfItem (SfBytes [1], []))]
        else if s = inputField then Inr [(js ''sig1'', SfInner (map componentItem coveredNames) [keyidParam, createdParam])]
        else if s = js ''x=()'' @ keyidText then Inr [(js ''x'', SfInner [] [keyidParam])]
        else if s = js ''x=()'' @ createdText then Inr [(js ''x'', SfInner [] [createdParam])]
        else if starts_with (js ''x='' @ innerText) s then Inr [(js ''x'', SfInner (map componentItem coveredNames) [])]
        else Inl fieldError),
      serializeStructuredItem = (\<lambda>(v, ps). case v of SfString n \<Rightarrow> if Named n \<in> set coveredNames \<and> ps = [] then Inr (34 # n @ [34]) else Inl fieldError | _ \<Rightarrow> Inl fieldError),
      serializeStructuredInnerList = (\<lambda>items ps. if items = map componentItem coveredNames \<and> ps = [] then Inr innerText else Inl fieldError),
      serializeStructuredParameters = (\<lambda>ps. if ps = [keyidParam] then Inr keyidText else if ps = [createdParam] then Inr createdText else Inl fieldError),
      searchEntries = (\<lambda>_. []), roundSum = (+)\<rparr>"

lemma requestLib_plain: "sfPlain requestLib"
  by (auto simp: sfPlain_def requestLib_def innerText_def keyidText_def createdText_def coveredNames_def split: bare_item.splits if_splits)

lemma requestLib_reads: "sfReads requestLib"
proof -
  have "starts_with (js ''x='' @ innerText) (js ''x='' @ innerText @ t)" for t by (simp add: starts_with_def)
  moreover have "js ''x='' @ innerText @ t \<noteq> js ''sig1=:AQ==:''" "js ''x='' @ innerText @ t \<noteq> inputField"
      "js ''x='' @ innerText @ t \<noteq> js ''x=()'' @ keyidText" "js ''x='' @ innerText @ t \<noteq> js ''x=()'' @ createdText" for t
    by (simp_all add: innerText_def inputField_def)
  ultimately show ?thesis by (auto simp: sfReads_def requestLib_def simp del: js_Cons split: if_splits)
qed

definition signedRequest :: http_request where
  "signedRequest = \<lparr>rq_method = js ''GET'', rq_url = js ''https://a.example/'',
     rq_headers = [js ''signature-input'' \<mapsto> inputField, js ''signature'' \<mapsto> js ''sig1=:AQ==:''],
     rq_body = None, rq_bodyUsed = False\<rparr>"

definition httpProfile :: HttpSignaturesProfile where
  "httpProfile = \<lparr>hp_domain = js ''a.example'', hp_hasKeyProvider = True, hp_config = \<lparr>hc_maxAge = None, hc_clockSkew = None\<rparr>\<rparr>"

definition httpOptions :: HttpVerificationOptions where
  "httpOptions = \<lparr>ho_peerCert = None, ho_requiredComponents = None, ho_requiredTag = None, ho_timeoutMs = None\<rparr>"

definition httpIdentity :: VerifiedDomain where
  "httpIdentity = exampleVD\<lparr>vd_jwks := \<lparr>jwks_keys = [sortedKey (js ''o'') operationalX]\<rparr>\<rparr>"

definition httpRun :: candidate_run where
  "httpRun = \<lparr>cr_aborted = False, cr_now = 9, cr_resolve = (\<lambda>d _. if d = js ''a.example'' then Inr httpIdentity else Inl fieldError), cr_wait = Running, cr_reads = (\<lambda>_. Running)\<rparr>"

definition requestParams :: SignatureParams where
  "requestParams = \<lparr>sp_label = js ''sig1'', sp_components = coveredNames, sp_keyId = Some (js ''a.example#o''), sp_alg = None, sp_created = Some 7,
     sp_expires = None, sp_nonce = None, sp_tag = None, sp_parameters = Some [keyidParam, createdParam]\<rparr>"

lemma request_plain: "plainMessage asciiPlatform (RequestMessage signedRequest, None)"
  by (simp add: plainMessage_def signedRequest_def asciiPlatform_def asciiUrl_def urlText_def starts_with_def asciiLower_def isUpper_def inputField_def innerText_def
      keyidText_def createdText_def isAlnum_def isLower_def isDigit_def Let_def)

lemma covered_valid: "validateComponents coveredNames = Inr ()"
  by (simp add: validateComponents_def coveredNames_def validateComponentIdentifier_def KNOWN_DERIVED_COMPONENTS_def sameComponent_def)

lemma request_split: "splitDictionary inputField = Inr [inputField]"
  by (simp add: splitDictionary_def inputField_def innerText_def keyidText_def createdText_def Let_def trim_def isWhite_def)

lemma scan_segment:
  "scanParameterSegments (59 # rest) = trim (take (Suc (length rest - length (segmentRest rest))) (59 # rest)) # scanParameterSegments (segmentRest rest)"
  "scanParameterSegments [] = []"
  by (simp_all add: scanParameterSegments.simps [of "59 # rest"] scanParameterSegments.simps [of "[]"])

lemma request_segments: "scanParameterSegments (keyidText @ createdText) = [keyidText, createdText]"
  by (simp add: scan_segment keyidText_def createdText_def segmentRest_def isKeyUnit_def isLower_def isDigit_def starts_with_def Let_def
      trim_def isWhite_def)

lemma request_parameters: "parseSignatureParameterOccurrences requestLib (afterEquals inputField) False = Inr [keyidParam, createdParam]"
proof -
  have "parametersText (afterEquals inputField) = keyidText @ createdText"
    by (simp add: afterEquals_def parametersText_def inputField_def innerText_def keyidText_def createdText_def trim_def isWhite_def)
  moreover have "segmentParameter requestLib False keyidText = Inr keyidParam" "segmentParameter requestLib False createdText = Inr createdParam"
    by (simp_all add: segmentParameter_def requestLib_def inputField_def keyidText_def createdText_def keyidParam_def createdParam_def innerText_def)
  ultimately show ?thesis by (simp add: parseSignatureParameterOccurrences_def request_segments)
qed

lemma request_input: "parseSignatureInput requestLib inputField = Inr [(js ''sig1'', requestParams)]"
proof -
  have bound: "assertHeaderBound inputField = Inr ()" by (simp add: assertHeaderBound_def inputField_def innerText_def keyidText_def createdText_def)
  have dict: "parseStructuredDictionary requestLib inputField = Inr [(js ''sig1'', SfInner (map componentItem coveredNames) [keyidParam, createdParam])]"
    by (simp add: requestLib_def) (simp add: inputField_def innerText_def)
  have comps: "mapE parseComponentItem (map componentItem coveredNames) = Inr coveredNames" "length coveredNames = 3"
    by (simp_all add: coveredNames_def parseComponentItem_def componentItem_def toStructuredParams_def fromStructuredParams_def)
  have "applySignatureInputParams [] \<lparr>sp_label = js ''sig1'', sp_components = coveredNames, sp_keyId = None, sp_alg = None, sp_created = None, sp_expires = None,
      sp_nonce = None, sp_tag = None, sp_parameters = Some [keyidParam, createdParam]\<rparr> [keyidParam, createdParam] = Inr requestParams"
    by (simp add: requestParams_def applyParam_def keyidParam_def createdParam_def signatureStringParam_def signatureIntegerParam_def KNOWN_PARAMETERS_def)
  then have "parseInputMember requestLib ((js ''sig1'', SfInner (map componentItem coveredNames) [keyidParam, createdParam]), inputField) = Inr (js ''sig1'', requestParams)"
    using comps covered_valid request_parameters by (simp add: parseInputMember_def del: js_Cons)
  then show ?thesis by (simp add: parseSignatureInput_def bound request_split dict del: js_Cons)
qed

lemma request_signature: "parseSignature requestLib (js ''sig1=:AQ==:'') = Inr [(js ''sig1'', [1])]"
proof -
  have "splitDictionary (js ''sig1=:AQ==:'') = Inr [js ''sig1=:AQ==:'']" by (simp add: splitDictionary_def Let_def trim_def isWhite_def)
  moreover have "parseStructuredDictionary requestLib (js ''sig1=:AQ==:'') = Inr [(js ''sig1'', SfItem (SfBytes [1], []))]" by (simp add: requestLib_def)
  moreover have "assertHeaderBound (js ''sig1=:AQ==:'') = Inr ()" by (simp add: assertHeaderBound_def)
  ultimately show ?thesis by (simp add: parseSignature_def signatureMember_def del: js_Cons)
qed

lemma mapE_total: "(\<And>x. x \<in> set xs \<Longrightarrow> \<exists>v. f x = Inr v) \<Longrightarrow> \<exists>vs. mapE f xs = Inr vs"
  by (induction xs) (auto, metis bindE_Inr)

lemma covered_line:
  assumes "c \<in> set coveredNames" and "urlParse P (rq_url req) = Some u" and "serializeStructuredItem L (SfString (componentName c), []) = Inr i"
  shows "\<exists>v. baseLine P L (RequestMessage req, None) c = Inr v"
proof -
  have c: "validateComponentIdentifier c = Inr ()" "\<not> isReq c" "componentName c \<in> set KNOWN_DERIVED_COMPONENTS" "componentName c \<noteq> js ''@status''"
      "componentParams c = []" "componentName c \<in> {js ''@method'', js ''@authority'', js ''@target-uri''}"
    using assms(1) by (auto simp: coveredNames_def validateComponentIdentifier_def KNOWN_DERIVED_COMPONENTS_def isReq_def paramOf_def)
  then have "\<exists>v. derivedValue P L req u c = Inr v" unfolding derivedValue_def Let_def by (auto simp del: js_Cons)
  then show ?thesis using c assms(2,3)
    by (auto simp: baseLine_def serializeComponentIdentifier_def componentItem_def toStructuredParams_def extractComponentValue_def componentSource_def Let_def simp del: js_Cons)
qed

lemma covered_base:
  assumes "urlParse P (rq_url req) = Some u" and "\<And>c. c \<in> set coveredNames \<Longrightarrow> \<exists>i. serializeStructuredItem L (SfString (componentName c), []) = Inr i"
    and "sp_components params = coveredNames" and "serializeSigParams L params = Inr t"
  shows "\<exists>base. buildSignatureInput P L (RequestMessage req, None) params = Inr base"
proof -
  obtain vs where "mapE (baseLine P L (RequestMessage req, None)) coveredNames = Inr vs"
    using mapE_total [of coveredNames "baseLine P L (RequestMessage req, None)"] covered_line [OF _ assms(1)] assms(2) by metis
  then show ?thesis using assms(3,4) covered_valid by (simp add: buildSignatureInput_def signatureBase_def)
qed

definition exampleUrl :: url where
  "exampleUrl = \<lparr>url_protocol = js ''https:'', url_hostname = js ''a.example'', url_port = [], url_pathname = js ''/'', url_search = [], url_hash = [],
     url_username = [], url_password = []\<rparr>"

lemma exampleUrl_parse: "urlParse asciiPlatform (js ''https://a.example/'') = Some exampleUrl"
  by (simp add: exampleUrl_def asciiPlatform_def asciiUrl_def starts_with_def asciiLower_def isUpper_def isAlnum_def isLower_def isDigit_def Let_def)

lemma request_base: "\<exists>base. buildSignatureInput asciiPlatform requestLib (RequestMessage signedRequest, None) requestParams = Inr base"
proof (rule covered_base)
  show "urlParse asciiPlatform (rq_url signedRequest) = Some exampleUrl" using exampleUrl_parse by (simp add: signedRequest_def del: js_Cons)
  show "\<exists>i. serializeStructuredItem requestLib (SfString (componentName c), []) = Inr i" if "c \<in> set coveredNames" for c
    using that by (auto simp: requestLib_def coveredNames_def)
  have "checkedParameters [] [keyidParam, createdParam] = Inr [keyidParam, createdParam]"
    by (simp add: keyidParam_def createdParam_def KNOWN_PARAMETERS_def)
  then show "serializeSigParams requestLib requestParams = Inr (innerText @ keyidText @ createdText)"
    by (simp add: serializeSigParams_def signatureParameterList_def requestParams_def requestLib_def) (simp add: keyidParam_def createdParam_def)
qed (simp add: requestParams_def)

lemma name_example: "normalizeFQDN asciiPlatform (js ''a.example'') agent = Inr (js ''a.example'')"
proof (rule normalizeFQDN_fixed)
  show "wfFqdn (js ''a.example'')" by (simp add: eval_names)
  show "asciiCategories asciiPlatform" by (auto simp: asciiCategories_def asciiPlatform_def eval_names)
  show "plainHost asciiPlatform (js ''a.example'') = Inr (js ''a.example'')"
    by (simp add: plainHost_def asciiPlatform_def asciiUrl_def eval_names)
qed (simp add: MAX_AGENT_FQDN_OCTETS_def)

lemma http_key: "keyById (vd_jwks httpIdentity) (js ''o'') = Inr (Some (sortedKey (js ''o'') operationalX))"
  by (simp add: keyById_def httpIdentity_def getp_def nullish_def sortedKey_def lookupProp_def)

lemma http_alg: "jwkSignatureAlg (sortedKey (js ''o'') operationalX) = Inr (js ''EdDSA'')"
  by (simp add: jwkSignatureAlg_def getp_def nullish_def isStr_def SIGNING_ALGS_def isAlgConsistentWithKey_def sortedKey_def lookupProp_def)

lemma http_verify: "verifyWithKey streamCrypto (Inr bs) [1] (sortedKey (js ''o'') operationalX) (Some (js ''EdDSA''))"
  using http_alg stream_encoding(2) [of "js ''o''"]
  by (simp add: verifyWithKey_def streamCrypto_def acceptingCrypto_def exampleCrypto_def getVerifyAlgorithm_def del: js_Cons)

lemma request_candidate: "verifySignatureCandidate asciiPlatform requestLib streamCrypto httpProfile httpOptions signedRequest httpRun requestParams [1] = Inr httpIdentity"
proof -
  obtain base where base: "buildSignatureInput asciiPlatform requestLib (RequestMessage signedRequest, None) requestParams = Inr base" using request_base by blast
  then obtain s where s: "signatureBase asciiPlatform requestLib (RequestMessage signedRequest, None) requestParams = Inr s" "base = utf8 s"
    by (auto simp: buildSignatureInput_def bindE_eq_Inr)
  have "\<forall>c \<in> set s. c < 256" using signatureBase_parts [OF requestLib_plain request_plain s(1)] join_plain by blast
  then have rb: "requestBase asciiPlatform requestLib signedRequest requestParams = Inr s"
    using base s(2) textDecode_plain by (simp add: requestBase_def)
  have cov: "\<forall>c \<in> set (requiredOf httpOptions). covers (sp_components requestParams) c"
    by (simp add: requiredOf_def httpOptions_def requestParams_def coveredNames_def covers_def sameComponent_def)
  have id: "candidateKeyId asciiPlatform requestParams = Inr (js ''a.example'', js ''o'')"
    using name_example by (simp add: candidateKeyId_def requestParams_def parseKeyId_def)
  have fresh: "checkFreshness requestLib httpProfile 9 7 None = Inr ()"
    by (simp add: checkFreshness_def maxAgeSeconds_def clockSkewSeconds_def limitOf_def httpProfile_def requestLib_def
        DEFAULT_SIGNATURE_MAX_AGE_SECONDS_def DEFAULT_CLOCK_SKEW_SECONDS_def)
  have resolve: "cr_resolve httpRun (js ''a.example'') (ho_peerCert httpOptions) = Inr httpIdentity" by (simp add: httpRun_def)
  have content: "checkRequestContent requestLib streamCrypto httpRun signedRequest (sp_components requestParams) = Inr ()"
    by (simp add: checkRequestContent_def signedRequest_def hasComponentNamed_def requestParams_def coveredNames_def)
  have "sp_created requestParams = Some 7" "sp_expires requestParams = None" "sp_alg requestParams = None" "sp_keyId requestParams = Some (js ''a.example#o'')"
      "js ''a.example#o'' \<noteq> []" "cr_now httpRun = 9" "cr_wait httpRun = Running" by (simp_all add: requestParams_def httpRun_def)
  then show ?thesis using rb cov id fresh resolve content http_key http_alg http_verify
    by (simp add: verifySignatureCandidate_def joseAlgToHttpSigAlg_def del: js_Cons)
qed

lemma request_verified: "verifySignedHttpRequest asciiPlatform requestLib streamCrypto httpProfile httpOptions Running False (\<lambda>_. httpRun) signedRequest = Inr httpIdentity"
proof -
  have fields: "headersGet (rq_headers signedRequest) ''Signature-Input'' = Some inputField" "headersGet (rq_headers signedRequest) ''Signature'' = Some (js ''sig1=:AQ==:'')"
      "inputField \<noteq> []" "js ''sig1=:AQ==:'' \<noteq> []"
    by (simp_all add: headersGet_def signedRequest_def asciiLower_def isUpper_def inputField_def)
  have "selectSignatureCandidates [(js ''sig1'', requestParams)] [(js ''sig1'', [1])] (ho_requiredTag httpOptions) = Inr [requestParams]"
    by (simp add: selectSignatureCandidates_def httpOptions_def requestParams_def)
  moreover have "sp_label requestParams = js ''sig1''" "\<not> cr_aborted httpRun" "ho_timeoutMs httpOptions = None"
    by (simp_all add: requestParams_def httpRun_def httpOptions_def)
  ultimately show ?thesis using fields request_input request_signature request_candidate
    by (simp add: verifySignedHttpRequest_def verifyRequestWithinBudget_def withVerificationBudget_def validTimeout_def del: js_Cons)
qed

theorem verifySignedHttpRequest_sound_witness:
  "\<exists>params rawSig. authenticRequest asciiPlatform requestLib streamCrypto httpProfile httpOptions signedRequest httpRun params rawSig httpIdentity"
  using verifySignedHttpRequest_sound [OF requestLib_plain request_plain request_verified] by blast

theorem buildSignatureInput_unambiguous_witness:
  "\<exists>base. buildSignatureInput asciiPlatform requestLib (RequestMessage signedRequest, None) requestParams = Inr base \<and>
     mapE (extractComponentValue asciiPlatform requestLib (RequestMessage signedRequest, None)) coveredNames =
     mapE (extractComponentValue asciiPlatform requestLib (RequestMessage (signedRequest\<lparr>rq_body := Some []\<rparr>), None)) coveredNames"
proof -
  obtain base where base: "buildSignatureInput asciiPlatform requestLib (RequestMessage signedRequest, None) requestParams = Inr base" using request_base by blast
  have plain: "plainMessage asciiPlatform (RequestMessage (signedRequest\<lparr>rq_body := Some []\<rparr>), None)" using request_plain by (simp add: plainMessage_def)
  have "derivedValue asciiPlatform requestLib (signedRequest\<lparr>rq_body := Some []\<rparr>) u c = derivedValue asciiPlatform requestLib signedRequest u c"
      "fieldValue requestLib (RequestMessage (signedRequest\<lparr>rq_body := Some []\<rparr>)) c = fieldValue requestLib (RequestMessage signedRequest) c" for u c
    by (simp_all add: derivedValue_def Let_def fieldValue_def del: js_Cons)
  then have "extractComponentValue asciiPlatform requestLib (RequestMessage (signedRequest\<lparr>rq_body := Some []\<rparr>), None) c =
      extractComponentValue asciiPlatform requestLib (RequestMessage signedRequest, None) c" for c
    by (simp add: extractComponentValue_def componentSource_def Let_def split: option.split)
  then have base': "buildSignatureInput asciiPlatform requestLib (RequestMessage (signedRequest\<lparr>rq_body := Some []\<rparr>), None) requestParams = Inr base"
    using base by (simp add: buildSignatureInput_def signatureBase_def baseLine_def [abs_def])
  show ?thesis
    using buildSignatureInput_unambiguous [OF requestLib_plain requestLib_reads request_plain plain base base'] base by (simp add: requestParams_def)
qed

section \<open>A signed request\<close>

definition constantLib :: http_lib where
  "constantLib = \<lparr>parseStructuredDictionary = (\<lambda>_. Inr [(js ''sig1'', SfItem (SfBytes [1], []))]), serializeStructuredItem = (\<lambda>_. Inr (js ''c'')),
     serializeStructuredInnerList = (\<lambda>_ _. Inr (js ''()'')), serializeStructuredParameters = (\<lambda>_. Inr (js '';p'')), searchEntries = (\<lambda>_. []), roundSum = (+)\<rparr>"

definition unsignedRequest :: http_request where
  "unsignedRequest = \<lparr>rq_method = js ''GET'', rq_url = js ''https://a.example/'', rq_headers = Map.empty, rq_body = None, rq_bodyUsed = False\<rparr>"

definition signingRun :: signing_run where
  "signingRun = \<lparr>su_signingKey = Inr (sortedKey (js ''o'') operationalX), su_sign = (\<lambda>_. Inr [1]), su_now = 7, su_random = replicate 32 0, su_reads = (\<lambda>_. Running)\<rparr>"

definition signingOptions :: HttpSigningOptions where
  "signingOptions = \<lparr>hs_additionalComponents = [], hs_label = None, hs_tag = None, hs_expiresInSeconds = None, hs_responseSignature = None\<rparr>"

definition signedParams :: SignatureParams where
  "signedParams = \<lparr>sp_label = js ''sig1'', sp_components = coveredNames, sp_keyId = Some (js ''a.example#o''), sp_alg = Some (js ''ed25519''), sp_created = Some 7,
     sp_expires = None, sp_nonce = Some (toBase64Url (replicate 32 0)), sp_tag = None, sp_parameters = None\<rparr>"

lemma signing_prepared: "prepareSignature streamCrypto httpProfile signingRun signingOptions unsignedRequest = Inr (unsignedRequest, signedParams)"
proof -
  have "su_signingKey signingRun = Inr (sortedKey (js ''o'') operationalX)" "su_now signingRun = 7" "su_random signingRun = replicate 32 0"
      "rq_body unsignedRequest = None" "hs_additionalComponents signingOptions = []" "hs_label signingOptions = None" "hs_tag signingOptions = None"
      "expiresAt httpProfile 7 (hs_expiresInSeconds signingOptions) = Inr None" "hp_hasKeyProvider httpProfile" "hp_domain httpProfile = js ''a.example''"
      "generateNonce 32 (replicate 32 0) = Inr (toBase64Url (replicate 32 0))" "rebuildRequest unsignedRequest (rq_headers unsignedRequest) None = unsignedRequest"
      "propOf (sortedKey (js ''o'') operationalX) ''kid'' = JStr (js ''o'')" "35 \<notin> set (js ''o'')" "joseAlgToHttpSigAlg (js ''EdDSA'') = Inr (js ''ed25519'')"
      "js ''a.example'' @ 35 # js ''o'' = js ''a.example#o''"
    by (simp_all add: signingRun_def unsignedRequest_def signingOptions_def expiresAt_def httpProfile_def generateNonce_def MAX_SAFE_def rebuildRequest_def
        propOf_sortedKey joseAlgToHttpSigAlg_def)
  then show ?thesis using http_alg
    by (simp add: prepareSignature_def signedParams_def coveredNames_def DEFAULT_HTTP_SIGNATURE_LABEL_def del: js_Cons)
qed

lemma constant_members:
  "h (js ''signature-input'') = None \<Longrightarrow>
     setDictionaryMember constantLib h ''Signature-Input'' (js ''sig1'') (js ''();p;p;p;p'') = Inr (h(js ''signature-input'' \<mapsto> js ''sig1=();p;p;p;p''))"
  "h (js ''signature'') = None \<Longrightarrow>
     setDictionaryMember constantLib h ''Signature'' (js ''sig1'') (58 # toStdBase64 [1] @ [58]) = Inr (h(js ''signature'' \<mapsto> js ''sig1=:AQ==:''))"
  by (simp_all add: setDictionaryMember_def constantLib_def headersGet_def headersSet_def asciiLower_def isUpper_def byteString_def stripHttpSpace_def
      toStdBase64_def b64char_def Let_def)

lemma request_signed: "\<exists>sent. signRequest asciiPlatform constantLib streamCrypto httpProfile signingRun [] signingOptions unsignedRequest = Inr sent"
proof -
  have params: "serializeSigParams constantLib signedParams = Inr (js ''();p;p;p;p'')"
    by (simp add: serializeSigParams_def signatureParameterList_def signedParams_def constantLib_def stringParam_def integerParam_def)
  have "\<exists>base. buildSignatureInput asciiPlatform constantLib (RequestMessage unsignedRequest, None) signedParams = Inr base"
    by (rule covered_base [OF _ _ _ params, of _ _ exampleUrl]) (use exampleUrl_parse in \<open>simp_all add: unsignedRequest_def constantLib_def signedParams_def del: js_Cons\<close>)
  then obtain base where base: "buildSignatureInput asciiPlatform constantLib (RequestMessage unsignedRequest, None) signedParams = Inr base" by blast
  have run: "su_signingKey signingRun = Inr (sortedKey (js ''o'') operationalX)" "su_sign signingRun base = Inr [1]" "sp_label signedParams = js ''sig1''"
      "rq_headers unsignedRequest = Map.empty" "hs_responseSignature signingOptions = None" "js ''signature'' \<noteq> js ''signature-input''"
    by (simp_all add: signingRun_def signedParams_def unsignedRequest_def signingOptions_def)
  then have "\<exists>h. signHttpMessage asciiPlatform constantLib streamCrypto (RequestMessage unsignedRequest, None) signedParams (su_signingKey signingRun) (su_sign signingRun) =
      Inr (RequestMessage (unsignedRequest\<lparr>rq_headers := h\<rparr>))"
    using base params http_alg http_verify constant_members by (auto simp: signHttpMessage_def withHeaders_def simp del: js_Cons)
  then show ?thesis using signing_prepared run(5) by (auto simp: signRequest_def negotiate_def checkNegotiatedLimits_def)
qed

theorem signRequest_reconstructed_witness:
  "\<exists>sent params base. signRequest asciiPlatform constantLib streamCrypto httpProfile signingRun [] signingOptions unsignedRequest = Inr sent \<and>
     sp_created params = Some 7 \<and> rq_url sent = rq_url unsignedRequest \<and>
     buildSignatureInput asciiPlatform constantLib (RequestMessage sent, None) params = Inr base"
proof -
  obtain sent where sent: "signRequest asciiPlatform constantLib streamCrypto httpProfile signingRun [] signingOptions unsignedRequest = Inr sent"
    using request_signed by blast
  have "su_now signingRun = 7" by (simp add: signingRun_def)
  moreover have "\<not> namesSignature (hs_additionalComponents signingOptions)" by (simp add: signingOptions_def namesSignature_def)
  ultimately show ?thesis using signRequest_reconstructed [OF sent] sent by metis
qed

section \<open>A negotiated response\<close>

definition responseNonce :: jstring where
  "responseNonce = toBase64Url (replicate 33 0)"

definition acceptParams :: sf_params where
  "acceptParams = [(js ''created'', SfBool True), (js ''expires'', SfBool True), (js ''nonce'', SfString responseNonce)]"

definition responseItems :: "sf_item list" where
  "responseItems = map componentItem (responseComponents (js ''sig1''))"

definition responseParams :: sf_params where
  "responseParams = [(js ''created'', SfNumber (Fin 7)), (js ''expires'', SfNumber (Fin 60)), (js ''nonce'', SfString responseNonce), (js ''alg'', SfString (js ''ed25519'')),
     (js ''keyid'', SfString (js ''a.example#o''))]"

definition acceptField :: jstring where
  "acceptField = js '';;;;;;;;;;;''"

definition responseField :: jstring where
  "responseField = js ''sig1=();a;b;c;d;e''"

definition responseLib :: http_lib where
  "responseLib = \<lparr>parseStructuredDictionary = (\<lambda>s.
       if s = acceptField then Inr [(js ''sig1'', SfInner responseItems acceptParams)]
       else if s = responseField then Inr [(js ''sig1'', SfInner responseItems responseParams)]
       else if s = js ''x=();a'' then Inr [(js ''x'', SfInner [] [responseParams ! 0])]
       else if s = js ''x=();b'' then Inr [(js ''x'', SfInner [] [responseParams ! 1])]
       else if s = js ''x=();c'' then Inr [(js ''x'', SfInner [] [responseParams ! 2])]
       else if s = js ''x=();d'' then Inr [(js ''x'', SfInner [] [responseParams ! 3])]
       else if s = js ''x=();e'' then Inr [(js ''x'', SfInner [] [responseParams ! 4])]
       else if s = js ''digest'' then Inr [(js ''sha-256'', SfItem (SfBytes [], []))]
       else Inr [(js ''sig1'', SfItem (SfBytes [1], []))]),
     serializeStructuredItem = (\<lambda>_. Inr (js ''c'')), serializeStructuredInnerList = (\<lambda>_ _. Inr (js ''()'')), serializeStructuredParameters = (\<lambda>_. Inr (js '';p'')),
     searchEntries = (\<lambda>_. []), roundSum = (+)\<rparr>"

definition answeredRequest :: http_request where
  "answeredRequest = \<lparr>rq_method = js ''GET'', rq_url = js ''https://a.example/'',
     rq_headers = [js ''accept-signature'' \<mapsto> acceptField, js ''signature-input'' \<mapsto> js ''q'', js ''signature'' \<mapsto> js ''q''], rq_body = None, rq_bodyUsed = False\<rparr>"

definition signedResponse :: http_response where
  "signedResponse = \<lparr>rs_status = 204, rs_statusText = [],
     rs_headers = [js ''signature-input'' \<mapsto> responseField, js ''signature'' \<mapsto> js ''q'', js ''content-digest'' \<mapsto> js ''digest'', js ''cache-control'' \<mapsto> js ''no-store''],
     rs_body = None, rs_bodyUsed = False\<rparr>"

definition responseRun :: verification_run where
  "responseRun = \<lparr>vu_now = 9, vu_now2 = 9, vu_nowMs = 100, vu_resolve = (\<lambda>d _. if d = js ''a.example'' then Inr httpIdentity else Inl fieldError), vu_wait = Running,
     vu_reads = (\<lambda>_. Running), vu_budget = Running, vu_late = False\<rparr>"

definition responseOptions :: ResponseSignatureOptions where
  "responseOptions = \<lparr>ro_expectedDomain = js ''a.example'', ro_additionalComponents = []\<rparr>"

lemma response_components_valid: "validateResponseComponents (responseComponents (js ''sig1'')) = Inr ()"
  by (simp add: validateResponseComponents_def validateComponents_def responseComponents_def reqComponent_def reqMember_def validateComponentIdentifier_def
      KNOWN_DERIVED_COMPONENTS_def sameComponent_def paramOf_def nonEmptyParam_def allowedParams_def checkResponseComponent_def isReq_def
      isLowercaseHttpFieldName_def isLower_def Let_def)

lemma response_parsed: "mapE parseComponentItem responseItems = Inr (responseComponents (js ''sig1''))" "length responseItems = 9"
  by (simp_all add: responseItems_def responseComponents_def reqComponent_def reqMember_def parseComponentItem_def componentItem_def toStructuredParams_def
      fromStructuredParams_def)

lemma response_covers: "c \<in> set (responseComponents (js ''sig1'')) \<Longrightarrow> sameComponent c c"
  by (auto simp: responseComponents_def reqComponent_def reqMember_def sameComponent_def)

lemma nonce_valid: "checkNonce (Some (SfString responseNonce)) = Inr responseNonce"
proof -
  have l: "length responseNonce = 44" using Config.length_toSextets [of "map unat (replicate 33 0 :: bytes)"] by (simp add: responseNonce_def toBase64Url_sextets)
  then have "fromBase64Url responseNonce = nonceBytes responseNonce" by (simp add: fromBase64Url_def nonceBytes_def)
  then have "nonceBytes responseNonce = Inr (replicate 33 0)" using toBase64Url_roundtrip by (simp add: responseNonce_def)
  moreover have "\<forall>c \<in> set responseNonce. isAlnum c \<or> c = 95 \<or> c = 45"
    using toBase64Url_text [of "replicate 33 0"] by (auto simp: responseNonce_def base64urlText_def)
  ultimately show ?thesis using l by (auto simp: checkNonce_def MAX_RESPONSE_NONCE_LENGTH_def responseNonce_def)
qed

definition exampleNegotiation :: Negotiation where
  "exampleNegotiation = \<lparr>ng_label = js ''sig1'', ng_components = responseComponents (js ''sig1''), ng_nonce = responseNonce\<rparr>"

lemma negotiation_parsed: "parseNegotiation responseLib acceptField = Inr exampleNegotiation"
proof -
  have "splitDictionary acceptField = Inr [acceptField]" "assertHeaderBound acceptField = Inr ()" "countParameters acceptField False False = 11"
    by (simp_all add: splitDictionary_def acceptField_def assertHeaderBound_def Let_def trim_def isWhite_def)
  moreover have "parseStructuredDictionary responseLib acceptField = Inr [(js ''sig1'', SfInner responseItems acceptParams)]" by (simp add: responseLib_def)
  moreover have "\<not> (\<exists>v \<in> set (memberValues (SfInner responseItems acceptParams)). onlyRfc9651 v)"
    by (simp add: responseItems_def acceptParams_def responseComponents_def reqComponent_def reqMember_def componentItem_def toStructuredParams_def)
  ultimately have dict: "parseDictionaryField responseLib acceptField = Inr [(js ''sig1'', SfInner responseItems acceptParams)]"
    by (simp add: parseDictionaryField_def del: js_Cons)
  have label: "requestedSignatureMember (responseComponents (js ''sig1'')) = Inr (js ''sig1'')"
    by (simp add: requestedSignatureMember_def memberKeys_def responseComponents_def reqComponent_def reqMember_def isReq_def paramOf_def)
  have "sum_list (map (\<lambda>i. length (snd i)) responseItems) = 8" "length acceptParams = 3" "map_of acceptParams (js ''created'') = Some (SfBool True)"
      "map_of acceptParams (js ''expires'') = Some (SfBool True)" "map_of acceptParams (js ''nonce'') = Some (SfString responseNonce)"
    by (simp_all add: responseItems_def acceptParams_def responseComponents_def reqComponent_def reqMember_def componentItem_def toStructuredParams_def)
  moreover have "\<forall>c \<in> set (responseComponents (js ''sig1'')). covers (responseComponents (js ''sig1'')) c"
    using response_covers by (auto simp: covers_def simp del: js_Cons)
  ultimately show ?thesis
    using dict label response_parsed response_components_valid nonce_valid \<open>countParameters acceptField False False = 11\<close>
    by (simp add: parseNegotiation_def exampleNegotiation_def del: js_Cons)
qed

definition answerParams :: SignatureParams where
  "answerParams = \<lparr>sp_label = js ''sig1'', sp_components = responseComponents (js ''sig1''), sp_keyId = Some (js ''a.example#o''), sp_alg = Some (js ''ed25519''),
     sp_created = Some 7, sp_expires = Some 60, sp_nonce = Some responseNonce, sp_tag = None, sp_parameters = Some responseParams\<rparr>"

lemma response_segments: "scanParameterSegments (js '';a;b;c;d;e'') = [js '';a'', js '';b'', js '';c'', js '';d'', js '';e'']"
  by (simp add: scan_segment segmentRest_def isKeyUnit_def isLower_def isDigit_def starts_with_def Let_def trim_def isWhite_def)

lemma response_parameters: "parseSignatureParameterOccurrences responseLib (afterEquals responseField) b = Inr responseParams"
proof -
  have "parametersText (afterEquals responseField) = js '';a;b;c;d;e''" by (simp add: afterEquals_def parametersText_def responseField_def trim_def isWhite_def)
  moreover have "segmentParameter responseLib b (js '';a'') = Inr (responseParams ! 0)" "segmentParameter responseLib b (js '';b'') = Inr (responseParams ! 1)"
      "segmentParameter responseLib b (js '';c'') = Inr (responseParams ! 2)" "segmentParameter responseLib b (js '';d'') = Inr (responseParams ! 3)"
      "segmentParameter responseLib b (js '';e'') = Inr (responseParams ! 4)"
    by (simp_all add: segmentParameter_def responseLib_def acceptField_def responseField_def responseParams_def)
  moreover have "[responseParams ! 0, responseParams ! 1, responseParams ! 2, responseParams ! 3, responseParams ! 4] = responseParams" by (simp add: responseParams_def)
  ultimately show ?thesis by (simp add: parseSignatureParameterOccurrences_def response_segments del: js_Cons)
qed

lemma response_split: "splitDictionary responseField = Inr [responseField]" "splitDictionary (js ''q'') = Inr [js ''q'']" "splitDictionary (js ''digest'') = Inr [js ''digest'']"
  by (simp_all add: splitDictionary_def responseField_def Let_def trim_def isWhite_def)

lemma response_input: "parseSignatureInput responseLib responseField = Inr [(js ''sig1'', answerParams)]"
proof -
  have bound: "assertHeaderBound responseField = Inr ()" by (simp add: assertHeaderBound_def responseField_def)
  have dict: "parseStructuredDictionary responseLib responseField = Inr [(js ''sig1'', SfInner responseItems responseParams)]"
    by (simp add: responseLib_def responseField_def acceptField_def)
  have "applySignatureInputParams [] \<lparr>sp_label = js ''sig1'', sp_components = responseComponents (js ''sig1''), sp_keyId = None, sp_alg = None, sp_created = None,
      sp_expires = None, sp_nonce = None, sp_tag = None, sp_parameters = Some responseParams\<rparr> responseParams = Inr answerParams"
    by (simp add: answerParams_def applyParam_def responseParams_def signatureStringParam_def signatureIntegerParam_def KNOWN_PARAMETERS_def)
  moreover have "validateComponents (responseComponents (js ''sig1'')) = Inr ()"
    using response_components_valid by (auto simp: validateResponseComponents_def bindE_eq_Inr simp del: js_Cons split: if_splits)
  ultimately have "parseInputMember responseLib ((js ''sig1'', SfInner responseItems responseParams), responseField) = Inr (js ''sig1'', answerParams)"
    using response_parsed response_parameters by (simp add: parseInputMember_def del: js_Cons)
  then show ?thesis by (simp add: parseSignatureInput_def bound response_split dict del: js_Cons)
qed

lemma response_signature: "parseSignature responseLib (js ''q'') = Inr [(js ''sig1'', [1])]"
proof -
  have "parseStructuredDictionary responseLib (js ''q'') = Inr [(js ''sig1'', SfItem (SfBytes [1], []))]" "assertHeaderBound (js ''q'') = Inr ()"
    by (simp_all add: responseLib_def acceptField_def responseField_def assertHeaderBound_def)
  then show ?thesis by (simp add: parseSignature_def signatureMember_def response_split del: js_Cons)
qed

lemma response_digest: "parseSha256ContentDigest responseLib (js ''digest'') (responseComponents (js ''sig1'')) = Inr []"
proof -
  have "parseStructuredDictionary responseLib (js ''digest'') = Inr [(js ''sha-256'', SfItem (SfBytes [], []))]" "assertHeaderBound (js ''digest'') = Inr ()"
    by (simp_all add: responseLib_def acceptField_def responseField_def assertHeaderBound_def)
  then have "parseDictionaryField responseLib (js ''digest'') = Inr [(js ''sha-256'', SfItem (SfBytes [], []))]"
    by (simp add: parseDictionaryField_def response_split del: js_Cons)
  moreover have "\<not> (\<exists>c \<in> set (responseComponents (js ''sig1'')). otherDigestKey c)"
    by (simp add: responseComponents_def reqComponent_def reqMember_def otherDigestKey_def paramOf_def)
  ultimately show ?thesis by (simp add: parseSha256ContentDigest_def del: js_Cons)
qed

lemma no_store: "hasNoStore (Some (js ''no-store''))"
  by (simp add: hasNoStore_def noStoreLoop.simps directiveAt_def isWhite_def isTokenUnit_def isAlnum_def isLower_def isUpper_def isDigit_def starts_with_def
      asciiLower_def Let_def)

lemma validateFrom_each: "validateFrom before cs = Inr () \<Longrightarrow> c \<in> set cs \<Longrightarrow> validateComponentIdentifier c = Inr ()"
  by (induction cs arbitrary: before) (auto simp: bindE_eq_Inr split: if_splits)

lemma response_value:
  assumes "c \<in> set (responseComponents (js ''sig1''))"
  shows "\<exists>v. extractComponentValue asciiPlatform responseLib (ResponseMessage signedResponse, Some answeredRequest) c = Inr v"
proof -
  let ?m = "(ResponseMessage signedResponse, Some answeredRequest)"
  have url: "urlParse asciiPlatform (rq_url answeredRequest) = Some exampleUrl" using exampleUrl_parse by (simp add: answeredRequest_def del: js_Cons)
  have valid: "validateComponentIdentifier c = Inr ()"
    using response_components_valid assms
    by (auto simp: validateResponseComponents_def validateComponents_def bindE_eq_Inr simp del: js_Cons split: if_splits intro: validateFrom_each)
  have cases: "c = Named (js ''@status'') \<or> c \<in> {reqComponent ''@method'', reqComponent ''@authority'', reqComponent ''@target-uri''} \<or>
      c \<in> {reqComponent ''accept-signature'', reqMember ''signature-input'' (js ''sig1''), reqMember ''signature'' (js ''sig1'')} \<or>
      c \<in> {Named (js ''content-digest''), Named (js ''cache-control'')}"
    using assms by (auto simp: responseComponents_def simp del: js_Cons)
  consider "c = Named (js ''@status'')" | "c \<in> {reqComponent ''@method'', reqComponent ''@authority'', reqComponent ''@target-uri''}"
    | "c \<in> {reqComponent ''accept-signature'', reqMember ''signature-input'' (js ''sig1''), reqMember ''signature'' (js ''sig1'')}"
    | "c \<in> {Named (js ''content-digest''), Named (js ''cache-control'')}" using cases by blast
  then show ?thesis
  proof cases
    case 1
    then show ?thesis using valid by (simp add: extractComponentValue_def componentSource_def isReq_def paramOf_def)
  next
    case 2
    then have "componentSource ?m c = Inr (RequestMessage answeredRequest)" "componentName c \<in> {js ''@method'', js ''@authority'', js ''@target-uri''}"
      by (auto simp: componentSource_def isReq_def paramOf_def reqComponent_def)
    moreover from this(2) have "\<exists>v. derivedValue asciiPlatform responseLib answeredRequest exampleUrl c = Inr v" unfolding derivedValue_def Let_def by (auto simp del: js_Cons)
    moreover from calculation(2) have "componentName c \<noteq> js ''@status''" "componentName c \<in> set KNOWN_DERIVED_COMPONENTS" by (auto simp: KNOWN_DERIVED_COMPONENTS_def)
    ultimately show ?thesis using valid url by (auto simp: extractComponentValue_def simp del: js_Cons)
  next
    case 3
    then have "componentSource ?m c = Inr (RequestMessage answeredRequest)" "\<exists>v. fieldValue responseLib (RequestMessage answeredRequest) c = Inr v"
        "componentName c \<noteq> js ''@status''" "componentName c \<notin> set KNOWN_DERIVED_COMPONENTS"
      by (auto simp: componentSource_def isReq_def paramOf_def reqComponent_def reqMember_def fieldValue_def answeredRequest_def asciiLower_def isUpper_def
          KNOWN_DERIVED_COMPONENTS_def responseLib_def acceptField_def responseField_def serializeStructuredMember_def)
    then show ?thesis using valid url by (auto simp: extractComponentValue_def simp del: js_Cons)
  next
    case 4
    then have "componentSource ?m c = Inr (ResponseMessage signedResponse)" "\<exists>v. fieldValue responseLib (ResponseMessage signedResponse) c = Inr v"
        "componentName c \<noteq> js ''@status''" "componentName c \<notin> set KNOWN_DERIVED_COMPONENTS"
      by (auto simp: componentSource_def isReq_def paramOf_def fieldValue_def signedResponse_def asciiLower_def isUpper_def KNOWN_DERIVED_COMPONENTS_def)
    then show ?thesis using valid by (auto simp: extractComponentValue_def simp del: js_Cons)
  qed
qed

lemma response_base: "\<exists>base. buildSignatureInput asciiPlatform responseLib (ResponseMessage signedResponse, Some answeredRequest) answerParams = Inr base"
proof -
  have "\<exists>v. baseLine asciiPlatform responseLib (ResponseMessage signedResponse, Some answeredRequest) c = Inr v" if "c \<in> set (responseComponents (js ''sig1''))" for c
    using response_value [OF that] by (auto simp: baseLine_def serializeComponentIdentifier_def responseLib_def)
  then obtain vs where "mapE (baseLine asciiPlatform responseLib (ResponseMessage signedResponse, Some answeredRequest)) (responseComponents (js ''sig1'')) = Inr vs"
    using mapE_total [of "responseComponents (js ''sig1'')" "baseLine asciiPlatform responseLib (ResponseMessage signedResponse, Some answeredRequest)"] by blast
  moreover have "validateComponents (responseComponents (js ''sig1'')) = Inr ()"
    using response_components_valid by (auto simp: validateResponseComponents_def bindE_eq_Inr simp del: js_Cons split: if_splits)
  moreover have "checkedParameters [] responseParams = Inr responseParams" by (simp add: responseParams_def KNOWN_PARAMETERS_def)
  then have "\<exists>t. serializeSigParams responseLib answerParams = Inr t"
    by (simp add: serializeSigParams_def signatureParameterList_def answerParams_def responseLib_def) (simp add: responseParams_def)
  ultimately show ?thesis by (auto simp: buildSignatureInput_def signatureBase_def answerParams_def simp del: js_Cons)
qed

lemma response_identity:
  "verifyResponseIdentity asciiPlatform responseLib streamCrypto httpProfile responseRun answeredRequest signedResponse (js ''a.example'') None answerParams [1] 7 60
     (js ''a.example#o'') = Inr httpIdentity"
proof -
  obtain base where base: "buildSignatureInput asciiPlatform responseLib (ResponseMessage signedResponse, Some answeredRequest) answerParams = Inr base"
    using response_base by blast
  have fresh: "checkResponseFreshness responseLib httpProfile 9 7 60 = Inr ()"
    by (simp add: checkResponseFreshness_def checkFreshness_def maxAgeSeconds_def clockSkewSeconds_def limitOf_def httpProfile_def responseLib_def
        DEFAULT_SIGNATURE_MAX_AGE_SECONDS_def DEFAULT_CLOCK_SKEW_SECONDS_def RESPONSE_SIGNATURE_LIFETIME_SECONDS_def)
  have id: "responseKeyId asciiPlatform (js ''a.example#o'') = Inr (js ''a.example'', js ''o'')"
    using name_example by (simp add: responseKeyId_def parseKeyId_def)
  have "sp_alg answerParams = Some (js ''ed25519'')" "joseAlgToHttpSigAlg (js ''EdDSA'') = Inr (js ''ed25519'')" "sp_components answerParams = responseComponents (js ''sig1'')"
    by (simp_all add: answerParams_def joseAlgToHttpSigAlg_def)
  then have check: "checkResponseSignature asciiPlatform responseLib streamCrypto answeredRequest signedResponse answerParams [1] (sortedKey (js ''o'') operationalX) = Inr ()"
    using base http_alg http_verify by (simp add: checkResponseSignature_def del: js_Cons)
  have fields: "headersGet (rs_headers signedResponse) ''Content-Digest'' = Some (js ''digest'')" "headersGet (rs_headers signedResponse) ''Cache-Control'' = Some (js ''no-store'')"
      "responseContent (vu_reads responseRun) answeredRequest signedResponse False = Inr []" "hash256 streamCrypto [] = []"
    by (simp_all add: headersGet_def signedResponse_def asciiLower_def isUpper_def responseContent_def noResponseContent_def streamCrypto_def)
  have vd: "assertFresh 100 httpIdentity = Inr ()"
    by (simp add: assertFresh_def httpIdentity_def exampleVD_def keyAgeBound_def exampleRecord_def emptyRecord_def reached_def certExpired_def)
  have run: "vu_now responseRun = 9" "vu_now2 responseRun = 9" "vu_nowMs responseRun = 100" "vu_wait responseRun = Running"
      "vu_resolve responseRun (js ''a.example'') None = Inr httpIdentity"
    by (simp_all add: responseRun_def)
  show ?thesis
    using run fresh id http_key check fields vd response_digest no_store \<open>sp_components answerParams = _\<close>
    by (simp add: verifyResponseIdentity_def orEmptyText_def constantTimeEqual_iff del: js_Cons)
qed

lemma response_verified:
  "verifySignedHttpResponse asciiPlatform responseLib streamCrypto httpProfile responseRun answeredRequest signedResponse responseOptions None None = Inr httpIdentity"
proof -
  have copies: "\<exists>cs. copyComponents cs' = Inr cs" if "\<forall>c \<in> set cs'. validateComponentIdentifier c = Inr ()" for cs'
    unfolding copyComponents_def by (rule mapE_total) (use that in \<open>simp add: copyComponent_def\<close>)
  have valid: "\<forall>c \<in> set (responseComponents (js ''sig1'')). validateComponentIdentifier c = Inr ()"
    using response_components_valid
    by (auto simp: validateResponseComponents_def validateComponents_def bindE_eq_Inr simp del: js_Cons split: if_splits intro: validateFrom_each)
  obtain cs where cs: "copyComponents (responseComponents (js ''sig1'')) = Inr cs" using copies [OF valid] by blast
  have "responsePolicy asciiPlatform responseOptions (js ''sig1'') = Inr (responseOptions, cs)"
    using cs response_components_valid name_example [of True]
    by (simp add: responsePolicy_def responseOptions_def Let_def copyComponents_def del: js_Cons)
  moreover have "requireFinalResponse answeredRequest signedResponse = Inr ()" by (simp add: requireFinalResponse_def signedResponse_def answeredRequest_def)
  moreover have "isHttps asciiPlatform answeredRequest = Inr True"
    using exampleUrl_parse by (simp add: isHttps_def answeredRequest_def exampleUrl_def del: js_Cons)
  moreover have "headersGet (rq_headers answeredRequest) ''Accept-Signature'' = Some acceptField" "headersGet (rs_headers signedResponse) ''Signature-Input'' = Some responseField"
      "headersGet (rs_headers signedResponse) ''Signature'' = Some (js ''q'')"
    by (simp_all add: headersGet_def answeredRequest_def signedResponse_def asciiLower_def isUpper_def)
  moreover have "trim (take 4 responseField) = js ''sig1''" "index_of 61 responseField = Some 4" by (simp_all add: responseField_def trim_def isWhite_def)
  then have "checkTimestamps responseLib responseField (js ''sig1'') = Inr ()"
    by (simp add: checkTimestamps_def response_split response_parameters del: js_Cons)
  moreover have "sameNegotiation answerParams exampleNegotiation"
    using response_covers by (simp add: sameNegotiation_def answerParams_def exampleNegotiation_def list_all2_same del: js_Cons)
  moreover have "sp_created answerParams = Some 7" "sp_expires answerParams = Some 60" "sp_alg answerParams = Some (js ''ed25519'')"
      "sp_keyId answerParams = Some (js ''a.example#o'')" "js ''a.example#o'' \<noteq> []" "ng_label exampleNegotiation = js ''sig1''"
      "ro_additionalComponents responseOptions = []" "ro_expectedDomain responseOptions = js ''a.example''" "vu_budget responseRun = Running" "\<not> vu_late responseRun"
    by (simp_all add: answerParams_def exampleNegotiation_def responseOptions_def responseRun_def)
  ultimately show ?thesis using negotiation_parsed response_input response_signature response_identity
    by (simp add: verifySignedHttpResponse_def verifyResponseWithinBudget_def orEmptyText_def DEFAULT_HTTP_SIGNATURE_LABEL_def withVerificationBudget_def validTimeout_def
        Let_def del: js_Cons)
qed

theorem verifySignedHttpResponse_sound_witness:
  "\<exists>params base. buildSignatureInput asciiPlatform responseLib (ResponseMessage signedResponse, Some answeredRequest) params = Inr base \<and>
     assertFresh (vu_nowMs responseRun) httpIdentity = Inr ()"
  using verifySignedHttpResponse_sound [OF response_verified] by blast

end
