(* ===== verification/WebBotAuth.thy ===== *)
theory WebBotAuth
  imports HttpResponses StrictJson
begin

text \<open>
  Web Bot Auth (\<open>web-bot-auth/src/verify.ts\<close>): the verification of a request against the signed key
  directory of its \<open>Signature-Agent\<close> and the operational key of a DNSid identity. The transport, the
  resolver, the nonce store, the clock and the aborts of the signal are inputs; so are the serializer and
  the setters of URLs, and the quotient of a time and 1000 in the number type of the language.
\<close>

record wba_ops =
  wo_href :: "url \<Rightarrow> jstring"
  wo_setSearch :: "url \<Rightarrow> jstring \<Rightarrow> url"
  wo_setHash :: "url \<Rightarrow> jstring \<Rightarrow> url"
  wo_seconds :: "int \<Rightarrow> rat"

record discovery_policy =
  dp_uri :: jstring
  dp_type :: "jstring option"

text \<open>\<open>wv_consumeNonce\<close> tells whether a nonce policy is configured; its answer is part of the run.\<close>

record WebBotAuthVerificationOptions =
  wv_signerDomain :: "jstring option"
  wv_allowSignatureAgentDomain :: bool
  wv_discovery :: "discovery_policy option"
  wv_requiredComponents :: "ComponentIdentifier list"
  wv_peerCert :: "TLSCertificate option"
  wv_consumeNonce :: bool
  wv_timeoutMs :: "jsnum option"

definition invalidWba :: "string \<Rightarrow> js_error" where
  "invalidWba m = failWith m SignatureInvalid"

section \<open>Signatures\<close>

text \<open>The length of all fields, a field with several values being combined into one.\<close>

definition headersLength :: "headers \<Rightarrow> nat" where
  "headersLength h = (\<Sum>n \<in> dom h. length n + length (the (h n)))"

definition urlTooLong :: "message \<Rightarrow> bool" where
  "urlTooLong m = (case m of RequestMessage r \<Rightarrow> length (rq_url r) > 16 * 1024 | ResponseMessage _ \<Rightarrow> False)"

definition selectWba :: "http_lib \<Rightarrow> message \<Rightarrow> string \<Rightarrow> jstring option \<Rightarrow> js_error + SignatureParams \<times> bytes" where
  "selectWba L m tag keyid =
     (if headersLength (messageHeaders m) > 64 * 1024 then Inl (invalidWba ''WBA message headers exceed size limit'')
      else if urlTooLong m then Inl (invalidWba ''WBA request URL exceeds size limit'')
      else
        bindE (parseSignatureInput L (orEmptyText (headersGet (messageHeaders m) ''Signature-Input''))) (\<lambda>inputs.
        bindE (parseSignature L (orEmptyText (headersGet (messageHeaders m) ''Signature''))) (\<lambda>signatures.
        case filter (\<lambda>p. sp_tag p = Some (js tag) \<and> map_of signatures (sp_label p) \<noteq> None \<and> (keyid = None \<or> sp_keyId p = keyid)) (map snd inputs) of
          [params] \<Rightarrow> Inr (params, the (map_of signatures (sp_label params)))
        | _ \<Rightarrow> Inl (invalidWba ''expected exactly one complete WBA profile signature''))))"

text \<open>The text of a SHA-256 value in base64url: 43 characters that encode to themselves.\<close>

definition thumbprintText :: "jstring \<Rightarrow> js_error + bool" where
  "thumbprintText s =
     (if length s \<noteq> 43 \<or> \<not> (\<forall>c \<in> set s. isAlnum c \<or> c = 95 \<or> c = 45) then Inr False
      else bindE (fromBase64Url s) (\<lambda>bs. Inr (toBase64Url bs = s)))"

definition validityTimes :: "int option \<Rightarrow> int option \<Rightarrow> bool" where
  "validityTimes created expires =
     (case (created, expires) of
        (Some c, Some e) \<Rightarrow> \<bar>c\<bar> \<le> MAX_SAFE \<and> \<bar>e\<bar> \<le> MAX_SAFE \<and> c \<le> e \<and> e - c \<le> 300
      | _ \<Rightarrow> False)"

definition validity :: "http_lib \<Rightarrow> wba_ops \<Rightarrow> SignatureParams \<Rightarrow> rat \<Rightarrow> bool \<Rightarrow> int \<Rightarrow> js_error + unit" where
  "validity L W params skew directory nowMs =
     (if \<not> validityTimes (sp_created params) (sp_expires params) then Inl (invalidWba ''invalid WBA signature lifetime'')
      else if sp_alg params \<noteq> Some (js ''ed25519'') \<or> sp_keyId params = None then Inl (invalidWba ''invalid WBA algorithm or thumbprint'')
      else
        bindE (thumbprintText (the (sp_keyId params))) (\<lambda>ok.
        if \<not> ok then Inl (invalidWba ''invalid WBA algorithm or thumbprint'')
        else
          let now = wo_seconds W nowMs in
          if of_int (the (sp_created params)) > roundSum L now (if directory then 0 else skew)
             \<or> of_int (the (sp_expires params)) < roundSum L now (- skew)
            then Inl (invalidWba ''WBA signature is not currently valid'')
          else Inr ()))"

definition coversWba :: "SignatureParams \<Rightarrow> ComponentIdentifier \<Rightarrow> js_error + unit" where
  "coversWba params c =
     (if covers (sp_components params) c then Inr () else Inl (invalidWba ''missing required WBA component coverage''))"

definition messageBody :: "message \<Rightarrow> body option \<times> bool" where
  "messageBody m = (case m of RequestMessage r \<Rightarrow> (rq_body r, rq_bodyUsed r) | ResponseMessage r \<Rightarrow> (rs_body r, rs_bodyUsed r))"

definition digestWba :: "http_lib \<Rightarrow> crypto \<Rightarrow> (nat \<Rightarrow> wait) \<Rightarrow> nat \<Rightarrow> message \<Rightarrow> SignatureParams \<Rightarrow> js_error + bytes" where
  "digestWba L C reads maxBytes m params =
     (case messageBody m of
        (None, _) \<Rightarrow>
          if hasComponentNamed (sp_components params) ''content-digest'' then Inl (invalidWba ''covered digest without supplied content'') else Inr []
      | (Some b, used) \<Rightarrow>
          bindE (coversWba params (Named (js ''content-digest''))) (\<lambda>_.
          bindE (parseSha256ContentDigest L (orEmptyText (headersGet (messageHeaders m) ''Content-Digest'')) (sp_components params)) (\<lambda>expected.
          bindE (readBoundedBody reads used maxBytes b) (\<lambda>bs.
          if \<not> constantTimeEqual expected (hash256 C bs) then Inl (invalidWba ''WBA Content-Digest mismatch'') else Inr bs))))"

section \<open>HTTP freshness of the directory\<close>

fun wbaQuotedRest :: "jstring \<Rightarrow> jstring option" where
  "wbaQuotedRest [] = None"
| "wbaQuotedRest [c] = (if c = 34 then Some [] else None)"
| "wbaQuotedRest (c # d # rest) =
     (if c = 34 then Some (d # rest)
      else if c = 10 \<or> c = 13 then None
      else if c = 92 then (if d = 10 \<or> d = 13 then None else wbaQuotedRest rest)
      else wbaQuotedRest (d # rest))"

text \<open>The argument of a directive, with its quotes, and the rest of the text.\<close>

definition wbaArgument :: "jstring \<Rightarrow> (jstring \<times> jstring) option" where
  "wbaArgument s =
     (if starts_with [34] s then map_option (\<lambda>r. (take (length s - length r) s, r)) (wbaQuotedRest (tl s))
      else if takeWhile isTokenUnit s \<noteq> [] then Some (takeWhile isTokenUnit s, dropWhile isTokenUnit s)
      else None)"

text \<open>One match of the sticky expression: the name, the argument if there is one, and the rest.\<close>

definition wbaDirective :: "jstring \<Rightarrow> (jstring \<times> jstring option \<times> jstring) option" where
  "wbaDirective s =
     (let s = dropWhile isWhite s; name = takeWhile isTokenUnit s; r = dropWhile isWhite (dropWhile isTokenUnit s) in
      if name = [] then None
      else
        case (if starts_with [61] r then map_option (\<lambda>(a, r). (Some a, r)) (wbaArgument (dropWhile isWhite (tl r))) else Some (None, r)) of
          None \<Rightarrow> None
        | Some (argument, r) \<Rightarrow>
            (case dropWhile isWhite r of
               [] \<Rightarrow> Some (name, argument, [])
             | c # r \<Rightarrow> if c = 44 then Some (name, argument, r) else None))"

definition stripQuotes :: "jstring \<Rightarrow> jstring" where
  "stripQuotes s =
     (let t = (if starts_with [34] s then tl s else s) in if ends_with [34] t then butlast t else t)"

definition allDigits :: "jstring \<Rightarrow> bool" where
  "allDigits s \<longleftrightarrow> s \<noteq> [] \<and> (\<forall>c \<in> set s. isDigit c)"

definition maxAgeArgument :: "nat option \<Rightarrow> jstring option \<Rightarrow> js_error + nat" where
  "maxAgeArgument maxAge argument =
     (case argument of
        None \<Rightarrow> Inl (invalidWba ''invalid directory max-age'')
      | Some a \<Rightarrow>
          if maxAge \<noteq> None \<or> \<not> allDigits (stripQuotes a) \<or> int (digitsValue (stripQuotes a)) > MAX_SAFE
            then Inl (invalidWba ''invalid directory max-age'')
          else Inr (min (digitsValue (stripQuotes a)) (2 ^ 31)))"

lemma wbaQuotedRest_length: "wbaQuotedRest s = Some r \<Longrightarrow> length r < length s"
  by (induction s rule: wbaQuotedRest.induct) (auto split: if_splits)

lemma wbaArgument_length: "wbaArgument s = Some (a, r) \<Longrightarrow> length r \<le> length s"
  using wbaQuotedRest_length [of "tl s" r] length_dropWhile_le [of isTokenUnit s] by (cases s) (auto simp: wbaArgument_def split: if_splits)

lemma wbaDirective_length:
  assumes "wbaDirective s = Some (name, argument, r)"
  shows "length r < length s"
proof -
  define s' where "s' = dropWhile isWhite s"
  define r' where "r' = dropWhile isWhite (dropWhile isTokenUnit s')"
  have name: "takeWhile isTokenUnit s' \<noteq> []" using assms by (auto simp: wbaDirective_def Let_def s'_def split: if_splits)
  have "length s' = length (takeWhile isTokenUnit s') + length (dropWhile isTokenUnit s')" by (metis length_append takeWhile_dropWhile_id)
  moreover have "length (takeWhile isTokenUnit s') > 0" using name by simp
  ultimately have r': "length r' < length s"
    using length_dropWhile_le [of isWhite "dropWhile isTokenUnit s'"] length_dropWhile_le [of isWhite s] unfolding r'_def s'_def by linarith
  obtain a q where q: "(if starts_with [61] r' then map_option (\<lambda>(a, r). (Some a, r)) (wbaArgument (dropWhile isWhite (tl r'))) else Some (None, r')) = Some (a, q)"
      "r = [] \<or> dropWhile isWhite q = 44 # r"
    using assms name unfolding wbaDirective_def Let_def s'_def [symmetric] r'_def [symmetric] by (auto split: option.splits list.splits if_splits prod.splits)
  have "length q \<le> length r'"
    using q(1) wbaArgument_length [of "dropWhile isWhite (tl r')" _ q] length_dropWhile_le [of isWhite "tl r'"] by (auto split: if_splits)
  moreover have "length r \<le> length q" using q(2) length_dropWhile_le [of isWhite q] by auto
  ultimately show ?thesis using r' by linarith
qed

function maxAgeLoop :: "nat option \<Rightarrow> jstring \<Rightarrow> js_error + nat option" where
  "maxAgeLoop maxAge s =
     (if s = [] then Inr maxAge
      else case wbaDirective s of
        None \<Rightarrow> Inl (invalidWba ''invalid directory Cache-Control'')
      | Some (name, argument, rest) \<Rightarrow>
          if asciiLower name = js ''max-age''
            then (case maxAgeArgument maxAge argument of Inl e \<Rightarrow> Inl e | Inr n \<Rightarrow> maxAgeLoop (Some n) rest)
          else maxAgeLoop maxAge rest)"
  by pat_completeness auto
termination
proof (relation "measure (\<lambda>(m, s). length s)", goal_cases)
  case (2 maxAge s x name y argument rest n)
  then show ?case using wbaDirective_length [of s name argument rest] by simp
next
  case (3 maxAge s x name y argument rest)
  then show ?case using wbaDirective_length [of s name argument rest] by simp
qed simp

declare maxAgeLoop.simps [simp del]

text \<open>The deadline of the directory in milliseconds, if its evidence may be reused at all.\<close>

definition directoryFreshness :: "platform \<Rightarrow> headers \<Rightarrow> int \<Rightarrow> int \<Rightarrow> js_error + int option" where
  "directoryFreshness P h begun received =
     bindE (maxAgeLoop None (orEmptyText (headersGet h ''Cache-Control''))) (\<lambda>maxAge.
     let rawAge = orEmptyText (headersGet h ''Age'') in
     if rawAge \<noteq> [] \<and> (\<not> allDigits rawAge \<or> int (digitsValue rawAge) > 2 ^ 31 - 1) then Inl (invalidWba ''invalid directory Age'')
     else
       let upstreamAge = int (digitsValue rawAge);
           age = max 0 (max (upstreamAge * 1000 + received - begun)
                   (case newDate P (JStr (orEmptyText (headersGet h ''Date''))) of None \<Rightarrow> 0 | Some d \<Rightarrow> received - d)) in
       case maxAge of
         None \<Rightarrow> Inr None
       | Some m \<Rightarrow>
           if m = 0 \<and> upstreamAge = 0 then Inr None
           else
             let deadline = received + int m * 1000 - age in
             if received \<ge> deadline then Inl (invalidWba ''HTTP-stale WBA directory'') else Inr (Some deadline))"

section \<open>Discovery\<close>

definition normalizedWbaIdentifier :: "platform \<Rightarrow> wba_ops \<Rightarrow> jstring \<Rightarrow> js_error + jstring" where
  "normalizedWbaIdentifier P W uri =
     (case urlParse P uri of
        None \<Rightarrow> Inl (JsTypeError ''Invalid URL'')
      | Some u \<Rightarrow>
          (case urlParse P (normalizePercentPath (wo_href W (wo_setHash W (wo_setSearch W u []) []))) of
             None \<Rightarrow> Inl (JsTypeError ''Invalid URL'')
           | Some v \<Rightarrow> Inr (wo_href W v)))"

text \<open>The origin of a URL with the scheme \<open>https\<close>.\<close>

definition urlOrigin :: "url \<Rightarrow> jstring" where
  "urlOrigin u = js ''https://'' @ urlHost u"

definition approvedHost :: "jstring \<Rightarrow> jstring option \<Rightarrow> bool" where
  "approvedHost host domain \<longleftrightarrow>
     host \<noteq> js ''localhost'' \<and> \<not> ends_with (js ''.localhost'') host \<and> \<not> ends_with (js ''.local'') host \<and>
     (domain = None \<or> domain = Some [] \<or> domain = Some host)"

definition HTTP_MESSAGE_SIGNATURES_DIRECTORY_PATH :: jstring where
  "HTTP_MESSAGE_SIGNATURES_DIRECTORY_PATH = js ''/.well-known/http-message-signatures-directory''"

definition endpoint :: "platform \<Rightarrow> jstring \<Rightarrow> jstring \<Rightarrow> jstring option \<Rightarrow> js_error + url" where
  "endpoint P uri type domain =
     (if length uri > 16 * 1024 then Inl (invalidWba ''WBA discovery URI exceeds size limit'')
      else case urlParse P uri of
        None \<Rightarrow> Inl (invalidWba ''invalid WBA discovery URI'')
      | Some u \<Rightarrow>
          if url_protocol u \<noteq> js ''https:'' \<or> url_username u \<noteq> [] \<or> url_password u \<noteq> [] then Inl (invalidWba ''WBA discovery requires HTTPS'')
          else
            bindE (catchE (normalizeFQDN P (url_hostname u) True) (\<lambda>_. Inl (invalidWba ''invalid WBA discovery host''))) (\<lambda>host.
            if \<not> approvedHost host domain then Inl (invalidWba ''unapproved WBA discovery host'')
            else if type = js ''directory'' then
              (if uri \<noteq> urlOrigin u then Inl (invalidWba ''WBA directory Signature-Agent must be an origin URI'')
               else case urlParse P (urlOrigin u @ HTTP_MESSAGE_SIGNATURES_DIRECTORY_PATH) of
                 None \<Rightarrow> Inl (JsTypeError ''Invalid URL'') | Some v \<Rightarrow> Inr v)
            else if type \<noteq> js ''jwks_uri'' \<or> url_hash u \<noteq> [] then Inl (invalidWba ''unsupported WBA discovery type or fragment'')
            else Inr u))"

function boundedDepth :: "nat \<Rightarrow> json \<Rightarrow> js_error + unit" where
  "boundedDepth depth v =
     (if depth > 16 then Inl (invalidWba ''WBA directory JSON is too deep'')
      else case v of
        JArr vs \<Rightarrow> eachE (boundedDepth (Suc depth)) vs
      | JObj ms \<Rightarrow> eachE (boundedDepth (Suc depth)) (map snd ms)
      | _ \<Rightarrow> Inr ())"
  by pat_completeness auto
termination by (relation "measure (\<lambda>(d, v). 17 - d)") auto

declare boundedDepth.simps [simp del]

text \<open>\<open>{...o, k: v}\<close>\<close>

definition putMember :: "jstring \<Rightarrow> json \<Rightarrow> (jstring \<times> json) list \<Rightarrow> (jstring \<times> json) list" where
  "putMember k v ms = (if k \<in> fst ` set ms then map (\<lambda>(n, w). (n, if n = k then v else w)) ms else ms @ [(k, v)])"

definition verifyingKey :: "json \<Rightarrow> json" where
  "verifyingKey key =
     (case key of
        JObj ms \<Rightarrow> JObj (putMember (js ''key_ops'') (JArr [JStr (js ''verify'')]) (putMember (js ''alg'') (JStr (js ''EdDSA'')) ms))
      | _ \<Rightarrow> JObj [(js ''alg'', JStr (js ''EdDSA'')), (js ''key_ops'', JArr [JStr (js ''verify'')])])"

definition signatureWba :: "platform \<Rightarrow> http_lib \<Rightarrow> crypto \<Rightarrow> http_message \<Rightarrow> SignatureParams \<Rightarrow> bytes \<Rightarrow> json \<Rightarrow> js_error + unit" where
  "signatureWba P L C m params raw key =
     catchE
       (bindE (buildSignatureInput P L m params) (\<lambda>base.
        if verifyWithKey C (Inr base) raw (verifyingKey key) (Some (js ''EdDSA'')) then Inr () else Inl (invalidWba ''invalid WBA signature'')))
       (\<lambda>e. case e of Verification _ \<Rightarrow> Inl e | _ \<Rightarrow> Inl (invalidWba ''invalid WBA signature or key''))"

text \<open>
  The causes of an error, from the error itself on: each with its string \<open>code\<close>, if it has one. An error
  of the package inside the chain is reported as it is.
\<close>

type_synonym cause = "js_error \<times> jstring option"

definition contains :: "jstring \<Rightarrow> jstring \<Rightarrow> bool" where
  "contains s part \<longleftrightarrow> (\<exists>i \<in> set [0..<Suc (length s)]. starts_with part (drop i s))"

definition tlsCode :: "jstring \<Rightarrow> bool" where
  "tlsCode code \<longleftrightarrow> (\<exists>part \<in> {''CERT'', ''TLS'', ''SSL'', ''SIGNATURE'', ''ISSUER'', ''CRL'', ''INVALID_CA'', ''INVALID_PURPOSE'', ''PATH_LENGTH''}.
     contains code (js part))"

fun discoveryFailure :: "bool \<Rightarrow> cause list \<Rightarrow> js_error" where
  "discoveryFailure tls [] = (if tls then failWith ''WBA directory discovery failed'' TLSError else failTransient ''WBA directory discovery failed'' TLSError)"
| "discoveryFailure tls ((e, code) # causes) =
     (case e of
        Verification _ \<Rightarrow> e
      | _ \<Rightarrow> discoveryFailure (tls \<or> (case code of None \<Rightarrow> False | Some c \<Rightarrow> tlsCode c)) causes)"

section \<open>Verification of a request\<close>

text \<open>
  What the environment answers during one verification: the readings of the clock in the order of the
  code, the outcomes of the transport (with its \<open>redirected\<close> flag), of the resolver and of the nonce store,
  and how each wait ends.
\<close>

record wba_run =
  wr_clock :: "nat \<Rightarrow> int"
  wr_reads :: "nat \<Rightarrow> wait"
  wr_fetch :: "http_request \<Rightarrow> js_error + http_response \<times> bool"
  wr_fetchWait :: wait
  wr_causes :: "js_error \<Rightarrow> cause list"
  wr_directoryReads :: "nat \<Rightarrow> wait"
  wr_verifyDomain :: "jstring \<Rightarrow> TLSCertificate option \<Rightarrow> js_error + VerifiedDomain"
  wr_verifyWait :: wait
  wr_refreshDomain :: "jstring \<Rightarrow> TLSCertificate option \<Rightarrow> js_error + VerifiedDomain"
  wr_refreshWait :: wait
  wr_consume :: "jstring \<Rightarrow> jstring \<Rightarrow> jstring \<Rightarrow> rat \<Rightarrow> js_error + bool"
  wr_consumeWait :: wait

definition checkRequired :: "ComponentIdentifier list \<Rightarrow> js_error + unit" where
  "checkRequired = eachE (\<lambda>c.
     bindE (validateComponentIdentifier c) (\<lambda>_.
     if componentName c = js ''@status'' \<or> isReq c then Inl (ArgumentError ''requiredComponents must contain only request components'')
     else Inr ()))"

definition agentComponent :: "ComponentIdentifier \<Rightarrow> bool" where
  "agentComponent c \<longleftrightarrow> componentName c = js ''signature-agent'' \<and>
     (case paramOf c ''key'' of Some (PString _) \<Rightarrow> True | _ \<Rightarrow> False) \<and> length (componentParams c) = 1"

definition agentKey :: "ComponentIdentifier \<Rightarrow> jstring" where
  "agentKey c = (case paramOf c ''key'' of Some (PString k) \<Rightarrow> k | _ \<Rightarrow> [])"

definition agentMember :: "http_lib \<Rightarrow> jstring option \<Rightarrow> ComponentIdentifier list \<Rightarrow> js_error + jstring \<times> jstring" where
  "agentMember L agent components =
     (case agent of
        None \<Rightarrow> Inl (invalidWba ''Signature-Agent is required'')
      | Some text \<Rightarrow>
          if length text > 16 * 1024 then Inl (invalidWba ''Signature-Agent exceeds size limit'')
          else (case filter agentComponent components of
             [c] \<Rightarrow>
               bindE (parseDictionaryField L text) (\<lambda>dictionary.
               case map_of dictionary (agentKey c) of
                 Some (SfItem (SfString uri, params)) \<Rightarrow>
                   (case map_of params (js ''type'') of
                      None \<Rightarrow> Inr (uri, js ''directory'')
                    | Some (SfToken type) \<Rightarrow> Inr (uri, type)
                    | Some _ \<Rightarrow> Inl (invalidWba ''Signature-Agent type must be a token''))
               | _ \<Rightarrow> Inl (invalidWba ''invalid Signature-Agent member''))
           | _ \<Rightarrow> Inl (invalidWba ''expected one covered Signature-Agent member'')))"

text \<open>The trusted domain of the signer and the endpoint of its directory.\<close>

definition signerOf :: "platform \<Rightarrow> http_lib \<Rightarrow> wba_ops \<Rightarrow> WebBotAuthVerificationOptions \<Rightarrow> http_request \<Rightarrow> SignatureParams \<Rightarrow> js_error + jstring \<times> url" where
  "signerOf P L W opts req params =
     bindE (case wv_signerDomain opts of None \<Rightarrow> Inr None | Some d \<Rightarrow> bindE (normalizeFQDN P d True) (\<lambda>n. Inr (Some n))) (\<lambda>trusted.
     bindE (agentMember L (headersGet (rq_headers req) ''Signature-Agent'') (sp_components params)) (\<lambda>(uri, type).
     bindE (endpoint P uri type trusted) (\<lambda>u.
     bindE (case trusted of
              Some (c # cs) \<Rightarrow> Inr (c # cs)
            | _ \<Rightarrow> if wv_allowSignatureAgentDomain opts then normalizeFQDN P (url_hostname u) True else Inr []) (\<lambda>domain.
     if domain = [] then Inl (ArgumentError ''trusted signer domain policy is required'')
     else case wv_discovery opts of
       None \<Rightarrow> Inr (domain, u)
     | Some d \<Rightarrow>
         bindE (endpoint P (dp_uri d) (case dp_type d of None \<Rightarrow> js ''directory'' | Some t \<Rightarrow> t) (Some domain)) (\<lambda>v.
         if wo_href W v \<noteq> wo_href W u then Inl (invalidWba ''Signature-Agent does not match trusted discovery'') else Inr (domain, u))))))"

definition readRequest ::
    "platform \<Rightarrow> http_lib \<Rightarrow> wba_ops \<Rightarrow> crypto \<Rightarrow> rat \<Rightarrow> WebBotAuthVerificationOptions \<Rightarrow> wba_run \<Rightarrow> http_request \<Rightarrow>
     js_error + (SignatureParams \<times> bytes) \<times> jstring \<times> url" where
  "readRequest P L W C skew opts run req =
     bindE (selectWba L (RequestMessage req) ''web-bot-auth'' None) (\<lambda>(params, sig).
     bindE (validity L W params skew False (wr_clock run 0)) (\<lambda>_.
     bindE (eachE (coversWba params) (Named (js ''@authority'') # wv_requiredComponents opts)) (\<lambda>_.
     bindE (digestWba L C (wr_reads run) (1024 * 1024) (RequestMessage req) params) (\<lambda>_.
     bindE (signerOf P L W opts req params) (\<lambda>(domain, u).
     Inr ((params, sig), domain, u))))))"

definition directoryRequest :: "wba_ops \<Rightarrow> url \<Rightarrow> http_request" where
  "directoryRequest W u =
     \<lparr>rq_method = js ''GET'', rq_url = wo_href W u,
      rq_headers = [js ''accept-encoding'' \<mapsto> js ''identity'', js ''cache-control'' \<mapsto> js ''no-cache''], rq_body = None, rq_bodyUsed = False\<rparr>"

definition DIRECTORY_COMPONENTS :: "ComponentIdentifier list" where
  "DIRECTORY_COMPONENTS =
     [WithParams (js ''@authority'') (Some [(js ''req'', PBool True)]), Named (js ''content-type''), Named (js ''cache-control''), Named (js ''content-digest'')]"

definition HTTP_MESSAGE_SIGNATURES_DIRECTORY_MEDIA_TYPE :: jstring where
  "HTTP_MESSAGE_SIGNATURES_DIRECTORY_MEDIA_TYPE = js ''application/http-message-signatures-directory+json''"

definition checkDirectoryResponse :: "platform \<Rightarrow> http_response \<Rightarrow> bool \<Rightarrow> js_error + unit" where
  "checkDirectoryResponse P response redirected =
     (if redirected then Inl (invalidWba ''discovery transport followed an unchecked redirect'')
      else if rs_status response \<ge> 500 \<or> rs_status response = 408 \<or> rs_status response = 429
        then Inl (failTransient ''WBA directory temporarily unavailable'' TLSError)
      else if headersGet (rs_headers response) ''Content-Encoding'' \<noteq> None then Inl (invalidWba ''coded WBA directory responses are unsupported'')
      else if rs_status response \<noteq> 200 \<or>
          (case headersGet (rs_headers response) ''Content-Type'' of
             None \<Rightarrow> True
           | Some t \<Rightarrow> toLowerCase P (trim (hd (split_on 59 t))) \<noteq> HTTP_MESSAGE_SIGNATURES_DIRECTORY_MEDIA_TYPE)
        then Inl (invalidWba ''invalid WBA directory response'')
      else Inr ())"

definition keyOpsOk :: "json \<Rightarrow> bool" where
  "keyOpsOk ops =
     (case ops of
        JUndef \<Rightarrow> True
      | JArr vs \<Rightarrow> JStr (js ''verify'') \<in> set vs \<and> (\<forall>v \<in> set vs. v = JStr (js ''sign'') \<or> v = JStr (js ''verify'')) \<and> distinct vs
      | _ \<Rightarrow> False)"

definition directoryKey :: "crypto \<Rightarrow> json \<Rightarrow> js_error + json" where
  "directoryKey C key =
     (case key of
        JObj _ \<Rightarrow>
          bindE
            (if \<not> isStr (propOf key ''kty'') ''OKP'' \<or> \<not> isStr (propOf key ''crv'') ''Ed25519'' then Inr False
             else case propOf key ''x'' of
               JStr x \<Rightarrow>
                 bindE (thumbprintText x) (\<lambda>ok.
                 Inr (ok \<and> propOf key ''d'' = JUndef \<and> (propOf key ''alg'' = JUndef \<or> isStr (propOf key ''alg'') ''ed25519'') \<and>
                      (propOf key ''use'' = JUndef \<or> isStr (propOf key ''use'') ''sig'')))
             | _ \<Rightarrow> Inr False) (\<lambda>ok.
          if \<not> ok then Inl (invalidWba ''invalid public Ed25519 directory key'')
          else if \<not> keyOpsOk (propOf key ''key_ops'') then Inl (invalidWba ''invalid directory JWK key_ops'')
          else
            bindE (joseThumbprint C key) (\<lambda>t.
            if propOf key ''kid'' \<noteq> JStr t then Inl (invalidWba ''directory JWK thumbprint mismatch'') else Inr key))
      | _ \<Rightarrow> Inl (invalidWba ''invalid directory JWK''))"

text \<open>The key of the directory that the request was signed with.\<close>

definition matchingKey :: "platform \<Rightarrow> crypto \<Rightarrow> jstring option \<Rightarrow> bytes \<Rightarrow> js_error + json" where
  "matchingKey P C keyId bs =
     bindE (catchE (parseJsonNoDuplicateMembers P bs) (\<lambda>_. Inl (invalidWba ''invalid WBA directory JSON''))) (\<lambda>doc.
     bindE (boundedDepth 0 doc) (\<lambda>_.
     case propOf doc ''keys'' of
       JArr keys \<Rightarrow>
         if keys = [] \<or> length keys > 64 then Inl (invalidWba ''invalid WBA directory key count'')
         else
           bindE (mapE (directoryKey C) keys) (\<lambda>checked.
           case filter (\<lambda>k. strOf (propOf k ''kid'') = keyId) checked of
             [key] \<Rightarrow> Inr key
           | _ \<Rightarrow> Inl (invalidWba ''expected one matching WBA directory key''))
     | _ \<Rightarrow> Inl (invalidWba ''invalid WBA directory key count'')))"

record wba_directory =
  wd_response :: http_response
  wd_params :: SignatureParams
  wd_signature :: bytes
  wd_key :: json
  wd_deadline :: "int option"

definition fetchDirectory ::
    "platform \<Rightarrow> http_lib \<Rightarrow> wba_ops \<Rightarrow> crypto \<Rightarrow> rat \<Rightarrow> wba_run \<Rightarrow> url \<Rightarrow> SignatureParams \<Rightarrow> js_error + wba_directory" where
  "fetchDirectory P L W C skew run u params =
     bindE (catchE (waitForVerification (wr_fetchWait run) (wr_fetch run (directoryRequest W u)))
              (\<lambda>e. Inl (discoveryFailure False (wr_causes run e)))) (\<lambda>(response, redirected).
     bindE (checkDirectoryResponse P response redirected) (\<lambda>_.
     bindE (directoryFreshness P (rs_headers response) (wr_clock run 1) (wr_clock run 2)) (\<lambda>deadline.
     if rs_bodyUsed response then Inl (JsTypeError ''Body has already been used'')
     else
       bindE (selectWba L (ResponseMessage response) ''http-message-signatures-directory'' (sp_keyId params)) (\<lambda>(directory, sig).
       bindE (validity L W directory skew True (wr_clock run 3)) (\<lambda>_.
       bindE (eachE (coversWba directory) DIRECTORY_COMPONENTS) (\<lambda>_.
       bindE (catchE (digestWba L C (wr_directoryReads run) (256 * 1024) (ResponseMessage response) directory)
                (\<lambda>e. Inl (discoveryFailure False (wr_causes run e)))) (\<lambda>bs.
       bindE (matchingKey P C (sp_keyId params) bs) (\<lambda>key.
       Inr \<lparr>wd_response = response, wd_params = directory, wd_signature = sig, wd_key = key, wd_deadline = deadline\<rparr>))))))))"

text \<open>\<open>fresh\<close>, with its readings of the clock from number \<open>i\<close> on.\<close>

definition freshWba :: "http_lib \<Rightarrow> wba_ops \<Rightarrow> rat \<Rightarrow> wba_run \<Rightarrow> nat \<Rightarrow> SignatureParams \<Rightarrow> wba_directory \<Rightarrow> VerifiedDomain \<Rightarrow> js_error + unit" where
  "freshWba L W skew run i params dir vd =
     bindE (validity L W params skew False (wr_clock run i)) (\<lambda>_.
     bindE (validity L W (wd_params dir) skew True (wr_clock run (i + 1))) (\<lambda>_.
     if (case wd_deadline dir of None \<Rightarrow> False | Some t \<Rightarrow> wr_clock run (i + 2) \<ge> t) then Inl (invalidWba ''HTTP-stale WBA directory'')
     else assertFresh (wr_clock run (i + 3)) vd))"

definition separateEndpoint :: "platform \<Rightarrow> wba_ops \<Rightarrow> url \<Rightarrow> jstring \<Rightarrow> js_error + unit" where
  "separateEndpoint P W u ku =
     (if ku = [] then Inr ()
      else
        bindE (normalizedWbaIdentifier P W (wo_href W u)) (\<lambda>a.
        bindE (normalizedWbaIdentifier P W ku) (\<lambda>b.
        if a = b then Inl (invalidWba ''WBA discovery must be separate from the authenticated ku endpoint'') else Inr ())))"

definition boundWba ::
    "platform \<Rightarrow> http_lib \<Rightarrow> wba_ops \<Rightarrow> crypto \<Rightarrow> rat \<Rightarrow> wba_run \<Rightarrow> nat \<Rightarrow> SignatureParams \<Rightarrow> wba_directory \<Rightarrow> jstring \<Rightarrow> url \<Rightarrow> VerifiedDomain \<Rightarrow> js_error + bool" where
  "boundWba P L W C skew run i params dir domain u vd =
     bindE (freshWba L W skew run i params dir vd) (\<lambda>_.
     if vd_domain vd \<noteq> domain then Inl (invalidWba ''DNSid signer domain mismatch'')
     else
       bindE (separateEndpoint P W u (r_ku (vd_record vd))) (\<lambda>_.
       bindE (catchE (currentDraft01SigningKey (vd_jwks vd)) (\<lambda>_. Inl (invalidWba ''DNSid current operational signing key is unavailable''))) (\<lambda>operationalKey.
       bindE (joseThumbprint C operationalKey) (\<lambda>t. Inr (propOf (wd_key dir) ''kid'' = JStr t)))))"

text \<open>The refresh cooldowns of a profile: for each domain the time before which it is not refreshed again.\<close>

type_synonym cooldowns = "(jstring \<times> int) list"

definition reserveRefresh :: "int \<Rightarrow> jstring \<Rightarrow> cooldowns \<Rightarrow> (js_error + unit) \<times> cooldowns" where
  "reserveRefresh now domain cooldowns =
     (let live = filter (\<lambda>(host, deadline). deadline > now) cooldowns in
      if map_of live domain \<noteq> None \<or> length live \<ge> 1024 then (Inl (invalidWba ''WBA key-mismatch refresh suppressed''), live)
      else (Inr (), live @ [(domain, now + 5000)]))"

definition bindIdentity ::
    "platform \<Rightarrow> http_lib \<Rightarrow> wba_ops \<Rightarrow> crypto \<Rightarrow> rat \<Rightarrow> WebBotAuthVerificationOptions \<Rightarrow> wba_run \<Rightarrow> SignatureParams \<Rightarrow> wba_directory \<Rightarrow> jstring \<Rightarrow> url \<Rightarrow>
     cooldowns \<Rightarrow> (js_error + VerifiedDomain) \<times> cooldowns" where
  "bindIdentity P L W C skew opts run params dir domain u cooldowns =
     (case bindE (waitForVerification (wr_verifyWait run) (wr_verifyDomain run domain (wv_peerCert opts))) (\<lambda>vd.
           bindE (boundWba P L W C skew run 4 params dir domain u vd) (\<lambda>ok. Inr (vd, ok))) of
        Inl e \<Rightarrow> (Inl e, cooldowns)
      | Inr (vd, True) \<Rightarrow> (Inr vd, cooldowns)
      | Inr (vd, False) \<Rightarrow>
          (case reserveRefresh (wr_clock run 8) domain cooldowns of
             (Inl e, cooldowns') \<Rightarrow> (Inl e, cooldowns')
           | (Inr _, cooldowns') \<Rightarrow>
               (bindE (waitForVerification (wr_refreshWait run) (wr_refreshDomain run domain (wv_peerCert opts))) (\<lambda>vd'.
                bindE (boundWba P L W C skew run 9 params dir domain u vd') (\<lambda>ok.
                if ok then Inr vd' else Inl (invalidWba ''WBA key is not bound to the current DNSid operational signing key''))),
                cooldowns')))"

definition consumeNonce ::
    "http_lib \<Rightarrow> rat \<Rightarrow> WebBotAuthVerificationOptions \<Rightarrow> wba_run \<Rightarrow> SignatureParams \<Rightarrow> jstring \<Rightarrow> js_error + unit" where
  "consumeNonce L skew opts run params domain =
     (if \<not> wv_consumeNonce opts then Inr ()
      else case sp_nonce params of
        Some (c # nonce) \<Rightarrow>
          bindE (waitForVerification (wr_consumeWait run)
             (wr_consume run domain (the (sp_keyId params)) (c # nonce) (roundSum L (of_int (the (sp_expires params))) skew))) (\<lambda>accepted.
          if accepted then Inr () else Inl (invalidWba ''replayed WBA nonce''))
      | _ \<Rightarrow> Inl (invalidWba ''replay policy requires a non-empty nonce''))"

definition verifyWbaWithinBudget ::
    "platform \<Rightarrow> http_lib \<Rightarrow> wba_ops \<Rightarrow> crypto \<Rightarrow> rat \<Rightarrow> WebBotAuthVerificationOptions \<Rightarrow> wba_run \<Rightarrow> http_request \<Rightarrow> cooldowns \<Rightarrow>
     (js_error + VerifiedDomain) \<times> cooldowns" where
  "verifyWbaWithinBudget P L W C skew opts run req cooldowns =
     (case bindE (readRequest P L W C skew opts run req) (\<lambda>((params, sig), domain, u).
           bindE (fetchDirectory P L W C skew run u params) (\<lambda>dir.
           bindE (signatureWba P L C (ResponseMessage (wd_response dir), Some (directoryRequest W u)) (wd_params dir) (wd_signature dir) (wd_key dir)) (\<lambda>_.
           bindE (signatureWba P L C (RequestMessage req, None) params sig (wd_key dir)) (\<lambda>_.
           Inr (params, domain, u, dir))))) of
        Inl e \<Rightarrow> (Inl e, cooldowns)
      | Inr (params, domain, u, dir) \<Rightarrow>
          (case bindIdentity P L W C skew opts run params dir domain u cooldowns of
             (result, cooldowns') \<Rightarrow>
               (bindE result (\<lambda>vd.
                bindE (freshWba L W skew run 13 params dir vd) (\<lambda>_.
                bindE (consumeNonce L skew opts run params domain) (\<lambda>_.
                bindE (freshWba L W skew run 17 params dir vd) (\<lambda>_. Inr vd)))), cooldowns')))"

definition verifyWebBotAuthRequest ::
    "platform \<Rightarrow> http_lib \<Rightarrow> wba_ops \<Rightarrow> crypto \<Rightarrow> rat \<Rightarrow> WebBotAuthVerificationOptions \<Rightarrow> wait \<Rightarrow> bool \<Rightarrow> wba_run \<Rightarrow> http_request \<Rightarrow> cooldowns \<Rightarrow>
     (js_error + VerifiedDomain) \<times> cooldowns" where
  "verifyWebBotAuthRequest P L W C skew opts budget late run req cooldowns =
     (case checkRequired (wv_requiredComponents opts) of
        Inl e \<Rightarrow> (Inl e, cooldowns)
      | Inr _ \<Rightarrow>
          (case verifyWbaWithinBudget P L W C skew opts run req cooldowns of
             (result, cooldowns') \<Rightarrow>
               (withVerificationBudget (wv_timeoutMs opts) budget late result,
                if validTimeout (wv_timeoutMs opts) \<and> started budget then cooldowns' else cooldowns)))"

end
