(* ===== verification/WebBotSound.thy ===== *)
theory WebBotSound
  imports WebBotAuth HttpSound
begin

text \<open>What a verified Web Bot Auth request guarantees, and how often identities are refreshed.\<close>

section \<open>Stages of a verification\<close>




























section \<open>Soundness\<close>


section \<open>Refreshes\<close>













end
