(* ===== verification/WebBotExample.thy ===== *)
theory WebBotExample
  imports WebBotSound HttpExample
begin

text \<open>A Web Bot Auth request on concrete inputs: a signed request, the signed directory of its agent, and the identity of the trusted domain.\<close>

section \<open>The messages\<close>















section \<open>The fields\<close>














section \<open>The directory\<close>








section \<open>The request\<close>



















end
