(* ===== verification/Spec2Isabelle.thy ===== *)
theory Spec2Isabelle
  imports ManagerExample TileAdvance Policy LocalKeysExample Publication Retry HttpExample WebBotExample
begin

text \<open>
  A verification development of the DNSid SDK, a TypeScript library with which agents publish and verify
  identities that are bound to domain names. The paths below are relative to \<open>src/packages\<close>.

  \<^bold>\<open>The program.\<close> An agent publishes a signed \<open>_dnsid\<close> TXT record, two key sets (entity keys and operational
  keys), a status document, and lifecycle events in a transparency log. The protocol package verifies
  a domain: \<open>identity-manager.ts\<close> looks the record up, checks DNSSEC and the record's signature, fetches keys
  and status concurrently, binds the keys to the log, and keeps results in a cache that concurrent
  callers share. The log package verifies C2SP transparency logs: Merkle proofs, hash tiles, signed
  checkpoints, witness policies, a store of trusted checkpoints that may only grow, and the lifecycle of an
  identity as the events of a log. HTTP messages are signed with the operational key and verified against a
  verified domain. The SDK adds a file-backed key provider; the manager rotates its keys and creates the
  records to publish.

  \<^bold>\<open>Theories and sources.\<close>
  \<^item> \<open>Prelude\<close>, \<open>Errors\<close>, \<open>Json\<close>: strings as UTF-16 code units, bytes, results as sums, values of the language,
    the error classes (\<open>protocol/src/errors.ts\<close>, \<open>log-c2sp-tlog/src/errors.ts\<close>), and a contract for codecs.
  \<^item> \<open>Utf8\<close>, \<open>JsonText\<close>, \<open>StrictJson\<close>: \<open>TextEncoder\<close>, \<open>JSON.parse\<close> and \<open>strict-json.ts\<close>: accepted text has no
    duplicate members, compact tokens have one form.
  \<^item> \<open>Names\<close>, \<open>Base64\<close>, \<open>Jwks\<close>: \<open>utils.ts\<close>, \<open>jwks.ts\<close>: names, key identifiers, base64url, keys and signature
    checks. Normalization is idempotent, selection of a key is unambiguous, verification fails closed.
  \<^item> \<open>TxtRecord\<close>: \<open>txt-record.ts\<close>. Round trips of the record and its canonical form, which covers every tag.
  \<^item> \<open>AgentStatus\<close>, \<open>Lifecycle\<close>, \<open>VerifiedDomain\<close>: \<open>agent-status.ts\<close>, \<open>types.ts\<close>, \<open>log-events.ts\<close>, \<open>log.ts\<close>,
    \<open>verified-domain.ts\<close>, \<open>identity-cache.ts\<close>. Snapshots refine a step relation of lifecycle states; the
    cache implements the last-write contract stated as a locale.
  \<^item> \<open>IdentityVerify\<close>, \<open>Sharing\<close>, \<open>Manager\<close>, \<open>Budget\<close>, \<open>Retry\<close>, \<open>Config\<close>: the verification part of
    \<open>identity-manager.ts\<close>, with \<open>log-registry.ts\<close>, \<open>verification-budget.ts\<close> and \<open>retry.ts\<close>. A verification that
    succeeds has passed every check; the shared operations are a step relation with an invariant on
    its three maps; calls are runs of that relation and enforce the acceptance policy; a validated
    configuration is in normal form.
  \<^item> \<open>Signing\<close>, \<open>Publication\<close>, \<open>LocalKeys\<close>: the signing part of \<open>identity-manager.ts\<close>, \<open>key-provider.ts\<close> as a
    locale, and \<open>sdk/src/local-key-provider.ts\<close>, which interprets it under every file fault. Rotation is a
    transaction, and what is published verifies. An activation waits for the signatures that are in flight
    when it begins and for no others; that no later one is in its way is proved from the refusal in \<open>signKey\<close>.
  \<^item> \<open>Merkle\<close>, \<open>Consistency\<close>: \<open>merkle.ts\<close> and the proof verifier of \<open>checkpoint-trust.ts\<close>, sound and complete
    against the trees of RFC 6962.
  \<^item> \<open>Numerals\<close>, \<open>Tiles\<close>, \<open>SignedNote\<close>, \<open>Policy\<close>: \<open>tiles.ts\<close>, \<open>checkpoint.ts\<close>, \<open>signed-note.ts\<close>, \<open>policy.ts\<close>,
    \<open>proof.ts\<close>: paths, bundles, checkpoints, cosignatures, quorums and proofs.
  \<^item> \<open>HashTiles\<close>: \<open>hash-tiles.ts\<close>. The root of a prefix from tiles that are authenticated against a larger root:
    it is the root of the prefix whatever the reader answers, and the computation ends.
  \<^item> \<open>CheckpointTrust\<close>, \<open>TileAdvance\<close>: the rest of \<open>checkpoint-trust.ts\<close>. The store is a locale interpreted by the
    in-memory map; advancing it under concurrent writers refines an append-only specification. \<open>TileAdvance\<close>
    joins it with the tile evidence of \<open>stream-source.ts\<close>: every kind of evidence proves a prefix.
  \<^item> \<open>Canonical\<close>, \<open>EventCodec\<close>, \<open>Lr\<close> with \<open>CanonicalText\<close>, \<open>CanonicalRoundtrip\<close>, \<open>EventCodecRoundtrip\<close>: \<open>canonical.ts\<close>,
    \<open>event-codec.ts\<close>, \<open>lr.ts\<close>. Canonical bytes are unique and parse back, the bytes that a verifier recovers are
    those that were signed.
  \<^item> \<open>StreamVerifier\<close>, \<open>StreamChain\<close>, \<open>StreamSelection\<close>, \<open>MigrationHistory\<close>: \<open>stream-verifier.ts\<close>. A verified
    lifecycle satisfies the relation \<open>accepted\<close>, its head commits to it, no authentic entry is left out of a
    selection, and it refines the protocol's own histories.
  \<^item> \<open>HttpFields\<close>, \<open>HttpParsing\<close>, \<open>HttpSignatures\<close>, \<open>HttpResponses\<close>, \<open>HttpBase\<close>, \<open>HttpSound\<close>: \<open>http-signatures/src/index.ts\<close>. The signature
    base is unambiguous, the verifier of a signed request rebuilds the base that was signed, verified
    requests and negotiated responses are authentic, fresh and have the covered content.
  \<^item> \<open>WebBotAuth\<close>, \<open>WebBotSound\<close>: \<open>web-bot-auth/src/verify.ts\<close>. A verified request is bound to the operational key of
    the trusted domain; refreshes that a key mismatch causes are limited.
  \<^item> \<open>IdentityExample\<close>, \<open>ManagerExample\<close>, \<open>LocalKeysExample\<close>, \<open>EventCodecExample\<close>, \<open>StreamExample\<close>, \<open>HttpExample\<close>, \<open>WebBotExample\<close>:
    complete runs on concrete inputs, the witnesses of the theorems with hypotheses. A few theorems, such as
    \<open>verifyInclusion_index_confusion\<close> and \<open>createTxtRecord_unparseable\<close>, compute the cases behind the findings of the
    manifest.

  \<^bold>\<open>Parameters.\<close> SHA-256, the \<open>jose\<close> import and thumbprint, WebCrypto, the URL parser, Unicode tables, dates,
  clocks, the structured field package, the answers of DNS and HTTP and of the file system, the identity
  resolver of the HTTP packages, and the order of concurrent steps are arguments of the model; what a
  theorem needs of them is among its hypotheses. Collision freedom is assumed only for the finitely many
  strings that the check at hand hashes.

  \<^bold>\<open>Bounds.\<close> Loops are structural or have a termination proof, with two exceptions. The recursion on tiles has
  fuel 64, more than the levels of any tree of a safe integer size; that it is enough is a theorem. The JSON
  parser has fuel for twice the length of the text and two more, which is enough for every text.
  Times and sizes are exact integers and rationals; sums that the code rounds are parameters.

  \<^bold>\<open>Not modelled.\<close> Network clients, JOSE and OpenID Connect messages beyond compact tokens, the registry client,
  the cloud key services, the HTTP reader and writer of logs, the signing side of Web Bot Auth and the
  loading of configuration files are outside of this development; the manifest lists them.
\<close>

end
